(* ===== verification/Prelude.thy ===== *)
theory Prelude
  imports Main "HOL-Library.Word"
begin

text \<open>
  Shared vocabulary of the development.

  \<^item> \<open>byte\<close> and \<open>bytes\<close>: Python's \<^verbatim>\<open>bytes\<close> objects, as lists of 8-bit words.
  \<^item> \<open>py_error\<close>: the exception classes of \<^verbatim>\<open>src/src/core/exceptions.py\<close> the modelled code
    raises, and the built-in exceptions its statements can raise (messages are dropped).
    \<open>PeerProtocolError\<close> is a \<^verbatim>\<open>NetworkError\<close> whose message marks a violation of the peer protocol, which the
    node recognises by its text.
  \<^item> \<open>'a result\<close>: a Python call that returns a value (\<open>Inr\<close>) or raises (\<open>Inl\<close>), with
    \<open>bindR\<close> for sequencing: the first exception ends the computation.
  \<^item> \<open>int.to_bytes\<close>, \<open>int.from_bytes\<close> and slicing of the Python standard library, written out.
  \<^item> \<open>read_many\<close> and \<open>write_all\<close>: the loops \<^verbatim>\<open>[C.from_bytes(stream) for _ in range(n)]\<close> and
    \<^verbatim>\<open>b''.join([x.to_bytes() for x in xs])\<close>.
  \<^item> the interface \<open>codec\<close>: a serialiser and a parser that reads what the serialiser wrote and
    leaves the rest of the stream. Its client lemmas give the round trip of counted lists.

  A byte stream (\<^verbatim>\<open>BytesIO\<close>) is modelled by the bytes that are still to be read.
\<close>

section \<open>Bytes, errors and results\<close>

type_synonym byte = "8 word"
type_synonym bytes = "8 word list"

datatype py_error =
    AttributeError | IndexError | KeyError | OverflowError | TypeError | ValueError
  | ZeroDivisionError | NoReturn | IntegrityError | FileNotFoundError | RuntimeError | StopIteration
  | BitNumError | BitStackError | CoinbaseError | DataEncodingError | ECCError | ECDSAError | MerkleError
  | NetworkDataError | OpCodeError | PubKeyError | ReadError | SchnorrError | ScriptEngineError
  | ScriptPubKeyError | ScriptSigError | SignatureError | StreamError | TaprootError
  | TargetBitsError | TransactionError | WriteError | NetworkError | ConnectionError | WalletError
  | ExtendedKeyError | ECCPrivateKeyError | PeerProtocolError

type_synonym 'a result = "py_error + 'a"

named_theorems result_iff \<open>when a sequenced computation returns or raises\<close>
named_theorems eval_simps \<open>equations that compute closed instances of the models\<close>

definition bindR :: "'a result \<Rightarrow> ('a \<Rightarrow> 'b result) \<Rightarrow> 'b result" where
  "bindR m f = (case m of Inl e \<Rightarrow> Inl e | Inr x \<Rightarrow> f x)"

lemma bindR_simps [simp, eval_simps]:
  "bindR (Inl e) f = Inl e"
  "bindR (Inr x) f = f x"
  by (simp_all add: bindR_def)

lemma bindR_Inr_iff [result_iff]: "bindR m f = Inr y \<longleftrightarrow> (\<exists>x. m = Inr x \<and> f x = Inr y)"
  by (cases m) auto

lemma bindR_Inl_iff [result_iff]:
  "bindR m f = Inl e \<longleftrightarrow> m = Inl e \<or> (\<exists>x. m = Inr x \<and> f x = Inl e)"
  by (cases m) auto

lemma bindR_InrE [elim!]:
  assumes "bindR m f = Inr y"
  obtains x where "m = Inr x" and "f x = Inr y"
  using assms by (auto simp: bindR_Inr_iff)

lemma bindR_assoc: "bindR (bindR m f) g = bindR m (\<lambda>x. bindR (f x) g)"
  by (cases m) auto

lemma bindR_cong [fundef_cong]:
  "m = m' \<Longrightarrow> (\<And>x. m' = Inr x \<Longrightarrow> f x = f' x) \<Longrightarrow> bindR m f = bindR m' f'"
  by (cases m') auto

definition guardR :: "bool \<Rightarrow> py_error \<Rightarrow> unit result" where
  "guardR b e = (if b then Inr () else Inl e)"

lemma guardR_simps [simp, eval_simps]:
  "guardR True e = Inr ()"
  "guardR False e = Inl e"
  by (simp_all add: guardR_def)

lemma guardR_Inr_iff [simp, result_iff]: "guardR b e = Inr u \<longleftrightarrow> b"
  by (simp add: guardR_def)

lemma if_Inr_iff [result_iff]:
  "(if b then Inr x else Inl e) = Inr y \<longleftrightarrow> b \<and> x = y"
  "(if b then Inl e else Inr x) = Inr y \<longleftrightarrow> \<not> b \<and> x = y"
  by auto

definition is_ok :: "'a result \<Rightarrow> bool" where
  "is_ok r = (case r of Inl _ \<Rightarrow> False | Inr _ \<Rightarrow> True)"

lemma is_ok_simps [simp, eval_simps]: "is_ok (Inl e) = False" "is_ok (Inr x) = True"
  by (simp_all add: is_ok_def)

lemma is_ok_iff: "is_ok r \<longleftrightarrow> (\<exists>x. r = Inr x)"
  by (cases r) auto

section \<open>Python integers as bytes\<close>

fun le_val :: "bytes \<Rightarrow> int" where
  "le_val [] = 0"
| "le_val (b # bs) = uint b + 256 * le_val bs"

definition be_val :: "bytes \<Rightarrow> int" where
  "be_val bs = le_val (rev bs)"

fun le_bytes :: "nat \<Rightarrow> int \<Rightarrow> bytes" where
  "le_bytes 0 v = []"
| "le_bytes (Suc n) v = word_of_int v # le_bytes n (v div 256)"

definition to_bytes_le :: "nat \<Rightarrow> int \<Rightarrow> bytes result" where
  "to_bytes_le n v = (if v < 0 \<or> 256 ^ n \<le> v then Inl OverflowError else Inr (le_bytes n v))"

definition to_bytes_be :: "nat \<Rightarrow> int \<Rightarrow> bytes result" where
  "to_bytes_be n v = (if v < 0 \<or> 256 ^ n \<le> v then Inl OverflowError else Inr (rev (le_bytes n v)))"

lemma length_le_bytes [simp]: "length (le_bytes n v) = n"
  by (induction n arbitrary: v) auto

lemma le_val_nonneg [simp]: "0 \<le> le_val bs"
  by (induction bs) auto

lemma le_val_bound: "le_val bs < 256 ^ length bs"
proof (induction bs)
  case Nil
  then show ?case by simp
next
  case (Cons b bs)
  have "uint b < 256" using uint_lt2p [of b] by simp
  with Cons.IH show ?case by simp
qed

lemma uint_byte_bounds: "0 \<le> uint (b :: byte)" "uint (b :: byte) < 256"
  using uint_lt2p [of b] by simp_all

lemma le_val_le_bytes: "0 \<le> v \<Longrightarrow> v < 256 ^ n \<Longrightarrow> le_val (le_bytes n v) = v"
proof (induction n arbitrary: v)
  case 0
  then show ?case by simp
next
  case (Suc n)
  have "v div 256 < 256 ^ n" using Suc.prems by (simp add: div_less_iff_less_mult)
  moreover have "0 \<le> v div 256" using Suc.prems by simp
  ultimately have "le_val (le_bytes n (v div 256)) = v div 256" by (rule Suc.IH [rotated])
  moreover have "uint (word_of_int v :: byte) = v mod 256"
    by (simp add: uint_word_of_int)
  ultimately show ?case by simp
qed

lemma le_bytes_le_val [simp]: "le_bytes (length bs) (le_val bs) = bs"
proof (induction bs)
  case Nil
  then show ?case by simp
next
  case (Cons b bs)
  have "(uint b + 256 * le_val bs) div 256 = le_val bs"
    using uint_byte_bounds [of b] by simp
  moreover have "(word_of_int (uint b + 256 * le_val bs) :: byte) = b"
  proof (rule word_uint_eqI)
    have "uint (word_of_int (uint b + 256 * le_val bs) :: byte) = (uint b + 256 * le_val bs) mod 256"
      by (simp only: uint_word_of_int) simp
    then show "uint (word_of_int (uint b + 256 * le_val bs) :: byte) = uint b"
      using uint_byte_bounds [of b] by simp
  qed
  ultimately show ?case using Cons.IH by simp
qed

lemma le_val_append: "le_val (xs @ ys) = le_val xs + 256 ^ length xs * le_val ys"
  by (induction xs) (auto simp: algebra_simps)

lemma le_val_inj: "length xs = length ys \<Longrightarrow> le_val xs = le_val ys \<Longrightarrow> xs = ys"
  by (metis le_bytes_le_val)

lemma to_bytes_le_Inr_iff [result_iff]:
  "to_bytes_le n v = Inr bs \<longleftrightarrow> length bs = n \<and> le_val bs = v"
proof
  assume "to_bytes_le n v = Inr bs"
  then show "length bs = n \<and> le_val bs = v"
    by (auto simp: to_bytes_le_def le_val_le_bytes split: if_splits)
next
  assume a: "length bs = n \<and> le_val bs = v"
  then have "0 \<le> v" "v < 256 ^ n" using le_val_bound [of bs] by auto
  with a show "to_bytes_le n v = Inr bs" by (auto simp: to_bytes_le_def)
qed

lemma to_bytes_be_Inr_iff [result_iff]:
  "to_bytes_be n v = Inr bs \<longleftrightarrow> length bs = n \<and> be_val bs = v"
proof -
  have "to_bytes_be n v = Inr bs \<longleftrightarrow> to_bytes_le n v = Inr (rev bs)"
    by (auto simp: to_bytes_be_def to_bytes_le_def)
  then show ?thesis by (auto simp: to_bytes_le_Inr_iff be_val_def)
qed

lemma to_bytes_le_Inl [simp]: "to_bytes_le n v = Inl e \<longleftrightarrow> (v < 0 \<or> 256 ^ n \<le> v) \<and> e = OverflowError"
  by (auto simp: to_bytes_le_def)

lemma be_val_nonneg [simp]: "0 \<le> be_val bs"
  by (simp add: be_val_def)

lemma be_val_bound: "be_val bs < 256 ^ length bs"
  using le_val_bound [of "rev bs"] by (simp add: be_val_def)

text \<open>\<^verbatim>\<open>int.bit_length()\<close> of a non-negative integer, and the number of bytes that hold it.\<close>

fun bit_length :: "nat \<Rightarrow> nat" where
  "bit_length n = (if n = 0 then 0 else Suc (bit_length (n div 2)))"

declare bit_length.simps [simp del]

lemma bit_length_0 [simp]: "bit_length 0 = 0"
  by (simp add: bit_length.simps)

lemma bit_length_upper: "n < 2 ^ bit_length n"
proof (induction n rule: bit_length.induct)
  case (1 n)
  show ?case
  proof (cases "n = 0")
    case False
    with 1 have "n div 2 < 2 ^ bit_length (n div 2)" by simp
    then have "n < 2 * 2 ^ bit_length (n div 2)" by linarith
    with False show ?thesis by (simp add: bit_length.simps [of n])
  qed simp
qed

lemma bit_length_lower: "0 < n \<Longrightarrow> 2 ^ (bit_length n - 1) \<le> n"
proof (induction n rule: bit_length.induct)
  case (1 n)
  show ?case
  proof (cases "n div 2 = 0")
    case True
    with "1.prems" show ?thesis by (simp add: bit_length.simps [of n])
  next
    case False
    then have pos: "0 < bit_length (n div 2)" by (simp add: bit_length.simps [of "n div 2"])
    from False 1 have "2 ^ (bit_length (n div 2) - 1) \<le> n div 2" by simp
    then have "2 * 2 ^ (bit_length (n div 2) - 1) \<le> n" by linarith
    with pos have "2 ^ bit_length (n div 2) \<le> n" by (simp flip: power_Suc)
    with "1.prems" show ?thesis by (simp add: bit_length.simps [of n])
  qed
qed

lemma bit_length_le: "n < 2 ^ k \<Longrightarrow> bit_length n \<le> k"
proof (rule ccontr)
  assume a: "n < 2 ^ k" and "\<not> bit_length n \<le> k"
  then have "k \<le> bit_length n - 1" by simp
  then have "(2 :: nat) ^ k \<le> 2 ^ (bit_length n - 1)" by (rule power_increasing) simp
  also have "\<dots> \<le> n"
    using \<open>\<not> bit_length n \<le> k\<close> by (intro bit_length_lower) (cases n; simp)
  finally show False using a by simp
qed

definition byte_length :: "nat \<Rightarrow> nat" where
  "byte_length n = (bit_length n + 7) div 8"

lemma byte_length_upper: "n < 256 ^ byte_length n"
proof -
  have "bit_length n \<le> 8 * byte_length n" by (simp add: byte_length_def)
  then have "(2 :: nat) ^ bit_length n \<le> 2 ^ (8 * byte_length n)" by (rule power_increasing) simp
  also have "\<dots> = 256 ^ byte_length n" by (simp add: power_mult)
  finally show ?thesis using bit_length_upper [of n] by simp
qed

lemma byte_length_le: "n < 256 ^ k \<Longrightarrow> byte_length n \<le> k"
proof -
  assume "n < 256 ^ k"
  then have "n < 2 ^ (8 * k)" by (simp add: power_mult)
  then have "bit_length n \<le> 8 * k" by (rule bit_length_le)
  then show ?thesis by (simp add: byte_length_def)
qed

section \<open>Slices and counted sequences\<close>

text \<open>
  Python list indexing with a non-negative index: out of range raises \<^verbatim>\<open>IndexError\<close>.
\<close>

definition index_at :: "'a list \<Rightarrow> nat \<Rightarrow> 'a result" where
  "index_at xs i = (if i < length xs then Inr (xs ! i) else Inl IndexError)"

lemma index_at_Inr_iff [result_iff]: "index_at xs i = Inr x \<longleftrightarrow> i < length xs \<and> xs ! i = x"
  by (auto simp: index_at_def)

lemma index_at_Cons [eval_simps]:
  "index_at [] i = Inl IndexError"
  "index_at (x # xs) 0 = Inr x"
  "index_at (x # xs) (Suc i) = index_at xs i"
  by (auto simp: index_at_def)

text \<open>Indexing with any Python integer: a negative index counts from the end.\<close>

definition py_index :: "'a list \<Rightarrow> int \<Rightarrow> 'a result" where
  "py_index xs i =
     (let j = (if i < 0 then i + int (length xs) else i)
      in if 0 \<le> j \<and> j < int (length xs) then Inr (xs ! nat j) else Inl IndexError)"

lemma py_index_nat: "0 \<le> i \<Longrightarrow> py_index xs i = index_at xs (nat i)"
  by (auto simp: py_index_def index_at_def Let_def nat_less_iff)

fun read_many :: "(bytes \<Rightarrow> ('a \<times> bytes) result) \<Rightarrow> nat \<Rightarrow> bytes \<Rightarrow> ('a list \<times> bytes) result" where
  "read_many d 0 bs = Inr ([], bs)"
| "read_many d (Suc n) bs =
     bindR (d bs) (\<lambda>(x, bs1). bindR (read_many d n bs1) (\<lambda>(xs, bs2). Inr (x # xs, bs2)))"

fun write_all :: "('a \<Rightarrow> bytes result) \<Rightarrow> 'a list \<Rightarrow> bytes result" where
  "write_all e [] = Inr []"
| "write_all e (x # xs) = bindR (e x) (\<lambda>b. bindR (write_all e xs) (\<lambda>bs. Inr (b @ bs)))"

text \<open>
  List comprehensions, generators and loops over calls that may raise: \<open>mapR\<close> collects, \<open>sumR\<close> adds,
  \<open>anyR\<close> is \<^verbatim>\<open>any(...)\<close> with its short circuit, \<open>foldR\<close> a loop over a state.
\<close>

fun mapR :: "('a \<Rightarrow> 'b result) \<Rightarrow> 'a list \<Rightarrow> 'b list result" where
  "mapR f [] = Inr []"
| "mapR f (x # xs) = bindR (f x) (\<lambda>y. bindR (mapR f xs) (\<lambda>ys. Inr (y # ys)))"

fun sumR :: "('a \<Rightarrow> int result) \<Rightarrow> 'a list \<Rightarrow> int result" where
  "sumR f [] = Inr 0"
| "sumR f (x # xs) = bindR (f x) (\<lambda>n. bindR (sumR f xs) (\<lambda>m. Inr (n + m)))"

fun anyR :: "('a \<Rightarrow> bool result) \<Rightarrow> 'a list \<Rightarrow> bool result" where
  "anyR f [] = Inr False"
| "anyR f (x # xs) = bindR (f x) (\<lambda>b. if b then Inr True else anyR f xs)"

fun foldR :: "('s \<Rightarrow> 'a \<Rightarrow> 's result) \<Rightarrow> 's \<Rightarrow> 'a list \<Rightarrow> 's result" where
  "foldR f s [] = Inr s"
| "foldR f s (x # xs) = bindR (f s x) (\<lambda>s1. foldR f s1 xs)"

lemma mapR_Inr_iff [result_iff]: "mapR f xs = Inr ys \<longleftrightarrow> list_all2 (\<lambda>x y. f x = Inr y) xs ys"
  by (induction xs arbitrary: ys) (auto simp: list_all2_Cons1 bindR_Inr_iff)

lemma mapR_length: "mapR f xs = Inr ys \<Longrightarrow> length ys = length xs"
  by (auto simp: mapR_Inr_iff dest: list_all2_lengthD)

lemma mapR_append:
  "mapR f (xs @ ys) = bindR (mapR f xs) (\<lambda>as. bindR (mapR f ys) (\<lambda>bs. Inr (as @ bs)))"
  by (induction xs) (auto simp: bindR_assoc, cases "mapR f ys", auto)

lemma anyR_Inr_False: "anyR f xs = Inr False \<longleftrightarrow> (\<forall>x \<in> set xs. f x = Inr False)"
  by (induction xs) (auto simp: bindR_Inr_iff split: if_splits)

lemma foldR_append: "foldR f s (xs @ ys) = bindR (foldR f s xs) (\<lambda>s1. foldR f s1 ys)"
  by (induction xs arbitrary: s) (auto simp: bindR_assoc)

lemma foldR_invariant:
  "foldR f s xs = Inr s' \<Longrightarrow> P s \<Longrightarrow> (\<And>s x s'. x \<in> set xs \<Longrightarrow> P s \<Longrightarrow> f s x = Inr s' \<Longrightarrow> P s') \<Longrightarrow> P s'"
  by (induction xs arbitrary: s) auto

lemma read_many_length: "read_many d n bs = Inr (xs, rest) \<Longrightarrow> length xs = n"
  by (induction n arbitrary: bs xs rest) (auto split: prod.splits)

section \<open>The codec interface\<close>

text \<open>
  \<open>enc\<close> serialises (and may raise), \<open>dec\<close> reads one value from the front of a stream and
  returns the rest of it, \<open>wf\<close> says which values the wire format can hold.
\<close>

locale codec =
  fixes enc :: "'a \<Rightarrow> bytes result"
    and dec :: "bytes \<Rightarrow> ('a \<times> bytes) result"
    and wf :: "'a \<Rightarrow> bool"
  assumes dec_enc: "wf x \<Longrightarrow> enc x = Inr bs \<Longrightarrow> dec (bs @ rest) = Inr (x, rest)"
begin

lemma enc_inj: "wf x \<Longrightarrow> wf y \<Longrightarrow> enc x = Inr bs \<Longrightarrow> enc y = Inr bs \<Longrightarrow> x = y"
  using dec_enc [of x bs "[]"] dec_enc [of y bs "[]"] by simp

lemma enc_prefix_free:
  "wf x \<Longrightarrow> wf y \<Longrightarrow> enc x = Inr bs \<Longrightarrow> enc y = Inr cs \<Longrightarrow> bs @ r = cs @ s \<Longrightarrow> x = y"
  using dec_enc [of x bs r] dec_enc [of y cs s] by simp

lemma read_many_write_all:
  "list_all wf xs \<Longrightarrow> write_all enc xs = Inr bs \<Longrightarrow>
    read_many dec (length xs) (bs @ rest) = Inr (xs, rest)"
proof (induction xs arbitrary: bs)
  case Nil
  then show ?case by simp
next
  case (Cons x xs)
  then obtain b c where "enc x = Inr b" "write_all enc xs = Inr c" "bs = b @ c"
    by auto
  with Cons show ?case using dec_enc [of x b "c @ rest"] by simp
qed

end

text \<open>A codec whose encodings all have the same width, so that a stream can be skipped.\<close>

locale fixed_codec = codec enc dec wf
  for enc :: "'a \<Rightarrow> bytes result" and dec :: "bytes \<Rightarrow> ('a \<times> bytes) result" and wf :: "'a \<Rightarrow> bool" +
  fixes width :: nat
  assumes enc_width: "wf x \<Longrightarrow> enc x = Inr bs \<Longrightarrow> length bs = width"
begin

lemma write_all_width:
  "list_all wf xs \<Longrightarrow> write_all enc xs = Inr bs \<Longrightarrow> length bs = width * length xs"
  by (induction xs arbitrary: bs) (auto simp: enc_width)

end

end
