(* ===== verification/Bit_Num.thy ===== *)
theory Bit_Num
  imports Prelude
begin

unbundle bit_operations_syntax

text \<open>
  \<^verbatim>\<open>BitNum\<close> of \<^verbatim>\<open>src/src/script/stack.py\<close>: Script integers. A \<^verbatim>\<open>BitNum\<close> object is its
  Python integer (the bytes cache only memoises \<^verbatim>\<open>_encode\<close>, so it is not a field of the model).
  The lemmas give the encoder's range, that decoding undoes it, and that it is minimal.
\<close>

section \<open>The code\<close>

definition MAX_BITNUM :: nat where "MAX_BITNUM = 4"

definition bitnum_encode :: "int \<Rightarrow> bytes result" where
  "bitnum_encode n =
     (if n = 0 then Inr [] else
      let neg = n < 0;
          a = (if neg then - n else n);
          mag = le_bytes (byte_length (nat a)) a;
          predicted_len = length mag + (if last mag AND 0x80 \<noteq> 0 then 1 else 0)
      in if predicted_len > MAX_BITNUM then Inl BitNumError
         else if last mag AND 0x80 \<noteq> 0 then Inr (mag @ (if neg then [0x80] else [0x00]))
         else if neg then Inr (butlast mag @ [last mag OR 0x80])
         else Inr mag)"

definition bitnum_from_bytes :: "bytes \<Rightarrow> int result" where
  "bitnum_from_bytes data =
     (if data = [] then Inr 0
      else if length data > MAX_BITNUM then Inl BitNumError
      else let num = le_val data
           in if last data AND 0x80 \<noteq> 0
              then Inr (- (num AND NOT (push_bit (8 * length data - 1) 1)))
              else Inr num)"

text \<open>
  The operand of a \<^verbatim>\<open>BitNum\<close> operator: another \<^verbatim>\<open>BitNum\<close>, an integer, encoded bytes, or an
  object of any other type.
\<close>

datatype operand = OpNum int | OpInt int | OpBytes bytes | OpOther

fun extract_other :: "operand \<Rightarrow> int result" where
  "extract_other (OpNum v) = Inr v"
| "extract_other (OpInt v) = Inr v"
| "extract_other (OpBytes b) = bitnum_from_bytes b"
| "extract_other OpOther = Inl BitNumError"

definition bitnum_add :: "int \<Rightarrow> operand \<Rightarrow> int result" where
  "bitnum_add self other = bindR (extract_other other) (\<lambda>num. Inr (self + num))"

definition bitnum_sub :: "int \<Rightarrow> operand \<Rightarrow> int result" where
  "bitnum_sub self other = bindR (extract_other other) (\<lambda>num. Inr (self - num))"

definition bitnum_rsub :: "int \<Rightarrow> operand \<Rightarrow> int result" where
  "bitnum_rsub self other = bindR (extract_other other) (\<lambda>num. Inr (num - self))"

definition bitnum_eq :: "int \<Rightarrow> operand \<Rightarrow> bool result" where
  "bitnum_eq self other = bindR (extract_other other) (\<lambda>num. Inr (self = num))"

definition bitnum_lt :: "int \<Rightarrow> operand \<Rightarrow> bool result" where
  "bitnum_lt self other = bindR (extract_other other) (\<lambda>num. Inr (self < num))"

definition bitnum_le :: "int \<Rightarrow> operand \<Rightarrow> bool result" where
  "bitnum_le self other = bindR (extract_other other) (\<lambda>num. Inr (self \<le> num))"

definition bitnum_gt :: "int \<Rightarrow> operand \<Rightarrow> bool result" where
  "bitnum_gt self other = bindR (extract_other other) (\<lambda>num. Inr (self > num))"

definition bitnum_ge :: "int \<Rightarrow> operand \<Rightarrow> bool result" where
  "bitnum_ge self other = bindR (extract_other other) (\<lambda>num. Inr (self \<ge> num))"

section \<open>Bit facts on bytes\<close>

lemma bit7_uint: "bit (uint (b :: byte)) 7 \<longleftrightarrow> 128 \<le> uint b"
proof -
  have "uint b div 128 = (if 128 \<le> uint b then 1 else 0)"
    using uint_byte_bounds [of b] by (auto simp: div_pos_geq)
  then show ?thesis by (simp add: bit_iff_odd)
qed

lemma bit7_iff: "(b AND 0x80 \<noteq> 0) \<longleftrightarrow> 128 \<le> uint (b :: byte)"
proof -
  have "(b AND 0x80 \<noteq> 0) \<longleftrightarrow> bit b 7"
    using and_exp_eq_0_iff_not_bit [of b 7] by simp
  also have "\<dots> \<longleftrightarrow> bit (uint b) 7" by (simp add: bit_uint_iff)
  finally show ?thesis by (simp add: bit7_uint)
qed

lemma uint_or_80:
  assumes "\<not> 128 \<le> uint (b :: byte)"
  shows "uint (b OR 0x80) = uint b + 128"
proof -
  have "uint (b OR 0x80) = uint b OR push_bit 7 1"
    by (simp add: unsigned_or_eq)
  also have "\<dots> = set_bit 7 (uint b)" by (simp add: set_bit_eq_or)
  also have "\<dots> = uint b + 128" using assms by (simp add: set_bit_eq bit7_uint)
  finally show ?thesis .
qed

lemma le_val_snoc: "le_val (xs @ [b]) = le_val xs + 256 ^ length xs * uint b"
  by (simp add: le_val_append)

lemma le_val_butlast: "xs \<noteq> [] \<Longrightarrow> le_val xs = le_val (butlast xs) + 256 ^ (length xs - 1) * uint (last xs)"
  using le_val_snoc [of "butlast xs" "last xs"] by simp

lemma clear_sign_bit:
  assumes "0 \<le> low" "low < 256 ^ m" "128 \<le> l" "l < 256"
  shows "(low + 256 ^ m * l) AND NOT (push_bit (8 * Suc m - 1) 1) = low + 256 ^ m * (l - 128 :: int)"
proof -
  let ?n = "low + 256 ^ m * l" and ?k = "8 * Suc m - 1"
  have k: "(2 :: int) ^ ?k = 256 ^ m * 128" by (simp add: power_add power_mult)
  have "?n div 2 ^ ?k = (?n div 256 ^ m) div 128"
    unfolding k by (rule zdiv_zmult2_eq) simp
  also have "?n div 256 ^ m = l" using assms by (simp add: div_add1_eq [of low] div_pos_pos_trivial)
  also have "l div 128 = 1" using assms by (simp add: div_pos_geq)
  finally have "bit ?n ?k" by (simp add: bit_iff_odd)
  have "?n AND NOT (push_bit ?k 1) = unset_bit ?k ?n"
    by (simp add: unset_bit_eq_and_not)
  also have "\<dots> = ?n - 2 ^ ?k" using \<open>bit ?n ?k\<close> by (simp add: unset_bit_eq)
  finally have "?n AND NOT (push_bit ?k 1) = ?n - 256 ^ m * 128" unfolding k .
  then show ?thesis by (simp add: right_diff_distrib)
qed

section \<open>Decoding as sign and magnitude\<close>

definition script_num_value :: "bytes \<Rightarrow> int" where
  "script_num_value bs =
     (if bs = [] then 0
      else if 128 \<le> uint (last bs) then - (le_val bs - 128 * 256 ^ (length bs - 1))
      else le_val bs)"

lemma bitnum_from_bytes_value:
  "bitnum_from_bytes bs = (if length bs \<le> 4 then Inr (script_num_value bs) else Inl BitNumError)"
proof (cases "bs = []")
  case True
  then show ?thesis by (simp add: bitnum_from_bytes_def script_num_value_def)
next
  case False
  define m where "m = length bs - 1"
  have len: "length bs = Suc m" using False by (cases bs) (auto simp: m_def)
  have val: "le_val bs = le_val (butlast bs) + 256 ^ m * uint (last bs)"
    using False by (simp add: le_val_butlast m_def)
  have low: "le_val (butlast bs) < 256 ^ m" using le_val_bound [of "butlast bs"] by (simp add: m_def)
  show ?thesis
  proof (cases "128 \<le> uint (last bs)")
    case True
    have "le_val bs AND NOT (push_bit (8 * length bs - 1) 1)
        = le_val (butlast bs) + 256 ^ m * (uint (last bs) - 128)"
      unfolding val len using low True uint_byte_bounds [of "last bs"]
      by (intro clear_sign_bit) auto
    with True False show ?thesis
      by (simp add: bitnum_from_bytes_def bit7_iff script_num_value_def MAX_BITNUM_def val len
          algebra_simps)
  next
    case False
    with \<open>bs \<noteq> []\<close> show ?thesis
      by (simp add: bitnum_from_bytes_def bit7_iff script_num_value_def MAX_BITNUM_def)
  qed
qed

section \<open>Encoding\<close>

text \<open>
  The main facts are \<open>bitnum_encode_Inr_iff\<close> (which integers encode), \<open>bitnum_round_trip\<close>,
  and \<open>bitnum_encode_minimal\<close> (the encoding has no redundant last byte).
\<close>

lemma last_le_bytes: "0 < n \<Longrightarrow> last (le_bytes n v) = word_of_int (v div 256 ^ (n - 1))"
proof (induction n arbitrary: v)
  case 0
  then show ?case by simp
next
  case (Suc n)
  show ?case
  proof (cases n)
    case 0
    then show ?thesis by simp
  next
    case (Suc k)
    have "le_bytes n (v div 256) \<noteq> []" using Suc by (metis length_le_bytes list.size(3) nat.distinct(1))
    with Suc.IH Suc show ?thesis by (simp add: zdiv_zmult2_eq)
  qed
qed

lemma mag_facts:
  assumes "0 < a"
  defines "mag \<equiv> le_bytes (byte_length (nat a)) a"
  shows "le_val mag = a" and "mag \<noteq> []" and "0 < uint (last mag)"
proof -
  have "nat a < 256 ^ byte_length (nat a)" by (rule byte_length_upper)
  then have up: "a < 256 ^ byte_length (nat a)"
    using assms by (metis nat_less_numeral_power_cancel_iff)
  then show "le_val mag = a" using assms by (simp add: le_val_le_bytes)
  show ne: "mag \<noteq> []" using up assms
    by (cases "byte_length (nat a)") (auto simp: mag_def)
  show "0 < uint (last mag)"
  proof (rule ccontr)
    assume "\<not> 0 < uint (last mag)"
    then have "uint (last mag) = 0" using uint_byte_bounds [of "last mag"] by simp
    then have "le_val (butlast mag) = a"
      using le_val_butlast [OF ne] \<open>le_val mag = a\<close> by simp
    then have "a < 256 ^ (byte_length (nat a) - 1)"
      using le_val_bound [of "butlast mag"] by (simp add: mag_def)
    then have "nat a < 256 ^ (byte_length (nat a) - 1)"
      using assms by (metis nat_less_numeral_power_cancel_iff)
    then have "byte_length (nat a) \<le> byte_length (nat a) - 1" by (rule byte_length_le)
    then have "byte_length (nat a) = 0" by simp
    with ne show False by (simp add: mag_def)
  qed
qed

lemma bitnum_encode_pos:
  assumes "0 < a"
  defines "mag \<equiv> le_bytes (byte_length (nat a)) a"
  shows "bitnum_encode a = (let pre = length mag + (if 128 \<le> uint (last mag) then 1 else 0) in
      if pre > 4 then Inl BitNumError
      else if 128 \<le> uint (last mag) then Inr (mag @ [0x00]) else Inr mag)"
    and "bitnum_encode (- a) = (let pre = length mag + (if 128 \<le> uint (last mag) then 1 else 0) in
      if pre > 4 then Inl BitNumError
      else if 128 \<le> uint (last mag) then Inr (mag @ [0x80])
      else Inr (butlast mag @ [last mag OR 0x80]))"
  using assms by (simp_all add: bitnum_encode_def bit7_iff MAX_BITNUM_def Let_def)

lemma sign_magnitude_cases:
  obtains (Zero) "(n :: int) = 0" | (Pos) "0 < n" | (Neg) a where "0 < a" "n = - a"
proof -
  consider "n = 0" | "0 < n" | "0 < - n" by linarith
  then show thesis using Zero Pos Neg [of "- n"] by cases auto
qed

lemma bitnum_encode_decodes:
  assumes "bitnum_encode n = Inr bs"
  shows "length bs \<le> 4 \<and> script_num_value bs = n"
  using assms
proof (cases n rule: sign_magnitude_cases)
  case Zero
  with assms show ?thesis by (simp add: bitnum_encode_def script_num_value_def)
next
  case Pos
  note m = mag_facts [OF Pos] and e = bitnum_encode_pos(1) [OF Pos]
  show ?thesis using assms m unfolding e Let_def
    by (auto simp: script_num_value_def le_val_snoc split: if_splits)
next
  case (Neg a)
  let ?mag = "le_bytes (byte_length (nat a)) a"
  note m = mag_facts [OF Neg(1)] and e = bitnum_encode_pos(2) [OF Neg(1)]
  have b: "le_val (butlast ?mag @ [last ?mag OR 0x80]) = a + 128 * 256 ^ (length ?mag - 1)"
    if "\<not> 128 \<le> uint (last ?mag)"
    using uint_or_80 [OF that] le_val_butlast [OF m(2)] m(1)
    by (simp add: le_val_snoc algebra_simps)
  show ?thesis
  proof (cases "128 \<le> uint (last ?mag)")
    case True
    then show ?thesis using assms m unfolding Neg(2) e Let_def
      by (auto simp: script_num_value_def le_val_snoc split: if_splits)
  next
    case False
    then have bs: "bs = butlast ?mag @ [last ?mag OR 0x80]" "length ?mag \<le> 4"
      using assms unfolding Neg(2) e Let_def by (auto split: if_splits)
    have "length bs = length ?mag" using m(2) by (simp add: bs del: length_le_bytes)
    moreover have "128 \<le> uint (last bs)"
      using uint_or_80 [OF False] m(3) by (simp add: bs)
    ultimately show ?thesis using b [OF False] bs by (auto simp: script_num_value_def Neg(2))
  qed
qed

lemma bitnum_round_trip: "bitnum_encode n = Inr bs \<Longrightarrow> bitnum_from_bytes bs = Inr n"
  using bitnum_encode_decodes by (auto simp: bitnum_from_bytes_value)

text \<open>The magnitude fits when its encoding, sign bit included, has at most four bytes.\<close>

lemma mag_predicted_iff:
  assumes "0 < a"
  defines "mag \<equiv> le_bytes (byte_length (nat a)) a"
  shows "length mag + (if 128 \<le> uint (last mag) then 1 else 0) \<le> 4 \<longleftrightarrow> a < 2 ^ 31"
proof
  note m = mag_facts [OF assms(1), folded mag_def]
  have val: "a = le_val (butlast mag) + 256 ^ (length mag - 1) * uint (last mag)"
    using le_val_butlast [OF m(2)] m(1) by simp
  have low: "le_val (butlast mag) < 256 ^ (length mag - 1)"
    using le_val_bound [of "butlast mag"] by simp
  {
    assume fits: "length mag + (if 128 \<le> uint (last mag) then 1 else 0) \<le> 4"
    show "a < 2 ^ 31"
    proof (cases "length mag \<le> 3")
      case True
      then have "(256 :: int) ^ length mag \<le> 256 ^ 3" by (intro power_increasing) auto
      then show ?thesis using le_val_bound [of mag] m(1) by simp
    next
      case False
      with fits have l: "length mag = 4" "uint (last mag) < 128" by (auto split: if_splits)
      then show ?thesis using val low by simp
    qed
  next
    assume small: "a < 2 ^ 31"
    then have "nat a < 256 ^ 4" by simp
    then have "length mag \<le> 4" by (simp add: mag_def byte_length_le)
    moreover have "uint (last mag) < 128" if "length mag = 4"
    proof -
      have "a = le_val (butlast mag) + 16777216 * uint (last mag)" using val that by simp
      moreover have "a < 2147483648" using small by simp
      ultimately show ?thesis using le_val_nonneg [of "butlast mag"] by linarith
    qed
    ultimately show "length mag + (if 128 \<le> uint (last mag) then 1 else 0) \<le> 4"
      by (cases "length mag = 4") auto
  }
qed

lemma bitnum_encode_Inr_iff: "(\<exists>bs. bitnum_encode n = Inr bs) \<longleftrightarrow> \<bar>n\<bar> < 2 ^ 31"
proof (cases n rule: sign_magnitude_cases)
  case Zero
  then show ?thesis by (simp add: bitnum_encode_def)
next
  case Pos
  then show ?thesis using mag_predicted_iff [OF Pos] by (auto simp: bitnum_encode_pos(1) Let_def)
next
  case (Neg a)
  then show ?thesis using mag_predicted_iff [OF Neg(1)]
    by (auto simp: bitnum_encode_pos(2) Let_def)
qed

lemma bitnum_encode_error: "bitnum_encode n = Inl e \<longleftrightarrow> e = BitNumError \<and> 2 ^ 31 \<le> \<bar>n\<bar>"
proof -
  have "\<And>e. bitnum_encode n = Inl e \<Longrightarrow> e = BitNumError"
    by (auto simp: bitnum_encode_def Let_def split: if_splits)
  moreover have "(\<exists>e. bitnum_encode n = Inl e) \<longleftrightarrow> \<not> \<bar>n\<bar> < 2 ^ 31"
    using bitnum_encode_Inr_iff [of n] by (cases "bitnum_encode n") auto
  ultimately show ?thesis by (cases "bitnum_encode n") (auto simp: not_less)
qed

text \<open>Bitcoin Core's minimality rule for Script numbers.\<close>

definition minimal_script_num :: "bytes \<Rightarrow> bool" where
  "minimal_script_num bs \<longleftrightarrow> bs = [] \<or> uint (last bs) mod 128 \<noteq> 0
     \<or> (length bs \<noteq> 1 \<and> 128 \<le> uint (last (butlast bs)))"

lemma bitnum_encode_minimal:
  assumes "bitnum_encode n = Inr bs"
  shows "minimal_script_num bs"
proof (cases n rule: sign_magnitude_cases)
  case Zero
  with assms show ?thesis by (simp add: bitnum_encode_def minimal_script_num_def)
next
  case Pos
  note m = mag_facts [OF Pos] and e = bitnum_encode_pos(1) [OF Pos]
  show ?thesis using assms m uint_byte_bounds unfolding e Let_def
    by (auto simp: minimal_script_num_def split: if_splits)
next
  case (Neg a)
  let ?mag = "le_bytes (byte_length (nat a)) a"
  note m = mag_facts [OF Neg(1)] and e = bitnum_encode_pos(2) [OF Neg(1)]
  show ?thesis
  proof (cases "128 \<le> uint (last ?mag)")
    case True
    then show ?thesis using assms m unfolding Neg(2) e Let_def
      by (auto simp: minimal_script_num_def split: if_splits)
  next
    case False
    then have "bs = butlast ?mag @ [last ?mag OR 0x80]"
      using assms unfolding Neg(2) e Let_def by (auto split: if_splits)
    then show ?thesis using uint_or_80 [OF False] m(3) False
      by (simp add: minimal_script_num_def)
  qed
qed

end
