(* ===== verification/Bit_Stack.thy ===== *)
theory Bit_Stack
  imports Bit_Num
begin

text \<open>
  \<^verbatim>\<open>BitStack\<close> of \<^verbatim>\<open>src/src/script/stack.py\<close>: a bounded stack of byte strings, the top first
  (index 0 of the deque). Every mutating method returns the new stack; the checks are the code's
  \<^verbatim>\<open>_check_*\<close> helpers. \<open>stack_inv\<close> is the size bound every operation keeps.
\<close>

section \<open>The code\<close>

record bit_stack =
  stk :: "bytes list"
  max_size :: nat

text \<open>
  What a caller may hand to \<^verbatim>\<open>push\<close>: bytes, a \<^verbatim>\<open>BitNum\<close>, or an object of another type
  (\<^verbatim>\<open>None\<close> for instance).
\<close>

datatype stack_item = Bytes bytes | Num int | NotItem

definition MAX_STACK :: nat where "MAX_STACK = 1000"

definition empty_stack :: bit_stack where
  "empty_stack = \<lparr>stk = [], max_size = MAX_STACK\<rparr>"

definition height :: "bit_stack \<Rightarrow> nat" where
  "height s = length (stk s)"

definition is_empty :: "bit_stack \<Rightarrow> bool" where
  "is_empty s \<longleftrightarrow> height s = 0"

definition top_item :: "bit_stack \<Rightarrow> bytes option" where
  "top_item s = (if \<not> is_empty s then Some (stk s ! 0) else None)"

definition bottom_item :: "bit_stack \<Rightarrow> bytes option" where
  "bottom_item s = (if \<not> is_empty s then Some (last (stk s)) else None)"

definition check_max_size :: "bit_stack \<Rightarrow> nat \<Rightarrow> unit result" where
  "check_max_size s n = guardR (\<not> (height s + n > max_size s)) BitStackError"

definition check_min_height :: "bit_stack \<Rightarrow> int \<Rightarrow> unit result" where
  "check_min_height s n = guardR (\<not> (int (height s) < n)) BitStackError"

definition check_not_empty :: "bit_stack \<Rightarrow> unit result" where
  "check_not_empty s = guardR (\<not> is_empty s) BitStackError"

definition ensure_item_type :: "stack_item \<Rightarrow> unit result" where
  "ensure_item_type x = guardR (x \<noteq> NotItem) BitStackError"

fun item_bytes :: "stack_item \<Rightarrow> bytes result" where
  "item_bytes (Bytes b) = Inr b"
| "item_bytes (Num n) = bitnum_encode n"
| "item_bytes NotItem = Inl BitStackError"

definition push :: "bit_stack \<Rightarrow> stack_item \<Rightarrow> bit_stack result" where
  "push s item =
     bindR (ensure_item_type item) (\<lambda>_.
     bindR (check_max_size s 1) (\<lambda>_.
     bindR (item_bytes item) (\<lambda>b. Inr (s\<lparr>stk := b # stk s\<rparr>))))"

fun append_items :: "bit_stack \<Rightarrow> stack_item list \<Rightarrow> bit_stack result" where
  "append_items s [] = Inr s"
| "append_items s (item # items) =
     bindR (ensure_item_type item) (\<lambda>_.
     bindR (item_bytes item) (\<lambda>b. append_items (s\<lparr>stk := b # stk s\<rparr>) items))"

definition pushitems :: "bit_stack \<Rightarrow> stack_item list \<Rightarrow> bit_stack result" where
  "pushitems s items =
     bindR (check_max_size s (length items)) (\<lambda>_. append_items s items)"

definition new_stack :: "stack_item list \<Rightarrow> nat \<Rightarrow> bit_stack result" where
  "new_stack items m =
     (let s = \<lparr>stk = [], max_size = m\<rparr>
      in if items \<noteq> [] then pushitems s items else Inr s)"

definition pop :: "bit_stack \<Rightarrow> (bytes \<times> bit_stack) result" where
  "pop s = bindR (check_not_empty s) (\<lambda>_. Inr (hd (stk s), s\<lparr>stk := tl (stk s)\<rparr>))"

definition popitems :: "bit_stack \<Rightarrow> int \<Rightarrow> (bytes list \<times> bit_stack) result" where
  "popitems s n =
     bindR (check_min_height s n) (\<lambda>_.
       Inr (take (nat n) (stk s), s\<lparr>stk := drop (nat n) (stk s)\<rparr>))"

definition pushlist :: "bit_stack \<Rightarrow> stack_item list \<Rightarrow> bit_stack result" where
  "pushlist s items = pushitems s (rev items)"

definition pushbool :: "bit_stack \<Rightarrow> bool \<Rightarrow> bit_stack result" where
  "pushbool s b = push s (Bytes (if b then [0x01] else []))"

definition popnum :: "bit_stack \<Rightarrow> (int \<times> bit_stack) result" where
  "popnum s = bindR (pop s) (\<lambda>(top, s1). bindR (bitnum_from_bytes top) (\<lambda>v. Inr (v, s1)))"

definition clear :: "bit_stack \<Rightarrow> bit_stack" where
  "clear s = s\<lparr>stk := []\<rparr>"

section \<open>Characteristic equations\<close>

named_theorems stack_simps \<open>what the stack operations do to the list of items\<close>

lemma push_Bytes [stack_simps]:
  "push s (Bytes b) =
     (if length (stk s) < max_size s then Inr (s\<lparr>stk := b # stk s\<rparr>) else Inl BitStackError)"
  by (simp add: push_def ensure_item_type_def check_max_size_def height_def guardR_def)

lemma push_Num [stack_simps]:
  "push s (Num n) =
     (if length (stk s) < max_size s
      then bindR (bitnum_encode n) (\<lambda>b. Inr (s\<lparr>stk := b # stk s\<rparr>)) else Inl BitStackError)"
  by (simp add: push_def ensure_item_type_def check_max_size_def height_def guardR_def)

lemma push_NotItem [stack_simps]: "push s NotItem = Inl BitStackError"
  by (simp add: push_def ensure_item_type_def)

lemma append_items_Bytes:
  "append_items s (map Bytes bs) = Inr (s\<lparr>stk := rev bs @ stk s\<rparr>)"
  by (induction bs arbitrary: s) (auto simp: ensure_item_type_def)

lemma pushitems_Bytes [stack_simps]:
  "pushitems s (map Bytes bs) =
     (if length (stk s) + length bs \<le> max_size s
      then Inr (s\<lparr>stk := rev bs @ stk s\<rparr>) else Inl BitStackError)"
  by (simp add: pushitems_def check_max_size_def height_def guardR_def append_items_Bytes not_less)

lemma pushlist_Bytes [stack_simps]:
  "pushlist s (map Bytes bs) =
     (if length (stk s) + length bs \<le> max_size s
      then Inr (s\<lparr>stk := bs @ stk s\<rparr>) else Inl BitStackError)"
  using pushitems_Bytes [of s "rev bs"] by (simp add: pushlist_def rev_map)

lemma pop_eq [stack_simps]:
  "pop s = (case stk s of [] \<Rightarrow> Inl BitStackError | x # xs \<Rightarrow> Inr (x, s\<lparr>stk := xs\<rparr>))"
  by (cases "stk s") (simp_all add: pop_def check_not_empty_def is_empty_def height_def)

lemma popitems_eq [stack_simps]:
  "popitems s n =
     (if int (length (stk s)) < n then Inl BitStackError
      else Inr (take (nat n) (stk s), s\<lparr>stk := drop (nat n) (stk s)\<rparr>))"
  by (simp add: popitems_def check_min_height_def height_def guardR_def)

lemma popnum_eq [stack_simps]:
  "popnum s = (case stk s of [] \<Rightarrow> Inl BitStackError
     | x # xs \<Rightarrow> if length x \<le> 4 then Inr (script_num_value x, s\<lparr>stk := xs\<rparr>) else Inl BitNumError)"
  by (simp add: popnum_def pop_eq bitnum_from_bytes_value split: list.splits)

lemma pushbool_eq [stack_simps]:
  "pushbool s b =
     (if length (stk s) < max_size s
      then Inr (s\<lparr>stk := (if b then [0x01] else []) # stk s\<rparr>) else Inl BitStackError)"
  by (simp add: pushbool_def push_Bytes)

lemma top_item_eq [stack_simps]:
  "top_item s = (case stk s of [] \<Rightarrow> None | x # xs \<Rightarrow> Some x)"
  by (cases "stk s") (simp_all add: top_item_def is_empty_def height_def)

section \<open>The size invariant\<close>

definition stack_inv :: "bit_stack \<Rightarrow> bool" where
  "stack_inv s \<longleftrightarrow> length (stk s) \<le> max_size s"

named_theorems stack_inv_intros \<open>operations keep the size invariant\<close>

lemma append_items_effect:
  "append_items s items = Inr s' \<Longrightarrow>
     length (stk s') = length (stk s) + length items \<and> max_size s' = max_size s"
  by (induction s items rule: append_items.induct) (auto simp: result_iff)

lemma push_inv [stack_inv_intros]:
  "push s item = Inr s' \<Longrightarrow> stack_inv s' \<and> max_size s' = max_size s"
  by (auto simp: push_def check_max_size_def height_def result_iff stack_inv_def)

lemma pushitems_inv [stack_inv_intros]:
  "pushitems s items = Inr s' \<Longrightarrow> stack_inv s' \<and> max_size s' = max_size s"
  by (auto simp: pushitems_def check_max_size_def height_def stack_inv_def dest!: append_items_effect)

lemma pushlist_inv [stack_inv_intros]:
  "pushlist s items = Inr s' \<Longrightarrow> stack_inv s' \<and> max_size s' = max_size s"
  by (simp add: pushlist_def pushitems_inv)

lemma pushbool_inv [stack_inv_intros]:
  "pushbool s b = Inr s' \<Longrightarrow> stack_inv s' \<and> max_size s' = max_size s"
  unfolding pushbool_def by (rule push_inv)

lemma pop_inv [stack_inv_intros]:
  "pop s = Inr (x, s') \<Longrightarrow> (stack_inv s \<longrightarrow> stack_inv s') \<and> max_size s' = max_size s"
  by (auto simp: pop_eq stack_inv_def split: list.splits)

lemma popitems_inv [stack_inv_intros]:
  "popitems s n = Inr (xs, s') \<Longrightarrow> (stack_inv s \<longrightarrow> stack_inv s') \<and> max_size s' = max_size s"
  by (auto simp: popitems_eq stack_inv_def split: if_splits)

lemma popnum_inv [stack_inv_intros]:
  "popnum s = Inr (v, s') \<Longrightarrow> (stack_inv s \<longrightarrow> stack_inv s') \<and> max_size s' = max_size s"
  by (auto simp: popnum_eq stack_inv_def split: list.splits if_splits)

lemma clear_inv [stack_inv_intros]: "stack_inv (clear s) \<and> max_size (clear s) = max_size s"
  by (simp add: clear_def stack_inv_def)

lemma new_stack_inv: "new_stack items m = Inr s \<Longrightarrow> stack_inv s \<and> max_size s = m"
  by (auto simp: new_stack_def Let_def stack_inv_def dest!: pushitems_inv split: if_splits)

lemma empty_stack_inv [simp]: "stack_inv empty_stack"
  by (simp add: empty_stack_def stack_inv_def)

section \<open>The stack as a last-in first-out interface\<close>

text \<open>
  The contract the opcodes rely on: what pushing and popping several items at once do to the
  list of items, and that a push beyond the capacity raises. The client lemma
  \<open>shuffle_eq\<close> is the shape of every stack-manipulation opcode: take \<open>k\<close> items, put a
  rearrangement of them back.
\<close>

locale lifo =
  fixes view :: "'s \<Rightarrow> 'a list" and cap :: "'s \<Rightarrow> nat" and set_view :: "'a list \<Rightarrow> 's \<Rightarrow> 's"
    and popn :: "'s \<Rightarrow> nat \<Rightarrow> ('a list \<times> 's) result"
    and pushn :: "'s \<Rightarrow> 'a list \<Rightarrow> 's result"
  assumes view_set [simp]: "view (set_view xs s) = xs"
    and cap_set [simp]: "cap (set_view xs s) = cap s"
    and set_set [simp]: "set_view ys (set_view xs s) = set_view ys s"
    and popn_law: "popn s k = (if k \<le> length (view s)
        then Inr (take k (view s), set_view (drop k (view s)) s) else Inl BitStackError)"
    and pushn_law: "pushn s xs = (if length (view s) + length xs \<le> cap s
        then Inr (set_view (xs @ view s) s) else Inl BitStackError)"
begin

lemma shuffle_eq:
  "bindR (popn s k) (\<lambda>(xs, s1). pushn s1 (f xs)) =
     (if k \<le> length (view s) then
        (if length (f (take k (view s))) + (length (view s) - k) \<le> cap s
         then Inr (set_view (f (take k (view s)) @ drop k (view s)) s) else Inl BitStackError)
      else Inl BitStackError)"
  by (simp add: popn_law pushn_law add.commute)

lemma shuffle_bound:
  "bindR (popn s k) (\<lambda>(xs, s1). pushn s1 (f xs)) = Inr s' \<Longrightarrow> length (view s') \<le> cap s'"
  by (auto simp: shuffle_eq split: if_splits)

end

interpretation items: lifo stk max_size "\<lambda>xs s. s\<lparr>stk := xs\<rparr>"
  "\<lambda>s k. popitems s (int k)" "\<lambda>s xs. pushlist s (map Bytes xs)"
  by unfold_locales (auto simp: popitems_eq pushlist_Bytes add.commute)

end
