(* ===== verification/Hash_Functions.thy ===== *)
theory Hash_Functions
  imports Prelude
begin

text \<open>
  \<^verbatim>\<open>src/src/cryptography/hash_functions.py\<close>. The three primitive digests come from Python's
  \<^verbatim>\<open>hashlib\<close>; they are the fields of a record every user takes as an argument, so that each
  theorem holds for all of them. The Bitcoin combinations are the code's own.
\<close>

record hashes =
  h_sha1 :: "bytes \<Rightarrow> bytes"
  h_sha256 :: "bytes \<Rightarrow> bytes"
  h_ripemd160 :: "bytes \<Rightarrow> bytes"

definition hash256 :: "hashes \<Rightarrow> bytes \<Rightarrow> bytes" where
  "hash256 H data = h_sha256 H (h_sha256 H data)"

definition hash160 :: "hashes \<Rightarrow> bytes \<Rightarrow> bytes" where
  "hash160 H data = h_ripemd160 H (h_sha256 H data)"

text \<open>ASCII tags as bytes.\<close>

definition ascii_bytes :: "string \<Rightarrow> bytes" where
  "ascii_bytes s = map (\<lambda>c. of_char c) s"

definition tagged_sha256 :: "hashes \<Rightarrow> bytes \<Rightarrow> bytes \<Rightarrow> bytes" where
  "tagged_sha256 H tag data =
     (let tagged_hash = h_sha256 H tag in h_sha256 H (tagged_hash @ tagged_hash @ data))"

definition tapleaf_hash :: "hashes \<Rightarrow> bytes \<Rightarrow> bytes" where
  "tapleaf_hash H data = tagged_sha256 H (ascii_bytes ''TapLeaf'') data"

definition tapbranch_hash :: "hashes \<Rightarrow> bytes \<Rightarrow> bytes" where
  "tapbranch_hash H data = tagged_sha256 H (ascii_bytes ''TapBranch'') data"

definition taptweak_hash :: "hashes \<Rightarrow> bytes \<Rightarrow> bytes" where
  "taptweak_hash H data = tagged_sha256 H (ascii_bytes ''TapTweak'') data"

definition tapsighash_hash :: "hashes \<Rightarrow> bytes \<Rightarrow> bytes" where
  "tapsighash_hash H data = tagged_sha256 H (ascii_bytes ''TapSighash'') data"

definition schnorr_aux_hash :: "hashes \<Rightarrow> bytes \<Rightarrow> bytes" where
  "schnorr_aux_hash H data = tagged_sha256 H (ascii_bytes ''BIP0340/aux'') data"

definition schnorr_nonce_hash :: "hashes \<Rightarrow> bytes \<Rightarrow> bytes" where
  "schnorr_nonce_hash H data = tagged_sha256 H (ascii_bytes ''BIP0340/nonce'') data"

definition schnorr_challenge_hash :: "hashes \<Rightarrow> bytes \<Rightarrow> bytes" where
  "schnorr_challenge_hash H data = tagged_sha256 H (ascii_bytes ''BIP0340/challenge'') data"

text \<open>
  The documented digest sizes. A fact that needs them takes this predicate as a hypothesis;
  \<open>pad_hashes\<close> is a computable family that satisfies it, used to evaluate closed instances.
\<close>

definition digest_sizes :: "hashes \<Rightarrow> bool" where
  "digest_sizes H \<longleftrightarrow> (\<forall>d. length (h_sha1 H d) = 20 \<and> length (h_sha256 H d) = 32
     \<and> length (h_ripemd160 H d) = 20)"

definition pad_to :: "nat \<Rightarrow> bytes \<Rightarrow> bytes" where
  "pad_to n d = take n (d @ replicate n 0)"

definition pad_hashes :: hashes where
  "pad_hashes = \<lparr>h_sha1 = pad_to 20, h_sha256 = pad_to 32, h_ripemd160 = pad_to 20\<rparr>"

lemma length_pad_to [simp]: "length (pad_to n d) = n"
  by (simp add: pad_to_def)

lemma pad_hashes_digest_sizes [simp]: "digest_sizes pad_hashes"
  by (simp add: digest_sizes_def pad_hashes_def)

lemma digest_lengths:
  assumes "digest_sizes H"
  shows "length (h_sha256 H d) = 32" "length (hash256 H d) = 32" "length (hash160 H d) = 20"
    "length (h_sha1 H d) = 20" "length (h_ripemd160 H d) = 20"
    "length (tagged_sha256 H t d) = 32"
  using assms by (simp_all add: digest_sizes_def hash256_def hash160_def tagged_sha256_def Let_def)

end
