(* ===== verification/Opcodes.thy ===== *)
theory Opcodes
  imports Bit_Stack Hash_Functions
begin

text \<open>
  \<^verbatim>\<open>src/src/script/opcodes/\<close> (\<^verbatim>\<open>bools.py\<close>, \<^verbatim>\<open>crypto.py\<close>, \<^verbatim>\<open>numeric.py\<close>,
  \<^verbatim>\<open>stackops.py\<close>, \<^verbatim>\<open>verify.py\<close>) and the dispatch table \<^verbatim>\<open>src/src/script/opcode_map.py\<close>.
  Each opcode is a function from the stack to the new stack or the exception it raises; the
  verify opcodes also return their boolean. The first popped number is the top of the stack.
\<close>

section \<open>Constants: bools.py\<close>

definition op_false :: "bit_stack \<Rightarrow> bit_stack result" where
  "op_false s = pushbool s False"

definition op_true :: "bit_stack \<Rightarrow> bit_stack result" where
  "op_true s = pushbool s True"

definition op_1negate :: "bit_stack \<Rightarrow> bit_stack result" where
  "op_1negate s = push s (Num (- 1))"

section \<open>Stack manipulation: stackops.py\<close>

definition op_toaltstack :: "bit_stack \<Rightarrow> bit_stack \<Rightarrow> (bit_stack \<times> bit_stack) result" where
  "op_toaltstack main alt =
     bindR (pop main) (\<lambda>(x, main1). bindR (push alt (Bytes x)) (\<lambda>alt1. Inr (main1, alt1)))"

definition op_fromaltstack :: "bit_stack \<Rightarrow> bit_stack \<Rightarrow> (bit_stack \<times> bit_stack) result" where
  "op_fromaltstack main alt =
     bindR (pop alt) (\<lambda>(x, alt1). bindR (push main (Bytes x)) (\<lambda>main1. Inr (main1, alt1)))"

definition op_2drop :: "bit_stack \<Rightarrow> bit_stack result" where
  "op_2drop s = bindR (pop s) (\<lambda>(_, s1). bindR (pop s1) (\<lambda>(_, s2). Inr s2))"

definition op_2dup :: "bit_stack \<Rightarrow> bit_stack result" where
  "op_2dup s = bindR (popitems s 2) (\<lambda>(item_list, s1). pushlist s1 (map Bytes (item_list @ item_list)))"

definition op_3dup :: "bit_stack \<Rightarrow> bit_stack result" where
  "op_3dup s = bindR (popitems s 3) (\<lambda>(items, s1). pushlist s1 (map Bytes (items @ items)))"

definition op_2over :: "bit_stack \<Rightarrow> bit_stack result" where
  "op_2over s = bindR (popitems s 4) (\<lambda>(items, s1). pushlist s1 (map Bytes (drop 2 items @ items)))"

definition op_2rot :: "bit_stack \<Rightarrow> bit_stack result" where
  "op_2rot s =
     bindR (popitems s 6) (\<lambda>(items, s1). pushlist s1 (map Bytes (drop 4 items @ take 4 items)))"

definition op_2swap :: "bit_stack \<Rightarrow> bit_stack result" where
  "op_2swap s =
     bindR (popitems s 4) (\<lambda>(items, s1). pushlist s1 (map Bytes (drop 2 items @ take 2 items)))"

text \<open>On an empty stack \<^verbatim>\<open>top\<close> is \<^verbatim>\<open>None\<close>, which differs from \<^verbatim>\<open>b''\<close> and is no stack item.\<close>

definition op_ifdup :: "bit_stack \<Rightarrow> bit_stack result" where
  "op_ifdup s =
     (if top_item s \<noteq> Some [] then push s (case top_item s of None \<Rightarrow> NotItem | Some b \<Rightarrow> Bytes b)
      else Inr s)"

definition op_depth :: "bit_stack \<Rightarrow> bit_stack result" where
  "op_depth s = push s (Num (int (height s)))"

definition op_drop :: "bit_stack \<Rightarrow> bit_stack result" where
  "op_drop s = bindR (pop s) (\<lambda>(_, s1). Inr s1)"

definition op_dup :: "bit_stack \<Rightarrow> bit_stack result" where
  "op_dup s = (case top_item s of None \<Rightarrow> Inl BitStackError | Some b \<Rightarrow> push s (Bytes b))"

definition op_nip :: "bit_stack \<Rightarrow> bit_stack result" where
  "op_nip s = bindR (popitems s 2) (\<lambda>(items, s1).
     case items of [first, _] \<Rightarrow> push s1 (Bytes first) | _ \<Rightarrow> Inl ValueError)"

definition op_over :: "bit_stack \<Rightarrow> bit_stack result" where
  "op_over s = bindR (popitems s 2) (\<lambda>(items, s1).
     case items of [first, second] \<Rightarrow> pushlist s1 (map Bytes [second, first, second])
     | _ \<Rightarrow> Inl ValueError)"

text \<open>Indexing the deque with a Python integer: a negative index counts from the bottom.\<close>

definition deque_at :: "bytes list \<Rightarrow> int \<Rightarrow> bytes result" where
  "deque_at xs i =
     (let j = (if i < 0 then i + int (length xs) else i)
      in if 0 \<le> j \<and> j < int (length xs) then Inr (xs ! nat j) else Inl IndexError)"

definition op_pick :: "bit_stack \<Rightarrow> bit_stack result" where
  "op_pick s =
     bindR (popnum s) (\<lambda>(n, s1).
     bindR (guardR (\<not> (int (height s1) \<le> n)) BitStackError) (\<lambda>_.
     bindR (deque_at (stk s1) n) (\<lambda>item. push s1 (Bytes item))))"

definition op_roll :: "bit_stack \<Rightarrow> bit_stack result" where
  "op_roll s =
     bindR (popnum s) (\<lambda>(n, s1).
     bindR (guardR (\<not> (int (height s1) < n + 1)) BitStackError) (\<lambda>_.
     bindR (popitems s1 (n + 1)) (\<lambda>(items, s2).
       pushlist s2 (map Bytes (drop (length items - 1) items @ butlast items)))))"

definition op_rot :: "bit_stack \<Rightarrow> bit_stack result" where
  "op_rot s = bindR (popitems s 3) (\<lambda>(items, s1).
     case items of [first, second, third] \<Rightarrow> pushlist s1 (map Bytes [third, first, second])
     | _ \<Rightarrow> Inl ValueError)"

definition op_swap :: "bit_stack \<Rightarrow> bit_stack result" where
  "op_swap s = bindR (popitems s 2) (\<lambda>(items, s1). pushitems s1 (map Bytes items))"

definition op_tuck :: "bit_stack \<Rightarrow> bit_stack result" where
  "op_tuck s = bindR (popitems s 2) (\<lambda>(items, s1).
     case items of [first, second] \<Rightarrow> pushlist s1 (map Bytes [first, second, first]) | _ \<Rightarrow> Inl ValueError)"

section \<open>Hashing: crypto.py\<close>

definition op_ripemd160 :: "hashes \<Rightarrow> bit_stack \<Rightarrow> bit_stack result" where
  "op_ripemd160 H s = bindR (pop s) (\<lambda>(data, s1). push s1 (Bytes (h_ripemd160 H data)))"

definition op_sha1 :: "hashes \<Rightarrow> bit_stack \<Rightarrow> bit_stack result" where
  "op_sha1 H s = bindR (pop s) (\<lambda>(data, s1). push s1 (Bytes (h_sha1 H data)))"

definition op_sha256 :: "hashes \<Rightarrow> bit_stack \<Rightarrow> bit_stack result" where
  "op_sha256 H s = bindR (pop s) (\<lambda>(data, s1). push s1 (Bytes (h_sha256 H data)))"

definition op_hash160 :: "hashes \<Rightarrow> bit_stack \<Rightarrow> bit_stack result" where
  "op_hash160 H s = bindR (pop s) (\<lambda>(data, s1). push s1 (Bytes (hash160 H data)))"

definition op_hash256 :: "hashes \<Rightarrow> bit_stack \<Rightarrow> bit_stack result" where
  "op_hash256 H s = bindR (pop s) (\<lambda>(data, s1). push s1 (Bytes (hash256 H data)))"

section \<open>Arithmetic: numeric.py\<close>

text \<open>\<^verbatim>\<open>len(None)\<close> raises \<^verbatim>\<open>TypeError\<close>, which is what an empty stack gives.\<close>

definition op_size :: "bit_stack \<Rightarrow> bit_stack result" where
  "op_size s =
     (case top_item s of None \<Rightarrow> Inl TypeError
      | Some x \<Rightarrow> push s (Num (if x \<noteq> [] then int (length x) else 0)))"

definition op_equal :: "bit_stack \<Rightarrow> bit_stack result" where
  "op_equal s = bindR (pop s) (\<lambda>(a, s1). bindR (pop s1) (\<lambda>(b, s2). pushbool s2 (a = b)))"

definition op_1add :: "bit_stack \<Rightarrow> bit_stack result" where
  "op_1add s = bindR (popnum s) (\<lambda>(num, s1). push s1 (Num (num + 1)))"

definition op_1sub :: "bit_stack \<Rightarrow> bit_stack result" where
  "op_1sub s = bindR (popnum s) (\<lambda>(num, s1). push s1 (Num (num - 1)))"

definition op_negate :: "bit_stack \<Rightarrow> bit_stack result" where
  "op_negate s = bindR (popnum s) (\<lambda>(num, s1). push s1 (Num (- num)))"

definition op_abs :: "bit_stack \<Rightarrow> bit_stack result" where
  "op_abs s = bindR (popnum s) (\<lambda>(num, s1). push s1 (Num (\<bar>num\<bar>)))"

definition op_not :: "bit_stack \<Rightarrow> bit_stack result" where
  "op_not s = bindR (popnum s) (\<lambda>(num, s1). pushbool s1 (num = 0))"

definition op_0notequal :: "bit_stack \<Rightarrow> bit_stack result" where
  "op_0notequal s = bindR (popnum s) (\<lambda>(num, s1). pushbool s1 (num \<noteq> 0))"

definition op_add :: "bit_stack \<Rightarrow> bit_stack result" where
  "op_add s = bindR (popnum s) (\<lambda>(a, s1). bindR (popnum s1) (\<lambda>(b, s2). push s2 (Num (a + b))))"

definition op_sub :: "bit_stack \<Rightarrow> bit_stack result" where
  "op_sub s = bindR (popnum s) (\<lambda>(a, s1). bindR (popnum s1) (\<lambda>(b, s2). push s2 (Num (b - a))))"

definition op_min :: "bit_stack \<Rightarrow> bit_stack result" where
  "op_min s = bindR (popnum s) (\<lambda>(a, s1). bindR (popnum s1) (\<lambda>(b, s2). push s2 (Num (min a b))))"

definition op_max :: "bit_stack \<Rightarrow> bit_stack result" where
  "op_max s = bindR (popnum s) (\<lambda>(a, s1). bindR (popnum s1) (\<lambda>(b, s2). push s2 (Num (max a b))))"

definition op_booland :: "bit_stack \<Rightarrow> bit_stack result" where
  "op_booland s = bindR (popnum s) (\<lambda>(a, s1). bindR (popnum s1) (\<lambda>(b, s2). pushbool s2 (a \<noteq> 0 \<and> b \<noteq> 0)))"

definition op_boolor :: "bit_stack \<Rightarrow> bit_stack result" where
  "op_boolor s = bindR (popnum s) (\<lambda>(a, s1). bindR (popnum s1) (\<lambda>(b, s2). pushbool s2 (a \<noteq> 0 \<or> b \<noteq> 0)))"

definition op_numequal :: "bit_stack \<Rightarrow> bit_stack result" where
  "op_numequal s = bindR (popnum s) (\<lambda>(a, s1). bindR (popnum s1) (\<lambda>(b, s2). pushbool s2 (a = b)))"

definition op_numnotequal :: "bit_stack \<Rightarrow> bit_stack result" where
  "op_numnotequal s = bindR (popnum s) (\<lambda>(a, s1). bindR (popnum s1) (\<lambda>(b, s2). pushbool s2 (a \<noteq> b)))"

definition op_lessthan :: "bit_stack \<Rightarrow> bit_stack result" where
  "op_lessthan s = bindR (popnum s) (\<lambda>(a, s1). bindR (popnum s1) (\<lambda>(b, s2). pushbool s2 (a > b)))"

definition op_greaterthan :: "bit_stack \<Rightarrow> bit_stack result" where
  "op_greaterthan s = bindR (popnum s) (\<lambda>(a, s1). bindR (popnum s1) (\<lambda>(b, s2). pushbool s2 (a < b)))"

definition op_lessthanorequal :: "bit_stack \<Rightarrow> bit_stack result" where
  "op_lessthanorequal s = bindR (popnum s) (\<lambda>(a, s1). bindR (popnum s1) (\<lambda>(b, s2). pushbool s2 (a \<ge> b)))"

definition op_greaterthanorequal :: "bit_stack \<Rightarrow> bit_stack result" where
  "op_greaterthanorequal s = bindR (popnum s) (\<lambda>(a, s1). bindR (popnum s1) (\<lambda>(b, s2). pushbool s2 (a \<le> b)))"

definition op_within :: "bit_stack \<Rightarrow> bit_stack result" where
  "op_within s =
     bindR (popnum s) (\<lambda>(mx, s1). bindR (popnum s1) (\<lambda>(mn, s2). bindR (popnum s2) (\<lambda>(num, s3).
       pushbool s3 (mn \<le> num \<and> num < mx))))"

section \<open>Verification: verify.py\<close>

definition op_verify :: "bit_stack \<Rightarrow> (bool \<times> bit_stack) result" where
  "op_verify s = bindR (pop s) (\<lambda>(x, s1).
     if x = [] \<or> x = [0x00] then Inr (False, s1) else Inr (True, s1))"

definition op_equalverify :: "bit_stack \<Rightarrow> (bool \<times> bit_stack) result" where
  "op_equalverify s =
     bindR (pop s) (\<lambda>(a, s1). bindR (pop s1) (\<lambda>(b, s2).
     bindR (pushbool s2 (a = b)) (\<lambda>s3. op_verify s3)))"

definition op_numequalverify :: "bit_stack \<Rightarrow> (bool \<times> bit_stack) result" where
  "op_numequalverify s =
     bindR (popnum s) (\<lambda>(a, s1). bindR (popnum s1) (\<lambda>(b, s2).
     bindR (pushbool s2 (a = b)) (\<lambda>s3. op_verify s3)))"

section \<open>The dispatch table: opcode\_map.py\<close>

text \<open>
  The three shapes a Python function of the table has, by the arguments it takes and whether it
  returns a boolean.
\<close>

datatype op_fun =
    MainOp "bit_stack \<Rightarrow> bit_stack result"
  | AltOp "bit_stack \<Rightarrow> bit_stack \<Rightarrow> (bit_stack \<times> bit_stack) result"
  | VerifyOp "bit_stack \<Rightarrow> (bool \<times> bit_stack) result"

definition OPCODE_MAP :: "hashes \<Rightarrow> nat \<Rightarrow> op_fun option" where
  "OPCODE_MAP H = map_of [
     (0x00, MainOp op_false), (0x4f, MainOp op_1negate), (0x51, MainOp op_true),
     (0x69, VerifyOp op_verify), (0x88, VerifyOp op_equalverify), (0x9d, VerifyOp op_numequalverify),
     (0x6b, AltOp op_toaltstack), (0x6c, AltOp op_fromaltstack), (0x6d, MainOp op_2drop),
     (0x6e, MainOp op_2dup), (0x6f, MainOp op_3dup), (0x70, MainOp op_2over),
     (0x71, MainOp op_2rot), (0x72, MainOp op_2swap), (0x73, MainOp op_ifdup),
     (0x74, MainOp op_depth), (0x75, MainOp op_drop), (0x76, MainOp op_dup),
     (0x77, MainOp op_nip), (0x78, MainOp op_over), (0x79, MainOp op_pick),
     (0x7a, MainOp op_roll), (0x7b, MainOp op_rot), (0x7c, MainOp op_swap),
     (0x7d, MainOp op_tuck), (0xa6, MainOp (op_ripemd160 H)), (0xa7, MainOp (op_sha1 H)),
     (0xa8, MainOp (op_sha256 H)), (0xa9, MainOp (op_hash160 H)), (0xaa, MainOp (op_hash256 H)),
     (0x82, MainOp op_size), (0x87, MainOp op_equal), (0x8b, MainOp op_1add),
     (0x8c, MainOp op_1sub), (0x8f, MainOp op_negate), (0x90, MainOp op_abs),
     (0x91, MainOp op_not), (0x92, MainOp op_0notequal), (0x93, MainOp op_add),
     (0x94, MainOp op_sub), (0x9a, MainOp op_booland), (0x9b, MainOp op_boolor),
     (0x9c, MainOp op_numequal), (0x9e, MainOp op_numnotequal), (0x9f, MainOp op_lessthan),
     (0xa0, MainOp op_greaterthan), (0xa1, MainOp op_lessthanorequal), (0xa2, MainOp op_greaterthanorequal),
     (0xa3, MainOp op_min), (0xa4, MainOp op_max), (0xa5, MainOp op_within)]"

end
