(* ===== verification/Byte_Stream.thy ===== *)
theory Byte_Stream
  imports Prelude
begin

text \<open>
  \<^verbatim>\<open>src/src/core/byte_stream.py\<close>: exact-length reads, little- and big-endian integers,
  CompactSize, and length-prefixed data. A reader takes the unread bytes and returns the value
  with the bytes that are left. The codec interface is interpreted on CompactSize, on
  length-prefixed data and on fixed-width little-endian integers.
\<close>

section \<open>Reading\<close>

text \<open>
  What a stream that is too short raises: a length of 2^63 or more, which only a CompactSize of eight bytes can ask for,
  does not fit the argument of \<^verbatim>\<open>BytesIO.read\<close>. (No stream is that long, so such a read never succeeds.)
\<close>

definition short_read :: "nat \<Rightarrow> py_error" where
  "short_read n = (if n < 2 ^ 63 then ReadError else OverflowError)"

definition read_stream :: "nat \<Rightarrow> bytes \<Rightarrow> (bytes \<times> bytes) result" where
  "read_stream n stream =
     (let data = take n stream in
      if length data \<noteq> n then Inl (short_read n) else Inr (data, drop n stream))"

definition read_little_int :: "nat \<Rightarrow> bytes \<Rightarrow> (int \<times> bytes) result" where
  "read_little_int n stream =
     bindR (read_stream n stream) (\<lambda>(data, rest). Inr (le_val data, rest))"

definition read_big_int :: "nat \<Rightarrow> bytes \<Rightarrow> (int \<times> bytes) result" where
  "read_big_int n stream =
     bindR (read_stream n stream) (\<lambda>(data, rest). Inr (be_val data, rest))"

definition read_compact_size :: "bytes \<Rightarrow> (int \<times> bytes) result" where
  "read_compact_size stream =
     bindR (read_little_int 1 stream) (\<lambda>(prefix, rest).
       if prefix \<le> 0xfc then Inr (prefix, rest)
       else if prefix = 0xfd then read_little_int 2 rest
       else if prefix = 0xfe then read_little_int 4 rest
       else if prefix = 0xff then read_little_int 8 rest
       else Inl ReadError)"

section \<open>Writing\<close>

definition MAX_COMPACTSIZE :: int where "MAX_COMPACTSIZE = 0xffffffffffffffff"

definition write_compact_size :: "int \<Rightarrow> bytes result" where
  "write_compact_size num =
     (if num < 0 \<or> num > MAX_COMPACTSIZE then Inl WriteError
      else if num \<le> 0xfc then to_bytes_le 1 num
      else if num \<le> 0xffff then bindR (to_bytes_le 2 num) (\<lambda>b. Inr (0xfd # b))
      else if num \<le> 0xffffffff then bindR (to_bytes_le 4 num) (\<lambda>b. Inr (0xfe # b))
      else bindR (to_bytes_le 8 num) (\<lambda>b. Inr (0xff # b)))"

definition serialize_data :: "bytes \<Rightarrow> bytes result" where
  "serialize_data data =
     bindR (write_compact_size (int (length data))) (\<lambda>n. Inr (n @ data))"

definition deserialize_data :: "bytes \<Rightarrow> (bytes \<times> bytes) result" where
  "deserialize_data stream =
     bindR (read_compact_size stream) (\<lambda>(datalen, rest). read_stream (nat datalen) rest)"

section \<open>Facts about exact reads\<close>

named_theorems stream_simps \<open>reading back what was written at the front of a stream\<close>

lemma read_stream_append [stream_simps]:
  "length xs = n \<Longrightarrow> read_stream n (xs @ rest) = Inr (xs, rest)"
  by (auto simp: read_stream_def)

lemma read_stream_Inr_iff [result_iff]:
  "read_stream n bs = Inr (x, rest) \<longleftrightarrow> bs = x @ rest \<and> length x = n"
proof -
  have "read_stream n bs = Inr (x, rest) \<longleftrightarrow> n \<le> length bs \<and> take n bs = x \<and> drop n bs = rest"
    by (cases "n \<le> length bs") (simp_all add: read_stream_def Let_def)
  also have "\<dots> \<longleftrightarrow> bs = x @ rest \<and> length x = n"
    by (metis append_eq_conv_conj append_take_drop_id length_take min.absorb2 length_append le_add1)
  finally show ?thesis .
qed

lemma read_stream_Inl_iff: "read_stream n bs = Inl e \<longleftrightarrow> length bs < n \<and> e = short_read n"
  by (auto simp: read_stream_def Let_def)

lemma read_little_int_append [stream_simps]:
  "length xs = n \<Longrightarrow> read_little_int n (xs @ rest) = Inr (le_val xs, rest)"
  by (simp add: read_little_int_def stream_simps)

lemma read_little_int_Inr_iff [result_iff]:
  "read_little_int n bs = Inr (v, rest) \<longleftrightarrow> (\<exists>x. bs = x @ rest \<and> length x = n \<and> v = le_val x)"
  by (auto simp: read_little_int_def result_iff split: prod.splits)

lemma read_little_int_Inl_iff:
  "read_little_int n bs = Inl e \<longleftrightarrow> length bs < n \<and> e = short_read n"
  by (auto simp: read_little_int_def result_iff read_stream_Inl_iff split: prod.splits)

lemma read_little_int_le_bytes [stream_simps]:
  "0 \<le> v \<Longrightarrow> v < 256 ^ n \<Longrightarrow> read_little_int n (le_bytes n v @ rest) = Inr (v, rest)"
  by (simp add: stream_simps le_val_le_bytes)

lemma read_little_int_bounds:
  "read_little_int n bs = Inr (v, rest) \<Longrightarrow> 0 \<le> v \<and> v < 256 ^ n"
  using le_val_bound by (auto simp: result_iff)

lemma read_little_int_to_bytes [stream_simps]:
  "to_bytes_le n v = Inr b \<Longrightarrow> read_little_int n (b @ rest) = Inr (v, rest)"
  by (auto simp: result_iff stream_simps)

lemma read_little_int_Cons [stream_simps]: "read_little_int (Suc 0) (b # rest) = Inr (uint b, rest)"
  using read_little_int_append [of "[b]" "Suc 0" rest] by simp

lemma read_stream_exact: "read_stream (length xs) xs = Inr (xs, [])"
  using read_stream_append [of xs "length xs" "[]"] by simp

section \<open>CompactSize\<close>

lemma write_compact_size_cases:
  assumes "write_compact_size v = Inr bs"
  obtains (One) "0 \<le> v" "v \<le> 0xfc" "bs = le_bytes 1 v"
  | (Two) "0xfc < v" "v \<le> 0xffff" "bs = 0xfd # le_bytes 2 v"
  | (Four) "0xffff < v" "v \<le> 0xffffffff" "bs = 0xfe # le_bytes 4 v"
  | (Eight) "0xffffffff < v" "v \<le> 0xffffffffffffffff" "bs = 0xff # le_bytes 8 v"
proof -
  have "v \<ge> 0" "v \<le> 0xffffffffffffffff"
    using assms by (auto simp: write_compact_size_def MAX_COMPACTSIZE_def split: if_splits)
  then show thesis using assms that
    by (auto simp: write_compact_size_def to_bytes_le_def MAX_COMPACTSIZE_def split: if_splits)
qed

lemma read_write_compact_size [stream_simps]:
  assumes "write_compact_size v = Inr bs"
  shows "read_compact_size (bs @ rest) = Inr (v, rest)"
  using assms
proof (cases rule: write_compact_size_cases)
  case One
  have "read_little_int 1 (le_bytes 1 v @ rest) = Inr (v, rest)"
    using One by (intro read_little_int_le_bytes) auto
  with One show ?thesis by (simp add: read_compact_size_def del: le_bytes.simps)
qed (simp_all add: read_compact_size_def read_little_int_Cons read_little_int_le_bytes)

lemma write_compact_size_Inr_iff:
  "(\<exists>bs. write_compact_size v = Inr bs) \<longleftrightarrow> 0 \<le> v \<and> v \<le> 0xffffffffffffffff"
  by (auto simp: write_compact_size_def MAX_COMPACTSIZE_def to_bytes_le_def)

lemma write_compact_size_length:
  "write_compact_size v = Inr bs \<Longrightarrow>
     length bs = (if v \<le> 0xfc then 1 else if v \<le> 0xffff then 3 else if v \<le> 0xffffffff then 5 else 9)"
  by (elim write_compact_size_cases) auto

lemma read_compact_size_prefix:
  assumes "read_compact_size bs = Inr (v, rest)"
  shows "\<exists>pre. bs = pre @ rest \<and> pre \<noteq> []"
proof -
  obtain p r where p: "read_little_int 1 bs = Inr (p, r)"
    and q: "r = rest \<or> (\<exists>n. read_little_int n r = Inr (v, rest))"
    using assms by (auto simp: read_compact_size_def split: if_splits) blast+
  obtain x where x: "bs = x @ r" "length x = 1"
    using p unfolding read_little_int_Inr_iff by blast
  obtain y where "r = y @ rest"
    using q unfolding read_little_int_Inr_iff by auto
  with x show ?thesis by (intro exI [of _ "x @ y"]) auto
qed

lemma read_compact_size_shrinks:
  "read_compact_size bs = Inr (v, rest) \<Longrightarrow> length rest < length bs"
  by (auto dest!: read_compact_size_prefix)

lemma read_compact_size_bounds:
  "read_compact_size bs = Inr (v, rest) \<Longrightarrow> 0 \<le> v \<and> v \<le> 0xffffffffffffffff"
  by (auto simp: read_compact_size_def split: prod.splits if_splits
      dest!: read_little_int_bounds)

lemma read_compact_size_error: "read_compact_size bs = Inl e \<Longrightarrow> e = ReadError"
  by (auto simp: read_compact_size_def result_iff read_little_int_Inl_iff short_read_def split: prod.splits if_splits)

interpretation compact: codec write_compact_size read_compact_size "\<lambda>_. True"
  by unfold_locales (rule read_write_compact_size)

interpretation data: codec serialize_data deserialize_data "\<lambda>_. True"
  by unfold_locales
    (auto simp: serialize_data_def deserialize_data_def stream_simps result_iff)

interpretation word4: fixed_codec "to_bytes_le 4" "read_little_int 4" "\<lambda>_. True" 4
  by unfold_locales (auto simp: stream_simps result_iff)

interpretation word8: fixed_codec "to_bytes_le 8" "read_little_int 8" "\<lambda>_. True" 8
  by unfold_locales (auto simp: stream_simps result_iff)

lemma deserialize_serialize [stream_simps]:
  "serialize_data d = Inr bs \<Longrightarrow> deserialize_data (bs @ rest) = Inr (d, rest)"
  by (rule data.dec_enc) simp

lemma deserialize_data_length:
  "deserialize_data bs = Inr (d, rest) \<Longrightarrow> length d + length rest < length bs"
  by (auto simp: deserialize_data_def result_iff dest!: read_compact_size_shrinks split: prod.splits)

end
