(* ===== verification/Script_Parser.thy ===== *)
theory Script_Parser
  imports Byte_Stream
begin

text \<open>
  Reading scripts without executing them: opcode names (\<^verbatim>\<open>src/src/core/opcodes.py\<close>),
  \<^verbatim>\<open>parse_script_ops\<close> and \<^verbatim>\<open>to_asm\<close> (\<^verbatim>\<open>src/src/script/parser.py\<close>),
  \<^verbatim>\<open>encode_pushdata\<close> (\<^verbatim>\<open>src/src/script/stack_ops.py\<close>), and the engine's
  \<^verbatim>\<open>_read_instructions\<close> and \<^verbatim>\<open>_parse_conditional_block\<close>
  (\<^verbatim>\<open>src/src/script/script_engine.py\<close>).
\<close>

section \<open>Python string formatting\<close>

definition hex_digit :: "nat \<Rightarrow> char" where
  "hex_digit d = ''0123456789abcdef'' ! d"

definition bytes_hex :: "bytes \<Rightarrow> string" where
  "bytes_hex bs = concat (map (\<lambda>b. [hex_digit (unat b div 16), hex_digit (unat b mod 16)]) bs)"

text \<open>Digits of a number in base \<open>b\<close>, most significant first; zero is one digit.\<close>

function digits_base :: "nat \<Rightarrow> nat \<Rightarrow> string" where
  "digits_base b n =
     (if b < 2 \<or> n < b then [hex_digit n] else digits_base b (n div b) @ [hex_digit (n mod b)])"
  by pat_completeness auto
termination
  by (relation "measure snd") (auto simp: div_less_dividend)

declare digits_base.simps [simp del]

definition dec_str :: "nat \<Rightarrow> string" where "dec_str n = digits_base 10 n"

definition hex_str :: "nat \<Rightarrow> string" where "hex_str n = digits_base 16 n"

section \<open>Opcode names\<close>

definition opcode_codes :: "(nat \<times> string) list" where
  "opcode_codes = [
     (0x00, ''OP_0''), (0x4c, ''OP_PUSHDATA1''), (0x4d, ''OP_PUSHDATA2''), (0x4e, ''OP_PUSHDATA4''),
     (0x4f, ''OP_1NEGATE''), (0x50, ''OP_RESERVED''), (0x51, ''OP_1''), (0x52, ''OP_2''),
     (0x53, ''OP_3''), (0x54, ''OP_4''), (0x55, ''OP_5''), (0x56, ''OP_6''),
     (0x57, ''OP_7''), (0x58, ''OP_8''), (0x59, ''OP_9''), (0x5a, ''OP_10''),
     (0x5b, ''OP_11''), (0x5c, ''OP_12''), (0x5d, ''OP_13''), (0x5e, ''OP_14''),
     (0x5f, ''OP_15''), (0x60, ''OP_16''), (0x61, ''OP_NOP''), (0x62, ''OP_VER''),
     (0x63, ''OP_IF''), (0x64, ''OP_NOTIF''), (0x65, ''OP_VERIF''), (0x66, ''OP_VERNOTIF''),
     (0x67, ''OP_ELSE''), (0x68, ''OP_ENDIF''), (0x69, ''OP_VERIFY''), (0x6a, ''OP_RETURN''),
     (0x6b, ''OP_TOALTSTACK''), (0x6c, ''OP_FROMALTSTACK''), (0x6d, ''OP_2DROP''), (0x6e, ''OP_2DUP''),
     (0x6f, ''OP_3DUP''), (0x70, ''OP_2OVER''), (0x71, ''OP_2ROT''), (0x72, ''OP_2SWAP''),
     (0x73, ''OP_IFDUP''), (0x74, ''OP_DEPTH''), (0x75, ''OP_DROP''), (0x76, ''OP_DUP''),
     (0x77, ''OP_NIP''), (0x78, ''OP_OVER''), (0x79, ''OP_PICK''), (0x7a, ''OP_ROLL''),
     (0x7b, ''OP_ROT''), (0x7c, ''OP_SWAP''), (0x7d, ''OP_TUCK''), (0x7e, ''OP_CAT''),
     (0x7f, ''OP_SUBSTR''), (0x80, ''OP_LEFT''), (0x81, ''OP_RIGHT''), (0x82, ''OP_SIZE''),
     (0x83, ''OP_INVERT''), (0x84, ''OP_AND''), (0x85, ''OP_OR''), (0x86, ''OP_XOR''),
     (0x87, ''OP_EQUAL''), (0x88, ''OP_EQUALVERIFY''), (0x89, ''OP_RESERVED1''), (0x8a, ''OP_RESERVED2''),
     (0x8b, ''OP_1ADD''), (0x8c, ''OP_1SUB''), (0x8d, ''OP_2MUL''), (0x8e, ''OP_2DIV''),
     (0x8f, ''OP_NEGATE''), (0x90, ''OP_ABS''), (0x91, ''OP_NOT''), (0x92, ''OP_0NOTEQUAL''),
     (0x93, ''OP_ADD''), (0x94, ''OP_SUB''), (0x95, ''OP_MUL''), (0x96, ''OP_DIV''),
     (0x97, ''OP_MOD''), (0x98, ''OP_LSHIFT''), (0x99, ''OP_RSHIFT''), (0x9a, ''OP_BOOLAND''),
     (0x9b, ''OP_BOOLOR''), (0x9c, ''OP_NUMEQUAL''), (0x9d, ''OP_NUMEQUALVERIFY''), (0x9e, ''OP_NUMNOTEQUAL''),
     (0x9f, ''OP_LESSTHAN''), (0xa0, ''OP_GREATERTHAN''), (0xa1, ''OP_LESSTHANOREQUAL''), (0xa2, ''OP_GREATERTHANOREQUAL''),
     (0xa3, ''OP_MIN''), (0xa4, ''OP_MAX''), (0xa5, ''OP_WITHIN''), (0xa6, ''OP_RIPEMD160''),
     (0xa7, ''OP_SHA1''), (0xa8, ''OP_SHA256''), (0xa9, ''OP_HASH160''), (0xaa, ''OP_HASH256''),
     (0xab, ''OP_CODESEPARATOR''), (0xac, ''OP_CHECKSIG''), (0xad, ''OP_CHECKSIGVERIFY''), (0xae, ''OP_CHECKMULTISIG''),
     (0xaf, ''OP_CHECKMULTISIGVERIFY''), (0xb0, ''OP_NOP1''), (0xb1, ''OP_CHECKLOCKTIMEVERIFY''), (0xb2, ''OP_CHECKSEQUENCEVERIFY''),
     (0xb3, ''OP_NOP4''), (0xb4, ''OP_NOP5''), (0xb5, ''OP_NOP6''), (0xb6, ''OP_NOP7''),
     (0xb7, ''OP_NOP8''), (0xb8, ''OP_NOP9''), (0xb9, ''OP_NOP10''), (0xba, ''OP_CHECKSIGADD''),
     (0xff, ''OP_INVALIDOPCODE'')]"

definition get_name :: "nat \<Rightarrow> string option" where
  "get_name byte_value =
     (if 0x01 \<le> byte_value \<and> byte_value \<le> 0x4b
      then Some (''OP_PUSHBYTES_'' @ dec_str byte_value)
      else map_of opcode_codes byte_value)"

section \<open>parse\_script\_ops and to\_asm\<close>

text \<open>
  The header of one operation: \<open>None\<close> for an opcode that pushes nothing, otherwise the number of
  bytes it pushes; and the bytes after the header.
\<close>

definition push_header :: "nat \<Rightarrow> bytes \<Rightarrow> (nat option \<times> bytes) result" where
  "push_header opcode rest =
     (if 1 \<le> opcode \<and> opcode \<le> 0x4b then Inr (Some opcode, rest)
      else if opcode = 0x4c then
        (if rest = [] then Inl OpCodeError else Inr (Some (unat (hd rest)), tl rest))
      else if opcode = 0x4d then
        (if length rest < 2 then Inl OpCodeError
         else Inr (Some (nat (le_val (take 2 rest))), drop 2 rest))
      else if opcode = 0x4e then
        (if length rest < 4 then Inl OpCodeError
         else Inr (Some (nat (le_val (take 4 rest))), drop 4 rest))
      else Inr (None, rest))"

lemma push_header_length: "push_header opcode rest = Inr (n, rest') \<Longrightarrow> length rest' \<le> length rest"
  by (auto simp: push_header_def split: if_splits)

function parse_script_ops :: "bytes \<Rightarrow> (nat \<times> bytes option) list result" where
  "parse_script_ops [] = Inr []"
| "parse_script_ops (b # script) =
     bindR (push_header (unat b) script) (\<lambda>(push_length, rest).
       case push_length of
         None \<Rightarrow> bindR (parse_script_ops rest) (\<lambda>ops. Inr ((unat b, None) # ops))
       | Some n \<Rightarrow>
           if n > length rest then Inl OpCodeError
           else bindR (parse_script_ops (drop n rest))
             (\<lambda>ops. Inr ((unat b, Some (take n rest)) # ops)))"
  by pat_completeness auto
termination
  by (relation "measure length") (auto dest!: push_header_length)

function to_asm :: "bytes \<Rightarrow> string list result" where
  "to_asm [] = Inr []"
| "to_asm (b # data) =
     (let opcode = unat b in
      if 0x01 \<le> opcode \<and> opcode \<le> 0x4b then
        (if opcode > length data then Inl OpCodeError
         else bindR (to_asm (drop opcode data)) (\<lambda>asm.
           Inr ((''OP_PUSHBYTES_'' @ dec_str opcode) # bytes_hex (take opcode data) # asm)))
      else if 0x4c \<le> opcode \<and> opcode \<le> 0x4e then
        bindR (push_header opcode data) (\<lambda>(push_length, rest).
          let n = (case push_length of None \<Rightarrow> 0 | Some n \<Rightarrow> n);
              name = (if opcode = 0x4c then ''OP_PUSHDATA1''
                      else if opcode = 0x4d then ''OP_PUSHDATA2'' else ''OP_PUSHDATA4'')
          in if n > length rest then Inl OpCodeError
             else bindR (to_asm (drop n rest)) (\<lambda>asm.
               Inr (name # hex_str n # bytes_hex (take n rest) # asm)))
      else (case get_name opcode of
          Some name \<Rightarrow> bindR (to_asm data) (\<lambda>asm. Inr (name # asm))
        | None \<Rightarrow> Inl OpCodeError))"
  by pat_completeness auto
termination
  by (relation "measure length") (auto dest!: push_header_length)

section \<open>encode\_pushdata\<close>

definition encode_pushdata :: "bytes \<Rightarrow> bytes result" where
  "encode_pushdata data =
     (let data_len = int (length data) in
      if 0x01 \<le> data_len \<and> data_len \<le> 0x4b then bindR (to_bytes_le 1 data_len) (\<lambda>n. Inr (n @ data))
      else if data_len \<le> 0xff then bindR (to_bytes_le 1 data_len) (\<lambda>n. Inr ([0x4c] @ n @ data))
      else if data_len \<le> 0xffff then bindR (to_bytes_le 2 data_len) (\<lambda>n. Inr ([0x4d] @ n @ data))
      else if data_len \<le> 0xffffffff then bindR (to_bytes_le 4 data_len) (\<lambda>n. Inr ([0x4e] @ n @ data))
      else Inl BitStackError)"

section \<open>Instructions\<close>

record instruction =
  i_opcode :: nat
  i_raw :: bytes
  i_is_push :: bool
  i_push_data :: "bytes option"

text \<open>\<open>None\<close> at the end of the stream; a truncated push raises \<^verbatim>\<open>ReadError\<close>.\<close>

definition read_push :: "byte \<Rightarrow> nat \<Rightarrow> bytes \<Rightarrow> (instruction \<times> bytes) option result" where
  "read_push b width stream =
     bindR (read_little_int width stream) (\<lambda>(n, rest).
     bindR (read_stream (nat n) rest) (\<lambda>(data, rest').
       Inr (Some (\<lparr>i_opcode = unat b, i_raw = [b] @ le_bytes width n @ data, i_is_push = True,
                   i_push_data = Some data\<rparr>, rest'))))"

definition read_instructions :: "bytes \<Rightarrow> (instruction \<times> bytes) option result" where
  "read_instructions stream =
     (case stream of
        [] \<Rightarrow> Inr None
      | b # rest \<Rightarrow>
          let op = unat b in
          if 0x01 \<le> op \<and> op \<le> 0x4b then
            bindR (read_stream op rest) (\<lambda>(data, rest').
              Inr (Some (\<lparr>i_opcode = op, i_raw = [b] @ data, i_is_push = True, i_push_data = Some data\<rparr>, rest')))
          else if op = 0x4c then read_push b 1 rest
          else if op = 0x4d then read_push b 2 rest
          else if op = 0x4e then read_push b 4 rest
          else Inr (Some (\<lparr>i_opcode = op, i_raw = [b], i_is_push = False, i_push_data = None\<rparr>, rest)))"

lemma read_push_raw:
  "read_push b w stream = Inr (Some (i, rest)) \<Longrightarrow> b # stream = i_raw i @ rest \<and> i_raw i \<noteq> []"
proof -
  assume "read_push b w stream = Inr (Some (i, rest))"
  then obtain n r d where "read_little_int w stream = Inr (n, r)" "read_stream (nat n) r = Inr (d, rest)"
    "i_raw i = [b] @ le_bytes w n @ d"
    by (auto simp: read_push_def)
  then show ?thesis by (auto simp: result_iff)
qed

lemma read_instructions_raw:
  "read_instructions stream = Inr (Some (i, rest)) \<Longrightarrow> stream = i_raw i @ rest \<and> i_raw i \<noteq> []"
  by (cases stream)
    (auto simp: read_instructions_def Let_def result_iff read_stream_Inr_iff
      dest: read_push_raw split: if_splits)

lemma read_instructions_shrinks:
  "read_instructions stream = Inr (Some (i, rest)) \<Longrightarrow> length rest < length stream"
  by (auto dest!: read_instructions_raw)

section \<open>Conditional blocks\<close>

text \<open>
  The two branch buffers of \<^verbatim>\<open>_parse_conditional_block\<close>, and which one is current. \<open>tot\<close> is the
  length of the whole stream, so that \<^verbatim>\<open>stream.tell()\<close> is \<open>tot\<close> minus the unread bytes.
\<close>

record branches =
  if_branch :: bytes
  else_branch :: bytes
  in_else :: bool
  else_offset :: nat

definition emit :: "branches \<Rightarrow> bytes \<Rightarrow> branches" where
  "emit b r = (if in_else b then b\<lparr>else_branch := else_branch b @ r\<rparr>
               else b\<lparr>if_branch := if_branch b @ r\<rparr>)"

function conditional_loop :: "nat \<Rightarrow> bytes \<Rightarrow> nat \<Rightarrow> branches \<Rightarrow> (branches \<times> bytes) result" where
  "conditional_loop tot stream depth b =
     bindR (read_instructions stream) (\<lambda>r. case r of
         None \<Rightarrow> Inl ScriptEngineError
       | Some (instr, rest) \<Rightarrow>
           if i_opcode instr = 0x63 \<or> i_opcode instr = 0x64 then
             conditional_loop tot rest (depth + 1) (emit b (i_raw instr))
           else if i_opcode instr = 0x67 then
             (if depth = 1 then
                conditional_loop tot rest depth
                  (b\<lparr>in_else := True, else_offset := tot - length rest\<rparr>)
              else conditional_loop tot rest depth (emit b (i_raw instr)))
           else if i_opcode instr = 0x68 then
             (if depth - 1 = 0 then Inr (b, rest)
              else conditional_loop tot rest (depth - 1) (emit b (i_raw instr)))
           else conditional_loop tot rest depth (emit b (i_raw instr)))"
  by pat_completeness auto
termination
  by (relation "measure (\<lambda>(tot, stream, depth, b). length stream)")
    (auto dest: read_instructions_shrinks)

declare conditional_loop.simps [simp del]

text \<open>Returns the two branches, their offsets, and the unread bytes after \<^verbatim>\<open>OP_ENDIF\<close>.\<close>

definition parse_conditional_block ::
  "nat \<Rightarrow> bytes \<Rightarrow> (bytes \<times> bytes \<times> nat \<times> nat \<times> bytes) result" where
  "parse_conditional_block tot stream =
     (let if_offset = tot - length stream in
      bindR (conditional_loop tot stream 1
          \<lparr>if_branch = [], else_branch = [], in_else = False, else_offset = if_offset\<rparr>)
        (\<lambda>(b, rest). Inr (if_branch b, else_branch b, if_offset, else_offset b, rest)))"

end
