(* ===== verification/Encoding.thy ===== *)
theory Encoding
  imports Hash_Functions
begin

text \<open>
  \<^verbatim>\<open>src/src/data/encoding.py\<close> (outpoints, differential indices, Base58, Base58Check) and the
  round trips of these encodings. Strings are character lists.
\<close>

section \<open>Outpoints\<close>

definition TX_TXID :: nat where "TX_TXID = 32"
definition TX_VOUT :: nat where "TX_VOUT = 4"
definition TX_OUTPOINT :: nat where "TX_OUTPOINT = 36"

definition encode_outpoint :: "bytes \<Rightarrow> int \<Rightarrow> bytes result" where
  "encode_outpoint txid vout =
     bindR (guardR (length txid = TX_TXID) ValueError) (\<lambda>_.
     bindR (to_bytes_le TX_VOUT vout) (\<lambda>v. Inr (txid @ v)))"

definition decode_outpoint :: "bytes \<Rightarrow> (bytes \<times> int) result" where
  "decode_outpoint outpoint =
     bindR (guardR (length outpoint = TX_OUTPOINT) ValueError) (\<lambda>_.
       Inr (take TX_TXID outpoint, le_val (drop (length outpoint - TX_VOUT) outpoint)))"

lemma decode_encode_outpoint: "encode_outpoint t v = Inr bs \<Longrightarrow> decode_outpoint bs = Inr (t, v)"
  by (auto simp: encode_outpoint_def decode_outpoint_def TX_TXID_def TX_VOUT_def TX_OUTPOINT_def
      to_bytes_le_Inr_iff)

lemma encode_decode_outpoint:
  assumes "decode_outpoint bs = Inr (t, v)"
  shows "encode_outpoint t v = Inr bs"
proof -
  have l: "length bs = 36" and t: "t = take 32 bs" and v: "v = le_val (drop 32 bs)"
    using assms by (auto simp: decode_outpoint_def TX_TXID_def TX_VOUT_def TX_OUTPOINT_def)
  have "to_bytes_le 4 (le_val (drop 32 bs)) = Inr (drop 32 bs)"
    using l by (simp add: to_bytes_le_Inr_iff)
  with l t v show ?thesis by (simp add: encode_outpoint_def TX_TXID_def TX_VOUT_def)
qed

section \<open>Differential encoding\<close>

text \<open>The loops carry the previous index, \<open>-1\<close> at the start.\<close>

fun encode_differential_from :: "int \<Rightarrow> int list \<Rightarrow> int list" where
  "encode_differential_from prev_index [] = []"
| "encode_differential_from prev_index (index # indices) =
     (if prev_index < 0 then index else index - prev_index - 1) # encode_differential_from index indices"

definition encode_differential :: "int list \<Rightarrow> int list" where
  "encode_differential indices = encode_differential_from (- 1) indices"

fun decode_differential_from :: "int \<Rightarrow> int list \<Rightarrow> int list" where
  "decode_differential_from prev_index [] = []"
| "decode_differential_from prev_index (encoded # rest) =
     (let actual = (if prev_index < 0 then encoded else prev_index + encoded + 1)
      in actual # decode_differential_from actual rest)"

definition decode_differential :: "int list \<Rightarrow> int list" where
  "decode_differential encoded_list = decode_differential_from (- 1) encoded_list"

lemma differential_from: "decode_differential_from p (encode_differential_from p xs) = xs"
  by (induction xs arbitrary: p) (auto simp: Let_def)

lemma decode_encode_differential [simp]: "decode_differential (encode_differential xs) = xs"
  by (simp add: decode_differential_def encode_differential_def differential_from)

text \<open>Strictly increasing indices have non-negative differences, what the wire format can hold.\<close>

lemma encode_differential_from_nonneg:
  "sorted_wrt (<) xs \<Longrightarrow> list_all (\<lambda>i. 0 \<le> i \<and> p < i) xs \<Longrightarrow>
     list_all (\<lambda>i. 0 \<le> i) (encode_differential_from p xs)"
  by (induction xs arbitrary: p) (auto simp: list_all_iff)

section \<open>Base58\<close>

definition BASE58_ALPHABET :: string where
  "BASE58_ALPHABET = ''123456789ABCDEFGHJKLMNPQRSTUVWXYZabcdefghijkmnopqrstuvwxyz''"

text \<open>The loop \<^verbatim>\<open>while n > 0\<close>, prepending one digit per round.\<close>

function base58_loop :: "nat \<Rightarrow> string \<Rightarrow> string" where
  "base58_loop n encoded =
     (if n = 0 then encoded else base58_loop (n div 58) (BASE58_ALPHABET ! (n mod 58) # encoded))"
  by pat_completeness auto
termination by (relation "measure fst") auto

declare base58_loop.simps [simp del]

definition leading_zeros :: "bytes \<Rightarrow> nat" where
  "leading_zeros data = length (takeWhile (\<lambda>b. b = 0) data)"

definition encode_base58 :: "bytes \<Rightarrow> string" where
  "encode_base58 data =
     replicate (leading_zeros data) (CHR ''1'') @ base58_loop (nat (be_val data)) []"

text \<open>\<^verbatim>\<open>str.index\<close>: the position of the character, or \<^verbatim>\<open>ValueError\<close>.\<close>

fun str_index :: "string \<Rightarrow> char \<Rightarrow> nat result" where
  "str_index [] c = Inl ValueError"
| "str_index (d # ds) c = (if d = c then Inr 0 else bindR (str_index ds c) (\<lambda>i. Inr (Suc i)))"

text \<open>The summation loop over the reversed string.\<close>

fun base58_sum :: "string \<Rightarrow> nat \<Rightarrow> nat \<Rightarrow> nat result" where
  "base58_sum [] i acc = Inr acc"
| "base58_sum (char # base58) i acc =
     bindR (str_index BASE58_ALPHABET char) (\<lambda>char_i. base58_sum base58 (Suc i) (acc + char_i * 58 ^ i))"

definition decode_base58 :: "string \<Rightarrow> bytes result" where
  "decode_base58 data =
     bindR (base58_sum (rev data) 0 0) (\<lambda>sum.
     bindR (to_bytes_be (byte_length sum) (int sum)) (\<lambda>decoded_bytes.
       Inr (replicate (length (takeWhile (\<lambda>c. c = CHR ''1'') data)) 0 @ decoded_bytes)))"

lemma str_index_nth: "distinct ds \<Longrightarrow> i < length ds \<Longrightarrow> str_index ds (ds ! i) = Inr i"
  by (induction ds arbitrary: i) (auto simp: nth_Cons split: nat.split)

lemma alphabet_length: "length BASE58_ALPHABET = 58"
  by (simp add: BASE58_ALPHABET_def)

lemma alphabet_distinct: "distinct BASE58_ALPHABET"
  by (simp add: BASE58_ALPHABET_def)

lemma alphabet_index [simp]: "i < 58 \<Longrightarrow> str_index BASE58_ALPHABET (BASE58_ALPHABET ! i) = Inr i"
  by (simp add: str_index_nth alphabet_length alphabet_distinct)

lemma alphabet_one: "i < 58 \<Longrightarrow> BASE58_ALPHABET ! i = CHR ''1'' \<longleftrightarrow> i = 0"
proof -
  have "BASE58_ALPHABET ! 0 = CHR ''1''" by (simp add: BASE58_ALPHABET_def)
  then show "i < 58 \<Longrightarrow> ?thesis"
    using nth_eq_iff_index_eq [OF alphabet_distinct, of i 0] by (simp add: alphabet_length)
qed

lemma base58_loop_append: "base58_loop n acc = base58_loop n [] @ acc"
proof (induction n arbitrary: acc rule: less_induct)
  case (less n)
  show ?case
  proof (cases "n = 0")
    case False
    have IH: "base58_loop (n div 58) xs = base58_loop (n div 58) [] @ xs" for xs
      by (rule less.IH) (use False in simp)
    have "base58_loop n xs = base58_loop (n div 58) (BASE58_ALPHABET ! (n mod 58) # xs)" for xs
      using False by (simp add: base58_loop.simps [of n])
    then show ?thesis by (simp add: IH [of "_ # _"])
  qed (simp add: base58_loop.simps)
qed

lemma base58_loop_step:
  "0 < n \<Longrightarrow> base58_loop n [] = base58_loop (n div 58) [] @ [BASE58_ALPHABET ! (n mod 58)]"
  by (subst base58_loop.simps) (simp add: base58_loop_append [of _ "[_]"])

lemma base58_loop_head: "0 < n \<Longrightarrow> base58_loop n [] \<noteq> [] \<and> hd (base58_loop n []) \<noteq> CHR ''1''"
proof (induction n rule: less_induct)
  case (less n)
  show ?case
  proof (cases "n div 58 = 0")
    case True
    then have "base58_loop (n div 58) [] = []" by (simp add: base58_loop.simps)
    moreover from True have "n mod 58 = n" "n < 58" by auto
    ultimately show ?thesis using alphabet_one [of n] less.prems
      by (simp add: base58_loop_step [OF less.prems])
  next
    case False
    then have "base58_loop (n div 58) [] \<noteq> [] \<and> hd (base58_loop (n div 58) []) \<noteq> CHR ''1''"
      using less by simp
    then show ?thesis by (simp add: base58_loop_step [OF less.prems])
  qed
qed

lemma base58_sum_append:
  "base58_sum (xs @ ys) i a = bindR (base58_sum xs i a) (\<lambda>a'. base58_sum ys (i + length xs) a')"
  by (induction xs arbitrary: i a) (auto simp: bindR_assoc)

lemma base58_sum_ones: "base58_sum (replicate k (CHR ''1'')) i a = Inr a"
  using alphabet_index [of 0] by (induction k arbitrary: i) (auto simp: BASE58_ALPHABET_def)

lemma base58_sum_loop: "base58_sum (rev (base58_loop n [])) i a = Inr (a + n * 58 ^ i)"
proof (induction n arbitrary: i a rule: less_induct)
  case (less n)
  show ?case
  proof (cases "n = 0")
    case False
    have "(58 * d + m) * 58 ^ i = d * 58 ^ Suc i + m * 58 ^ i" for d m :: nat
      by (simp add: algebra_simps)
    from this [of "n div 58" "n mod 58"]
    have "n * 58 ^ i = n div 58 * 58 ^ Suc i + n mod 58 * 58 ^ i"
      by (simp only: mult_div_mod_eq)
    moreover have "base58_sum (rev (base58_loop n [])) i a =
        base58_sum (rev (base58_loop (n div 58) [])) (Suc i) (a + n mod 58 * 58 ^ i)"
      using False by (simp add: base58_loop_step [of n])
    ultimately show ?thesis
      using False less.IH [of "n div 58" "Suc i" "a + n mod 58 * 58 ^ i"] by simp
  qed (simp add: base58_loop.simps)
qed

lemma be_val_zeros: "be_val (replicate k 0 @ bs) = be_val bs"
  by (induction k) (auto simp: be_val_def le_val_append)

lemma byte_length_be_val:
  assumes "bs = [] \<or> hd bs \<noteq> 0"
  shows "byte_length (nat (be_val bs)) = length bs"
proof (cases bs)
  case Nil
  then show ?thesis by (simp add: be_val_def byte_length_def)
next
  case (Cons b cs)
  have "nat (be_val bs) < nat (256 ^ length bs)" using be_val_bound [of bs] by simp
  then have upper: "byte_length (nat (be_val bs)) \<le> length bs"
    by (intro byte_length_le) (simp add: nat_power_eq)
  have "uint b \<noteq> 0" using assms Cons by (simp add: uint_0_iff)
  then have "1 \<le> uint b" using uint_byte_bounds(1) [of b] by linarith
  then have "256 ^ length cs * 1 \<le> 256 ^ length cs * uint b" by (intro mult_left_mono) auto
  moreover have "be_val bs = be_val cs + 256 ^ length cs * uint b"
    using Cons by (simp add: be_val_def le_val_append)
  ultimately have "256 ^ length cs \<le> be_val bs" using be_val_nonneg [of cs] by linarith
  then have "\<not> nat (be_val bs) < 256 ^ length cs"
    by (simp add: nat_less_iff not_less le_nat_iff)
  moreover have "nat (be_val bs) < 256 ^ byte_length (nat (be_val bs))" by (rule byte_length_upper)
  ultimately have "\<not> byte_length (nat (be_val bs)) \<le> length cs"
    by (meson le_less_trans less_le_trans not_le one_le_numeral power_increasing)
  with upper Cons show ?thesis by simp
qed

lemma leading_zeros_split:
  "\<exists>rest. data = replicate (leading_zeros data) 0 @ rest \<and> (rest = [] \<or> hd rest \<noteq> 0)"
proof (intro exI conjI)
  have "takeWhile (\<lambda>b. b = 0) data = replicate (leading_zeros data) 0"
    by (auto simp: leading_zeros_def list_eq_iff_nth_eq dest: nth_mem set_takeWhileD)
  then show "data = replicate (leading_zeros data) 0 @ dropWhile (\<lambda>b. b = 0) data"
    by (metis takeWhile_dropWhile_id)
  show "dropWhile (\<lambda>b. b = 0) data = [] \<or> hd (dropWhile (\<lambda>b. b = 0) data) \<noteq> 0"
    using hd_dropWhile by blast
qed

lemma decode_encode_base58: "decode_base58 (encode_base58 data) = Inr data"
proof -
  obtain rest where d: "data = replicate (leading_zeros data) 0 @ rest"
    and r: "rest = [] \<or> hd rest \<noteq> 0" using leading_zeros_split by blast
  define n where "n = nat (be_val rest)"
  have n: "nat (be_val data) = n" using d be_val_zeros by (metis n_def)
  have "base58_sum (rev (encode_base58 data)) 0 0 = Inr n"
    by (simp add: encode_base58_def n base58_sum_append base58_sum_loop base58_sum_ones)
  moreover have "to_bytes_be (byte_length n) (int n) = Inr rest"
    using r by (simp add: n_def byte_length_be_val to_bytes_be_Inr_iff)
  moreover have "takeWhile (\<lambda>c. c = CHR ''1'') (base58_loop n []) = []"
    using base58_loop_head [of n] by (cases "base58_loop n []"; cases "n = 0") (auto simp: base58_loop.simps)
  then have "length (takeWhile (\<lambda>c. c = CHR ''1'') (encode_base58 data)) = leading_zeros data"
    by (simp add: encode_base58_def n takeWhile_append)
  ultimately show ?thesis using d by (simp add: decode_base58_def)
qed

text \<open>Without a prefix argument the code's default is the mainnet P2PKH byte \<^verbatim>\<open>0x00\<close>.\<close>

definition encode_base58check :: "hashes \<Rightarrow> bytes \<Rightarrow> bytes \<Rightarrow> string" where
  "encode_base58check H data prefix_byte =
     (let d = prefix_byte @ data; checksum = take 4 (hash256 H d) in encode_base58 (d @ checksum))"

text \<open>\<^verbatim>\<open>x[:-4]\<close> and \<^verbatim>\<open>x[-4:]\<close>: a string shorter than four bytes is all checksum.\<close>

definition decode_base58check :: "hashes \<Rightarrow> string \<Rightarrow> (bytes \<times> bytes) result" where
  "decode_base58check H data =
     bindR (decode_base58 data) (\<lambda>decoded.
       let d_bytes = take (length decoded - 4) decoded; d_checksum = drop (length decoded - 4) decoded
       in if take 4 (hash256 H d_bytes) \<noteq> d_checksum then Inl ValueError
          else Inr (d_bytes, d_checksum))"

lemma decode_encode_base58check:
  "4 \<le> length (hash256 H (prefix @ data)) \<Longrightarrow>
     decode_base58check H (encode_base58check H data prefix)
       = Inr (prefix @ data, take 4 (hash256 H (prefix @ data)))"
  by (simp add: decode_base58check_def encode_base58check_def decode_encode_base58 Let_def)

text \<open>
  Base58 and Base58Check decoding undo encoding: every byte string, leading zero bytes
  included, comes back from its Base58 text, and a Base58Check text gives back prefix, payload
  and checksum.
\<close>

theorem base58_round_trips:
  assumes "digest_sizes H"
  shows "decode_base58 (encode_base58 data) = Inr data
    \<and> decode_base58check H (encode_base58check H data prefix)
        = Inr (prefix @ data, take 4 (hash256 H (prefix @ data)))"
  using assms
  by (simp add: decode_encode_base58 decode_encode_base58check digest_sizes_def hash256_def)

lemma base58_round_trips_witness:
  "digest_sizes pad_hashes \<and> decode_base58 (encode_base58 [0, 0, 7, 255]) = Inr [0, 0, 7, 255]"
  using base58_round_trips [OF pad_hashes_digest_sizes, of "[0, 0, 7, 255]" "[]"] pad_hashes_digest_sizes by blast

end
