(* ===== verification/Bech32.thy ===== *)
theory Bech32
  imports Prelude
begin

unbundle bit_operations_syntax

text \<open>
  \<^verbatim>\<open>src/src/cryptography/bech32.py\<close> and the two functions of \<^verbatim>\<open>src/src/data/encoding.py\<close> that
  use it. Data values and the checksum register are Python integers. The module uses both the
  \<^verbatim>\<open>Encoding\<close> enumeration and its integer codes 1 and 2; \<open>bech_encoding\<close> stands for either.
\<close>

datatype bech_encoding = BECH32 | BECH32M

definition CHARSET :: string where "CHARSET = ''qpzry9x8gf2tvdw0s3jn54khce6mua7l''"
definition BECH32M_CONST :: int where "BECH32M_CONST = 0x2bc830a3"

definition polymod_generator :: "int list" where
  "polymod_generator = [0x3b6a57b2, 0x26508e6d, 0x1ea119fa, 0x3d4233dd, 0x2a1462b3]"

section \<open>The checksum register\<close>

text \<open>The inner loop over the five generators.\<close>

fun xor_generators :: "int \<Rightarrow> nat \<Rightarrow> int list \<Rightarrow> int \<Rightarrow> int" where
  "xor_generators high i [] chk = chk"
| "xor_generators high i (g # gs) chk =
     xor_generators high (Suc i) gs (chk XOR (if drop_bit i high AND 1 \<noteq> 0 then g else 0))"

definition polymod_step :: "int \<Rightarrow> int \<Rightarrow> int" where
  "polymod_step chk v =
     (let high = drop_bit 25 chk; chk1 = push_bit 5 (chk AND 0x1ffffff) XOR v
      in xor_generators high 0 polymod_generator chk1)"

definition bech32_polymod :: "int list \<Rightarrow> int" where
  "bech32_polymod vs = foldl polymod_step 1 vs"

definition ord :: "char \<Rightarrow> int" where "ord c = int (of_char c)"

definition bech32_hrp_expand :: "string \<Rightarrow> int list" where
  "bech32_hrp_expand hrp = map (\<lambda>x. drop_bit 5 (ord x)) hrp @ [0] @ map (\<lambda>x. ord x AND 31) hrp"

definition bech32_verify_checksum :: "string \<Rightarrow> int list \<Rightarrow> bech_encoding option" where
  "bech32_verify_checksum hrp data =
     (let const = bech32_polymod (bech32_hrp_expand hrp @ data) in
      if const = 1 then Some BECH32
      else if const = BECH32M_CONST then Some BECH32M else None)"

definition spec_const :: "bech_encoding \<Rightarrow> int" where
  "spec_const spec = (if spec = BECH32M then BECH32M_CONST else 1)"

definition bech32_create_checksum :: "string \<Rightarrow> int list \<Rightarrow> bech_encoding \<Rightarrow> int list" where
  "bech32_create_checksum hrp data spec =
     (let vs = bech32_hrp_expand hrp @ data;
          polymod = bech32_polymod (vs @ [0, 0, 0, 0, 0, 0]) XOR spec_const spec
      in map (\<lambda>i. drop_bit (5 * (5 - i)) polymod AND 31) [0..<6])"

section \<open>Strings\<close>

text \<open>\<^verbatim>\<open>CHARSET[d]\<close>: a Python index, negative ones counting from the end.\<close>

definition charset_at :: "int \<Rightarrow> char result" where
  "charset_at d =
     (let j = (if d < 0 then d + 32 else d)
      in if 0 \<le> j \<and> j < 32 then Inr (CHARSET ! nat j) else Inl IndexError)"

fun charset_string :: "int list \<Rightarrow> string result" where
  "charset_string [] = Inr []"
| "charset_string (d # ds) =
     bindR (charset_at d) (\<lambda>c. bindR (charset_string ds) (\<lambda>cs. Inr (c # cs)))"

definition bech32_encode :: "string \<Rightarrow> int list \<Rightarrow> bech_encoding \<Rightarrow> string result" where
  "bech32_encode hrp data spec =
     bindR (charset_string (data @ bech32_create_checksum hrp data spec))
       (\<lambda>s. Inr (hrp @ ''1'' @ s))"

text \<open>\<^verbatim>\<open>str.lower\<close> and \<^verbatim>\<open>str.upper\<close> on ASCII characters.\<close>

definition lower_char :: "char \<Rightarrow> char" where
  "lower_char c = (let n = of_char c :: nat in if 65 \<le> n \<and> n \<le> 90 then char_of (n + 32) else c)"

definition upper_char :: "char \<Rightarrow> char" where
  "upper_char c = (let n = of_char c :: nat in if 97 \<le> n \<and> n \<le> 122 then char_of (n - 32) else c)"

text \<open>\<^verbatim>\<open>bech.rfind('1')\<close>: the last position, \<open>None\<close> for \<^verbatim>\<open>-1\<close>.\<close>

definition rfind_one :: "string \<Rightarrow> nat option" where
  "rfind_one s =
     (if CHR ''1'' \<in> set s then Some (length s - 1 - length (takeWhile (\<lambda>c. c \<noteq> CHR ''1'') (rev s)))
      else None)"

definition charset_find :: "char \<Rightarrow> int" where
  "charset_find x = int (length (takeWhile (\<lambda>c. c \<noteq> x) CHARSET))"

text \<open>\<open>None\<close> is the code's \<^verbatim>\<open>(None, None, None)\<close>.\<close>

definition bech32_decode :: "string \<Rightarrow> (string \<times> int list \<times> bech_encoding) option" where
  "bech32_decode bech =
     (if list_ex (\<lambda>x. ord x < 33 \<or> ord x > 126) bech
         \<or> (map lower_char bech \<noteq> bech \<and> map upper_char bech \<noteq> bech) then None
      else let bech = map lower_char bech in
        case rfind_one bech of None \<Rightarrow> None
        | Some pos \<Rightarrow>
            if pos < 1 \<or> pos + 7 > length bech \<or> length bech > 90 then None
            else if \<not> list_all (\<lambda>x. x \<in> set CHARSET) (drop (pos + 1) bech) then None
            else let hrp = take pos bech; data = map charset_find (drop (pos + 1) bech) in
              case bech32_verify_checksum hrp data of None \<Rightarrow> None
              | Some spec \<Rightarrow> Some (hrp, take (length data - 6) data, spec))"

section \<open>Regrouping bits\<close>

text \<open>
  \<^verbatim>\<open>convertbits\<close>. The inner loop emits groups while at least \<open>tobits\<close> bits are pending;
  \<open>None\<close> is the code's early \<^verbatim>\<open>return None\<close>. \<open>tobits\<close> is 5 or 8 in every call.
\<close>

function emit_groups :: "int \<Rightarrow> nat \<Rightarrow> nat \<Rightarrow> int list \<Rightarrow> nat \<times> int list" where
  "emit_groups acc bits tobits ret =
     (if tobits \<le> bits \<and> 0 < tobits
      then emit_groups acc (bits - tobits) tobits
             (ret @ [drop_bit (bits - tobits) acc AND (push_bit tobits 1 - 1)])
      else (bits, ret))"
  by pat_completeness auto
termination by (relation "measure (\<lambda>(acc, bits, tobits, ret). bits)") auto

declare emit_groups.simps [simp del]

fun convertbits_loop ::
  "int list \<Rightarrow> nat \<Rightarrow> nat \<Rightarrow> int \<Rightarrow> nat \<Rightarrow> int list \<Rightarrow> (int \<times> nat \<times> int list) option" where
  "convertbits_loop [] frombits tobits acc bits ret = Some (acc, bits, ret)"
| "convertbits_loop (v # vs) frombits tobits acc bits ret =
     (if v < 0 \<or> drop_bit frombits v \<noteq> 0 then None
      else
        let max_acc = push_bit (frombits + tobits - 1) 1 - 1;
            acc = (push_bit frombits acc OR v) AND max_acc
        in case emit_groups acc (bits + frombits) tobits ret of (bits, ret) \<Rightarrow>
             convertbits_loop vs frombits tobits acc bits ret)"

definition convertbits :: "int list \<Rightarrow> nat \<Rightarrow> nat \<Rightarrow> bool \<Rightarrow> int list option" where
  "convertbits data frombits tobits pad =
     (case convertbits_loop data frombits tobits 0 0 [] of None \<Rightarrow> None
      | Some (acc, bits, ret) \<Rightarrow>
          let maxv = push_bit tobits 1 - 1 in
          if pad then
            (if bits \<noteq> 0 then Some (ret @ [push_bit (tobits - bits) acc AND maxv]) else Some ret)
          else if bits \<ge> frombits \<or> push_bit (tobits - bits) acc AND maxv \<noteq> 0 then None
          else Some ret)"

section \<open>Addresses\<close>

definition encode_bech32 :: "bytes \<Rightarrow> string \<Rightarrow> int \<Rightarrow> string result" where
  "encode_bech32 pubkeydata hrp witver =
     bindR (guardR (0 \<le> witver \<and> witver \<le> 16) ValueError) (\<lambda>_.
     case convertbits (map uint pubkeydata) 8 5 True of None \<Rightarrow> Inl ValueError
     | Some converted \<Rightarrow>
         let data = witver # converted; spec = (if witver > 0 then BECH32M else BECH32) in
         bindR (bech32_encode hrp data spec) (\<lambda>address.
           case bech32_decode address of
             None \<Rightarrow> Inl ValueError
           | Some (decoded_hrp, decoded_data, dec_spec) \<Rightarrow>
               if decoded_hrp \<noteq> hrp \<or> dec_spec \<noteq> spec then Inl ValueError else Inr address))"

text \<open>\<^verbatim>\<open>del None[0]\<close> raises \<^verbatim>\<open>TypeError\<close>; \<^verbatim>\<open>bytes(None)\<close> does too.\<close>

definition decode_bech32 :: "string \<Rightarrow> bytes result" where
  "decode_bech32 address =
     (case bech32_decode address of
        None \<Rightarrow> Inl TypeError
      | Some (hrp, decoded, spec) \<Rightarrow>
          if decoded = [] then Inl IndexError
          else case convertbits (tl decoded) 5 8 True of
            None \<Rightarrow> Inl TypeError
          | Some ds \<Rightarrow> Inr (map word_of_int ds))"

section \<open>The checksum is linear over XOR\<close>

lemma drop_bit_and_one: "drop_bit i h AND 1 \<noteq> (0 :: int) \<longleftrightarrow> bit h i"
  by (simp add: and_one_eq bit_iff_odd_drop_bit odd_iff_mod_2_eq_one)

lemma xor_generators_acc: "xor_generators h i gs c = xor_generators h i gs 0 XOR c"
proof (induction gs arbitrary: i c)
  case Nil
  then show ?case by simp
next
  case (Cons g gs)
  show ?case
    by (simp only: xor_generators.simps Cons.IH [of _ "_ XOR _"]) (simp add: xor.assoc xor.commute)
qed

lemma xor_generators_linear:
  "xor_generators (a XOR b) i gs 0 = xor_generators a i gs 0 XOR xor_generators b i gs 0"
proof (induction gs arbitrary: i)
  case Nil
  then show ?case by simp
next
  case (Cons g gs)
  show ?case
    by (simp del: drop_bit_xor add: drop_bit_and_one bit_xor_iff Cons.IH xor_generators_acc [of _ _ _ g]
        xor.assoc xor.commute xor.left_commute)
qed

text \<open>The generators selected by the high bits, and one round without the new value.\<close>

definition feedback :: "int \<Rightarrow> int" where
  "feedback high = xor_generators high 0 polymod_generator 0"

definition shift_step :: "int \<Rightarrow> int" where
  "shift_step c = feedback (drop_bit 25 c) XOR push_bit 5 (c AND 0x1ffffff)"

lemma polymod_step_shift: "polymod_step c v = shift_step c XOR v"
  unfolding polymod_step_def shift_step_def feedback_def Let_def
  by (subst xor_generators_acc) (simp only: xor.assoc)

lemma feedback_linear: "feedback (a XOR b) = feedback a XOR feedback b"
  by (simp add: feedback_def xor_generators_linear)

lemma feedback_0: "feedback 0 = 0"
  by (simp add: feedback_def polymod_generator_def)

lemma feedback_bound: "take_bit 30 (feedback h) = feedback h"
  by (simp add: feedback_def polymod_generator_def take_bit_xor)

lemma mask25: "(0x1ffffff :: int) = mask 25"
  by (simp add: mask_eq_exp_minus_1)

lemma shift_step_linear: "shift_step (a XOR b) = shift_step a XOR shift_step b"
proof -
  have "push_bit 5 ((a XOR b) AND m) = push_bit 5 (a AND m) XOR push_bit 5 (b AND m)" for m
    by (rule bit_eqI) (auto simp: bit_simps)
  then show ?thesis
    by (simp only: shift_step_def feedback_linear drop_bit_xor xor.assoc xor.commute xor.left_commute)
qed

lemma shift_step_small:
  assumes "0 \<le> x" and "x < 2 ^ 25"
  shows "shift_step x = push_bit 5 x"
proof -
  have "drop_bit 25 x = 0" using assms by (simp add: drop_bit_eq_div)
  moreover have "x AND 0x1ffffff = x"
    using assms unfolding mask25 by (simp add: take_bit_eq_mask [symmetric] take_bit_int_eq_self)
  ultimately show ?thesis by (simp only: shift_step_def feedback_0 xor.left_neutral)
qed

lemma shift_step_bound: "take_bit 30 (shift_step c) = shift_step c"
proof -
  have "take_bit 30 (push_bit 5 (c AND 0x1ffffff)) = push_bit 5 (c AND 0x1ffffff)"
    unfolding mask25 by (rule bit_eqI) (auto simp: bit_simps)
  then show ?thesis
    by (simp only: shift_step_def take_bit_xor feedback_bound)
qed

text \<open>Six more values: the first five are only shifted, so the register ends as the register
  after six zeros XOR the six values side by side.\<close>

lemma polymod_six:
  assumes "list_all (\<lambda>v. 0 \<le> v \<and> v < 32) [a, b, c, d, e, f]"
  shows "foldl polymod_step r [a, b, c, d, e, f] = foldl polymod_step r [0, 0, 0, 0, 0, 0]
    XOR push_bit 25 a XOR push_bit 20 b XOR push_bit 15 c XOR push_bit 10 d XOR push_bit 5 e XOR f"
proof -
  have small: "shift_step (push_bit k v) = push_bit (k + 5) v" if "0 \<le> v" "v < 32" "k \<le> 20" for k v
  proof -
    have "v * 2 ^ k < 32 * 2 ^ k" using that by simp
    also have "(32 :: int) * 2 ^ k \<le> 32 * 2 ^ 20" using that by (intro mult_left_mono power_increasing) auto
    finally have "push_bit k v < 2 ^ 25" by (simp add: push_bit_eq_mult)
    then show ?thesis using that by (subst shift_step_small) (simp_all add: push_bit_eq_mult power_add)
  qed
  from small [of _ 0] have "shift_step v = push_bit 5 v" if "0 \<le> v" "v < 32" for v using that by simp
  with assms show ?thesis
    by (simp add: polymod_step_shift shift_step_linear small xor.assoc xor.commute xor.left_commute)
qed

lemma join_groups:
  "push_bit k (drop_bit k x AND 31) XOR take_bit k x = take_bit (k + 5) (x :: int)"
proof -
  have five: "drop_bit k x AND 31 = take_bit 5 (drop_bit k x)"
    by (simp add: take_bit_eq_mask mask_eq_exp_minus_1)
  show ?thesis unfolding five by (rule bit_eqI) (auto simp: bit_simps)
qed

lemma polymod_checksum:
  assumes "take_bit 30 pm = pm"
  shows "foldl polymod_step r (map (\<lambda>i. drop_bit (5 * (5 - i)) pm AND 31) [0..<6])
    = foldl polymod_step r [0, 0, 0, 0, 0, 0] XOR pm"
proof -
  have range: "list_all (\<lambda>v. 0 \<le> v \<and> v < 32)
      [drop_bit 25 pm AND 31, drop_bit 20 pm AND 31, drop_bit 15 pm AND 31, drop_bit 10 pm AND 31,
       drop_bit 5 pm AND 31, pm AND 31]"
  proof -
    have "0 \<le> x AND 31 \<and> x AND 31 < (32 :: int)" for x
      using AND_upper2 [of 31 x] by simp
    then show ?thesis by simp
  qed
  have list: "map (\<lambda>i. drop_bit (5 * (5 - i)) pm AND 31) [0..<6] =
      [drop_bit 25 pm AND 31, drop_bit 20 pm AND 31, drop_bit 15 pm AND 31, drop_bit 10 pm AND 31,
       drop_bit 5 pm AND 31, pm AND 31]"
    by (simp add: upt_rec)
  have zero: "pm AND 31 = take_bit 5 pm" by (simp add: take_bit_eq_mask mask_eq_exp_minus_1)
  have "push_bit 25 (drop_bit 25 pm AND 31) XOR (push_bit 20 (drop_bit 20 pm AND 31) XOR
      (push_bit 15 (drop_bit 15 pm AND 31) XOR (push_bit 10 (drop_bit 10 pm AND 31) XOR
      (push_bit 5 (drop_bit 5 pm AND 31) XOR take_bit 5 pm)))) = pm"
    using assms join_groups [of 5 pm] join_groups [of 10 pm] join_groups [of 15 pm]
      join_groups [of 20 pm] join_groups [of 25 pm] by simp
  then show ?thesis
    unfolding list polymod_six [OF range] by (simp only: zero xor.assoc)
qed

lemma polymod_bound: "list_all (\<lambda>v. take_bit 30 v = v) vs \<Longrightarrow> take_bit 30 r = r \<Longrightarrow>
    take_bit 30 (foldl polymod_step r vs) = foldl polymod_step r vs"
  by (induction vs arbitrary: r) (auto simp: polymod_step_shift take_bit_xor shift_step_bound)

lemma polymod_zeros_bound:
  "take_bit 30 (foldl polymod_step r [0, 0, 0, 0, 0, 0]) = foldl polymod_step r [0, 0, 0, 0, 0, 0]"
  by (simp add: polymod_step_shift shift_step_bound)

lemma verify_create_checksum:
  "bech32_verify_checksum hrp (data @ bech32_create_checksum hrp data spec) = Some spec"
proof -
  define r where "r = foldl polymod_step 1 (bech32_hrp_expand hrp @ data)"
  define pm where "pm = bech32_polymod ((bech32_hrp_expand hrp @ data) @ [0, 0, 0, 0, 0, 0]) XOR spec_const spec"
  have z: "bech32_polymod ((bech32_hrp_expand hrp @ data) @ [0, 0, 0, 0, 0, 0]) =
      foldl polymod_step r [0, 0, 0, 0, 0, 0]" by (simp add: bech32_polymod_def r_def)
  have "take_bit 30 (spec_const spec) = spec_const spec"
    by (simp add: spec_const_def BECH32M_CONST_def)
  then have pm30: "take_bit 30 pm = pm" by (simp only: pm_def z take_bit_xor polymod_zeros_bound)
  have "bech32_polymod (bech32_hrp_expand hrp @ data @ bech32_create_checksum hrp data spec)
      = foldl polymod_step r [0, 0, 0, 0, 0, 0] XOR pm"
    unfolding polymod_checksum [OF pm30, symmetric]
    by (simp add: bech32_polymod_def bech32_create_checksum_def Let_def r_def pm_def)
  also have "\<dots> = spec_const spec" by (simp only: pm_def z) (simp flip: xor.assoc)
  finally show ?thesis
    by (cases spec) (simp_all add: bech32_verify_checksum_def Let_def spec_const_def BECH32M_CONST_def)
qed

section \<open>The text form\<close>

lemma charset_length: "length CHARSET = 32" by (simp add: CHARSET_def)

lemma charset_distinct: "distinct CHARSET" by (simp add: CHARSET_def)

lemma charset_no_one: "CHR ''1'' \<notin> set CHARSET" by (simp add: CHARSET_def)

lemma charset_printable:
  "list_all (\<lambda>c. 33 \<le> ord c \<and> ord c \<le> 126 \<and> lower_char c = c) CHARSET"
  by (simp add: CHARSET_def ord_def lower_char_def)

lemma charset_find_nth: "i < 32 \<Longrightarrow> charset_find (CHARSET ! i) = int i"
proof -
  assume "i < 32"
  then have "takeWhile (\<lambda>c. c \<noteq> CHARSET ! i) CHARSET = take i CHARSET"
    using charset_distinct
    by (intro takeWhile_eq_take_P_nth) (auto simp: charset_length nth_eq_iff_index_eq)
  with \<open>i < 32\<close> show ?thesis by (simp add: charset_find_def charset_length)
qed

lemma charset_string_spec:
  assumes "list_all (\<lambda>d. 0 \<le> d \<and> d < 32) ds"
  obtains s where "charset_string ds = Inr s" and "set s \<subseteq> set CHARSET"
    and "map charset_find s = ds" and "length s = length ds"
proof -
  have "\<exists>s. charset_string ds = Inr s \<and> set s \<subseteq> set CHARSET \<and> map charset_find s = ds
      \<and> length s = length ds"
    using assms
  proof (induction ds)
    case Nil
    then show ?case by simp
  next
    case (Cons d ds)
    then have d: "nat d < 32" "int (nat d) = d" by auto
    then have "charset_at d = Inr (CHARSET ! nat d)" by (auto simp: charset_at_def Let_def)
    moreover from d have "charset_find (CHARSET ! nat d) = d" using charset_find_nth [of "nat d"] by simp
    moreover from d have "CHARSET ! nat d \<in> set CHARSET" by (simp add: charset_length)
    moreover from Cons obtain s where "charset_string ds = Inr s" "set s \<subseteq> set CHARSET"
      "map charset_find s = ds" "length s = length ds" by auto
    ultimately show ?case by auto
  qed
  then show ?thesis using that by blast
qed

lemma rfind_one_split: "CHR ''1'' \<notin> set s \<Longrightarrow> rfind_one (hrp @ CHR ''1'' # s) = Some (length hrp)"
proof -
  assume "CHR ''1'' \<notin> set s"
  then have "takeWhile (\<lambda>c. c \<noteq> CHR ''1'') (rev s @ CHR ''1'' # rev hrp) = rev s"
    by (subst takeWhile_append2) auto
  then show ?thesis by (simp add: rfind_one_def)
qed

lemma checksum_range: "list_all (\<lambda>d. 0 \<le> d \<and> d < 32) (bech32_create_checksum hrp data spec)"
  "length (bech32_create_checksum hrp data spec) = 6"
proof -
  have "0 \<le> x AND 31 \<and> x AND 31 < (32 :: int)" for x using AND_upper2 [of 31 x] by simp
  then show "list_all (\<lambda>d. 0 \<le> d \<and> d < 32) (bech32_create_checksum hrp data spec)"
    by (simp add: bech32_create_checksum_def Let_def list_all_iff)
  show "length (bech32_create_checksum hrp data spec) = 6"
    by (simp add: bech32_create_checksum_def Let_def)
qed

text \<open>A human-readable part the encoder is used with: printable, lower case, not empty.\<close>

definition hrp_ok :: "string \<Rightarrow> bool" where
  "hrp_ok hrp \<longleftrightarrow> hrp \<noteq> [] \<and> list_all (\<lambda>c. 33 \<le> ord c \<and> ord c \<le> 126 \<and> lower_char c = c) hrp"

text \<open>
  a Bech32 or Bech32m text decodes to what was encoded: human-readable part, data and the
  variant, for every lower-case prefix and every data of five-bit values that fits the 90
  character limit; the six checksum characters are exactly what the verifier accepts.
\<close>

theorem bech32_round_trip:
  assumes "hrp_ok hrp" and "list_all (\<lambda>d. 0 \<le> d \<and> d < 32) data"
    and "length hrp + length data + 7 \<le> 90"
  shows "\<exists>s. bech32_encode hrp data spec = Inr s \<and> bech32_decode s = Some (hrp, data, spec)"
proof -
  let ?all = "data @ bech32_create_checksum hrp data spec"
  have "list_all (\<lambda>d. 0 \<le> d \<and> d < 32) ?all" using assms(2) checksum_range by simp
  then obtain s where s: "charset_string ?all = Inr s" "set s \<subseteq> set CHARSET"
    "map charset_find s = ?all" "length s = length ?all" by (rule charset_string_spec)
  let ?text = "hrp @ CHR ''1'' # s"
  have ok: "list_all (\<lambda>c. 33 \<le> ord c \<and> ord c \<le> 126 \<and> lower_char c = c) ?text"
    using assms(1) s(2) charset_printable
    by (auto simp: hrp_ok_def list_all_iff ord_def lower_char_def)
  then have "map lower_char ?text = ?text" by (simp add: list_all_iff map_idI)
  moreover have "\<not> list_ex (\<lambda>x. ord x < 33 \<or> ord x > 126) ?text"
    using ok unfolding list_ex_iff list_all_iff by (meson not_le)
  moreover have "rfind_one ?text = Some (length hrp)"
    using s(2) charset_no_one by (intro rfind_one_split) auto
  moreover have "list_all (\<lambda>x. x \<in> set CHARSET) s" using s(2) by (auto simp: list_all_iff)
  ultimately have "bech32_decode ?text = Some (hrp, data, spec)"
    using assms s(3,4) checksum_range(2) [of hrp data spec] verify_create_checksum [of hrp data spec]
    by (simp add: bech32_decode_def hrp_ok_def Let_def Suc_le_eq)
  then show ?thesis using s(1) by (simp add: bech32_encode_def)
qed

lemma bech32_round_trip_witness:
  "\<exists>s. bech32_encode ''bc'' [0, 14, 31] BECH32 = Inr s \<and> bech32_decode s = Some (''bc'', [0, 14, 31], BECH32)"
  by (rule bech32_round_trip) (simp_all add: hrp_ok_def ord_def lower_char_def)

end
