(* ===== verification/Modular.thy ===== *)
theory Modular
  imports Prelude
begin

unbundle bit_operations_syntax

text \<open>
  Python's three-argument \<^verbatim>\<open>pow\<close> and \<^verbatim>\<open>src/src/cryptography/ecc_math.py\<close>. A loop of the code
  that need not end is a \<open>partial_function\<close> whose value \<open>None\<close> means that it does not return; the
  callers see that as the pseudo exception \<open>NoReturn\<close>.
\<close>

section \<open>pow(b, e, m) and pow(a, -1, m)\<close>

fun pow_mod :: "int \<Rightarrow> nat \<Rightarrow> int \<Rightarrow> int" where
  "pow_mod b e m =
     (if e = 0 then 1 mod m
      else let h = pow_mod (b * b mod m) (e div 2) m in if odd e then b * h mod m else h)"

declare pow_mod.simps [simp del]

lemma pow_mod_eq: "pow_mod b e m = b ^ e mod m"
proof (induction b e m rule: pow_mod.induct)
  case (1 b e m)
  show ?case
  proof (cases "e = 0")
    case True
    then show ?thesis by (simp add: pow_mod.simps)
  next
    case False
    then have h: "pow_mod (b * b mod m) (e div 2) m = (b * b) ^ (e div 2) mod m"
      using 1 by (simp add: power_mod)
    have "b ^ e = (if odd e then b * (b * b) ^ (e div 2) else (b * b) ^ (e div 2))"
      by (auto simp: power_mult_distrib simp flip: power_add mult_2 power_Suc elim!: evenE oddE)
    with False show ?thesis by (simp add: pow_mod.simps [of b e m] h Let_def mod_simps)
  qed
qed

function egcd_loop :: "int \<Rightarrow> int \<Rightarrow> int \<Rightarrow> int \<Rightarrow> int \<times> int" where
  "egcd_loop r0 s0 r1 s1 =
     (if r1 \<le> 0 then (r0, s0)
      else let q = r0 div r1 in egcd_loop r1 s1 (r0 - q * r1) (s0 - q * s1))"
  by pat_completeness auto
termination
  by (relation "measure (\<lambda>(r0, s0, r1, s1). nat r1)")
    (auto simp: minus_div_mult_eq_mod)

declare egcd_loop.simps [simp del]

text \<open>\<^verbatim>\<open>pow(a, -1, m)\<close> raises \<^verbatim>\<open>ValueError\<close> when \<open>a\<close> is not invertible.\<close>

definition mod_inverse :: "int \<Rightarrow> int \<Rightarrow> int result" where
  "mod_inverse a m =
     (case egcd_loop m 0 (a mod m) 1 of (g, s) \<Rightarrow> if g = 1 then Inr (s mod m) else Inl ValueError)"

lemma egcd_loop_inv:
  "egcd_loop r0 s0 r1 s1 = (g, s) \<Longrightarrow> 0 \<le> r1 \<Longrightarrow> 0 \<le> r0 \<Longrightarrow> m dvd a * s0 - r0 \<Longrightarrow> m dvd a * s1 - r1 \<Longrightarrow>
     m dvd a * s - g \<and> g = gcd r0 r1"
proof (induction r0 s0 r1 s1 rule: egcd_loop.induct)
  case (1 r0 s0 r1 s1)
  show ?case
  proof (cases "r1 \<le> 0")
    case True
    with 1 show ?thesis by (simp add: egcd_loop.simps [of r0])
  next
    case False
    define q where "q = r0 div r1"
    have e: "egcd_loop r1 s1 (r0 - q * r1) (s0 - q * s1) = (g, s)"
      using "1.prems"(1) False by (simp add: egcd_loop.simps [of r0] Let_def q_def)
    have r: "r0 - q * r1 = r0 mod r1" by (simp add: q_def minus_div_mult_eq_mod)
    have eq: "a * (s0 - q * s1) - (r0 - q * r1) = (a * s0 - r0) - q * (a * s1 - r1)"
      by (simp add: algebra_simps)
    have "m dvd (a * s0 - r0) - q * (a * s1 - r1)"
      by (rule dvd_diff [OF "1.prems"(4) dvd_mult [OF "1.prems"(5)]])
    then have "m dvd a * (s0 - q * s1) - (r0 - q * r1)" by (simp only: eq)
    moreover have "0 \<le> r0 - q * r1" using False by (simp add: r)
    ultimately have "m dvd a * s - g \<and> g = gcd r1 (r0 - q * r1)"
      using "1.IH" [OF False q_def e] False "1.prems"(5) by auto
    moreover have "gcd r1 (r0 mod r1) = gcd r0 r1"
      by (metis gcd.commute gcd_red_int)
    ultimately show ?thesis unfolding r by auto
  qed
qed

lemma mod_inverse_cases:
  assumes "0 < m"
  shows "mod_inverse a m = Inl ValueError \<and> \<not> coprime a m
    \<or> (\<exists>r. mod_inverse a m = Inr r \<and> 0 \<le> r \<and> r < m \<and> m dvd a * r - 1 \<and> coprime a m)"
proof -
  obtain g s where gs: "egcd_loop m 0 (a mod m) 1 = (g, s)" by fastforce
  have "m dvd a - a mod m" by (simp add: mod_eq_dvd_iff [symmetric])
  then have inv: "m dvd a * s - g" "g = gcd m (a mod m)"
    using egcd_loop_inv [OF gs, of m a] assms by auto
  have "gcd m (a mod m) = gcd a m" by (metis gcd.commute gcd_red_int)
  then have g: "g = 1 \<longleftrightarrow> coprime a m" using inv(2) by (simp add: coprime_iff_gcd_eq_1)
  have "m dvd a * (s mod m) - a * s"
    by (metis dvd_mult mod_eq_dvd_iff mod_mod_trivial right_diff_distrib)
  then have "m dvd (a * (s mod m) - a * s) + (a * s - g)" using inv(1) by (rule dvd_add)
  then have "m dvd a * (s mod m) - g" by simp
  with gs g assms show ?thesis by (auto simp: mod_inverse_def)
qed

lemma mod_inverse_Inr:
  assumes "0 < m" and "mod_inverse a m = Inr r"
  shows "0 \<le> r" and "r < m" and "m dvd a * r - 1" and "coprime a m"
  using mod_inverse_cases [OF assms(1), of a] assms(2) by auto

lemma mod_inverse_unique:
  assumes "1 < m" and "m dvd a * r - 1" and "0 \<le> r" and "r < m"
  shows "mod_inverse a m = Inr r"
proof -
  have "coprime a m"
  proof (rule coprimeI)
    fix c assume "c dvd a" "c dvd m"
    then have "c dvd a * r" "c dvd a * r - 1" using assms(2) by (auto dest: dvd_trans)
    then have "c dvd a * r - (a * r - 1)" by (rule dvd_diff)
    then show "is_unit c" by simp
  qed
  with mod_inverse_cases [of m a] assms(1) obtain r' where
    r': "mod_inverse a m = Inr r'" "0 \<le> r'" "r' < m" "m dvd a * r' - 1" "coprime a m" by auto
  have "m dvd (a * r - 1) - (a * r' - 1)" using assms(2) r'(4) by (rule dvd_diff)
  then have "m dvd a * (r - r')" by (simp add: algebra_simps)
  then have "m dvd r - r'" using r'(5) by (simp add: coprime_dvd_mult_right_iff coprime_commute)
  then have "r mod m = r' mod m" by (simp add: mod_eq_dvd_iff)
  with assms r' show ?thesis by simp
qed

section \<open>Square roots: ecc\_math.py\<close>

definition is_quadratic_residue :: "int \<Rightarrow> int \<Rightarrow> bool" where
  "is_quadratic_residue n p =
     (let n = n mod p in if n = 0 then True else pow_mod n (nat ((p - 1) div 2)) p \<noteq> p - 1)"

text \<open>Step 1: divide \<open>p - 1\<close> by two while it is even. It never ends on 0.\<close>

partial_function (option) split_even :: "int \<Rightarrow> nat \<Rightarrow> (int \<times> nat) option" where
  "split_even q s = (if q AND 1 = 0 then split_even (drop_bit 1 q) (s + 1) else Some (q, s))"

text \<open>Step 2: the first non-residue from 2 on. It never ends when there is none.\<close>

partial_function (option) find_nonresidue :: "int \<Rightarrow> int \<Rightarrow> int option" where
  "find_nonresidue p z =
     (if pow_mod z (nat (drop_bit 1 (p - 1))) p \<noteq> p - 1 then find_nonresidue p (z + 1) else Some z)"

text \<open>Step 4: the least \<open>i\<close> with \<open>t^(2^i) = 1\<close>.\<close>

partial_function (option) find_order :: "int \<Rightarrow> nat \<Rightarrow> int \<Rightarrow> nat option" where
  "find_order p i temp = (if temp \<noteq> 1 then find_order p (i + 1) (temp * temp mod p) else Some i)"

text \<open>\<^verbatim>\<open>1 << (m - i - 1)\<close> raises \<^verbatim>\<open>ValueError\<close> on a negative shift.\<close>

partial_function (option) tonelli_loop ::
  "int \<Rightarrow> nat \<Rightarrow> int \<Rightarrow> int \<Rightarrow> int \<Rightarrow> int result option" where
  "tonelli_loop p m c t r =
     (if t \<noteq> 1 then
        Option.bind (find_order p 1 (t * t mod p)) (\<lambda>i.
          if m < i + 1 then Some (Inl ValueError)
          else let b = pow_mod c (2 ^ (m - i - 1)) p; c' = b * b mod p
               in tonelli_loop p i c' (t * c' mod p) (r * b mod p))
      else Some (Inr r))"

definition returns :: "'a result option \<Rightarrow> 'a result" where
  "returns x = (case x of None \<Rightarrow> Inl NoReturn | Some r \<Rightarrow> r)"

definition tonelli_shanks :: "int \<Rightarrow> int \<Rightarrow> int result" where
  "tonelli_shanks n p =
     (let n = n mod p in
      if n = 0 then Inr 0
      else if pow_mod n (nat (drop_bit 1 (p - 1))) p = p - 1 then Inl ValueError
      else if p AND 3 = 3 then Inr (pow_mod n (nat (drop_bit 2 (p + 1))) p)
      else returns
        (Option.bind (split_even (p - 1) 0) (\<lambda>(q, s).
         Option.bind (find_nonresidue p 2) (\<lambda>z.
           tonelli_loop p s (pow_mod z (nat q) p) (pow_mod n (nat q) p)
             (pow_mod n (nat (drop_bit 1 (q + 1))) p)))))"

section \<open>The square root of the fields in use\<close>

text \<open>
  For \<open>p mod 4 = 3\<close> no loop runs, and the returned value squares to \<open>n\<close> whenever Euler's criterion
  gives one.
\<close>

lemma and_three: "p AND 3 = (3 :: int) \<longleftrightarrow> p mod 4 = 3"
proof -
  have "p AND 3 = p mod 4"
    using take_bit_eq_mask [of 2 p] by (simp add: take_bit_eq_mod mask_eq_exp_minus_1)
  then show ?thesis by simp
qed

lemma tonelli_shanks_square:
  assumes "p mod 4 = 3" and "0 < p" and "n mod p = 0 \<or> pow_mod n (nat ((p - 1) div 2)) p = 1"
  shows "\<exists>r. tonelli_shanks n p = Inr r \<and> 0 \<le> r \<and> r < p \<and> r * r mod p = n mod p"
proof (cases "n mod p = 0")
  case True
  then show ?thesis using assms by (simp add: tonelli_shanks_def)
next
  case False
  define k where "k = nat ((p - 3) div 4)"
  have p: "p = 4 * int k + 3" using assms(1,2) by (simp add: k_def) presburger
  have half: "nat ((p - 1) div 2) = 2 * k + 1" "drop_bit 1 (p - 1) = int (2 * k + 1)"
    "nat (drop_bit 2 (p + 1)) = k + 1"
    by (simp_all add: p drop_bit_eq_div nat_add_distrib) 
  have one: "(n mod p) ^ (2 * k + 1) mod p = 1"
    using assms(3) False by (simp only: half(1) pow_mod_eq power_mod) auto
  have "p \<noteq> 2" using assms(1) by auto
  then have "pow_mod (n mod p) (nat (drop_bit 1 (p - 1))) p \<noteq> p - 1"
    using one unfolding half(2) pow_mod_eq nat_int by simp
  then have t: "tonelli_shanks n p = Inr (pow_mod (n mod p) (k + 1) p)"
    using False assms(1) by (simp add: tonelli_shanks_def Let_def and_three half(3))
  have "pow_mod (n mod p) (k + 1) p * pow_mod (n mod p) (k + 1) p mod p
      = ((n mod p) ^ (k + 1) * (n mod p) ^ (k + 1)) mod p"
    by (simp only: pow_mod_eq mod_mult_left_eq mod_mult_right_eq)
  also have "(n mod p) ^ (k + 1) * (n mod p) ^ (k + 1) = (n mod p) * (n mod p) ^ (2 * k + 1)"
    by (simp flip: power_add mult_2 add: power_add mult_ac)
  also have "\<dots> mod p = (n mod p) * ((n mod p) ^ (2 * k + 1) mod p) mod p"
    by (simp only: mod_mult_right_eq)
  also have "\<dots> = n mod p" by (simp only: one) simp
  finally show ?thesis using t assms(2) by (simp add: pow_mod_eq)
qed

section \<open>Prime fields\<close>

definition prime_field :: "int \<Rightarrow> bool" where
  "prime_field p \<longleftrightarrow> 1 < p \<and> (\<forall>a b. p dvd a * b \<longrightarrow> p dvd a \<or> p dvd b)"

lemma prime_fieldD: "prime_field p \<Longrightarrow> p dvd a * b \<Longrightarrow> p dvd a \<or> p dvd b"
  by (auto simp: prime_field_def)

lemma prime_dvd_choose:
  assumes "prime_field (int n)" and "0 < k" and "k < n"
  shows "int n dvd int (n choose k)"
proof -
  have "k * (n choose k) = n * ((n - 1) choose (k - 1))"
    using assms by (simp add: times_binomial_minus1_eq)
  then have "int n dvd int k * int (n choose k)" by (metis dvd_triv_left of_nat_mult)
  moreover have "\<not> int n dvd int k" using assms(2,3) by (auto dest: zdvd_imp_le)
  ultimately show ?thesis using prime_fieldD [OF assms(1)] by blast
qed

lemma fermat_power:
  assumes "prime_field (int n)"
  shows "int n dvd int a ^ n - int a"
proof (induction a)
  case 0
  from assms have "n \<noteq> 0" by (auto simp: prime_field_def)
  then show ?case by (simp add: zero_power)
next
  case (Suc a)
  from assms have n: "0 < n" "n \<noteq> 0" by (auto simp: prime_field_def)
  have "(int a + 1) ^ n = (\<Sum>k\<le>n. of_nat (n choose k) * int a ^ k * 1 ^ (n - k))"
    by (rule binomial_ring)
  also have "\<dots> = (\<Sum>k\<in>{0, n} \<union> {0<..<n}. of_nat (n choose k) * int a ^ k)"
    by (rule sum.cong) auto
  also have "\<dots> = 1 + int a ^ n + (\<Sum>k\<in>{0<..<n}. of_nat (n choose k) * int a ^ k)"
    using n by (subst sum.union_disjoint) auto
  finally have eq: "int (Suc a) ^ n - int (Suc a) =
      (int a ^ n - int a) + (\<Sum>k\<in>{0<..<n}. of_nat (n choose k) * int a ^ k)" by (simp add: add.commute)
  have "int n dvd (\<Sum>k\<in>{0<..<n}. of_nat (n choose k) * int a ^ k)"
    using prime_dvd_choose [OF assms] by (intro dvd_sum dvd_mult2) auto
  with Suc show ?case unfolding eq by (rule dvd_add)
qed

lemma fermat:
  assumes p: "prime_field p" and a: "\<not> p dvd a"
  shows "a ^ nat (p - 1) mod p = 1"
proof -
  have p1: "1 < p" using p by (simp add: prime_field_def)
  define b where "b = nat (a mod p)"
  have b: "int b = a mod p" using p1 by (simp add: b_def)
  have "p dvd int b ^ nat p - int b" using fermat_power [of "nat p" b] p p1 by simp
  moreover have "nat p = Suc (nat (p - 1))" using p1 by simp
  ultimately have "p dvd int b * (int b ^ nat (p - 1) - 1)" by (simp add: right_diff_distrib)
  moreover have "\<not> p dvd int b" using a by (simp add: b dvd_mod_iff)
  ultimately have "p dvd int b ^ nat (p - 1) - 1" using prime_fieldD [OF p] by blast
  then have "int b ^ nat (p - 1) mod p = 1 mod p" by (simp add: mod_eq_dvd_iff)
  then show ?thesis using p1 by (simp add: b power_mod)
qed

text \<open>Of a square \<open>y\<^sup>2\<close> the code finds the root \<open>y\<close> or its negative.\<close>

lemma tonelli_shanks_of_square:
  assumes p: "prime_field p" and p4: "p mod 4 = 3" and n: "n mod p = y * y mod p"
  shows "is_quadratic_residue n p \<and>
    (\<exists>r. tonelli_shanks n p = Inr r \<and> 0 \<le> r \<and> r < p \<and> (p dvd r - y \<or> p dvd r + y))"
proof -
  have p1: "1 < p" using p by (simp add: prime_field_def)
  define h where "h = nat ((p - 1) div 2)"
  have euler: "pow_mod n h p = 1" if "\<not> p dvd n"
  proof -
    have "\<not> p dvd y" using that n by (metis dvd_mult2 dvd_mod_iff dvd_refl)
    have "2 * ((p - 1) div 2) = p - 1" using p4 by presburger
    then have "2 * h = nat (p - 1)" using p1 by (simp add: h_def nat_mult_distrib [symmetric, of 2, simplified])
    then have "y ^ (2 * h) mod p = 1" using fermat [OF p \<open>\<not> p dvd y\<close>] by simp
    then have "(y * y) ^ h mod p = 1" by (simp add: power_mult power2_eq_square)
    then show ?thesis using n by (metis pow_mod_eq power_mod)
  qed
  have "(n mod p) ^ h mod p = n ^ h mod p" by (rule power_mod)
  then have q: "is_quadratic_residue n p"
    using euler p1 p4 unfolding is_quadratic_residue_def Let_def h_def [symmetric] pow_mod_eq
    by (cases "n mod p = 0"; cases "p = 2") (auto simp: mod_eq_0_iff_dvd)
  have "n mod p = 0 \<or> pow_mod n (nat ((p - 1) div 2)) p = 1"
    using euler by (auto simp: h_def mod_eq_0_iff_dvd)
  then obtain r where r: "tonelli_shanks n p = Inr r" "0 \<le> r" "r < p" "r * r mod p = n mod p"
    using tonelli_shanks_square [OF p4, of n] p1 by auto
  then have "p dvd r * r - y * y" using n by (simp add: mod_eq_dvd_iff)
  then have "p dvd (r - y) * (r + y)" by (simp add: algebra_simps)
  then have "p dvd r - y \<or> p dvd r + y" by (rule prime_fieldD [OF p])
  with q r show ?thesis by blast
qed

end
