(* ===== verification/Elliptic_Curve.thy ===== *)
theory Elliptic_Curve
  imports Modular
begin

unbundle bit_operations_syntax

text \<open>
  \<^verbatim>\<open>src/src/cryptography/ecc.py\<close>: points, the curve class and its operations, and the module's
  \<^verbatim>\<open>SECP256K1\<close>. \<open>None\<close> is the point at infinity \<^verbatim>\<open>Point(None, None)\<close>. The class is modelled for
  any curve; every modular inverse can raise, so every operation returns a result. The lemmas
  show that the operations never leave the curve.
\<close>

type_synonym point = "(int \<times> int) option"

record ecurve =
  cv_a :: int
  cv_b :: int
  cv_p :: int
  cv_order :: int
  cv_generator :: point

text \<open>The constructor's check; the table of multiples is \<open>precompute_generator_multiples\<close> below.\<close>

definition new_curve :: "int \<Rightarrow> int \<Rightarrow> int \<Rightarrow> int \<Rightarrow> point \<Rightarrow> ecurve result" where
  "new_curve a b p order generator =
     (if (4 * a ^ 3 + 27 * b ^ 2) mod p = 0 then Inl ValueError
      else Inr \<lparr>cv_a = a, cv_b = b, cv_p = p, cv_order = order, cv_generator = generator\<rparr>)"

definition x_terms :: "ecurve \<Rightarrow> int \<Rightarrow> int" where
  "x_terms E x =
     (let x_mod = x mod cv_p E in
      if cv_a E \<noteq> 0 then (x_mod * ((x_mod * x_mod + cv_a E) mod cv_p E) + cv_b E) mod cv_p E
      else (pow_mod x_mod 3 (cv_p E) + cv_b E) mod cv_p E)"

definition is_point_on_curve :: "ecurve \<Rightarrow> point \<Rightarrow> bool" where
  "is_point_on_curve E pt =
     (case pt of None \<Rightarrow> True | Some (x, y) \<Rightarrow> y * y mod cv_p E = x_terms E x)"

definition is_x_on_curve :: "ecurve \<Rightarrow> int \<Rightarrow> bool" where
  "is_x_on_curve E x = is_quadratic_residue (x_terms E x) (cv_p E)"

definition find_y_from_x :: "ecurve \<Rightarrow> int \<Rightarrow> int result" where
  "find_y_from_x E x =
     bindR (guardR (is_x_on_curve E x) ValueError) (\<lambda>_.
     bindR (tonelli_shanks (x_terms E x) (cv_p E)) (\<lambda>y.
       Inr (min y ((- y) mod cv_p E))))"

definition double_point :: "ecurve \<Rightarrow> point \<Rightarrow> point result" where
  "double_point E pt =
     (case pt of None \<Rightarrow> Inr None
      | Some (x, y) \<Rightarrow>
          if y = 0 then Inr None
          else
            let numerator = (3 * x * x + cv_a E) mod cv_p E in
            bindR (mod_inverse (2 * y) (cv_p E)) (\<lambda>denominator_inv.
              let m = numerator * denominator_inv mod cv_p E;
                  x3 = (m * m - 2 * x) mod cv_p E;
                  y3 = (m * (x - x3) - y) mod cv_p E
              in Inr (Some (x3, y3))))"

definition add_points :: "ecurve \<Rightarrow> point \<Rightarrow> point \<Rightarrow> point result" where
  "add_points E point1 point2 =
     (case point1 of None \<Rightarrow> Inr point2
      | Some (x1, y1) \<Rightarrow>
        (case point2 of None \<Rightarrow> Inr point1
         | Some (x2, y2) \<Rightarrow>
             if x1 = x2 then (if y1 = y2 then double_point E point1 else Inr None)
             else
               let dx = (x2 - x1) mod cv_p E; dy = (y2 - y1) mod cv_p E in
               bindR (mod_inverse dx (cv_p E)) (\<lambda>dx_inv.
                 let m = dy * dx_inv mod cv_p E;
                     x3 = (m * m - x1 - x2) mod cv_p E;
                     y3 = (m * (x1 - x3) - y1) mod cv_p E
                 in Inr (Some (x3, y3)))))"

text \<open>
  The table \<open>G, 2G, 4G, \<dots>\<close> by power of two. The constructor builds it when the module is
  imported; an exception there ends the import, so that no code runs: the model ends the table.
\<close>

fun precompute_loop :: "ecurve \<Rightarrow> nat \<Rightarrow> point \<Rightarrow> int \<Rightarrow> (int \<times> point) list" where
  "precompute_loop E 0 current pow2 = []"
| "precompute_loop E (Suc n) current pow2 =
     (if current \<noteq> None then
        (pow2, current) #
          (case double_point E current of Inl _ \<Rightarrow> []
           | Inr nxt \<Rightarrow> precompute_loop E n nxt (push_bit 1 pow2))
      else [])"

definition precompute_generator_multiples :: "ecurve \<Rightarrow> (int \<times> point) list" where
  "precompute_generator_multiples E = precompute_loop E 256 (cv_generator E) 1"

fun generator_loop :: "ecurve \<Rightarrow> (int \<times> point) list \<Rightarrow> point \<Rightarrow> int \<Rightarrow> point result" where
  "generator_loop E [] acc remaining = Inr acc"
| "generator_loop E ((pow2, pt) # table) acc remaining =
     (if remaining AND pow2 \<noteq> 0 then
        bindR (add_points E acc pt) (\<lambda>acc.
          let remaining = remaining AND NOT pow2
          in if remaining = 0 then Inr acc else generator_loop E table acc remaining)
      else if remaining = 0 then Inr acc
      else generator_loop E table acc remaining)"

definition scalar_mult_generator :: "ecurve \<Rightarrow> int \<Rightarrow> point result" where
  "scalar_mult_generator E n = generator_loop E (precompute_generator_multiples E) None n"

definition multiply_generator :: "ecurve \<Rightarrow> int \<Rightarrow> point result" where
  "multiply_generator E n = scalar_mult_generator E (n mod cv_order E)"

text \<open>The binary method: the loop runs while \<open>n\<close> is positive.\<close>

function binary_loop :: "ecurve \<Rightarrow> int \<Rightarrow> point \<Rightarrow> point \<Rightarrow> point result" where
  "binary_loop E n acc addend =
     (if n > 0 then
        bindR (if n AND 1 \<noteq> 0 then add_points E acc addend else Inr acc) (\<lambda>acc.
        bindR (double_point E addend) (\<lambda>addend.
          binary_loop E (drop_bit 1 n) acc addend))
      else Inr acc)"
  by pat_completeness auto
termination
  by (relation "measure (\<lambda>(E, n, acc, addend). nat n)") (auto simp: drop_bit_eq_div)

declare binary_loop.simps [simp del]

definition scalar_multiplication :: "ecurve \<Rightarrow> int \<Rightarrow> point \<Rightarrow> point result" where
  "scalar_multiplication E n pt =
     (if pt = None then Inr None
      else let n = n mod cv_order E in
        if n = 0 then Inr None
        else if n = 1 then Inr pt
        else if pt = cv_generator E then scalar_mult_generator E n
        else binary_loop E n None pt)"

definition SECP256K1 :: ecurve where
  "SECP256K1 = \<lparr>cv_a = 0, cv_b = 7,
     cv_p = 0xFFFFFFFFFFFFFFFFFFFFFFFFFFFFFFFFFFFFFFFFFFFFFFFFFFFFFFFEFFFFFC2F,
     cv_order = 0xFFFFFFFFFFFFFFFFFFFFFFFFFFFFFFFEBAAEDCE6AF48A03BBFD25E8CD0364141,
     cv_generator =
       Some (0x79be667ef9dcbbac55a06295ce870b07029bfcdb2dce28d959f2815b16f81798,
             0x483ada7726a3c4655da4fbfc0e1108a8fd17b448a68554199c47d08ffb10d4b8)\<rparr>"

lemma SECP256K1_new:
  "new_curve 0 7 (cv_p SECP256K1) (cv_order SECP256K1) (cv_generator SECP256K1) = Inr SECP256K1"
  by (simp add: new_curve_def SECP256K1_def)

section \<open>The curve equation\<close>

definition cubic :: "ecurve \<Rightarrow> int \<Rightarrow> int" where
  "cubic E x = x ^ 3 + cv_a E * x + cv_b E"

lemma x_terms_eq: "x_terms E x = cubic E x mod cv_p E"
proof -
  let ?p = "cv_p E"
  have "(x mod ?p * ((x mod ?p * (x mod ?p) + cv_a E) mod ?p) + cv_b E) mod ?p
      = (x * (x * x + cv_a E) + cv_b E) mod ?p"
  proof (intro mod_add_cong mod_mult_cong)
    have "(x mod ?p * (x mod ?p) + cv_a E) mod ?p = (x * x + cv_a E) mod ?p"
      by (rule mod_add_cong) (simp_all only: mod_mult_left_eq mod_mult_right_eq)
    then show "(x mod ?p * (x mod ?p) + cv_a E) mod ?p mod ?p = (x * x + cv_a E) mod ?p" by simp
  qed simp_all
  moreover have "(pow_mod (x mod ?p) 3 ?p + cv_b E) mod ?p = (x ^ 3 + cv_b E) mod ?p"
    by (simp add: pow_mod_eq mod_simps)
  ultimately show ?thesis
    by (simp add: x_terms_def cubic_def Let_def power3_eq_cube algebra_simps)
qed

lemma on_curve_iff: "is_point_on_curve E (Some (x, y)) \<longleftrightarrow> cv_p E dvd y\<^sup>2 - cubic E x"
  by (simp add: is_point_on_curve_def x_terms_eq mod_eq_dvd_iff power2_eq_square)

lemma on_curve_None [simp]: "is_point_on_curve E None"
  by (simp add: is_point_on_curve_def)

lemma dvd_mod_diff: "(m :: int) dvd x mod m - x"
  by (metis mod_eq_dvd_iff mod_mod_trivial)

lemma cubic_cong: "m dvd x - x' \<Longrightarrow> m dvd cubic E x - cubic E x'"
proof -
  assume a: "m dvd x - x'"
  have "cubic E x - cubic E x' = (x - x') * (x\<^sup>2 + x * x' + x'\<^sup>2 + cv_a E)"
    by (simp add: cubic_def power3_eq_cube power2_eq_square algebra_simps)
  with a show ?thesis by (simp add: dvd_mult2)
qed

text \<open>
  A line through two points of the curve (or tangent to it) meets it again at the point whose
  \<open>x\<close> is the difference of the squared slope and the two others: the cubic minus the squared
  line is the product of the three linear factors and a remainder of degree one, \<open>c x + d\<close>.
\<close>

lemma line_meets_curve:
  fixes E m x1 y1 x2
  defines "s \<equiv> m\<^sup>2 - x1 - x2"
  defines "c \<equiv> cv_a E - 2 * m * (y1 - m * x1) - (x1 * x2 + x1 * s + x2 * s)"
  defines "d \<equiv> cv_b E - (y1 - m * x1)\<^sup>2 + x1 * x2 * s"
  shows "cubic E x - (y1 + m * (x - x1))\<^sup>2 = (x - x1) * (x - x2) * (x - s) + (c * x + d)"
  by (simp add: cubic_def s_def c_def d_def power3_eq_cube power2_eq_square algebra_simps)

lemma third_point_on_curve:
  assumes c: "cv_p E dvd cv_a E - 2 * m * (y1 - m * x1) - (x1 * x2 + x1 * (m\<^sup>2 - x1 - x2) + x2 * (m\<^sup>2 - x1 - x2))"
    and on: "cv_p E dvd y1\<^sup>2 - cubic E x1"
    and x3: "x3 = (m * m - x1 - x2) mod cv_p E" and y3: "y3 = (m * (x1 - x3) - y1) mod cv_p E"
  shows "is_point_on_curve E (Some (x3, y3))"
proof -
  let ?p = "cv_p E"
  define s where "s = m\<^sup>2 - x1 - x2"
  define cc where "cc = cv_a E - 2 * m * (y1 - m * x1) - (x1 * x2 + x1 * s + x2 * s)"
  define d where "d = cv_b E - (y1 - m * x1)\<^sup>2 + x1 * x2 * s"
  have line: "cubic E x - (y1 + m * (x - x1))\<^sup>2 = (x - x1) * (x - x2) * (x - s) + (cc * x + d)" for x
    unfolding s_def cc_def d_def by (rule line_meets_curve)
  have pc: "?p dvd cc" using c by (simp add: cc_def s_def)
  have "cubic E x1 - y1\<^sup>2 = cc * x1 + d" using line [of x1] by simp
  then have "?p dvd cc * x1 + d" using on by (metis dvd_diff_commute)
  with pc have pd: "?p dvd d" by (metis dvd_add_right_iff dvd_mult2)
  have "cubic E s - (y1 + m * (s - x1))\<^sup>2 = cc * s + d" using line [of s] by simp
  then have ps: "?p dvd cubic E s - (y1 + m * (s - x1))\<^sup>2" using pc pd by simp
  have xs: "?p dvd x3 - s" using dvd_mod_diff [of ?p s] by (simp add: x3 s_def power2_eq_square)
  have "?p dvd y3 - (m * (x1 - x3) - y1)" unfolding y3 by (rule dvd_mod_diff)
  moreover have "?p dvd m * (x3 - s)" using xs by simp
  ultimately have "?p dvd y3 - (m * (x1 - x3) - y1) - m * (x3 - s)" by (rule dvd_diff)
  moreover have "y3 - (m * (x1 - x3) - y1) - m * (x3 - s) = y3 + (y1 + m * (s - x1))"
    by (simp add: algebra_simps)
  ultimately have "?p dvd y3 + (y1 + m * (s - x1))" by simp
  then have "?p dvd (y3 + (y1 + m * (s - x1))) * (y3 - (y1 + m * (s - x1)))" by simp
  then have py: "?p dvd y3\<^sup>2 - (y1 + m * (s - x1))\<^sup>2" by (simp add: power2_eq_square algebra_simps)
  have "?p dvd cubic E x3 - cubic E s" using xs by (rule cubic_cong)
  from dvd_diff [OF dvd_diff [OF py this] ps]
  have "?p dvd (y3\<^sup>2 - (y1 + m * (s - x1))\<^sup>2) - (cubic E x3 - cubic E s)
      - (cubic E s - (y1 + m * (s - x1))\<^sup>2)" .
  then have "?p dvd y3\<^sup>2 - cubic E x3" by (simp add: algebra_simps)
  then show ?thesis by (simp add: on_curve_iff)
qed

section \<open>The operations stay on the curve\<close>

lemma double_on_curve:
  assumes "0 < cv_p E" and on: "is_point_on_curve E pt" and r: "double_point E pt = Inr pt'"
  shows "is_point_on_curve E pt'"
proof (cases pt)
  case None
  with r show ?thesis by (simp add: double_point_def)
next
  case (Some xy)
  obtain x y where pt: "pt = Some (x, y)" using Some by (cases xy) auto
  show ?thesis
  proof (cases "y = 0")
    case True
    with r pt show ?thesis by (simp add: double_point_def)
  next
    case False
    let ?p = "cv_p E"
    define k where "k = (3 * x * x + cv_a E) mod ?p"
    obtain i where i: "mod_inverse (2 * y) ?p = Inr i"
      using r pt False by (auto simp: double_point_def Let_def)
    define m where "m = k * i mod ?p"
    have pt': "pt' = Some ((m * m - 2 * x) mod ?p, (m * (x - (m * m - 2 * x) mod ?p) - y) mod ?p)"
      using r pt False i by (simp add: double_point_def Let_def m_def k_def)
    have "?p dvd 2 * y * i - 1" using mod_inverse_Inr(3) [OF assms(1) i] .
    then have "?p dvd k * (2 * y * i - 1)" by simp
    moreover have "?p dvd m - k * i" unfolding m_def by (rule dvd_mod_diff)
    then have "?p dvd 2 * y * (m - k * i)" by simp
    ultimately have "?p dvd 2 * y * (m - k * i) + k * (2 * y * i - 1)" by (rule dvd_add [rotated])
    moreover have "2 * y * (m - k * i) + k * (2 * y * i - 1) = 2 * m * y - k" by (simp add: algebra_simps)
    ultimately have "?p dvd 2 * m * y - k" by simp
    moreover have "?p dvd k - (3 * x * x + cv_a E)" unfolding k_def by (rule dvd_mod_diff)
    ultimately have "?p dvd (2 * m * y - k) + (k - (3 * x * x + cv_a E))" by (rule dvd_add)
    moreover have "(2 * m * y - k) + (k - (3 * x * x + cv_a E)) = 2 * m * y - (3 * x * x + cv_a E)"
      by simp
    ultimately have slope: "?p dvd 2 * m * y - (3 * x * x + cv_a E)" by (simp only:)
    have "cv_a E - 2 * m * (y - m * x) - (x * x + x * (m\<^sup>2 - x - x) + x * (m\<^sup>2 - x - x))
        = - (2 * m * y - (3 * x * x + cv_a E))"
      by (simp add: power2_eq_square algebra_simps)
    then have c: "?p dvd cv_a E - 2 * m * (y - m * x)
        - (x * x + x * (m\<^sup>2 - x - x) + x * (m\<^sup>2 - x - x))"
      using slope by (simp only: dvd_minus_iff)
    have "?p dvd y\<^sup>2 - cubic E x" using on pt by (simp add: on_curve_iff)
    from third_point_on_curve [OF c this refl refl] show ?thesis
      using pt' by (simp add: algebra_simps)
  qed
qed

lemma add_on_curve:
  assumes "0 < cv_p E" and on1: "is_point_on_curve E p1" and on2: "is_point_on_curve E p2"
    and r: "add_points E p1 p2 = Inr p3"
  shows "is_point_on_curve E p3"
proof (cases "p1 = None \<or> p2 = None")
  case True
  with assms show ?thesis by (auto simp: add_points_def split: option.splits)
next
  case False
  then obtain x1 y1 x2 y2 where p: "p1 = Some (x1, y1)" "p2 = Some (x2, y2)" by auto
  show ?thesis
  proof (cases "x1 = x2")
    case True
    with r p have "double_point E p1 = Inr p3 \<or> p3 = None"
      by (cases "y1 = y2") (simp_all add: add_points_def)
    with double_on_curve [OF assms(1) on1] show ?thesis by auto
  next
    case False
    let ?p = "cv_p E"
    let ?dx = "(x2 - x1) mod ?p" and ?dy = "(y2 - y1) mod ?p"
    obtain i where i: "mod_inverse ?dx ?p = Inr i"
      using r p False by (auto simp: add_points_def Let_def)
    define m where "m = ?dy * i mod ?p"
    have p3: "p3 = Some ((m * m - x1 - x2) mod ?p, (m * (x1 - (m * m - x1 - x2) mod ?p) - y1) mod ?p)"
      using r p False i by (simp add: add_points_def Let_def m_def)
    have inv: "?p dvd ?dx * i - 1" using mod_inverse_Inr(3) [OF assms(1) i] .
    have dx: "?p dvd ?dx - (x2 - x1)" and dy: "?p dvd ?dy - (y2 - y1)" by (rule dvd_mod_diff)+
    have m: "?p dvd m - ?dy * i" unfolding m_def by (rule dvd_mod_diff)
    have "m * (x2 - x1) - (y2 - y1)
        = (m - ?dy * i) * (x2 - x1) - ?dy * i * (?dx - (x2 - x1)) + ?dy * (?dx * i - 1) + (?dy - (y2 - y1))"
      by (simp add: algebra_simps)
    then have slope: "?p dvd m * (x2 - x1) - (y2 - y1)"
      by (simp only:) (intro dvd_add [OF dvd_add [OF dvd_diff]] dvd_mult2 [OF m] dvd_mult [OF dx]
          dvd_mult [OF inv] dy)
    define s where "s = m\<^sup>2 - x1 - x2"
    define c where "c = cv_a E - 2 * m * (y1 - m * x1) - (x1 * x2 + x1 * s + x2 * s)"
    define d where "d = cv_b E - (y1 - m * x1)\<^sup>2 + x1 * x2 * s"
    have line: "cubic E x - (y1 + m * (x - x1))\<^sup>2 = (x - x1) * (x - x2) * (x - s) + (c * x + d)" for x
      unfolding s_def c_def d_def by (rule line_meets_curve)
    have o1: "?p dvd y1\<^sup>2 - cubic E x1" and o2: "?p dvd y2\<^sup>2 - cubic E x2"
      using on1 on2 p by (simp_all add: on_curve_iff)
    have f1: "?p dvd c * x1 + d" using line [of x1] o1 by (simp add: dvd_diff_commute)
    have "?p dvd (m * (x2 - x1) - (y2 - y1)) * (y1 + m * (x2 - x1) + y2)" using slope by simp
    then have "?p dvd (y1 + m * (x2 - x1))\<^sup>2 - y2\<^sup>2"
      by (simp add: power2_eq_square algebra_simps)
    with o2 have "?p dvd ((y1 + m * (x2 - x1))\<^sup>2 - y2\<^sup>2) + (y2\<^sup>2 - cubic E x2)" by (rule dvd_add [rotated])
    then have "?p dvd (y1 + m * (x2 - x1))\<^sup>2 - cubic E x2" by simp
    then have f2: "?p dvd c * x2 + d" using line [of x2] by (simp add: dvd_diff_commute)
    have "?p dvd (c * x2 + d) - (c * x1 + d)" using f2 f1 by (rule dvd_diff)
    then have cx: "?p dvd c * (x2 - x1)" by (simp add: algebra_simps)
    have "c = c * (x2 - x1) * i + c * i * (?dx - (x2 - x1)) - c * (?dx * i - 1)"
      by (simp add: algebra_simps)
    moreover have "?p dvd c * (x2 - x1) * i + c * i * (?dx - (x2 - x1)) - c * (?dx * i - 1)"
      using cx dx inv by (intro dvd_add dvd_diff) (simp_all add: dvd_mult dvd_mult2)
    ultimately have "?p dvd c" by simp
    then have "?p dvd cv_a E - 2 * m * (y1 - m * x1)
        - (x1 * x2 + x1 * (m\<^sup>2 - x1 - x2) + x2 * (m\<^sup>2 - x1 - x2))"
      by (simp add: c_def s_def)
    from third_point_on_curve [OF this o1 refl refl] show ?thesis by (simp add: p3)
  qed
qed

definition table_on_curve :: "ecurve \<Rightarrow> (int \<times> point) list \<Rightarrow> bool" where
  "table_on_curve E table \<longleftrightarrow> list_all (\<lambda>(k, q). is_point_on_curve E q) table"

lemma precompute_on_curve:
  "0 < cv_p E \<Longrightarrow> is_point_on_curve E pt \<Longrightarrow> table_on_curve E (precompute_loop E n pt k)"
proof (induction n arbitrary: pt k)
  case 0
  then show ?case by (simp add: table_on_curve_def)
next
  case (Suc n)
  show ?case
  proof (cases "double_point E pt")
    case (Inr nxt)
    then have "is_point_on_curve E nxt" using Suc.prems double_on_curve by blast
    then have "table_on_curve E (precompute_loop E n nxt (push_bit 1 k))" using Suc by blast
    with Suc.prems Inr show ?thesis by (simp add: table_on_curve_def)
  qed (use Suc.prems in \<open>simp add: table_on_curve_def\<close>)
qed

lemma generator_loop_on_curve:
  "generator_loop E table acc n = Inr q \<Longrightarrow> 0 < cv_p E \<Longrightarrow> is_point_on_curve E acc \<Longrightarrow>
     table_on_curve E table \<Longrightarrow> is_point_on_curve E q"
proof (induction table arbitrary: acc n)
  case Nil
  then show ?case by simp
next
  case (Cons e table)
  obtain k pt where e: "e = (k, pt)" by fastforce
  with Cons.prems have pt: "is_point_on_curve E pt" and tab: "table_on_curve E table"
    by (simp_all add: table_on_curve_def)
  note IH = Cons.IH [OF _ Cons.prems(2) _ tab]
  show ?case
  proof (cases "n AND k \<noteq> 0")
    case True
    then obtain acc' where a: "add_points E acc pt = Inr acc'"
      and q: "(let r = n AND NOT k in if r = 0 then Inr acc' else generator_loop E table acc' r) = Inr q"
      using Cons.prems(1) unfolding e generator_loop.simps by auto
    have on: "is_point_on_curve E acc'" by (rule add_on_curve [OF Cons.prems(2,3) pt a])
    show ?thesis
    proof (cases "n AND NOT k = 0")
      case True
      with q on show ?thesis by (simp add: Let_def)
    next
      case False
      with q IH [OF _ on] show ?thesis by (simp add: Let_def)
    qed
  next
    case False
    with Cons.prems(1,3) IH [OF _ Cons.prems(3)] show ?thesis
      unfolding e generator_loop.simps by (cases "n = 0") simp_all
  qed
qed

lemma scalar_mult_generator_on_curve:
  assumes "0 < cv_p E" and "is_point_on_curve E (cv_generator E)"
    and "scalar_mult_generator E n = Inr q"
  shows "is_point_on_curve E q"
  using assms(3) unfolding scalar_mult_generator_def precompute_generator_multiples_def
  by (rule generator_loop_on_curve)
    (use assms(1) precompute_on_curve [OF assms(1,2)] in simp_all)

lemma binary_loop_on_curve:
  "binary_loop E n acc addend = Inr q \<Longrightarrow> 0 < cv_p E \<Longrightarrow> is_point_on_curve E acc \<Longrightarrow>
     is_point_on_curve E addend \<Longrightarrow> is_point_on_curve E q"
proof (induction E n acc addend rule: binary_loop.induct)
  case (1 E n acc addend)
  show ?case
  proof (cases "n > 0")
    case True
    obtain acc' addend' where
      a: "(if n AND 1 \<noteq> 0 then add_points E acc addend else Inr acc) = Inr acc'"
      and d: "double_point E addend = Inr addend'"
      and q: "binary_loop E (drop_bit 1 n) acc' addend' = Inr q"
      using "1.prems"(1) True by (subst (asm) binary_loop.simps) auto
    have "is_point_on_curve E acc'"
    proof (cases "n AND 1 \<noteq> 0")
      case True
      with a have "add_points E acc addend = Inr acc'" by simp
      then show ?thesis by (rule add_on_curve [OF "1.prems"(2,3,4)])
    next
      case False
      with a "1.prems"(3) show ?thesis by simp
    qed
    moreover have "is_point_on_curve E addend'" using double_on_curve [OF _ _ d] "1.prems" by blast
    ultimately show ?thesis using "1.IH" [OF True a d q] "1.prems" by blast
  next
    case False
    with "1.prems" show ?thesis by (simp add: binary_loop.simps [of E n])
  qed
qed

lemma scalar_multiplication_on_curve:
  assumes p: "0 < cv_p E" and g: "is_point_on_curve E (cv_generator E)"
    and pt: "is_point_on_curve E pt" and r: "scalar_multiplication E n pt = Inr q"
  shows "is_point_on_curve E q"
proof -
  define k where "k = n mod cv_order E"
  have r: "(if pt = None then Inr None else if k = 0 then Inr None else if k = 1 then Inr pt
      else if pt = cv_generator E then scalar_mult_generator E k else binary_loop E k None pt) = Inr q"
    using r by (simp only: scalar_multiplication_def Let_def k_def)
  show ?thesis
  proof (cases "pt = None \<or> k = 0 \<or> k = 1")
    case True
    with r have "q = None \<or> q = pt" by (simp only: split: if_split_asm) auto
    with pt show ?thesis by auto
  next
    case False
    then have "pt \<noteq> None" "k \<noteq> 0" "k \<noteq> 1" by auto
    with r have r: "(if pt = cv_generator E then scalar_mult_generator E k
        else binary_loop E k None pt) = Inr q" by (simp only: if_False)
    show ?thesis
    proof (cases "pt = cv_generator E")
      case True
      with r have "scalar_mult_generator E k = Inr q" by simp
      then show ?thesis by (rule scalar_mult_generator_on_curve [OF p g])
    next
      case nogen: False
      with r have "binary_loop E k None pt = Inr q" by simp
      then show ?thesis by (rule binary_loop_on_curve [OF _ p on_curve_None pt])
    qed
  qed
qed

lemma SECP256K1_generator_on_curve: "is_point_on_curve SECP256K1 (cv_generator SECP256K1)"
proof -
  have "(0x483ada7726a3c4655da4fbfc0e1108a8fd17b448a68554199c47d08ffb10d4b8 :: int)\<^sup>2
      - (0x79be667ef9dcbbac55a06295ce870b07029bfcdb2dce28d959f2815b16f81798 ^ 3 + 7)
    = 0xFFFFFFFFFFFFFFFFFFFFFFFFFFFFFFFFFFFFFFFFFFFFFFFFFFFFFFFEFFFFFC2F *
      - 0x1b888e01a06e974017a28a5b4da436169761c9730b7aeedf75fc60f6a33cfc7792fe74711f025d590b10e57f1b3a7ce38ffc4c885c515894b45c19c9f413e5e9"
    by simp
  then show ?thesis by (simp only: SECP256K1_def ecurve.simps on_curve_iff cubic_def) (simp only: dvdI mult_zero_left add_0_left add_0_right)
qed

lemma SECP256K1_p_pos: "0 < cv_p SECP256K1"
  by (simp add: SECP256K1_def)

text \<open>The curve \<open>y\<^sup>2 = x\<^sup>3 + 7\<close> over a field of 17 elements, for closed evaluations.\<close>

definition small_curve :: ecurve where
  "small_curve = \<lparr>cv_a = 0, cv_b = 7, cv_p = 17, cv_order = 18, cv_generator = Some (15, 13)\<rparr>"

lemmas small_eval = small_curve_def add_points_def double_point_def mod_inverse_def
  egcd_loop.simps is_point_on_curve_def x_terms_eq cubic_def

text \<open>
  C39: point arithmetic never leaves the curve: whenever the addition of two points of the curve,
  the multiplication of a point by any scalar or the multiplication of the generator returns, the
  result satisfies the curve equation, for every curve with its generator on it.
\<close>

theorem point_arithmetic_closed:
  assumes "0 < cv_p E" and "is_point_on_curve E (cv_generator E)"
    and "is_point_on_curve E P" and "is_point_on_curve E Q"
  shows "(\<forall>R. add_points E P Q = Inr R \<longrightarrow> is_point_on_curve E R)
    \<and> (\<forall>R. scalar_multiplication E n P = Inr R \<longrightarrow> is_point_on_curve E R)
    \<and> (\<forall>R. multiply_generator E n = Inr R \<longrightarrow> is_point_on_curve E R)"
  using add_on_curve [OF assms(1,3,4)] scalar_multiplication_on_curve [OF assms(1,2,3)]
    scalar_mult_generator_on_curve [OF assms(1,2)] by (simp add: multiply_generator_def)

lemma small_curve_sum: "add_points small_curve (Some (15, 13)) (Some (15, 13)) = Inr (Some (2, 10))"
  by (simp add: small_eval)

lemma point_arithmetic_closed_witness: "is_point_on_curve small_curve (Some (2, 10))"
proof -
  have "is_point_on_curve small_curve (Some (15, 13))" by (simp add: small_eval)
  moreover have "is_point_on_curve small_curve (cv_generator small_curve)"
    by (simp add: small_eval)
  moreover have "0 < cv_p small_curve" by (simp add: small_curve_def)
  ultimately show ?thesis
    using point_arithmetic_closed [of small_curve "Some (15, 13)" "Some (15, 13)"] small_curve_sum
    by blast
qed

end
