(* ===== verification/Signatures.thy ===== *)
theory Signatures
  imports Elliptic_Curve Hash_Functions
begin

unbundle bit_operations_syntax

text \<open>
  Public keys (\<^verbatim>\<open>src/src/data/ecc_keys.py\<close>), ECDSA (\<^verbatim>\<open>src/src/cryptography/ecdsa.py\<close>) and
  Schnorr signatures (\<^verbatim>\<open>src/src/cryptography/schnorr.py\<close>). The code works on the module constant
  \<^verbatim>\<open>SECP256K1\<close>; the curve is an argument here and the callers pass \<open>SECP256K1\<close>. A \<^verbatim>\<open>PubKey\<close>
  object is its two coordinates, \<^verbatim>\<open>None\<close> for both at the point at infinity.
\<close>

section \<open>Public keys: ecc\_keys.py\<close>

definition COORD_BYTES :: nat where "COORD_BYTES = 32"

definition pubkey_new :: "ecurve \<Rightarrow> int \<Rightarrow> point result" where
  "pubkey_new E private_key = multiply_generator E private_key"

definition from_uncompressed :: "ecurve \<Rightarrow> bytes \<Rightarrow> point result" where
  "from_uncompressed E full_pubkey =
     bindR (guardR (length full_pubkey = 65) PubKeyError) (\<lambda>_.
     bindR (guardR (hd full_pubkey = 0x04) PubKeyError) (\<lambda>_.
       let x = be_val (take 32 (drop 1 full_pubkey)); y = be_val (drop 33 full_pubkey) in
       bindR (guardR (is_point_on_curve E (Some (x, y))) PubKeyError) (\<lambda>_.
         Inr (Some (x, y)))))"

definition from_compressed :: "ecurve \<Rightarrow> bytes \<Rightarrow> point result" where
  "from_compressed E compressed_pubkey =
     bindR (guardR (length compressed_pubkey = 33) PubKeyError) (\<lambda>_.
       let prefix = hd compressed_pubkey; x = be_val (drop 1 compressed_pubkey) in
       bindR (guardR (prefix = 0x02 \<or> prefix = 0x03) PubKeyError) (\<lambda>_.
       bindR (guardR (0 < x \<and> x < cv_p E) PubKeyError) (\<lambda>_.
       bindR (guardR (is_x_on_curve E x) PubKeyError) (\<lambda>_.
       bindR (find_y_from_x E x) (\<lambda>y.
         let want_odd = (if prefix = 0x03 then 1 else 0) in
         Inr (Some (x, if y AND 1 \<noteq> want_odd then cv_p E - y else y)))))))"

definition from_xonly :: "ecurve \<Rightarrow> bytes \<Rightarrow> point result" where
  "from_xonly E xonly_pubkey =
     bindR (guardR (length xonly_pubkey = 32) PubKeyError) (\<lambda>_.
       let x = be_val xonly_pubkey in
       bindR (guardR (0 < x \<and> x < cv_p E) PubKeyError) (\<lambda>_.
       bindR (guardR (is_x_on_curve E x) PubKeyError) (\<lambda>_.
       bindR (find_y_from_x E x) (\<lambda>y.
         Inr (Some (x, if y mod 2 \<noteq> 0 then cv_p E - y else y))))))"

definition from_point :: "ecurve \<Rightarrow> point \<Rightarrow> point result" where
  "from_point E pt = bindR (guardR (is_point_on_curve E pt) PubKeyError) (\<lambda>_. Inr pt)"

definition pubkey_from_bytes :: "ecurve \<Rightarrow> bytes \<Rightarrow> point result" where
  "pubkey_from_bytes E b =
     (if length b = 65 \<and> hd b = 4 then from_uncompressed E b
      else if length b = 33 \<and> (hd b = 2 \<or> hd b = 3) then from_compressed E b
      else if length b = 32 then from_xonly E b
      else Inl PubKeyError)"

text \<open>\<^verbatim>\<open>None % 2\<close> raises \<^verbatim>\<open>TypeError\<close>, \<^verbatim>\<open>None.to_bytes\<close> raises \<^verbatim>\<open>AttributeError\<close>.\<close>

definition x_bytes :: "point \<Rightarrow> bytes result" where
  "x_bytes pk = (case pk of None \<Rightarrow> Inl AttributeError | Some (x, y) \<Rightarrow> to_bytes_be 32 x)"

definition y_bytes :: "point \<Rightarrow> bytes result" where
  "y_bytes pk = (case pk of None \<Rightarrow> Inl AttributeError | Some (x, y) \<Rightarrow> to_bytes_be 32 y)"

definition compressed :: "point \<Rightarrow> bytes result" where
  "compressed pk =
     (case pk of None \<Rightarrow> Inl TypeError
      | Some (x, y) \<Rightarrow>
          let y_byte = (if y mod 2 = 0 then [0x02] else [0x03]) in
          bindR (to_bytes_be 32 x) (\<lambda>xb. Inr (y_byte @ xb)))"

definition uncompressed :: "point \<Rightarrow> bytes result" where
  "uncompressed pk = bindR (x_bytes pk) (\<lambda>xb. bindR (y_bytes pk) (\<lambda>yb. Inr ([0x04] @ xb @ yb)))"

definition pubkey_hash :: "hashes \<Rightarrow> point \<Rightarrow> bytes result" where
  "pubkey_hash H pk = bindR (compressed pk) (\<lambda>c. Inr (hash160 H c))"

definition tweak_pubkey :: "ecurve \<Rightarrow> point \<Rightarrow> int \<Rightarrow> point result" where
  "tweak_pubkey E pk tweak_int =
     bindR (multiply_generator E tweak_int) (\<lambda>tweak_point.
     bindR (add_points E pk tweak_point) (\<lambda>new_point. from_point E new_point))"

section \<open>ECDSA\<close>

text \<open>The leftmost bits of the message, as many as the order has.\<close>

definition message_value :: "int \<Rightarrow> bytes \<Rightarrow> int" where
  "message_value n message =
     (let z = be_val message; excess = int (length message) * 8 - int (bit_length (nat n))
      in if excess > 0 then drop_bit (nat excess) z else z)"

text \<open>
  Signing draws its nonce with \<^verbatim>\<open>secrets.randbelow\<close>; the draws are a list argument. \<open>None\<close> means
  that every draw of the list was rejected, so that the code is still in its loop.
\<close>

fun ecdsa :: "ecurve \<Rightarrow> int \<Rightarrow> bytes \<Rightarrow> int list \<Rightarrow> (int \<times> int) result option" where
  "ecdsa E private_key message [] = None"
| "ecdsa E private_key message (k # draws) =
     (let n = cv_order E; z = message_value n message in
      if k = 0 then ecdsa E private_key message draws
      else case multiply_generator E k of
          Inl e \<Rightarrow> Some (Inl e)
        | Inr None \<Rightarrow> Some (Inl TypeError)
        | Inr (Some (x, y)) \<Rightarrow>
            let r = x mod n in
            if r = 0 then ecdsa E private_key message draws
            else case mod_inverse k n of
                Inl e \<Rightarrow> Some (Inl e)
              | Inr k_inv \<Rightarrow>
                  let s = k_inv * (z + r * private_key) mod n in
                  if s = 0 then ecdsa E private_key message draws
                  else Some (Inr (r, if s > n div 2 then n - s else s)))"

definition verify_ecdsa :: "ecurve \<Rightarrow> int \<times> int \<Rightarrow> bytes \<Rightarrow> point \<Rightarrow> bool result" where
  "verify_ecdsa E signature message public_key =
     (let n = cv_order E; r = fst signature; s = snd signature in
      bindR (guardR (1 \<le> r \<and> r < n) ECDSAError) (\<lambda>_.
      bindR (guardR (1 \<le> s \<and> s < n) ECDSAError) (\<lambda>_.
        let z = message_value n message in
        bindR (mod_inverse s n) (\<lambda>s_inv.
          let u1 = z * s_inv mod n; u2 = r * s_inv mod n in
          bindR (multiply_generator E u1) (\<lambda>pt1.
          bindR (scalar_multiplication E u2 public_key) (\<lambda>pt2.
          bindR (add_points E pt1 pt2) (\<lambda>final_pt.
            case final_pt of None \<Rightarrow> Inl TypeError
            | Some (x, y) \<Rightarrow> Inr (r = x mod n))))))))"

section \<open>Schnorr\<close>

definition schnorr_verify :: "ecurve \<Rightarrow> hashes \<Rightarrow> int \<Rightarrow> bytes \<Rightarrow> bytes \<Rightarrow> bool result" where
  "schnorr_verify E H pubkey_x msg sig =
     (let n = cv_order E; p = cv_p E in
      bindR (guardR (length sig = 2 * COORD_BYTES) SchnorrError) (\<lambda>_.
        let r_bytes = take COORD_BYTES sig; s_bytes = drop COORD_BYTES sig;
            r = be_val r_bytes; s = be_val s_bytes in
        bindR (guardR (\<not> (r > p \<or> s > n \<or> r < 0 \<or> s < 0)) SchnorrError) (\<lambda>_.
        bindR (guardR (length msg = COORD_BYTES) SchnorrError) (\<lambda>_.
        bindR (guardR (is_x_on_curve E pubkey_x) SchnorrError) (\<lambda>_.
        bindR (find_y_from_x E pubkey_x) (\<lambda>y.
          let y = (if y mod 2 \<noteq> 0 then p - y else y); pubkey = Some (pubkey_x, y) in
          bindR (to_bytes_be COORD_BYTES pubkey_x) (\<lambda>xb.
            let challenge = be_val (schnorr_challenge_hash H (r_bytes @ xb @ msg)) mod n in
            bindR (multiply_generator E s) (\<lambda>pt1.
            bindR (scalar_multiplication E (n - challenge) pubkey) (\<lambda>pt2.
            bindR (add_points E pt1 pt2) (\<lambda>pt3.
              Inr (map_option fst pt3 = Some r)))))))))))"

text \<open>The coordinates of a point, or the exception of \<^verbatim>\<open>None % 2\<close>.\<close>

definition coordinates :: "point \<Rightarrow> (int \<times> int) result" where
  "coordinates pt = (case pt of None \<Rightarrow> Inl TypeError | Some xy \<Rightarrow> Inr xy)"

definition schnorr_sig :: "ecurve \<Rightarrow> hashes \<Rightarrow> int \<Rightarrow> bytes \<Rightarrow> bytes option \<Rightarrow> bytes result" where
  "schnorr_sig E H priv_key msg aux =
     (let n = cv_order E;
          aux_bytes = (case aux of None \<Rightarrow> replicate COORD_BYTES 0 | Some a \<Rightarrow> a) in
      bindR (guardR (1 \<le> priv_key \<and> priv_key < n) SchnorrError) (\<lambda>_.
      bindR (guardR (length msg = COORD_BYTES) SchnorrError) (\<lambda>_.
      bindR (guardR (length aux_bytes = COORD_BYTES) SchnorrError) (\<lambda>_.
      bindR (bindR (multiply_generator E priv_key) coordinates) (\<lambda>(px, py).
        let d = (if py mod 2 \<noteq> 0 then n - priv_key else priv_key) in
        bindR (to_bytes_be COORD_BYTES px) (\<lambda>schnorr_xbytes.
          let temp_entropy = d XOR be_val (schnorr_aux_hash H aux_bytes) in
          bindR (to_bytes_be COORD_BYTES temp_entropy) (\<lambda>t.
            let k_prime = be_val (schnorr_nonce_hash H (t @ schnorr_xbytes @ msg)) mod n in
            bindR (guardR (k_prime \<noteq> 0) SchnorrError) (\<lambda>_.
            bindR (bindR (multiply_generator E k_prime) coordinates) (\<lambda>(rx, ry).
              let k = (if ry mod 2 \<noteq> 0 then n - k_prime else k_prime) in
              bindR (to_bytes_be COORD_BYTES rx) (\<lambda>nonce_xbytes.
                let challenge =
                      be_val (schnorr_challenge_hash H (nonce_xbytes @ schnorr_xbytes @ msg)) mod n;
                    s = (k + challenge * d) mod n in
                bindR (to_bytes_be COORD_BYTES s) (\<lambda>sb.
                  let sig = nonce_xbytes @ sb in
                  bindR (schnorr_verify E H px msg sig) (\<lambda>valid.
                    if valid then Inr sig else Inl SchnorrError))))))))))))"

section \<open>Signatures have the form their verifier asks for\<close>

lemma ecdsa_range:
  assumes n: "1 < cv_order E" and r: "ecdsa E d msg ks = Some (Inr (r, s))"
  shows "1 \<le> r \<and> r < cv_order E \<and> 1 \<le> s \<and> 2 * s \<le> cv_order E"
  using r
proof (induction ks)
  case Nil
  then show ?case by simp
next
  case (Cons k ks)
  let ?n = "cv_order E"
  show ?case
  proof (cases "k = 0")
    case True
    with Cons show ?thesis by simp
  next
    case False
    with Cons.prems obtain x y where k: "multiply_generator E k = Inr (Some (x, y))"
      by (cases "multiply_generator E k"; cases "projr (multiply_generator E k)") auto
    define r' where "r' = x mod ?n"
    show ?thesis
    proof (cases "r' = 0")
      case True
      with Cons k False show ?thesis by (simp add: Let_def r'_def)
    next
      case r': False
      with Cons.prems k False obtain i where i: "mod_inverse k ?n = Inr i"
        by (cases "mod_inverse k ?n") (simp_all add: Let_def r'_def)
      define w where "w = i * (message_value ?n msg + r' * d) mod ?n"
      have e: "ecdsa E d msg (k # ks) = (if w = 0 then ecdsa E d msg ks
          else Some (Inr (r', if w > ?n div 2 then ?n - w else w)))"
        unfolding ecdsa.simps k i Let_def w_def using r' False by (simp add: r'_def i)
      show ?thesis
      proof (cases "w = 0")
        case True
        with Cons e show ?thesis by simp
      next
        case w: False
        then have "r = r'" "s = (if w > ?n div 2 then ?n - w else w)" using Cons.prems e by simp_all
        moreover have "0 \<le> w" "w < ?n" "0 \<le> r'" "r' < ?n"
          using n by (simp_all add: w_def r'_def)
        ultimately show ?thesis using w r' by (simp split: if_splits)
      qed
    qed
  qed
qed

lemma coordinates_Inr [simp]: "coordinates pt = Inr xy \<longleftrightarrow> pt = Some xy"
  by (cases pt) (simp_all add: coordinates_def)

lemma schnorr_sig_verifies:
  assumes "schnorr_sig E H d msg aux = Inr sig"
  shows "length sig = 64 \<and> (\<exists>px py. multiply_generator E d = Inr (Some (px, py))
     \<and> schnorr_verify E H px msg sig = Inr True)"
  using assms unfolding schnorr_sig_def Let_def
  by (elim bindR_InrE) (clarsimp simp: if_Inr_iff to_bytes_be_Inr_iff COORD_BYTES_def)

section \<open>Serialised keys\<close>

lemma find_y_from_x_on_curve:
  assumes p: "prime_field (cv_p E)" and p4: "cv_p E mod 4 = 3"
    and on: "is_point_on_curve E (Some (x, y))" and y: "0 < y" "y < cv_p E"
  shows "is_x_on_curve E x \<and> find_y_from_x E x = Inr (min y (cv_p E - y))"
proof -
  let ?p = "cv_p E"
  have "x_terms E x mod ?p = y * y mod ?p" using on by (simp add: is_point_on_curve_def x_terms_eq)
  from tonelli_shanks_of_square [OF p p4 this] obtain r where
    q: "is_quadratic_residue (x_terms E x) ?p" and r: "tonelli_shanks (x_terms E x) ?p = Inr r"
      "0 \<le> r" "r < ?p" and d: "?p dvd r - y \<or> ?p dvd r + y" by blast
  have "r = y \<or> r = ?p - y"
    using d
  proof
    assume "?p dvd r - y"
    then have "r mod ?p = y mod ?p" by (simp add: mod_eq_dvd_iff)
    with r y show ?thesis by simp
  next
    assume a: "?p dvd r + y"
    have "r - (?p - y) = (r + y) - ?p" by simp
    with dvd_diff [OF a dvd_refl] have "?p dvd r - (?p - y)" by metis
    then have "r mod ?p = (?p - y) mod ?p" by (simp only: mod_eq_dvd_iff)
    moreover have "r mod ?p = r" using r by simp
    moreover have "(?p - y) mod ?p = ?p - y" using y by (intro mod_pos_pos_trivial) simp_all
    ultimately show ?thesis by simp
  qed
  moreover have "(- y) mod ?p = ?p - y" "(y - ?p) mod ?p = y"
    using y zmod_zminus1_eq_if [of y ?p] by (simp_all add: mod_diff_right_eq [symmetric])
  ultimately show ?thesis using q r(1)
    by (auto simp: is_x_on_curve_def find_y_from_x_def min.commute)
qed

text \<open>The root of the asked parity: exactly one of \<open>y\<close> and \<open>p - y\<close> has it, since \<open>p\<close> is odd.\<close>

lemma choose_parity:
  assumes "p mod 4 = (3 :: int)" and "v = min y (p - y)"
  shows "(if v mod 2 \<noteq> y mod 2 then p - v else v) = y"
  using assms by (auto simp: min_def; presburger)

lemma be_bytes: "0 \<le> v \<Longrightarrow> v < 256 ^ n \<Longrightarrow> \<exists>bs. to_bytes_be n v = Inr bs \<and> length bs = n \<and> be_val bs = v"
  by (simp add: to_bytes_be_def be_val_def le_val_le_bytes)

text \<open>
  a public key with coordinates in the field survives both serialisations, on every curve over
  a prime field with \<open>p mod 4 = 3\<close> (as secp256k1 is): the 33-byte form, whose \<open>y\<close> is recomputed by
  the modular square root and chosen by its parity, and the 65-byte form; both parsers also agree
  with the length-directed one.
\<close>

theorem public_keys_round_trip:
  assumes "prime_field (cv_p E)" and "cv_p E mod 4 = 3" and "cv_p E \<le> 256 ^ 32"
    and "is_point_on_curve E (Some (x, y))" and "0 < x" "x < cv_p E" "0 < y" "y < cv_p E"
  shows "\<exists>c u. compressed (Some (x, y)) = Inr c \<and> length c = 33
      \<and> from_compressed E c = Inr (Some (x, y)) \<and> pubkey_from_bytes E c = Inr (Some (x, y))
      \<and> uncompressed (Some (x, y)) = Inr u \<and> length u = 65
      \<and> from_uncompressed E u = Inr (Some (x, y)) \<and> pubkey_from_bytes E u = Inr (Some (x, y))"
proof -
  obtain xb where xb: "to_bytes_be 32 x = Inr xb" "length xb = 32" "be_val xb = x"
    using be_bytes [of x 32] assms by auto
  obtain yb where yb: "to_bytes_be 32 y = Inr yb" "length yb = 32" "be_val yb = y"
    using be_bytes [of y 32] assms by auto
  define c where "c = (if y mod 2 = 0 then 2 else 3) # xb"
  note f = find_y_from_x_on_curve [OF assms(1,2,4,7,8)]
  define v where "v = min y (cv_p E - y)"
  have par: "(if v mod 2 \<noteq> y mod 2 then cv_p E - v else v) = y"
    using assms(2) v_def by (rule choose_parity)
  have "from_compressed E c = Inr (Some (x, y))"
  proof (cases "y mod 2 = 0")
    case True
    with par f xb assms(5,6) show ?thesis
      by (simp add: from_compressed_def c_def Let_def and_one_eq flip: v_def)
  next
    case False
    then have "y mod 2 = 1" by presburger
    with par f xb assms(5,6) show ?thesis
      by (simp add: from_compressed_def c_def Let_def and_one_eq flip: v_def)
  qed
  moreover have "from_uncompressed E (4 # xb @ yb) = Inr (Some (x, y))"
    using assms xb yb by (simp add: from_uncompressed_def)
  ultimately show ?thesis using xb yb
    by (intro exI [of _ c] exI [of _ "4 # xb @ yb"])
      (simp add: c_def compressed_def uncompressed_def x_bytes_def y_bytes_def pubkey_from_bytes_def)
qed

text \<open>A curve over the field of 11 elements: \<open>2\<^sup>3 + 7 = 4 = 2\<^sup>2\<close>.\<close>

definition curve_11 :: ecurve where
  "curve_11 = \<lparr>cv_a = 0, cv_b = 7, cv_p = 11, cv_order = 12, cv_generator = Some (2, 2)\<rparr>"

lemma prime_field_11: "prime_field 11"
proof -
  have "11 dvd a \<or> 11 dvd b" if d: "11 dvd a * b" for a b :: int
  proof -
    define r where "r = a mod 11"
    have "11 dvd r * b" using d by (metis dvd_eq_mod_eq_0 mod_mult_left_eq r_def)
    moreover have "0 \<le> r" "r < 11" by (simp_all add: r_def)
    then have "r \<in> {0, 1, 2, 3, 4, 5, 6, 7, 8, 9, 10}" by (simp; presburger)
    ultimately have "r = 0 \<or> 11 dvd b" by auto presburger+
    then show ?thesis by (auto simp: r_def)
  qed
  then show ?thesis by (simp add: prime_field_def)
qed

lemma public_keys_round_trip_witness:
  "\<exists>c. compressed (Some (2, 9)) = Inr c \<and> from_compressed curve_11 c = Inr (Some (2, 9))"
proof -
  have "prime_field (cv_p curve_11)" "is_point_on_curve curve_11 (Some (2, 9))"
    using prime_field_11 by (simp_all add: curve_11_def is_point_on_curve_def x_terms_eq cubic_def)
  from public_keys_round_trip [OF this(1) _ _ this(2)] show ?thesis
    by (auto simp: curve_11_def)
qed

end
