(* ===== verification/Taproot.thy ===== *)
theory Taproot
  imports Signatures Byte_Stream
begin

unbundle bit_operations_syntax

text \<open>
  \<^verbatim>\<open>src/src/data/taproot.py\<close>: leaves, branches, the sequential (unbalanced) script tree, the tweak
  of the internal key and the control block check. A \<^verbatim>\<open>Leaf\<close> is determined by its script and leaf
  version, a \<^verbatim>\<open>Branch\<close> by its two hashes, a \<^verbatim>\<open>Tree\<close> by its scripts; their attributes are functions
  here. \<^verbatim>\<open>TAPROOT.VERSION_BYTE\<close> is \<^verbatim>\<open>0xc0\<close>.
\<close>

section \<open>Leaves and branches\<close>

definition VERSION_BYTE :: byte where "VERSION_BYTE = 0xc0"
definition PUBKEY_BYTELEN :: nat where "PUBKEY_BYTELEN = 32"

definition leaf_serialized :: "byte \<Rightarrow> bytes \<Rightarrow> bytes result" where
  "leaf_serialized leaf_version script =
     bindR (write_compact_size (int (length script))) (\<lambda>n. Inr ([leaf_version] @ n @ script))"

definition leaf_hash :: "hashes \<Rightarrow> byte \<Rightarrow> bytes \<Rightarrow> bytes result" where
  "leaf_hash H leaf_version script =
     bindR (leaf_serialized leaf_version script) (\<lambda>s. Inr (tapleaf_hash H s))"

text \<open>Python's \<^verbatim>\<open><=\<close> on \<^verbatim>\<open>bytes\<close>: lexicographic, a prefix first.\<close>

fun bytes_le :: "bytes \<Rightarrow> bytes \<Rightarrow> bool" where
  "bytes_le [] ys = True"
| "bytes_le (x # xs) [] = False"
| "bytes_le (x # xs) (y # ys) = (x < y \<or> x = y \<and> bytes_le xs ys)"

definition branch_hash :: "hashes \<Rightarrow> bytes \<Rightarrow> bytes \<Rightarrow> bytes" where
  "branch_hash H hash1 hash2 =
     (let left = (if bytes_le hash1 hash2 then hash1 else hash2);
          right = (if bytes_le hash1 hash2 then hash2 else hash1)
      in tapbranch_hash H (left @ right))"

section \<open>The sequential tree\<close>

fun leaf_hashes :: "hashes \<Rightarrow> bytes list \<Rightarrow> bytes list result" where
  "leaf_hashes H [] = Inr []"
| "leaf_hashes H (s # scripts) =
     bindR (leaf_hash H VERSION_BYTE s) (\<lambda>h. bindR (leaf_hashes H scripts) (\<lambda>hs. Inr (h # hs)))"

text \<open>The loop that pops one leaf per round and appends a branch with the last branch.\<close>

fun branches_loop :: "hashes \<Rightarrow> bytes list \<Rightarrow> bytes \<Rightarrow> bytes list" where
  "branches_loop H [] last_branch = []"
| "branches_loop H (next_leaf # leaves) last_branch =
     (let b = branch_hash H last_branch next_leaf in b # branches_loop H leaves b)"

fun sequential_branches :: "hashes \<Rightarrow> bytes list \<Rightarrow> bytes list" where
  "sequential_branches H (leaf1 # leaf2 # leaves) =
     (let b = branch_hash H leaf1 leaf2 in b # branches_loop H leaves b)"
| "sequential_branches H _ = []"

text \<open>\<^verbatim>\<open>self.leaves[-1]\<close> of an empty tree raises \<^verbatim>\<open>IndexError\<close>.\<close>

definition tree_merkle_root :: "hashes \<Rightarrow> bytes list \<Rightarrow> bytes result" where
  "tree_merkle_root H scripts =
     bindR (leaf_hashes H scripts) (\<lambda>leaves.
       let branches = sequential_branches H leaves in
       if branches \<noteq> [] then Inr (last branches)
       else if leaves = [] then Inl IndexError else Inr (last leaves))"

fun script_index :: "bytes list \<Rightarrow> bytes \<Rightarrow> nat option" where
  "script_index [] s = None"
| "script_index (t # ts) s = (if t = s then Some 0 else map_option Suc (script_index ts s))"

text \<open>
  For one of the first two leaves, the conditional expression
  \<^verbatim>\<open>merkle_proof.append(leaf_zero.leaf_hash) if leaf_hash == leaf_one.leaf_hash else leaf_one.leaf_hash\<close>
  appends the hash of leaf 0 in the one case and does nothing in the other; then all branches follow.
\<close>

definition generate_merkle_path :: "hashes \<Rightarrow> bytes list \<Rightarrow> bytes \<Rightarrow> bytes result" where
  "generate_merkle_path H scripts leaf_script =
     bindR (leaf_hashes H scripts) (\<lambda>leaves.
     bindR (leaf_hash H VERSION_BYTE leaf_script) (\<lambda>lh.
       let branches = sequential_branches H leaves in
       case script_index scripts leaf_script of None \<Rightarrow> Inl TaprootError
       | Some leaf_index \<Rightarrow>
           if leaf_index \<le> 1 then
             bindR (index_at leaves 0) (\<lambda>leaf_zero.
             bindR (index_at leaves 1) (\<lambda>leaf_one.
               Inr (concat ((if lh = leaf_one then [leaf_zero] else []) @ branches))))
           else Inr (concat (take (leaf_index - 1) branches @ drop (leaf_index + 1) leaves))))"

fun unbalanced_loop :: "hashes \<Rightarrow> bytes list \<Rightarrow> bytes \<Rightarrow> bytes" where
  "unbalanced_loop H [] last_branch = last_branch"
| "unbalanced_loop H (next_leaf # leaves) last_branch =
     unbalanced_loop H leaves (branch_hash H next_leaf last_branch)"

definition get_unbalanced_merkle_root :: "hashes \<Rightarrow> bytes list \<Rightarrow> bytes result" where
  "get_unbalanced_merkle_root H scripts =
     bindR (leaf_hashes H scripts) (\<lambda>leaves. case leaves of
         [] \<Rightarrow> Inl IndexError
       | [leaf] \<Rightarrow> Inr leaf
       | leaf1 # leaf2 # rest \<Rightarrow> Inr (unbalanced_loop H rest (branch_hash H leaf1 leaf2)))"

section \<open>Merkle paths\<close>

text \<open>The slices \<^verbatim>\<open>merkle_path[i:i + 32]\<close>; the last one may be shorter.\<close>

function path_chunks :: "bytes \<Rightarrow> bytes list" where
  "path_chunks merkle_path =
     (if merkle_path = [] then []
      else take PUBKEY_BYTELEN merkle_path # path_chunks (drop PUBKEY_BYTELEN merkle_path))"
  by pat_completeness auto
termination by (relation "measure length") (auto simp: PUBKEY_BYTELEN_def)

declare path_chunks.simps [simp del]

definition compute_merkle_root :: "hashes \<Rightarrow> bytes \<Rightarrow> bytes \<Rightarrow> bytes" where
  "compute_merkle_root H lh merkle_path =
     foldl (\<lambda>current h. branch_hash H current h) lh (path_chunks merkle_path)"

definition validate_merkle_path :: "hashes \<Rightarrow> bytes \<Rightarrow> bytes \<Rightarrow> bytes \<Rightarrow> bool result" where
  "validate_merkle_path H lh merkle_path merkle_root =
     bindR (guardR (length lh = PUBKEY_BYTELEN) TaprootError) (\<lambda>_.
     bindR (guardR (length merkle_path mod PUBKEY_BYTELEN = 0) TaprootError) (\<lambda>_.
     bindR (guardR (length merkle_root = PUBKEY_BYTELEN) TaprootError) (\<lambda>_.
       Inr (compute_merkle_root H lh merkle_path = merkle_root))))"

section \<open>Tweaks and control blocks\<close>

definition get_tweak :: "hashes \<Rightarrow> bytes \<Rightarrow> bytes \<Rightarrow> bytes" where
  "get_tweak H xonly_pubkey merkle_root = taptweak_hash H (xonly_pubkey @ merkle_root)"

text \<open>The tweaked key of \<^verbatim>\<open>TweakPubkey\<close>.\<close>

definition tweaked_pubkey :: "ecurve \<Rightarrow> hashes \<Rightarrow> bytes \<Rightarrow> bytes \<Rightarrow> point result" where
  "tweaked_pubkey E H xonly_pubkey merkle_root =
     bindR (from_xonly E xonly_pubkey) (\<lambda>internal_pubkey.
       tweak_pubkey E internal_pubkey (be_val (taptweak_hash H (xonly_pubkey @ merkle_root))))"

definition get_control_byte :: "point \<Rightarrow> byte result" where
  "get_control_byte pt =
     bindR (coordinates pt) (\<lambda>(x, y). Inr (VERSION_BYTE + word_of_int (y mod 2)))"

definition get_control_block :: "ecurve \<Rightarrow> hashes \<Rightarrow> bytes \<Rightarrow> bytes \<Rightarrow> bytes \<Rightarrow> bytes result" where
  "get_control_block E H xonly merkle_root merkle_path =
     bindR (tweaked_pubkey E H xonly merkle_root) (\<lambda>tweaked.
     bindR (get_control_byte tweaked) (\<lambda>control_byte.
       Inr ([control_byte] @ xonly @ merkle_path)))"

definition validate_control_block :: "ecurve \<Rightarrow> hashes \<Rightarrow> bytes \<Rightarrow> bytes \<Rightarrow> bytes \<Rightarrow> bool result" where
  "validate_control_block E H control_block leaf_script tweaked_pubkey_bytes =
     bindR (guardR (\<not> length control_block < 33) TaprootError) (\<lambda>_.
     bindR (guardR ((length control_block - 33) mod PUBKEY_BYTELEN = 0) TaprootError) (\<lambda>_.
       let control_byte = hd control_block;
           leaf_version = control_byte AND 0xfe;
           parity = uint (control_byte AND 0x01);
           internal_pubkey_bytes = take 32 (drop 1 control_block);
           merkle_path = drop 33 control_block in
       bindR (leaf_hash H leaf_version leaf_script) (\<lambda>lh.
         let merkle_root = compute_merkle_root H lh merkle_path in
         bindR (tweaked_pubkey E H internal_pubkey_bytes merkle_root) (\<lambda>tweaked.
         bindR (coordinates tweaked) (\<lambda>(x, y).
           if y mod 2 \<noteq> parity then Inr False
           else bindR (x_bytes tweaked) (\<lambda>xb. Inr (xb = tweaked_pubkey_bytes)))))))"

section \<open>Roots and paths\<close>

lemma bytes_le_total: "bytes_le xs ys \<or> bytes_le ys xs"
  by (induction xs ys rule: bytes_le.induct) auto

lemma bytes_le_antisym: "bytes_le xs ys \<Longrightarrow> bytes_le ys xs \<Longrightarrow> xs = ys"
proof (induction xs ys rule: bytes_le.induct)
  case (1 ys)
  then show ?case by (cases ys) auto
qed auto

lemma branch_hash_commute: "branch_hash H a b = branch_hash H b a"
  using bytes_le_total [of a b] bytes_le_antisym [of a b] by (auto simp: branch_hash_def Let_def)

lemma branches_loop_last: "last (b # branches_loop H ls b) = foldl (branch_hash H) b ls"
  by (induction ls arbitrary: b) (auto simp: Let_def)

lemma unbalanced_loop_foldl: "unbalanced_loop H ls b = foldl (branch_hash H) b ls"
  by (induction ls arbitrary: b) (auto simp: branch_hash_commute)

text \<open>Both root computations are the left fold of the branch hash over the leaf hashes.\<close>

lemma tree_root_foldl:
  "leaf_hashes H scripts = Inr (l # ls) \<Longrightarrow>
     tree_merkle_root H scripts = Inr (foldl (branch_hash H) l ls)"
  using branches_loop_last [of _ H]
  by (cases ls) (auto simp: tree_merkle_root_def Let_def)

lemma unbalanced_root_foldl:
  "leaf_hashes H scripts = Inr (l # ls) \<Longrightarrow>
     get_unbalanced_merkle_root H scripts = Inr (foldl (branch_hash H) l ls)"
  by (cases ls) (auto simp: get_unbalanced_merkle_root_def unbalanced_loop_foldl)

lemma leaf_hashes_length: "leaf_hashes H scripts = Inr ls \<Longrightarrow> length ls = length scripts"
  by (induction scripts arbitrary: ls) auto

lemma leaf_hashes_size:
  "digest_sizes H \<Longrightarrow> leaf_hashes H scripts = Inr ls \<Longrightarrow> list_all (\<lambda>h. length h = 32) ls"
  by (induction scripts arbitrary: ls) (auto simp: leaf_hash_def tapleaf_hash_def digest_lengths)

lemma branch_hash_size: "digest_sizes H \<Longrightarrow> length (branch_hash H a b) = 32"
  by (simp add: branch_hash_def Let_def tapbranch_hash_def digest_lengths)

lemma path_chunks_concat:
  "list_all (\<lambda>h. length h = 32) hs \<Longrightarrow> path_chunks (concat hs) = hs"
proof (induction hs)
  case Nil
  then show ?case by (simp add: path_chunks.simps)
next
  case (Cons h hs)
  then have "h \<noteq> []" by auto
  with Cons show ?case by (subst path_chunks.simps) (simp add: PUBKEY_BYTELEN_def)
qed

lemma script_index_nth: "script_index ts s = Some i \<Longrightarrow> i < length ts \<and> ts ! i = s"
  by (induction ts arbitrary: i) (auto split: if_splits)

lemma leaf_hashes_nth:
  "leaf_hashes H scripts = Inr ls \<Longrightarrow> i < length scripts \<Longrightarrow>
     leaf_hash H VERSION_BYTE (scripts ! i) = Inr (ls ! i)"
  by (induction scripts arbitrary: ls i) (auto simp: nth_Cons split: nat.splits)

text \<open>The path of the third leaf holds the first branch and the leaves after it.\<close>

lemma third_leaf_path:
  assumes H: "digest_sizes H" and l: "leaf_hashes H scripts = Inr leaves"
    and i: "script_index scripts s = Some 2"
  shows "\<exists>lh path root. leaf_hash H VERSION_BYTE s = Inr lh
    \<and> generate_merkle_path H scripts s = Inr path \<and> tree_merkle_root H scripts = Inr root
    \<and> validate_merkle_path H lh path root = Inr True"
proof -
  have n: "2 < length scripts" "scripts ! 2 = s" using script_index_nth [OF i] by auto
  with leaf_hashes_length [OF l] have "length leaves = Suc (Suc (Suc (length leaves - 3)))" by simp
  then obtain a b c rest where leaves: "leaves = a # b # c # rest"
    by (auto simp: length_Suc_conv)
  have lh: "leaf_hash H VERSION_BYTE s = Inr c"
    using leaf_hashes_nth [OF l n(1)] n(2) leaves by simp
  have size: "list_all (\<lambda>h. length h = 32) (branch_hash H a b # rest)" "length c = 32"
    using leaf_hashes_size [OF H l] leaves branch_hash_size [OF H] by simp_all
  define path where "path = concat (branch_hash H a b # rest)"
  define root where "root = foldl (branch_hash H) a (b # c # rest)"
  have "generate_merkle_path H scripts s = Inr path"
    using l lh i by (simp add: generate_merkle_path_def leaves Let_def path_def)
  moreover have "tree_merkle_root H scripts = Inr root"
    using tree_root_foldl l leaves by (simp add: root_def)
  moreover have "compute_merkle_root H c path = root"
    unfolding compute_merkle_root_def path_def path_chunks_concat [OF size(1)] root_def
    by (simp add: branch_hash_commute [of H c])
  moreover have "length path mod 32 = 0"
  proof -
    have "length (concat hs) mod 32 = 0" if "list_all (\<lambda>h. length h = 32) hs" for hs :: "bytes list"
      using that by (induction hs) (simp_all add: mod_add_left_eq [symmetric])
    then show ?thesis using size(1) by (simp only: path_def)
  qed
  moreover have "length root = 32"
  proof -
    have "length (foldl (branch_hash H) x ys) = 32" if "length x = 32" for x ys
      using that by (induction ys arbitrary: x) (simp_all add: branch_hash_size [OF H])
    then show ?thesis using branch_hash_size [OF H] by (simp add: root_def)
  qed
  ultimately show ?thesis using lh size(2)
    by (auto simp: validate_merkle_path_def PUBKEY_BYTELEN_def)
qed

text \<open>
  the script tree commits to the same root in both implementations, the left fold of the
  branch hash over the leaf hashes, whatever the scripts; and the Merkle path generated for the
  third script of a tree is accepted by the path check against that root.
\<close>

theorem script_tree_paths:
  assumes "digest_sizes H" and "leaf_hashes H scripts = Inr (l # ls)"
  shows "tree_merkle_root H scripts = get_unbalanced_merkle_root H scripts
    \<and> get_unbalanced_merkle_root H scripts = Inr (foldl (branch_hash H) l ls)
    \<and> (script_index scripts s = Some 2 \<longrightarrow> (\<exists>lh path root. leaf_hash H VERSION_BYTE s = Inr lh
          \<and> generate_merkle_path H scripts s = Inr path \<and> tree_merkle_root H scripts = Inr root
          \<and> validate_merkle_path H lh path root = Inr True))"
  using tree_root_foldl [OF assms(2)] unbalanced_root_foldl [OF assms(2)]
    third_leaf_path [OF assms] by (auto simp del: tree_root_foldl)

lemma leaf_hashes_three: "\<exists>l ls. leaf_hashes H [[1], [2], [3]] = Inr (l # ls)"
  by (simp add: leaf_hash_def leaf_serialized_def write_compact_size_def MAX_COMPACTSIZE_def
      to_bytes_le_def)

lemma script_tree_paths_witness:
  "\<exists>lh path root. leaf_hash pad_hashes VERSION_BYTE [3] = Inr lh
     \<and> generate_merkle_path pad_hashes [[1], [2], [3]] [3] = Inr path
     \<and> validate_merkle_path pad_hashes lh path root = Inr True"
proof -
  obtain l ls where "leaf_hashes pad_hashes [[1], [2], [3]] = Inr (l # ls)"
    using leaf_hashes_three by blast
  from script_tree_paths [OF pad_hashes_digest_sizes this, of "[3]"] show ?thesis
    by (auto simp: numeral_2_eq_2)
qed

text \<open>
  A checksum in place of the digests, of the documented sizes: it tells the inputs below apart.
\<close>

definition sum_hashes :: hashes where
  "sum_hashes = \<lparr>h_sha1 = (\<lambda>d. replicate 19 0 @ [foldl (\<lambda>a b. 3 * a + b + 1) 0 d]),
     h_sha256 = (\<lambda>d. replicate 31 0 @ [foldl (\<lambda>a b. 3 * a + b + 1) 0 d]),
     h_ripemd160 = (\<lambda>d. replicate 19 0 @ [foldl (\<lambda>a b. 3 * a + b + 1) 0 d])\<rparr>"

definition check_own_path :: "hashes \<Rightarrow> bytes list \<Rightarrow> bytes \<Rightarrow> bool result" where
  "check_own_path H scripts s =
     bindR (leaf_hash H VERSION_BYTE s) (\<lambda>lh.
     bindR (generate_merkle_path H scripts s) (\<lambda>path.
     bindR (tree_merkle_root H scripts) (\<lambda>root. validate_merkle_path H lh path root)))"

text \<open>
  for the first two scripts of a tree the generated path is wrong: with digests of the
  documented sizes that tell the inputs apart, the path check rejects the path the tree itself
  generates for either script of a two-script tree.
\<close>

theorem first_leaves_path_rejected:
  "digest_sizes sum_hashes
    \<and> check_own_path sum_hashes [[1], [2]] [1] = Inr False
    \<and> check_own_path sum_hashes [[1], [2]] [2] = Inr False"
proof (intro conjI)
  show "digest_sizes sum_hashes" by (simp add: digest_sizes_def sum_hashes_def)
qed code_simp+

end
