(* ===== verification/Script_Keys.thy ===== *)
theory Script_Keys
  imports Encoding Bech32 Taproot Script_Parser
begin

text \<open>
  Locking and unlocking scripts: \<^verbatim>\<open>src/src/script/scriptpubkeys.py\<close>,
  \<^verbatim>\<open>src/src/script/scriptsigs.py\<close>, \<^verbatim>\<open>src/src/script/standard_templates.py\<close> and
  \<^verbatim>\<open>src/src/script/spend_classification.py\<close>. An object of one of the key or signature classes is
  its class (a \<open>script_type\<close>) and its script bytes; opcode constants are written as bytes.
\<close>

datatype script_type =
  P2PK | P2PKH | P2MS | P2SH | P2SH_P2WPKH | P2SH_P2WSH | P2WPKH | P2WSH | P2TR

record script_obj =
  sc_kind :: script_type
  sc_bytes :: bytes

definition mk_script :: "script_type \<Rightarrow> bytes \<Rightarrow> script_obj" where
  "mk_script t b = \<lparr>sc_kind = t, sc_bytes = b\<rparr>"

lemma mk_script_simps [simp]: "sc_kind (mk_script t b) = t" "sc_bytes (mk_script t b) = b"
  by (simp_all add: mk_script_def)

section \<open>Recognising scriptPubKeys\<close>

definition pubkey_length_ok :: "nat \<Rightarrow> bool" where
  "pubkey_length_ok n \<longleftrightarrow> n = 33 \<or> n = 65"

definition p2pk_matches :: "bytes \<Rightarrow> bool" where
  "p2pk_matches b \<longleftrightarrow> (length b = 35 \<or> length b = 67) \<and> unat (b ! 0) = length b - 2 \<and> last b = 0xac"

definition p2pkh_matches :: "bytes \<Rightarrow> bool" where
  "p2pkh_matches b \<longleftrightarrow> length b = 25 \<and> b ! 0 = 0x76 \<and> b ! 1 = 0xa9 \<and> b ! 2 = 0x14
     \<and> b ! 23 = 0x88 \<and> b ! 24 = 0xac"

definition p2ms_matches :: "bytes \<Rightarrow> bool" where
  "p2ms_matches b \<longleftrightarrow> 3 \<le> length b \<and> 0x51 \<le> b ! 0 \<and> b ! 0 \<le> 0x60
     \<and> 0x51 \<le> b ! (length b - 2) \<and> b ! (length b - 2) \<le> 0x60 \<and> last b = 0xae"

definition p2sh_matches :: "bytes \<Rightarrow> bool" where
  "p2sh_matches b \<longleftrightarrow> length b = 23 \<and> b ! 0 = 0xa9 \<and> b ! 1 = 0x14 \<and> last b = 0x87"

definition p2wpkh_matches :: "bytes \<Rightarrow> bool" where
  "p2wpkh_matches b \<longleftrightarrow> length b = 22 \<and> b ! 0 = 0x00 \<and> b ! 1 = 0x14"

definition p2wsh_matches :: "bytes \<Rightarrow> bool" where
  "p2wsh_matches b \<longleftrightarrow> length b = 34 \<and> b ! 0 = 0x00 \<and> b ! 1 = 0x20 \<and> length (drop 2 b) = 32"

definition p2tr_matches :: "bytes \<Rightarrow> bool" where
  "p2tr_matches b \<longleftrightarrow> length b = 34 \<and> b ! 0 = 0x51 \<and> b ! 1 = 0x20 \<and> length (drop 2 b) = 32"

text \<open>The classes in the order the classifier tries them.\<close>

definition SCRIPTPUBKEY_CLASSIFIERS :: "(script_type \<times> (bytes \<Rightarrow> bool)) list" where
  "SCRIPTPUBKEY_CLASSIFIERS =
     [(P2PKH, p2pkh_matches), (P2SH, p2sh_matches), (P2WPKH, p2wpkh_matches), (P2WSH, p2wsh_matches),
      (P2TR, p2tr_matches), (P2PK, p2pk_matches), (P2MS, p2ms_matches)]"

fun first_match :: "(script_type \<times> (bytes \<Rightarrow> bool)) list \<Rightarrow> bytes \<Rightarrow> script_type result" where
  "first_match [] b = Inl ScriptPubKeyError"
| "first_match ((t, matches) # cs) b = (if matches b then Inr t else first_match cs b)"

definition get_scriptpubkey_type :: "bytes \<Rightarrow> script_type result" where
  "get_scriptpubkey_type b = first_match SCRIPTPUBKEY_CLASSIFIERS b"

section \<open>Constructors\<close>

definition p2pk_key :: "bytes \<Rightarrow> script_obj result" where
  "p2pk_key pubkey =
     bindR (guardR (pubkey_length_ok (length pubkey)) ScriptPubKeyError) (\<lambda>_.
       Inr (mk_script P2PK ([if length pubkey = 33 then 0x21 else 0x41] @ pubkey @ [0xac])))"

definition p2pkh_from_pubkeyhash :: "bytes \<Rightarrow> script_obj" where
  "p2pkh_from_pubkeyhash pubkeyhash =
     mk_script P2PKH ([0x76, 0xa9, 0x14] @ pubkeyhash @ [0x88, 0xac])"

definition p2pkh_key :: "hashes \<Rightarrow> bytes \<Rightarrow> script_obj" where
  "p2pkh_key H pubkey =
     mk_script P2PKH ([0x76, 0xa9, 0x14] @ hash160 H pubkey @ [0x88, 0xac])"

text \<open>\<^verbatim>\<open>bytes([0x50 + n])\<close> raises \<^verbatim>\<open>ValueError\<close> outside a byte.\<close>

definition op_n :: "int \<Rightarrow> bytes result" where
  "op_n n = (if 0 \<le> 0x50 + n \<and> 0x50 + n < 256 then Inr [word_of_int (0x50 + n)] else Inl ValueError)"

definition p2ms_key :: "bytes list \<Rightarrow> int \<Rightarrow> script_obj result" where
  "p2ms_key pubkeys min_num =
     (let pubkey_num = int (length pubkeys);
          min_num = (if min_num = 0 then pubkey_num else min_num) in
      bindR (guardR (list_all (\<lambda>k. pubkey_length_ok (length k)) pubkeys) ScriptPubKeyError) (\<lambda>_.
      bindR (op_n min_num) (\<lambda>op_min.
      bindR (op_n pubkey_num) (\<lambda>op_tot.
        Inr (mk_script P2MS (op_min
          @ concat (map (\<lambda>k. [if length k = 33 then 0x21 else 0x41] @ k) pubkeys) @ op_tot @ [0xae]))))))"

definition p2sh_key :: "bytes \<Rightarrow> script_obj result" where
  "p2sh_key hash_data =
     bindR (guardR (length hash_data = 20) ScriptPubKeyError) (\<lambda>_.
       Inr (mk_script P2SH ([0xa9, 0x14] @ hash_data @ [0x87])))"

definition p2sh_from_data :: "hashes \<Rightarrow> bytes \<Rightarrow> script_obj result" where
  "p2sh_from_data H data = p2sh_key (hash160 H data)"

definition p2wpkh_key :: "bytes \<Rightarrow> script_obj result" where
  "p2wpkh_key pubkeyhash =
     bindR (guardR (length pubkeyhash = 20) ScriptPubKeyError) (\<lambda>_.
       Inr (mk_script P2WPKH ([0x00, 0x14] @ pubkeyhash)))"

definition p2wpkh_from_pubkey :: "hashes \<Rightarrow> bytes \<Rightarrow> script_obj result" where
  "p2wpkh_from_pubkey H pubkey =
     bindR (guardR (length pubkey = 33) ScriptPubKeyError) (\<lambda>_. p2wpkh_key (hash160 H pubkey))"

definition p2wsh_key :: "bytes \<Rightarrow> script_obj result" where
  "p2wsh_key script_hash =
     bindR (guardR (length script_hash = 32) ScriptPubKeyError) (\<lambda>_.
       Inr (mk_script P2WSH ([0x00, 0x20] @ script_hash)))"

text \<open>An absent or empty list of scripts gives the empty Merkle root.\<close>

definition p2tr_key :: "hashes \<Rightarrow> bytes \<Rightarrow> bytes list \<Rightarrow> script_obj result" where
  "p2tr_key H xonly_pubkey scripts =
     bindR (if scripts \<noteq> [] then get_unbalanced_merkle_root H scripts else Inr []) (\<lambda>merkle_root.
     bindR (tweaked_pubkey SECP256K1 H xonly_pubkey merkle_root) (\<lambda>tweaked.
     bindR (x_bytes tweaked) (\<lambda>xb. Inr (mk_script P2TR ([0x51, 0x20] @ xb)))))"

section \<open>from\_bytes\<close>

definition p2pk_from_bytes :: "bytes \<Rightarrow> script_obj result" where
  "p2pk_from_bytes b = (if p2pk_matches b then Inr (mk_script P2PK b) else Inl ScriptPubKeyError)"

definition p2pkh_from_bytes :: "bytes \<Rightarrow> script_obj result" where
  "p2pkh_from_bytes b = (if p2pkh_matches b then Inr (mk_script P2PKH b) else Inl ScriptPubKeyError)"

definition read_p2ms_pubkey :: "bytes \<Rightarrow> (bytes \<times> bytes) result" where
  "read_p2ms_pubkey stream =
     bindR (read_little_int 1 stream) (\<lambda>(pubkey_type, s1).
     bindR (guardR (pubkey_type = 33 \<or> pubkey_type = 65) ScriptPubKeyError) (\<lambda>_.
       read_stream (nat pubkey_type) s1))"

definition p2ms_from_bytes :: "bytes \<Rightarrow> script_obj result" where
  "p2ms_from_bytes b =
     bindR (guardR (p2ms_matches b) ScriptPubKeyError) (\<lambda>_.
       let req_num = uint (b ! 0) - 0x50; sig_num = unat (b ! (length b - 2)) - 0x50;
           stream = take (length b - 3) (drop 1 b) in
       bindR (read_many read_p2ms_pubkey sig_num stream) (\<lambda>(pubkey_list, _). p2ms_key pubkey_list req_num))"

definition p2sh_from_bytes :: "bytes \<Rightarrow> script_obj result" where
  "p2sh_from_bytes b =
     bindR (index_at b 0) (\<lambda>lead_byte. bindR (index_at b 1) (\<lambda>second_byte.
       bindR (guardR (lead_byte = 0xa9 \<and> second_byte = 0x14 \<and> last b = 0x87) ScriptPubKeyError) (\<lambda>_.
         p2sh_key (take (length b - 3) (drop 2 b)))))"

definition p2wpkh_from_bytes :: "bytes \<Rightarrow> script_obj result" where
  "p2wpkh_from_bytes b = (if p2wpkh_matches b then p2wpkh_key (drop 2 b) else Inl ScriptPubKeyError)"

definition p2wsh_from_bytes :: "bytes \<Rightarrow> script_obj result" where
  "p2wsh_from_bytes b = (if p2wsh_matches b then p2wsh_key (drop 2 b) else Inl ScriptPubKeyError)"

definition p2tr_from_bytes :: "bytes \<Rightarrow> script_obj result" where
  "p2tr_from_bytes b =
     (if p2tr_matches b then
        bindR (from_xonly SECP256K1 (drop 2 b)) (\<lambda>_. Inr (mk_script P2TR b))
      else Inl PubKeyError)"

definition script_from_bytes :: "script_type \<Rightarrow> bytes \<Rightarrow> script_obj result" where
  "script_from_bytes t b =
     (case t of P2PKH \<Rightarrow> p2pkh_from_bytes b | P2SH \<Rightarrow> p2sh_from_bytes b | P2WPKH \<Rightarrow> p2wpkh_from_bytes b
      | P2WSH \<Rightarrow> p2wsh_from_bytes b | P2TR \<Rightarrow> p2tr_from_bytes b | P2PK \<Rightarrow> p2pk_from_bytes b
      | P2MS \<Rightarrow> p2ms_from_bytes b | _ \<Rightarrow> Inl ScriptPubKeyError)"

definition classify_scriptpubkey :: "bytes \<Rightarrow> script_obj result" where
  "classify_scriptpubkey b = bindR (get_scriptpubkey_type b) (\<lambda>t. script_from_bytes t b)"

section \<open>Addresses\<close>

text \<open>The properties read their \<^verbatim>\<open>testnet\<close> default, so every prefix is the mainnet one.\<close>

definition address :: "hashes \<Rightarrow> script_obj \<Rightarrow> string result" where
  "address H k =
     (let b = sc_bytes k in
      case sc_kind k of
        P2PK \<Rightarrow> Inr (encode_base58check H (hash160 H (take (length b - 2) (drop 1 b))) [0x00])
      | P2PKH \<Rightarrow> Inr (encode_base58check H (take (length b - 5) (drop 3 b)) [0x00])
      | P2SH \<Rightarrow> Inr (encode_base58check H (take (length b - 3) (drop 2 b)) [0x05])
      | P2WPKH \<Rightarrow> encode_bech32 (drop 2 b) ''bc'' 0
      | P2WSH \<Rightarrow> encode_bech32 (drop 2 b) ''bc'' 0
      | P2TR \<Rightarrow> encode_bech32 (drop 2 b) ''bc'' 1
      | _ \<Rightarrow> Inr [])"

section \<open>scriptSigs\<close>

definition p2pk_sig_matches :: "bytes \<Rightarrow> bool result" where
  "p2pk_sig_matches b = bindR (index_at b 0) (\<lambda>script_len. Inr (unat script_len = length (drop 1 b)))"

definition p2pkh_sig_matches :: "bytes \<Rightarrow> bool result" where
  "p2pkh_sig_matches b =
     (if length b < 2 then Inr False
      else let sig_len = unat (b ! 0); offset = 1 + sig_len in
        if offset \<ge> length b then Inr False
        else let sig = take sig_len (drop 1 b); pubkey_len = unat (b ! offset);
                 pubkey_end = offset + 1 + pubkey_len;
                 pubkey = take pubkey_len (drop (offset + 1) b) in
          Inr (0x01 \<le> sig_len \<and> sig_len \<le> 0x4b \<and> length sig = sig_len
            \<and> (pubkey_len = 33 \<or> pubkey_len = 65) \<and> length pubkey = pubkey_len
            \<and> pubkey_end = length b))"

text \<open>The walk over the pushed signatures; \<^verbatim>\<open>scriptsig[0]\<close> raises on an empty rest.\<close>

function p2ms_sig_walk :: "bytes \<Rightarrow> bool result" where
  "p2ms_sig_walk [] = Inl IndexError"
| "p2ms_sig_walk (b # rest) =
     (let opcode = unat b in
      if \<not> (0x01 \<le> opcode \<and> opcode \<le> 0x4b) then Inr False
      else let item = take opcode rest in
        if item = [] \<or> hd item \<noteq> 0x30 then Inr False
        else if drop opcode rest = [] then Inr True
        else p2ms_sig_walk (drop opcode rest))"
  by pat_completeness auto
termination by (relation "measure length") auto

definition p2ms_sig_matches :: "bytes \<Rightarrow> bool result" where
  "p2ms_sig_matches b =
     bindR (index_at b 0) (\<lambda>b0. if b0 \<noteq> 0 then Inr False else p2ms_sig_walk (drop 1 b))"

text \<open>The backwards loop; \<open>Suc i\<close> stands for the loop at index \<open>i\<close>.\<close>

fun p2sh_sig_scan :: "bytes \<Rightarrow> nat \<Rightarrow> bool" where
  "p2sh_sig_scan b 0 = False"
| "p2sh_sig_scan b (Suc i) =
     (let push_len = unat (b ! i) in
      if 1 \<le> push_len \<and> push_len \<le> 0x4b \<and> length b - (i + 1) = push_len then True
      else p2sh_sig_scan b i)"

definition p2sh_sig_matches :: "bytes \<Rightarrow> bool result" where
  "p2sh_sig_matches b = Inr (b \<noteq> [] \<and> p2sh_sig_scan b (length b))"

definition p2sh_p2wpkh_sig_matches :: "bytes \<Rightarrow> bool result" where
  "p2sh_p2wpkh_sig_matches b = bindR (index_at b 0) (\<lambda>b0. Inr (b0 = 0x16))"

definition SCRIPTSIG_CLASSIFIERS :: "(script_type \<times> (bytes \<Rightarrow> bool result)) list" where
  "SCRIPTSIG_CLASSIFIERS =
     [(P2SH_P2WPKH, p2sh_p2wpkh_sig_matches), (P2MS, p2ms_sig_matches), (P2SH, p2sh_sig_matches),
      (P2PKH, p2pkh_sig_matches), (P2PK, p2pk_sig_matches)]"

fun first_sig_match :: "(script_type \<times> (bytes \<Rightarrow> bool result)) list \<Rightarrow> bytes \<Rightarrow> script_type result" where
  "first_sig_match [] b = Inl ScriptSigError"
| "first_sig_match ((t, matches) # cs) b =
     bindR (matches b) (\<lambda>m. if m then Inr t else first_sig_match cs b)"

definition get_scriptsig_type :: "bytes \<Rightarrow> script_type result" where
  "get_scriptsig_type b = first_sig_match SCRIPTSIG_CLASSIFIERS b"

text \<open>Every \<^verbatim>\<open>from_bytes\<close> checks \<^verbatim>\<open>matches\<close> again and keeps the bytes.\<close>

definition classify_scriptsig :: "bytes \<Rightarrow> script_obj result" where
  "classify_scriptsig b = bindR (get_scriptsig_type b) (\<lambda>t. Inr (mk_script t b))"

definition p2pk_sig :: "bytes \<Rightarrow> script_obj result" where
  "p2pk_sig sig = bindR (encode_pushdata sig) (\<lambda>b. Inr (mk_script P2PK b))"

definition p2pkh_sig :: "bytes \<Rightarrow> bytes \<Rightarrow> script_obj result" where
  "p2pkh_sig sig pubkey =
     bindR (guardR (pubkey_length_ok (length pubkey)) ScriptSigError) (\<lambda>_.
     bindR (encode_pushdata sig) (\<lambda>s. bindR (encode_pushdata pubkey) (\<lambda>k. Inr (mk_script P2PKH (s @ k)))))"

definition p2ms_sig :: "bytes list \<Rightarrow> script_obj result" where
  "p2ms_sig signatures =
     bindR (write_all encode_pushdata signatures) (\<lambda>s. Inr (mk_script P2MS ([0x00] @ s)))"

text \<open>The list form of the constructor.\<close>

definition p2sh_sig :: "bytes list \<Rightarrow> bytes \<Rightarrow> script_obj result" where
  "p2sh_sig signatures redeem_script =
     bindR (write_all encode_pushdata signatures) (\<lambda>s.
     bindR (encode_pushdata redeem_script) (\<lambda>r. Inr (mk_script P2SH (s @ r))))"

text \<open>The constructor given bytes takes them as they are; only a list of signatures is pushed.\<close>

definition p2sh_sig_bytes :: "bytes \<Rightarrow> bytes \<Rightarrow> script_obj result" where
  "p2sh_sig_bytes signatures redeem_script =
     bindR (encode_pushdata redeem_script) (\<lambda>r. Inr (mk_script P2SH (signatures @ r)))"

definition p2sh_p2wpkh_sig :: "bytes \<Rightarrow> script_obj" where
  "p2sh_p2wpkh_sig p2wpkh_script = mk_script P2SH_P2WPKH ([0x16] @ p2wpkh_script)"

section \<open>Standard templates: standard\_templates.py\<close>

datatype template = T_P2SH | T_P2WPKH | T_P2WSH | T_P2TR_KEY_PATH | T_P2TR_SCRIPT_PATH

definition program_length :: "template \<Rightarrow> nat" where
  "program_length t = (case t of T_P2SH \<Rightarrow> 20 | T_P2WPKH \<Rightarrow> 20 | _ \<Rightarrow> 32)"

definition build_script :: "template \<Rightarrow> bytes \<Rightarrow> script_obj result" where
  "build_script t program =
     (case t of T_P2SH \<Rightarrow> p2sh_key program | T_P2WPKH \<Rightarrow> p2wpkh_key program
      | T_P2WSH \<Rightarrow> p2wsh_key program
      | _ \<Rightarrow> (case p2tr_from_bytes ([0x51, 0x20] @ program) of
            Inr k \<Rightarrow> Inr k
          | Inl e \<Rightarrow> Inl (if e \<in> {PubKeyError, ScriptPubKeyError, TypeError, ValueError} then ValueError
                         else e)))"

record standard_script =
  ss_template :: template
  ss_type :: script_type
  ss_script_pubkey :: bytes
  ss_address :: string

definition build_standard_script :: "hashes \<Rightarrow> template \<Rightarrow> bytes \<Rightarrow> standard_script result" where
  "build_standard_script H t program =
     bindR (guardR (length program = program_length t) ValueError) (\<lambda>_.
     bindR (build_script t program) (\<lambda>k.
     bindR (address H k) (\<lambda>a.
       Inr \<lparr>ss_template = t, ss_type = sc_kind k, ss_script_pubkey = sc_bytes k, ss_address = a\<rparr>)))"

section \<open>Spend classification: spend\_classification.py\<close>

datatype spend_type =
  S_P2PK | S_P2PKH | S_P2SH | S_P2SH_P2WPKH | S_P2SH_P2WSH | S_P2WPKH | S_P2WSH
  | S_P2TR_KEY_PATH | S_P2TR_SCRIPT_PATH | S_UNKNOWN

record spend_classification =
  output_type :: "script_type option"
  spend_type_of :: spend_type
  redeem_script :: "bytes option"

definition direct_types :: "script_type \<Rightarrow> spend_type option" where
  "direct_types t = map_of [(P2PK, S_P2PK), (P2PKH, S_P2PKH), (P2SH, S_P2SH), (P2WPKH, S_P2WPKH),
     (P2WSH, S_P2WSH)] t"

definition is_nested :: "spend_classification \<Rightarrow> bool" where
  "is_nested c \<longleftrightarrow> spend_type_of c = S_P2SH_P2WPKH \<or> spend_type_of c = S_P2SH_P2WSH"

definition single_direct_push :: "bytes \<Rightarrow> bytes option" where
  "single_direct_push script_sig =
     (case script_sig of [] \<Rightarrow> None
      | b # rest \<Rightarrow>
          if \<not> (1 \<le> unat b \<and> unat b \<le> 75) \<or> length script_sig \<noteq> unat b + 1 then None else Some rest)"

definition is_v0_witness_program :: "bytes \<Rightarrow> nat \<Rightarrow> bool" where
  "is_v0_witness_program s n \<longleftrightarrow> length s = n + 2 \<and> s ! 0 = 0 \<and> unat (s ! 1) = n"

definition classify_taproot_path :: "bytes list \<Rightarrow> spend_type" where
  "classify_taproot_path witness =
     (let stack = (if length witness \<ge> 2 \<and> take 1 (last witness) = [0x50] then butlast witness else witness)
      in if length stack = 1 then S_P2TR_KEY_PATH
         else if length stack \<ge> 2 \<and> length (last stack) \<ge> 33 \<and> (length (last stack) - 33) mod 32 = 0
         then S_P2TR_SCRIPT_PATH else S_UNKNOWN)"

text \<open>The matchers raise nothing, so the only exception caught is \<^verbatim>\<open>ScriptPubKeyError\<close>.\<close>

definition classify_spend :: "bytes \<Rightarrow> bytes \<Rightarrow> bytes list \<Rightarrow> spend_classification" where
  "classify_spend script_pubkey script_sig witness =
     (case get_scriptpubkey_type script_pubkey of
        Inl e \<Rightarrow> \<lparr>output_type = None, spend_type_of = S_UNKNOWN, redeem_script = None\<rparr>
      | Inr t \<Rightarrow>
          if t = P2SH then
            let r = single_direct_push script_sig;
                s = (case r of None \<Rightarrow> S_P2SH
                     | Some p \<Rightarrow> if is_v0_witness_program p 20 then S_P2SH_P2WPKH
                                else if is_v0_witness_program p 32 then S_P2SH_P2WSH else S_P2SH)
            in \<lparr>output_type = Some t, spend_type_of = s, redeem_script = r\<rparr>
          else if t = P2TR then
            \<lparr>output_type = Some t, spend_type_of = classify_taproot_path witness, redeem_script = None\<rparr>
          else \<lparr>output_type = Some t,
             spend_type_of = (case direct_types t of None \<Rightarrow> S_UNKNOWN | Some s \<Rightarrow> s),
             redeem_script = None\<rparr>)"

end
