(* ===== verification/Transactions.thy ===== *)
theory Transactions
  imports Byte_Stream Hash_Functions
begin

text \<open>
  \<^verbatim>\<open>src/src/tx/tx.py\<close>: inputs, outputs, witnesses, UTXOs, transactions and loaded transactions,
  with their wire format, identifiers, weight and fee. The object's \<^verbatim>\<open>_cache\<close> memoises values of
  the fields. It is left out of the state, since the modelled code never assigns to a field of a transaction after one of its
  cached values was read: the only assignments, those of \<^verbatim>\<open>get_legacy_sighash\<close>, are to a fresh copy. A caller that
  did so would read stale values, for nothing calls \<^verbatim>\<open>_invalidate_cache\<close>. \<^verbatim>\<open>to_dict\<close>, \<^verbatim>\<open>to_data\<close> (display) are not modelled.

  The codec interface is interpreted on every serialisable class.
\<close>

text \<open>\<^verbatim>\<open>b''.join(parts)\<close>, where building a part may raise.\<close>

definition joinR :: "bytes result list \<Rightarrow> bytes result" where
  "joinR parts = write_all (\<lambda>p. p) parts"

lemma joinR_simps [simp]:
  "joinR [] = Inr []"
  "joinR (p # ps) = bindR p (\<lambda>b. bindR (joinR ps) (\<lambda>bs. Inr (b @ bs)))"
  by (simp_all add: joinR_def)

section \<open>TxIn\<close>

record tx_in =
  in_txid :: bytes
  in_vout :: int
  in_scriptsig :: bytes
  in_sequence :: int

definition txin_outpoint :: "tx_in \<Rightarrow> bytes result" where
  "txin_outpoint i = bindR (to_bytes_le 4 (in_vout i)) (\<lambda>v. Inr (in_txid i @ v))"

definition txin_from_bytes :: "bytes \<Rightarrow> (tx_in \<times> bytes) result" where
  "txin_from_bytes stream =
     bindR (read_stream 32 stream) (\<lambda>(txid, s1).
     bindR (read_little_int 4 s1) (\<lambda>(vout, s2).
     bindR (read_compact_size s2) (\<lambda>(scriptsig_size, s3).
     bindR (read_stream (nat scriptsig_size) s3) (\<lambda>(scriptsig, s4).
     bindR (read_little_int 4 s4) (\<lambda>(sequence, s5).
       Inr (\<lparr>in_txid = txid, in_vout = vout, in_scriptsig = scriptsig, in_sequence = sequence\<rparr>, s5))))))"

definition txin_to_bytes :: "tx_in \<Rightarrow> bytes result" where
  "txin_to_bytes i =
     joinR [Inr (in_txid i), to_bytes_le 4 (in_vout i),
            write_compact_size (int (length (in_scriptsig i))), Inr (in_scriptsig i),
            to_bytes_le 4 (in_sequence i)]"

definition txin_wf :: "tx_in \<Rightarrow> bool" where
  "txin_wf i \<longleftrightarrow> length (in_txid i) = 32"

section \<open>TxOut\<close>

record tx_out =
  out_amount :: int
  out_scriptpubkey :: bytes

definition txout_from_bytes :: "bytes \<Rightarrow> (tx_out \<times> bytes) result" where
  "txout_from_bytes stream =
     bindR (read_little_int 8 stream) (\<lambda>(amount, s1).
     bindR (deserialize_data s1) (\<lambda>(scriptpubkey, s2).
       Inr (\<lparr>out_amount = amount, out_scriptpubkey = scriptpubkey\<rparr>, s2)))"

definition txout_to_bytes :: "tx_out \<Rightarrow> bytes result" where
  "txout_to_bytes t = joinR [to_bytes_le 8 (out_amount t), serialize_data (out_scriptpubkey t)]"

section \<open>Witness\<close>

type_synonym witness = "bytes list"

definition witness_from_bytes :: "bytes \<Rightarrow> (witness \<times> bytes) result" where
  "witness_from_bytes stream =
     bindR (read_compact_size stream) (\<lambda>(stack_items, s1).
       read_many deserialize_data (nat stack_items) s1)"

definition witness_to_bytes :: "witness \<Rightarrow> bytes result" where
  "witness_to_bytes items =
     bindR (write_all serialize_data items) (\<lambda>item_bytes.
     bindR (write_compact_size (int (length items))) (\<lambda>n. Inr (n @ item_bytes)))"

section \<open>UTXO\<close>

record utxo =
  u_outpoint :: bytes
  u_amount :: int
  u_scriptpubkey :: bytes
  u_block_height :: int
  u_is_coinbase :: bool

definition utxo_from_txoutput :: "bytes \<Rightarrow> tx_out \<Rightarrow> int \<Rightarrow> bool \<Rightarrow> utxo" where
  "utxo_from_txoutput outpoint t height coinbase =
     \<lparr>u_outpoint = outpoint, u_amount = out_amount t, u_scriptpubkey = out_scriptpubkey t,
      u_block_height = height, u_is_coinbase = coinbase\<rparr>"

definition utxo_from_bytes :: "bytes \<Rightarrow> (utxo \<times> bytes) result" where
  "utxo_from_bytes stream =
     bindR (read_stream 36 stream) (\<lambda>(outpoint, s1).
     bindR (read_little_int 8 s1) (\<lambda>(amount, s2).
     bindR (read_compact_size s2) (\<lambda>(script_len, s3).
     bindR (read_stream (nat script_len) s3) (\<lambda>(scriptpubkey, s4).
     bindR (read_little_int 4 s4) (\<lambda>(block_height, s5).
     bindR (read_little_int 1 s5) (\<lambda>(coinbase, s6).
       Inr (\<lparr>u_outpoint = outpoint, u_amount = amount, u_scriptpubkey = scriptpubkey,
             u_block_height = block_height, u_is_coinbase = (coinbase \<noteq> 0)\<rparr>, s6)))))))"

definition utxo_to_bytes :: "utxo \<Rightarrow> bytes result" where
  "utxo_to_bytes u =
     joinR [Inr (u_outpoint u), to_bytes_le 8 (u_amount u),
            write_compact_size (int (length (u_scriptpubkey u))), Inr (u_scriptpubkey u),
            to_bytes_le 4 (u_block_height u), to_bytes_le 1 (of_bool (u_is_coinbase u))]"

definition utxo_wf :: "utxo \<Rightarrow> bool" where
  "utxo_wf u \<longleftrightarrow> length (u_outpoint u) = 36"

section \<open>Tx\<close>

record tx =
  t_inputs :: "tx_in list"
  t_outputs :: "tx_out list"
  t_witness :: "witness list"
  t_locktime :: int
  t_version :: int

definition tx_is_segwit :: "tx \<Rightarrow> bool" where
  "tx_is_segwit t \<longleftrightarrow> length (t_witness t) > 0"

text \<open>The list of truth values is built eagerly, so no input at all raises \<^verbatim>\<open>IndexError\<close>.\<close>

definition tx_is_coinbase :: "tx \<Rightarrow> bool result" where
  "tx_is_coinbase t =
     bindR (index_at (t_inputs t) 0) (\<lambda>i.
       Inr (length (t_inputs t) = 1 \<and> in_txid i = replicate 32 0 \<and> in_vout i = 0xffffffff))"

definition get_input_bytes :: "tx \<Rightarrow> bytes result" where
  "get_input_bytes t =
     bindR (write_compact_size (int (length (t_inputs t)))) (\<lambda>n.
     bindR (write_all txin_to_bytes (t_inputs t)) (\<lambda>b. Inr (n @ b)))"

definition get_output_bytes :: "tx \<Rightarrow> bytes result" where
  "get_output_bytes t =
     bindR (write_compact_size (int (length (t_outputs t)))) (\<lambda>n.
     bindR (write_all txout_to_bytes (t_outputs t)) (\<lambda>b. Inr (n @ b)))"

definition get_witness_bytes :: "tx \<Rightarrow> bytes result" where
  "get_witness_bytes t = write_all witness_to_bytes (t_witness t)"

definition tx_to_bytes :: "tx \<Rightarrow> bytes result" where
  "tx_to_bytes t =
     joinR ([to_bytes_le 4 (t_version t)]
       @ (if tx_is_segwit t then [Inr [0x00, 0x01]] else [])
       @ [get_input_bytes t, get_output_bytes t]
       @ (if tx_is_segwit t then [get_witness_bytes t] else [])
       @ [to_bytes_le 4 (t_locktime t)])"

definition get_txid_preimage :: "tx \<Rightarrow> bytes result" where
  "get_txid_preimage t =
     (if tx_is_segwit t
      then joinR [to_bytes_le 4 (t_version t), get_input_bytes t, get_output_bytes t,
                  to_bytes_le 4 (t_locktime t)]
      else tx_to_bytes t)"

definition get_wtxid_preimage :: "tx \<Rightarrow> bytes result" where
  "get_wtxid_preimage t =
     (if tx_is_segwit t
      then joinR [to_bytes_le 4 (t_version t), Inr [0x00, 0x01], get_input_bytes t,
                  get_output_bytes t, to_bytes_le 4 (t_locktime t), get_witness_bytes t]
      else tx_to_bytes t)"

definition tx_txid :: "hashes \<Rightarrow> tx \<Rightarrow> bytes result" where
  "tx_txid H t = bindR (get_txid_preimage t) (\<lambda>p. Inr (hash256 H p))"

definition tx_wtxid :: "hashes \<Rightarrow> tx \<Rightarrow> bytes result" where
  "tx_wtxid H t = bindR (get_wtxid_preimage t) (\<lambda>p. Inr (hash256 H p))"

fun utxo_list_from :: "bytes \<Rightarrow> int \<Rightarrow> int \<Rightarrow> tx_out list \<Rightarrow> utxo list result" where
  "utxo_list_from txid height vout [] = Inr []"
| "utxo_list_from txid height vout (t # ts) =
     bindR (to_bytes_le 4 vout) (\<lambda>v.
     bindR (utxo_list_from txid height (vout + 1) ts) (\<lambda>us.
       Inr (utxo_from_txoutput (txid @ v) t height False # us)))"

definition get_utxo_list :: "hashes \<Rightarrow> tx \<Rightarrow> int \<Rightarrow> utxo list result" where
  "get_utxo_list H t height =
     (if t_outputs t = [] then Inr []
      else bindR (tx_txid H t) (\<lambda>txid. utxo_list_from txid height 0 (t_outputs t)))"

text \<open>\<^verbatim>\<open>sum(x.length for x in xs)\<close>: the lengths of the serialised elements.\<close>

fun sum_lengths :: "('a \<Rightarrow> bytes result) \<Rightarrow> 'a list \<Rightarrow> int result" where
  "sum_lengths f [] = Inr 0"
| "sum_lengths f (x # xs) =
     bindR (f x) (\<lambda>b. bindR (sum_lengths f xs) (\<lambda>n. Inr (int (length b) + n)))"

definition tx_wu :: "tx \<Rightarrow> int result" where
  "tx_wu t =
     (if tx_is_segwit t then
        bindR (sum_lengths txin_to_bytes (t_inputs t)) (\<lambda>input_length.
        bindR (sum_lengths txout_to_bytes (t_outputs t)) (\<lambda>output_length.
        bindR (sum_lengths witness_to_bytes (t_witness t)) (\<lambda>witness_length.
        bindR (write_compact_size (int (length (t_inputs t)))) (\<lambda>ni.
        bindR (write_compact_size (int (length (t_outputs t)))) (\<lambda>no.
          Inr (4 * (4 + int (length ni) + input_length + int (length no) + output_length + 4)
               + (witness_length + 2)))))))
      else bindR (tx_to_bytes t) (\<lambda>b. Inr (int (length b) * 4)))"

definition tx_vbytes :: "tx \<Rightarrow> int result" where
  "tx_vbytes t = bindR (tx_wu t) (\<lambda>wu. Inr ((wu + 3) div 4))"

text \<open>
  \<^verbatim>\<open>stream.seek(-1, SEEK_CUR)\<close> after reading the marker: with no marker byte left, the stream steps
  back over the last byte of the version.
\<close>

definition tx_from_bytes :: "bytes \<Rightarrow> (tx \<times> bytes) result" where
  "tx_from_bytes stream =
     bindR (read_little_int 4 stream) (\<lambda>(version, s1).
     bindR (if take 1 s1 = [0x00]
            then (if take 1 (drop 1 s1) \<noteq> [0x01] then Inl ValueError else Inr (True, drop 2 s1))
            else Inr (False, if s1 = [] then drop 3 stream else s1)) (\<lambda>(segwit, s2).
     bindR (read_compact_size s2) (\<lambda>(num_inputs, s3).
     bindR (read_many txin_from_bytes (nat num_inputs) s3) (\<lambda>(inputs, s4).
     bindR (read_compact_size s4) (\<lambda>(num_outputs, s5).
     bindR (read_many txout_from_bytes (nat num_outputs) s5) (\<lambda>(outputs, s6).
     bindR (if segwit then read_many witness_from_bytes (nat num_inputs) s6 else Inr ([], s6))
       (\<lambda>(witness, s7).
     bindR (read_little_int 4 s7) (\<lambda>(locktime, s8).
       Inr (\<lparr>t_inputs = inputs, t_outputs = outputs, t_witness = witness, t_locktime = locktime,
             t_version = version\<rparr>, s8)))))))))"

text \<open>
  The transactions the wire format can carry: 32-byte previous txids, at least one input (no input
  is read as the SegWit marker), and one witness per input or none at all.
\<close>

definition tx_wf :: "tx \<Rightarrow> bool" where
  "tx_wf t \<longleftrightarrow> t_inputs t \<noteq> [] \<and> list_all txin_wf (t_inputs t)
     \<and> (t_witness t = [] \<or> length (t_witness t) = length (t_inputs t))"

definition tx_clone :: "tx \<Rightarrow> tx result" where
  "tx_clone t = bindR (tx_to_bytes t) (\<lambda>b. bindR (tx_from_bytes b) (\<lambda>(t', _). Inr t'))"

section \<open>LoadedTx\<close>

record loaded_tx =
  l_tx :: tx
  l_utxos :: "utxo list"

fun check_outpoints :: "tx_in list \<Rightarrow> utxo list \<Rightarrow> unit result" where
  "check_outpoints (i # is) (u # us) =
     bindR (txin_outpoint i) (\<lambda>o1.
       if u_outpoint u \<noteq> o1 then Inl ValueError else check_outpoints is us)"
| "check_outpoints _ _ = Inr ()"

definition load_tx :: "tx \<Rightarrow> utxo list option \<Rightarrow> loaded_tx result" where
  "load_tx t utxos =
     (case utxos of
        None \<Rightarrow> Inl ValueError
      | Some us \<Rightarrow>
          if length us \<noteq> length (t_inputs t) then Inl ValueError
          else bindR (check_outpoints (t_inputs t) us) (\<lambda>_. Inr \<lparr>l_tx = t, l_utxos = us\<rparr>))"

definition input_total :: "loaded_tx \<Rightarrow> int" where
  "input_total l = sum_list (map u_amount (l_utxos l))"

definition output_total :: "loaded_tx \<Rightarrow> int" where
  "output_total l = sum_list (map out_amount (t_outputs (l_tx l)))"

text \<open>
  A negative fee raises: \<^verbatim>\<open>TransactionError\<close>, whose message formats the txid, so a transaction
  without one raises that exception instead.
\<close>

definition tx_fee :: "hashes \<Rightarrow> loaded_tx \<Rightarrow> int result" where
  "tx_fee H l =
     (let fee = input_total l - output_total l
      in if fee < 0 then bindR (tx_txid H (l_tx l)) (\<lambda>_. Inl TransactionError) else Inr fee)"

definition utxo_for_input :: "loaded_tx \<Rightarrow> nat \<Rightarrow> utxo result" where
  "utxo_for_input l i = index_at (l_utxos l) i"

section \<open>Codecs\<close>

lemma txin_round_trip:
  "txin_wf i \<Longrightarrow> txin_to_bytes i = Inr bs \<Longrightarrow> txin_from_bytes (bs @ rest) = Inr (i, rest)"
  by (auto simp: txin_wf_def txin_to_bytes_def txin_from_bytes_def stream_simps)

lemma txout_round_trip:
  "txout_to_bytes t = Inr bs \<Longrightarrow> txout_from_bytes (bs @ rest) = Inr (t, rest)"
  by (auto simp: txout_to_bytes_def txout_from_bytes_def stream_simps)

lemma read_many_data:
  "write_all serialize_data w = Inr x \<Longrightarrow> read_many deserialize_data (length w) (x @ rest) = Inr (w, rest)"
  by (rule data.read_many_write_all) (simp_all add: list_all_iff)

lemma witness_round_trip:
  "witness_to_bytes w = Inr bs \<Longrightarrow> witness_from_bytes (bs @ rest) = Inr (w, rest)"
  by (auto simp: witness_to_bytes_def witness_from_bytes_def stream_simps read_many_data)

lemma utxo_round_trip:
  assumes "utxo_wf u" and "utxo_to_bytes u = Inr bs"
  shows "utxo_from_bytes (bs @ rest) = Inr (u, rest)"
proof -
  have cb: "read_little_int (Suc 0) (c @ r) = Inr (of_bool (u_is_coinbase u), r)"
    if "to_bytes_le (Suc 0) (of_bool (u_is_coinbase u)) = Inr c" for c r
    using that by (rule read_little_int_to_bytes)
  show ?thesis using assms
    by (auto simp: utxo_wf_def utxo_to_bytes_def utxo_from_bytes_def stream_simps cb)
qed

interpretation txin: codec txin_to_bytes txin_from_bytes txin_wf
  by unfold_locales (rule txin_round_trip)

interpretation txout: codec txout_to_bytes txout_from_bytes "\<lambda>_. True"
  by unfold_locales (rule txout_round_trip)

interpretation wit: codec witness_to_bytes witness_from_bytes "\<lambda>_. True"
  by unfold_locales (rule witness_round_trip)

interpretation utxo: codec utxo_to_bytes utxo_from_bytes utxo_wf
  by unfold_locales (rule utxo_round_trip)

end
