(* ===== verification/Chain_Params.thy ===== *)
theory Chain_Params
  imports Prelude
begin

unbundle bit_operations_syntax

text \<open>
  \<^verbatim>\<open>src/src/core/chainparams.py\<close>: script verification flags (an \<^verbatim>\<open>IntFlag\<close>, kept as the integer it
  is), the consensus parameters of a network and the parameters of the four networks. Hashes are
  written in hexadecimal as in the source and reversed as the code reverses them.
\<close>

section \<open>Flags\<close>

definition FLAG_NONE :: int where "FLAG_NONE = 0"
definition FLAG_P2SH :: int where "FLAG_P2SH = 1"
definition FLAG_DERSIG :: int where "FLAG_DERSIG = 2"
definition FLAG_CHECKLOCKTIMEVERIFY :: int where "FLAG_CHECKLOCKTIMEVERIFY = 4"
definition FLAG_WITNESS :: int where "FLAG_WITNESS = 8"
definition FLAG_TAPROOT :: int where "FLAG_TAPROOT = 16"
definition FLAG_STRICTENC :: int where "FLAG_STRICTENC = 256"
definition FLAG_MINIMALDATA :: int where "FLAG_MINIMALDATA = 512"
definition FLAG_NULLDUMMY :: int where "FLAG_NULLDUMMY = 1024"
definition FLAG_CLEANSTACK :: int where "FLAG_CLEANSTACK = 2048"

definition STANDARD_POLICY_FLAGS :: int where
  "STANDARD_POLICY_FLAGS = FLAG_STRICTENC OR FLAG_MINIMALDATA OR FLAG_NULLDUMMY OR FLAG_CLEANSTACK"

definition ALL_CONSENSUS_FLAGS :: int where
  "ALL_CONSENSUS_FLAGS = FLAG_P2SH OR FLAG_DERSIG OR FLAG_CHECKLOCKTIMEVERIFY OR FLAG_WITNESS OR FLAG_TAPROOT"

text \<open>\<^verbatim>\<open>bool(flags & flag)\<close>.\<close>

definition flag_on :: "int \<Rightarrow> int \<Rightarrow> bool" where
  "flag_on flags flag \<longleftrightarrow> flags AND flag \<noteq> 0"

lemmas flag_defs = FLAG_NONE_def FLAG_P2SH_def FLAG_DERSIG_def FLAG_CHECKLOCKTIMEVERIFY_def
  FLAG_WITNESS_def FLAG_TAPROOT_def FLAG_STRICTENC_def FLAG_MINIMALDATA_def FLAG_NULLDUMMY_def
  FLAG_CLEANSTACK_def STANDARD_POLICY_FLAGS_def ALL_CONSENSUS_FLAGS_def flag_on_def

section \<open>Networks\<close>

datatype network_name = MAINNET | TESTNET | REGTEST | SIGNET

definition hex_value :: "char \<Rightarrow> nat" where
  "hex_value c = (let n = of_char c :: nat in if n \<le> 57 then n - 48 else n - 87)"

text \<open>\<^verbatim>\<open>bytes.fromhex\<close> on lower-case digits.\<close>

fun from_hex :: "string \<Rightarrow> bytes" where
  "from_hex (a # b # cs) = word_of_nat (16 * hex_value a + hex_value b) # from_hex cs"
| "from_hex _ = []"

definition internal_hash :: "string \<Rightarrow> bytes" where
  "internal_hash display_hash = rev (from_hex display_hash)"

record chain_params =
  cp_network :: network_name
  genesis_hash :: bytes
  bip16_activation_time :: int
  bip34_height :: int
  bip65_height :: int
  bip66_height :: int
  segwit_height :: int
  taproot_height :: int
  script_flag_exceptions :: "(bytes \<times> int) list"
  bip30_exceptions :: "(int \<times> bytes) list"
  checkpoints :: "(int \<times> bytes) list"

definition consensus_script_flags :: "chain_params \<Rightarrow> int \<Rightarrow> int option \<Rightarrow> bytes option \<Rightarrow> int" where
  "consensus_script_flags P height block_time block_hash =
     (case Option.bind block_hash (map_of (script_flag_exceptions P)) of
        Some flags \<Rightarrow> flags
      | None \<Rightarrow>
          FLAG_NONE
          OR (if block_time = None \<or> the block_time \<ge> bip16_activation_time P then FLAG_P2SH else 0)
          OR (if height \<ge> bip66_height P then FLAG_DERSIG else 0)
          OR (if height \<ge> bip65_height P then FLAG_CHECKLOCKTIMEVERIFY else 0)
          OR (if height \<ge> segwit_height P then FLAG_WITNESS else 0)
          OR (if height \<ge> taproot_height P then FLAG_TAPROOT else 0))"

definition standard_script_flags :: "chain_params \<Rightarrow> int \<Rightarrow> int option \<Rightarrow> bytes option \<Rightarrow> int" where
  "standard_script_flags P height block_time block_hash =
     consensus_script_flags P height block_time block_hash OR STANDARD_POLICY_FLAGS"

definition is_bip30_exception :: "chain_params \<Rightarrow> int \<Rightarrow> bytes \<Rightarrow> bool" where
  "is_bip30_exception P height block_hash \<longleftrightarrow> map_of (bip30_exceptions P) height = Some block_hash"

definition checkpoint_matches :: "chain_params \<Rightarrow> int \<Rightarrow> bytes \<Rightarrow> bool" where
  "checkpoint_matches P height block_hash =
     (case map_of (checkpoints P) height of None \<Rightarrow> True | Some expected \<Rightarrow> expected = block_hash)"

section \<open>Parameters of the networks\<close>

definition MAINNET_BIP16_EXCEPTION :: bytes where
  "MAINNET_BIP16_EXCEPTION = internal_hash
     ''00000000000002dc756eebf4f49723ed8d30cc28a5f108eb94b1ba88ac4f9c22''"

definition MAINNET_TAPROOT_EXCEPTION :: bytes where
  "MAINNET_TAPROOT_EXCEPTION = internal_hash
     ''0000000000000000000f14c35b2d841e986ab5441de8c585d5ffe55ea1e395ad''"

definition TESTNET_BIP16_EXCEPTION :: bytes where
  "TESTNET_BIP16_EXCEPTION = internal_hash
     ''00000000dd30457c001f4095d208cc1296b0eed002427aa599874af7a432b105''"

definition MAINNET_CHAIN_PARAMS :: chain_params where
  "MAINNET_CHAIN_PARAMS = \<lparr>
     cp_network = MAINNET,
     genesis_hash = internal_hash ''000000000019d6689c085ae165831e934ff763ae46a2a6c172b3f1b60a8ce26f'',
     bip16_activation_time = 1333238400,
     bip34_height = 227931,
     bip65_height = 388381,
     bip66_height = 363725,
     segwit_height = 481824,
     taproot_height = 709632,
     script_flag_exceptions = [
       (MAINNET_BIP16_EXCEPTION, FLAG_NONE),
       (MAINNET_TAPROOT_EXCEPTION, FLAG_P2SH OR FLAG_WITNESS)],
     bip30_exceptions = [
       (91842, internal_hash ''00000000000a4d0a398161ffc163c503763b1f4360639393e0e4c8e300e0caec''),
       (91880, internal_hash ''00000000000743f190a18c5577a3c2d2a1f610ae9601ac046a38084ccb7cd721'')],
     checkpoints = [
       (0, internal_hash ''000000000019d6689c085ae165831e934ff763ae46a2a6c172b3f1b60a8ce26f''),
       (91842, internal_hash ''00000000000a4d0a398161ffc163c503763b1f4360639393e0e4c8e300e0caec''),
       (91880, internal_hash ''00000000000743f190a18c5577a3c2d2a1f610ae9601ac046a38084ccb7cd721''),
       (227931, internal_hash ''000000000000024b89b42a942fe0d9fea3bb44ab7bd1b19115dd6a759c0808b8''),
       (363725, internal_hash ''00000000000000000379eaa19dce8c9b722d46ae6a57c2f1a988119488b50931''),
       (388381, internal_hash ''000000000000000004c2b624ed5d7756c508d90fd0da2c7c679febfa6c4735f0''),
       (419328, internal_hash ''000000000000000004a1b34462cb8aeebd5799177f7a29cf28f2d1961716b5b5''),
       (481824, internal_hash ''0000000000000000001c8018d9cb3b742ef25114f27563e3fc4a1902167f9893''),
       (692261, MAINNET_TAPROOT_EXCEPTION)]\<rparr>"

definition TESTNET_CHAIN_PARAMS :: chain_params where
  "TESTNET_CHAIN_PARAMS = \<lparr>
     cp_network = TESTNET,
     genesis_hash = internal_hash ''000000000933ea01ad0ee984209779baaec3ced90fa3f408719526f8d77f4943'',
     bip16_activation_time = 1333238400,
     bip34_height = 21111,
     bip65_height = 581885,
     bip66_height = 330776,
     segwit_height = 834624,
     taproot_height = 2011968,
     script_flag_exceptions = [(TESTNET_BIP16_EXCEPTION, FLAG_NONE)],
     bip30_exceptions = [],
     checkpoints = []\<rparr>"

definition REGTEST_CHAIN_PARAMS :: chain_params where
  "REGTEST_CHAIN_PARAMS = \<lparr>
     cp_network = REGTEST,
     genesis_hash = internal_hash ''0f9188f13cb7b2c71f2a335e3a4fc328bf5beb436012afca590b1a11466e2206'',
     bip16_activation_time = 0,
     bip34_height = 1,
     bip65_height = 1,
     bip66_height = 1,
     segwit_height = 0,
     taproot_height = 0,
     script_flag_exceptions = [],
     bip30_exceptions = [],
     checkpoints = []\<rparr>"

definition SIGNET_CHAIN_PARAMS :: chain_params where
  "SIGNET_CHAIN_PARAMS = \<lparr>
     cp_network = SIGNET,
     genesis_hash = internal_hash ''00000008819873e925422c1ff0f99f7cc9bbb232af63a077a480a3633bee1ef6'',
     bip16_activation_time = 0,
     bip34_height = 1,
     bip65_height = 1,
     bip66_height = 1,
     segwit_height = 1,
     taproot_height = 0,
     script_flag_exceptions = [],
     bip30_exceptions = [],
     checkpoints = []\<rparr>"

definition get_chain_params :: "network_name \<Rightarrow> chain_params" where
  "get_chain_params n =
     (case n of MAINNET \<Rightarrow> MAINNET_CHAIN_PARAMS | TESTNET \<Rightarrow> TESTNET_CHAIN_PARAMS
      | REGTEST \<Rightarrow> REGTEST_CHAIN_PARAMS | SIGNET \<Rightarrow> SIGNET_CHAIN_PARAMS)"

section \<open>Which flags are on\<close>

lemma flag_on_disj: "flag_on (a OR b) f \<longleftrightarrow> flag_on a f \<or> flag_on b f"
  by (simp add: flag_on_def bit.conj_disj_distrib2 or_eq_0_iff)

text \<open>
  Outside the listed exceptions each consensus flag is on exactly from its activation, and no
  policy flag is on.
\<close>

lemma consensus_flags_schedule:
  assumes "Option.bind h (map_of (script_flag_exceptions P)) = None"
  shows "flag_on (consensus_script_flags P height bt h) FLAG_P2SH
           \<longleftrightarrow> bt = None \<or> the bt \<ge> bip16_activation_time P"
    and "flag_on (consensus_script_flags P height bt h) FLAG_DERSIG \<longleftrightarrow> height \<ge> bip66_height P"
    and "flag_on (consensus_script_flags P height bt h) FLAG_CHECKLOCKTIMEVERIFY
           \<longleftrightarrow> height \<ge> bip65_height P"
    and "flag_on (consensus_script_flags P height bt h) FLAG_WITNESS \<longleftrightarrow> height \<ge> segwit_height P"
    and "flag_on (consensus_script_flags P height bt h) FLAG_TAPROOT \<longleftrightarrow> height \<ge> taproot_height P"
    and "\<not> flag_on (consensus_script_flags P height bt h) STANDARD_POLICY_FLAGS"
  using assms by (simp_all add: consensus_script_flags_def flag_on_disj)
    (simp_all add: flag_defs)

end
