(* ===== verification/Script_Context.thy ===== *)
theory Script_Context
  imports Transactions Chain_Params
begin

text \<open>
  \<^verbatim>\<open>src/src/script/context.py\<close>: the validated inputs of script execution. There are two context
  classes, the typed \<^verbatim>\<open>ScriptExecutionContext\<close> of transaction validation and the legacy adapter
  whose fields may all be missing; the engine reads them through the accessors below.
\<close>

datatype signature_version = BASE | WITNESS_V0 | TAPROOT | TAPSCRIPT

record validation_input =
  vi_tx :: tx
  vi_index :: int
  vi_spent :: "utxo list"
  vi_flags :: int

definition new_validation_input :: "tx \<Rightarrow> int \<Rightarrow> utxo list \<Rightarrow> int \<Rightarrow> validation_input result" where
  "new_validation_input t input_index spent_outputs flags =
     bindR (guardR (\<not> (input_index < 0 \<or> input_index \<ge> int (length (t_inputs t)))) ValueError) (\<lambda>_.
     bindR (guardR (length spent_outputs = length (t_inputs t)) ValueError) (\<lambda>_.
       Inr \<lparr>vi_tx = t, vi_index = input_index, vi_spent = spent_outputs, vi_flags = flags\<rparr>))"

record typed_context =
  tc_validation :: validation_input
  tc_script_code :: "bytes option"
  tc_version :: signature_version
  tc_tapleaf :: "bytes option"

record legacy_context =
  lc_tx :: "tx option"
  lc_index :: "int option"
  lc_utxos :: "utxo list option"
  lc_script_code :: "bytes option"
  lc_tapscript :: bool
  lc_is_segwit :: bool
  lc_merkle_root :: "bytes option"
  lc_flags :: int

datatype exec_context = Typed typed_context | Legacy legacy_context

definition execution_context ::
  "validation_input \<Rightarrow> bytes option \<Rightarrow> signature_version \<Rightarrow> bytes option \<Rightarrow> exec_context" where
  "execution_context v script_code version tapleaf =
     Typed \<lparr>tc_validation = v, tc_script_code = script_code, tc_version = version, tc_tapleaf = tapleaf\<rparr>"

definition default_legacy_context :: legacy_context where
  "default_legacy_context =
     \<lparr>lc_tx = None, lc_index = None, lc_utxos = None, lc_script_code = None, lc_tapscript = False,
      lc_is_segwit = False, lc_merkle_root = None, lc_flags = ALL_CONSENSUS_FLAGS\<rparr>"

section \<open>Accessors\<close>

fun ctx_tx :: "exec_context \<Rightarrow> tx option" where
  "ctx_tx (Typed c) = Some (vi_tx (tc_validation c))"
| "ctx_tx (Legacy c) = lc_tx c"

fun ctx_index :: "exec_context \<Rightarrow> int option" where
  "ctx_index (Typed c) = Some (vi_index (tc_validation c))"
| "ctx_index (Legacy c) = lc_index c"

fun ctx_utxos :: "exec_context \<Rightarrow> utxo list option" where
  "ctx_utxos (Typed c) = Some (vi_spent (tc_validation c))"
| "ctx_utxos (Legacy c) = lc_utxos c"

text \<open>The property \<^verbatim>\<open>utxo\<close>; the legacy one is \<^verbatim>\<open>None\<close> when something is missing.\<close>

fun ctx_utxo :: "exec_context \<Rightarrow> utxo option result" where
  "ctx_utxo (Typed c) =
     bindR (py_index (vi_spent (tc_validation c)) (vi_index (tc_validation c))) (\<lambda>u. Inr (Some u))"
| "ctx_utxo (Legacy c) =
     (case (lc_index c, lc_utxos c) of
        (Some i, Some us) \<Rightarrow>
          if us \<noteq> [] \<and> i < int (length us) then bindR (py_index us i) (\<lambda>u. Inr (Some u)) else Inr None
      | _ \<Rightarrow> Inr None)"

fun ctx_flags :: "exec_context \<Rightarrow> int" where
  "ctx_flags (Typed c) = vi_flags (tc_validation c)"
| "ctx_flags (Legacy c) = lc_flags c"

fun ctx_is_segwit :: "exec_context \<Rightarrow> bool" where
  "ctx_is_segwit (Typed c) = (tc_version c \<in> {WITNESS_V0, TAPROOT, TAPSCRIPT})"
| "ctx_is_segwit (Legacy c) = lc_is_segwit c"

fun ctx_tapscript :: "exec_context \<Rightarrow> bool" where
  "ctx_tapscript (Typed c) = (tc_version c = TAPSCRIPT)"
| "ctx_tapscript (Legacy c) = lc_tapscript c"

fun ctx_merkle_root :: "exec_context \<Rightarrow> bytes option" where
  "ctx_merkle_root (Typed c) = tc_tapleaf c"
| "ctx_merkle_root (Legacy c) = lc_merkle_root c"

fun ctx_script_code :: "exec_context \<Rightarrow> bytes option" where
  "ctx_script_code (Typed c) = tc_script_code c"
| "ctx_script_code (Legacy c) = lc_script_code c"

fun with_script_code :: "exec_context \<Rightarrow> bytes \<Rightarrow> exec_context" where
  "with_script_code (Typed c) b = Typed (c\<lparr>tc_script_code := Some b\<rparr>)"
| "with_script_code (Legacy c) b = Legacy (c\<lparr>lc_script_code := Some b\<rparr>)"

text \<open>
  The two replacements of the engine: \<^verbatim>\<open>replace(ctx, signature_version=...)\<close> on a typed context and
  \<^verbatim>\<open>replace(ctx, is_segwit=True)\<close> or \<^verbatim>\<open>replace(ctx, tapscript=True, merkle_root=...)\<close> on a legacy one.
\<close>

fun with_witness_v0 :: "exec_context \<Rightarrow> exec_context" where
  "with_witness_v0 (Typed c) = Typed (c\<lparr>tc_version := WITNESS_V0\<rparr>)"
| "with_witness_v0 (Legacy c) = Legacy (c\<lparr>lc_is_segwit := True\<rparr>)"

fun with_tapscript :: "exec_context \<Rightarrow> bytes \<Rightarrow> exec_context" where
  "with_tapscript (Typed c) leaf = Typed (c\<lparr>tc_version := TAPSCRIPT, tc_tapleaf := Some leaf\<rparr>)"
| "with_tapscript (Legacy c) leaf = Legacy (c\<lparr>lc_tapscript := True, lc_merkle_root := Some leaf\<rparr>)"

lemma typed_context_complete:
  assumes "new_validation_input t i us f = Inr v"
  shows "\<exists>u. ctx_utxo (execution_context v sc ver leaf) = Inr (Some u) \<and> u \<in> set us
    \<and> ctx_tx (execution_context v sc ver leaf) = Some t
    \<and> ctx_index (execution_context v sc ver leaf) = Some i"
  using assms by (auto simp: new_validation_input_def execution_context_def py_index_def)

end
