(* ===== verification/Sig_Hash.thy ===== *)
theory Sig_Hash
  imports Script_Context Taproot
begin

unbundle bit_operations_syntax

text \<open>
  \<^verbatim>\<open>src/src/script/sig_ops.py\<close>: signature hashes (legacy, SegWit v0, Taproot), the lax DER parser
  and the verification entry points. Strict DER decoding is \<^verbatim>\<open>decode_dss_signature\<close> of the
  third-party package \<^verbatim>\<open>cryptography\<close>: the argument \<open>D\<close>, which returns the two integers or raises.
\<close>

type_synonym der_decoder = "bytes \<Rightarrow> (int \<times> int) result"

section \<open>Hash types\<close>

text \<open>\<^verbatim>\<open>SigHash(n)\<close> raises \<^verbatim>\<open>ValueError\<close> for a number that is no member.\<close>

definition sighash_new :: "int \<Rightarrow> int result" where
  "sighash_new n =
     (if n \<in> {0x00, 0x01, 0x02, 0x03, 0x81, 0x82, 0x83} then Inr n else Inl ValueError)"

definition sighash_to_byte :: "int \<Rightarrow> bytes result" where
  "sighash_to_byte v = to_bytes_le 1 v"

definition sighash_for_hashing :: "int \<Rightarrow> bytes result" where
  "sighash_for_hashing v = to_bytes_le 4 v"

section \<open>Legacy\<close>

text \<open>\<^verbatim>\<open>inputs[i].scriptsig = s\<close> with a Python index.\<close>

definition set_scriptsig :: "tx_in list \<Rightarrow> int \<Rightarrow> bytes \<Rightarrow> tx_in list result" where
  "set_scriptsig ins i s =
     (let j = (if i < 0 then i + int (length ins) else i) in
      if 0 \<le> j \<and> j < int (length ins)
      then Inr (ins[nat j := (ins ! nat j)\<lparr>in_scriptsig := s\<rparr>]) else Inl IndexError)"

definition get_legacy_sighash :: "hashes \<Rightarrow> tx \<Rightarrow> int \<Rightarrow> bytes \<Rightarrow> int \<Rightarrow> bytes result" where
  "get_legacy_sighash H t input_index scriptpubkey sighash_num =
     bindR (tx_clone t) (\<lambda>copy.
       let blank = map (\<lambda>i. i\<lparr>in_scriptsig := []\<rparr>) (t_inputs copy) in
       bindR (set_scriptsig blank input_index scriptpubkey) (\<lambda>ins.
       bindR (sighash_new sighash_num) (\<lambda>sighash.
       bindR (get_txid_preimage (copy\<lparr>t_inputs := ins\<rparr>)) (\<lambda>p.
       bindR (sighash_for_hashing sighash) (\<lambda>s. Inr (hash256 H (p @ s)))))))"

section \<open>SegWit v0\<close>

definition sequence_bytes :: "tx_in \<Rightarrow> bytes result" where
  "sequence_bytes i = to_bytes_le 4 (in_sequence i)"

definition get_segwit_sighash :: "hashes \<Rightarrow> tx \<Rightarrow> int \<Rightarrow> int \<Rightarrow> bytes \<Rightarrow> int \<Rightarrow> bytes result" where
  "get_segwit_sighash H t input_index amount scriptpubkey sighash_num =
     bindR (tx_clone t) (\<lambda>copy.
     bindR (to_bytes_le 4 (t_version copy)) (\<lambda>serialized_version.
     bindR (write_all txin_outpoint (t_inputs copy)) (\<lambda>serialized_inputs.
     bindR (write_all sequence_bytes (t_inputs copy)) (\<lambda>serialized_sequences.
     bindR (py_index (t_inputs copy) input_index) (\<lambda>my_input.
     bindR (txin_outpoint my_input) (\<lambda>my_input_outpoint.
     bindR (to_bytes_le 8 amount) (\<lambda>serialized_amount.
     bindR (sequence_bytes my_input) (\<lambda>my_sequence.
     bindR (write_all txout_to_bytes (t_outputs copy)) (\<lambda>serialized_outputs.
     bindR (to_bytes_le 4 (t_locktime copy)) (\<lambda>serialized_locktime.
       let preimage = serialized_version @ hash256 H serialized_inputs
             @ hash256 H serialized_sequences @ my_input_outpoint @ scriptpubkey @ serialized_amount
             @ my_sequence @ hash256 H serialized_outputs @ serialized_locktime in
       bindR (sighash_new sighash_num) (\<lambda>sighash.
       bindR (sighash_for_hashing sighash) (\<lambda>s. Inr (hash256 H (preimage @ s))))))))))))))"

section \<open>Taproot\<close>

definition SIGHASH_EPOCH :: bytes where "SIGHASH_EPOCH = [0x00]"
definition PUBKEY_VERSION :: bytes where "PUBKEY_VERSION = [0x00]"
definition CODESEP_DEFAULT :: bytes where "CODESEP_DEFAULT = [0xff, 0xff, 0xff, 0xff]"

definition amount_bytes :: "utxo \<Rightarrow> bytes result" where
  "amount_bytes u = to_bytes_le 8 (u_amount u)"

definition pubkey_bytes :: "utxo \<Rightarrow> bytes result" where
  "pubkey_bytes u =
     bindR (write_compact_size (int (length (u_scriptpubkey u)))) (\<lambda>n. Inr (n @ u_scriptpubkey u))"

text \<open>
  The amounts and scripts hashed: all of them for a script path, those of \<^verbatim>\<open>utxos[0]\<close> for a key path.
\<close>

definition spent_amounts_and_scripts :: "utxo list \<Rightarrow> int \<Rightarrow> (bytes \<times> bytes) result" where
  "spent_amounts_and_scripts utxos ext_flag =
     (if ext_flag = 1 then
        bindR (write_all amount_bytes utxos) (\<lambda>a. bindR (write_all pubkey_bytes utxos) (\<lambda>p. Inr (a, p)))
      else
        bindR (py_index utxos 0) (\<lambda>u.
        bindR (amount_bytes u) (\<lambda>a. bindR (pubkey_bytes u) (\<lambda>p. Inr (a, p)))))"

text \<open>\<^verbatim>\<open>leaf_hash + ...\<close> with no leaf hash raises \<^verbatim>\<open>TypeError\<close>.\<close>

definition taproot_extension :: "int \<Rightarrow> bytes option \<Rightarrow> bytes \<Rightarrow> bytes result" where
  "taproot_extension ext_flag leaf codesep_pos =
     (if ext_flag \<noteq> 0 then
        (case leaf of None \<Rightarrow> Inl TypeError | Some l \<Rightarrow> Inr (l @ PUBKEY_VERSION @ codesep_pos))
      else Inr [])"

definition annex_hash :: "hashes \<Rightarrow> bytes option \<Rightarrow> bytes result" where
  "annex_hash H annex =
     (case annex of
        None \<Rightarrow> Inr []
      | Some a \<Rightarrow>
          if a = [] then Inr []
          else bindR (write_compact_size (int (length a))) (\<lambda>n. Inr (h_sha256 H (n @ a))))"

definition get_taproot_sighash ::
  "hashes \<Rightarrow> tx \<Rightarrow> int \<Rightarrow> utxo list \<Rightarrow> int \<Rightarrow> int \<Rightarrow> bytes option \<Rightarrow> bytes option \<Rightarrow> bytes \<Rightarrow> bytes result" where
  "get_taproot_sighash H t input_index utxos ext_flag sighash_num annex leaf codesep_pos =
     bindR (tx_clone t) (\<lambda>copy.
     bindR (sighash_new sighash_num) (\<lambda>hash_type.
     bindR (sighash_to_byte hash_type) (\<lambda>hash_byte.
     bindR (to_bytes_le 4 (t_version copy)) (\<lambda>version.
     bindR (to_bytes_le 4 (t_locktime copy)) (\<lambda>locktime.
     bindR (write_all txin_outpoint (t_inputs copy)) (\<lambda>prevouts.
     bindR (write_all sequence_bytes (t_inputs copy)) (\<lambda>sequences.
     bindR (write_all txout_to_bytes (t_outputs copy)) (\<lambda>outputs.
     bindR (spent_amounts_and_scripts utxos ext_flag) (\<lambda>(amounts, pubkeys).
     bindR (to_bytes_le 1 (2 * ext_flag + (if annex \<noteq> None \<and> annex \<noteq> Some [] then 1 else 0))) (\<lambda>spend_type.
     bindR (py_index (t_inputs copy) input_index) (\<lambda>temp_input.
     bindR (py_index utxos input_index) (\<lambda>temp_utxo.
     bindR (txin_outpoint temp_input) (\<lambda>input_outpoint.
     bindR (amount_bytes temp_utxo) (\<lambda>input_amount.
     bindR (sequence_bytes temp_input) (\<lambda>input_sequence.
     bindR (to_bytes_le 4 input_index) (\<lambda>input_index_bytes.
     bindR (annex_hash H annex) (\<lambda>hash_annex.
     bindR (py_index (t_outputs copy) input_index) (\<lambda>single_output.
     bindR (txout_to_bytes single_output) (\<lambda>single_output_bytes.
       let message = hash_byte @ version @ locktime
             @ (if hash_type \<notin> {0x81, 0x82, 0x83} then
                  h_sha256 H prevouts @ h_sha256 H amounts @ h_sha256 H pubkeys @ h_sha256 H sequences
                  @ (if hash_type = 0x01 then h_sha256 H outputs else [])
                  @ spend_type @ input_index_bytes @ hash_annex
                  @ (if hash_type = 0x03 then h_sha256 H single_output_bytes else [])
                else
                  spend_type @ input_outpoint @ input_amount @ u_scriptpubkey temp_utxo
                  @ input_sequence @ hash_annex) in
       bindR (taproot_extension ext_flag leaf codesep_pos) (\<lambda>extension.
         Inr (tapsighash_hash H (SIGHASH_EPOCH @ message @ extension))))))))))))))))))))))"

section \<open>Lax DER\<close>

text \<open>A position in the signature is the bytes still to be read.\<close>

definition lax_read_byte :: "bytes \<Rightarrow> (byte \<times> bytes) result" where
  "lax_read_byte s = (case s of [] \<Rightarrow> Inl ValueError | b # rest \<Rightarrow> Inr (b, rest))"

fun lax_skip_zeros :: "nat \<Rightarrow> bytes \<Rightarrow> nat \<times> bytes" where
  "lax_skip_zeros (Suc n) (b # rest) = (if b = 0 then lax_skip_zeros n rest else (Suc n, b # rest))"
| "lax_skip_zeros n s = (n, s)"

fun lax_read_value :: "nat \<Rightarrow> int \<Rightarrow> bytes \<Rightarrow> (int \<times> bytes) result" where
  "lax_read_value 0 v s = Inr (v, s)"
| "lax_read_value (Suc n) v s =
     bindR (lax_read_byte s) (\<lambda>(b, rest). lax_read_value n (push_bit 8 v OR uint b) rest)"

definition lax_read_length :: "bytes \<Rightarrow> (int \<times> bytes) result" where
  "lax_read_length s =
     bindR (lax_read_byte s) (\<lambda>(b, s1).
       if b AND 0x80 = 0 then Inr (uint b, s1)
       else
         let length_bytes = unat (b AND 0x7f) in
         if length_bytes > length s1 then Inl ValueError
         else case lax_skip_zeros length_bytes s1 of (n, s2) \<Rightarrow>
           if n \<ge> 4 then Inl ValueError else lax_read_value n 0 s2)"

definition lax_read_int :: "bytes \<Rightarrow> (bytes \<times> bytes) result" where
  "lax_read_int s =
     bindR (lax_read_byte s) (\<lambda>(tag, s1).
     bindR (guardR (tag = 0x02) ValueError) (\<lambda>_.
     bindR (lax_read_length s1) (\<lambda>(value_length, s2).
       if value_length > int (length s2) then Inl ValueError
       else Inr (dropWhile (\<lambda>b. b = 0) (take (nat value_length) s2), drop (nat value_length) s2))))"

definition decode_lax_der_signature :: "bytes \<Rightarrow> (int \<times> int) result" where
  "decode_lax_der_signature signature =
     bindR (lax_read_byte signature) (\<lambda>(tag, s1).
     bindR (guardR (tag = 0x30) ValueError) (\<lambda>_.
     bindR (lax_read_byte s1) (\<lambda>(sequence_length, s2).
     bindR (if sequence_length AND 0x80 \<noteq> 0 then
              (let descriptor_bytes = unat (sequence_length AND 0x7f) in
               if descriptor_bytes > length s2 then Inl ValueError else Inr (drop descriptor_bytes s2))
            else Inr s2) (\<lambda>s3.
     bindR (lax_read_int s3) (\<lambda>(raw1, s4).
       if length raw1 > 32 then Inr (0, 0)
       else bindR (lax_read_int s4) (\<lambda>(raw2, s5).
         if length raw2 > 32 then Inr (0, 0) else Inr (be_val raw1, be_val raw2)))))))"

section \<open>Verification\<close>

definition verify_schnorr_sig :: "hashes \<Rightarrow> bytes \<Rightarrow> bytes \<Rightarrow> bytes \<Rightarrow> bool result" where
  "verify_schnorr_sig H xonly_pubkey msg sig = schnorr_verify SECP256K1 H (be_val xonly_pubkey) msg sig"

text \<open>
  Signing: the nonces that \<^verbatim>\<open>ecdsa\<close> draws are a list, and one that is used up answers \<open>NoReturn\<close>; the DER encoder
  \<^verbatim>\<open>encode_dss_signature\<close> of the third-party package is the argument \<open>enc\<close>.
\<close>

definition get_ecdsa_sig :: "ecurve \<Rightarrow> (int \<Rightarrow> int \<Rightarrow> bytes result) \<Rightarrow> int \<Rightarrow> bytes \<Rightarrow> int list \<Rightarrow> bytes result" where
  "get_ecdsa_sig E enc private_key message draws =
     (case ecdsa E private_key message draws of
        None \<Rightarrow> Inl NoReturn
      | Some signature \<Rightarrow> bindR signature (\<lambda>(r, s). enc r s))"

text \<open>Only \<^verbatim>\<open>TypeError\<close> and \<^verbatim>\<open>ValueError\<close> are caught; the custom exceptions pass.\<close>

definition verify_ecdsa_sig :: "der_decoder \<Rightarrow> bytes \<Rightarrow> bytes \<Rightarrow> bytes \<Rightarrow> bool \<Rightarrow> bool result" where
  "verify_ecdsa_sig D signature message public_key strict_der =
     (case bindR (if strict_der then D signature else decode_lax_der_signature signature) (\<lambda>sig.
           bindR (pubkey_from_bytes SECP256K1 public_key) (\<lambda>pubkey.
             verify_ecdsa SECP256K1 sig message pubkey)) of
        Inr ok \<Rightarrow> Inr ok
      | Inl e \<Rightarrow> if e = TypeError \<or> e = ValueError then Inr False else Inl e)"

end
