(* ===== verification/Script_Engine.thy ===== *)
theory Script_Engine
  imports Opcodes Script_Parser Script_Keys Sig_Hash
begin

unbundle bit_operations_syntax

text \<open>
  \<^verbatim>\<open>src/src/script/script_engine.py\<close>: the interpreter and the validation entry points. The
  engine's state is its two stacks and the remaining Tapscript validation weight; the operation log
  and the execution traces are display output and left out (with \<^verbatim>\<open>trace=False\<close>, the default, no
  trace exists). What the log does to control flow is kept: a script that fails is disassembled
  with \<^verbatim>\<open>to_asm\<close>, which may raise. Scripts are given as bytes.

  \<open>H\<close> are the digests, \<open>D\<close> is the strict DER decoder, \<open>ctx\<close> is the execution context, \<open>None\<close> when
  the caller passes none: reading an attribute of it then raises \<^verbatim>\<open>AttributeError\<close>.
\<close>

record engine =
  en_stack :: bit_stack
  en_alt :: bit_stack
  en_weight :: "int option"

definition new_engine :: engine where
  "new_engine = \<lparr>en_stack = empty_stack, en_alt = empty_stack, en_weight = None\<rparr>"

definition clear_stacks :: "engine \<Rightarrow> engine" where
  "clear_stacks en =
     en\<lparr>en_stack := clear (en_stack en), en_alt := clear (en_alt en), en_weight := None\<rparr>"

definition need :: "exec_context option \<Rightarrow> exec_context result" where
  "need ctx = (case ctx of None \<Rightarrow> Inl AttributeError | Some c \<Rightarrow> Inr c)"

text \<open>A list index that may be \<^verbatim>\<open>None\<close>.\<close>

definition need_index :: "int option \<Rightarrow> int result" where
  "need_index i = (case i of None \<Rightarrow> Inl TypeError | Some n \<Rightarrow> Inr n)"

definition on_stack :: "engine \<Rightarrow> bit_stack result \<Rightarrow> engine result" where
  "on_stack en r = bindR r (\<lambda>s. Inr (en\<lparr>en_stack := s\<rparr>))"

section \<open>Conditionals\<close>

definition stack_value_is_true :: "bytes \<Rightarrow> bool result" where
  "stack_value_is_true v =
     (if v = [] then Inr False else bindR (bitnum_from_bytes v) (\<lambda>n. Inr (n \<noteq> 0)))"

text \<open>Returns the selected branch, the stack without the condition and the rest of the stream.\<close>

definition select_conditional_branch ::
  "nat \<Rightarrow> bytes \<Rightarrow> bit_stack \<Rightarrow> (bytes \<times> bit_stack \<times> bytes) result" where
  "select_conditional_branch opcode stream s =
     bindR (guardR (opcode = 0x63 \<or> opcode = 0x64) ScriptEngineError) (\<lambda>_.
     bindR (pop s) (\<lambda>(condition, s1).
     bindR (stack_value_is_true condition) (\<lambda>b.
       let condition_met = (if opcode = 0x64 then \<not> b else b) in
       bindR (parse_conditional_block (length stream) stream)
         (\<lambda>(if_branch, else_branch, if_offset, else_offset, rest).
           Inr (if condition_met then if_branch else else_branch, s1, rest)))))"

section \<open>Signatures\<close>

definition compute_sighash :: "hashes \<Rightarrow> exec_context \<Rightarrow> bytes \<Rightarrow> int \<Rightarrow> bytes result" where
  "compute_sighash H ctx script_code sighash_num =
     (case (ctx_tx ctx, ctx_utxos ctx) of
        (Some t, Some utxos) \<Rightarrow>
          bindR (need_index (ctx_index ctx)) (\<lambda>input_index.
            if ctx_tapscript ctx then
              get_taproot_sighash H t input_index utxos 1 sighash_num None (ctx_merkle_root ctx)
                CODESEP_DEFAULT
            else if ctx_is_segwit ctx then
              bindR (py_index utxos input_index) (\<lambda>u.
                get_segwit_sighash H t input_index (u_amount u) script_code sighash_num)
            else get_legacy_sighash H t input_index script_code sighash_num)
      | _ \<Rightarrow> Inl ScriptEngineError)"

definition verify_sig ::
  "hashes \<Rightarrow> der_decoder \<Rightarrow> exec_context \<Rightarrow> bytes \<Rightarrow> bytes \<Rightarrow> bytes \<Rightarrow> bool result" where
  "verify_sig H D ctx pubkey der_sig message_hash =
     (if ctx_tapscript ctx then verify_schnorr_sig H pubkey message_hash der_sig
      else verify_ecdsa_sig D der_sig message_hash pubkey (flag_on (ctx_flags ctx) FLAG_DERSIG))"

definition consume_tapscript_sigop :: "engine \<Rightarrow> bytes \<Rightarrow> bool \<times> engine" where
  "consume_tapscript_sigop en signature =
     (if signature = [] then (True, en)
      else case en_weight en of None \<Rightarrow> (False, en)
        | Some w \<Rightarrow> (w - 50 \<ge> 0, en\<lparr>en_weight := Some (w - 50)\<rparr>))"

text \<open>
  How a signature item splits into signature and hash type: \<open>None\<close> for a Tapscript item of another
  length (\<^verbatim>\<open>sig[-1]\<close> exists, the callers checked that the item is not empty).
\<close>

definition split_signature :: "exec_context \<Rightarrow> bytes \<Rightarrow> (bytes \<times> int) option" where
  "split_signature ctx sig =
     (if ctx_tapscript ctx then
        (if length sig = 64 then Some (sig, 0)
         else if length sig = 65 \<and> last sig \<noteq> 0 then Some (butlast sig, uint (last sig))
         else None)
      else Some (butlast sig, uint (last sig)))"

text \<open>\<^verbatim>\<open>ctx.script_code\<close> when it is there and not empty, otherwise the spent scriptPubKey.\<close>

definition checksig_script_code :: "exec_context \<Rightarrow> utxo list \<Rightarrow> bytes result" where
  "checksig_script_code ctx utxos =
     (case ctx_script_code ctx of
        Some (b # bs) \<Rightarrow> Inr (b # bs)
      | _ \<Rightarrow> bindR (need_index (ctx_index ctx)) (\<lambda>i. bindR (py_index utxos i) (\<lambda>u. Inr (u_scriptpubkey u))))"

definition utxo_script_code :: "exec_context \<Rightarrow> bytes result" where
  "utxo_script_code ctx =
     (case ctx_script_code ctx of
        Some (b # bs) \<Rightarrow> Inr (b # bs)
      | _ \<Rightarrow> bindR (ctx_utxo ctx) (\<lambda>u. case u of None \<Rightarrow> Inl AttributeError | Some u \<Rightarrow> Inr (u_scriptpubkey u)))"

definition handle_checksig ::
  "hashes \<Rightarrow> der_decoder \<Rightarrow> exec_context option \<Rightarrow> engine \<Rightarrow> engine result" where
  "handle_checksig H D ctxo en =
     bindR (need ctxo) (\<lambda>ctx.
       case (ctx_tx ctx, ctx_utxos ctx) of
         (Some t, Some utxos) \<Rightarrow>
           bindR (popitems (en_stack en) 2) (\<lambda>(items, s1).
             let pubkey = items ! 0; sig = items ! 1; en1 = en\<lparr>en_stack := s1\<rparr> in
             if length sig < 1 then
               (if ctx_tapscript ctx then on_stack en1 (pushbool s1 False) else Inl ScriptEngineError)
             else case split_signature ctx sig of
               None \<Rightarrow> on_stack en1 (pushbool s1 False)
             | Some (der_sig, sighash_num) \<Rightarrow>
                 (let (ok, en2) = (if ctx_tapscript ctx then consume_tapscript_sigop en1 sig else (True, en1)) in
                  if \<not> ok then Inl ScriptEngineError
                  else
                    bindR (checksig_script_code ctx utxos) (\<lambda>script_code.
                    bindR (compute_sighash H ctx script_code sighash_num) (\<lambda>message_hash.
                    bindR (verify_sig H D ctx pubkey der_sig message_hash) (\<lambda>verified.
                      on_stack en2 (pushbool (en_stack en2) verified))))))
       | _ \<Rightarrow> Inl ScriptEngineError)"

definition handle_checksigadd ::
  "hashes \<Rightarrow> der_decoder \<Rightarrow> exec_context option \<Rightarrow> engine \<Rightarrow> engine result" where
  "handle_checksigadd H D ctxo en =
     bindR (need ctxo) (\<lambda>ctx.
     bindR (guardR (ctx_tapscript ctx) ScriptEngineError) (\<lambda>_.
     bindR (pop (en_stack en)) (\<lambda>(pubkey, s1).
     bindR (popnum s1) (\<lambda>(count, s2).
     bindR (pop s2) (\<lambda>(sig, s3).
       let en1 = en\<lparr>en_stack := s3\<rparr> in
       if sig = [] then bindR (bitnum_encode count) (\<lambda>b. on_stack en1 (push s3 (Bytes b)))
       else case split_signature ctx sig of
         None \<Rightarrow> Inl ScriptEngineError
       | Some (sig64, sighash_num) \<Rightarrow>
           (let (ok, en2) = consume_tapscript_sigop en1 sig in
            if \<not> ok then Inl ScriptEngineError
            else
              bindR (utxo_script_code ctx) (\<lambda>script_code.
              bindR (compute_sighash H ctx script_code sighash_num) (\<lambda>message_hash.
              bindR (verify_sig H D ctx pubkey sig64 message_hash) (\<lambda>verified.
              bindR (bitnum_encode (count + of_bool verified)) (\<lambda>b.
                on_stack en2 (push (en_stack en2) (Bytes b))))))))))))"

fun pop_n :: "nat \<Rightarrow> bit_stack \<Rightarrow> (bytes list \<times> bit_stack) result" where
  "pop_n 0 s = Inr ([], s)"
| "pop_n (Suc n) s = bindR (pop s) (\<lambda>(x, s1). bindR (pop_n n s1) (\<lambda>(xs, s2). Inr (x # xs, s2)))"

text \<open>
  The matching loop: both indices advance on a match, only the key index otherwise. The result
  counts the matches.
\<close>

fun multisig_loop ::
  "hashes \<Rightarrow> der_decoder \<Rightarrow> exec_context \<Rightarrow> bytes \<Rightarrow> bytes list \<Rightarrow> bytes list \<Rightarrow> nat result" where
  "multisig_loop H D ctx script_code (sig # sigs) (pub # pubkeys) =
     (if sig = [] then Inl IndexError
      else
        bindR (compute_sighash H ctx script_code (uint (last sig))) (\<lambda>message_hash.
        bindR (verify_ecdsa_sig D (butlast sig) message_hash pub (flag_on (ctx_flags ctx) FLAG_DERSIG)) (\<lambda>ok.
          if ok then bindR (multisig_loop H D ctx script_code sigs pubkeys) (\<lambda>m. Inr (Suc m))
          else multisig_loop H D ctx script_code (sig # sigs) pubkeys)))"
| "multisig_loop H D ctx script_code _ _ = Inr 0"

definition handle_multisig ::
  "hashes \<Rightarrow> der_decoder \<Rightarrow> exec_context option \<Rightarrow> engine \<Rightarrow> engine result" where
  "handle_multisig H D ctxo en =
     bindR (popnum (en_stack en)) (\<lambda>(pubkeynum, s1).
     bindR (pop_n (nat pubkeynum) s1) (\<lambda>(pubkeys, s2).
     bindR (popnum s2) (\<lambda>(signum, s3).
     bindR (pop_n (nat signum) s3) (\<lambda>(sigs, s4).
     bindR (pop s4) (\<lambda>(empty_byte, s5).
     bindR (guardR (empty_byte = []) ScriptEngineError) (\<lambda>_.
     bindR (need ctxo) (\<lambda>ctx.
     bindR (utxo_script_code ctx) (\<lambda>script_code.
     bindR (multisig_loop H D ctx script_code sigs pubkeys) (\<lambda>matches.
       on_stack en (pushbool s5 (matches = length sigs)))))))))))"

definition handle_signatures ::
  "hashes \<Rightarrow> der_decoder \<Rightarrow> nat \<Rightarrow> exec_context option \<Rightarrow> engine \<Rightarrow> engine result" where
  "handle_signatures H D opcode ctx en =
     (if opcode = 0xac then handle_checksig H D ctx en
      else if opcode = 0xae then handle_multisig H D ctx en
      else if opcode = 0xba then handle_checksigadd H D ctx en
      else Inl ScriptEngineError)"

section \<open>Lock times\<close>

definition LOCKTIME_THRESHOLD :: int where "LOCKTIME_THRESHOLD = 500000000"

definition checklocktime :: "exec_context \<Rightarrow> engine \<Rightarrow> bool result" where
  "checklocktime ctx en =
     (case top_item (en_stack en) of
        None \<Rightarrow> Inr False
      | Some locktime_bytes \<Rightarrow>
          bindR (bitnum_from_bytes locktime_bytes) (\<lambda>locktime.
            if locktime < 0 then Inr False
            else case ctx_tx ctx of
              None \<Rightarrow> Inr False
            | Some t \<Rightarrow>
                bindR (need_index (ctx_index ctx)) (\<lambda>i.
                bindR (py_index (t_inputs t) i) (\<lambda>txin.
                  if in_sequence txin = 0xffffffff then Inr False
                  else if (locktime \<ge> LOCKTIME_THRESHOLD) \<noteq> (t_locktime t \<ge> LOCKTIME_THRESHOLD)
                  then Inr False
                  else if t_locktime t < locktime then Inr False
                  else Inr True))))"

section \<open>Execution\<close>

text \<open>
  One instruction that is no push: whether the script is still valid, the engine, the rest of the
  stream and the selected branch. A missing entry of the dispatch table raises \<^verbatim>\<open>KeyError\<close>.
\<close>

definition exec_mapped ::
  "hashes \<Rightarrow> der_decoder \<Rightarrow> exec_context option \<Rightarrow> nat \<Rightarrow> engine \<Rightarrow> (bool \<times> engine) result" where
  "exec_mapped H D ctx opcode en =
     (case OPCODE_MAP H opcode of
        None \<Rightarrow> Inl KeyError
      | Some func \<Rightarrow>
          if opcode = 0xad \<or> opcode = 0xaf then
            bindR (if opcode = 0xad then handle_checksig H D ctx en else handle_multisig H D ctx en) (\<lambda>en1.
            bindR (op_verify (en_stack en1)) (\<lambda>(ok, s). Inr (ok, en1\<lparr>en_stack := s\<rparr>)))
          else case func of
            MainOp f \<Rightarrow> bindR (f (en_stack en)) (\<lambda>s. Inr (True, en\<lparr>en_stack := s\<rparr>))
          | AltOp f \<Rightarrow> bindR (f (en_stack en) (en_alt en)) (\<lambda>(s, a). Inr (True, en\<lparr>en_stack := s, en_alt := a\<rparr>))
          | VerifyOp f \<Rightarrow> bindR (f (en_stack en)) (\<lambda>(ok, s). Inr (ok, en\<lparr>en_stack := s\<rparr>)))"

definition exec_instruction ::
  "hashes \<Rightarrow> der_decoder \<Rightarrow> exec_context option \<Rightarrow> instruction \<Rightarrow> bytes \<Rightarrow> engine \<Rightarrow>
     (bool \<times> engine \<times> bytes \<times> bytes option) result" where
  "exec_instruction H D ctx instr rest en =
     (let opcode = i_opcode instr; s = en_stack en in
      if i_is_push instr then
        bindR (on_stack en (push s (Bytes (case i_push_data instr of None \<Rightarrow> [] | Some d \<Rightarrow> d))))
          (\<lambda>en1. Inr (True, en1, rest, None))
      else if opcode = 0 then bindR (on_stack en (pushbool s False)) (\<lambda>en1. Inr (True, en1, rest, None))
      else if 0x51 \<le> opcode \<and> opcode \<le> 0x60 then
        bindR (bitnum_encode (int opcode - 0x50)) (\<lambda>b.
        bindR (on_stack en (push s (Bytes b))) (\<lambda>en1. Inr (True, en1, rest, None)))
      else if opcode = 0x61 then Inr (True, en, rest, None)
      else if opcode = 0x63 \<or> opcode = 0x64 then
        bindR (select_conditional_branch opcode rest s) (\<lambda>(branch, s1, rest1).
          Inr (True, en\<lparr>en_stack := s1\<rparr>, rest1, Some branch))
      else if opcode = 0x6a then Inr (False, en, rest, None)
      else if opcode = 0xac \<or> opcode = 0xae \<or> opcode = 0xba then
        bindR (handle_signatures H D opcode ctx en) (\<lambda>en1. Inr (True, en1, rest, None))
      else if opcode = 0xb1 then
        (case ctx of
           None \<Rightarrow> Inr (True, en, rest, None)
         | Some c \<Rightarrow>
             if flag_on (ctx_flags c) FLAG_CHECKLOCKTIMEVERIFY
             then bindR (checklocktime c en) (\<lambda>ok. Inr (ok, en, rest, None))
             else Inr (True, en, rest, None))
      else bindR (exec_mapped H D ctx opcode en) (\<lambda>(ok, en1). Inr (ok, en1, rest, None)))"

lemma conditional_loop_rest:
  "conditional_loop tot stream depth b = Inr (b', rest) \<Longrightarrow>
     length (if_branch b') + length (else_branch b') + length rest
       \<le> length (if_branch b) + length (else_branch b) + length stream"
proof (induction tot stream depth b rule: conditional_loop.induct)
  case (1 tot stream depth b)
  obtain r where r: "read_instructions stream = Inr r"
    using "1.prems" by (subst (asm) conditional_loop.simps) auto
  then obtain i rest1 where i: "r = Some (i, rest1)"
    using "1.prems" by (subst (asm) conditional_loop.simps) (cases r; auto)
  have len: "length stream = length (i_raw i) + length rest1"
    using r i read_instructions_raw [of stream i rest1] by simp
  have e: "length (if_branch (emit b x)) + length (else_branch (emit b x))
      = length (if_branch b) + length (else_branch b) + length x" for x
    by (simp add: emit_def)
  have eq: "conditional_loop tot stream depth b =
      (if i_opcode i = 0x63 \<or> i_opcode i = 0x64 then
         conditional_loop tot rest1 (depth + 1) (emit b (i_raw i))
       else if i_opcode i = 0x67 then
         (if depth = 1 then
            conditional_loop tot rest1 depth (b\<lparr>in_else := True, else_offset := tot - length rest1\<rparr>)
          else conditional_loop tot rest1 depth (emit b (i_raw i)))
       else if i_opcode i = 0x68 then
         (if depth - 1 = 0 then Inr (b, rest1)
          else conditional_loop tot rest1 (depth - 1) (emit b (i_raw i)))
       else conditional_loop tot rest1 depth (emit b (i_raw i)))"
    by (subst conditional_loop.simps) (simp add: r i)
  show ?case
  proof (cases "i_opcode i = 0x68 \<and> depth - 1 = 0")
    case True
    with eq "1.prems" len show ?thesis by auto
  next
    case False
    then show ?thesis
      using "1.prems" "1.IH"(1) [OF r i refl] "1.IH"(2) [OF r i refl] "1.IH"(3) [OF r i refl]
        "1.IH"(4) [OF r i refl] "1.IH"(5) [OF r i refl] e [of "i_raw i"] len
      unfolding eq by (auto split: if_split_asm)
  qed
qed

lemma exec_instruction_shrinks:
  assumes "exec_instruction H D ctx i rest en = Inr (ok, en1, rest1, branch)"
  shows "length rest1 \<le> length rest \<and> (\<forall>b. branch = Some b \<longrightarrow> length b \<le> length rest)"
proof (cases "\<not> i_is_push i \<and> (i_opcode i = 0x63 \<or> i_opcode i = 0x64)")
  case True
  then obtain br s1 where "select_conditional_branch (i_opcode i) rest (en_stack en) = Inr (br, s1, rest1)"
    "branch = Some br"
    using assms by (auto simp: exec_instruction_def Let_def)
  then show ?thesis
    by (auto simp: select_conditional_branch_def Let_def parse_conditional_block_def
        dest!: conditional_loop_rest split: if_splits)
next
  case False
  with assms have "rest1 = rest \<and> branch = None"
    by (auto simp: exec_instruction_def Let_def split: if_splits option.splits prod.splits)
  then show ?thesis by simp
qed

text \<open>
  The loop of \<^verbatim>\<open>_execute_script\<close>: \<open>src\<close> is the script passed in, \<open>stream\<close> what is left of it. A
  failure ends the loop and disassembles \<open>src\<close> for the log.
\<close>

definition fail_script :: "bytes \<Rightarrow> engine \<Rightarrow> (bool \<times> engine) result" where
  "fail_script src en = bindR (to_asm src) (\<lambda>_. Inr (False, en))"

function execute_loop ::
  "hashes \<Rightarrow> der_decoder \<Rightarrow> exec_context option \<Rightarrow> bytes \<Rightarrow> bytes \<Rightarrow> engine \<Rightarrow> (bool \<times> engine) result" where
  "execute_loop H D ctx src stream en =
     bindR (read_instructions stream) (\<lambda>r. case r of
         None \<Rightarrow> Inr (True, en)
       | Some (instr, rest) \<Rightarrow>
           bindR (exec_instruction H D ctx instr rest en) (\<lambda>(valid, en1, rest1, branch).
           bindR (case branch of
                    None \<Rightarrow> Inr (valid, en1)
                  | Some b \<Rightarrow> execute_loop H D ctx b b en1) (\<lambda>(valid2, en2).
             if valid2 then execute_loop H D ctx src rest1 en2 else fail_script src en2)))"
  by pat_completeness auto
termination
proof (relation "measure (\<lambda>(H, D, ctx, src, stream, en). length stream)", goal_cases)
  case 1
  then show ?case by simp
next
  case 2
  then show ?case by (auto dest!: read_instructions_shrinks exec_instruction_shrinks)
next
  case 3
  then show ?case by (auto dest!: read_instructions_shrinks exec_instruction_shrinks)
qed

declare execute_loop.simps [simp del]

definition execute_script ::
  "hashes \<Rightarrow> der_decoder \<Rightarrow> bytes \<Rightarrow> exec_context option \<Rightarrow> engine \<Rightarrow> (bool \<times> engine) result" where
  "execute_script H D script ctx en = execute_loop H D ctx script script en"

section \<open>Validation\<close>

definition validate_stack :: "bool \<Rightarrow> engine \<Rightarrow> (bool \<times> engine) result" where
  "validate_stack require_clean en =
     (if height (en_stack en) = 0 then Inr (False, en)
      else if require_clean \<and> height (en_stack en) \<noteq> 1 then Inr (False, en)
      else bindR (pop (en_stack en)) (\<lambda>(last_element, s).
           bindR (stack_value_is_true last_element) (\<lambda>b. Inr (b, en\<lparr>en_stack := s\<rparr>))))"

definition validate_script ::
  "hashes \<Rightarrow> der_decoder \<Rightarrow> bytes \<Rightarrow> exec_context option \<Rightarrow> bool \<Rightarrow> engine \<Rightarrow> (bool \<times> engine) result" where
  "validate_script H D script ctx require_clean en =
     bindR (execute_script H D script ctx (clear_stacks en)) (\<lambda>(ok, en1).
       if \<not> ok then Inr (False, en1) else validate_stack require_clean en1)"

definition segwit_p2wpkh ::
  "hashes \<Rightarrow> der_decoder \<Rightarrow> bytes \<Rightarrow> witness \<Rightarrow> exec_context \<Rightarrow> engine \<Rightarrow> (bool \<times> engine) result" where
  "segwit_p2wpkh H D spk items ctx en =
     bindR (guardR (length items = 2) ScriptEngineError) (\<lambda>_.
     bindR (push (en_stack en) (Bytes (items ! 0))) (\<lambda>s1.
     bindR (push s1 (Bytes (items ! 1))) (\<lambda>s2.
       let p2pkh_script = sc_bytes (p2pkh_from_pubkeyhash (drop 2 spk)) in
       bindR (serialize_data p2pkh_script) (\<lambda>code.
       bindR (execute_script H D p2pkh_script (Some (with_script_code ctx code)) (en\<lparr>en_stack := s2\<rparr>))
         (\<lambda>(_, en1). validate_stack True en1)))))"

definition segwit_p2wsh ::
  "hashes \<Rightarrow> der_decoder \<Rightarrow> bytes \<Rightarrow> witness \<Rightarrow> exec_context \<Rightarrow> engine \<Rightarrow> (bool \<times> engine) result" where
  "segwit_p2wsh H D spk items ctx en =
     bindR (guardR (\<not> length items < 1) ScriptEngineError) (\<lambda>_.
       let script = last items in
       if drop 2 spk \<noteq> h_sha256 H script then Inr (False, en)
       else
         let sig_list = rev (butlast items) in
         bindR (pushlist (en_stack en) (map Bytes sig_list)) (\<lambda>s1.
         bindR (serialize_data script) (\<lambda>code.
         bindR (execute_script H D script (Some (with_script_code ctx code)) (en\<lparr>en_stack := s1\<rparr>))
           (\<lambda>(_, en1). validate_stack True en1))))"

definition segwit_p2tr_key ::
  "hashes \<Rightarrow> bytes \<Rightarrow> bytes \<Rightarrow> tx \<Rightarrow> int \<Rightarrow> utxo list \<Rightarrow> bool result" where
  "segwit_p2tr_key H spk sig t input_index utxos =
     (let hash_type = (if length sig = 65 then uint (last sig) else 0);
          sig = (if length sig = 65 then butlast sig else sig) in
      bindR (get_taproot_sighash H t input_index utxos 0 hash_type None None CODESEP_DEFAULT) (\<lambda>sighash.
        verify_schnorr_sig H (drop 2 spk) sighash sig))"

definition segwit_p2tr_script ::
  "hashes \<Rightarrow> der_decoder \<Rightarrow> bytes \<Rightarrow> witness \<Rightarrow> exec_context \<Rightarrow> engine \<Rightarrow> (bool \<times> engine) result" where
  "segwit_p2tr_script H D spk items ctx en =
     (let control_block = last items; leaf_script = last (butlast items);
          witness_items = butlast (butlast items) in
      bindR (validate_control_block SECP256K1 H control_block leaf_script (drop 2 spk)) (\<lambda>ok.
        if \<not> ok then Inr (False, en)
        else
          bindR (pushlist (en_stack en) (map Bytes witness_items)) (\<lambda>s1.
          bindR (witness_to_bytes items) (\<lambda>wb.
          bindR (leaf_hash H (hd control_block AND 0xfe) leaf_script) (\<lambda>leaf.
          bindR (execute_script H D leaf_script (Some (with_tapscript ctx leaf))
                   (en\<lparr>en_stack := s1, en_weight := Some (int (length wb) + 50)\<rparr>)) (\<lambda>(ok, en1).
            if \<not> ok then Inr (False, en1) else validate_stack True en1))))))"

text \<open>
  A scriptPubKey of another class runs nothing and has its empty stack judged. A context without a
  transaction has no witness to read, and \<^verbatim>\<open>None[i]\<close> and \<^verbatim>\<open>x[None]\<close> raise \<^verbatim>\<open>TypeError\<close>.
\<close>

definition validate_segwit ::
  "hashes \<Rightarrow> der_decoder \<Rightarrow> script_obj \<Rightarrow> exec_context option \<Rightarrow> engine \<Rightarrow> (bool \<times> engine) result" where
  "validate_segwit H D key ctxo en =
     bindR (need ctxo) (\<lambda>ctx.
       case ctx_tx ctx of
         None \<Rightarrow> Inl AttributeError
       | Some t \<Rightarrow>
           let en0 = clear_stacks en in
           bindR (need_index (ctx_index ctx)) (\<lambda>input_index.
           bindR (py_index (t_witness t) input_index) (\<lambda>items.
           bindR (ctx_utxo ctx) (\<lambda>_.
             let spk = sc_bytes key in
             if sc_kind key = P2WPKH then segwit_p2wpkh H D spk items ctx en0
             else if sc_kind key = P2WSH then segwit_p2wsh H D spk items ctx en0
             else if sc_kind key = P2TR then
               (if length items = 0 then Inr (False, en0)
                else if length items = 1 then
                  (case ctx_utxos ctx of
                     None \<Rightarrow> Inl TypeError
                   | Some utxos \<Rightarrow>
                       bindR (segwit_p2tr_key H spk (items ! 0) t input_index utxos) (\<lambda>b. Inr (b, en0)))
                else segwit_p2tr_script H D spk items ctx en0)
             else validate_stack True en0))))"

text \<open>
  The last part of \<^verbatim>\<open>validate_script_pair\<close>, after the P2SH hash check: a nested witness program is
  validated from the witness, any other redeem script is executed.
\<close>

definition validate_redeem_script ::
  "hashes \<Rightarrow> der_decoder \<Rightarrow> script_obj \<Rightarrow> bytes \<Rightarrow> exec_context option \<Rightarrow> engine \<Rightarrow> (bool \<times> engine) result" where
  "validate_redeem_script H D scriptsig redeem ctxo en =
     (if p2wpkh_matches redeem \<or> p2wsh_matches redeem then
        bindR (encode_pushdata redeem) (\<lambda>canonical.
          if sc_bytes scriptsig \<noteq> canonical then Inr (False, en)
          else
            bindR (classify_scriptpubkey redeem) (\<lambda>nested_key.
              case ctxo of None \<Rightarrow> Inl TypeError
              | Some ctx \<Rightarrow> validate_segwit H D nested_key (Some (with_witness_v0 ctx)) en))
      else
        case ctxo of None \<Rightarrow> Inl TypeError
        | Some ctx \<Rightarrow>
            bindR (execute_script H D redeem (Some (with_script_code ctx redeem)) en)
              (\<lambda>(ok, en4). if \<not> ok then Inr (False, en4) else validate_stack True en4))"

definition validate_script_pair ::
  "hashes \<Rightarrow> der_decoder \<Rightarrow> script_obj \<Rightarrow> script_obj \<Rightarrow> exec_context option \<Rightarrow> engine \<Rightarrow>
     (bool \<times> engine) result" where
  "validate_script_pair H D scriptpubkey scriptsig ctxo en =
     (if \<not> p2sh_matches (sc_bytes scriptpubkey) then
        validate_script H D (sc_bytes scriptsig @ sc_bytes scriptpubkey) ctxo True en
      else
        bindR (parse_script_ops (sc_bytes scriptsig)) (\<lambda>operations.
          if operations = [] \<or> list_ex (\<lambda>(opcode, data). data = None \<and> opcode > 0x60) operations
          then Inr (False, en)
          else
            bindR (execute_script H D (sc_bytes scriptsig) ctxo (clear_stacks en)) (\<lambda>(ok, en1).
              if \<not> ok \<or> height (en_stack en1) = 0 then Inr (False, en1)
              else
                let redeem = hd (stk (en_stack en1)) in
                bindR (execute_script H D (sc_bytes scriptpubkey) ctxo en1) (\<lambda>(_, en2).
                bindR (op_verify (en_stack en2)) (\<lambda>(hash_ok, s3).
                  let en3 = en2\<lparr>en_stack := s3\<rparr> in
                  if \<not> hash_ok then Inr (False, en3)
                  else validate_redeem_script H D scriptsig redeem ctxo en3)))))"

end
