(* ===== verification/Opcode_Facts.thy ===== *)
theory Opcode_Facts
  imports Opcodes
begin

text \<open>
  What the opcodes of the dispatch table do, against specifications written independently of the
  code: a table of index rearrangements for the stack opcodes, the arithmetic function of each
  numeric opcode with its operands in consensus order, and the size bound for all of them.
\<close>

section \<open>Rearrangements\<close>

text \<open>
  An entry \<open>(k, js)\<close>: the top \<open>k\<close> items are replaced by the items at the positions \<open>js\<close>.
\<close>

definition shuffle_table :: "nat \<Rightarrow> (nat \<times> nat list) option" where
  "shuffle_table = map_of [
     (0x6d, 2, []), (0x6e, 2, [0, 1, 0, 1]), (0x6f, 3, [0, 1, 2, 0, 1, 2]),
     (0x70, 4, [2, 3, 0, 1, 2, 3]), (0x71, 6, [4, 5, 0, 1, 2, 3]), (0x72, 4, [2, 3, 0, 1]),
     (0x75, 1, []), (0x76, 1, [0, 0]), (0x77, 2, [0]), (0x78, 2, [1, 0, 1]),
     (0x7b, 3, [2, 0, 1]), (0x7c, 2, [1, 0]), (0x7d, 2, [0, 1, 0])]"

definition shuffle_spec :: "nat \<Rightarrow> nat list \<Rightarrow> bit_stack \<Rightarrow> bit_stack result" where
  "shuffle_spec k js s =
     (let new = map (\<lambda>j. stk s ! j) js @ drop k (stk s)
      in if k \<le> length (stk s) \<and> length new \<le> max_size s then Inr (s\<lparr>stk := new\<rparr>)
         else Inl BitStackError)"

lemma Suc_le_length_Cons: "Suc n \<le> length xs \<Longrightarrow> \<exists>x ys. xs = x # ys \<and> n \<le> length ys"
  by (cases xs) auto

lemma take_all_numeral: "length xs = n \<Longrightarrow> take n xs = xs"
  by simp

lemma list_upto_6:
  obtains "xs = []" | a where "xs = [a]" | a b where "xs = [a, b]" | a b c where "xs = [a, b, c]"
  | a b c d where "xs = [a, b, c, d]" | a b c d e where "xs = [a, b, c, d, e]"
  | a b c d e f r where "xs = a # b # c # d # e # f # r"
  by (metis neq_Nil_conv)

lemmas shuffle_defs = op_2drop_def op_2dup_def op_3dup_def op_2over_def op_2rot_def op_2swap_def
  op_drop_def op_dup_def op_nip_def op_over_def op_rot_def op_swap_def op_tuck_def

lemma shuffle_ops:
  assumes "stack_inv s"
  shows "op_2drop s = shuffle_spec 2 [] s"
    and "op_2dup s = shuffle_spec 2 [0, 1, 0, 1] s"
    and "op_3dup s = shuffle_spec 3 [0, 1, 2, 0, 1, 2] s"
    and "op_2over s = shuffle_spec 4 [2, 3, 0, 1, 2, 3] s"
    and "op_2rot s = shuffle_spec 6 [4, 5, 0, 1, 2, 3] s"
    and "op_2swap s = shuffle_spec 4 [2, 3, 0, 1] s"
    and "op_drop s = shuffle_spec 1 [] s"
    and "op_dup s = shuffle_spec 1 [0, 0] s"
    and "op_nip s = shuffle_spec 2 [0] s"
    and "op_over s = shuffle_spec 2 [1, 0, 1] s"
    and "op_rot s = shuffle_spec 3 [2, 0, 1] s"
    and "op_swap s = shuffle_spec 2 [1, 0] s"
    and "op_tuck s = shuffle_spec 2 [0, 1, 0] s"
  using assms
  by (cases "stk s" rule: list_upto_6;
      simp add: shuffle_defs shuffle_spec_def stack_simps stack_inv_def
        pushlist_Bytes [simplified] pushlist_def pushitems_def check_max_size_def height_def
        ensure_item_type_def guardR_def)+

section \<open>Arithmetic\<close>

text \<open>
  Consensus order: \<open>bn1\<close> is the second item, \<open>bn2\<close> the top. A truth value is the number 1 or 0.
\<close>

definition unary_table :: "nat \<Rightarrow> (int \<Rightarrow> int) option" where
  "unary_table = map_of [
     (0x8b, \<lambda>n. n + 1), (0x8c, \<lambda>n. n - 1), (0x8f, \<lambda>n. - n), (0x90, \<lambda>n. \<bar>n\<bar>),
     (0x91, \<lambda>n. of_bool (n = 0)), (0x92, \<lambda>n. of_bool (n \<noteq> 0))]"

definition binary_table :: "nat \<Rightarrow> (int \<Rightarrow> int \<Rightarrow> int) option" where
  "binary_table = map_of [
     (0x93, \<lambda>bn1 bn2. bn1 + bn2), (0x94, \<lambda>bn1 bn2. bn1 - bn2),
     (0x9a, \<lambda>bn1 bn2. of_bool (bn1 \<noteq> 0 \<and> bn2 \<noteq> 0)), (0x9b, \<lambda>bn1 bn2. of_bool (bn1 \<noteq> 0 \<or> bn2 \<noteq> 0)),
     (0x9c, \<lambda>bn1 bn2. of_bool (bn1 = bn2)), (0x9e, \<lambda>bn1 bn2. of_bool (bn1 \<noteq> bn2)),
     (0x9f, \<lambda>bn1 bn2. of_bool (bn1 < bn2)), (0xa0, \<lambda>bn1 bn2. of_bool (bn1 > bn2)),
     (0xa1, \<lambda>bn1 bn2. of_bool (bn1 \<le> bn2)), (0xa2, \<lambda>bn1 bn2. of_bool (bn1 \<ge> bn2)),
     (0xa3, \<lambda>bn1 bn2. min bn1 bn2), (0xa4, \<lambda>bn1 bn2. max bn1 bn2)]"

definition push_number :: "bit_stack \<Rightarrow> int \<Rightarrow> bytes list \<Rightarrow> bit_stack result" where
  "push_number s v rest =
     (if \<bar>v\<bar> < 2 ^ 31 then bindR (bitnum_encode v) (\<lambda>b. Inr (s\<lparr>stk := b # rest\<rparr>)) else Inl BitNumError)"

definition unary_spec :: "(int \<Rightarrow> int) \<Rightarrow> bit_stack \<Rightarrow> bit_stack result" where
  "unary_spec f s =
     (case stk s of
        [] \<Rightarrow> Inl BitStackError
      | x # r \<Rightarrow> if length x \<le> 4 then push_number s (f (script_num_value x)) r else Inl BitNumError)"

definition binary_spec :: "(int \<Rightarrow> int \<Rightarrow> int) \<Rightarrow> bit_stack \<Rightarrow> bit_stack result" where
  "binary_spec f s =
     (case stk s of
        [] \<Rightarrow> Inl BitStackError
      | [x] \<Rightarrow> if length x \<le> 4 then Inl BitStackError else Inl BitNumError
      | x # y # r \<Rightarrow>
          if length x \<le> 4 \<and> length y \<le> 4
          then push_number s (f (script_num_value y) (script_num_value x)) r else Inl BitNumError)"

lemma bitnum_encode_0 [simp]: "bitnum_encode 0 = Inr []"
  by (simp add: bitnum_encode_def)

lemma bitnum_encode_1 [simp]: "bitnum_encode 1 = Inr [1]"
proof -
  have "byte_length 1 = 1" by (simp add: byte_length_def bit_length.simps)
  then show ?thesis by (simp add: bitnum_encode_def MAX_BITNUM_def)
qed

lemma push_number_of_bool [simp]:
  "push_number s (of_bool b) r = Inr (s\<lparr>stk := (if b then [0x01] else []) # r\<rparr>)"
  by (cases b) (simp_all add: push_number_def)

lemma push_number_Num:
  "Suc (length r) \<le> max_size s \<Longrightarrow>
     push (s\<lparr>stk := r\<rparr>) (Num v) = push_number s v r"
  using bitnum_encode_error [of v] bitnum_encode_Inr_iff [of v]
  by (cases "bitnum_encode v") (auto simp: push_number_def push_Num not_less)

lemmas unary_defs = op_1add_def op_1sub_def op_negate_def op_abs_def op_not_def op_0notequal_def

lemmas binary_defs = op_add_def op_sub_def op_booland_def op_boolor_def op_numequal_def
  op_numnotequal_def op_lessthan_def op_greaterthan_def op_lessthanorequal_def
  op_greaterthanorequal_def op_min_def op_max_def

lemma unary_ops:
  assumes "stack_inv s"
  shows "op_1add s = unary_spec (\<lambda>n. n + 1) s"
    and "op_1sub s = unary_spec (\<lambda>n. n - 1) s"
    and "op_negate s = unary_spec (\<lambda>n. - n) s"
    and "op_abs s = unary_spec (\<lambda>n. \<bar>n\<bar>) s"
    and "op_not s = unary_spec (\<lambda>n. of_bool (n = 0)) s"
    and "op_0notequal s = unary_spec (\<lambda>n. of_bool (n \<noteq> 0)) s"
  using assms
  by (cases "stk s";
      simp add: unary_defs unary_spec_def popnum_eq pushbool_eq stack_inv_def push_number_Num)+

lemma binary_num:
  assumes "stack_inv s"
  shows "bindR (popnum s) (\<lambda>(a, s1). bindR (popnum s1) (\<lambda>(b, s2). push s2 (Num (g a b))))
    = binary_spec (\<lambda>bn1 bn2. g bn2 bn1) s"
  using assms
  by (cases "stk s" rule: list_upto_6)
    (simp_all add: binary_spec_def popnum_eq stack_inv_def push_number_Num)

lemma binary_bool:
  assumes "stack_inv s"
  shows "bindR (popnum s) (\<lambda>(a, s1). bindR (popnum s1) (\<lambda>(b, s2). pushbool s2 (g a b)))
    = binary_spec (\<lambda>bn1 bn2. of_bool (g bn2 bn1)) s"
  using assms
  by (cases "stk s" rule: list_upto_6)
    (simp_all add: binary_spec_def popnum_eq stack_inv_def pushbool_eq)

lemma binary_ops:
  assumes "stack_inv s"
  shows "op_add s = binary_spec (\<lambda>bn1 bn2. bn1 + bn2) s"
    and "op_sub s = binary_spec (\<lambda>bn1 bn2. bn1 - bn2) s"
    and "op_booland s = binary_spec (\<lambda>bn1 bn2. of_bool (bn1 \<noteq> 0 \<and> bn2 \<noteq> 0)) s"
    and "op_boolor s = binary_spec (\<lambda>bn1 bn2. of_bool (bn1 \<noteq> 0 \<or> bn2 \<noteq> 0)) s"
    and "op_numequal s = binary_spec (\<lambda>bn1 bn2. of_bool (bn1 = bn2)) s"
    and "op_numnotequal s = binary_spec (\<lambda>bn1 bn2. of_bool (bn1 \<noteq> bn2)) s"
    and "op_lessthan s = binary_spec (\<lambda>bn1 bn2. of_bool (bn1 < bn2)) s"
    and "op_greaterthan s = binary_spec (\<lambda>bn1 bn2. of_bool (bn1 > bn2)) s"
    and "op_lessthanorequal s = binary_spec (\<lambda>bn1 bn2. of_bool (bn1 \<le> bn2)) s"
    and "op_greaterthanorequal s = binary_spec (\<lambda>bn1 bn2. of_bool (bn1 \<ge> bn2)) s"
    and "op_min s = binary_spec (\<lambda>bn1 bn2. min bn1 bn2) s"
    and "op_max s = binary_spec (\<lambda>bn1 bn2. max bn1 bn2) s"
  unfolding binary_defs binary_num [OF assms] binary_bool [OF assms]
  by (rule arg_cong [of _ _ "\<lambda>f. binary_spec f s"]; auto simp: fun_eq_iff)+

section \<open>The table\<close>

definition main_fun :: "op_fun option \<Rightarrow> (bit_stack \<Rightarrow> bit_stack result) option" where
  "main_fun f = (case f of Some (MainOp g) \<Rightarrow> Some g | _ \<Rightarrow> None)"

text \<open>
  every stack opcode with an entry in the rearrangement table pops and pushes exactly as the
  table says, raising \<^verbatim>\<open>BitStackError\<close> when the stack is too short or would outgrow its bound.
\<close>

theorem stack_opcodes_rearrange:
  assumes "shuffle_table opcode = Some (k, js)" and "stack_inv s"
  shows "\<exists>f. OPCODE_MAP H opcode = Some (MainOp f) \<and> f s = shuffle_spec k js s"
  using assms by (auto simp: shuffle_table_def OPCODE_MAP_def shuffle_ops split: if_splits)

lemma stack_opcodes_rearrange_witness:
  "\<exists>f. OPCODE_MAP pad_hashes 0x7b = Some (MainOp f) \<and>
     f \<lparr>stk = [[1], [2], [3], [4]], max_size = 1000\<rparr>
       = Inr \<lparr>stk = [[3], [1], [2], [4]], max_size = 1000\<rparr>"
  using stack_opcodes_rearrange [of "0x7b" 3 "[2, 0, 1]"
      "\<lparr>stk = [[1], [2], [3], [4]], max_size = 1000\<rparr>" pad_hashes]
  by (simp add: shuffle_table_def stack_inv_def shuffle_spec_def numeral_3_eq_3)

text \<open>
  every arithmetic and comparison opcode computes the consensus function of its operands (the
  second item first, the top item second, each at most four bytes) and pushes the result; a
  missing operand, an operand over four bytes, or a result of 32 or more magnitude bits raises.
\<close>

theorem numeric_opcodes_compute:
  assumes "stack_inv s"
  shows "(\<forall>f. unary_table opcode = Some f \<longrightarrow>
            (\<exists>g. OPCODE_MAP H opcode = Some (MainOp g) \<and> g s = unary_spec f s))
       \<and> (\<forall>f. binary_table opcode = Some f \<longrightarrow>
            (\<exists>g. OPCODE_MAP H opcode = Some (MainOp g) \<and> g s = binary_spec f s))"
  using assms
  by (auto simp: unary_table_def binary_table_def OPCODE_MAP_def unary_ops binary_ops
      split: if_splits)

lemma numeric_opcodes_compute_witness:
  "\<exists>g. OPCODE_MAP pad_hashes 0x94 = Some (MainOp g) \<and>
     g \<lparr>stk = [[2], [7]], max_size = 1000\<rparr> = Inr \<lparr>stk = [[5]], max_size = 1000\<rparr>"
proof -
  have "byte_length 5 = 1" by (simp add: byte_length_def bit_length.simps)
  then have "bitnum_encode 5 = Inr [5]" by (simp add: bitnum_encode_def MAX_BITNUM_def)
  then show ?thesis
    using numeric_opcodes_compute [of "\<lparr>stk = [[2], [7]], max_size = 1000\<rparr>" "0x94" pad_hashes]
    by (simp add: stack_inv_def binary_table_def binary_spec_def push_number_def script_num_value_def)
qed

section \<open>Picking and rolling\<close>

lemma deque_at_nonneg: "0 \<le> n \<Longrightarrow> n < int (length xs) \<Longrightarrow> deque_at xs n = Inr (xs ! nat n)"
  by (simp add: deque_at_def)

lemma deque_at_neg:
  "n < 0 \<Longrightarrow> deque_at xs n =
     (if - n \<le> int (length xs) then Inr (xs ! nat (int (length xs) + n)) else Inl IndexError)"
  by (auto simp: deque_at_def add.commute)

lemma op_pick_eq:
  assumes "stack_inv s" and "stk s = x # r" and "length x \<le> 4"
  shows "op_pick s =
     (let n = script_num_value x in
      if int (length r) \<le> n then Inl BitStackError
      else if 0 \<le> n then Inr (s\<lparr>stk := (r ! nat n) # r\<rparr>)
      else if - n \<le> int (length r) then Inr (s\<lparr>stk := (r ! nat (int (length r) + n)) # r\<rparr>)
      else Inl IndexError)"
  using assms
  by (auto simp: op_pick_def popnum_eq height_def guardR_def Let_def deque_at_nonneg deque_at_neg
      push_Bytes stack_inv_def)

lemma take_Suc_rotate:
  "n < length r \<Longrightarrow>
     drop (length (take (Suc n) r) - 1) (take (Suc n) r) @ butlast (take (Suc n) r) = r ! n # take n r"
  by (simp add: take_Suc_conv_app_nth)

lemma op_roll_eq:
  assumes "stack_inv s" and "stk s = x # r" and "length x \<le> 4"
  shows "op_roll s =
     (let n = script_num_value x in
      if int (length r) \<le> n then Inl BitStackError
      else if 0 \<le> n then Inr (s\<lparr>stk := (r ! nat n) # take (nat n) r @ drop (Suc (nat n)) r\<rparr>)
      else Inr (s\<lparr>stk := r\<rparr>))"
proof -
  let ?n = "script_num_value x"
  have room: "length r < max_size s" using assms by (simp add: stack_inv_def)
  consider "int (length r) \<le> ?n" | "0 \<le> ?n" "?n < int (length r)" | "?n < 0" by linarith
  then show ?thesis
  proof cases
    case 1
    then show ?thesis using assms
      by (simp add: op_roll_def popnum_eq height_def guardR_def Let_def)
  next
    case 2
    then have nn: "nat (?n + 1) = Suc (nat ?n)" "nat ?n < length r" by auto
    have "pushlist (s\<lparr>stk := drop (Suc (nat ?n)) r\<rparr>) (map Bytes (r ! nat ?n # take (nat ?n) r))
        = Inr (s\<lparr>stk := (r ! nat ?n) # take (nat ?n) r @ drop (Suc (nat ?n)) r\<rparr>)"
      unfolding pushlist_Bytes using nn room by simp
    moreover have "map Bytes (drop (length (take (Suc (nat ?n)) r) - 1) (take (Suc (nat ?n)) r)
        @ butlast (take (Suc (nat ?n)) r)) = map Bytes (r ! nat ?n # take (nat ?n) r)"
      using take_Suc_rotate [OF nn(2)] by (simp only:)
    ultimately show ?thesis using 2 nn assms
      by (simp add: op_roll_def popnum_eq height_def guardR_def Let_def popitems_eq
          del: map_append list.map)
  next
    case 3
    then show ?thesis using assms room pushlist_Bytes [of "s\<lparr>stk := r\<rparr>" "[]"]
      by (simp add: op_roll_def popnum_eq height_def guardR_def Let_def popitems_eq)
  qed
qed

text \<open>
  \<^verbatim>\<open>OP_PICK\<close> copies and \<^verbatim>\<open>OP_ROLL\<close> moves the item at a non-negative depth to the top, and
  both raise when the depth is not below the height. A negative depth, which consensus rejects,
  is not an error: \<^verbatim>\<open>OP_ROLL\<close> only drops the number and \<^verbatim>\<open>OP_PICK\<close> copies an item counted from
  the bottom of the stack.
\<close>

theorem pick_roll_effect:
  assumes "stack_inv s" and "stk s = x # r" and "length x \<le> 4"
  defines "n \<equiv> script_num_value x"
  shows "(int (length r) \<le> n \<longrightarrow> op_pick s = Inl BitStackError \<and> op_roll s = Inl BitStackError)
    \<and> (0 \<le> n \<and> n < int (length r) \<longrightarrow>
         op_pick s = Inr (s\<lparr>stk := (r ! nat n) # r\<rparr>) \<and>
         op_roll s = Inr (s\<lparr>stk := (r ! nat n) # take (nat n) r @ drop (Suc (nat n)) r\<rparr>))
    \<and> (n < 0 \<longrightarrow> op_roll s = Inr (s\<lparr>stk := r\<rparr>) \<and>
         (- n \<le> int (length r) \<longrightarrow> op_pick s = Inr (s\<lparr>stk := (r ! nat (int (length r) + n)) # r\<rparr>)))"
  using op_pick_eq [OF assms(1-3)] op_roll_eq [OF assms(1-3)] by (simp add: n_def Let_def)

lemma pick_roll_effect_witness:
  "op_roll \<lparr>stk = [[0x81], [1], [2]], max_size = 1000\<rparr> = Inr \<lparr>stk = [[1], [2]], max_size = 1000\<rparr> \<and>
   op_pick \<lparr>stk = [[0x81], [1], [2]], max_size = 1000\<rparr> = Inr \<lparr>stk = [[2], [1], [2]], max_size = 1000\<rparr>"
  using pick_roll_effect [of "\<lparr>stk = [[0x81], [1], [2]], max_size = 1000\<rparr>" "[0x81]" "[[1], [2]]"]
  by (simp add: stack_inv_def script_num_value_def)

section \<open>The size bound\<close>

definition keeps :: "(bit_stack \<Rightarrow> bit_stack result) \<Rightarrow> bool" where
  "keeps f \<longleftrightarrow> (\<forall>s s'. stack_inv s \<longrightarrow> f s = Inr s' \<longrightarrow> stack_inv s' \<and> max_size s' = max_size s)"

lemma shuffle_spec_inv: "shuffle_spec k js s = Inr s' \<Longrightarrow> stack_inv s' \<and> max_size s' = max_size s"
  by (auto simp: shuffle_spec_def Let_def stack_inv_def split: if_splits)

lemma push_number_inv:
  "push_number s v r = Inr s' \<Longrightarrow> length r < max_size s \<Longrightarrow> stack_inv s' \<and> max_size s' = max_size s"
  by (auto simp: push_number_def stack_inv_def split: if_splits)

lemma unary_spec_inv: "stack_inv s \<Longrightarrow> unary_spec f s = Inr s' \<Longrightarrow> stack_inv s' \<and> max_size s' = max_size s"
  by (auto simp: unary_spec_def stack_inv_def split: list.splits if_splits
      dest!: push_number_inv [unfolded stack_inv_def])

lemma binary_spec_inv: "stack_inv s \<Longrightarrow> binary_spec f s = Inr s' \<Longrightarrow> stack_inv s' \<and> max_size s' = max_size s"
  by (auto simp: binary_spec_def stack_inv_def split: list.splits if_splits
      dest!: push_number_inv [unfolded stack_inv_def])

lemma keeps_specs:
  assumes "\<And>s. stack_inv s \<Longrightarrow> f s = g s"
    and "\<And>s s'. stack_inv s \<Longrightarrow> g s = Inr s' \<Longrightarrow> stack_inv s' \<and> max_size s' = max_size s"
  shows "keeps f"
  using assms unfolding keeps_def by metis

lemma keeps_pop_push: "keeps (\<lambda>s. bindR (pop s) (\<lambda>(x, s1). push s1 (F x)))"
  by (auto simp: keeps_def dest!: pop_inv push_inv)

lemma keeps_shuffles:
  "keeps op_2drop" "keeps op_2dup" "keeps op_3dup" "keeps op_2over" "keeps op_2rot" "keeps op_2swap"
  "keeps op_drop" "keeps op_dup" "keeps op_nip" "keeps op_over" "keeps op_rot" "keeps op_swap"
  "keeps op_tuck"
  by (rule keeps_specs, erule shuffle_ops, erule shuffle_spec_inv)+

lemma keeps_numeric:
  "keeps op_1add" "keeps op_1sub" "keeps op_negate" "keeps op_abs" "keeps op_not" "keeps op_0notequal"
  "keeps op_add" "keeps op_sub" "keeps op_booland" "keeps op_boolor" "keeps op_numequal"
  "keeps op_numnotequal" "keeps op_lessthan" "keeps op_greaterthan" "keeps op_lessthanorequal"
  "keeps op_greaterthanorequal" "keeps op_min" "keeps op_max"
  by (rule keeps_specs, erule unary_ops, erule (1) unary_spec_inv)+
    (rule keeps_specs, erule binary_ops, erule (1) binary_spec_inv)+

lemma keeps_pushes:
  "keeps op_false" "keeps op_true" "keeps op_1negate" "keeps op_depth" "keeps op_ifdup" "keeps op_size"
  by (auto simp: keeps_def op_false_def op_true_def op_1negate_def op_depth_def op_ifdup_def op_size_def
      dest!: pushbool_inv push_inv split: if_splits option.splits)

lemma keeps_hashes:
  "keeps (op_ripemd160 H)" "keeps (op_sha1 H)" "keeps (op_sha256 H)" "keeps (op_hash160 H)"
  "keeps (op_hash256 H)"
  unfolding op_ripemd160_def op_sha1_def op_sha256_def op_hash160_def op_hash256_def
  by (rule keeps_pop_push)+

lemma keeps_rest: "keeps op_pick" "keeps op_roll" "keeps op_equal" "keeps op_within"
  by (auto simp: keeps_def op_pick_def op_roll_def op_equal_def op_within_def
      dest!: push_inv pushlist_inv pushbool_inv popnum_inv popitems_inv pop_inv)

lemmas keeps_all = keeps_shuffles keeps_numeric keeps_pushes keeps_hashes keeps_rest

lemma op_verify_inv:
  "stack_inv s \<Longrightarrow> op_verify s = Inr (b, s') \<Longrightarrow> stack_inv s' \<and> max_size s' = max_size s"
  by (auto simp: op_verify_def dest!: pop_inv split: if_splits)

lemma op_equalverify_inv:
  "stack_inv s \<Longrightarrow> op_equalverify s = Inr (b, s') \<Longrightarrow> stack_inv s' \<and> max_size s' = max_size s"
  by (auto simp: op_equalverify_def dest!: pop_inv pushbool_inv op_verify_inv [rotated])

lemma op_numequalverify_inv:
  "stack_inv s \<Longrightarrow> op_numequalverify s = Inr (b, s') \<Longrightarrow> stack_inv s' \<and> max_size s' = max_size s"
  by (auto simp: op_numequalverify_def dest!: popnum_inv pushbool_inv op_verify_inv [rotated])

lemma alt_inv:
  "stack_inv s \<Longrightarrow> stack_inv a \<Longrightarrow> op_toaltstack s a = Inr (s', a') \<or> op_fromaltstack s a = Inr (s', a')
    \<Longrightarrow> stack_inv s' \<and> stack_inv a' \<and> max_size s' = max_size s \<and> max_size a' = max_size a"
  by (auto simp: op_toaltstack_def op_fromaltstack_def dest!: pop_inv push_inv)

lemma OPCODE_MAP_MainOp_keeps: "OPCODE_MAP H opcode = Some (MainOp f) \<Longrightarrow> keeps f"
  unfolding OPCODE_MAP_def by (drule map_of_SomeD) (auto simp: keeps_all)

lemma OPCODE_MAP_VerifyOp:
  "OPCODE_MAP H opcode = Some (VerifyOp f) \<Longrightarrow> f = op_verify \<or> f = op_equalverify \<or> f = op_numequalverify"
  unfolding OPCODE_MAP_def by (drule map_of_SomeD) auto

lemma OPCODE_MAP_AltOp:
  "OPCODE_MAP H opcode = Some (AltOp f) \<Longrightarrow> f = op_toaltstack \<or> f = op_fromaltstack"
  unfolding OPCODE_MAP_def by (drule map_of_SomeD) auto

text \<open>No function of the dispatch table makes a stack outgrow its bound or changes the bound.\<close>

lemma main_op_inv:
  assumes "OPCODE_MAP H opcode = Some (MainOp f)" and "stack_inv s" and "f s = Inr s'"
  shows "stack_inv s' \<and> max_size s' = max_size s"
  using OPCODE_MAP_MainOp_keeps [OF assms(1)] assms(2,3) unfolding keeps_def by blast

lemma alt_op_inv:
  assumes "OPCODE_MAP H opcode = Some (AltOp f)" and "stack_inv s" and "stack_inv a" and "f s a = Inr (s', a')"
  shows "stack_inv s' \<and> stack_inv a' \<and> max_size s' = max_size s \<and> max_size a' = max_size a"
  using OPCODE_MAP_AltOp [OF assms(1)] alt_inv [OF assms(2,3)] assms(4) by blast

lemma verify_op_inv:
  assumes "OPCODE_MAP H opcode = Some (VerifyOp f)" and "stack_inv s" and "f s = Inr (b, s')"
  shows "stack_inv s' \<and> max_size s' = max_size s"
  using OPCODE_MAP_VerifyOp [OF assms(1)] assms(2,3)
    op_verify_inv op_equalverify_inv op_numequalverify_inv by blast

end
