(* ===== verification/Transaction_Facts.thy ===== *)
theory Transaction_Facts
  imports Transactions
begin

text \<open>
  Properties of transactions: the wire round trip, weight as the stripped and full sizes give it,
  what the identifiers commit to, and the invariants of a loaded transaction.
\<close>

section \<open>Round trip\<close>

lemma compact_size_first_byte:
  "write_compact_size v = Inr bs \<Longrightarrow> v \<noteq> 0 \<Longrightarrow> \<exists>b r. bs = b # r \<and> b \<noteq> 0"
proof (elim write_compact_size_cases)
  assume "v \<noteq> 0" "0 \<le> v" "v \<le> 252" "bs = le_bytes 1 v"
  moreover have "uint (word_of_int v :: byte) = v" using calculation by (simp add: uint_word_of_int)
  ultimately show ?thesis by (auto simp del: uint_word_of_int simp flip: uint_0_iff)
qed auto

lemma read_many_txin:
  "list_all txin_wf xs \<Longrightarrow> write_all txin_to_bytes xs = Inr b \<Longrightarrow>
     read_many txin_from_bytes (length xs) (b @ rest) = Inr (xs, rest)"
  by (rule txin.read_many_write_all)

lemma read_many_txout:
  "write_all txout_to_bytes xs = Inr b \<Longrightarrow>
     read_many txout_from_bytes (length xs) (b @ rest) = Inr (xs, rest)"
  by (rule txout.read_many_write_all) (simp_all add: list_all_iff)

lemma read_many_wit:
  "write_all witness_to_bytes xs = Inr b \<Longrightarrow>
     read_many witness_from_bytes (length xs) (b @ rest) = Inr (xs, rest)"
  by (rule wit.read_many_write_all) (simp_all add: list_all_iff)

lemmas tx_read_simps = read_many_txin read_many_txout read_many_wit stream_simps

lemma tx_round_trip:
  assumes "tx_wf t" and "tx_to_bytes t = Inr bs"
  shows "tx_from_bytes (bs @ rest) = Inr (t, rest)"
proof (cases "tx_is_segwit t")
  case True
  then have wl: "length (t_witness t) = length (t_inputs t)"
    using assms(1) by (auto simp: tx_wf_def tx_is_segwit_def)
  obtain v i o' w l
    where parts: "to_bytes_le 4 (t_version t) = Inr v" "get_input_bytes t = Inr i"
      "get_output_bytes t = Inr o'" "get_witness_bytes t = Inr w" "to_bytes_le 4 (t_locktime t) = Inr l"
      "bs = v @ [0, 1] @ i @ o' @ w @ l"
    using assms(2) True by (auto simp: tx_to_bytes_def)
  from parts(2,3) obtain ni ib no ob
    where n: "write_compact_size (int (length (t_inputs t))) = Inr ni"
      "write_all txin_to_bytes (t_inputs t) = Inr ib" "i = ni @ ib"
      "write_compact_size (int (length (t_outputs t))) = Inr no"
      "write_all txout_to_bytes (t_outputs t) = Inr ob" "o' = no @ ob"
    by (auto simp: get_input_bytes_def get_output_bytes_def)
  have wm: "read_many witness_from_bytes (length (t_inputs t)) (w @ r) = Inr (t_witness t, r)" for r
    using read_many_wit [of "t_witness t" w r] parts(4) wl by (simp add: get_witness_bytes_def)
  have "list_all txin_wf (t_inputs t)" using assms(1) by (simp add: tx_wf_def)
  with parts n wm show ?thesis by (simp add: tx_from_bytes_def tx_read_simps)
next
  case False
  obtain v i o' l
    where parts: "to_bytes_le 4 (t_version t) = Inr v" "get_input_bytes t = Inr i"
      "get_output_bytes t = Inr o'" "to_bytes_le 4 (t_locktime t) = Inr l"
      "bs = v @ i @ o' @ l"
    using assms(2) False by (auto simp: tx_to_bytes_def)
  from parts(2,3) obtain ni ib no ob
    where n: "write_compact_size (int (length (t_inputs t))) = Inr ni"
      "write_all txin_to_bytes (t_inputs t) = Inr ib" "i = ni @ ib"
      "write_compact_size (int (length (t_outputs t))) = Inr no"
      "write_all txout_to_bytes (t_outputs t) = Inr ob" "o' = no @ ob"
    by (auto simp: get_input_bytes_def get_output_bytes_def)
  have ins: "list_all txin_wf (t_inputs t)" "int (length (t_inputs t)) \<noteq> 0"
    using assms(1) by (auto simp: tx_wf_def)
  from compact_size_first_byte [OF n(1) ins(2)] obtain c ni' where c: "ni = c # ni'" "c \<noteq> 0"
    by auto
  have w: "t_witness t = []" using False by (simp add: tx_is_segwit_def)
  have "tx_from_bytes (bs @ rest) =
      bindR (Inr (False, i @ o' @ l @ rest)) (\<lambda>(segwit, s2).
     bindR (read_compact_size s2) (\<lambda>(num_inputs, s3).
     bindR (read_many txin_from_bytes (nat num_inputs) s3) (\<lambda>(inputs, s4).
     bindR (read_compact_size s4) (\<lambda>(num_outputs, s5).
     bindR (read_many txout_from_bytes (nat num_outputs) s5) (\<lambda>(outputs, s6).
     bindR (if segwit then read_many witness_from_bytes (nat num_inputs) s6 else Inr ([], s6))
       (\<lambda>(witness, s7).
     bindR (read_little_int 4 s7) (\<lambda>(locktime, s8).
       Inr (\<lparr>t_inputs = inputs, t_outputs = outputs, t_witness = witness, t_locktime = locktime,
             t_version = t_version t\<rparr>, s8))))))))"
    using parts n c by (simp add: tx_from_bytes_def tx_read_simps)
  also have "\<dots> = Inr (t, rest)"
    using parts n ins w by (simp add: tx_read_simps)
  finally show ?thesis .
qed

interpretation txs: codec tx_to_bytes tx_from_bytes tx_wf
  by unfold_locales (rule tx_round_trip)

text \<open>
  C38: parsing undoes serialisation: any sequence of well-formed transactions that serialises is
  read back as the same transactions, legacy and SegWit alike, with the rest of the stream left
  unread; in particular two different well-formed transactions never serialise to the same bytes.
\<close>

theorem transactions_round_trip:
  assumes "list_all tx_wf ts" and "write_all tx_to_bytes ts = Inr bs"
  shows "read_many tx_from_bytes (length ts) (bs @ rest) = Inr (ts, rest)"
  using assms by (rule txs.read_many_write_all)

definition sample_tx :: tx where
  "sample_tx = \<lparr>t_inputs = [\<lparr>in_txid = replicate 32 7, in_vout = 1, in_scriptsig = [0x51],
      in_sequence = 0xfffffffe\<rparr>],
    t_outputs = [\<lparr>out_amount = 5000, out_scriptpubkey = [0x6a]\<rparr>], t_witness = [[[1, 2], []]],
    t_locktime = 9, t_version = 2\<rparr>"

lemmas write_eval = to_bytes_le_def write_compact_size_def MAX_COMPACTSIZE_def serialize_data_def
  eval_nat_numeral

lemma sample_tx_bytes: "\<exists>bs. tx_to_bytes sample_tx = Inr bs"
  by (simp add: sample_tx_def tx_to_bytes_def tx_is_segwit_def get_input_bytes_def
      get_output_bytes_def get_witness_bytes_def witness_to_bytes_def txin_to_bytes_def
      txout_to_bytes_def serialize_data_def write_compact_size_def MAX_COMPACTSIZE_def to_bytes_le_def)

lemma sample_tx_stripped: "\<exists>bs. get_txid_preimage sample_tx = Inr bs"
  by (simp add: sample_tx_def get_txid_preimage_def get_input_bytes_def get_output_bytes_def
      txin_to_bytes_def txout_to_bytes_def serialize_data_def write_compact_size_def
      MAX_COMPACTSIZE_def to_bytes_le_def tx_is_segwit_def tx_to_bytes_def)

lemma sample_tx_wf: "tx_wf sample_tx"
  by (simp add: sample_tx_def tx_wf_def txin_wf_def)

lemma transactions_round_trip_witness:
  "\<exists>bs. tx_to_bytes sample_tx = Inr bs \<and>
     read_many tx_from_bytes 1 (bs @ [9, 9]) = Inr ([sample_tx], [9, 9])"
proof -
  obtain bs where bs: "tx_to_bytes sample_tx = Inr bs" using sample_tx_bytes by blast
  then have "write_all tx_to_bytes [sample_tx] = Inr bs" by simp
  with transactions_round_trip [of "[sample_tx]" bs "[9, 9]"] sample_tx_wf bs show ?thesis by simp
qed

section \<open>Weight\<close>

lemma sum_lengths_write_all:
  "sum_lengths f xs = bindR (write_all f xs) (\<lambda>b. Inr (int (length b)))"
  by (induction xs) (auto simp: bindR_assoc bindR_def split: sum.splits)

lemma tx_wu_sizes:
  assumes "tx_to_bytes t = Inr full" and "get_txid_preimage t = Inr stripped"
  shows "tx_wu t = Inr (3 * int (length stripped) + int (length full))"
proof (cases "tx_is_segwit t")
  case True
  with assms show ?thesis
    by (auto simp: tx_wu_def tx_to_bytes_def get_txid_preimage_def get_input_bytes_def
        get_output_bytes_def get_witness_bytes_def sum_lengths_write_all result_iff)
next
  case False
  with assms show ?thesis by (simp add: tx_wu_def get_txid_preimage_def)
qed

text \<open>
  weight follows BIP 141: three times the size without witness data plus the full size (four
  times the size for a legacy transaction), and the virtual size is a quarter of it rounded up.
\<close>

theorem weight_is_bip141:
  assumes "tx_to_bytes t = Inr full" and "get_txid_preimage t = Inr stripped"
  shows "\<exists>w. tx_wu t = Inr w \<and> w = 3 * int (length stripped) + int (length full)
     \<and> tx_vbytes t = Inr (- ((- w) div 4))"
proof -
  have "(w + 3) div 4 = - ((- w) div 4)" for w :: int by presburger
  then show ?thesis by (simp add: tx_vbytes_def tx_wu_sizes [OF assms])
qed

lemma weight_is_bip141_witness:
  "\<exists>full stripped w. tx_to_bytes sample_tx = Inr full \<and> get_txid_preimage sample_tx = Inr stripped
     \<and> tx_wu sample_tx = Inr w \<and> w = 3 * int (length stripped) + int (length full)"
proof -
  obtain full where "tx_to_bytes sample_tx = Inr full" using sample_tx_bytes by blast
  moreover obtain stripped where "get_txid_preimage sample_tx = Inr stripped"
    using sample_tx_stripped by blast
  ultimately show ?thesis using weight_is_bip141 by blast
qed

section \<open>Identifiers\<close>

text \<open>
  the txid commits to everything but the witness: replacing or dropping the witness of a
  SegWit transaction changes neither the preimage nor the txid, and the preimage is the legacy
  serialisation of the transaction without witness.
\<close>

theorem txid_ignores_witness:
  "get_txid_preimage (t\<lparr>t_witness := w\<rparr>) = tx_to_bytes (t\<lparr>t_witness := []\<rparr>)
     \<and> tx_txid H (t\<lparr>t_witness := w\<rparr>) = tx_txid H t"
proof -
  have eq: "get_txid_preimage (t\<lparr>t_witness := w\<rparr>) = tx_to_bytes (t\<lparr>t_witness := []\<rparr>)" for w
    by (simp add: get_txid_preimage_def tx_to_bytes_def tx_is_segwit_def get_input_bytes_def
        get_output_bytes_def)
  have "get_txid_preimage (t\<lparr>t_witness := w\<rparr>) = get_txid_preimage t"
    using eq [of w] eq [of "t_witness t"] by simp
  then show ?thesis by (simp add: eq tx_txid_def)
qed

text \<open>
  for a legacy transaction the wtxid preimage is the serialisation; for a SegWit transaction
  it holds the same parts with the locktime before the witness, so it equals the BIP 141
  serialisation only when the two happen to commute.
\<close>

theorem wtxid_preimage_order:
  assumes "get_witness_bytes t = Inr w" and "to_bytes_le 4 (t_locktime t) = Inr l"
    and "tx_to_bytes t = Inr full"
  shows "(\<not> tx_is_segwit t \<longrightarrow> get_wtxid_preimage t = Inr full)
    \<and> (tx_is_segwit t \<longrightarrow> (\<exists>pre. full = pre @ w @ l \<and> get_wtxid_preimage t = Inr (pre @ l @ w)
         \<and> (get_wtxid_preimage t = Inr full \<longleftrightarrow> l @ w = w @ l)))"
  using assms by (auto simp: get_wtxid_preimage_def tx_to_bytes_def)

lemma wtxid_preimage_order_witness:
  "\<exists>full. tx_to_bytes sample_tx = Inr full \<and> get_wtxid_preimage sample_tx \<noteq> Inr full"
proof -
  obtain full where f: "tx_to_bytes sample_tx = Inr full" using sample_tx_bytes by blast
  have w: "get_witness_bytes sample_tx = Inr [2, 2, 1, 2, 0]"
    by (simp add: sample_tx_def get_witness_bytes_def witness_to_bytes_def write_eval)
  have l: "to_bytes_le 4 (t_locktime sample_tx) = Inr [9, 0, 0, 0]"
    by (simp add: sample_tx_def write_eval)
  have "tx_is_segwit sample_tx" by (simp add: sample_tx_def tx_is_segwit_def)
  with wtxid_preimage_order [OF w l f] f show ?thesis by auto
qed

section \<open>Loaded transactions\<close>

lemma check_outpoints_iff:
  "length is = length us \<Longrightarrow>
     check_outpoints is us = Inr () \<longleftrightarrow> map txin_outpoint is = map (\<lambda>u. Inr (u_outpoint u)) us"
  by (induction "is" us rule: check_outpoints.induct) (auto simp: result_iff)

lemma utxo_for_input_aligned:
  assumes "load_tx t (Some us) = Inr l" and "i < length (t_inputs t)"
  shows "\<exists>u. utxo_for_input l i = Inr u \<and> txin_outpoint (t_inputs t ! i) = Inr (u_outpoint u)"
proof -
  have len: "length us = length (t_inputs t)" and l: "l = \<lparr>l_tx = t, l_utxos = us\<rparr>"
    and c: "check_outpoints (t_inputs t) us = Inr ()"
    using assms(1) by (auto simp: load_tx_def split: if_splits)
  have "map txin_outpoint (t_inputs t) ! i = map (\<lambda>u. Inr (u_outpoint u)) us ! i"
    using c len by (simp add: check_outpoints_iff)
  then show ?thesis using len assms(2) by (auto simp: l utxo_for_input_def index_at_def)
qed

text \<open>
  loading succeeds exactly when there is one UTXO per input and each has the outpoint its
  input spends; then every input index finds its own UTXO, and the fee is the difference of the
  totals when that is not negative and raises otherwise.
\<close>

theorem loaded_tx_aligned:
  "(load_tx t (Some us) = Inr l \<longleftrightarrow> l = \<lparr>l_tx = t, l_utxos = us\<rparr>
      \<and> map txin_outpoint (t_inputs t) = map (\<lambda>u. Inr (u_outpoint u)) us)
   \<and> (tx_fee H \<lparr>l_tx = t, l_utxos = us\<rparr> = Inr f \<longleftrightarrow>
        0 \<le> f \<and> sum_list (map u_amount us) = sum_list (map out_amount (t_outputs t)) + f)"
proof -
  have "load_tx t (Some us) = Inr l \<longleftrightarrow> l = \<lparr>l_tx = t, l_utxos = us\<rparr>
      \<and> map txin_outpoint (t_inputs t) = map (\<lambda>u. Inr (u_outpoint u)) us"
  proof (cases "length us = length (t_inputs t)")
    case True
    then show ?thesis using check_outpoints_iff [of "t_inputs t" us]
      by (auto simp: load_tx_def result_iff)
  next
    case False
    then show ?thesis by (auto simp: load_tx_def dest: map_eq_imp_length_eq)
  qed
  then show ?thesis
    by (auto simp: tx_fee_def input_total_def output_total_def Let_def result_iff split: if_splits)
qed

end
