(* ===== verification/Sig_Hash_Facts.thy ===== *)
theory Sig_Hash_Facts
  imports Sig_Hash Transaction_Facts Bit_Num Encoding
begin

unbundle bit_operations_syntax

text \<open>
  What the signature hashes commit to. The preimages are exposed as bodies that do not depend on
  the hash type; for Taproot, hash types other than ALL and SINGLE leave the outputs out.
\<close>

section \<open>Clones\<close>

lemma tx_clone_id: "tx_wf t \<Longrightarrow> tx_to_bytes t = Inr b \<Longrightarrow> tx_clone t = Inr t"
  using tx_round_trip [of t b "[]"] by (simp add: tx_clone_def)

lemma sighash_new_member [simp]:
  "sighash_new n = Inr m \<longleftrightarrow> n \<in> {0x00, 0x01, 0x02, 0x03, 0x81, 0x82, 0x83} \<and> m = n"
  unfolding sighash_new_def by (cases "n \<in> {0x00, 0x01, 0x02, 0x03, 0x81, 0x82, 0x83}") auto

definition sighash_types :: "int set" where
  "sighash_types = {0x00, 0x01, 0x02, 0x03, 0x81, 0x82, 0x83}"

lemma sighash_types_bytes: "n \<in> sighash_types \<Longrightarrow> sighash_for_hashing n = Inr (le_bytes 4 n)"
  by (auto simp: sighash_types_def sighash_for_hashing_def to_bytes_le_def)

lemma sighash_types_new: "n \<in> sighash_types \<Longrightarrow> sighash_new n = Inr n"
  by (simp add: sighash_types_def)

section \<open>Legacy and SegWit v0\<close>

definition legacy_body :: "tx \<Rightarrow> int \<Rightarrow> bytes \<Rightarrow> bytes result" where
  "legacy_body t input_index scriptpubkey =
     bindR (tx_clone t) (\<lambda>copy.
       let blank = map (\<lambda>i. i\<lparr>in_scriptsig := []\<rparr>) (t_inputs copy) in
       bindR (set_scriptsig blank input_index scriptpubkey) (\<lambda>ins.
         get_txid_preimage (copy\<lparr>t_inputs := ins\<rparr>)))"

lemma legacy_sighash_body:
  "n \<in> sighash_types \<Longrightarrow>
     get_legacy_sighash H t i s n = bindR (legacy_body t i s) (\<lambda>b. Inr (hash256 H (b @ le_bytes 4 n)))"
  by (simp add: get_legacy_sighash_def legacy_body_def Let_def sighash_types_new sighash_types_bytes
      bindR_assoc)

definition segwit_body :: "hashes \<Rightarrow> tx \<Rightarrow> int \<Rightarrow> int \<Rightarrow> bytes \<Rightarrow> bytes result" where
  "segwit_body H t input_index amount scriptpubkey =
     bindR (tx_clone t) (\<lambda>copy.
     bindR (to_bytes_le 4 (t_version copy)) (\<lambda>serialized_version.
     bindR (write_all txin_outpoint (t_inputs copy)) (\<lambda>serialized_inputs.
     bindR (write_all sequence_bytes (t_inputs copy)) (\<lambda>serialized_sequences.
     bindR (py_index (t_inputs copy) input_index) (\<lambda>my_input.
     bindR (txin_outpoint my_input) (\<lambda>my_input_outpoint.
     bindR (to_bytes_le 8 amount) (\<lambda>serialized_amount.
     bindR (sequence_bytes my_input) (\<lambda>my_sequence.
     bindR (write_all txout_to_bytes (t_outputs copy)) (\<lambda>serialized_outputs.
     bindR (to_bytes_le 4 (t_locktime copy)) (\<lambda>serialized_locktime.
       Inr (serialized_version @ hash256 H serialized_inputs
             @ hash256 H serialized_sequences @ my_input_outpoint @ scriptpubkey @ serialized_amount
             @ my_sequence @ hash256 H serialized_outputs @ serialized_locktime)))))))))))"

lemma segwit_sighash_body:
  "n \<in> sighash_types \<Longrightarrow> get_segwit_sighash H t i a s n =
     bindR (segwit_body H t i a s) (\<lambda>b. Inr (hash256 H (b @ le_bytes 4 n)))"
  unfolding get_segwit_sighash_def segwit_body_def Let_def bindR_assoc bindR_simps
  by (simp only: sighash_types_new sighash_types_bytes bindR_simps append.assoc)

text \<open>
  the hash type changes only the four bytes appended to the preimage: one body serves every
  hash type, for legacy and for SegWit inputs, so that a NONE, SINGLE or ANYONECANPAY signature
  commits to the same inputs and outputs as an ALL signature.
\<close>

theorem sighash_types_share_body:
  assumes "get_legacy_sighash H t i s 1 = Inr h" and "get_segwit_sighash H t i a s 1 = Inr h'"
  shows "\<exists>body body'. \<forall>n \<in> sighash_types.
      get_legacy_sighash H t i s n = Inr (hash256 H (body @ le_bytes 4 n))
    \<and> get_segwit_sighash H t i a s n = Inr (hash256 H (body' @ le_bytes 4 n))"
proof -
  have one: "1 \<in> sighash_types" by (simp add: sighash_types_def)
  from assms(1) legacy_sighash_body [OF one] obtain b where "legacy_body t i s = Inr b" by auto
  moreover from assms(2) segwit_sighash_body [OF one] obtain b' where
    "segwit_body H t i a s = Inr b'" by auto
  ultimately show ?thesis
    using legacy_sighash_body [of _ H t i s] segwit_sighash_body [of _ H t i a s] by auto
qed

definition spend_tx :: tx where
  "spend_tx = \<lparr>t_inputs = [\<lparr>in_txid = replicate 32 7, in_vout = 0, in_scriptsig = [],
      in_sequence = 0xfffffffe\<rparr>],
    t_outputs = [\<lparr>out_amount = 5000, out_scriptpubkey = [0x51]\<rparr>], t_witness = [],
    t_locktime = 100, t_version = 2\<rparr>"

lemma spend_tx_clone: "tx_clone spend_tx = Inr spend_tx"
proof -
  have "\<exists>b. tx_to_bytes spend_tx = Inr b"
    by (simp add: spend_tx_def tx_to_bytes_def tx_is_segwit_def get_input_bytes_def
        get_output_bytes_def txin_to_bytes_def txout_to_bytes_def serialize_data_def
        write_compact_size_def MAX_COMPACTSIZE_def to_bytes_le_def)
  moreover have "tx_wf spend_tx" by (simp add: spend_tx_def tx_wf_def txin_wf_def)
  ultimately show ?thesis using tx_clone_id by blast
qed

lemma spend_tx_sighashes:
  "\<exists>h. get_legacy_sighash H spend_tx 0 [0x51] 1 = Inr h"
  "\<exists>h. get_segwit_sighash H spend_tx 0 9000 [0x51] 1 = Inr h"
  unfolding get_legacy_sighash_def get_segwit_sighash_def spend_tx_clone
  by (simp_all add: spend_tx_def set_scriptsig_def get_txid_preimage_def tx_to_bytes_def
      tx_is_segwit_def get_input_bytes_def get_output_bytes_def txin_to_bytes_def txout_to_bytes_def
      serialize_data_def write_compact_size_def MAX_COMPACTSIZE_def to_bytes_le_def sighash_new_def
      sighash_for_hashing_def txin_outpoint_def sequence_bytes_def py_index_def Let_def)

lemma sighash_types_share_body_witness:
  "\<exists>body. get_legacy_sighash pad_hashes spend_tx 0 [0x51] 1 = Inr (hash256 pad_hashes (body @ [1, 0, 0, 0]))
     \<and> get_legacy_sighash pad_hashes spend_tx 0 [0x51] 0x83 = Inr (hash256 pad_hashes (body @ [0x83, 0, 0, 0]))"
proof -
  obtain h h' where "get_legacy_sighash pad_hashes spend_tx 0 [0x51] 1 = Inr h"
    "get_segwit_sighash pad_hashes spend_tx 0 9000 [0x51] 1 = Inr h'"
    using spend_tx_sighashes by blast
  from sighash_types_share_body [OF this] obtain body where
    "\<forall>n \<in> sighash_types. get_legacy_sighash pad_hashes spend_tx 0 [0x51] n = Inr (hash256 pad_hashes (body @ le_bytes 4 n))"
    by blast
  then show ?thesis
    by (intro exI [of _ body]) (simp add: sighash_types_def eval_nat_numeral)
qed

section \<open>Taproot\<close>

lemma taproot_sighash_outputs:
  assumes t: "tx_clone (t\<lparr>t_outputs := os\<rparr>) = Inr (t\<lparr>t_outputs := os\<rparr>)"
    and t': "tx_clone (t\<lparr>t_outputs := os'\<rparr>) = Inr (t\<lparr>t_outputs := os'\<rparr>)"
    and os: "write_all txout_to_bytes os = Inr b" "write_all txout_to_bytes os' = Inr b'"
    and i: "0 \<le> i" "nat i < length os" "nat i < length os'"
    and n: "n \<noteq> 0x01" "n \<noteq> 0x03"
  shows "get_taproot_sighash H (t\<lparr>t_outputs := os\<rparr>) i us ext n annex leaf csp
       = get_taproot_sighash H (t\<lparr>t_outputs := os'\<rparr>) i us ext n annex leaf csp"
proof -
  have nth: "\<exists>o1 c1. py_index xs i = Inr o1 \<and> txout_to_bytes o1 = Inr c1"
    if "write_all txout_to_bytes xs = Inr c" "nat i < length xs" for xs c
  proof -
    have "\<exists>c1. txout_to_bytes (xs ! k) = Inr c1" if "write_all txout_to_bytes xs = Inr c" "k < length xs" for k xs c
      using that by (induction xs arbitrary: k c) (auto simp: nth_Cons split: nat.splits)
    with that show ?thesis using i(1) by (auto simp: py_index_nat index_at_def)
  qed
  obtain o1 c1 where o1: "py_index os i = Inr o1" "txout_to_bytes o1 = Inr c1"
    using nth [OF os(1) i(2)] by blast
  obtain o2 c2 where o2: "py_index os' i = Inr o2" "txout_to_bytes o2 = Inr c2"
    using nth [OF os(2) i(3)] by blast
  have "sighash_new n = Inr m \<Longrightarrow> m \<noteq> 1 \<and> m \<noteq> 3" for m using n by auto
  then show ?thesis
    unfolding get_taproot_sighash_def t t'
    by (auto simp: os o1 o2 Let_def intro!: bindR_cong)
qed

text \<open>
  a Taproot signature with the default hash type (0, what a 64-byte signature means) does not
  commit to the outputs: two transactions that differ only in their outputs have the same
  signature hash, for key and script paths.
\<close>

theorem taproot_default_ignores_outputs:
  assumes "tx_wf t" and "0 \<le> i" and "nat i < length os" and "nat i < length os'"
    and "tx_to_bytes (t\<lparr>t_outputs := os\<rparr>) = Inr b" and "tx_to_bytes (t\<lparr>t_outputs := os'\<rparr>) = Inr b'"
  shows "get_taproot_sighash H (t\<lparr>t_outputs := os\<rparr>) i us ext 0 annex leaf csp
       = get_taproot_sighash H (t\<lparr>t_outputs := os'\<rparr>) i us ext 0 annex leaf csp"
proof -
  have wf: "tx_wf (t\<lparr>t_outputs := xs\<rparr>)" for xs using assms(1) by (simp add: tx_wf_def)
  have out: "\<exists>c. write_all txout_to_bytes xs = Inr c" if "tx_to_bytes (t\<lparr>t_outputs := xs\<rparr>) = Inr c" for xs c
    using that
    by (cases "tx_is_segwit (t\<lparr>t_outputs := xs\<rparr>)") (auto simp: tx_to_bytes_def get_output_bytes_def)
  from out [OF assms(5)] out [OF assms(6)] show ?thesis
    using taproot_sighash_outputs [OF tx_clone_id [OF wf assms(5)] tx_clone_id [OF wf assms(6)] _ _ assms(2,3,4)]
    by auto
qed

definition spent_utxo :: utxo where
  "spent_utxo = \<lparr>u_outpoint = replicate 36 7, u_amount = 9000, u_scriptpubkey = [0x51, 0x20] @ replicate 32 1,
     u_block_height = 1, u_is_coinbase = False\<rparr>"

lemma taproot_default_ignores_outputs_witness:
  "get_taproot_sighash pad_hashes (spend_tx\<lparr>t_outputs := [\<lparr>out_amount = 1, out_scriptpubkey = [0x51]\<rparr>]\<rparr>)
     0 [spent_utxo] 0 0 None None CODESEP_DEFAULT
   = get_taproot_sighash pad_hashes (spend_tx\<lparr>t_outputs := [\<lparr>out_amount = 4999, out_scriptpubkey = [0x52]\<rparr>]\<rparr>)
     0 [spent_utxo] 0 0 None None CODESEP_DEFAULT"
proof -
  have "\<exists>b. tx_to_bytes (spend_tx\<lparr>t_outputs := [\<lparr>out_amount = a, out_scriptpubkey = [k]\<rparr>]\<rparr>) = Inr b"
    if "0 \<le> a" "a < 5000" for a k
    using that
    by (simp add: spend_tx_def tx_to_bytes_def tx_is_segwit_def get_input_bytes_def
        get_output_bytes_def txin_to_bytes_def txout_to_bytes_def serialize_data_def
        write_compact_size_def MAX_COMPACTSIZE_def to_bytes_le_def)
  then obtain b b' where
    "tx_to_bytes (spend_tx\<lparr>t_outputs := [\<lparr>out_amount = 1, out_scriptpubkey = [0x51]\<rparr>]\<rparr>) = Inr b"
    "tx_to_bytes (spend_tx\<lparr>t_outputs := [\<lparr>out_amount = 4999, out_scriptpubkey = [0x52]\<rparr>]\<rparr>) = Inr b'"
    by force
  moreover have "tx_wf spend_tx" by (simp add: spend_tx_def tx_wf_def txin_wf_def)
  ultimately show ?thesis by (intro taproot_default_ignores_outputs) simp_all
qed

text \<open>
  no Taproot input can be signed or verified when the transaction has no output at the
  input's index, whatever the hash type: the hash of the single output is computed in every case.
\<close>

theorem taproot_needs_output_at_index:
  assumes "tx_clone t = Inr t" and "int (length (t_outputs t)) \<le> i"
  shows "\<exists>e. get_taproot_sighash H t i us ext n annex leaf csp = Inl e"
proof -
  have "py_index (t_outputs t) i = Inl IndexError" using assms(2) by (simp add: py_index_def)
  moreover have "\<exists>e. bindR m (\<lambda>x. Inl e') = (Inl e :: bytes result)" for m :: "'a result" and e'
    by (cases m) auto
  ultimately have "get_taproot_sighash H t i us ext n annex leaf csp \<noteq> Inr h" for h
    unfolding get_taproot_sighash_def assms(1) by (auto split: prod.splits)
  then show ?thesis by (cases "get_taproot_sighash H t i us ext n annex leaf csp") auto
qed

lemma taproot_needs_output_at_index_witness:
  "\<exists>e. get_taproot_sighash pad_hashes spend_tx 1 [] 0 1 None None CODESEP_DEFAULT = Inl e"
  by (rule taproot_needs_output_at_index [OF spend_tx_clone]) (simp add: spend_tx_def)

section \<open>DER and the caught exceptions\<close>

text \<open>A DER integer with a one-byte length, and what the lax parser makes of it.\<close>

definition der_int :: "bytes \<Rightarrow> bytes" where
  "der_int raw = [0x02, word_of_nat (length raw)] @ raw"

definition strip_zeros :: "bytes \<Rightarrow> bytes" where
  "strip_zeros raw = dropWhile (\<lambda>b. b = 0) raw"

lemma be_val_strip: "be_val (strip_zeros raw) = be_val raw"
proof -
  have "raw = replicate (length raw - length (strip_zeros raw)) 0 @ strip_zeros raw"
    unfolding strip_zeros_def
  proof (induction raw)
    case (Cons b raw)
    then show ?case
      using length_dropWhile_le [of "\<lambda>b. b = 0" raw] by (auto simp: Suc_diff_le)
  qed simp
  then show ?thesis by (metis be_val_zeros)
qed

lemma short_length_byte:
  assumes "n < 128"
  shows "(word_of_nat n :: byte) AND 0x80 = 0" "uint (word_of_nat n :: byte) = int n"
proof -
  show u: "uint (word_of_nat n :: byte) = int n"
    using assms by (simp add: unsigned_of_nat take_bit_nat_eq_self)
  show "(word_of_nat n :: byte) AND 0x80 = 0"
    using bit7_iff [of "word_of_nat n"] u assms by simp
qed

lemma lax_read_der_int:
  "length raw < 128 \<Longrightarrow> lax_read_int (der_int raw @ rest) = Inr (strip_zeros raw, rest)"
  by (simp add: lax_read_int_def der_int_def lax_read_byte_def lax_read_length_def
      short_length_byte strip_zeros_def)

text \<open>
  the lax parser reads the two integers of a DER signature whatever the sequence length says,
  with redundant zero bytes in front of either integer and with any bytes after them; an integer
  of more than 32 significant bytes makes both zero.
\<close>

theorem lax_der_reads:
  assumes "length r < 128" and "length s < 128" and "len AND 0x80 = 0"
  shows "decode_lax_der_signature ([0x30, len] @ der_int r @ der_int s @ junk)
    = (if length (strip_zeros r) > 32 \<or> length (strip_zeros s) > 32 then Inr (0, 0)
       else Inr (be_val r, be_val s))"
  using assms
  by (simp add: decode_lax_der_signature_def lax_read_byte_def lax_read_der_int be_val_strip)

lemma lax_der_reads_witness:
  "decode_lax_der_signature ([0x30, 0] @ der_int [0, 0, 7] @ der_int [1, 1] @ [0xff]) = Inr (7, 257)"
  using lax_der_reads [of "[0, 0, 7]" "[1, 1]" 0 "[0xff]"]
  by (simp add: strip_zeros_def be_val_def)

text \<open>
  a signature check fails with an exception, not with \<open>False\<close>, when the public key has no
  recognised form or when the decoded numbers are out of range: only type and value errors are
  turned into \<open>False\<close>.
\<close>

theorem bad_key_raises:
  assumes "D sig = Inr rs"
  shows "(length key \<notin> {32, 33, 65} \<longrightarrow> verify_ecdsa_sig D sig msg key True = Inl PubKeyError)
    \<and> (pubkey_from_bytes SECP256K1 key = Inr Q \<and> (fst rs < 1 \<or> cv_order SECP256K1 \<le> fst rs) \<longrightarrow>
      verify_ecdsa_sig D sig msg key True = Inl ECDSAError)"
  using assms
  by (auto simp: verify_ecdsa_sig_def pubkey_from_bytes_def verify_ecdsa_def Let_def guardR_def)

lemma bad_key_raises_witness:
  "verify_ecdsa_sig (\<lambda>_. Inr (1, 1)) [0x30] [] [1, 2, 3] True = Inl PubKeyError"
  using bad_key_raises [of "\<lambda>_. Inr (1, 1)" "[0x30]" "(1, 1)" "[1, 2, 3]" "[]"] by simp

end
