(* ===== verification/Script_Engine_Facts.thy ===== *)
theory Script_Engine_Facts
  imports Script_Engine Opcode_Facts Sig_Hash_Facts "HOL-Library.Sublist"
begin

text \<open>
  The interpreter: its stacks stay bounded whatever is executed, what the signature and lock time
  opcodes decide, and which scripts the entry points accept.
\<close>

section \<open>Bounded stacks\<close>

text \<open>Both stacks within their bound, and the bounds those of a new engine.\<close>

definition engine_inv :: "engine \<Rightarrow> bool" where
  "engine_inv en \<longleftrightarrow> stack_inv (en_stack en) \<and> stack_inv (en_alt en)
     \<and> max_size (en_stack en) = MAX_STACK \<and> max_size (en_alt en) = MAX_STACK"

lemma new_engine_inv: "engine_inv new_engine"
  by (simp add: engine_inv_def new_engine_def stack_inv_def empty_stack_def)

lemma clear_stacks_inv: "engine_inv en \<Longrightarrow> engine_inv (clear_stacks en)"
  by (simp add: engine_inv_def clear_stacks_def clear_def stack_inv_def)

lemma engine_inv_stack:
  "engine_inv en \<Longrightarrow> stack_inv s \<and> max_size s = max_size (en_stack en) \<Longrightarrow> engine_inv (en\<lparr>en_stack := s\<rparr>)"
  by (simp add: engine_inv_def)

lemma on_stack_inv:
  "on_stack en r = Inr en' \<Longrightarrow> engine_inv en \<Longrightarrow>
     (\<And>s. r = Inr s \<Longrightarrow> stack_inv s \<and> max_size s = max_size (en_stack en)) \<Longrightarrow> engine_inv en'"
  by (auto simp: on_stack_def engine_inv_def)

lemma on_stack_push_inv:
  "on_stack en (push s x) = Inr en' \<Longrightarrow> engine_inv en \<Longrightarrow> stack_inv s \<Longrightarrow> max_size s = max_size (en_stack en)
    \<Longrightarrow> engine_inv en'"
  by (erule on_stack_inv) (auto dest: push_inv)

lemma on_stack_pushbool_inv:
  "on_stack en (pushbool s b) = Inr en' \<Longrightarrow> engine_inv en \<Longrightarrow> stack_inv s \<Longrightarrow> max_size s = max_size (en_stack en)
    \<Longrightarrow> engine_inv en'"
  by (erule on_stack_inv) (auto dest: pushbool_inv)

lemma consume_stack:
  "consume_tapscript_sigop en sig = (ok, en') \<Longrightarrow>
     en_stack en' = en_stack en \<and> en_alt en' = en_alt en"
  by (auto simp: consume_tapscript_sigop_def split: if_splits option.splits)

lemma consume_inv: "consume_tapscript_sigop en sig = (ok, en') \<Longrightarrow> engine_inv en \<Longrightarrow> engine_inv en'"
  using consume_stack [of en sig ok en'] by (simp add: engine_inv_def)

lemma popitems_engine:
  "popitems (en_stack en) n = Inr (xs, s) \<Longrightarrow> engine_inv en \<Longrightarrow> engine_inv (en\<lparr>en_stack := s\<rparr>)"
  using popitems_inv [of "en_stack en" n xs s] by (auto simp: engine_inv_def)

lemma engine_push:
  "on_stack en (push (en_stack en) x) = Inr en' \<Longrightarrow> engine_inv en \<Longrightarrow> engine_inv en'"
  "on_stack en (pushbool (en_stack en) b) = Inr en' \<Longrightarrow> engine_inv en \<Longrightarrow> engine_inv en'"
  by (erule on_stack_push_inv on_stack_pushbool_inv; simp add: engine_inv_def)+

lemma checksig_tail_inv:
  assumes "engine_inv en1" and "(if t then consume_tapscript_sigop en1 sig else (True, en1)) = (ok, en2)"
    and "on_stack en2 (pushbool (en_stack en2) b) = Inr en'"
  shows "engine_inv en'"
  using assms engine_push(2) [OF assms(3)] consume_inv [of en1 sig ok en2] by (cases t) auto

lemma handle_checksig_inv:
  assumes "handle_checksig H D ctxo en = Inr en'" and "engine_inv en"
  shows "engine_inv en'"
proof -
  obtain ctx t utxos items s1 where c: "ctxo = Some ctx" "ctx_tx ctx = Some t" "ctx_utxos ctx = Some utxos"
    and p: "popitems (en_stack en) 2 = Inr (items, s1)"
    using assms(1) by (auto simp: handle_checksig_def need_def split: option.splits)
  define en1 where "en1 = en\<lparr>en_stack := s1\<rparr>"
  have inv1: "engine_inv en1" using popitems_engine [OF p assms(2)] by (simp add: en1_def)
  have s1: "en_stack en1 = s1" by (simp add: en1_def)
  have "(\<exists>b. on_stack en1 (pushbool (en_stack en1) b) = Inr en') \<or>
      (\<exists>ok en2 b. (if ctx_tapscript ctx then consume_tapscript_sigop en1 (items ! 1) else (True, en1)) = (ok, en2)
         \<and> on_stack en2 (pushbool (en_stack en2) b) = Inr en')"
    using assms(1) unfolding handle_checksig_def c p need_def bindR_simps option.case prod.case Let_def
    unfolding en1_def [symmetric] unfolding s1 [symmetric]
    by (auto split: if_split_asm option.split_asm prod.split_asm)
  then show ?thesis using engine_push(2) inv1 checksig_tail_inv [OF inv1] by blast
qed

lemma pop_engine: "pop (en_stack en) = Inr (x, s) \<Longrightarrow> engine_inv en \<Longrightarrow> engine_inv (en\<lparr>en_stack := s\<rparr>)"
  using pop_inv [of "en_stack en" x s] by (auto simp: engine_inv_def)

lemma popnum_engine: "popnum (en_stack en) = Inr (x, s) \<Longrightarrow> engine_inv en \<Longrightarrow> engine_inv (en\<lparr>en_stack := s\<rparr>)"
  using popnum_inv [of "en_stack en" x s] by (auto simp: engine_inv_def)

lemma pop_n_inv: "pop_n n s = Inr (xs, s') \<Longrightarrow> (stack_inv s \<longrightarrow> stack_inv s') \<and> max_size s' = max_size s"
proof (induction n arbitrary: s xs)
  case (Suc n)
  then obtain x s1 ys where "pop s = Inr (x, s1)" "pop_n n s1 = Inr (ys, s')" by auto
  with Suc.IH [of s1 ys] pop_inv [of s x s1] show ?case by simp
qed simp

lemma handle_checksigadd_inv:
  assumes "handle_checksigadd H D ctxo en = Inr en'" and inv: "engine_inv en"
  shows "engine_inv en'"
proof -
  obtain ctx pubkey s1 count s2 sig s3 where c: "ctxo = Some ctx" "ctx_tapscript ctx"
    and p: "pop (en_stack en) = Inr (pubkey, s1)" "popnum s1 = Inr (count, s2)" "pop s2 = Inr (sig, s3)"
    using assms(1) by (auto simp: handle_checksigadd_def need_def split: option.splits)
  define en1 where "en1 = en\<lparr>en_stack := s3\<rparr>"
  have inv1: "engine_inv en1"
    using inv pop_inv [OF p(1)] popnum_inv [OF p(2)] pop_inv [OF p(3)]
    by (simp add: en1_def engine_inv_def)
  have s3: "en_stack en1 = s3" by (simp add: en1_def)
  have "(\<exists>x. on_stack en1 (push (en_stack en1) x) = Inr en') \<or>
      (\<exists>ok en2 x. consume_tapscript_sigop en1 sig = (ok, en2) \<and> on_stack en2 (push (en_stack en2) x) = Inr en')"
    using assms(1) unfolding handle_checksigadd_def c(1) p need_def bindR_simps option.case prod.case Let_def
    unfolding en1_def [symmetric] unfolding s3 [symmetric]
    by (auto simp: c(2) split: if_split_asm option.split_asm prod.split_asm)
  then show ?thesis using engine_push(1) inv1 consume_inv [of en1 sig] by blast
qed

lemma handle_multisig_inv:
  assumes "handle_multisig H D ctxo en = Inr en'" and inv: "engine_inv en"
  shows "engine_inv en'"
proof -
  obtain n s1 pks s2 m s3 sigs s4 e s5 b where
    p: "popnum (en_stack en) = Inr (n, s1)" "pop_n (nat n) s1 = Inr (pks, s2)" "popnum s2 = Inr (m, s3)"
      "pop_n (nat m) s3 = Inr (sigs, s4)" "pop s4 = Inr (e, s5)"
    and o: "on_stack en (pushbool s5 b) = Inr en'"
    using assms(1) by (auto simp: handle_multisig_def need_def split: option.splits)
  have "stack_inv s5 \<and> max_size s5 = max_size (en_stack en)"
    using inv popnum_inv [OF p(1)] pop_n_inv [OF p(2)] popnum_inv [OF p(3)] pop_n_inv [OF p(4)] pop_inv [OF p(5)]
    by (simp add: engine_inv_def)
  with on_stack_pushbool_inv [OF o inv] show ?thesis by blast
qed

lemma handle_signatures_inv:
  "handle_signatures H D opcode ctxo en = Inr en' \<Longrightarrow> engine_inv en \<Longrightarrow> engine_inv en'"
  by (auto simp: handle_signatures_def dest: handle_checksig_inv handle_checksigadd_inv handle_multisig_inv
      split: if_split_asm)

lemma exec_mapped_inv:
  assumes r: "exec_mapped H D ctx opcode en = Inr (ok, en')" and inv: "engine_inv en"
  shows "engine_inv en'"
proof -
  obtain func where f: "OPCODE_MAP H opcode = Some func"
    using r by (auto simp: exec_mapped_def split: option.split_asm)
  have no: "\<not> (opcode = 0xad \<or> opcode = 0xaf)"
    using f by (auto simp: OPCODE_MAP_def)
  show ?thesis
  proof (cases func)
    case (MainOp g)
    then obtain s where s: "g (en_stack en) = Inr s" and en': "en' = en\<lparr>en_stack := s\<rparr>"
      using r f no by (auto simp: exec_mapped_def)
    with main_op_inv [OF f [unfolded MainOp] _ s] inv show ?thesis by (simp add: engine_inv_def)
  next
    case (AltOp g)
    then obtain s a where s: "g (en_stack en) (en_alt en) = Inr (s, a)"
      and en': "en' = en\<lparr>en_stack := s, en_alt := a\<rparr>"
      using r f no by (auto simp: exec_mapped_def)
    with alt_op_inv [OF f [unfolded AltOp] _ _ s] inv show ?thesis by (simp add: engine_inv_def)
  next
    case (VerifyOp g)
    then obtain s b where s: "g (en_stack en) = Inr (b, s)" and en': "en' = en\<lparr>en_stack := s\<rparr>"
      using r f no by (auto simp: exec_mapped_def)
    with verify_op_inv [OF f [unfolded VerifyOp] _ s] inv show ?thesis by (simp add: engine_inv_def)
  qed
qed

lemma select_conditional_inv:
  "select_conditional_branch opcode stream (en_stack en) = Inr (b, s, rest) \<Longrightarrow> engine_inv en
    \<Longrightarrow> engine_inv (en\<lparr>en_stack := s\<rparr>)"
  by (auto simp: select_conditional_branch_def Let_def dest: pop_engine)

lemma exec_instruction_inv:
  assumes "exec_instruction H D ctx i rest en = Inr (ok, en1, rest1, branch)" and inv: "engine_inv en"
  shows "engine_inv en1"
  using assms unfolding exec_instruction_def Let_def
  by (auto simp: Let_def split: if_split_asm option.split_asm dest: engine_push handle_signatures_inv
      exec_mapped_inv select_conditional_inv)

lemma execute_loop_inv:
  "execute_loop H D ctx src stream en = Inr (ok, en') \<Longrightarrow> engine_inv en \<Longrightarrow> engine_inv en'"
proof (induction H D ctx src stream en arbitrary: ok en' rule: execute_loop.induct)
  case (1 H D ctx src stream en)
  obtain r where r: "read_instructions stream = Inr r"
    using "1.prems"(1) by (subst (asm) execute_loop.simps) auto
  show ?case
  proof (cases r)
    case None
    then show ?thesis using "1.prems" r by (subst (asm) execute_loop.simps) simp
  next
    case (Some p)
    obtain instr rest where p: "p = (instr, rest)" by (cases p)
    obtain valid en1 rest1 branch where e: "exec_instruction H D ctx instr rest en = Inr (valid, en1, rest1, branch)"
      using "1.prems"(1) r Some p by (subst (asm) execute_loop.simps) auto
    have inv1: "engine_inv en1" by (rule exec_instruction_inv [OF e "1.prems"(2)])
    obtain valid2 en2 where b: "(case branch of None \<Rightarrow> Inr (valid, en1)
          | Some b \<Rightarrow> execute_loop H D ctx b b en1) = Inr (valid2, en2)"
      and rest: "(if valid2 then execute_loop H D ctx src rest1 en2 else fail_script src en2) = Inr (ok, en')"
      using "1.prems"(1) r Some p e by (subst (asm) execute_loop.simps) auto
    have inv2: "engine_inv en2"
    proof (cases branch)
      case None
      with b inv1 show ?thesis by simp
    next
      case br: (Some b')
      then show ?thesis using b inv1 "1.IH"(1) [OF r Some p [symmetric] e refl refl refl br] by simp
    qed
    show ?thesis
    proof (cases valid2)
      case True
      then show ?thesis using rest inv2 "1.IH"(2) [OF r Some p [symmetric] e refl refl refl b refl True] by simp
    next
      case False
      then show ?thesis using rest inv2 by (auto simp: fail_script_def)
    qed
  qed
qed

lemma execute_script_inv:
  "execute_script H D script ctx en = Inr (ok, en') \<Longrightarrow> engine_inv en \<Longrightarrow> engine_inv en'"
  unfolding execute_script_def by (rule execute_loop_inv)

lemma validate_stack_inv:
  "validate_stack c en = Inr (ok, en') \<Longrightarrow> engine_inv en \<Longrightarrow> engine_inv en'"
  by (auto simp: validate_stack_def dest: pop_engine split: if_split_asm)

lemma pushlist_engine:
  "pushlist (en_stack en) xs = Inr s \<Longrightarrow> engine_inv en \<Longrightarrow> engine_inv (en\<lparr>en_stack := s, en_weight := w\<rparr>)"
  "pushlist (en_stack en) xs = Inr s \<Longrightarrow> engine_inv en \<Longrightarrow> engine_inv (en\<lparr>en_stack := s\<rparr>)"
  using pushlist_inv [of "en_stack en" xs s] by (auto simp: engine_inv_def)

lemma validate_script_inv:
  "validate_script H D script ctx c en = Inr (ok, en') \<Longrightarrow> engine_inv en \<Longrightarrow> engine_inv en'"
  by (auto simp: validate_script_def split: if_split_asm
      dest!: execute_script_inv validate_stack_inv intro: clear_stacks_inv)

lemma segwit_p2wpkh_inv:
  assumes "segwit_p2wpkh H D spk items ctx en = Inr (ok, en')" and inv: "engine_inv en"
  shows "engine_inv en'"
proof -
  obtain s1 s2 scr ctx' b en1 where p: "push (en_stack en) (Bytes (items ! 0)) = Inr s1"
      "push s1 (Bytes (items ! 1)) = Inr s2"
    and e: "execute_script H D scr ctx' (en\<lparr>en_stack := s2\<rparr>) = Inr (b, en1)"
    and v: "validate_stack True en1 = Inr (ok, en')"
    using assms(1) by (auto simp: segwit_p2wpkh_def Let_def)
  have "engine_inv (en\<lparr>en_stack := s2\<rparr>)" using push_inv [OF p(1)] push_inv [OF p(2)] inv
    by (simp add: engine_inv_def)
  then show ?thesis by (rule validate_stack_inv [OF v execute_script_inv [OF e]])
qed

lemma segwit_p2wsh_inv:
  "segwit_p2wsh H D spk items ctx en = Inr (ok, en') \<Longrightarrow> engine_inv en \<Longrightarrow> engine_inv en'"
  by (auto simp: segwit_p2wsh_def Let_def split: if_split_asm
      dest!: validate_stack_inv execute_script_inv dest: pushlist_engine(2))

lemma segwit_p2tr_script_inv:
  "segwit_p2tr_script H D spk items ctx en = Inr (ok, en') \<Longrightarrow> engine_inv en \<Longrightarrow> engine_inv en'"
  by (auto simp: segwit_p2tr_script_def Let_def split: if_split_asm
      dest!: validate_stack_inv execute_script_inv dest: pushlist_engine(1))

lemma validate_segwit_inv:
  assumes "validate_segwit H D key ctxo en = Inr (ok, en')" and "engine_inv en"
  shows "engine_inv en'"
proof -
  define en0 where "en0 = clear_stacks en"
  have inv0: "engine_inv en0" using clear_stacks_inv [OF assms(2)] by (simp add: en0_def)
  have "en' = en0 \<or> (\<exists>items ctx. segwit_p2wpkh H D (sc_bytes key) items ctx en0 = Inr (ok, en'))
      \<or> (\<exists>items ctx. segwit_p2wsh H D (sc_bytes key) items ctx en0 = Inr (ok, en'))
      \<or> (\<exists>items ctx. segwit_p2tr_script H D (sc_bytes key) items ctx en0 = Inr (ok, en'))
      \<or> validate_stack True en0 = Inr (ok, en')"
    using assms(1) unfolding validate_segwit_def Let_def en0_def [symmetric]
    by (auto split: if_split_asm option.split_asm) blast+
  with inv0 show ?thesis
    by (elim disjE exE)
      (simp, (erule segwit_p2wpkh_inv segwit_p2wsh_inv segwit_p2tr_script_inv validate_stack_inv; assumption)+)
qed

lemma op_verify_engine:
  "op_verify (en_stack en) = Inr (b, s) \<Longrightarrow> engine_inv en \<Longrightarrow> engine_inv (en\<lparr>en_stack := s\<rparr>)"
  using op_verify_inv [of "en_stack en" b s] by (auto simp: engine_inv_def)

lemma validate_redeem_inv:
  assumes "validate_redeem_script H D sig redeem ctxo en = Inr (ok, en')" and "engine_inv en"
  shows "engine_inv en'"
  using assms unfolding validate_redeem_script_def
  by (cases ctxo) (auto split: if_split_asm dest: validate_segwit_inv execute_script_inv
      dest!: validate_stack_inv)

lemma script_pair_inv:
  assumes r: "validate_script_pair H D key sig ctxo en = Inr (ok, en')" and inv: "engine_inv en"
  shows "engine_inv en'"
proof (cases "p2sh_matches (sc_bytes key)")
  case False
  with r show ?thesis by (auto simp: validate_script_pair_def intro: validate_script_inv [OF _ inv])
next
  case p: True
  show ?thesis
  proof (cases "en' = en")
    case False
    then obtain b en1 where x: "execute_script H D (sc_bytes sig) ctxo (clear_stacks en) = Inr (b, en1)"
      using r p unfolding validate_script_pair_def by (auto split: if_split_asm)
    then have inv1: "engine_inv en1" using execute_script_inv clear_stacks_inv inv by blast
    show ?thesis
    proof (cases "en' = en1")
      case False
      then obtain b' en2 b'' s3 where y: "execute_script H D (sc_bytes key) ctxo en1 = Inr (b', en2)"
          "op_verify (en_stack en2) = Inr (b'', s3)"
          "en' = en2\<lparr>en_stack := s3\<rparr> \<or>
             validate_redeem_script H D sig (hd (stk (en_stack en1))) ctxo (en2\<lparr>en_stack := s3\<rparr>) = Inr (ok, en')"
        using r p \<open>en' \<noteq> en\<close> unfolding validate_script_pair_def Let_def
        by (auto simp: x split: if_split_asm)
      have "engine_inv (en2\<lparr>en_stack := s3\<rparr>)"
        by (rule op_verify_engine [OF y(2) execute_script_inv [OF y(1) inv1]])
      with y(3) show ?thesis using validate_redeem_inv by blast
    qed (simp add: inv1)
  qed (simp add: inv)
qed

text \<open>
  C3: whatever scripts, witness, context, hash functions and DER decoder the engine is given, both
  entry points of script validation leave the main and the alternative stack within the bound of 1000 items,
  and no operation changes that bound: a script can only be answered or raise, never grow a stack further.
\<close>

theorem validation_keeps_stacks_bounded:
  assumes "engine_inv en"
    and "validate_script_pair H D key sig ctx en = Inr (ok, en') \<or> validate_segwit H D key ctx en = Inr (ok, en')"
  shows "length (stk (en_stack en')) \<le> 1000 \<and> length (stk (en_alt en')) \<le> 1000 \<and> engine_inv en'"
proof -
  have "engine_inv en'"
    using assms validate_segwit_inv script_pair_inv by blast
  then show ?thesis by (auto simp: engine_inv_def stack_inv_def MAX_STACK_def)
qed

end
