(* ===== verification/Parser_Facts.thy ===== *)
theory Parser_Facts
  imports Script_Parser
begin

text \<open>
  The two script readers agree, pushes written by \<^verbatim>\<open>encode_pushdata\<close> are read back, and a
  conditional block is split at its own \<^verbatim>\<open>OP_ELSE\<close> and \<^verbatim>\<open>OP_ENDIF\<close>, never at those of a
  nested block.
\<close>

section \<open>A stream as a sequence of instructions\<close>

inductive reads :: "bytes \<Rightarrow> instruction list \<Rightarrow> bytes \<Rightarrow> bool" where
  reads_nil: "reads bs [] bs"
| reads_cons: "read_instructions bs = Inr (Some (i, r)) \<Longrightarrow> reads r is rest \<Longrightarrow> reads bs (i # is) rest"

inductive_simps reads_Nil_iff: "reads bs [] rest"
inductive_simps reads_Cons_iff: "reads bs (i # is) rest"

definition raws :: "instruction list \<Rightarrow> bytes" where
  "raws is = concat (map i_raw is)"

lemma raws_simps [simp]:
  "raws [] = []" "raws (i # is) = i_raw i @ raws is" "raws (is @ js) = raws is @ raws js"
  by (simp_all add: raws_def)

lemma reads_raws: "reads bs is rest \<Longrightarrow> bs = raws is @ rest"
  by (induction rule: reads.induct) (auto dest: read_instructions_raw)

lemma reads_append_iff: "reads bs (is @ js) rest \<longleftrightarrow> (\<exists>r. reads bs is r \<and> reads r js rest)"
  by (induction "is" arbitrary: bs) (auto simp: reads_Nil_iff reads_Cons_iff)

lemma read_stream_take:
  "read_stream n bs = (if length bs < n then Inl (short_read n) else Inr (take n bs, drop n bs))"
  by (simp add: read_stream_def Let_def)

definition op_of :: "instruction \<Rightarrow> nat \<times> bytes option" where
  "op_of i = (i_opcode i, i_push_data i)"

lemma read_little_int_take:
  "read_little_int n bs = (if length bs < n then Inl (short_read n) else Inr (le_val (take n bs), drop n bs))"
  by (simp add: read_little_int_def read_stream_def Let_def)

lemma parse_script_ops_step:
  "parse_script_ops bs =
     (case read_instructions bs of
        Inl _ \<Rightarrow> Inl OpCodeError
      | Inr None \<Rightarrow> Inr []
      | Inr (Some (i, rest)) \<Rightarrow> bindR (parse_script_ops rest) (\<lambda>ops. Inr (op_of i # ops)))"
proof (cases bs)
  case Nil
  then show ?thesis by (simp add: read_instructions_def)
next
  case (Cons b r)
  consider "1 \<le> unat b \<and> unat b \<le> 75" | "unat b = 76" | "unat b = 77" | "unat b = 78"
    | "unat b = 0 \<or> 78 < unat b" by linarith
  then show ?thesis
  proof cases
    case 1
    with Cons show ?thesis
      by (simp add: push_header_def read_instructions_def Let_def read_stream_take op_of_def)
  next
    case 2
    show ?thesis
    proof (cases r)
      case Nil
      with Cons 2 show ?thesis
        by (simp add: push_header_def read_instructions_def read_push_def read_little_int_take)
    next
      case (Cons c r')
      have "nat (uint c) = unat c" by simp
      with \<open>bs = b # r\<close> Cons 2 show ?thesis
        by (simp add: push_header_def read_instructions_def read_push_def read_little_int_Cons
            read_stream_take op_of_def)
    qed
  next
    case 3
    with Cons show ?thesis
      by (simp add: push_header_def read_instructions_def read_push_def read_little_int_take
          read_stream_take op_of_def)
  next
    case 4
    with Cons show ?thesis
      by (simp add: push_header_def read_instructions_def read_push_def read_little_int_take
          read_stream_take op_of_def)
  next
    case 5
    with Cons show ?thesis
      by (auto simp: push_header_def read_instructions_def Let_def op_of_def)
  qed
qed

lemma parse_script_ops_reads:
  "reads bs is rest \<Longrightarrow>
     parse_script_ops bs = bindR (parse_script_ops rest) (\<lambda>ops. Inr (map op_of is @ ops))"
proof (induction rule: reads.induct)
  case (reads_nil bs)
  then show ?case by (cases "parse_script_ops bs") simp_all
next
  case (reads_cons bs i r "is" rest)
  then show ?case
    by (subst parse_script_ops_step) (cases "parse_script_ops rest"; simp)
qed

lemma parse_script_ops_complete:
  "parse_script_ops bs = Inr ops \<Longrightarrow> \<exists>is. reads bs is [] \<and> ops = map op_of is"
proof (induction "length bs" arbitrary: bs ops rule: less_induct)
  case less
  show ?case
  proof (cases "read_instructions bs")
    case (Inl e)
    with less.prems show ?thesis by (simp add: parse_script_ops_step [of bs])
  next
    case (Inr r)
    show ?thesis
    proof (cases r)
      case None
      with Inr have "bs = []"
        by (cases bs) (auto simp: read_instructions_def Let_def read_push_def split: if_splits)
      with less.prems show ?thesis by (auto intro: exI [of _ "[]"] reads.intros)
    next
      case (Some p)
      obtain i rest where p: "read_instructions bs = Inr (Some (i, rest))"
        using Inr Some by (cases p) auto
      then obtain ops' where "parse_script_ops rest = Inr ops'" "ops = op_of i # ops'"
        using less.prems by (subst (asm) parse_script_ops_step) auto
      moreover from this obtain "is" where "reads rest is []" "ops' = map op_of is"
        using less.hyps [OF read_instructions_shrinks [OF p]] by blast
      ultimately show ?thesis using p
        by (intro exI [of _ "i # is"]) (auto intro: reads.intros)
    qed
  qed
qed

text \<open>
  the static parser and the engine's instruction reader see the same script: a script parses
  to a list of operations exactly when the reader consumes it to the end, the operations are the
  reader's opcodes and pushed data, and the raw bytes of the instructions make up the script.
\<close>

theorem parsers_agree:
  "parse_script_ops script = Inr ops \<longleftrightarrow>
     (\<exists>is. reads script is [] \<and> ops = map op_of is \<and> raws is = script)"
proof
  assume "parse_script_ops script = Inr ops"
  then show "\<exists>is. reads script is [] \<and> ops = map op_of is \<and> raws is = script"
    using parse_script_ops_complete reads_raws by fastforce
next
  assume "\<exists>is. reads script is [] \<and> ops = map op_of is \<and> raws is = script"
  then show "parse_script_ops script = Inr ops" by (auto dest: parse_script_ops_reads)
qed

section \<open>Pushes\<close>

lemma unat_word_of_int_byte: "0 \<le> v \<Longrightarrow> v < 256 \<Longrightarrow> unat (word_of_int v :: byte) = nat v"
  by (simp add: unat_eq_nat_uint uint_word_of_int)

text \<open>The opcode \<^verbatim>\<open>encode_pushdata\<close> selects for a data length.\<close>

definition push_opcode :: "nat \<Rightarrow> nat" where
  "push_opcode n = (if 1 \<le> n \<and> n \<le> 0x4b then n else if n \<le> 0xff then 0x4c
     else if n \<le> 0xffff then 0x4d else 0x4e)"

lemma encode_pushdata_Inr_iff: "(\<exists>bs. encode_pushdata d = Inr bs) \<longleftrightarrow> length d \<le> 0xffffffff"
  by (auto simp: encode_pushdata_def Let_def to_bytes_le_def)

lemma encode_pushdata_reads:
  assumes "encode_pushdata d = Inr bs"
  shows "read_instructions (bs @ rest) =
    Inr (Some (\<lparr>i_opcode = push_opcode (length d), i_raw = bs, i_is_push = True,
                i_push_data = Some d\<rparr>, rest))"
proof -
  let ?n = "int (length d)"
  consider "1 \<le> ?n \<and> ?n \<le> 75" "bs = word_of_int ?n # d"
    | "\<not> (1 \<le> ?n \<and> ?n \<le> 75)" "?n \<le> 255" "bs = 0x4c # le_bytes 1 ?n @ d"
    | "255 < ?n" "?n \<le> 65535" "bs = 0x4d # le_bytes 2 ?n @ d"
    | "65535 < ?n" "?n \<le> 0xffffffff" "bs = 0x4e # le_bytes 4 ?n @ d"
    using assms by (auto simp: encode_pushdata_def Let_def to_bytes_le_def split: if_splits)
  then show ?thesis
  proof cases
    case 1
    then have "unat (word_of_int ?n :: byte) = length d" by (subst unat_word_of_int_byte) auto
    with 1 show ?thesis
      by (auto simp: read_instructions_def push_opcode_def read_stream_append Let_def)
  next
    case 2
    then have "read_little_int 1 (le_bytes 1 ?n @ d @ rest) = Inr (?n, d @ rest)"
      by (intro read_little_int_le_bytes) auto
    with 2 show ?thesis
      by (auto simp: read_instructions_def read_push_def push_opcode_def read_stream_append
          simp del: le_bytes.simps)
  next
    case 3
    then have "read_little_int 2 (le_bytes 2 ?n @ d @ rest) = Inr (?n, d @ rest)"
      by (intro read_little_int_le_bytes) auto
    with 3 show ?thesis
      by (auto simp: read_instructions_def read_push_def push_opcode_def read_stream_append
          simp del: le_bytes.simps)
  next
    case 4
    then have "read_little_int 4 (le_bytes 4 ?n @ d @ rest) = Inr (?n, d @ rest)"
      by (intro read_little_int_le_bytes) auto
    with 4 show ?thesis
      by (auto simp: read_instructions_def read_push_def push_opcode_def read_stream_append
          simp del: le_bytes.simps)
  qed
qed

text \<open>The pushed data of the first instruction of a stream.\<close>

definition read_pushed :: "bytes \<Rightarrow> (bytes \<times> bytes) result" where
  "read_pushed stream =
     bindR (read_instructions stream) (\<lambda>r. case r of
       Some (i, rest) \<Rightarrow> (case i_push_data i of Some d \<Rightarrow> Inr (d, rest) | None \<Rightarrow> Inl OpCodeError)
     | None \<Rightarrow> Inl ReadError)"

interpretation pushdata: codec encode_pushdata read_pushed "\<lambda>_. True"
  by unfold_locales (simp add: read_pushed_def encode_pushdata_reads)

lemma write_all_pushes_parse:
  "write_all encode_pushdata ds = Inr bs \<Longrightarrow>
     parse_script_ops (bs @ rest) =
       bindR (parse_script_ops rest)
         (\<lambda>ops. Inr (map (\<lambda>d. (push_opcode (length d), Some d)) ds @ ops))"
proof (induction ds arbitrary: bs)
  case Nil
  then show ?case by (cases "parse_script_ops rest") simp_all
next
  case (Cons d ds)
  then obtain b c where b: "encode_pushdata d = Inr b" "write_all encode_pushdata ds = Inr c" "bs = b @ c"
    by auto
  show ?case
    using encode_pushdata_reads [OF b(1), of "c @ rest"] Cons.IH [OF b(2)]
    by (subst parse_script_ops_step) (cases "parse_script_ops rest"; simp add: b op_of_def)
qed

text \<open>
  a script assembled from data pushes, whatever the lengths of the items, parses to exactly
  those items in order, each with the smallest of the four push forms the encoder has for its length, and
  the engine's reader reads the same items back one by one.
\<close>

theorem pushes_round_trip:
  assumes "write_all encode_pushdata ds = Inr script"
  shows "parse_script_ops script = Inr (map (\<lambda>d. (push_opcode (length d), Some d)) ds)
       \<and> read_many read_pushed (length ds) script = Inr (ds, [])"
  using write_all_pushes_parse [OF assms, of "[]"] pushdata.read_many_write_all [of ds script "[]"] assms
  by (simp add: list_all_iff)

lemma pushes_round_trip_witness:
  "parse_script_ops [2, 0xab, 0xcd, 0x4c, 0, 1, 5] =
     Inr [(2, Some [0xab, 0xcd]), (0x4c, Some []), (1, Some [5])]"
proof -
  have "write_all encode_pushdata [[0xab, 0xcd], [], [5]] = Inr [2, 0xab, 0xcd, 0x4c, 0, 1, 5]"
    by (simp add: encode_pushdata_def to_bytes_le_def eval_nat_numeral)
  from pushes_round_trip [OF this] show ?thesis by (simp add: push_opcode_def)
qed

section \<open>Conditional blocks\<close>

text \<open>
  Well-nested instruction sequences. With \<open>e\<close> false no \<^verbatim>\<open>OP_ELSE\<close> occurs outside a nested block.
\<close>

inductive nest :: "bool \<Rightarrow> instruction list \<Rightarrow> bool" where
  nest_nil: "nest e []"
| nest_plain: "i_opcode i \<notin> {0x63, 0x64, 0x67, 0x68} \<Longrightarrow> nest e is \<Longrightarrow> nest e (i # is)"
| nest_else: "i_opcode i = 0x67 \<Longrightarrow> nest True is \<Longrightarrow> nest True (i # is)"
| nest_block: "i_opcode i \<in> {0x63, 0x64} \<Longrightarrow> nest True body \<Longrightarrow> i_opcode f = 0x68 \<Longrightarrow> nest e is \<Longrightarrow>
    nest e (i # body @ f # is)"

lemma emit_emit [simp]: "emit (emit b r) s = emit b (r @ s)"
  by (simp add: emit_def)

lemma emit_Nil [simp]: "emit b [] = b"
  by (simp add: emit_def)

lemma conditional_loop_nest:
  "nest e is \<Longrightarrow> reads stream is rest \<Longrightarrow> (if e then 2 else 1) \<le> depth \<Longrightarrow>
     conditional_loop tot stream depth b = conditional_loop tot rest depth (emit b (raws is))"
proof (induction arbitrary: stream rest depth b rule: nest.induct)
  case (nest_nil e)
  then show ?case by (simp add: reads_Nil_iff)
next
  case (nest_plain i e "is")
  from nest_plain.prems(1) obtain r where r: "read_instructions stream = Inr (Some (i, r))" "reads r is rest"
    by (auto simp: reads_Cons_iff)
  show ?case
    using r(1) nest_plain.hyps(1) nest_plain.IH [OF r(2) nest_plain.prems(2)]
    by (subst conditional_loop.simps) simp
next
  case (nest_else i "is")
  from nest_else.prems(1) obtain r where r: "read_instructions stream = Inr (Some (i, r))" "reads r is rest"
    by (auto simp: reads_Cons_iff)
  show ?case
    using r(1) nest_else.hyps(1) nest_else.IH [OF r(2) nest_else.prems(2)] nest_else.prems(2)
    by (subst conditional_loop.simps) simp
next
  case (nest_block i body f e "is")
  from nest_block.prems(1) obtain r r1 r2
    where r: "read_instructions stream = Inr (Some (i, r))" "reads r body r1"
      "read_instructions r1 = Inr (Some (f, r2))" "reads r2 is rest"
    by (auto simp: reads_Cons_iff reads_append_iff)
  have "conditional_loop tot stream depth b = conditional_loop tot r (depth + 1) (emit b (i_raw i))"
    using r(1) nest_block.hyps(1) by (subst conditional_loop.simps) auto
  also have "\<dots> = conditional_loop tot r1 (depth + 1) (emit b (i_raw i @ raws body))"
    using nest_block.IH(1) [OF r(2)] nest_block.prems(2) by (simp split: if_splits)
  also have "\<dots> = conditional_loop tot r2 depth (emit b (i_raw i @ raws body @ i_raw f))"
    using r(3) nest_block.hyps(3) nest_block.prems(2)
    by (subst conditional_loop.simps) (auto split: if_splits)
  also have "\<dots> = conditional_loop tot rest depth (emit b (raws (i # body @ f # is)))"
    using nest_block.IH(2) [OF r(4) nest_block.prems(2)] by simp
  finally show ?case .
qed

text \<open>The parts after the first \<^verbatim>\<open>OP_ELSE\<close>, each introduced by an \<^verbatim>\<open>OP_ELSE\<close> of the same block.\<close>

definition else_parts :: "(instruction \<times> instruction list) list \<Rightarrow> bool" where
  "else_parts parts \<longleftrightarrow> (\<forall>(l, is) \<in> set parts. i_opcode l = 0x67 \<and> nest False is)"

definition join_parts :: "(instruction \<times> instruction list) list \<Rightarrow> instruction list" where
  "join_parts parts = concat (map (\<lambda>(l, is). l # is) parts)"

definition part_raws :: "(instruction \<times> instruction list) list \<Rightarrow> bytes" where
  "part_raws parts = concat (map (\<lambda>(l, is). raws is) parts)"

lemma conditional_loop_parts:
  "else_parts parts \<Longrightarrow> reads stream (join_parts parts) rest \<Longrightarrow>
     \<exists>b'. conditional_loop tot stream 1 b = conditional_loop tot rest 1 b'
        \<and> if_branch b' = if_branch b \<and> (in_else b \<or> parts = [] \<longrightarrow> in_else b' = in_else b)
        \<and> else_branch b' = else_branch b @ part_raws parts"
proof (induction parts arbitrary: stream b)
  case Nil
  then show ?case by (auto simp: join_parts_def part_raws_def reads_Nil_iff)
next
  case (Cons p parts)
  obtain l "is" where p: "p = (l, is)" by (cases p)
  from Cons.prems obtain r r1
    where r: "read_instructions stream = Inr (Some (l, r))" "reads r is r1"
      "reads r1 (join_parts parts) rest"
    by (auto simp: join_parts_def p reads_Cons_iff reads_append_iff)
  have l: "i_opcode l = 0x67" "nest False is" "else_parts parts"
    using Cons.prems(1) by (auto simp: else_parts_def p)
  let ?b1 = "b\<lparr>in_else := True, else_offset := tot - length r\<rparr>"
  have "conditional_loop tot stream 1 b = conditional_loop tot r 1 ?b1"
    using r(1) l(1) by (subst conditional_loop.simps) simp
  also have "\<dots> = conditional_loop tot r1 1 (emit ?b1 (raws is))"
    using conditional_loop_nest [OF l(2) r(2), of 1] by simp
  finally have step: "conditional_loop tot stream 1 b = conditional_loop tot r1 1 (emit ?b1 (raws is))" .
  from Cons.IH [OF l(3) r(3), of "emit ?b1 (raws is)"] step show ?case
    by (auto simp: emit_def part_raws_def p)
qed

lemma conditional_block_parts:
  assumes "nest False first" and "else_parts parts" and "i_opcode f = 0x68"
    and "reads stream (first @ join_parts parts @ [f]) rest"
  shows "\<exists>off. parse_conditional_block tot stream =
    Inr (raws first, part_raws parts, tot - length stream, off, rest)"
proof -
  let ?b0 = "\<lparr>if_branch = [], else_branch = [], in_else = False, else_offset = tot - length stream\<rparr>"
  from assms(4) obtain r r1 where r: "reads stream first r" "reads r (join_parts parts) r1"
    "read_instructions r1 = Inr (Some (f, rest))"
    by (auto simp: reads_append_iff reads_Cons_iff reads_Nil_iff)
  have "conditional_loop tot stream 1 ?b0 = conditional_loop tot r 1 (emit ?b0 (raws first))"
    using conditional_loop_nest [OF assms(1) r(1)] by simp
  with conditional_loop_parts [OF assms(2) r(2), of tot "emit ?b0 (raws first)"] obtain b'
    where b': "conditional_loop tot stream 1 ?b0 = conditional_loop tot r1 1 b'"
      "if_branch b' = raws first" "else_branch b' = part_raws parts"
    by (auto simp: emit_def)
  have "conditional_loop tot r1 1 b' = Inr (b', rest)"
    using r(3) assms(3) by (subst conditional_loop.simps) simp
  with b' show ?thesis by (simp add: parse_conditional_block_def)
qed

text \<open>
  for a well-nested block, the text up to the first \<^verbatim>\<open>OP_ELSE\<close> of the block itself is the
  if-branch and everything after it, without those \<^verbatim>\<open>OP_ELSE\<close> bytes, is the else-branch; parsing
  stops right after the matching \<^verbatim>\<open>OP_ENDIF\<close>, and nested blocks are copied unchanged. With several
  \<^verbatim>\<open>OP_ELSE\<close> all later parts join the else-branch, where consensus alternates between the branches.
\<close>

theorem conditional_block_split:
  assumes "nest False first" and "else_parts parts" and "i_opcode f = 0x68"
    and "reads stream (first @ join_parts parts @ [f]) rest"
  shows "\<exists>off. parse_conditional_block tot stream =
    Inr (raws first, part_raws parts, tot - length stream, off, rest)"
  by (rule conditional_block_parts [OF assms])

lemma read_instructions_plain:
  "unat b = 0 \<or> 78 < unat b \<Longrightarrow> read_instructions (b # r) =
     Inr (Some (\<lparr>i_opcode = unat b, i_raw = [b], i_is_push = False, i_push_data = None\<rparr>, r))"
  by (auto simp: read_instructions_def Let_def)

lemma conditional_block_split_witness:
  "\<exists>off. parse_conditional_block 9 [0x51, 0x63, 0x67, 0x68, 0x67, 0x52, 0x68, 0x75] =
     Inr ([0x51, 0x63, 0x67, 0x68], [0x52], 1, off, [0x75])"
proof -
  define mk where "mk b = \<lparr>i_opcode = unat b, i_raw = [b], i_is_push = False, i_push_data = None\<rparr>"
    for b :: byte
  have mk: "i_opcode (mk b) = unat b" "raws [mk b] = [b]" "i_raw (mk b) = [b]" for b
    by (simp_all add: mk_def)
  have n1: "nest True [mk 0x67]" by (intro nest_else nest_nil) (simp add: mk)
  have n0: "nest False (mk 0x63 # [mk 0x67] @ mk 0x68 # [])"
    by (intro nest_block n1 nest_nil) (simp_all add: mk)
  have n2: "nest False [mk 0x51, mk 0x63, mk 0x67, mk 0x68]"
    by (rule nest_plain) (use n0 in \<open>simp_all add: mk\<close>)
  have n3: "else_parts [(mk 0x67, [mk 0x52])]"
    by (auto simp: else_parts_def mk intro!: nest_plain nest_nil)
  have "reads [0x51, 0x63, 0x67, 0x68, 0x67, 0x52, 0x68, 0x75]
      ([mk 0x51, mk 0x63, mk 0x67, mk 0x68] @ join_parts [(mk 0x67, [mk 0x52])] @ [mk 0x68]) [0x75]"
    by (simp add: join_parts_def reads_Cons_iff reads_Nil_iff read_instructions_plain mk_def)
  from conditional_block_split [OF n2 n3 _ this, of 9] show ?thesis
    by (simp add: mk part_raws_def)
qed

end
