(* ===== verification/Script_Runs.thy ===== *)
theory Script_Runs
  imports Script_Engine_Facts Parser_Facts "HOL-Library.Sublist"
begin

text \<open>
  Running scripts: what executing one instruction does to the engine, and from it what whole
  scripts decide: pushes, conditionals, P2PKH spends, multisignatures, lock times, and the cases where
  the engine departs from consensus (unsupported opcodes, ignored P2WSH failures, two truth tests).
\<close>

section \<open>Single steps\<close>

definition plain_instr :: "byte \<Rightarrow> instruction" where
  "plain_instr b = \<lparr>i_opcode = unat b, i_raw = [b], i_is_push = False, i_push_data = None\<rparr>"

lemma execute_loop_Nil [simp]: "execute_loop H D ctx src [] en = Inr (True, en)"
  by (subst execute_loop.simps) (simp add: read_instructions_def)

lemma execute_step:
  assumes "read_instructions stream = Inr (Some (i, rest))"
    and "exec_instruction H D ctx i rest en = Inr (ok, en1, rest1, None)"
  shows "execute_loop H D ctx src stream en =
    (if ok then execute_loop H D ctx src rest1 en1 else fail_script src en1)"
  using assms by (subst execute_loop.simps) simp

lemma execute_push:
  assumes "encode_pushdata d = Inr bs" and "length (stk (en_stack en)) < max_size (en_stack en)"
  shows "execute_loop H D ctx src (bs @ rest) en =
    execute_loop H D ctx src rest (en\<lparr>en_stack := (en_stack en)\<lparr>stk := d # stk (en_stack en)\<rparr>\<rparr>)"
  by (subst execute_step [OF encode_pushdata_reads [OF assms(1)]])
    (auto simp: exec_instruction_def push_Bytes assms(2) on_stack_def Let_def)

lemma execute_pushes:
  "write_all encode_pushdata ds = Inr bs \<Longrightarrow>
    length (stk (en_stack en)) + length ds \<le> max_size (en_stack en) \<Longrightarrow>
    execute_loop H D ctx src (bs @ rest) en =
      execute_loop H D ctx src rest (en\<lparr>en_stack := (en_stack en)\<lparr>stk := rev ds @ stk (en_stack en)\<rparr>\<rparr>)"
proof (induction ds arbitrary: bs en)
  case (Cons d ds)
  then obtain b c where b: "encode_pushdata d = Inr b" "write_all encode_pushdata ds = Inr c" "bs = b @ c"
    by auto
  let ?en = "en\<lparr>en_stack := (en_stack en)\<lparr>stk := d # stk (en_stack en)\<rparr>\<rparr>"
  have "execute_loop H D ctx src (bs @ rest) en = execute_loop H D ctx src (c @ rest) ?en"
    using execute_push [OF b(1), of en H D ctx src "c @ rest"] Cons.prems(2) b(3) by simp
  also have "\<dots> = execute_loop H D ctx src rest (?en\<lparr>en_stack := (en_stack ?en)\<lparr>stk := rev ds @ stk (en_stack ?en)\<rparr>\<rparr>)"
    using Cons.prems(2) by (intro Cons.IH [OF b(2)]) simp
  finally show ?case by simp
qed simp

lemma execute_main_op:
  assumes "OPCODE_MAP H (unat b) = Some (MainOp f)" and "78 < unat b"
    and "unat b \<notin> {0x51..0x60} \<union> {0x61, 0x63, 0x64, 0x6a, 0xac, 0xad, 0xae, 0xaf, 0xb1, 0xba}"
    and "f (en_stack en) = Inr s"
  shows "execute_loop H D ctx src (b # rest) en = execute_loop H D ctx src rest (en\<lparr>en_stack := s\<rparr>)"
  by (subst execute_step [OF read_instructions_plain])
    (use assms in \<open>auto simp: exec_instruction_def exec_mapped_def Let_def\<close>)

lemma execute_verify_op:
  assumes "OPCODE_MAP H (unat b) = Some (VerifyOp f)" and "78 < unat b"
    and "unat b \<notin> {0x51..0x60} \<union> {0x61, 0x63, 0x64, 0x6a, 0xac, 0xad, 0xae, 0xaf, 0xb1, 0xba}"
    and "f (en_stack en) = Inr (ok, s)"
  shows "execute_loop H D ctx src (b # rest) en =
    (if ok then execute_loop H D ctx src rest (en\<lparr>en_stack := s\<rparr>) else fail_script src (en\<lparr>en_stack := s\<rparr>))"
  by (subst execute_step [OF read_instructions_plain])
    (use assms in \<open>auto simp: exec_instruction_def exec_mapped_def Let_def\<close>)

lemma execute_signatures:
  assumes "b = 0xac \<or> b = 0xae \<or> b = 0xba"
  shows "execute_loop H D ctx src (b # rest) en =
    bindR (handle_signatures H D (unat b) ctx en) (\<lambda>en1. execute_loop H D ctx src rest en1)"
  using assms
  by (subst execute_loop.simps, subst read_instructions_plain)
    (auto simp: exec_instruction_def Let_def bindR_assoc)

lemma execute_op_n:
  assumes "0x51 \<le> unat b" "unat b \<le> 0x60" "length (stk (en_stack en)) < max_size (en_stack en)"
  shows "execute_loop H D ctx src (b # rest) en =
    execute_loop H D ctx src rest (en\<lparr>en_stack := (en_stack en)\<lparr>stk := [b - 0x50] # stk (en_stack en)\<rparr>\<rparr>)"
proof -
  have "bitnum_encode (int (unat b) - 0x50) = Inr [b - 0x50]"
  proof -
    have "unat b \<in> {0x51, 0x52, 0x53, 0x54, 0x55, 0x56, 0x57, 0x58, 0x59, 0x5a, 0x5b, 0x5c, 0x5d, 0x5e, 0x5f, 0x60}"
      using assms(1,2) by simp presburger
    then have "b \<in> {0x51, 0x52, 0x53, 0x54, 0x55, 0x56, 0x57, 0x58, 0x59, 0x5a, 0x5b, 0x5c, 0x5d, 0x5e, 0x5f, 0x60}"
      by (simp add: word_unat_eq_iff)
    moreover have "list_all (\<lambda>b. bitnum_encode (int (unat b) - 0x50) = Inr [b - 0x50])
       [0x51 :: byte, 0x52, 0x53, 0x54, 0x55, 0x56, 0x57, 0x58, 0x59, 0x5a, 0x5b, 0x5c, 0x5d, 0x5e, 0x5f, 0x60]"
      by code_simp
    ultimately show ?thesis unfolding list_all_iff list.set by blast
  qed
  then show ?thesis
  by (subst execute_step [OF read_instructions_plain])
    (use assms in \<open>auto simp: exec_instruction_def Let_def on_stack_def push_Bytes\<close>)
qed

lemmas run_simps = stack_simps on_stack_def Let_def

section \<open>Conditionals\<close>

text \<open>
  C10: an \<^verbatim>\<open>OP_IF\<close> or \<^verbatim>\<open>OP_NOTIF\<close> takes its condition from the stack, runs exactly the selected one of its two
  branches as a script of its own on the same stacks, and continues after the matching
  \<^verbatim>\<open>OP_ENDIF\<close> unless the branch failed; a branch not selected is not executed whatever it holds.
\<close>

theorem conditional_runs_selected_branch:
  assumes "nest False first" and "else_parts parts" and "i_opcode f = 0x68"
    and "reads stream (first @ join_parts parts @ [f]) rest"
    and "b = 0x63 \<or> b = 0x64" and "stk (en_stack en) = c # st" and "length c \<le> 4"
  shows "execute_loop H D ctx src (b # stream) en =
    bindR (execute_script H D (if (script_num_value c \<noteq> 0) = (b = 0x63) then raws first else part_raws parts) ctx
        (en\<lparr>en_stack := (en_stack en)\<lparr>stk := st\<rparr>\<rparr>))
      (\<lambda>(ok, en2). if ok then execute_loop H D ctx src rest en2 else fail_script src en2)"
proof -
  obtain off where p: "parse_conditional_block (length stream) stream =
      Inr (raws first, part_raws parts, length stream - length stream, off, rest)"
    using conditional_block_parts [OF assms(1-4)] by blast
  have t: "stack_value_is_true c = Inr (script_num_value c \<noteq> 0)"
    using assms(7) by (simp add: stack_value_is_true_def bitnum_from_bytes_value script_num_value_def)
  have "select_conditional_branch (unat b) stream (en_stack en) =
      Inr (if (script_num_value c \<noteq> 0) = (b = 0x63) then raws first else part_raws parts, (en_stack en)\<lparr>stk := st\<rparr>, rest)"
    using assms(5,6) p t by (auto simp: select_conditional_branch_def pop_eq)
  moreover have "unat b = 0x63 \<or> unat b = 0x64" using assms(5) by auto
  ultimately show ?thesis
    by (subst execute_loop.simps)
      (auto simp: read_instructions_plain exec_instruction_def Let_def execute_script_def)
qed

lemma conditional_runs_selected_branch_witness:
  "execute_script pad_hashes (\<lambda>_. Inl ValueError) [0x51, 0x63, 0x52, 0x67, 0x6a, 0x68, 0x53] None new_engine =
     Inr (True, new_engine\<lparr>en_stack := \<lparr>stk = [[3], [2]], max_size = 1000\<rparr>\<rparr>)"
proof -
  let ?e = "new_engine\<lparr>en_stack := \<lparr>stk = [[1]], max_size = 1000\<rparr>\<rparr>"
  define mk where "mk b = \<lparr>i_opcode = unat b, i_raw = [b], i_is_push = False, i_push_data = None\<rparr>"
    for b :: byte
  have mk: "i_opcode (mk b) = unat b" "raws [mk b] = [b]" "i_raw (mk b) = [b]" for b
    by (simp_all add: mk_def)
  have n: "nest False [mk 0x52]" "else_parts [(mk 0x67, [mk 0x6a])]"
    by (auto simp: else_parts_def mk intro!: nest_plain nest_nil)
  have r: "reads [0x52, 0x67, 0x6a, 0x68, 0x53] ([mk 0x52] @ join_parts [(mk 0x67, [mk 0x6a])] @ [mk 0x68]) [0x53]"
    by (simp add: join_parts_def reads_Cons_iff reads_Nil_iff read_instructions_plain mk_def)
  have "execute_script pad_hashes (\<lambda>_. Inl ValueError) [0x51, 0x63, 0x52, 0x67, 0x6a, 0x68, 0x53] None new_engine =
      execute_loop pad_hashes (\<lambda>_. Inl ValueError) None [0x51, 0x63, 0x52, 0x67, 0x6a, 0x68, 0x53] [0x63, 0x52, 0x67, 0x6a, 0x68, 0x53] ?e"
    by (simp add: execute_script_def execute_op_n new_engine_def empty_stack_def MAX_STACK_def)
  also have "\<dots> = Inr (True, new_engine\<lparr>en_stack := \<lparr>stk = [[3], [2]], max_size = 1000\<rparr>\<rparr>)"
    using conditional_runs_selected_branch [OF n _ r, where b = "0x63" and en = ?e and c = "[1]" and st = "[]" and H = pad_hashes
        and D = "\<lambda>_. Inl ValueError" and ctx = None and src = "[0x51, 0x63, 0x52, 0x67, 0x6a, 0x68, 0x53]"]
    by (simp add: mk script_num_value_def execute_script_def execute_op_n new_engine_def empty_stack_def)
  finally show ?thesis .
qed

section \<open>Opcodes the dispatch table lacks\<close>

text \<open>
  \<^verbatim>\<open>OP_CHECKSIGVERIFY\<close>, \<^verbatim>\<open>OP_CHECKMULTISIGVERIFY\<close>, \<^verbatim>\<open>OP_CHECKSEQUENCEVERIFY\<close> and the upgradable no-ops
  \<^verbatim>\<open>OP_NOP1\<close>, \<^verbatim>\<open>OP_NOP4\<close> to \<^verbatim>\<open>OP_NOP10\<close> have no entry in the dispatch table, so executing one raises
  \<^verbatim>\<open>KeyError\<close> whatever the stacks and the context are: the branch of the loop written for the two
  verifying signature opcodes is never reached.
\<close>

theorem unsupported_opcodes_raise:
  assumes "b \<in> {0xad, 0xaf, 0xb0, 0xb2, 0xb3, 0xb4, 0xb5, 0xb6, 0xb7, 0xb8, 0xb9}"
  shows "execute_loop H D ctx src (b # rest) en = Inl KeyError"
proof -
  have n: "unat b \<in> {0xad, 0xaf, 0xb0, 0xb2, 0xb3, 0xb4, 0xb5, 0xb6, 0xb7, 0xb8, 0xb9}"
    using assms by (simp add: word_unat_eq_iff)
  have "list_all (\<lambda>k. OPCODE_MAP H k = None) [0xad, 0xaf, 0xb0, 0xb2, 0xb3, 0xb4, 0xb5, 0xb6, 0xb7, 0xb8, 0xb9]"
    by (simp add: OPCODE_MAP_def)
  with n have "OPCODE_MAP H (unat b) = None" unfolding list_all_iff list.set by blast
  then have m: "exec_mapped H D ctx (unat b) en = Inl KeyError" by (simp add: exec_mapped_def)
  have k: "78 < unat b" "unat b \<notin> {0x51..0x60} \<union> {0, 0x61, 0x63, 0x64, 0x6a, 0xac, 0xae, 0xb1, 0xba}"
    using n by auto
  have "exec_instruction H D ctx (plain_instr b) rest en = Inl KeyError"
    using k m by (simp add: exec_instruction_def Let_def plain_instr_def) blast
  then show ?thesis using k(1)
    by (subst execute_loop.simps) (simp add: read_instructions_plain plain_instr_def)
qed

lemma unsupported_opcodes_raise_witness:
  "execute_script pad_hashes (\<lambda>_. Inl ValueError) [0xad] None new_engine = Inl KeyError"
  using unsupported_opcodes_raise [where b = "0xad" and src = "[0xad]" and rest = "[]"] by (simp add: execute_script_def)

text \<open>
  the engine has two notions of truth that disagree. \<^verbatim>\<open>OP_VERIFY\<close> takes every item but the empty one and
  the single zero byte for true; \<^verbatim>\<open>OP_IF\<close> and the final stack test decode a number, so negative zero
  and longer zeros are false there, and an item of more than four bytes raises.
\<close>

theorem truth_tests_differ:
  assumes "stk s = x # xs"
  shows "op_verify s = Inr (x \<noteq> [] \<and> x \<noteq> [0x00], s\<lparr>stk := xs\<rparr>)
    \<and> stack_value_is_true x = (if length x \<le> 4 then Inr (script_num_value x \<noteq> 0) else Inl BitNumError)
    \<and> (length x \<le> 4 \<longrightarrow> x \<noteq> [] \<and> x \<noteq> [0x00] \<and> script_num_value x = 0 \<longrightarrow>
         op_verify s = Inr (True, s\<lparr>stk := xs\<rparr>) \<and> stack_value_is_true x = Inr False)"
  using assms
  by (simp add: op_verify_def pop_eq stack_value_is_true_def bitnum_from_bytes_value script_num_value_def)

lemma truth_tests_differ_witness:
  "op_verify \<lparr>stk = [[0x80]], max_size = 1000\<rparr> = Inr (True, \<lparr>stk = [], max_size = 1000\<rparr>)
    \<and> stack_value_is_true [0x80] = Inr False"
proof -
  have "script_num_value [0x80] = 0" by (simp add: script_num_value_def)
  with truth_tests_differ [of "\<lparr>stk = [[0x80]], max_size = 1000\<rparr>" "[0x80]" "[]"] show ?thesis by simp
qed

section \<open>Lock times\<close>

text \<open>
  \<^verbatim>\<open>_checklocktime\<close> accepts exactly when BIP65 does for an operand of at most four bytes: the
  operand is not negative, the input is not final, operand and transaction lock time are of the same
  kind (height or time), and the operand is not after the lock time. It leaves the operand on the stack; a five-byte operand, which BIP65 allows,
  raises.
\<close>

theorem checklocktime_is_bip65:
  assumes "stk (en_stack en) = v # st" and "ctx_tx ctx = Some t" and "ctx_index ctx = Some i"
    and "0 \<le> i" "nat i < length (t_inputs t)"
  shows "checklocktime ctx en =
    (if 4 < length v then Inl BitNumError
     else Inr (0 \<le> script_num_value v \<and> in_sequence (t_inputs t ! nat i) \<noteq> 0xffffffff
       \<and> (script_num_value v < 500000000 \<longleftrightarrow> t_locktime t < 500000000) \<and> script_num_value v \<le> t_locktime t))"
  using assms
  by (auto simp: checklocktime_def top_item_eq bitnum_from_bytes_value need_index_def py_index_nat
      index_at_def LOCKTIME_THRESHOLD_def)

definition locked_tx :: tx where
  "locked_tx = spend_tx\<lparr>t_locktime := 700000, t_inputs := map (\<lambda>i. i\<lparr>in_sequence := 0xfffffffe\<rparr>) (t_inputs spend_tx)\<rparr>"

lemma checklocktime_is_bip65_witness:
  "checklocktime (Legacy (default_legacy_context\<lparr>lc_tx := Some locked_tx, lc_index := Some 0\<rparr>))
      (new_engine\<lparr>en_stack := \<lparr>stk = [[0x20, 0xa1, 0x07]], max_size = 1000\<rparr>\<rparr>) = Inr True"
  by (subst checklocktime_is_bip65 [where v = "[0x20, 0xa1, 0x07]" and st = "[]" and t = locked_tx and i = 0])
    (simp_all add: locked_tx_def spend_tx_def script_num_value_def)

section \<open>Pay to public key hash\<close>

lemma p2pkh_map:
  "OPCODE_MAP H 0x76 = Some (MainOp op_dup)" "OPCODE_MAP H 0xa9 = Some (MainOp (op_hash160 H))"
  "OPCODE_MAP H 0x88 = Some (VerifyOp op_equalverify)"
  by (simp_all add: OPCODE_MAP_def)

lemma encode_pushdata_short: "0 < length d \<Longrightarrow> length d \<le> 0x4b \<Longrightarrow> encode_pushdata d = Inr (of_nat (length d) # d)"
  by (simp add: encode_pushdata_def Let_def to_bytes_le_def Suc_le_eq)

lemma run_p2pkh:
  assumes "length pkh = 20" and "stk (en_stack en) = pub # st" and "length st + 3 \<le> max_size (en_stack en)"
  shows "execute_loop H D ctx src (sc_bytes (p2pkh_from_pubkeyhash pkh)) en =
    (if hash160 H pub = pkh then bindR (handle_checksig H D ctx en) (\<lambda>en1. Inr (True, en1))
     else fail_script src en)"
proof -
  let ?s = "\<lambda>xs. en\<lparr>en_stack := (en_stack en)\<lparr>stk := xs\<rparr>\<rparr>"
  have s: "?s (pub # st) = en" by (simp flip: assms(2))
  have "execute_loop H D ctx src (sc_bytes (p2pkh_from_pubkeyhash pkh)) en =
      execute_loop H D ctx src (0x76 # 0xa9 # 0x14 # pkh @ [0x88, 0xac]) en"
    by (simp add: p2pkh_from_pubkeyhash_def)
  also have "\<dots> = execute_loop H D ctx src (0xa9 # 0x14 # pkh @ [0x88, 0xac]) (?s (pub # pub # st))"
    by (subst execute_main_op [where f = op_dup])
      (use assms in \<open>auto simp: p2pkh_map op_dup_def run_simps\<close>)
  also have "\<dots> = execute_loop H D ctx src (0x14 # pkh @ [0x88, 0xac]) (?s (hash160 H pub # pub # st))"
    by (subst execute_main_op [where f = "op_hash160 H"])
      (use assms in \<open>auto simp: p2pkh_map op_hash160_def run_simps\<close>)
  also have "\<dots> = execute_loop H D ctx src [0x88, 0xac] (?s (pkh # hash160 H pub # pub # st))"
    using execute_push [of pkh "0x14 # pkh" "?s (hash160 H pub # pub # st)" H D ctx src "[0x88, 0xac]"] assms
    by (simp add: encode_pushdata_short)
  also have "\<dots> = (if hash160 H pub = pkh then execute_loop H D ctx src [0xac] en else fail_script src en)"
  proof -
    have "op_equalverify (en_stack (?s (pkh # hash160 H pub # pub # st))) =
        Inr (hash160 H pub = pkh, (en_stack en)\<lparr>stk := pub # st\<rparr>)"
      using assms by (simp add: op_equalverify_def op_verify_def run_simps)
    then show ?thesis
      by (subst execute_verify_op [where f = op_equalverify]) (auto simp: p2pkh_map s)
  qed
  also have "execute_loop H D ctx src [0xac] en = bindR (handle_checksig H D ctx en) (\<lambda>en1. Inr (True, en1))"
  proof -
    have "execute_loop H D ctx src [] = (\<lambda>en1. Inr (True, en1))" by (rule ext) simp
    then show ?thesis by (subst execute_signatures) (simp_all add: handle_signatures_def)
  qed
  finally show ?thesis .
qed

text \<open>What the code of a successful match answers, outside Tapscript.\<close>

definition checksig_verdict ::
  "hashes \<Rightarrow> der_decoder \<Rightarrow> exec_context \<Rightarrow> utxo list \<Rightarrow> bytes \<Rightarrow> bytes \<Rightarrow> bool result" where
  "checksig_verdict H D ctx utxos sig pub =
     bindR (checksig_script_code ctx utxos) (\<lambda>code.
     bindR (compute_sighash H ctx code (uint (last sig))) (\<lambda>h.
       verify_ecdsa_sig D (butlast sig) h pub (flag_on (ctx_flags ctx) FLAG_DERSIG)))"

lemma handle_checksig_verdict:
  assumes "ctx_tx ctx = Some t" and "ctx_utxos ctx = Some utxos" and "\<not> ctx_tapscript ctx" and "sig \<noteq> []"
    and "stk (en_stack en) = pub # sig # st" and "length st < max_size (en_stack en)"
  shows "handle_checksig H D (Some ctx) en =
    bindR (checksig_verdict H D ctx utxos sig pub)
      (\<lambda>b. Inr (en\<lparr>en_stack := (en_stack en)\<lparr>stk := (if b then [1] else []) # st\<rparr>\<rparr>))"
  using assms
  by (simp add: handle_checksig_def need_def popitems_eq Let_def split_signature_def verify_sig_def
      checksig_verdict_def bindR_assoc pushbool_eq on_stack_def)

lemma validate_single:
  "stk (en_stack en) = [if b then [1] else []] \<Longrightarrow> \<exists>en'. validate_stack True en = Inr (b, en')"
  by (cases b) (simp_all add: validate_stack_def height_def pop_eq stack_value_is_true_def
      bitnum_from_bytes_value script_num_value_def)

lemma to_asm_push:
  "0 < length d \<Longrightarrow> length d \<le> 0x4b \<Longrightarrow>
    to_asm (of_nat (length d) # d @ rest) =
      bindR (to_asm rest) (\<lambda>asm. Inr ((''OP_PUSHBYTES_'' @ dec_str (length d)) # bytes_hex d # asm))"
  by (simp add: unsigned_of_nat take_bit_nat_eq_self Let_def Suc_le_eq)

lemma to_asm_p2pkh:
  assumes "length pkh = 20"
  shows "\<exists>asm. to_asm (sc_bytes (p2pkh_from_pubkeyhash pkh)) = Inr asm"
proof -
  have n: "get_name 0x76 = Some ''OP_DUP''" "get_name 0xa9 = Some ''OP_HASH160''"
    "get_name 0x88 = Some ''OP_EQUALVERIFY''" "get_name 0xac = Some ''OP_CHECKSIG''"
    by (simp_all add: get_name_def opcode_codes_def)
  have "\<exists>asm. to_asm (0x14 # pkh @ [0x88, 0xac]) = Inr asm"
    using to_asm_push [of pkh "[0x88, 0xac]"] assms by (simp add: n Let_def)
  then show ?thesis by (auto simp: p2pkh_from_pubkeyhash_def n Let_def)
qed

text \<open>
  C8: spending a P2PKH output with a signature and a key asks exactly two questions: whether the
  key hashes to the committed value, and whether the signature check of \<^verbatim>\<open>OP_CHECKSIG\<close> accepts the pair for the
  sighash its last byte selects. The answer, and every exception, is that of the signature check.
\<close>

theorem p2pkh_spend:
  assumes "p2pkh_sig sig pub = Inr ss" and "0 < length sig" "length sig \<le> 0x4b" and "length pkh = 20"
    and "ctx_tx ctx = Some t" and "ctx_utxos ctx = Some utxos" and "\<not> ctx_tapscript ctx"
    and "engine_inv en"
  shows "bindR (validate_script_pair H D (p2pkh_from_pubkeyhash pkh) ss (Some ctx) en) (\<lambda>(ok, _). Inr ok) =
    (if hash160 H pub = pkh then checksig_verdict H D ctx utxos sig pub else Inr False)"
proof -
  let ?key = "sc_bytes (p2pkh_from_pubkeyhash pkh)"
  have k: "pub \<noteq> []" "length pub \<le> 0x4b"
    using assms(1) by (auto simp: p2pkh_sig_def pubkey_length_ok_def)
  have ss: "sc_bytes ss = (of_nat (length sig) # sig) @ (of_nat (length pub) # pub)"
    using assms(1) encode_pushdata_short [OF assms(2,3)] encode_pushdata_short [of pub] k
    by (auto simp: p2pkh_sig_def)
  have not_p2sh: "\<not> p2sh_matches ?key" by (simp add: p2sh_matches_def p2pkh_from_pubkeyhash_def)
  obtain asm where asm: "to_asm (sc_bytes ss @ ?key) = Inr asm"
    using to_asm_push [OF assms(2,3), of "of_nat (length pub) # pub @ ?key"]
      to_asm_push [of pub ?key] k to_asm_p2pkh [OF assms(4)] by (auto simp: ss)
  define en1 where "en1 = (clear_stacks en)\<lparr>en_stack := \<lparr>stk = [pub, sig], max_size = MAX_STACK\<rparr>\<rparr>"
  have c: "en_stack (clear_stacks en) = \<lparr>stk = [], max_size = MAX_STACK\<rparr>"
    using assms(8) by (simp add: clear_stacks_def clear_def engine_inv_def)
  have w: "write_all encode_pushdata [sig, pub] = Inr (sc_bytes ss)"
    using encode_pushdata_short [OF assms(2,3)] encode_pushdata_short [of pub] k by (simp add: ss)
  have "execute_script H D (sc_bytes ss @ ?key) (Some ctx) (clear_stacks en) =
      execute_loop H D (Some ctx) (sc_bytes ss @ ?key) ?key en1"
    unfolding execute_script_def by (subst execute_pushes [OF w]) (simp_all add: c en1_def MAX_STACK_def)
  also have "\<dots> = (if hash160 H pub = pkh then bindR (handle_checksig H D (Some ctx) en1) (\<lambda>en2. Inr (True, en2))
      else Inr (False, en1))"
    by (subst run_p2pkh [where pub = pub and st = "[sig]"])
      (simp_all add: assms(4) en1_def MAX_STACK_def fail_script_def asm)
  finally have x: "execute_script H D (sc_bytes ss @ ?key) (Some ctx) (clear_stacks en) = \<dots>" .
  have h: "handle_checksig H D (Some ctx) en1 = bindR (checksig_verdict H D ctx utxos sig pub)
      (\<lambda>b. Inr (en1\<lparr>en_stack := (en_stack en1)\<lparr>stk := [if b then [1] else []]\<rparr>\<rparr>))"
    using handle_checksig_verdict [of ctx t utxos sig en1 pub "[]" H D] assms(2,5-7) by (simp add: en1_def MAX_STACK_def)
  show ?thesis
  proof (cases "hash160 H pub = pkh")
    case False
    with x not_p2sh show ?thesis by (simp add: validate_script_pair_def validate_script_def)
  next
    case True
    have v: "bindR (validate_stack True (en1\<lparr>en_stack := (en_stack en1)\<lparr>stk := [if b then [1] else []]\<rparr>\<rparr>))
        (\<lambda>(ok, _). Inr ok) = Inr b" for b
      using validate_single [of "en1\<lparr>en_stack := (en_stack en1)\<lparr>stk := [if b then [1] else []]\<rparr>\<rparr>" b] by auto
    show ?thesis using True x not_p2sh
      by (cases "checksig_verdict H D ctx utxos sig pub") (simp_all add: validate_script_pair_def validate_script_def h v)
  qed
qed

section \<open>A signature that verifies\<close>

text \<open>
  For the generator as public key, the message zero and \<open>r = s = x\<close> of the generator, the check computes
  \<open>0 * G + 1 * G\<close>: an accepted signature that needs no arithmetic on the curve. The hash functions that
  answer zeros make every sighash that message.
\<close>

definition zero_hashes :: hashes where
  "zero_hashes = \<lparr>h_sha1 = \<lambda>_. replicate 20 0, h_sha256 = \<lambda>_. replicate 32 0, h_ripemd160 = \<lambda>_. replicate 20 0\<rparr>"

abbreviation generator_x :: int where
  "generator_x \<equiv> 0x79be667ef9dcbbac55a06295ce870b07029bfcdb2dce28d959f2815b16f81798"

abbreviation generator_y :: int where
  "generator_y \<equiv> 0x483ada7726a3c4655da4fbfc0e1108a8fd17b448a68554199c47d08ffb10d4b8"

definition generator_key :: bytes where
  "generator_key = 0x04 # rev (le_bytes 32 generator_x) @ rev (le_bytes 32 generator_y)"

lemma generator_loop_zero: "generator_loop E table None 0 = Inr None"
  by (cases table) auto

lemma generator_key_point: "pubkey_from_bytes SECP256K1 generator_key = Inr (Some (generator_x, generator_y))"
proof -
  have v: "le_val (le_bytes 32 generator_x) = generator_x" "le_val (le_bytes 32 generator_y) = generator_y"
    by (rule le_val_le_bytes; simp)+
  have on: "is_point_on_curve SECP256K1 (Some (generator_x, generator_y))"
    using SECP256K1_generator_on_curve by (simp add: SECP256K1_def)
  show ?thesis using on v
    by (simp add: pubkey_from_bytes_def from_uncompressed_def generator_key_def be_val_def from_point_def del: le_bytes.simps)
qed

lemma generator_inverse:
  "mod_inverse generator_x (cv_order SECP256K1) =
    Inr 0x1dd887b3eaf153260a95e8b9fd31f60ac115d26ccbe1f572c0b8d7a6dec520fe"
proof (rule mod_inverse_unique)
  have "generator_x * 0x1dd887b3eaf153260a95e8b9fd31f60ac115d26ccbe1f572c0b8d7a6dec520fe - 1 =
      0xFFFFFFFFFFFFFFFFFFFFFFFFFFFFFFFEBAAEDCE6AF48A03BBFD25E8CD0364141 *
      0xe318acbd55a41865bde9dd912998d0afe4c8edafc028ed4e97a6bee5d09160f" by simp
  then show "cv_order SECP256K1 dvd generator_x * 0x1dd887b3eaf153260a95e8b9fd31f60ac115d26ccbe1f572c0b8d7a6dec520fe - 1"
    by (simp only: SECP256K1_def ecurve.simps dvdI)
qed (simp_all add: SECP256K1_def)

lemma generator_verifies:
  "verify_ecdsa SECP256K1 (generator_x, generator_x) (replicate 32 0) (Some (generator_x, generator_y)) = Inr True"
proof -
  have z: "message_value n (replicate 32 0) = 0" for n
    by (simp add: message_value_def be_val_def eval_nat_numeral)
  have one: "generator_x * 0x1dd887b3eaf153260a95e8b9fd31f60ac115d26ccbe1f572c0b8d7a6dec520fe mod cv_order SECP256K1 = 1"
    by (simp add: SECP256K1_def)
  have g: "1 \<le> generator_x" "generator_x < cv_order SECP256K1" "generator_x mod cv_order SECP256K1 = generator_x"
    "1 mod cv_order SECP256K1 = 1"
    by (simp_all add: SECP256K1_def)
  have m: "multiply_generator SECP256K1 0 = Inr None"
    by (simp add: multiply_generator_def scalar_mult_generator_def generator_loop_zero)
  have s: "scalar_multiplication SECP256K1 1 (Some (generator_x, generator_y)) = Inr (Some (generator_x, generator_y))"
    by (simp add: scalar_multiplication_def g(4))
  show ?thesis
    by (simp only: verify_ecdsa_def fst_conv snd_conv Let_def g guardR_simps bindR_simps z generator_inverse
        mult_zero_left mod_0 m one s add_points_def option.case prod.case simp_thms)
qed

lemma generator_signature: "verify_ecdsa_sig (\<lambda>_. Inr (generator_x, generator_x)) sig (replicate 32 0) generator_key True = Inr True"
  by (simp only: verify_ecdsa_sig_def bindR_simps generator_key_point generator_verifies if_True sum.case)

definition legacy_ctx :: exec_context where
  "legacy_ctx = Legacy (default_legacy_context\<lparr>lc_tx := Some spend_tx, lc_index := Some 0, lc_utxos := Some [],
     lc_script_code := Some [0x51], lc_flags := FLAG_DERSIG\<rparr>)"

lemma generator_checksig:
  "checksig_verdict zero_hashes (\<lambda>_. Inr (generator_x, generator_x)) legacy_ctx [] [0x30, 1] generator_key = Inr True"
proof -
  obtain h where h: "get_legacy_sighash zero_hashes spend_tx 0 [0x51] 1 = Inr h"
    using spend_tx_sighashes(1) by blast
  then obtain p where "h = hash256 zero_hashes p"
    by (auto simp: get_legacy_sighash_def Let_def)
  then have "h = replicate 32 0" by (simp add: hash256_def zero_hashes_def)
  with h show ?thesis using generator_signature [of "[0x30]"]
    by (simp add: checksig_verdict_def checksig_script_code_def compute_sighash_def legacy_ctx_def need_index_def
        default_legacy_context_def flag_on_def FLAG_DERSIG_def del: le_bytes.simps)
qed

lemma generator_key_length: "length generator_key = 65"
  by (simp add: generator_key_def)

lemma p2pkh_spend_witness:
  "bindR (validate_script_pair zero_hashes (\<lambda>_. Inr (generator_x, generator_x)) (p2pkh_from_pubkeyhash (replicate 20 0))
      (mk_script P2PKH ([2, 0x30, 1, 65] @ generator_key)) (Some legacy_ctx) new_engine) (\<lambda>(ok, _). Inr ok) = Inr True"
proof -
  have ss: "p2pkh_sig [0x30, 1] generator_key = Inr (mk_script P2PKH ([2, 0x30, 1, 65] @ generator_key))"
    by (simp add: p2pkh_sig_def pubkey_length_ok_def generator_key_length encode_pushdata_short)
  have c: "ctx_tx legacy_ctx = Some spend_tx" "ctx_utxos legacy_ctx = Some []" "\<not> ctx_tapscript legacy_ctx"
    by (simp_all add: legacy_ctx_def default_legacy_context_def)
  show ?thesis
    by (subst p2pkh_spend [OF ss _ _ _ c new_engine_inv])
      (simp_all add: generator_checksig hash160_def zero_hashes_def [THEN arg_cong [where f = h_ripemd160]] del: bindR_simps)
qed

section \<open>Witness scripts\<close>

lemma execute_op_return: "execute_loop H D ctx src (0x6a # rest) en = fail_script src en"
proof -
  have "exec_instruction H D ctx (plain_instr 0x6a) rest en = Inr (False, en, rest, None)"
    by (simp add: exec_instruction_def plain_instr_def Let_def)
  then show ?thesis using execute_step [of "0x6a # rest" "plain_instr 0x6a" rest H D ctx en False en rest src]
    by (simp add: read_instructions_plain plain_instr_def)
qed

lemma validate_one:
  "stk (en_stack en) = [x] \<Longrightarrow> length x \<le> 4 \<Longrightarrow> \<exists>en'. validate_stack True en = Inr (script_num_value x \<noteq> 0, en')"
  by (auto simp: validate_stack_def height_def pop_eq stack_value_is_true_def bitnum_from_bytes_value script_num_value_def)

text \<open>
  C35: a P2WSH spend never looks at whether its witness script succeeded. An output locked by a script that begins with
  \<^verbatim>\<open>OP_RETURN\<close>, which fails in every context and whatever follows, is spent by anyone who reveals the script and
  puts a true value before it: the verdict is the truth of that value.
\<close>

theorem p2wsh_ignores_script_failure:
  assumes "sc_kind key = P2WSH" and "drop 2 (sc_bytes key) = h_sha256 H (0x6a # rest)"
    and "ctx_tx ctx = Some t" and "ctx_index ctx = Some i" and "py_index (t_witness t) i = Inr [x, 0x6a # rest]"
    and "ctx_utxo ctx = Inr u" and "to_asm (0x6a # rest) = Inr asm" and "length rest < 2 ^ 32" and "length x \<le> 4"
    and "engine_inv en"
  shows "execute_script H D (0x6a # rest) c en = Inr (False, en)
    \<and> bindR (validate_segwit H D key (Some ctx) en) (\<lambda>(ok, _). Inr ok) = Inr (script_num_value x \<noteq> 0)"
proof
  show fails: "execute_script H D (0x6a # rest) c en = Inr (False, en)" for c en
    by (simp add: execute_script_def execute_op_return fail_script_def assms(7) del: to_asm.simps)
  let ?en = "(clear_stacks en)\<lparr>en_stack := \<lparr>stk = [x], max_size = MAX_STACK\<rparr>\<rparr>"
  have c: "en_stack (clear_stacks en) = \<lparr>stk = [], max_size = MAX_STACK\<rparr>"
    using assms(10) by (simp add: clear_stacks_def clear_def engine_inv_def)
  have p: "pushlist (en_stack (clear_stacks en)) [Bytes x] = Inr \<lparr>stk = [x], max_size = MAX_STACK\<rparr>"
    using pushlist_Bytes [of "en_stack (clear_stacks en)" "[x]"] by (simp add: c MAX_STACK_def)
  have "\<exists>n. write_compact_size (int (length ((0x6a :: byte) # rest))) = Inr n"
    using assms(8) by (simp add: write_compact_size_def MAX_COMPACTSIZE_def to_bytes_le_def)
  then obtain code where code: "serialize_data (0x6a # rest) = Inr code" by (auto simp: serialize_data_def)
  obtain en' where v: "validate_stack True ?en = Inr (script_num_value x \<noteq> 0, en')"
    using validate_one [of ?en x] assms(9) by auto
  have "segwit_p2wsh H D (sc_bytes key) [x, 0x6a # rest] ctx (clear_stacks en) = Inr (script_num_value x \<noteq> 0, en')"
    by (simp add: segwit_p2wsh_def Let_def assms(2) p code fails v)
  then show "bindR (validate_segwit H D key (Some ctx) en) (\<lambda>(ok, _). Inr ok) = Inr (script_num_value x \<noteq> 0)"
    by (simp add: validate_segwit_def need_def need_index_def Let_def assms(1-6))
qed

text \<open>An output for the script of \<^verbatim>\<open>OP_RETURN\<close> and an empty push, spent with the item 1.\<close>

definition burn_key :: script_obj where "burn_key = mk_script P2WSH ([0x00, 0x20] @ replicate 32 0)"

definition burn_ctx :: exec_context where
  "burn_ctx = Legacy (default_legacy_context\<lparr>lc_tx := Some (spend_tx\<lparr>t_witness := [[[1], [0x6a, 0x51]]]\<rparr>), lc_index := Some 0,
     lc_utxos := Some [\<lparr>u_outpoint = replicate 36 0, u_amount = 1, u_scriptpubkey = [0x00, 0x20] @ replicate 32 0, u_block_height = 1,
       u_is_coinbase = False\<rparr>]\<rparr>)"

lemma p2wsh_ignores_script_failure_witness:
  "execute_script zero_hashes (\<lambda>_. Inl ValueError) [0x6a, 0x51] None new_engine = Inr (False, new_engine)
   \<and> bindR (validate_segwit zero_hashes (\<lambda>_. Inl ValueError) burn_key (Some burn_ctx) new_engine) (\<lambda>(ok, _). Inr ok) = Inr True"
proof -
  obtain asm where asm: "to_asm [0x6a, 0x51] = Inr asm" by (simp add: get_name_def opcode_codes_def Let_def)
  have key: "sc_kind burn_key = P2WSH" "drop 2 (sc_bytes burn_key) = h_sha256 zero_hashes [0x6a, 0x51]"
    by (simp_all add: burn_key_def zero_hashes_def)
  have ctx: "ctx_tx burn_ctx = Some (spend_tx\<lparr>t_witness := [[[1], [0x6a, 0x51]]]\<rparr>)" "ctx_index burn_ctx = Some 0"
    "py_index (t_witness (spend_tx\<lparr>t_witness := [[[1 :: byte], [0x6a, 0x51]]]\<rparr>)) 0 = Inr [[1], [0x6a, 0x51]]"
    "\<exists>u. ctx_utxo burn_ctx = Inr u"
    by (simp_all add: burn_ctx_def default_legacy_context_def py_index_def)
  then obtain u where u: "ctx_utxo burn_ctx = Inr u" by blast
  have "script_num_value [1] = 1" by (simp add: script_num_value_def)
  then show ?thesis
    using p2wsh_ignores_script_failure [OF key ctx(1-3) u asm _ _ new_engine_inv, of "\<lambda>_. Inl ValueError" None] by simp
qed

lemma run_op_return:
  "execute_script H D [0x51, 0x6a] ctx new_engine =
     Inr (False, new_engine\<lparr>en_stack := \<lparr>stk = [[1]], max_size = 1000\<rparr>\<rparr>)"
proof -
  have i: "exec_instruction H D ctx (plain_instr 0x6a) [] en = Inr (False, en, [], None)" for en
    by (simp add: exec_instruction_def plain_instr_def Let_def)
  have r: "read_instructions [0x6a] = Inr (Some (plain_instr 0x6a, []))"
    by (simp add: read_instructions_plain plain_instr_def)
  have l: "execute_loop H D ctx src [0x6a] en = fail_script src en" for src en
    by (subst execute_step [OF r i]) simp
  have "\<exists>asm. to_asm [0x51, 0x6a] = Inr asm" by (simp add: get_name_def opcode_codes_def Let_def)
  then have "fail_script [0x51, 0x6a] en = Inr (False, en)" for en by (auto simp: fail_script_def)
  then show ?thesis by (simp add: execute_script_def execute_op_n l new_engine_def empty_stack_def MAX_STACK_def)
qed

section \<open>Multisignatures\<close>

definition multisig_check ::
  "hashes \<Rightarrow> der_decoder \<Rightarrow> exec_context \<Rightarrow> bytes \<Rightarrow> bytes \<Rightarrow> bytes \<Rightarrow> bool result" where
  "multisig_check H D ctx code sig pub =
     bindR (compute_sighash H ctx code (uint (last sig))) (\<lambda>h.
       verify_ecdsa_sig D (butlast sig) h pub (flag_on (ctx_flags ctx) FLAG_DERSIG))"

text \<open>Every signature has its key, in the order of the keys.\<close>

definition matching :: "('s \<Rightarrow> 'k \<Rightarrow> bool) \<Rightarrow> 's list \<Rightarrow> 'k list \<Rightarrow> bool" where
  "matching v sigs pubs \<longleftrightarrow> (\<exists>ks. subseq ks pubs \<and> list_all2 v sigs ks)"

lemma matching_simps [simp]:
  "matching v [] pubs"
  "matching v sigs [] \<longleftrightarrow> sigs = []"
  by (auto simp: matching_def dest: list_emb_Nil2)

lemma matching_skip: "\<not> v s k \<Longrightarrow> matching v (s # sigs) (k # pubs) \<longleftrightarrow> matching v (s # sigs) pubs"
  unfolding matching_def by (metis list_all2_Cons1 subseq_Cons2_neq subseq_Cons2_iff subseq_Cons')

lemma matching_take: "v s k \<Longrightarrow> matching v (s # sigs) (k # pubs) \<longleftrightarrow> matching v sigs pubs"
proof
  assume "matching v (s # sigs) (k # pubs)"
  then obtain k' ks where "subseq (k' # ks) (k # pubs)" "list_all2 v sigs ks"
    by (auto simp: matching_def list_all2_Cons1)
  then have "subseq ks pubs" by (auto simp: subseq_Cons2_iff split: if_splits dest: subseq_Cons')
  with \<open>list_all2 v sigs ks\<close> show "matching v sigs pubs" by (auto simp: matching_def)
next
  assume "v s k" "matching v sigs pubs"
  then obtain ks where "subseq ks pubs" "list_all2 v sigs ks" by (auto simp: matching_def)
  then show "matching v (s # sigs) (k # pubs)" unfolding matching_def
    using \<open>v s k\<close> by (intro exI [of _ "k # ks"]) simp
qed

lemma multisig_loop_matching:
  assumes "\<And>s k. s \<in> set sigs \<Longrightarrow> k \<in> set pubs \<Longrightarrow> multisig_check H D ctx code s k = Inr (v s k)"
    and "[] \<notin> set sigs"
  shows "\<exists>m. multisig_loop H D ctx code sigs pubs = Inr m \<and> m \<le> length sigs \<and> (m = length sigs \<longleftrightarrow> matching v sigs pubs)"
  using assms
proof (induction H D ctx code sigs pubs rule: multisig_loop.induct)
  case (1 H D ctx code sig sigs pub pubs)
  from "1.prems"(1) [of sig pub] obtain h where h: "compute_sighash H ctx code (uint (last sig)) = Inr h"
    and ok: "verify_ecdsa_sig D (butlast sig) h pub (flag_on (ctx_flags ctx) FLAG_DERSIG) = Inr (v sig pub)"
    by (auto simp: multisig_check_def)
  show ?case
  proof (cases "v sig pub")
    case True
    with "1.IH"(1) [OF _ h ok] "1.prems" show ?thesis
      by (force simp: h ok matching_take)
  next
    case False
    with "1.IH"(2) [OF _ h ok] "1.prems" show ?thesis
      by (force simp: h ok matching_skip)
  qed
qed auto

lemma pop_n_append:
  "stk s = xs @ ys \<Longrightarrow> pop_n (length xs) s = Inr (xs, s\<lparr>stk := ys\<rparr>)"
  by (induction xs arbitrary: s) (auto simp: pop_eq)

text \<open>
  C9: \<^verbatim>\<open>OP_CHECKMULTISIG\<close>'s single pass over the keys decides the m-of-n condition: it pushes true exactly
  when the signatures can be assigned to keys they verify for in the order of the keys, no key
  serving twice. Skipping a key for good when it does not fit the current signature never loses
  an assignment.
\<close>

theorem multisig_decides_matching:
  assumes "stk (en_stack en) = nb # pubs @ mb # sigs @ [] # st" and "length nb \<le> 4" and "length mb \<le> 4"
    and "script_num_value nb = int (length pubs)" and "script_num_value mb = int (length sigs)"
    and "length (stk (en_stack en)) \<le> max_size (en_stack en)"
    and "utxo_script_code ctx = Inr code" and "[] \<notin> set sigs"
    and "\<And>s k. s \<in> set sigs \<Longrightarrow> k \<in> set pubs \<Longrightarrow> multisig_check H D ctx code s k = Inr (v s k)"
  shows "handle_multisig H D (Some ctx) en =
    Inr (en\<lparr>en_stack := (en_stack en)\<lparr>stk := (if matching v sigs pubs then [1] else []) # st\<rparr>\<rparr>)"
proof -
  obtain m where m: "multisig_loop H D ctx code sigs pubs = Inr m" "m = length sigs \<longleftrightarrow> matching v sigs pubs"
    using multisig_loop_matching [OF assms(9,8)] by blast
  have p: "pop_n (length pubs) ((en_stack en)\<lparr>stk := pubs @ mb # sigs @ [] # st\<rparr>) =
      Inr (pubs, (en_stack en)\<lparr>stk := mb # sigs @ [] # st\<rparr>)"
    using pop_n_append [of "(en_stack en)\<lparr>stk := pubs @ mb # sigs @ [] # st\<rparr>" pubs] by simp
  have s: "pop_n (length sigs) ((en_stack en)\<lparr>stk := sigs @ [] # st\<rparr>) = Inr (sigs, (en_stack en)\<lparr>stk := [] # st\<rparr>)"
    using pop_n_append [of "(en_stack en)\<lparr>stk := sigs @ [] # st\<rparr>" sigs] by simp
  show ?thesis using assms(1-6) m
    by (simp add: handle_multisig_def popnum_eq p s pop_eq need_def assms(7) pushbool_eq on_stack_def)
qed

lemma multisig_decides_matching_witness:
  "\<exists>en'. handle_multisig zero_hashes (\<lambda>_. Inr (generator_x, generator_x)) (Some legacy_ctx)
      (new_engine\<lparr>en_stack := \<lparr>stk = [[1], generator_key, [1], [0x30, 1], []], max_size = 1000\<rparr>\<rparr>) = Inr en'
    \<and> stk (en_stack en') = [[1]]"
proof -
  have c: "utxo_script_code legacy_ctx = Inr [0x51]"
    by (simp add: utxo_script_code_def legacy_ctx_def)
  have k: "multisig_check zero_hashes (\<lambda>_. Inr (generator_x, generator_x)) legacy_ctx [0x51] [0x30, 1] generator_key = Inr True"
    using generator_checksig by (simp add: multisig_check_def checksig_verdict_def checksig_script_code_def legacy_ctx_def)
  have "matching (\<lambda>_ _. True) [[0x30, 1 :: byte]] [generator_key]" by (simp add: matching_take)
  then show ?thesis
    using multisig_decides_matching [where en = "new_engine\<lparr>en_stack := \<lparr>stk = [[1], generator_key, [1], [0x30, 1], []], max_size = 1000\<rparr>\<rparr>"
        and nb = "[1]" and pubs = "[generator_key]" and mb = "[1]" and sigs = "[[0x30, 1]]" and st = "[]"
        and ctx = legacy_ctx and code = "[0x51]" and H = zero_hashes and D = "\<lambda>_. Inr (generator_x, generator_x)"
        and v = "\<lambda>_ _. True"]
    by (simp add: c k script_num_value_def)
qed

section \<open>A bounded run\<close>

lemma validation_keeps_stacks_bounded_witness:
  "\<exists>en'. validate_script_pair pad_hashes (\<lambda>_. Inl ValueError) (mk_script P2PK [0x6a]) (mk_script P2PK [0x51]) None new_engine
        = Inr (False, en') \<and> length (stk (en_stack en')) = 1 \<and> length (stk (en_alt en')) \<le> 1000"
proof -
  let ?en = "new_engine\<lparr>en_stack := \<lparr>stk = [[1]], max_size = 1000\<rparr>\<rparr>"
  have c: "clear_stacks new_engine = new_engine"
    by (simp add: clear_stacks_def clear_def new_engine_def empty_stack_def)
  have r: "validate_script_pair pad_hashes (\<lambda>_. Inl ValueError) (mk_script P2PK [0x6a]) (mk_script P2PK [0x51]) None new_engine
      = Inr (False, ?en)"
    by (simp add: validate_script_pair_def p2sh_matches_def validate_script_def c run_op_return)
  from validation_keeps_stacks_bounded [OF new_engine_inv disjI1 [OF r]]
  have "length (stk (en_alt ?en)) \<le> 1000" by blast
  with r show ?thesis by (intro exI [of _ ?en]) simp
qed

end
