(* ===== verification/Script_Key_Facts.thy ===== *)
theory Script_Key_Facts
  imports Script_Keys Parser_Facts
begin

text \<open>
  The classifiers of \<open>Script_Keys\<close>: the scriptPubKey classes exclude each other except Taproot
  and bare multisig, constructed scripts are recognised and parsed back, and the scriptSig
  classifier never answers P2PKH.
\<close>

lemmas matches_defs = p2pk_matches_def p2pkh_matches_def p2ms_matches_def p2sh_matches_def
  p2wpkh_matches_def p2wsh_matches_def p2tr_matches_def

definition matches_type :: "script_type \<Rightarrow> bytes \<Rightarrow> bool" where
  "matches_type t b =
     (case t of P2PKH \<Rightarrow> p2pkh_matches b | P2SH \<Rightarrow> p2sh_matches b | P2WPKH \<Rightarrow> p2wpkh_matches b
      | P2WSH \<Rightarrow> p2wsh_matches b | P2TR \<Rightarrow> p2tr_matches b | P2PK \<Rightarrow> p2pk_matches b
      | P2MS \<Rightarrow> p2ms_matches b | _ \<Rightarrow> False)"

lemma p2pk_head: "p2pk_matches b \<Longrightarrow> b ! 0 = 0x21 \<or> b ! 0 = 0x41"
proof -
  assume "p2pk_matches b"
  then have "unat (b ! 0) = 33 \<or> unat (b ! 0) = 65" by (auto simp: p2pk_matches_def)
  then show ?thesis by (auto simp: word_unat_eq_iff)
qed

lemma p2ms_head: "p2ms_matches b \<Longrightarrow> b ! 0 \<noteq> 0x21 \<and> b ! 0 \<noteq> 0x41 \<and> b ! 0 \<noteq> 0x76 \<and> b ! 0 \<noteq> 0xa9 \<and> b ! 0 \<noteq> 0"
  by (auto simp: p2ms_matches_def)

lemma matches_exclusive:
  assumes "matches_type t b" and "matches_type u b" and "t \<noteq> u"
  shows "{t, u} = {P2TR, P2MS}"
  using assms p2pk_head [of b] p2ms_head [of b]
  by (cases t; cases u) (auto simp: matches_type_def p2pkh_matches_def p2sh_matches_def
      p2wpkh_matches_def p2wsh_matches_def p2tr_matches_def p2pk_matches_def)

text \<open>
  the scriptPubKey classifier answers exactly the class whose pattern the script has, whatever
  the order of the classes: the seven patterns exclude each other, except that a Taproot output
  can look like a bare multisig, where Taproot wins.
\<close>

theorem scriptpubkey_classified:
  "get_scriptpubkey_type b = Inr t \<longleftrightarrow> matches_type t b \<and> \<not> (t = P2MS \<and> p2tr_matches b)"
proof
  assume "get_scriptpubkey_type b = Inr t"
  then show "matches_type t b \<and> \<not> (t = P2MS \<and> p2tr_matches b)"
    by (auto simp: get_scriptpubkey_type_def SCRIPTPUBKEY_CLASSIFIERS_def matches_type_def
        split: if_splits)
next
  assume a: "matches_type t b \<and> \<not> (t = P2MS \<and> p2tr_matches b)"
  then have "\<not> matches_type u b" if "u \<noteq> t" "\<not> (t = P2TR \<and> u = P2MS)" for u
    using that matches_exclusive [of t b u]
    by (cases "t = P2MS \<and> u = P2TR") (auto simp: matches_type_def doubleton_eq_iff)
  from this [of P2PKH] this [of P2SH] this [of P2WPKH] this [of P2WSH] this [of P2TR] this [of P2PK]
    this [of P2MS] a
  show "get_scriptpubkey_type b = Inr t"
    by (cases t) (simp_all add: get_scriptpubkey_type_def SCRIPTPUBKEY_CLASSIFIERS_def matches_type_def)
qed

section \<open>Constructed scripts\<close>

lemma word_unat_lit: "unat (word_of_int v :: byte) = nat (v mod 256)"
  by (simp add: unat_eq_nat_uint uint_word_of_int)

definition key_push :: "bytes \<Rightarrow> bytes" where
  "key_push k = [if length k = 33 then 0x21 else 0x41] @ k"

interpretation multisig_key: codec "\<lambda>k. Inr (key_push k)" read_p2ms_pubkey "\<lambda>k. pubkey_length_ok (length k)"
proof
  fix k bs and rest :: bytes
  assume k: "pubkey_length_ok (length k)" and "Inr (key_push k) = (Inr bs :: bytes result)"
  then have bs: "bs = key_push k" by simp
  show "read_p2ms_pubkey (bs @ rest) = Inr (k, rest)"
    using k unfolding pubkey_length_ok_def
  proof
    assume "length k = 33"
    then show ?thesis
      by (simp add: bs key_push_def read_p2ms_pubkey_def read_little_int_take read_stream_take)
  next
    assume "length k = 65"
    then show ?thesis
      by (simp add: bs key_push_def read_p2ms_pubkey_def read_little_int_take read_stream_take)
  qed
qed

lemma write_all_key_push: "write_all (\<lambda>k. Inr (key_push k)) ks = Inr (concat (map key_push ks))"
  by (induction ks) auto

lemma op_n_Inr: "1 \<le> n \<Longrightarrow> n \<le> 16 \<Longrightarrow> op_n n = Inr [word_of_int (0x50 + n)]"
  by (simp add: op_n_def)

lemma op_n_range:
  assumes "1 \<le> n" and "n \<le> 16"
  shows "0x51 \<le> (word_of_int (0x50 + n) :: byte)" "(word_of_int (0x50 + n) :: byte) \<le> 0x60"
    "uint (word_of_int (0x50 + n) :: byte) = 0x50 + n"
proof -
  show u: "uint (word_of_int (0x50 + n) :: byte) = 0x50 + n"
    using assms by (subst uint_word_of_int) simp
  show "0x51 \<le> (word_of_int (0x50 + n) :: byte)" "(word_of_int (0x50 + n) :: byte) \<le> 0x60"
    unfolding word_le_def u using assms by simp_all
qed

lemma p2ms_round_trip:
  assumes keys: "list_all (\<lambda>k. pubkey_length_ok (length k)) ks" and n: "1 \<le> length ks" "length ks \<le> 16"
    and m: "1 \<le> m" "m \<le> 16"
  shows "\<exists>b. p2ms_key ks m = Inr (mk_script P2MS b) \<and> classify_scriptpubkey b = Inr (mk_script P2MS b)"
proof -
  define lead where "lead = (word_of_int (0x50 + m) :: byte)"
  define tot where "tot = (word_of_int (0x50 + int (length ks)) :: byte)"
  define body where "body = concat (map key_push ks)"
  define b where "b = [lead] @ body @ [tot, 0xae]"
  have lead: "0x51 \<le> lead" "lead \<le> 0x60" "uint lead = 0x50 + m"
    unfolding lead_def using op_n_range [OF m] by blast+
  have tot: "0x51 \<le> tot" "tot \<le> 0x60" "uint tot = 0x50 + int (length ks)"
    unfolding tot_def using op_n_range [of "int (length ks)"] n by auto
  have "op_n (int (length ks)) = Inr [tot]" "op_n m = Inr [lead]"
    using op_n_Inr [of "int (length ks)"] op_n_Inr [OF m] n by (simp_all add: tot_def lead_def)
  with keys m have key: "p2ms_key ks m = Inr (mk_script P2MS b)"
    by (simp add: p2ms_key_def Let_def b_def body_def key_push_def [abs_def])
  have second: "b ! (length b - 2) = tot" by (simp add: b_def nth_append)
  have ms: "p2ms_matches b"
    using lead tot by (simp add: p2ms_matches_def second) (simp add: b_def)
  obtain k ks' where ks: "ks = k # ks'" using n by (cases ks) auto
  then have "b ! 1 = (if length k = 33 then 0x21 else 0x41)" by (simp add: b_def body_def key_push_def)
  then have "\<not> p2tr_matches b" by (simp add: p2tr_matches_def)
  with ms have t: "get_scriptpubkey_type b = Inr P2MS"
    by (simp add: scriptpubkey_classified matches_type_def)
  have "unat tot - 0x50 = length ks" using tot(3) by (simp add: unat_eq_nat_uint)
  moreover have "take (length b - 3) (drop 1 b) = body @ []" by (simp add: b_def)
  moreover have "read_many read_p2ms_pubkey (length ks) (body @ []) = Inr (ks, [])"
    unfolding body_def by (rule multisig_key.read_many_write_all [OF keys write_all_key_push])
  moreover have "uint (b ! 0) - 0x50 = m" using lead by (simp add: b_def)
  ultimately have "p2ms_from_bytes b = p2ms_key ks m"
    using ms by (simp add: p2ms_from_bytes_def second Let_def)
  with key t have "classify_scriptpubkey b = Inr (mk_script P2MS b)"
    by (simp add: classify_scriptpubkey_def script_from_bytes_def)
  with key show ?thesis by blast
qed

text \<open>How each constructor but Taproot's is reached with arguments of the asked form.\<close>

inductive constructed :: "hashes \<Rightarrow> script_obj \<Rightarrow> bool" for H where
  c_p2pk: "p2pk_key k = Inr s \<Longrightarrow> constructed H s"
| c_p2pkh: "constructed H (p2pkh_key H k)"
| c_p2ms: "p2ms_key ks m = Inr s \<Longrightarrow> 1 \<le> length ks \<Longrightarrow> length ks \<le> 16 \<Longrightarrow> 1 \<le> m \<Longrightarrow> m \<le> 16 \<Longrightarrow> constructed H s"
| c_p2sh: "p2sh_from_data H d = Inr s \<Longrightarrow> constructed H s"
| c_p2wpkh: "p2wpkh_from_pubkey H k = Inr s \<Longrightarrow> constructed H s"
| c_p2wsh: "p2wsh_key h = Inr s \<Longrightarrow> constructed H s"

lemma classify_if:
  "matches_type t b \<Longrightarrow> t \<noteq> P2MS \<Longrightarrow> script_from_bytes t b = Inr k \<Longrightarrow> classify_scriptpubkey b = Inr k"
  using scriptpubkey_classified [of b t] by (simp add: classify_scriptpubkey_def)

text \<open>
  every script the constructors build, P2MS with one to sixteen keys included, is recognised
  as the class that built it and parsed back to the same object.
\<close>

theorem constructed_scripts_classified:
  assumes "digest_sizes H" and "constructed H s"
  shows "get_scriptpubkey_type (sc_bytes s) = Inr (sc_kind s)
    \<and> classify_scriptpubkey (sc_bytes s) = Inr s"
proof -
  have "classify_scriptpubkey (sc_bytes s) = Inr s"
    using assms(2)
  proof cases
    case (c_p2pk k)
    then have s: "s = mk_script P2PK ([if length k = 33 then 0x21 else 0x41] @ k @ [0xac])"
      and l: "length k = 33 \<or> length k = 65" by (auto simp: p2pk_key_def pubkey_length_ok_def)
    then have "p2pk_matches (sc_bytes s)" by (auto simp: p2pk_matches_def)
    then show ?thesis
      by (intro classify_if [of P2PK]) (simp_all add: matches_type_def script_from_bytes_def p2pk_from_bytes_def s)
  next
    case (c_p2pkh k)
    have "p2pkh_matches (sc_bytes s)"
      using digest_lengths(3) [OF assms(1), of k]
      by (simp add: c_p2pkh p2pkh_key_def p2pkh_matches_def nth_append)
    then show ?thesis
      by (intro classify_if [of P2PKH])
        (simp_all add: matches_type_def script_from_bytes_def p2pkh_from_bytes_def c_p2pkh p2pkh_key_def)
  next
    case (c_p2ms ks m)
    then have "list_all (\<lambda>k. pubkey_length_ok (length k)) ks" by (auto simp: p2ms_key_def Let_def)
    from p2ms_round_trip [OF this c_p2ms(2-5)] c_p2ms(1) show ?thesis by auto
  next
    case (c_p2sh d)
    then have s: "s = mk_script P2SH ([0xa9, 0x14] @ hash160 H d @ [0x87])"
      and l: "length (hash160 H d) = 20" by (auto simp: p2sh_from_data_def p2sh_key_def)
    then show ?thesis
      by (intro classify_if [of P2SH]) (simp_all add: matches_type_def script_from_bytes_def
          p2sh_from_bytes_def p2sh_matches_def p2sh_key_def index_at_def)
  next
    case (c_p2wpkh k)
    then have s: "s = mk_script P2WPKH ([0x00, 0x14] @ hash160 H k)"
      and l: "length (hash160 H k) = 20" by (auto simp: p2wpkh_from_pubkey_def p2wpkh_key_def)
    then show ?thesis
      by (intro classify_if [of P2WPKH]) (simp_all add: matches_type_def script_from_bytes_def
          p2wpkh_from_bytes_def p2wpkh_matches_def p2wpkh_key_def)
  next
    case (c_p2wsh h)
    then have s: "s = mk_script P2WSH ([0x00, 0x20] @ h)"
      and l: "length h = 32" by (auto simp: p2wsh_key_def)
    then show ?thesis
      by (intro classify_if [of P2WSH]) (simp_all add: matches_type_def script_from_bytes_def
          p2wsh_from_bytes_def p2wsh_matches_def p2wsh_key_def)
  qed
  moreover have "sc_kind k = t" if "script_from_bytes t b = Inr k" for t b k
    using that by (auto simp: script_from_bytes_def p2pk_from_bytes_def p2pkh_from_bytes_def
        p2ms_from_bytes_def p2sh_from_bytes_def p2wpkh_from_bytes_def p2wsh_from_bytes_def
        p2tr_from_bytes_def p2ms_key_def p2sh_key_def p2wpkh_key_def p2wsh_key_def Let_def
        split: script_type.splits if_splits)
  ultimately show ?thesis by (auto simp: classify_scriptpubkey_def)
qed

lemma constructed_scripts_classified_witness:
  "\<exists>s. constructed pad_hashes s \<and> sc_kind s = P2MS \<and> classify_scriptpubkey (sc_bytes s) = Inr s"
proof -
  have "list_all (\<lambda>k. pubkey_length_ok (length k)) [replicate 33 (2 :: byte), replicate 65 4]"
    by (simp add: pubkey_length_ok_def)
  from p2ms_round_trip [OF this, of 1] obtain b where
    "p2ms_key [replicate 33 2, replicate 65 4] 1 = Inr (mk_script P2MS b)" by auto
  then have "constructed pad_hashes (mk_script P2MS b)" by (rule c_p2ms) simp_all
  with constructed_scripts_classified [OF pad_hashes_digest_sizes this] show ?thesis by force
qed

section \<open>scriptSigs\<close>

lemma p2sh_sig_scan_iff:
  "p2sh_sig_scan b n \<longleftrightarrow> (\<exists>i<n. 1 \<le> unat (b ! i) \<and> unat (b ! i) \<le> 0x4b \<and> length b - (i + 1) = unat (b ! i))"
  by (induction n) (auto simp: Let_def less_Suc_eq)

lemma p2pkh_sig_matches_p2sh:
  assumes "p2pkh_sig_matches b = Inr True"
  shows "p2sh_sig_matches b = Inr True"
proof -
  define i where "i = 1 + unat (b ! 0)"
  from assms have "i < length b" "unat (b ! i) = 33 \<or> unat (b ! i) = 65"
    "i + 1 + unat (b ! i) = length b"
    by (auto simp: p2pkh_sig_matches_def Let_def i_def split: if_splits)
  then have "p2sh_sig_scan b (length b)"
    unfolding p2sh_sig_scan_iff by (intro exI [of _ i]) auto
  with \<open>i < length b\<close> show ?thesis by (auto simp: p2sh_sig_matches_def)
qed

text \<open>
  the scriptSig classifier never answers P2PKH: the looser P2SH pattern is tried first and
  holds whenever the P2PKH pattern does; a scriptSig the P2PKH constructor builds from a
  signature of ordinary length is classified as P2SH.
\<close>

theorem scriptsig_never_p2pkh:
  "get_scriptsig_type b \<noteq> Inr P2PKH
    \<and> (p2pkh_sig sig key = Inr s \<and> 23 \<le> length sig \<and> length sig \<le> 75
         \<longrightarrow> get_scriptsig_type (sc_bytes s) = Inr P2SH)"
proof (intro conjI impI)
  show "get_scriptsig_type b \<noteq> Inr P2PKH"
  proof
    assume "get_scriptsig_type b = Inr P2PKH"
    then have "p2pkh_sig_matches b = Inr True" "p2sh_sig_matches b = Inr False"
      by (auto simp: get_scriptsig_type_def SCRIPTSIG_CLASSIFIERS_def split: if_splits)
    with p2pkh_sig_matches_p2sh show False by simp
  qed
next
  assume a: "p2pkh_sig sig key = Inr s \<and> 23 \<le> length sig \<and> length sig \<le> 75"
  then have k: "length key = 33 \<or> length key = 65"
    and s: "sc_bytes s = [word_of_int (int (length sig))] @ sig @ [word_of_int (int (length key))] @ key"
    by (auto simp: p2pkh_sig_def pubkey_length_ok_def encode_pushdata_def Let_def to_bytes_le_def)
  define b where "b = sc_bytes s"
  have head: "unat (b ! 0) = length sig" "b \<noteq> []" using a
    by (simp_all add: b_def s unat_of_nat)
  have "b ! 0 \<noteq> 0x16" "b ! 0 \<noteq> 0" using a head(1) by auto
  moreover have "p2sh_sig_matches b = Inr True"
  proof -
    have "b ! (1 + length sig) = word_of_int (int (length key))" by (simp add: b_def s nth_append)
    then have "unat (b ! (1 + length sig)) = length key"
      using k by (auto simp: word_unat_lit)
    then have "p2sh_sig_scan b (length b)"
      unfolding p2sh_sig_scan_iff using k
      by (intro exI [of _ "1 + length sig"]) (auto simp: b_def s)
    then show ?thesis using head by (simp add: p2sh_sig_matches_def)
  qed
  ultimately show "get_scriptsig_type (sc_bytes s) = Inr P2SH"
    using head(2) by (simp add: get_scriptsig_type_def SCRIPTSIG_CLASSIFIERS_def index_at_def
        p2sh_p2wpkh_sig_matches_def p2ms_sig_matches_def flip: b_def)
qed

lemma scriptsig_never_p2pkh_witness:
  "\<exists>s. p2pkh_sig (replicate 71 0x30) (replicate 33 2) = Inr s \<and> get_scriptsig_type (sc_bytes s) = Inr P2SH"
proof -
  have "\<exists>s. p2pkh_sig (replicate 71 0x30) (replicate 33 2) = Inr s"
    by (simp add: p2pkh_sig_def pubkey_length_ok_def encode_pushdata_def to_bytes_le_def)
  then show ?thesis using scriptsig_never_p2pkh [of "[]" "replicate 71 0x30" "replicate 33 2"] by auto
qed

end
