(* ===== verification/State_Result.thy ===== *)
theory State_Result
  imports Prelude
begin

text \<open>
  Methods that change an object and may raise: a state goes in, a result and the state at the end come out,
  also when the result is an exception, since a caller that catches it goes on with what was done so far.
  \<open>doS\<close> is one call, \<open>bindS\<close> the sequence of two, \<open>liftS\<close> a computation that only raises, \<open>readS\<close>
  one that looks at the state, \<open>atomicS\<close> a block that puts the state back when it raises, \<open>catchS\<close>
  \<^verbatim>\<open>try: ... except Exception: ...\<close>. A model that ran out of fuel answers \<open>NoReturn\<close>, which no
  handler catches.
\<close>

type_synonym ('s, 'a) action = "'s \<Rightarrow> 'a result \<times> 's"

definition returnS :: "'a \<Rightarrow> ('s, 'a) action" where "returnS x s = (Inr x, s)"
definition raiseS :: "py_error \<Rightarrow> ('s, 'a) action" where "raiseS e s = (Inl e, s)"
definition liftS :: "'a result \<Rightarrow> ('s, 'a) action" where "liftS r s = (r, s)"
definition readS :: "('s \<Rightarrow> 'a) \<Rightarrow> ('s, 'a) action" where "readS f s = (Inr (f s), s)"
definition queryS :: "('s \<Rightarrow> 'a result) \<Rightarrow> ('s, 'a) action" where "queryS f s = (f s, s)"
definition modifyS :: "('s \<Rightarrow> 's) \<Rightarrow> ('s, unit) action" where "modifyS f s = (Inr (), f s)"

definition bindS :: "('s, 'a) action \<Rightarrow> ('a \<Rightarrow> ('s, 'b) action) \<Rightarrow> ('s, 'b) action" where
  "bindS m f s = (case m s of (Inl e, s1) \<Rightarrow> (Inl e, s1) | (Inr x, s1) \<Rightarrow> f x s1)"

text \<open>An update that may raise and then has done nothing.\<close>

definition updateS :: "('s \<Rightarrow> 's result) \<Rightarrow> ('s, unit) action" where
  "updateS f s = (case f s of Inl e \<Rightarrow> (Inl e, s) | Inr s1 \<Rightarrow> (Inr (), s1))"

definition atomicS :: "('s \<Rightarrow> 's \<Rightarrow> 's) \<Rightarrow> ('s, 'a) action \<Rightarrow> ('s, 'a) action" where
  "atomicS restore m s = (case m s of (Inl e, s1) \<Rightarrow> (Inl e, restore s s1) | (Inr x, s1) \<Rightarrow> (Inr x, s1))"

definition catchS :: "('s, 'a) action \<Rightarrow> (py_error \<Rightarrow> ('s, 'a) action) \<Rightarrow> ('s, 'a) action" where
  "catchS m h s =
     (case m s of
        (Inl e, s1) \<Rightarrow> if e = NoReturn then (Inl e, s1) else h e s1
      | (Inr x, s1) \<Rightarrow> (Inr x, s1))"

fun forS :: "('a \<Rightarrow> ('s, unit) action) \<Rightarrow> 'a list \<Rightarrow> ('s, unit) action" where
  "forS f [] = returnS ()"
| "forS f (x # xs) = bindS (f x) (\<lambda>_. forS f xs)"

text \<open>An action on a component of the state: \<open>get\<close> reads it, \<open>put\<close> writes it back.\<close>

definition zoomS :: "('t \<Rightarrow> 's) \<Rightarrow> ('s \<Rightarrow> 't \<Rightarrow> 't) \<Rightarrow> ('s, 'a) action \<Rightarrow> ('t, 'a) action" where
  "zoomS get put m t = (case m (get t) of (r, s) \<Rightarrow> (r, put s t))"

named_theorems run_simps \<open>equations that run actions\<close>

lemma bindS_return [run_simps]: "bindS (returnS x) f s = f x s"
  by (simp add: bindS_def returnS_def)

lemma bindS_raise [run_simps]: "bindS (raiseS e) f s = (Inl e, s)"
  by (simp add: bindS_def raiseS_def)

lemma bindS_lift [run_simps]:
  "bindS (liftS r) f s = (case r of Inl e \<Rightarrow> (Inl e, s) | Inr x \<Rightarrow> f x s)"
  by (simp add: bindS_def liftS_def)

lemma bindS_read [run_simps]: "bindS (readS g) f s = f (g s) s"
  by (simp add: bindS_def readS_def)

lemma bindS_query [run_simps]:
  "bindS (queryS q) f s = (case q s of Inl e \<Rightarrow> (Inl e, s) | Inr x \<Rightarrow> f x s)"
  by (simp add: bindS_def queryS_def)

lemma bindS_modify [run_simps]: "bindS (modifyS u) f s = f () (u s)"
  by (simp add: bindS_def modifyS_def)

lemma bindS_update [run_simps]:
  "bindS (updateS u) f s = (case u s of Inl e \<Rightarrow> (Inl e, s) | Inr s1 \<Rightarrow> f () s1)"
  by (simp add: bindS_def updateS_def split: sum.split)

lemma bindS_bind [run_simps]: "bindS (bindS m g) f s = bindS m (\<lambda>x. bindS (g x) f) s"
  by (simp add: bindS_def split: prod.split sum.split)

lemma run_return [run_simps]: "returnS x s = (Inr x, s)" by (simp add: returnS_def)
lemma run_raise [run_simps]: "raiseS e s = (Inl e, s)" by (simp add: raiseS_def)
lemma run_lift [run_simps]: "liftS r s = (r, s)" by (simp add: liftS_def)
lemma run_read [run_simps]: "readS g s = (Inr (g s), s)" by (simp add: readS_def)
lemma run_query [run_simps]: "queryS q s = (q s, s)" by (simp add: queryS_def)
lemma run_modify [run_simps]: "modifyS u s = (Inr (), u s)" by (simp add: modifyS_def)

lemma bindS_Inr_iff: "bindS m f s = (Inr y, s') \<longleftrightarrow> (\<exists>x s1. m s = (Inr x, s1) \<and> f x s1 = (Inr y, s'))"
  by (simp add: bindS_def split: prod.split sum.split)

lemma bindS_Inl_iff: "bindS m f s = (Inl e, s') \<longleftrightarrow>
    m s = (Inl e, s') \<or> (\<exists>x s1. m s = (Inr x, s1) \<and> f x s1 = (Inl e, s'))"
  by (simp add: bindS_def split: prod.split sum.split)

lemma bindS_InrE [elim!]:
  assumes "bindS m f s = (Inr y, s')"
  obtains x s1 where "m s = (Inr x, s1)" and "f x s1 = (Inr y, s')"
  using assms by (auto simp: bindS_Inr_iff)

lemma bindS_cong [fundef_cong]:
  "m s = m' s' \<Longrightarrow> (\<And>x s1. m' s' = (Inr x, s1) \<Longrightarrow> f x s1 = f' x s1) \<Longrightarrow> bindS m f s = bindS m' f' s'"
  by (auto simp: bindS_def split: prod.split sum.split)

section \<open>What actions keep\<close>

text \<open>
  \<open>keeps P m\<close>: whatever the outcome, the action leaves a state with \<open>P\<close> when it began in one. The rules
  below follow the shape of an action.
\<close>

definition keeps :: "('s \<Rightarrow> bool) \<Rightarrow> ('s, 'a) action \<Rightarrow> bool" where
  "keeps P m \<longleftrightarrow> (\<forall>s. P s \<longrightarrow> P (snd (m s)))"

named_theorems keeps_intros \<open>introduction rules for invariants of actions\<close>

lemma keepsD: "keeps P m \<Longrightarrow> P s \<Longrightarrow> m s = (r, s') \<Longrightarrow> P s'"
  by (metis keeps_def snd_conv)

lemma keeps_return [keeps_intros]: "keeps P (returnS x)" by (simp add: keeps_def run_simps)
lemma keeps_raise [keeps_intros]: "keeps P (raiseS e)" by (simp add: keeps_def run_simps)
lemma keeps_lift [keeps_intros]: "keeps P (liftS r)" by (simp add: keeps_def run_simps)
lemma keeps_read [keeps_intros]: "keeps P (readS g)" by (simp add: keeps_def run_simps)
lemma keeps_query [keeps_intros]: "keeps P (queryS q)" by (simp add: keeps_def run_simps)

lemma keeps_modify: "(\<And>s. P s \<Longrightarrow> P (h s)) \<Longrightarrow> keeps P (modifyS h)"
  by (simp add: keeps_def run_simps)

lemma keeps_update: "(\<And>s s'. P s \<Longrightarrow> f s = Inr s' \<Longrightarrow> P s') \<Longrightarrow> keeps P (updateS f)"
  by (simp add: keeps_def updateS_def split: sum.split)

lemma keeps_bind [keeps_intros]: "keeps P m \<Longrightarrow> (\<And>x. keeps P (f x)) \<Longrightarrow> keeps P (bindS m f)"
  by (simp add: keeps_def bindS_def split: prod.split sum.split) (metis snd_conv)

lemma keeps_catch [keeps_intros]: "keeps P m \<Longrightarrow> (\<And>e. keeps P (h e)) \<Longrightarrow> keeps P (catchS m h)"
  unfolding keeps_def
proof (intro allI impI)
  fix s
  assume m: "\<forall>s. P s \<longrightarrow> P (snd (m s))" and h: "\<And>e. \<forall>s. P s \<longrightarrow> P (snd (h e s))" and "P s"
  then have "P (snd (m s))" by blast
  then show "P (snd (catchS m h s))" using h by (cases "m s") (auto simp: catchS_def split: sum.split)
qed

lemma keeps_atomic:
  "keeps P m \<Longrightarrow> (\<And>s s'. P s \<Longrightarrow> P s' \<Longrightarrow> P (r s s')) \<Longrightarrow> keeps P (atomicS r m)"
  by (simp add: keeps_def atomicS_def split: prod.split sum.split) (metis snd_conv)

lemma keeps_for [keeps_intros]: "(\<And>x. x \<in> set xs \<Longrightarrow> keeps P (f x)) \<Longrightarrow> keeps P (forS f xs)"
  by (induction xs) (auto intro: keeps_intros)

lemma keeps_if [keeps_intros]: "(b \<Longrightarrow> keeps P m) \<Longrightarrow> (\<not> b \<Longrightarrow> keeps P n) \<Longrightarrow> keeps P (if b then m else n)"
  by simp

lemma keeps_option [keeps_intros]:
  "(x = None \<Longrightarrow> keeps P m) \<Longrightarrow> (\<And>y. x = Some y \<Longrightarrow> keeps P (f y)) \<Longrightarrow> keeps P (case x of None \<Rightarrow> m | Some y \<Rightarrow> f y)"
  by (cases x) auto

lemma keeps_prod [keeps_intros]: "(\<And>a b. x = (a, b) \<Longrightarrow> keeps P (f a b)) \<Longrightarrow> keeps P (case x of (a, b) \<Rightarrow> f a b)"
  by (cases x) auto

lemma keeps_let [keeps_intros]: "keeps P (f x) \<Longrightarrow> keeps P (let y = x in f y)"
  by (simp add: Let_def)

lemma keeps_conj: "keeps P m \<Longrightarrow> keeps Q m \<Longrightarrow> keeps (\<lambda>s. P s \<and> Q s) m"
  by (simp add: keeps_def)

end
