(* ===== verification/Block_Store.thy ===== *)
theory Block_Store
  imports State_Result "HOL-Library.AList"
begin

text \<open>
  \<^verbatim>\<open>src/src/database/block_files.py\<close> and \<^verbatim>\<open>src/src/database/block_store.py\<close>: where the bodies of blocks are kept.
  The directory is a list of numbered files (\<^verbatim>\<open>blk00017.dat\<close> is file 17) with their bytes; other files of the
  directory are not looked at. The archival store appends to packed files of 128 MB, the pruned store keeps one
  file per block, the remote store asks a Bitcoin Core node, whose answers are the fields of \<open>core_rpc\<close>.
\<close>

section \<open>Files\<close>

record location =
  lc_file :: int
  lc_offset :: nat
  lc_size :: nat

record block_store =
  bs_files :: "(int \<times> bytes) list"
  bs_current :: int
  bs_size :: nat

definition MAX_BLOCK_FILE_SIZE :: nat where "MAX_BLOCK_FILE_SIZE = 128 * 1024 * 1024"

fun max_number :: "int \<Rightarrow> int list \<Rightarrow> int" where
  "max_number d [] = d"
| "max_number d (n # ns) = fold max ns n"

definition latest_file_number :: "(int \<times> bytes) list \<Rightarrow> int" where
  "latest_file_number fs = max_number 0 (map fst fs)"

definition file_size :: "(int \<times> bytes) list \<Rightarrow> int \<Rightarrow> nat" where
  "file_size fs n = (case map_of fs n of None \<Rightarrow> 0 | Some content \<Rightarrow> length content)"

text \<open>The constructor: the store looks at the files it finds.\<close>

definition open_files :: "(int \<times> bytes) list \<Rightarrow> block_store" where
  "open_files fs = \<lparr>bs_files = fs, bs_current = latest_file_number fs, bs_size = file_size fs (latest_file_number fs)\<rparr>"

definition write_block_file :: "bytes \<Rightarrow> block_store \<Rightarrow> location \<times> block_store" where
  "write_block_file block_bytes s =
     (let full = bs_size s + length block_bytes > MAX_BLOCK_FILE_SIZE;
          number = (if full then bs_current s + 1 else bs_current s);
          offset = (if full then 0 else bs_size s);
          old = (case map_of (bs_files s) number of None \<Rightarrow> [] | Some content \<Rightarrow> content) in
      (\<lparr>lc_file = number, lc_offset = offset, lc_size = length block_bytes\<rparr>,
       \<lparr>bs_files = AList.update number (old @ block_bytes) (bs_files s), bs_current = number,
        bs_size = offset + length block_bytes\<rparr>))"

definition read_block_file :: "location \<Rightarrow> block_store \<Rightarrow> bytes result" where
  "read_block_file loc s =
     (case map_of (bs_files s) (lc_file loc) of
        None \<Rightarrow> Inl FileNotFoundError
      | Some content \<Rightarrow>
          let block_bytes = take (lc_size loc) (drop (lc_offset loc) content) in
          if length block_bytes \<noteq> lc_size loc then Inl ValueError else Inr block_bytes)"

definition rollback_block :: "location \<Rightarrow> block_store \<Rightarrow> bool \<times> block_store" where
  "rollback_block loc s =
     (case map_of (bs_files s) (lc_file loc) of
        None \<Rightarrow> (False, s)
      | Some content \<Rightarrow>
          if length content \<noteq> lc_offset loc + lc_size loc then (False, s)
          else if lc_offset loc = 0 then (True, open_files (AList.delete (lc_file loc) (bs_files s)))
          else (True, open_files (AList.update (lc_file loc) (take (lc_offset loc) content) (bs_files s))))"

text \<open>
  \<^verbatim>\<open>reconcile\<close>: a file without a referenced end is removed, a longer one is cut. The dictionary of ends is
  built from the locations of the database.
\<close>

fun referenced_ends :: "location list \<Rightarrow> (int \<times> nat) list \<Rightarrow> (int \<times> nat) list" where
  "referenced_ends [] ends = ends"
| "referenced_ends (loc # locs) ends =
     referenced_ends locs (AList.update (lc_file loc)
       (max (case map_of ends (lc_file loc) of None \<Rightarrow> 0 | Some e \<Rightarrow> e) (lc_offset loc + lc_size loc)) ends)"

fun reconcile_files :: "(int \<times> nat) list \<Rightarrow> (int \<times> bytes) list \<Rightarrow> nat \<times> (int \<times> bytes) list" where
  "reconcile_files ends [] = (0, [])"
| "reconcile_files ends ((n, content) # fs) =
     (let (recovered, kept) = reconcile_files ends fs in
      case map_of ends n of
        None \<Rightarrow> (Suc recovered, kept)
      | Some e \<Rightarrow> if length content > e then (Suc recovered, (n, take e content) # kept)
                  else (recovered, (n, content) # kept))"

definition reconcile_archival :: "location list \<Rightarrow> block_store \<Rightarrow> nat \<times> block_store" where
  "reconcile_archival locs s =
     (let (recovered, kept) = reconcile_files (referenced_ends locs []) (bs_files s) in (recovered, open_files kept))"

definition clear_block_files :: "block_store \<Rightarrow> nat \<times> block_store" where
  "clear_block_files s = (length (bs_files s), \<lparr>bs_files = [], bs_current = 0, bs_size = 0\<rparr>)"

section \<open>One file per block\<close>

definition latest_pruned :: "(int \<times> bytes) list \<Rightarrow> int" where
  "latest_pruned fs = max_number (- 1) (map fst fs)"

definition open_pruned :: "(int \<times> bytes) list \<Rightarrow> block_store" where
  "open_pruned fs = \<lparr>bs_files = fs, bs_current = latest_pruned fs, bs_size = 0\<rparr>"

definition write_pruned :: "bytes \<Rightarrow> block_store \<Rightarrow> location \<times> block_store" where
  "write_pruned block_bytes s =
     (let number = bs_current s + 1 in
      (\<lparr>lc_file = number, lc_offset = 0, lc_size = length block_bytes\<rparr>,
       s\<lparr>bs_files := AList.update number block_bytes (bs_files s), bs_current := number\<rparr>))"

definition delete_pruned :: "location \<Rightarrow> block_store \<Rightarrow> bool \<times> block_store" where
  "delete_pruned loc s =
     (if map_of (bs_files s) (lc_file loc) = None then (False, s)
      else (True, s\<lparr>bs_files := AList.delete (lc_file loc) (bs_files s)\<rparr>))"

definition rollback_pruned :: "location \<Rightarrow> block_store \<Rightarrow> bool \<times> block_store" where
  "rollback_pruned loc s =
     (let (removed, s1) = delete_pruned loc s in (removed, s1\<lparr>bs_current := latest_pruned (bs_files s1)\<rparr>))"

definition reconcile_pruned :: "location list \<Rightarrow> block_store \<Rightarrow> nat \<times> block_store" where
  "reconcile_pruned locs s =
     (let kept = filter (\<lambda>(n, _). n \<in> set (map lc_file locs)) (bs_files s) in
      (length (bs_files s) - length kept, s\<lparr>bs_files := kept, bs_current := latest_pruned kept\<rparr>))"

definition clear_pruned :: "block_store \<Rightarrow> nat \<times> block_store" where
  "clear_pruned s = (length (bs_files s), s\<lparr>bs_files := [], bs_current := - 1\<rparr>)"

section \<open>The store a database uses\<close>

datatype storage_mode = ARCHIVAL | PRUNED | REMOTE

text \<open>The remote node; \<open>rpc_utxo\<close> answers amount, script, height and coinbase flag of an unspent output.\<close>

record core_rpc =
  rpc_block :: "bytes \<Rightarrow> bytes option result"
  rpc_block_hash :: "int \<Rightarrow> bytes option result"
  rpc_header :: "bytes \<Rightarrow> bytes option result"
  rpc_utxo :: "bytes \<Rightarrow> (int \<times> bytes \<times> int \<times> bool) option result"

definition REMOTE_FILE_NUMBER :: int where "REMOTE_FILE_NUMBER = - 1"

definition open_store :: "storage_mode \<Rightarrow> (int \<times> bytes) list \<Rightarrow> block_store" where
  "open_store mode fs = (if mode = ARCHIVAL then open_files fs else if mode = PRUNED then open_pruned fs
     else \<lparr>bs_files = fs, bs_current = 0, bs_size = 0\<rparr>)"

definition store_write :: "storage_mode \<Rightarrow> bytes \<Rightarrow> block_store \<Rightarrow> location \<times> block_store" where
  "store_write mode block_bytes s =
     (case mode of
        ARCHIVAL \<Rightarrow> write_block_file block_bytes s
      | PRUNED \<Rightarrow> write_pruned block_bytes s
      | REMOTE \<Rightarrow> (\<lparr>lc_file = REMOTE_FILE_NUMBER, lc_offset = 0, lc_size = length block_bytes\<rparr>, s))"

definition store_read ::
  "storage_mode \<Rightarrow> core_rpc \<Rightarrow> bytes \<Rightarrow> location option \<Rightarrow> block_store \<Rightarrow> bytes option result" where
  "store_read mode rpc block_hash loc s =
     (case mode of
        REMOTE \<Rightarrow> rpc_block rpc block_hash
      | _ \<Rightarrow> (case loc of None \<Rightarrow> Inr None | Some l \<Rightarrow> bindR (read_block_file l s) (\<lambda>b. Inr (Some b))))"

definition store_delete :: "storage_mode \<Rightarrow> location \<Rightarrow> block_store \<Rightarrow> bool \<times> block_store" where
  "store_delete mode loc s = (if mode = PRUNED then delete_pruned loc s else (False, s))"

definition store_rollback :: "storage_mode \<Rightarrow> location \<Rightarrow> block_store \<Rightarrow> bool \<times> block_store" where
  "store_rollback mode loc s =
     (case mode of ARCHIVAL \<Rightarrow> rollback_block loc s | PRUNED \<Rightarrow> rollback_pruned loc s | REMOTE \<Rightarrow> (False, s))"

definition store_reconcile :: "storage_mode \<Rightarrow> location list \<Rightarrow> block_store \<Rightarrow> nat \<times> block_store" where
  "store_reconcile mode locs s =
     (case mode of ARCHIVAL \<Rightarrow> reconcile_archival locs s | PRUNED \<Rightarrow> reconcile_pruned locs s | REMOTE \<Rightarrow> (0, s))"

definition store_clear :: "storage_mode \<Rightarrow> block_store \<Rightarrow> nat \<times> block_store" where
  "store_clear mode s =
     (case mode of ARCHIVAL \<Rightarrow> clear_block_files s | PRUNED \<Rightarrow> clear_pruned s | REMOTE \<Rightarrow> (0, s))"

definition store_block_hash :: "storage_mode \<Rightarrow> core_rpc \<Rightarrow> int \<Rightarrow> bytes option result" where
  "store_block_hash mode rpc height = (if mode = REMOTE then rpc_block_hash rpc height else Inr None)"

section \<open>The contract of a store\<close>

text \<open>
  What the database relies on: a body that was written is read back, older bodies stay readable, and taking
  back the last write leaves the store as it was.
\<close>

locale body_store =
  fixes put_body :: "bytes \<Rightarrow> 's \<Rightarrow> location \<times> 's"
    and get_body :: "location \<Rightarrow> 's \<Rightarrow> bytes result"
    and take_back :: "location \<Rightarrow> 's \<Rightarrow> bool \<times> 's"
    and store_inv :: "'s \<Rightarrow> bool"
  assumes write_inv: "store_inv s \<Longrightarrow> bs \<noteq> [] \<Longrightarrow> put_body bs s = (loc, s') \<Longrightarrow> store_inv s'"
    and read_new: "store_inv s \<Longrightarrow> bs \<noteq> [] \<Longrightarrow> put_body bs s = (loc, s') \<Longrightarrow> get_body loc s' = Inr bs"
    and read_old: "store_inv s \<Longrightarrow> bs \<noteq> [] \<Longrightarrow> put_body bs s = (loc, s') \<Longrightarrow> get_body old s = Inr cs \<Longrightarrow> get_body old s' = Inr cs"
    and rollback_write: "store_inv s \<Longrightarrow> bs \<noteq> [] \<Longrightarrow> put_body bs s = (loc, s') \<Longrightarrow> take_back loc s' = (True, s)"
begin

fun write_bodies :: "bytes list \<Rightarrow> 's \<Rightarrow> location list \<times> 's" where
  "write_bodies [] s = ([], s)"
| "write_bodies (b # bs) s = (let (loc, s1) = put_body b s; (locs, s2) = write_bodies bs s1 in (loc # locs, s2))"

lemma write_bodies_old:
  "store_inv s \<Longrightarrow> [] \<notin> set bs \<Longrightarrow> write_bodies bs s = (locs, s') \<Longrightarrow> get_body old s = Inr cs \<Longrightarrow> get_body old s' = Inr cs"
proof (induction bs arbitrary: s locs)
  case (Cons b bs)
  obtain loc s1 locs1 where w: "put_body b s = (loc, s1)" "write_bodies bs s1 = (locs1, s')"
    using Cons.prems(3) by (auto simp: Let_def split: prod.splits)
  have "b \<noteq> []" using Cons.prems(2) by auto
  with Cons w show ?case using write_inv read_old by (metis list.set_intros(2))
qed simp

lemma bodies_read_back:
  "store_inv s \<Longrightarrow> [] \<notin> set bs \<Longrightarrow> write_bodies bs s = (locs, s') \<Longrightarrow>
     store_inv s' \<and> length locs = length bs \<and> (\<forall>i < length bs. get_body (locs ! i) s' = Inr (bs ! i))"
proof (induction bs arbitrary: s locs)
  case Nil
  then show ?case by simp
next
  case (Cons b bs)
  obtain loc s1 locs1 where w: "put_body b s = (loc, s1)" "write_bodies bs s1 = (locs1, s')" and l: "locs = loc # locs1"
    using Cons.prems(3) by (auto simp: Let_def split: prod.splits)
  have b: "b \<noteq> []" "[] \<notin> set bs" using Cons.prems(2) by auto
  note inv = write_inv [OF Cons.prems(1) b(1) w(1)]
  have "get_body loc s' = Inr b" by (rule write_bodies_old [OF inv b(2) w(2) read_new [OF Cons.prems(1) b(1) w(1)]])
  with Cons.IH [OF inv b(2) w(2)] show ?case by (auto simp: l nth_Cons split: nat.splits)
qed

end

definition files_inv :: "block_store \<Rightarrow> bool" where
  "files_inv s \<longleftrightarrow> s = open_files (bs_files s) \<and> (\<forall>(n, content) \<in> set (bs_files s). 0 \<le> n \<and> content \<noteq> [])"

definition pruned_inv :: "block_store \<Rightarrow> bool" where
  "pruned_inv s \<longleftrightarrow> bs_current s = latest_pruned (bs_files s)"

lemma fold_max_spec: "fold max ns (n :: int) \<in> set (n # ns) \<and> (\<forall>m \<in> set (n # ns). m \<le> fold max ns n)"
proof (induction ns arbitrary: n)
  case Nil
  then show ?case by simp
next
  case (Cons k ns)
  let ?r = "fold max ns (max k n)"
  have "?r \<in> set (max k n # ns)" "\<forall>m \<in> set (max k n # ns). m \<le> ?r" using Cons.IH by blast+
  then have "?r = max k n \<or> ?r \<in> set ns" "max k n \<le> ?r" "\<forall>m \<in> set ns. m \<le> ?r" by simp_all
  then show ?case by (cases "k \<le> n") (auto simp: max.absorb1 max.absorb2)
qed

lemma max_number_ge: "m \<in> set ns \<Longrightarrow> m \<le> max_number d ns"
proof (cases ns)
  case (Cons n ks)
  then show "m \<in> set ns \<Longrightarrow> ?thesis" using fold_max_spec [of ks n] by auto
qed simp

lemma max_number_in: "ns \<noteq> [] \<Longrightarrow> max_number d ns \<in> set ns"
  using fold_max_spec [of "tl ns" "hd ns"] by (cases ns) simp_all

lemma max_number_new:
  assumes "\<forall>m \<in> set ns. m < n" shows "max_number d (ns @ [n]) = n"
proof -
  have "max_number d (ns @ [n]) \<in> set (ns @ [n])" by (rule max_number_in) simp
  moreover have "n \<le> max_number d (ns @ [n])" by (rule max_number_ge) simp
  ultimately show ?thesis using assms by auto
qed

lemma map_of_fresh: "map_of al n = None \<Longrightarrow> n \<notin> fst ` set al"
  by (simp add: map_of_eq_None_iff)

lemma delete_update_fresh: "map_of al n = None \<Longrightarrow> AList.delete n (AList.update n v al) = al"
  by (induction al) (auto split: if_splits)

lemma update_fresh_keys: "map_of al n = None \<Longrightarrow> map fst (AList.update n v al) = map fst al @ [n]"
  by (auto simp: AList.update_keys map_of_eq_None_iff)

lemma update_present_keys: "map_of al n = Some u \<Longrightarrow> map fst (AList.update n v al) = map fst al"
  by (auto simp: AList.update_keys dest!: map_of_SomeD intro: rev_image_eqI)

lemma open_files_simps [simp]:
  "bs_files (open_files fs) = fs" "bs_current (open_files fs) = latest_file_number fs"
  "bs_size (open_files fs) = file_size fs (latest_file_number fs)"
  by (simp_all add: open_files_def)

lemma files_invD:
  assumes "files_inv s"
  shows "bs_current s = latest_file_number (bs_files s)" "bs_size s = file_size (bs_files s) (bs_current s)"
    "s = open_files (bs_files s)" "(n, content) \<in> set (bs_files s) \<Longrightarrow> 0 \<le> n \<and> content \<noteq> []"
proof -
  show e: "s = open_files (bs_files s)" using assms by (simp add: files_inv_def)
  show "bs_current s = latest_file_number (bs_files s)" by (subst e) simp
  then show "bs_size s = file_size (bs_files s) (bs_current s)" by (subst (1) e) simp
  show "(n, content) \<in> set (bs_files s) \<Longrightarrow> 0 \<le> n \<and> content \<noteq> []" using assms by (auto simp: files_inv_def)
qed

lemma latest_nonneg: "files_inv s \<Longrightarrow> 0 \<le> latest_file_number (bs_files s)"
  using max_number_in [of "map fst (bs_files s)" 0] files_invD(4) [of s]
  by (cases "bs_files s = []") (auto simp: latest_file_number_def)

text \<open>The state after a write: the directory with the file replaced, looked at afresh.\<close>

lemma write_block_file_open:
  assumes inv: "files_inv s" and bs: "bs \<noteq> []" and w: "write_block_file bs s = (loc, s')"
  obtains old where "s' = open_files (AList.update (lc_file loc) (old @ bs) (bs_files s))"
    and "lc_offset loc = length old" and "lc_size loc = length bs" and "0 \<le> lc_file loc"
    and "map_of (bs_files s) (lc_file loc) = (if old = [] then None else Some old)"
proof -
  note i = files_invD [OF inv]
  let ?cur = "latest_file_number (bs_files s)"
  have below: "n \<le> ?cur" if "n \<in> fst ` set (bs_files s)" for n
    unfolding latest_file_number_def by (rule max_number_ge) (use that in simp)
  have fresh: "map_of (bs_files s) (?cur + 1) = None"
    using below [of "?cur + 1"] by (auto simp: map_of_eq_None_iff)
  have newest: "latest_file_number (AList.update n v (bs_files s)) = n"
    if "n = ?cur \<and> map_of (bs_files s) n \<noteq> None \<or> n = ?cur + 1 \<or> bs_files s = [] \<and> n = 0" for n v
  proof (cases "map_of (bs_files s) n")
    case None
    then have "\<forall>m \<in> set (map fst (bs_files s)). m < n" using that below by (auto; force)
    then show ?thesis using None by (simp add: latest_file_number_def update_fresh_keys max_number_new)
  next
    case (Some u)
    then show ?thesis using that fresh by (auto simp: latest_file_number_def update_present_keys)
  qed
  have present: "map_of (bs_files s) ?cur \<noteq> None" if "bs_files s \<noteq> []"
  proof -
    have "?cur \<in> set (map fst (bs_files s))" unfolding latest_file_number_def using that by (intro max_number_in) simp
    then show ?thesis by (auto simp: map_of_eq_None_iff)
  qed
  show ?thesis
  proof (cases "bs_size s + length bs > MAX_BLOCK_FILE_SIZE")
    case True
    have "s' = open_files (AList.update (?cur + 1) ([] @ bs) (bs_files s))" "loc = \<lparr>lc_file = ?cur + 1, lc_offset = 0, lc_size = length bs\<rparr>"
      using w True i(1) fresh newest [of "?cur + 1" bs]
      by (auto simp: write_block_file_def Let_def open_files_def file_size_def AList.update_conv')
    then show ?thesis using fresh latest_nonneg [OF inv] by (intro that [of "[]"]) auto
  next
    case False
    let ?old = "case map_of (bs_files s) ?cur of None \<Rightarrow> [] | Some content \<Rightarrow> content"
    have "bs_files s = [] \<Longrightarrow> ?cur = 0" by (simp add: latest_file_number_def)
    then have "latest_file_number (AList.update ?cur (?old @ bs) (bs_files s)) = ?cur"
      using present by (intro newest) (cases "bs_files s = []"; simp)
    moreover have "bs_size s = length ?old" using i(1,2) by (simp add: file_size_def split: option.split)
    ultimately have "s' = open_files (AList.update ?cur (?old @ bs) (bs_files s))"
        "loc = \<lparr>lc_file = ?cur, lc_offset = length ?old, lc_size = length bs\<rparr>"
      using w False i(1) by (auto simp: write_block_file_def Let_def open_files_def file_size_def AList.update_conv')
    moreover have "map_of (bs_files s) ?cur = (if ?old = [] then None else Some ?old)"
      using i(4) by (auto split: option.split dest!: map_of_SomeD)
    ultimately show ?thesis using latest_nonneg [OF inv] by (intro that [of ?old]) auto
  qed
qed

lemma in_set_update: "x \<in> set (AList.update n v al) \<Longrightarrow> x = (n, v) \<or> x \<in> set al"
  by (induction al) (auto split: if_splits)

interpretation archival: body_store write_block_file read_block_file rollback_block files_inv
proof
  fix s bs loc s'
  assume a: "files_inv s" "bs \<noteq> []" "write_block_file bs s = (loc, s')"
  from write_block_file_open [OF this] obtain old where
    s': "s' = open_files (AList.update (lc_file loc) (old @ bs) (bs_files s))"
    and l: "lc_offset loc = length old" "lc_size loc = length bs" "0 \<le> lc_file loc"
    and o: "map_of (bs_files s) (lc_file loc) = (if old = [] then None else Some old)" by blast
  show "files_inv s'" using a(1,2) l(3) by (auto simp: files_inv_def s' dest!: in_set_update)
  show "read_block_file loc s' = Inr bs" by (simp add: read_block_file_def s' l AList.update_conv')
  show "rollback_block loc s' = (True, s)"
    using o files_invD(3) [OF a(1)]
    by (cases "old = []") (simp_all add: rollback_block_def s' l AList.update_conv' delete_update_fresh AList.update_triv)
  fix loc2 cs
  assume r: "read_block_file loc2 s = Inr cs"
  show "read_block_file loc2 s' = Inr cs"
  proof (cases "lc_file loc2 = lc_file loc")
    case True
    then have "old \<noteq> []" "length (take (lc_size loc2) (drop (lc_offset loc2) old)) = lc_size loc2"
      "cs = take (lc_size loc2) (drop (lc_offset loc2) old)"
      using r o by (auto simp: read_block_file_def Let_def split: if_split_asm)
    then show ?thesis using True by (auto simp: read_block_file_def s' AList.update_conv')
  next
    case False
    then show ?thesis using r by (simp add: read_block_file_def s' AList.update_conv')
  qed
qed

interpretation pruned: body_store write_pruned read_block_file rollback_pruned pruned_inv
proof
  fix s bs loc s'
  assume a: "pruned_inv s" "bs \<noteq> []" "write_pruned bs s = (loc, s')"
  have c: "bs_current s = latest_pruned (bs_files s)" using a(1) by (simp add: pruned_inv_def)
  have below: "\<forall>m \<in> set (map fst (bs_files s)). m < bs_current s + 1"
    using max_number_ge [of _ "map fst (bs_files s)" "- 1"] unfolding c latest_pruned_def by fastforce
  then have fresh: "map_of (bs_files s) (bs_current s + 1) = None" by (auto simp: map_of_eq_None_iff)
  have l: "loc = \<lparr>lc_file = bs_current s + 1, lc_offset = 0, lc_size = length bs\<rparr>"
    and s': "s' = s\<lparr>bs_files := AList.update (bs_current s + 1) bs (bs_files s), bs_current := bs_current s + 1\<rparr>"
    using a(3) by (auto simp: write_pruned_def Let_def)
  show "pruned_inv s'" using fresh below max_number_new [of "map fst (bs_files s)" "bs_current s + 1" "- 1"]
    by (simp add: pruned_inv_def s' latest_pruned_def update_fresh_keys)
  show "read_block_file loc s' = Inr bs" by (simp add: read_block_file_def s' l AList.update_conv')
  show "rollback_pruned loc s' = (True, s)"
    by (simp add: rollback_pruned_def delete_pruned_def s' l AList.update_conv' delete_update_fresh [OF fresh] flip: c)
  show "read_block_file old s' = Inr cs" if r: "read_block_file old s = Inr cs" for old cs
  proof -
    have "lc_file old \<noteq> bs_current s + 1" using r fresh by (auto simp: read_block_file_def split: option.split_asm)
    then show ?thesis using r by (simp add: read_block_file_def s' AList.update_conv')
  qed
qed

section \<open>Properties\<close>

text \<open>
  bodies written one after the other to a packed store, across the boundary of a file, can all be read back at
  their locations, and so can the bodies the store held before.
\<close>

theorem packed_bodies_read_back:
  assumes "files_inv s" and "[] \<notin> set bs" and "archival.write_bodies bs s = (locs, s')"
  shows "(\<forall>i < length bs. read_block_file (locs ! i) s' = Inr (bs ! i))
    \<and> (\<forall>old cs. read_block_file old s = Inr cs \<longrightarrow> read_block_file old s' = Inr cs)"
  using archival.bodies_read_back [OF assms] archival.write_bodies_old [OF assms] by blast

lemma packed_bodies_read_back_witness:
  "\<exists>locs s'. archival.write_bodies [[1, 2], [3]] (open_files [(0, [9])]) = (locs, s')
     \<and> read_block_file (locs ! 1) s' = Inr [3]
     \<and> read_block_file \<lparr>lc_file = 0, lc_offset = 0, lc_size = 1\<rparr> s' = Inr [9]"
proof -
  let ?s = "open_files [(0, [9])]"
  obtain locs s' where w: "archival.write_bodies [[1, 2], [3]] ?s = (locs, s')" by fastforce
  have inv: "files_inv ?s" by (simp add: files_inv_def)
  have "read_block_file \<lparr>lc_file = 0, lc_offset = 0, lc_size = 1\<rparr> ?s = Inr [9]" by (simp add: read_block_file_def)
  with w packed_bodies_read_back [OF inv _ w] show ?thesis by (auto simp: numeral_2_eq_2)
qed

text \<open>
  after a failed database commit the store takes the body back: both kinds of store end exactly as they were
  before the write, also when the write had started a new file.
\<close>

theorem rollback_restores_store:
  assumes "mode \<noteq> REMOTE" and "if mode = ARCHIVAL then files_inv s else pruned_inv s" and "bs \<noteq> []"
    and "store_write mode bs s = (loc, s')"
  shows "store_rollback mode loc s' = (True, s)"
  using assms archival.rollback_write [of s bs loc s'] pruned.rollback_write [of s bs loc s']
  by (cases mode) (auto simp: store_write_def store_rollback_def)

lemma rollback_restores_store_witness:
  "\<exists>loc s'. store_write ARCHIVAL [1, 2] (open_files [(0, [9])]) = (loc, s')
     \<and> store_rollback ARCHIVAL loc s' = (True, open_files [(0, [9])])"
proof -
  obtain loc s' where w: "store_write ARCHIVAL [1, 2] (open_files [(0, [9])]) = (loc, s')" by fastforce
  have "files_inv (open_files [(0, [9])])" by (simp add: files_inv_def)
  then show ?thesis using w rollback_restores_store [OF _ _ _ w] by simp
qed

end
