(* ===== verification/Merkle_Trees.thy ===== *)
theory Merkle_Trees
  imports Hash_Functions
begin

text \<open>
  \<^verbatim>\<open>src/src/data/merkle_trees.py\<close>: the Merkle tree of a block. The levels of the tree are a list, the root first
  (index 0) and the identifiers last, padded to even length as the code stores them. The lemmas
  compare the root with its recursive definition; the properties are that every identifier has a
  proof that verifies, and that duplicating the last identifier of an odd list keeps the root.
\<close>

section \<open>The code\<close>

record merkle_tree =
  mt_height :: nat
  mt_levels :: "bytes list list"
  mt_root :: bytes

text \<open>
  \<^verbatim>\<open>ceil(log2(n))\<close> for \<open>n > 1\<close>: the least exponent whose power of two is not below \<open>n\<close> (the code's
  floating point logarithm agrees on every list that fits a block).
\<close>

fun ceil_log2 :: "nat \<Rightarrow> nat" where
  "ceil_log2 n = (if n \<le> 1 then 0 else Suc (ceil_log2 ((n + 1) div 2)))"

declare ceil_log2.simps [simp del]

definition pad_even :: "bytes list \<Rightarrow> bytes list" where
  "pad_even ids = (if length ids mod 2 \<noteq> 0 then ids @ [last ids] else ids)"

fun pair_hashes :: "hashes \<Rightarrow> bytes list \<Rightarrow> bytes list" where
  "pair_hashes H (left # right # ids) = hash256 H (left @ right) # pair_hashes H ids"
| "pair_hashes H _ = []"

text \<open>The loop from level \<open>h\<close> to 1; the list it leaves is the root level.\<close>

fun create_levels :: "hashes \<Rightarrow> nat \<Rightarrow> bytes list \<Rightarrow> bytes list list" where
  "create_levels H 0 ids = [ids]"
| "create_levels H (Suc h) ids = create_levels H h (pair_hashes H (pad_even ids)) @ [pad_even ids]"

definition merkle_tree_new :: "hashes \<Rightarrow> bytes list \<Rightarrow> merkle_tree result" where
  "merkle_tree_new H id_list =
     (if id_list = [] then Inl MerkleError
      else
        let h = (if length id_list = 1 then 0 else ceil_log2 (length id_list));
            levels = (if length id_list = 1 then [id_list] else create_levels H h id_list) in
        Inr \<lparr>mt_height = h, mt_levels = levels, mt_root = hd (hd levels)\<rparr>)"

text \<open>The loop of \<^verbatim>\<open>get_merkle_proof\<close>: one entry per level, from the leaves to below the root.\<close>

fun proof_loop :: "bytes list list \<Rightarrow> nat \<Rightarrow> nat \<Rightarrow> (bytes \<times> string) list result" where
  "proof_loop levels 0 idx = Inr []"
| "proof_loop levels (Suc l) idx =
     bindR (index_at levels (Suc l)) (\<lambda>nodes.
       let is_right = (idx mod 2 = 1); sib_idx = (if is_right then idx - 1 else idx + 1) in
       bindR (index_at nodes (if sib_idx \<ge> length nodes then idx else sib_idx)) (\<lambda>sib.
       bindR (proof_loop levels l (idx div 2)) (\<lambda>pf.
         Inr ((sib, if is_right then ''left'' else ''right'') # pf))))"

fun first_index :: "bytes list \<Rightarrow> bytes \<Rightarrow> nat option" where
  "first_index [] x = None"
| "first_index (y # ys) x = (if y = x then Some 0 else map_option Suc (first_index ys x))"

definition get_merkle_proof :: "merkle_tree \<Rightarrow> bytes \<Rightarrow> (bytes \<times> string) list result" where
  "get_merkle_proof tree target_id =
     bindR (index_at (mt_levels tree) (mt_height tree)) (\<lambda>leaves.
       case first_index leaves target_id of
         None \<Rightarrow> Inl ValueError
       | Some idx \<Rightarrow> proof_loop (mt_levels tree) (mt_height tree) idx)"

fun apply_proof :: "hashes \<Rightarrow> (bytes \<times> string) list \<Rightarrow> bytes \<Rightarrow> bytes" where
  "apply_proof H [] target_hash = target_hash"
| "apply_proof H ((sibling_hash, position) # pf) target_hash =
     apply_proof H pf
       (if position = ''right'' then hash256 H (target_hash @ sibling_hash)
        else hash256 H (sibling_hash @ target_hash))"

definition verify_merkle_proof :: "hashes \<Rightarrow> merkle_tree \<Rightarrow> (bytes \<times> string) list \<Rightarrow> bytes \<Rightarrow> bool" where
  "verify_merkle_proof H tree pf target_id \<longleftrightarrow> apply_proof H pf target_id = mt_root tree"

section \<open>Levels\<close>

lemma pad_even_even: "ids \<noteq> [] \<Longrightarrow> even (length (pad_even ids)) \<and> pad_even ids \<noteq> []"
  by (auto simp: pad_even_def; presburger)

lemma length_pad_even: "length (pad_even ids) = 2 * ((length ids + 1) div 2)"
  by (auto simp: pad_even_def) presburger+

lemma length_pair_hashes: "length (pair_hashes H ids) = length ids div 2"
  by (induction H ids rule: pair_hashes.induct) auto

lemma nth_pair_hashes:
  "i < length ids div 2 \<Longrightarrow> pair_hashes H ids ! i = hash256 H (ids ! (2 * i) @ ids ! Suc (2 * i))"
  by (induction H ids arbitrary: i rule: pair_hashes.induct) (auto simp: nth_Cons split: nat.splits)

lemma length_create_levels [simp]: "length (create_levels H h ids) = Suc h"
  by (induction h arbitrary: ids) auto

lemma create_levels_last: "create_levels H (Suc h) ids ! Suc h = pad_even ids"
  by (simp add: nth_append)

lemma create_levels_butlast:
  "l \<le> h \<Longrightarrow> create_levels H (Suc h) ids ! l = create_levels H h (pair_hashes H (pad_even ids)) ! l"
  by (simp add: nth_append)

lemma halve: "pair_hashes H (pad_even ids) \<noteq> [] \<longleftrightarrow> ids \<noteq> []"
  "length (pair_hashes H (pad_even ids)) = (length ids + 1) div 2"
proof -
  show l: "length (pair_hashes H (pad_even ids)) = (length ids + 1) div 2"
    by (simp add: length_pair_hashes length_pad_even)
  have "(length ids + 1) div 2 = 0 \<longleftrightarrow> length ids = 0" by presburger
  then show "pair_hashes H (pad_even ids) \<noteq> [] \<longleftrightarrow> ids \<noteq> []"
    using l by (metis length_0_conv)
qed

text \<open>The proof loop only looks at the levels up to its own.\<close>

lemma proof_loop_append:
  "l < length levels \<Longrightarrow> proof_loop (levels @ rest) l idx = proof_loop levels l idx"
  by (induction l arbitrary: idx) (simp_all add: index_at_def nth_append Let_def)

text \<open>Following the proof of position \<open>idx\<close> leads to the root.\<close>

lemma proof_loop_root:
  "ids \<noteq> [] \<Longrightarrow> length ids = 1 \<or> h = ceil_log2 (length ids) \<Longrightarrow> h = ceil_log2 (length ids) \<Longrightarrow>
   idx < length (create_levels H h ids ! h) \<Longrightarrow>
   \<exists>pf. proof_loop (create_levels H h ids) h idx = Inr pf
     \<and> apply_proof H pf (create_levels H h ids ! h ! idx) = hd (hd (create_levels H h ids))"
proof (induction h arbitrary: ids idx)
  case 0
  then have "length ids = 1"
    by (subst (asm) ceil_log2.simps) (auto split: if_splits simp: le_Suc_eq)
  with 0 show ?case by (cases ids) auto
next
  case (Suc h)
  let ?p = "pad_even ids" and ?u = "pair_hashes H (pad_even ids)"
  have n: "1 < length ids" and h: "h = ceil_log2 ((length ids + 1) div 2)"
    using Suc.prems(3) by (subst (asm) ceil_log2.simps; auto split: if_splits)+
  have idx: "idx < length ?p" using Suc.prems(4) by (simp add: create_levels_last del: create_levels.simps)
  have even_p: "even (length ?p)" using pad_even_even Suc.prems(1) by blast
  have i2: "idx div 2 < length ?u" using idx even_p by (auto simp: length_pair_hashes)
  have top: "create_levels H h ?u ! h ! (idx div 2) = ?u ! (idx div 2)"
    if "idx div 2 < length ?u"
    using that by (cases h) (auto simp: create_levels_last pad_even_def nth_append simp del: create_levels.simps(2))
  have len: "idx div 2 < length (create_levels H h ?u ! h)"
    using i2 by (cases h) (auto simp: create_levels_last pad_even_def simp del: create_levels.simps(2))
  obtain pf where p: "proof_loop (create_levels H h ?u) h (idx div 2) = Inr pf"
    "apply_proof H pf (?u ! (idx div 2)) = hd (hd (create_levels H h ?u))"
    using Suc.IH [of ?u "idx div 2"] halve [of H ids] Suc.prems(1) h len top [OF i2] by auto
  define sib where "sib = (if idx mod 2 = 1 then idx - 1 else idx + 1)"
  have sib: "sib < length ?p" using idx even_p by (auto simp: sib_def elim!: evenE)
  have pair: "?u ! (idx div 2) = (if idx mod 2 = 1 then hash256 H (?p ! sib @ ?p ! idx) else hash256 H (?p ! idx @ ?p ! sib))"
  proof -
    have "2 * (idx div 2) = (if idx mod 2 = 1 then sib else idx)" "Suc (2 * (idx div 2)) = (if idx mod 2 = 1 then idx else sib)"
      by (auto simp: sib_def; presburger)+
    then show ?thesis using nth_pair_hashes [of "idx div 2" ?p H] i2 by (auto simp: length_pair_hashes)
  qed
  have hd_eq: "hd (create_levels H (Suc h) ids) = hd (create_levels H h ?u)"
    by (cases "create_levels H h ?u") (simp_all, metis length_create_levels list.size(3) nat.distinct(1))
  have q: "proof_loop (create_levels H (Suc h) ids) h (idx div 2) = Inr pf"
    using p(1) by (simp add: proof_loop_append)
  have nodes: "index_at (create_levels H (Suc h) ids) (Suc h) = Inr ?p"
    by (simp add: index_at_def create_levels_last del: create_levels.simps)
  have "index_at ?p (if sib \<ge> length ?p then idx else sib) = Inr (?p ! sib)" using sib by (simp add: index_at_def)
  then have loop: "proof_loop (create_levels H (Suc h) ids) (Suc h) idx =
      Inr ((?p ! sib, if idx mod 2 = 1 then ''left'' else ''right'') # pf)"
    by (simp only: proof_loop.simps nodes bindR_simps Let_def sib_def [symmetric] q)
  then show ?case using p(2) pair
    by (auto simp: hd_eq create_levels_last simp del: create_levels.simps proof_loop.simps)
qed

text \<open>Every level of a tree but a single leaf is built by \<open>create_levels\<close> with the right height.\<close>

lemma merkle_tree_new_levels:
  assumes "merkle_tree_new H ids = Inr tree"
  shows "ids \<noteq> [] \<and> mt_height tree = ceil_log2 (length ids)
    \<and> mt_levels tree = create_levels H (mt_height tree) ids \<and> mt_root tree = hd (hd (mt_levels tree))"
proof -
  have "ceil_log2 1 = 0" by (simp add: ceil_log2.simps)
  then show ?thesis using assms by (auto simp: merkle_tree_new_def Let_def split: if_splits)
qed

lemma first_index_Some: "first_index ys x = Some i \<Longrightarrow> i < length ys \<and> ys ! i = x"
  by (induction ys arbitrary: i) (auto split: if_splits)

lemma first_index_None: "first_index ys x = None \<longleftrightarrow> x \<notin> set ys"
  by (induction ys) auto

lemma leaves_of_tree:
  assumes "ids \<noteq> []"
  shows "set (create_levels H h ids ! h) = set ids"
  using assms by (cases h) (auto simp: create_levels_last pad_even_def simp del: create_levels.simps(2))

text \<open>
  C40: every identifier of a non-empty list, at any position and for any number of identifiers, has a Merkle proof of one hash per level,
  the proof verifies against the root of the tree, and an identifier that is not in the list has no proof.
\<close>

theorem merkle_proofs_verify:
  assumes "merkle_tree_new H ids = Inr tree"
  shows "(x \<in> set ids \<longrightarrow> (\<exists>pf. get_merkle_proof tree x = Inr pf \<and> verify_merkle_proof H tree pf x))
    \<and> (x \<notin> set ids \<longrightarrow> get_merkle_proof tree x = Inl ValueError)"
proof -
  note t = merkle_tree_new_levels [OF assms]
  let ?leaves = "create_levels H (mt_height tree) ids ! mt_height tree"
  have leaves: "index_at (mt_levels tree) (mt_height tree) = Inr ?leaves" "set ?leaves = set ids"
    using t leaves_of_tree [of ids H "mt_height tree"] by (auto simp: index_at_def)
  show ?thesis
  proof (cases "first_index ?leaves x")
    case None
    then have "x \<notin> set ids" using leaves(2) by (simp add: first_index_None)
    then show ?thesis using leaves None by (auto simp: get_merkle_proof_def)
  next
    case (Some i)
    then have i: "i < length ?leaves" "?leaves ! i = x" using first_index_Some by blast+
    then have "x \<in> set ids" using leaves(2) nth_mem by metis
    moreover obtain pf where "proof_loop (mt_levels tree) (mt_height tree) i = Inr pf"
      "apply_proof H pf x = mt_root tree"
      using proof_loop_root [of ids "mt_height tree" i H] t i by auto
    ultimately show ?thesis using leaves(1) Some by (auto simp: get_merkle_proof_def verify_merkle_proof_def)
  qed
qed

text \<open>
  appending the last identifier of a list of odd length again does not change the root: the tree does not determine
  the list of its identifiers, so a check of the root alone does not exclude duplicated
  transactions (block validation rejects duplicate identifiers separately).
\<close>

theorem duplicated_last_keeps_root:
  assumes "odd (length ids)" and "1 < length ids"
  shows "map_sum id mt_root (merkle_tree_new H (ids @ [last ids])) = map_sum id mt_root (merkle_tree_new H ids)"
proof -
  have l: "(length ids + 1) div 2 = (length (ids @ [last ids]) + 1) div 2" using assms(1) by (auto elim: oddE)
  have c: "ceil_log2 n = Suc (ceil_log2 ((n + 1) div 2))" if "1 < n" for n
    using that by (subst ceil_log2.simps) simp
  have h: "ceil_log2 (length (ids @ [last ids])) = ceil_log2 (length ids)" "ceil_log2 (length ids) \<noteq> 0"
  proof -
    have "1 < length (ids @ [last ids])" using assms(2) by (cases ids) simp_all
    from c [OF this] c [OF assms(2)] l
    show "ceil_log2 (length (ids @ [last ids])) = ceil_log2 (length ids)" "ceil_log2 (length ids) \<noteq> 0" by simp_all
  qed
  then obtain h where h': "ceil_log2 (length ids) = Suc h" by (cases "ceil_log2 (length ids)") auto
  have "pad_even (ids @ [last ids]) = pad_even ids"
    using assms(1) by (auto simp: pad_even_def odd_iff_mod_2_eq_one)
  then show ?thesis using assms(2) h h' by (cases ids) (auto simp: merkle_tree_new_def Let_def)
qed

lemma merkle_proofs_verify_witness:
  "\<exists>tree pf. merkle_tree_new pad_hashes [[1], [2], [3]] = Inr tree
     \<and> get_merkle_proof tree [3] = Inr pf \<and> verify_merkle_proof pad_hashes tree pf [3]"
proof -
  obtain tree where t: "merkle_tree_new pad_hashes [[1], [2], [3]] = Inr tree"
    by (simp add: merkle_tree_new_def Let_def)
  from merkle_proofs_verify [OF t, of "[3]"] t show ?thesis by auto
qed

lemma duplicated_last_keeps_root_witness:
  "map_sum id mt_root (merkle_tree_new pad_hashes [[1], [2], [3], [3]])
    = map_sum id mt_root (merkle_tree_new pad_hashes [[1], [2], [3]])"
  using duplicated_last_keeps_root [of "[[1], [2], [3]]" pad_hashes] by simp

end
