(* ===== verification/Target_Bits.thy ===== *)
theory Target_Bits
  imports Prelude
begin

text \<open>
  \<^verbatim>\<open>src/src/data/target_bits.py\<close>: the compact four-byte form of a 32-byte proof of work target. The
  property says what one conversion to the compact form and back does to a target: it never raises it, and loses less
  than one part in 32768 of it.
\<close>

definition BITS_SIZE :: nat where "BITS_SIZE = 4"
definition TARGET_SIZE :: nat where "TARGET_SIZE = 32"

text \<open>
  For an exponent below three \<^verbatim>\<open>pow(2, 8 * (exp - 3))\<close> is a \<^verbatim>\<open>float\<close>, which has no method \<^verbatim>\<open>to_bytes\<close>.
\<close>

definition bits_to_target :: "bytes \<Rightarrow> bytes result" where
  "bits_to_target target_bits =
     (if length target_bits \<noteq> BITS_SIZE then Inl TargetBitsError
      else
        let exp = unat (target_bits ! 0); coeff = be_val (take 3 (drop 1 target_bits)) in
        if exp < 3 then Inl AttributeError
        else to_bytes_be 32 (coeff * 2 ^ (8 * (exp - 3))))"

fun ljust :: "nat \<Rightarrow> bytes \<Rightarrow> bytes" where
  "ljust n bs = bs @ replicate (n - length bs) 0"

definition target_to_bits :: "bytes \<Rightarrow> bytes result" where
  "target_to_bits target =
     (if length target \<noteq> TARGET_SIZE then Inl TargetBitsError
      else
        let first_nonzero = length (takeWhile (\<lambda>b. b = 0) target) in
        bindR (to_bytes_be 1 (32 - int first_nonzero)) (\<lambda>exp.
          let sig_dig = take 3 (drop first_nonzero target); coeff = ljust 3 sig_dig in
          if coeff ! 0 \<ge> 0x80 then
            bindR (to_bytes_be 1 (be_val exp + 1)) (\<lambda>exp2. Inr (exp2 @ [0x00] @ take 2 coeff))
          else Inr (exp @ coeff)))"

lemma be_val_Cons: "be_val (b # bs) = uint b * 256 ^ length bs + be_val bs"
  by (simp add: be_val_def le_val_append)

lemma be_val_append: "be_val (xs @ ys) = be_val xs * 256 ^ length ys + be_val ys"
  by (simp add: be_val_def le_val_append)

lemma be_val_replicate_0 [simp]: "be_val (replicate n 0) = 0"
  by (induction n) (simp_all add: be_val_Cons be_val_def [of "[]"])

text \<open>A target as its leading zeros and its significant bytes.\<close>

lemma target_split:
  obtains k c where "t = replicate k 0 @ c" "length (takeWhile (\<lambda>b. b = 0) t) = k" "c = [] \<or> hd c \<noteq> (0 :: byte)"
proof -
  let ?z = "takeWhile (\<lambda>b. b = (0 :: byte)) t" and ?c = "dropWhile (\<lambda>b. b = 0) t"
  have "replicate (length ?z) 0 = ?z" by (rule replicate_length_same) (auto dest: set_takeWhileD)
  then have "t = replicate (length ?z) 0 @ ?c" by simp
  moreover have "?c = [] \<or> hd ?c \<noteq> 0" using hd_dropWhile [of "\<lambda>b. b = 0" t] by auto
  ultimately show thesis using that by blast
qed

lemma to_bytes_be_1: "0 \<le> v \<Longrightarrow> v < 256 \<Longrightarrow> to_bytes_be 1 v = Inr [word_of_int v]"
  by (simp add: to_bytes_be_def)

lemma to_bytes_be_32: "0 \<le> v \<Longrightarrow> v < 256 ^ 32 \<Longrightarrow> \<exists>bs. to_bytes_be 32 v = Inr bs \<and> be_val bs = v"
  using to_bytes_be_Inr_iff [of 32 v "rev (le_bytes 32 v)"] by (simp add: to_bytes_be_def)

text \<open>The compact form of significant bytes \<open>c\<close>: an exponent and a coefficient.\<close>

lemma target_to_bits_split:
  assumes "t = replicate k 0 @ c" and "length (takeWhile (\<lambda>b. b = 0) t) = k" and "length t = 32" and "c \<noteq> []"
  shows "target_to_bits t = Inr (if hd c \<ge> 0x80 then [word_of_int (33 - int k), 0] @ take 2 (c @ [0, 0])
     else word_of_int (32 - int k) # take 3 (c @ [0, 0]))"
proof -
  have "k + length c = 32" using assms(1,3) by simp
  then have k: "length c = 32 - k" "k < 32" using assms(4) by (auto simp: less_le intro: ccontr)
  have d: "drop (length (takeWhile (\<lambda>b. b = 0) t)) t = c" unfolding assms(2) using assms(1) by simp
  have coeff: "ljust 3 (take 3 c) = take 3 (c @ [0, 0])"
    using assms(4) by (cases c; cases "tl c"; cases "tl (tl c)") (auto simp: numeral_3_eq_3)
  have e: "to_bytes_be 1 (32 - int k) = Inr [word_of_int (32 - int k)]"
    "to_bytes_be 1 (be_val [word_of_int (32 - int k)] + 1) = Inr [word_of_int (33 - int k)]"
  proof -
    show e1: "to_bytes_be 1 (32 - int k) = Inr [word_of_int (32 - int k)]" using k(2) by (intro to_bytes_be_1) auto
    then have "be_val [word_of_int (32 - int k)] = 32 - int k" unfolding to_bytes_be_Inr_iff by blast
    then have b: "be_val [word_of_int (32 - int k)] + 1 = 33 - int k" by linarith
    show "to_bytes_be 1 (be_val [word_of_int (32 - int k)] + 1) = Inr [word_of_int (33 - int k)]"
      unfolding b using k(2) by (intro to_bytes_be_1) auto
  qed
  have h: "take 3 (c @ [0, 0]) ! 0 = hd c" "take 2 (take 3 (c @ [0, 0])) = take 2 (c @ [0, 0])"
  proof -
    show "take 3 (c @ [0, 0]) ! 0 = hd c" using assms(4) by (simp add: hd_conv_nth nth_append)
    show "take 2 (take 3 (c @ [0, 0])) = take 2 (c @ [0, 0])" by (simp only: take_take) simp
  qed
  have d': "drop k t = c" using assms(1) by simp
  have l: "\<not> 32 \<noteq> (32 :: nat)" by simp
  show ?thesis
    unfolding target_to_bits_def Let_def TARGET_SIZE_def
    unfolding assms(2,3) d' coeff if_not_P [OF l] e(1) bindR_simps h(1)
    unfolding e(2) bindR_simps h(2) by (cases "0x80 \<le> hd c") auto
qed

lemma bits_to_target_eq:
  assumes "length co = 3" and "0 \<le> e" "e < 256"
  shows "bits_to_target (word_of_int e # co) =
    (if e < 3 then Inl AttributeError else to_bytes_be 32 (be_val co * 256 ^ nat (e - 3)))"
proof -
  have u: "unat (word_of_int e :: byte) = nat e"
    using assms(2,3) by (simp add: unat_eq_nat_uint uint_word_of_int)
  have "(2 :: int) ^ (8 * (nat e - 3)) = 256 ^ nat (e - 3)" by (simp add: power_mult nat_diff_distrib)
  then show ?thesis using assms u by (auto simp: bits_to_target_def BITS_SIZE_def Let_def nat_less_iff)
qed

text \<open>
  What survives a conversion: the significant bytes up to a cut, with the bytes after it set to zero.
\<close>

lemma truncated_target:
  assumes "c = a @ b" and "length c \<le> 32" and "2 ^ 15 \<le> be_val a"
  shows "\<exists>t'. to_bytes_be 32 (be_val a * 256 ^ length b) = Inr t' \<and> be_val t' \<le> be_val c
    \<and> 2 ^ 15 * (be_val c - be_val t') < be_val t'"
proof -
  let ?v = "be_val a * 256 ^ length b"
  have c: "be_val c = ?v + be_val b" by (simp add: assms(1) be_val_append)
  have b: "0 \<le> be_val b" "be_val b < 256 ^ length b" by (simp_all add: be_val_bound)
  have "be_val c < 256 ^ length c" by (rule be_val_bound)
  also have "(256 :: int) ^ length c \<le> 256 ^ 32" by (rule power_increasing [OF assms(2)]) simp
  finally have "be_val c < 256 ^ 32" .
  then obtain t' where t': "to_bytes_be 32 ?v = Inr t'" "be_val t' = ?v"
    using to_bytes_be_32 [of ?v] b(1) by (auto simp: c)
  have "2 ^ 15 * 256 ^ length b \<le> ?v" by (rule mult_right_mono [OF assms(3)]) simp
  moreover have "2 ^ 15 * be_val b < 2 ^ 15 * 256 ^ length b" using b(2) by simp
  moreover have "be_val c - be_val t' = be_val b" by (simp add: c t'(2))
  ultimately have "2 ^ 15 * (be_val c - be_val t') < be_val t'" unfolding t'(2) by (simp only: less_le_trans)
  then show ?thesis using t' b(1) by (auto simp: c)
qed

lemma be_val_split: "be_val xs = be_val (take n xs) * 256 ^ (length xs - n) + be_val (drop n xs)"
  using be_val_append [of "take n xs" "drop n xs"] by simp

text \<open>
  writing a target in compact form and reading it back never makes the target easier and loses
  less than one part in 32768 of it; targets below 32768, whose exponent would be below three,
  do not survive: reading their compact form raises.
\<close>

theorem compact_target_round_trip:
  assumes "length t = 32"
  shows "\<exists>bits. target_to_bits t = Inr bits \<and>
    (if be_val t < 2 ^ 15 then bits_to_target bits = Inl AttributeError
     else \<exists>t'. bits_to_target bits = Inr t' \<and> be_val t' \<le> be_val t
       \<and> 2 ^ 15 * (be_val t - be_val t') < be_val t')"
proof -
  obtain k c where t: "t = replicate k 0 @ c" "length (takeWhile (\<lambda>b. b = 0) t) = k" "c = [] \<or> hd c \<noteq> 0"
    using target_split by blast
  have v: "be_val t = be_val c" by (simp add: t(1) be_val_append)
  have k: "int k = 32 - int (length c)" "length c \<le> 32" using assms t(1) by auto
  show ?thesis
  proof (cases "c = []")
    case True
    then have "k = 32" "t = replicate 32 0" using k t(1) by auto
    then have "target_to_bits t = Inr [0, 0, 0, 0]"
      by (simp add: target_to_bits_def TARGET_SIZE_def to_bytes_be_def Let_def numeral_3_eq_3)
    moreover have "bits_to_target [0, 0, 0, 0] = Inl AttributeError" by (simp add: bits_to_target_def BITS_SIZE_def Let_def)
    ultimately show ?thesis unfolding v by (simp add: True be_val_def)
  next
    case False
    note bits = target_to_bits_split [OF t(1,2) assms False]
    have hd0: "1 \<le> uint (hd c)" using t(3) False uint_byte_bounds(1) [of "hd c"] by (simp add: int_one_le_iff_zero_less less_le) (metis uint_0_iff)
    have c: "c = hd c # tl c" using False by simp
    have vc: "be_val c = uint (hd c) * 256 ^ (length c - 1) + be_val (tl c)"
      using be_val_Cons [of "hd c" "tl c"] False by simp
    let ?n = "if hd c \<ge> 0x80 then 2 else 3 :: nat"
    let ?co = "if hd c \<ge> 0x80 then 0 # take 2 (c @ [0, 0]) else take 3 (c @ [0, 0])"
    let ?e = "int (length c) + (if hd c \<ge> 0x80 then 1 else 0)"
    have b: "target_to_bits t = Inr (word_of_int ?e # ?co)"
    proof -
      have "32 - int k = int (length c)" "33 - int k = int (length c) + 1" using k(1) by linarith+
      then show ?thesis unfolding bits by (simp only: append.simps add_0_right split: if_split) blast
    qed
    have lco: "length ?co = 3" using False by (cases c) auto
    have r: "bits_to_target (word_of_int ?e # ?co) =
        (if ?e < 3 then Inl AttributeError else to_bytes_be 32 (be_val ?co * 256 ^ nat (?e - 3)))"
      using k(2) by (intro bits_to_target_eq [OF lco]) auto
    show ?thesis
    proof (cases "?n \<le> length c")
      case True
      let ?a = "take ?n c" and ?b = "drop ?n c"
      have co: "be_val ?co = be_val ?a" using True by (auto simp: be_val_Cons)
      have e: "nat (?e - 3) = length ?b" "\<not> ?e < 3" using True by auto
      have "2 ^ 15 \<le> be_val ?a"
      proof (cases "hd c \<ge> 0x80")
        case big: True
        then obtain x y r where "c = x # y # r" using True by (cases c; cases "tl c") auto
        moreover have "128 \<le> uint x" using big calculation by (simp add: word_le_def)
        moreover have "32768 \<le> uint x * 256 + uint y"
          using \<open>128 \<le> uint x\<close> uint_byte_bounds(1) [of y] by linarith
        ultimately show ?thesis using big by (simp add: be_val_Cons be_val_def [of "[]"] numeral_2_eq_2)
      next
        case small: False
        then obtain x y z r where "c = x # y # z # r" using True by (cases c; cases "tl c"; cases "tl (tl c)") auto
        moreover have "32768 \<le> uint x * 65536 + (uint y * 256 + uint z)"
          using hd0 [unfolded calculation list.sel] uint_byte_bounds(1) [of y] uint_byte_bounds(1) [of z] by linarith
        ultimately show ?thesis using small by (simp add: be_val_Cons be_val_def [of "[]"] numeral_3_eq_3)
      qed
      from truncated_target [of c ?a ?b, OF _ k(2) this] obtain t' where
        t': "to_bytes_be 32 (be_val ?a * 256 ^ length ?b) = Inr t'" "be_val t' \<le> be_val c"
          "2 ^ 15 * (be_val c - be_val t') < be_val t'" by auto
      have "be_val ?a * 1 \<le> be_val ?a * 256 ^ length ?b" by (rule mult_left_mono) simp_all
      then have "2 ^ 15 \<le> be_val c"
        using \<open>2 ^ 15 \<le> be_val ?a\<close> be_val_split [of c ?n] be_val_nonneg [of ?b] unfolding length_drop by linarith
      then show ?thesis using b r t' unfolding v co e(1) by (auto simp: e(2))
    next
      case False
      have "be_val c < 2 ^ 15"
      proof (cases "hd c \<ge> 0x80")
        case True
        then have "length c = 1" using False \<open>c \<noteq> []\<close> by (cases c) (auto simp: Suc_le_eq)
        then show ?thesis using be_val_bound [of c] by simp
      next
        case small: False
        then have "uint (hd c) < 128" by (simp add: word_le_def)
        have "length c = 1 \<or> length c = 2" using False small \<open>c \<noteq> []\<close> by (cases c; cases "tl c") (auto simp: Suc_le_eq)
        then show ?thesis using vc \<open>uint (hd c) < 128\<close> be_val_bound [of "tl c"] by auto
      qed
      moreover have "?e < 3" using False by auto
      ultimately show ?thesis using b r unfolding v by auto
    qed
  qed
qed

lemma compact_target_round_trip_witness:
  "target_to_bits (replicate 28 0 @ [0x12, 0x34, 0x56, 0x78]) = Inr [4, 0x12, 0x34, 0x56]
    \<and> (\<exists>t'. bits_to_target [4, 0x12, 0x34, 0x56] = Inr t' \<and> be_val t' \<le> 0x12345678)"
proof -
  let ?t = "replicate 28 0 @ [0x12, 0x34, 0x56, 0x78 :: byte]"
  have v: "be_val ?t = 0x12345678" by (simp add: be_val_append be_val_Cons be_val_def [of "[]"])
  have "takeWhile (\<lambda>b. b = 0) ?t = replicate 28 0" by (simp add: takeWhile_append)
  then have b: "target_to_bits ?t = Inr [4, 0x12, 0x34, 0x56]"
    by (simp add: target_to_bits_def TARGET_SIZE_def to_bytes_be_def Let_def)
  have "length ?t = 32" by simp
  from compact_target_round_trip [OF this] b v show ?thesis by auto
qed

end
