(* ===== verification/Blocks.thy ===== *)
theory Blocks
  imports Transaction_Facts Merkle_Trees Target_Bits
begin

text \<open>
  \<^verbatim>\<open>src/src/block/block.py\<close>: block headers and blocks. A constructor replaces a falsy argument by a
  default, the timestamp by the current time \<open>now\<close>; the Merkle tree and the weight of a block are
  computed by its constructor from its transactions. \<^verbatim>\<open>to_dict\<close> and \<^verbatim>\<open>to_data\<close> are display.
\<close>

section \<open>Headers\<close>

record block_header =
  bh_version :: int
  bh_prev :: bytes
  bh_merkle :: bytes
  bh_time :: int
  bh_bits :: bytes
  bh_nonce :: int

definition BIP65_VERSION :: int where "BIP65_VERSION = 4"
definition BLOCK_VERSION :: int where "BLOCK_VERSION = 4"
definition GENESIS_BLOCK_BITS :: bytes where "GENESIS_BLOCK_BITS = [0x1d, 0x00, 0xff, 0xff]"

definition or_int :: "int \<Rightarrow> int \<Rightarrow> int" where "or_int v d = (if v = 0 then d else v)"
definition or_bytes :: "bytes \<Rightarrow> bytes \<Rightarrow> bytes" where "or_bytes v d = (if v = [] then d else v)"

definition header_new :: "int \<Rightarrow> int \<Rightarrow> bytes \<Rightarrow> bytes \<Rightarrow> int \<Rightarrow> bytes \<Rightarrow> int \<Rightarrow> block_header" where
  "header_new now version prev_block merkle_root timestamp bits nonce =
     \<lparr>bh_version = or_int version BIP65_VERSION, bh_prev = or_bytes prev_block (replicate 32 0),
      bh_merkle = or_bytes merkle_root (replicate 32 0), bh_time = or_int timestamp now,
      bh_bits = or_bytes bits GENESIS_BLOCK_BITS, bh_nonce = or_int nonce 0\<rparr>"

definition header_from_bytes :: "int \<Rightarrow> bytes \<Rightarrow> (block_header \<times> bytes) result" where
  "header_from_bytes now stream =
     bindR (read_little_int 4 stream) (\<lambda>(version, s1).
     bindR (read_stream 32 s1) (\<lambda>(prev_block, s2).
     bindR (read_stream 32 s2) (\<lambda>(merkle_root, s3).
     bindR (read_little_int 4 s3) (\<lambda>(timestamp, s4).
     bindR (read_stream 4 s4) (\<lambda>(bits, s5).
     bindR (read_little_int 4 s5) (\<lambda>(nonce, s6).
       Inr (header_new now version prev_block merkle_root timestamp (rev bits) nonce, s6)))))))"

definition header_to_bytes :: "block_header \<Rightarrow> bytes result" where
  "header_to_bytes h =
     joinR [to_bytes_le 4 (bh_version h), Inr (bh_prev h), Inr (bh_merkle h),
            to_bytes_le 4 (bh_time h), Inr (rev (bh_bits h)), to_bytes_le 4 (bh_nonce h)]"

definition header_id :: "hashes \<Rightarrow> block_header \<Rightarrow> bytes result" where
  "header_id H h = bindR (header_to_bytes h) (\<lambda>b. Inr (hash256 H b))"

definition header_target :: "block_header \<Rightarrow> bytes result" where
  "header_target h = bits_to_target (bh_bits h)"

definition header_increment :: "block_header \<Rightarrow> block_header" where
  "header_increment h = h\<lparr>bh_nonce := bh_nonce h + 1\<rparr>"

section \<open>Blocks\<close>

record block =
  b_version :: int
  b_prev :: bytes
  b_time :: int
  b_bits :: bytes
  b_nonce :: int
  b_txs :: "tx list"
  b_tree :: merkle_tree
  b_weight :: int

definition calculate_block_weight :: "tx list \<Rightarrow> int result" where
  "calculate_block_weight txs = bindR (sumR tx_wu txs) (\<lambda>w. Inr (320 + w))"

definition block_new :: "hashes \<Rightarrow> int \<Rightarrow> int \<Rightarrow> bytes \<Rightarrow> int \<Rightarrow> bytes \<Rightarrow> int \<Rightarrow> tx list \<Rightarrow> block result" where
  "block_new H now version prev_block timestamp bits nonce txs =
     bindR (mapR (tx_txid H) txs) (\<lambda>txids.
     bindR (merkle_tree_new H txids) (\<lambda>tree.
     bindR (calculate_block_weight txs) (\<lambda>weight.
       Inr \<lparr>b_version = or_int version BLOCK_VERSION, b_prev = or_bytes prev_block (replicate 32 0),
            b_time = or_int timestamp now, b_bits = or_bytes bits GENESIS_BLOCK_BITS,
            b_nonce = or_int nonce 0, b_txs = txs, b_tree = tree, b_weight = weight\<rparr>)))"

definition block_from_header :: "hashes \<Rightarrow> int \<Rightarrow> block_header \<Rightarrow> tx list \<Rightarrow> block result" where
  "block_from_header H now header txs =
     block_new H now (bh_version header) (bh_prev header) (bh_time header) (bh_bits header) (bh_nonce header) txs"

definition block_from_bytes :: "hashes \<Rightarrow> int \<Rightarrow> bytes \<Rightarrow> (block \<times> bytes) result" where
  "block_from_bytes H now stream =
     bindR (header_from_bytes now stream) (\<lambda>(header, s1).
     bindR (read_compact_size s1) (\<lambda>(tx_num, s2).
     bindR (read_many tx_from_bytes (nat tx_num) s2) (\<lambda>(txs, s3).
     bindR (block_from_header H now header txs) (\<lambda>b. Inr (b, s3)))))"

text \<open>
  The constructor of the header sees fields of a block, whose own constructor replaced the falsy ones, so that
  no default applies here (\<open>get_header_constructor\<close> below).
\<close>

definition get_header :: "block \<Rightarrow> block_header" where
  "get_header b =
     \<lparr>bh_version = b_version b, bh_prev = b_prev b, bh_merkle = mt_root (b_tree b), bh_time = b_time b,
      bh_bits = b_bits b, bh_nonce = b_nonce b\<rparr>"

definition block_id :: "hashes \<Rightarrow> block \<Rightarrow> bytes result" where
  "block_id H b = header_id H (get_header b)"

definition block_to_bytes :: "block \<Rightarrow> bytes result" where
  "block_to_bytes b =
     joinR [header_to_bytes (get_header b), write_compact_size (int (length (b_txs b))), write_all tx_to_bytes (b_txs b)]"

section \<open>What the constructors keep\<close>

text \<open>A header no default changes.\<close>

definition header_wf :: "block_header \<Rightarrow> bool" where
  "header_wf h \<longleftrightarrow> length (bh_prev h) = 32 \<and> length (bh_merkle h) = 32 \<and> length (bh_bits h) = 4
     \<and> bh_version h \<noteq> 0 \<and> bh_time h \<noteq> 0"

lemma or_simps [simp]: "or_int v 0 = v" "v \<noteq> 0 \<Longrightarrow> or_int v d = v" "bs \<noteq> [] \<Longrightarrow> or_bytes bs e = bs"
  by (simp_all add: or_int_def or_bytes_def)

lemma header_new_wf: "header_wf h \<Longrightarrow>
    header_new now (bh_version h) (bh_prev h) (bh_merkle h) (bh_time h) (bh_bits h) (bh_nonce h) = h"
  by (simp add: header_wf_def header_new_def flip: length_greater_0_conv)

lemma header_read:
  assumes "header_to_bytes h = Inr bs" and "length (bh_prev h) = 32" "length (bh_merkle h) = 32" "length (bh_bits h) = 4"
  shows "header_from_bytes now (bs @ rest) =
    Inr (header_new now (bh_version h) (bh_prev h) (bh_merkle h) (bh_time h) (bh_bits h) (bh_nonce h), rest)
    \<and> length bs = 80"
proof -
  obtain v t n where p: "to_bytes_le 4 (bh_version h) = Inr v" "to_bytes_le 4 (bh_time h) = Inr t"
    "to_bytes_le 4 (bh_nonce h) = Inr n" and bs: "bs = v @ bh_prev h @ bh_merkle h @ t @ rev (bh_bits h) @ n"
    using assms(1) by (auto simp: header_to_bytes_def)
  have len: "length v = 4" "length t = 4" "length n = 4" using p unfolding to_bytes_le_Inr_iff by blast+
  have ints: "read_little_int 4 (v @ x) = Inr (bh_version h, x)" "read_little_int 4 (t @ x) = Inr (bh_time h, x)"
    "read_little_int 4 (n @ x) = Inr (bh_nonce h, x)" for x
    by (rule read_little_int_to_bytes, rule p)+
  have fields: "read_stream 32 (bh_prev h @ x) = Inr (bh_prev h, x)" "read_stream 32 (bh_merkle h @ x) = Inr (bh_merkle h, x)"
    "read_stream 4 (rev (bh_bits h) @ x) = Inr (rev (bh_bits h), x)" for x
    using assms(2-4) by (simp_all add: read_stream_append)
  show ?thesis
  proof
    show "header_from_bytes now (bs @ rest) =
        Inr (header_new now (bh_version h) (bh_prev h) (bh_merkle h) (bh_time h) (bh_bits h) (bh_nonce h), rest)"
      unfolding bs header_from_bytes_def append_assoc by (simp only: ints fields bindR_simps prod.case rev_rev_ident)
    show "length bs = 80" unfolding bs using len assms(2-4) by simp
  qed
qed

interpretation header: fixed_codec header_to_bytes "header_from_bytes now" header_wf 80 for now
  by unfold_locales (auto simp: header_read header_wf_def header_new_wf [unfolded header_wf_def])

lemma block_new_fields:
  assumes "block_new H now version prev_block timestamp bits nonce txs = Inr b"
  shows "b_txs b = txs \<and> txs \<noteq> [] \<and> (\<exists>ids. mapR (tx_txid H) txs = Inr ids \<and> merkle_tree_new H ids = Inr (b_tree b))
    \<and> calculate_block_weight txs = Inr (b_weight b) \<and> b_version b \<noteq> 0 \<and> b_prev b \<noteq> [] \<and> b_bits b \<noteq> []
    \<and> (now \<noteq> 0 \<longrightarrow> b_time b \<noteq> 0)"
proof -
  obtain ids tree w where i: "mapR (tx_txid H) txs = Inr ids" "merkle_tree_new H ids = Inr tree"
    "calculate_block_weight txs = Inr w"
    and b: "b = \<lparr>b_version = or_int version BLOCK_VERSION, b_prev = or_bytes prev_block (replicate 32 0),
       b_time = or_int timestamp now, b_bits = or_bytes bits GENESIS_BLOCK_BITS,
       b_nonce = or_int nonce 0, b_txs = txs, b_tree = tree, b_weight = w\<rparr>"
    using assms unfolding block_new_def by (elim bindR_InrE) simp
  have "txs \<noteq> []" using merkle_tree_new_levels [OF i(2)] mapR_length [OF i(1)] by auto
  then show ?thesis using i unfolding b
    by (simp add: or_int_def or_bytes_def BLOCK_VERSION_def GENESIS_BLOCK_BITS_def)
qed

lemma get_header_constructor:
  assumes "block_new H now version prev_block timestamp bits nonce txs = Inr b" and "now \<noteq> 0" and "mt_root (b_tree b) \<noteq> []"
  shows "header_new now' (b_version b) (b_prev b) (mt_root (b_tree b)) (b_time b) (b_bits b) (b_nonce b) = get_header b"
  using block_new_fields [OF assms(1)] assms(2,3) by (simp add: header_new_def get_header_def)

section \<open>Round trips\<close>

lemma headers_read_back:
  "header_wf h \<Longrightarrow> header_to_bytes h = Inr bs \<Longrightarrow> header_from_bytes now (bs @ rest) = Inr (h, rest) \<and> length bs = 80"
  using header_read [of h bs now rest] header_new_wf [of h now] by (simp add: header_wf_def)

text \<open>
  a header survives its 80-byte serialisation, unless its version or its timestamp is zero: the constructor takes these
  fields for missing ones, so that parsing puts version 4 and the current time of the node in their place, and the
  parsed header has another identifier than the bytes it was read from.
\<close>

theorem headers_round_trip:
  assumes "header_to_bytes h = Inr bs" and "length (bh_prev h) = 32" "length (bh_merkle h) = 32" "length (bh_bits h) = 4"
  shows "length bs = 80 \<and> header_from_bytes now (bs @ rest) =
    Inr (h\<lparr>bh_version := (if bh_version h = 0 then 4 else bh_version h),
           bh_time := (if bh_time h = 0 then now else bh_time h)\<rparr>, rest)"
proof -
  have "bh_prev h \<noteq> []" "bh_merkle h \<noteq> []" "bh_bits h \<noteq> []" using assms(2-4) by auto
  with header_read [OF assms] show ?thesis by (simp add: header_new_def or_int_def BIP65_VERSION_def)
qed

definition sample_header :: block_header where
  "sample_header = \<lparr>bh_version = 1, bh_prev = replicate 32 0, bh_merkle = replicate 32 5, bh_time = 0,
     bh_bits = [0x1d, 0x00, 0xff, 0xff], bh_nonce = 7\<rparr>"

lemma headers_round_trip_witness:
  "\<exists>bs. header_to_bytes sample_header = Inr bs \<and> length bs = 80
     \<and> header_from_bytes 1700000000 (bs @ [1]) = Inr (sample_header\<lparr>bh_time := 1700000000\<rparr>, [1])"
proof -
  obtain bs where bs: "header_to_bytes sample_header = Inr bs"
    by (simp add: header_to_bytes_def sample_header_def to_bytes_le_def)
  from headers_round_trip [OF this, of 1700000000 "[1]"] show ?thesis
    by (simp add: bs) (simp add: sample_header_def)
qed

text \<open>Blocks a constructor made, with transactions the wire format can hold.\<close>

definition block_wf :: "hashes \<Rightarrow> block \<Rightarrow> bool" where
  "block_wf H b \<longleftrightarrow> block_from_header H 1 (get_header b) (b_txs b) = Inr b \<and> header_wf (get_header b)
     \<and> list_all tx_wf (b_txs b)"

lemma block_new_now:
  "timestamp \<noteq> 0 \<Longrightarrow> block_new H now version prev_block timestamp bits nonce txs
     = block_new H now' version prev_block timestamp bits nonce txs"
  by (simp add: block_new_def)

lemma block_round_trip:
  assumes "block_wf H b" and "block_to_bytes b = Inr bs"
  shows "block_from_bytes H now (bs @ rest) = Inr (b, rest)"
proof -
  obtain h n t where p: "header_to_bytes (get_header b) = Inr h" "write_compact_size (int (length (b_txs b))) = Inr n"
    "write_all tx_to_bytes (b_txs b) = Inr t" and bs: "bs = h @ n @ t"
    using assms(2) by (auto simp: block_to_bytes_def)
  have w: "header_wf (get_header b)" "list_all tx_wf (b_txs b)" using assms(1) by (simp_all add: block_wf_def)
  have "block_from_header H now (get_header b) (b_txs b) = Inr b"
    using assms(1) w(1) block_new_now [of "bh_time (get_header b)" H now "bh_version (get_header b)" "bh_prev (get_header b)"
        "bh_bits (get_header b)" "bh_nonce (get_header b)" "b_txs b" 1]
    by (simp add: block_wf_def block_from_header_def header_wf_def)
  moreover have "read_many tx_from_bytes (length (b_txs b)) (t @ rest) = Inr (b_txs b, rest)"
    by (rule txs.read_many_write_all [OF w(2) p(3)])
  ultimately show ?thesis unfolding bs block_from_bytes_def append_assoc
    using headers_read_back [OF w(1) p(1), of now "n @ t @ rest"] read_write_compact_size [OF p(2), of "t @ rest"]
    by simp
qed

interpretation blocks: codec block_to_bytes "block_from_bytes H now" "block_wf H" for H now
  by unfold_locales (rule block_round_trip)

text \<open>
  a sequence of blocks that serialises is read back as the same blocks, and the parser never looks at the
  Merkle root the bytes hold: two serialisations that differ only there give the same block, whose root is the one
  computed from its transactions.
\<close>

theorem blocks_round_trip:
  assumes "list_all (block_wf H) bs" and "write_all block_to_bytes bs = Inr s"
    and "header_to_bytes h = Inr hb" and "header_to_bytes (h\<lparr>bh_merkle := r\<rparr>) = Inr hb'"
    and "length (bh_prev h) = 32" "length (bh_merkle h) = 32" "length r = 32" "length (bh_bits h) = 4"
  shows "read_many (block_from_bytes H now) (length bs) (s @ rest) = Inr (bs, rest)
    \<and> block_from_bytes H now (hb @ body) = block_from_bytes H now (hb' @ body)"
proof
  show "read_many (block_from_bytes H now) (length bs) (s @ rest) = Inr (bs, rest)"
    by (rule blocks.read_many_write_all [OF assms(1,2)])
  show "block_from_bytes H now (hb @ body) = block_from_bytes H now (hb' @ body)"
    using header_read [OF assms(3,5,6,8), of now body] header_read [OF assms(4), of now body] assms(5,7,8)
    by (simp add: block_from_bytes_def block_from_header_def header_new_def)
qed

text \<open>
  the weight of a block is that of BIP 141 less four times the size of the transaction counter: the constructor counts the header and the
  transactions only.
\<close>

theorem block_weight_misses_counter:
  assumes "calculate_block_weight txs = Inr w" and "write_all tx_to_bytes txs = Inr full"
    and "write_all get_txid_preimage txs = Inr stripped" and "write_compact_size (int (length txs)) = Inr n"
  shows "w = 3 * int (80 + length n + length stripped) + int (80 + length n + length full) - 4 * int (length n)"
proof -
  have "sumR tx_wu txs = Inr (3 * int (length s) + int (length f))"
    if "write_all tx_to_bytes txs = Inr f" "write_all get_txid_preimage txs = Inr s" for f s
    using that
  proof (induction txs arbitrary: f s)
    case (Cons t ts)
    then obtain f1 f2 s1 s2 where p: "tx_to_bytes t = Inr f1" "write_all tx_to_bytes ts = Inr f2" "f = f1 @ f2"
      "get_txid_preimage t = Inr s1" "write_all get_txid_preimage ts = Inr s2" "s = s1 @ s2" by auto
    show ?case using Cons.IH [OF p(2,5)] tx_wu_sizes [OF p(1,4)] by (simp add: p)
  qed simp
  with assms show ?thesis by (simp add: calculate_block_weight_def)
qed

lemma sample_block_new:
  "\<exists>b. block_new pad_hashes 1 1 (replicate 32 9) 5 [0x20, 0x7f, 0xff, 0xff] 3 [sample_tx] = Inr b
    \<and> block_wf pad_hashes b \<and> (\<exists>bs. block_to_bytes b = Inr bs)"
proof -
  obtain full stripped where f: "tx_to_bytes sample_tx = Inr full" "get_txid_preimage sample_tx = Inr stripped"
    using sample_tx_bytes sample_tx_stripped by blast
  obtain tree where t: "merkle_tree_new pad_hashes [hash256 pad_hashes stripped] = Inr tree"
    by (simp add: merkle_tree_new_def Let_def)
  have root: "mt_root tree = hash256 pad_hashes stripped" using t by (auto simp: merkle_tree_new_def Let_def)
  define b where "b = \<lparr>b_version = 1, b_prev = replicate 32 9, b_time = 5, b_bits = [0x20, 0x7f, 0xff, 0xff :: byte],
     b_nonce = 3, b_txs = [sample_tx], b_tree = tree, b_weight = 320 + (3 * int (length stripped) + int (length full))\<rparr>"
  have new: "block_new pad_hashes 1 1 (replicate 32 9) 5 [0x20, 0x7f, 0xff, 0xff] 3 [sample_tx] = Inr b"
    by (simp add: block_new_def tx_txid_def f t calculate_block_weight_def tx_wu_sizes [OF f] b_def)
  moreover have "block_wf pad_hashes b"
    using new by (simp add: block_wf_def block_from_header_def get_header_def b_def header_wf_def root
        digest_lengths sample_tx_wf)
  moreover have "\<exists>bs. block_to_bytes b = Inr bs"
    by (simp add: block_to_bytes_def header_to_bytes_def get_header_def b_def to_bytes_le_def write_compact_size_def
        MAX_COMPACTSIZE_def f)
  ultimately show ?thesis by blast
qed

lemma blocks_round_trip_witness:
  "\<exists>b bs hb. read_many (block_from_bytes pad_hashes 1) 1 (bs @ [1]) = Inr ([b], [1]) \<and> b_txs b = [sample_tx]
    \<and> header_to_bytes sample_header = Inr hb
    \<and> (\<exists>hb'. header_to_bytes (sample_header\<lparr>bh_merkle := replicate 32 6\<rparr>) = Inr hb'
        \<and> block_from_bytes pad_hashes 1 (hb @ [0]) = block_from_bytes pad_hashes 1 (hb' @ [0]))"
proof -
  obtain b bs where b: "block_wf pad_hashes b" "block_to_bytes b = Inr bs" "b_txs b = [sample_tx]"
    using sample_block_new block_new_fields by blast
  obtain hb hb' where h: "header_to_bytes sample_header = Inr hb"
      "header_to_bytes (sample_header\<lparr>bh_merkle := replicate 32 6\<rparr>) = Inr hb'"
    by (simp add: header_to_bytes_def sample_header_def to_bytes_le_def)
  have "list_all (block_wf pad_hashes) [b]" "write_all block_to_bytes [b] = Inr bs" using b by simp_all
  note r = blocks_round_trip [OF this h, of 1 "[1]" "[0]"]
  have "read_many (block_from_bytes pad_hashes 1) 1 (bs @ [1]) = Inr ([b], [1])"
    "block_from_bytes pad_hashes 1 (hb @ [0]) = block_from_bytes pad_hashes 1 (hb' @ [0])"
    using r by (simp_all add: sample_header_def)
  then show ?thesis using b(3) h by blast
qed

lemma block_weight_misses_counter_witness:
  "\<exists>w full stripped. calculate_block_weight [sample_tx] = Inr w
    \<and> tx_to_bytes sample_tx = Inr full \<and> get_txid_preimage sample_tx = Inr stripped
    \<and> w = 3 * int (81 + length stripped) + int (81 + length full) - 4"
proof -
  obtain full stripped where f: "tx_to_bytes sample_tx = Inr full" "get_txid_preimage sample_tx = Inr stripped"
    using sample_tx_bytes sample_tx_stripped by blast
  have "calculate_block_weight [sample_tx] = Inr (320 + (3 * int (length stripped) + int (length full)))"
    by (simp add: calculate_block_weight_def tx_wu_sizes [OF f])
  moreover have "write_compact_size (int (length [sample_tx])) = Inr [1]"
    by (simp add: write_compact_size_def MAX_COMPACTSIZE_def to_bytes_le_def)
  ultimately show ?thesis
    using block_weight_misses_counter [of "[sample_tx]" _ full stripped "[1]"] f by force
qed

end
