(* ===== verification/Chain_DB.thy ===== *)
theory Chain_DB
  imports Block_Store Blocks
begin

text \<open>
  \<^verbatim>\<open>src/src/database/database.py\<close>: the index of blocks, the unspent outputs, the undo data and the bodies. A
  table is a list of rows, or a map where the primary key is all that is asked for; the rows of the undo
  tables of one block are numbered from zero, so they are a list under its hash. A statement that breaks a primary
  key raises \<open>IntegrityError\<close>, an integer that needs more than 64 bits \<open>OverflowError\<close>. Where a query leaves the
  order of equal rows open the model takes the first of the table. A transaction block that raises leaves the
  tables as they were, the block store keeps what was written to it.
\<close>

section \<open>Tables\<close>

datatype block_status = STATUS_VALID | STATUS_CANDIDATE | STATUS_HEADERS_ONLY | STATUS_INVALID

record index_entry =
  ie_hash :: bytes
  ie_prev :: bytes
  ie_height :: int
  ie_bits :: bytes
  ie_time :: int
  ie_work :: int
  ie_chainwork :: int
  ie_active :: bool
  ie_status :: block_status

record block_row =
  br_hash :: bytes
  br_height :: int
  br_prev :: bytes
  br_time :: int
  br_loc :: location

record block_undo =
  un_spent :: "utxo list"
  un_created :: "bytes list"

record chain_db =
  db_utxos :: "bytes \<Rightarrow> utxo option"
  db_blocks :: "block_row list"
  db_index :: "index_entry list"
  db_undo_spent :: "bytes \<Rightarrow> utxo list"
  db_undo_created :: "bytes \<Rightarrow> bytes list"
  db_mode_row :: "storage_mode option"
  db_store :: block_store

record db_config =
  c_mode :: storage_mode
  c_keep :: int
  c_rpc :: core_rpc

definition empty_tables :: "block_store \<Rightarrow> chain_db" where
  "empty_tables s = \<lparr>db_utxos = (\<lambda>_. None), db_blocks = [], db_index = [], db_undo_spent = (\<lambda>_. []),
     db_undo_created = (\<lambda>_. []), db_mode_row = None, db_store = s\<rparr>"

definition MAX_TARGET_PLUS_ONE :: int where "MAX_TARGET_PLUS_ONE = 2 ^ 256"

definition calc_block_work :: "bytes \<Rightarrow> int result" where
  "calc_block_work bits =
     bindR (bits_to_target bits) (\<lambda>t.
       let target = be_val t in Inr (if target \<le> 0 then 0 else MAX_TARGET_PLUS_ONE div (target + 1)))"

section \<open>Opening\<close>

definition validate_storage_mode :: "db_config \<Rightarrow> chain_db \<Rightarrow> chain_db result" where
  "validate_storage_mode C db =
     (case db_mode_row db of
        Some mode \<Rightarrow> if mode \<noteq> c_mode C then Inl ValueError else Inr db
      | None \<Rightarrow>
          if db_blocks db \<noteq> [] \<and> c_mode C \<noteq> ARCHIVAL then Inl ValueError
          else Inr (db\<lparr>db_mode_row := Some (c_mode C)\<rparr>))"

definition reconcile_block_store :: "db_config \<Rightarrow> chain_db \<Rightarrow> chain_db" where
  "reconcile_block_store C db =
     (if c_mode C = REMOTE then db
      else db\<lparr>db_store := snd (store_reconcile (c_mode C) (map br_loc (db_blocks db)) (db_store db))\<rparr>)"

text \<open>The constructor, on the tables found in the database file and the block files found in the directory.\<close>

definition open_database :: "db_config \<Rightarrow> (int \<times> bytes) list \<Rightarrow> chain_db \<Rightarrow> chain_db result" where
  "open_database C fs tables =
     (if c_keep C < 1 then Inl ValueError
      else bindR (validate_storage_mode C (tables\<lparr>db_store := open_store (c_mode C) fs\<rparr>)) (\<lambda>db.
        Inr (reconcile_block_store C db)))"

definition clear_db :: "db_config \<Rightarrow> chain_db \<Rightarrow> chain_db result" where
  "clear_db C db = validate_storage_mode C (empty_tables (snd (store_clear (c_mode C) (db_store db))))"

section \<open>Unspent outputs\<close>

definition sqlite_int :: "int \<Rightarrow> bool" where
  "sqlite_int v \<longleftrightarrow> - (2 ^ 63) \<le> v \<and> v < 2 ^ 63"

definition insert_utxo :: "(bytes \<Rightarrow> utxo option) \<Rightarrow> utxo \<Rightarrow> (bytes \<Rightarrow> utxo option) result" where
  "insert_utxo us u =
     (if \<not> sqlite_int (u_amount u) \<or> \<not> sqlite_int (u_block_height u) then Inl OverflowError
      else if us (u_outpoint u) \<noteq> None then Inl IntegrityError
      else Inr (us(u_outpoint u \<mapsto> u)))"

definition delete_utxos :: "(bytes \<Rightarrow> utxo option) \<Rightarrow> bytes list \<Rightarrow> bytes \<Rightarrow> utxo option" where
  "delete_utxos us outpoints = (\<lambda>op. if op \<in> set outpoints then None else us op)"

definition add_utxo :: "utxo \<Rightarrow> chain_db \<Rightarrow> chain_db result" where
  "add_utxo u db = bindR (insert_utxo (db_utxos db) u) (\<lambda>us. Inr (db\<lparr>db_utxos := us\<rparr>))"

definition remote_utxo :: "core_rpc \<Rightarrow> bytes \<Rightarrow> utxo option result" where
  "remote_utxo rpc outpoint =
     (if length outpoint \<noteq> 36 then Inl ValueError
      else bindR (rpc_utxo rpc outpoint) (\<lambda>r. Inr (map_option (\<lambda>(amount, scriptpubkey, height, coinbase).
        \<lparr>u_outpoint = outpoint, u_amount = amount, u_scriptpubkey = scriptpubkey, u_block_height = height,
         u_is_coinbase = coinbase\<rparr>) r)))"

definition get_utxo :: "db_config \<Rightarrow> chain_db \<Rightarrow> bytes \<Rightarrow> utxo option result" where
  "get_utxo C db outpoint = (if c_mode C = REMOTE then remote_utxo (c_rpc C) outpoint else Inr (db_utxos db outpoint))"

definition remove_utxo :: "bytes \<Rightarrow> chain_db \<Rightarrow> chain_db" where
  "remove_utxo outpoint db = db\<lparr>db_utxos := delete_utxos (db_utxos db) [outpoint]\<rparr>"

definition count_utxos :: "chain_db \<Rightarrow> nat" where
  "count_utxos db = card (dom (db_utxos db))"

fun get_utxos_from :: "db_config \<Rightarrow> chain_db \<Rightarrow> tx_in list \<Rightarrow> utxo list option result" where
  "get_utxos_from C db [] = Inr (Some [])"
| "get_utxos_from C db (i # is) =
     bindR (txin_outpoint i) (\<lambda>op. bindR (get_utxo C db op) (\<lambda>u.
       case u of None \<Rightarrow> Inr None
       | Some u \<Rightarrow> bindR (get_utxos_from C db is) (\<lambda>us. Inr (map_option (Cons u) us))))"

definition get_utxos :: "db_config \<Rightarrow> chain_db \<Rightarrow> tx \<Rightarrow> utxo list option result" where
  "get_utxos C db t = get_utxos_from C db (t_inputs t)"

section \<open>The block index\<close>

definition lookup_index :: "index_entry list \<Rightarrow> bytes \<Rightarrow> index_entry option" where
  "lookup_index rows h = find (\<lambda>e. ie_hash e = h) rows"

definition get_block_index :: "chain_db \<Rightarrow> bytes \<Rightarrow> index_entry option" where
  "get_block_index db h = lookup_index (db_index db) h"

definition replace_entry :: "index_entry \<Rightarrow> index_entry list \<Rightarrow> index_entry list" where
  "replace_entry e rows = filter (\<lambda>r. ie_hash r \<noteq> ie_hash e) rows @ [e]"

definition CHAINWORK_BYTES :: nat where "CHAINWORK_BYTES = 32"

definition add_block_index_entry ::
  "hashes \<Rightarrow> block_header \<Rightarrow> int \<Rightarrow> bool \<Rightarrow> block_status \<Rightarrow> chain_db \<Rightarrow> chain_db result" where
  "add_block_index_entry H header height active status db =
     (let parent_entry = get_block_index db (bh_prev header) in
      bindR (calc_block_work (bh_bits header)) (\<lambda>work.
        let chainwork = (case parent_entry of None \<Rightarrow> 0 | Some p \<Rightarrow> ie_chainwork p) + work in
        bindR (header_id H header) (\<lambda>bid.
        bindR (to_bytes_be CHAINWORK_BYTES work) (\<lambda>_.
        bindR (to_bytes_be CHAINWORK_BYTES chainwork) (\<lambda>_.
          Inr (db\<lparr>db_index := replace_entry
            \<lparr>ie_hash = bid, ie_prev = bh_prev header, ie_height = height, ie_bits = bh_bits header,
             ie_time = bh_time header, ie_work = work, ie_chainwork = chainwork, ie_active = active,
             ie_status = status\<rparr> (db_index db)\<rparr>))))))"

definition add_block_index :: "hashes \<Rightarrow> block \<Rightarrow> int \<Rightarrow> bool \<Rightarrow> chain_db \<Rightarrow> chain_db result" where
  "add_block_index H b height active db = add_block_index_entry H (get_header b) height active STATUS_VALID db"

definition add_block_header :: "hashes \<Rightarrow> block_header \<Rightarrow> int \<Rightarrow> chain_db \<Rightarrow> chain_db result" where
  "add_block_header H header height db = add_block_index_entry H header height False STATUS_HEADERS_ONLY db"

text \<open>\<^verbatim>\<open>ORDER BY ... DESC LIMIT 1\<close>: the first row that no other exceeds.\<close>

fun first_best :: "('a \<Rightarrow> 'a \<Rightarrow> bool) \<Rightarrow> 'a list \<Rightarrow> 'a option" where
  "first_best better [] = None"
| "first_best better (x # xs) =
     (case first_best better xs of None \<Rightarrow> Some x | Some y \<Rightarrow> if better y x then Some y else Some x)"

definition more_work :: "index_entry \<Rightarrow> index_entry \<Rightarrow> bool" where
  "more_work a b \<longleftrightarrow> ie_chainwork a > ie_chainwork b
     \<or> ie_chainwork a = ie_chainwork b \<and> ie_height a > ie_height b"

definition get_best_header :: "chain_db \<Rightarrow> index_entry option" where
  "get_best_header db = first_best more_work (filter (\<lambda>e. ie_status e \<noteq> STATUS_INVALID) (db_index db))"

definition get_active_tip :: "chain_db \<Rightarrow> index_entry option" where
  "get_active_tip db = first_best (\<lambda>a b. ie_height a > ie_height b) (filter ie_active (db_index db))"

text \<open>
  The walk back over the index. A walk longer than the index has met an entry twice and never ends, so the
  number of its rows is enough fuel.
\<close>

fun walk_back :: "chain_db \<Rightarrow> int \<Rightarrow> nat \<Rightarrow> index_entry \<Rightarrow> index_entry option result" where
  "walk_back db height 0 e = (if ie_height e > height then Inl NoReturn else Inr (Some e))"
| "walk_back db height (Suc fuel) e =
     (if ie_height e > height then
        (case get_block_index db (ie_prev e) of None \<Rightarrow> Inr None | Some p \<Rightarrow> walk_back db height fuel p)
      else Inr (Some e))"

definition get_block_index_ancestor :: "chain_db \<Rightarrow> bytes \<Rightarrow> int \<Rightarrow> index_entry option result" where
  "get_block_index_ancestor db h height =
     (case get_block_index db h of
        None \<Rightarrow> Inr None
      | Some e \<Rightarrow> if height < 0 \<or> height > ie_height e then Inr None
                  else walk_back db height (length (db_index db)) e)"

definition set_block_active ::
  "bytes \<Rightarrow> bool \<Rightarrow> block_status option \<Rightarrow> chain_db \<Rightarrow> chain_db result" where
  "set_block_active h active status db =
     (if get_block_index db h = None then Inl KeyError
      else Inr (db\<lparr>db_index := map (\<lambda>e. if ie_hash e = h
        then e\<lparr>ie_active := active, ie_status := (case status of None \<Rightarrow> ie_status e | Some s \<Rightarrow> s)\<rparr> else e) (db_index db)\<rparr>))"

text \<open>
  The recursive query: each round adds the children of what was found; after as many rounds as there are rows
  nothing new can come. (On an index with a cycle, which hashes exclude, the query would not end.)
\<close>

fun branch_rounds :: "index_entry list \<Rightarrow> nat \<Rightarrow> bytes list \<Rightarrow> bytes list" where
  "branch_rounds rows 0 found = found"
| "branch_rounds rows (Suc n) found =
     branch_rounds rows n (found @ map ie_hash (filter (\<lambda>e. ie_prev e \<in> set found \<and> ie_hash e \<notin> set found) rows))"

definition invalid_branch :: "index_entry list \<Rightarrow> bytes \<Rightarrow> bytes list" where
  "invalid_branch rows h =
     branch_rounds rows (length rows) (map ie_hash (filter (\<lambda>e. ie_hash e = h) rows))"

definition mark_block_branch_invalid :: "bytes \<Rightarrow> chain_db \<Rightarrow> chain_db" where
  "mark_block_branch_invalid h db =
     (let branch = invalid_branch (db_index db) h in
      db\<lparr>db_index := map (\<lambda>e. if ie_hash e \<in> set branch then e\<lparr>ie_active := False, ie_status := STATUS_INVALID\<rparr> else e)
        (db_index db)\<rparr>)"

section \<open>Bodies and undo data\<close>

definition insert_block_body ::
  "hashes \<Rightarrow> block \<Rightarrow> int \<Rightarrow> location \<Rightarrow> chain_db \<Rightarrow> chain_db result" where
  "insert_block_body H b height loc db =
     bindR (block_id H b) (\<lambda>bid.
       if find (\<lambda>r. br_hash r = bid) (db_blocks db) \<noteq> None then Inl IntegrityError
       else Inr (db\<lparr>db_blocks := db_blocks db @
         [\<lparr>br_hash = bid, br_height = height, br_prev = b_prev b, br_time = b_time b, br_loc = loc\<rparr>]\<rparr>))"

definition add_block_undo :: "bytes \<Rightarrow> block_undo \<Rightarrow> chain_db \<Rightarrow> chain_db result" where
  "add_block_undo h undo db =
     (if \<not> list_all (\<lambda>u. sqlite_int (u_amount u) \<and> sqlite_int (u_block_height u)) (un_spent undo) then Inl OverflowError
      else if un_spent undo \<noteq> [] \<and> db_undo_spent db h \<noteq> [] then Inl IntegrityError
      else if un_created undo \<noteq> [] \<and> db_undo_created db h \<noteq> [] then Inl IntegrityError
      else Inr (db\<lparr>db_undo_spent := (db_undo_spent db)(h := db_undo_spent db h @ un_spent undo),
                   db_undo_created := (db_undo_created db)(h := db_undo_created db h @ un_created undo)\<rparr>))"

definition delete_block_undo :: "bytes \<Rightarrow> chain_db \<Rightarrow> chain_db" where
  "delete_block_undo h db = db\<lparr>db_undo_spent := (db_undo_spent db)(h := []), db_undo_created := (db_undo_created db)(h := [])\<rparr>"

definition get_block_undo :: "chain_db \<Rightarrow> bytes \<Rightarrow> block_undo option" where
  "get_block_undo db h =
     (if db_undo_spent db h = [] \<and> db_undo_created db h = [] then None
      else Some \<lparr>un_spent = db_undo_spent db h, un_created = db_undo_created db h\<rparr>)"

definition replace_block_undo :: "bytes \<Rightarrow> block_undo \<Rightarrow> chain_db \<Rightarrow> chain_db result" where
  "replace_block_undo h undo db = add_block_undo h undo (delete_block_undo h db)"

definition apply_utxo_delta :: "bytes list \<Rightarrow> utxo list \<Rightarrow> chain_db \<Rightarrow> chain_db result" where
  "apply_utxo_delta spent_outpoints created_utxos db =
     bindR (foldR insert_utxo (delete_utxos (db_utxos db) spent_outpoints) created_utxos) (\<lambda>us.
       Inr (db\<lparr>db_utxos := us\<rparr>))"

section \<open>Adding, connecting and disconnecting blocks\<close>

text \<open>
  A body is written first; when the rest raises, the tables are as before and the store takes the body back.
\<close>

definition with_body ::
  "db_config \<Rightarrow> bytes \<Rightarrow> (location \<Rightarrow> chain_db \<Rightarrow> chain_db result) \<Rightarrow> (chain_db, unit) action" where
  "with_body C block_bytes f db =
     (let (loc, s1) = store_write (c_mode C) block_bytes (db_store db); db1 = db\<lparr>db_store := s1\<rparr> in
      case f loc db1 of
        Inl e \<Rightarrow> (Inl e, db1\<lparr>db_store := snd (store_rollback (c_mode C) loc s1)\<rparr>)
      | Inr db2 \<Rightarrow> (Inr (), db2))"

definition db_add_block ::
  "db_config \<Rightarrow> hashes \<Rightarrow> block \<Rightarrow> int \<Rightarrow> block_undo option \<Rightarrow> bool \<Rightarrow> block_status \<Rightarrow> (chain_db, unit) action" where
  "db_add_block C H b height undo active status =
     bindS (liftS (block_to_bytes b)) (\<lambda>block_bytes.
     bindS (liftS (block_id H b)) (\<lambda>bid.
       with_body C block_bytes (\<lambda>loc db.
         bindR (insert_block_body H b height loc db) (\<lambda>db1.
         bindR (add_block_index_entry H (get_header b) height active status db1) (\<lambda>db2.
           case undo of None \<Rightarrow> Inr db2 | Some u \<Rightarrow> add_block_undo bid u db2)))))"

definition connect_block ::
  "db_config \<Rightarrow> hashes \<Rightarrow> block \<Rightarrow> int \<Rightarrow> block_undo \<Rightarrow> bytes list \<Rightarrow> utxo list \<Rightarrow> (chain_db, unit) action" where
  "connect_block C H b height undo spent_outpoints created_utxos =
     bindS (liftS (block_to_bytes b)) (\<lambda>block_bytes.
     bindS (liftS (block_id H b)) (\<lambda>bid.
       with_body C block_bytes (\<lambda>loc db.
         bindR (insert_block_body H b height loc db) (\<lambda>db1.
         bindR (add_block_index_entry H (get_header b) height True STATUS_VALID db1) (\<lambda>db2.
         bindR (add_block_undo bid undo db2) (\<lambda>db3.
           apply_utxo_delta spent_outpoints created_utxos db3))))))"

definition disconnect_chain_block ::
  "bytes \<Rightarrow> block_undo \<Rightarrow> block_status \<Rightarrow> chain_db \<Rightarrow> chain_db result" where
  "disconnect_chain_block h undo status db =
     bindR (foldR insert_utxo
       (delete_utxos (delete_utxos (db_utxos db) (un_created undo)) (map u_outpoint (un_spent undo))) (un_spent undo))
       (\<lambda>us. set_block_active h False (Some status) (db\<lparr>db_utxos := us\<rparr>))"

definition activate_chain_block ::
  "bytes \<Rightarrow> block_undo \<Rightarrow> bytes list \<Rightarrow> utxo list \<Rightarrow> chain_db \<Rightarrow> chain_db result" where
  "activate_chain_block h undo spent_outpoints created_utxos db =
     bindR (add_block_undo h undo (delete_block_undo h db)) (\<lambda>db1.
     bindR (apply_utxo_delta spent_outpoints created_utxos db1) (\<lambda>db2.
       set_block_active h True (Some STATUS_VALID) db2))"

section \<open>Bodies: reading and pruning\<close>

definition find_body :: "chain_db \<Rightarrow> bytes \<Rightarrow> block_row option" where
  "find_body db h = find (\<lambda>r. br_hash r = h) (db_blocks db)"

definition has_block_body :: "chain_db \<Rightarrow> bytes \<Rightarrow> bool" where
  "has_block_body db h \<longleftrightarrow> find_body db h \<noteq> None"

definition parse_body :: "hashes \<Rightarrow> int \<Rightarrow> bytes option \<Rightarrow> block option result" where
  "parse_body H now body =
     (case body of None \<Rightarrow> Inr None | Some bs \<Rightarrow> bindR (block_from_bytes H now bs) (\<lambda>(b, _). Inr (Some b)))"

definition db_get_block :: "db_config \<Rightarrow> hashes \<Rightarrow> int \<Rightarrow> chain_db \<Rightarrow> bytes \<Rightarrow> block option result" where
  "db_get_block C H now db h =
     bindR (store_read (c_mode C) (c_rpc C) h (map_option br_loc (find_body db h)) (db_store db)) (parse_body H now)"

definition entry_active :: "chain_db \<Rightarrow> bytes \<Rightarrow> bool" where
  "entry_active db h = (case get_block_index db h of None \<Rightarrow> False | Some e \<Rightarrow> ie_active e)"

definition db_get_block_at_height :: "db_config \<Rightarrow> hashes \<Rightarrow> int \<Rightarrow> chain_db \<Rightarrow> int \<Rightarrow> block option result" where
  "db_get_block_at_height C H now db height =
     (case find (\<lambda>r. br_height r = height \<and> entry_active db (br_hash r)) (db_blocks db) of
        Some row \<Rightarrow>
          bindR (store_read (c_mode C) (c_rpc C) (br_hash row) (Some (br_loc row)) (db_store db)) (parse_body H now)
      | None \<Rightarrow> bindR (store_block_hash (c_mode C) (c_rpc C) height) (\<lambda>block_hash.
          case block_hash of
            None \<Rightarrow> Inr None
          | Some h \<Rightarrow> bindR (store_read (c_mode C) (c_rpc C) h None (db_store db)) (parse_body H now)))"

definition get_chain_height :: "chain_db \<Rightarrow> int" where
  "get_chain_height db = (case get_active_tip db of None \<Rightarrow> - 1 | Some e \<Rightarrow> ie_height e)"

definition get_latest_block :: "db_config \<Rightarrow> hashes \<Rightarrow> int \<Rightarrow> chain_db \<Rightarrow> block option result" where
  "get_latest_block C H now db =
     (let height = get_chain_height db in
      if height < 0 then Inr None else db_get_block_at_height C H now db height)"

definition get_remote_block_header :: "db_config \<Rightarrow> int \<Rightarrow> bytes \<Rightarrow> block_header option result" where
  "get_remote_block_header C now h =
     (if c_mode C \<noteq> REMOTE then Inr None
      else bindR (rpc_header (c_rpc C) h) (\<lambda>bs.
        case bs of None \<Rightarrow> Inr None
        | Some b \<Rightarrow> bindR (header_from_bytes now b) (\<lambda>(header, _). Inr (Some header))))"

definition prune_blocks :: "db_config \<Rightarrow> int \<Rightarrow> chain_db \<Rightarrow> int list \<times> chain_db" where
  "prune_blocks C tip_height db =
     (if c_mode C \<noteq> PRUNED then ([], db)
      else
        let cutoff_height = tip_height - c_keep C in
        if cutoff_height < 0 then ([], db)
        else
          let rows = sort_key br_height (filter (\<lambda>r. br_height r \<le> cutoff_height) (db_blocks db)) in
          if rows = [] then ([], db)
          else
            (map br_height rows,
             db\<lparr>db_undo_spent := (\<lambda>h. if h \<in> set (map br_hash rows) then [] else db_undo_spent db h),
                db_undo_created := (\<lambda>h. if h \<in> set (map br_hash rows) then [] else db_undo_created db h),
                db_blocks := filter (\<lambda>r. \<not> br_height r \<le> cutoff_height) (db_blocks db),
                db_store := fold (\<lambda>r s. snd (store_delete (c_mode C) (br_loc r) s)) rows (db_store db)\<rparr>))"

end
