(* ===== verification/Tx_Validation.thy ===== *)
theory Tx_Validation
  imports Script_Engine Script_Keys Blocks
begin

unbundle bit_operations_syntax

text \<open>
  \<^verbatim>\<open>src/src/tx/validation.py\<close>: the checks shared by block and mempool validation of a transaction
  whose spent outputs are loaded. The set of outpoints already spent in a block is mutated by the code: it is
  passed in and returned. \<^verbatim>\<open>logger.error\<close> is display, but building a message with the txid can raise.
\<close>

section \<open>The code\<close>

definition MAX_MONEY :: int where "MAX_MONEY = 21000000 * 100000000"
definition MAX_TX_WEIGHT :: int where "MAX_TX_WEIGHT = 4000000"

record tx_validation_context =
  v_next_height :: "int option"
  v_block_timestamp :: "int option"
  v_get_block_at_height :: "(int \<Rightarrow> block option result) option"
  v_coinbase_maturity :: "int option"
  v_check_locktime :: bool
  v_check_relative_locktime :: bool
  v_validate_scripts :: bool
  v_script_validator :: "(loaded_tx \<Rightarrow> bool result) option"
  v_current_time :: int

definition default_validation_context :: "int \<Rightarrow> tx_validation_context" where
  "default_validation_context now =
     \<lparr>v_next_height = None, v_block_timestamp = None, v_get_block_at_height = None, v_coinbase_maturity = None,
      v_check_locktime = False, v_check_relative_locktime = False, v_validate_scripts = True,
      v_script_validator = None, v_current_time = now\<rparr>"

text \<open>A rejection whose message shows the txid.\<close>

definition reject_tx :: "hashes \<Rightarrow> tx \<Rightarrow> bool result" where
  "reject_tx H t = bindR (tx_txid H t) (\<lambda>_. Inr False)"

definition amount_ok :: "int \<Rightarrow> bool" where
  "amount_ok a \<longleftrightarrow> \<not> a < 0 \<and> \<not> a > MAX_MONEY"

definition validate_tx_structure :: "loaded_tx \<Rightarrow> bool" where
  "validate_tx_structure l =
     (let t = l_tx l in
      if t_inputs t = [] then False
      else if t_outputs t = [] then False
      else if \<not> list_all (\<lambda>out. amount_ok (out_amount out)) (t_outputs t) then False
      else if output_total l > MAX_MONEY then False
      else if \<not> list_all (\<lambda>u. amount_ok (u_amount u)) (l_utxos l) then False
      else if tx_is_segwit t \<and> length (t_witness t) \<noteq> length (t_inputs t) then False
      else case tx_wu t of
          Inl _ \<Rightarrow> False
        | Inr tx_weight \<Rightarrow> \<not> tx_weight > MAX_TX_WEIGHT)"

definition validate_absolute_locktime :: "hashes \<Rightarrow> loaded_tx \<Rightarrow> tx_validation_context \<Rightarrow> bool result" where
  "validate_absolute_locktime H l ctx =
     (let t = l_tx l in
      if t_locktime t = 0 \<or> list_all (\<lambda>i. in_sequence i = 0xffffffff) (t_inputs t) then Inr True
      else if t_locktime t < 500000000 then
        (case v_next_height ctx of
           None \<Rightarrow> Inr True
         | Some next_height \<Rightarrow> if t_locktime t \<ge> next_height then reject_tx H t else Inr True)
      else if t_locktime t > v_current_time ctx then reject_tx H t
      else Inr True)"

definition validate_relative_locktime :: "int \<Rightarrow> utxo \<Rightarrow> tx_validation_context \<Rightarrow> bool result" where
  "validate_relative_locktime sequence u ctx =
     (if sequence AND 2 ^ 31 \<noteq> 0 then Inr True
      else if sequence AND 2 ^ 22 \<noteq> 0 then
        (case (v_block_timestamp ctx, v_get_block_at_height ctx) of
           (Some block_timestamp, Some get_block_at_height) \<Rightarrow>
             let required_seconds = (sequence AND 0xFFFF) * 512 in
             bindR (get_block_at_height (u_block_height u)) (\<lambda>utxo_block.
               case utxo_block of
                 None \<Rightarrow> Inr True
               | Some b \<Rightarrow> Inr (\<not> block_timestamp - b_time b < required_seconds))
         | _ \<Rightarrow> Inr True)
      else
        (case v_next_height ctx of
           None \<Rightarrow> Inr True
         | Some next_height \<Rightarrow>
             let required_blocks = sequence AND 0xFFFF in
             Inr (\<not> next_height - u_block_height u < required_blocks)))"

definition coinbase_immature :: "utxo \<Rightarrow> tx_validation_context \<Rightarrow> bool" where
  "coinbase_immature u ctx =
     (case (v_coinbase_maturity ctx, v_next_height ctx) of
        (Some maturity, Some next_height) \<Rightarrow> u_is_coinbase u \<and> next_height - u_block_height u < maturity
      | _ \<Rightarrow> False)"

text \<open>
  The loop over the inputs: \<open>i\<close> is the index, \<open>local_seen\<close> the outpoints of this transaction,
  \<open>seen_outpoints\<close> those of the block, when there is one.
\<close>

fun validate_inputs ::
  "loaded_tx \<Rightarrow> tx_validation_context \<Rightarrow> nat \<Rightarrow> tx_in list \<Rightarrow> bytes set \<Rightarrow> bytes set option \<Rightarrow>
     (bool \<times> bytes set option) result" where
  "validate_inputs l ctx i [] local_seen seen_outpoints = Inr (True, seen_outpoints)"
| "validate_inputs l ctx i (txin # txins) local_seen seen_outpoints =
     bindR (utxo_for_input l i) (\<lambda>u.
     bindR (txin_outpoint txin) (\<lambda>outpoint.
       if outpoint \<in> local_seen then Inr (False, seen_outpoints)
       else
         let local_seen = insert outpoint local_seen in
         if (case seen_outpoints of None \<Rightarrow> False | Some seen \<Rightarrow> outpoint \<in> seen) then Inr (False, seen_outpoints)
         else
           let seen_outpoints = map_option (insert outpoint) seen_outpoints in
           if coinbase_immature u ctx then Inr (False, seen_outpoints)
           else
             bindR (if v_check_relative_locktime ctx
                    then validate_relative_locktime (in_sequence txin) u ctx else Inr True) (\<lambda>ok.
               if \<not> ok then Inr (False, seen_outpoints)
               else validate_inputs l ctx (Suc i) txins local_seen seen_outpoints)))"

section \<open>Scripts\<close>

definition is_native_segwit :: "script_obj \<Rightarrow> bool" where
  "is_native_segwit s \<longleftrightarrow> sc_kind s = P2WPKH \<or> sc_kind s = P2WSH \<or> sc_kind s = P2TR"

text \<open>One input; \<^verbatim>\<open>continue\<close> is the answer \<open>True\<close>. The engine is new for every input.\<close>

definition validate_input_script ::
  "hashes \<Rightarrow> der_decoder \<Rightarrow> loaded_tx \<Rightarrow> int \<Rightarrow> nat \<Rightarrow> tx_in \<Rightarrow> bool result" where
  "validate_input_script H D l flags i txin =
     bindR (utxo_for_input l i) (\<lambda>spent_utxo.
     bindR (classify_scriptpubkey (u_scriptpubkey spent_utxo)) (\<lambda>scriptpubkey.
       let native = is_native_segwit scriptpubkey in
       bindR (if native then Inr None else bindR (classify_scriptsig (in_scriptsig txin)) (\<lambda>s. Inr (Some s))) (\<lambda>scriptsig.
         let nested = (case scriptsig of None \<Rightarrow> False | Some s \<Rightarrow> sc_kind s = P2SH_P2WPKH) in
         if native \<and> \<not> flag_on flags FLAG_WITNESS then Inr True
         else if sc_kind scriptpubkey = P2TR \<and> \<not> flag_on flags FLAG_TAPROOT then Inr True
         else
           bindR (new_validation_input (l_tx l) (int i) (l_utxos l) flags) (\<lambda>v.
             let exec_ctx = execution_context v None (if native \<or> nested then WITNESS_V0 else BASE) None in
             bindR (case scriptsig of
                 None \<Rightarrow> validate_segwit H D scriptpubkey (Some exec_ctx) new_engine
               | Some s \<Rightarrow>
                   if sc_kind scriptpubkey = P2SH \<and> \<not> flag_on flags FLAG_P2SH
                   then validate_script H D (sc_bytes s @ sc_bytes scriptpubkey) (Some exec_ctx) False new_engine
                   else validate_script_pair H D scriptpubkey s (Some exec_ctx) new_engine)
               (\<lambda>(ok, _). Inr ok)))))"

fun validate_scripts_from ::
  "hashes \<Rightarrow> der_decoder \<Rightarrow> loaded_tx \<Rightarrow> int \<Rightarrow> nat \<Rightarrow> tx_in list \<Rightarrow> bool result" where
  "validate_scripts_from H D l flags i [] = Inr True"
| "validate_scripts_from H D l flags i (txin # txins) =
     bindR (validate_input_script H D l flags i txin) (\<lambda>ok.
       if \<not> ok then Inr False else validate_scripts_from H D l flags (Suc i) txins)"

definition validate_tx_scripts :: "hashes \<Rightarrow> der_decoder \<Rightarrow> loaded_tx \<Rightarrow> int \<Rightarrow> bool result" where
  "validate_tx_scripts H D l flags = validate_scripts_from H D l flags 0 (t_inputs (l_tx l))"

definition validate_loaded_tx ::
  "hashes \<Rightarrow> der_decoder \<Rightarrow> loaded_tx \<Rightarrow> tx_validation_context \<Rightarrow> bytes set option \<Rightarrow>
     (bool \<times> bytes set option) result" where
  "validate_loaded_tx H D l ctx seen =
     (let t = l_tx l in
      if \<not> validate_tx_structure l then Inr (False, seen)
      else
        bindR (tx_is_coinbase t) (\<lambda>coinbase.
          if coinbase then Inr (False, seen)
          else case tx_fee H l of
              Inl _ \<Rightarrow> bindR (reject_tx H t) (\<lambda>b. Inr (b, seen))
            | Inr _ \<Rightarrow>
                bindR (if v_check_locktime ctx then validate_absolute_locktime H l ctx else Inr True) (\<lambda>unlocked.
                  if \<not> unlocked then Inr (False, seen)
                  else
                    bindR (validate_inputs l ctx 0 (t_inputs t) {} seen) (\<lambda>(ok, seen1).
                      if \<not> ok then Inr (False, seen1)
                      else if \<not> v_validate_scripts ctx then Inr (True, seen1)
                      else
                        bindR (case v_script_validator ctx of
                                 Some script_validator \<Rightarrow> script_validator l
                               | None \<Rightarrow> validate_tx_scripts H D l ALL_CONSENSUS_FLAGS) (\<lambda>valid.
                          if \<not> valid then bindR (reject_tx H t) (\<lambda>b. Inr (b, seen1))
                          else Inr (True, seen1))))))"

section \<open>What an accepted transaction satisfies\<close>

lemma validate_inputs_sound:
  assumes "validate_inputs l ctx i txins local seen = Inr (True, seen')"
  shows "\<exists>os. mapR txin_outpoint txins = Inr os \<and> distinct os \<and> set os \<inter> local = {}
    \<and> (\<forall>s. seen = Some s \<longrightarrow> set os \<inter> s = {}) \<and> seen' = map_option (\<lambda>s. s \<union> set os) seen
    \<and> (\<forall>j < length txins. \<exists>u. utxo_for_input l (i + j) = Inr u \<and> \<not> coinbase_immature u ctx
         \<and> (v_check_relative_locktime ctx \<longrightarrow> validate_relative_locktime (in_sequence (txins ! j)) u ctx = Inr True))"
  using assms
proof (induction txins arbitrary: i local seen)
  case Nil
  then show ?case by (cases seen) auto
next
  case (Cons txin txins)
  obtain u o1 ok where u: "utxo_for_input l i = Inr u" and o1: "txin_outpoint txin = Inr o1"
    and new: "o1 \<notin> local" "\<And>s. seen = Some s \<Longrightarrow> o1 \<notin> s" and mature: "\<not> coinbase_immature u ctx"
    and rel: "(if v_check_relative_locktime ctx then validate_relative_locktime (in_sequence txin) u ctx else Inr True) = Inr True"
    and rest: "validate_inputs l ctx (Suc i) txins (insert o1 local) (map_option (insert o1) seen) = Inr (True, seen')"
    using Cons.prems by (cases seen) (auto simp: Let_def split: if_split_asm)
  from Cons.IH [OF rest] obtain os where os: "mapR txin_outpoint txins = Inr os" "distinct os"
    "set os \<inter> insert o1 local = {}" "\<forall>s. map_option (insert o1) seen = Some s \<longrightarrow> set os \<inter> s = {}"
    "seen' = map_option (\<lambda>s. s \<union> set os) (map_option (insert o1) seen)"
    "\<forall>j < length txins. \<exists>u. utxo_for_input l (Suc i + j) = Inr u \<and> \<not> coinbase_immature u ctx
         \<and> (v_check_relative_locktime ctx \<longrightarrow> validate_relative_locktime (in_sequence (txins ! j)) u ctx = Inr True)"
    by blast
  have "\<exists>u. utxo_for_input l (i + j) = Inr u \<and> \<not> coinbase_immature u ctx
         \<and> (v_check_relative_locktime ctx \<longrightarrow> validate_relative_locktime (in_sequence ((txin # txins) ! j)) u ctx = Inr True)"
    if "j < length (txin # txins)" for j
  proof (cases j)
    case 0
    then show ?thesis using u mature rel by auto
  next
    case (Suc k)
    then show ?thesis using os(6) that by auto
  qed
  moreover have "mapR txin_outpoint (txin # txins) = Inr (o1 # os)" using o1 os(1) by simp
  moreover have "distinct (o1 # os)" "set (o1 # os) \<inter> local = {}" using os(2,3) new(1) by auto
  moreover have "\<forall>s. seen = Some s \<longrightarrow> set (o1 # os) \<inter> s = {}" using os(4) new(2) by auto
  moreover have "seen' = map_option (\<lambda>s. s \<union> set (o1 # os)) seen" using os(5) by (cases seen) auto
  ultimately show ?case by blast
qed

lemma small_sequence_bits:
  assumes "0 \<le> k" "k < (2::int) ^ 16"
  shows "k AND 2 ^ 31 = 0" "k AND 2 ^ 22 = 0" "k AND 0xFFFF = k"
proof -
  have m: "k mod 2 ^ 16 = k" using assms by simp
  have "k AND 2 ^ n = 0" if "16 \<le> n" for n
  proof (rule bit_eqI)
    fix j
    show "bit (k AND 2 ^ n) j = bit (0::int) j"
      using m that by (metis bit_0_eq bit_and_iff bit_exp_iff bit_take_bit_iff bot_apply bot_bool_def not_le take_bit_eq_mod)
  qed
  from this [of 31] this [of 22] show "k AND 2 ^ 31 = 0" "k AND 2 ^ 22 = 0" by simp_all
  have "k AND mask 16 = k" using assms by (simp add: take_bit_int_eq_self flip: take_bit_eq_mask)
  then show "k AND 0xFFFF = k" by (simp add: mask_eq_exp_minus_1)
qed

lemma validate_loaded_tx_steps:
  assumes "validate_loaded_tx H D l ctx seen = Inr (True, seen')"
  shows "validate_tx_structure l \<and> tx_is_coinbase (l_tx l) = Inr False \<and> (\<exists>f. tx_fee H l = Inr f)
    \<and> (v_check_locktime ctx \<longrightarrow> validate_absolute_locktime H l ctx = Inr True)
    \<and> validate_inputs l ctx 0 (t_inputs (l_tx l)) {} seen = Inr (True, seen')
    \<and> (v_validate_scripts ctx \<longrightarrow> (case v_script_validator ctx of
         Some script_validator \<Rightarrow> script_validator l
       | None \<Rightarrow> validate_tx_scripts H D l ALL_CONSENSUS_FLAGS) = Inr True)"
  using assms unfolding validate_loaded_tx_def Let_def reject_tx_def
  by (auto split: if_split_asm sum.split_asm)

text \<open>
  C7: an accepted transaction spends each of its outpoints once and none that the block spent before, adds
  exactly its outpoints to the spent set, has non-negative amounts within the supply, creates no more than it
  spends, spends no immature coinbase output, and had its scripts accepted by the validator in charge.
\<close>

theorem accepted_tx_sound:
  assumes "validate_loaded_tx H D \<lparr>l_tx = t, l_utxos = us\<rparr> ctx seen = Inr (True, seen')"
  shows "\<exists>os. mapR txin_outpoint (t_inputs t) = Inr os \<and> os \<noteq> [] \<and> distinct os
    \<and> (\<forall>s. seen = Some s \<longrightarrow> set os \<inter> s = {} \<and> seen' = Some (s \<union> set os))
    \<and> (\<forall>out \<in> set (t_outputs t). 0 \<le> out_amount out)
    \<and> sum_list (map out_amount (t_outputs t)) \<le> min MAX_MONEY (sum_list (map u_amount us))
    \<and> (\<forall>i < length (t_inputs t). \<forall>m h. v_coinbase_maturity ctx = Some m \<longrightarrow> v_next_height ctx = Some h \<longrightarrow>
         u_is_coinbase (us ! i) \<longrightarrow> m \<le> h - u_block_height (us ! i))
    \<and> (\<forall>check. v_validate_scripts ctx \<longrightarrow> v_script_validator ctx = Some check \<longrightarrow> check \<lparr>l_tx = t, l_utxos = us\<rparr> = Inr True)"
proof -
  let ?l = "\<lparr>l_tx = t, l_utxos = us\<rparr>"
  note s = validate_loaded_tx_steps [OF assms]
  have "validate_inputs ?l ctx 0 (t_inputs t) {} seen = Inr (True, seen')" using s by simp
  from validate_inputs_sound [OF this] obtain os where os: "mapR txin_outpoint (t_inputs t) = Inr os" "distinct os"
    "\<forall>s. seen = Some s \<longrightarrow> set os \<inter> s = {}" "seen' = map_option (\<lambda>s. s \<union> set os) seen"
    "\<forall>j < length (t_inputs t). \<exists>u. utxo_for_input ?l j = Inr u \<and> \<not> coinbase_immature u ctx
       \<and> (v_check_relative_locktime ctx \<longrightarrow> validate_relative_locktime (in_sequence (t_inputs t ! j)) u ctx = Inr True)"
    unfolding add_0 by blast
  have "t_inputs t \<noteq> []" "list_all (\<lambda>out. amount_ok (out_amount out)) (t_outputs t)" "output_total ?l \<le> MAX_MONEY"
    using s by (auto simp: validate_tx_structure_def Let_def split: if_split_asm)
  moreover have "output_total ?l \<le> input_total ?l" using s by (auto simp: tx_fee_def Let_def split: if_split_asm)
  moreover have "m \<le> h - u_block_height (us ! i)"
    if "i < length (t_inputs t)" "v_coinbase_maturity ctx = Some m" "v_next_height ctx = Some h" "u_is_coinbase (us ! i)"
    for i m h
    using os(5) that by (auto simp: utxo_for_input_def result_iff coinbase_immature_def)
  ultimately show ?thesis using os s mapR_length [OF os(1)]
    by (intro exI [of _ os]) (auto simp: list_all_iff amount_ok_def input_total_def output_total_def)
qed

definition open_context :: tx_validation_context where
  "open_context = (default_validation_context 1700000000)\<lparr>v_next_height := Some 200, v_coinbase_maturity := Some 100,
     v_check_relative_locktime := True, v_script_validator := Some (\<lambda>_. Inr True)\<rparr>"

definition sample_utxo :: utxo where
  "sample_utxo = \<lparr>u_outpoint = replicate 32 7 @ [1, 0, 0, 0], u_amount = 6000, u_scriptpubkey = [0x51],
     u_block_height = 90, u_is_coinbase = True\<rparr>"

lemma sample_tx_weight: "\<exists>w. tx_wu sample_tx = Inr w \<and> w \<le> MAX_TX_WEIGHT"
proof -
  have "tx_wu sample_tx = Inr 255"
    by (simp add: tx_wu_def sample_tx_def tx_is_segwit_def txin_to_bytes_def txout_to_bytes_def witness_to_bytes_def
        serialize_data_def write_compact_size_def MAX_COMPACTSIZE_def to_bytes_le_def)
  then show ?thesis by (simp add: MAX_TX_WEIGHT_def)
qed

lemma sample_tx_outpoint: "txin_outpoint (t_inputs sample_tx ! 0) = Inr (replicate 32 7 @ [1, 0, 0, 0])"
  by (simp add: sample_tx_def txin_outpoint_def to_bytes_le_def eval_nat_numeral)

lemma sample_tx_structure: "validate_tx_structure \<lparr>l_tx = sample_tx, l_utxos = [sample_utxo]\<rparr>"
  using sample_tx_weight
  by (auto simp: validate_tx_structure_def sample_tx_def [THEN arg_cong [of _ _ t_inputs]]
      sample_tx_def [THEN arg_cong [of _ _ t_outputs]] sample_tx_def [THEN arg_cong [of _ _ t_witness]]
      output_total_def amount_ok_def MAX_MONEY_def sample_utxo_def)

lemma sample_tx_inputs: "t_inputs sample_tx = [t_inputs sample_tx ! 0]"
  by (simp add: sample_tx_def)

lemma sample_tx_accepted:
  "validate_loaded_tx H D \<lparr>l_tx = sample_tx, l_utxos = [sample_utxo]\<rparr> open_context (Some {[9]}) =
     Inr (True, Some {replicate 32 7 @ [1, 0, 0, 0], [9]})"
proof -
  let ?l = "\<lparr>l_tx = sample_tx, l_utxos = [sample_utxo]\<rparr>"
  have "tx_is_coinbase sample_tx = Inr False" by (simp add: tx_is_coinbase_def sample_tx_def index_at_def eval_nat_numeral)
  moreover have "tx_fee H ?l = Inr 1000"
    by (simp add: tx_fee_def input_total_def output_total_def sample_tx_def sample_utxo_def)
  moreover have "validate_relative_locktime (in_sequence (t_inputs sample_tx ! 0)) sample_utxo open_context = Inr True"
    by (simp add: validate_relative_locktime_def sample_tx_def)
  moreover have "\<not> coinbase_immature sample_utxo open_context"
    by (simp add: coinbase_immature_def open_context_def sample_utxo_def)
  moreover have "utxo_for_input ?l 0 = Inr sample_utxo" by (simp add: utxo_for_input_def index_at_def)
  moreover have "validate_inputs ?l open_context 0 [t_inputs sample_tx ! 0] {} (Some {[9]}) =
    Inr (True, Some {replicate 32 7 @ [1, 0, 0, 0], [9]})"
    using sample_tx_outpoint calculation(3-5) by simp
  ultimately show ?thesis using sample_tx_structure sample_tx_inputs
    by (simp add: validate_loaded_tx_def) (simp add: open_context_def default_validation_context_def)
qed


lemma accepted_tx_sound_witness:
  "\<exists>os. mapR txin_outpoint (t_inputs sample_tx) = Inr os \<and> os \<noteq> [] \<and> distinct os"
  using accepted_tx_sound [OF sample_tx_accepted [of pad_hashes "\<lambda>_. Inl ValueError"]]
  by (elim exE conjE) (intro exI conjI)

text \<open>
  once the caller asks for relative locks, a transaction of any version, 1 and 0 included, whose input has
  bits 31 and 22 of its sequence clear is accepted only after its number of confirmations reached the low
  sixteen bits, whereas BIP 68 gives these bits a meaning from version 2 on.
\<close>

theorem relative_locktime_any_version:
  assumes "v_check_relative_locktime ctx" and "v_next_height ctx = Some h"
    and "i < length (t_inputs t)" and "in_sequence (t_inputs t ! i) = k" and "0 \<le> k" and "k < 2 ^ 16"
    and "h - u_block_height (us ! i) < k"
  shows "validate_loaded_tx H D \<lparr>l_tx = t, l_utxos = us\<rparr> ctx seen \<noteq> Inr (True, seen')"
proof
  assume "validate_loaded_tx H D \<lparr>l_tx = t, l_utxos = us\<rparr> ctx seen = Inr (True, seen')"
  from validate_loaded_tx_steps [OF this]
  have "validate_inputs \<lparr>l_tx = t, l_utxos = us\<rparr> ctx 0 (t_inputs t) {} seen = Inr (True, seen')" by simp
  from validate_inputs_sound [OF this] assms(1,3)
  have "validate_relative_locktime (in_sequence (t_inputs t ! i)) (us ! i) ctx = Inr True"
    by (auto simp: utxo_for_input_def result_iff)
  moreover have "k AND 2 ^ 31 = 0" "k AND 2 ^ 22 = 0" "k AND 0xFFFF = k"
    using assms(5,6) small_sequence_bits by auto
  ultimately show False using assms(2,4,7) by (simp add: validate_relative_locktime_def Let_def)
qed

lemma relative_locktime_any_version_witness:
  "validate_loaded_tx pad_hashes (\<lambda>_. Inl ValueError)
     \<lparr>l_tx = sample_tx\<lparr>t_version := 1, t_inputs := [(t_inputs sample_tx ! 0)\<lparr>in_sequence := 111\<rparr>]\<rparr>,
      l_utxos = [sample_utxo]\<rparr> open_context None \<noteq> Inr (True, None)"
  by (rule relative_locktime_any_version [where i = 0 and k = 111 and h = 200])
    (simp_all add: open_context_def default_validation_context_def sample_utxo_def)

end
