(* ===== verification/Chain_Rules.thy ===== *)
theory Chain_Rules
  imports Chain_DB Tx_Validation Chain_Params
begin

unbundle bit_operations_syntax

text \<open>
  The rules of \<^verbatim>\<open>src/src/blockchain/blockchain.py\<close> that a block is judged by: subsidy, difficulty, proof of
  work, timestamps, signature operation cost, coinbase, witness commitment and transactions. They read the cached tip of
  the chain and the database and change neither. \<open>chain_env\<close> holds what does not change: parameters, digests,
  the DER reader, the configuration of the database, and the clock, which is read once per call here.
\<close>

section \<open>State\<close>

record chain_env =
  ce_params :: chain_params
  ce_hashes :: hashes
  ce_der :: der_decoder
  ce_db :: db_config
  ce_now :: int

text \<open>The cached state of \<^verbatim>\<open>Blockchain\<close> and its database.\<close>

record chain_view =
  bc_db :: chain_db
  bc_height :: int
  bc_tip :: "block option"
  bc_subsidy :: int
  bc_target :: bytes

definition COINBASE_MATURITY :: int where "COINBASE_MATURITY = 100"
definition MEDIAN_TIME_SPAN :: int where "MEDIAN_TIME_SPAN = 11"
definition MAX_FUTURE_BLOCK_TIME :: int where "MAX_FUTURE_BLOCK_TIME = 2 * 60 * 60"
definition MIN_COINBASE_SCRIPT_SIZE :: nat where "MIN_COINBASE_SCRIPT_SIZE = 2"
definition MAX_COINBASE_SCRIPT_SIZE :: nat where "MAX_COINBASE_SCRIPT_SIZE = 100"
definition MAX_BLOCK_SIGOP_COST :: int where "MAX_BLOCK_SIGOP_COST = 80000"
definition WITNESS_SCALE_FACTOR :: int where "WITNESS_SCALE_FACTOR = 4"
definition WITNESS_RESERVED_VALUE_SIZE :: nat where "WITNESS_RESERVED_VALUE_SIZE = 32"
definition WITNESS_COMMITMENT_HEADER :: bytes where "WITNESS_COMMITMENT_HEADER = [0x6a, 0x24, 0xaa, 0x21, 0xa9, 0xed]"
definition WITNESS_COMMITMENT_SIZE :: nat where "WITNESS_COMMITMENT_SIZE = length WITNESS_COMMITMENT_HEADER + 32"
definition TWO_WEEK_SECONDS :: int where "TWO_WEEK_SECONDS = 14 * 24 * 60 * 60"
definition HALVING_INTERVAL :: int where "HALVING_INTERVAL = 210000"
definition MAX_WEIGHT :: int where "MAX_WEIGHT = 4000000"
definition INITIAL_SUBSIDY :: int where "INITIAL_SUBSIDY = 5000000000"

section \<open>Subsidy and difficulty\<close>

definition calc_subsidy :: "int \<Rightarrow> int" where
  "calc_subsidy block_height =
     (let halvings = max 0 (block_height div HALVING_INTERVAL) in
      if halvings \<ge> 64 then 0 else drop_bit (nat halvings) INITIAL_SUBSIDY)"

definition calculate_retarget :: "bytes \<Rightarrow> int \<Rightarrow> int \<Rightarrow> int result" where
  "calculate_retarget current_target first_timestamp last_timestamp =
     (let actual_time = min (max (last_timestamp - first_timestamp) (TWO_WEEK_SECONDS div 4)) (TWO_WEEK_SECONDS * 4);
          new_target = be_val current_target * actual_time div TWO_WEEK_SECONDS in
      bindR (bits_to_target GENESIS_BLOCK_BITS) (\<lambda>genesis_target. Inr (min new_target (be_val genesis_target))))"

definition view_bits :: "chain_view \<Rightarrow> bytes result" where
  "view_bits v = target_to_bits (bc_target v)"

definition block_at :: "chain_env \<Rightarrow> chain_view \<Rightarrow> int \<Rightarrow> block option result" where
  "block_at E v block_height = db_get_block_at_height (ce_db E) (ce_hashes E) (ce_now E) (bc_db v) block_height"

definition expected_bits_for_height :: "chain_env \<Rightarrow> chain_view \<Rightarrow> int \<Rightarrow> bytes result" where
  "expected_bits_for_height E v block_height =
     (if block_height = 0 then Inr GENESIS_BLOCK_BITS
      else if block_height mod 2016 \<noteq> 0 then view_bits v
      else
        bindR (block_at E v (block_height - 2016)) (\<lambda>first_block.
        bindR (case first_block of
                 Some b \<Rightarrow> Inr (Some (b_time b))
               | None \<Rightarrow> (case bc_tip v of
                     None \<Rightarrow> Inr None
                   | Some last_block \<Rightarrow>
                       bindR (block_id (ce_hashes E) last_block) (\<lambda>h.
                       bindR (get_block_index_ancestor (bc_db v) h (block_height - 2016)) (\<lambda>e. Inr (map_option ie_time e)))))
          (\<lambda>first_timestamp.
            case (first_timestamp, bc_tip v) of
              (Some t, Some last_block) \<Rightarrow>
                bindR (calculate_retarget (bc_target v) t (b_time last_block)) (\<lambda>new_target.
                bindR (to_bytes_be 32 new_target) target_to_bits)
            | _ \<Rightarrow> view_bits v)))"

definition validate_pow :: "hashes \<Rightarrow> block \<Rightarrow> bool result" where
  "validate_pow H b =
     bindR (block_id H b) (\<lambda>bid. bindR (bits_to_target (b_bits b)) (\<lambda>t. Inr (le_val bid \<le> be_val t)))"

definition validate_header_pow :: "hashes \<Rightarrow> block_header \<Rightarrow> bool result" where
  "validate_header_pow H header =
     (if length (bh_bits header) \<noteq> 4 then Inr False
      else
        let exponent = unat (bh_bits header ! 0); coefficient = be_val (drop 1 (bh_bits header)) in
        if exponent < 3 \<or> exponent > 32 \<or> coefficient = 0 \<or> coefficient AND 0x800000 \<noteq> 0 then Inr False
        else case bits_to_target (bh_bits header) of
            Inl _ \<Rightarrow> Inr False
          | Inr t \<Rightarrow>
              let target = be_val t in
              if \<not> (0 < target \<and> target < 2 ^ 256) then Inr False
              else bindR (header_id H header) (\<lambda>bid. Inr (le_val bid \<le> target)))"

section \<open>Timestamps\<close>

text \<open>The timestamps of the blocks found at the heights \<open>h\<close>, \<open>h + 1\<close>, up to \<open>n\<close> of them.\<close>

fun timestamps_from :: "chain_env \<Rightarrow> chain_view \<Rightarrow> int \<Rightarrow> nat \<Rightarrow> int list result" where
  "timestamps_from E v h 0 = Inr []"
| "timestamps_from E v h (Suc n) =
     bindR (block_at E v h) (\<lambda>b.
     bindR (timestamps_from E v (h + 1) n) (\<lambda>ts.
       Inr (case b of None \<Rightarrow> ts | Some b \<Rightarrow> b_time b # ts)))"

definition median_time_past :: "chain_env \<Rightarrow> chain_view \<Rightarrow> int option result" where
  "median_time_past E v =
     (if bc_height v < 0 then Inr None
      else
        let first_height = max 0 (bc_height v - MEDIAN_TIME_SPAN + 1) in
        bindR (timestamps_from E v first_height (nat (bc_height v + 1 - first_height))) (\<lambda>ts.
          if ts = [] then Inr None else Inr (Some (sort ts ! (length ts div 2)))))"

definition validate_block_timestamp :: "chain_env \<Rightarrow> chain_view \<Rightarrow> block \<Rightarrow> bool result" where
  "validate_block_timestamp E v b =
     (if b_time b > ce_now E + MAX_FUTURE_BLOCK_TIME then Inr False
      else bindR (median_time_past E v) (\<lambda>mtp.
        case mtp of None \<Rightarrow> Inr True | Some m \<Rightarrow> Inr (\<not> b_time b \<le> m)))"

section \<open>Signature operations\<close>

text \<open>
  The loop over a script: \<open>prev\<close> is \<^verbatim>\<open>previous_opcode\<close>. A push whose length does not fit jumps over the end, which
  ends the loop.
\<close>

function count_sigops_loop :: "bool \<Rightarrow> bool \<Rightarrow> nat option \<Rightarrow> bytes \<Rightarrow> int" where
  "count_sigops_loop accurate tapscript prev [] = 0"
| "count_sigops_loop accurate tapscript prev (b # script) =
     (let opcode = unat b in
      if 1 \<le> opcode \<and> opcode \<le> 75 then count_sigops_loop accurate tapscript (Some opcode) (drop opcode script)
      else if opcode = 0x4c then
        (case script of
           [] \<Rightarrow> 0
         | n # rest \<Rightarrow> count_sigops_loop accurate tapscript (Some opcode) (drop (unat n) rest))
      else if opcode = 0x4d then
        (if length script < 2 then 0
         else count_sigops_loop accurate tapscript (Some opcode) (drop (2 + nat (le_val (take 2 script))) script))
      else if opcode = 0x4e then
        (if length script < 4 then 0
         else count_sigops_loop accurate tapscript (Some opcode) (drop (4 + nat (le_val (take 4 script))) script))
      else
        (if opcode = 0xac \<or> opcode = 0xad \<or> tapscript \<and> opcode = 0xba then 1
         else if opcode = 0xae \<or> opcode = 0xaf then
           (if tapscript then 0
            else case prev of
                Some p \<Rightarrow> if accurate \<and> 0x51 \<le> p \<and> p \<le> 0x60 then int p - 0x51 + 1 else 20
              | None \<Rightarrow> 20)
         else 0)
        + count_sigops_loop accurate tapscript (Some opcode) script)"
  by pat_completeness auto
termination by (relation "measure (\<lambda>(_, _, _, script). length script)") auto

declare count_sigops_loop.simps [simp del]

definition count_sigops :: "bytes \<Rightarrow> bool \<Rightarrow> int" where
  "count_sigops script accurate = count_sigops_loop accurate False None script"

definition last_pushed_data :: "bytes \<Rightarrow> bytes option" where
  "last_pushed_data script =
     (case parse_script_ops script of
        Inl _ \<Rightarrow> None
      | Inr operations \<Rightarrow> if operations = [] then None else snd (last operations))"

definition is_p2sh :: "bytes \<Rightarrow> bool" where
  "is_p2sh s \<longleftrightarrow> length s = 23 \<and> take 2 s = [0xa9, 0x14] \<and> drop (length s - 1) s = [0x87]"
definition is_p2wpkh :: "bytes \<Rightarrow> bool" where "is_p2wpkh s \<longleftrightarrow> length s = 22 \<and> take 2 s = [0x00, 0x14]"
definition is_p2wsh :: "bytes \<Rightarrow> bool" where "is_p2wsh s \<longleftrightarrow> length s = 34 \<and> take 2 s = [0x00, 0x20]"
definition is_p2tr :: "bytes \<Rightarrow> bool" where "is_p2tr s \<longleftrightarrow> length s = 34 \<and> take 2 s = [0x51, 0x20]"

definition is_witness_program :: "bytes \<Rightarrow> bool" where
  "is_witness_program s \<longleftrightarrow> is_p2wpkh s \<or> is_p2wsh s \<or> is_p2tr s"

definition witness_program_cost :: "bytes \<Rightarrow> bytes list \<Rightarrow> int" where
  "witness_program_cost witness_program witness_items =
     (if \<not> is_witness_program witness_program then 0
      else if is_p2wpkh witness_program then 1
      else if is_p2wsh witness_program \<and> witness_items \<noteq> [] then count_sigops (last witness_items) True
      else 0)"

definition input_sigop_cost :: "tx_in \<Rightarrow> utxo \<Rightarrow> bytes list \<Rightarrow> int" where
  "input_sigop_cost txin spent_utxo witness_items =
     (if is_p2sh (u_scriptpubkey spent_utxo) then
        (case last_pushed_data (in_scriptsig txin) of
           None \<Rightarrow> 0
         | Some redeem \<Rightarrow>
             if \<not> is_witness_program redeem then count_sigops redeem True * WITNESS_SCALE_FACTOR
             else witness_program_cost redeem witness_items)
      else witness_program_cost (u_scriptpubkey spent_utxo) witness_items)"

fun input_sigop_costs :: "tx \<Rightarrow> nat \<Rightarrow> tx_in list \<Rightarrow> utxo list \<Rightarrow> int" where
  "input_sigop_costs t i (txin # txins) (u # us) =
     input_sigop_cost txin u (if i < length (t_witness t) then t_witness t ! i else [])
     + input_sigop_costs t (Suc i) txins us"
| "input_sigop_costs t i _ _ = 0"

definition tx_sigop_cost :: "tx \<Rightarrow> utxo list \<Rightarrow> int result" where
  "tx_sigop_cost t spent_utxos =
     (let legacy_sigops = sum_list (map (\<lambda>i. count_sigops (in_scriptsig i) False) (t_inputs t))
            + sum_list (map (\<lambda>out. count_sigops (out_scriptpubkey out) False) (t_outputs t));
          cost = legacy_sigops * WITNESS_SCALE_FACTOR in
      bindR (tx_is_coinbase t) (\<lambda>coinbase.
        if coinbase \<or> spent_utxos = [] \<or> length spent_utxos \<noteq> length (t_inputs t) then Inr cost
        else Inr (cost + input_sigop_costs t 0 (t_inputs t) spent_utxos)))"

text \<open>The outputs a transaction adds, as unspent outputs of a block at height \<open>h\<close>.\<close>

fun new_utxos_from :: "hashes \<Rightarrow> tx \<Rightarrow> int \<Rightarrow> bool \<Rightarrow> int \<Rightarrow> tx_out list \<Rightarrow> utxo list result" where
  "new_utxos_from H t h coinbase vout [] = Inr []"
| "new_utxos_from H t h coinbase vout (out # outs) =
     bindR (tx_txid H t) (\<lambda>txid. bindR (to_bytes_le 4 vout) (\<lambda>v.
     bindR (new_utxos_from H t h coinbase (vout + 1) outs) (\<lambda>us.
       Inr (utxo_from_txoutput (txid @ v) out h coinbase # us))))"

definition add_pending :: "(bytes \<Rightarrow> utxo option) \<Rightarrow> utxo list \<Rightarrow> bytes \<Rightarrow> utxo option" where
  "add_pending pending us = foldl (\<lambda>m u. m(u_outpoint u \<mapsto> u)) pending us"

text \<open>\<^verbatim>\<open>pending_utxos.get(outpoint) or self.db.get_utxo(outpoint)\<close>.\<close>

definition find_utxo ::
  "chain_env \<Rightarrow> chain_view \<Rightarrow> (bytes \<Rightarrow> utxo option) \<Rightarrow> bytes \<Rightarrow> utxo option result" where
  "find_utxo E v pending outpoint =
     (case pending outpoint of Some u \<Rightarrow> Inr (Some u) | None \<Rightarrow> get_utxo (ce_db E) (bc_db v) outpoint)"

fun found_utxos ::
  "chain_env \<Rightarrow> chain_view \<Rightarrow> (bytes \<Rightarrow> utxo option) \<Rightarrow> tx_in list \<Rightarrow> utxo list result" where
  "found_utxos E v pending [] = Inr []"
| "found_utxos E v pending (i # is) =
     bindR (txin_outpoint i) (\<lambda>outpoint. bindR (find_utxo E v pending outpoint) (\<lambda>u.
     bindR (found_utxos E v pending is) (\<lambda>us. Inr (case u of None \<Rightarrow> us | Some x \<Rightarrow> x # us))))"

definition block_sigop_step ::
  "chain_env \<Rightarrow> chain_view \<Rightarrow> int \<times> (bytes \<Rightarrow> utxo option) \<Rightarrow> tx \<Rightarrow> (int \<times> (bytes \<Rightarrow> utxo option)) result" where
  "block_sigop_step E v st t =
     (case st of (cost, pending) \<Rightarrow>
       bindR (tx_is_coinbase t) (\<lambda>coinbase.
       bindR (if coinbase then Inr [] else found_utxos E v pending (t_inputs t)) (\<lambda>spent_utxos.
       bindR (tx_sigop_cost t spent_utxos) (\<lambda>c.
       bindR (new_utxos_from (ce_hashes E) t (bc_height v + 1) coinbase 0 (t_outputs t)) (\<lambda>us.
         Inr (cost + c, add_pending pending us))))))"

definition block_sigop_cost :: "chain_env \<Rightarrow> chain_view \<Rightarrow> block \<Rightarrow> int result" where
  "block_sigop_cost E v b =
     bindR (foldR (block_sigop_step E v) (0, \<lambda>_. None) (b_txs b)) (\<lambda>(cost, _). Inr cost)"

section \<open>Coinbase\<close>

definition is_minimally_encoded_script_num :: "bytes \<Rightarrow> bool" where
  "is_minimally_encoded_script_num data =
     (if data = [] then True
      else if last data AND 0x7f = 0 \<and> (length data = 1 \<or> data ! (length data - 2) AND 0x80 = 0) then False
      else True)"

definition decode_script_num :: "bytes \<Rightarrow> int" where
  "decode_script_num data =
     (if data = [] then 0
      else
        let value = le_val data in
        if last data AND 0x80 \<noteq> 0 then - (value AND NOT (push_bit (8 * (length data - 1)) 0x80)) else value)"

definition validate_bip34_height :: "bytes \<Rightarrow> int \<Rightarrow> bool" where
  "validate_bip34_height scriptsig h =
     (if scriptsig = [] then False
      else
        let push_len = unat (hd scriptsig) in
        if push_len = 0 \<or> push_len > 5 then False
        else if length scriptsig < 1 + push_len then False
        else
          let height_bytes = take push_len (drop 1 scriptsig) in
          if \<not> is_minimally_encoded_script_num height_bytes then False
          else decode_script_num height_bytes = h)"

fun input_total_from_db :: "chain_env \<Rightarrow> chain_view \<Rightarrow> tx_in list \<Rightarrow> int result" where
  "input_total_from_db E v [] = Inr 0"
| "input_total_from_db E v (i # is) =
     bindR (txin_outpoint i) (\<lambda>outpoint. bindR (get_utxo (ce_db E) (bc_db v) outpoint) (\<lambda>u.
       case u of None \<Rightarrow> Inl AttributeError
       | Some x \<Rightarrow> bindR (input_total_from_db E v is) (\<lambda>n. Inr (u_amount x + n))))"

definition get_tx_fee :: "chain_env \<Rightarrow> chain_view \<Rightarrow> tx \<Rightarrow> int result" where
  "get_tx_fee E v t =
     bindR (input_total_from_db E v (t_inputs t)) (\<lambda>input_total.
       let output_total = sum_list (map out_amount (t_outputs t)) in
       bindR (tx_txid (ce_hashes E) t) (\<lambda>_.
         if input_total \<ge> output_total then Inr (input_total - output_total) else Inl TransactionError))"

definition validate_coinbase :: "chain_env \<Rightarrow> chain_view \<Rightarrow> block \<Rightarrow> int \<Rightarrow> bool result" where
  "validate_coinbase E v b h =
     bindR (index_at (b_txs b) 0) (\<lambda>coinbase_tx.
     bindR (tx_is_coinbase coinbase_tx) (\<lambda>first_ok.
       if \<not> first_ok then bindR (tx_txid (ce_hashes E) coinbase_tx) (\<lambda>_. Inr False)
       else
         bindR (index_at (t_inputs coinbase_tx) 0) (\<lambda>txin.
           let scriptsig_len = length (in_scriptsig txin) in
           if scriptsig_len < MIN_COINBASE_SCRIPT_SIZE \<or> scriptsig_len > MAX_COINBASE_SCRIPT_SIZE then Inr False
           else if h \<ge> bip34_height (ce_params E) \<and> \<not> validate_bip34_height (in_scriptsig txin) h then Inr False
           else
             bindR (anyR tx_is_coinbase (tl (b_txs b))) (\<lambda>other.
               if other then Inr False
               else
                 let coinbase_out = sum_list (map out_amount (t_outputs coinbase_tx)) in
                 bindR (sumR (get_tx_fee E v) (tl (b_txs b))) (\<lambda>total_fees.
                   Inr (\<not> coinbase_out > bc_subsidy v + total_fees))))))"

section \<open>Witness commitment\<close>

definition find_witness_commitment :: "tx \<Rightarrow> bytes option" where
  "find_witness_commitment coinbase_tx =
     foldl (\<lambda>commitment txout.
       let script = out_scriptpubkey txout in
       if length script \<ge> WITNESS_COMMITMENT_SIZE \<and> take (length WITNESS_COMMITMENT_HEADER) script = WITNESS_COMMITMENT_HEADER
       then Some (drop (length WITNESS_COMMITMENT_HEADER) (take WITNESS_COMMITMENT_SIZE script))
       else commitment) None (t_outputs coinbase_tx)"

definition get_coinbase_witness_reserved_value :: "tx \<Rightarrow> bytes option" where
  "get_coinbase_witness_reserved_value coinbase_tx =
     (case t_witness coinbase_tx of
        [witness_items] \<Rightarrow>
          (case witness_items of
             [item] \<Rightarrow> if length item \<noteq> WITNESS_RESERVED_VALUE_SIZE then None else Some item
           | _ \<Rightarrow> None)
      | _ \<Rightarrow> None)"

definition witness_merkle_root :: "hashes \<Rightarrow> block \<Rightarrow> bytes result" where
  "witness_merkle_root H b =
     bindR (mapR (tx_wtxid H) (tl (b_txs b))) (\<lambda>wtxids.
     bindR (merkle_tree_new H (replicate 32 0 # wtxids)) (\<lambda>tree. Inr (mt_root tree)))"

definition validate_witness_commitment :: "chain_env \<Rightarrow> block \<Rightarrow> int \<Rightarrow> bool result" where
  "validate_witness_commitment E b h =
     (let witness_present = list_ex tx_is_segwit (b_txs b) in
      bindR (index_at (b_txs b) 0) (\<lambda>coinbase_tx.
        let commitment = find_witness_commitment coinbase_tx in
        if \<not> witness_present \<and> commitment = None then Inr True
        else if h < segwit_height (ce_params E) then Inr False
        else
          (case commitment of
             None \<Rightarrow> Inr False
           | Some c \<Rightarrow>
               (case get_coinbase_witness_reserved_value coinbase_tx of
                  None \<Rightarrow> Inr False
                | Some reserved_value \<Rightarrow>
                    bindR (witness_merkle_root (ce_hashes E) b) (\<lambda>witness_root.
                      Inr (c = hash256 (ce_hashes E) (witness_root @ reserved_value)))))))"

section \<open>Transactions of a block\<close>

fun load_inputs ::
  "chain_env \<Rightarrow> chain_view \<Rightarrow> (bytes \<Rightarrow> utxo option) \<Rightarrow> tx_in list \<Rightarrow> utxo list option result" where
  "load_inputs E v pending [] = Inr (Some [])"
| "load_inputs E v pending (i # is) =
     bindR (txin_outpoint i) (\<lambda>outpoint. bindR (find_utxo E v pending outpoint) (\<lambda>u.
       case u of None \<Rightarrow> Inr None
       | Some x \<Rightarrow> bindR (load_inputs E v pending is) (\<lambda>us. Inr (map_option (Cons x) us))))"

definition validate_block_tx ::
  "chain_env \<Rightarrow> chain_view \<Rightarrow> block \<Rightarrow> int \<Rightarrow> (bytes \<Rightarrow> utxo option) \<Rightarrow> bytes set \<Rightarrow> tx \<Rightarrow>
     (bool \<times> bytes set) result" where
  "validate_block_tx E v b next_height pending seen t =
     bindR (load_inputs E v pending (t_inputs t)) (\<lambda>utxos.
       case utxos of
         None \<Rightarrow> Inr (False, seen)
       | Some us \<Rightarrow>
           bindR (load_tx t (Some us)) (\<lambda>loaded.
           bindR (block_id (ce_hashes E) b) (\<lambda>bid.
             let script_flags = consensus_script_flags (ce_params E) next_height (Some (b_time b)) (Some bid);
                 ctx = \<lparr>v_next_height = Some next_height, v_block_timestamp = Some (b_time b),
                        v_get_block_at_height = Some (block_at E v), v_coinbase_maturity = Some COINBASE_MATURITY,
                        v_check_locktime = True, v_check_relative_locktime = True, v_validate_scripts = True,
                        v_script_validator = Some (\<lambda>l. validate_tx_scripts (ce_hashes E) (ce_der E) l script_flags),
                        v_current_time = ce_now E\<rparr> in
             bindR (validate_loaded_tx (ce_hashes E) (ce_der E) loaded ctx (Some seen)) (\<lambda>(ok, seen1).
               Inr (ok, case seen1 of None \<Rightarrow> seen | Some s \<Rightarrow> s)))))"

text \<open>
  \<^verbatim>\<open>_check_relative_locktime\<close>, a second form of the relative lock check beside the one of
  \<^verbatim>\<open>validate_loaded_tx\<close>; for a block it cannot find the attribute access raises.
\<close>

definition check_relative_locktime :: "chain_env \<Rightarrow> chain_view \<Rightarrow> tx_in \<Rightarrow> utxo \<Rightarrow> block \<Rightarrow> int \<Rightarrow> bool result" where
  "check_relative_locktime E v txin u b next_height =
     (let sequence = in_sequence txin in
      if sequence AND 2 ^ 31 \<noteq> 0 then Inr True
      else if sequence AND 2 ^ 22 \<noteq> 0 then
        bindR (block_at E v (u_block_height u)) (\<lambda>utxo_block.
          case utxo_block of
            None \<Rightarrow> Inl AttributeError
          | Some ub \<Rightarrow> Inr (\<not> b_time b - b_time ub < (sequence AND 0xFFFF) * 512))
      else Inr (\<not> next_height - u_block_height u < sequence AND 0xFFFF))"

fun validate_block_txs_from ::
  "chain_env \<Rightarrow> chain_view \<Rightarrow> block \<Rightarrow> int \<Rightarrow> (bytes \<Rightarrow> utxo option) \<Rightarrow> bytes set \<Rightarrow> tx list \<Rightarrow> bool result" where
  "validate_block_txs_from E v b next_height pending seen [] = Inr True"
| "validate_block_txs_from E v b next_height pending seen (t # ts) =
     bindR (validate_block_tx E v b next_height pending seen t) (\<lambda>(ok, seen1).
       if \<not> ok then Inr False
       else bindR (new_utxos_from (ce_hashes E) t next_height False 0 (t_outputs t)) (\<lambda>us.
         validate_block_txs_from E v b next_height (add_pending pending us) seen1 ts))"

definition validate_block_txs :: "chain_env \<Rightarrow> chain_view \<Rightarrow> block \<Rightarrow> bool result" where
  "validate_block_txs E v b = validate_block_txs_from E v b (bc_height v + 1) (\<lambda>_. None) {} (tl (b_txs b))"

text \<open>BIP 30: no output of the block may exist already; two historic blocks are exempt.\<close>

fun no_output_exists :: "chain_env \<Rightarrow> chain_view \<Rightarrow> tx \<Rightarrow> int \<Rightarrow> tx_out list \<Rightarrow> bool result" where
  "no_output_exists E v t vout [] = Inr True"
| "no_output_exists E v t vout (out # outs) =
     bindR (tx_txid (ce_hashes E) t) (\<lambda>txid. bindR (to_bytes_le 4 vout) (\<lambda>n.
     bindR (get_utxo (ce_db E) (bc_db v) (txid @ n)) (\<lambda>u.
       if u \<noteq> None then Inr False else no_output_exists E v t (vout + 1) outs)))"

definition validate_bip30 :: "chain_env \<Rightarrow> chain_view \<Rightarrow> block \<Rightarrow> int \<Rightarrow> bool result" where
  "validate_bip30 E v b h =
     bindR (block_id (ce_hashes E) b) (\<lambda>bid.
       if is_bip30_exception (ce_params E) h bid then Inr True
       else bindR (anyR (\<lambda>t. bindR (no_output_exists E v t 0 (t_outputs t)) (\<lambda>ok. Inr (\<not> ok))) (b_txs b))
         (\<lambda>clash. Inr (\<not> clash)))"

section \<open>A block\<close>

text \<open>A check that stops the chain of checks when it fails.\<close>

definition andR :: "bool result \<Rightarrow> bool result \<Rightarrow> bool result" where
  "andR a b = bindR a (\<lambda>ok. if ok then b else Inr False)"

definition extends_tip :: "chain_env \<Rightarrow> chain_view \<Rightarrow> block \<Rightarrow> bool result" where
  "extends_tip E v b =
     (case bc_tip v of
        None \<Rightarrow> Inr (b_prev b = replicate 32 0)
      | Some tip \<Rightarrow> bindR (block_id (ce_hashes E) tip) (\<lambda>h. Inr (h = b_prev b)))"

definition validate_block :: "chain_env \<Rightarrow> chain_view \<Rightarrow> block \<Rightarrow> bool result" where
  "validate_block E v b =
     (let next_height = bc_height v + 1; H = ce_hashes E in
      if b_txs b = [] then Inr False
      else bindR (block_id H b) (\<lambda>bid.
        andR (Inr (checkpoint_matches (ce_params E) next_height bid))
       (andR (extends_tip E v b)
       (andR (validate_block_timestamp E v b)
       (andR (bindR (expected_bits_for_height E v next_height) (\<lambda>expected_bits. Inr (b_bits b = expected_bits)))
       (andR (validate_pow H b)
       (andR (Inr (\<not> b_weight b > MAX_WEIGHT))
       (andR (bindR (block_sigop_cost E v b) (\<lambda>sigop_cost. Inr (\<not> sigop_cost > MAX_BLOCK_SIGOP_COST)))
       (bindR (mapR (tx_txid H) (b_txs b)) (\<lambda>txids.
        andR (Inr (distinct txids))
       (andR (validate_bip30 E v b next_height)
       (andR (bindR (merkle_tree_new H txids) (\<lambda>tree. Inr (mt_root tree = mt_root (b_tree b))))
       (andR (validate_coinbase E v b next_height)
       (andR (validate_witness_commitment E b next_height)
        (validate_block_txs E v b)))))))))))))))"

end
