(* ===== verification/Orphan_Blocks.thy ===== *)
theory Orphan_Blocks
  imports Chain_DB
begin

text \<open>
  \<^verbatim>\<open>src/src/blockchain/orphan_pool.py\<close>: blocks that wait for their parent, in the order they came, bounded in
  number and bytes. The lock and the arrival time, which nothing reads, are left out. Python iterates over the
  set of children in no particular order; the model keeps the order of arrival.
\<close>

section \<open>The code\<close>

record orphan_entry =
  oe_block :: block
  oe_size :: int

record orphan_pool =
  op_max_blocks :: int
  op_max_bytes :: int
  op_entries :: "(bytes \<times> orphan_entry) list"
  op_children :: "bytes \<Rightarrow> bytes list"
  op_total_bytes :: int

definition orphan_pool_new :: "int \<Rightarrow> int \<Rightarrow> orphan_pool result" where
  "orphan_pool_new max_blocks max_bytes =
     (if max_blocks < 1 \<or> max_bytes < 1 then Inl ValueError
      else Inr \<lparr>op_max_blocks = max_blocks, op_max_bytes = max_bytes, op_entries = [], op_children = (\<lambda>_. []),
                op_total_bytes = 0\<rparr>)"

definition orphan_remove :: "bytes \<Rightarrow> orphan_pool \<Rightarrow> orphan_pool" where
  "orphan_remove h p =
     (case map_of (op_entries p) h of
        None \<Rightarrow> p
      | Some e \<Rightarrow>
          let parent = b_prev (oe_block e) in
          p\<lparr>op_entries := AList.delete h (op_entries p),
            op_children := (op_children p)(parent := removeAll h (op_children p parent)),
            op_total_bytes := op_total_bytes p - oe_size e\<rparr>)"

text \<open>The eviction loop: the oldest entry goes until both bounds hold. \<open>next(iter({}))\<close> raises.\<close>

fun orphan_evict :: "(bytes \<times> orphan_entry) list \<Rightarrow> orphan_pool \<Rightarrow> orphan_pool result" where
  "orphan_evict queue p =
     (if int (length (op_entries p)) > op_max_blocks p \<or> op_total_bytes p > op_max_bytes p then
        (case queue of [] \<Rightarrow> Inl StopIteration | (h, _) # rest \<Rightarrow> orphan_evict rest (orphan_remove h p))
      else Inr p)"

declare orphan_evict.simps [simp del]

definition orphan_add :: "hashes \<Rightarrow> block \<Rightarrow> orphan_pool \<Rightarrow> (bool \<times> orphan_pool) result" where
  "orphan_add H b p =
     bindR (block_to_bytes b) (\<lambda>block_bytes.
       let size = int (length block_bytes) in
       if size > op_max_bytes p then Inr (False, p)
       else bindR (block_id H b) (\<lambda>bid.
         if map_of (op_entries p) bid \<noteq> None then Inr (False, p)
         else
           let siblings = op_children p (b_prev b);
               p1 = p\<lparr>op_entries := op_entries p @ [(bid, \<lparr>oe_block = b, oe_size = size\<rparr>)],
                      op_children := (op_children p)(b_prev b := (if bid \<in> set siblings then siblings else siblings @ [bid])),
                      op_total_bytes := op_total_bytes p + size\<rparr> in
           bindR (orphan_evict (op_entries p1) p1) (\<lambda>p2. Inr (map_of (op_entries p2) bid \<noteq> None, p2))))"

fun pop_entries :: "bytes list \<Rightarrow> orphan_pool \<Rightarrow> block list \<times> orphan_pool" where
  "pop_entries [] p = ([], p)"
| "pop_entries (h # hs) p =
     (case map_of (op_entries p) h of
        None \<Rightarrow> pop_entries hs p
      | Some e \<Rightarrow> let (bs, p1) = pop_entries hs (orphan_remove h p) in (oe_block e # bs, p1))"

definition pop_children :: "bytes \<Rightarrow> orphan_pool \<Rightarrow> block list \<times> orphan_pool" where
  "pop_children parent_hash p =
     pop_entries (op_children p parent_hash) (p\<lparr>op_children := (op_children p)(parent_hash := [])\<rparr>)"

section \<open>The invariant\<close>

definition pool_inv :: "orphan_pool \<Rightarrow> bool" where
  "pool_inv p \<longleftrightarrow> distinct (map fst (op_entries p))
     \<and> op_total_bytes p = sum_list (map (\<lambda>(_, e). oe_size e) (op_entries p))
     \<and> (\<forall>(_, e) \<in> set (op_entries p). 0 \<le> oe_size e)"

definition pool_bounded :: "orphan_pool \<Rightarrow> bool" where
  "pool_bounded p \<longleftrightarrow> int (length (op_entries p)) \<le> op_max_blocks p \<and> op_total_bytes p \<le> op_max_bytes p
     \<and> 1 \<le> op_max_blocks p \<and> 1 \<le> op_max_bytes p"

text \<open>The children of a hash are the entries whose block names it as parent.\<close>

definition entry_parent :: "orphan_pool \<Rightarrow> bytes \<Rightarrow> bytes option" where
  "entry_parent p h = map_option (\<lambda>e. b_prev (oe_block e)) (map_of (op_entries p) h)"

definition pool_linked :: "orphan_pool \<Rightarrow> bool" where
  "pool_linked p \<longleftrightarrow> (\<forall>h parent. h \<in> set (op_children p parent) \<longleftrightarrow> entry_parent p h = Some parent)"

lemma sum_delete:
  "distinct (map fst al) \<Longrightarrow> map_of al h = Some e \<Longrightarrow>
     sum_list (map (\<lambda>(_, e). f e) (AList.delete h al)) = sum_list (map (\<lambda>(_, e). f e) al) - (f e :: int)
     \<and> length (AList.delete h al) + 1 = length al"
proof (induction al)
  case (Cons x al)
  obtain k v where x: "x = (k, v)" by fastforce
  show ?case
  proof (cases "k = h")
    case True
    then have "h \<notin> fst ` set al" using Cons.prems(1) by (auto simp: x)
    then show ?thesis using Cons.prems True by (simp add: x)
  next
    case False
    then show ?thesis using Cons by (simp add: x)
  qed
qed simp

lemma in_set_delete: "x \<in> set (AList.delete h al) \<longleftrightarrow> x \<in> set al \<and> fst x \<noteq> h"
  by (auto simp: AList.delete_eq)

lemma orphan_remove_inv:
  assumes "pool_inv p" shows "pool_inv (orphan_remove h p)"
proof (cases "map_of (op_entries p) h")
  case (Some e)
  then show ?thesis using assms sum_delete [of "op_entries p" h e oe_size]
    by (auto simp: pool_inv_def orphan_remove_def Let_def AList.distinct_delete in_set_delete)
qed (use assms in \<open>simp add: orphan_remove_def\<close>)

lemma orphan_remove_parent: "entry_parent (orphan_remove h p) x = (if x = h then None else entry_parent p x)"
  by (auto simp: entry_parent_def orphan_remove_def Let_def AList.delete_conv' split: option.split)

lemma orphan_remove_children:
  "set (op_children (orphan_remove h p) q) = (if entry_parent p h = Some q then set (op_children p q) - {h} else set (op_children p q))"
  by (auto simp: entry_parent_def orphan_remove_def Let_def split: option.split)

lemma orphan_remove_linked: "pool_linked p \<Longrightarrow> pool_linked (orphan_remove h p)"
  by (auto simp: pool_linked_def orphan_remove_parent orphan_remove_children)

lemma orphan_remove_bounds [simp]:
  "op_max_blocks (orphan_remove h p) = op_max_blocks p" "op_max_bytes (orphan_remove h p) = op_max_bytes p"
  by (auto simp: orphan_remove_def Let_def split: option.split)

lemma orphan_evict_spec:
  assumes "pool_inv p" and "op_entries p = queue" and "1 \<le> op_max_blocks p" and "1 \<le> op_max_bytes p" and "pool_linked p"
  shows "\<exists>p'. orphan_evict queue p = Inr p' \<and> pool_inv p' \<and> pool_bounded p' \<and> pool_linked p'
    \<and> (\<exists>k. op_entries p' = drop k queue) \<and> op_max_blocks p' = op_max_blocks p \<and> op_max_bytes p' = op_max_bytes p"
  using assms
proof (induction queue arbitrary: p)
  case Nil
  then have "op_total_bytes p = 0" by (simp add: pool_inv_def)
  then show ?case using Nil by (subst orphan_evict.simps) (auto simp: pool_bounded_def)
next
  case (Cons x queue)
  obtain h e where x: "x = (h, e)" by fastforce
  show ?case
  proof (cases "int (length (op_entries p)) > op_max_blocks p \<or> op_total_bytes p > op_max_bytes p")
    case True
    have "h \<notin> fst ` set queue" using Cons.prems(1,2) by (auto simp: pool_inv_def x)
    then have entries: "op_entries (orphan_remove h p) = queue" using Cons.prems(2) by (simp add: orphan_remove_def x Let_def)
    obtain p' k where p': "orphan_evict queue (orphan_remove h p) = Inr p'" "pool_inv p'" "pool_bounded p'" "pool_linked p'"
      "op_entries p' = drop k queue" "op_max_blocks p' = op_max_blocks p" "op_max_bytes p' = op_max_bytes p"
      using Cons.IH [OF orphan_remove_inv [OF Cons.prems(1)] entries _ _ orphan_remove_linked [OF Cons.prems(5)]]
        Cons.prems(3,4) unfolding orphan_remove_bounds by blast
    have "orphan_evict (x # queue) p = Inr p'" using True p'(1) by (subst orphan_evict.simps) (simp add: x)
    moreover have "op_entries p' = drop (Suc k) (x # queue)" using p'(5) by simp
    ultimately show ?thesis using p' by blast
  next
    case False
    then have "orphan_evict (x # queue) p = Inr p" by (subst orphan_evict.simps) auto
    moreover have "op_entries p = drop 0 (x # queue)" using Cons.prems(2) by simp
    ultimately show ?thesis using False Cons.prems
      by (intro exI [of _ p]) (auto simp: pool_bounded_def intro: exI [of _ 0])
  qed
qed

text \<open>What a pool promises between two calls.\<close>

definition pool_ok :: "orphan_pool \<Rightarrow> bool" where
  "pool_ok p \<longleftrightarrow> pool_inv p \<and> pool_bounded p \<and> pool_linked p"

lemma orphan_add_ok:
  assumes "pool_ok p" and "orphan_add H b p = Inr (added, p')"
  shows "pool_ok p' \<and> op_max_blocks p' = op_max_blocks p \<and> op_max_bytes p' = op_max_bytes p"
proof (cases "p' = p")
  case False
  obtain bs bid where b: "block_to_bytes b = Inr bs" "block_id H b = Inr bid" "map_of (op_entries p) bid = None"
    "\<not> int (length bs) > op_max_bytes p"
    using assms(2) False by (auto simp: orphan_add_def Let_def split: if_split_asm)
  let ?s = "op_children p (b_prev b)"
  let ?p = "p\<lparr>op_entries := op_entries p @ [(bid, \<lparr>oe_block = b, oe_size = int (length bs)\<rparr>)],
    op_children := (op_children p)(b_prev b := (if bid \<in> set ?s then ?s else ?s @ [bid])),
    op_total_bytes := op_total_bytes p + int (length bs)\<rparr>"
  have evict: "orphan_evict (op_entries ?p) ?p = Inr p'" using assms(2) b
    by (auto simp: orphan_add_def Let_def split: if_split_asm)
  have inv: "pool_inv ?p" using assms(1) b(3) by (auto simp: pool_ok_def pool_inv_def map_of_eq_None_iff)
  have "entry_parent ?p h = (if h = bid then Some (b_prev b) else entry_parent p h)" for h
    using b(3) by (auto simp: entry_parent_def map_add_def split: option.split)
  moreover have "set (op_children ?p q) = (if q = b_prev b then insert bid (set (op_children p q)) else set (op_children p q))" for q
    by auto
  moreover have "entry_parent p bid = None" using b(3) by (simp add: entry_parent_def)
  ultimately have "pool_linked ?p" using assms(1) unfolding pool_ok_def pool_linked_def by (auto split: if_split_asm)
  from orphan_evict_spec [OF inv refl _ _ this] show ?thesis using evict assms(1)
    by (auto simp: pool_ok_def pool_bounded_def)
qed (use assms in simp)

lemma pop_entries_spec:
  assumes "pop_entries hs p = (bs, p')" and "pool_inv p" and "pool_bounded p"
    and "\<forall>q h. h \<in> set (op_children p q) \<longleftrightarrow> q \<noteq> parent \<and> entry_parent p h = Some q"
    and "\<forall>h. entry_parent p h = Some parent \<longrightarrow> h \<in> set hs"
    and "\<forall>h \<in> set hs. entry_parent p h \<noteq> None \<longrightarrow> entry_parent p h = Some parent"
  shows "pool_ok p' \<and> (\<forall>b \<in> set bs. b_prev b = parent) \<and> (\<forall>h. entry_parent p' h \<noteq> Some parent)
    \<and> length (op_entries p') + length bs = length (op_entries p)
    \<and> op_max_blocks p' = op_max_blocks p \<and> op_max_bytes p' = op_max_bytes p"
  using assms
proof (induction hs arbitrary: p bs)
  case Nil
  then show ?case by (auto simp: pool_ok_def pool_linked_def)
next
  case (Cons h hs)
  show ?case
  proof (cases "map_of (op_entries p) h")
    case None
    then have "pop_entries hs p = (bs, p')" "entry_parent p h = None" using Cons.prems(1) by (simp_all add: entry_parent_def)
    moreover have "\<forall>x. entry_parent p x = Some parent \<longrightarrow> x \<in> set hs"
      using Cons.prems(5) calculation(2) by (metis option.distinct(1) set_ConsD)
    moreover have "\<forall>x \<in> set hs. entry_parent p x \<noteq> None \<longrightarrow> entry_parent p x = Some parent"
      using Cons.prems(6) by simp
    ultimately show ?thesis using Cons.IH [of p bs] Cons.prems(2-4) by blast
  next
    case (Some e)
    then obtain bs1 where bs1: "pop_entries hs (orphan_remove h p) = (bs1, p')" "bs = oe_block e # bs1"
      using Cons.prems(1) by (auto simp: Let_def split: prod.splits)
    let ?p = "orphan_remove h p"
    have par: "entry_parent p h = Some parent" using Cons.prems(6) Some by (auto simp: entry_parent_def)
    have len: "length (op_entries ?p) + 1 = length (op_entries p)" and tot: "op_total_bytes ?p = op_total_bytes p - oe_size e"
      using sum_delete [of "op_entries p" h e oe_size] Cons.prems(2) Some by (auto simp: orphan_remove_def Let_def pool_inv_def)
    have "0 \<le> oe_size e" using Cons.prems(2) Some by (auto simp: pool_inv_def dest!: map_of_SomeD)
    then have bnd: "pool_bounded ?p" using Cons.prems(3) len tot by (auto simp: pool_bounded_def)
    have "\<forall>q x. x \<in> set (op_children ?p q) \<longleftrightarrow> q \<noteq> parent \<and> entry_parent ?p x = Some q"
      using Cons.prems(4) par by (auto simp: orphan_remove_children orphan_remove_parent)
    moreover have "\<forall>x. entry_parent ?p x = Some parent \<longrightarrow> x \<in> set hs"
      using Cons.prems(5) by (auto simp: orphan_remove_parent)
    moreover have "\<forall>x \<in> set hs. entry_parent ?p x \<noteq> None \<longrightarrow> entry_parent ?p x = Some parent"
      using Cons.prems(6) by (auto simp: orphan_remove_parent)
    ultimately have ih: "pool_ok p' \<and> (\<forall>b \<in> set bs1. b_prev b = parent) \<and> (\<forall>h. entry_parent p' h \<noteq> Some parent)
        \<and> length (op_entries p') + length bs1 = length (op_entries ?p)
        \<and> op_max_blocks p' = op_max_blocks ?p \<and> op_max_bytes p' = op_max_bytes ?p"
      by (intro Cons.IH [OF bs1(1) orphan_remove_inv [OF Cons.prems(2)] bnd])
    moreover have "b_prev (oe_block e) = parent" using par Some by (simp add: entry_parent_def)
    ultimately show ?thesis using len bs1(2) by auto
  qed
qed

lemma pop_children_spec:
  assumes "pool_ok p" and "pop_children parent p = (bs, p')"
  shows "pool_ok p' \<and> (\<forall>b \<in> set bs. b_prev b = parent) \<and> (\<forall>h. entry_parent p' h \<noteq> Some parent)
    \<and> length (op_entries p') + length bs = length (op_entries p)
    \<and> op_max_blocks p' = op_max_blocks p \<and> op_max_bytes p' = op_max_bytes p"
proof -
  let ?p = "p\<lparr>op_children := (op_children p)(parent := [])\<rparr>"
  have e: "entry_parent ?p = entry_parent p" by (rule ext) (simp add: entry_parent_def)
  have l: "h \<in> set (op_children p q) \<longleftrightarrow> entry_parent p h = Some q" for h q
    using assms(1) by (simp add: pool_ok_def pool_linked_def)
  have "pop_entries (op_children p parent) ?p = (bs, p')" using assms(2) by (simp add: pop_children_def)
  moreover have "pool_inv ?p" "pool_bounded ?p" using assms(1) by (simp_all add: pool_ok_def pool_inv_def pool_bounded_def)
  moreover have "\<forall>q h. h \<in> set (op_children ?p q) \<longleftrightarrow> q \<noteq> parent \<and> entry_parent ?p h = Some q"
    unfolding e using l by simp
  moreover have "\<forall>h. entry_parent ?p h = Some parent \<longrightarrow> h \<in> set (op_children p parent)"
    unfolding e using l by blast
  moreover have "\<forall>h \<in> set (op_children p parent). entry_parent ?p h \<noteq> None \<longrightarrow> entry_parent ?p h = Some parent"
    unfolding e using l by blast
  ultimately have "pool_ok p' \<and> (\<forall>b \<in> set bs. b_prev b = parent) \<and> (\<forall>h. entry_parent p' h \<noteq> Some parent)
    \<and> length (op_entries p') + length bs = length (op_entries ?p)
    \<and> op_max_blocks p' = op_max_blocks ?p \<and> op_max_bytes p' = op_max_bytes ?p"
    by (rule pop_entries_spec)
  then show ?thesis by simp
qed

section \<open>Runs of the pool\<close>

text \<open>A call of the pool's interface and a sequence of calls; a call that raises leaves the pool as it was.\<close>

datatype pool_call = Add_Orphan block | Pop_Children bytes

definition pool_step :: "hashes \<Rightarrow> orphan_pool \<Rightarrow> pool_call \<Rightarrow> orphan_pool" where
  "pool_step H p c =
     (case c of
        Add_Orphan b \<Rightarrow> (case orphan_add H b p of Inl _ \<Rightarrow> p | Inr (_, p1) \<Rightarrow> p1)
      | Pop_Children h \<Rightarrow> snd (pop_children h p))"

lemma pool_step_ok:
  assumes "pool_ok p"
  shows "pool_ok (pool_step H p c) \<and> op_max_blocks (pool_step H p c) = op_max_blocks p
    \<and> op_max_bytes (pool_step H p c) = op_max_bytes p"
proof (cases c)
  case (Add_Orphan b)
  show ?thesis
  proof (cases "orphan_add H b p")
    case (Inr ap)
    obtain a q where "ap = (a, q)" by fastforce
    with Inr orphan_add_ok [OF assms, of H b a q] show ?thesis by (simp add: Add_Orphan pool_step_def)
  qed (simp add: Add_Orphan pool_step_def assms)
next
  case (Pop_Children h)
  obtain bs r where "pop_children h p = (bs, r)" by fastforce
  with pop_children_spec [OF assms this] show ?thesis by (simp add: Pop_Children pool_step_def)
qed

text \<open>
  C36: whatever blocks arrive and whatever parents are announced, a pool never holds more blocks or more bytes than
  it was created for, its byte count is the sum over its blocks, and popping the children of a hash removes every
  block that names it as parent and returns no other.
\<close>

theorem orphan_pool_bounded:
  assumes "orphan_pool_new n m = Inr p" and "q = foldl (pool_step H) p calls" and "pop_children h q = (bs, r)"
  shows "int (length (op_entries q)) \<le> n \<and> op_total_bytes q \<le> m
    \<and> op_total_bytes q = sum_list (map (\<lambda>(_, e). oe_size e) (op_entries q))
    \<and> (\<forall>b \<in> set bs. b_prev b = h) \<and> (\<forall>(_, e) \<in> set (op_entries r). b_prev (oe_block e) \<noteq> h)
    \<and> length (op_entries r) + length bs = length (op_entries q)"
proof -
  have p: "pool_ok p \<and> op_max_blocks p = n \<and> op_max_bytes p = m" using assms(1)
    by (auto simp: orphan_pool_new_def pool_ok_def pool_inv_def pool_bounded_def pool_linked_def entry_parent_def
        split: if_split_asm)
  have "pool_ok (foldl (pool_step H) p calls) \<and> op_max_blocks (foldl (pool_step H) p calls) = n
      \<and> op_max_bytes (foldl (pool_step H) p calls) = m"
    using p by (induction calls rule: rev_induct) (simp_all add: pool_step_ok)
  then have q: "pool_ok q" "op_max_blocks q = n" "op_max_bytes q = m" using assms(2) by simp_all
  note r = pop_children_spec [OF q(1) assms(3)]
  have "b_prev (oe_block e) \<noteq> h" if "(k, e) \<in> set (op_entries r)" for k e
  proof -
    have "map_of (op_entries r) k = Some e" using r that by (auto simp: pool_ok_def pool_inv_def)
    then have "entry_parent r k = Some (b_prev (oe_block e))" by (simp add: entry_parent_def)
    then show ?thesis using r by metis
  qed
  then show ?thesis using q r by (auto simp: pool_ok_def pool_inv_def pool_bounded_def)
qed

lemma orphan_pool_bounded_witness:
  "\<exists>p b q. block_wf pad_hashes b \<and> orphan_pool_new 2 1000 = Inr p
     \<and> q = foldl (pool_step pad_hashes) p [Add_Orphan b, Pop_Children [1], Add_Orphan b]
     \<and> int (length (op_entries q)) \<le> 2 \<and> op_total_bytes q \<le> 1000"
proof -
  obtain p where p: "orphan_pool_new 2 1000 = Inr p" by (simp add: orphan_pool_new_def)
  obtain b where b: "block_wf pad_hashes b" using sample_block_new by blast
  obtain bs r where r: "pop_children [1] (foldl (pool_step pad_hashes) p [Add_Orphan b, Pop_Children [1], Add_Orphan b]) = (bs, r)"
    by fastforce
  from orphan_pool_bounded [OF p refl r] p b show ?thesis by blast
qed

end
