(* ===== verification/Blockchain.thy ===== *)
theory Blockchain
  imports Chain_Rules Orphan_Blocks
begin

text \<open>
  The operations of \<^verbatim>\<open>src/src/blockchain/blockchain.py\<close> that change the chain: adding headers and blocks,
  connecting to the tip, keeping side branches, reorganising to a branch with more work, and the blocks that wait
  for a parent. The state is the cached tip with its database and the pool of orphans.
\<close>

section \<open>State\<close>

record blockchain = chain_view +
  bc_orphans :: orphan_pool

text \<open>Tables go back when a transaction fails; the block store and the cached fields do not.\<close>

definition restore_tables :: "blockchain \<Rightarrow> blockchain \<Rightarrow> blockchain" where
  "restore_tables s s1 = s1\<lparr>bc_db := (bc_db s)\<lparr>db_store := db_store (bc_db s1)\<rparr>\<rparr>"

definition on_db :: "(chain_db, 'a) action \<Rightarrow> (blockchain, 'a) action" where
  "on_db m = zoomS bc_db (\<lambda>db s. s\<lparr>bc_db := db\<rparr>) m"

definition set_cached_tip :: "block option \<Rightarrow> int \<Rightarrow> (blockchain, unit) action" where
  "set_cached_tip b h =
     bindS (modifyS (\<lambda>s. s\<lparr>bc_height := h, bc_tip := b, bc_subsidy := calc_subsidy h\<rparr>)) (\<lambda>_.
     bindS (liftS (bits_to_target (case b of None \<Rightarrow> GENESIS_BLOCK_BITS | Some x \<Rightarrow> b_bits x))) (\<lambda>target.
       modifyS (\<lambda>s. s\<lparr>bc_target := target\<rparr>)))"

section \<open>Headers\<close>

definition get_block_locator_start :: "chain_db \<Rightarrow> bytes option \<Rightarrow> index_entry option" where
  "get_block_locator_start db start_hash =
     (case start_hash of Some h \<Rightarrow> get_block_index db h | None \<Rightarrow> get_best_header db)"

text \<open>
  The locator walks back from an entry. The height of the entry it looks up next is below the current one until
  it is zero, so the height of the first entry bounds the rounds.
\<close>

fun locator_loop :: "chain_db \<Rightarrow> nat \<Rightarrow> int \<Rightarrow> nat \<Rightarrow> index_entry \<Rightarrow> bytes list result" where
  "locator_loop db 0 step len e = Inl NoReturn"
| "locator_loop db (Suc fuel) step len e =
     (if ie_height e = 0 then Inr [ie_hash e]
      else
        let next_height = max 0 (ie_height e - step);
            step1 = (if Suc len \<ge> 10 then step * 2 else step) in
        bindR (get_block_index_ancestor db (ie_hash e) next_height) (\<lambda>p.
          case p of
            None \<Rightarrow> Inr [ie_hash e]
          | Some p \<Rightarrow> bindR (locator_loop db fuel step1 (Suc len) p) (\<lambda>l. Inr (ie_hash e # l))))"

definition get_block_locator :: "chain_db \<Rightarrow> bytes option \<Rightarrow> bytes list result" where
  "get_block_locator db start_hash =
     (case get_block_locator_start db start_hash of
        None \<Rightarrow> Inr []
      | Some e \<Rightarrow> locator_loop db (Suc (nat (ie_height e))) 1 0 e)"

definition add_header_step ::
  "chain_env \<Rightarrow> block_header \<Rightarrow> bytes \<Rightarrow> index_entry \<Rightarrow> (chain_db, block_header list \<times> index_entry) action" where
  "add_header_step E header previous_hash parent =
     (let H = ce_hashes E in
      bindS (if bh_prev header \<noteq> previous_hash then raiseS NetworkDataError else returnS ()) (\<lambda>_.
      bindS (liftS (header_id H header)) (\<lambda>bid.
      bindS (readS (\<lambda>db. get_block_index db bid)) (\<lambda>existing.
        case existing of
          None \<Rightarrow>
            let header_height = ie_height parent + 1 in
            if \<not> checkpoint_matches (ce_params E) header_height bid then raiseS NetworkDataError
            else
              bindS (liftS (validate_header_pow H header)) (\<lambda>ok.
                if \<not> ok then raiseS NetworkDataError
                else if bh_time header > ce_now E + MAX_FUTURE_BLOCK_TIME then raiseS NetworkDataError
                else
                  bindS (updateS (add_block_header H header header_height)) (\<lambda>_.
                  bindS (readS (\<lambda>db. get_block_index db bid)) (\<lambda>entry.
                    case entry of
                      None \<Rightarrow> raiseS AttributeError
                    | Some p \<Rightarrow> returnS ([header], p))))
        | Some e \<Rightarrow>
            if ie_prev e \<noteq> bh_prev header \<or> ie_height e \<noteq> ie_height parent + 1 then raiseS NetworkDataError
            else returnS ([], e)))))"

fun add_headers_loop ::
  "chain_env \<Rightarrow> bytes \<Rightarrow> index_entry \<Rightarrow> block_header list \<Rightarrow> (chain_db, block_header list) action" where
  "add_headers_loop E previous_hash parent [] = returnS []"
| "add_headers_loop E previous_hash parent (header # headers) =
     bindS (add_header_step E header previous_hash parent) (\<lambda>(new, parent1).
     bindS (liftS (header_id (ce_hashes E) header)) (\<lambda>bid.
     bindS (add_headers_loop E bid parent1 headers) (\<lambda>accepted. returnS (new @ accepted))))"

definition add_headers :: "chain_env \<Rightarrow> block_header list \<Rightarrow> (chain_db, block_header list) action" where
  "add_headers E headers =
     (case headers of
        [] \<Rightarrow> returnS []
      | header # _ \<Rightarrow>
          bindS (readS (\<lambda>db. get_block_index db (bh_prev header))) (\<lambda>parent.
            case parent of
              None \<Rightarrow> raiseS NetworkDataError
            | Some p \<Rightarrow> add_headers_loop E (bh_prev header) p headers))"

section \<open>The effect of a block on the unspent outputs\<close>

text \<open>\<^verbatim>\<open>dict.fromkeys\<close>-like collecting without repetition, in order of first occurrence.\<close>

fun block_created_outpoints :: "hashes \<Rightarrow> tx list \<Rightarrow> bytes list result" where
  "block_created_outpoints H [] = Inr []"
| "block_created_outpoints H (t # ts) =
     bindR (new_utxos_from H t 0 False 0 (t_outputs t)) (\<lambda>us.
     bindR (block_created_outpoints H ts) (\<lambda>ops. Inr (map u_outpoint us @ ops)))"

text \<open>The loop over the inputs of one transaction: \<open>spent\<close> is the list of unspent outputs captured so far.\<close>

fun capture_inputs ::
  "chain_env \<Rightarrow> chain_db \<Rightarrow> bytes list \<Rightarrow> utxo list \<Rightarrow> tx_in list \<Rightarrow> utxo list result" where
  "capture_inputs E db created spent [] = Inr spent"
| "capture_inputs E db created spent (i # is) =
     bindR (txin_outpoint i) (\<lambda>outpoint.
       if outpoint \<in> set created then capture_inputs E db created spent is
       else bindR (get_utxo (ce_db E) db outpoint) (\<lambda>u.
         case u of
           None \<Rightarrow> capture_inputs E db created spent is
         | Some x \<Rightarrow> capture_inputs E db created
             (if u_outpoint x \<in> set (map u_outpoint spent) then spent else spent @ [x]) is))"

fun capture_spent ::
  "chain_env \<Rightarrow> chain_db \<Rightarrow> bytes list \<Rightarrow> utxo list \<Rightarrow> tx list \<Rightarrow> utxo list result" where
  "capture_spent E db created spent [] = Inr spent"
| "capture_spent E db created spent (t # ts) =
     bindR (tx_is_coinbase t) (\<lambda>coinbase.
       if coinbase then capture_spent E db created spent ts
       else bindR (capture_inputs E db created spent (t_inputs t)) (\<lambda>spent1.
         capture_spent E db created spent1 ts))"

text \<open>BIP 30 exceptions: outputs that the block overwrites.\<close>

fun capture_overwritten :: "chain_env \<Rightarrow> chain_db \<Rightarrow> utxo list \<Rightarrow> bytes list \<Rightarrow> utxo list result" where
  "capture_overwritten E db spent [] = Inr spent"
| "capture_overwritten E db spent (outpoint # ops) =
     bindR (get_utxo (ce_db E) db outpoint) (\<lambda>u.
       case u of
         None \<Rightarrow> capture_overwritten E db spent ops
       | Some x \<Rightarrow> capture_overwritten E db
           (if outpoint \<in> set (map u_outpoint spent) then spent else spent @ [x]) ops)"

definition build_block_undo :: "chain_env \<Rightarrow> chain_db \<Rightarrow> block \<Rightarrow> int \<Rightarrow> block_undo result" where
  "build_block_undo E db b h =
     bindR (block_created_outpoints (ce_hashes E) (b_txs b)) (\<lambda>created.
     bindR (capture_spent E db created [] (b_txs b)) (\<lambda>spent.
     bindR (block_id (ce_hashes E) b) (\<lambda>bid.
     bindR (if is_bip30_exception (ce_params E) h bid then capture_overwritten E db spent created else Inr spent)
       (\<lambda>spent1. Inr \<lparr>un_spent = spent1, un_created = created\<rparr>))))"

fun block_spent_outpoints :: "tx list \<Rightarrow> bytes list result" where
  "block_spent_outpoints [] = Inr []"
| "block_spent_outpoints (t # ts) =
     bindR (tx_is_coinbase t) (\<lambda>coinbase.
     bindR (if coinbase then Inr [] else mapR txin_outpoint (t_inputs t)) (\<lambda>ops.
     bindR (block_spent_outpoints ts) (\<lambda>rest. Inr (ops @ rest))))"

text \<open>
  The outputs that remain: an output the block spends itself is skipped; in the two exceptional blocks every
  created outpoint joins the deleted ones.
\<close>

fun remaining_outputs :: "bool \<Rightarrow> bytes list \<Rightarrow> utxo list \<Rightarrow> bytes list \<times> utxo list" where
  "remaining_outputs exempt spent [] = (spent, [])"
| "remaining_outputs exempt spent (u # us) =
     (if u_outpoint u \<in> set spent then remaining_outputs exempt spent us
      else
        let (spent1, created) = remaining_outputs exempt (if exempt then u_outpoint u # spent else spent) us in
        (spent1, u # created))"

fun block_outputs :: "hashes \<Rightarrow> int \<Rightarrow> tx list \<Rightarrow> utxo list result" where
  "block_outputs H h [] = Inr []"
| "block_outputs H h (t # ts) =
     bindR (if t_outputs t = [] then Inr False else tx_is_coinbase t) (\<lambda>coinbase.
     bindR (new_utxos_from H t h coinbase 0 (t_outputs t)) (\<lambda>us.
     bindR (block_outputs H h ts) (\<lambda>rest. Inr (us @ rest))))"

definition block_utxo_delta :: "chain_env \<Rightarrow> block \<Rightarrow> int \<Rightarrow> (bytes list \<times> utxo list) result" where
  "block_utxo_delta E b h =
     bindR (block_spent_outpoints (b_txs b)) (\<lambda>spent_outpoints.
     bindR (block_outputs (ce_hashes E) h (b_txs b)) (\<lambda>outs.
     bindR (block_id (ce_hashes E) b) (\<lambda>bid.
       Inr (remaining_outputs (is_bip30_exception (ce_params E) h bid) spent_outpoints outs))))"

definition update_utxo_set :: "chain_env \<Rightarrow> block \<Rightarrow> int \<Rightarrow> chain_db \<Rightarrow> chain_db result" where
  "update_utxo_set E b h db =
     bindR (block_utxo_delta E b h) (\<lambda>(spent_outpoints, created_utxos).
       apply_utxo_delta spent_outpoints created_utxos db)"

section \<open>Reorganisation\<close>

definition would_reorganize_to :: "chain_db \<Rightarrow> bytes \<Rightarrow> bool" where
  "would_reorganize_to db block_hash =
     (case (get_block_index db block_hash, get_active_tip db) of
        (Some candidate, Some active_tip) \<Rightarrow>
          if ie_active candidate \<or> ie_status candidate = STATUS_INVALID then False
          else ie_chainwork candidate > ie_chainwork active_tip
      | _ \<Rightarrow> False)"

text \<open>
  The three loops of \<^verbatim>\<open>_reorganization_paths\<close>. Going back from an entry that has no parent raises at the next
  look at its height. A walk longer than the index repeats itself, a pair of walks repeats after the square
  of its length.
\<close>

fun walk_down :: "chain_db \<Rightarrow> int \<Rightarrow> nat \<Rightarrow> index_entry \<Rightarrow> (index_entry list \<times> index_entry) result" where
  "walk_down db h 0 e = (if ie_height e > h then Inl NoReturn else Inr ([], e))"
| "walk_down db h (Suc fuel) e =
     (if ie_height e > h then
        (case get_block_index db (ie_prev e) of
           None \<Rightarrow> Inl AttributeError
         | Some p \<Rightarrow> bindR (walk_down db h fuel p) (\<lambda>(path, q). Inr (e # path, q)))
      else Inr ([], e))"

fun walk_both ::
  "chain_db \<Rightarrow> nat \<Rightarrow> index_entry \<Rightarrow> index_entry \<Rightarrow> (index_entry list \<times> index_entry list \<times> index_entry) result" where
  "walk_both db 0 a c = (if ie_hash a \<noteq> ie_hash c then Inl NoReturn else Inr ([], [], a))"
| "walk_both db (Suc fuel) a c =
     (if ie_hash a \<noteq> ie_hash c then
        (case (get_block_index db (ie_prev a), get_block_index db (ie_prev c)) of
           (Some a1, Some c1) \<Rightarrow>
             bindR (walk_both db fuel a1 c1) (\<lambda>(pa, pc, fork). Inr (a # pa, c # pc, fork))
         | _ \<Rightarrow> Inl NetworkDataError)
      else Inr ([], [], a))"

definition reorganization_paths ::
  "chain_db \<Rightarrow> index_entry \<Rightarrow> index_entry \<Rightarrow> (index_entry list \<times> index_entry list \<times> index_entry) result" where
  "reorganization_paths db active_tip candidate =
     (let n = length (db_index db) in
      bindR (walk_down db (ie_height candidate) n active_tip) (\<lambda>(disconnect1, active).
      bindR (walk_down db (ie_height active) n candidate) (\<lambda>(connect1, other).
      bindR (walk_both db (n * n) active other) (\<lambda>(disconnect2, connect2, fork).
        Inr (disconnect1 @ disconnect2, rev (connect1 @ connect2), fork)))))"

fun disconnect_blocks :: "chain_env \<Rightarrow> index_entry list \<Rightarrow> (blockchain, unit) action" where
  "disconnect_blocks E [] = returnS ()"
| "disconnect_blocks E (entry # entries) =
     bindS (readS (\<lambda>s. get_block_undo (bc_db s) (ie_hash entry))) (\<lambda>undo.
     bindS (case undo of
              None \<Rightarrow> raiseS AttributeError
            | Some u \<Rightarrow> on_db (updateS (disconnect_chain_block (ie_hash entry) u STATUS_VALID))) (\<lambda>_.
     bindS (readS (\<lambda>s. get_block_index (bc_db s) (ie_prev entry))) (\<lambda>parent.
     bindS (case parent of
              None \<Rightarrow> returnS None
            | Some _ \<Rightarrow> queryS (\<lambda>s. db_get_block (ce_db E) (ce_hashes E) (ce_now E) (bc_db s) (ie_prev entry))) (\<lambda>parent_block.
     bindS (set_cached_tip parent_block (case parent of None \<Rightarrow> - 1 | Some p \<Rightarrow> ie_height p)) (\<lambda>_.
       disconnect_blocks E entries)))))"

text \<open>Connecting the candidates: the hash of the first invalid one is the answer, at which the code raises.\<close>

fun connect_candidates :: "chain_env \<Rightarrow> (index_entry \<times> block) list \<Rightarrow> (blockchain, bytes option) action" where
  "connect_candidates E [] = returnS None"
| "connect_candidates E ((entry, b) # rest) =
     bindS (queryS (\<lambda>s. validate_block E (chain_view.truncate s) b)) (\<lambda>valid.
       if \<not> valid then returnS (Some (ie_hash entry))
       else
         bindS (queryS (\<lambda>s. build_block_undo E (bc_db s) b (ie_height entry))) (\<lambda>undo.
         bindS (liftS (block_utxo_delta E b (ie_height entry))) (\<lambda>(spent_outpoints, created_utxos).
         bindS (on_db (updateS (activate_chain_block (ie_hash entry) undo spent_outpoints created_utxos))) (\<lambda>_.
         bindS (set_cached_tip (Some b) (ie_height entry)) (\<lambda>_.
           connect_candidates E rest)))))"

definition prune_chain :: "chain_env \<Rightarrow> int \<Rightarrow> (blockchain, unit) action" where
  "prune_chain E h = on_db (modifyS (\<lambda>db. snd (prune_blocks (ce_db E) h db)))"

text \<open>
  The transaction: on an exception or an invalid candidate the tables and the cached tip go back; an invalid
  candidate is then marked with its branch.
\<close>

definition switch_branch ::
  "chain_env \<Rightarrow> index_entry list \<Rightarrow> (index_entry \<times> block) list \<Rightarrow> (blockchain, bool) action" where
  "switch_branch E disconnect connect s =
     (case bindS (disconnect_blocks E disconnect) (\<lambda>_. connect_candidates E connect) s of
        (Inr None, s1) \<Rightarrow> bindS (prune_chain E (bc_height s1)) (\<lambda>_. returnS True) s1
      | (Inr (Some bad), s1) \<Rightarrow>
          bindS (set_cached_tip (bc_tip s) (bc_height s)) (\<lambda>_.
          bindS (on_db (modifyS (mark_block_branch_invalid bad))) (\<lambda>_. returnS False)) (restore_tables s s1)
      | (Inl e, s1) \<Rightarrow>
          if e = NoReturn then (Inl e, s1)
          else bindS (set_cached_tip (bc_tip s) (bc_height s)) (\<lambda>_. returnS False) (restore_tables s s1))"

definition reorganize_to :: "chain_env \<Rightarrow> bytes \<Rightarrow> (blockchain, bool) action" where
  "reorganize_to E block_hash =
     bindS (readS (\<lambda>s. (would_reorganize_to (bc_db s) block_hash, get_block_index (bc_db s) block_hash,
         get_active_tip (bc_db s)))) (\<lambda>(would, candidate, active_tip).
       case (candidate, active_tip) of
         (Some c, Some a) \<Rightarrow>
           if \<not> would then returnS False
           else if c_mode (ce_db E) = REMOTE then returnS False
           else
             bindS (queryS (\<lambda>s. reorganization_paths (bc_db s) a c)) (\<lambda>(disconnect, connect, fork).
             bindS (queryS (\<lambda>s. mapR (\<lambda>e. db_get_block (ce_db E) (ce_hashes E) (ce_now E) (bc_db s) (ie_hash e)) disconnect))
               (\<lambda>old_blocks.
             bindS (queryS (\<lambda>s. mapR (\<lambda>e. db_get_block (ce_db E) (ce_hashes E) (ce_now E) (bc_db s) (ie_hash e)) connect))
               (\<lambda>candidate_blocks.
             bindS (readS (\<lambda>s. list_ex (\<lambda>e. get_block_undo (bc_db s) (ie_hash e) = None) disconnect)) (\<lambda>no_undo.
               if None \<in> set (old_blocks @ candidate_blocks) \<or> no_undo then returnS False
               else switch_branch E disconnect (zip connect (map the candidate_blocks))))))
       | _ \<Rightarrow> returnS False)"

section \<open>Adding a block\<close>

definition connect_tip_block :: "chain_env \<Rightarrow> block \<Rightarrow> (blockchain, bool) action" where
  "connect_tip_block E b =
     bindS (readS (\<lambda>s. bc_height s + 1)) (\<lambda>new_height.
     bindS (liftS (block_id (ce_hashes E) b)) (\<lambda>bid.
       if \<not> checkpoint_matches (ce_params E) new_height bid then returnS False
       else
         bindS (queryS (\<lambda>s. validate_block E (chain_view.truncate s) b)) (\<lambda>valid.
           if \<not> valid then returnS False
           else
             bindS (queryS (\<lambda>s. build_block_undo E (bc_db s) b new_height)) (\<lambda>undo.
             bindS (liftS (block_utxo_delta E b new_height)) (\<lambda>(spent_outpoints, created_utxos).
             bindS (on_db (connect_block (ce_db E) (ce_hashes E) b new_height undo spent_outpoints created_utxos)) (\<lambda>_.
             bindS (set_cached_tip (Some b) new_height) (\<lambda>_.
             bindS (prune_chain E new_height) (\<lambda>_. returnS True))))))))"

text \<open>The timestamps of up to \<open>n\<close> entries of a branch, newest first.\<close>

fun branch_timestamps :: "chain_db \<Rightarrow> nat \<Rightarrow> index_entry option \<Rightarrow> int list" where
  "branch_timestamps db 0 cursor = []"
| "branch_timestamps db (Suc n) cursor =
     (case cursor of
        None \<Rightarrow> []
      | Some e \<Rightarrow> ie_time e # branch_timestamps db n (get_block_index db (ie_prev e)))"

definition validate_orphan_candidate :: "hashes \<Rightarrow> block \<Rightarrow> bool result" where
  "validate_orphan_candidate H b =
     (if b_txs b = [] then Inr False
      else andR (validate_pow H b)
        (if b_weight b > MAX_WEIGHT then Inr False
         else bindR (mapR (tx_txid H) (b_txs b)) (\<lambda>txids.
           if \<not> distinct txids then Inr False
           else bindR (merkle_tree_new H txids) (\<lambda>tree.
             if mt_root tree \<noteq> mt_root (b_tree b) then Inr False
             else andR (tx_is_coinbase (hd (b_txs b)))
               (bindR (anyR tx_is_coinbase (tl (b_txs b))) (\<lambda>other. Inr (\<not> other)))))))"

definition validate_side_block_candidate ::
  "chain_env \<Rightarrow> chain_db \<Rightarrow> block \<Rightarrow> index_entry \<Rightarrow> int \<Rightarrow> bool result" where
  "validate_side_block_candidate E db b parent h =
     (let H = ce_hashes E in
      if b_txs b = [] \<or> b_prev b \<noteq> ie_hash parent then Inr False
      else bindR (block_id H b) (\<lambda>bid.
        if \<not> checkpoint_matches (ce_params E) h bid then Inr False
        else if b_time b > ce_now E + MAX_FUTURE_BLOCK_TIME then Inr False
        else
          let ts = branch_timestamps db (nat MEDIAN_TIME_SPAN) (Some parent) in
          if ts \<noteq> [] \<and> b_time b \<le> sort ts ! (length ts div 2) then Inr False
          else if h mod 2016 \<noteq> 0 \<and> b_bits b \<noteq> ie_bits parent then Inr False
          else andR (validate_pow H b)
            (if b_weight b > MAX_WEIGHT then Inr False
             else bindR (mapR (tx_txid H) (b_txs b)) (\<lambda>txids.
               if \<not> distinct txids then Inr False
               else bindR (merkle_tree_new H txids) (\<lambda>tree.
                 if mt_root tree \<noteq> mt_root (b_tree b) then Inr False
                 else bindR (tx_is_coinbase (hd (b_txs b))) (\<lambda>first.
                   if \<not> first then Inr False
                   else bindR (anyR tx_is_coinbase (tl (b_txs b))) (\<lambda>other.
                     if other then Inr False
                     else bindR (index_at (t_inputs (hd (b_txs b))) 0) (\<lambda>txin.
                       let scriptsig = in_scriptsig txin in
                       if \<not> (MIN_COINBASE_SCRIPT_SIZE \<le> length scriptsig \<and> length scriptsig \<le> MAX_COINBASE_SCRIPT_SIZE)
                       then Inr False
                       else if h \<ge> bip34_height (ce_params E) \<and> \<not> validate_bip34_height scriptsig h then Inr False
                       else validate_witness_commitment E b h))))))))"

definition on_orphans :: "(orphan_pool \<Rightarrow> 'a \<times> orphan_pool) \<Rightarrow> (blockchain, 'a) action" where
  "on_orphans f s = (let (x, p) = f (bc_orphans s) in (Inr x, s\<lparr>bc_orphans := p\<rparr>))"

definition add_orphan :: "chain_env \<Rightarrow> block \<Rightarrow> (blockchain, unit) action" where
  "add_orphan E b =
     updateS (\<lambda>s. bindR (orphan_add (ce_hashes E) b (bc_orphans s)) (\<lambda>(_, p). Inr (s\<lparr>bc_orphans := p\<rparr>)))"

text \<open>
  \<^verbatim>\<open>add_block\<close> without the blocks that waited for this one: whether it is accepted, and whether its children are
  looked for.
\<close>

definition add_block_body :: "chain_env \<Rightarrow> block \<Rightarrow> (blockchain, bool \<times> bool) action" where
  "add_block_body E b =
     (let H = ce_hashes E in
      bindS (liftS (block_id H b)) (\<lambda>bid.
      bindS (readS (\<lambda>s. (get_block_index (bc_db s) bid, has_block_body (bc_db s) bid))) (\<lambda>(existing, has_body).
        if (case existing of None \<Rightarrow> False | Some e \<Rightarrow> ie_status e = STATUS_INVALID \<or> has_body) then returnS (False, False)
        else
          bindS (queryS (\<lambda>s. case bc_tip s of
              None \<Rightarrow> Inr True
            | Some tip \<Rightarrow> bindR (block_id H tip) (\<lambda>h. Inr (b_prev b = h)))) (\<lambda>next_of_tip.
            if next_of_tip then bindS (connect_tip_block E b) (\<lambda>accepted. returnS (accepted, accepted))
            else
              bindS (readS (\<lambda>s. get_block_index (bc_db s) (b_prev b))) (\<lambda>parent.
                case parent of
                  None \<Rightarrow>
                    bindS (liftS (validate_orphan_candidate H b)) (\<lambda>ok.
                      if ok then bindS (add_orphan E b) (\<lambda>_. returnS (False, False)) else returnS (False, False))
                | Some p \<Rightarrow>
                    let new_height = ie_height p + 1 in
                    bindS (queryS (\<lambda>s. validate_side_block_candidate E (bc_db s) b p new_height)) (\<lambda>ok.
                      if \<not> ok then returnS (False, False)
                      else
                        bindS (on_db (db_add_block (ce_db E) H b new_height None False STATUS_CANDIDATE)) (\<lambda>_.
                        bindS (readS (\<lambda>s. would_reorganize_to (bc_db s) bid)) (\<lambda>would.
                          if would then bindS (reorganize_to E bid) (\<lambda>accepted. returnS (accepted, accepted))
                          else returnS (True, True))))))))) "

text \<open>
  The whole of \<^verbatim>\<open>add_block\<close>: an exception is the answer \<open>False\<close>. Every child of an accepted block leaves the pool
  before it is tried, so the size of the pool bounds the depth of the recursion.
\<close>

fun add_block :: "nat \<Rightarrow> chain_env \<Rightarrow> block \<Rightarrow> (blockchain, bool) action" where
  "add_block 0 E b = raiseS NoReturn"
| "add_block (Suc fuel) E b =
     catchS
       (bindS (add_block_body E b) (\<lambda>(accepted, look_for_children).
          if \<not> look_for_children then returnS accepted
          else
            bindS (liftS (block_id (ce_hashes E) b)) (\<lambda>bid.
            bindS (on_orphans (pop_children bid)) (\<lambda>children.
            bindS (forS (\<lambda>c. bindS (add_block fuel E c) (\<lambda>_. returnS ())) children) (\<lambda>_.
              returnS accepted)))))
       (\<lambda>_. returnS False)"

definition add_block_to_chain :: "chain_env \<Rightarrow> block \<Rightarrow> (blockchain, bool) action" where
  "add_block_to_chain E b s = add_block (Suc (length (op_entries (bc_orphans s)))) E b s"

text \<open>
  The constructor, on the tables and files found; the cached target is the one of the genesis block whatever the
  chain holds. An empty chain gets the genesis block.
\<close>

definition new_chain :: "chain_env \<Rightarrow> block \<Rightarrow> orphan_pool \<Rightarrow> chain_db \<Rightarrow> (bool \<times> blockchain) result" where
  "new_chain E genesis orphans db =
     (let h = get_chain_height db in
      bindR (get_latest_block (ce_db E) (ce_hashes E) (ce_now E) db) (\<lambda>tip.
      bindR (bits_to_target GENESIS_BLOCK_BITS) (\<lambda>target.
        let s = \<lparr>bc_db = db, bc_height = h, bc_tip = tip, bc_subsidy = calc_subsidy h, bc_target = target,
                 bc_orphans = orphans\<rparr> in
        if h = - 1 then
          (case add_block_to_chain E genesis s of (Inl e, _) \<Rightarrow> Inl e | (Inr ok, s1) \<Rightarrow> Inr (ok, s1))
        else Inr (True, s))))"

definition wipe_chain :: "chain_env \<Rightarrow> block \<Rightarrow> (blockchain, bool) action" where
  "wipe_chain E genesis =
     bindS (on_db (updateS (clear_db (ce_db E)))) (\<lambda>_.
     bindS (modifyS (\<lambda>s. s\<lparr>bc_height := - 1, bc_tip := None\<rparr>)) (\<lambda>_.
       add_block_to_chain E genesis))"

text \<open>\<^verbatim>\<open>_adjust_target\<close>, kept beside the rule that \<^verbatim>\<open>_expected_bits_for_height\<close> applies.\<close>

definition adjust_target :: "chain_env \<Rightarrow> (blockchain, unit) action" where
  "adjust_target E =
     bindS (readS (\<lambda>s. s)) (\<lambda>s.
       if bc_height s = 0 \<or> bc_height s mod 2016 \<noteq> 0 then returnS ()
       else
         bindS (liftS (block_at E (chain_view.truncate s) (bc_height s - 2016))) (\<lambda>first_block.
           case (first_block, bc_tip s) of
             (Some f, Some l) \<Rightarrow>
               bindS (liftS (calculate_retarget (bc_target s) (b_time f) (b_time l))) (\<lambda>new_target.
               bindS (liftS (to_bytes_be 32 new_target)) (\<lambda>target.
                 modifyS (\<lambda>s. s\<lparr>bc_target := target\<rparr>)))
           | _ \<Rightarrow> raiseS AttributeError))"

end
