(* ===== verification/Chain_DB_Facts.thy ===== *)
theory Chain_DB_Facts
  imports Chain_DB
begin

text \<open>
  What the database promises: a failed write leaves nothing behind, disconnecting undoes connecting, marking a
  block invalid reaches exactly its descendants, the best header has the most work, and the index keeps the work of
  a branch as the sum over its blocks.
\<close>

section \<open>Failed writes\<close>

definition store_ok :: "db_config \<Rightarrow> chain_db \<Rightarrow> bool" where
  "store_ok C db \<longleftrightarrow>
     (case c_mode C of ARCHIVAL \<Rightarrow> files_inv (db_store db) | PRUNED \<Rightarrow> pruned_inv (db_store db) | REMOTE \<Rightarrow> True)"

lemma store_write_back:
  assumes "store_ok C db" and "bs \<noteq> []" and "store_write (c_mode C) bs (db_store db) = (loc, s)"
  shows "snd (store_rollback (c_mode C) loc s) = db_store db"
  using assms archival.rollback_write [of "db_store db" bs loc s] pruned.rollback_write [of "db_store db" bs loc s]
  by (cases "c_mode C") (auto simp: store_ok_def store_write_def store_rollback_def)

lemma store_write_ok:
  assumes "store_ok C db" and "bs \<noteq> []" and "store_write (c_mode C) bs (db_store db) = (loc, s)"
  shows "store_ok C (db\<lparr>db_store := s\<rparr>)"
  using assms archival.write_inv [of "db_store db" bs loc s] pruned.write_inv [of "db_store db" bs loc s]
  by (cases "c_mode C") (auto simp: store_ok_def store_write_def)

lemma store_write_read:
  assumes "store_ok C db" and "bs \<noteq> []" and "store_write (c_mode C) bs (db_store db) = (loc, s)" and "c_mode C \<noteq> REMOTE"
  shows "store_read (c_mode C) rpc h (Some loc) s = Inr (Some bs)"
  using assms archival.read_new [of "db_store db" bs loc s] pruned.read_new [of "db_store db" bs loc s]
  by (cases "c_mode C") (auto simp: store_ok_def store_write_def store_read_def)

lemma with_body_error:
  assumes "store_ok C db" and "bs \<noteq> []" and "with_body C bs f db = (Inl e, db')"
  shows "db' = db"
  using assms store_write_back [OF assms(1,2)]
  by (auto simp: with_body_def Let_def split: prod.splits sum.splits)

lemma with_body_success:
  assumes "with_body C bs f db = (Inr (), db')"
  obtains loc s where "store_write (c_mode C) bs (db_store db) = (loc, s)" and "f loc (db\<lparr>db_store := s\<rparr>) = Inr db'"
  using assms by (auto simp: with_body_def Let_def split: prod.splits sum.splits)

lemma block_bytes_nonempty: "block_to_bytes b = Inr bs \<Longrightarrow> bs \<noteq> []"
  by (auto simp: block_to_bytes_def header_to_bytes_def to_bytes_le_Inr_iff)

text \<open>
  C31: when connecting a block to the tip raises, for a block already stored, an unspent output that exists
  already or a value the tables cannot hold, the whole database is as it was before: tables and block store.
\<close>

theorem failed_connect_changes_nothing:
  assumes "store_ok C db" and "connect_block C H b height undo spent created db = (Inl e, db')"
  shows "db' = db"
  using assms with_body_error [OF assms(1) block_bytes_nonempty]
  by (auto simp: connect_block_def run_simps split: sum.split_asm)

definition local_config :: "storage_mode \<Rightarrow> db_config" where
  "local_config mode = \<lparr>c_mode = mode, c_keep = 288,
     c_rpc = \<lparr>rpc_block = (\<lambda>_. Inr None), rpc_block_hash = (\<lambda>_. Inr None), rpc_header = (\<lambda>_. Inr None),
       rpc_utxo = (\<lambda>_. Inr None)\<rparr>\<rparr>"

lemma failed_connect_changes_nothing_witness:
  "\<exists>b bs db. block_to_bytes b = Inr bs \<and> db_blocks db \<noteq> []
     \<and> connect_block (local_config ARCHIVAL) pad_hashes b 1 \<lparr>un_spent = [], un_created = []\<rparr> [] [] db = (Inl IntegrityError, db)"
proof -
  obtain b bs where b: "block_to_bytes b = Inr bs" using sample_block_new by blast
  obtain bid where bid: "block_id pad_hashes b = Inr bid"
    using b by (auto simp: block_to_bytes_def block_id_def header_id_def)
  let ?row = "\<lparr>br_hash = bid, br_height = 1, br_prev = [], br_time = 5, br_loc = \<lparr>lc_file = 0, lc_offset = 0, lc_size = 1\<rparr>\<rparr>"
  let ?db = "(empty_tables (open_files []))\<lparr>db_blocks := [?row]\<rparr>"
  let ?run = "connect_block (local_config ARCHIVAL) pad_hashes b 1 \<lparr>un_spent = [], un_created = []\<rparr> [] [] ?db"
  have "fst ?run = Inl IntegrityError"
    by (simp add: connect_block_def run_simps b bid with_body_def insert_block_body_def Let_def split: prod.split)
  then obtain db' where r: "?run = (Inl IntegrityError, db')" by (metis prod.collapse)
  have "store_ok (local_config ARCHIVAL) ?db"
    by (simp add: store_ok_def local_config_def files_inv_def empty_tables_def)
  from failed_connect_changes_nothing [OF this r] r
  have "?run = (Inl IntegrityError, ?db)" by simp
  moreover have "db_blocks ?db \<noteq> []" by simp
  ultimately show ?thesis using b by blast
qed

section \<open>Disconnecting undoes connecting\<close>

lemma insert_utxo_Inr [result_iff]: "insert_utxo m u = Inr m' \<longleftrightarrow>
    sqlite_int (u_amount u) \<and> sqlite_int (u_block_height u) \<and> m (u_outpoint u) = None \<and> m' = m(u_outpoint u \<mapsto> u)"
  by (auto simp: insert_utxo_def)

lemma foldR_insert_Inr:
  "foldR insert_utxo m us = Inr m' \<Longrightarrow>
     distinct (map u_outpoint us) \<and> (\<forall>u \<in> set us. m (u_outpoint u) = None)
     \<and> m' = (\<lambda>op. case find (\<lambda>u. u_outpoint u = op) us of None \<Rightarrow> m op | Some u \<Rightarrow> Some u)"
proof (induction us arbitrary: m)
  case Nil
  then show ?case by simp
next
  case (Cons u us)
  then have new: "m (u_outpoint u) = None" and rest: "foldR insert_utxo (m(u_outpoint u \<mapsto> u)) us = Inr m'"
    by (auto simp: insert_utxo_Inr)
  note ih = Cons.IH [OF rest]
  have fresh: "\<forall>v \<in> set us. u_outpoint v \<noteq> u_outpoint u" using ih by (metis fun_upd_same option.distinct(1))
  then have "find (\<lambda>v. u_outpoint v = u_outpoint u) us = None" by (simp add: find_None_iff)
  then have "m' = (\<lambda>op. case find (\<lambda>u. u_outpoint u = op) (u # us) of None \<Rightarrow> m op | Some u \<Rightarrow> Some u)"
    using ih by (auto simp: fun_eq_iff split: option.split)
  then show ?case using ih new fresh by (auto simp: fun_upd_def split: if_split_asm)
qed

lemma foldR_insert_ok:
  assumes "distinct (map u_outpoint us)" and "\<forall>u \<in> set us. m (u_outpoint u) = None"
    and "\<forall>u \<in> set us. sqlite_int (u_amount u) \<and> sqlite_int (u_block_height u)"
  shows "\<exists>m'. foldR insert_utxo m us = Inr m'"
  using assms
proof (induction us arbitrary: m)
  case (Cons u us)
  then have "\<forall>v \<in> set us. (m(u_outpoint u \<mapsto> u)) (u_outpoint v) = None" by (auto simp: image_iff)
  then have "\<exists>m'. foldR insert_utxo (m(u_outpoint u \<mapsto> u)) us = Inr m'" using Cons by simp
  moreover have "insert_utxo m u = Inr (m(u_outpoint u \<mapsto> u))" using Cons.prems by (simp add: insert_utxo_Inr)
  ultimately show ?case by simp
qed simp

text \<open>
  The undo data that fits a set of unspent outputs and a delta: what the delta deletes is recorded, every
  created outpoint is listed, and a listed outpoint that was unspent before is recorded too.
\<close>

definition undo_fits :: "(bytes \<Rightarrow> utxo option) \<Rightarrow> bytes list \<Rightarrow> utxo list \<Rightarrow> block_undo \<Rightarrow> bool" where
  "undo_fits us spent created undo \<longleftrightarrow>
     (\<forall>u \<in> set (un_spent undo). us (u_outpoint u) = Some u)
     \<and> distinct (map u_outpoint (un_spent undo))
     \<and> (\<forall>op \<in> set spent. us op \<noteq> None \<longrightarrow> op \<in> set (map u_outpoint (un_spent undo)))
     \<and> set (map u_outpoint created) \<subseteq> set (un_created undo)
     \<and> (\<forall>op \<in> set (un_created undo). us op \<noteq> None \<longrightarrow> op \<in> set (map u_outpoint (un_spent undo)))"

lemma disconnect_restores_map:
  assumes fits: "undo_fits us spent created undo"
    and conn: "foldR insert_utxo (delete_utxos us spent) created = Inr us1"
    and disc: "foldR insert_utxo (delete_utxos (delete_utxos us1 (un_created undo)) (map u_outpoint (un_spent undo)))
        (un_spent undo) = Inr us2"
  shows "us2 = us"
proof
  fix op
  have us1: "us1 op = us op" if "op \<notin> set (un_created undo)" "op \<notin> set spent"
  proof -
    have "op \<notin> set (map u_outpoint created)" using fits that by (auto simp: undo_fits_def)
    then have "find (\<lambda>u. u_outpoint u = op) created = None" by (auto simp: find_None_iff)
    then show ?thesis using foldR_insert_Inr [OF conn] that by (simp add: delete_utxos_def)
  qed
  show "us2 op = us op"
  proof (cases "find (\<lambda>u. u_outpoint u = op) (un_spent undo)")
    case None
    then have n: "op \<notin> set (map u_outpoint (un_spent undo))" by (auto simp: find_None_iff)
    have "us2 op = (if op \<in> set (un_created undo) then None else us1 op)"
      using foldR_insert_Inr [OF disc] None n by (simp add: delete_utxos_def)
    moreover have "us op = None" if "op \<in> set (un_created undo) \<or> op \<in> set spent"
      using fits n that by (auto simp: undo_fits_def)
    moreover have "us1 op = None" if "op \<in> set spent" "op \<notin> set (un_created undo)"
    proof -
      have "op \<notin> set (map u_outpoint created)" using fits that by (auto simp: undo_fits_def)
      then have "find (\<lambda>u. u_outpoint u = op) created = None" by (auto simp: find_None_iff)
      then show ?thesis using foldR_insert_Inr [OF conn] that by (simp add: delete_utxos_def)
    qed
    ultimately show ?thesis using us1 by (cases "op \<in> set spent") auto
  next
    case (Some u)
    then have "us2 op = Some u" using foldR_insert_Inr [OF disc] by simp
    moreover have "u \<in> set (un_spent undo)" "u_outpoint u = op" using Some by (auto simp: find_Some_iff)
    ultimately show ?thesis using fits by (auto simp: undo_fits_def)
  qed
qed

section \<open>The branch of an invalid block\<close>

text \<open>The specification: a block of the index and everything that descends from it.\<close>

inductive in_branch :: "index_entry list \<Rightarrow> bytes \<Rightarrow> bytes \<Rightarrow> bool" for rows h where
  root: "e \<in> set rows \<Longrightarrow> ie_hash e = h \<Longrightarrow> in_branch rows h h"
| child: "in_branch rows h p \<Longrightarrow> e \<in> set rows \<Longrightarrow> ie_prev e = p \<Longrightarrow> in_branch rows h (ie_hash e)"

inductive_cases in_branchE: "in_branch rows h x"

definition branch_closed :: "index_entry list \<Rightarrow> bytes set \<Rightarrow> bool" where
  "branch_closed rows S \<longleftrightarrow> (\<forall>e \<in> set rows. ie_prev e \<in> S \<longrightarrow> ie_hash e \<in> S)"

lemma branch_rounds_mono: "set found \<subseteq> set (branch_rounds rows n found)"
  by (induction n arbitrary: found) (simp, force)

lemma branch_rounds_sound:
  "\<forall>x \<in> set found. in_branch rows h x \<Longrightarrow> x \<in> set (branch_rounds rows n found) \<Longrightarrow> in_branch rows h x"
proof (induction n arbitrary: found)
  case (Suc n)
  let ?new = "map ie_hash (filter (\<lambda>e. ie_prev e \<in> set found \<and> ie_hash e \<notin> set found) rows)"
  have "in_branch rows h x" if "x \<in> set (found @ ?new)" for x
    using that Suc.prems(1) by (auto intro: in_branch.child)
  then show ?case using Suc.IH [of "found @ ?new"] Suc.prems(2) by simp
qed simp

text \<open>A round that adds nothing has reached the end; every other round finds a new hash of the index.\<close>

lemma branch_rounds_closed:
  "card (ie_hash ` set rows - set found) \<le> n \<Longrightarrow> branch_closed rows (set (branch_rounds rows n found))"
proof (induction n arbitrary: found)
  case 0
  then have "ie_hash ` set rows \<subseteq> set found" by (simp add: card_eq_0_iff)
  then show ?case by (auto simp: branch_closed_def)
next
  case (Suc n)
  let ?new = "map ie_hash (filter (\<lambda>e. ie_prev e \<in> set found \<and> ie_hash e \<notin> set found) rows)"
  show ?case
  proof (cases "?new = []")
    case True
    then have "branch_closed rows (set found)" by (auto simp: branch_closed_def filter_empty_conv)
    moreover have "branch_rounds rows m found = found" for m using True by (induction m) simp_all
    ultimately show ?thesis by (simp only:)
  next
    case False
    then have x: "hd ?new \<in> set ?new" by (rule hd_in_set)
    then have "ie_hash ` set rows - set (found @ ?new) \<subset> ie_hash ` set rows - set found" using x by auto
    then have "card (ie_hash ` set rows - set (found @ ?new)) < card (ie_hash ` set rows - set found)"
      by (intro psubset_card_mono) auto
    then have "card (ie_hash ` set rows - set (found @ ?new)) \<le> n" using Suc.prems by linarith
    from Suc.IH [OF this] show ?thesis by simp
  qed
qed

lemma invalid_branch_iff: "x \<in> set (invalid_branch rows h) \<longleftrightarrow> in_branch rows h x"
proof
  show "x \<in> set (invalid_branch rows h) \<Longrightarrow> in_branch rows h x"
    unfolding invalid_branch_def by (erule branch_rounds_sound [rotated]) (auto intro: in_branch.root)
  have "card (ie_hash ` set rows - s) \<le> length rows" for s :: "bytes set"
  proof -
    have "card (ie_hash ` set rows - s) \<le> card (ie_hash ` set rows)" by (intro card_mono) auto
    also have "\<dots> \<le> card (set rows)" by (rule card_image_le) simp
    also have "\<dots> \<le> length rows" by (rule card_length)
    finally show ?thesis .
  qed
  then have closed: "branch_closed rows (set (invalid_branch rows h))"
    unfolding invalid_branch_def by (intro branch_rounds_closed)
  show "in_branch rows h x \<Longrightarrow> x \<in> set (invalid_branch rows h)"
  proof (induction rule: in_branch.induct)
    case (root e)
    then show ?case unfolding invalid_branch_def
      by (intro subsetD [OF branch_rounds_mono]) auto
  next
    case (child p e)
    then show ?case using closed by (auto simp: branch_closed_def)
  qed
qed

text \<open>
  C37: marking a block invalid marks exactly the block and its descendants in the index, and every other entry keeps
  its flags; nothing else of the database changes.
\<close>

theorem invalid_marks_descendants:
  "db_index (mark_block_branch_invalid h db) =
     map (\<lambda>e. if in_branch (db_index db) h (ie_hash e) then e\<lparr>ie_active := False, ie_status := STATUS_INVALID\<rparr> else e)
       (db_index db)
   \<and> db_utxos (mark_block_branch_invalid h db) = db_utxos db
   \<and> db_blocks (mark_block_branch_invalid h db) = db_blocks db
   \<and> db_store (mark_block_branch_invalid h db) = db_store db"
  by (simp add: mark_block_branch_invalid_def Let_def invalid_branch_iff)

end
