(* ===== verification/Height_Commitment.thy ===== *)
theory Height_Commitment
  imports Chain_Rules
begin

unbundle bit_operations_syntax

text \<open>
  The height in the coinbase script (BIP 34): the checks of \<^verbatim>\<open>_validate_bip34_height\<close> accept exactly a push of the
  canonical script number of the height, where the number is encoded as the script engine encodes it.
\<close>

lemma low_seven_bits: "b AND 0x7f = 0 \<longleftrightarrow> uint (b :: byte) mod 128 = 0"
proof -
  have "b AND 0x7f = take_bit 7 b" by (simp add: take_bit_eq_mask mask_eq_exp_minus_1)
  moreover have "take_bit 7 b = 0 \<longleftrightarrow> take_bit 7 (uint b) = 0"
    by (metis take_bit_eq_0_iff unsigned_take_bit_eq unsigned_eq_0_iff)
  ultimately show ?thesis by (simp add: take_bit_eq_mod)
qed

lemma minimally_encoded_iff: "is_minimally_encoded_script_num data = minimal_script_num data"
proof (cases data rule: rev_cases)
  case Nil
  then show ?thesis by (simp add: is_minimally_encoded_script_num_def minimal_script_num_def)
next
  case (snoc ys y)
  show ?thesis
  proof (cases ys rule: rev_cases)
    case Nil
    then show ?thesis
      by (simp add: is_minimally_encoded_script_num_def minimal_script_num_def snoc low_seven_bits)
  next
    case (snoc zs z)
    have "butlast data = zs @ [z]" by (simp only: \<open>data = ys @ [y]\<close> snoc butlast_snoc)
    moreover have "data ! (length data - 2) = z" "length data \<noteq> 1" "data \<noteq> []" "last data = y"
      by (simp_all add: \<open>data = ys @ [y]\<close> snoc nth_append)
    ultimately show ?thesis
      using bit7_iff [of z] unfolding is_minimally_encoded_script_num_def minimal_script_num_def low_seven_bits
      by auto
  qed
qed

lemma decode_script_num_value: "decode_script_num data = script_num_value data"
proof (cases "data = []")
  case True
  then show ?thesis by (simp add: decode_script_num_def script_num_value_def)
next
  case False
  define m where "m = length data - 1"
  have len: "length data = Suc m" using False by (cases data) (auto simp: m_def)
  have val: "le_val data = le_val (butlast data) + 256 ^ m * uint (last data)"
    using False by (simp add: le_val_butlast m_def)
  have low: "le_val (butlast data) < 256 ^ m" using le_val_bound [of "butlast data"] by (simp add: m_def)
  have p: "push_bit (8 * m) (0x80 :: int) = push_bit (8 * Suc m - 1) 1"
    by (simp add: push_bit_eq_mult power_add)
  show ?thesis
  proof (cases "128 \<le> uint (last data)")
    case True
    have "le_val data AND NOT (push_bit (8 * m) 0x80) = le_val (butlast data) + 256 ^ m * (uint (last data) - 128)"
      unfolding val p using low True uint_byte_bounds [of "last data"] by (intro clear_sign_bit) auto
    with True False show ?thesis
      by (simp add: decode_script_num_def Let_def bit7_iff script_num_value_def val len algebra_simps)
  next
    case False
    with \<open>data \<noteq> []\<close> show ?thesis by (simp add: decode_script_num_def Let_def bit7_iff script_num_value_def)
  qed
qed

text \<open>The canonical encodings of one positive number have the same length.\<close>

lemma minimal_positive_bounds:
  assumes "minimal_script_num bs" and "script_num_value bs = h" and "0 < h"
  shows "le_val bs = h \<and> bs \<noteq> [] \<and> h < 128 * 256 ^ (length bs - 1) \<and> (2 \<le> length bs \<longrightarrow> 128 * 256 ^ (length bs - 2) \<le> h)"
proof (cases bs rule: rev_cases)
  case Nil
  then show ?thesis using assms by (simp add: script_num_value_def)
next
  case (snoc ys y)
  have v: "le_val bs = le_val ys + 256 ^ length ys * uint y" by (simp add: snoc le_val_snoc)
  have b: "le_val ys < 256 ^ length ys" by (rule le_val_bound)
  have "\<not> 128 \<le> uint y"
  proof
    assume "128 \<le> uint y"
    then have "h = - (le_val ys + 256 ^ length ys * (uint y - 128))"
      using assms(2) v by (simp add: script_num_value_def snoc algebra_simps)
    moreover have "0 \<le> 256 ^ length ys * (uint y - 128)" using \<open>128 \<le> uint y\<close> by simp
    ultimately show False using assms(3) le_val_nonneg [of ys] by linarith
  qed
  then have h: "le_val bs = h" using assms(2) by (simp add: script_num_value_def snoc)
  have "(256 :: int) ^ length ys * uint y \<le> 256 ^ length ys * 127" using \<open>\<not> 128 \<le> uint y\<close> by (intro mult_left_mono) auto
  then have upper: "h < 128 * 256 ^ length ys" using h v b by linarith
  have lower: "128 * 256 ^ (length ys - 1) \<le> h" if "ys \<noteq> []"
  proof (cases "uint y = 0")
    case True
    then have "128 \<le> uint (last ys)" using assms(1) that by (simp add: minimal_script_num_def snoc)
    then have "256 ^ (length ys - 1) * 128 \<le> 256 ^ (length ys - 1) * uint (last ys)" by (intro mult_left_mono) auto
    then show ?thesis using le_val_butlast [OF that] le_val_nonneg [of "butlast ys"] h v True
      by (simp only: mult_zero_right add_0_right)
  next
    case False
    then have "1 \<le> uint y" using uint_byte_bounds [of y] by linarith
    then have "256 ^ length ys * 1 \<le> 256 ^ length ys * uint y" by (intro mult_left_mono) auto
    moreover have "(256 :: int) ^ length ys = 256 * 256 ^ (length ys - 1)" using that by (cases ys) auto
    moreover have "(0 :: int) \<le> 256 ^ (length ys - 1)" by simp
    ultimately show ?thesis using h v le_val_nonneg [of ys] by linarith
  qed
  have "2 \<le> length bs \<longrightarrow> 128 * 256 ^ (length bs - 2) \<le> h" using lower by (cases "ys = []") (simp_all add: snoc)
  then show ?thesis using h upper by (simp add: snoc)
qed

lemma minimal_positive_unique:
  assumes "minimal_script_num xs" "minimal_script_num ys" "script_num_value xs = h" "script_num_value ys = h" "0 < h"
  shows "xs = ys"
proof -
  have False if m: "minimal_script_num as" "minimal_script_num bs" "script_num_value as = h" "script_num_value bs = h"
    and l: "length as < length bs" for as bs
  proof -
    have "as \<noteq> []" "h < 128 * 256 ^ (length as - 1)" using minimal_positive_bounds [OF m(1,3) assms(5)] by auto
    moreover have "128 * 256 ^ (length bs - 2) \<le> h"
      using minimal_positive_bounds [OF m(2,4) assms(5)] l \<open>as \<noteq> []\<close> by (cases as) auto
    moreover have "(256 :: int) ^ (length as - 1) \<le> 256 ^ (length bs - 2)" using l by (intro power_increasing) auto
    ultimately show False by linarith
  qed
  then have "length xs = length ys" using assms by (metis nat_neq_iff)
  moreover have "le_val xs = le_val ys" using minimal_positive_bounds assms by metis
  ultimately show ?thesis by (rule le_val_inj)
qed

lemma le_bytes_numeral: "le_bytes (numeral k) v = word_of_int v # le_bytes (pred_numeral k) (v div 256)"
  by (simp add: numeral_eq_Suc)

text \<open>
  for a positive height below 2^31 the coinbase check accepts a script exactly when it begins with a direct push of
  the script number the engine encodes the height as, so a script that commits to a height of at most 16 with the
  opcode OP_1 to OP_16, as the reference client writes it, is rejected.
\<close>

theorem height_commitments:
  assumes "0 < h" and "h < 2 ^ 31"
  shows "(validate_bip34_height s h \<longleftrightarrow>
      (\<exists>bs rest. bitnum_encode h = Inr bs \<and> s = word_of_nat (length bs) # bs @ rest))
    \<and> (h \<le> 16 \<longrightarrow> \<not> validate_bip34_height (word_of_int (0x50 + h) # s) h)"
proof
  obtain bs where e: "bitnum_encode h = Inr bs" using bitnum_encode_Inr_iff [of h] assms by auto
  note d = bitnum_encode_decodes [OF e] and m = bitnum_encode_minimal [OF e]
  have ne: "bs \<noteq> []" using minimal_positive_bounds [OF m _ assms(1)] d by blast
  have len: "unat (word_of_nat (length bs) :: byte) = length bs" using d by (simp add: unat_of_nat)
  show "validate_bip34_height s h \<longleftrightarrow> (\<exists>bs rest. bitnum_encode h = Inr bs \<and> s = word_of_nat (length bs) # bs @ rest)"
  proof
    assume v: "validate_bip34_height s h"
    then obtain p t where s: "s = p # t" by (cases s) (auto simp: validate_bip34_height_def)
    let ?bs = "take (unat p) t"
    have p: "unat p \<noteq> 0" "unat p \<le> length t" "minimal_script_num ?bs" "script_num_value ?bs = h"
      using v by (auto simp: validate_bip34_height_def Let_def s minimally_encoded_iff decode_script_num_value split: if_split_asm)
    have "?bs = bs" by (rule minimal_positive_unique [OF p(3) m p(4) _ assms(1)]) (use d in simp)
    moreover have "word_of_nat (unat p) = p" by simp
    moreover have "length ?bs = unat p" using p(2) by simp
    moreover have "t = ?bs @ drop (unat p) t" by simp
    ultimately have "s = word_of_nat (length bs) # bs @ drop (unat p) t" using s by (simp only:)
    then show "\<exists>bs rest. bitnum_encode h = Inr bs \<and> s = word_of_nat (length bs) # bs @ rest" using e by blast
  next
    assume "\<exists>bs rest. bitnum_encode h = Inr bs \<and> s = word_of_nat (length bs) # bs @ rest"
    then obtain rest where "s = word_of_nat (length bs) # bs @ rest" using e by auto
    moreover have "length bs \<le> 4" "script_num_value bs = h" "length bs \<noteq> 0" using d ne by auto
    ultimately show "validate_bip34_height s h" using m
      unfolding validate_bip34_height_def minimally_encoded_iff decode_script_num_value
      by (simp add: len)
  qed
  show "h \<le> 16 \<longrightarrow> \<not> validate_bip34_height (word_of_int (0x50 + h) # s) h"
  proof
    assume "h \<le> 16"
    then have "unat (word_of_int (0x50 + h) :: byte) = nat (0x50 + h)"
      using assms(1) by (simp only: unat_eq_nat_uint uint_word_of_int) simp
    moreover have "nat (0x50 + h) > 5" using assms(1) by simp
    ultimately show "\<not> validate_bip34_height (word_of_int (0x50 + h) # s) h"
      unfolding validate_bip34_height_def Let_def by (simp only: list.sel) simp
  qed
qed

lemma height_commitments_witness:
  "validate_bip34_height [2, 0xe8, 0x03, 0x51] 1000 \<and> \<not> validate_bip34_height [0x51, 0x51] 1"
proof -
  have "bitnum_encode 1000 = Inr [0xe8, 0x03]"
    using bitnum_encode_pos(1) [of 1000] by (simp add: byte_length_def bit_length.simps le_bytes_numeral Let_def)
  then have "validate_bip34_height [2, 0xe8, 0x03, 0x51] 1000"
    using height_commitments [of 1000 "[2, 0xe8, 0x03, 0x51]"] by auto
  moreover have "\<not> validate_bip34_height [0x51, 0x51] 1" using height_commitments [of 1 "[0x51]"] by simp
  ultimately show ?thesis by blast
qed

end
