(* ===== verification/Chain_Rules_Facts.thy ===== *)
theory Chain_Rules_Facts
  imports Chain_Rules Chain_DB_Facts Height_Commitment
begin

unbundle bit_operations_syntax

text \<open>
  What the rules guarantee: the subsidies of all heights stay within the supply, a retarget moves the target by at
  most a factor of four, signature operations are counted on the parsed script, and an accepted block has the work,
  weight, coinbase and transactions it must have.
\<close>

section \<open>Subsidy and difficulty\<close>

lemma calc_subsidy_nonneg: "0 \<le> calc_subsidy h"
  by (simp add: calc_subsidy_def Let_def INITIAL_SUBSIDY_def)

lemma calc_subsidy_era: "calc_subsidy (int (210000 * k + i)) = (if k < 64 then 5000000000 div 2 ^ k else 0)" if "i < 210000" for k i
proof -
  have "int (210000 * k + i) div 210000 = int k" using that by simp
  then show ?thesis by (simp add: calc_subsidy_def HALVING_INTERVAL_def INITIAL_SUBSIDY_def Let_def drop_bit_eq_div)
qed

definition era_total :: "nat \<Rightarrow> int" where
  "era_total n = (\<Sum>k<n. 210000 * (if k < 64 then 5000000000 div 2 ^ k else 0))"

lemma sum_split: "(\<Sum>h < a + m. f h) = (\<Sum>h < a. f h) + (\<Sum>i < m. f (a + i :: nat) :: int)"
  by (induction m) auto

lemma sum_eras: "(\<Sum>h < 210000 * n. calc_subsidy (int h)) = era_total n"
proof (induction n)
  case (Suc n)
  have "210000 * Suc n = 210000 * n + 210000" by simp
  then have "(\<Sum>h < 210000 * Suc n. calc_subsidy (int h))
      = (\<Sum>h < 210000 * n. calc_subsidy (int h)) + (\<Sum>i < 210000. calc_subsidy (int (210000 * n + i)))"
    by (simp only: sum_split)
  also have "(\<Sum>i < 210000. calc_subsidy (int (210000 * n + i))) =
      (\<Sum>i \<in> {..<(210000 :: nat)}. if n < 64 then 5000000000 div 2 ^ n else 0)"
    by (rule sum.cong [OF refl]) (simp only: calc_subsidy_era lessThan_iff)
  also have "\<dots> = 210000 * (if n < 64 then 5000000000 div 2 ^ n else 0)" by (simp only: sum_constant card_lessThan)
  finally show ?case using Suc.IH by (simp only: era_total_def sum.lessThan_Suc)
qed (simp add: era_total_def)

lemma era_total_bound: "era_total n \<le> 2099999997690000"
proof -
  have "era_total n \<le> era_total 64"
  proof (cases "n \<le> 64")
    case True
    then show ?thesis unfolding era_total_def by (intro sum_mono2) (auto simp: pos_imp_zdiv_nonneg_iff)
  next
    case False
    then obtain m where n: "n = 64 + m" by (metis le_add_diff_inverse nat_le_linear)
    have "era_total n = era_total 64 + (\<Sum>i < m. 0)"
      unfolding era_total_def n sum_split by (intro arg_cong2 [of _ _ _ _ "(+)"] refl sum.cong) simp_all
    then show ?thesis by simp
  qed
  also have "era_total 64 = sum_list (map (\<lambda>k. 210000 * (if k < 64 then 5000000000 div 2 ^ k else 0)) [0..<64])"
    unfolding era_total_def by (simp only: interv_sum_list_conv_sum_set_nat atLeast0LessThan set_upt)
  also have "\<dots> = 2099999997690000" by code_simp
  finally show ?thesis .
qed

text \<open>
  the subsidies of any number of blocks, the genesis block included, never exceed 20999999.9769 coins, which is
  below the supply limit of the transaction rules, and no subsidy is negative.
\<close>

theorem subsidies_within_supply:
  "0 \<le> calc_subsidy h \<and> (\<Sum>i < n. calc_subsidy (int i)) \<le> 2099999997690000 \<and> (2099999997690000 :: int) < MAX_MONEY"
proof -
  have "(\<Sum>i < n. calc_subsidy (int i)) \<le> (\<Sum>i < 210000 * n. calc_subsidy (int i))"
    using calc_subsidy_nonneg by (intro sum_mono2) auto
  then show ?thesis using sum_eras [of n] era_total_bound [of n] calc_subsidy_nonneg by (simp add: MAX_MONEY_def)
qed

lemma retarget_bounds:
  assumes "calculate_retarget target t1 t2 = Inr new"
  shows "new \<le> be_val target * 4 \<and> new \<le> 0xffff * 2 ^ 208 \<and> (be_val target div 4 \<le> new \<or> new = 0xffff * 2 ^ 208)"
proof -
  have g: "bits_to_target GENESIS_BLOCK_BITS = Inr g \<Longrightarrow> be_val g = 0xffff * 2 ^ 208" for g
    by (auto simp: bits_to_target_def GENESIS_BLOCK_BITS_def BITS_SIZE_def to_bytes_be_Inr_iff be_val_def)
  define actual where "actual = min (max (t2 - t1) (TWO_WEEK_SECONDS div 4)) (TWO_WEEK_SECONDS * 4)"
  have a: "302400 \<le> actual" "actual \<le> 4838400" by (simp_all add: actual_def TWO_WEEK_SECONDS_def)
  have new: "new = min (be_val target * actual div 1209600) (0xffff * 2 ^ 208)"
    using assms g by (auto simp: calculate_retarget_def Let_def actual_def TWO_WEEK_SECONDS_def)
  have "be_val target * actual div 1209600 \<le> be_val target * 4838400 div 1209600"
    using a(2) by (intro zdiv_mono1 mult_left_mono) auto
  moreover have "be_val target * 302400 div 1209600 \<le> be_val target * actual div 1209600"
    using a(1) by (intro zdiv_mono1 mult_left_mono) auto
  moreover have "be_val target * 4838400 div 1209600 = be_val target * 4" by simp
  moreover have "be_val target * 302400 div 1209600 = be_val target div 4"
    using div_mult_mult2 [of 302400 "be_val target" 4] by simp
  ultimately show ?thesis unfolding new by (auto simp: min_def)
qed

section \<open>Signature operations\<close>

text \<open>The reference: one pass over the operations of a parsed script.\<close>

definition sigops_of_op :: "bool \<Rightarrow> nat option \<Rightarrow> nat \<Rightarrow> int" where
  "sigops_of_op accurate prev opcode =
     (if opcode \<in> {0xac, 0xad} then 1
      else if opcode \<in> {0xae, 0xaf} then
        (case prev of Some p \<Rightarrow> if accurate \<and> p \<in> {0x51..0x60} then int (p - 0x50) else 20 | None \<Rightarrow> 20)
      else 0)"

fun sigops_of :: "bool \<Rightarrow> nat option \<Rightarrow> (nat \<times> bytes option) list \<Rightarrow> int" where
  "sigops_of accurate prev [] = 0"
| "sigops_of accurate prev ((opcode, _) # ops) = sigops_of_op accurate prev opcode + sigops_of accurate (Some opcode) ops"

lemma sigops_of_push [simp]: "opcode \<le> 0x4e \<Longrightarrow> sigops_of_op accurate prev opcode = 0"
  by (simp add: sigops_of_op_def)

lemma count_sigops_loop_step:
  assumes "push_header (unat b) script = Inr (n, rest)" and "case n of None \<Rightarrow> True | Some k \<Rightarrow> k \<le> length rest"
  shows "count_sigops_loop accurate False prev (b # script) =
    sigops_of_op accurate prev (unat b)
      + count_sigops_loop accurate False (Some (unat b)) (drop (case n of None \<Rightarrow> 0 | Some k \<Rightarrow> k) rest)"
proof -
  consider (small) "1 \<le> unat b" "unat b \<le> 75" | (one) "unat b = 0x4c" | (two) "unat b = 0x4d" | (four) "unat b = 0x4e"
    | (op) "\<not> (1 \<le> unat b \<and> unat b \<le> 75)" "unat b \<noteq> 0x4c" "unat b \<noteq> 0x4d" "unat b \<noteq> 0x4e" by linarith
  then show ?thesis
  proof cases
    case small
    then show ?thesis using assms by (auto simp: push_header_def count_sigops_loop.simps(2) Let_def)
  next
    case one
    then show ?thesis using assms by (cases script) (auto simp: push_header_def count_sigops_loop.simps(2) Let_def)
  next
    case two
    then show ?thesis using assms
      by (auto simp: push_header_def count_sigops_loop.simps(2) Let_def add.commute split: if_split_asm)
  next
    case four
    then show ?thesis using assms
      by (auto simp: push_header_def count_sigops_loop.simps(2) Let_def add.commute split: if_split_asm)
  next
    case op
    then have "n = None" "rest = script" using assms(1) by (auto simp: push_header_def)
    then show ?thesis using op
      by (auto simp: count_sigops_loop.simps(2) sigops_of_op_def Let_def split: option.split)
  qed
qed

lemma count_sigops_parsed:
  "parse_script_ops script = Inr ops \<Longrightarrow> count_sigops_loop accurate False prev script = sigops_of accurate prev ops"
proof (induction script arbitrary: ops prev rule: parse_script_ops.induct)
  case 1
  then show ?case by (simp add: count_sigops_loop.simps)
next
  case (2 b script)
  from "2.prems" obtain n rest where h: "push_header (unat b) script = Inr (n, rest)" by auto
  show ?case
  proof (cases n)
    case None
    then obtain ops1 where ops: "parse_script_ops rest = Inr ops1" "ops = (unat b, None) # ops1"
      using "2.prems" h by auto
    show ?thesis using "2.IH"(1) [OF h refl] ops None count_sigops_loop_step [OF h, of accurate prev] by (simp add: None)
  next
    case (Some k)
    then obtain ops1 where ops: "k \<le> length rest" "parse_script_ops (drop k rest) = Inr ops1"
      "ops = (unat b, Some (take k rest)) # ops1"
      using "2.prems" h by (auto split: if_split_asm)
    then show ?thesis using "2.IH"(2) [OF h refl] ops Some count_sigops_loop_step [OF h, of accurate prev] by (simp add: Some)
  qed
qed

text \<open>
  C34: on every script the parser accepts, the byte loop that counts signature operations agrees with one pass over
  the parsed operations: CHECKSIG counts one, CHECKMULTISIG the number that the operation before it pushes when
  the count is accurate and 20 otherwise, and pushed data never counts.
\<close>

theorem sigops_counted_on_parsed:
  assumes "parse_script_ops script = Inr ops"
  shows "count_sigops script accurate = sigops_of accurate None ops"
  unfolding count_sigops_def by (rule count_sigops_parsed) (rule assms)

lemma sigops_counted_on_parsed_witness:
  "count_sigops [0xac, 0x02, 0xac, 0xac, 0x52, 0xae] True = 3"
proof -
  have "parse_script_ops [0xac, 0x02, 0xac, 0xac, 0x52, 0xae] =
      Inr [(0xac, None), (0x02, Some [0xac, 0xac]), (0x52, None), (0xae, None)]"
    by (simp add: push_header_def)
  from sigops_counted_on_parsed [OF this, of True] show ?thesis by (simp add: sigops_of_op_def)
qed

section \<open>Accepted blocks\<close>

lemma andR_True_iff [result_iff]: "andR a b = Inr True \<longleftrightarrow> a = Inr True \<and> b = Inr True"
  by (cases a) (auto simp: andR_def)

lemma validate_block_tx_sound:
  assumes "validate_block_tx E v b h pending seen t = Inr (True, seen')"
  shows "\<exists>ops us. mapR txin_outpoint (t_inputs t) = Inr ops \<and> ops \<noteq> [] \<and> distinct ops \<and> set ops \<inter> seen = {}
    \<and> seen' = seen \<union> set ops \<and> load_inputs E v pending (t_inputs t) = Inr (Some us)
    \<and> (\<exists>bid. block_id (ce_hashes E) b = Inr bid
         \<and> validate_tx_scripts (ce_hashes E) (ce_der E) \<lparr>l_tx = t, l_utxos = us\<rparr>
             (consensus_script_flags (ce_params E) h (Some (b_time b)) (Some bid)) = Inr True)"
proof -
  obtain us l bid where us: "load_inputs E v pending (t_inputs t) = Inr (Some us)" and l: "load_tx t (Some us) = Inr l"
    and bid: "block_id (ce_hashes E) b = Inr bid"
    using assms by (auto simp: validate_block_tx_def Let_def split: option.split_asm)
  define flags where "flags = consensus_script_flags (ce_params E) h (Some (b_time b)) (Some bid)"
  define ctx where "ctx = \<lparr>v_next_height = Some h, v_block_timestamp = Some (b_time b),
    v_get_block_at_height = Some (block_at E v), v_coinbase_maturity = Some COINBASE_MATURITY,
    v_check_locktime = True, v_check_relative_locktime = True, v_validate_scripts = True,
    v_script_validator = Some (\<lambda>l. validate_tx_scripts (ce_hashes E) (ce_der E) l flags), v_current_time = ce_now E\<rparr>"
  have le: "l = \<lparr>l_tx = t, l_utxos = us\<rparr>" using l by (auto simp: load_tx_def split: if_split_asm)
  obtain seen1 where v: "validate_loaded_tx (ce_hashes E) (ce_der E) l ctx (Some seen) = Inr (True, seen1)"
    and s1: "seen' = (case seen1 of None \<Rightarrow> seen | Some s \<Rightarrow> s)"
    using assms us l bid by (auto simp: validate_block_tx_def Let_def ctx_def flags_def)
  note steps = validate_loaded_tx_steps [OF v]
  have "validate_inputs l ctx 0 (t_inputs t) {} (Some seen) = Inr (True, seen1)" using steps by (simp add: le)
  from validate_inputs_sound [OF this] obtain ops where ops: "mapR txin_outpoint (t_inputs t) = Inr ops" "distinct ops"
    "set ops \<inter> seen = {}" "seen1 = Some (seen \<union> set ops)" by auto
  have "t_inputs t \<noteq> []" using steps by (auto simp: validate_tx_structure_def Let_def le split: if_split_asm)
  then have "ops \<noteq> []" using mapR_length [OF ops(1)] by auto
  moreover have "validate_tx_scripts (ce_hashes E) (ce_der E) l flags = Inr True" using steps by (simp add: ctx_def)
  ultimately show ?thesis using ops us bid s1 by (auto simp: le flags_def)
qed

lemma validate_block_txs_sound:
  assumes "validate_block_txs_from E v b h pending seen ts = Inr True"
  shows "\<exists>opss. mapR (\<lambda>t. mapR txin_outpoint (t_inputs t)) ts = Inr opss \<and> distinct (concat opss)
    \<and> set (concat opss) \<inter> seen = {}"
  using assms
proof (induction ts arbitrary: pending seen)
  case (Cons t ts)
  obtain seen1 us where t: "validate_block_tx E v b h pending seen t = Inr (True, seen1)"
    and rest: "validate_block_txs_from E v b h (add_pending pending us) seen1 ts = Inr True"
    using Cons.prems by (auto split: if_split_asm)
  from validate_block_tx_sound [OF t] obtain ops where ops: "mapR txin_outpoint (t_inputs t) = Inr ops" "distinct ops"
    "set ops \<inter> seen = {}" "seen1 = seen \<union> set ops" by blast
  from Cons.IH [OF rest] obtain opss where opss: "mapR (\<lambda>t. mapR txin_outpoint (t_inputs t)) ts = Inr opss"
    "distinct (concat opss)" "set (concat opss) \<inter> seen1 = {}" by blast
  have "mapR (\<lambda>t. mapR txin_outpoint (t_inputs t)) (t # ts) = Inr (ops # opss)" using ops(1) opss(1) by simp
  moreover have "distinct (concat (ops # opss))" "set (concat (ops # opss)) \<inter> seen = {}" using ops opss by auto
  ultimately show ?case by blast
qed simp

lemma validate_block_steps:
  assumes "validate_block E v b = Inr True"
  obtains bid ids where "block_id (ce_hashes E) b = Inr bid"
    and "checkpoint_matches (ce_params E) (bc_height v + 1) bid" and "extends_tip E v b = Inr True"
    and "validate_block_timestamp E v b = Inr True"
    and "expected_bits_for_height E v (bc_height v + 1) = Inr (b_bits b)" and "validate_pow (ce_hashes E) b = Inr True"
    and "b_weight b \<le> MAX_WEIGHT" and "mapR (tx_txid (ce_hashes E)) (b_txs b) = Inr ids" and "distinct ids"
    and "validate_bip30 E v b (bc_height v + 1) = Inr True"
    and "validate_coinbase E v b (bc_height v + 1) = Inr True"
    and "validate_witness_commitment E b (bc_height v + 1) = Inr True" and "validate_block_txs E v b = Inr True"
    and "b_txs b \<noteq> []" and "\<exists>cost. block_sigop_cost E v b = Inr cost \<and> cost \<le> MAX_BLOCK_SIGOP_COST"
  using assms unfolding validate_block_def Let_def
  by (auto simp: andR_True_iff bindR_Inr_iff split: if_split_asm)

text \<open>The value a transaction takes from the database, and what its fee leaves.\<close>

lemma get_tx_fee_value:
  "get_tx_fee E v t = Inr fee \<Longrightarrow>
     input_total_from_db E v (t_inputs t) = Inr (fee + sum_list (map out_amount (t_outputs t))) \<and> 0 \<le> fee"
  by (auto simp: get_tx_fee_def Let_def split: if_split_asm)

lemma fees_value:
  "sumR (get_tx_fee E v) ts = Inr fees \<Longrightarrow>
     sumR (\<lambda>t. input_total_from_db E v (t_inputs t)) ts =
       Inr (fees + sum_list (map (\<lambda>t. sum_list (map out_amount (t_outputs t))) ts)) \<and> 0 \<le> fees"
proof (induction ts arbitrary: fees)
  case (Cons t ts)
  then obtain f fs where f: "get_tx_fee E v t = Inr f" "sumR (get_tx_fee E v) ts = Inr fs" "fees = f + fs" by auto
  show ?case using get_tx_fee_value [OF f(1)] Cons.IH [OF f(2)] by (simp add: f(3))
qed simp

lemma validate_coinbase_steps:
  assumes "validate_coinbase E v b h = Inr True"
  obtains cb rest fees where "b_txs b = cb # rest" and "tx_is_coinbase cb = Inr True"
    and "\<forall>t \<in> set rest. tx_is_coinbase t = Inr False" and "sumR (get_tx_fee E v) rest = Inr fees"
    and "sum_list (map out_amount (t_outputs cb)) \<le> bc_subsidy v + fees"
proof (cases "b_txs b")
  case Nil
  then show ?thesis using assms by (simp add: validate_coinbase_def index_at_def)
next
  case (Cons cb rest)
  then show ?thesis using assms that [OF Cons]
    by (auto simp: validate_coinbase_def index_at_def Let_def anyR_Inr_False not_less split: if_split_asm)
qed

text \<open>
  C1: a block that passes validation extends the tip, carries the work its expected target asks for, keeps the time
  and weight limits, begins with its only coinbase, spends no outpoint twice, neither within nor across its
  transactions, and creates no value: all its outputs together are at most the subsidy plus what it spends from the
  set of unspent outputs.
\<close>

theorem accepted_block_sound:
  assumes "validate_block E v b = Inr True"
  shows "\<exists>bid t cb rest opss spent. block_id (ce_hashes E) b = Inr bid \<and> extends_tip E v b = Inr True
    \<and> expected_bits_for_height E v (bc_height v + 1) = Inr (b_bits b)
    \<and> bits_to_target (b_bits b) = Inr t \<and> le_val bid \<le> be_val t
    \<and> b_time b \<le> ce_now E + 7200 \<and> b_weight b \<le> 4000000
    \<and> b_txs b = cb # rest \<and> tx_is_coinbase cb = Inr True \<and> (\<forall>t \<in> set rest. tx_is_coinbase t = Inr False)
    \<and> mapR (\<lambda>t. mapR txin_outpoint (t_inputs t)) rest = Inr opss \<and> distinct (concat opss)
    \<and> sumR (\<lambda>t. input_total_from_db E v (t_inputs t)) rest = Inr spent
    \<and> sum_list (map (\<lambda>t. sum_list (map out_amount (t_outputs t))) (b_txs b)) \<le> bc_subsidy v + spent"
proof -
  from validate_block_steps [OF assms] obtain bid where bid: "block_id (ce_hashes E) b = Inr bid"
    "extends_tip E v b = Inr True" "validate_block_timestamp E v b = Inr True"
    "expected_bits_for_height E v (bc_height v + 1) = Inr (b_bits b)" "validate_pow (ce_hashes E) b = Inr True"
    "b_weight b \<le> MAX_WEIGHT" "validate_coinbase E v b (bc_height v + 1) = Inr True" "validate_block_txs E v b = Inr True"
    by metis
  obtain t where t: "bits_to_target (b_bits b) = Inr t" "le_val bid \<le> be_val t"
    using bid(1,5) by (auto simp: validate_pow_def)
  have time: "b_time b \<le> ce_now E + 7200"
    using bid(3) by (auto simp: validate_block_timestamp_def MAX_FUTURE_BLOCK_TIME_def split: if_split_asm)
  from validate_coinbase_steps [OF bid(7)] obtain cb rest fees where c: "b_txs b = cb # rest" "tx_is_coinbase cb = Inr True"
    "\<forall>t \<in> set rest. tx_is_coinbase t = Inr False" "sumR (get_tx_fee E v) rest = Inr fees"
    "sum_list (map out_amount (t_outputs cb)) \<le> bc_subsidy v + fees" by metis
  have "validate_block_txs_from E v b (bc_height v + 1) (\<lambda>_. None) {} rest = Inr True"
    using bid(8) by (simp add: validate_block_txs_def c(1))
  from validate_block_txs_sound [OF this] obtain opss where opss: "mapR (\<lambda>t. mapR txin_outpoint (t_inputs t)) rest = Inr opss"
    "distinct (concat opss)" by blast
  note f = fees_value [OF c(4)]
  have "sum_list (map (\<lambda>t. sum_list (map out_amount (t_outputs t))) (b_txs b))
      \<le> bc_subsidy v + (fees + sum_list (map (\<lambda>t. sum_list (map out_amount (t_outputs t))) rest))"
    using c(5) by (simp add: c(1))
  then show ?thesis using bid t time c(1-3) opss f by (auto simp: MAX_WEIGHT_def)
qed

section \<open>A first block\<close>

text \<open>The first block of a test chain: one coinbase of 50 coins, with digests that keep the first 32 bytes.\<close>

lemma le_val_zeros: "le_val (replicate n 0 @ bs) = 256 ^ n * le_val bs"
  by (induction n) simp_all

lemma le_val_zero: "le_val (replicate n 0) = 0"
  using le_val_zeros [of n "[]"] by simp

definition first_tx :: tx where
  "first_tx = \<lparr>t_inputs = [\<lparr>in_txid = replicate 32 0, in_vout = 0xffffffff, in_scriptsig = [0x51, 0x51],
      in_sequence = 0xffffffff\<rparr>],
    t_outputs = [\<lparr>out_amount = 5000000000, out_scriptpubkey = [0x51]\<rparr>], t_witness = [], t_locktime = 0, t_version = 1\<rparr>"

definition sample_env :: chain_env where
  "sample_env = \<lparr>ce_params = REGTEST_CHAIN_PARAMS, ce_hashes = pad_hashes, ce_der = (\<lambda>_. Inl ValueError),
     ce_db = local_config ARCHIVAL, ce_now = 1700000000\<rparr>"

definition empty_view :: chain_view where
  "empty_view = \<lparr>bc_db = empty_tables (open_files []), bc_height = - 1, bc_tip = None, bc_subsidy = 5000000000,
     bc_target = replicate 4 0 @ [0xff, 0xff] @ replicate 26 0\<rparr>"

lemmas write_first = tx_is_segwit_def txin_to_bytes_def txout_to_bytes_def serialize_data_def write_compact_size_def
  MAX_COMPACTSIZE_def to_bytes_le_def get_input_bytes_def get_output_bytes_def

lemma first_preimage: "get_txid_preimage first_tx = Inr ([1, 0, 0, 0, 1] @ replicate 32 0 @ [255, 255, 255, 255, 2, 0x51, 0x51]
    @ [255, 255, 255, 255, 1, 0, 0xf2, 5, 0x2a, 1, 0, 0, 0, 1, 0x51, 0, 0, 0, 0])"
  by (simp add: get_txid_preimage_def tx_to_bytes_def first_tx_def write_first le_bytes_numeral)

lemma first_bytes: "tx_to_bytes first_tx = get_txid_preimage first_tx"
  by (simp add: get_txid_preimage_def tx_is_segwit_def first_tx_def)

definition first_txid :: bytes where "first_txid = [1, 0, 0, 0, 1] @ replicate 27 0"

lemma first_tx_txid: "tx_txid pad_hashes first_tx = Inr first_txid"
  by (simp add: tx_txid_def first_preimage hash256_def pad_hashes_def pad_to_def first_txid_def le_bytes_numeral)

definition first_block :: block where
  "first_block = \<lparr>b_version = 1, b_prev = replicate 32 0, b_time = 5, b_bits = GENESIS_BLOCK_BITS, b_nonce = 3,
     b_txs = [first_tx], b_tree = \<lparr>mt_height = 0, mt_levels = [[first_txid]], mt_root = first_txid\<rparr>, b_weight = 572\<rparr>"

lemma first_block_new:
  "block_new pad_hashes 1 1 (replicate 32 0) 5 GENESIS_BLOCK_BITS 3 [first_tx] = Inr first_block"
proof -
  have "tx_wu first_tx = Inr 252"
    using tx_wu_sizes [of first_tx, OF first_bytes [unfolded first_preimage] first_preimage] by simp
  then show ?thesis by (simp add: block_new_def first_tx_txid merkle_tree_new_def calculate_block_weight_def first_block_def
      GENESIS_BLOCK_BITS_def or_bytes_def)
qed

definition first_id :: bytes where "first_id = [1, 0, 0, 0] @ replicate 28 0"

lemma first_block_id: "block_id pad_hashes first_block = Inr first_id"
  by (simp add: block_id_def header_id_def header_to_bytes_def get_header_def first_block_def to_bytes_le_def
      hash256_def pad_hashes_def pad_to_def first_id_def first_txid_def GENESIS_BLOCK_BITS_def le_bytes_numeral)

lemma first_coinbase: "tx_is_coinbase first_tx = Inr True"
  by (simp add: tx_is_coinbase_def first_tx_def index_at_def le_bytes_numeral)

lemma first_outputs: "new_utxos_from pad_hashes first_tx h c 0 (t_outputs first_tx) =
    Inr [\<lparr>u_outpoint = first_txid @ [0, 0, 0, 0], u_amount = 5000000000, u_scriptpubkey = [0x51], u_block_height = h,
      u_is_coinbase = c\<rparr>]"
  using first_tx_txid by (simp add: first_tx_def to_bytes_le_def utxo_from_txoutput_def le_bytes_numeral)

lemma first_sigops: "tx_sigop_cost first_tx us = Inr 0"
  by (simp add: tx_sigop_cost_def first_coinbase) (simp add: first_tx_def count_sigops_def count_sigops_loop.simps)

lemma genesis_bits_target: "bits_to_target GENESIS_BLOCK_BITS = Inr (bc_target empty_view)"
  by (simp add: bits_to_target_def GENESIS_BLOCK_BITS_def BITS_SIZE_def to_bytes_be_Inr_iff empty_view_def be_val_def le_val_zeros le_val_zero le_bytes_numeral)

lemma sample_env_simps [simp]:
  "ce_hashes sample_env = pad_hashes" "ce_params sample_env = REGTEST_CHAIN_PARAMS"
  "ce_db sample_env = local_config ARCHIVAL" "ce_now sample_env = 1700000000"
  by (simp_all add: sample_env_def)

lemma first_block_fields [simp]:
  "b_txs first_block = [first_tx]" "b_prev first_block = replicate 32 0" "b_time first_block = 5"
  "b_bits first_block = GENESIS_BLOCK_BITS" "b_weight first_block = 572" "mt_root (b_tree first_block) = first_txid"
  by (simp_all add: first_block_def)

lemma empty_view_simps [simp]:
  "bc_height empty_view = - 1" "bc_tip empty_view = None" "bc_subsidy empty_view = 5000000000"
  "db_utxos (bc_db empty_view) = (\<lambda>_. None)"
  by (simp_all add: empty_view_def empty_tables_def)

lemma local_get_utxo [simp]: "mode \<noteq> REMOTE \<Longrightarrow> get_utxo (local_config mode) db op = Inr (db_utxos db op)"
  by (simp add: get_utxo_def local_config_def)

lemma regtest_free: "checkpoint_matches REGTEST_CHAIN_PARAMS h i" "\<not> is_bip30_exception REGTEST_CHAIN_PARAMS h i"
  "bip34_height REGTEST_CHAIN_PARAMS = 1"
  by (simp_all add: checkpoint_matches_def is_bip30_exception_def REGTEST_CHAIN_PARAMS_def)

lemma first_block_valid: "validate_block sample_env empty_view first_block = Inr True"
proof -
  have "validate_pow pad_hashes first_block = Inr True"
    using genesis_bits_target first_block_id
    by (simp add: validate_pow_def empty_view_def first_id_def be_val_def le_val_zeros le_val_zero le_bytes_numeral)
  moreover have "block_sigop_cost sample_env empty_view first_block = Inr 0"
    by (simp add: block_sigop_cost_def block_sigop_step_def first_coinbase first_sigops first_outputs)
  moreover have "validate_bip30 sample_env empty_view first_block 0 = Inr True"
    using first_tx_txid
    by (simp add: validate_bip30_def first_block_id regtest_free) (simp add: first_tx_def to_bytes_le_def)
  moreover have "merkle_tree_new pad_hashes [first_txid] = Inr (b_tree first_block)"
    by (simp add: merkle_tree_new_def first_block_def)
  moreover have "validate_coinbase sample_env empty_view first_block 0 = Inr True"
    by (simp add: validate_coinbase_def first_coinbase index_at_def regtest_free)
      (simp add: first_tx_def MIN_COINBASE_SCRIPT_SIZE_def MAX_COINBASE_SCRIPT_SIZE_def)
  moreover have "validate_witness_commitment sample_env first_block 0 = Inr True"
    by (simp add: validate_witness_commitment_def index_at_def tx_is_segwit_def find_witness_commitment_def)
      (simp add: first_tx_def WITNESS_COMMITMENT_SIZE_def WITNESS_COMMITMENT_HEADER_def)
  moreover have "validate_block_timestamp sample_env empty_view first_block = Inr True"
    by (simp add: validate_block_timestamp_def median_time_past_def MAX_FUTURE_BLOCK_TIME_def)
  ultimately show ?thesis
    by (simp add: validate_block_def first_block_id regtest_free extends_tip_def expected_bits_for_height_def andR_def
        first_tx_txid MAX_WEIGHT_def MAX_BLOCK_SIGOP_COST_def validate_block_txs_def)
qed

lemma accepted_block_sound_witness:
  "\<exists>bid t. block_id pad_hashes first_block = Inr bid \<and> bits_to_target GENESIS_BLOCK_BITS = Inr t \<and> le_val bid \<le> be_val t
    \<and> sum_list (map (\<lambda>t. sum_list (map out_amount (t_outputs t))) (b_txs first_block)) \<le> 5000000000"
proof -
  from accepted_block_sound [OF first_block_valid] obtain bid t rest cb spent where
    w: "block_id pad_hashes first_block = Inr bid" "bits_to_target GENESIS_BLOCK_BITS = Inr t" "le_val bid \<le> be_val t"
      "[first_tx] = cb # rest" "sumR (\<lambda>t. input_total_from_db sample_env empty_view (t_inputs t)) rest = Inr spent"
      "sum_list (map (\<lambda>t. sum_list (map out_amount (t_outputs t))) [first_tx]) \<le> 5000000000 + spent"
    by (auto simp del: sum_list.Cons)
  then show ?thesis by auto
qed

section \<open>Spends within a block\<close>

lemma sumR_members: "sumR f xs = Inr n \<Longrightarrow> x \<in> set xs \<Longrightarrow> \<exists>m. f x = Inr m"
  by (induction xs arbitrary: n) auto

lemma input_total_found:
  "input_total_from_db E v is = Inr n \<Longrightarrow> i \<in> set is \<Longrightarrow> txin_outpoint i = Inr op \<Longrightarrow>
     \<exists>u. get_utxo (ce_db E) (bc_db v) op = Inr (Some u)"
  by (induction "is" arbitrary: n) (auto split: option.split_asm)

text \<open>
  C32: although the transactions of a block are validated against the outputs of the earlier ones, no block with a
  transaction that spends an output the database does not hold, such as one created in the same block, passes: the
  fee calculation looks in the database only and fails.
\<close>

theorem chained_spends_rejected:
  assumes "t \<in> set (tl (b_txs b))" and "i \<in> set (t_inputs t)" and "txin_outpoint i = Inr op"
    and "get_utxo (ce_db E) (bc_db v) op = Inr None"
  shows "validate_block E v b \<noteq> Inr True"
proof
  assume "validate_block E v b = Inr True"
  then have "validate_coinbase E v b (bc_height v + 1) = Inr True" by (rule validate_block_steps)
  from validate_coinbase_steps [OF this] obtain cb rest fees
    where c: "b_txs b = cb # rest" "sumR (get_tx_fee E v) rest = Inr fees" by metis
  then obtain fee where "get_tx_fee E v t = Inr fee" using sumR_members [OF c(2)] assms(1) by auto
  from get_tx_fee_value [OF this] input_total_found [of E v "t_inputs t" _ i op] assms(2-4) show False by auto
qed

definition chained_tx :: tx where
  "chained_tx = first_tx\<lparr>t_inputs := [\<lparr>in_txid = first_txid, in_vout = 0, in_scriptsig = [], in_sequence = 0xffffffff\<rparr>]\<rparr>"

lemma chained_spends_rejected_witness:
  "validate_block sample_env empty_view (first_block\<lparr>b_txs := [first_tx, chained_tx]\<rparr>) \<noteq> Inr True"
  by (rule chained_spends_rejected [where t = chained_tx and i = "hd (t_inputs chained_tx)" and op = "first_txid @ [0, 0, 0, 0]"])
    (simp_all add: chained_tx_def txin_outpoint_def to_bytes_le_def le_bytes_numeral)

text \<open>
  The coinbase of the block at height \<open>h + 1\<close> may claim the subsidy of height \<open>h\<close>: with the cached subsidy the
  chain keeps, the block that starts a halving era is allowed the reward of the era before.
\<close>

lemma subsidy_lags_one_block:
  assumes "bc_subsidy v = calc_subsidy (bc_height v)" and "b_txs b = [cb]" and "tx_is_coinbase cb = Inr True"
    and "sum_list (map out_amount (t_outputs cb)) = calc_subsidy (bc_height v)"
    and "t_inputs cb = [i]" and "2 \<le> length (in_scriptsig i)" and "length (in_scriptsig i) \<le> 100"
    and "validate_bip34_height (in_scriptsig i) (bc_height v + 1)"
  shows "validate_coinbase E v b (bc_height v + 1) = Inr True"
  using assms by (simp add: validate_coinbase_def index_at_def MIN_COINBASE_SCRIPT_SIZE_def MAX_COINBASE_SCRIPT_SIZE_def Let_def)

end
