(* ===== verification/Ledger.thy ===== *)
theory Ledger
  imports Blockchain Chain_Rules_Facts
begin

text \<open>
  The set of unspent outputs under connecting and disconnecting. The abstract ledger is a stack of snapshots:
  attaching a block pushes the set after the block, detaching pops. The concrete steps are those of the loops of
  \<^verbatim>\<open>reorganize_to\<close>: they keep one set, write undo data and read it back.
\<close>

section \<open>Outputs and inputs of a block\<close>

definition utxos_keyed :: "(bytes \<Rightarrow> utxo option) \<Rightarrow> bool" where
  "utxos_keyed m \<longleftrightarrow> (\<forall>op u. m op = Some u \<longrightarrow> u_outpoint u = op)"

lemma new_utxos_outpoints:
  "new_utxos_from H t h c vout outs = Inr us \<Longrightarrow>
     \<exists>us'. new_utxos_from H t h' c' vout outs = Inr us' \<and> map u_outpoint us' = map u_outpoint us"
proof (induction outs arbitrary: vout us)
  case (Cons out outs)
  then obtain txid v rest where p: "tx_txid H t = Inr txid" "to_bytes_le 4 vout = Inr v"
    "new_utxos_from H t h c (vout + 1) outs = Inr rest" "us = utxo_from_txoutput (txid @ v) out h c # rest" by auto
  from Cons.IH [OF p(3)] obtain rest' where "new_utxos_from H t h' c' (vout + 1) outs = Inr rest'"
    "map u_outpoint rest' = map u_outpoint rest" by blast
  then show ?case using p by (simp add: utxo_from_txoutput_def)
qed simp

lemma block_outputs_created:
  "block_outputs H h ts = Inr us \<Longrightarrow> block_created_outpoints H ts = Inr ops \<Longrightarrow> map u_outpoint us = ops"
proof (induction ts arbitrary: us ops)
  case (Cons t ts)
  then obtain c us1 us2 us3 ops2 where p: "new_utxos_from H t h c 0 (t_outputs t) = Inr us1" "block_outputs H h ts = Inr us2"
    "us = us1 @ us2" "new_utxos_from H t 0 False 0 (t_outputs t) = Inr us3" "block_created_outpoints H ts = Inr ops2"
    "ops = map u_outpoint us3 @ ops2" by auto
  have "map u_outpoint us3 = map u_outpoint us1" using new_utxos_outpoints [OF p(1), of 0 False] p(4) by auto
  then show ?case using Cons.IH [OF p(2,5)] p by simp
qed simp

lemma remaining_outputs_spec:
  "remaining_outputs exempt spent us = (spent', created) \<Longrightarrow>
     set created \<subseteq> set us \<and> set spent \<subseteq> set spent' \<and> set spent' \<subseteq> set spent \<union> (if exempt then set (map u_outpoint us) else {})"
proof (induction us arbitrary: spent spent' created)
  case (Cons u us)
  show ?case
  proof (cases "u_outpoint u \<in> set spent")
    case True
    then have "remaining_outputs exempt spent us = (spent', created)" using Cons.prems by simp
    from Cons.IH [OF this] show ?thesis by auto
  next
    case False
    then obtain s c where r: "remaining_outputs exempt (if exempt then u_outpoint u # spent else spent) us = (s, c)"
      "spent' = s" "created = u # c" using Cons.prems by (auto split: prod.splits)
    have "set spent \<subseteq> set (if exempt then u_outpoint u # spent else spent)" by auto
    with Cons.IH [OF r(1)] have "set c \<subseteq> set us" "set spent \<subseteq> set s"
      "set s \<subseteq> set spent \<union> (if exempt then set (map u_outpoint (u # us)) else {})" by (blast, blast, cases exempt, auto)
    then show ?thesis using r(2,3) by auto
  qed
qed simp

text \<open>What capturing keeps and what it adds.\<close>

definition captured :: "(bytes \<Rightarrow> utxo option) \<Rightarrow> utxo list \<Rightarrow> bool" where
  "captured m spent \<longleftrightarrow> distinct (map u_outpoint spent) \<and> (\<forall>u \<in> set spent. m (u_outpoint u) = Some u)"

lemma captured_snoc:
  "captured m spent \<Longrightarrow> m (u_outpoint x) = Some x \<Longrightarrow>
     captured m (if u_outpoint x \<in> set (map u_outpoint spent) then spent else spent @ [x])"
  by (auto simp: captured_def)

lemma local_utxo: "c_mode C \<noteq> REMOTE \<Longrightarrow> get_utxo C db op = Inr (db_utxos db op)"
  by (simp add: get_utxo_def)

lemma found_keyed: "utxos_keyed m \<Longrightarrow> m op = Some x \<Longrightarrow> u_outpoint x = op"
  by (auto simp: utxos_keyed_def)

lemma capture_inputs_spec:
  assumes local_mode: "c_mode (ce_db E) \<noteq> REMOTE" and keyed: "utxos_keyed (db_utxos db)"
  shows "capture_inputs E db created spent is = Inr spent1 \<Longrightarrow> captured (db_utxos db) spent \<Longrightarrow>
     captured (db_utxos db) spent1 \<and> set spent \<subseteq> set spent1
     \<and> (\<forall>i \<in> set is. \<forall>op. txin_outpoint i = Inr op \<longrightarrow> op \<notin> set created \<longrightarrow> db_utxos db op \<noteq> None \<longrightarrow>
          op \<in> set (map u_outpoint spent1))"
proof (induction "is" arbitrary: spent)
  case (Cons i "is")
  obtain op where op: "txin_outpoint i = Inr op" using Cons.prems(1) by auto
  show ?case
  proof (cases "op \<in> set created \<or> db_utxos db op = None")
    case True
    then have "capture_inputs E db created spent is = Inr spent1"
      using Cons.prems(1) op by (auto simp: local_utxo [OF local_mode] split: if_split_asm)
    from Cons.IH [OF this Cons.prems(2)] show ?thesis using True op by auto
  next
    case False
    then obtain x where x: "db_utxos db op = Some x" by auto
    note k = found_keyed [OF keyed x]
    let ?s = "if u_outpoint x \<in> set (map u_outpoint spent) then spent else spent @ [x]"
    have "capture_inputs E db created ?s is = Inr spent1" using Cons.prems(1) op False x by (simp add: local_utxo [OF local_mode])
    from Cons.IH [OF this captured_snoc [OF Cons.prems(2)]] x k
    have "captured (db_utxos db) spent1 \<and> set ?s \<subseteq> set spent1
     \<and> (\<forall>i \<in> set is. \<forall>op. txin_outpoint i = Inr op \<longrightarrow> op \<notin> set created \<longrightarrow> db_utxos db op \<noteq> None \<longrightarrow>
          op \<in> set (map u_outpoint spent1))" by simp
    moreover have "set spent \<subseteq> set ?s" "op \<in> set (map u_outpoint ?s)" using k by auto
    moreover have "set (map u_outpoint ?s) \<subseteq> set (map u_outpoint spent1)" using calculation(1) by auto
    ultimately show ?thesis using op by auto
  qed
qed simp

lemma capture_spent_spec:
  assumes local_mode: "c_mode (ce_db E) \<noteq> REMOTE" and keyed: "utxos_keyed (db_utxos db)"
  shows "capture_spent E db created spent ts = Inr spent1 \<Longrightarrow> captured (db_utxos db) spent \<Longrightarrow>
   block_spent_outpoints ts = Inr ops \<Longrightarrow>
     captured (db_utxos db) spent1 \<and> set spent \<subseteq> set spent1
     \<and> (\<forall>op \<in> set ops. op \<notin> set created \<longrightarrow> db_utxos db op \<noteq> None \<longrightarrow> op \<in> set (map u_outpoint spent1))"
proof (induction ts arbitrary: spent ops)
  case (Cons t ts)
  obtain c ops1 ops2 where c: "tx_is_coinbase t = Inr c" "(if c then Inr [] else mapR txin_outpoint (t_inputs t)) = Inr ops1"
    "block_spent_outpoints ts = Inr ops2" "ops = ops1 @ ops2" using Cons.prems(3) by auto
  show ?case
  proof (cases c)
    case True
    then have "capture_spent E db created spent ts = Inr spent1" "ops = ops2" using Cons.prems(1) c by simp_all
    from Cons.IH [OF this(1) Cons.prems(2) c(3)] this(2) show ?thesis by simp
  next
    case False
    obtain s where s: "capture_inputs E db created spent (t_inputs t) = Inr s" "capture_spent E db created s ts = Inr spent1"
      using Cons.prems(1) c(1) False by auto
    note i = capture_inputs_spec [OF local_mode keyed s(1) Cons.prems(2)]
    have rest: "captured (db_utxos db) spent1 \<and> set s \<subseteq> set spent1
     \<and> (\<forall>op \<in> set ops2. op \<notin> set created \<longrightarrow> db_utxos db op \<noteq> None \<longrightarrow> op \<in> set (map u_outpoint spent1))"
      using Cons.IH [OF s(2) _ c(3)] i by blast
    have "\<exists>x \<in> set (t_inputs t). txin_outpoint x = Inr op" if "op \<in> set ops1" for op
    proof -
      have "list_all2 (\<lambda>x y. txin_outpoint x = Inr y) (t_inputs t) ops1" using c(2) False by (simp add: mapR_Inr_iff)
      moreover obtain n where "n < length ops1" "ops1 ! n = op" using \<open>op \<in> set ops1\<close> by (auto simp: in_set_conv_nth)
      ultimately have "n < length (t_inputs t)" "txin_outpoint (t_inputs t ! n) = Inr op"
        by (auto simp: list_all2_conv_all_nth)
      then show ?thesis using nth_mem by blast
    qed
    note found = this
    have sub: "set (map u_outpoint s) \<subseteq> set (map u_outpoint spent1)" using rest by auto
    show ?thesis
    proof (intro conjI ballI impI)
      fix op assume op: "op \<in> set ops" "op \<notin> set created" "db_utxos db op \<noteq> None"
      show "op \<in> set (map u_outpoint spent1)"
      proof (cases "op \<in> set ops1")
        case True
        then obtain x where "x \<in> set (t_inputs t)" "txin_outpoint x = Inr op" using found by blast
        then have "op \<in> set (map u_outpoint s)" using i op(2,3) by blast
        then show ?thesis using sub by blast
      next
        case False
        then have "op \<in> set ops2" using op(1) c(4) by simp
        then show ?thesis using rest op(2,3) by blast
      qed
    qed (use i rest in blast)+
  qed
qed simp

lemma capture_overwritten_spec:
  assumes local_mode: "c_mode (ce_db E) \<noteq> REMOTE" and keyed: "utxos_keyed (db_utxos db)"
  shows "capture_overwritten E db spent ops = Inr spent1 \<Longrightarrow> captured (db_utxos db) spent \<Longrightarrow>
     captured (db_utxos db) spent1 \<and> set spent \<subseteq> set spent1
     \<and> (\<forall>op \<in> set ops. db_utxos db op \<noteq> None \<longrightarrow> op \<in> set (map u_outpoint spent1))"
proof (induction ops arbitrary: spent)
  case (Cons op ops)
  show ?case
  proof (cases "db_utxos db op")
    case None
    then show ?thesis using Cons by (auto simp: local_utxo [OF local_mode])
  next
    case (Some x)
    note k = found_keyed [OF keyed Some]
    let ?s = "if u_outpoint x \<in> set (map u_outpoint spent) then spent else spent @ [x]"
    have "capture_overwritten E db ?s ops = Inr spent1" using Cons.prems(1) Some k by (simp add: local_utxo [OF local_mode])
    from Cons.IH [OF this captured_snoc [OF Cons.prems(2)]] Some k
    have r: "captured (db_utxos db) spent1 \<and> set ?s \<subseteq> set spent1
      \<and> (\<forall>op \<in> set ops. db_utxos db op \<noteq> None \<longrightarrow> op \<in> set (map u_outpoint spent1))" by simp
    moreover have "set spent \<subseteq> set ?s" "op \<in> set (map u_outpoint ?s)" using k by auto
    moreover have "set (map u_outpoint ?s) \<subseteq> set (map u_outpoint spent1)" using r by auto
    ultimately show ?thesis by auto
  qed
qed simp

lemma no_output_exists_spec:
  assumes local_mode: "c_mode (ce_db E) \<noteq> REMOTE"
  shows "no_output_exists E v t vout outs = Inr True \<Longrightarrow> bc_db v = db \<Longrightarrow> new_utxos_from (ce_hashes E) t h c vout outs = Inr us \<Longrightarrow>
     \<forall>op \<in> set (map u_outpoint us). db_utxos db op = None"
proof (induction outs arbitrary: vout us)
  case (Cons out outs)
  then show ?case by (auto simp: local_utxo [OF local_mode] utxo_from_txoutput_def split: if_split_asm)
qed simp

lemma bip30_created:
  assumes local_mode: "c_mode (ce_db E) \<noteq> REMOTE"
  shows "\<forall>t \<in> set ts. no_output_exists E v t 0 (t_outputs t) = Inr True \<Longrightarrow> bc_db v = db \<Longrightarrow>
     block_created_outpoints (ce_hashes E) ts = Inr ops \<Longrightarrow> \<forall>op \<in> set ops. db_utxos db op = None"
proof (induction ts arbitrary: ops)
  case (Cons t ts)
  then obtain us rest where p: "new_utxos_from (ce_hashes E) t 0 False 0 (t_outputs t) = Inr us"
    "block_created_outpoints (ce_hashes E) ts = Inr rest" "ops = map u_outpoint us @ rest" by auto
  have "no_output_exists E v t 0 (t_outputs t) = Inr True" using Cons.prems(1) by simp
  from no_output_exists_spec [OF local_mode this Cons.prems(2) p(1)] Cons.IH [OF _ Cons.prems(2) p(2)] Cons.prems(1) p(3)
  show ?case by auto
qed simp

lemma built_undo_fits:
  assumes local_mode: "c_mode (ce_db E) \<noteq> REMOTE" and keyed: "utxos_keyed (db_utxos db)"
    and undo: "build_block_undo E db b h = Inr undo" and delta: "block_utxo_delta E b h = Inr (sp, cr)"
    and bip30: "validate_bip30 E v b h = Inr True" and v: "bc_db v = db"
  shows "undo_fits (db_utxos db) sp cr undo"
proof -
  obtain created spent bid spent1 where c: "block_created_outpoints (ce_hashes E) (b_txs b) = Inr created"
    "capture_spent E db created [] (b_txs b) = Inr spent" "block_id (ce_hashes E) b = Inr bid"
    "(if is_bip30_exception (ce_params E) h bid then capture_overwritten E db spent created else Inr spent) = Inr spent1"
    "undo = \<lparr>un_spent = spent1, un_created = created\<rparr>"
    using undo by (auto simp: build_block_undo_def)
  let ?ex = "is_bip30_exception (ce_params E) h bid"
  obtain ins outs where d: "block_spent_outpoints (b_txs b) = Inr ins" "block_outputs (ce_hashes E) h (b_txs b) = Inr outs"
    "remaining_outputs ?ex ins outs = (sp, cr)"
    using delta c(3) by (auto simp: block_utxo_delta_def)
  have outs: "map u_outpoint outs = created" by (rule block_outputs_created [OF d(2) c(1)])
  note r = remaining_outputs_spec [OF d(3)]
  have "captured (db_utxos db) []" by (simp add: captured_def)
  note s = capture_spent_spec [OF local_mode keyed c(2) this d(1)]
  have s1: "captured (db_utxos db) spent1 \<and> set spent \<subseteq> set spent1
    \<and> (\<forall>op \<in> set created. db_utxos db op \<noteq> None \<longrightarrow> op \<in> set (map u_outpoint spent1))"
  proof (cases ?ex)
    case True
    then show ?thesis using capture_overwritten_spec [OF local_mode keyed, of spent created spent1] s c(4) by simp
  next
    case False
    then have "anyR (\<lambda>t. bindR (no_output_exists E v t 0 (t_outputs t)) (\<lambda>ok. Inr (\<not> ok))) (b_txs b) = Inr False"
      using bip30 c(3) by (auto simp: validate_bip30_def)
    then have "\<forall>t \<in> set (b_txs b). no_output_exists E v t 0 (t_outputs t) = Inr True"
      by (auto simp: anyR_Inr_False bindR_Inr_iff)
    from bip30_created [OF local_mode this v c(1)] show ?thesis using False s c(4) by auto
  qed
  have "op \<in> set (map u_outpoint spent1)" if "op \<in> set sp" "db_utxos db op \<noteq> None" for op
  proof (cases "op \<in> set created")
    case True
    then show ?thesis using s1 that by blast
  next
    case False
    then have "op \<in> set ins" using r that(1) outs by (auto split: if_split_asm)
    then show ?thesis using s s1 False that(2) by auto
  qed
  moreover have "set (map u_outpoint cr) \<subseteq> set created" using r outs by auto
  ultimately show ?thesis using s1 by (auto simp: undo_fits_def c(5) captured_def)
qed

section \<open>The ledger as a stack of snapshots\<close>

text \<open>
  The specification reads a block directly and knows neither deltas nor undo data: an outpoint is unspent after a block
  if no transaction of the block but the coinbase names it in an input, and either the block has the output or it was
  unspent before. Popping goes back to the snapshot before.
\<close>

type_synonym snapshot = "bytes \<Rightarrow> utxo option"

definition spends :: "tx \<Rightarrow> bytes \<Rightarrow> bool" where
  "spends t op \<longleftrightarrow> (\<exists>i \<in> set (t_inputs t). 0 \<le> in_vout i \<and> in_vout i < 2 ^ 32 \<and> op = in_txid i @ le_bytes 4 (in_vout i))"

definition pays_miner :: "tx \<Rightarrow> bool" where
  "pays_miner t \<longleftrightarrow> (\<exists>i. t_inputs t = [i] \<and> in_txid i = replicate 32 0 \<and> in_vout i = 2 ^ 32 - 1)"

text \<open>The output that an outpoint names: the first one, though a block has a second of the name only by a collision of hashes.\<close>

definition output_named :: "hashes \<Rightarrow> tx \<Rightarrow> bytes \<Rightarrow> tx_out option" where
  "output_named H t op =
     map_option (\<lambda>n. t_outputs t ! n)
       (find (\<lambda>n. case tx_txid H t of Inl _ \<Rightarrow> False | Inr txid \<Rightarrow> op = txid @ le_bytes 4 (int n)) [0..<length (t_outputs t)])"

fun output_of :: "hashes \<Rightarrow> int \<Rightarrow> tx list \<Rightarrow> bytes \<Rightarrow> utxo option" where
  "output_of H h [] op = None"
| "output_of H h (t # ts) op =
     (case output_named H t op of
        None \<Rightarrow> output_of H h ts op
      | Some out \<Rightarrow> Some \<lparr>u_outpoint = op, u_amount = out_amount out, u_scriptpubkey = out_scriptpubkey out,
          u_block_height = h, u_is_coinbase = pays_miner t\<rparr>)"

definition ledger_apply :: "hashes \<Rightarrow> block \<Rightarrow> int \<Rightarrow> snapshot \<Rightarrow> snapshot" where
  "ledger_apply H b h m = (\<lambda>op.
     if \<exists>t \<in> set (b_txs b). \<not> pays_miner t \<and> spends t op then None
     else case output_of H h (b_txs b) op of None \<Rightarrow> m op | Some u \<Rightarrow> Some u)"

datatype ledger_event = Push block int | Pop

fun ledger_step :: "hashes \<Rightarrow> snapshot list \<Rightarrow> ledger_event \<Rightarrow> snapshot list result" where
  "ledger_step H (m # ms) (Push b h) = Inr (ledger_apply H b h m # m # ms)"
| "ledger_step H (m # m1 # ms) Pop = Inr (m1 # ms)"
| "ledger_step H _ _ = Inl IndexError"

text \<open>The delta of a block against this reading of it.\<close>

lemma coinbase_pays: "tx_is_coinbase t = Inr c \<Longrightarrow> c = pays_miner t"
  by (cases "t_inputs t") (auto simp: tx_is_coinbase_def pays_miner_def index_at_def)

lemma outpoint_named: "txin_outpoint i = Inr op \<longleftrightarrow> 0 \<le> in_vout i \<and> in_vout i < 2 ^ 32 \<and> op = in_txid i @ le_bytes 4 (in_vout i)"
  by (auto simp: txin_outpoint_def to_bytes_le_def)

lemma spent_outpoints_spend:
  "block_spent_outpoints ts = Inr ops \<Longrightarrow> op \<in> set ops \<longleftrightarrow> (\<exists>t \<in> set ts. \<not> pays_miner t \<and> spends t op)"
proof (induction ts arbitrary: ops)
  case (Cons t ts)
  then obtain c ops1 ops2 where p: "tx_is_coinbase t = Inr c" "(if c then Inr [] else mapR txin_outpoint (t_inputs t)) = Inr ops1"
    "block_spent_outpoints ts = Inr ops2" "ops = ops1 @ ops2" by auto
  have "op \<in> set ops1 \<longleftrightarrow> spends t op" if "\<not> c"
  proof -
    have "list_all2 (\<lambda>i o1. txin_outpoint i = Inr o1) (t_inputs t) ops1" using p(2) that by (simp add: mapR_Inr_iff)
    then have "op \<in> set ops1 \<longleftrightarrow> (\<exists>i \<in> set (t_inputs t). txin_outpoint i = Inr op)"
      by (induction rule: list_all2_induct) auto
    then show ?thesis by (simp add: spends_def outpoint_named)
  qed
  then show ?case using Cons.IH [OF p(3)] p(2,4) coinbase_pays [OF p(1)] by (cases c) auto
qed simp

lemma new_utxos_named:
  assumes "new_utxos_from H t h c vout outs = Inr us" and "0 \<le> vout"
  shows "find (\<lambda>u. u_outpoint u = op) us =
    map_option (\<lambda>n. utxo_from_txoutput op (outs ! n) h c)
      (find (\<lambda>n. case tx_txid H t of Inl _ \<Rightarrow> False | Inr txid \<Rightarrow> op = txid @ le_bytes 4 (vout + int n)) [0..<length outs])"
  using assms
proof (induction outs arbitrary: vout us)
  case (Cons out outs)
  let ?P = "\<lambda>vout n. case tx_txid H t of Inl _ \<Rightarrow> False | Inr txid \<Rightarrow> op = txid @ le_bytes 4 (vout + int n)"
  obtain txid v rest where p: "tx_txid H t = Inr txid" "to_bytes_le 4 vout = Inr v"
    "new_utxos_from H t h c (vout + 1) outs = Inr rest" "us = utxo_from_txoutput (txid @ v) out h c # rest"
    using Cons.prems(1) by auto
  have v: "v = le_bytes 4 vout" using p(2) by (auto simp: to_bytes_le_def split: if_split_asm)
  have shift: "find (?P vout) (map Suc ns) = map_option Suc (find (?P (vout + 1)) ns)" for ns
    by (induction ns) (simp_all add: p(1) algebra_simps)
  have "[0..<length (out # outs)] = 0 # map Suc [0..<length outs]" by (simp add: upt_conv_Cons map_Suc_upt del: upt_Suc)
  then show ?case
    using Cons.IH [OF p(3)] Cons.prems(2) shift [of "[0..<length outs]"]
    by (simp only: p(4) find.simps) (simp add: p(1) v utxo_from_txoutput_def option.map_comp comp_def)
qed simp

lemma block_outputs_named:
  "block_outputs H h ts = Inr us \<Longrightarrow> find (\<lambda>u. u_outpoint u = op) us = output_of H h ts op"
proof (induction ts arbitrary: us)
  case (Cons t ts)
  then obtain c us1 us2 where p: "(if t_outputs t = [] then Inr False else tx_is_coinbase t) = Inr c"
    "new_utxos_from H t h c 0 (t_outputs t) = Inr us1" "block_outputs H h ts = Inr us2" "us = us1 @ us2" by auto
  have "find (\<lambda>u. u_outpoint u = op) us1 = map_option (\<lambda>out. utxo_from_txoutput op out h c) (output_named H t op)"
    unfolding new_utxos_named [OF p(2) order_refl]
    by (cases "tx_txid H t") (simp_all add: output_named_def option.map_comp comp_def)
  moreover have "c = pays_miner t" if "output_named H t op = Some out" for out
  proof -
    have "t_outputs t \<noteq> []" using that by (auto simp: output_named_def)
    then show ?thesis using p(1) coinbase_pays by simp
  qed
  moreover have "find P (xs @ ys) = (case find P xs of None \<Rightarrow> find P ys | Some x \<Rightarrow> Some x)" for P and xs ys :: "utxo list"
    by (induction xs) simp_all
  ultimately show ?case using Cons.IH [OF p(3)] p(4)
    by (auto simp: utxo_from_txoutput_def split: option.split)
qed simp

lemma remaining_outputs_named:
  "remaining_outputs exempt spent us = (sp, cr) \<Longrightarrow>
     find (\<lambda>u. u_outpoint u = op) cr = (if op \<in> set spent then None else find (\<lambda>u. u_outpoint u = op) us)"
proof (induction us arbitrary: spent sp cr)
  case (Cons u us)
  show ?case
  proof (cases "u_outpoint u \<in> set spent")
    case True
    then show ?thesis using Cons by auto
  next
    case False
    let ?s = "if exempt then u_outpoint u # spent else spent"
    obtain s c where r: "remaining_outputs exempt ?s us = (s, c)" "sp = s" "cr = u # c"
      using Cons.prems False by (auto split: prod.splits)
    from Cons.IH [OF r(1)] show ?thesis using False r(3) by auto
  qed
qed simp

lemma delta_is_ledger:
  assumes "block_utxo_delta E b h = Inr (sp, cr)" and "foldR insert_utxo (delete_utxos m sp) cr = Inr m1"
  shows "m1 = ledger_apply (ce_hashes E) b h m"
proof
  fix op
  obtain bid ins outs where d: "block_spent_outpoints (b_txs b) = Inr ins" "block_outputs (ce_hashes E) h (b_txs b) = Inr outs"
    "remaining_outputs (is_bip30_exception (ce_params E) h bid) ins outs = (sp, cr)"
    using assms(1) by (auto simp: block_utxo_delta_def)
  have m1: "m1 op = (case find (\<lambda>u. u_outpoint u = op) cr of None \<Rightarrow> delete_utxos m sp op | Some u \<Rightarrow> Some u)"
    using foldR_insert_Inr [OF assms(2)] by metis
  have "op \<in> set ins \<Longrightarrow> op \<in> set sp" "op \<in> set sp \<Longrightarrow> op \<notin> set ins \<Longrightarrow> op \<in> u_outpoint ` set outs"
    using remaining_outputs_spec [OF d(3)] by (auto split: if_split_asm)
  moreover have "op \<in> u_outpoint ` set outs \<Longrightarrow> find (\<lambda>u. u_outpoint u = op) outs \<noteq> None" by (auto simp: find_None_iff)
  ultimately show "m1 op = ledger_apply (ce_hashes E) b h m op"
    using remaining_outputs_named [OF d(3), of op] block_outputs_named [OF d(2), of op] spent_outpoints_spend [OF d(1), of op]
    by (auto simp: m1 ledger_apply_def delete_utxos_def split: option.split)
qed

text \<open>
  The runs of the code: a block is connected to the tip, a stored block of another branch is attached, or the last
  attached block is taken off. The hashes of the attached blocks, newest first, tell which one that is.
\<close>

inductive chain_run :: "chain_env \<Rightarrow> blockchain \<Rightarrow> ledger_event list \<Rightarrow> bytes list \<Rightarrow> blockchain \<Rightarrow> bool" for E s where
  start: "chain_run E s [] [] s"
| tip: "chain_run E s evs hs s1 \<Longrightarrow> connect_tip_block E b s1 = (Inr True, s2) \<Longrightarrow>
    block_id (ce_hashes E) b = Inr h \<Longrightarrow> h \<notin> set hs \<Longrightarrow> chain_run E s (evs @ [Push b (bc_height s1 + 1)]) (h # hs) s2"
| attach: "chain_run E s evs hs s1 \<Longrightarrow> connect_candidates E [(e, b)] s1 = (Inr None, s2) \<Longrightarrow>
    ie_height e = bc_height s1 + 1 \<Longrightarrow> has_block_body (bc_db s1) (ie_hash e) \<Longrightarrow> ie_hash e \<notin> set hs \<Longrightarrow>
    chain_run E s (evs @ [Push b (ie_height e)]) (ie_hash e # hs) s2"
| detach: "chain_run E s evs (ie_hash e # hs) s1 \<Longrightarrow> disconnect_blocks E [e] s1 = (Inr (), s2) \<Longrightarrow>
    chain_run E s (evs @ [Pop]) hs s2"

inductive_cases chain_run_pushE: "chain_run E s (evs @ [Push b h]) hs s2"
inductive_cases chain_run_popE: "chain_run E s (evs @ [Pop]) hs s2"

section \<open>What the steps do to the database\<close>

definition undo_rows_ok :: "chain_db \<Rightarrow> bool" where
  "undo_rows_ok db \<longleftrightarrow> (\<forall>h. find_body db h = None \<longrightarrow> db_undo_spent db h = [] \<and> db_undo_created db h = [])"

lemma set_cached_tip_db: "set_cached_tip b h s = (r, s') \<Longrightarrow> bc_db s' = bc_db s \<and> bc_orphans s' = bc_orphans s"
  by (auto simp: set_cached_tip_def run_simps split: sum.split_asm)

lemma on_db_Inr: "on_db m s = (Inr x, s') \<longleftrightarrow> (\<exists>db. m (bc_db s) = (Inr x, db) \<and> s' = s\<lparr>bc_db := db\<rparr>)"
  by (auto simp: on_db_def zoomS_def split: prod.splits)

lemma updateS_Inr: "updateS f s = (Inr x, s') \<longleftrightarrow> f s = Inr s'"
  by (auto simp: updateS_def split: sum.splits)

lemma set_block_active_keeps:
  "set_block_active h a st db = Inr db' \<Longrightarrow> db_utxos db' = db_utxos db \<and> db_blocks db' = db_blocks db
     \<and> db_undo_spent db' = db_undo_spent db \<and> db_undo_created db' = db_undo_created db"
  by (auto simp: set_block_active_def split: if_split_asm)

lemma add_block_undo_new:
  assumes "add_block_undo h undo db = Inr db'" and "db_undo_spent db h = []" and "db_undo_created db h = []"
  shows "db' = db\<lparr>db_undo_spent := (db_undo_spent db)(h := un_spent undo), db_undo_created := (db_undo_created db)(h := un_created undo)\<rparr>"
  using assms by (auto simp: add_block_undo_def split: if_split_asm)

lemma get_block_undo_cong:
  "db_undo_spent db' h = db_undo_spent db h \<Longrightarrow> db_undo_created db' h = db_undo_created db h \<Longrightarrow>
     get_block_undo db' h = get_block_undo db h"
  by (simp add: get_block_undo_def)

text \<open>What a push leaves: the new set, the undo data of the block, everything else of the undo tables.\<close>

definition pushed :: "chain_db \<Rightarrow> bytes \<Rightarrow> block_undo \<Rightarrow> snapshot \<Rightarrow> chain_db \<Rightarrow> bool" where
  "pushed db h undo m db' \<longleftrightarrow> db_utxos db' = m
     \<and> db_undo_spent db' = (db_undo_spent db)(h := un_spent undo) \<and> db_undo_created db' = (db_undo_created db)(h := un_created undo)
     \<and> (\<forall>k. find_body db' k = None \<longrightarrow> find_body db k = None \<and> k \<noteq> h)"

lemma activate_pushed:
  assumes "activate_chain_block h undo sp cr db = Inr db'" and "has_block_body db h"
  shows "\<exists>m. foldR insert_utxo (delete_utxos (db_utxos db) sp) cr = Inr m \<and> pushed db h undo m db'"
proof -
  obtain db1 db2 where a: "add_block_undo h undo (delete_block_undo h db) = Inr db1" "apply_utxo_delta sp cr db1 = Inr db2"
    "set_block_active h True (Some STATUS_VALID) db2 = Inr db'"
    using assms(1) by (auto simp: activate_chain_block_def)
  have db1: "db1 = db\<lparr>db_undo_spent := (db_undo_spent db)(h := un_spent undo), db_undo_created := (db_undo_created db)(h := un_created undo)\<rparr>"
    using add_block_undo_new [OF a(1)] by (simp add: delete_block_undo_def)
  obtain m where m: "foldR insert_utxo (delete_utxos (db_utxos db) sp) cr = Inr m" "db2 = db1\<lparr>db_utxos := m\<rparr>"
    using a(2) by (auto simp: apply_utxo_delta_def db1)
  show ?thesis using set_block_active_keeps [OF a(3)] m db1 assms(2)
    by (auto simp: pushed_def find_body_def has_block_body_def)
qed

lemma connect_pushed:
  assumes conn: "connect_block C H b h undo sp cr db = (Inr (), db')" and bid: "block_id H b = Inr bid" and "undo_rows_ok db"
  shows "\<exists>m. foldR insert_utxo (delete_utxos (db_utxos db) sp) cr = Inr m \<and> pushed db bid undo m db'"
proof -
  obtain bs loc s where w: "store_write (c_mode C) bs (db_store db) = (loc, s)"
    "bindR (insert_block_body H b h loc (db\<lparr>db_store := s\<rparr>)) (\<lambda>db1.
         bindR (add_block_index_entry H (get_header b) h True STATUS_VALID db1) (\<lambda>db2.
         bindR (add_block_undo bid undo db2) (\<lambda>db3. apply_utxo_delta sp cr db3))) = Inr db'"
    using conn bid by (auto simp: connect_block_def run_simps split: sum.split_asm elim!: with_body_success)
  then obtain db1 db2 db3 where a: "insert_block_body H b h loc (db\<lparr>db_store := s\<rparr>) = Inr db1"
    "add_block_index_entry H (get_header b) h True STATUS_VALID db1 = Inr db2" "add_block_undo bid undo db2 = Inr db3"
    "apply_utxo_delta sp cr db3 = Inr db'" by auto
  obtain row where new: "find_body db bid = None"
    and db1: "db1 = db\<lparr>db_store := s, db_blocks := db_blocks db @ [row]\<rparr>" "br_hash row = bid"
    using a(1) bid by (auto simp: insert_block_body_def find_body_def split: if_split_asm)
  have db2: "db_utxos db2 = db_utxos db" "db_undo_spent db2 = db_undo_spent db" "db_undo_created db2 = db_undo_created db"
    "db_blocks db2 = db_blocks db @ [row]"
    using a(2) db1 by (auto simp: add_block_index_entry_def Let_def)
  have "db_undo_spent db bid = []" "db_undo_created db bid = []" using assms(3) new by (auto simp: undo_rows_ok_def)
  then have db3: "db3 = db2\<lparr>db_undo_spent := (db_undo_spent db)(bid := un_spent undo), db_undo_created := (db_undo_created db)(bid := un_created undo)\<rparr>"
    using add_block_undo_new [OF a(3)] db2 by simp
  obtain m where m: "foldR insert_utxo (delete_utxos (db_utxos db) sp) cr = Inr m" "db' = db3\<lparr>db_utxos := m\<rparr>"
    using a(4) by (auto simp: apply_utxo_delta_def db3 db2)
  have "find_body db' k = None \<longrightarrow> find_body db k = None \<and> k \<noteq> bid" for k
    by (auto simp: m(2) db3 db2 find_body_def find_None_iff db1(2))
  then show ?thesis using m by (auto simp: pushed_def db3 db2)
qed

lemma prune_keeps:
  assumes "prune_blocks C h db = (hs, db')"
  shows "db_utxos db' = db_utxos db \<and> (get_block_undo db' k = None \<or> get_block_undo db' k = get_block_undo db k)
    \<and> (undo_rows_ok db \<longrightarrow> undo_rows_ok db')"
proof (cases "db' = db")
  case False
  define gone where "gone = filter (\<lambda>r. br_height r \<le> h - c_keep C) (db_blocks db)"
  have u: "db_utxos db' = db_utxos db" and spent: "db_undo_spent db' = (\<lambda>k. if k \<in> br_hash ` set gone then [] else db_undo_spent db k)"
    and created: "db_undo_created db' = (\<lambda>k. if k \<in> br_hash ` set gone then [] else db_undo_created db k)"
    and blocks: "db_blocks db' = filter (\<lambda>r. \<not> br_height r \<le> h - c_keep C) (db_blocks db)"
    using assms False by (auto simp: prune_blocks_def Let_def gone_def split: if_split_asm)
  have "find_body db' k = None \<Longrightarrow> k \<notin> br_hash ` set gone \<Longrightarrow> find_body db k = None" for k
    unfolding find_body_def blocks find_None_iff gone_def by auto
  then have "undo_rows_ok db \<longrightarrow> undo_rows_ok db'" unfolding undo_rows_ok_def spent created by auto
  then show ?thesis using u by (simp add: get_block_undo_def spent created)
qed simp

section \<open>The stack and the undo data\<close>

text \<open>Undo data that is there leads from a snapshot to the one before.\<close>

definition undoes :: "chain_db \<Rightarrow> bytes \<Rightarrow> snapshot \<Rightarrow> snapshot \<Rightarrow> bool" where
  "undoes db h old new \<longleftrightarrow> (\<forall>undo. get_block_undo db h = Some undo \<longrightarrow>
     (\<exists>sp cr. undo_fits old sp cr undo \<and> foldR insert_utxo (delete_utxos old sp) cr = Inr new))"

fun stack_ok :: "chain_db \<Rightarrow> bytes list \<Rightarrow> snapshot list \<Rightarrow> bool" where
  "stack_ok db [] [m] = utxos_keyed m"
| "stack_ok db (h # hs) (m1 # m # ms) = (undoes db h m m1 \<and> utxos_keyed m1 \<and> stack_ok db hs (m # ms))"
| "stack_ok db _ _ = False"

definition ledger_inv :: "chain_db \<Rightarrow> bytes list \<Rightarrow> snapshot list \<Rightarrow> bool" where
  "ledger_inv db hs ms \<longleftrightarrow> stack_ok db hs ms \<and> db_utxos db = hd ms \<and> undo_rows_ok db"

lemma stack_ok_length: "stack_ok db hs ms \<Longrightarrow> length ms = Suc (length hs) \<and> utxos_keyed (hd ms)"
  by (induction db hs ms rule: stack_ok.induct) auto

lemma stack_ok_weaken:
  "stack_ok db hs ms \<Longrightarrow> \<forall>h \<in> set hs. get_block_undo db' h = None \<or> get_block_undo db' h = get_block_undo db h \<Longrightarrow>
     stack_ok db' hs ms"
  by (induction db hs ms rule: stack_ok.induct) (auto simp: undoes_def)

lemma insert_keeps_keyed: "foldR insert_utxo m us = Inr m' \<Longrightarrow> utxos_keyed m \<Longrightarrow> utxos_keyed m'"
proof (induction us arbitrary: m)
  case (Cons u us)
  then have "insert_utxo m u = Inr (m(u_outpoint u \<mapsto> u))" "foldR insert_utxo (m(u_outpoint u \<mapsto> u)) us = Inr m'"
    by (auto simp: insert_utxo_Inr)
  moreover have "utxos_keyed (m(u_outpoint u \<mapsto> u))" using Cons.prems(2) by (simp add: utxos_keyed_def)
  ultimately show ?case using Cons.IH by blast
qed simp

lemma delete_keeps_keyed: "utxos_keyed m \<Longrightarrow> utxos_keyed (delete_utxos m ops)"
  by (auto simp: utxos_keyed_def delete_utxos_def)

lemma pushed_inv:
  assumes inv: "ledger_inv db hs ms" and p: "pushed db h undo m1 db'" and "h \<notin> set hs"
    and fits: "undo_fits (db_utxos db) sp cr undo" and m1: "foldR insert_utxo (delete_utxos (db_utxos db) sp) cr = Inr m1"
  shows "ledger_inv db' (h # hs) (m1 # ms)"
proof -
  obtain m ms' where ms: "ms = m # ms'" "db_utxos db = m"
    using inv stack_ok_length [of db hs ms] by (cases ms) (auto simp: ledger_inv_def)
  have st: "stack_ok db hs ms" and rows: "undo_rows_ok db" using inv by (simp_all add: ledger_inv_def)
  have key: "utxos_keyed m1" using stack_ok_length [OF st] ms
    by (intro insert_keeps_keyed [OF m1] delete_keeps_keyed) simp
  have "get_block_undo db' k = get_block_undo db k" if "k \<in> set hs" for k
    using p assms(3) that by (auto simp: pushed_def get_block_undo_def)
  then have "stack_ok db' hs ms" by (intro stack_ok_weaken [OF st]) simp
  moreover have "undoes db' h m m1"
  proof -
    have "get_block_undo db' h = Some u \<Longrightarrow> u = undo" for u
      using p by (cases undo) (simp add: pushed_def get_block_undo_def split: if_split_asm)
    then show ?thesis using fits m1 ms(2) unfolding undoes_def by blast
  qed
  moreover have "undo_rows_ok db'" using rows p by (simp add: undo_rows_ok_def pushed_def)
  ultimately show ?thesis using p key by (simp add: ledger_inv_def ms pushed_def)
qed

lemma popped_inv:
  assumes inv: "ledger_inv db (h # hs) ms" and undo: "get_block_undo db h = Some undo"
    and "disconnect_chain_block h undo STATUS_VALID db = Inr db'"
  shows "\<exists>m1 ms'. ms = m1 # ms' \<and> ms' \<noteq> [] \<and> ledger_inv db' hs ms'"
proof -
  obtain m1 m ms' where ms: "ms = m1 # m # ms'" "db_utxos db = m1" "undoes db h m m1" "stack_ok db hs (m # ms')"
    using inv stack_ok_length [of db "h # hs" ms] by (cases ms; cases "tl ms") (auto simp: ledger_inv_def)
  obtain us where us: "foldR insert_utxo (delete_utxos (delete_utxos m1 (un_created undo)) (map u_outpoint (un_spent undo)))
      (un_spent undo) = Inr us" "set_block_active h False (Some STATUS_VALID) (db\<lparr>db_utxos := us\<rparr>) = Inr db'"
    using assms(3) ms(2) by (auto simp: disconnect_chain_block_def)
  have "us = m" using ms(3) undo us(1) disconnect_restores_map by (auto simp: undoes_def)
  note k = set_block_active_keeps [OF us(2)]
  have "stack_ok db' hs (m # ms')" using ms(4) k by (intro stack_ok_weaken [OF ms(4)]) (simp add: get_block_undo_def)
  then have "ledger_inv db' hs (m # ms')" using k inv \<open>us = m\<close>
    by (auto simp: ledger_inv_def undo_rows_ok_def find_body_def)
  then show ?thesis using ms(1) by blast
qed

lemma prune_inv: "ledger_inv db hs ms \<Longrightarrow> prune_blocks C h db = (r, db') \<Longrightarrow> ledger_inv db' hs ms"
  using prune_keeps [of C h db r db'] by (auto simp: ledger_inv_def intro: stack_ok_weaken)

section \<open>The refinement\<close>

lemma inv_keyed: "ledger_inv db hs ms \<Longrightarrow> utxos_keyed (db_utxos db)"
  using stack_ok_length [of db hs ms] by (simp add: ledger_inv_def)

lemma inv_apply:
  assumes "ledger_inv db hs ms" and "block_utxo_delta E b h = Inr (sp, cr)"
    and "foldR insert_utxo (delete_utxos (db_utxos db) sp) cr = Inr m"
  shows "ledger_step (ce_hashes E) ms (Push b h) = Inr (m # ms)"
  using assms(1) delta_is_ledger [OF assms(2,3)] stack_ok_length [of db hs ms] by (cases ms) (auto simp: ledger_inv_def)

lemma valid_block_bip30: "validate_block E v b = Inr True \<Longrightarrow> validate_bip30 E v b (bc_height v + 1) = Inr True"
  by (erule validate_block_steps)

lemma tip_step:
  assumes inv: "ledger_inv (bc_db s) hs ms" and local_mode: "c_mode (ce_db E) \<noteq> REMOTE"
    and run: "connect_tip_block E b s = (Inr True, s2)" and bid: "block_id (ce_hashes E) b = Inr h" "h \<notin> set hs"
  shows "\<exists>m. ledger_step (ce_hashes E) ms (Push b (bc_height s + 1)) = Inr (m # ms) \<and> ledger_inv (bc_db s2) (h # hs) (m # ms)"
proof -
  let ?v = "chain_view.truncate s"
  obtain undo sp cr db s3 s4 where a: "validate_block E ?v b = Inr True" "build_block_undo E (bc_db s) b (bc_height s + 1) = Inr undo"
    "block_utxo_delta E b (bc_height s + 1) = Inr (sp, cr)"
    "connect_block (ce_db E) (ce_hashes E) b (bc_height s + 1) undo sp cr (bc_db s) = (Inr (), db)"
    "set_cached_tip (Some b) (bc_height s + 1) (s\<lparr>bc_db := db\<rparr>) = (Inr (), s3)"
    "prune_chain E (bc_height s + 1) s3 = (Inr (), s4)" "s2 = s4"
    using run bid(1)
    by (auto simp: connect_tip_block_def run_simps on_db_Inr split: if_split_asm sum.split_asm prod.split_asm elim!: bindS_InrE)
  have v: "bc_db ?v = bc_db s" "bc_height ?v = bc_height s" by (simp_all add: chain_view.truncate_def)
  have fits: "undo_fits (db_utxos (bc_db s)) sp cr undo"
    using built_undo_fits [OF local_mode inv_keyed [OF inv] a(2,3) _ v(1)] valid_block_bip30 [OF a(1)] v(2) by simp
  obtain m where m: "foldR insert_utxo (delete_utxos (db_utxos (bc_db s)) sp) cr = Inr m" "pushed (bc_db s) h undo m db"
    using connect_pushed [OF a(4) bid(1)] inv by (auto simp: ledger_inv_def)
  have "ledger_inv db (h # hs) (m # ms)" by (rule pushed_inv [OF inv m(2) bid(2) fits m(1)])
  moreover obtain r where "prune_blocks (ce_db E) (bc_height s + 1) db = (r, bc_db s4)"
    using a(6) set_cached_tip_db [OF a(5)] by (auto simp: prune_chain_def on_db_Inr run_simps) (metis prod.collapse)
  ultimately show ?thesis using prune_inv inv_apply [OF inv a(3) m(1)] a(7) by blast
qed

lemma attach_step:
  assumes inv: "ledger_inv (bc_db s) hs ms" and local_mode: "c_mode (ce_db E) \<noteq> REMOTE"
    and run: "connect_candidates E [(e, b)] s = (Inr None, s2)" and h: "ie_height e = bc_height s + 1"
    and body: "has_block_body (bc_db s) (ie_hash e)" and new: "ie_hash e \<notin> set hs"
  shows "\<exists>m. ledger_step (ce_hashes E) ms (Push b (ie_height e)) = Inr (m # ms) \<and> ledger_inv (bc_db s2) (ie_hash e # hs) (m # ms)"
proof -
  let ?v = "chain_view.truncate s"
  obtain undo sp cr db where a: "validate_block E ?v b = Inr True" "build_block_undo E (bc_db s) b (ie_height e) = Inr undo"
    "block_utxo_delta E b (ie_height e) = Inr (sp, cr)" "activate_chain_block (ie_hash e) undo sp cr (bc_db s) = Inr db"
    "set_cached_tip (Some b) (ie_height e) (s\<lparr>bc_db := db\<rparr>) = (Inr (), s2)"
    using run
    by (auto simp: run_simps on_db_Inr updateS_Inr split: if_split_asm sum.split_asm prod.split_asm elim!: bindS_InrE)
  have v: "bc_db ?v = bc_db s" "bc_height ?v = bc_height s" by (simp_all add: chain_view.truncate_def)
  have fits: "undo_fits (db_utxos (bc_db s)) sp cr undo"
    using built_undo_fits [OF local_mode inv_keyed [OF inv] a(2,3) _ v(1)] valid_block_bip30 [OF a(1)] v(2) h by simp
  obtain m where m: "foldR insert_utxo (delete_utxos (db_utxos (bc_db s)) sp) cr = Inr m" "pushed (bc_db s) (ie_hash e) undo m db"
    using activate_pushed [OF a(4) body] by blast
  have "ledger_inv db (ie_hash e # hs) (m # ms)" by (rule pushed_inv [OF inv m(2) new fits m(1)])
  moreover have "bc_db s2 = db" using set_cached_tip_db [OF a(5)] by simp
  ultimately show ?thesis using inv_apply [OF inv a(3) m(1)] by blast
qed

lemma detach_step:
  assumes inv: "ledger_inv (bc_db s) (ie_hash e # hs) ms" and run: "disconnect_blocks E [e] s = (Inr (), s2)"
  shows "\<exists>ms'. ledger_step (ce_hashes E) ms Pop = Inr ms' \<and> ledger_inv (bc_db s2) hs ms'"
proof -
  obtain undo db s3 b h where a: "get_block_undo (bc_db s) (ie_hash e) = Some undo"
    "disconnect_chain_block (ie_hash e) undo STATUS_VALID (bc_db s) = Inr db"
    "set_cached_tip b h (s\<lparr>bc_db := db\<rparr>) = (Inr (), s2)"
    using run
    by (auto simp: run_simps on_db_Inr updateS_Inr split: option.split_asm if_split_asm sum.split_asm prod.split_asm elim!: bindS_InrE)
  obtain m1 ms' where "ms = m1 # ms'" "ms' \<noteq> []" "ledger_inv db hs ms'" using popped_inv [OF inv a(1,2)] by blast
  moreover have "bc_db s2 = db" using set_cached_tip_db [OF a(3)] by simp
  ultimately show ?thesis by (cases ms') auto
qed

lemma chain_run_simulated:
  assumes "chain_run E s evs hs s'" and "c_mode (ce_db E) \<noteq> REMOTE" and "utxos_keyed (db_utxos (bc_db s))"
    and "undo_rows_ok (bc_db s)"
  shows "\<exists>ms. foldR (ledger_step (ce_hashes E)) [db_utxos (bc_db s)] evs = Inr ms \<and> ledger_inv (bc_db s') hs ms"
  using assms(1)
proof induction
  case start
  then show ?case using assms(3,4) by (simp add: ledger_inv_def)
next
  case (tip evs hs s1 b s2 h)
  then show ?case using tip_step [OF _ assms(2) tip.hyps(2-4)] by (fastforce simp: foldR_append)
next
  case (attach evs hs s1 e b s2)
  then show ?case using attach_step [OF _ assms(2) attach.hyps(2-5)] by (fastforce simp: foldR_append)
next
  case (detach evs e hs s1 s2)
  then show ?case using detach_step [OF _ detach.hyps(2)] by (fastforce simp: foldR_append)
qed

text \<open>
  C2: the database of unspent outputs refines the stack of snapshots. However blocks are connected, attached in a
  reorganisation and disconnected by their stored undo data, the set in the database is the one the specification
  computes from the blocks alone, where disconnecting means going back to the earlier snapshot; with all blocks taken
  off again the set is the one at the start.
\<close>

theorem utxo_set_refines_ledger:
  assumes "chain_run E s evs hs s'" and "c_mode (ce_db E) \<noteq> REMOTE" and "utxos_keyed (db_utxos (bc_db s))"
    and "undo_rows_ok (bc_db s)"
  shows "\<exists>ms. foldR (ledger_step (ce_hashes E)) [db_utxos (bc_db s)] evs = Inr ms \<and> db_utxos (bc_db s') = hd ms
    \<and> length ms = Suc (length hs)"
  using chain_run_simulated [OF assms] stack_ok_length by (fastforce simp: ledger_inv_def)

text \<open>A chain that holds nothing, the first block connected to it and taken off again.\<close>

definition sample_chain :: blockchain where
  "sample_chain = chain_view.extend empty_view \<lparr>bc_orphans = \<lparr>op_max_blocks = 2, op_max_bytes = 1000, op_entries = [],
     op_children = (\<lambda>_. []), op_total_bytes = 0\<rparr>\<rparr>"

definition first_utxo :: utxo where
  "first_utxo = \<lparr>u_outpoint = first_txid @ [0, 0, 0, 0], u_amount = 5000000000, u_scriptpubkey = [0x51], u_block_height = 0,
     u_is_coinbase = True\<rparr>"

lemma sample_chain_simps [simp]:
  "chain_view.truncate sample_chain = empty_view" "bc_db sample_chain = empty_tables (open_files [])"
  "bc_height sample_chain = - 1" "bc_tip sample_chain = None"
  by (simp_all add: sample_chain_def chain_view.truncate_def chain_view.extend_def empty_view_def)

lemma first_undo:
  "build_block_undo sample_env (empty_tables (open_files [])) first_block 0 =
     Inr \<lparr>un_spent = [], un_created = [first_txid @ [0, 0, 0, 0]]\<rparr>"
  by (simp add: build_block_undo_def first_outputs first_coinbase first_block_id regtest_free)

lemma first_has_outputs: "t_outputs first_tx \<noteq> []"
  by (simp add: first_tx_def)

lemma first_delta: "block_utxo_delta sample_env first_block 0 = Inr ([], [first_utxo])"
  by (simp add: block_utxo_delta_def first_outputs first_has_outputs first_coinbase first_block_id regtest_free first_utxo_def)

lemma first_header: "header_id pad_hashes (get_header first_block) = Inr first_id" "bh_prev (get_header first_block) = replicate 32 0"
  "bh_bits (get_header first_block) = GENESIS_BLOCK_BITS"
  using first_block_id by (simp_all add: block_id_def get_header_def)

lemma first_work: "calc_block_work GENESIS_BLOCK_BITS = Inr 4295032833"
  by (simp add: calc_block_work_def genesis_bits_target empty_view_def be_val_def le_val_zeros le_val_zero MAX_TARGET_PLUS_ONE_def)

lemma first_work_bytes: "to_bytes_be CHAINWORK_BYTES 4295032833 = Inr (rev (le_bytes CHAINWORK_BYTES 4295032833))"
  by (simp add: CHAINWORK_BYTES_def to_bytes_be_def)

text \<open>What the steps need of the database after the first block.\<close>

definition holds_first :: "chain_db \<Rightarrow> bool" where
  "holds_first db \<longleftrightarrow> db_utxos db = [first_txid @ [0, 0, 0, 0] \<mapsto> first_utxo] \<and> (\<exists>e. db_index db = [e] \<and> ie_hash e = first_id)
     \<and> get_block_undo db first_id = Some \<lparr>un_spent = [], un_created = [first_txid @ [0, 0, 0, 0]]\<rparr>"

lemma first_connects:
  "\<exists>db. connect_block (local_config ARCHIVAL) pad_hashes first_block 0 \<lparr>un_spent = [], un_created = [first_txid @ [0, 0, 0, 0]]\<rparr>
     [] [first_utxo] (empty_tables (open_files [])) = (Inr (), db) \<and> holds_first db"
proof -
  obtain bs where "block_to_bytes first_block = Inr bs"
    using first_bytes first_preimage by (auto simp: block_to_bytes_def header_to_bytes_def get_header_def first_block_def to_bytes_le_def
      write_first)
  moreover obtain loc st where "store_write (c_mode (local_config ARCHIVAL)) bs (open_files []) = (loc, st)" by fastforce
  ultimately show ?thesis
    by (simp add: connect_block_def run_simps first_block_id with_body_def insert_block_body_def first_header first_work first_work_bytes
      empty_tables_def add_block_index_entry_def Let_def add_block_undo_def apply_utxo_delta_def insert_utxo_def first_utxo_def
      sqlite_int_def get_block_index_def lookup_index_def delete_utxos_def holds_first_def get_block_undo_def replace_entry_def fun_eq_iff)
qed

lemma sample_pushes:
  "\<exists>s. connect_tip_block sample_env first_block sample_chain = (Inr True, s) \<and> holds_first (bc_db s)"
proof -
  obtain db where db: "connect_block (local_config ARCHIVAL) pad_hashes first_block 0
     \<lparr>un_spent = [], un_created = [first_txid @ [0, 0, 0, 0]]\<rparr> [] [first_utxo] (empty_tables (open_files [])) = (Inr (), db)"
    "holds_first db"
    using first_connects by blast
  have mode: "c_mode (local_config ARCHIVAL) = ARCHIVAL" by (simp add: local_config_def)
  show ?thesis
    by (simp add: connect_tip_block_def run_simps first_block_id regtest_free first_block_valid first_undo first_delta)
      (simp add: bindS_def on_db_def zoomS_def db set_cached_tip_def genesis_bits_target prune_chain_def returnS_def modifyS_def
        liftS_def prune_blocks_def mode)
qed

lemma sample_pops:
  assumes "holds_first (bc_db s)" and "ie_hash e = first_id" and "ie_prev e = replicate 32 0"
  shows "\<exists>s'. disconnect_blocks sample_env [e] s = (Inr (), s')"
proof -
  let ?undo = "\<lparr>un_spent = [], un_created = [first_txid @ [0, 0, 0, 0]]\<rparr>"
  have "hd (replicate 32 0) \<noteq> hd first_id" by (simp add: first_id_def)
  then have "replicate 32 0 \<noteq> first_id" by metis
  then obtain db where db: "disconnect_chain_block first_id ?undo STATUS_VALID (bc_db s) = Inr db" "get_block_index db (replicate 32 0) = None"
    using assms(1) by (auto simp: holds_first_def disconnect_chain_block_def set_block_active_def get_block_index_def lookup_index_def)
  have "get_block_undo (bc_db s) first_id = Some ?undo" using assms(1) by (simp add: holds_first_def)
  then show ?thesis
    by (simp add: assms(2,3) run_simps) (simp add: bindS_def on_db_def zoomS_def updateS_def db run_simps set_cached_tip_def
      genesis_bits_target)
qed

text \<open>The block is connected and taken off; after the first step the set holds its output alone, after both it is empty.\<close>

lemma utxo_set_refines_ledger_witness:
  "\<exists>s1 s2 ms. chain_run sample_env sample_chain [Push first_block 0] [first_id] s1
     \<and> db_utxos (bc_db s1) = [first_txid @ [0, 0, 0, 0] \<mapsto> first_utxo]
     \<and> db_utxos (bc_db s1) = ledger_apply pad_hashes first_block 0 (\<lambda>_. None)
     \<and> chain_run sample_env sample_chain [Push first_block 0, Pop] [] s2
     \<and> foldR (ledger_step pad_hashes) [\<lambda>_. None] [Push first_block 0, Pop] = Inr ms
     \<and> db_utxos (bc_db s2) = hd ms \<and> length ms = 1 \<and> db_utxos (bc_db s2) = (\<lambda>_. None)"
proof -
  obtain s1 where s1: "connect_tip_block sample_env first_block sample_chain = (Inr True, s1)" "holds_first (bc_db s1)"
    using sample_pushes by blast
  have "chain_run sample_env sample_chain ([] @ [Push first_block (bc_height sample_chain + 1)]) [first_id] s1"
    by (rule chain_run.tip [OF chain_run.start s1(1)]) (simp_all add: first_block_id)
  then have push: "chain_run sample_env sample_chain [Push first_block 0] [first_id] s1" by simp
  define e where "e = \<lparr>ie_hash = first_id, ie_prev = replicate 32 0, ie_height = 0, ie_bits = GENESIS_BLOCK_BITS, ie_time = 5,
    ie_work = 0, ie_chainwork = 0, ie_active = True, ie_status = STATUS_VALID\<rparr>"
  have e: "ie_hash e = first_id" "ie_prev e = replicate 32 0" by (simp_all add: e_def)
  obtain s2 where s2: "disconnect_blocks sample_env [e] s1 = (Inr (), s2)" using sample_pops [OF s1(2) e] by blast
  have pop: "chain_run sample_env sample_chain [Push first_block 0, Pop] [] s2"
    using chain_run.detach [of sample_env sample_chain _ e "[]"] push s2 e(1) by fastforce
  have start: "c_mode (ce_db sample_env) \<noteq> REMOTE" "utxos_keyed (db_utxos (bc_db sample_chain))" "undo_rows_ok (bc_db sample_chain)"
    by (simp_all add: local_config_def utxos_keyed_def undo_rows_ok_def empty_tables_def)
  have "db_utxos (bc_db s1) = ledger_apply pad_hashes first_block 0 (\<lambda>_. None)"
    using utxo_set_refines_ledger [OF push start] by (simp add: empty_tables_def)
  moreover have "db_utxos (bc_db s2) = (\<lambda>_. None)"
    using utxo_set_refines_ledger [OF pop start] by (simp add: empty_tables_def)
  ultimately show ?thesis using push pop s1(2) by (auto simp: holds_first_def)
qed

end
