(* ===== verification/Chain_Facts.thy ===== *)
theory Chain_Facts
  imports Ledger
begin

text \<open>
  What the operations on the chain keep: the hashes of the index, the pool while the parent is known, the whole
  chain when a reorganisation fails; and that adding a block ends.
\<close>

section \<open>The index only grows\<close>

definition idx_keys :: "chain_db \<Rightarrow> bytes set" where
  "idx_keys db = ie_hash ` set (db_index db)"

lemma in_idx_keys: "get_block_index db h \<noteq> None \<longleftrightarrow> h \<in> idx_keys db"
  by (auto simp: get_block_index_def lookup_index_def idx_keys_def find_None_iff)

lemma replace_entry_keys: "ie_hash ` set (replace_entry e rows) = insert (ie_hash e) (ie_hash ` set rows)"
  by (auto simp: replace_entry_def)

lemma map_keys: "(\<And>e. ie_hash (f e) = ie_hash e) \<Longrightarrow> ie_hash ` set (map f rows) = ie_hash ` set rows"
  by (simp add: image_image)

lemma idx_keys_update: "idx_keys (db\<lparr>db_index := rows\<rparr>) = ie_hash ` set rows"
  by (simp add: idx_keys_def)

lemma idx_keys_store [simp]: "idx_keys (db\<lparr>db_store := s\<rparr>) = idx_keys db"
  by (simp add: idx_keys_def)

lemma add_entry_keys:
  assumes "add_block_index_entry H header h a st db = Inr db'" and "header_id H header = Inr bid"
  shows "idx_keys db' = insert bid (idx_keys db)"
proof -
  obtain e where e: "db' = db\<lparr>db_index := replace_entry e (db_index db)\<rparr>" "ie_hash e = bid"
    using assms by (auto simp: add_block_index_entry_def Let_def)
  show ?thesis by (simp only: e(1) idx_keys_update replace_entry_keys e(2)) (simp add: idx_keys_def)
qed

lemma set_active_keys:
  assumes "set_block_active h a st db = Inr db'" shows "idx_keys db' = idx_keys db \<and> db_store db' = db_store db"
proof -
  obtain f where f: "db' = db\<lparr>db_index := map f (db_index db)\<rparr>" "\<And>e. ie_hash (f e) = ie_hash e"
    using assms unfolding set_block_active_def by (simp split: if_split_asm) fastforce
  show ?thesis unfolding f(1) idx_keys_update map_keys [OF f(2)] by (simp add: idx_keys_def)
qed

lemma mark_invalid_keys: "idx_keys (mark_block_branch_invalid h db) = idx_keys db"
  unfolding mark_block_branch_invalid_def Let_def idx_keys_update by (subst map_keys) (simp_all add: idx_keys_def)

lemma prune_keys: "idx_keys (snd (prune_blocks C h db)) = idx_keys db"
  by (auto simp: prune_blocks_def Let_def idx_keys_def)

lemma disconnect_keys:
  "disconnect_chain_block h u st db = Inr db' \<Longrightarrow> idx_keys db' = idx_keys db \<and> db_store db' = db_store db"
  by (auto simp: disconnect_chain_block_def idx_keys_def dest!: set_active_keys)

lemma add_block_undo_keys: "add_block_undo h u db = Inr db' \<Longrightarrow> idx_keys db' = idx_keys db \<and> db_store db' = db_store db"
  by (auto simp: add_block_undo_def idx_keys_def split: if_split_asm)

lemma apply_delta_keys: "apply_utxo_delta sp cr db = Inr db' \<Longrightarrow> idx_keys db' = idx_keys db \<and> db_store db' = db_store db"
  by (auto simp: apply_utxo_delta_def idx_keys_def)

lemma activate_keys:
  "activate_chain_block h u sp cr db = Inr db' \<Longrightarrow> idx_keys db' = idx_keys db \<and> db_store db' = db_store db"
  by (auto simp: activate_chain_block_def dest!: set_active_keys add_block_undo_keys apply_delta_keys)
    (simp_all add: delete_block_undo_def idx_keys_def)

lemma insert_body_keys: "insert_block_body H b h loc db = Inr db' \<Longrightarrow> idx_keys db' = idx_keys db"
  by (auto simp: insert_block_body_def idx_keys_def split: if_split_asm)

lemma with_body_keys:
  assumes "with_body C bs f db = (r, db')"
    and "\<And>loc db1 db2. idx_keys db1 = idx_keys db \<Longrightarrow> f loc db1 = Inr db2 \<Longrightarrow> K \<subseteq> idx_keys db2"
    and "K \<subseteq> idx_keys db"
  shows "K \<subseteq> idx_keys db'"
proof -
  obtain loc s1 where w: "store_write (c_mode C) bs (db_store db) = (loc, s1)" by fastforce
  show ?thesis using assms assms(2) [of "db\<lparr>db_store := s1\<rparr>" loc]
    by (cases "f loc (db\<lparr>db_store := s1\<rparr>)") (auto simp: with_body_def w)
qed

lemma connect_block_keys:
  assumes "connect_block C H b h undo sp cr db = (r, db')" and "block_id H b = Inr bid"
  shows "idx_keys db \<subseteq> idx_keys db' \<and> (r = Inr () \<longrightarrow> bid \<in> idx_keys db')"
proof (cases "block_to_bytes b")
  case (Inr bs)
  have hid: "header_id H (get_header b) = Inr bid" using assms(2) by (simp add: block_id_def)
  let ?f = "\<lambda>loc db. bindR (insert_block_body H b h loc db) (\<lambda>db1.
         bindR (add_block_index_entry H (get_header b) h True STATUS_VALID db1) (\<lambda>db2.
         bindR (add_block_undo bid undo db2) (\<lambda>db3. apply_utxo_delta sp cr db3)))"
  have w: "with_body C bs ?f db = (r, db')" using assms Inr by (simp add: connect_block_def run_simps)
  have f: "idx_keys db2 = insert bid (idx_keys db1)" if "?f loc db1 = Inr db2" for loc db1 db2
    using that hid by (auto dest!: add_block_undo_keys apply_delta_keys add_entry_keys insert_body_keys)
  have "idx_keys db \<subseteq> idx_keys db'" 
  proof (rule with_body_keys [OF w])
    fix loc db1 db2
    assume k: "idx_keys db1 = idx_keys db" and r: "?f loc db1 = Inr db2"
    show "idx_keys db \<subseteq> idx_keys db2" unfolding f [OF r] k by blast
  qed simp
  moreover have "bid \<in> idx_keys db'" if "r = Inr ()"
  proof -
    have "with_body C bs ?f db = (Inr (), db')" using w that by simp
    then obtain loc st where "?f loc (db\<lparr>db_store := st\<rparr>) = Inr db'" by (rule with_body_success)
    from f [OF this] show ?thesis by blast
  qed
  ultimately show ?thesis by blast
qed (use assms in \<open>auto simp: connect_block_def run_simps\<close>)

lemma db_add_block_keys:
  assumes "db_add_block C H b h undo a st db = (r, db')" and "block_id H b = Inr bid"
  shows "idx_keys db \<subseteq> idx_keys db' \<and> (r = Inr () \<longrightarrow> bid \<in> idx_keys db')"
proof (cases "block_to_bytes b")
  case (Inr bs)
  have hid: "header_id H (get_header b) = Inr bid" using assms(2) by (simp add: block_id_def)
  let ?f = "\<lambda>loc db. bindR (insert_block_body H b h loc db) (\<lambda>db1.
         bindR (add_block_index_entry H (get_header b) h a st db1) (\<lambda>db2.
           case undo of None \<Rightarrow> Inr db2 | Some u \<Rightarrow> add_block_undo bid u db2))"
  have w: "with_body C bs ?f db = (r, db')" using assms Inr by (simp add: db_add_block_def run_simps)
  have f: "idx_keys db2 = insert bid (idx_keys db1)" if "?f loc db1 = Inr db2" for loc db1 db2
    using that hid
    by (auto dest!: add_block_undo_keys add_entry_keys insert_body_keys split: option.split_asm)
  have "idx_keys db \<subseteq> idx_keys db'" 
  proof (rule with_body_keys [OF w])
    fix loc db1 db2
    assume k: "idx_keys db1 = idx_keys db" and r: "?f loc db1 = Inr db2"
    show "idx_keys db \<subseteq> idx_keys db2" unfolding f [OF r] k by blast
  qed simp
  moreover have "bid \<in> idx_keys db'" if "r = Inr ()"
  proof -
    have "with_body C bs ?f db = (Inr (), db')" using w that by simp
    then obtain loc st where "?f loc (db\<lparr>db_store := st\<rparr>) = Inr db'" by (rule with_body_success)
    from f [OF this] show ?thesis by blast
  qed
  ultimately show ?thesis by blast
qed (use assms in \<open>auto simp: db_add_block_def run_simps\<close>)

section \<open>What the operations on the chain keep\<close>

text \<open>The index keeps the hashes \<open>K\<close>, the pool is \<open>p\<close>.\<close>

definition known :: "bytes set \<Rightarrow> orphan_pool \<Rightarrow> blockchain \<Rightarrow> bool" where
  "known K p s \<longleftrightarrow> K \<subseteq> idx_keys (bc_db s) \<and> bc_orphans s = p"

lemma keeps_set_cached_tip [keeps_intros]:
  "(\<And>s h t u g. P s \<Longrightarrow> P (s\<lparr>bc_height := h, bc_tip := t, bc_subsidy := u\<rparr>)) \<Longrightarrow> (\<And>s g. P s \<Longrightarrow> P (s\<lparr>bc_target := g\<rparr>)) \<Longrightarrow>
     keeps P (set_cached_tip b h)"
  unfolding set_cached_tip_def by (intro keeps_intros keeps_modify) auto

lemma keeps_on_db: "(\<And>s r db. P s \<Longrightarrow> m (bc_db s) = (r, db) \<Longrightarrow> P (s\<lparr>bc_db := db\<rparr>)) \<Longrightarrow> keeps P (on_db m)"
  by (simp add: keeps_def on_db_def zoomS_def split: prod.split)

lemma known_tip [keeps_intros]: "keeps (known K p) (set_cached_tip b h)"
  by (rule keeps_set_cached_tip) (simp_all add: known_def)

lemma known_update:
  "(\<And>db db'. f db = Inr db' \<Longrightarrow> idx_keys db \<subseteq> idx_keys db') \<Longrightarrow> keeps (known K p) (on_db (updateS f))"
  by (rule keeps_on_db) (auto simp: known_def updateS_def split: sum.split_asm)

lemma known_prune [keeps_intros]: "keeps (known K p) (prune_chain E h)"
  unfolding prune_chain_def by (rule keeps_on_db) (auto simp: known_def run_simps prune_keys)

lemma known_disconnect [keeps_intros]: "keeps (known K p) (disconnect_blocks E es)"
proof (induction es)
  case (Cons e es)
  show ?case unfolding disconnect_blocks.simps
    by (intro keeps_intros Cons known_update) (simp add: disconnect_keys)
qed (simp add: keeps_intros)

lemma known_connect [keeps_intros]: "keeps (known K p) (connect_candidates E ebs)"
proof (induction ebs)
  case (Cons eb ebs)
  obtain e b where eb: "eb = (e, b)" by fastforce
  show ?case unfolding eb connect_candidates.simps
    by (intro keeps_intros Cons known_update) (simp add: activate_keys)
qed (simp add: keeps_intros)

lemma known_switch: "keeps (known K p) (switch_branch E ds cs)"
  unfolding keeps_def
proof (intro allI impI)
  fix s assume s: "known K p s"
  obtain r s1 where run: "bindS (disconnect_blocks E ds) (\<lambda>_. connect_candidates E cs) s = (r, s1)" by fastforce
  have "keeps (known K p) (bindS (disconnect_blocks E ds) (\<lambda>_. connect_candidates E cs))" by (intro keeps_intros)
  then have s1: "known K p s1" using s run by (rule keepsD)
  then have restored: "known K p (restore_tables s s1)" using s by (simp add: known_def restore_tables_def idx_keys_def)
  have mark: "keeps (known K p) (on_db (modifyS (mark_block_branch_invalid h)))" for h
    by (rule keeps_on_db) (auto simp: known_def run_simps mark_invalid_keys)
  have a1: "keeps (known K p) (bindS (prune_chain E h) (\<lambda>_. returnS True))"
    and a2: "keeps (known K p) (bindS (set_cached_tip t h) (\<lambda>_. bindS (on_db (modifyS (mark_block_branch_invalid bad))) (\<lambda>_. returnS False)))"
    and a3: "keeps (known K p) (bindS (set_cached_tip t h) (\<lambda>_. returnS False))" for t h bad
    by (intro keeps_intros mark)+
  then show "known K p (snd (switch_branch E ds cs s))"
    using s1 restored unfolding switch_branch_def run
    by (cases r; simp add: keeps_def split: option.split)
qed

lemma known_reorganize [keeps_intros]: "keeps (known K p) (reorganize_to E h)"
  unfolding reorganize_to_def by (intro keeps_intros known_switch)

section \<open>Adding one block\<close>

lemma known_connect_db [keeps_intros]: "keeps (known K p) (on_db (connect_block C H b h undo sp cr))"
proof (rule keeps_on_db)
  fix s r db assume "known K p s" and run: "connect_block C H b h undo sp cr (bc_db s) = (r, db)"
  moreover have "idx_keys (bc_db s) \<subseteq> idx_keys db"
  proof (cases "block_id H b")
    case (Inl e)
    then have "db = bc_db s" using run by (auto simp: connect_block_def run_simps split: sum.split_asm)
    then show ?thesis by simp
  next
    case (Inr bid)
    then show ?thesis using connect_block_keys [OF run] by blast
  qed
  ultimately show "known K p (s\<lparr>bc_db := db\<rparr>)" by (auto simp: known_def)
qed

lemma known_add_db [keeps_intros]: "keeps (known K p) (on_db (db_add_block C H b h undo a st))"
proof (rule keeps_on_db)
  fix s r db assume "known K p s" and run: "db_add_block C H b h undo a st (bc_db s) = (r, db)"
  moreover have "idx_keys (bc_db s) \<subseteq> idx_keys db"
  proof (cases "block_id H b")
    case (Inl e)
    then have "db = bc_db s" using run by (auto simp: db_add_block_def run_simps split: sum.split_asm)
    then show ?thesis by simp
  next
    case (Inr bid)
    then show ?thesis using db_add_block_keys [OF run] by blast
  qed
  ultimately show "known K p (s\<lparr>bc_db := db\<rparr>)" by (auto simp: known_def)
qed

lemma known_connect_tip [keeps_intros]: "keeps (known K p) (connect_tip_block E b)"
  unfolding connect_tip_block_def by (intro keeps_intros)

lemma connected_tip_known:
  assumes "connect_tip_block E b s = (Inr True, s')" and bid: "block_id (ce_hashes E) b = Inr bid"
  shows "bid \<in> idx_keys (bc_db s')"
proof -
  obtain undo sp cr s1 where a:
    "on_db (connect_block (ce_db E) (ce_hashes E) b (bc_height s + 1) undo sp cr) s = (Inr (), s1)"
    "bindS (set_cached_tip (Some b) (bc_height s + 1)) (\<lambda>_.
       bindS (prune_chain E (bc_height s + 1)) (\<lambda>_. returnS True)) s1 = (Inr True, s')"
    using assms by (auto simp: connect_tip_block_def run_simps bindS_Inr_iff split: if_split_asm sum.split_asm prod.split_asm)
  have "bid \<in> idx_keys (bc_db s1)" using connect_block_keys [OF _ bid] a(1) unfolding on_db_def zoomS_def
    by (auto split: prod.split_asm)
  then have k: "known {bid} (bc_orphans s1) s1" by (simp add: known_def)
  have ks: "keeps (known {bid} (bc_orphans s1)) (bindS (set_cached_tip (Some b) (bc_height s + 1)) (\<lambda>_.
       bindS (prune_chain E (bc_height s + 1)) (\<lambda>_. returnS True)))" by (intro keeps_intros)
  have "known {bid} (bc_orphans s1) s'" by (rule keepsD [OF ks k a(2)])
  then show ?thesis by (simp add: known_def)
qed

definition side_block :: "chain_env \<Rightarrow> block \<Rightarrow> bytes \<Rightarrow> int \<Rightarrow> (blockchain, bool \<times> bool) action" where
  "side_block E b bid h =
     bindS (on_db (db_add_block (ce_db E) (ce_hashes E) b h None False STATUS_CANDIDATE)) (\<lambda>_.
     bindS (readS (\<lambda>s. would_reorganize_to (bc_db s) bid)) (\<lambda>would.
       if would then bindS (reorganize_to E bid) (\<lambda>accepted. returnS (accepted, accepted)) else returnS (True, True)))"

lemma add_block_body_cases:
  assumes "add_block_body E b s = (r, s1)"
  obtains (same) "s1 = s" "\<forall>acc. r \<noteq> Inr (acc, True)"
  | (tip) "bindS (connect_tip_block E b) (\<lambda>accepted. returnS (accepted, accepted)) s = (r, s1)"
  | (orphan) x where "get_block_index (bc_db s) (b_prev b) = None" "add_orphan E b s = (x, s1)" "\<forall>acc. r \<noteq> Inr (acc, True)"
  | (side) bid h where "block_id (ce_hashes E) b = Inr bid" "side_block E b bid h s = (r, s1)"
proof (cases "block_id (ce_hashes E) b")
  case (Inl e)
  then have "s1 = s \<and> r = Inl e" using assms by (auto simp: add_block_body_def Let_def run_simps)
  then show ?thesis by (intro same) auto
next
  case (Inr bid)
  note id = Inr
  let ?ex = "case get_block_index (bc_db s) bid of None \<Rightarrow> False | Some e \<Rightarrow> ie_status e = STATUS_INVALID \<or> has_block_body (bc_db s) bid"
  show ?thesis
  proof (cases ?ex)
    case True
    then have "s1 = s \<and> r = Inr (False, False)" using assms id by (auto simp: add_block_body_def Let_def run_simps)
    then show ?thesis by (intro same) auto
  next
    case False
    let ?tip = "case bc_tip s of None \<Rightarrow> Inr True | Some tip \<Rightarrow> bindR (block_id (ce_hashes E) tip) (\<lambda>h. Inr (b_prev b = h))"
    show ?thesis
    proof (cases ?tip)
      case (Inl e)
      then have "s1 = s \<and> r = Inl e" using assms id False by (auto simp: add_block_body_def Let_def run_simps)
      then show ?thesis by (intro same) auto
    next
      case (Inr next_of_tip)
      show ?thesis
      proof (cases next_of_tip)
        case True
        then have "bindS (connect_tip_block E b) (\<lambda>accepted. returnS (accepted, accepted)) s = (r, s1)"
          using assms id False Inr by (auto simp: add_block_body_def Let_def run_simps)
        then show ?thesis by (rule tip)
      next
        case not_tip: False
        show ?thesis
        proof (cases "get_block_index (bc_db s) (b_prev b)")
          case None
          then have "s1 = s \<and> (\<forall>acc. r \<noteq> Inr (acc, True)) \<or> (\<exists>x. add_orphan E b s = (x, s1) \<and> (\<forall>acc. r \<noteq> Inr (acc, True)))"
            using assms id False Inr not_tip
            by (auto simp: add_block_body_def Let_def run_simps bindS_def [of "add_orphan E b"] split: sum.split_asm if_split_asm prod.split_asm)
          then show ?thesis using same orphan [OF None] by blast
        next
          case (Some p)
          then have "s1 = s \<and> (\<forall>acc. r \<noteq> Inr (acc, True)) \<or> side_block E b bid (ie_height p + 1) s = (r, s1)"
            using assms id False Inr not_tip
            by (auto simp: add_block_body_def Let_def run_simps side_block_def split: sum.split_asm if_split_asm)
          then show ?thesis using same side [OF id] by blast
        qed
      qed
    qed
  qed
qed

lemma known_side [keeps_intros]: "keeps (known K p) (side_block E b bid h)"
  unfolding side_block_def by (intro keeps_intros)

lemma side_known:
  assumes "side_block E b bid h s = (Inr x, s')" and bid: "block_id (ce_hashes E) b = Inr bid"
  shows "bid \<in> idx_keys (bc_db s')"
proof -
  let ?rest = "bindS (readS (\<lambda>s. would_reorganize_to (bc_db s) bid)) (\<lambda>would.
       if would then bindS (reorganize_to E bid) (\<lambda>accepted. returnS (accepted, accepted)) else returnS (True, True))"
  obtain s1 where a: "on_db (db_add_block (ce_db E) (ce_hashes E) b h None False STATUS_CANDIDATE) s = (Inr (), s1)"
    "?rest s1 = (Inr x, s')"
    using assms(1) by (auto simp: side_block_def bindS_Inr_iff)
  have "bid \<in> idx_keys (bc_db s1)" using db_add_block_keys [OF _ bid] a(1) unfolding on_db_def zoomS_def
    by (auto split: prod.split_asm)
  then have k: "known {bid} (bc_orphans s1) s1" by (simp add: known_def)
  have ks: "keeps (known {bid} (bc_orphans s1)) ?rest" by (intro keeps_intros)
  have "known {bid} (bc_orphans s1) s'" by (rule keepsD [OF ks k a(2)])
  then show ?thesis by (simp add: known_def)
qed

text \<open>
  What \<^verbatim>\<open>add_block\<close> relies on when it looks for children: the index has not lost a hash, a block whose parent is
  known does not enter the pool, and a block whose children are looked for is in the index.
\<close>

lemma add_block_body_spec:
  assumes run: "add_block_body E b s = (r, s1)" and ok: "pool_ok (bc_orphans s)"
  shows "idx_keys (bc_db s) \<subseteq> idx_keys (bc_db s1)
    \<and> (b_prev b \<in> idx_keys (bc_db s) \<longrightarrow> bc_orphans s1 = bc_orphans s)
    \<and> pool_ok (bc_orphans s1)
    \<and> (\<forall>acc. r = Inr (acc, True) \<longrightarrow> bc_orphans s1 = bc_orphans s
         \<and> (\<exists>bid. block_id (ce_hashes E) b = Inr bid \<and> bid \<in> idx_keys (bc_db s1)))"
  using run
proof (cases rule: add_block_body_cases)
  case same
  then show ?thesis using ok by simp
next
  case tip
  let ?K = "known (idx_keys (bc_db s)) (bc_orphans s)"
  have ks: "keeps ?K (bindS (connect_tip_block E b) (\<lambda>accepted. returnS (accepted, accepted)))" by (intro keeps_intros)
  have k: "?K s1" by (rule keepsD [OF ks _ tip]) (simp add: known_def)
  have "\<exists>bid. block_id (ce_hashes E) b = Inr bid \<and> bid \<in> idx_keys (bc_db s1)" if "r = Inr (acc, True)" for acc
  proof -
    have c: "connect_tip_block E b s = (Inr True, s1)" using tip that by (auto simp: run_simps)
    then obtain bid where "block_id (ce_hashes E) b = Inr bid"
      by (cases "block_id (ce_hashes E) b") (auto simp: connect_tip_block_def run_simps)
    then show ?thesis using connected_tip_known [OF c] by blast
  qed
  then show ?thesis using k ok by (auto simp: known_def)
next
  case (orphan x)
  have "bc_db s1 = bc_db s" and "pool_ok (bc_orphans s1)"
    using orphan(2) orphan_add_ok [OF ok] ok by (auto simp: add_orphan_def updateS_def split: sum.split_asm prod.split_asm)
  then show ?thesis using orphan(1,3) in_idx_keys [of "bc_db s" "b_prev b"] by auto
next
  case (side bid h)
  let ?K = "known (idx_keys (bc_db s)) (bc_orphans s)"
  have k: "?K s1" by (rule keepsD [OF known_side _ side(2)]) (simp add: known_def)
  have "bid \<in> idx_keys (bc_db s1)" if "r = Inr (acc, True)" for acc
    using side_known [OF _ side(1)] side(2) that by blast
  then show ?thesis using k ok side(1) by (auto simp: known_def)
qed

section \<open>Adding a block with its children\<close>

definition children_part :: "nat \<Rightarrow> chain_env \<Rightarrow> block \<Rightarrow> bool \<Rightarrow> (blockchain, bool) action" where
  "children_part fuel E b accepted =
     bindS (liftS (block_id (ce_hashes E) b)) (\<lambda>bid.
     bindS (on_orphans (pop_children bid)) (\<lambda>children.
     bindS (forS (\<lambda>c. bindS (add_block fuel E c) (\<lambda>_. returnS ())) children) (\<lambda>_. returnS accepted)))"

lemma add_block_unfold:
  "add_block (Suc fuel) E b =
     catchS (bindS (add_block_body E b) (\<lambda>(accepted, look). if \<not> look then returnS accepted else children_part fuel E b accepted))
       (\<lambda>_. returnS False)"
  unfolding add_block.simps children_part_def by (rule refl)

text \<open>While the children of a known block are tried the index keeps the hashes and the pool does not grow.\<close>

definition trying :: "bytes set \<Rightarrow> nat \<Rightarrow> blockchain \<Rightarrow> bool" where
  "trying K n s \<longleftrightarrow> K \<subseteq> idx_keys (bc_db s) \<and> pool_ok (bc_orphans s) \<and> length (op_entries (bc_orphans s)) \<le> n"

lemma popped_children:
  assumes "pool_ok (bc_orphans s)" and "on_orphans (pop_children bid) s = (Inr cs, s1)" and "K \<subseteq> idx_keys (bc_db s)"
  shows "trying K (length (op_entries (bc_orphans s)) - length cs) s1 \<and> length cs \<le> length (op_entries (bc_orphans s))
    \<and> (\<forall>c \<in> set cs. b_prev c = bid)"
proof -
  obtain p where p: "pop_children bid (bc_orphans s) = (cs, p)" "s1 = s\<lparr>bc_orphans := p\<rparr>"
    using assms(2) by (auto simp: on_orphans_def split: prod.split_asm)
  note r = pop_children_spec [OF assms(1) p(1)]
  then have "length (op_entries p) = length (op_entries (bc_orphans s)) - length cs" "length cs \<le> length (op_entries (bc_orphans s))"
    by linarith+
  then show ?thesis using r assms(3) by (simp add: trying_def p(2))
qed

lemma on_orphans_Inr: "\<exists>x s'. on_orphans f s = (Inr x, s')"
  by (simp add: on_orphans_def split: prod.split)

lemma add_block_tries:
  assumes "add_block fuel E b s = (r, s')" and "pool_ok (bc_orphans s)" and "b_prev b \<in> idx_keys (bc_db s)"
  shows "trying (idx_keys (bc_db s)) (length (op_entries (bc_orphans s))) s'"
  using assms
proof (induction fuel arbitrary: b s r s')
  case 0
  then show ?case by (auto simp: run_simps trying_def)
next
  case (Suc fuel)
  obtain rb s1 where body: "add_block_body E b s = (rb, s1)" by fastforce
  note spec = add_block_body_spec [OF body Suc.prems(2)]
  let ?K = "idx_keys (bc_db s)" and ?n = "length (op_entries (bc_orphans s))"
  have s1: "trying ?K ?n s1" using spec Suc.prems(2,3) by (simp add: trying_def)
  show ?case
  proof (cases "\<exists>acc. rb = Inr (acc, True)")
    case False
    then have "s' = s1" using Suc.prems(1) unfolding add_block_unfold
      by (auto simp: catchS_def bindS_def body run_simps split: sum.split_asm if_split_asm prod.split_asm)
    then show ?thesis using s1 by simp
  next
    case True
    then obtain acc bid where acc: "rb = Inr (acc, True)" "block_id (ce_hashes E) b = Inr bid" "bid \<in> idx_keys (bc_db s1)"
      "bc_orphans s1 = bc_orphans s" using spec by blast
    obtain cs s2 where pop: "on_orphans (pop_children bid) s1 = (Inr cs, s2)" using on_orphans_Inr [of "pop_children bid" s1] by blast
    let ?K1 = "insert bid ?K"
    have "?K1 \<subseteq> idx_keys (bc_db s1)" using acc(3) spec by blast
    note p = popped_children [OF _ pop this]
    have s2: "trying ?K1 ?n s2" and cs: "\<forall>c \<in> set cs. b_prev c = bid"
      using p spec acc(4) by (auto simp: trying_def)
    have "keeps (trying ?K1 ?n) (bindS (add_block fuel E c) (\<lambda>_. returnS ()))" if "c \<in> set cs" for c
    proof (rule keeps_bind [OF _ keeps_return])
      show "keeps (trying ?K1 ?n) (add_block fuel E c)"
        unfolding keeps_def
      proof (intro allI impI)
        fix t assume t: "trying ?K1 ?n t"
        obtain r' t' where run: "add_block fuel E c t = (r', t')" by fastforce
        have "pool_ok (bc_orphans t)" "b_prev c \<in> idx_keys (bc_db t)" using t cs that by (auto simp: trying_def)
        from Suc.IH [OF run this] t show "trying ?K1 ?n (snd (add_block fuel E c t))"
          unfolding run by (auto simp: trying_def)
      qed
    qed
    then have all: "keeps (trying ?K1 ?n) (forS (\<lambda>c. bindS (add_block fuel E c) (\<lambda>_. returnS ())) cs)" by (rule keeps_for)
    obtain rf s3 where f: "forS (\<lambda>c. bindS (add_block fuel E c) (\<lambda>_. returnS ())) cs s2 = (rf, s3)" by fastforce
    have "trying ?K1 ?n s3" by (rule keepsD [OF all s2 f])
    moreover have "s' = s3" using Suc.prems(1) unfolding add_block_unfold
      by (auto simp: catchS_def bindS_def body acc(1,2) run_simps children_part_def pop f split: sum.split_asm if_split_asm prod.split_asm)
    ultimately show ?thesis by (auto simp: trying_def)
  qed
qed

lemma forS_cong_inv:
  assumes "\<And>x. x \<in> set xs \<Longrightarrow> keeps P (f x)" and "\<And>x s. x \<in> set xs \<Longrightarrow> P s \<Longrightarrow> f x s = g x s" and "P s"
  shows "forS f xs s = forS g xs s"
  using assms
proof (induction xs arbitrary: s)
  case (Cons x xs)
  obtain r s1 where r: "f x s = (r, s1)" by fastforce
  then have g: "g x s = (r, s1)" using Cons.prems(2) [of x s] Cons.prems(3) by simp
  have "P s1" using Cons.prems(1) [of x] Cons.prems(3) r keepsD [of P "f x" s r s1] by simp
  then have "forS f xs s1 = forS g xs s1" using Cons.IH Cons.prems(1,2) by simp
  then show ?case by (simp add: bindS_def r g split: sum.split)
qed simp

lemma add_block_keeps_trying:
  assumes "b_prev c \<in> K" shows "keeps (trying K n) (add_block fuel E c)"
  unfolding keeps_def
proof (intro allI impI)
  fix s assume s: "trying K n s"
  obtain r s' where run: "add_block fuel E c s = (r, s')" by fastforce
  have "pool_ok (bc_orphans s)" "b_prev c \<in> idx_keys (bc_db s)" using s assms by (auto simp: trying_def)
  from add_block_tries [OF run this] s show "trying K n (snd (add_block fuel E c s))" unfolding run by (auto simp: trying_def)
qed

lemma add_block_enough:
  assumes "pool_ok (bc_orphans s)" and "length (op_entries (bc_orphans s)) \<le> n" and "n \<le> i" and "n \<le> j"
  shows "add_block (Suc i) E b s = add_block (Suc j) E b s"
  using assms
proof (induction n arbitrary: i j b s rule: less_induct)
  case (less n)
  obtain rb s1 where body: "add_block_body E b s = (rb, s1)" by fastforce
  note spec = add_block_body_spec [OF body less.prems(1)]
  have "children_part i E b acc s1 = children_part j E b acc s1" if look: "rb = Inr (acc, True)" for acc
  proof -
    obtain bid where bid: "block_id (ce_hashes E) b = Inr bid" "bid \<in> idx_keys (bc_db s1)" "bc_orphans s1 = bc_orphans s"
      using spec look by blast
    obtain cs s2 where pop: "on_orphans (pop_children bid) s1 = (Inr cs, s2)" using on_orphans_Inr [of "pop_children bid" s1] by blast
    have "pool_ok (bc_orphans s1)" "{bid} \<subseteq> idx_keys (bc_db s1)" using bid(2) spec by simp_all
    note p = popped_children [OF this(1) pop this(2)]
    let ?f = "\<lambda>i c. bindS (add_block i E c) (\<lambda>_. returnS ())"
    have "forS (?f i) cs s2 = forS (?f j) cs s2"
    proof (cases "cs = []")
      case False
      then have m: "n - 1 < n" "length (op_entries (bc_orphans s)) - length cs \<le> n - 1"
        using p less.prems(2) bid(3) by (cases cs; simp)+
      obtain i1 j1 where ij: "i = Suc i1" "j = Suc j1" "n - 1 \<le> i1" "n - 1 \<le> j1"
        using m(1) less.prems(3,4) by (cases i; cases j; simp)
      let ?P = "trying {bid} (n - 1)"
      show ?thesis
      proof (rule forS_cong_inv)
        show "keeps ?P (?f i c)" if "c \<in> set cs" for c
          using p that by (intro keeps_bind keeps_return add_block_keeps_trying) simp
        show "?f i c t = ?f j c t" if "c \<in> set cs" "?P t" for c t
          using less.IH [OF m(1), of t i1 j1 c] ij that(2) unfolding ij(1,2) bindS_def by (simp add: trying_def)
        show "?P s2" using p m(2) bid(3) by (auto simp: trying_def)
      qed
    qed simp
    then show ?thesis by (simp add: children_part_def run_simps bid(1)) (simp add: bindS_def pop)
  qed
  then show ?case unfolding add_block_unfold
    by (auto simp: catchS_def bindS_def body split: sum.split prod.split)
qed

text \<open>
  The calls of \<^verbatim>\<open>add_block\<close> that a call leads to: the call itself, and those for the blocks that waited for an
  accepted one. They are tried in order, each in the state its predecessors leave.
\<close>

definition add_children :: "chain_env \<Rightarrow> block list \<Rightarrow> (blockchain, unit) action" where
  "add_children E = forS (\<lambda>c. bindS (add_block_to_chain E c) (\<lambda>_. returnS ()))"

inductive tried :: "chain_env \<Rightarrow> block \<Rightarrow> blockchain \<Rightarrow> block \<Rightarrow> blockchain \<Rightarrow> bool" for E where
  self: "tried E b s b s"
| child: "add_block_body E b s = (Inr (accepted, True), s1) \<Longrightarrow> block_id (ce_hashes E) b = Inr bid \<Longrightarrow>
    on_orphans (pop_children bid) s1 = (Inr (earlier @ c # later), s2) \<Longrightarrow> add_children E earlier s2 = (Inr (), s3) \<Longrightarrow>
    tried E c s3 d t \<Longrightarrow> tried E b s d t"

inductive_cases tried_E: "tried E b s d t"

text \<open>No block tried keeps the code busy for ever: neither its scripts nor a walk through the index.\<close>

definition tries_end :: "chain_env \<Rightarrow> block \<Rightarrow> blockchain \<Rightarrow> bool" where
  "tries_end E b s \<longleftrightarrow> (\<forall>d t. tried E b s d t \<longrightarrow> fst (add_block_body E d t) \<noteq> Inl NoReturn)"

text \<open>What the body of the call decides is its answer; an exception is \<open>False\<close>.\<close>

definition body_answer :: "chain_env \<Rightarrow> block \<Rightarrow> blockchain \<Rightarrow> bool" where
  "body_answer E b s = (case fst (add_block_body E b s) of Inl _ \<Rightarrow> False | Inr (accepted, _) \<Rightarrow> accepted)"

lemma add_to_chain_enough:
  assumes "pool_ok (bc_orphans s)" and "length (op_entries (bc_orphans s)) \<le> i"
  shows "add_block (Suc i) E b s = add_block_to_chain E b s"
  unfolding add_block_to_chain_def by (rule add_block_enough [OF assms(1) order_refl assms(2) order_refl])

lemma forS_snoc: "forS f xs s = (Inr (), t) \<Longrightarrow> f x t = (Inr (), u) \<Longrightarrow> forS f (xs @ [x]) s = (Inr (), u)"
proof (induction xs arbitrary: s)
  case (Cons y xs)
  then obtain s1 where "f y s = (Inr (), s1)" "forS f xs s1 = (Inr (), t)" by (auto simp: bindS_Inr_iff)
  with Cons show ?case by (simp add: bindS_def)
qed (simp add: bindS_def run_simps)

lemma children_answer:
  assumes each: "\<And>earlier c later t. cs = earlier @ c # later \<Longrightarrow> add_children E earlier s = (Inr (), t) \<Longrightarrow> P t \<Longrightarrow>
       \<exists>a u. add_block i E c t = (Inr a, u) \<and> add_block_to_chain E c t = (Inr a, u) \<and> P u"
  shows "cs = done @ rest \<Longrightarrow> add_children E done s = (Inr (), t) \<Longrightarrow> P t \<Longrightarrow>
     \<exists>u. forS (\<lambda>c. bindS (add_block i E c) (\<lambda>_. returnS ())) rest t = (Inr (), u)"
proof (induction rest arbitrary: "done" t)
  case (Cons c rest)
  obtain a u where u: "add_block i E c t = (Inr a, u)" "add_block_to_chain E c t = (Inr a, u)" "P u"
    using each [OF Cons.prems] by blast
  have "add_children E (done @ [c]) s = (Inr (), u)" unfolding add_children_def
    by (rule forS_snoc [OF Cons.prems(2) [unfolded add_children_def]]) (simp add: bindS_def u run_simps)
  then obtain v where v: "forS (\<lambda>c. bindS (add_block i E c) (\<lambda>_. returnS ())) rest u = (Inr (), v)"
    using Cons.IH [of "done @ [c]" u] Cons.prems(1) u(3) by auto
  have "bindS (add_block i E c) (\<lambda>_. returnS ()) t = (Inr (), u)" by (simp add: bindS_def u run_simps)
  then have "forS (\<lambda>c. bindS (add_block i E c) (\<lambda>_. returnS ())) (c # rest) t = (Inr (), v)"
    unfolding forS.simps bindS_Inr_iff using v by blast
  then show ?case by blast
qed (simp add: run_simps)

lemma add_block_answers:
  assumes "pool_ok (bc_orphans s)" and "length (op_entries (bc_orphans s)) \<le> n" and "n \<le> i" and "tries_end E b s"
  shows "fst (add_block (Suc i) E b s) = Inr (body_answer E b s)"
  using assms
proof (induction n arbitrary: i b s rule: less_induct)
  case (less n)
  obtain rb s1 where body: "add_block_body E b s = (rb, s1)" by fastforce
  note spec = add_block_body_spec [OF body less.prems(1)]
  have ends: "rb \<noteq> Inl NoReturn" using less.prems(4) tried.self body by (fastforce simp: tries_end_def)
  have "\<exists>u. children_part i E b acc s1 = (Inr acc, u)" if look: "rb = Inr (acc, True)" for acc
  proof -
    obtain bid where bid: "block_id (ce_hashes E) b = Inr bid" "bid \<in> idx_keys (bc_db s1)" "bc_orphans s1 = bc_orphans s"
      using spec look by blast
    obtain cs s2 where pop: "on_orphans (pop_children bid) s1 = (Inr cs, s2)" using on_orphans_Inr [of "pop_children bid" s1] by blast
    have "pool_ok (bc_orphans s1)" "{bid} \<subseteq> idx_keys (bc_db s1)" using bid(2) spec by simp_all
    note p = popped_children [OF this(1) pop this(2)]
    let ?P = "trying {bid} (n - 1)"
    have "\<exists>u. forS (\<lambda>c. bindS (add_block i E c) (\<lambda>_. returnS ())) cs s2 = (Inr (), u)"
    proof (cases "cs = []")
      case False
      then have m: "n - 1 < n" "length (op_entries (bc_orphans s)) - length cs \<le> n - 1"
        using p less.prems(2) bid(3) by (cases cs; simp)+
      obtain i1 where i: "i = Suc i1" "n - 1 \<le> i1" using m(1) less.prems(3) by (cases i) auto
      show ?thesis
      proof (rule children_answer [of cs E s2 ?P i "[]" cs s2])
        fix earlier c later t
        assume c: "cs = earlier @ c # later" "add_children E earlier s2 = (Inr (), t)" and t: "?P t"
        have "tries_end E c t"
          using tried.child [OF body [unfolded look] bid(1) pop [unfolded c(1)] c(2)] less.prems(4) by (auto simp: tries_end_def)
        then have a: "fst (add_block i E c t) = Inr (body_answer E c t)"
          using less.IH [OF m(1), of t i1 c] t i by (simp add: trying_def)
        have "add_block i E c t = add_block_to_chain E c t"
          using add_to_chain_enough [of t i1 E c] t i by (simp add: trying_def)
        moreover have "?P (snd (add_block i E c t))"
          using add_block_keeps_trying [of c "{bid}" "n - 1" i E] p c(1) t by (auto simp: keeps_def)
        ultimately show "\<exists>a u. add_block i E c t = (Inr a, u) \<and> add_block_to_chain E c t = (Inr a, u) \<and> ?P u"
          using a by (metis prod.collapse)
      qed (use p m(2) bid(3) in \<open>auto simp: trying_def add_children_def run_simps\<close>)
    qed (simp add: run_simps)
    then show ?thesis by (auto simp: children_part_def run_simps bid(1)) (auto simp: bindS_def pop run_simps)
  qed
  note answer = this
  show ?case
  proof (cases rb)
    case (Inl e)
    then show ?thesis using ends by (simp add: add_block_unfold body_answer_def catchS_def bindS_def body run_simps del: add_block.simps)
  next
    case (Inr x)
    obtain acc look where x: "x = (acc, look)" by fastforce
    have b: "body_answer E b s = acc" by (simp add: body_answer_def body Inr x)
    show ?thesis
    proof (cases look)
      case True
      then obtain u where "children_part i E b acc s1 = (Inr acc, u)" using answer Inr x by blast
      then show ?thesis using True b by (simp add: add_block_unfold catchS_def bindS_def body Inr x run_simps del: add_block.simps)
    qed (use b in \<open>simp add: add_block_unfold catchS_def bindS_def body Inr x run_simps del: add_block.simps\<close>)
  qed
qed

text \<open>
  The walks of a reorganisation end when every parent in the index is lower than its children: each step of a walk
  goes down, so a walk is not longer than the index.
\<close>

definition parents_lower :: "chain_db \<Rightarrow> bool" where
  "parents_lower db \<longleftrightarrow> (\<forall>e \<in> set (db_index db). \<forall>p. get_block_index db (ie_prev e) = Some p \<longrightarrow> ie_height p < ie_height e)"

definition entries_up_to :: "chain_db \<Rightarrow> index_entry \<Rightarrow> index_entry set" where
  "entries_up_to db e = {x \<in> set (db_index db). ie_height x \<le> ie_height e}"

lemma indexed: "get_block_index db h = Some e \<Longrightarrow> e \<in> set (db_index db)"
  by (auto simp: get_block_index_def lookup_index_def find_Some_iff)

lemma parent_room:
  assumes "parents_lower db" and "e \<in> set (db_index db)" and "get_block_index db (ie_prev e) = Some p"
  shows "p \<in> set (db_index db) \<and> card (entries_up_to db p) < card (entries_up_to db e)"
proof -
  have p: "p \<in> set (db_index db)" "ie_height p < ie_height e" using assms indexed by (auto simp: parents_lower_def)
  then have "e \<notin> entries_up_to db p" "e \<in> entries_up_to db e" "entries_up_to db p \<subseteq> entries_up_to db e"
    using assms(2) by (auto simp: entries_up_to_def)
  then have "entries_up_to db p \<subset> entries_up_to db e" by blast
  then show ?thesis using p(1) by (auto simp: entries_up_to_def intro: psubset_card_mono)
qed

lemma own_room: "e \<in> set (db_index db) \<Longrightarrow> 0 < card (entries_up_to db e)"
  by (auto simp: entries_up_to_def card_gt_0_iff)

lemma index_room: "card (entries_up_to db e) \<le> length (db_index db)"
  by (rule order_trans [OF card_mono [of "set (db_index db)"] card_length]) (auto simp: entries_up_to_def)

lemma walk_down_ends:
  assumes "parents_lower db"
  shows "e \<in> set (db_index db) \<Longrightarrow> card (entries_up_to db e) \<le> fuel \<Longrightarrow>
     walk_down db h fuel e = Inl AttributeError \<or> (\<exists>path q. walk_down db h fuel e = Inr (path, q) \<and> q \<in> set (db_index db))"
proof (induction fuel arbitrary: e)
  case 0
  then show ?case using own_room by fastforce
next
  case (Suc fuel)
  show ?case
  proof (cases "get_block_index db (ie_prev e)")
    case None
    then show ?thesis using Suc.prems(1) by simp
  next
    case (Some p)
    have "walk_down db h fuel p = Inl AttributeError \<or> (\<exists>path q. walk_down db h fuel p = Inr (path, q) \<and> q \<in> set (db_index db))"
    proof (rule Suc.IH)
      show "p \<in> set (db_index db)" "card (entries_up_to db p) \<le> fuel"
        using parent_room [OF assms Suc.prems(1) Some] Suc.prems(2) by linarith+
    qed
    then show ?thesis using Some Suc.prems(1) by auto
  qed
qed

lemma walk_both_ends:
  assumes "parents_lower db"
  shows "a \<in> set (db_index db) \<Longrightarrow> card (entries_up_to db a) \<le> fuel \<Longrightarrow> walk_both db fuel a c \<noteq> Inl NoReturn"
proof (induction fuel arbitrary: a c)
  case 0
  then show ?case using own_room by fastforce
next
  case (Suc fuel)
  show ?case
  proof (cases "get_block_index db (ie_prev a)")
    case (Some p)
    have "walk_both db fuel p q \<noteq> Inl NoReturn" for q
      by (rule Suc.IH) (use parent_room [OF assms Suc.prems(1) Some] Suc.prems(2) in linarith)+
    then show ?thesis using Some by (auto simp: bindR_Inl_iff split: option.split)
  qed (simp split: option.split)
qed

lemma reorganization_paths_end:
  assumes low: "parents_lower db" and "a \<in> set (db_index db)" and "c \<in> set (db_index db)"
  shows "reorganization_paths db a c \<noteq> Inl NoReturn"
proof
  assume r: "reorganization_paths db a c = Inl NoReturn"
  let ?n = "length (db_index db)"
  have down: "walk_down db h ?n e = Inl AttributeError \<or> (\<exists>path q. walk_down db h ?n e = Inr (path, q) \<and> q \<in> set (db_index db))"
    if "e \<in> set (db_index db)" for h e using walk_down_ends [OF low that index_room] .
  have both: "walk_both db (?n * ?n) x y \<noteq> Inl NoReturn" if "x \<in> set (db_index db)" for x y
  proof (rule walk_both_ends [OF low that])
    show "card (entries_up_to db x) \<le> ?n * ?n" using index_room [of db x] le_square order_trans by blast
  qed
  show False using r down [OF assms(2), of "ie_height c"]
  proof (elim disjE exE conjE)
    fix path q
    assume q: "walk_down db (ie_height c) ?n a = Inr (path, q)" "q \<in> set (db_index db)"
    show False using r q both down [OF assms(3), of "ie_height q"]
      by (auto simp: reorganization_paths_def Let_def bindR_Inl_iff)
  qed (simp add: reorganization_paths_def Let_def)
qed

text \<open>
  C5: adding a block ends. The blocks that waited for an accepted one leave the pool before they are tried, so the calls
  nest at most as deep as the pool has blocks: with that fuel or more the call returns, always with the same state and
  with what its own body decides, where an exception is \<open>False\<close>. The one condition is that the body ends for every
  block tried, in the state it is tried in; the calls that are tried are defined without fuel.
\<close>

theorem adding_a_block_ends:
  assumes "pool_ok (bc_orphans s)" and "length (op_entries (bc_orphans s)) < fuel" and "tries_end E b s"
  shows "add_block fuel E b s = add_block_to_chain E b s \<and> fst (add_block_to_chain E b s) = Inr (body_answer E b s)"
proof -
  obtain i where i: "fuel = Suc i" "length (op_entries (bc_orphans s)) \<le> i" using assms(2) by (cases fuel) auto
  show ?thesis using add_to_chain_enough [OF assms(1) i(2)] add_block_answers [OF assms(1) i(2) order_refl assms(3)] i(1) by simp
qed

text \<open>A block from the far future waits for the first one: it is tried after it, rejected, and the pool is empty.\<close>

definition late_child :: block where
  "late_child = first_block\<lparr>b_prev := first_id, b_time := 4000000000\<rparr>"

definition late_id :: bytes where "late_id = [1, 0, 0, 0, 1, 0, 0, 0] @ replicate 24 0"

definition waiting_pool :: orphan_pool where
  "waiting_pool = \<lparr>op_max_blocks = 2, op_max_bytes = 1000, op_entries = [(late_id, \<lparr>oe_block = late_child, oe_size = 252\<rparr>)],
     op_children = (\<lambda>_. [])(first_id := [late_id]), op_total_bytes = 252\<rparr>"

definition waiting_chain :: blockchain where
  "waiting_chain = sample_chain\<lparr>bc_orphans := waiting_pool\<rparr>"

lemma waiting_chain_simps [simp]:
  "chain_view.truncate waiting_chain = empty_view" "bc_db waiting_chain = empty_tables (open_files [])"
  "bc_height waiting_chain = - 1" "bc_tip waiting_chain = None" "bc_orphans waiting_chain = waiting_pool"
  by (simp_all add: waiting_chain_def sample_chain_def chain_view.truncate_def chain_view.extend_def empty_view_def)

lemma waiting_pool_ok: "pool_ok waiting_pool"
  by (auto simp: waiting_pool_def pool_ok_def pool_inv_def pool_bounded_def pool_linked_def entry_parent_def late_child_def)

lemma late_block_id: "block_id pad_hashes late_child = Inr late_id"
  by (simp add: block_id_def header_id_def header_to_bytes_def get_header_def late_child_def first_block_def to_bytes_le_def
      hash256_def pad_hashes_def pad_to_def first_id_def late_id_def first_txid_def GENESIS_BLOCK_BITS_def le_bytes_numeral)

lemma waiting_pops: "pop_children first_id waiting_pool =
    ([late_child], \<lparr>op_max_blocks = 2, op_max_bytes = 1000, op_entries = [], op_children = (\<lambda>_. []), op_total_bytes = 0\<rparr>)"
  by (simp add: pop_children_def waiting_pool_def orphan_remove_def late_child_def fun_eq_iff)

lemma waiting_pushes:
  "\<exists>s. connect_tip_block sample_env first_block waiting_chain = (Inr True, s) \<and> holds_first (bc_db s)
     \<and> bc_tip s = Some first_block \<and> bc_height s = 0 \<and> bc_orphans s = waiting_pool"
proof -
  obtain db where db: "connect_block (local_config ARCHIVAL) pad_hashes first_block 0
     \<lparr>un_spent = [], un_created = [first_txid @ [0, 0, 0, 0]]\<rparr> [] [first_utxo] (empty_tables (open_files [])) = (Inr (), db)"
    "holds_first db"
    using first_connects by blast
  have mode: "c_mode (local_config ARCHIVAL) = ARCHIVAL" by (simp add: local_config_def)
  show ?thesis
    by (simp add: connect_tip_block_def run_simps first_block_id regtest_free first_block_valid first_undo first_delta)
      (simp add: bindS_def on_db_def zoomS_def db set_cached_tip_def genesis_bits_target prune_chain_def returnS_def modifyS_def
        liftS_def prune_blocks_def mode)
qed

lemma waiting_body:
  "\<exists>s. add_block_body sample_env first_block waiting_chain = (Inr (True, True), s) \<and> holds_first (bc_db s)
     \<and> bc_tip s = Some first_block \<and> bc_height s = 0 \<and> bc_orphans s = waiting_pool"
proof -
  obtain s where s: "connect_tip_block sample_env first_block waiting_chain = (Inr True, s)" "holds_first (bc_db s)"
     "bc_tip s = Some first_block" "bc_height s = 0" "bc_orphans s = waiting_pool" using waiting_pushes by blast
  have "get_block_index (empty_tables (open_files [])) first_id = None"
    by (simp add: get_block_index_def lookup_index_def empty_tables_def)
  then show ?thesis using s(2-5)
    by (simp add: add_block_body_def Let_def run_simps first_block_id) (simp add: bindS_def s(1) run_simps)
qed

lemma late_invalid:
  assumes "bc_tip s = Some first_block"
  shows "validate_block sample_env (chain_view.truncate s) late_child = Inr False"
proof -
  have "bc_tip (chain_view.truncate s) = Some first_block" using assms by (simp add: chain_view.truncate_def)
  moreover have "b_txs late_child = [first_tx]" "b_prev late_child = first_id" "b_time late_child = 4000000000"
    by (simp_all add: late_child_def)
  ultimately show ?thesis
    by (simp add: validate_block_def Let_def late_block_id regtest_free extends_tip_def first_block_id andR_def
      validate_block_timestamp_def MAX_FUTURE_BLOCK_TIME_def)
qed

lemma late_body:
  assumes "holds_first (bc_db s)" and "bc_tip s = Some first_block" and "bc_height s = 0"
  shows "add_block_body sample_env late_child s = (Inr (False, False), s)"
proof -
  have "late_id ! 4 \<noteq> first_id ! 4" by (simp add: late_id_def first_id_def)
  then have "late_id \<noteq> first_id" by metis
  then have "get_block_index (bc_db s) late_id = None"
    using assms(1) by (auto simp: holds_first_def get_block_index_def lookup_index_def)
  moreover have "validate_block sample_env (chain_view.truncate s) late_child = Inr False" by (rule late_invalid [OF assms(2)])
  moreover have "b_prev late_child = first_id" by (simp add: late_child_def)
  ultimately show ?thesis
    by (simp add: add_block_body_def Let_def run_simps late_block_id assms first_block_id)
      (simp add: connect_tip_block_def run_simps bindS_def late_block_id regtest_free)
qed

lemma waiting_tries_end: "tries_end sample_env first_block waiting_chain"
proof -
  obtain s where s: "add_block_body sample_env first_block waiting_chain = (Inr (True, True), s)" "holds_first (bc_db s)"
     "bc_tip s = Some first_block" "bc_height s = 0" "bc_orphans s = waiting_pool" using waiting_body by blast
  define t where "t = s\<lparr>bc_orphans := snd (pop_children first_id waiting_pool)\<rparr>"
  have pop: "on_orphans (pop_children first_id) s = (Inr [late_child], t)" by (simp add: on_orphans_def s(5) waiting_pops t_def)
  have late: "add_block_body sample_env late_child t = (Inr (False, False), t)" by (rule late_body) (simp_all add: t_def s)
  have two: "d = late_child \<and> u = t" if "tried sample_env late_child t d u" for d u
    using that by (cases rule: tried_E) (use late in auto)
  have reach: "d = first_block \<and> u = waiting_chain \<or> d = late_child \<and> u = t" if "tried sample_env first_block waiting_chain d u" for d u
  proof (rule tried_E [OF that])
    fix accepted s1 bid earlier c later s2 s3
    assume a: "add_block_body sample_env first_block waiting_chain = (Inr (accepted, True), s1)"
      "block_id (ce_hashes sample_env) first_block = Inr bid" "on_orphans (pop_children bid) s1 = (Inr (earlier @ c # later), s2)"
      "add_children sample_env earlier s2 = (Inr (), s3)" "tried sample_env c s3 d u"
    then have "s1 = s" "bid = first_id" by (simp_all add: s(1) first_block_id)
    then have c: "earlier @ c # later = [late_child]" "s2 = t" using a(3) pop by simp_all
    then have "earlier = []" "c = late_child" by (auto simp: append_eq_Cons_conv)
    then show ?thesis using two a(4,5) c(2) by (simp add: add_children_def run_simps)
  qed simp
  show ?thesis unfolding tries_end_def
  proof (intro allI impI)
    fix d u assume "tried sample_env first_block waiting_chain d u"
    from reach [OF this] show "fst (add_block_body sample_env d u) \<noteq> Inl NoReturn" using s(1) late by auto
  qed
qed

lemma adding_a_block_ends_witness:
  "add_block 7 sample_env first_block waiting_chain = add_block_to_chain sample_env first_block waiting_chain
   \<and> fst (add_block_to_chain sample_env first_block waiting_chain) = Inr True \<and> length (op_entries (bc_orphans waiting_chain)) = 1"
proof -
  obtain s where "add_block_body sample_env first_block waiting_chain = (Inr (True, True), s)" using waiting_body by blast
  then have "body_answer sample_env first_block waiting_chain" by (simp add: body_answer_def)
  moreover have "length (op_entries (bc_orphans waiting_chain)) = 1" by (simp add: waiting_pool_def)
  ultimately show ?thesis
    using adding_a_block_ends [of waiting_chain 7 sample_env first_block] waiting_tries_end waiting_pool_ok by simp
qed

section \<open>A reorganisation that fails\<close>

definition stored :: "block_store \<Rightarrow> orphan_pool \<Rightarrow> blockchain \<Rightarrow> bool" where
  "stored st p s \<longleftrightarrow> db_store (bc_db s) = st \<and> bc_orphans s = p"

lemma stored_tip [keeps_intros]: "keeps (stored st p) (set_cached_tip b h)"
  by (rule keeps_set_cached_tip) (simp_all add: stored_def)

lemma stored_update:
  "(\<And>db db'. f db = Inr db' \<Longrightarrow> db_store db' = db_store db) \<Longrightarrow> keeps (stored st p) (on_db (updateS f))"
  by (rule keeps_on_db) (auto simp: stored_def updateS_def split: sum.split_asm)

lemma stored_disconnect [keeps_intros]: "keeps (stored st p) (disconnect_blocks E es)"
proof (induction es)
  case (Cons e es)
  show ?case unfolding disconnect_blocks.simps
    by (intro keeps_intros Cons stored_update) (simp add: disconnect_keys)
qed (simp add: keeps_intros)

lemma stored_connect [keeps_intros]: "keeps (stored st p) (connect_candidates E ebs)"
proof (induction ebs)
  case (Cons eb ebs)
  obtain e b where eb: "eb = (e, b)" by fastforce
  show ?case unfolding eb connect_candidates.simps
    by (intro keeps_intros Cons stored_update) (simp add: activate_keys)
qed (simp add: keeps_intros)

text \<open>
  The attempt to switch: the branch has more work, its path is known and the blocks and undo data of the path are
  there. And the candidate that stops it: all before it connect, it is not valid on top of them.
\<close>

definition switching :: "chain_env \<Rightarrow> blockchain \<Rightarrow> bytes \<Rightarrow> index_entry list \<Rightarrow> (index_entry \<times> block) list \<Rightarrow> bool" where
  "switching E s h ds cs \<longleftrightarrow> would_reorganize_to (bc_db s) h \<and> c_mode (ce_db E) \<noteq> REMOTE
     \<and> (\<exists>c a fork. get_block_index (bc_db s) h = Some c \<and> get_active_tip (bc_db s) = Some a
          \<and> reorganization_paths (bc_db s) a c = Inr (ds, map fst cs, fork))
     \<and> (\<forall>(e, b) \<in> set cs. db_get_block (ce_db E) (ce_hashes E) (ce_now E) (bc_db s) (ie_hash e) = Inr (Some b))
     \<and> (\<forall>e \<in> set ds. get_block_undo (bc_db s) (ie_hash e) \<noteq> None
          \<and> (\<exists>b. db_get_block (ce_db E) (ce_hashes E) (ce_now E) (bc_db s) (ie_hash e) = Inr (Some b)))"

definition stopped_at :: "chain_env \<Rightarrow> blockchain \<Rightarrow> index_entry list \<Rightarrow> (index_entry \<times> block) list \<Rightarrow> bytes \<Rightarrow> bool" where
  "stopped_at E s ds cs bad \<longleftrightarrow> (\<exists>connected e b rest t. cs = connected @ (e, b) # rest
     \<and> bindS (disconnect_blocks E ds) (\<lambda>_. connect_candidates E connected) s = (Inr None, t)
     \<and> validate_block E (chain_view.truncate t) b = Inr False \<and> bad = ie_hash e)"

definition rejected_candidate :: "chain_env \<Rightarrow> blockchain \<Rightarrow> bytes \<Rightarrow> bytes \<Rightarrow> bool" where
  "rejected_candidate E s h bad \<longleftrightarrow> (\<exists>ds cs. switching E s h ds cs \<and> stopped_at E s ds cs bad)"

lemma connect_append:
  "connect_candidates E (xs @ ys) s = bindS (connect_candidates E xs) (\<lambda>bad. case bad of None \<Rightarrow> connect_candidates E ys | Some h \<Rightarrow> returnS (Some h)) s"
proof (induction xs arbitrary: s)
  case (Cons x xs)
  obtain e b where x: "x = (e, b)" by fastforce
  show ?case unfolding x append_Cons connect_candidates.simps
    by (simp add: Cons bindS_def run_simps split: sum.split prod.split)
qed (simp add: bindS_def run_simps)

lemma connect_one_stops:
  "connect_candidates E [(e, b)] s = (Inr (Some bad), u) \<Longrightarrow> validate_block E (chain_view.truncate s) b = Inr False \<and> bad = ie_hash e"
  by (auto simp: run_simps split: sum.split_asm if_split_asm)

lemma connect_stops:
  "connect_candidates E cs s = (Inr (Some bad), u) \<Longrightarrow>
     \<exists>connected e b rest t. cs = connected @ (e, b) # rest \<and> connect_candidates E connected s = (Inr None, t)
       \<and> validate_block E (chain_view.truncate t) b = Inr False \<and> bad = ie_hash e"
proof (induction cs arbitrary: s)
  case (Cons x cs)
  obtain e b where x: "x = (e, b)" by fastforce
  have "bindS (connect_candidates E [x]) (\<lambda>bad. case bad of None \<Rightarrow> connect_candidates E cs | Some h \<Rightarrow> returnS (Some h)) s
    = (Inr (Some bad), u)"
    using Cons.prems connect_append [of E "[x]" cs s] by (simp del: connect_candidates.simps)
  then obtain first s1 where one: "connect_candidates E [x] s = (Inr first, s1)"
    "(case first of None \<Rightarrow> connect_candidates E cs | Some h \<Rightarrow> returnS (Some h)) s1 = (Inr (Some bad), u)" by blast
  show ?case
  proof (cases first)
    case (Some h)
    have "connect_candidates E [] s = (Inr None, s)" by (simp add: run_simps)
    then show ?thesis using connect_one_stops [of E e b s h s1] one Some x by (fastforce simp: run_simps simp del: connect_candidates.simps)
  next
    case None
    then obtain connected e' b' rest t where r: "cs = connected @ (e', b') # rest" "connect_candidates E connected s1 = (Inr None, t)"
       "validate_block E (chain_view.truncate t) b' = Inr False" "bad = ie_hash e'" using Cons.IH one(2) by fastforce
    have "connect_candidates E (x # connected) s = (Inr None, t)"
      using connect_append [of E "[x]" connected s] one(1) None r(2) by (simp add: bindS_def del: connect_candidates.simps)
    then show ?thesis using r by (metis append_Cons)
  qed
qed (simp add: run_simps)

lemma connect_at_stop:
  "connect_candidates E connected s = (Inr None, t) \<Longrightarrow> validate_block E (chain_view.truncate t) b = Inr False \<Longrightarrow>
     connect_candidates E (connected @ (e, b) # rest) s = (Inr (Some (ie_hash e)), t)"
  by (simp add: connect_append bindS_def run_simps)

lemma stopped_at_iff:
  "stopped_at E s ds cs bad \<longleftrightarrow> (\<exists>t. bindS (disconnect_blocks E ds) (\<lambda>_. connect_candidates E cs) s = (Inr (Some bad), t))"
proof
  assume "stopped_at E s ds cs bad"
  then show "\<exists>t. bindS (disconnect_blocks E ds) (\<lambda>_. connect_candidates E cs) s = (Inr (Some bad), t)"
    unfolding stopped_at_def bindS_Inr_iff using connect_at_stop by blast
next
  assume "\<exists>t. bindS (disconnect_blocks E ds) (\<lambda>_. connect_candidates E cs) s = (Inr (Some bad), t)"
  then obtain t s1 where "disconnect_blocks E ds s = (Inr (), s1)" "connect_candidates E cs s1 = (Inr (Some bad), t)"
    unfolding bindS_Inr_iff by auto
  then show "stopped_at E s ds cs bad" unfolding stopped_at_def bindS_Inr_iff using connect_stops by blast
qed

lemma set_cached_tip_fields:
  "set_cached_tip b h s = (r, s') \<Longrightarrow> bc_db s' = bc_db s \<and> bc_orphans s' = bc_orphans s \<and> bc_height s' = h \<and> bc_tip s' = b"
  by (auto simp: set_cached_tip_def run_simps split: sum.split_asm)

lemma failed_switch:
  assumes "switch_branch E ds cs s = (r, s')" and "r \<noteq> Inr True" and "r \<noteq> Inl NoReturn"
  shows "bc_height s' = bc_height s \<and> bc_tip s' = bc_tip s \<and> bc_orphans s' = bc_orphans s
    \<and> ((\<exists>bad. stopped_at E s ds cs bad \<and> bc_db s' = mark_block_branch_invalid bad (bc_db s))
       \<or> bc_db s' = bc_db s \<and> (\<forall>bad. stopped_at E s ds cs bad \<longrightarrow> (\<exists>e. r = Inl e)))"
proof -
  obtain r1 s1 where run: "bindS (disconnect_blocks E ds) (\<lambda>_. connect_candidates E cs) s = (r1, s1)" by fastforce
  have ks: "keeps (stored (db_store (bc_db s)) (bc_orphans s)) (bindS (disconnect_blocks E ds) (\<lambda>_. connect_candidates E cs))"
    by (intro keeps_intros)
  have s1: "stored (db_store (bc_db s)) (bc_orphans s) s1" by (rule keepsD [OF ks _ run]) (simp add: stored_def)
  have db: "bc_db (restore_tables s s1) = bc_db s" "bc_orphans (restore_tables s s1) = bc_orphans s"
    using s1 by (simp_all add: restore_tables_def stored_def)
  obtain r2 s2 where tip: "set_cached_tip (bc_tip s) (bc_height s) (restore_tables s s1) = (r2, s2)" by fastforce
  note f = set_cached_tip_fields [OF tip]
  have stop: "stopped_at E s ds cs bad \<longleftrightarrow> r1 = Inr (Some bad)" for bad unfolding stopped_at_iff run by auto
  show ?thesis
  proof (cases r1)
    case (Inl e)
    then have "s' = s2" using assms unfolding switch_branch_def run
      by (auto simp: bindS_def tip run_simps split: sum.split_asm if_split_asm)
    then show ?thesis using f db Inl stop by simp
  next
    case (Inr x)
    show ?thesis
    proof (cases x)
      case None
      then have False using assms Inr unfolding switch_branch_def run
        by (auto simp: bindS_def prune_chain_def on_db_def zoomS_def run_simps split: prod.split_asm)
      then show ?thesis ..
    next
      case (Some bad)
      then have "s' = s2 \<and> (\<exists>e. r = Inl e) \<or> s' = s2\<lparr>bc_db := mark_block_branch_invalid bad (bc_db s2)\<rparr>"
      proof (cases r2)
        case (Inl e)
        then show ?thesis using assms(1) Inr Some unfolding switch_branch_def run by (auto simp: bindS_def tip)
      next
        case (Inr v)
        then show ?thesis using assms(1) \<open>r1 = Inr x\<close> Some unfolding switch_branch_def run
          by (simp add: bindS_def tip on_db_def zoomS_def run_simps)
      qed
      then show ?thesis
      proof
        assume "s' = s2 \<and> (\<exists>e. r = Inl e)"
        then show ?thesis using f db by simp
      next
        assume "s' = s2\<lparr>bc_db := mark_block_branch_invalid bad (bc_db s2)\<rparr>"
        moreover have "stopped_at E s ds cs bad" using stop Some Inr by simp
        ultimately show ?thesis using f db by auto
      qed
    qed
  qed
qed

lemma read_all:
  "mapR f es = Inr obs \<Longrightarrow> None \<notin> set obs \<Longrightarrow> (\<forall>(e, b) \<in> set (zip es (map the obs)). f e = Inr (Some b)) \<and> map fst (zip es (map the obs)) = es
     \<and> (\<forall>e \<in> set es. \<exists>b. f e = Inr (Some b))"
proof (induction es arbitrary: obs)
  case (Cons e es)
  then obtain ob obs' where "f e = Inr ob" "mapR f es = Inr obs'" "obs = ob # obs'" by auto
  with Cons show ?case by (cases ob) fastforce+
qed simp

lemma read_back:
  "\<forall>(e, b) \<in> set cs. f e = Inr (Some b) \<Longrightarrow> mapR f (map fst cs) = Inr (map (Some \<circ> snd) cs)"
  by (induction cs) auto

lemma bodies_unique:
  fixes f :: "'a \<Rightarrow> 'b option result"
  assumes "map fst cs = map fst cs'" and "\<forall>(e, b) \<in> set cs. f e = Inr (Some b)" and "\<forall>(e, b) \<in> set cs'. f e = Inr (Some b)"
  shows "cs = cs'"
proof (rule pair_list_eqI [OF assms(1)])
  have "map Some (map snd cs) = map Some (map snd cs')"
    using read_back [of cs f] read_back [of cs' f] assms by simp
  then show "map snd cs = map snd cs'" by (rule map_injective) simp
qed

lemma switching_unique:
  assumes "switching E s h ds cs" and "switching E s h ds' cs'" shows "ds = ds' \<and> cs = cs'"
proof -
  have "ds = ds'" "map fst cs = map fst cs'" using assms by (auto simp: switching_def)
  then show ?thesis
    using bodies_unique [of cs cs' "\<lambda>e. db_get_block (ce_db E) (ce_hashes E) (ce_now E) (bc_db s) (ie_hash e)"] assms
    by (simp add: switching_def)
qed

lemma read_some: "\<forall>e \<in> set es. \<exists>b. f e = Inr (Some b) \<Longrightarrow> \<exists>bs. mapR f es = Inr (map Some bs)"
proof (induction es)
  case (Cons e es)
  then obtain b bs where "f e = Inr (Some b)" "mapR f es = Inr (map Some bs)" by auto
  then have "mapR f (e # es) = Inr (map Some (b # bs))" by simp
  then show ?case by blast
qed (auto intro: exI [of _ "[]"])

lemma reorganize_switches:
  assumes "switching E s h ds cs" shows "reorganize_to E h s = switch_branch E ds cs s"
proof -
  obtain c a fork where p: "would_reorganize_to (bc_db s) h" "c_mode (ce_db E) \<noteq> REMOTE" "get_block_index (bc_db s) h = Some c"
    "get_active_tip (bc_db s) = Some a" "reorganization_paths (bc_db s) a c = Inr (ds, map fst cs, fork)"
    using assms by (auto simp: switching_def)
  let ?f = "\<lambda>e. db_get_block (ce_db E) (ce_hashes E) (ce_now E) (bc_db s) (ie_hash e)"
  have cs: "mapR ?f (map fst cs) = Inr (map (Some \<circ> snd) cs)" using assms by (intro read_back) (auto simp: switching_def)
  obtain bs where ds: "mapR ?f ds = Inr (map Some bs)" using read_some [of ds ?f] assms by (auto simp: switching_def)
  have undo: "\<not> list_ex (\<lambda>e. get_block_undo (bc_db s) (ie_hash e) = None) ds"
    using assms by (auto simp: switching_def list_ex_iff)
  have "zip (map fst cs) (map (the \<circ> (Some \<circ> snd)) cs) = cs" by (simp add: zip_map_fst_snd comp_def)
  moreover have "None \<notin> set (map Some bs @ map (Some \<circ> snd) cs)" by auto
  ultimately show ?thesis using undo by (simp add: reorganize_to_def run_simps p ds cs)
qed

lemma reorganize_otherwise:
  assumes "reorganize_to E h s = (r, s')" and "s' \<noteq> s" shows "\<exists>ds cs. switching E s h ds cs"
proof -
  let ?f = "\<lambda>e. db_get_block (ce_db E) (ce_hashes E) (ce_now E) (bc_db s) (ie_hash e)"
  obtain c a ds path fork old new where p: "would_reorganize_to (bc_db s) h" "c_mode (ce_db E) \<noteq> REMOTE"
    "get_block_index (bc_db s) h = Some c" "get_active_tip (bc_db s) = Some a"
    "reorganization_paths (bc_db s) a c = Inr (ds, path, fork)" "mapR ?f ds = Inr old" "mapR ?f path = Inr new"
    "None \<notin> set (old @ new)" "\<not> list_ex (\<lambda>e. get_block_undo (bc_db s) (ie_hash e) = None) ds"
    using assms by (auto simp: reorganize_to_def run_simps split: option.split_asm sum.split_asm if_split_asm prod.split_asm)
  have "switching E s h ds (zip path (map the new))"
    using p read_all [of ?f path new] read_all [of ?f ds old] by (auto simp: switching_def list_ex_iff)
  then show ?thesis by blast
qed

text \<open>
  C6: a reorganisation that does not succeed, because the branch has no more work, a body or the undo data is missing,
  a candidate is invalid or a step raises, leaves the chain where it was: the same tip and height, the same
  unspent outputs, bodies and undo data, the same pool. The index changes in one way only: when the first candidate
  that is not valid on top of the ones before it stopped the attempt, it is marked invalid with its branch; and it
  is marked then, unless the call raises.
\<close>

theorem failed_reorganisation_keeps_chain:
  assumes "reorganize_to E h s = (r, s')" and "r \<noteq> Inr True" and "r \<noteq> Inl NoReturn"
  shows "bc_height s' = bc_height s \<and> bc_tip s' = bc_tip s \<and> bc_orphans s' = bc_orphans s
    \<and> db_utxos (bc_db s') = db_utxos (bc_db s) \<and> db_blocks (bc_db s') = db_blocks (bc_db s)
    \<and> db_undo_spent (bc_db s') = db_undo_spent (bc_db s) \<and> db_undo_created (bc_db s') = db_undo_created (bc_db s)
    \<and> db_store (bc_db s') = db_store (bc_db s)
    \<and> ((\<exists>bad. rejected_candidate E s h bad \<and> bc_db s' = mark_block_branch_invalid bad (bc_db s))
       \<or> db_index (bc_db s') = db_index (bc_db s) \<and> (\<forall>bad. rejected_candidate E s h bad \<longrightarrow> (\<exists>e. r = Inl e)))"
proof (cases "\<exists>ds cs. switching E s h ds cs")
  case True
  have f: "bc_height s' = bc_height s \<and> bc_tip s' = bc_tip s \<and> bc_orphans s' = bc_orphans s
    \<and> ((\<exists>bad. stopped_at E s ds cs bad \<and> bc_db s' = mark_block_branch_invalid bad (bc_db s))
       \<or> bc_db s' = bc_db s \<and> (\<forall>bad. stopped_at E s ds cs bad \<longrightarrow> (\<exists>e. r = Inl e)))"
    if "switching E s h ds cs" for ds cs
    using failed_switch [of E ds cs s r s'] reorganize_switches [OF that] assms by simp
  show ?thesis
  proof (cases "\<exists>bad. rejected_candidate E s h bad \<and> bc_db s' = mark_block_branch_invalid bad (bc_db s)")
    case marked: True
    then show ?thesis using True f by (auto simp: mark_block_branch_invalid_def Let_def)
  next
    case False
    then have "bc_db s' = bc_db s" "\<forall>bad. rejected_candidate E s h bad \<longrightarrow> (\<exists>e. r = Inl e)"
      using True f unfolding rejected_candidate_def by blast+
    then show ?thesis using True f by auto
  qed
next
  case False
  then have "s' = s" using reorganize_otherwise [OF assms(1)] by blast
  then show ?thesis using False by (simp add: rejected_candidate_def)
qed

text \<open>
  A chain whose tip is the first block, and the block from the far future stored as its child: the branch has more work,
  the attempt stops at the child, which is marked.
\<close>

definition first_entry :: index_entry where
  "first_entry = \<lparr>ie_hash = first_id, ie_prev = replicate 32 0, ie_height = 0, ie_bits = GENESIS_BLOCK_BITS, ie_time = 5,
     ie_work = 4295032833, ie_chainwork = 4295032833, ie_active = True, ie_status = STATUS_VALID\<rparr>"

definition late_entry :: index_entry where
  "late_entry = \<lparr>ie_hash = late_id, ie_prev = first_id, ie_height = 1, ie_bits = GENESIS_BLOCK_BITS, ie_time = 4000000000,
     ie_work = 4295032833, ie_chainwork = 8590065666, ie_active = False, ie_status = STATUS_CANDIDATE\<rparr>"

lemma late_differs [simp]: "late_id \<noteq> first_id" "first_id \<noteq> late_id" "replicate 32 0 \<noteq> late_id"
proof -
  have "late_id ! 4 \<noteq> first_id ! 4" "late_id ! 0 \<noteq> replicate 32 0 ! 0" by (simp_all add: late_id_def first_id_def)
  then show "late_id \<noteq> first_id" "first_id \<noteq> late_id" "replicate 32 0 \<noteq> late_id" by metis+
qed

lemma late_bytes: "\<exists>bs. block_to_bytes late_child = Inr bs"
  using first_bytes first_preimage
  by (auto simp: block_to_bytes_def header_to_bytes_def get_header_def late_child_def first_block_def to_bytes_le_def write_first)

lemma late_wf: "block_wf pad_hashes late_child"
proof -
  have "block_new pad_hashes 1 1 first_id 4000000000 GENESIS_BLOCK_BITS 3 [first_tx] = Inr late_child"
    using first_block_new by (auto simp: block_new_def late_child_def first_block_def GENESIS_BLOCK_BITS_def first_id_def)
  moreover have "header_wf (get_header late_child)"
    by (simp add: header_wf_def get_header_def late_child_def first_block_def first_id_def first_txid_def GENESIS_BLOCK_BITS_def)
  moreover have "tx_wf first_tx" by (simp add: tx_wf_def first_tx_def txin_wf_def)
  ultimately show ?thesis
    by (simp add: block_wf_def block_from_header_def get_header_def) (simp add: late_child_def first_block_def)
qed

lemma late_header: "header_id pad_hashes (get_header late_child) = Inr late_id" "bh_prev (get_header late_child) = first_id"
  "bh_bits (get_header late_child) = GENESIS_BLOCK_BITS" "bh_time (get_header late_child) = 4000000000"
  using late_block_id by (simp_all add: block_id_def) (simp_all add: get_header_def late_child_def)

lemma late_stored:
  "\<exists>db. db_add_block (local_config ARCHIVAL) pad_hashes late_child 1 None False STATUS_CANDIDATE
       (empty_tables (open_files [])\<lparr>db_index := [first_entry]\<rparr>) = (Inr (), db)
     \<and> db_index db = [first_entry, late_entry]
     \<and> db_get_block (local_config ARCHIVAL) pad_hashes 1700000000 db late_id = Inr (Some late_child)"
proof -
  let ?C = "local_config ARCHIVAL" and ?db = "empty_tables (open_files [])\<lparr>db_index := [first_entry]\<rparr>"
  obtain bs where bs: "block_to_bytes late_child = Inr bs" using late_bytes by blast
  obtain loc st where w: "store_write (c_mode ?C) bs (db_store ?db) = (loc, st)" by fastforce
  have "store_ok ?C ?db" by (simp add: store_ok_def local_config_def files_inv_def empty_tables_def)
  from store_write_read [OF this block_bytes_nonempty [OF bs] w]
  have r: "store_read (c_mode ?C) (c_rpc ?C) late_id (Some loc) st = Inr (Some bs)" by (simp add: local_config_def)
  have "block_from_bytes pad_hashes 1700000000 bs = Inr (late_child, [])"
    using block_round_trip [OF late_wf bs, of 1700000000 "[]"] by simp
  moreover have "to_bytes_be CHAINWORK_BYTES 8590065666 = Inr (rev (le_bytes CHAINWORK_BYTES 8590065666))"
    by (simp add: CHAINWORK_BYTES_def to_bytes_be_def)
  ultimately show ?thesis using w r
    by (simp add: db_add_block_def run_simps bs late_block_id with_body_def insert_block_body_def late_header first_work first_work_bytes
      empty_tables_def add_block_index_entry_def Let_def get_block_index_def lookup_index_def first_entry_def late_entry_def
      replace_entry_def db_get_block_def find_body_def parse_body_def)
qed

definition forked_chain :: "chain_db \<Rightarrow> blockchain" where
  "forked_chain db = sample_chain\<lparr>bc_db := db, bc_height := 0, bc_tip := Some first_block\<rparr>"

lemma failed_reorganisation_keeps_chain_witness:
  "\<exists>db s'. reorganize_to sample_env late_id (forked_chain db) = (Inr False, s') \<and> bc_tip s' = Some first_block \<and> bc_height s' = 0
     \<and> rejected_candidate sample_env (forked_chain db) late_id late_id
     \<and> db_index db = [first_entry, late_entry]
     \<and> db_index (bc_db s') = [first_entry, late_entry\<lparr>ie_status := STATUS_INVALID\<rparr>]
     \<and> db_utxos (bc_db s') = db_utxos db"
proof -
  obtain db where db: "db_index db = [first_entry, late_entry]"
    "db_get_block (local_config ARCHIVAL) pad_hashes 1700000000 db late_id = Inr (Some late_child)"
    using late_stored by blast
  let ?s = "forked_chain db"
  have mode: "c_mode (local_config ARCHIVAL) \<noteq> REMOTE" by (simp add: local_config_def)
  have s: "bc_db ?s = db" "bc_tip ?s = Some first_block" "bc_height ?s = 0" by (simp_all add: forked_chain_def)
  have entries: "get_block_index db late_id = Some late_entry" "get_block_index db first_id = Some first_entry"
    "get_active_tip db = Some first_entry"
    by (simp_all add: get_block_index_def lookup_index_def get_active_tip_def db(1)) (simp_all add: first_entry_def late_entry_def)
  have "reorganization_paths db first_entry late_entry = Inr ([], [late_entry], first_entry)"
    using entries by (simp add: reorganization_paths_def Let_def db(1) first_entry_def late_entry_def numeral_2_eq_2)
  moreover have "would_reorganize_to db late_id"
    using entries by (simp add: would_reorganize_to_def) (simp add: first_entry_def late_entry_def)
  ultimately have sw: "switching sample_env ?s late_id [] [(late_entry, late_child)]"
    using entries db mode s by (simp add: switching_def) (simp add: late_entry_def)
  have invalid: "validate_block sample_env (chain_view.truncate ?s) late_child = Inr False"
    by (rule late_invalid [OF s(2)])
  have "connect_candidates sample_env [] ?s = (Inr None, ?s)" by (simp add: run_simps)
  then have "stopped_at sample_env ?s [] [(late_entry, late_child)] late_id"
    unfolding stopped_at_def using invalid by (intro exI [of _ "[]"] exI [of _ late_entry] exI [of _ late_child] exI [of _ ?s])
      (simp add: run_simps, simp add: late_entry_def)
  then have bad: "rejected_candidate sample_env ?s late_id late_id" using sw by (auto simp: rejected_candidate_def)
  obtain s' where run: "reorganize_to sample_env late_id ?s = (Inr False, s')"
    unfolding reorganize_switches [OF sw] switch_branch_def
    by (simp add: run_simps invalid) (simp add: bindS_def set_cached_tip_def run_simps restore_tables_def s genesis_bits_target on_db_def zoomS_def)
  have only: "b = late_id" if rej: "rejected_candidate sample_env ?s late_id b" for b
  proof -
    obtain ds cs where "switching sample_env ?s late_id ds cs" "stopped_at sample_env ?s ds cs b"
      using rej by (auto simp: rejected_candidate_def)
    then have "stopped_at sample_env ?s [] [(late_entry, late_child)] b" using switching_unique [OF sw] by blast
    then show ?thesis unfolding stopped_at_iff by (simp add: run_simps invalid) (simp add: late_entry_def)
  qed
  from failed_reorganisation_keeps_chain [OF run] bad only run
  have r: "bc_height s' = 0" "bc_tip s' = Some first_block" "db_utxos (bc_db s') = db_utxos db"
    "bc_db s' = mark_block_branch_invalid late_id db" by (auto simp: s)
  moreover have "db_index (mark_block_branch_invalid late_id db) = [first_entry, late_entry\<lparr>ie_status := STATUS_INVALID\<rparr>]"
    by (simp add: mark_block_branch_invalid_def Let_def db(1) invalid_branch_def first_entry_def late_entry_def)
  ultimately show ?thesis using run bad db(1) by (intro exI [of _ db] exI [of _ s']) simp
qed

end
