(* ===== verification/Header_Facts.thy ===== *)
theory Header_Facts
  imports Chain_Facts
begin

text \<open>What \<^verbatim>\<open>add_headers\<close> of \<^verbatim>\<open>src/src/blockchain/blockchain.py\<close> lets into the index.\<close>

section \<open>Headers\<close>

text \<open>What a header needs that enters the index.\<close>

definition header_rules :: "chain_env \<Rightarrow> block_header \<Rightarrow> bool" where
  "header_rules E h \<longleftrightarrow> validate_header_pow (ce_hashes E) h = Inr True \<and> bh_time h \<le> ce_now E + MAX_FUTURE_BLOCK_TIME"

text \<open>
  Every header names the one before and is in the index under its hash, with that parent and one higher than it;
  \<open>n\<close> is the height of the block that the first one names.
\<close>

fun headers_linked :: "chain_env \<Rightarrow> chain_db \<Rightarrow> bytes \<Rightarrow> int \<Rightarrow> block_header list \<Rightarrow> bool" where
  "headers_linked E db prev n [] = True"
| "headers_linked E db prev n (h # hs) =
     (\<exists>bid e. header_id (ce_hashes E) h = Inr bid \<and> bh_prev h = prev \<and> get_block_index db bid = Some e
        \<and> ie_prev e = prev \<and> ie_height e = n + 1 \<and> headers_linked E db bid (n + 1) hs)"

definition index_kept :: "chain_db \<Rightarrow> chain_db \<Rightarrow> bool" where
  "index_kept db db' \<longleftrightarrow> (\<forall>k e. get_block_index db k = Some e \<longrightarrow> get_block_index db' k = Some e)"

lemma index_kept_refl [simp]: "index_kept db db"
  by (simp add: index_kept_def)

lemma index_kept_trans: "index_kept db db1 \<Longrightarrow> index_kept db1 db2 \<Longrightarrow> index_kept db db2"
  by (simp add: index_kept_def)

lemma index_kept_keys: "index_kept db db' \<Longrightarrow> idx_keys db \<subseteq> idx_keys db'"
  unfolding index_kept_def by (metis in_idx_keys not_None_eq subsetI)

text \<open>A header whose hash the index does not have leaves the other entries alone.\<close>

lemma new_header_entry:
  assumes "add_block_header H h n db = Inr db'" and "header_id H h = Inr bid" and "get_block_index db bid = None"
  shows "index_kept db db' \<and> (\<exists>e. get_block_index db' bid = Some e \<and> ie_prev e = bh_prev h \<and> ie_height e = n)"
proof -
  obtain e where e: "db' = db\<lparr>db_index := replace_entry e (db_index db)\<rparr>" "ie_hash e = bid" "ie_prev e = bh_prev h" "ie_height e = n"
    using assms(1,2) by (auto simp: add_block_header_def add_block_index_entry_def Let_def)
  have "filter (\<lambda>r. ie_hash r \<noteq> bid) (db_index db) = db_index db"
    using assms(3) by (auto simp: get_block_index_def lookup_index_def find_None_iff intro: filter_True)
  then have rows: "db_index db' = db_index db @ [e]" by (simp add: e replace_entry_def)
  have "find P (xs @ ys) = (case find P xs of None \<Rightarrow> find P ys | Some x \<Rightarrow> Some x)" for P and xs ys :: "index_entry list"
    by (induction xs) simp_all
  then have "get_block_index db' k = (case get_block_index db k of None \<Rightarrow> if k = bid then Some e else None | Some x \<Rightarrow> Some x)" for k
    by (auto simp: get_block_index_def lookup_index_def rows e(2) split: option.split)
  then show ?thesis using assms(3) e by (simp add: index_kept_def)
qed

lemma headers_linked_mono: "headers_linked E db prev n hs \<Longrightarrow> index_kept db db' \<Longrightarrow> headers_linked E db' prev n hs"
  by (induction hs arbitrary: prev n) (auto simp: index_kept_def)

lemma header_step_spec:
  assumes "add_header_step E h prev p db = (Inr (accepted, q), db')"
  obtains bid where "header_id (ce_hashes E) h = Inr bid" and "bh_prev h = prev" and "get_block_index db' bid = Some q"
    and "ie_prev q = prev" and "ie_height q = ie_height p + 1"
    and "index_kept db db'" and "accepted = [] \<and> db' = db \<or> accepted = [h] \<and> header_rules E h"
    and "db_utxos db' = db_utxos db \<and> db_blocks db' = db_blocks db \<and> db_store db' = db_store db"
proof -
  obtain bid where hid: "header_id (ce_hashes E) h = Inr bid" and prev: "bh_prev h = prev"
    using assms by (cases "header_id (ce_hashes E) h") (auto simp: add_header_step_def Let_def run_simps split: if_split_asm)
  show thesis
  proof (cases "get_block_index db bid")
    case (Some e)
    then have "accepted = []" "db' = db" "q = e" "ie_prev e = bh_prev h" "ie_height e = ie_height p + 1" using assms hid prev
      by (auto simp: add_header_step_def Let_def run_simps split: if_split_asm)
    then show ?thesis using that [OF hid prev] Some prev by simp
  next
    case None
    then have new: "accepted = [h]" "add_block_header (ce_hashes E) h (ie_height p + 1) db = Inr db'" "header_rules E h"
        "get_block_index db' bid = Some q"
      using assms hid prev
      by (auto simp: add_header_step_def Let_def run_simps header_rules_def split: if_split_asm sum.split_asm option.split_asm)
    have "db_utxos db' = db_utxos db \<and> db_blocks db' = db_blocks db \<and> db_store db' = db_store db"
      using new(2) by (auto simp: add_block_header_def add_block_index_entry_def Let_def)
    then show ?thesis using that [OF hid prev] new new_header_entry [OF new(2) hid None] prev by auto
  qed
qed

lemma headers_loop_spec:
  "add_headers_loop E prev p hs db = (Inr accepted, db') \<Longrightarrow>
     headers_linked E db' prev (ie_height p) hs \<and> index_kept db db' \<and> (\<forall>h \<in> set accepted. h \<in> set hs \<and> header_rules E h)
     \<and> db_utxos db' = db_utxos db \<and> db_blocks db' = db_blocks db \<and> db_store db' = db_store db"
proof (induction hs arbitrary: prev p db accepted)
  case Nil
  then show ?case by (simp add: run_simps)
next
  case (Cons h hs)
  obtain a q db1 where step: "add_header_step E h prev p db = (Inr (a, q), db1)"
    using Cons.prems by (auto simp: bindS_Inr_iff split: prod.split_asm)
  obtain bid where b: "header_id (ce_hashes E) h = Inr bid" "bh_prev h = prev" "get_block_index db1 bid = Some q"
    "ie_prev q = prev" "ie_height q = ie_height p + 1" "index_kept db db1" "a = [] \<and> db1 = db \<or> a = [h] \<and> header_rules E h"
    "db_utxos db1 = db_utxos db \<and> db_blocks db1 = db_blocks db \<and> db_store db1 = db_store db"
    by (rule header_step_spec [OF step])
  obtain rest where rest: "add_headers_loop E bid q hs db1 = (Inr rest, db')" "accepted = a @ rest"
    using Cons.prems step b(1) by (auto simp: bindS_Inr_iff run_simps)
  note ih = Cons.IH [OF rest(1)]
  have "get_block_index db' bid = Some q" using b(3) ih by (simp add: index_kept_def)
  then have "headers_linked E db' prev (ie_height p) (h # hs)" using ih b(1,2,4,5) by simp
  then show ?case using ih b(7,8) rest(2) index_kept_trans [OF b(6)] by auto
qed

text \<open>
  C11: a batch of headers that is taken is a chain: the first names a block of the index, each other one the header
  before it, and all of them are in the index afterwards, each one higher than its parent. Those reported as new have the work their bits ask for and
  a time at most two hours ahead. The unspent outputs, the bodies and the files are not touched.
\<close>

theorem accepted_headers_link:
  assumes "add_headers E headers db = (Inr accepted, db')" and "headers \<noteq> []"
  shows "(\<exists>p. get_block_index db (bh_prev (hd headers)) = Some p \<and> headers_linked E db' (bh_prev (hd headers)) (ie_height p) headers)
    \<and> (\<forall>h \<in> set accepted. h \<in> set headers \<and> validate_header_pow (ce_hashes E) h = Inr True
         \<and> bh_time h \<le> ce_now E + MAX_FUTURE_BLOCK_TIME)
    \<and> idx_keys db \<subseteq> idx_keys db' \<and> db_utxos db' = db_utxos db \<and> db_blocks db' = db_blocks db \<and> db_store db' = db_store db"
proof -
  obtain h hs where hs: "headers = h # hs" using assms(2) by (cases headers) auto
  obtain p where p: "get_block_index db (bh_prev h) = Some p" "add_headers_loop E (bh_prev h) p headers db = (Inr accepted, db')"
    using assms(1) by (auto simp: add_headers_def hs run_simps split: option.split_asm simp del: add_headers_loop.simps)
  show ?thesis using headers_loop_spec [OF p(2)] index_kept_keys p(1) by (simp add: hs header_rules_def del: headers_linked.simps)
qed

lemma accepted_headers_link_witness:
  "\<exists>db' accepted. add_headers sample_env [get_header first_block]
       ((empty_tables (open_files []))\<lparr>db_index := [\<lparr>ie_hash = replicate 32 0, ie_prev = [], ie_height = 0, ie_bits = [],
          ie_time = 0, ie_work = 0, ie_chainwork = 0, ie_active = True, ie_status = STATUS_VALID\<rparr>]\<rparr>) = (Inr accepted, db')
     \<and> accepted = [get_header first_block] \<and> first_id \<in> idx_keys db'"
proof -
  let ?db = "(empty_tables (open_files []))\<lparr>db_index := [\<lparr>ie_hash = replicate 32 0, ie_prev = [], ie_height = 0, ie_bits = [],
          ie_time = 0, ie_work = 0, ie_chainwork = 0, ie_active = True, ie_status = STATUS_VALID\<rparr>]\<rparr>"
  have pow: "validate_header_pow pad_hashes (get_header first_block) = Inr True"
    using genesis_bits_target first_header
    by (simp add: validate_header_pow_def empty_view_def first_id_def be_val_def le_val_zeros le_val_zero le_bytes_numeral Let_def)
      (simp add: GENESIS_BLOCK_BITS_def)
  have "bh_time (get_header first_block) = 5" by (simp add: get_header_def first_block_def)
  moreover have "replicate 32 0 \<noteq> first_id" "first_id \<noteq> replicate 32 0" by (auto simp: first_id_def dest: arg_cong [where f = hd])
  ultimately obtain db' where run: "add_headers sample_env [get_header first_block] ?db = (Inr [get_header first_block], db')"
    by (auto simp: add_headers_def run_simps first_header get_block_index_def lookup_index_def add_header_step_def Let_def
      regtest_free pow MAX_FUTURE_BLOCK_TIME_def add_block_header_def add_block_index_entry_def first_work first_work_bytes
      replace_entry_def)
  from accepted_headers_link [OF run] run in_idx_keys [of db' first_id] show ?thesis by (auto simp: first_header)
qed

end
