(* ===== verification/Tx_Orphans.thy ===== *)
theory Tx_Orphans
  imports Tx_Validation State_Result "HOL-Library.AList"
begin

text \<open>
  \<^verbatim>\<open>src/src/mempool/orphan_pool.py\<close> and \<^verbatim>\<open>src/src/mempool/policy.py\<close>: transactions whose inputs name unknown
  parents, in the order they came, bounded in number and size, and the standardness rules for relay. The sets of
  the code are lists without repetition; where Python iterates over a set in no particular order, the model takes the
  order of arrival. The size of a stored transaction was computed when it was stored.
\<close>

section \<open>The pool of orphan transactions\<close>

record orphan_tx =
  ox_tx :: tx
  ox_missing :: "bytes list"
  ox_time :: int

record tx_orphans =
  to_max_count :: int
  to_max_vbytes :: int
  to_max_time :: int
  to_entries :: "(bytes \<times> orphan_tx) list"
  to_by_parent :: "bytes \<Rightarrow> bytes list"
  to_total :: int

definition ORPHAN_MAX_COUNT :: int where "ORPHAN_MAX_COUNT = 100"
definition ORPHAN_MAX_VBYTES :: int where "ORPHAN_MAX_VBYTES = 5000000"
definition ORPHAN_MAX_TIME :: int where "ORPHAN_MAX_TIME = 20 * 60"

definition tx_orphans_new :: "int \<Rightarrow> int \<Rightarrow> int \<Rightarrow> tx_orphans" where
  "tx_orphans_new max_count max_vbytes max_time =
     \<lparr>to_max_count = max_count, to_max_vbytes = max_vbytes, to_max_time = max_time, to_entries = [],
      to_by_parent = (\<lambda>_. []), to_total = 0\<rparr>"

definition tx_orphan_remove :: "bytes \<Rightarrow> tx_orphans \<Rightarrow> (orphan_tx option \<times> tx_orphans) result" where
  "tx_orphan_remove txid p =
     (case map_of (to_entries p) txid of
        None \<Rightarrow> Inr (None, p)
      | Some e \<Rightarrow>
          bindR (tx_vbytes (ox_tx e)) (\<lambda>vbytes.
            Inr (Some e,
              p\<lparr>to_entries := AList.delete txid (to_entries p), to_total := to_total p - vbytes,
                to_by_parent := (\<lambda>q. if q \<in> set (ox_missing e) then removeAll txid (to_by_parent p q) else to_by_parent p q)\<rparr>)))"

text \<open>The eviction loop: the oldest entry goes until both bounds hold.\<close>

fun tx_orphan_evict :: "bytes list \<Rightarrow> tx_orphans \<Rightarrow> tx_orphans result" where
  "tx_orphan_evict queue p =
     (if int (length (to_entries p)) > to_max_count p \<or> to_total p > to_max_vbytes p then
        (case queue of
           [] \<Rightarrow> Inl StopIteration
         | txid # rest \<Rightarrow> bindR (tx_orphan_remove txid p) (\<lambda>(_, p1). tx_orphan_evict rest p1))
      else Inr p)"

declare tx_orphan_evict.simps [simp del]

definition tx_orphan_add :: "hashes \<Rightarrow> int \<Rightarrow> tx \<Rightarrow> bytes list \<Rightarrow> tx_orphans \<Rightarrow> (bool \<times> tx_orphans) result" where
  "tx_orphan_add H now t missing_parents p =
     (if missing_parents = [] then Inr (False, p)
      else bindR (tx_txid H t) (\<lambda>txid.
        if map_of (to_entries p) txid \<noteq> None then Inr (False, p)
        else bindR (tx_vbytes t) (\<lambda>vbytes.
          if vbytes > to_max_vbytes p \<or> to_max_count p \<le> 0 then Inr (False, p)
          else
            let p1 = p\<lparr>to_entries := to_entries p @ [(txid, \<lparr>ox_tx = t, ox_missing = missing_parents, ox_time = now\<rparr>)],
                       to_total := to_total p + vbytes,
                       to_by_parent := (\<lambda>q. if q \<in> set missing_parents \<and> txid \<notin> set (to_by_parent p q)
                         then to_by_parent p q @ [txid] else to_by_parent p q)\<rparr> in
            bindR (tx_orphan_evict (map fst (to_entries p1)) p1) (\<lambda>p2.
              Inr (map_of (to_entries p2) txid \<noteq> None, p2)))))"

fun tx_orphan_remove_all :: "bytes list \<Rightarrow> tx_orphans \<Rightarrow> (orphan_tx list \<times> tx_orphans) result" where
  "tx_orphan_remove_all [] p = Inr ([], p)"
| "tx_orphan_remove_all (txid # txids) p =
     bindR (tx_orphan_remove txid p) (\<lambda>(e, p1).
     bindR (tx_orphan_remove_all txids p1) (\<lambda>(es, p2).
       Inr ((case e of None \<Rightarrow> es | Some x \<Rightarrow> x # es), p2)))"

definition pop_dependents :: "bytes \<Rightarrow> tx_orphans \<Rightarrow> (orphan_tx list \<times> tx_orphans) result" where
  "pop_dependents parent_txid p = tx_orphan_remove_all (to_by_parent p parent_txid) p"

definition evict_expired_orphans :: "int \<Rightarrow> tx_orphans \<Rightarrow> (nat \<times> tx_orphans) result" where
  "evict_expired_orphans now p =
     (let cutoff = now - to_max_time p;
          expired = map fst (filter (\<lambda>(_, e). ox_time e < cutoff) (to_entries p)) in
      bindR (tx_orphan_remove_all expired p) (\<lambda>(_, p1). Inr (length expired, p1)))"

section \<open>Admission results and standardness\<close>

datatype admission_category = ACCEPTED | ORPHAN | CONSENSUS_INVALID | NONSTANDARD | POLICY

record admission_result =
  ar_accepted :: bool
  ar_category :: admission_category
  ar_replaced :: "bytes list"

definition MAX_STANDARD_TX_WEIGHT :: int where "MAX_STANDARD_TX_WEIGHT = 400000"
definition MAX_STANDARD_SCRIPTSIG_SIZE :: nat where "MAX_STANDARD_SCRIPTSIG_SIZE = 1650"
definition MAX_STANDARD_NULL_DATA_SIZE :: nat where "MAX_STANDARD_NULL_DATA_SIZE = 83"
definition STANDARD_TX_VERSIONS :: "int list" where "STANDARD_TX_VERSIONS = [1, 2, 3]"
definition OP_RETURN_BYTE :: byte where "OP_RETURN_BYTE = 0x6A"

text \<open>An output script of a standard shape; the reasons of a rejection are text and left out.\<close>

definition standard_output :: "bytes \<Rightarrow> bool result" where
  "standard_output script =
     (if script \<noteq> [] \<and> hd script = OP_RETURN_BYTE then Inr (length script \<le> MAX_STANDARD_NULL_DATA_SIZE)
      else case classify_scriptpubkey script of
          Inr _ \<Rightarrow> Inr True
        | Inl e \<Rightarrow> if e \<in> {ScriptPubKeyError, IndexError, ValueError} then Inr False else Inl e)"

definition check_transaction_standardness :: "tx \<Rightarrow> bool result" where
  "check_transaction_standardness t =
     (if t_version t \<notin> set STANDARD_TX_VERSIONS then Inr False
      else bindR (tx_wu t) (\<lambda>wu.
        if wu > MAX_STANDARD_TX_WEIGHT then Inr False
        else if \<not> list_all (\<lambda>i. length (in_scriptsig i) \<le> MAX_STANDARD_SCRIPTSIG_SIZE) (t_inputs t) then Inr False
        else bindR (anyR (\<lambda>out. bindR (standard_output (out_scriptpubkey out)) (\<lambda>ok. Inr (\<not> ok))) (t_outputs t))
          (\<lambda>bad. Inr (\<not> bad))))"

end
