(* ===== verification/Double_Arith.thy ===== *)
theory Double_Arith
  imports Prelude Complex_Main
begin

text \<open>
  Python's floats where the code computes fee rates: binary numbers with 53 digits, kept as rationals. Division of
  two integers, the product and the sum round to the nearest such number, ties to the even one. The rates of the
  code are far from the largest and the smallest float, so exponents are not bounded here.
\<close>

definition pow2 :: "int \<Rightarrow> rat" where
  "pow2 e = (if 0 \<le> e then 2 ^ nat e else 1 / 2 ^ nat (- e))"

definition half_even :: "rat \<Rightarrow> int" where
  "half_even q =
     (let f = \<lfloor>q\<rfloor>; r = q - of_int f in
      if r < 1 / 2 then f else if r > 1 / 2 then f + 1 else if even f then f else f + 1)"

text \<open>The exponent of a positive number, from the lengths of numerator and denominator.\<close>

definition exponent_of :: "rat \<Rightarrow> int" where
  "exponent_of q =
     (let (n, d) = quotient_of q; k = int (bit_length (nat n)) - int (bit_length (nat d)) in
      if pow2 k \<le> q then k else k - 1)"

definition round_double :: "rat \<Rightarrow> rat" where
  "round_double q =
     (if q = 0 then 0
      else let e = exponent_of \<bar>q\<bar> - 52 in sgn q * of_int (half_even (\<bar>q\<bar> / pow2 e)) * pow2 e)"

definition divide_double :: "int \<Rightarrow> int \<Rightarrow> rat result" where
  "divide_double a b = (if b = 0 then Inl ZeroDivisionError else Inr (round_double (of_int a / of_int b)))"

section \<open>Integers of up to 53 digits are exact\<close>

lemma half_even_int [simp]: "half_even (of_int n) = n"
  by (simp add: half_even_def Let_def)

lemma pow2_simps [simp]: "pow2 (int n) = 2 ^ n" "pow2 (- int n) = 1 / 2 ^ n" "0 < pow2 e"
  by (simp_all add: pow2_def)

lemma exponent_of_int:
  assumes "0 < n" and "n < 2 ^ 53" shows "exponent_of (of_int n) \<le> 52"
proof -
  have "quotient_of (of_int n) = (n, 1)" 
    by (metis Rat.of_int_def quotient_of_int)
  moreover have "bit_length (nat 1) = 1" by (simp add: bit_length.simps)
  moreover have "bit_length (nat n) \<le> 53"
    using assms by (intro bit_length_le) (simp add: nat_less_iff)
  moreover have "pow2 52 \<le> of_int n" if "\<not> pow2 52 \<le> (of_int n :: rat) \<Longrightarrow> False"
    using that by blast
  moreover have "\<not> pow2 53 \<le> (of_int n :: rat)"
  proof -
    have "(of_int n :: rat) < of_int (2 ^ 53)" using assms(2) by (subst of_int_less_iff)
    then show ?thesis by (simp add: pow2_def)
  qed
  moreover have "\<not> pow2 52 \<le> q \<Longrightarrow> 52 \<le> (k :: int) \<Longrightarrow> \<not> pow2 k \<le> q" for q k
  proof -
    assume a: "\<not> pow2 52 \<le> q" "52 \<le> k"
    have "(2 :: rat) ^ 52 \<le> 2 ^ nat k" by (rule power_increasing) (use a(2) in simp_all)
    then have "pow2 52 \<le> pow2 k" using a(2) by (simp add: pow2_def)
    then show ?thesis using a(1) by linarith
  qed
  ultimately show ?thesis
    by (auto simp: exponent_of_def Let_def)
qed

lemma round_double_int:
  assumes "\<bar>n\<bar> < 2 ^ 53" shows "round_double (of_int n) = of_int n"
proof (cases "n = 0")
  case False
  let ?e = "exponent_of (of_int \<bar>n\<bar>) - 52"
  have e: "?e \<le> 0" using exponent_of_int [of "\<bar>n\<bar>"] assms False by simp
  then obtain k where k: "?e = - int k" by (metis nonpos_int_cases)
  have "(of_int \<bar>n\<bar> :: rat) / pow2 ?e = of_int (\<bar>n\<bar> * 2 ^ k)" unfolding k by simp
  then have "half_even (of_int \<bar>n\<bar> / pow2 ?e) = \<bar>n\<bar> * 2 ^ k" by (simp only: half_even_int)
  then have "round_double (of_int n) = sgn (of_int n) * of_int (\<bar>n\<bar> * 2 ^ k) * pow2 ?e"
    using False by (simp only: round_double_def Let_def of_int_abs of_int_eq_0_iff if_False)
  also have "\<dots> = sgn (of_int n) * of_int \<bar>n\<bar>" unfolding k by simp
  also have "\<dots> = of_int n" by (simp add: sgn_if)
  finally show ?thesis .
qed (simp add: round_double_def)

end
