(* ===== verification/Mempool.thy ===== *)
theory Mempool
  imports Tx_Orphans Double_Arith Chain_DB "HOL-Library.List_Lexorder" "HOL-Library.Product_Lexorder"
begin

text \<open>
  \<^verbatim>\<open>src/src/mempool/mempool.py\<close>. The pool is the dictionary of its entries in the order of insertion. An entry of
  the code is an object, and its ancestors and descendants are lists of such objects; every object in these
  lists is an entry of the pool, so that its identity is its key and the lists hold keys. Fee rates are floats
  (\<open>Double_Arith\<close>); the power \<^verbatim>\<open>0.5 ** x\<close> of the C library is a parameter. The clock is a field of the
  environment, read by every call. Reasons of a rejection are text and left out.
\<close>

section \<open>State\<close>

record pool_entry =
  pe_tx :: tx
  pe_fee :: int
  pe_ancestors :: "bytes list"
  pe_descendants :: "bytes list"
  pe_time :: int

record pool_limits =
  pl_max_size :: int
  pl_max_time :: int
  pl_min_fee :: int
  pl_max_block_weight :: int
  pl_max_ancestor_count :: int
  pl_max_ancestor_vbytes :: int
  pl_max_descendant_count :: int
  pl_max_descendant_vbytes :: int
  pl_max_replacement_evictions :: int

definition DEFAULT_LIMITS :: pool_limits where
  "DEFAULT_LIMITS = \<lparr>pl_max_size = 300000, pl_max_time = 3600 * 336, pl_min_fee = 1, pl_max_block_weight = 4000000,
     pl_max_ancestor_count = 25, pl_max_ancestor_vbytes = 101000, pl_max_descendant_count = 25,
     pl_max_descendant_vbytes = 101000, pl_max_replacement_evictions = 100\<rparr>"

definition RBF_SEQUENCE_THRESHOLD :: int where "RBF_SEQUENCE_THRESHOLD = 0xFFFFFFFE"
definition ROLLING_FEE_HALFLIFE :: int where "ROLLING_FEE_HALFLIFE = 12 * 60 * 60"

record mempool =
  mp_limits :: pool_limits
  mp_entries :: "(bytes \<times> pool_entry) list"
  mp_total_vbytes :: int
  mp_spent_outpoints :: "bytes list"
  mp_spends :: "bytes \<Rightarrow> bytes option"
  mp_orphans :: tx_orphans
  mp_rolling_min_fee :: rat
  mp_rolling_updated_at :: int
  mp_last_admission :: admission_result

record pool_env =
  pv_params :: chain_params
  pv_hashes :: hashes
  pv_der :: der_decoder
  pv_config :: db_config
  pv_db :: chain_db
  pv_now :: int
  pv_half_pow :: "rat \<Rightarrow> rat"

definition rejected :: "admission_category \<Rightarrow> bytes list \<Rightarrow> admission_result" where
  "rejected category replaced_txids = \<lparr>ar_accepted = False, ar_category = category, ar_replaced = replaced_txids\<rparr>"

definition new_mempool :: "int \<Rightarrow> mempool" where
  "new_mempool now =
     \<lparr>mp_limits = DEFAULT_LIMITS, mp_entries = [], mp_total_vbytes = 0, mp_spent_outpoints = [], mp_spends = (\<lambda>_. None),
      mp_orphans = tx_orphans_new ORPHAN_MAX_COUNT ORPHAN_MAX_VBYTES ORPHAN_MAX_TIME,
      mp_rolling_min_fee = 0, mp_rolling_updated_at = now, mp_last_admission = rejected POLICY []\<rparr>"

definition in_pool :: "mempool \<Rightarrow> bytes \<Rightarrow> bool" where
  "in_pool m txid \<longleftrightarrow> map_of (mp_entries m) txid \<noteq> None"

definition lookup_entry :: "mempool \<Rightarrow> bytes \<Rightarrow> pool_entry result" where
  "lookup_entry m txid = (case map_of (mp_entries m) txid of None \<Rightarrow> Inl KeyError | Some e \<Rightarrow> Inr e)"

definition get_fee :: "mempool \<Rightarrow> bytes \<Rightarrow> int result" where
  "get_fee m txid = bindR (lookup_entry m txid) (\<lambda>e. Inr (pe_fee e))"

definition get_tx :: "mempool \<Rightarrow> bytes \<Rightarrow> tx option" where
  "get_tx m txid = map_option pe_tx (map_of (mp_entries m) txid)"

definition entry_vbytes :: "mempool \<Rightarrow> bytes \<Rightarrow> int result" where
  "entry_vbytes m txid = bindR (lookup_entry m txid) (\<lambda>e. tx_vbytes (pe_tx e))"

definition feerate :: "pool_entry \<Rightarrow> rat result" where
  "feerate e = bindR (tx_vbytes (pe_tx e)) (\<lambda>vbytes. divide_double (pe_fee e) vbytes)"

definition ancestor_feerate :: "mempool \<Rightarrow> pool_entry \<Rightarrow> rat result" where
  "ancestor_feerate m e =
     bindR (sumR (get_fee m) (pe_ancestors e)) (\<lambda>ancestor_fees.
     bindR (sumR (entry_vbytes m) (pe_ancestors e)) (\<lambda>ancestor_vbytes.
     bindR (tx_vbytes (pe_tx e)) (\<lambda>vbytes. divide_double (pe_fee e + ancestor_fees) (vbytes + ancestor_vbytes))))"

definition signals :: "tx \<Rightarrow> bool" where
  "signals t \<longleftrightarrow> list_ex (\<lambda>i. in_sequence i < RBF_SEQUENCE_THRESHOLD) (t_inputs t)"

definition signals_replaceability :: "mempool \<Rightarrow> pool_entry \<Rightarrow> bool" where
  "signals_replaceability m e \<longleftrightarrow>
     signals (pe_tx e) \<or> list_ex (\<lambda>a. case get_tx m a of None \<Rightarrow> False | Some t \<Rightarrow> signals t) (pe_ancestors e)"

section \<open>Removing entries\<close>

definition link_descendant :: "bytes \<Rightarrow> bytes \<Rightarrow> mempool \<Rightarrow> mempool" where
  "link_descendant txid a m =
     m\<lparr>mp_entries := AList.map_entry a (\<lambda>e. e\<lparr>pe_descendants := pe_descendants e @ [txid]\<rparr>) (mp_entries m)\<rparr>"

definition unlink_descendant :: "bytes \<Rightarrow> bytes \<Rightarrow> mempool \<Rightarrow> mempool" where
  "unlink_descendant txid a m =
     m\<lparr>mp_entries := AList.map_entry a (\<lambda>e. e\<lparr>pe_descendants := remove1 txid (pe_descendants e)\<rparr>) (mp_entries m)\<rparr>"

definition unlink_ancestor :: "bytes \<Rightarrow> bytes \<Rightarrow> mempool \<Rightarrow> mempool" where
  "unlink_ancestor txid d m =
     m\<lparr>mp_entries := AList.map_entry d (\<lambda>e. e\<lparr>pe_ancestors := remove1 txid (pe_ancestors e)\<rparr>) (mp_entries m)\<rparr>"

definition add_metadata :: "bytes \<Rightarrow> tx \<Rightarrow> mempool \<Rightarrow> mempool result" where
  "add_metadata txid t m =
     bindR (tx_vbytes t) (\<lambda>vbytes.
     bindR (mapR txin_outpoint (t_inputs t)) (\<lambda>ops.
       Inr (m\<lparr>mp_total_vbytes := mp_total_vbytes m + vbytes,
              mp_spent_outpoints := mp_spent_outpoints m @ filter (\<lambda>op. op \<notin> set (mp_spent_outpoints m)) (remdups ops),
              mp_spends := (\<lambda>op. if op \<in> set ops then Some txid else mp_spends m op)\<rparr>)))"

definition remove_metadata :: "tx \<Rightarrow> mempool \<Rightarrow> mempool result" where
  "remove_metadata t m =
     bindR (tx_vbytes t) (\<lambda>vbytes.
     bindR (mapR txin_outpoint (t_inputs t)) (\<lambda>ops.
       Inr (m\<lparr>mp_total_vbytes := mp_total_vbytes m - vbytes,
              mp_spent_outpoints := filter (\<lambda>op. op \<notin> set ops) (mp_spent_outpoints m),
              mp_spends := (\<lambda>op. if op \<in> set ops then None else mp_spends m op)\<rparr>)))"

text \<open>The last part of \<^verbatim>\<open>_remove_tx\<close>, after the descendants: the links, the metadata, the entry itself.\<close>

definition drop_entry :: "bytes \<Rightarrow> mempool \<Rightarrow> mempool result" where
  "drop_entry txid m =
     bindR (lookup_entry m txid) (\<lambda>e.
       let m1 = fold (unlink_descendant txid) (pe_ancestors e) m;
           m2 = fold (unlink_ancestor txid) (pe_descendants e) m1 in
       bindR (remove_metadata (pe_tx e) m2) (\<lambda>m3. Inr (m3\<lparr>mp_entries := AList.delete txid (mp_entries m3)\<rparr>)))"

text \<open>
  \<^verbatim>\<open>_remove_tx\<close>. With \<open>remove_descendants\<close> it calls itself for each descendant that is still there; the fuel
  bounds the depth of the calls.
\<close>

fun remove_tx :: "nat \<Rightarrow> bool \<Rightarrow> bytes \<Rightarrow> (mempool, unit) action" where
  "remove_tx 0 remove_descendants txid = raiseS NoReturn"
| "remove_tx (Suc fuel) remove_descendants txid =
     bindS (queryS (\<lambda>m. lookup_entry m txid)) (\<lambda>e.
     bindS (forS (\<lambda>d. bindS (readS (\<lambda>m. in_pool m d)) (\<lambda>there.
              if there then remove_tx fuel True d else returnS ()))
            (if remove_descendants then rev (pe_descendants e) else [])) (\<lambda>_.
       updateS (drop_entry txid)))"

definition remove_pool_tx :: "bool \<Rightarrow> bytes \<Rightarrow> (mempool, unit) action" where
  "remove_pool_tx remove_descendants txid m =
     remove_tx (Suc (length (mp_entries m))) remove_descendants txid m"

text \<open>Entries without unconfirmed ancestors go last: sorted by the number of ancestors, the largest first.\<close>

definition remove_entries :: "bytes list \<Rightarrow> (mempool, unit) action" where
  "remove_entries txids =
     bindS (readS (\<lambda>m. sort_key (\<lambda>txid. case map_of (mp_entries m) txid of
         None \<Rightarrow> 0 | Some e \<Rightarrow> - int (length (pe_ancestors e))) (filter (in_pool m) txids))) (\<lambda>order.
       forS (\<lambda>txid. bindS (readS (\<lambda>m. in_pool m txid)) (\<lambda>there.
         if there then remove_pool_tx False txid else returnS ())) order)"

definition evict_expired :: "pool_env \<Rightarrow> (mempool, nat) action" where
  "evict_expired E =
     bindS (readS (\<lambda>m. map fst (filter (\<lambda>(_, e). pv_now E - pe_time e > pl_max_time (mp_limits m)) (mp_entries m)))) (\<lambda>expired.
     bindS (forS (remove_pool_tx True) expired) (\<lambda>_.
     bindS (updateS (\<lambda>m. bindR (evict_expired_orphans (pv_now E) (mp_orphans m)) (\<lambda>(_, p). Inr (m\<lparr>mp_orphans := p\<rparr>)))) (\<lambda>_.
       returnS (length expired))))"

section \<open>Inputs\<close>

text \<open>An output of an unconfirmed parent, then of the active chain.\<close>

definition pool_get_utxo :: "pool_env \<Rightarrow> mempool \<Rightarrow> bytes \<Rightarrow> utxo option result" where
  "pool_get_utxo E m outpoint =
     (case map_of (mp_entries m) (take 32 outpoint) of
        Some parent \<Rightarrow>
          let vout = nat (le_val (drop 32 outpoint)) in
          if vout \<ge> length (t_outputs (pe_tx parent)) then Inl ReadError
          else Inr (Some (utxo_from_txoutput outpoint (t_outputs (pe_tx parent) ! vout) (get_chain_height (pv_db E) + 1) False))
      | None \<Rightarrow> get_utxo (pv_config E) (pv_db E) outpoint)"

fun pool_get_utxos :: "pool_env \<Rightarrow> mempool \<Rightarrow> tx_in list \<Rightarrow> utxo list option result" where
  "pool_get_utxos E m [] = Inr (Some [])"
| "pool_get_utxos E m (i # is) =
     bindR (txin_outpoint i) (\<lambda>op. bindR (pool_get_utxo E m op) (\<lambda>u.
     bindR (pool_get_utxos E m is) (\<lambda>us.
       Inr (case (u, us) of (Some x, Some xs) \<Rightarrow> Some (x # xs) | _ \<Rightarrow> None))))"

definition pool_get_fee :: "pool_env \<Rightarrow> mempool \<Rightarrow> tx \<Rightarrow> int result" where
  "pool_get_fee E m t =
     bindR (pool_get_utxos E m (t_inputs t)) (\<lambda>utxos.
       case utxos of
         None \<Rightarrow> Inl ReadError
       | Some us \<Rightarrow> bindR (load_tx t (Some us)) (tx_fee (pv_hashes E)))"

fun missing_parents :: "pool_env \<Rightarrow> mempool \<Rightarrow> tx_in list \<Rightarrow> bytes list result" where
  "missing_parents E m [] = Inr []"
| "missing_parents E m (i # is) =
     bindR (txin_outpoint i) (\<lambda>op. bindR (pool_get_utxo E m op) (\<lambda>u.
     bindR (missing_parents E m is) (\<lambda>ps.
       Inr (if u = None \<and> in_txid i \<notin> set ps then in_txid i # ps else ps))))"

section \<open>Consensus and standardness\<close>

text \<open>The time of the tip, for the flags in force at the next height.\<close>

definition next_block_flags :: "(chain_params \<Rightarrow> int \<Rightarrow> int option \<Rightarrow> bytes option \<Rightarrow> int) \<Rightarrow> pool_env \<Rightarrow> int result" where
  "next_block_flags flags E =
     bindR (get_latest_block (pv_config E) (pv_hashes E) (pv_now E) (pv_db E)) (\<lambda>tip.
       Inr (flags (pv_params E) (get_chain_height (pv_db E) + 1) (map_option b_time tip) None))"

definition pool_context :: "pool_env \<Rightarrow> int \<Rightarrow> tx_validation_context" where
  "pool_context E flags =
     (default_validation_context (pv_now E))\<lparr>v_validate_scripts := True,
        v_script_validator := Some (\<lambda>candidate. validate_tx_scripts (pv_hashes E) (pv_der E) candidate flags)\<rparr>"

text \<open>Every exception of the checks is caught; building the message needs the txid.\<close>

definition pool_validate_tx :: "pool_env \<Rightarrow> tx \<Rightarrow> utxo list \<Rightarrow> bool result" where
  "pool_validate_tx E t us =
     (case load_tx t (Some us) of
        Inl e \<Rightarrow> if e \<in> {ReadError, TransactionError, ValueError} then Inr False else Inl e
      | Inr l \<Rightarrow>
          (case bindR (next_block_flags consensus_script_flags E) (\<lambda>flags.
                  bindR (validate_loaded_tx (pv_hashes E) (pv_der E) l (pool_context E flags) None) (\<lambda>(ok, _). Inr ok)) of
             Inl e \<Rightarrow> if e = NoReturn then Inl e else reject_tx (pv_hashes E) t
           | Inr ok \<Rightarrow> Inr ok))"

definition check_standardness :: "pool_env \<Rightarrow> loaded_tx \<Rightarrow> bool result" where
  "check_standardness E l =
     bindR (check_transaction_standardness (l_tx l)) (\<lambda>shape.
       if \<not> shape then Inr False
       else case bindR (next_block_flags standard_script_flags E) (\<lambda>flags.
                   validate_tx_scripts (pv_hashes E) (pv_der E) l flags) of
           Inl e \<Rightarrow> if e = NoReturn then Inl e else Inr False
         | Inr ok \<Rightarrow> Inr ok)"

section \<open>Ancestors, package limits, replacement\<close>

definition topological_order :: "mempool \<Rightarrow> bytes list \<Rightarrow> bytes list" where
  "topological_order m txids =
     sort_key (\<lambda>txid. case map_of (mp_entries m) txid of
         None \<Rightarrow> (0, 0, txid) | Some e \<Rightarrow> (int (length (pe_ancestors e)), pe_time e, txid)) txids"

fun collect_ancestors :: "mempool \<Rightarrow> bytes list \<Rightarrow> bytes list \<Rightarrow> tx_in list \<Rightarrow> bytes list" where
  "collect_ancestors m excluded ancestors [] = ancestors"
| "collect_ancestors m excluded ancestors (i # is) =
     collect_ancestors m excluded
       (case map_of (mp_entries m) (in_txid i) of
          None \<Rightarrow> ancestors
        | Some parent \<Rightarrow>
            if in_txid i \<in> set excluded then ancestors
            else fold (\<lambda>a acc. if a \<in> set acc \<or> a \<in> set excluded then acc else acc @ [a])
                   (pe_ancestors parent @ [in_txid i]) ancestors) is"

definition get_ancestors :: "mempool \<Rightarrow> tx \<Rightarrow> bytes list \<Rightarrow> bytes list" where
  "get_ancestors m t excluded = topological_order m (collect_ancestors m excluded [] (t_inputs t))"

definition descendants_within_limits :: "mempool \<Rightarrow> bytes list \<Rightarrow> int \<Rightarrow> bytes \<Rightarrow> bool result" where
  "descendants_within_limits m ignored vbytes a =
     bindR (lookup_entry m a) (\<lambda>ancestor.
       let retained = filter (\<lambda>d. d \<notin> set ignored) (pe_descendants ancestor);
           descendant_count = int (length retained) + 2 in
       bindR (tx_vbytes (pe_tx ancestor)) (\<lambda>ancestor_vbytes.
       bindR (sumR (entry_vbytes m) retained) (\<lambda>retained_vbytes.
         Inr (\<not> descendant_count > pl_max_descendant_count (mp_limits m)
            \<and> \<not> ancestor_vbytes + retained_vbytes + vbytes > pl_max_descendant_vbytes (mp_limits m)))))"

definition check_package_limits :: "mempool \<Rightarrow> tx \<Rightarrow> bytes list \<Rightarrow> bytes list \<Rightarrow> bool result" where
  "check_package_limits m t ancestors ignored =
     bindR (tx_vbytes t) (\<lambda>vbytes.
     bindR (sumR (entry_vbytes m) ancestors) (\<lambda>total.
       if int (length ancestors) + 1 > pl_max_ancestor_count (mp_limits m) then Inr False
       else if vbytes + total > pl_max_ancestor_vbytes (mp_limits m) then Inr False
       else bindR (anyR (\<lambda>a. bindR (descendants_within_limits m ignored vbytes a) (\<lambda>ok. Inr (\<not> ok))) ancestors)
         (\<lambda>exceeded. Inr (\<not> exceeded))))"

definition get_direct_conflicts :: "mempool \<Rightarrow> tx \<Rightarrow> bytes list result" where
  "get_direct_conflicts m t =
     bindR (mapR txin_outpoint (t_inputs t)) (\<lambda>ops.
       Inr (filter (in_pool m) (remdups (List.map_filter (mp_spends m) ops))))"

text \<open>Whether the replacement is allowed, and what it evicts.\<close>

definition check_replacement :: "mempool \<Rightarrow> tx \<Rightarrow> int \<Rightarrow> bytes list \<Rightarrow> (bool \<times> bytes list) result" where
  "check_replacement m t fee direct_conflicts =
     bindR (mapR (lookup_entry m) direct_conflicts) (\<lambda>conflicts.
       if \<not> list_all (signals_replaceability m) conflicts then Inr (False, [])
       else
         let eviction_set = remdups (concat (map (\<lambda>(c, e). c # pe_descendants e) (zip direct_conflicts conflicts))) in
         if int (length eviction_set) > pl_max_replacement_evictions (mp_limits m) then Inr (False, [])
         else
           bindR (mapR txin_outpoint (filter (\<lambda>i. in_pool m (in_txid i)) (concat (map (\<lambda>e. t_inputs (pe_tx e)) conflicts))))
             (\<lambda>original_unconfirmed.
           bindR (anyR (\<lambda>i. if in_pool m (in_txid i) then bindR (txin_outpoint i) (\<lambda>op. Inr (op \<notin> set original_unconfirmed))
                             else Inr False) (t_inputs t)) (\<lambda>new_unconfirmed.
             if new_unconfirmed then Inr (False, [])
             else bindR (sumR (get_fee m) eviction_set) (\<lambda>evicted_fee.
               if fee < evicted_fee then Inr (False, [])
               else bindR (tx_vbytes t) (\<lambda>vbytes.
                 if fee - evicted_fee < pl_min_fee (mp_limits m) * vbytes then Inr (False, [])
                 else Inr (True, eviction_set))))))"

section \<open>Fees and size\<close>

definition get_min_relay_feerate :: "pool_env \<Rightarrow> (mempool, rat) action" where
  "get_min_relay_feerate E m =
     (let rolling = mp_rolling_min_fee m;
          elapsed = max 0 (pv_now E - mp_rolling_updated_at m);
          base = of_int (pl_min_fee (mp_limits m)) in
      if rolling > 0 \<and> elapsed \<noteq> 0 then
        let decayed = round_double (rolling * pv_half_pow E (round_double (of_int elapsed / of_int ROLLING_FEE_HALFLIFE)));
            rolling1 = (if decayed < base / 2 then 0 else decayed) in
        (Inr (max base rolling1), m\<lparr>mp_rolling_min_fee := rolling1, mp_rolling_updated_at := pv_now E\<rparr>)
      else (Inr (max base rolling), m))"

definition package_of :: "bytes \<Rightarrow> pool_entry \<Rightarrow> bytes list" where
  "package_of txid e = remdups (txid # pe_descendants e)"

definition package_feerate :: "mempool \<Rightarrow> bytes list \<Rightarrow> rat result" where
  "package_feerate m txids =
     bindR (sumR (get_fee m) txids) (\<lambda>package_fee.
     bindR (sumR (entry_vbytes m) txids) (\<lambda>package_vbytes. divide_double package_fee package_vbytes))"

text \<open>\<^verbatim>\<open>min\<close> and \<^verbatim>\<open>max\<close> with a key: the first best one.\<close>

fun min_by :: "('a \<Rightarrow> 'k :: linorder) \<Rightarrow> 'a \<Rightarrow> 'a list \<Rightarrow> 'a" where
  "min_by k x [] = x"
| "min_by k x (y # ys) = (let z = min_by k y ys in if k z < k x then z else x)"

fun max_by :: "('a \<Rightarrow> 'k :: linorder) \<Rightarrow> 'a \<Rightarrow> 'a list \<Rightarrow> 'a" where
  "max_by k x [] = x"
| "max_by k x (y # ys) = (let z = max_by k y ys in if k z > k x then z else x)"

definition trim_candidates :: "mempool \<Rightarrow> (rat \<times> bytes \<times> bytes list) list result" where
  "trim_candidates m =
     mapR (\<lambda>(txid, e). bindR (package_feerate m (package_of txid e)) (\<lambda>r. Inr (r, txid, package_of txid e))) (mp_entries m)"

text \<open>Every round removes an entry, so their number is fuel enough.\<close>

fun trim_loop :: "nat \<Rightarrow> pool_env \<Rightarrow> (mempool, bytes list) action" where
  "trim_loop 0 E m = (if mp_total_vbytes m > pl_max_size (mp_limits m) \<and> mp_entries m \<noteq> [] then raiseS NoReturn m else returnS [] m)"
| "trim_loop (Suc fuel) E m =
     (if mp_total_vbytes m > pl_max_size (mp_limits m) \<and> mp_entries m \<noteq> [] then
        bindS (queryS trim_candidates) (\<lambda>candidates.
          case candidates of
            [] \<Rightarrow> raiseS ValueError
          | c # cs \<Rightarrow>
              let (rate, _, txids) = min_by (\<lambda>(rate, txid, _). (rate, txid)) c cs in
              bindS (remove_entries txids) (\<lambda>_.
              bindS (modifyS (\<lambda>m. m\<lparr>mp_rolling_min_fee := max (mp_rolling_min_fee m)
                       (round_double (rate + of_int (pl_min_fee (mp_limits m)))), mp_rolling_updated_at := pv_now E\<rparr>)) (\<lambda>_.
              bindS (trim_loop fuel E) (\<lambda>evicted. returnS (sort txids @ evicted))))) m
      else returnS [] m)"

definition trim_to_size :: "pool_env \<Rightarrow> (mempool, bytes list) action" where
  "trim_to_size E m = trim_loop (length (mp_entries m)) E m"

section \<open>Admission\<close>

datatype candidate = Serialized bytes | Decoded tx

definition decode_candidate :: "candidate \<Rightarrow> tx option result" where
  "decode_candidate c =
     (case c of
        Decoded t \<Rightarrow> Inr (Some t)
      | Serialized bs \<Rightarrow>
          (case tx_from_bytes bs of
             Inr (t, _) \<Rightarrow> Inr (Some t)
           | Inl e \<Rightarrow> if e \<in> {ReadError, ValueError} then Inr None else Inl e))"

definition precheck_tx :: "hashes \<Rightarrow> mempool \<Rightarrow> tx \<Rightarrow> admission_category option result" where
  "precheck_tx H m t =
     bindR (tx_txid H t) (\<lambda>txid.
       if in_pool m txid then Inr (Some POLICY)
       else bindR (tx_is_coinbase t) (\<lambda>coinbase. Inr (if coinbase then Some CONSENSUS_INVALID else None)))"

text \<open>The entry of an accepted transaction: the links, the entry, the metadata.\<close>

definition insert_entry :: "pool_env \<Rightarrow> bytes \<Rightarrow> tx \<Rightarrow> int \<Rightarrow> bytes list \<Rightarrow> (mempool, unit) action" where
  "insert_entry E txid t fee ancestors =
     bindS (modifyS (fold (link_descendant txid) ancestors)) (\<lambda>_.
     bindS (modifyS (\<lambda>m. m\<lparr>mp_entries := AList.update txid
         \<lparr>pe_tx = t, pe_fee = fee, pe_ancestors = ancestors, pe_descendants = [], pe_time = pv_now E\<rparr> (mp_entries m)\<rparr>)) (\<lambda>_.
       updateS (add_metadata txid t)))"

definition store_orphan :: "pool_env \<Rightarrow> tx \<Rightarrow> (mempool, unit) action" where
  "store_orphan E t =
     bindS (queryS (\<lambda>m. missing_parents E m (t_inputs t))) (\<lambda>missing.
       updateS (\<lambda>m. bindR (tx_orphan_add (pv_hashes E) (pv_now E) t missing (mp_orphans m)) (\<lambda>(_, p).
         Inr (m\<lparr>mp_orphans := p\<rparr>))))"

text \<open>The changes of an admission: the eviction of what is replaced, the new entry, the trim.\<close>

definition take_in :: "pool_env \<Rightarrow> bytes \<Rightarrow> tx \<Rightarrow> int \<Rightarrow> bytes list \<Rightarrow> bytes list \<Rightarrow> (mempool, admission_result) action" where
  "take_in E txid t fee ancestors eviction_set =
     bindS (remove_entries eviction_set) (\<lambda>_.
     bindS (insert_entry E txid t fee ancestors) (\<lambda>_.
     bindS (trim_to_size E) (\<lambda>_.
     bindS (readS (\<lambda>m. in_pool m txid)) (\<lambda>kept.
       if \<not> kept then returnS (rejected POLICY (sort eviction_set))
       else
         bindS (updateS (\<lambda>m. bindR (tx_orphan_remove txid (mp_orphans m)) (\<lambda>(_, p).
           Inr (m\<lparr>mp_orphans := p\<rparr>)))) (\<lambda>_.
         returnS \<lparr>ar_accepted = True, ar_category = ACCEPTED, ar_replaced = sort eviction_set\<rparr>)))))"

text \<open>From the loaded transaction on: consensus, standardness, the fee, replacement, package limits, insertion.\<close>

definition admit_loaded :: "pool_env \<Rightarrow> tx \<Rightarrow> bytes \<Rightarrow> bytes list \<Rightarrow> loaded_tx \<Rightarrow> int \<Rightarrow> (mempool, admission_result) action" where
  "admit_loaded E t txid direct_conflicts l fee =
     bindS (liftS (pool_validate_tx E t (l_utxos l))) (\<lambda>valid.
       if \<not> valid then returnS (rejected CONSENSUS_INVALID [])
       else bindS (liftS (check_standardness E l)) (\<lambda>standard.
         if \<not> standard then returnS (rejected NONSTANDARD [])
         else
           bindS (get_min_relay_feerate E) (\<lambda>minimum.
           bindS (liftS (tx_vbytes t)) (\<lambda>vbytes.
             if fee < \<lceil>round_double (minimum * of_int vbytes)\<rceil> then returnS (rejected POLICY [])
             else
               bindS (queryS (\<lambda>m. if direct_conflicts = [] then Inr (True, []) else check_replacement m t fee direct_conflicts))
                 (\<lambda>(replaces, eviction_set).
                   if \<not> replaces then returnS (rejected POLICY [])
                   else
                     bindS (readS (\<lambda>m. get_ancestors m t eviction_set)) (\<lambda>ancestors.
                     bindS (queryS (\<lambda>m. check_package_limits m t ancestors eviction_set)) (\<lambda>fits.
                       if \<not> fits then returnS (rejected POLICY [])
                       else
                         take_in E txid t fee ancestors eviction_set)))))))"

text \<open>\<^verbatim>\<open>accept_tx\<close> up to the reconsidering of orphans.\<close>

definition accept_decoded :: "pool_env \<Rightarrow> tx \<Rightarrow> (mempool, admission_result) action" where
  "accept_decoded E t =
     bindS (queryS (\<lambda>m. precheck_tx (pv_hashes E) m t)) (\<lambda>precheck.
       case precheck of
         Some category \<Rightarrow> returnS (rejected category [])
       | None \<Rightarrow>
           bindS (liftS (tx_txid (pv_hashes E) t)) (\<lambda>txid.
           bindS (queryS (\<lambda>m. get_direct_conflicts m t)) (\<lambda>direct_conflicts.
           bindS (queryS (\<lambda>m. case pool_get_utxos E m (t_inputs t) of
               Inl e \<Rightarrow> if e = ReadError then Inr None else Inl e
             | Inr us \<Rightarrow> Inr (Some us))) (\<lambda>resolved.
               case resolved of
                 None \<Rightarrow> returnS (rejected CONSENSUS_INVALID [])
               | Some None \<Rightarrow> bindS (store_orphan E t) (\<lambda>_. returnS (rejected ORPHAN []))
               | Some (Some us) \<Rightarrow>
                   (case bindR (load_tx t (Some us)) (\<lambda>l. bindR (tx_fee (pv_hashes E) l) (\<lambda>fee. Inr (l, fee))) of
                      Inl e \<Rightarrow> if e \<in> {ReadError, TransactionError, ValueError} then returnS (rejected CONSENSUS_INVALID []) else raiseS e
                    | Inr (l, fee) \<Rightarrow> admit_loaded E t txid direct_conflicts l fee)))))"

definition accept_once :: "pool_env \<Rightarrow> candidate \<Rightarrow> (mempool, admission_result \<times> tx option) action" where
  "accept_once E c =
     bindS (evict_expired E) (\<lambda>_.
     bindS (liftS (decode_candidate c)) (\<lambda>decoded.
       case decoded of
         None \<Rightarrow> returnS (rejected CONSENSUS_INVALID [], None)
       | Some t \<Rightarrow> bindS (accept_decoded E t) (\<lambda>r. returnS (r, Some t))))"

definition record_admission :: "admission_result \<Rightarrow> (mempool, bool) action" where
  "record_admission r = bindS (modifyS (\<lambda>m. m\<lparr>mp_last_admission := r\<rparr>)) (\<lambda>_. returnS (ar_accepted r))"

text \<open>The orphans of one parent: the txids of those that were accepted.\<close>

fun retry_orphans :: "pool_env \<Rightarrow> orphan_tx list \<Rightarrow> (mempool, bytes list) action" where
  "retry_orphans E [] = returnS []"
| "retry_orphans E (orphan # orphans) =
     bindS (accept_once E (Decoded (ox_tx orphan))) (\<lambda>(r, _).
     bindS (record_admission r) (\<lambda>accepted.
     bindS (if accepted then bindS (liftS (tx_txid (pv_hashes E) (ox_tx orphan))) (\<lambda>txid. returnS [txid]) else returnS []) (\<lambda>new.
     bindS (retry_orphans E orphans) (\<lambda>more_new. returnS (new @ more_new)))))"

text \<open>Every accepted orphan has left the pool of orphans for good, so one round per orphan and one more are enough.\<close>

fun reconsider_loop :: "nat \<Rightarrow> pool_env \<Rightarrow> bytes list \<Rightarrow> (mempool, unit) action" where
  "reconsider_loop fuel E [] = returnS ()"
| "reconsider_loop 0 E (parent_txid # queue) = raiseS NoReturn"
| "reconsider_loop (Suc fuel) E (parent_txid # queue) =
     bindS (queryS (\<lambda>m. bindR (pop_dependents parent_txid (mp_orphans m)) (\<lambda>(os, p). Inr (os, p)))) (\<lambda>(orphans, p).
     bindS (modifyS (\<lambda>m. m\<lparr>mp_orphans := p\<rparr>)) (\<lambda>_.
     bindS (retry_orphans E orphans) (\<lambda>new. reconsider_loop fuel E (queue @ new))))"

definition reconsider_orphans :: "pool_env \<Rightarrow> bytes \<Rightarrow> (mempool, unit) action" where
  "reconsider_orphans E accepted_parent_txid m =
     reconsider_loop (Suc (length (to_entries (mp_orphans m)))) E [accepted_parent_txid] m"

definition accept_tx :: "pool_env \<Rightarrow> candidate \<Rightarrow> bool \<Rightarrow> (mempool, admission_result) action" where
  "accept_tx E c reconsidering =
     bindS (accept_once E c) (\<lambda>(r, decoded).
       case decoded of
         Some t \<Rightarrow>
           if ar_accepted r \<and> \<not> reconsidering then
             bindS (liftS (tx_txid (pv_hashes E) t)) (\<lambda>txid. bindS (reconsider_orphans E txid) (\<lambda>_. returnS r))
           else returnS r
       | None \<Rightarrow> returnS r)"

definition add_tx :: "pool_env \<Rightarrow> candidate \<Rightarrow> bool \<Rightarrow> (mempool, bool) action" where
  "add_tx E c reconsidering = bindS (accept_tx E c reconsidering) record_admission"

definition confirm_block :: "pool_env \<Rightarrow> bytes list \<Rightarrow> (mempool, unit) action" where
  "confirm_block E confirmed_txids =
     forS (\<lambda>txid.
       bindS (readS (\<lambda>m. in_pool m txid)) (\<lambda>there.
       bindS (if there then remove_pool_tx False txid else returnS ()) (\<lambda>_. reconsider_orphans E txid))) confirmed_txids"

section \<open>The block template\<close>

definition template_package :: "mempool \<Rightarrow> bytes list \<Rightarrow> bytes \<Rightarrow> bytes list result" where
  "template_package m selected txid =
     bindR (lookup_entry m txid) (\<lambda>e.
       Inr (topological_order m (filter (\<lambda>a. a \<notin> set selected) (pe_ancestors e) @ [txid])))"

definition entry_weight :: "mempool \<Rightarrow> bytes \<Rightarrow> int result" where
  "entry_weight m txid = bindR (lookup_entry m txid) (\<lambda>e. tx_wu (pe_tx e))"

fun template_packages ::
  "mempool \<Rightarrow> bytes list \<Rightarrow> int \<Rightarrow> bytes list \<Rightarrow> (rat \<times> bytes \<times> bytes list) list result" where
  "template_packages m selected block_weight [] = Inr []"
| "template_packages m selected block_weight (txid # txids) =
     bindR (template_package m selected txid) (\<lambda>package.
     bindR (sumR (entry_weight m) package) (\<lambda>weight.
     bindR (if block_weight + weight > pl_max_block_weight (mp_limits m) then Inr []
            else bindR (package_feerate m package) (\<lambda>rate. Inr [(rate, txid, package)])) (\<lambda>here.
     bindR (template_packages m selected block_weight txids) (\<lambda>rest. Inr (here @ rest)))))"

text \<open>Every round selects the entry of its best package, so the number of entries is fuel enough.\<close>

fun template_loop :: "nat \<Rightarrow> mempool \<Rightarrow> bytes list \<Rightarrow> int \<Rightarrow> bytes list \<Rightarrow> bytes list result" where
  "template_loop 0 m selected block_weight remaining = (if remaining = [] then Inr selected else Inl NoReturn)"
| "template_loop (Suc fuel) m selected block_weight remaining =
     (if remaining = [] then Inr selected
      else bindR (template_packages m selected block_weight remaining) (\<lambda>packages.
        case packages of
          [] \<Rightarrow> Inr selected
        | p # ps \<Rightarrow>
            let (_, _, best) = max_by (\<lambda>(rate, txid, _). (rate, txid)) p ps;
                new = filter (\<lambda>txid. txid \<notin> set selected) best in
            bindR (sumR (entry_weight m) new) (\<lambda>weight.
              template_loop fuel m (selected @ new) (block_weight + weight) (filter (\<lambda>txid. txid \<notin> set new) remaining))))"

definition template_txids :: "mempool \<Rightarrow> bytes list result" where
  "template_txids m = template_loop (length (mp_entries m)) m [] 0 (map fst (mp_entries m))"

definition get_block_template :: "mempool \<Rightarrow> tx list result" where
  "get_block_template m =
     bindR (template_txids m) (\<lambda>txids. bindR (mapR (lookup_entry m) txids) (\<lambda>es. Inr (map pe_tx es)))"

end
