(* ===== verification/Mempool_Facts.thy ===== *)
theory Mempool_Facts
  imports Mempool
begin

text \<open>
  The bookkeeping of the memory pool: keys are txids, the byte count is the sum over the entries, the spend index
  is exactly what the entries spend, and the lists of ancestors and descendants mirror each other.
\<close>

section \<open>Transactions of the pool\<close>

definition tx_size :: "tx \<Rightarrow> int" where
  "tx_size t = (case tx_vbytes t of Inl _ \<Rightarrow> 0 | Inr v \<Rightarrow> v)"

definition tx_ops :: "tx \<Rightarrow> bytes list" where
  "tx_ops t = (case mapR txin_outpoint (t_inputs t) of Inl _ \<Rightarrow> [] | Inr ops \<Rightarrow> ops)"

lemma sum_lengths_nonneg: "sum_lengths f xs = Inr n \<Longrightarrow> 0 \<le> n"
  by (induction xs arbitrary: n) auto

lemma tx_wu_pos:
  assumes "tx_wu t = Inr w" shows "0 < w"
proof (cases "tx_is_segwit t")
  case True
  then obtain i out wit ni no where "sum_lengths txin_to_bytes (t_inputs t) = Inr i" "sum_lengths txout_to_bytes (t_outputs t) = Inr out"
    "sum_lengths witness_to_bytes (t_witness t) = Inr wit"
    "w = 4 * (4 + int (length (ni :: bytes)) + i + int (length (no :: bytes)) + out + 4) + (wit + 2)"
    using assms by (auto simp: tx_wu_def)
  then show ?thesis using sum_lengths_nonneg by (smt (verit) of_nat_0_le_iff)
next
  case False
  then obtain b where b: "tx_to_bytes t = Inr b" "w = int (length b) * 4" using assms by (auto simp: tx_wu_def)
  have "b \<noteq> []" using b(1) False by (auto simp: tx_to_bytes_def to_bytes_le_Inr_iff)
  then show ?thesis using b(2) by simp
qed

lemma tx_vbytes_pos: "tx_vbytes t = Inr v \<Longrightarrow> 0 < v"
  using tx_wu_pos [of t] by (auto simp: tx_vbytes_def)

text \<open>What the pool knows of an entry it took: its txid, its size and its outpoints do not raise.\<close>

definition tx_known :: "hashes \<Rightarrow> bytes \<Rightarrow> tx \<Rightarrow> bool" where
  "tx_known H k t \<longleftrightarrow> tx_txid H t = Inr k \<and> tx_vbytes t = Inr (tx_size t) \<and> mapR txin_outpoint (t_inputs t) = Inr (tx_ops t)"

lemma tx_known_size: "tx_known H k t \<Longrightarrow> 0 < tx_size t"
  using tx_vbytes_pos [of t] by (simp add: tx_known_def)

definition pool_txs :: "mempool \<Rightarrow> (bytes \<times> tx) list" where
  "pool_txs m = map (\<lambda>(k, e). (k, pe_tx e)) (mp_entries m)"

definition pool_keys :: "mempool \<Rightarrow> bytes set" where
  "pool_keys m = fst ` set (mp_entries m)"

lemma in_pool_keys: "in_pool m k \<longleftrightarrow> k \<in> pool_keys m"
  by (auto simp: in_pool_def pool_keys_def map_of_eq_None_iff)

lemma pool_keys_txs: "fst ` set (pool_txs m) = pool_keys m" "map fst (pool_txs m) = map fst (mp_entries m)"
proof -
  show "map fst (pool_txs m) = map fst (mp_entries m)" by (simp add: pool_txs_def split_def)
  then show "fst ` set (pool_txs m) = pool_keys m" unfolding pool_keys_def by (metis set_map)
qed

lemma txs_key: "(k, t) \<in> set (pool_txs m) \<Longrightarrow> k \<in> pool_keys m"
  unfolding pool_keys_txs(1) [symmetric] by (auto intro: rev_image_eqI)

definition total_size :: "(bytes \<times> tx) list \<Rightarrow> int" where
  "total_size ts = sum_list (map (\<lambda>(_, t). tx_size t) ts)"

text \<open>The books: everything that depends on the transactions alone.\<close>

definition books :: "hashes \<Rightarrow> (bytes \<times> tx) list \<Rightarrow> int \<Rightarrow> (bytes \<Rightarrow> bytes option) \<Rightarrow> bool" where
  "books H ts tot spends \<longleftrightarrow> distinct (map fst ts) \<and> (\<forall>(k, t) \<in> set ts. tx_known H k t) \<and> tot = total_size ts
     \<and> (\<forall>op k. spends op = Some k \<longleftrightarrow> (\<exists>t. (k, t) \<in> set ts \<and> op \<in> set (tx_ops t)))"

lemma books_unique: "books H ts tot spends \<Longrightarrow> (k, t) \<in> set ts \<Longrightarrow> (k, t') \<in> set ts \<Longrightarrow> t = t'"
  by (auto simp: books_def dest: eq_key_imp_eq_value)

lemma total_size_delete:
  "distinct (map fst ts) \<Longrightarrow> (k, t) \<in> set ts \<Longrightarrow> total_size (AList.delete k ts) = total_size ts - tx_size t"
proof (induction ts)
  case (Cons x ts)
  obtain k1 t1 where x: "x = (k1, t1)" by fastforce
  show ?case
  proof (cases "k1 = k")
    case True
    then have "k \<notin> fst ` set ts" using Cons.prems(1) by (auto simp: x)
    then show ?thesis using Cons.prems True by (auto simp: x total_size_def rev_image_eqI)
  next
    case False
    then show ?thesis using Cons by (auto simp: x total_size_def)
  qed
qed simp

lemma books_delete:
  assumes b: "books H ts tot spends" and k: "(k, t) \<in> set ts"
  shows "books H (AList.delete k ts) (tot - tx_size t) (\<lambda>op. if op \<in> set (tx_ops t) then None else spends op)"
proof -
  have d: "distinct (map fst ts)" and s: "\<And>op k. spends op = Some k \<longleftrightarrow> (\<exists>t. (k, t) \<in> set ts \<and> op \<in> set (tx_ops t))"
    using b by (auto simp: books_def)
  have in_del: "(k', t') \<in> set (AList.delete k ts) \<longleftrightarrow> (k', t') \<in> set ts \<and> k' \<noteq> k" for k' t'
    by (auto simp: AList.delete_eq)
  have "(if op \<in> set (tx_ops t) then None else spends op) = Some k' \<longleftrightarrow>
      (\<exists>t'. (k', t') \<in> set (AList.delete k ts) \<and> op \<in> set (tx_ops t'))" for op k'
  proof (cases "op \<in> set (tx_ops t)")
    case True
    then have "spends op = Some k" using s k by blast
    then have "\<not> (\<exists>t'. (k', t') \<in> set ts \<and> k' \<noteq> k \<and> op \<in> set (tx_ops t'))" using s [of op k'] by auto
    then show ?thesis using True in_del by auto
  next
    case False
    have "k' \<noteq> k" if "(k', t') \<in> set ts" "op \<in> set (tx_ops t')" for t'
      using that False books_unique [OF b k, of t'] by auto
    then show ?thesis using False s [of op k'] in_del by auto
  qed
  moreover have "tot - tx_size t = total_size (AList.delete k ts)" using total_size_delete [OF d k] b by (simp add: books_def)
  moreover have "distinct (map fst (AList.delete k ts))" using d by (simp add: AList.distinct_delete)
  moreover have "\<forall>(k', t') \<in> set (AList.delete k ts). tx_known H k' t'" using b in_del by (auto simp: books_def)
  ultimately show ?thesis by (simp add: books_def)
qed

lemma books_insert:
  assumes b: "books H ts tot spends" and "k \<notin> fst ` set ts" and "tx_known H k t" and "\<forall>op \<in> set (tx_ops t). spends op = None"
  shows "books H (ts @ [(k, t)]) (tot + tx_size t) (\<lambda>op. if op \<in> set (tx_ops t) then Some k else spends op)"
proof -
  have s: "spends op = Some k' \<longleftrightarrow> (\<exists>t. (k', t) \<in> set ts \<and> op \<in> set (tx_ops t))" for op k'
    using b by (auto simp: books_def)
  have "(if op \<in> set (tx_ops t) then Some k else spends op) = Some k' \<longleftrightarrow>
      (\<exists>t'. (k', t') \<in> set (ts @ [(k, t)]) \<and> op \<in> set (tx_ops t'))" for op k'
  proof (cases "op \<in> set (tx_ops t)")
    case True
    then have "spends op = None" using assms(4) by blast
    then have "\<not> (\<exists>t'. (k', t') \<in> set ts \<and> op \<in> set (tx_ops t'))" using s [of op k'] by simp
    then show ?thesis using True by auto
  next
    case False
    then show ?thesis using s [of op k'] by auto
  qed
  then show ?thesis using b assms(2,3) by (auto simp: books_def total_size_def)
qed

section \<open>Links\<close>

definition links :: "(bytes \<Rightarrow> pool_entry option) \<Rightarrow> bool" where
  "links M \<longleftrightarrow> (\<forall>k e. M k = Some e \<longrightarrow>
     distinct (pe_ancestors e) \<and> distinct (pe_descendants e) \<and> k \<notin> set (pe_ancestors e)
     \<and> (\<forall>a \<in> set (pe_ancestors e). \<exists>x. M a = Some x \<and> k \<in> set (pe_descendants x))
     \<and> (\<forall>d \<in> set (pe_descendants e). \<exists>x. M d = Some x \<and> k \<in> set (pe_ancestors x))
     \<and> (\<forall>a \<in> set (pe_ancestors e). \<forall>x. M a = Some x \<longrightarrow> set (pe_ancestors x) \<subseteq> set (pe_ancestors e)))"

definition pool_inv :: "hashes \<Rightarrow> mempool \<Rightarrow> bool" where
  "pool_inv H m \<longleftrightarrow> books H (pool_txs m) (mp_total_vbytes m) (mp_spends m) \<and> links (map_of (mp_entries m))"

lemma map_entry_map: "map_of (AList.map_entry a f al) x = (if x = a then map_option f (map_of al a) else map_of al x)"
  by (simp add: AList.map_of_map_entry split: option.split)

lemma map_entry_txs:
  "(\<And>e. pe_tx (f e) = pe_tx e) \<Longrightarrow> map (\<lambda>(k, e). (k, pe_tx e)) (AList.map_entry a f al) = map (\<lambda>(k, e). (k, pe_tx e)) al"
  by (induction al) auto

text \<open>What a link operation leaves alone.\<close>

definition same_books :: "mempool \<Rightarrow> mempool \<Rightarrow> bool" where
  "same_books m m' \<longleftrightarrow> pool_txs m' = pool_txs m \<and> mp_total_vbytes m' = mp_total_vbytes m \<and> mp_spends m' = mp_spends m
     \<and> mp_limits m' = mp_limits m \<and> mp_orphans m' = mp_orphans m"

lemma fold_map_entry:
  assumes g: "\<And>a m. mp_entries (g a m) = AList.map_entry a f (mp_entries m)" and s: "\<And>a m. same_books m (g a m)"
    and "distinct as"
  shows "map_of (mp_entries (fold g as m)) x = (if x \<in> set as then map_option f (map_of (mp_entries m) x) else map_of (mp_entries m) x)
    \<and> same_books m (fold g as m)"
  using assms(3)
proof (induction as arbitrary: m)
  case (Cons a as)
  then have "map_of (mp_entries (fold g as (g a m))) x =
      (if x \<in> set as then map_option f (map_of (mp_entries (g a m)) x) else map_of (mp_entries (g a m)) x)
    \<and> same_books (g a m) (fold g as (g a m))" by simp
  moreover have "map_of (mp_entries (g a m)) x = (if x = a then map_option f (map_of (mp_entries m) a) else map_of (mp_entries m) x)"
    by (simp add: g map_entry_map)
  ultimately show ?case using Cons.prems s [of m a] by (auto simp: same_books_def)
qed (simp add: same_books_def)

lemma fold_unlink_descendant:
  assumes "distinct as"
  shows "map_of (mp_entries (fold (unlink_descendant k) as m)) x =
      (if x \<in> set as then map_option (\<lambda>e. e\<lparr>pe_descendants := remove1 k (pe_descendants e)\<rparr>) (map_of (mp_entries m) x)
       else map_of (mp_entries m) x) \<and> same_books m (fold (unlink_descendant k) as m)"
  by (rule fold_map_entry) (simp_all add: unlink_descendant_def same_books_def pool_txs_def map_entry_txs assms)

lemma fold_unlink_ancestor:
  assumes "distinct as"
  shows "map_of (mp_entries (fold (unlink_ancestor k) as m)) x =
      (if x \<in> set as then map_option (\<lambda>e. e\<lparr>pe_ancestors := remove1 k (pe_ancestors e)\<rparr>) (map_of (mp_entries m) x)
       else map_of (mp_entries m) x) \<and> same_books m (fold (unlink_ancestor k) as m)"
  by (rule fold_map_entry) (simp_all add: unlink_ancestor_def same_books_def pool_txs_def map_entry_txs assms)

lemma fold_link_descendant:
  assumes "distinct as"
  shows "map_of (mp_entries (fold (link_descendant k) as m)) x =
      (if x \<in> set as then map_option (\<lambda>e. e\<lparr>pe_descendants := pe_descendants e @ [k]\<rparr>) (map_of (mp_entries m) x)
       else map_of (mp_entries m) x) \<and> same_books m (fold (link_descendant k) as m)"
  by (rule fold_map_entry) (simp_all add: link_descendant_def same_books_def pool_txs_def map_entry_txs assms)

text \<open>The links after an entry is gone.\<close>

definition unlinked :: "bytes \<Rightarrow> pool_entry \<Rightarrow> (bytes \<Rightarrow> pool_entry option) \<Rightarrow> bytes \<Rightarrow> pool_entry option" where
  "unlinked k e M x = (if x = k then None
     else map_option (\<lambda>y. y\<lparr>pe_ancestors := remove1 k (pe_ancestors y), pe_descendants := remove1 k (pe_descendants y)\<rparr>) (M x))"

lemma links_unlinked:
  assumes l: "links M" and k: "M k = Some e"
  shows "links (unlinked k e M)"
  unfolding links_def
proof (intro allI impI)
  fix x y assume "unlinked k e M x = Some y"
  then obtain z where z: "x \<noteq> k" "M x = Some z" "pe_ancestors y = remove1 k (pe_ancestors z)" "pe_descendants y = remove1 k (pe_descendants z)"
    by (auto simp: unlinked_def split: if_split_asm)
  have zl: "distinct (pe_ancestors z) \<and> distinct (pe_descendants z) \<and> x \<notin> set (pe_ancestors z)
     \<and> (\<forall>a \<in> set (pe_ancestors z). \<exists>w. M a = Some w \<and> x \<in> set (pe_descendants w))
     \<and> (\<forall>d \<in> set (pe_descendants z). \<exists>w. M d = Some w \<and> x \<in> set (pe_ancestors w))
     \<and> (\<forall>a \<in> set (pe_ancestors z). \<forall>w. M a = Some w \<longrightarrow> set (pe_ancestors w) \<subseteq> set (pe_ancestors z))"
    using l z(2) unfolding links_def by blast
  have "\<exists>w. unlinked k e M a = Some w \<and> x \<in> set (pe_descendants w)" if a: "a \<in> set (pe_ancestors y)" for a
  proof -
    have "a \<in> set (pe_ancestors z)" "a \<noteq> k" using a z(3) zl by auto
    then obtain w where "M a = Some w" "x \<in> set (pe_descendants w)" using zl by blast
    moreover have "distinct (pe_descendants w)" using l calculation(1) unfolding links_def by blast
    ultimately show ?thesis using z(1) \<open>a \<noteq> k\<close> by (simp add: unlinked_def)
  qed
  moreover have "\<exists>w. unlinked k e M d = Some w \<and> x \<in> set (pe_ancestors w)" if d: "d \<in> set (pe_descendants y)" for d
  proof -
    have "d \<in> set (pe_descendants z)" "d \<noteq> k" using d z(4) zl by auto
    then obtain w where "M d = Some w" "x \<in> set (pe_ancestors w)" using zl by blast
    moreover have "distinct (pe_ancestors w)" using l calculation(1) unfolding links_def by blast
    ultimately show ?thesis using z(1) \<open>d \<noteq> k\<close> by (simp add: unlinked_def)
  qed
  moreover have trans: "set (pe_ancestors w) \<subseteq> set (pe_ancestors y)"
    if a: "a \<in> set (pe_ancestors y)" and w: "unlinked k e M a = Some w" for a w
  proof -
    obtain v where v: "M a = Some v" "pe_ancestors w = remove1 k (pe_ancestors v)" using w by (auto simp: unlinked_def split: if_split_asm)
    have "distinct (pe_ancestors v)" using l v(1) unfolding links_def by blast
    moreover have "a \<in> set (pe_ancestors z)" using a z(3) zl by auto
    then have "set (pe_ancestors v) \<subseteq> set (pe_ancestors z)" using zl v(1) by blast
    ultimately show ?thesis using zl by (auto simp: v(2) z(3))
  qed
  ultimately show "distinct (pe_ancestors y) \<and> distinct (pe_descendants y) \<and> x \<notin> set (pe_ancestors y)
     \<and> (\<forall>a \<in> set (pe_ancestors y). \<exists>w. unlinked k e M a = Some w \<and> x \<in> set (pe_descendants w))
     \<and> (\<forall>d \<in> set (pe_descendants y). \<exists>w. unlinked k e M d = Some w \<and> x \<in> set (pe_ancestors w))
     \<and> (\<forall>a \<in> set (pe_ancestors y). \<forall>w. unlinked k e M a = Some w \<longrightarrow> set (pe_ancestors w) \<subseteq> set (pe_ancestors y))"
    using zl z(3,4) trans by simp
qed

text \<open>Dropping an entry of a consistent pool never raises and keeps it consistent.\<close>

lemma drop_entry_spec:
  assumes inv: "pool_inv H m" and k: "map_of (mp_entries m) k = Some e"
  shows "\<exists>m'. drop_entry k m = Inr m' \<and> pool_inv H m' \<and> pool_txs m' = AList.delete k (pool_txs m)
    \<and> mp_limits m' = mp_limits m \<and> mp_orphans m' = mp_orphans m \<and> mp_total_vbytes m' < mp_total_vbytes m
    \<and> map_of (mp_entries m') = unlinked k e (map_of (mp_entries m))"
proof -
  let ?M = "map_of (mp_entries m)"
  have b: "books H (pool_txs m) (mp_total_vbytes m) (mp_spends m)" and l: "links ?M" using inv by (simp_all add: pool_inv_def)
  have le: "distinct (pe_ancestors e)" "distinct (pe_descendants e)" "k \<notin> set (pe_ancestors e)"
    using l k unfolding links_def by blast+
  have kd: "k \<notin> set (pe_descendants e)" using l k le(3) unfolding links_def by fastforce
  define m1 where "m1 = fold (unlink_descendant k) (pe_ancestors e) m"
  define m2 where "m2 = fold (unlink_ancestor k) (pe_descendants e) m1"
  have M1: "map_of (mp_entries m1) x = (if x \<in> set (pe_ancestors e) then map_option (\<lambda>e. e\<lparr>pe_descendants := remove1 k (pe_descendants e)\<rparr>) (?M x)
       else ?M x)" and s1: "same_books m m1" for x
    using fold_unlink_descendant [OF le(1), of k m x] by (simp_all add: m1_def)
  have M2: "map_of (mp_entries m2) x = (if x \<in> set (pe_descendants e) then map_option (\<lambda>e. e\<lparr>pe_ancestors := remove1 k (pe_ancestors e)\<rparr>) (map_of (mp_entries m1) x)
       else map_of (mp_entries m1) x)" and s2: "same_books m1 m2" for x
    using fold_unlink_ancestor [OF le(2), of k m1 x] by (simp_all add: m2_def)
  have kt: "(k, pe_tx e) \<in> set (pool_txs m)" using k by (auto simp: pool_txs_def dest!: map_of_SomeD intro: rev_image_eqI)
  then have known: "tx_known H k (pe_tx e)" using b by (auto simp: books_def)
  define m3 where "m3 = m2\<lparr>mp_total_vbytes := mp_total_vbytes m2 - tx_size (pe_tx e),
     mp_spent_outpoints := filter (\<lambda>op. op \<notin> set (tx_ops (pe_tx e))) (mp_spent_outpoints m2),
     mp_spends := (\<lambda>op. if op \<in> set (tx_ops (pe_tx e)) then None else mp_spends m2 op)\<rparr>"
  define m4 where "m4 = m3\<lparr>mp_entries := AList.delete k (mp_entries m3)\<rparr>"
  have "drop_entry k m = bindR (remove_metadata (pe_tx e) m2) (\<lambda>m3. Inr (m3\<lparr>mp_entries := AList.delete k (mp_entries m3)\<rparr>))"
    by (simp add: drop_entry_def lookup_entry_def k Let_def m1_def m2_def)
  moreover have "remove_metadata (pe_tx e) m2 = Inr m3" using known by (simp add: remove_metadata_def tx_known_def m3_def)
  ultimately have run: "drop_entry k m = Inr m4" by (simp add: m4_def)
  have txs: "pool_txs m4 = AList.delete k (pool_txs m)"
  proof -
    have "pool_txs m4 = AList.delete k (pool_txs m2)" 
      by (simp add: m4_def m3_def pool_txs_def AList.delete_eq filter_map comp_def split_def)
    then show ?thesis using s1 s2 by (simp add: same_books_def)
  qed
  have M4: "map_of (mp_entries m4) = unlinked k e ?M"
  proof
    fix x
    have delete: "map_of (mp_entries m4) x = (if x = k then None else map_of (mp_entries m2) x)"
      by (simp add: m4_def m3_def AList.delete_conv')
    show "map_of (mp_entries m4) x = unlinked k e ?M x"
    proof (cases "?M x")
      case None
      then show ?thesis by (simp add: delete unlinked_def M2 M1)
    next
      case (Some y)
      have yl: "\<forall>d \<in> set (pe_descendants y). \<exists>w. ?M d = Some w \<and> x \<in> set (pe_ancestors w)"
        "\<forall>a \<in> set (pe_ancestors y). \<exists>w. ?M a = Some w \<and> x \<in> set (pe_descendants w)"
        using l Some unfolding links_def by blast+
      have "remove1 k (pe_descendants y) = pe_descendants y" if "x \<notin> set (pe_ancestors e)"
      proof (rule remove1_idem)
        show "k \<notin> set (pe_descendants y)" using bspec [OF yl(1), of k] k that by auto
      qed
      moreover have "remove1 k (pe_ancestors y) = pe_ancestors y" if "x \<notin> set (pe_descendants e)"
      proof (rule remove1_idem)
        show "k \<notin> set (pe_ancestors y)" using bspec [OF yl(2), of k] k that by auto
      qed
      ultimately show ?thesis using Some by (simp add: delete unlinked_def M2 M1)
    qed
  qed
  have "books H (pool_txs m4) (mp_total_vbytes m4) (mp_spends m4)"
  proof -
    have "mp_total_vbytes m2 = mp_total_vbytes m" "mp_spends m2 = mp_spends m" using s1 s2 by (simp_all add: same_books_def)
    then have "mp_total_vbytes m4 = mp_total_vbytes m - tx_size (pe_tx e)"
      "mp_spends m4 = (\<lambda>op. if op \<in> set (tx_ops (pe_tx e)) then None else mp_spends m op)"
      by (simp_all add: m4_def m3_def cong: if_cong)
    then show ?thesis using books_delete [OF b kt] unfolding txs by (simp only:)
  qed
  then have "pool_inv H m4" using links_unlinked [OF l k] M4 by (simp add: pool_inv_def)
  moreover have "mp_total_vbytes m4 < mp_total_vbytes m" "mp_limits m4 = mp_limits m" "mp_orphans m4 = mp_orphans m"
    using s1 s2 tx_known_size [OF known] by (simp_all add: m4_def m3_def same_books_def)
  ultimately show ?thesis using run txs M4 by blast
qed

lemma drop_missing: "map_of (mp_entries m) k = None \<Longrightarrow> drop_entry k m = Inl KeyError"
  by (simp add: drop_entry_def lookup_entry_def)

section \<open>What the operations keep\<close>

text \<open>The invariant with the limit \<open>n\<close> on the size; the limits themselves do not change.\<close>

definition bounded_inv :: "hashes \<Rightarrow> pool_limits \<Rightarrow> int \<Rightarrow> mempool \<Rightarrow> bool" where
  "bounded_inv H L n m \<longleftrightarrow> pool_inv H m \<and> mp_limits m = L \<and> mp_total_vbytes m \<le> n"

lemma drop_keeps: "keeps (bounded_inv H L n) (updateS (drop_entry k))"
proof (rule keeps_update)
  fix m m' assume m: "bounded_inv H L n m" and d: "drop_entry k m = Inr m'"
  then obtain e where "map_of (mp_entries m) k = Some e" using drop_missing [of m k] by (cases "map_of (mp_entries m) k") auto
  from drop_entry_spec [OF _ this, of H] m d show "bounded_inv H L n m'" by (auto simp: bounded_inv_def)
qed

lemma remove_tx_keeps: "keeps (bounded_inv H L n) (remove_tx fuel b k)"
proof (induction fuel arbitrary: b k)
  case (Suc fuel)
  show ?case unfolding remove_tx.simps by (intro keeps_intros drop_keeps Suc)
qed (simp add: keeps_intros)

lemma remove_pool_tx_keeps [keeps_intros]: "keeps (bounded_inv H L n) (remove_pool_tx b k)"
  using remove_tx_keeps [of H L n] unfolding keeps_def remove_pool_tx_def by blast

lemma remove_entries_keeps [keeps_intros]: "keeps (bounded_inv H L n) (remove_entries ks)"
  unfolding remove_entries_def by (intro keeps_intros)

lemma orphans_keep:
  "keeps (bounded_inv H L n) (updateS (\<lambda>m. bindR (f m) (\<lambda>(x, p). Inr (m\<lparr>mp_orphans := p\<rparr>))))"
  by (rule keeps_update) (auto simp: bounded_inv_def pool_inv_def pool_txs_def)

lemma evict_expired_keeps [keeps_intros]: "keeps (bounded_inv H L n) (evict_expired E)"
  unfolding evict_expired_def by (intro keeps_intros orphans_keep)

lemma min_feerate_keeps [keeps_intros]: "keeps (bounded_inv H L n) (get_min_relay_feerate E)"
  by (auto simp: keeps_def get_min_relay_feerate_def Let_def bounded_inv_def pool_inv_def pool_txs_def)

text \<open>One removal of a present entry: the keys that are left; the lists of ancestors only lose entries.\<close>

definition fewer_ancestors :: "mempool \<Rightarrow> mempool \<Rightarrow> bool" where
  "fewer_ancestors m m' \<longleftrightarrow> (\<forall>k e. map_of (mp_entries m') k = Some e \<longrightarrow>
     (\<exists>x. map_of (mp_entries m) k = Some x \<and> set (pe_ancestors e) \<subseteq> set (pe_ancestors x)))"

lemma fewer_ancestors_refl: "fewer_ancestors m m"
  by (auto simp: fewer_ancestors_def)

lemma fewer_ancestors_trans: "fewer_ancestors m m1 \<Longrightarrow> fewer_ancestors m1 m2 \<Longrightarrow> fewer_ancestors m m2"
  unfolding fewer_ancestors_def by (meson subset_trans)

lemma fewer_unlinked:
  "map_of (mp_entries m') = unlinked k e (map_of (mp_entries m)) \<Longrightarrow> fewer_ancestors m m'"
  by (auto simp: fewer_ancestors_def unlinked_def dest: notin_set_remove1 [rotated] set_remove1_subset [THEN subsetD] split: if_split_asm)

lemma remove_one:
  assumes "pool_inv H m" and "k \<in> pool_keys m"
  shows "\<exists>m'. remove_pool_tx False k m = (Inr (), m') \<and> pool_inv H m' \<and> pool_txs m' = AList.delete k (pool_txs m)
    \<and> mp_limits m' = mp_limits m \<and> mp_orphans m' = mp_orphans m \<and> mp_total_vbytes m' < mp_total_vbytes m \<and> fewer_ancestors m m'"
proof -
  obtain e where e: "map_of (mp_entries m) k = Some e" using assms(2) in_pool_keys [of m k] by (auto simp: in_pool_def)
  obtain m' where m': "drop_entry k m = Inr m'" "pool_inv H m'" "pool_txs m' = AList.delete k (pool_txs m)"
    "mp_limits m' = mp_limits m" "mp_orphans m' = mp_orphans m" "mp_total_vbytes m' < mp_total_vbytes m" "fewer_ancestors m m'"
    using drop_entry_spec [OF assms(1) e] fewer_unlinked by blast
  have "remove_pool_tx False k m = (Inr (), m')"
    by (simp add: remove_pool_tx_def run_simps lookup_entry_def e updateS_def m'(1))
  then show ?thesis using m' by blast
qed

lemma delete_keys: "pool_txs m' = AList.delete k (pool_txs m) \<Longrightarrow> pool_keys m' = pool_keys m - {k}"
  unfolding pool_keys_txs(1) [symmetric] by (auto simp: AList.delete_eq)

lemma remove_list:
  assumes "pool_inv H m"
  shows "\<exists>m'. forS (\<lambda>k. bindS (readS (\<lambda>m. in_pool m k)) (\<lambda>there. if there then remove_pool_tx False k else returnS ())) ks m = (Inr (), m')
    \<and> pool_inv H m' \<and> pool_txs m' = filter (\<lambda>(k, _). k \<notin> set ks) (pool_txs m) \<and> mp_limits m' = mp_limits m
    \<and> mp_orphans m' = mp_orphans m \<and> mp_total_vbytes m' \<le> mp_total_vbytes m \<and> fewer_ancestors m m'"
  using assms
proof (induction ks arbitrary: m)
  case Nil
  then show ?case by (simp add: run_simps fewer_ancestors_refl)
next
  case (Cons k ks)
  show ?case
  proof (cases "k \<in> pool_keys m")
    case True
    obtain m1 where m1: "remove_pool_tx False k m = (Inr (), m1)" "pool_inv H m1" "pool_txs m1 = AList.delete k (pool_txs m)"
      "mp_limits m1 = mp_limits m" "mp_orphans m1 = mp_orphans m" "mp_total_vbytes m1 < mp_total_vbytes m" "fewer_ancestors m m1"
      using remove_one [OF Cons.prems True] by blast
    obtain m2 where m2: "forS (\<lambda>k. bindS (readS (\<lambda>m. in_pool m k)) (\<lambda>there. if there then remove_pool_tx False k else returnS ())) ks m1 = (Inr (), m2)"
      "pool_inv H m2" "pool_txs m2 = filter (\<lambda>(k, _). k \<notin> set ks) (pool_txs m1)" "mp_limits m2 = mp_limits m1"
      "mp_orphans m2 = mp_orphans m1" "mp_total_vbytes m2 \<le> mp_total_vbytes m1" "fewer_ancestors m1 m2"
      using Cons.IH [OF m1(2)] by blast
    have "pool_txs m2 = filter (\<lambda>(k', _). k' \<notin> set (k # ks)) (pool_txs m)"
      by (simp add: m2(3) m1(3) AList.delete_eq) (rule filter_cong, auto)
    moreover let ?F = "\<lambda>k. bindS (readS (\<lambda>m. in_pool m k)) (\<lambda>there. if there then remove_pool_tx False k else returnS ())"
    have "?F k m = (Inr (), m1)" using True m1(1) by (simp add: run_simps in_pool_keys)
    then have "forS ?F (k # ks) m = forS ?F ks m1" unfolding forS.simps bindS_def [of "?F k"] by simp
    ultimately show ?thesis using m1 m2 fewer_ancestors_trans by (intro exI [of _ m2]) simp
  next
    case False
    then have "filter (\<lambda>(k', _). k' \<notin> set (k # ks)) (pool_txs m) = filter (\<lambda>(k', _). k' \<notin> set ks) (pool_txs m)"
      by (intro filter_cong) (auto dest: txs_key)
    moreover let ?F = "\<lambda>k. bindS (readS (\<lambda>m. in_pool m k)) (\<lambda>there. if there then remove_pool_tx False k else returnS ())"
    have "?F k m = (Inr (), m)" using False by (simp add: run_simps in_pool_keys)
    then have "forS ?F (k # ks) m = forS ?F ks m" unfolding forS.simps bindS_def [of "?F k"] by simp
    ultimately show ?thesis using Cons.IH [OF Cons.prems] by (simp only:)
  qed
qed

lemma remove_entries_spec:
  assumes "pool_inv H m"
  shows "\<exists>m'. remove_entries ks m = (Inr (), m') \<and> pool_inv H m' \<and> pool_txs m' = filter (\<lambda>(k, _). k \<notin> set ks) (pool_txs m)
    \<and> mp_limits m' = mp_limits m \<and> mp_orphans m' = mp_orphans m \<and> mp_total_vbytes m' \<le> mp_total_vbytes m \<and> fewer_ancestors m m'"
proof -
  let ?o = "sort_key (\<lambda>txid. case map_of (mp_entries m) txid of None \<Rightarrow> 0 | Some e \<Rightarrow> - int (length (pe_ancestors e))) (filter (in_pool m) ks)"
  have "filter (\<lambda>(k, _). k \<notin> set ?o) (pool_txs m) = filter (\<lambda>(k, _). k \<notin> set ks) (pool_txs m)"
    by (intro filter_cong) (auto simp: in_pool_keys dest: txs_key)
  then show ?thesis using remove_list [OF assms, of ?o] by (simp add: remove_entries_def run_simps)
qed

section \<open>Trimming\<close>

lemma min_by_in: "min_by f x xs \<in> set (x # xs)"
  by (induction xs arbitrary: x) (auto simp: Let_def)

lemma sumR_Inr: "(\<And>x. x \<in> set xs \<Longrightarrow> f x = Inr (g x)) \<Longrightarrow> sumR f xs = Inr (sum_list (map g xs))"
  by (induction xs) auto

lemma mapR_ok: "(\<And>x. x \<in> set xs \<Longrightarrow> f x = Inr (g x)) \<Longrightarrow> mapR f xs = Inr (map g xs)"
  by (induction xs) auto

lemma inv_entry:
  assumes "pool_inv H m" and "map_of (mp_entries m) k = Some e"
  shows "tx_known H k (pe_tx e)"
proof -
  have "(k, pe_tx e) \<in> set (pool_txs m)" using assms(2) by (auto simp: pool_txs_def dest!: map_of_SomeD intro: rev_image_eqI)
  then show ?thesis using assms(1) by (auto simp: pool_inv_def books_def)
qed

lemma set_package: "set (package_of k e) = insert k (set (pe_descendants e))"
  by (simp only: package_of_def set_remdups list.set)

lemma inv_package:
  assumes inv: "pool_inv H m" and e: "map_of (mp_entries m) k = Some e"
  shows "set (package_of k e) \<subseteq> pool_keys m \<and> (\<exists>r. package_feerate m (package_of k e) = Inr r)"
proof -
  have sub: "set (package_of k e) \<subseteq> pool_keys m"
  proof
    fix x assume "x \<in> set (package_of k e)"
    then have x: "x = k \<or> x \<in> set (pe_descendants e)" by (simp add: set_package)
    have "\<forall>d \<in> set (pe_descendants e). \<exists>y. map_of (mp_entries m) d = Some y" using inv e unfolding pool_inv_def links_def by blast
    note there = this
    have "map_of (mp_entries m) x \<noteq> None"
    proof (cases "x = k")
      case False
      then obtain y where "map_of (mp_entries m) x = Some y" using x there by blast
      then show ?thesis by simp
    qed (simp add: e)
    then show "x \<in> pool_keys m" using in_pool_keys [of m x] by (simp add: in_pool_def)
  qed
  obtain g where there: "\<And>x. x \<in> set (package_of k e) \<Longrightarrow> map_of (mp_entries m) x = Some (g x)"
  proof
    fix x assume "x \<in> set (package_of k e)"
    then show "map_of (mp_entries m) x = Some (the (map_of (mp_entries m) x))"
      using sub in_pool_keys [of m x] by (auto simp: in_pool_def)
  qed
  have "sumR (get_fee m) (package_of k e) = Inr (sum_list (map (\<lambda>x. pe_fee (g x)) (package_of k e)))"
    by (rule sumR_Inr) (simp add: get_fee_def lookup_entry_def there)
  moreover have v: "sumR (entry_vbytes m) (package_of k e) = Inr (sum_list (map (\<lambda>x. tx_size (pe_tx (g x))) (package_of k e)))"
  proof (rule sumR_Inr)
    fix x assume x: "x \<in> set (package_of k e)"
    show "entry_vbytes m x = Inr (tx_size (pe_tx (g x)))"
      using inv_entry [OF inv there [OF x]] by (simp add: entry_vbytes_def lookup_entry_def there [OF x] tx_known_def)
  qed
  moreover have "0 < sum_list (map (\<lambda>x. tx_size (pe_tx (g x))) (package_of k e))"
  proof -
    have pos: "0 < tx_size (pe_tx (g x))" if "x \<in> set (package_of k e)" for x
      using inv_entry [OF inv there [OF that]] tx_known_size by blast
    have "k \<in> set (package_of k e)" by (simp add: package_of_def)
    then obtain y ys where y: "package_of k e = y # ys" by (cases "package_of k e") auto
    have "0 \<le> sum_list (map (\<lambda>x. tx_size (pe_tx (g x))) ys)" using pos y by (intro sum_list_nonneg) force
    then show ?thesis using pos [of y] y by simp
  qed
  ultimately show ?thesis using sub by (simp add: package_feerate_def divide_double_def)
qed

text \<open>The trim ends within the limit: it removes entries until the size fits.\<close>

lemma trim_loop_spec:
  assumes "pool_inv H m" and "length (mp_entries m) \<le> n" and "0 \<le> pl_max_size (mp_limits m)"
  shows "\<exists>ks m'. trim_loop n E m = (Inr ks, m') \<and> pool_inv H m' \<and> mp_limits m' = mp_limits m
    \<and> mp_total_vbytes m' \<le> pl_max_size (mp_limits m) \<and> pool_keys m' \<subseteq> pool_keys m"
  using assms
proof (induction n arbitrary: m)
  case 0
  then have "pool_txs m = []" by (simp add: pool_txs_def)
  then have "mp_total_vbytes m = 0" using 0 by (simp add: pool_inv_def books_def total_size_def)
  then show ?case using 0 by (simp add: run_simps)
next
  case (Suc n)
  show ?case
  proof (cases "mp_total_vbytes m > pl_max_size (mp_limits m) \<and> mp_entries m \<noteq> []")
    case False
    have "mp_total_vbytes m = 0" if "mp_entries m = []"
      using that Suc.prems(1) by (simp add: pool_inv_def books_def total_size_def pool_txs_def)
    then show ?thesis using False Suc.prems by (auto simp: run_simps)
  next
    case True
    have d: "distinct (map fst (mp_entries m))" using Suc.prems(1) pool_keys_txs(2) [of m] by (simp add: pool_inv_def books_def)
    define g where "g = (\<lambda>(k, e). (projr (package_feerate m (package_of k e)), k, package_of k e))"
    have cands: "trim_candidates m = Inr (map g (mp_entries m))"
      unfolding trim_candidates_def
    proof (rule mapR_ok)
      fix x assume x: "x \<in> set (mp_entries m)"
      obtain k e where ke: "x = (k, e)" by fastforce
      then have "map_of (mp_entries m) k = Some e" using x d by simp
      from inv_package [OF Suc.prems(1) this] obtain r where "package_feerate m (package_of k e) = Inr r" by blast
      then show "(case x of (k, e) \<Rightarrow> bindR (package_feerate m (package_of k e)) (\<lambda>r. Inr (r, k, package_of k e))) = Inr (g x)"
        by (simp add: ke g_def)
    qed
    obtain c cs where c: "map g (mp_entries m) = c # cs" using True by (cases "map g (mp_entries m)") auto
    obtain rate k ks where best: "min_by (\<lambda>(rate, txid, _). (rate, txid)) c cs = (rate, k, ks)" by (metis prod_cases3)
    then have "(rate, k, ks) \<in> set (map g (mp_entries m))" using min_by_in [of "\<lambda>(rate, txid, _). (rate, txid)" c cs] c by simp
    then obtain e where e: "(k, e) \<in> set (mp_entries m)" "ks = package_of k e" by (auto simp: g_def)
    obtain m1 where m1: "remove_entries ks m = (Inr (), m1)" "pool_inv H m1" "pool_txs m1 = filter (\<lambda>(k, _). k \<notin> set ks) (pool_txs m)"
      "mp_limits m1 = mp_limits m" "mp_total_vbytes m1 \<le> mp_total_vbytes m"
      using remove_entries_spec [OF Suc.prems(1)] by blast
    let ?m2 = "m1\<lparr>mp_rolling_min_fee := max (mp_rolling_min_fee m1) (round_double (rate + of_int (pl_min_fee (mp_limits m1)))),
      mp_rolling_updated_at := pv_now E\<rparr>"
    have "(k, pe_tx e) \<in> set (pool_txs m)" using e(1) by (auto simp: pool_txs_def intro: rev_image_eqI)
    then have "length (pool_txs m1) < length (pool_txs m)" unfolding m1(3)
      by (rule length_filter_less) (simp add: e(2) package_of_def)
    then have "length (mp_entries ?m2) \<le> n" using Suc.prems(2) by (simp add: pool_txs_def)
    moreover have "pool_inv H ?m2" using m1(2) by (simp add: pool_inv_def pool_txs_def)
    moreover have "pool_keys m1 \<subseteq> pool_keys m" unfolding pool_keys_txs(1) [symmetric] m1(3) by auto
    then have keys: "pool_keys ?m2 \<subseteq> pool_keys m" by (simp add: pool_keys_def)
    ultimately obtain ks' m3 where m3: "trim_loop n E ?m2 = (Inr ks', m3)" "pool_inv H m3" "mp_limits m3 = mp_limits ?m2"
      "mp_total_vbytes m3 \<le> pl_max_size (mp_limits ?m2)" "pool_keys m3 \<subseteq> pool_keys ?m2"
      using Suc.IH [of ?m2] Suc.prems(3) m1(4) by auto
    have "trim_loop (Suc n) E m = (Inr (sort ks @ ks'), m3)"
      using True by (simp add: run_simps cands c best Let_def) (simp add: bindS_def m1(1) m3(1) run_simps)
    then show ?thesis using m3 m1(4) keys by auto
  qed
qed

section \<open>Inserting\<close>

lemma update_new: "k \<notin> fst ` set al \<Longrightarrow> AList.update k v al = al @ [(k, v)]"
  by (induction al) auto

lemma links_insert:
  assumes l: "links M" and k: "M k = None" and as: "distinct as" "\<forall>a \<in> set as. M a \<noteq> None"
    and closed: "\<forall>a \<in> set as. \<forall>x. M a = Some x \<longrightarrow> set (pe_ancestors x) \<subseteq> set as"
    and e: "pe_ancestors e = as" "pe_descendants e = []"
    and M': "\<And>x. M' x = (if x = k then Some e
      else if x \<in> set as then map_option (\<lambda>y. y\<lparr>pe_descendants := pe_descendants y @ [k]\<rparr>) (M x) else M x)"
  shows "links M'"
  unfolding links_def
proof (intro allI impI)
  fix x y assume y: "M' x = Some y"
  have kas: "k \<notin> set as" using as(2) k by auto
  have up: "\<exists>w'. M' a = Some w' \<and> pe_ancestors w' = pe_ancestors w \<and> set (pe_descendants w) \<subseteq> set (pe_descendants w')"
    if "M a = Some w" for a w
  proof -
    have "a \<noteq> k" using that k by auto
    then have "M' a = Some (if a \<in> set as then w\<lparr>pe_descendants := pe_descendants w @ [k]\<rparr> else w)" using that by (simp add: M')
    then show ?thesis by auto
  qed
  show "distinct (pe_ancestors y) \<and> distinct (pe_descendants y) \<and> x \<notin> set (pe_ancestors y)
     \<and> (\<forall>a \<in> set (pe_ancestors y). \<exists>w. M' a = Some w \<and> x \<in> set (pe_descendants w))
     \<and> (\<forall>d \<in> set (pe_descendants y). \<exists>w. M' d = Some w \<and> x \<in> set (pe_ancestors w))
     \<and> (\<forall>a \<in> set (pe_ancestors y). \<forall>w. M' a = Some w \<longrightarrow> set (pe_ancestors w) \<subseteq> set (pe_ancestors y))"
  proof (cases "x = k")
    case True
    then have ye: "y = e" using y by (simp add: M')
    have new: "\<exists>w. M' a = Some w \<and> k \<in> set (pe_descendants w)" if "a \<in> set as" for a
    proof -
      have "M a \<noteq> None" "a \<noteq> k" using that as(2) kas by blast+
      then obtain w where "M a = Some w" "a \<noteq> k" by blast
      then show ?thesis using that by (simp add: M')
    qed
    have "set (pe_ancestors w) \<subseteq> set as" if a: "a \<in> set as" and w: "M' a = Some w" for a w
    proof -
      have "a \<noteq> k" using a kas by blast
      then obtain v where "M a = Some v" "pe_ancestors w = pe_ancestors v" using a w by (auto simp: M')
      then show ?thesis using closed a by auto
    qed
    then show ?thesis unfolding ye e True using as(1) kas new by simp
  next
    case False
    then obtain z where z: "M x = Some z" "pe_ancestors y = pe_ancestors z"
      "pe_descendants y = (if x \<in> set as then pe_descendants z @ [k] else pe_descendants z)"
      using y by (auto simp: M' split: if_split_asm)
    have zl: "distinct (pe_ancestors z) \<and> distinct (pe_descendants z) \<and> x \<notin> set (pe_ancestors z)
     \<and> (\<forall>a \<in> set (pe_ancestors z). \<exists>w. M a = Some w \<and> x \<in> set (pe_descendants w))
     \<and> (\<forall>d \<in> set (pe_descendants z). \<exists>w. M d = Some w \<and> x \<in> set (pe_ancestors w))
     \<and> (\<forall>a \<in> set (pe_ancestors z). \<forall>w. M a = Some w \<longrightarrow> set (pe_ancestors w) \<subseteq> set (pe_ancestors z))"
      using l z(1) unfolding links_def by blast
    have nk: "k \<notin> set (pe_descendants z)" using zl k by auto
    have anc: "\<forall>a \<in> set (pe_ancestors z). \<exists>w. M' a = Some w \<and> x \<in> set (pe_descendants w)"
      using zl up by blast
    have desc: "\<forall>d \<in> set (pe_descendants z). \<exists>w. M' d = Some w \<and> x \<in> set (pe_ancestors w)"
    proof
      fix d assume "d \<in> set (pe_descendants z)"
      then obtain w where w: "M d = Some w" "x \<in> set (pe_ancestors w)" using zl by blast
      then obtain w' where "M' d = Some w'" "pe_ancestors w' = pe_ancestors w" using up by blast
      then show "\<exists>w. M' d = Some w \<and> x \<in> set (pe_ancestors w)" using w(2) by simp
    qed
    have trans: "\<forall>a \<in> set (pe_ancestors z). \<forall>w. M' a = Some w \<longrightarrow> set (pe_ancestors w) \<subseteq> set (pe_ancestors z)"
    proof (intro ballI allI impI)
      fix a w assume a: "a \<in> set (pe_ancestors z)" and w: "M' a = Some w"
      obtain v where v: "M a = Some v" using zl a by blast
      then obtain w' where "M' a = Some w'" "pe_ancestors w' = pe_ancestors v" using up by blast
      then show "set (pe_ancestors w) \<subseteq> set (pe_ancestors z)" using zl a v w by auto
    qed
    have "M' k = Some e" by (simp add: M')
    then have new: "\<exists>w. M' k = Some w \<and> x \<in> set (pe_ancestors w)" if "x \<in> set as" using that e(1) by simp
    show ?thesis
    proof (cases "x \<in> set as")
      case True
      have "pe_descendants y = pe_descendants z @ [k]" using z(3) True by simp
      then show ?thesis using zl nk anc desc trans new [OF True] unfolding z(2) by simp
    next
      case False
      have "pe_descendants y = pe_descendants z" using z(3) False by simp
      then show ?thesis using zl nk anc desc trans unfolding z(2) by simp
    qed
  qed
qed

lemma insert_entry_spec:
  assumes inv: "pool_inv H m" and k: "k \<notin> pool_keys m" and t: "tx_known H k t"
    and free: "\<forall>op \<in> set (tx_ops t). mp_spends m op = None" and as: "distinct as" "set as \<subseteq> pool_keys m"
    and closed: "\<forall>a \<in> set as. \<forall>x. map_of (mp_entries m) a = Some x \<longrightarrow> set (pe_ancestors x) \<subseteq> set as"
  shows "\<exists>m'. insert_entry E k t fee as m = (Inr (), m') \<and> pool_inv H m' \<and> mp_limits m' = mp_limits m
    \<and> pool_keys m' = insert k (pool_keys m)"
proof -
  let ?e = "\<lparr>pe_tx = t, pe_fee = fee, pe_ancestors = as, pe_descendants = [], pe_time = pv_now E\<rparr>"
  define m1 where "m1 = fold (link_descendant k) as m"
  have M1: "map_of (mp_entries m1) x = (if x \<in> set as then map_option (\<lambda>e. e\<lparr>pe_descendants := pe_descendants e @ [k]\<rparr>) (map_of (mp_entries m) x)
       else map_of (mp_entries m) x)" and s1: "same_books m m1" for x
    using fold_link_descendant [OF as(1), of k m x] by (simp_all add: m1_def)
  have txs1: "pool_txs m1 = pool_txs m" "mp_total_vbytes m1 = mp_total_vbytes m" "mp_spends m1 = mp_spends m" "mp_limits m1 = mp_limits m"
    using s1 by (simp_all add: same_books_def)
  have keys1: "pool_keys m1 = pool_keys m" unfolding pool_keys_txs(1) [symmetric] txs1 ..
  have upd: "AList.update k ?e (mp_entries m1) = mp_entries m1 @ [(k, ?e)]"
    using k keys1 by (intro update_new) (simp add: pool_keys_def)
  define m3 where "m3 = m1\<lparr>mp_entries := mp_entries m1 @ [(k, ?e)], mp_total_vbytes := mp_total_vbytes m1 + tx_size t,
     mp_spent_outpoints := mp_spent_outpoints m1 @ filter (\<lambda>op. op \<notin> set (mp_spent_outpoints m1)) (remdups (tx_ops t)),
     mp_spends := (\<lambda>op. if op \<in> set (tx_ops t) then Some k else mp_spends m1 op)\<rparr>"
  have "add_metadata k t (m1\<lparr>mp_entries := mp_entries m1 @ [(k, ?e)]\<rparr>) = Inr m3"
    using t by (simp add: add_metadata_def tx_known_def m3_def cong: if_cong)
  then have run: "insert_entry E k t fee as m = (Inr (), m3)"
    by (simp add: insert_entry_def run_simps updateS_def upd flip: m1_def)
  have txs: "pool_txs m3 = pool_txs m @ [(k, t)]" using txs1(1) by (simp add: m3_def pool_txs_def)
  have "fst ` set (pool_txs m) = pool_keys m" by (rule pool_keys_txs)
  moreover have "books H (pool_txs m) (mp_total_vbytes m) (mp_spends m)" using inv by (simp add: pool_inv_def)
  ultimately have "books H (pool_txs m3) (mp_total_vbytes m + tx_size t) (\<lambda>op. if op \<in> set (tx_ops t) then Some k else mp_spends m op)"
    unfolding txs using k t free by (intro books_insert) simp_all
  moreover have "mp_total_vbytes m3 = mp_total_vbytes m + tx_size t"
    "mp_spends m3 = (\<lambda>op. if op \<in> set (tx_ops t) then Some k else mp_spends m op)"
    by (simp_all add: m3_def txs1 cong: if_cong)
  moreover have "links (map_of (mp_entries m3))"
  proof (rule links_insert [where M = "map_of (mp_entries m)" and k = k and as = as and e = ?e])
    show "links (map_of (mp_entries m))" using inv by (simp add: pool_inv_def)
    show "map_of (mp_entries m) k = None" using k in_pool_keys [of m k] by (simp add: in_pool_def)
    show "\<forall>a \<in> set as. map_of (mp_entries m) a \<noteq> None" using as(2) in_pool_keys [of m] by (auto simp: in_pool_def)
    have "map_of (mp_entries m1) k = None" using k keys1 in_pool_keys [of m1 k] by (simp add: in_pool_def)
    then have m3: "map_of (mp_entries m3) x = (if x = k then Some ?e else map_of (mp_entries m1) x)" for x
      unfolding m3_def by (auto simp: map_add_def split: option.split)
    show "map_of (mp_entries m3) x = (if x = k then Some ?e
      else if x \<in> set as then map_option (\<lambda>y. y\<lparr>pe_descendants := pe_descendants y @ [k]\<rparr>) (map_of (mp_entries m) x)
      else map_of (mp_entries m) x)" for x
      unfolding m3 M1 ..
  qed (simp_all add: as(1) closed)
  moreover have "pool_keys m3 = insert k (pool_keys m)" unfolding pool_keys_txs(1) [symmetric] txs by simp
  moreover have "mp_limits m3 = mp_limits m" by (simp add: m3_def txs1)
  ultimately show ?thesis using run by (auto simp: pool_inv_def)
qed

section \<open>Admission\<close>

text \<open>A list of ancestors that is complete up to what is excluded.\<close>

definition ancestors_ok :: "mempool \<Rightarrow> bytes list \<Rightarrow> bytes list \<Rightarrow> bool" where
  "ancestors_ok m ev as \<longleftrightarrow> distinct as \<and> set as \<subseteq> pool_keys m - set ev
     \<and> (\<forall>a \<in> set as. \<forall>x. map_of (mp_entries m) a = Some x \<longrightarrow> set (pe_ancestors x) - set ev \<subseteq> set as)"

lemma fold_add_spec:
  "distinct acc \<Longrightarrow> distinct (fold (\<lambda>a acc. if a \<in> set acc \<or> a \<in> set ev then acc else acc @ [a]) as acc)
     \<and> set (fold (\<lambda>a acc. if a \<in> set acc \<or> a \<in> set ev then acc else acc @ [a]) as acc) = set acc \<union> (set as - set ev)"
proof (induction as arbitrary: acc)
  case (Cons a as)
  let ?acc = "if a \<in> set acc \<or> a \<in> set ev then acc else acc @ [a]"
  have "distinct ?acc" "set ?acc \<union> (set as - set ev) = set acc \<union> (set (a # as) - set ev)" using Cons.prems by auto
  then show ?case using Cons.IH [of ?acc] by simp
qed simp

lemma collect_ancestors_spec:
  assumes l: "links (map_of (mp_entries m))"
  shows "ancestors_ok m ev acc \<Longrightarrow> ancestors_ok m ev (collect_ancestors m ev acc is)"
proof (induction "is" arbitrary: acc)
  case (Cons i "is")
  show ?case
  proof (cases "map_of (mp_entries m) (in_txid i) = None \<or> in_txid i \<in> set ev")
    case True
    then show ?thesis using Cons by (auto split: option.split)
  next
    case False
    then obtain parent where p: "map_of (mp_entries m) (in_txid i) = Some parent" "in_txid i \<notin> set ev" by auto
    let ?as = "pe_ancestors parent @ [in_txid i]"
    let ?acc = "fold (\<lambda>a acc. if a \<in> set acc \<or> a \<in> set ev then acc else acc @ [a]) ?as acc"
    have acc: "distinct ?acc" "set ?acc = set acc \<union> (set ?as - set ev)"
      using fold_add_spec [of acc ev ?as] Cons.prems by (simp_all add: ancestors_ok_def)
    have key: "map_of (mp_entries m) x = Some y \<Longrightarrow> x \<in> pool_keys m" for x y
      using in_pool_keys [of m x] by (simp add: in_pool_def)
    have "set (pe_ancestors parent) \<subseteq> pool_keys m" using l p(1) key unfolding links_def by blast
    then have "set ?acc \<subseteq> pool_keys m - set ev" using Cons.prems key [OF p(1)] unfolding acc(2) by (auto simp: ancestors_ok_def)
    moreover have "set (pe_ancestors x) - set ev \<subseteq> set ?acc" if a: "a \<in> set ?acc" and x: "map_of (mp_entries m) a = Some x" for a x
    proof -
      consider "a \<in> set acc" | "a \<in> set (pe_ancestors parent)" | "a = in_txid i" using a unfolding acc(2) by auto
      then show ?thesis
      proof cases
        case 1
        then show ?thesis using Cons.prems x unfolding acc(2) ancestors_ok_def by blast
      next
        case 2
        then have "set (pe_ancestors x) \<subseteq> set (pe_ancestors parent)" using l p(1) x unfolding links_def by blast
        then show ?thesis unfolding acc(2) by auto
      next
        case 3
        then show ?thesis using p(1) x unfolding acc(2) by auto
      qed
    qed
    ultimately have "ancestors_ok m ev ?acc" using acc(1) unfolding ancestors_ok_def by blast
    moreover have step: "collect_ancestors m ev acc (i # is) = collect_ancestors m ev ?acc is" using p by simp
    ultimately show ?thesis unfolding step by (intro Cons.IH)
  qed
qed simp

lemma get_ancestors_spec: "pool_inv H m \<Longrightarrow> ancestors_ok m ev (get_ancestors m t ev)"
  using collect_ancestors_spec [of m ev "[]" "t_inputs t"]
  by (simp add: get_ancestors_def topological_order_def pool_inv_def ancestors_ok_def)

lemma conflict_free:
  assumes inv: "pool_inv H m" "pool_inv H m'" and t: "mapR txin_outpoint (t_inputs t) = Inr (tx_ops t)"
    and dc: "get_direct_conflicts m t = Inr dc" "set dc \<subseteq> set ev"
    and txs: "pool_txs m' = filter (\<lambda>(k, _). k \<notin> set ev) (pool_txs m)"
  shows "\<forall>op \<in> set (tx_ops t). mp_spends m' op = None"
proof (rule ballI, rule ccontr)
  fix op assume op: "op \<in> set (tx_ops t)" and "mp_spends m' op \<noteq> None"
  then obtain c where "mp_spends m' op = Some c" by blast
  moreover have "mp_spends m' op = Some c \<longleftrightarrow> (\<exists>t. (c, t) \<in> set (pool_txs m') \<and> op \<in> set (tx_ops t))" for c
    using inv(2) by (simp add: pool_inv_def books_def)
  ultimately obtain t' where t': "(c, t') \<in> set (pool_txs m)" "op \<in> set (tx_ops t')" "c \<notin> set ev" unfolding txs by auto
  then have "mp_spends m op = Some c" using inv(1) unfolding pool_inv_def books_def by blast
  then have "c \<in> set (List.map_filter (mp_spends m) (tx_ops t))" using op by (force simp: map_filter_def)
  moreover have "in_pool m c" using txs_key [OF t'(1)] by (simp add: in_pool_keys)
  ultimately have "c \<in> set dc" using dc(1) t by (auto simp: get_direct_conflicts_def)
  then show False using dc(2) t'(3) by blast
qed

lemma replacement_covers:
  assumes "check_replacement m t fee dc = Inr (True, ev)" shows "set dc \<subseteq> set ev"
proof -
  obtain es where es: "mapR (lookup_entry m) dc = Inr es"
    "ev = remdups (concat (map (\<lambda>(c, e). c # pe_descendants e) (zip dc es)))"
    using assms by (auto simp: check_replacement_def Let_def split: if_split_asm)
  have "length es = length dc" by (rule mapR_length [OF es(1)])
  then have "map fst (zip dc es) = dc" by simp
  then have "set dc = fst ` set (zip dc es)" by (metis set_map)
  then show ?thesis by (auto simp: es(2))
qed

lemma take_in_keeps:
  assumes m: "bounded_inv H L (pl_max_size L) m" and max: "0 \<le> pl_max_size L" and k: "k \<notin> pool_keys m" and t: "tx_known H k t"
    and dc: "get_direct_conflicts m t = Inr dc" "set dc \<subseteq> set ev" and as: "ancestors_ok m ev as"
  shows "bounded_inv H L (pl_max_size L) (snd (take_in E k t fee as ev m))"
proof -
  have inv: "pool_inv H m" and lim: "mp_limits m = L" using m by (simp_all add: bounded_inv_def)
  obtain m1 where m1: "remove_entries ev m = (Inr (), m1)" "pool_inv H m1" "pool_txs m1 = filter (\<lambda>(k, _). k \<notin> set ev) (pool_txs m)"
    "mp_limits m1 = L" "fewer_ancestors m m1" using remove_entries_spec [OF inv, of ev] unfolding lim by blast
  have keys1: "pool_keys m1 = pool_keys m - set ev" unfolding pool_keys_txs(1) [symmetric] m1(3) by force
  have free: "\<forall>op \<in> set (tx_ops t). mp_spends m1 op = None"
    using conflict_free [OF inv m1(2) _ dc m1(3)] t by (simp add: tx_known_def)
  have k1: "k \<notin> pool_keys m1" "set as \<subseteq> pool_keys m1" using k as keys1 by (auto simp: ancestors_ok_def)
  have closed: "set (pe_ancestors x) \<subseteq> set as" if a: "a \<in> set as" and x: "map_of (mp_entries m1) a = Some x" for a x
  proof -
    obtain y where y: "map_of (mp_entries m) a = Some y" "set (pe_ancestors x) \<subseteq> set (pe_ancestors y)"
      using m1(5) x unfolding fewer_ancestors_def by blast
    have "\<forall>z \<in> set (pe_ancestors x). \<exists>w. map_of (mp_entries m1) z = Some w"
      using m1(2) x unfolding pool_inv_def links_def by blast
    then have "set (pe_ancestors x) \<subseteq> pool_keys m1" using in_pool_keys [of m1] by (auto simp: in_pool_def)
    then show ?thesis using as y a keys1 unfolding ancestors_ok_def by blast
  qed
  obtain m2 where m2: "insert_entry E k t fee as m1 = (Inr (), m2)" "pool_inv H m2" "mp_limits m2 = L"
    using insert_entry_spec [OF m1(2) k1(1) t free _ k1(2), of E fee] closed as m1(4) by (auto simp: ancestors_ok_def)
  obtain ks m3 where m3: "trim_to_size E m2 = (Inr ks, m3)" "pool_inv H m3" "mp_limits m3 = L" "mp_total_vbytes m3 \<le> pl_max_size L"
    using trim_loop_spec [OF m2(2) order_refl, of E] max m2(3) by (auto simp: trim_to_size_def)
  have "bounded_inv H L (pl_max_size L) m3" using m3 by (simp add: bounded_inv_def)
  moreover have "keeps (bounded_inv H L n) (bindS (readS (\<lambda>m. in_pool m k)) (\<lambda>kept.
       if \<not> kept then returnS (rejected POLICY (sort ev))
       else bindS (updateS (\<lambda>m. bindR (tx_orphan_remove k (mp_orphans m)) (\<lambda>(_, p). Inr (m\<lparr>mp_orphans := p\<rparr>)))) (\<lambda>_.
         returnS \<lparr>ar_accepted = True, ar_category = ACCEPTED, ar_replaced = sort ev\<rparr>)))" for n
    by (intro keeps_intros orphans_keep)
  ultimately show ?thesis unfolding take_in_def keeps_def by (simp add: bindS_def [of "remove_entries ev"] m1(1)
      bindS_def [of "insert_entry E k t fee as"] m2(1) bindS_def [of "trim_to_size E"] m3(1))
qed

text \<open>An action that has the invariant from every state where it is known what it starts with.\<close>

lemma admit_loaded_keeps:
  assumes m: "bounded_inv H L (pl_max_size L) m" and max: "0 \<le> pl_max_size L" and k: "k \<notin> pool_keys m"
    and t: "tx_txid H t = Inr k" "mapR txin_outpoint (t_inputs t) = Inr (tx_ops t)" and dc: "get_direct_conflicts m t = Inr dc"
  shows "bounded_inv H L (pl_max_size L) (snd (admit_loaded E t k dc l fee m))"
proof -
  obtain r m1 where r: "get_min_relay_feerate E m = (r, m1)" by fastforce
  then have "(\<exists>x. r = Inr x) \<and> mp_entries m1 = mp_entries m \<and> mp_spends m1 = mp_spends m"
    by (auto simp: get_min_relay_feerate_def Let_def split: if_split_asm)
  then obtain minimum where fee: "get_min_relay_feerate E m = (Inr minimum, m1)" "mp_entries m1 = mp_entries m" "mp_spends m1 = mp_spends m"
    using r by blast
  have m1: "bounded_inv H L (pl_max_size L) m1" by (rule keepsD [OF min_feerate_keeps m fee(1)])
  have "in_pool m1 = in_pool m" by (rule ext) (simp add: in_pool_def fee)
  then have dc1: "get_direct_conflicts m1 t = Inr dc" using dc by (simp add: get_direct_conflicts_def fee)
  have k1: "k \<notin> pool_keys m1" using k by (simp add: pool_keys_def fee(2))
  have inv1: "pool_inv H m1" using m1 by (simp add: bounded_inv_def)
  have tail: "bounded_inv H L (pl_max_size L) (snd (take_in E k t fee (get_ancestors m1 t ev) ev m1))"
    if "(if dc = [] then Inr (True, []) else check_replacement m1 t fee dc) = Inr (True, ev)" "tx_vbytes t = Inr v" for ev v
  proof (rule take_in_keeps [OF m1 max k1 _ dc1])
    show "tx_known H k t" using t that(2) by (simp add: tx_known_def tx_size_def)
    show "set dc \<subseteq> set ev" using that(1) replacement_covers [of m1 t fee dc ev] by (cases "dc = []") auto
    show "ancestors_ok m1 ev (get_ancestors m1 t ev)" by (rule get_ancestors_spec [OF inv1])
  qed
  have get: "bindS (get_min_relay_feerate E) f m = f minimum m1" for f :: "rat \<Rightarrow> (mempool, admission_result) action"
    by (simp add: bindS_def fee(1))
  show ?thesis
    using m m1 tail
    by (simp add: admit_loaded_def run_simps get split: sum.split prod.split)
qed

lemma precheck_free:
  "precheck_tx H m t = Inr None \<Longrightarrow> \<exists>k. tx_txid H t = Inr k \<and> k \<notin> pool_keys m"
  by (auto simp: precheck_tx_def in_pool_keys split: if_split_asm)

lemma accept_decoded_keeps [keeps_intros]:
  assumes "0 \<le> pl_max_size L"
  shows "keeps (bounded_inv (pv_hashes E) L (pl_max_size L)) (accept_decoded E t)"
  unfolding keeps_def
proof (intro allI impI)
  let ?P = "bounded_inv (pv_hashes E) L (pl_max_size L)"
  fix m assume m: "?P m"
  show "?P (snd (accept_decoded E t m))"
  proof (cases "precheck_tx (pv_hashes E) m t = Inr None \<and> (\<exists>dc. get_direct_conflicts m t = Inr dc)")
    case False
    then show ?thesis using m by (auto simp: accept_decoded_def run_simps split: sum.split option.split)
  next
    case True
    then obtain k dc where k: "precheck_tx (pv_hashes E) m t = Inr None" "tx_txid (pv_hashes E) t = Inr k" "k \<notin> pool_keys m"
      "get_direct_conflicts m t = Inr dc" using precheck_free by blast
    have ops: "mapR txin_outpoint (t_inputs t) = Inr (tx_ops t)"
      using k(4) by (cases "mapR txin_outpoint (t_inputs t)") (auto simp: get_direct_conflicts_def tx_ops_def)
    have loaded: "?P (snd (admit_loaded E t k dc l fee m))" for l fee
      by (rule admit_loaded_keeps [OF m assms k(3,2) ops k(4)])
    have orphan: "?P (snd (bindS (store_orphan E t) (\<lambda>_. returnS (rejected ORPHAN [])) m))"
    proof -
      have "keeps ?P (bindS (store_orphan E t) (\<lambda>_. returnS (rejected ORPHAN [])))"
        unfolding store_orphan_def by (intro keeps_intros orphans_keep)
      then show ?thesis using m unfolding keeps_def by blast
    qed
    show ?thesis using m loaded orphan
      by (auto simp: accept_decoded_def run_simps k(1,2,4) split: sum.split option.split prod.split)
  qed
qed

lemma accept_once_keeps [keeps_intros]:
  "0 \<le> pl_max_size L \<Longrightarrow> keeps (bounded_inv (pv_hashes E) L (pl_max_size L)) (accept_once E c)"
  unfolding accept_once_def by (intro keeps_intros)

lemma record_keeps [keeps_intros]: "keeps (bounded_inv H L n) (record_admission r)"
  unfolding record_admission_def
  by (intro keeps_intros keeps_modify) (simp add: bounded_inv_def pool_inv_def pool_txs_def)

lemma retry_keeps [keeps_intros]:
  "0 \<le> pl_max_size L \<Longrightarrow> keeps (bounded_inv (pv_hashes E) L (pl_max_size L)) (retry_orphans E os)"
proof (induction os)
  case (Cons x os)
  then show ?case unfolding retry_orphans.simps by (intro keeps_intros) simp_all
qed (simp add: keeps_intros)

lemma reconsider_loop_keeps:
  "0 \<le> pl_max_size L \<Longrightarrow> keeps (bounded_inv (pv_hashes E) L (pl_max_size L)) (reconsider_loop fuel E queue)"
proof (induction fuel E queue rule: reconsider_loop.induct)
  case (3 fuel E p queue)
  then show ?case unfolding reconsider_loop.simps
    by (intro keeps_intros keeps_modify) (auto simp: bounded_inv_def pool_inv_def pool_txs_def)
qed (simp_all add: keeps_intros)

lemma reconsider_keeps [keeps_intros]:
  "0 \<le> pl_max_size L \<Longrightarrow> keeps (bounded_inv (pv_hashes E) L (pl_max_size L)) (reconsider_orphans E k)"
  using reconsider_loop_keeps [of L E] unfolding keeps_def reconsider_orphans_def by blast

lemma accept_tx_keeps [keeps_intros]:
  "0 \<le> pl_max_size L \<Longrightarrow> keeps (bounded_inv (pv_hashes E) L (pl_max_size L)) (accept_tx E c r)"
  unfolding accept_tx_def by (intro keeps_intros)

lemma add_tx_keeps [keeps_intros]:
  "0 \<le> pl_max_size L \<Longrightarrow> keeps (bounded_inv (pv_hashes E) L (pl_max_size L)) (add_tx E c r)"
  unfolding add_tx_def by (intro keeps_intros)

lemma confirm_block_keeps [keeps_intros]:
  "0 \<le> pl_max_size L \<Longrightarrow> keeps (bounded_inv (pv_hashes E) L (pl_max_size L)) (confirm_block E ks)"
  unfolding confirm_block_def by (intro keeps_intros)

section \<open>Runs of the pool\<close>

text \<open>
  What a node does with its pool: it starts empty, transactions are submitted, blocks confirm some, old ones are
  evicted, the relay fee is asked for. The database and the clock may be others at every call, and a call may raise.
\<close>

inductive pool_reachable :: "hashes \<Rightarrow> mempool \<Rightarrow> bool" for H where
  start: "pool_reachable H (new_mempool now)"
| submit: "pool_reachable H m \<Longrightarrow> pv_hashes E = H \<Longrightarrow> add_tx E c False m = (r, m') \<Longrightarrow> pool_reachable H m'"
| confirm: "pool_reachable H m \<Longrightarrow> pv_hashes E = H \<Longrightarrow> confirm_block E txids m = (q, m') \<Longrightarrow> pool_reachable H m'"
| expire: "pool_reachable H m \<Longrightarrow> evict_expired E m = (n, m') \<Longrightarrow> pool_reachable H m'"
| relay: "pool_reachable H m \<Longrightarrow> get_min_relay_feerate E m = (f, m') \<Longrightarrow> pool_reachable H m'"

lemma reachable_inv:
  assumes "pool_reachable H m" shows "bounded_inv H DEFAULT_LIMITS (pl_max_size DEFAULT_LIMITS) m"
proof -
  have pos: "0 \<le> pl_max_size DEFAULT_LIMITS" by (simp add: DEFAULT_LIMITS_def)
  show ?thesis using assms
  proof induction
    case (start now)
    then show ?case by (simp add: new_mempool_def bounded_inv_def pool_inv_def pool_txs_def books_def links_def total_size_def DEFAULT_LIMITS_def)
  next
    case (submit m E c r m')
    then show ?case using keepsD [OF add_tx_keeps [OF pos, of E c False], of m r m'] by simp
  next
    case (confirm m E txids q m')
    then show ?case using keepsD [OF confirm_block_keeps [OF pos, of E txids], of m q m'] by simp
  next
    case (expire m E n m')
    show ?case by (rule keepsD [OF evict_expired_keeps expire.IH expire.hyps(2)])
  next
    case (relay m E f m')
    show ?case by (rule keepsD [OF min_feerate_keeps relay.IH relay.hyps(2)])
  qed
qed

end
