(* ===== verification/Pool_Properties.thy ===== *)
theory Pool_Properties
  imports Mempool_Facts Chain_DB_Facts
begin

text \<open>
  What holds of the memory pool after any run of it, what its consensus check asks of a transaction, and what the
  block template selects.
\<close>

section \<open>The books\<close>

text \<open>
  C4: the books of the memory pool balance after any sequence of submissions, confirmations, evictions and failures.
  Every key is the txid of its transaction; the size is the sum over the entries and within the limit; the spend
  index names for every outpoint an entry spends exactly this entry, so that no two entries spend the same output;
  and every entry that names an ancestor is named by it as descendant and the other way round.
\<close>

theorem mempool_books_balance:
  assumes "pool_reachable H m"
  shows "(\<forall>k e. map_of (mp_entries m) k = Some e \<longrightarrow> tx_txid H (pe_tx e) = Inr k)
    \<and> mp_total_vbytes m = sum_list (map (\<lambda>(_, e). tx_size (pe_tx e)) (mp_entries m)) \<and> mp_total_vbytes m \<le> 300000
    \<and> (\<forall>op k. mp_spends m op = Some k \<longleftrightarrow> (\<exists>e. map_of (mp_entries m) k = Some e \<and> op \<in> set (tx_ops (pe_tx e))))
    \<and> (\<forall>k e a. map_of (mp_entries m) k = Some e \<longrightarrow> a \<in> set (pe_ancestors e) \<longrightarrow>
         (\<exists>x. map_of (mp_entries m) a = Some x \<and> k \<in> set (pe_descendants x)))
    \<and> (\<forall>k e d. map_of (mp_entries m) k = Some e \<longrightarrow> d \<in> set (pe_descendants e) \<longrightarrow>
         (\<exists>x. map_of (mp_entries m) d = Some x \<and> k \<in> set (pe_ancestors x)))"
proof -
  have b: "books H (pool_txs m) (mp_total_vbytes m) (mp_spends m)" and l: "links (map_of (mp_entries m))"
    and n: "mp_total_vbytes m \<le> 300000"
    using reachable_inv [OF assms] by (simp_all add: bounded_inv_def pool_inv_def DEFAULT_LIMITS_def)
  have d: "distinct (map fst (mp_entries m))" using b pool_keys_txs(2) [of m] by (simp add: books_def)
  have txs: "(k, t) \<in> set (pool_txs m) \<longleftrightarrow> (\<exists>e. map_of (mp_entries m) k = Some e \<and> pe_tx e = t)" for k t
    using d by (auto simp: pool_txs_def)
  have "mp_spends m op = Some k \<longleftrightarrow> (\<exists>e. map_of (mp_entries m) k = Some e \<and> op \<in> set (tx_ops (pe_tx e)))" for op k
  proof -
    have "mp_spends m op = Some k \<longleftrightarrow> (\<exists>t. (k, t) \<in> set (pool_txs m) \<and> op \<in> set (tx_ops t))" using b unfolding books_def by blast
    then show ?thesis by (auto simp: txs)
  qed
  moreover have "\<forall>k e. map_of (mp_entries m) k = Some e \<longrightarrow> tx_txid H (pe_tx e) = Inr k"
  proof (intro allI impI)
    fix k e assume e: "map_of (mp_entries m) k = Some e"
    have "(k, pe_tx e) \<in> set (pool_txs m)" using e by (simp add: txs)
    then show "tx_txid H (pe_tx e) = Inr k" using b unfolding books_def tx_known_def by fastforce
  qed
  moreover have "mp_total_vbytes m = sum_list (map (\<lambda>(_, e). tx_size (pe_tx e)) (mp_entries m))"
    using b by (simp add: books_def total_size_def pool_txs_def comp_def split_def)
  moreover have "\<forall>k e a. map_of (mp_entries m) k = Some e \<longrightarrow> a \<in> set (pe_ancestors e) \<longrightarrow>
         (\<exists>x. map_of (mp_entries m) a = Some x \<and> k \<in> set (pe_descendants x))" using l unfolding links_def by blast
  moreover have "\<forall>k e d. map_of (mp_entries m) k = Some e \<longrightarrow> d \<in> set (pe_descendants e) \<longrightarrow>
         (\<exists>x. map_of (mp_entries m) d = Some x \<and> k \<in> set (pe_ancestors x))" using l unfolding links_def by blast
  ultimately show ?thesis using n by blast
qed


text \<open>A pool with one entry: a transaction that spends a native SegWit output before SegWit is in force.\<close>

definition sample_params :: chain_params where
  "sample_params = REGTEST_CHAIN_PARAMS\<lparr>segwit_height := 1000, taproot_height := 1000\<rparr>"

definition coin_utxo :: utxo where
  "coin_utxo = \<lparr>u_outpoint = replicate 32 7 @ [1, 0, 0, 0], u_amount = 6000, u_scriptpubkey = [0, 20] @ replicate 20 5,
     u_block_height = 0, u_is_coinbase = True\<rparr>"

definition sample_env :: "hashes \<Rightarrow> pool_env" where
  "sample_env H = \<lparr>pv_params = sample_params, pv_hashes = H, pv_der = (\<lambda>_. Inl ValueError),
     pv_config = local_config ARCHIVAL,
     pv_db = (empty_tables (open_store ARCHIVAL []))\<lparr>db_utxos := [replicate 32 7 @ [1, 0, 0, 0] \<mapsto> coin_utxo]\<rparr>,
     pv_now = 1700000000, pv_half_pow = (\<lambda>_. 1)\<rparr>"

abbreviation coin_txin :: tx_in where
  "coin_txin \<equiv> \<lparr>in_txid = replicate 32 7, in_vout = 1, in_scriptsig = [0x51], in_sequence = 0xfffffffe\<rparr>"

lemma coin_inputs: "t_inputs sample_tx = [coin_txin]" by (simp add: sample_tx_def)

lemma coin_outpoint: "txin_outpoint coin_txin = Inr (replicate 32 7 @ [1, 0, 0, 0])"
  using sample_tx_outpoint by (simp add: coin_inputs)

abbreviation coin_loaded :: loaded_tx where "coin_loaded \<equiv> \<lparr>l_tx = sample_tx, l_utxos = [coin_utxo]\<rparr>"

lemma coin_wu: "tx_wu sample_tx = Inr 255"
  by (simp add: tx_wu_def sample_tx_def tx_is_segwit_def txin_to_bytes_def txout_to_bytes_def witness_to_bytes_def
      serialize_data_def write_compact_size_def MAX_COMPACTSIZE_def to_bytes_le_def)

lemma coin_vbytes: "tx_vbytes sample_tx = Inr 64" by (simp add: tx_vbytes_def coin_wu)

lemma coin_not_coinbase: "tx_is_coinbase sample_tx = Inr False"
  by (simp add: tx_is_coinbase_def sample_tx_def index_at_def eval_nat_numeral)

lemma coin_txid: "\<exists>k. tx_txid H sample_tx = Inr k"
  using sample_tx_stripped by (auto simp: tx_txid_def)

lemma coin_loads: "load_tx sample_tx (Some [coin_utxo]) = Inr coin_loaded"
  using coin_outpoint by (simp add: load_tx_def coin_inputs coin_utxo_def)

lemma coin_fee: "tx_fee H coin_loaded = Inr 1000"
  by (simp add: tx_fee_def input_total_def output_total_def sample_tx_def coin_utxo_def)

lemma sample_flags:
  "next_block_flags consensus_script_flags (sample_env H) = Inr f \<Longrightarrow> \<not> flag_on f FLAG_WITNESS"
  "next_block_flags standard_script_flags (sample_env H) = Inr f \<Longrightarrow> \<not> flag_on f FLAG_WITNESS"
  by (simp_all add: next_block_flags_def get_latest_block_def sample_env_def empty_tables_def get_chain_height_def get_active_tip_def
      sample_params_def REGTEST_CHAIN_PARAMS_def consensus_script_flags_def standard_script_flags_def flag_defs STANDARD_POLICY_FLAGS_def
      flag_on_def)

lemma sample_flags_ok:
  "\<exists>f. next_block_flags consensus_script_flags (sample_env H) = Inr f"
  "\<exists>f. next_block_flags standard_script_flags (sample_env H) = Inr f"
  by (simp_all add: next_block_flags_def get_latest_block_def sample_env_def empty_tables_def get_chain_height_def get_active_tip_def)

lemma coin_scripts: "\<not> flag_on f FLAG_WITNESS \<Longrightarrow> validate_tx_scripts H D coin_loaded f = Inr True"
  by (simp add: validate_tx_scripts_def coin_inputs validate_input_script_def utxo_for_input_def index_at_def coin_utxo_def
    classify_scriptpubkey_def get_scriptpubkey_type_def SCRIPTPUBKEY_CLASSIFIERS_def p2pkh_matches_def p2sh_matches_def p2wpkh_matches_def script_from_bytes_def
    p2wpkh_from_bytes_def p2wpkh_key_def mk_script_def is_native_segwit_def)

lemma coin_valid: "pool_validate_tx (sample_env H) sample_tx [coin_utxo] = Inr True"
proof -
  obtain f where f: "next_block_flags consensus_script_flags (sample_env H) = Inr f" using sample_flags_ok by blast
  let ?ctx = "pool_context (sample_env H) f"
  have c: "v_script_validator ?ctx = Some (\<lambda>candidate. validate_tx_scripts H (pv_der (sample_env H)) candidate f)"
    "\<not> v_check_locktime ?ctx" "\<not> v_check_relative_locktime ?ctx" "v_validate_scripts ?ctx" "v_coinbase_maturity ?ctx = None"
    by (simp_all add: pool_context_def default_validation_context_def sample_env_def)
  have "validate_tx_structure coin_loaded"
    using coin_wu by (simp add: validate_tx_structure_def coin_inputs MAX_TX_WEIGHT_def)
      (simp add: sample_tx_def output_total_def amount_ok_def MAX_MONEY_def coin_utxo_def)
  moreover have "validate_inputs coin_loaded ?ctx 0 [coin_txin] {} None = Inr (True, None)"
    using coin_outpoint c by (simp add: utxo_for_input_def index_at_def coinbase_immature_def)
  ultimately have "validate_loaded_tx H (pv_der (sample_env H)) coin_loaded ?ctx None = Inr (True, None)"
    using coin_not_coinbase coin_fee [of H] c coin_scripts [OF sample_flags(1) [OF f]]
    by (simp add: validate_loaded_tx_def coin_inputs)
  then show ?thesis using f by (simp add: pool_validate_tx_def coin_loads) (simp add: sample_env_def)
qed

lemma coin_standard: "check_standardness (sample_env H) coin_loaded = Inr True"
proof -
  obtain f where f: "next_block_flags standard_script_flags (sample_env H) = Inr f" using sample_flags_ok by blast
  have "check_transaction_standardness sample_tx = Inr True"
    by (simp add: check_transaction_standardness_def coin_wu MAX_STANDARD_TX_WEIGHT_def)
      (simp add: sample_tx_def STANDARD_TX_VERSIONS_def MAX_STANDARD_SCRIPTSIG_SIZE_def standard_output_def OP_RETURN_BYTE_def
        MAX_STANDARD_NULL_DATA_SIZE_def)
  then show ?thesis using f coin_scripts [OF sample_flags(2) [OF f]] by (simp add: check_standardness_def)
qed

lemma coin_resolved: "mp_entries m = [] \<Longrightarrow> pool_get_utxos (sample_env H) m [coin_txin] = Inr (Some [coin_utxo])"
  using coin_outpoint by (simp add: pool_get_utxo_def get_utxo_def sample_env_def local_config_def)

text \<open>The entry of the sample, and the run that admits it.\<close>

definition coin_entry :: pool_entry where
  "coin_entry = \<lparr>pe_tx = sample_tx, pe_fee = 1000, pe_ancestors = [], pe_descendants = [], pe_time = 1700000000\<rparr>"

lemma trim_nothing: "mp_total_vbytes m \<le> pl_max_size (mp_limits m) \<Longrightarrow> trim_to_size E m = (Inr [], m)"
  by (cases "length (mp_entries m)") (simp_all add: trim_to_size_def run_simps)

lemma coin_decoded:
  assumes k: "tx_txid H sample_tx = Inr k"
  shows "\<exists>m. accept_decoded (sample_env H) sample_tx (new_mempool 1700000000) =
      (Inr \<lparr>ar_accepted = True, ar_category = ACCEPTED, ar_replaced = []\<rparr>, m)
    \<and> mp_entries m = [(k, coin_entry)] \<and> mp_total_vbytes m = 64 \<and> mp_orphans m = tx_orphans_new ORPHAN_MAX_COUNT ORPHAN_MAX_VBYTES ORPHAN_MAX_TIME
    \<and> mp_spends m (replicate 32 7 @ [1, 0, 0, 0]) = Some k"
proof -
  let ?o = "tx_orphans_new ORPHAN_MAX_COUNT ORPHAN_MAX_VBYTES ORPHAN_MAX_TIME"
  let ?E = "sample_env H" and ?m = "new_mempool 1700000000"
  have E: "pv_hashes ?E = H" "pv_now ?E = 1700000000" by (simp_all add: sample_env_def)
  have n: "mp_entries ?m = []" "mp_spends ?m = (\<lambda>_. None)" "mp_limits ?m = DEFAULT_LIMITS" "mp_rolling_min_fee ?m = 0"
    "mp_orphans ?m = tx_orphans_new ORPHAN_MAX_COUNT ORPHAN_MAX_VBYTES ORPHAN_MAX_TIME" "mp_total_vbytes ?m = 0"
    "mp_spent_outpoints ?m = []" by (simp_all add: new_mempool_def)
  have pre: "precheck_tx H ?m sample_tx = Inr None" by (simp add: precheck_tx_def k coin_not_coinbase in_pool_def n)
  have conf: "get_direct_conflicts ?m sample_tx = Inr []"
    using coin_outpoint by (simp add: get_direct_conflicts_def coin_inputs n List.map_filter_simps)
  have rate: "get_min_relay_feerate ?E ?m = (Inr 1, ?m)" by (simp add: get_min_relay_feerate_def n DEFAULT_LIMITS_def Let_def)
  have fee: "round_double 64 = 64" using round_double_int [of 64] by simp
  have anc: "get_ancestors ?m sample_tx [] = []" by (simp add: get_ancestors_def coin_inputs n topological_order_def)
  have lim: "check_package_limits ?m sample_tx [] [] = Inr True"
    by (simp add: check_package_limits_def coin_vbytes n DEFAULT_LIMITS_def)
  have take: "\<exists>m. take_in ?E k sample_tx 1000 [] [] ?m = (Inr \<lparr>ar_accepted = True, ar_category = ACCEPTED, ar_replaced = []\<rparr>, m)
    \<and> mp_entries m = [(k, coin_entry)] \<and> mp_total_vbytes m = 64 \<and> mp_orphans m = ?o
    \<and> mp_spends m (replicate 32 7 @ [1, 0, 0, 0]) = Some k"
    using coin_outpoint
    by (simp add: take_in_def remove_entries_def run_simps insert_entry_def add_metadata_def coin_vbytes coin_inputs n E coin_entry_def
        bindS_def [of "trim_to_size ?E"] trim_nothing DEFAULT_LIMITS_def in_pool_def tx_orphan_remove_def tx_orphans_new_def)
  then obtain m where "take_in ?E k sample_tx 1000 [] [] ?m = (Inr \<lparr>ar_accepted = True, ar_category = ACCEPTED, ar_replaced = []\<rparr>, m)"
    and m: "mp_entries m = [(k, coin_entry)]" "mp_total_vbytes m = 64" "mp_orphans m = ?o"
    "mp_spends m (replicate 32 7 @ [1, 0, 0, 0]) = Some k" by blast
  then have "admit_loaded ?E sample_tx k [] coin_loaded 1000 ?m = (Inr \<lparr>ar_accepted = True, ar_category = ACCEPTED, ar_replaced = []\<rparr>, m)"
    by (simp add: admit_loaded_def run_simps coin_valid coin_standard rate coin_vbytes fee anc lim bindS_def [of "get_min_relay_feerate ?E"])
  then have "accept_decoded ?E sample_tx ?m = (Inr \<lparr>ar_accepted = True, ar_category = ACCEPTED, ar_replaced = []\<rparr>, m)"
    using coin_resolved [of ?m H]
    by (simp add: accept_decoded_def run_simps E k pre conf coin_loads coin_fee coin_inputs n
      bindS_def [of "admit_loaded ?E sample_tx k [] coin_loaded 1000"])
  then show ?thesis using m by blast
qed

lemma coin_admitted:
  assumes k: "tx_txid H sample_tx = Inr k"
  shows "\<exists>m. add_tx (sample_env H) (Decoded sample_tx) False (new_mempool 1700000000) = (Inr True, m)
    \<and> mp_entries m = [(k, coin_entry)] \<and> mp_total_vbytes m = 64 \<and> mp_orphans m = tx_orphans_new ORPHAN_MAX_COUNT ORPHAN_MAX_VBYTES ORPHAN_MAX_TIME
    \<and> mp_spends m (replicate 32 7 @ [1, 0, 0, 0]) = Some k"
proof -
  let ?E = "sample_env H" and ?m = "new_mempool 1700000000"
  have E: "pv_hashes ?E = H" by (simp add: sample_env_def)
  have ev: "evict_expired ?E ?m = (Inr 0, ?m)"
    by (simp add: evict_expired_def new_mempool_def evict_expired_orphans_def tx_orphans_new_def run_simps)
  obtain m where "accept_decoded ?E sample_tx ?m = (Inr \<lparr>ar_accepted = True, ar_category = ACCEPTED, ar_replaced = []\<rparr>, m)"
    and m: "mp_entries m = [(k, coin_entry)]" "mp_total_vbytes m = 64"
    "mp_orphans m = tx_orphans_new ORPHAN_MAX_COUNT ORPHAN_MAX_VBYTES ORPHAN_MAX_TIME"
    "mp_spends m (replicate 32 7 @ [1, 0, 0, 0]) = Some k" using coin_decoded [OF k] by blast
  then have "accept_once ?E (Decoded sample_tx) ?m = (Inr (\<lparr>ar_accepted = True, ar_category = ACCEPTED, ar_replaced = []\<rparr>, Some sample_tx), m)"
    by (simp add: accept_once_def decode_candidate_def run_simps bindS_def [of "evict_expired ?E"] ev bindS_def [of "accept_decoded ?E sample_tx"])
  moreover have "reconsider_orphans ?E k m = (Inr (), m)"
    using m(3) by (simp add: reconsider_orphans_def tx_orphans_new_def pop_dependents_def run_simps)
  ultimately show ?thesis using m
    by (simp add: k E bindS_def [of "reconsider_orphans ?E k"] add_tx_def accept_tx_def record_admission_def run_simps bindS_def [of "accept_once ?E (Decoded sample_tx)"])
qed


lemma coin_pool:
  "\<exists>k m. pool_reachable pad_hashes m \<and> mp_entries m = [(k, coin_entry)] \<and> tx_txid pad_hashes sample_tx = Inr k
    \<and> mp_spends m (replicate 32 7 @ [1, 0, 0, 0]) = Some k \<and> mp_total_vbytes m = 64"
proof -
  obtain k where k: "tx_txid pad_hashes sample_tx = Inr k" using coin_txid by blast
  from coin_admitted [OF k] obtain m where m: "add_tx (sample_env pad_hashes) (Decoded sample_tx) False (new_mempool 1700000000) = (Inr True, m)"
    "mp_entries m = [(k, coin_entry)]" "mp_spends m (replicate 32 7 @ [1, 0, 0, 0]) = Some k" "mp_total_vbytes m = 64" by blast
  have "pool_reachable pad_hashes m"
    by (rule pool_reachable.submit [OF pool_reachable.start _ m(1)]) (simp add: sample_env_def)
  then show ?thesis using m k by blast
qed

lemma mempool_books_balance_witness:
  "\<exists>k m. pool_reachable pad_hashes m \<and> mp_entries m = [(k, coin_entry)] \<and> mp_total_vbytes m = 64 \<and> tx_size sample_tx = 64"
proof -
  obtain k m where m: "pool_reachable pad_hashes m" "mp_entries m = [(k, coin_entry)]" "mp_total_vbytes m = 64" using coin_pool by blast
  from mempool_books_balance [OF m(1)] have "tx_size sample_tx = 64" using m by (simp add: coin_entry_def)
  then show ?thesis using m by blast
qed

section \<open>The block template\<close>

definition ancestors_of :: "mempool \<Rightarrow> bytes \<Rightarrow> bytes list" where
  "ancestors_of m k = (case map_of (mp_entries m) k of None \<Rightarrow> [] | Some e \<Rightarrow> pe_ancestors e)"

definition weight_of :: "mempool \<Rightarrow> bytes \<Rightarrow> int" where
  "weight_of m k = (case map_of (mp_entries m) k of None \<Rightarrow> 0 | Some e \<Rightarrow> (case tx_wu (pe_tx e) of Inl _ \<Rightarrow> 0 | Inr w \<Rightarrow> w))"

definition total_weight :: "mempool \<Rightarrow> bytes list \<Rightarrow> int" where
  "total_weight m ks = sum_list (map (weight_of m) ks)"

definition parents_first :: "mempool \<Rightarrow> bytes list \<Rightarrow> bool" where
  "parents_first m ks \<longleftrightarrow> (\<forall>j < length ks. set (ancestors_of m (ks ! j)) \<subseteq> set (take j ks))"

lemma sort_key_earlier:
  assumes "i < length xs" "j < length xs" "f (sort_key f xs ! j) < f (sort_key f xs ! i)" shows "j < i"
proof (rule ccontr)
  assume "\<not> j < i"
  then have "map f (sort_key f xs) ! i \<le> map f (sort_key f xs) ! j"
    using assms by (intro sorted_nth_mono) auto
  then show False using assms by simp
qed

lemma reachable_facts:
  assumes "pool_reachable H m"
  shows "pool_inv H m" and "mp_limits m = DEFAULT_LIMITS" and "distinct (map fst (mp_entries m))"
  using reachable_inv [OF assms] pool_keys_txs(2) [of m] by (simp_all add: bounded_inv_def pool_inv_def books_def)

lemma parents_first_append:
  assumes "parents_first m ks" and "\<And>j. j < length ps \<Longrightarrow> set (ancestors_of m (ps ! j)) \<subseteq> set ks \<union> set (take j ps)"
  shows "parents_first m (ks @ ps)"
  unfolding parents_first_def
proof (intro allI impI)
  fix j assume j: "j < length (ks @ ps)"
  show "set (ancestors_of m ((ks @ ps) ! j)) \<subseteq> set (take j (ks @ ps))"
  proof (cases "j < length ks")
    case True
    then show ?thesis using assms(1) by (simp add: parents_first_def nth_append)
  next
    case False
    then show ?thesis using assms(2) [of "j - length ks"] j by (simp add: nth_append)
  qed
qed

lemma anc_subset:
  assumes "pool_inv H m" and "a \<in> set (ancestors_of m k)"
  shows "set (ancestors_of m a) \<subset> set (ancestors_of m k)" and "a \<in> pool_keys m" and "k \<in> pool_keys m"
    and "length (ancestors_of m a) < length (ancestors_of m k)"
proof -
  have l: "links (map_of (mp_entries m))" using assms(1) by (simp add: pool_inv_def)
  obtain e where e: "map_of (mp_entries m) k = Some e" "a \<in> set (pe_ancestors e)"
    using assms(2) by (cases "map_of (mp_entries m) k") (auto simp: ancestors_of_def)
  then obtain x where x: "map_of (mp_entries m) a = Some x" using l unfolding links_def by blast
  have "a \<notin> set (pe_ancestors x)" "set (pe_ancestors x) \<subseteq> set (pe_ancestors e)" "distinct (pe_ancestors x)" "distinct (pe_ancestors e)"
    using l e x unfolding links_def by blast+
  then show sub: "set (ancestors_of m a) \<subset> set (ancestors_of m k)" using e x by (auto simp: ancestors_of_def)
  then have "card (set (ancestors_of m a)) < card (set (ancestors_of m k))" by (intro psubset_card_mono) auto
  then show "length (ancestors_of m a) < length (ancestors_of m k)"
    using \<open>distinct (pe_ancestors x)\<close> \<open>distinct (pe_ancestors e)\<close> e x by (simp add: ancestors_of_def distinct_card)
  show "a \<in> pool_keys m" "k \<in> pool_keys m" using e x in_pool_keys [of m a] in_pool_keys [of m k] by (auto simp: in_pool_def)
qed

lemma topological_order_props:
  "set (topological_order m ks) = set ks" "distinct (topological_order m ks) = distinct ks" "length (topological_order m ks) = length ks"
  by (simp_all add: topological_order_def)

lemma topological_order_earlier:
  assumes "i < length ks" "j < length ks" "topological_order m ks ! i \<in> pool_keys m" "topological_order m ks ! j \<in> pool_keys m"
    and "length (ancestors_of m (topological_order m ks ! j)) < length (ancestors_of m (topological_order m ks ! i))"
  shows "j < i"
proof -
  let ?f = "\<lambda>txid. case map_of (mp_entries m) txid of
         None \<Rightarrow> (0, 0, txid) | Some e \<Rightarrow> (int (length (pe_ancestors e)), pe_time e, txid)"
  have "?f x < ?f y" if "x \<in> pool_keys m" "y \<in> pool_keys m" "length (ancestors_of m x) < length (ancestors_of m y)" for x y
    using that in_pool_keys [of m x] in_pool_keys [of m y] by (auto simp: in_pool_def ancestors_of_def less_prod_def)
  then show ?thesis using assms sort_key_earlier [of i ks j ?f] by (simp add: topological_order_def)
qed

lemma template_package_props:
  assumes inv: "pool_inv H m" and k: "k \<in> pool_keys m" "k \<notin> set sel"
  shows "\<exists>ps. template_package m sel k = Inr ps \<and> distinct ps \<and> set ps = insert k (set (ancestors_of m k) - set sel) \<and> set ps \<subseteq> pool_keys m
    \<and> (\<forall>j < length ps. set (ancestors_of m (ps ! j)) \<subseteq> set sel \<union> set (take j ps))"
proof -
  obtain e where e: "map_of (mp_entries m) k = Some e" using k in_pool_keys [of m k] by (auto simp: in_pool_def)
  have anc: "ancestors_of m k = pe_ancestors e" by (simp add: ancestors_of_def e)
  have d: "distinct (pe_ancestors e)" "k \<notin> set (pe_ancestors e)" using inv e unfolding pool_inv_def links_def by blast+
  let ?raw = "filter (\<lambda>a. a \<notin> set sel) (pe_ancestors e) @ [k]"
  let ?ps = "topological_order m ?raw"
  have set: "set ?ps = insert k (set (ancestors_of m k) - set sel)" unfolding topological_order_props anc by auto
  have keys: "set ?ps \<subseteq> pool_keys m" using set anc_subset(2) [OF inv] k by auto
  have "set (ancestors_of m (?ps ! j)) \<subseteq> set sel \<union> set (take j ?ps)" if j: "j < length ?ps" for j
  proof
    fix a assume a: "a \<in> set (ancestors_of m (?ps ! j))"
    have p: "?ps ! j \<in> set ?ps" using j nth_mem by blast
    then have "?ps ! j = k \<or> ?ps ! j \<in> set (ancestors_of m k)" using set by blast
    then have "a \<in> set (ancestors_of m k)"
      using a psubset_imp_subset [OF anc_subset(1) [OF inv], of "?ps ! j" k] by auto
    show "a \<in> set sel \<union> set (take j ?ps)"
    proof (cases "a \<in> set sel")
      case False
      then have "a \<in> set ?ps" using set \<open>a \<in> set (ancestors_of m k)\<close> by blast
      then obtain i where i: "i < length ?ps" "?ps ! i = a" by (auto simp: in_set_conv_nth)
      have "i < j"
      proof (rule topological_order_earlier)
        show "j < length ?raw" "i < length ?raw" using j i(1) unfolding topological_order_props(3) .
        show "?ps ! j \<in> pool_keys m" using p keys by blast
        show "?ps ! i \<in> pool_keys m" unfolding i(2) by (rule anc_subset(2) [OF inv a])
        show "length (ancestors_of m (?ps ! i)) < length (ancestors_of m (?ps ! j))" unfolding i(2) by (rule anc_subset(4) [OF inv a])
      qed
      then have "a \<in> set (take j ?ps)" using i j by (auto simp: in_set_conv_nth intro!: exI [of _ i])
      then show ?thesis by blast
    qed simp
  qed
  moreover have "distinct ?ps" using d by (simp add: topological_order_props)
  moreover have "template_package m sel k = Inr ?ps" by (simp add: template_package_def lookup_entry_def e)
  ultimately show ?thesis using set keys by blast
qed

lemma entry_weight_ok:
  assumes "pool_inv H m" and "k \<in> pool_keys m" shows "entry_weight m k = Inr (weight_of m k)" "0 \<le> weight_of m k"
proof -
  obtain e where e: "map_of (mp_entries m) k = Some e" using assms in_pool_keys [of m k] by (auto simp: in_pool_def)
  from inv_entry [OF assms(1) e] obtain w where w: "tx_wu (pe_tx e) = Inr w" by (auto simp: tx_known_def tx_vbytes_def)
  then show "entry_weight m k = Inr (weight_of m k)" by (simp add: entry_weight_def lookup_entry_def e weight_of_def)
  show "0 \<le> weight_of m k" using tx_wu_pos [OF w] w by (simp add: weight_of_def e)
qed

lemma sum_weights:
  assumes "pool_inv H m" and "set ks \<subseteq> pool_keys m" shows "sumR (entry_weight m) ks = Inr (total_weight m ks)"
  unfolding total_weight_def using assms entry_weight_ok(1) by (intro sumR_Inr) blast


lemma package_rate:
  assumes inv: "pool_inv H m" and ps: "set ps \<subseteq> pool_keys m" "ps \<noteq> []"
  shows "\<exists>r. package_feerate m ps = Inr r"
proof -
  let ?e = "\<lambda>x. the (map_of (mp_entries m) x)"
  have e: "map_of (mp_entries m) x = Some (?e x)" if "x \<in> set ps" for x
    using that ps in_pool_keys [of m x] by (auto simp: in_pool_def)
  have k: "tx_known H x (pe_tx (?e x))" if "x \<in> set ps" for x using inv_entry [OF inv e [OF that]] .
  have "sumR (get_fee m) ps = Inr (sum_list (map (\<lambda>x. pe_fee (?e x)) ps))"
  proof (rule sumR_Inr)
    fix x assume x: "x \<in> set ps"
    obtain z where z: "map_of (mp_entries m) x = Some z" using e [OF x] by blast
    then show "get_fee m x = Inr (pe_fee (?e x))" by (simp add: get_fee_def lookup_entry_def)
  qed
  moreover have "sumR (entry_vbytes m) ps = Inr (sum_list (map (\<lambda>x. tx_size (pe_tx (?e x))) ps))"
  proof (rule sumR_Inr)
    fix x assume x: "x \<in> set ps"
    obtain z where z: "map_of (mp_entries m) x = Some z" "?e x = z" using e [OF x] by auto
    then show "entry_vbytes m x = Inr (tx_size (pe_tx (?e x)))" using k [OF x] by (simp add: entry_vbytes_def lookup_entry_def tx_known_def)
  qed
  moreover have "0 < sum_list (map (\<lambda>x. tx_size (pe_tx (?e x))) ps)"
  proof -
    obtain y ys where y: "ps = y # ys" using ps by (cases ps) auto
    have "0 \<le> sum_list (map (\<lambda>x. tx_size (pe_tx (?e x))) ys)" using k tx_known_size y by (intro sum_list_nonneg) force
    then show ?thesis using k [of y] tx_known_size y by fastforce
  qed
  ultimately show ?thesis by (simp add: package_feerate_def divide_double_def)
qed

lemma template_packages_props:
  assumes inv: "pool_inv H m" and "set ks \<subseteq> pool_keys m - set sel"
  shows "\<exists>pkgs. template_packages m sel bw ks = Inr pkgs \<and> (\<forall>(r, k, ps) \<in> set pkgs. k \<in> set ks
    \<and> template_package m sel k = Inr ps \<and> bw + total_weight m ps \<le> pl_max_block_weight (mp_limits m))"
  using assms(2)
proof (induction ks)
  case (Cons k ks)
  then obtain pkgs where pkgs: "template_packages m sel bw ks = Inr pkgs" "\<forall>(r, k, ps) \<in> set pkgs. k \<in> set ks
    \<and> template_package m sel k = Inr ps \<and> bw + total_weight m ps \<le> pl_max_block_weight (mp_limits m)" by auto
  obtain ps where ps: "template_package m sel k = Inr ps" "set ps = insert k (set (ancestors_of m k) - set sel)" "set ps \<subseteq> pool_keys m"
    using template_package_props [OF inv, of k sel] Cons.prems by auto
  obtain r where "package_feerate m ps = Inr r" using package_rate [OF inv ps(3)] ps(2) by fastforce
  then show ?case using pkgs ps(1) sum_weights [OF inv ps(3)] by auto
qed simp

lemma max_by_in: "max_by f x xs \<in> set (x # xs)"
  by (induction xs arbitrary: x) (auto simp: Let_def)

lemma template_loop_props:
  assumes inv: "pool_inv H m" and "distinct sel" "set sel \<subseteq> pool_keys m" "parents_first m sel"
    and "distinct rem" "set rem \<subseteq> pool_keys m - set sel" "length rem \<le> n" "bw = total_weight m sel"
    and "bw \<le> pl_max_block_weight (mp_limits m)"
  shows "\<exists>ids. template_loop n m sel bw rem = Inr ids \<and> distinct ids \<and> set ids \<subseteq> pool_keys m \<and> parents_first m ids
    \<and> total_weight m ids \<le> pl_max_block_weight (mp_limits m)"
  using assms(2-)
proof (induction n arbitrary: sel rem bw)
  case (Suc n)
  show ?case
  proof (cases "rem = []")
    case False
    obtain pkgs where pkgs: "template_packages m sel bw rem = Inr pkgs" "\<forall>(r, k, ps) \<in> set pkgs. k \<in> set rem
      \<and> template_package m sel k = Inr ps \<and> bw + total_weight m ps \<le> pl_max_block_weight (mp_limits m)"
      using template_packages_props [OF inv Suc.prems(5)] by blast
    show ?thesis
    proof (cases pkgs)
      case Nil
      then show ?thesis using pkgs Suc.prems False by simp
    next
      case (Cons p ps)
      obtain r k best where best: "max_by (\<lambda>(rate, txid, _). (rate, txid)) p ps = (r, k, best)" by (metis prod_cases3)
      then have "(r, k, best) \<in> set pkgs" using max_by_in [of "\<lambda>(rate, txid, _). (rate, txid)" p ps] Cons by simp
      then have b: "k \<in> set rem" "template_package m sel k = Inr best" "bw + total_weight m best \<le> pl_max_block_weight (mp_limits m)"
        using pkgs(2) by blast+
      have k: "k \<in> pool_keys m" "k \<notin> set sel" using b(1) Suc.prems(5) by auto
      from template_package_props [OF inv k] b(2) have best_props: "distinct best" "set best = insert k (set (ancestors_of m k) - set sel)"
        "set best \<subseteq> pool_keys m" "\<forall>j < length best. set (ancestors_of m (best ! j)) \<subseteq> set sel \<union> set (take j best)" by auto
      have new: "filter (\<lambda>txid. txid \<notin> set sel) best = best" using best_props(2) k(2) by (auto intro: filter_True)
      have rest: "filter (\<lambda>txid. txid \<in> set best \<longrightarrow> txid \<in> set sel) rem = filter (\<lambda>txid. txid \<notin> set best) rem"
        using best_props(2) k(2) by (intro filter_cong) auto
      let ?rem = "filter (\<lambda>txid. txid \<notin> set best) rem"
      have "length ?rem < length rem" using b(1) best_props(2) by (intro length_filter_less [of k]) auto
      moreover have "parents_first m (sel @ best)" using Suc.prems(3) best_props(4) by (intro parents_first_append) auto
      ultimately have "\<exists>ids. template_loop n m (sel @ best) (bw + total_weight m best) ?rem = Inr ids \<and> distinct ids \<and> set ids \<subseteq> pool_keys m
        \<and> parents_first m ids \<and> total_weight m ids \<le> pl_max_block_weight (mp_limits m)"
        using Suc.prems best_props k(2) b(3) by (intro Suc.IH) (auto simp: total_weight_def)
      moreover have "template_loop (Suc n) m sel bw rem = template_loop n m (sel @ best) (bw + total_weight m best) ?rem"
        using pkgs(1) Cons best new rest sum_weights [OF inv best_props(3)] False by simp
      ultimately show ?thesis by simp
    qed
  qed (use Suc.prems in simp)
qed simp

text \<open>
  C12: the block template of any reachable pool is computed, names every transaction once and only those of the pool,
  weighs no more than the limit, and puts every ancestor of an entry before the entry.
\<close>

theorem block_template_valid:
  assumes "pool_reachable H m"
  shows "\<exists>ids. template_txids m = Inr ids \<and> distinct ids \<and> set ids \<subseteq> pool_keys m \<and> total_weight m ids \<le> 4000000
    \<and> parents_first m ids \<and> get_block_template m = Inr (map (\<lambda>k. pe_tx (the (map_of (mp_entries m) k))) ids)"
proof -
  note inv = reachable_facts(1) [OF assms] and lim = reachable_facts(2) [OF assms] and d = reachable_facts(3) [OF assms]
  have "\<exists>ids. template_loop (length (mp_entries m)) m [] 0 (map fst (mp_entries m)) = Inr ids \<and> distinct ids \<and> set ids \<subseteq> pool_keys m
    \<and> parents_first m ids \<and> total_weight m ids \<le> pl_max_block_weight (mp_limits m)"
    using d by (intro template_loop_props [OF inv]) (auto simp: parents_first_def total_weight_def lim DEFAULT_LIMITS_def pool_keys_def)
  then obtain ids where ids: "template_txids m = Inr ids" "distinct ids" "set ids \<subseteq> pool_keys m" "parents_first m ids"
    "total_weight m ids \<le> 4000000" by (auto simp: template_txids_def lim DEFAULT_LIMITS_def)
  have "mapR (lookup_entry m) ids = Inr (map (\<lambda>k. the (map_of (mp_entries m) k)) ids)"
  proof (rule mapR_ok)
    fix k assume "k \<in> set ids"
    then show "lookup_entry m k = Inr (the (map_of (mp_entries m) k))"
      using ids(3) in_pool_keys [of m k] by (auto simp: lookup_entry_def in_pool_def)
  qed
  then show ?thesis using ids by (intro exI [of _ ids]) (simp add: get_block_template_def)
qed


lemma block_template_valid_witness:
  "\<exists>k m. pool_reachable pad_hashes m \<and> mp_entries m = [(k, coin_entry)] \<and> get_block_template m = Inr [sample_tx]"
proof -
  obtain k m where m: "pool_reachable pad_hashes m" "mp_entries m = [(k, coin_entry)]" using coin_pool by blast
  from block_template_valid [OF m(1)] obtain ids where ids: "template_txids m = Inr ids" "distinct ids" "set ids \<subseteq> {k}"
    "get_block_template m = Inr (map (\<lambda>k. pe_tx (the (map_of (mp_entries m) k))) ids)" using m(2) by (auto simp: pool_keys_def)
  have "mp_limits m = DEFAULT_LIMITS" using reachable_inv [OF m(1)] by (simp add: bounded_inv_def)
  then have "template_txids m = Inr [k]"
    using m(2) coin_wu coin_vbytes by (simp add: template_txids_def template_package_def lookup_entry_def coin_entry_def entry_weight_def
      topological_order_def package_feerate_def get_fee_def entry_vbytes_def divide_double_def DEFAULT_LIMITS_def)
  then show ?thesis using ids m by (intro exI [of _ k] exI [of _ m]) (simp add: coin_entry_def)
qed

lemma total_weight_subset:
  assumes "pool_inv H m" "distinct xs" "distinct ys" "set xs \<subseteq> set ys" "set ys \<subseteq> pool_keys m"
  shows "total_weight m xs \<le> total_weight m ys"
proof -
  have "total_weight m xs = sum (weight_of m) (set xs)" "total_weight m ys = sum (weight_of m) (set ys)"
    using assms by (simp_all add: total_weight_def sum_list_distinct_conv_sum_set)
  moreover have "sum (weight_of m) (set xs) \<le> sum (weight_of m) (set ys)"
    using assms entry_weight_ok(2) [OF assms(1)] by (intro sum_mono2) auto
  ultimately show ?thesis by simp
qed

text \<open>While everything fits, every round finds a package.\<close>

lemma template_packages_all:
  assumes inv: "pool_inv H m" and "set ks \<subseteq> pool_keys m - set sel"
    and fits: "bw + total_weight m rem \<le> pl_max_block_weight (mp_limits m)" "distinct rem" "set rem = pool_keys m - set sel"
    and pkgs: "template_packages m sel bw ks = Inr pkgs"
  shows "length pkgs = length ks"
  using assms(2) pkgs
proof (induction ks arbitrary: pkgs)
  case (Cons k ks)
  obtain ps where ps: "template_package m sel k = Inr ps" "distinct ps" "set ps = insert k (set (ancestors_of m k) - set sel)" "set ps \<subseteq> pool_keys m"
    using template_package_props [OF inv, of k sel] Cons.prems by auto
  have "set ps \<subseteq> set rem" using ps(3,4) Cons.prems(1) fits(3) by auto
  then have "total_weight m ps \<le> total_weight m rem" using ps(2) fits by (intro total_weight_subset [OF inv]) auto
  then show ?case using Cons ps(1) sum_weights [OF inv ps(4)] fits(1) by (auto simp: result_iff)
qed simp

lemma template_loop_all:
  assumes inv: "pool_inv H m" and "distinct sel" "set sel \<subseteq> pool_keys m"
    and "distinct rem" "set rem = pool_keys m - set sel" "length rem \<le> n"
    and "bw + total_weight m rem \<le> pl_max_block_weight (mp_limits m)"
    and "template_loop n m sel bw rem = Inr ids"
  shows "set ids = pool_keys m"
  using assms(2-)
proof (induction n arbitrary: sel rem bw)
  case (Suc n)
  show ?case
  proof (cases "rem = []")
    case False
    have sub: "set rem \<subseteq> pool_keys m - set sel" using Suc.prems(4) by simp
    obtain pkgs where pkgs: "template_packages m sel bw rem = Inr pkgs" "\<forall>(r, k, ps) \<in> set pkgs. k \<in> set rem
      \<and> template_package m sel k = Inr ps \<and> bw + total_weight m ps \<le> pl_max_block_weight (mp_limits m)"
      using template_packages_props [OF inv sub] by blast
    have "length pkgs = length rem" using template_packages_all [OF inv sub Suc.prems(6,3,4) pkgs(1)] .
    then obtain p ps where Cons: "pkgs = p # ps" using False by (cases pkgs) auto
    obtain r k best where best: "max_by (\<lambda>(rate, txid, _). (rate, txid)) p ps = (r, k, best)" by (metis prod_cases3)
    then have "(r, k, best) \<in> set pkgs" using max_by_in [of "\<lambda>(rate, txid, _). (rate, txid)" p ps] Cons by simp
    then have b: "k \<in> set rem" "template_package m sel k = Inr best" using pkgs(2) by blast+
    have k: "k \<in> pool_keys m" "k \<notin> set sel" using b(1) sub by auto
    from template_package_props [OF inv k] b(2) have best_props: "distinct best" "set best = insert k (set (ancestors_of m k) - set sel)"
      "set best \<subseteq> pool_keys m" by auto
    have new: "filter (\<lambda>txid. txid \<notin> set sel) best = best" using best_props(2) k(2) by (auto intro: filter_True)
    have rest: "filter (\<lambda>txid. txid \<in> set best \<longrightarrow> txid \<in> set sel) rem = filter (\<lambda>txid. txid \<notin> set best) rem"
      using best_props(2) k(2) by (intro filter_cong) auto
    let ?rem = "filter (\<lambda>txid. txid \<notin> set best) rem"
    have w: "total_weight m best + total_weight m ?rem = total_weight m rem"
    proof -
      have "set rem = set best \<union> set ?rem" "set best \<inter> set ?rem = {}" using best_props(2,3) k(2) Suc.prems(4) by auto
      then have "sum (weight_of m) (set rem) = sum (weight_of m) (set best) + sum (weight_of m) (set ?rem)"
        using sum.union_disjoint [of "set best" "set ?rem" "weight_of m"] by (metis List.finite_set)
      then show ?thesis using best_props(1) Suc.prems(3) by (simp add: total_weight_def sum_list_distinct_conv_sum_set)
    qed
    have "length ?rem < length rem" using b(1) best_props(2) by (intro length_filter_less [of k]) auto
    moreover have "template_loop n m (sel @ best) (bw + total_weight m best) ?rem = Inr ids"
      using Suc.prems(7) pkgs(1) Cons best new rest sum_weights [OF inv best_props(3)] False by simp
    ultimately show ?thesis
      using Suc.prems best_props k(2) w by (intro Suc.IH [of "sel @ best" ?rem "bw + total_weight m best"]) auto
  qed (use Suc.prems in simp)
qed (use assms in auto)

text \<open>
  C30: when the transactions of a reachable pool fit into a block together, the template takes every one of them.
\<close>

theorem template_takes_all:
  assumes "pool_reachable H m" and "total_weight m (map fst (mp_entries m)) \<le> 4000000"
  shows "\<exists>ids. template_txids m = Inr ids \<and> distinct ids \<and> set ids = set (map fst (mp_entries m))"
proof -
  note inv = reachable_facts(1) [OF assms(1)] and lim = reachable_facts(2) [OF assms(1)] and d = reachable_facts(3) [OF assms(1)]
  have keys: "pool_keys m = set (map fst (mp_entries m))" by (simp add: pool_keys_def)
  have "\<exists>ids. template_loop (length (mp_entries m)) m [] 0 (map fst (mp_entries m)) = Inr ids \<and> distinct ids \<and> set ids \<subseteq> pool_keys m
    \<and> parents_first m ids \<and> total_weight m ids \<le> pl_max_block_weight (mp_limits m)"
    using d by (intro template_loop_props [OF inv]) (auto simp: parents_first_def total_weight_def lim DEFAULT_LIMITS_def pool_keys_def)
  then obtain ids where ids: "template_txids m = Inr ids" "distinct ids" by (auto simp: template_txids_def)
  have "set ids = pool_keys m"
    using template_loop_all [OF inv, of "[]" "map fst (mp_entries m)" "length (mp_entries m)" 0 ids] d assms(2) ids(1)
    by (simp add: keys template_txids_def lim DEFAULT_LIMITS_def)
  then show ?thesis using ids keys by auto
qed

lemma template_takes_all_witness:
  "\<exists>k m. pool_reachable pad_hashes m \<and> mp_entries m = [(k, coin_entry)] \<and> template_txids m = Inr [k]"
proof -
  obtain k m where m: "pool_reachable pad_hashes m" "mp_entries m = [(k, coin_entry)]" using coin_pool by blast
  have "total_weight m (map fst (mp_entries m)) \<le> 4000000" using m(2) coin_wu by (simp add: total_weight_def weight_of_def coin_entry_def)
  from template_takes_all [OF m(1) this] obtain ids where "template_txids m = Inr ids" "distinct ids" "set ids = {k}" using m(2) by auto
  moreover have "length ids = card {k}" using calculation(2,3) distinct_card by fastforce
  then have "ids = [k]" using calculation(3) by (cases ids) auto
  ultimately show ?thesis using m by blast
qed

section \<open>The consensus check of the pool\<close>

lemma validate_inputs_plain:
  assumes "v_coinbase_maturity ctx = None" "\<not> v_check_relative_locktime ctx" "length txins + i = length (l_utxos l)"
  shows "validate_inputs l ctx i txins local None = Inr (True, None)
    \<longleftrightarrow> (\<exists>os. mapR txin_outpoint txins = Inr os \<and> distinct os \<and> set os \<inter> local = {})"
  using assms(3)
proof (induction txins arbitrary: i local)
  case (Cons t ts)
  have u: "utxo_for_input l i = Inr (l_utxos l ! i)" using Cons.prems by (simp add: utxo_for_input_def index_at_def)
  show ?case
  proof (cases "txin_outpoint t")
    case (Inr op)
    have "validate_inputs l ctx i (t # ts) local None = Inr (True, None)
        \<longleftrightarrow> op \<notin> local \<and> validate_inputs l ctx (Suc i) ts (insert op local) None = Inr (True, None)"
      using u Inr assms(1,2) by (auto simp: coinbase_immature_def)
    also have "\<dots> \<longleftrightarrow> op \<notin> local \<and> (\<exists>os. mapR txin_outpoint ts = Inr os \<and> distinct os \<and> set os \<inter> insert op local = {})"
      using Cons.IH [of "Suc i" "insert op local"] Cons.prems by simp
    also have "\<dots> \<longleftrightarrow> (\<exists>os. mapR txin_outpoint (t # ts) = Inr os \<and> distinct os \<and> set os \<inter> local = {})"
      by (cases "mapR txin_outpoint ts") (auto simp: Inr)
    finally show ?thesis .
  qed (simp add: u)
qed simp


lemma pool_context_fields:
  "v_coinbase_maturity (pool_context E f) = None" "\<not> v_check_relative_locktime (pool_context E f)"
  "\<not> v_check_locktime (pool_context E f)" "v_validate_scripts (pool_context E f)"
  "v_script_validator (pool_context E f) = Some (\<lambda>l. validate_tx_scripts (pv_hashes E) (pv_der E) l f)"
  by (simp_all add: pool_context_def default_validation_context_def)

lemma pool_context_check:
  assumes n: "length us = length (t_inputs t)"
  shows "(\<exists>s. validate_loaded_tx (pv_hashes E) (pv_der E) \<lparr>l_tx = t, l_utxos = us\<rparr> (pool_context E f) None = Inr (True, s))
      \<longleftrightarrow> validate_tx_structure \<lparr>l_tx = t, l_utxos = us\<rparr> \<and> tx_is_coinbase t = Inr False
        \<and> (\<exists>fee. tx_fee (pv_hashes E) \<lparr>l_tx = t, l_utxos = us\<rparr> = Inr fee)
        \<and> (\<exists>os. mapR txin_outpoint (t_inputs t) = Inr os \<and> distinct os)
        \<and> validate_tx_scripts (pv_hashes E) (pv_der E) \<lparr>l_tx = t, l_utxos = us\<rparr> f = Inr True" (is "?v \<longleftrightarrow> ?w")
proof -
  let ?l = "\<lparr>l_tx = t, l_utxos = us\<rparr>"
  note c = pool_context_fields [of E f]
  show ?thesis
  proof
    assume ?v
    then obtain s where s: "validate_loaded_tx (pv_hashes E) (pv_der E) ?l (pool_context E f) None = Inr (True, s)" by blast
    note steps = validate_loaded_tx_steps [OF s]
    then show ?w using validate_inputs_sound [of ?l "pool_context E f" 0 "t_inputs t"] c by fastforce
  next
    assume w: ?w
    then have "validate_inputs ?l (pool_context E f) 0 (t_inputs t) {} None = Inr (True, None)"
      using validate_inputs_plain [where txins = "t_inputs t" and i = 0 and l = ?l and local = "{}", OF c(1,2)] n by simp
    then show ?v using w c by (auto simp: validate_loaded_tx_def)
  qed
qed

text \<open>
  what the consensus check of the pool asks, exactly: the outputs belong to the inputs, the structure, no
  coinbase, no input twice, a fee, the scripts under the flags of the next height. It gives the shared validation no
  height and no maturity, so neither the age of a spent coinbase output nor a lock time plays a part.
\<close>

theorem pool_check_ignores_maturity:
  "pool_validate_tx E t us = Inr True \<longleftrightarrow>
     (\<exists>f fee os. load_tx t (Some us) = Inr \<lparr>l_tx = t, l_utxos = us\<rparr> \<and> next_block_flags consensus_script_flags E = Inr f
        \<and> validate_tx_structure \<lparr>l_tx = t, l_utxos = us\<rparr> \<and> tx_is_coinbase t = Inr False
        \<and> tx_fee (pv_hashes E) \<lparr>l_tx = t, l_utxos = us\<rparr> = Inr fee \<and> mapR txin_outpoint (t_inputs t) = Inr os \<and> distinct os
        \<and> validate_tx_scripts (pv_hashes E) (pv_der E) \<lparr>l_tx = t, l_utxos = us\<rparr> f = Inr True)"
    (is "?check \<longleftrightarrow> ?facts")
proof -
  let ?l = "\<lparr>l_tx = t, l_utxos = us\<rparr>"
  have load: "load_tx t (Some us) = Inr l \<Longrightarrow> l = ?l \<and> length us = length (t_inputs t)" for l
    by (auto simp: load_tx_def split: if_split_asm)
  have no_reject: "reject_tx (pv_hashes E) t \<noteq> Inr True" by (cases "tx_txid (pv_hashes E) t") (simp_all add: reject_tx_def)
  note valid = pool_context_check
  show ?thesis
  proof
    assume check: ?check
    then obtain l where "load_tx t (Some us) = Inr l"
      by (cases "load_tx t (Some us)") (auto simp: pool_validate_tx_def split: if_split_asm)
    then have l: "load_tx t (Some us) = Inr ?l" "length us = length (t_inputs t)" using load by auto
    have "bindR (next_block_flags consensus_script_flags E) (\<lambda>flags.
        bindR (validate_loaded_tx (pv_hashes E) (pv_der E) ?l (pool_context E flags) None) (\<lambda>(ok, _). Inr ok)) = Inr True"
      (is "?b = _") using check no_reject by (cases ?b) (simp_all add: pool_validate_tx_def l(1) split: if_split_asm)
    then obtain f s where "next_block_flags consensus_script_flags E = Inr f"
      "validate_loaded_tx (pv_hashes E) (pv_der E) ?l (pool_context E f) None = Inr (True, s)" by (auto simp: result_iff)
    then show ?facts using valid [OF l(2), of E f] l(1) by blast
  next
    assume ?facts
    then obtain f where f: "load_tx t (Some us) = Inr ?l" "next_block_flags consensus_script_flags E = Inr f"
      "\<exists>s. validate_loaded_tx (pv_hashes E) (pv_der E) ?l (pool_context E f) None = Inr (True, s)"
      using valid load [of ?l] by blast
    then show ?check by (auto simp: pool_validate_tx_def)
  qed
qed

section \<open>Admission\<close>

lemma collect_ancestors_set: "set ev = set ev' \<Longrightarrow> collect_ancestors m ev as is = collect_ancestors m ev' as is"
  by (induction "is" arbitrary: as) (simp_all cong: option.case_cong if_cong)

lemma get_ancestors_cong:
  "mp_entries m = mp_entries m' \<Longrightarrow> set ev = set ev' \<Longrightarrow> get_ancestors m t ev = get_ancestors m' t ev'"
proof -
  assume a: "mp_entries m = mp_entries m'" "set ev = set ev'"
  have "collect_ancestors m ev as is = collect_ancestors m' ev as is" for as "is"
    using a(1) by (induction "is" arbitrary: as) (simp_all cong: option.case_cong if_cong)
  then show ?thesis using collect_ancestors_set [OF a(2)] a(1) by (simp add: get_ancestors_def topological_order_def)
qed

lemma take_in_accepts:
  assumes "take_in E k t fee as ev m = (Inr r, m')" "ar_accepted r"
  shows "in_pool m' k \<and> ar_replaced r = sort ev"
  using assms unfolding take_in_def
  by (auto simp: run_simps rejected_def in_pool_def bindS_Inr_iff split: if_split_asm sum.split_asm)


lemma min_feerate_spec:
  assumes "get_min_relay_feerate E m = (r, m1)"
  shows "\<exists>minimum. r = Inr minimum \<and> of_int (pl_min_fee (mp_limits m)) \<le> minimum \<and> mp_entries m1 = mp_entries m
    \<and> mp_limits m1 = mp_limits m"
  using assms by (auto simp: get_min_relay_feerate_def Let_def split: if_split_asm)

lemma admit_loaded_accepts:
  assumes "admit_loaded E t k dc l fee m = (Inr r, m')" "ar_accepted r"
  shows "pool_validate_tx E t (l_utxos l) = Inr True \<and> check_standardness E l = Inr True \<and> in_pool m' k
    \<and> (\<exists>minimum v. of_int (pl_min_fee (mp_limits m)) \<le> minimum \<and> tx_vbytes t = Inr v \<and> \<lceil>round_double (minimum * of_int v)\<rceil> \<le> fee)
    \<and> int (length (get_ancestors m t (ar_replaced r))) < pl_max_ancestor_count (mp_limits m)"
proof -
  have rej: "\<not> ar_accepted (rejected c xs)" for c xs by (simp add: rejected_def)
  have valid: "pool_validate_tx E t (l_utxos l) = Inr True" "check_standardness E l = Inr True"
    using assms rej unfolding admit_loaded_def by (auto simp: run_simps split: sum.split_asm if_split_asm)
  obtain minimum m1 where min: "get_min_relay_feerate E m = (Inr minimum, m1)" "of_int (pl_min_fee (mp_limits m)) \<le> minimum"
    "mp_entries m1 = mp_entries m" "mp_limits m1 = mp_limits m" using min_feerate_spec [of E m] by (cases "get_min_relay_feerate E m") auto
  have get: "bindS (get_min_relay_feerate E) f m = f minimum m1" for f :: "rat \<Rightarrow> (mempool, admission_result) action"
    by (simp add: bindS_def min(1))
  have "\<exists>ev v. tx_vbytes t = Inr v \<and> \<lceil>round_double (minimum * of_int v)\<rceil> \<le> fee
     \<and> check_package_limits m1 t (get_ancestors m1 t ev) ev = Inr True \<and> take_in E k t fee (get_ancestors m1 t ev) ev m1 = (Inr r, m')"
    using assms rej unfolding admit_loaded_def by (auto simp: run_simps get valid split: sum.split_asm if_split_asm prod.split_asm)
  then obtain ev v where ev: "tx_vbytes t = Inr v" "\<lceil>round_double (minimum * of_int v)\<rceil> \<le> fee"
    "check_package_limits m1 t (get_ancestors m1 t ev) ev = Inr True" "take_in E k t fee (get_ancestors m1 t ev) ev m1 = (Inr r, m')" by blast
  have "get_ancestors m1 t ev = get_ancestors m t (ar_replaced r)"
    using take_in_accepts [OF ev(4) assms(2)] min(3) by (intro get_ancestors_cong) auto
  then show ?thesis using valid ev min(2,4) take_in_accepts [OF ev(4) assms(2)]
    by (auto simp: check_package_limits_def result_iff split: if_split_asm)
qed

text \<open>
  C13: a transaction the pool accepts is new to it and no coinbase; its inputs were resolved in the pool or the
  chain, it passed the consensus check and the standardness rules, pays the rounded relay fee, has room for its
  ancestors, and is in the pool at the end.
\<close>

theorem pool_admission_sound:
  assumes "accept_decoded E t m = (Inr r, m')" and "ar_accepted r"
  shows "\<exists>txid us minimum v. tx_txid (pv_hashes E) t = Inr txid \<and> \<not> in_pool m txid \<and> in_pool m' txid \<and> tx_is_coinbase t = Inr False
    \<and> pool_get_utxos E m (t_inputs t) = Inr (Some us) \<and> pool_validate_tx E t us = Inr True
    \<and> check_standardness E \<lparr>l_tx = t, l_utxos = us\<rparr> = Inr True
    \<and> tx_vbytes t = Inr v \<and> of_int (pl_min_fee (mp_limits m)) \<le> minimum
    \<and> \<lceil>round_double (minimum * of_int v)\<rceil> \<le> sum_list (map u_amount us) - sum_list (map out_amount (t_outputs t))
    \<and> int (length (get_ancestors m t (ar_replaced r))) < pl_max_ancestor_count (mp_limits m)"
proof -
  have rej: "\<not> ar_accepted (rejected c xs)" for c xs by (simp add: rejected_def)
  have orphan: "bindS (store_orphan E t) (\<lambda>_. returnS (rejected ORPHAN [])) m \<noteq> (Inr r, m')"
    using assms(2) rej by (auto simp: bindS_Inr_iff run_simps)
  have pre: "precheck_tx (pv_hashes E) m t = Inr None"
    using assms rej unfolding accept_decoded_def by (auto simp: run_simps split: sum.split_asm option.split_asm)
  obtain k where k: "tx_txid (pv_hashes E) t = Inr k" "\<not> in_pool m k" "tx_is_coinbase t = Inr False"
    using pre by (auto simp: precheck_tx_def result_iff split: if_split_asm)
  obtain dc us l fee where us: "pool_get_utxos E m (t_inputs t) = Inr (Some us)" "load_tx t (Some us) = Inr l"
    "tx_fee (pv_hashes E) l = Inr fee" "admit_loaded E t k dc l fee m = (Inr r, m')"
    using assms rej orphan unfolding accept_decoded_def
    by (auto simp: run_simps pre k result_iff split: sum.split_asm option.split_asm if_split_asm)
  have l: "l = \<lparr>l_tx = t, l_utxos = us\<rparr>" using us(2) by (auto simp: load_tx_def split: if_split_asm)
  have "fee = sum_list (map u_amount us) - sum_list (map out_amount (t_outputs t))"
    using us(3) by (auto simp: l tx_fee_def input_total_def output_total_def Let_def split: if_split_asm)
  then show ?thesis using admit_loaded_accepts [OF us(4) assms(2)] us(1) k l by auto
qed


lemma pool_admission_sound_witness:
  "\<exists>k us. tx_txid pad_hashes sample_tx = Inr k \<and> pool_get_utxos (sample_env pad_hashes) (new_mempool 1700000000) (t_inputs sample_tx) = Inr (Some us)
    \<and> pool_validate_tx (sample_env pad_hashes) sample_tx us = Inr True"
proof -
  obtain k where k: "tx_txid pad_hashes sample_tx = Inr k" using coin_txid by blast
  obtain m where "accept_decoded (sample_env pad_hashes) sample_tx (new_mempool 1700000000) =
    (Inr \<lparr>ar_accepted = True, ar_category = ACCEPTED, ar_replaced = []\<rparr>, m)" using coin_decoded [OF k] by blast
  from pool_admission_sound [OF this] show ?thesis using k by auto
qed

text \<open>
  C33: an expired parent with an expired child makes the eviction of expired entries raise: the child leaves with its
  parent, and its own turn finds no entry. The entries are gone, the orphans are not looked at.
\<close>

theorem expired_child_raises:
  assumes m: "mp_entries m = [(p, e), (c, x)]" "p \<noteq> c"
    and e: "pe_ancestors e = []" "pe_descendants e = [c]" "tx_vbytes (pe_tx e) = Inr v" "mapR txin_outpoint (t_inputs (pe_tx e)) = Inr os" "pv_now E - pe_time e > pl_max_time (mp_limits m)"
    and x: "pe_ancestors x = [p]" "pe_descendants x = []" "tx_vbytes (pe_tx x) = Inr w" "mapR txin_outpoint (t_inputs (pe_tx x)) = Inr qs" "pv_now E - pe_time x > pl_max_time (mp_limits m)"
  shows "\<exists>m'. evict_expired E m = (Inl KeyError, m') \<and> mp_entries m' = [] \<and> mp_orphans m' = mp_orphans m"
proof -
  have "map fst (filter (\<lambda>(_, e). pv_now E - pe_time e > pl_max_time (mp_limits m)) (mp_entries m)) = [p, c]"
    using m e x by simp
  then show ?thesis using m e x
    by (auto simp: evict_expired_def run_simps remove_pool_tx_def lookup_entry_def drop_entry_def in_pool_def remove_metadata_def
        unlink_descendant_def unlink_ancestor_def bindS_def updateS_def queryS_def readS_def returnS_def)
qed


abbreviation old_parent :: pool_entry where
  "old_parent \<equiv> \<lparr>pe_tx = sample_tx, pe_fee = 1000, pe_ancestors = [], pe_descendants = [[2]], pe_time = 0\<rparr>"

abbreviation old_child :: pool_entry where
  "old_child \<equiv> \<lparr>pe_tx = sample_tx, pe_fee = 1000, pe_ancestors = [[1]], pe_descendants = [], pe_time = 0\<rparr>"

definition old_pool :: mempool where
  "old_pool = (new_mempool 0)\<lparr>mp_entries := [([1], old_parent), ([2], old_child)]\<rparr>"

lemma expired_child_raises_witness: "\<exists>m'. evict_expired (sample_env pad_hashes) old_pool = (Inl KeyError, m') \<and> mp_entries m' = []"
proof -
  let ?os = "[replicate 32 7 @ [1, 0, 0, 0 :: byte]]"
  have "mapR txin_outpoint (t_inputs sample_tx) = Inr ?os" using coin_outpoint by (simp add: coin_inputs)
  then have "\<exists>m'. evict_expired (sample_env pad_hashes) old_pool = (Inl KeyError, m') \<and> mp_entries m' = [] \<and> mp_orphans m' = mp_orphans old_pool"
    using coin_vbytes expired_child_raises [of old_pool "[1]" old_parent "[2]" old_child 64 ?os "sample_env pad_hashes" 64 ?os]
    by (simp add: old_pool_def new_mempool_def DEFAULT_LIMITS_def sample_env_def)
  then show ?thesis by blast
qed

end
