(* ===== verification/Network_Data.thy ===== *)
theory Network_Data
  imports Blocks Encoding Bech32
begin

text \<open>
  \<^verbatim>\<open>src/src/network/datatypes/network_types.py\<close>, \<^verbatim>\<open>network_data.py\<close> and the IP field of \<^verbatim>\<open>src/src/data/ip_utils.py\<close>: the
  data structures inside network messages. The \<^verbatim>\<open>IntFlag\<close> classes keep unknown bits, so their members are plain
  numbers. SipHash comes from a third-party package and is a parameter. Methods for display are left out.
\<close>

section \<open>Text as bytes\<close>

text \<open>\<^verbatim>\<open>UnicodeEncodeError\<close> and \<^verbatim>\<open>UnicodeDecodeError\<close> are subclasses of \<^verbatim>\<open>ValueError\<close>.\<close>

definition encode_ascii :: "string \<Rightarrow> bytes result" where
  "encode_ascii s = (if list_all (\<lambda>c. (of_char c :: nat) < 128) s then Inr (ascii_bytes s) else Inl ValueError)"

definition decode_ascii :: "bytes \<Rightarrow> string result" where
  "decode_ascii bs = (if list_all (\<lambda>b. unat b < 128) bs then Inr (map (\<lambda>b. char_of (unat b)) bs) else Inl ValueError)"

section \<open>IP addresses\<close>

datatype ip_addr = IPv4 bytes | IPv6 bytes

definition V4_PREFIX :: bytes where "V4_PREFIX = replicate 10 0 @ replicate 2 0xff"

definition ip_from_netaddr :: "bytes \<Rightarrow> ip_addr result" where
  "ip_from_netaddr raw16 =
     (if length raw16 \<noteq> 16 then Inl ValueError
      else if take 12 raw16 = V4_PREFIX then Inr (IPv4 (drop 12 raw16))
      else Inr (IPv6 raw16))"

definition netaddr_bytes :: "ip_addr \<Rightarrow> bytes" where
  "netaddr_bytes ip = (case ip of IPv4 packed \<Rightarrow> V4_PREFIX @ packed | IPv6 packed \<Rightarrow> packed)"

text \<open>What the classes of \<^verbatim>\<open>ipaddress\<close> can hold; a mapped address in the long form reads back in the short one.\<close>

definition ip_wf :: "ip_addr \<Rightarrow> bool" where
  "ip_wf ip = (case ip of IPv4 packed \<Rightarrow> length packed = 4
     | IPv6 packed \<Rightarrow> length packed = 16 \<and> take 12 packed \<noteq> V4_PREFIX)"

section \<open>Network addresses\<close>

record net_addr =
  na_ip :: ip_addr
  na_port :: int
  na_services :: int
  na_time :: int

definition read_net_fields :: "bytes \<Rightarrow> ((int \<times> ip_addr \<times> int) \<times> bytes) result" where
  "read_net_fields stream =
     bindR (read_little_int 8 stream) (\<lambda>(services, s1).
     bindR (read_stream 16 s1) (\<lambda>(raw, s2).
     bindR (ip_from_netaddr raw) (\<lambda>ip.
     bindR (read_big_int 2 s2) (\<lambda>(port, s3). Inr ((services, ip, port), s3)))))"

definition net_addr_from_bytes :: "bytes \<Rightarrow> (net_addr \<times> bytes) result" where
  "net_addr_from_bytes stream =
     bindR (read_little_int 4 stream) (\<lambda>(timestamp, s1).
     bindR (read_net_fields s1) (\<lambda>((services, ip, port), s2).
       Inr (\<lparr>na_ip = ip, na_port = port, na_services = services, na_time = timestamp\<rparr>, s2)))"

text \<open>Without a timestamp the constructor takes the current time.\<close>

definition net_addr_from_version_bytes :: "int \<Rightarrow> bytes \<Rightarrow> (net_addr \<times> bytes) result" where
  "net_addr_from_version_bytes now stream =
     bindR (read_net_fields stream) (\<lambda>((services, ip, port), s1).
       Inr (\<lparr>na_ip = ip, na_port = port, na_services = services, na_time = now\<rparr>, s1))"

definition net_addr_to_version_bytes :: "net_addr \<Rightarrow> bytes result" where
  "net_addr_to_version_bytes a =
     joinR [to_bytes_le 8 (na_services a), Inr (netaddr_bytes (na_ip a)), to_bytes_be 2 (na_port a)]"

definition net_addr_to_bytes :: "net_addr \<Rightarrow> bytes result" where
  "net_addr_to_bytes a = joinR [to_bytes_le 4 (na_time a), net_addr_to_version_bytes a]"

section \<open>Inventory vectors\<close>

definition MSG_TX :: int where "MSG_TX = 0x01"
definition MSG_BLOCK :: int where "MSG_BLOCK = 0x02"
definition MSG_FILTERED_BLOCK :: int where "MSG_FILTERED_BLOCK = 0x03"
definition MSG_CMPCT_BLOCK :: int where "MSG_CMPCT_BLOCK = 0x04"
definition MSG_WITNESS_TX :: int where "MSG_WITNESS_TX = 0x40000001"
definition MSG_WITNESS_BLOCK :: int where "MSG_WITNESS_BLOCK = 0x40000002"
definition MSG_FILTERED_WITNESS_BLOCK :: int where "MSG_FILTERED_WITNESS_BLOCK = 0x40000003"

definition INV_TYPES :: "int list" where
  "INV_TYPES = [0, MSG_TX, MSG_BLOCK, MSG_FILTERED_BLOCK, MSG_CMPCT_BLOCK, MSG_WITNESS_TX, MSG_WITNESS_BLOCK,
     MSG_FILTERED_WITNESS_BLOCK]"

record inv_vector =
  iv_type :: int
  iv_hash :: bytes

definition inv_vector_new :: "int \<Rightarrow> bytes \<Rightarrow> inv_vector result" where
  "inv_vector_new inv_type obj_hash =
     (if length obj_hash \<noteq> 32 then Inl NetworkDataError
      else if inv_type \<notin> set INV_TYPES then Inl NetworkDataError
      else Inr \<lparr>iv_type = inv_type, iv_hash = obj_hash\<rparr>)"

definition inv_vector_from_bytes :: "bytes \<Rightarrow> (inv_vector \<times> bytes) result" where
  "inv_vector_from_bytes stream =
     bindR (read_little_int 4 stream) (\<lambda>(int_type, s1).
     bindR (read_stream 32 s1) (\<lambda>(obj_hash, s2).
     bindR (inv_vector_new int_type obj_hash) (\<lambda>v. Inr (v, s2))))"

definition inv_vector_to_bytes :: "inv_vector \<Rightarrow> bytes result" where
  "inv_vector_to_bytes v = joinR [to_bytes_le 4 (iv_type v), Inr (iv_hash v)]"

section \<open>Compact blocks\<close>

record prefilled_tx =
  pf_index :: int
  pf_tx :: tx

definition prefilled_from_bytes :: "int \<Rightarrow> bytes \<Rightarrow> (prefilled_tx \<times> bytes) result" where
  "prefilled_from_bytes prev_ind stream =
     bindR (read_compact_size stream) (\<lambda>(diff_ind, s1).
     bindR (tx_from_bytes s1) (\<lambda>(t, s2).
       Inr (\<lparr>pf_index = prev_ind + diff_ind + 1, pf_tx = t\<rparr>, s2)))"

definition prefilled_to_bytes :: "int \<Rightarrow> prefilled_tx \<Rightarrow> bytes result" where
  "prefilled_to_bytes prev_ind p =
     (if pf_index p < prev_ind then Inl NetworkDataError
      else if pf_index p = prev_ind then Inl NetworkDataError
      else joinR [write_compact_size (pf_index p - prev_ind - 1), tx_to_bytes (pf_tx p)])"

text \<open>The loops that carry the previous index.\<close>

fun read_prefilled :: "int \<Rightarrow> nat \<Rightarrow> bytes \<Rightarrow> (prefilled_tx list \<times> bytes) result" where
  "read_prefilled prev_ind 0 stream = Inr ([], stream)"
| "read_prefilled prev_ind (Suc n) stream =
     bindR (prefilled_from_bytes prev_ind stream) (\<lambda>(p, s1).
     bindR (read_prefilled (pf_index p) n s1) (\<lambda>(ps, s2). Inr (p # ps, s2)))"

fun write_prefilled :: "int \<Rightarrow> prefilled_tx list \<Rightarrow> bytes result" where
  "write_prefilled prev_ind [] = Inr []"
| "write_prefilled prev_ind (p # ps) =
     bindR (prefilled_to_bytes prev_ind p) (\<lambda>b. bindR (write_prefilled (pf_index p) ps) (\<lambda>bs. Inr (b @ bs)))"

type_synonym siphash = "bytes \<Rightarrow> bytes \<Rightarrow> int"

definition validate_shortid :: "bytes \<Rightarrow> int \<Rightarrow> bytes \<Rightarrow> bool" where
  "validate_shortid block_header nonce txid \<longleftrightarrow>
     length block_header = 80 \<and> \<not> nonce > 0xffffffffffffffff \<and> length txid = 32"

definition calc_shortid :: "hashes \<Rightarrow> siphash \<Rightarrow> bytes \<Rightarrow> int \<Rightarrow> bytes \<Rightarrow> bytes result" where
  "calc_shortid H sip block_header nonce txid =
     bindR (to_bytes_le 8 nonce) (\<lambda>nonce_bytes.
     bindR (to_bytes_le 8 (sip (take 16 (h_sha256 H (block_header @ nonce_bytes))) txid)) (\<lambda>r. Inr (take 6 r)))"

definition shortid_new :: "hashes \<Rightarrow> siphash \<Rightarrow> bytes \<Rightarrow> int \<Rightarrow> bytes \<Rightarrow> bytes result" where
  "shortid_new H sip block_header nonce txid =
     (if \<not> validate_shortid block_header nonce txid then Inl NetworkDataError
      else calc_shortid H sip block_header nonce txid)"

definition shortid_from_bytes :: "bytes \<Rightarrow> (bytes \<times> bytes) result" where
  "shortid_from_bytes stream = read_stream 6 stream"

record short_id_block =
  hs_header :: bytes
  hs_nonce :: int
  hs_short_ids :: "bytes list"
  hs_prefilled :: "prefilled_tx list"

definition short_id_block_new :: "bytes \<Rightarrow> int \<Rightarrow> bytes list \<Rightarrow> prefilled_tx list \<Rightarrow> short_id_block result" where
  "short_id_block_new header nonce short_ids prefilled =
     (if length header \<noteq> 80 then Inl NetworkDataError
      else Inr \<lparr>hs_header = header, hs_nonce = nonce, hs_short_ids = short_ids, hs_prefilled = prefilled\<rparr>)"

definition short_id_block_from_bytes :: "bytes \<Rightarrow> (short_id_block \<times> bytes) result" where
  "short_id_block_from_bytes stream =
     bindR (read_stream 80 stream) (\<lambda>(header, s1).
     bindR (read_little_int 8 s1) (\<lambda>(nonce, s2).
     bindR (read_compact_size s2) (\<lambda>(short_id_len, s3).
     bindR (read_many shortid_from_bytes (nat short_id_len) s3) (\<lambda>(short_ids, s4).
     bindR (read_compact_size s4) (\<lambda>(prefilled_tx_len, s5).
     bindR (read_prefilled (- 1) (nat prefilled_tx_len) s5) (\<lambda>(prefilled, s6).
     bindR (short_id_block_new header nonce short_ids prefilled) (\<lambda>b. Inr (b, s6))))))))"

definition short_id_block_to_bytes :: "short_id_block \<Rightarrow> bytes result" where
  "short_id_block_to_bytes b =
     joinR [Inr (hs_header b), to_bytes_le 8 (hs_nonce b), write_compact_size (int (length (hs_short_ids b))),
            Inr (concat (hs_short_ids b)), write_compact_size (int (length (hs_prefilled b))),
            write_prefilled (- 1) (hs_prefilled b)]"

record block_txns =
  bt_hash :: bytes
  bt_txs :: "tx list"

definition block_txns_from_bytes :: "bytes \<Rightarrow> (block_txns \<times> bytes) result" where
  "block_txns_from_bytes stream =
     bindR (read_stream 32 stream) (\<lambda>(block_hash, s1).
     bindR (read_compact_size s1) (\<lambda>(tx_len, s2).
     bindR (read_many tx_from_bytes (nat tx_len) s2) (\<lambda>(txs, s3).
       Inr (\<lparr>bt_hash = block_hash, bt_txs = txs\<rparr>, s3))))"

definition block_txns_to_bytes :: "block_txns \<Rightarrow> bytes result" where
  "block_txns_to_bytes b =
     bindR (write_all tx_to_bytes (bt_txs b)) (\<lambda>tx_parts.
     bindR (write_compact_size (int (length (bt_txs b)))) (\<lambda>n. Inr (bt_hash b @ n @ tx_parts)))"

record block_txns_request =
  br_block :: bytes
  br_indices :: "int list"

definition block_txns_request_from_bytes :: "bytes \<Rightarrow> (block_txns_request \<times> bytes) result" where
  "block_txns_request_from_bytes stream =
     bindR (read_stream 32 stream) (\<lambda>(block_hash, s1).
     bindR (read_compact_size s1) (\<lambda>(indices_len, s2).
     bindR (read_many read_compact_size (nat indices_len) s2) (\<lambda>(indices_diff, s3).
       Inr (\<lparr>br_block = block_hash, br_indices = decode_differential indices_diff\<rparr>, s3))))"

definition block_txns_request_to_bytes :: "block_txns_request \<Rightarrow> bytes result" where
  "block_txns_request_to_bytes r =
     bindR (write_all write_compact_size (encode_differential (br_indices r))) (\<lambda>index_parts.
     bindR (write_compact_size (int (length (br_indices r)))) (\<lambda>n. Inr (br_block r @ n @ index_parts)))"

section \<open>Lists of hashes\<close>

definition read_hashes :: "nat \<Rightarrow> bytes \<Rightarrow> (bytes list \<times> bytes) result" where
  "read_hashes n stream = read_many (read_stream 32) n stream"

end
