(* ===== verification/Messages.thy ===== *)
theory Messages
  imports Network_Data
begin

text \<open>
  \<^verbatim>\<open>src/src/network/messages\<close>: the header of a message, its check against the payload, and every message class
  with its payload codec. A class is a constructor of \<open>payload\<close>; the registry that \<^verbatim>\<open>__init_subclass__\<close> fills is the
  list \<open>REGISTRY\<close>. A payload is parsed from a stream of its own, and what a parser leaves unread is dropped.
  \<open>recv_one\<close> of \<^verbatim>\<open>transport.py\<close> reads from the bytes a socket delivers.
\<close>

section \<open>Headers\<close>

definition ALLOWED_MAGIC :: "bytes list" where
  "ALLOWED_MAGIC = [[0xf9, 0xbe, 0xb4, 0xd9], [0x0b, 0x11, 0x09, 0x07], [0xfa, 0xbf, 0xb5, 0xda], [0x0a, 0x03, 0xcf, 0x40]]"

definition MAX_PAYLOAD_SIZE :: int where "MAX_PAYLOAD_SIZE = 4000000"

record msg_header =
  mh_command :: string
  mh_size :: int
  mh_checksum :: bytes
  mh_magic :: bytes

definition validate_command :: "string \<Rightarrow> unit result" where
  "validate_command command =
     (case encode_ascii command of
        Inl _ \<Rightarrow> Inl NetworkError
      | Inr encoded \<Rightarrow>
          if \<not> (1 \<le> length encoded \<and> length encoded \<le> 12) then Inl NetworkError
          else if list_ex (\<lambda>b. unat b < 0x20 \<or> unat b > 0x7e) encoded then Inl NetworkError
          else Inr ())"

definition validate_header :: "bytes \<Rightarrow> string \<Rightarrow> int \<Rightarrow> bytes \<Rightarrow> unit result" where
  "validate_header magic_bytes command payload_size checksum =
     bindR (guardR (magic_bytes \<in> set ALLOWED_MAGIC) NetworkError) (\<lambda>_.
     bindR (validate_command command) (\<lambda>_.
     bindR (guardR (\<not> (payload_size < 0 \<or> payload_size > MAX_PAYLOAD_SIZE)) NetworkError) (\<lambda>_.
       guardR (length checksum = 4) NetworkError)))"

definition msg_header_new :: "string \<Rightarrow> int \<Rightarrow> bytes \<Rightarrow> bytes \<Rightarrow> msg_header result" where
  "msg_header_new command payload_size checksum magic_bytes =
     bindR (validate_header magic_bytes (map lower_char command) payload_size checksum) (\<lambda>_.
       Inr \<lparr>mh_command = map lower_char command, mh_size = payload_size, mh_checksum = checksum, mh_magic = magic_bytes\<rparr>)"

definition decode_command :: "bytes \<Rightarrow> string result" where
  "decode_command raw =
     (let padding = dropWhile (\<lambda>b. b \<noteq> 0) raw in
      if list_ex (\<lambda>b. b \<noteq> 0) padding then Inl NetworkError
      else case decode_ascii (takeWhile (\<lambda>b. b \<noteq> 0) raw) of Inl _ \<Rightarrow> Inl NetworkError | Inr s \<Rightarrow> Inr s)"

definition msg_header_from_bytes :: "bytes \<Rightarrow> (msg_header \<times> bytes) result" where
  "msg_header_from_bytes stream =
     bindR (read_stream 4 stream) (\<lambda>(magic_bytes, s1).
     bindR (read_stream 12 s1) (\<lambda>(raw, s2).
     bindR (decode_command raw) (\<lambda>command.
     bindR (read_little_int 4 s2) (\<lambda>(payload_size, s3).
     bindR (read_stream 4 s3) (\<lambda>(checksum, s4).
     bindR (msg_header_new command payload_size checksum magic_bytes) (\<lambda>h. Inr (h, s4)))))))"

definition msg_checksum :: "hashes \<Rightarrow> bytes \<Rightarrow> bytes" where
  "msg_checksum H payload = take 4 (hash256 H payload)"

definition msg_header_from_payload :: "hashes \<Rightarrow> bytes \<Rightarrow> string \<Rightarrow> bytes \<Rightarrow> msg_header result" where
  "msg_header_from_payload H payload command magic_bytes =
     msg_header_new command (int (length payload)) (msg_checksum H payload) magic_bytes"

definition msg_header_to_bytes :: "msg_header \<Rightarrow> bytes result" where
  "msg_header_to_bytes h =
     joinR [Inr (mh_magic h),
            bindR (encode_ascii (mh_command h)) (\<lambda>c. Inr (take 12 (c @ replicate (12 - length c) 0))),
            to_bytes_le 4 (mh_size h), Inr (mh_checksum h)]"

definition validate_package :: "hashes \<Rightarrow> msg_header \<Rightarrow> bytes \<Rightarrow> bool" where
  "validate_package H header payload \<longleftrightarrow>
     msg_checksum H payload = mh_checksum header \<and> int (length payload) = mh_size header \<and> mh_magic header \<in> set ALLOWED_MAGIC"

section \<open>The message classes\<close>

record version_fields =
  vf_version :: int
  vf_services :: int
  vf_time :: int
  vf_remote :: net_addr
  vf_local :: net_addr
  vf_nonce :: int
  vf_user_agent :: string
  vf_last_block :: int

datatype payload =
    Addr "net_addr list" | FeeFilter int | FilterAdd bytes | FilterClear | FilterLoad bytes int int int | GetAddr
  | Ping int | Pong int | Reject string int string bytes | SendHeaders | SendAddrV2 | VerAck | WtxidRelay
  | Version version_fields
  | GetCFilters int int bytes | CFilter int bytes bytes | GetCFHeaders int int bytes
  | CFHeaders int bytes bytes "bytes list" | GetCFCheckpt int bytes | CFCheckpt int bytes "bytes list"
  | BlockMessage block | BlockTxn block_txns | CmpctBlock short_id_block | GetBlockTxn block_txns_request
  | GetBlocks int "bytes list" bytes | GetData "inv_vector list" | GetHeaders int "bytes list" bytes
  | Headers "block_header list" | Inv "inv_vector list" | MemPool | MerkleBlock block_header int "bytes list" bytes
  | NotFound "inv_vector list" | SendCmpct bool int | Txn tx | UnknownMessage string bytes

definition MAX_ADDR_ENTRIES :: nat where "MAX_ADDR_ENTRIES = 1000"
definition MAX_INVENTORY_ENTRIES :: nat where "MAX_INVENTORY_ENTRIES = 50000"
definition MAX_HEADERS_RESULTS :: nat where "MAX_HEADERS_RESULTS = 2000"

subsection \<open>Control messages\<close>

definition addr_from_payload :: "bytes \<Rightarrow> payload result" where
  "addr_from_payload stream =
     bindR (read_compact_size stream) (\<lambda>(count, s1).
     bindR (guardR (\<not> count > int MAX_ADDR_ENTRIES) NetworkDataError) (\<lambda>_.
     bindR (read_many net_addr_from_bytes (nat count) s1) (\<lambda>(addr_list, _).
     bindR (guardR (\<not> length addr_list > MAX_ADDR_ENTRIES) NetworkDataError) (\<lambda>_. Inr (Addr addr_list)))))"

definition addr_to_payload :: "net_addr list \<Rightarrow> bytes result" where
  "addr_to_payload addr_list =
     bindR (write_compact_size (int (length addr_list))) (\<lambda>n.
     bindR (write_all net_addr_to_bytes addr_list) (\<lambda>b. Inr (n @ b)))"

definition feefilter_from_payload :: "bytes \<Rightarrow> payload result" where
  "feefilter_from_payload stream = bindR (read_little_int 8 stream) (\<lambda>(feerate, _). Inr (FeeFilter feerate))"

definition filteradd_from_payload :: "bytes \<Rightarrow> payload result" where
  "filteradd_from_payload stream =
     bindR (read_compact_size stream) (\<lambda>(element_size, s1).
     bindR (read_stream (nat element_size) s1) (\<lambda>(element, _). Inr (FilterAdd element)))"

definition filteradd_to_payload :: "bytes \<Rightarrow> bytes result" where
  "filteradd_to_payload element = bindR (write_compact_size (int (length element))) (\<lambda>n. Inr (n @ element))"

definition filterload_from_payload :: "bytes \<Rightarrow> payload result" where
  "filterload_from_payload stream =
     bindR (read_compact_size stream) (\<lambda>(filter_bytes, s1).
     bindR (read_stream (nat filter_bytes) s1) (\<lambda>(bitfilter, s2).
     bindR (read_little_int 4 s2) (\<lambda>(hash_num, s3).
     bindR (read_little_int 4 s3) (\<lambda>(tweak, s4).
     bindR (read_little_int 1 s4) (\<lambda>(flags, _). Inr (FilterLoad bitfilter hash_num tweak flags))))))"

definition filterload_to_payload :: "bytes \<Rightarrow> int \<Rightarrow> int \<Rightarrow> int \<Rightarrow> bytes result" where
  "filterload_to_payload bitfilter hash_num tweak flags =
     joinR [write_compact_size (int (length bitfilter)), Inr bitfilter, to_bytes_le 4 hash_num, to_bytes_le 4 tweak,
            to_bytes_le 1 flags]"

definition nonce_from_payload :: "(int \<Rightarrow> payload) \<Rightarrow> bytes \<Rightarrow> payload result" where
  "nonce_from_payload cls stream = bindR (read_little_int 8 stream) (\<lambda>(nonce, _). Inr (cls nonce))"

definition reject_from_payload :: "bytes \<Rightarrow> payload result" where
  "reject_from_payload stream =
     bindR (read_compact_size stream) (\<lambda>(msg_byte_len, s1).
     bindR (read_stream (nat msg_byte_len) s1) (\<lambda>(msg_bytes, s2).
     bindR (decode_ascii msg_bytes) (\<lambda>message_type.
     bindR (read_little_int 1 s2) (\<lambda>(reject_num, s3).
     bindR (read_compact_size s3) (\<lambda>(reject_byte_len, s4).
     bindR (read_stream (nat reject_byte_len) s4) (\<lambda>(reject_bytes, s5).
     bindR (decode_ascii reject_bytes) (\<lambda>reject_text.
     bindR (if message_type = ''block'' \<or> message_type = ''tx'' then read_stream 32 s5 else Inr ([], s5)) (\<lambda>(extra_data, _).
       Inr (Reject message_type reject_num reject_text extra_data)))))))))"

definition reject_to_payload :: "string \<Rightarrow> int \<Rightarrow> string \<Rightarrow> bytes \<Rightarrow> bytes result" where
  "reject_to_payload message_type reject_type reject_reason extra_data =
     bindR (encode_ascii message_type) (\<lambda>msg_bytes.
     bindR (encode_ascii reject_reason) (\<lambda>reason_bytes.
       joinR [write_compact_size (int (length msg_bytes)), Inr msg_bytes, to_bytes_le 1 reject_type,
              write_compact_size (int (length reason_bytes)), Inr reason_bytes, Inr extra_data]))"

text \<open>\<^verbatim>\<open>rstrip(b'\x00')\<close>.\<close>

definition rstrip_zeros :: "bytes \<Rightarrow> bytes" where
  "rstrip_zeros bs = rev (dropWhile (\<lambda>b. b = 0) (rev bs))"

definition version_from_payload :: "int \<Rightarrow> bytes \<Rightarrow> payload result" where
  "version_from_payload now stream =
     bindR (read_little_int 4 stream) (\<lambda>(version, s1).
     bindR (read_little_int 8 s1) (\<lambda>(services, s2).
     bindR (read_little_int 8 s2) (\<lambda>(timestamp, s3).
     bindR (net_addr_from_version_bytes now s3) (\<lambda>(remote, s4).
     bindR (net_addr_from_version_bytes now s4) (\<lambda>(local, s5).
     bindR (read_little_int 8 s5) (\<lambda>(nonce, s6).
     bindR (read_compact_size s6) (\<lambda>(user_agent_size, s7).
     bindR (read_stream (nat user_agent_size) s7) (\<lambda>(agent, s8).
     bindR (decode_ascii (rstrip_zeros agent)) (\<lambda>user_agent.
     bindR (read_little_int 4 s8) (\<lambda>(last_block, _).
       Inr (Version \<lparr>vf_version = version, vf_services = services, vf_time = timestamp, vf_remote = remote,
         vf_local = local, vf_nonce = nonce, vf_user_agent = user_agent, vf_last_block = last_block\<rparr>)))))))))))"

definition version_to_payload :: "version_fields \<Rightarrow> bytes result" where
  "version_to_payload v =
     bindR (encode_ascii (vf_user_agent v)) (\<lambda>agent.
       joinR [to_bytes_le 4 (vf_version v), to_bytes_le 8 (vf_services v), to_bytes_le 8 (vf_time v),
              net_addr_to_version_bytes (vf_remote v), net_addr_to_version_bytes (vf_local v), to_bytes_le 8 (vf_nonce v),
              bindR (write_compact_size (int (length agent))) (\<lambda>n. Inr (n @ agent)), to_bytes_le 4 (vf_last_block v)])"

subsection \<open>Compact filter messages\<close>

definition cf_range_from_payload :: "(int \<Rightarrow> int \<Rightarrow> bytes \<Rightarrow> payload) \<Rightarrow> bytes \<Rightarrow> payload result" where
  "cf_range_from_payload cls stream =
     bindR (read_little_int 1 stream) (\<lambda>(filter_type, s1).
     bindR (read_little_int 4 s1) (\<lambda>(start_height, s2).
     bindR (read_stream 32 s2) (\<lambda>(stop_hash, _). Inr (cls filter_type start_height stop_hash))))"

definition cf_range_to_payload :: "int \<Rightarrow> int \<Rightarrow> bytes \<Rightarrow> bytes result" where
  "cf_range_to_payload filter_type start_height stop_hash =
     joinR [to_bytes_le 1 filter_type, to_bytes_le 4 start_height, Inr stop_hash]"

definition cfilter_from_payload :: "bytes \<Rightarrow> payload result" where
  "cfilter_from_payload stream =
     bindR (read_little_int 1 stream) (\<lambda>(filter_type, s1).
     bindR (read_stream 32 s1) (\<lambda>(block_hash, s2).
     bindR (read_compact_size s2) (\<lambda>(num_filter_bytes, s3).
     bindR (read_stream (nat num_filter_bytes) s3) (\<lambda>(filter_data, _). Inr (CFilter filter_type block_hash filter_data)))))"

definition cfilter_to_payload :: "int \<Rightarrow> bytes \<Rightarrow> bytes \<Rightarrow> bytes result" where
  "cfilter_to_payload filter_type block_hash filter_data =
     joinR [to_bytes_le 1 filter_type, Inr block_hash, write_compact_size (int (length filter_data)), Inr filter_data]"

definition cfheaders_from_payload :: "bytes \<Rightarrow> payload result" where
  "cfheaders_from_payload stream =
     bindR (read_little_int 1 stream) (\<lambda>(filter_type, s1).
     bindR (read_stream 32 s1) (\<lambda>(stop_hash, s2).
     bindR (read_stream 32 s2) (\<lambda>(previous_filter_header, s3).
     bindR (read_compact_size s3) (\<lambda>(filter_hashes_length, s4).
     bindR (read_hashes (nat filter_hashes_length) s4) (\<lambda>(filter_hashes, _).
       Inr (CFHeaders filter_type stop_hash previous_filter_header filter_hashes))))))"

definition cfheaders_to_payload :: "int \<Rightarrow> bytes \<Rightarrow> bytes \<Rightarrow> bytes list \<Rightarrow> bytes result" where
  "cfheaders_to_payload filter_type stop_hash previous_filter_header filter_hashes =
     joinR [to_bytes_le 1 filter_type, Inr stop_hash, Inr previous_filter_header,
            write_compact_size (int (length filter_hashes)), Inr (concat filter_hashes)]"

definition getcfcheckpt_from_payload :: "bytes \<Rightarrow> payload result" where
  "getcfcheckpt_from_payload stream =
     bindR (read_little_int 1 stream) (\<lambda>(filter_type, s1).
     bindR (read_stream 32 s1) (\<lambda>(stop_hash, _). Inr (GetCFCheckpt filter_type stop_hash)))"

definition getcfcheckpt_to_payload :: "int \<Rightarrow> bytes \<Rightarrow> bytes result" where
  "getcfcheckpt_to_payload filter_type stop_hash = joinR [to_bytes_le 1 filter_type, Inr stop_hash]"

definition cfcheckpt_from_payload :: "bytes \<Rightarrow> payload result" where
  "cfcheckpt_from_payload stream =
     bindR (read_little_int 1 stream) (\<lambda>(filter_type, s1).
     bindR (read_stream 32 s1) (\<lambda>(stop_hash, s2).
     bindR (read_compact_size s2) (\<lambda>(filter_headers_length, s3).
     bindR (read_hashes (nat filter_headers_length) s3) (\<lambda>(filter_headers, _).
       Inr (CFCheckpt filter_type stop_hash filter_headers)))))"

definition cfcheckpt_to_payload :: "int \<Rightarrow> bytes \<Rightarrow> bytes list \<Rightarrow> bytes result" where
  "cfcheckpt_to_payload filter_type stop_hash filter_headers =
     joinR [to_bytes_le 1 filter_type, Inr stop_hash, write_compact_size (int (length filter_headers)), Inr (concat filter_headers)]"

subsection \<open>Data messages\<close>

text \<open>An empty stop hash becomes the zero hash, which asks for as many results as possible.\<close>

definition locator_from_payload :: "(int \<Rightarrow> bytes list \<Rightarrow> bytes \<Rightarrow> payload) \<Rightarrow> bytes \<Rightarrow> payload result" where
  "locator_from_payload cls stream =
     bindR (read_little_int 4 stream) (\<lambda>(version, s1).
     bindR (read_compact_size s1) (\<lambda>(hash_count, s2).
     bindR (read_hashes (nat hash_count) s2) (\<lambda>(locator_hashes, s3).
     bindR (read_stream 32 s3) (\<lambda>(hash_stop, _).
       Inr (cls version locator_hashes (or_bytes hash_stop (replicate 32 0)))))))"

definition locator_to_payload :: "int \<Rightarrow> bytes list \<Rightarrow> bytes \<Rightarrow> bytes result" where
  "locator_to_payload version locator_hashes hash_stop =
     joinR [to_bytes_le 4 version, write_compact_size (int (length locator_hashes)), Inr (concat locator_hashes), Inr hash_stop]"

definition inv_from_payload :: "(inv_vector list \<Rightarrow> payload) \<Rightarrow> bytes \<Rightarrow> payload result" where
  "inv_from_payload cls stream =
     bindR (read_compact_size stream) (\<lambda>(count, s1).
     bindR (guardR (\<not> count > int MAX_INVENTORY_ENTRIES) NetworkDataError) (\<lambda>_.
     bindR (read_many inv_vector_from_bytes (nat count) s1) (\<lambda>(items, _).
     bindR (guardR (\<not> length items > MAX_INVENTORY_ENTRIES) NetworkDataError) (\<lambda>_. Inr (cls items)))))"

definition inv_to_payload :: "inv_vector list \<Rightarrow> bytes result" where
  "inv_to_payload items =
     bindR (write_compact_size (int (length items))) (\<lambda>n. bindR (write_all inv_vector_to_bytes items) (\<lambda>b. Inr (n @ b)))"

definition read_header_entry :: "int \<Rightarrow> bytes \<Rightarrow> (block_header \<times> bytes) result" where
  "read_header_entry now stream =
     bindR (header_from_bytes now stream) (\<lambda>(h, s1).
     bindR (read_little_int 1 s1) (\<lambda>(tx_count, s2).
       if tx_count \<noteq> 0 then Inl NetworkDataError else Inr (h, s2)))"

definition write_header_entry :: "block_header \<Rightarrow> bytes result" where
  "write_header_entry h = bindR (header_to_bytes h) (\<lambda>b. Inr (b @ [0]))"

definition headers_from_payload :: "int \<Rightarrow> bytes \<Rightarrow> payload result" where
  "headers_from_payload now stream =
     bindR (read_compact_size stream) (\<lambda>(count, s1).
     bindR (guardR (\<not> count > int MAX_HEADERS_RESULTS) NetworkDataError) (\<lambda>_.
     bindR (read_many (read_header_entry now) (nat count) s1) (\<lambda>(headers, _).
     bindR (guardR (\<not> length headers > MAX_HEADERS_RESULTS) NetworkDataError) (\<lambda>_. Inr (Headers headers)))))"

definition headers_to_payload :: "block_header list \<Rightarrow> bytes result" where
  "headers_to_payload headers =
     bindR (write_all write_header_entry headers) (\<lambda>b. bindR (write_compact_size (int (length headers))) (\<lambda>n. Inr (n @ b)))"

definition merkleblock_from_payload :: "int \<Rightarrow> bytes \<Rightarrow> payload result" where
  "merkleblock_from_payload now stream =
     bindR (header_from_bytes now stream) (\<lambda>(header, s1).
     bindR (read_little_int 4 s1) (\<lambda>(tx_num, s2).
     bindR (read_compact_size s2) (\<lambda>(hash_num, s3).
     bindR (read_hashes (nat hash_num) s3) (\<lambda>(hashes, s4).
     bindR (read_compact_size s4) (\<lambda>(flag_bytes, s5).
     bindR (read_stream (nat flag_bytes) s5) (\<lambda>(flags, _). Inr (MerkleBlock header tx_num hashes flags)))))))"

definition merkleblock_to_payload :: "block_header \<Rightarrow> int \<Rightarrow> bytes list \<Rightarrow> bytes \<Rightarrow> bytes result" where
  "merkleblock_to_payload header tx_num hashes flags =
     bindR (joinR [to_bytes_le 4 tx_num, write_compact_size (int (length hashes)), Inr (concat hashes),
                   write_compact_size (int (length flags)), Inr flags]) (\<lambda>rest.
     bindR (header_to_bytes header) (\<lambda>b. Inr (b @ rest)))"

definition sendcmpct_from_payload :: "bytes \<Rightarrow> payload result" where
  "sendcmpct_from_payload stream =
     bindR (read_little_int 1 stream) (\<lambda>(boolint, s1).
     bindR (read_little_int 8 s1) (\<lambda>(version, _). Inr (SendCmpct (boolint \<noteq> 0) version)))"

definition sendcmpct_to_payload :: "bool \<Rightarrow> int \<Rightarrow> bytes result" where
  "sendcmpct_to_payload announce version = joinR [to_bytes_le 1 (of_bool announce), to_bytes_le 8 version]"

text \<open>The classes that wrap one object.\<close>

definition wrapped_from_payload :: "(bytes \<Rightarrow> ('a \<times> bytes) result) \<Rightarrow> ('a \<Rightarrow> payload) \<Rightarrow> bytes \<Rightarrow> payload result" where
  "wrapped_from_payload parse cls stream = bindR (parse stream) (\<lambda>(x, _). Inr (cls x))"

section \<open>The registry\<close>

fun command_of :: "payload \<Rightarrow> string" where
  "command_of (Addr _) = ''addr''" | "command_of (FeeFilter _) = ''feefilter''"
| "command_of (FilterAdd _) = ''filteradd''" | "command_of FilterClear = ''filterclear''"
| "command_of (FilterLoad _ _ _ _) = ''filterload''" | "command_of GetAddr = ''getaddr''"
| "command_of (Ping _) = ''ping''" | "command_of (Pong _) = ''pong''" | "command_of (Reject _ _ _ _) = ''reject''"
| "command_of SendHeaders = ''sendheaders''" | "command_of SendAddrV2 = ''sendaddrv2''"
| "command_of VerAck = ''verack''" | "command_of WtxidRelay = ''wtxidrelay''" | "command_of (Version _) = ''version''"
| "command_of (GetCFilters _ _ _) = ''getcfilters''" | "command_of (CFilter _ _ _) = ''cfilter''"
| "command_of (GetCFHeaders _ _ _) = ''getcfheaders''" | "command_of (CFHeaders _ _ _ _) = ''cfheaders''"
| "command_of (GetCFCheckpt _ _) = ''getcfcheckpt''" | "command_of (CFCheckpt _ _ _) = ''cfcheckpt''"
| "command_of (BlockMessage _) = ''block''" | "command_of (BlockTxn _) = ''blocktxn''"
| "command_of (CmpctBlock _) = ''cmpctblock''" | "command_of (GetBlockTxn _) = ''getblocktxn''"
| "command_of (GetBlocks _ _ _) = ''getblocks''" | "command_of (GetData _) = ''getdata''"
| "command_of (GetHeaders _ _ _) = ''getheaders''" | "command_of (Headers _) = ''headers''"
| "command_of (Inv _) = ''inv''" | "command_of MemPool = ''mempool''" | "command_of (MerkleBlock _ _ _ _) = ''merkleblock''"
| "command_of (NotFound _) = ''notfound''" | "command_of (SendCmpct _ _) = ''sendcmpct''" | "command_of (Txn _) = ''tx''"
| "command_of (UnknownMessage command _) = command"

definition REGISTRY :: "hashes \<Rightarrow> int \<Rightarrow> (string \<times> (bytes \<Rightarrow> payload result)) list" where
  "REGISTRY H now =
     [(''getcfilters'', cf_range_from_payload GetCFilters), (''cfilter'', cfilter_from_payload),
      (''getcfheaders'', cf_range_from_payload GetCFHeaders), (''cfheaders'', cfheaders_from_payload),
      (''getcfcheckpt'', getcfcheckpt_from_payload), (''cfcheckpt'', cfcheckpt_from_payload),
      (''addr'', addr_from_payload), (''feefilter'', feefilter_from_payload), (''filteradd'', filteradd_from_payload),
      (''filterclear'', \<lambda>_. Inr FilterClear), (''filterload'', filterload_from_payload), (''getaddr'', \<lambda>_. Inr GetAddr),
      (''ping'', nonce_from_payload Ping), (''pong'', nonce_from_payload Pong), (''reject'', reject_from_payload),
      (''sendheaders'', \<lambda>_. Inr SendHeaders), (''sendaddrv2'', \<lambda>_. Inr SendAddrV2), (''verack'', \<lambda>_. Inr VerAck),
      (''wtxidrelay'', \<lambda>_. Inr WtxidRelay), (''version'', version_from_payload now),
      (''block'', wrapped_from_payload (block_from_bytes H now) BlockMessage),
      (''blocktxn'', wrapped_from_payload block_txns_from_bytes BlockTxn),
      (''cmpctblock'', wrapped_from_payload short_id_block_from_bytes CmpctBlock),
      (''getblocktxn'', wrapped_from_payload block_txns_request_from_bytes GetBlockTxn),
      (''getblocks'', locator_from_payload GetBlocks), (''getdata'', inv_from_payload GetData),
      (''getheaders'', locator_from_payload GetHeaders), (''headers'', headers_from_payload now),
      (''inv'', inv_from_payload Inv), (''mempool'', \<lambda>_. Inr MemPool), (''merkleblock'', merkleblock_from_payload now),
      (''notfound'', inv_from_payload NotFound), (''sendcmpct'', sendcmpct_from_payload),
      (''tx'', wrapped_from_payload tx_from_bytes Txn)]"

fun to_payload :: "payload \<Rightarrow> bytes result" where
  "to_payload (Addr addr_list) = addr_to_payload addr_list"
| "to_payload (FeeFilter feerate) = to_bytes_le 8 feerate"
| "to_payload (FilterAdd element) = filteradd_to_payload element"
| "to_payload FilterClear = Inr []"
| "to_payload (FilterLoad bitfilter hash_num tweak flags) = filterload_to_payload bitfilter hash_num tweak flags"
| "to_payload GetAddr = Inr []"
| "to_payload (Ping nonce) = to_bytes_le 8 nonce"
| "to_payload (Pong nonce) = to_bytes_le 8 nonce"
| "to_payload (Reject message_type reject_type reject_reason extra_data) = reject_to_payload message_type reject_type reject_reason extra_data"
| "to_payload SendHeaders = Inr []"
| "to_payload SendAddrV2 = Inr []"
| "to_payload VerAck = Inr []"
| "to_payload WtxidRelay = Inr []"
| "to_payload (Version v) = version_to_payload v"
| "to_payload (GetCFilters filter_type start_height stop_hash) = cf_range_to_payload filter_type start_height stop_hash"
| "to_payload (CFilter filter_type block_hash filter_data) = cfilter_to_payload filter_type block_hash filter_data"
| "to_payload (GetCFHeaders filter_type start_height stop_hash) = cf_range_to_payload filter_type start_height stop_hash"
| "to_payload (CFHeaders filter_type stop_hash prev hashes) = cfheaders_to_payload filter_type stop_hash prev hashes"
| "to_payload (GetCFCheckpt filter_type stop_hash) = getcfcheckpt_to_payload filter_type stop_hash"
| "to_payload (CFCheckpt filter_type stop_hash headers) = cfcheckpt_to_payload filter_type stop_hash headers"
| "to_payload (BlockMessage b) = block_to_bytes b"
| "to_payload (BlockTxn txn) = block_txns_to_bytes txn"
| "to_payload (CmpctBlock hashids) = short_id_block_to_bytes hashids"
| "to_payload (GetBlockTxn req) = block_txns_request_to_bytes req"
| "to_payload (GetBlocks version hashes hash_stop) = locator_to_payload version hashes hash_stop"
| "to_payload (GetData items) = inv_to_payload items"
| "to_payload (GetHeaders version hashes hash_stop) = locator_to_payload version hashes hash_stop"
| "to_payload (Headers headers) = headers_to_payload headers"
| "to_payload (Inv items) = inv_to_payload items"
| "to_payload MemPool = Inr []"
| "to_payload (MerkleBlock header tx_num hashes flags) = merkleblock_to_payload header tx_num hashes flags"
| "to_payload (NotFound items) = inv_to_payload items"
| "to_payload (SendCmpct announce version) = sendcmpct_to_payload announce version"
| "to_payload (Txn t) = tx_to_bytes t"
| "to_payload (UnknownMessage command raw) = Inr raw"

section \<open>Messages\<close>

definition message_to_bytes :: "hashes \<Rightarrow> bytes \<Rightarrow> payload \<Rightarrow> bytes result" where
  "message_to_bytes H magic p =
     bindR (to_payload p) (\<lambda>payload.
     bindR (msg_header_new (command_of p) (int (length payload)) (msg_checksum H payload) magic) (\<lambda>h.
     bindR (msg_header_to_bytes h) (\<lambda>b. Inr (b @ payload))))"

definition from_validated_envelope :: "hashes \<Rightarrow> int \<Rightarrow> msg_header \<Rightarrow> bytes \<Rightarrow> payload result" where
  "from_validated_envelope H now header payload =
     (case map_of (REGISTRY H now) (mh_command header) of
        None \<Rightarrow> Inr (UnknownMessage (mh_command header) payload)
      | Some from_payload \<Rightarrow> from_payload payload)"

text \<open>\<^verbatim>\<open>Message.from_bytes\<close> of a class: \<open>cls\<close> is its command.\<close>

definition message_from_bytes :: "hashes \<Rightarrow> int \<Rightarrow> string \<Rightarrow> bytes \<Rightarrow> (payload \<times> bytes) result" where
  "message_from_bytes H now cls stream =
     bindR (read_stream 24 stream) (\<lambda>(header_bytes, s1).
     bindR (msg_header_from_bytes header_bytes) (\<lambda>(header, _).
     bindR (read_stream (nat (mh_size header)) s1) (\<lambda>(payload, s2).
       if \<not> validate_package H header payload then Inl ValueError
       else if mh_command header \<noteq> cls then Inl ValueError
       else bindR (from_validated_envelope H now header payload) (\<lambda>p. Inr (p, s2)))))"

text \<open>
  Reading an exact number of bytes from a socket; the end of the stream is a lost connection. An unexpected network or
  command is a \<^verbatim>\<open>NetworkError\<close> whose text says so (\<open>PeerProtocolError\<close>).
\<close>

definition recv_exact :: "nat \<Rightarrow> bytes \<Rightarrow> (bytes \<times> bytes) result" where
  "recv_exact n stream = (if length stream < n then Inl ConnectionError else Inr (take n stream, drop n stream))"

definition recv_one :: "hashes \<Rightarrow> int \<Rightarrow> bytes \<Rightarrow> string option \<Rightarrow> bytes \<Rightarrow> (payload \<times> bytes) result" where
  "recv_one H now magic expected_command stream =
     bindR (recv_exact 24 stream) (\<lambda>(header_bytes, s1).
     bindR (msg_header_from_bytes header_bytes) (\<lambda>(header, _).
       if mh_magic header \<noteq> magic then Inl PeerProtocolError
       else if expected_command \<noteq> None \<and> expected_command \<noteq> Some (mh_command header) then Inl PeerProtocolError
       else
         bindR (recv_exact (nat (mh_size header)) s1) (\<lambda>(payload, s2).
           if \<not> validate_package H header payload then Inl NetworkError
           else bindR (from_validated_envelope H now header payload) (\<lambda>p. Inr (p, s2)))))"

end
