(* ===== verification/Message_Facts.thy ===== *)
theory Message_Facts
  imports Messages Transaction_Facts
begin

text \<open>
  Every message that can be serialised is read back from the bytes of a socket, whatever follows it, and every
  message taken from a socket was framed as the header says. The structures inside the payloads are codecs.
\<close>

section \<open>Text and addresses\<close>

lemma unat_of_char: "unat (of_char c :: byte) = of_char c"
proof -
  have "(of_char c :: byte) = of_nat (of_char c)" by (simp add: of_nat_of_char)
  moreover have "(of_char c :: nat) mod 256 = of_char c" by simp
  ultimately show ?thesis by (simp add: unat_of_nat)
qed

lemma encode_ascii_eq: "encode_ascii s = Inr bs \<longleftrightarrow> list_all (\<lambda>b. unat b < 128) (ascii_bytes s) \<and> bs = ascii_bytes s"
  by (auto simp: encode_ascii_def ascii_bytes_def list_all_iff unat_of_char)

lemma decode_encode_ascii: "encode_ascii s = Inr bs \<Longrightarrow> decode_ascii bs = Inr s"
  by (auto simp: encode_ascii_eq decode_ascii_def) (simp add: ascii_bytes_def unat_of_char map_idI)

lemma ip_round_trip: "ip_wf ip \<Longrightarrow> length (netaddr_bytes ip) = 16 \<and> ip_from_netaddr (netaddr_bytes ip) = Inr ip"
  by (cases ip) (auto simp: ip_wf_def netaddr_bytes_def ip_from_netaddr_def V4_PREFIX_def)

lemma read_big_int_to_bytes: "to_bytes_be n v = Inr b \<Longrightarrow> read_big_int n (b @ rest) = Inr (v, rest)"
  by (auto simp: result_iff read_big_int_def stream_simps be_val_def le_val_le_bytes)

definition net_addr_wf :: "net_addr \<Rightarrow> bool" where "net_addr_wf a \<longleftrightarrow> ip_wf (na_ip a)"

lemma net_fields_round_trip:
  "net_addr_wf a \<Longrightarrow> net_addr_to_version_bytes a = Inr bs \<Longrightarrow>
     read_net_fields (bs @ rest) = Inr ((na_services a, na_ip a, na_port a), rest)"
  using ip_round_trip [of "na_ip a"]
  by (auto simp: net_addr_wf_def net_addr_to_version_bytes_def read_net_fields_def stream_simps read_big_int_to_bytes)

interpretation addr: codec net_addr_to_bytes net_addr_from_bytes net_addr_wf
  by unfold_locales (auto simp: net_addr_to_bytes_def net_addr_from_bytes_def stream_simps net_fields_round_trip)

interpretation version_addr: codec net_addr_to_version_bytes "net_addr_from_version_bytes now"
    "\<lambda>a. net_addr_wf a \<and> na_time a = now" for now
  by unfold_locales (auto simp: net_addr_from_version_bytes_def net_fields_round_trip)

section \<open>Inventory, compact blocks, hashes\<close>

definition inv_vector_wf :: "inv_vector \<Rightarrow> bool" where
  "inv_vector_wf v \<longleftrightarrow> length (iv_hash v) = 32 \<and> iv_type v \<in> set INV_TYPES"

interpretation inv: codec inv_vector_to_bytes inv_vector_from_bytes inv_vector_wf
  by unfold_locales (auto simp: inv_vector_to_bytes_def inv_vector_from_bytes_def inv_vector_wf_def inv_vector_new_def stream_simps)

interpretation hash: codec "\<lambda>h. Inr h" "read_stream 32" "\<lambda>h. length h = 32"
  by unfold_locales (auto simp: stream_simps)

lemma write_all_Inr: "write_all (\<lambda>h. Inr h) hs = Inr (concat hs)"
  by (induction hs) auto

lemma read_hashes_concat:
  "list_all (\<lambda>h. length h = 32) hs \<Longrightarrow> read_hashes (length hs) (concat hs @ rest) = Inr (hs, rest)"
  using hash.read_many_write_all [of hs "concat hs" rest] by (simp add: read_hashes_def write_all_Inr)

interpretation shortid: codec "\<lambda>h. Inr h" shortid_from_bytes "\<lambda>h. length h = 6"
  by unfold_locales (auto simp: shortid_from_bytes_def stream_simps)

lemma read_prefilled_write:
  "list_all (\<lambda>p. tx_wf (pf_tx p)) ps \<Longrightarrow> write_prefilled prev ps = Inr bs \<Longrightarrow>
     read_prefilled prev (length ps) (bs @ rest) = Inr (ps, rest)"
proof (induction ps arbitrary: prev bs)
  case (Cons p ps)
  then obtain n t b where p: "write_compact_size (pf_index p - prev - 1) = Inr n" "tx_to_bytes (pf_tx p) = Inr t"
    "write_prefilled (pf_index p) ps = Inr b" "bs = n @ t @ b"
    by (auto simp: prefilled_to_bytes_def split: if_split_asm)
  then show ?case using Cons tx_round_trip [of "pf_tx p" t "b @ rest"]
    by (simp add: prefilled_from_bytes_def stream_simps)
qed simp

interpretation header_entry: codec write_header_entry "read_header_entry now" header_wf for now
proof unfold_locales
  fix h bs rest assume "header_wf h" and "write_header_entry h = Inr bs"
  then show "read_header_entry now (bs @ rest) = Inr (h, rest)"
    using header.dec_enc [of h _ now "0 # rest"] by (auto simp: write_header_entry_def read_header_entry_def stream_simps)
qed

definition short_id_block_wf :: "short_id_block \<Rightarrow> bool" where
  "short_id_block_wf b \<longleftrightarrow> length (hs_header b) = 80 \<and> list_all (\<lambda>h. length h = 6) (hs_short_ids b)
     \<and> list_all (\<lambda>p. tx_wf (pf_tx p)) (hs_prefilled b)"

interpretation compact_block: codec short_id_block_to_bytes short_id_block_from_bytes short_id_block_wf
proof unfold_locales
  fix b bs rest assume wf: "short_id_block_wf b" and bs: "short_id_block_to_bytes b = Inr bs"
  have ids: "read_many shortid_from_bytes (length (hs_short_ids b)) (concat (hs_short_ids b) @ r) = Inr (hs_short_ids b, r)" for r
    using shortid.read_many_write_all [of "hs_short_ids b" "concat (hs_short_ids b)" r] wf
    by (simp add: write_all_Inr short_id_block_wf_def)
  show "short_id_block_from_bytes (bs @ rest) = Inr (b, rest)" using wf bs
    by (auto simp: short_id_block_to_bytes_def short_id_block_from_bytes_def short_id_block_wf_def short_id_block_new_def stream_simps
        ids read_prefilled_write)
qed

definition block_txns_wf :: "block_txns \<Rightarrow> bool" where
  "block_txns_wf b \<longleftrightarrow> length (bt_hash b) = 32 \<and> list_all tx_wf (bt_txs b)"

interpretation block_txns: codec block_txns_to_bytes block_txns_from_bytes block_txns_wf
  by unfold_locales
    (auto simp: block_txns_to_bytes_def block_txns_from_bytes_def block_txns_wf_def stream_simps txs.read_many_write_all)

lemma encode_differential_length [simp]: "length (encode_differential xs) = length xs"
proof -
  have "length (encode_differential_from p xs) = length xs" for p by (induction xs arbitrary: p) auto
  then show ?thesis by (simp add: encode_differential_def)
qed

interpretation txns_request: codec block_txns_request_to_bytes block_txns_request_from_bytes "\<lambda>r. length (br_block r) = 32"
proof unfold_locales
  fix r bs rest assume "length (br_block r) = 32" and "block_txns_request_to_bytes r = Inr bs"
  then show "block_txns_request_from_bytes (bs @ rest) = Inr (r, rest)"
    using compact.read_many_write_all [of "encode_differential (br_indices r)"]
    by (auto simp: block_txns_request_to_bytes_def block_txns_request_from_bytes_def stream_simps list_all_iff)
qed


section \<open>Payloads\<close>

text \<open>What the wire format of each class can hold.\<close>

fun payload_wf :: "hashes \<Rightarrow> int \<Rightarrow> payload \<Rightarrow> bool" where
  "payload_wf H now (Addr as) \<longleftrightarrow> list_all net_addr_wf as \<and> length as \<le> MAX_ADDR_ENTRIES"
| "payload_wf H now (Reject m code reason extra) \<longleftrightarrow> length extra = (if m = ''block'' \<or> m = ''tx'' then 32 else 0)"
| "payload_wf H now (Version v) \<longleftrightarrow> net_addr_wf (vf_remote v) \<and> na_time (vf_remote v) = now \<and> net_addr_wf (vf_local v)
     \<and> na_time (vf_local v) = now \<and> (vf_user_agent v = [] \<or> last (vf_user_agent v) \<noteq> CHR 0x00)"
| "payload_wf H now (GetCFilters f h stop) \<longleftrightarrow> length stop = 32"
| "payload_wf H now (CFilter f h d) \<longleftrightarrow> length h = 32"
| "payload_wf H now (GetCFHeaders f h stop) \<longleftrightarrow> length stop = 32"
| "payload_wf H now (CFHeaders f stop prev hs) \<longleftrightarrow> length stop = 32 \<and> length prev = 32 \<and> list_all (\<lambda>h. length h = 32) hs"
| "payload_wf H now (GetCFCheckpt f stop) \<longleftrightarrow> length stop = 32"
| "payload_wf H now (CFCheckpt f stop hs) \<longleftrightarrow> length stop = 32 \<and> list_all (\<lambda>h. length h = 32) hs"
| "payload_wf H now (BlockMessage b) \<longleftrightarrow> block_wf H b"
| "payload_wf H now (BlockTxn b) \<longleftrightarrow> block_txns_wf b"
| "payload_wf H now (CmpctBlock b) \<longleftrightarrow> short_id_block_wf b"
| "payload_wf H now (GetBlockTxn r) \<longleftrightarrow> length (br_block r) = 32"
| "payload_wf H now (GetBlocks v hs stop) \<longleftrightarrow> list_all (\<lambda>h. length h = 32) hs \<and> length stop = 32"
| "payload_wf H now (GetData vs) \<longleftrightarrow> list_all inv_vector_wf vs \<and> length vs \<le> MAX_INVENTORY_ENTRIES"
| "payload_wf H now (GetHeaders v hs stop) \<longleftrightarrow> list_all (\<lambda>h. length h = 32) hs \<and> length stop = 32"
| "payload_wf H now (Headers hs) \<longleftrightarrow> list_all header_wf hs \<and> length hs \<le> MAX_HEADERS_RESULTS"
| "payload_wf H now (Inv vs) \<longleftrightarrow> list_all inv_vector_wf vs \<and> length vs \<le> MAX_INVENTORY_ENTRIES"
| "payload_wf H now (MerkleBlock h n hs flags) \<longleftrightarrow> header_wf h \<and> list_all (\<lambda>h. length h = 32) hs"
| "payload_wf H now (NotFound vs) \<longleftrightarrow> list_all inv_vector_wf vs \<and> length vs \<le> MAX_INVENTORY_ENTRIES"
| "payload_wf H now (Txn t) \<longleftrightarrow> tx_wf t"
| "payload_wf H now (UnknownMessage command raw) \<longleftrightarrow> command \<notin> fst ` set (REGISTRY H now) \<and> map lower_char command = command"
| "payload_wf H now _ \<longleftrightarrow> True"

lemma read_le1: "to_bytes_le (Suc 0) v = Inr b \<Longrightarrow> read_little_int (Suc 0) (b @ rest) = Inr (v, rest)"
  by (rule read_little_int_to_bytes)

lemmas field_simps' = stream_simps read_le1 read_hashes_concat

lemma control_payloads:
  "payload_wf H now (Addr as) \<Longrightarrow> addr_to_payload as = Inr bs \<Longrightarrow> addr_from_payload (bs @ rest) = Inr (Addr as)"
  "to_bytes_le 8 n = Inr bs \<Longrightarrow> feefilter_from_payload (bs @ rest) = Inr (FeeFilter n)"
  "filteradd_to_payload el = Inr bs \<Longrightarrow> filteradd_from_payload (bs @ rest) = Inr (FilterAdd el)"
  "filterload_to_payload f n t flags = Inr bs \<Longrightarrow> filterload_from_payload (bs @ rest) = Inr (FilterLoad f n t flags)"
  "to_bytes_le 8 n = Inr bs \<Longrightarrow> nonce_from_payload cls (bs @ rest) = Inr (cls n)"
  "payload_wf H now (Reject m code reason extra) \<Longrightarrow> reject_to_payload m code reason extra = Inr bs \<Longrightarrow>
     reject_from_payload (bs @ rest) = Inr (Reject m code reason extra)"
      apply (auto simp: addr_to_payload_def addr_from_payload_def field_simps' addr.read_many_write_all)[1]
     apply (auto simp: feefilter_from_payload_def field_simps')[1]
    apply (auto simp: filteradd_to_payload_def filteradd_from_payload_def field_simps')[1]
   apply (auto simp: filterload_to_payload_def filterload_from_payload_def field_simps')[1]
  apply (auto simp: nonce_from_payload_def field_simps')[1]
  by (auto simp: reject_to_payload_def reject_from_payload_def field_simps' decode_encode_ascii split: if_split_asm)

lemma rstrip_zeros_text:
  assumes "encode_ascii s = Inr bs" "s = [] \<or> last s \<noteq> CHR 0x00" shows "rstrip_zeros bs = bs"
proof (cases s rule: rev_cases)
  case Nil
  then show ?thesis using assms by (simp add: encode_ascii_eq ascii_bytes_def rstrip_zeros_def)
next
  case (snoc t c)
  then have "bs = ascii_bytes t @ [of_char c]" using assms(1) by (simp add: encode_ascii_eq ascii_bytes_def)
  moreover have "(of_char c :: byte) \<noteq> 0"
  proof
    assume "(of_char c :: byte) = 0"
    then have "(of_char c :: nat) = 0" using unat_of_char [of c] by simp
    then have "char_of (of_char c :: nat) = CHR 0x00" by (simp add: char_of_def)
    then show False using assms(2) snoc by simp
  qed
  ultimately show ?thesis by (simp add: rstrip_zeros_def)
qed

lemma version_payload:
  assumes "payload_wf H now (Version v)" and "version_to_payload v = Inr bs"
  shows "version_from_payload now (bs @ rest) = Inr (Version v)"
proof -
  obtain agent where agent: "encode_ascii (vf_user_agent v) = Inr agent"
    using assms(2) by (auto simp: version_to_payload_def)
  have strip: "decode_ascii (rstrip_zeros agent) = Inr (vf_user_agent v)"
    using rstrip_zeros_text [OF agent] decode_encode_ascii [OF agent] assms(1) by auto
  show ?thesis using assms
    by (auto simp: version_to_payload_def version_from_payload_def field_simps' version_addr.dec_enc agent strip)
qed

lemma filter_payloads:
  "length stop = 32 \<Longrightarrow> cf_range_to_payload f h stop = Inr bs \<Longrightarrow> cf_range_from_payload cls (bs @ rest) = Inr (cls f h stop)"
  "payload_wf H now (CFilter f stop d) \<Longrightarrow> cfilter_to_payload f stop d = Inr bs \<Longrightarrow>
     cfilter_from_payload (bs @ rest) = Inr (CFilter f stop d)"
  "payload_wf H now (CFHeaders f stop prev hs) \<Longrightarrow> cfheaders_to_payload f stop prev hs = Inr bs \<Longrightarrow>
     cfheaders_from_payload (bs @ rest) = Inr (CFHeaders f stop prev hs)"
  "payload_wf H now (GetCFCheckpt f stop) \<Longrightarrow> getcfcheckpt_to_payload f stop = Inr bs \<Longrightarrow>
     getcfcheckpt_from_payload (bs @ rest) = Inr (GetCFCheckpt f stop)"
  "payload_wf H now (CFCheckpt f stop hs) \<Longrightarrow> cfcheckpt_to_payload f stop hs = Inr bs \<Longrightarrow>
     cfcheckpt_from_payload (bs @ rest) = Inr (CFCheckpt f stop hs)"
      apply (auto simp: cf_range_to_payload_def cf_range_from_payload_def field_simps')[1]
     apply (auto simp: cfilter_to_payload_def cfilter_from_payload_def field_simps')[1]
    apply (auto simp: cfheaders_to_payload_def cfheaders_from_payload_def field_simps')[1]
   apply (auto simp: getcfcheckpt_to_payload_def getcfcheckpt_from_payload_def field_simps')[1]
  by (auto simp: cfcheckpt_to_payload_def cfcheckpt_from_payload_def field_simps')

lemma data_payloads:
  "list_all (\<lambda>h. length h = 32) hs \<Longrightarrow> length stop = 32 \<Longrightarrow> locator_to_payload v hs stop = Inr bs \<Longrightarrow>
     locator_from_payload cls (bs @ rest) = Inr (cls v hs stop)"
  "list_all inv_vector_wf vs \<Longrightarrow> length vs \<le> MAX_INVENTORY_ENTRIES \<Longrightarrow> inv_to_payload vs = Inr bs \<Longrightarrow>
     inv_from_payload icls (bs @ rest) = Inr (icls vs)"
  "payload_wf H now (Headers headers) \<Longrightarrow> headers_to_payload headers = Inr bs \<Longrightarrow>
     headers_from_payload now (bs @ rest) = Inr (Headers headers)"
  "payload_wf H now (MerkleBlock h n hs flags) \<Longrightarrow> merkleblock_to_payload h n hs flags = Inr bs \<Longrightarrow>
     merkleblock_from_payload now (bs @ rest) = Inr (MerkleBlock h n hs flags)"
  "sendcmpct_to_payload announce version = Inr bs \<Longrightarrow> sendcmpct_from_payload (bs @ rest) = Inr (SendCmpct announce version)"
      apply (auto simp: locator_to_payload_def locator_from_payload_def field_simps' or_bytes_def)[1]
     apply (auto simp: inv_to_payload_def inv_from_payload_def field_simps' inv.read_many_write_all)[1]
    apply (auto simp: headers_to_payload_def headers_from_payload_def field_simps' header_entry.read_many_write_all)[1]
   apply (auto simp: merkleblock_to_payload_def merkleblock_from_payload_def field_simps' header.dec_enc)[1]
  by (auto simp: sendcmpct_to_payload_def sendcmpct_from_payload_def field_simps' read_le1 [of "of_bool announce"])


section \<open>Envelopes\<close>

lemma registry_lookup:
  "map_of (REGISTRY H now) ''getcfilters'' = Some (cf_range_from_payload GetCFilters)"
  "map_of (REGISTRY H now) ''cfilter'' = Some (cfilter_from_payload)"
  "map_of (REGISTRY H now) ''getcfheaders'' = Some (cf_range_from_payload GetCFHeaders)"
  "map_of (REGISTRY H now) ''cfheaders'' = Some (cfheaders_from_payload)"
  "map_of (REGISTRY H now) ''getcfcheckpt'' = Some (getcfcheckpt_from_payload)"
  "map_of (REGISTRY H now) ''cfcheckpt'' = Some (cfcheckpt_from_payload)"
  "map_of (REGISTRY H now) ''addr'' = Some (addr_from_payload)"
  "map_of (REGISTRY H now) ''feefilter'' = Some (feefilter_from_payload)"
  "map_of (REGISTRY H now) ''filteradd'' = Some (filteradd_from_payload)"
  "map_of (REGISTRY H now) ''filterclear'' = Some (\<lambda>_. Inr FilterClear)"
  "map_of (REGISTRY H now) ''filterload'' = Some (filterload_from_payload)"
  "map_of (REGISTRY H now) ''getaddr'' = Some (\<lambda>_. Inr GetAddr)"
  "map_of (REGISTRY H now) ''ping'' = Some (nonce_from_payload Ping)"
  "map_of (REGISTRY H now) ''pong'' = Some (nonce_from_payload Pong)"
  "map_of (REGISTRY H now) ''reject'' = Some (reject_from_payload)"
  "map_of (REGISTRY H now) ''sendheaders'' = Some (\<lambda>_. Inr SendHeaders)"
  "map_of (REGISTRY H now) ''sendaddrv2'' = Some (\<lambda>_. Inr SendAddrV2)"
  "map_of (REGISTRY H now) ''verack'' = Some (\<lambda>_. Inr VerAck)"
  "map_of (REGISTRY H now) ''wtxidrelay'' = Some (\<lambda>_. Inr WtxidRelay)"
  "map_of (REGISTRY H now) ''version'' = Some (version_from_payload now)"
  "map_of (REGISTRY H now) ''block'' = Some (wrapped_from_payload (block_from_bytes H now) BlockMessage)"
  "map_of (REGISTRY H now) ''blocktxn'' = Some (wrapped_from_payload block_txns_from_bytes BlockTxn)"
  "map_of (REGISTRY H now) ''cmpctblock'' = Some (wrapped_from_payload short_id_block_from_bytes CmpctBlock)"
  "map_of (REGISTRY H now) ''getblocktxn'' = Some (wrapped_from_payload block_txns_request_from_bytes GetBlockTxn)"
  "map_of (REGISTRY H now) ''getblocks'' = Some (locator_from_payload GetBlocks)"
  "map_of (REGISTRY H now) ''getdata'' = Some (inv_from_payload GetData)"
  "map_of (REGISTRY H now) ''getheaders'' = Some (locator_from_payload GetHeaders)"
  "map_of (REGISTRY H now) ''headers'' = Some (headers_from_payload now)"
  "map_of (REGISTRY H now) ''inv'' = Some (inv_from_payload Inv)"
  "map_of (REGISTRY H now) ''mempool'' = Some (\<lambda>_. Inr MemPool)"
  "map_of (REGISTRY H now) ''merkleblock'' = Some (merkleblock_from_payload now)"
  "map_of (REGISTRY H now) ''notfound'' = Some (inv_from_payload NotFound)"
  "map_of (REGISTRY H now) ''sendcmpct'' = Some (sendcmpct_from_payload)"
  "map_of (REGISTRY H now) ''tx'' = Some (wrapped_from_payload tx_from_bytes Txn)"
  by (simp_all add: REGISTRY_def)

lemmas payload_rules = control_payloads [where rest = "[]", simplified] version_payload [where rest = "[]", simplified]
  filter_payloads [where rest = "[]", simplified] data_payloads [where rest = "[]", simplified]
  blocks.dec_enc [where rest = "[]", simplified] block_txns.dec_enc [where rest = "[]", simplified]
  compact_block.dec_enc [where rest = "[]", simplified] txns_request.dec_enc [where rest = "[]", simplified]
  txs.dec_enc [where rest = "[]", simplified]

lemma payload_read_back:
  assumes "payload_wf H now p" and "to_payload p = Inr bs"
  shows "case map_of (REGISTRY H now) (command_of p) of
      None \<Rightarrow> p = UnknownMessage (command_of p) bs
    | Some from_payload \<Rightarrow> from_payload bs = Inr p"
proof (cases "\<exists>command raw. p = UnknownMessage command raw")
  case True
  then obtain command raw where p: "p = UnknownMessage command raw" by blast
  then have "map_of (REGISTRY H now) command = None" using assms(1) by (simp add: map_of_eq_None_iff)
  then show ?thesis using p assms(2) by simp
next
  case False
  then show ?thesis using assms
    by (cases p) (simp_all add: registry_lookup payload_rules wrapped_from_payload_def)
qed

lemma lower_lower: "lower_char (lower_char c) = lower_char c"
  by (simp add: lower_char_def Let_def)

lemma validate_command_bytes:
  assumes "validate_command command = Inr u"
  shows "encode_ascii command = Inr (ascii_bytes command) \<and> length command \<le> 12 \<and> (\<forall>b \<in> set (ascii_bytes command). b \<noteq> 0)"
proof -
  obtain bs where bs: "encode_ascii command = Inr bs" "length bs \<le> 12" "\<not> list_ex (\<lambda>b. unat b < 0x20 \<or> unat b > 0x7e) bs"
    using assms by (auto simp: validate_command_def split: sum.split_asm if_split_asm)
  then have "bs = ascii_bytes command" by (simp add: encode_ascii_eq)
  moreover have "\<forall>b \<in> set bs. b \<noteq> 0" using bs(3) by (auto simp: list_ex_iff)
  ultimately show ?thesis using bs by (simp add: ascii_bytes_def)
qed

lemma decode_padded_command:
  assumes "validate_command command = Inr u"
  shows "decode_command (ascii_bytes command @ replicate n 0) = Inr command"
proof -
  note c = validate_command_bytes [OF assms]
  have t: "takeWhile (\<lambda>b. b \<noteq> 0) (ascii_bytes command @ replicate n 0) = ascii_bytes command"
    using c by (simp add: takeWhile_append)
  have d: "dropWhile (\<lambda>b. b \<noteq> 0) (ascii_bytes command @ replicate n 0) = replicate n 0"
    using c by (simp add: dropWhile_append)
  show ?thesis using c decode_encode_ascii [of command]
    by (simp add: decode_command_def Let_def t d list_ex_iff)
qed

lemma header_fields:
  assumes "msg_header_new command n checksum magic = Inr h"
  shows "h = \<lparr>mh_command = map lower_char command, mh_size = n, mh_checksum = checksum, mh_magic = magic\<rparr>
    \<and> magic \<in> set ALLOWED_MAGIC \<and> validate_command (map lower_char command) = Inr () \<and> 0 \<le> n \<and> n \<le> MAX_PAYLOAD_SIZE
    \<and> length checksum = 4"
  using assms by (auto simp: msg_header_new_def validate_header_def result_iff)

lemma header_read_back:
  assumes h: "msg_header_new command n checksum magic = Inr h" and b: "msg_header_to_bytes h = Inr b"
  shows "length b = 24 \<and> msg_header_from_bytes b = Inr (h, [])"
proof -
  note f = header_fields [OF h]
  let ?c = "ascii_bytes (map lower_char command)"
  have c: "encode_ascii (map lower_char command) = Inr ?c" "length ?c \<le> 12"
    using validate_command_bytes [of "map lower_char command" "()"] f by (simp_all add: ascii_bytes_def)
  have magic: "length magic = 4" using f by (auto simp: ALLOWED_MAGIC_def)
  obtain sz where sz: "to_bytes_le 4 n = Inr sz" and b': "b = magic @ (?c @ replicate (12 - length ?c) 0) @ sz @ checksum"
    using b f c by (auto simp: msg_header_to_bytes_def)
  have len: "length sz = 4" "length (?c @ replicate (12 - length ?c) 0) = 12" using sz c(2) by (auto simp: result_iff)
  have "msg_header_new (map lower_char command) n checksum magic = Inr h"
    using h by (simp add: msg_header_new_def lower_lower comp_def)
  moreover have "read_stream 4 checksum = Inr (checksum, [])" using f read_stream_exact [of checksum] by simp
  moreover have "read_stream 12 ((?c @ replicate (12 - length ?c) 0) @ sz @ checksum) =
      Inr (?c @ replicate (12 - length ?c) 0, sz @ checksum)" using len(2) by (rule read_stream_append)
  moreover have "decode_command (?c @ replicate (12 - length ?c) 0) = Inr (map lower_char command)"
    using f by (blast intro: decode_padded_command)
  ultimately have "msg_header_from_bytes b = Inr (h, [])"
    using magic sz by (simp add: b' msg_header_from_bytes_def stream_simps del: append_assoc)
  moreover have "length b = 24" using b' len magic f by simp
  ultimately show ?thesis by simp
qed

text \<open>
  C15: what a node writes for a message the other side reads back from its socket: the same message, with whatever
  follows left for the next one. This holds for every class of the registry and for messages of unknown commands.
\<close>

theorem messages_round_trip:
  assumes "payload_wf H now p" and "map lower_char (command_of p) = command_of p" and "message_to_bytes H magic p = Inr bs"
  shows "recv_one H now magic None (bs @ rest) = Inr (p, rest)"
proof -
  obtain payload h hb where p: "to_payload p = Inr payload"
    "msg_header_new (command_of p) (int (length payload)) (msg_checksum H payload) magic = Inr h"
    "msg_header_to_bytes h = Inr hb" "bs = hb @ payload"
    using assms(3) by (auto simp: message_to_bytes_def)
  note h = header_fields [OF p(2)] and hb = header_read_back [OF p(2,3)]
  have "from_validated_envelope H now h payload = Inr p"
    using payload_read_back [OF assms(1) p(1)] h assms(2) by (auto simp: from_validated_envelope_def split: option.split_asm)
  moreover have "validate_package H h payload" using h by (simp add: validate_package_def)
  ultimately show ?thesis using h hb by (simp add: recv_one_def recv_exact_def p(4))
qed

lemma messages_round_trip_witness:
  "recv_one pad_hashes 5 [0xf9, 0xbe, 0xb4, 0xd9] None
     (projr (message_to_bytes pad_hashes [0xf9, 0xbe, 0xb4, 0xd9] (Ping 300)) @ [1, 2]) = Inr (Ping 300, [1, 2])"
proof (rule messages_round_trip)
  show "message_to_bytes pad_hashes [0xf9, 0xbe, 0xb4, 0xd9] (Ping 300) =
      Inr (projr (message_to_bytes pad_hashes [0xf9, 0xbe, 0xb4, 0xd9] (Ping 300)))"
    by code_simp
  show "map lower_char (command_of (Ping 300)) = command_of (Ping 300)" by code_simp
qed simp

section \<open>Framing\<close>

lemma recv_exact_split: "recv_exact n stream = Inr (x, r) \<Longrightarrow> stream = x @ r \<and> length x = n"
  by (simp add: recv_exact_def split: if_split_asm) (metis append_take_drop_id length_take min.absorb2 not_le)

lemma header_taken:
  assumes "msg_header_from_bytes b = Inr (h, rest)"
  shows "take 4 b = mh_magic h \<and> mh_magic h \<in> set ALLOWED_MAGIC \<and> le_val (take 4 (drop 16 b)) = mh_size h
    \<and> 0 \<le> mh_size h \<and> mh_size h \<le> MAX_PAYLOAD_SIZE \<and> take 4 (drop 20 b) = mh_checksum h
    \<and> (\<exists>command. decode_command (take 12 (drop 4 b)) = Inr command \<and> mh_command h = map lower_char command)"
proof -
  obtain magic s1 raw s2 command n s3 checksum s4 where r: "read_stream 4 b = Inr (magic, s1)"
    "read_stream 12 s1 = Inr (raw, s2)" "decode_command raw = Inr command" "read_little_int 4 s2 = Inr (n, s3)"
    "read_stream 4 s3 = Inr (checksum, s4)" "msg_header_new command n checksum magic = Inr h"
    using assms by (auto simp: msg_header_from_bytes_def)
  obtain szb where s: "b = magic @ raw @ szb @ checksum @ s4" "length magic = 4" "length raw = 12" "length szb = 4"
    "length checksum = 4" "n = le_val szb" using r(1,2,4,5) unfolding result_iff by auto
  show ?thesis using header_fields [OF r(6)] r(3) s by auto
qed

text \<open>
  C16: whatever a node takes from a socket was framed: its header has the magic number of the network, the expected
  command if there is one, a size of at most four million bytes that is the size of the payload, and the checksum of
  the payload; the message is what the class of that command parses from the payload, and the next message starts
  right after it.
\<close>

theorem received_message_framed:
  assumes "recv_one H now magic expected_command stream = Inr (p, rest)"
  shows "\<exists>header_bytes payload command. stream = header_bytes @ payload @ rest \<and> length header_bytes = 24
    \<and> take 4 header_bytes = magic \<and> magic \<in> set ALLOWED_MAGIC
    \<and> decode_command (take 12 (drop 4 header_bytes)) = Inr command
    \<and> (expected_command = None \<or> expected_command = Some (map lower_char command))
    \<and> le_val (take 4 (drop 16 header_bytes)) = int (length payload) \<and> length payload \<le> 4000000
    \<and> drop 20 header_bytes = take 4 (h_sha256 H (h_sha256 H payload))
    \<and> (case map_of (REGISTRY H now) (map lower_char command) of
         None \<Rightarrow> p = UnknownMessage (map lower_char command) payload
       | Some from_payload \<Rightarrow> from_payload payload = Inr p)"
proof -
  obtain hb s1 h r payload where t: "recv_exact 24 stream = Inr (hb, s1)" "msg_header_from_bytes hb = Inr (h, r)"
    "mh_magic h = magic" "expected_command = None \<or> expected_command = Some (mh_command h)"
    "recv_exact (nat (mh_size h)) s1 = Inr (payload, rest)" "validate_package H h payload"
    "from_validated_envelope H now h payload = Inr p"
    using assms by (auto simp: recv_one_def split: if_split_asm)
  have s: "stream = hb @ payload @ rest" "length hb = 24" "length payload = nat (mh_size h)"
    using recv_exact_split [OF t(1)] recv_exact_split [OF t(5)] by simp_all
  note f = header_taken [OF t(2)]
  obtain command where c: "decode_command (take 12 (drop 4 hb)) = Inr command" "mh_command h = map lower_char command"
    using f by blast
  have "take 4 (drop 20 hb) = drop 20 hb" using s by simp
  then have "drop 20 hb = take 4 (h_sha256 H (h_sha256 H payload))"
    using f t(6) by (simp add: validate_package_def msg_checksum_def hash256_def)
  moreover have "case map_of (REGISTRY H now) (map lower_char command) of
         None \<Rightarrow> p = UnknownMessage (map lower_char command) payload
       | Some from_payload \<Rightarrow> from_payload payload = Inr p"
    using t(7) c by (auto simp: from_validated_envelope_def split: option.split_asm)
  moreover have "le_val (take 4 (drop 16 hb)) = int (length payload)" "length payload \<le> 4000000"
    using f s(3) by (simp_all add: MAX_PAYLOAD_SIZE_def nat_le_iff)
  ultimately show ?thesis using s(1,2) c f t(3,4)
    by - (rule exI [of _ hb], rule exI [of _ payload], rule exI [of _ command], simp)
qed

lemma received_message_framed_witness:
  "\<exists>header_bytes payload command. projr (message_to_bytes pad_hashes [0xf9, 0xbe, 0xb4, 0xd9] VerAck)
      = header_bytes @ payload @ [] \<and> length header_bytes = 24
    \<and> take 4 header_bytes = [0xf9, 0xbe, 0xb4, 0xd9] \<and> [0xf9, 0xbe, 0xb4, 0xd9] \<in> set ALLOWED_MAGIC
    \<and> decode_command (take 12 (drop 4 header_bytes)) = Inr command
    \<and> (Some ''verack'' = None \<or> Some ''verack'' = Some (map lower_char command))
    \<and> le_val (take 4 (drop 16 header_bytes)) = int (length payload) \<and> length payload \<le> 4000000
    \<and> drop 20 header_bytes = take 4 (h_sha256 pad_hashes (h_sha256 pad_hashes payload))
    \<and> (case map_of (REGISTRY pad_hashes 5) (map lower_char command) of
         None \<Rightarrow> VerAck = UnknownMessage (map lower_char command) payload
       | Some from_payload \<Rightarrow> from_payload payload = Inr VerAck)"
  by (rule received_message_framed) code_simp

end
