(* ===== verification/Message_Types.thy ===== *)
theory Message_Types
  imports Message_Facts
begin

text \<open>
  The types of the wire format: what each parser guarantees of the value it returns, and that the serialisers are
  total on such values. The interface \<open>typed_codec\<close> is interpreted on every structure of the network messages;
  together they give that a node can write every message it has read.
\<close>

section \<open>Typed values\<close>

definition fits :: "nat \<Rightarrow> int \<Rightarrow> bool" where "fits n v \<longleftrightarrow> 0 \<le> v \<and> v < 256 ^ n"

definition count_fits :: "'a list \<Rightarrow> bool" where "count_fits xs \<longleftrightarrow> fits 8 (int (length xs))"

named_theorems typed_simps \<open>what readers guarantee and when writers return\<close>

lemma to_bytes_fits [typed_simps]: "(\<exists>b. to_bytes_le n v = Inr b) \<longleftrightarrow> fits n v"
  by (auto simp: to_bytes_le_def fits_def)

lemma to_bytes_be_fits [typed_simps]: "(\<exists>b. to_bytes_be n v = Inr b) \<longleftrightarrow> fits n v"
  by (auto simp: to_bytes_be_def fits_def)

lemma write_compact_fits [typed_simps]: "(\<exists>b. write_compact_size v = Inr b) \<longleftrightarrow> fits 8 v"
  by (auto simp: write_compact_size_Inr_iff fits_def)

lemma read_little_fits: "read_little_int n s = Inr (v, r) \<Longrightarrow> fits n v"
  using read_little_int_bounds by (simp add: fits_def)

lemma fits_up: "fits (Suc 0) v \<Longrightarrow> fits 8 v" "fits 2 v \<Longrightarrow> fits 8 v" "fits 4 v \<Longrightarrow> fits 8 v"
  by (simp_all add: fits_def)

lemma read_compact_fits: "read_compact_size s = Inr (v, r) \<Longrightarrow> fits 8 v"
  by (auto simp: read_compact_size_def split: if_split_asm dest!: read_little_fits intro: fits_up)

lemma nat_count_fits: "length xs = nat v \<Longrightarrow> fits 8 v \<Longrightarrow> count_fits xs"
  by (simp add: count_fits_def fits_def)

lemma fits_zero [simp]: "fits n 0"
  by (simp add: fits_def)

lemma fits_nat: "fits n v \<Longrightarrow> int (nat v) = v"
  by (simp add: fits_def)

lemma read_stream_length: "read_stream n s = Inr (x, r) \<Longrightarrow> length x = n"
  by (simp add: result_iff)

lemma joinR_total: "(\<exists>b. joinR ps = Inr b) \<longleftrightarrow> (\<forall>p \<in> set ps. \<exists>b. p = Inr b)"
  by (induction ps) (auto simp: result_iff)

lemma read_many_all:
  assumes "\<And>s x r. dec s = Inr (x, r) \<Longrightarrow> P x"
  shows "read_many dec n s = Inr (xs, r) \<Longrightarrow> list_all P xs \<and> length xs = n"
  by (induction n arbitrary: s xs) (auto dest: assms)

lemma write_all_total_on:
  assumes "\<And>x. P x \<Longrightarrow> \<exists>b. enc x = Inr b"
  shows "list_all P xs \<Longrightarrow> \<exists>bs. write_all enc xs = Inr bs"
  by (induction xs) (auto dest!: assms)

lemma bindR_total [typed_simps]: "(\<exists>y. bindR m (\<lambda>x. Inr (f x)) = Inr y) \<longleftrightarrow> (\<exists>x. m = Inr x)"
  by (auto simp: result_iff)

locale typed_codec =
  fixes enc :: "'a \<Rightarrow> bytes result"
    and dec :: "bytes \<Rightarrow> ('a \<times> bytes) result"
    and typed :: "'a \<Rightarrow> bool"
  assumes dec_typed: "dec s = Inr (x, r) \<Longrightarrow> typed x"
    and enc_total: "typed x \<Longrightarrow> \<exists>bs. enc x = Inr bs"
begin

lemma read_many_typed: "read_many dec n s = Inr (xs, r) \<Longrightarrow> list_all typed xs \<and> length xs = n"
  by (rule read_many_all [OF dec_typed])

lemma write_all_total: "list_all typed xs \<Longrightarrow> \<exists>bs. write_all enc xs = Inr bs"
  by (rule write_all_total_on [OF enc_total])

text \<open>A node that relays what it read never fails to write it.\<close>

lemma relay: "dec s = Inr (x, r) \<Longrightarrow> \<exists>bs. enc x = Inr bs"
  using dec_typed enc_total by blast

end

interpretation compact_t: typed_codec write_compact_size read_compact_size "fits 8"
  by unfold_locales (auto simp: read_compact_fits write_compact_fits)

interpretation data_t: typed_codec serialize_data deserialize_data count_fits
proof unfold_locales
  show "deserialize_data s = Inr (x, r) \<Longrightarrow> count_fits x" for s x r
    by (auto simp: deserialize_data_def dest!: read_compact_fits read_stream_length intro: nat_count_fits)
  show "count_fits x \<Longrightarrow> \<exists>bs. serialize_data x = Inr bs" for x
    using write_compact_fits [of "int (length x)"] by (auto simp: serialize_data_def count_fits_def)
qed

section \<open>Transactions\<close>

definition txin_typed :: "tx_in \<Rightarrow> bool" where
  "txin_typed i \<longleftrightarrow> length (in_txid i) = 32 \<and> fits 4 (in_vout i) \<and> count_fits (in_scriptsig i) \<and> fits 4 (in_sequence i)"

definition txout_typed :: "tx_out \<Rightarrow> bool" where
  "txout_typed t \<longleftrightarrow> fits 8 (out_amount t) \<and> count_fits (out_scriptpubkey t)"

definition witness_typed :: "witness \<Rightarrow> bool" where
  "witness_typed w \<longleftrightarrow> count_fits w \<and> list_all count_fits w"

definition tx_typed :: "tx \<Rightarrow> bool" where
  "tx_typed t \<longleftrightarrow> fits 4 (t_version t) \<and> fits 4 (t_locktime t) \<and> count_fits (t_inputs t) \<and> count_fits (t_outputs t)
     \<and> list_all txin_typed (t_inputs t) \<and> list_all txout_typed (t_outputs t) \<and> list_all witness_typed (t_witness t)
     \<and> (t_witness t = [] \<or> length (t_witness t) = length (t_inputs t))"

lemmas typed_reads = read_little_fits read_compact_fits read_stream_length

interpretation txin_t: typed_codec txin_to_bytes txin_from_bytes txin_typed
proof unfold_locales
  show "txin_from_bytes s = Inr (i, r) \<Longrightarrow> txin_typed i" for s i r
    by (auto simp: txin_from_bytes_def txin_typed_def dest!: typed_reads intro: nat_count_fits)
  show "txin_typed i \<Longrightarrow> \<exists>bs. txin_to_bytes i = Inr bs" for i
    by (simp add: txin_to_bytes_def joinR_total txin_typed_def count_fits_def typed_simps del: joinR_simps)
qed

interpretation txout_t: typed_codec txout_to_bytes txout_from_bytes txout_typed
proof unfold_locales
  show "txout_from_bytes s = Inr (t, r) \<Longrightarrow> txout_typed t" for s t r
    by (auto simp: txout_from_bytes_def txout_typed_def dest!: typed_reads data_t.dec_typed)
  show "txout_typed t \<Longrightarrow> \<exists>bs. txout_to_bytes t = Inr bs" for t
    using data_t.enc_total [of "out_scriptpubkey t"]
    by (simp add: txout_to_bytes_def joinR_total txout_typed_def typed_simps del: joinR_simps)
qed

interpretation witness_t: typed_codec witness_to_bytes witness_from_bytes witness_typed
proof unfold_locales
  show "witness_from_bytes s = Inr (w, r) \<Longrightarrow> witness_typed w" for s w r
    by (auto simp: witness_from_bytes_def witness_typed_def dest!: typed_reads data_t.read_many_typed intro: nat_count_fits)
  show "witness_typed w \<Longrightarrow> \<exists>bs. witness_to_bytes w = Inr bs" for w
    using data_t.write_all_total [of w] write_compact_fits [of "int (length w)"]
    by (auto simp: witness_to_bytes_def witness_typed_def count_fits_def)
qed

lemma tx_from_bytes_typed: "tx_from_bytes s = Inr (t, r) \<Longrightarrow> tx_typed t"
  by (auto simp: tx_from_bytes_def tx_typed_def intro: nat_count_fits
      dest!: typed_reads txin_t.read_many_typed txout_t.read_many_typed witness_t.read_many_typed split: if_split_asm)

lemma tx_parts_total:
  assumes "tx_typed t"
  shows "\<exists>b. get_input_bytes t = Inr b" "\<exists>b. get_output_bytes t = Inr b" "\<exists>b. get_witness_bytes t = Inr b"
  using assms txin_t.write_all_total [of "t_inputs t"] txout_t.write_all_total [of "t_outputs t"]
    witness_t.write_all_total [of "t_witness t"] write_compact_fits [of "int (length (t_inputs t))"]
    write_compact_fits [of "int (length (t_outputs t))"]
  by (auto simp: get_input_bytes_def get_output_bytes_def get_witness_bytes_def tx_typed_def count_fits_def)

interpretation tx_t: typed_codec tx_to_bytes tx_from_bytes tx_typed
proof unfold_locales
  show "tx_typed t \<Longrightarrow> \<exists>bs. tx_to_bytes t = Inr bs" for t
    using tx_parts_total [of t] by (auto simp: tx_to_bytes_def joinR_total tx_typed_def typed_simps simp del: joinR_simps)
qed (rule tx_from_bytes_typed)

section \<open>Blocks\<close>

definition header_typed :: "block_header \<Rightarrow> bool" where
  "header_typed h \<longleftrightarrow> fits 4 (bh_version h) \<and> length (bh_prev h) = 32 \<and> length (bh_merkle h) = 32 \<and> fits 4 (bh_time h)
     \<and> length (bh_bits h) = 4 \<and> fits 4 (bh_nonce h)"

lemma header_from_bytes_typed: "fits 4 now \<Longrightarrow> header_from_bytes now s = Inr (h, r) \<Longrightarrow> header_typed h"
  by (auto simp: header_from_bytes_def header_typed_def header_new_def or_int_def or_bytes_def BIP65_VERSION_def
      GENESIS_BLOCK_BITS_def fits_def dest!: typed_reads)

lemma header_to_bytes_total: "fits 4 (bh_version h) \<Longrightarrow> fits 4 (bh_time h) \<Longrightarrow> fits 4 (bh_nonce h) \<Longrightarrow> \<exists>b. header_to_bytes h = Inr b"
  by (simp add: header_to_bytes_def joinR_total typed_simps del: joinR_simps)

text \<open>The Merkle root of a parsed block is the one of its transactions.\<close>

definition block_typed :: "block \<Rightarrow> bool" where
  "block_typed b \<longleftrightarrow> fits 4 (b_version b) \<and> fits 4 (b_time b) \<and> fits 4 (b_nonce b) \<and> length (b_prev b) = 32
     \<and> length (b_bits b) = 4 \<and> list_all tx_typed (b_txs b) \<and> count_fits (b_txs b)"

lemma block_from_bytes_typed:
  assumes "fits 4 now" and "block_from_bytes H now s = Inr (b, r)" shows "block_typed b"
proof -
  obtain h s1 n s2 txs s3 where p: "header_from_bytes now s = Inr (h, s1)" "read_compact_size s1 = Inr (n, s2)"
    "read_many tx_from_bytes (nat n) s2 = Inr (txs, s3)" "block_from_header H now h txs = Inr b"
    using assms(2) by (auto simp: block_from_bytes_def)
  have "list_all tx_typed txs \<and> count_fits txs"
    using tx_t.read_many_typed [OF p(3)] read_compact_fits [OF p(2)] by (auto intro: nat_count_fits)
  then show ?thesis using header_from_bytes_typed [OF assms(1) p(1)] p(4) assms(1)
    by (auto simp: block_typed_def header_typed_def block_from_header_def block_new_def or_int_def or_bytes_def
        BLOCK_VERSION_def fits_def)
qed

lemma block_to_bytes_total: "block_typed b \<Longrightarrow> \<exists>bs. block_to_bytes b = Inr bs"
  using header_to_bytes_total [of "get_header b"] tx_t.write_all_total [of "b_txs b"]
  by (simp add: block_to_bytes_def joinR_total block_typed_def get_header_def count_fits_def typed_simps del: joinR_simps)

section \<open>Network data\<close>

definition net_fields_typed :: "net_addr \<Rightarrow> bool" where
  "net_fields_typed a \<longleftrightarrow> ip_wf (na_ip a) \<and> fits 2 (na_port a) \<and> fits 8 (na_services a)"

definition net_addr_typed :: "net_addr \<Rightarrow> bool" where
  "net_addr_typed a \<longleftrightarrow> net_fields_typed a \<and> fits 4 (na_time a)"

lemma read_big_fits: "read_big_int n s = Inr (v, r) \<Longrightarrow> fits n v"
  by (auto simp: read_big_int_def be_val_def fits_def dest!: read_stream_length) (metis length_rev le_val_bound)

lemma ip_from_netaddr_wf: "ip_from_netaddr raw = Inr ip \<Longrightarrow> ip_wf ip"
  by (auto simp: ip_from_netaddr_def ip_wf_def split: if_split_asm)

lemma read_net_fields_typed:
  "read_net_fields s = Inr ((services, ip, port), r) \<Longrightarrow> fits 8 services \<and> ip_wf ip \<and> fits 2 port"
  by (auto simp: read_net_fields_def dest!: read_little_fits read_big_fits ip_from_netaddr_wf)

interpretation version_addr_t: typed_codec net_addr_to_version_bytes "net_addr_from_version_bytes now" net_fields_typed for now
proof unfold_locales
  show "net_addr_from_version_bytes now s = Inr (a, r) \<Longrightarrow> net_fields_typed a" for s a r
    by (auto simp: net_addr_from_version_bytes_def net_fields_typed_def dest!: read_net_fields_typed)
  show "net_fields_typed a \<Longrightarrow> \<exists>bs. net_addr_to_version_bytes a = Inr bs" for a
    by (simp add: net_addr_to_version_bytes_def joinR_total net_fields_typed_def typed_simps del: joinR_simps)
qed

interpretation addr_t: typed_codec net_addr_to_bytes net_addr_from_bytes net_addr_typed
proof unfold_locales
  show "net_addr_from_bytes s = Inr (a, r) \<Longrightarrow> net_addr_typed a" for s a r
    by (auto simp: net_addr_from_bytes_def net_addr_typed_def net_fields_typed_def dest!: typed_reads read_net_fields_typed)
  show "net_addr_typed a \<Longrightarrow> \<exists>bs. net_addr_to_bytes a = Inr bs" for a
    using version_addr_t.enc_total [of a]
    by (simp add: net_addr_to_bytes_def joinR_total net_addr_typed_def typed_simps del: joinR_simps)
qed

interpretation inv_t: typed_codec inv_vector_to_bytes inv_vector_from_bytes inv_vector_wf
proof unfold_locales
  show "inv_vector_from_bytes s = Inr (v, r) \<Longrightarrow> inv_vector_wf v" for s v r
    by (auto simp: inv_vector_from_bytes_def inv_vector_new_def inv_vector_wf_def split: if_split_asm)
  show "inv_vector_wf v \<Longrightarrow> \<exists>bs. inv_vector_to_bytes v = Inr bs" for v
    by (auto simp: inv_vector_to_bytes_def joinR_total inv_vector_wf_def typed_simps INV_TYPES_def fits_def MSG_TX_def
        MSG_BLOCK_def MSG_FILTERED_BLOCK_def MSG_CMPCT_BLOCK_def MSG_WITNESS_TX_def MSG_WITNESS_BLOCK_def
        MSG_FILTERED_WITNESS_BLOCK_def simp del: joinR_simps)
qed

fun prefilled_typed :: "int \<Rightarrow> prefilled_tx list \<Rightarrow> bool" where
  "prefilled_typed prev_ind [] \<longleftrightarrow> True"
| "prefilled_typed prev_ind (p # ps) \<longleftrightarrow>
     fits 8 (pf_index p - prev_ind - 1) \<and> tx_typed (pf_tx p) \<and> prefilled_typed (pf_index p) ps"

lemma read_prefilled_typed: "read_prefilled k n s = Inr (ps, r) \<Longrightarrow> prefilled_typed k ps \<and> length ps = n"
  by (induction n arbitrary: k s ps) (auto simp: prefilled_from_bytes_def dest!: typed_reads tx_from_bytes_typed)

lemma write_prefilled_total: "prefilled_typed k ps \<Longrightarrow> \<exists>bs. write_prefilled k ps = Inr bs"
proof (induction ps arbitrary: k)
  case (Cons p ps)
  then show ?case using write_compact_fits [of "pf_index p - k - 1"] tx_t.enc_total [of "pf_tx p"]
    by (fastforce simp: prefilled_to_bytes_def fits_def)
qed simp

definition short_id_block_typed :: "short_id_block \<Rightarrow> bool" where
  "short_id_block_typed b \<longleftrightarrow> length (hs_header b) = 80 \<and> fits 8 (hs_nonce b) \<and> count_fits (hs_short_ids b)
     \<and> list_all (\<lambda>h. length h = 6) (hs_short_ids b) \<and> count_fits (hs_prefilled b) \<and> prefilled_typed (- 1) (hs_prefilled b)"

lemma read_shortids_typed: "read_many shortid_from_bytes n s = Inr (xs, r) \<Longrightarrow> list_all (\<lambda>h. length h = 6) xs \<and> length xs = n"
  by (rule read_many_all) (auto simp: shortid_from_bytes_def dest: read_stream_length)

interpretation compact_block_t: typed_codec short_id_block_to_bytes short_id_block_from_bytes short_id_block_typed
proof unfold_locales
  show "short_id_block_from_bytes s = Inr (b, r) \<Longrightarrow> short_id_block_typed b" for s b r
    by (auto simp: short_id_block_from_bytes_def short_id_block_new_def short_id_block_typed_def count_fits_def fits_nat
        dest!: typed_reads read_shortids_typed read_prefilled_typed split: if_split_asm)
  show "short_id_block_typed b \<Longrightarrow> \<exists>bs. short_id_block_to_bytes b = Inr bs" for b
    using write_prefilled_total [of "- 1" "hs_prefilled b"]
    by (simp add: short_id_block_to_bytes_def joinR_total short_id_block_typed_def count_fits_def typed_simps del: joinR_simps)
qed

definition block_txns_typed :: "block_txns \<Rightarrow> bool" where
  "block_txns_typed b \<longleftrightarrow> length (bt_hash b) = 32 \<and> count_fits (bt_txs b) \<and> list_all tx_typed (bt_txs b)"

interpretation block_txns_t: typed_codec block_txns_to_bytes block_txns_from_bytes block_txns_typed
proof unfold_locales
  show "block_txns_from_bytes s = Inr (b, r) \<Longrightarrow> block_txns_typed b" for s b r
    by (auto simp: block_txns_from_bytes_def block_txns_typed_def intro: nat_count_fits dest!: typed_reads tx_t.read_many_typed)
  show "block_txns_typed b \<Longrightarrow> \<exists>bs. block_txns_to_bytes b = Inr bs" for b
    using tx_t.write_all_total [of "bt_txs b"] write_compact_fits [of "int (length (bt_txs b))"]
    by (auto simp: block_txns_to_bytes_def block_txns_typed_def count_fits_def)
qed

text \<open>The requested indices ascend, so that each difference can be written.\<close>

definition txns_request_typed :: "block_txns_request \<Rightarrow> bool" where
  "txns_request_typed q \<longleftrightarrow> length (br_block q) = 32 \<and> count_fits (br_indices q)
     \<and> list_all (fits 8) (encode_differential (br_indices q))"

lemma encode_decode_differential:
  "list_all (\<lambda>d. 0 \<le> d) ds \<Longrightarrow> encode_differential (decode_differential ds) = ds"
proof -
  have "list_all (\<lambda>d. 0 \<le> d) ds \<Longrightarrow> - 1 \<le> k \<Longrightarrow> encode_differential_from k (decode_differential_from k ds) = ds" for k
    by (induction ds arbitrary: k) (auto simp: Let_def)
  then show "list_all (\<lambda>d. 0 \<le> d) ds \<Longrightarrow> ?thesis" by (simp add: encode_differential_def decode_differential_def)
qed

lemma decode_differential_length: "length (decode_differential ds) = length ds"
proof -
  have "length (decode_differential_from k ds) = length ds" for k by (induction ds arbitrary: k) (auto simp: Let_def)
  then show ?thesis by (simp add: decode_differential_def)
qed

interpretation txns_request_t: typed_codec block_txns_request_to_bytes block_txns_request_from_bytes txns_request_typed
proof unfold_locales
  have nonneg: "list_all (fits 8) ds \<Longrightarrow> encode_differential (decode_differential ds) = ds" for ds
    by (rule encode_decode_differential) (auto simp: list_all_iff fits_def)
  show "block_txns_request_from_bytes s = Inr (q, r) \<Longrightarrow> txns_request_typed q" for s q r
    by (auto simp: block_txns_request_from_bytes_def txns_request_typed_def count_fits_def fits_nat nonneg decode_differential_length
        dest!: typed_reads compact_t.read_many_typed)
  show "txns_request_typed q \<Longrightarrow> \<exists>bs. block_txns_request_to_bytes q = Inr bs" for q
    using compact_t.write_all_total [of "encode_differential (br_indices q)"] write_compact_fits [of "int (length (br_indices q))"]
    by (auto simp: block_txns_request_to_bytes_def txns_request_typed_def count_fits_def)
qed

section \<open>Payloads\<close>

definition hashes_typed :: "bytes list \<Rightarrow> bool" where
  "hashes_typed hs \<longleftrightarrow> count_fits hs \<and> list_all (\<lambda>h. length h = 32) hs"

lemma read_hashes_typed: "read_hashes n s = Inr (hs, r) \<Longrightarrow> list_all (\<lambda>h. length h = 32) hs \<and> length hs = n"
  unfolding read_hashes_def by (rule read_many_all) (auto dest: read_stream_length)

definition text_typed :: "string \<Rightarrow> bool" where
  "text_typed s \<longleftrightarrow> count_fits s \<and> list_all (\<lambda>c. (of_char c :: nat) < 128) s"

lemma decode_ascii_typed: "decode_ascii bs = Inr s \<Longrightarrow> list_all (\<lambda>c. (of_char c :: nat) < 128) s \<and> length s = length bs"
  by (auto simp: decode_ascii_def list_all_iff split: if_split_asm) (meson le_less_trans mod_less_eq_dividend)

lemma encode_ascii_total: "list_all (\<lambda>c. (of_char c :: nat) < 128) s \<Longrightarrow> \<exists>bs. encode_ascii s = Inr bs \<and> length bs = length s"
  by (simp add: encode_ascii_def ascii_bytes_def)

fun payload_typed :: "payload \<Rightarrow> bool" where
  "payload_typed (Addr as) \<longleftrightarrow> list_all net_addr_typed as \<and> length as \<le> MAX_ADDR_ENTRIES"
| "payload_typed (FeeFilter n) \<longleftrightarrow> fits 8 n"
| "payload_typed (FilterAdd element) \<longleftrightarrow> count_fits element"
| "payload_typed (FilterLoad bitfilter n tweak flags) \<longleftrightarrow> count_fits bitfilter \<and> fits 4 n \<and> fits 4 tweak \<and> fits 1 flags"
| "payload_typed (Ping n) \<longleftrightarrow> fits 8 n"
| "payload_typed (Pong n) \<longleftrightarrow> fits 8 n"
| "payload_typed (Reject m code reason extra) \<longleftrightarrow> text_typed m \<and> fits 1 code \<and> text_typed reason
     \<and> length extra = (if m = ''block'' \<or> m = ''tx'' then 32 else 0)"
| "payload_typed (Version v) \<longleftrightarrow> fits 4 (vf_version v) \<and> fits 8 (vf_services v) \<and> fits 8 (vf_time v)
     \<and> net_fields_typed (vf_remote v) \<and> net_fields_typed (vf_local v) \<and> fits 8 (vf_nonce v) \<and> text_typed (vf_user_agent v)
     \<and> fits 4 (vf_last_block v)"
| "payload_typed (GetCFilters f h stop) \<longleftrightarrow> fits 1 f \<and> fits 4 h \<and> length stop = 32"
| "payload_typed (CFilter f h d) \<longleftrightarrow> fits 1 f \<and> length h = 32 \<and> count_fits d"
| "payload_typed (GetCFHeaders f h stop) \<longleftrightarrow> fits 1 f \<and> fits 4 h \<and> length stop = 32"
| "payload_typed (CFHeaders f stop prev hs) \<longleftrightarrow> fits 1 f \<and> length stop = 32 \<and> length prev = 32 \<and> hashes_typed hs"
| "payload_typed (GetCFCheckpt f stop) \<longleftrightarrow> fits 1 f \<and> length stop = 32"
| "payload_typed (CFCheckpt f stop hs) \<longleftrightarrow> fits 1 f \<and> length stop = 32 \<and> hashes_typed hs"
| "payload_typed (BlockMessage b) \<longleftrightarrow> block_typed b"
| "payload_typed (BlockTxn b) \<longleftrightarrow> block_txns_typed b"
| "payload_typed (CmpctBlock b) \<longleftrightarrow> short_id_block_typed b"
| "payload_typed (GetBlockTxn q) \<longleftrightarrow> txns_request_typed q"
| "payload_typed (GetBlocks v hs stop) \<longleftrightarrow> fits 4 v \<and> hashes_typed hs \<and> length stop = 32"
| "payload_typed (GetData vs) \<longleftrightarrow> list_all inv_vector_wf vs \<and> length vs \<le> MAX_INVENTORY_ENTRIES"
| "payload_typed (GetHeaders v hs stop) \<longleftrightarrow> fits 4 v \<and> hashes_typed hs \<and> length stop = 32"
| "payload_typed (Headers hs) \<longleftrightarrow> list_all header_typed hs \<and> length hs \<le> MAX_HEADERS_RESULTS"
| "payload_typed (Inv vs) \<longleftrightarrow> list_all inv_vector_wf vs \<and> length vs \<le> MAX_INVENTORY_ENTRIES"
| "payload_typed (MerkleBlock h n hs flags) \<longleftrightarrow> header_typed h \<and> fits 4 n \<and> hashes_typed hs \<and> count_fits flags"
| "payload_typed (NotFound vs) \<longleftrightarrow> list_all inv_vector_wf vs \<and> length vs \<le> MAX_INVENTORY_ENTRIES"
| "payload_typed (SendCmpct announce n) \<longleftrightarrow> fits 8 n"
| "payload_typed (Txn t) \<longleftrightarrow> tx_typed t"
| "payload_typed _ \<longleftrightarrow> True"

lemma small_count_fits: "length xs \<le> n \<Longrightarrow> n \<le> 1000000 \<Longrightarrow> \<exists>b. write_compact_size (int (length xs)) = Inr b"
  by (simp add: write_compact_fits fits_def)

lemmas payload_limits = MAX_ADDR_ENTRIES_def MAX_INVENTORY_ENTRIES_def MAX_HEADERS_RESULTS_def

lemma control_payloads_typed:
  "addr_from_payload s = Inr p \<Longrightarrow> payload_typed p" "feefilter_from_payload s = Inr p \<Longrightarrow> payload_typed p"
  "filteradd_from_payload s = Inr p \<Longrightarrow> payload_typed p" "filterload_from_payload s = Inr p \<Longrightarrow> payload_typed p"
  "nonce_from_payload Ping s = Inr p \<Longrightarrow> payload_typed p" "nonce_from_payload Pong s = Inr p \<Longrightarrow> payload_typed p"
        apply (auto simp: addr_from_payload_def dest!: addr_t.read_many_typed)[1]
       apply (auto simp: feefilter_from_payload_def dest!: typed_reads)[1]
      apply (auto simp: filteradd_from_payload_def count_fits_def fits_nat dest!: typed_reads)[1]
     apply (auto simp: filterload_from_payload_def count_fits_def fits_nat dest!: typed_reads)[1]
  by (auto simp: nonce_from_payload_def dest!: typed_reads)

lemma reject_typed: "reject_from_payload s = Inr p \<Longrightarrow> payload_typed p"
  by (auto simp: reject_from_payload_def text_typed_def count_fits_def fits_nat dest!: typed_reads decode_ascii_typed
      split: if_split_asm)

lemma rstrip_length: "length (rstrip_zeros bs) \<le> length bs"
  by (simp add: rstrip_zeros_def length_dropWhile_le order.trans [OF length_dropWhile_le])

lemma version_typed: "version_from_payload now s = Inr p \<Longrightarrow> payload_typed p"
proof -
  have short: "fits 8 k \<Longrightarrow> length agent = nat k \<Longrightarrow> fits 8 (int (length (rstrip_zeros agent)))" for k agent
    using rstrip_length [of agent] by (simp add: fits_def) linarith
  show "version_from_payload now s = Inr p \<Longrightarrow> ?thesis"
    by (auto simp: version_from_payload_def text_typed_def count_fits_def intro: short
        dest!: typed_reads decode_ascii_typed version_addr_t.dec_typed)
qed

lemma filter_payloads_typed:
  "cf_range_from_payload GetCFilters s = Inr p \<Longrightarrow> payload_typed p" "cf_range_from_payload GetCFHeaders s = Inr p \<Longrightarrow> payload_typed p"
  "cfilter_from_payload s = Inr p \<Longrightarrow> payload_typed p" "cfheaders_from_payload s = Inr p \<Longrightarrow> payload_typed p"
  "getcfcheckpt_from_payload s = Inr p \<Longrightarrow> payload_typed p" "cfcheckpt_from_payload s = Inr p \<Longrightarrow> payload_typed p"
       apply (auto simp: cf_range_from_payload_def dest!: typed_reads)[2]
     apply (auto simp: cfilter_from_payload_def count_fits_def fits_nat dest!: typed_reads)[1]
    apply (auto simp: cfheaders_from_payload_def hashes_typed_def count_fits_def fits_nat dest!: typed_reads read_hashes_typed)[1]
   apply (auto simp: getcfcheckpt_from_payload_def dest!: typed_reads)[1]
  by (auto simp: cfcheckpt_from_payload_def hashes_typed_def count_fits_def fits_nat dest!: typed_reads read_hashes_typed)

lemma header_entries_typed:
  "fits 4 now \<Longrightarrow> read_many (read_header_entry now) n s = Inr (hs, r) \<Longrightarrow> list_all header_typed hs \<and> length hs = n"
  by (rule read_many_all) (auto simp: read_header_entry_def dest!: header_from_bytes_typed split: if_split_asm)

lemma data_payloads_typed:
  "locator_from_payload GetBlocks s = Inr p \<Longrightarrow> payload_typed p" "locator_from_payload GetHeaders s = Inr p \<Longrightarrow> payload_typed p"
  "inv_from_payload Inv s = Inr p \<Longrightarrow> payload_typed p" "inv_from_payload GetData s = Inr p \<Longrightarrow> payload_typed p"
  "inv_from_payload NotFound s = Inr p \<Longrightarrow> payload_typed p" "sendcmpct_from_payload s = Inr p \<Longrightarrow> payload_typed p"
  "fits 4 now \<Longrightarrow> headers_from_payload now s = Inr p \<Longrightarrow> payload_typed p"
        apply (auto simp: locator_from_payload_def or_bytes_def hashes_typed_def count_fits_def fits_nat dest!: typed_reads read_hashes_typed)[2]
      apply (auto simp: inv_from_payload_def dest!: inv_t.read_many_typed)[3]
   apply (auto simp: sendcmpct_from_payload_def dest!: typed_reads)[1]
  by (auto simp: headers_from_payload_def dest!: header_entries_typed)

lemma merkleblock_typed:
  assumes "fits 4 now" shows "merkleblock_from_payload now s = Inr p \<Longrightarrow> payload_typed p"
  by (auto simp: merkleblock_from_payload_def hashes_typed_def count_fits_def fits_nat
      dest!: typed_reads read_hashes_typed header_from_bytes_typed [OF assms])

lemma wrapped_payloads_typed:
  "fits 4 now \<Longrightarrow> wrapped_from_payload (block_from_bytes H now) BlockMessage s = Inr p \<Longrightarrow> payload_typed p"
  "wrapped_from_payload block_txns_from_bytes BlockTxn s = Inr p \<Longrightarrow> payload_typed p"
  "wrapped_from_payload short_id_block_from_bytes CmpctBlock s = Inr p \<Longrightarrow> payload_typed p"
  "wrapped_from_payload block_txns_request_from_bytes GetBlockTxn s = Inr p \<Longrightarrow> payload_typed p"
  "wrapped_from_payload tx_from_bytes Txn s = Inr p \<Longrightarrow> payload_typed p"
  by (auto simp: wrapped_from_payload_def
      dest!: block_from_bytes_typed block_txns_t.dec_typed compact_block_t.dec_typed txns_request_t.dec_typed tx_t.dec_typed)

lemma registry_typed:
  assumes "fits 4 now" and "(command, from_payload) \<in> set (REGISTRY H now)" and "from_payload s = Inr p"
  shows "payload_typed p"
proof -
  note rules = control_payloads_typed reject_typed version_typed filter_payloads_typed data_payloads_typed(1-6)
    data_payloads_typed(7) [OF assms(1)] merkleblock_typed [OF assms(1)] wrapped_payloads_typed(1) [OF assms(1)]
    wrapped_payloads_typed(2-)
  have "payload_typed p" if "from_payload \<in> snd ` set (REGISTRY H now)"
    using that assms(3) unfolding REGISTRY_def by (auto dest: rules)
  then show ?thesis using assms(2) by force
qed

lemma text_total: "text_typed s \<Longrightarrow> \<exists>b n. encode_ascii s = Inr b \<and> write_compact_size (int (length b)) = Inr n"
  using encode_ascii_total [of s] by (metis count_fits_def text_typed_def write_compact_fits)

lemma inv_payload_total: "list_all inv_vector_wf vs \<Longrightarrow> length vs \<le> MAX_INVENTORY_ENTRIES \<Longrightarrow> \<exists>bs. inv_to_payload vs = Inr bs"
  using small_count_fits [of vs 50000] inv_t.write_all_total [of vs] by (auto simp: inv_to_payload_def payload_limits)

lemma filter_payload_total:
  "fits 1 f \<Longrightarrow> fits 4 h \<Longrightarrow> \<exists>bs. cf_range_to_payload f h stop = Inr bs"
  "fits 1 f \<Longrightarrow> count_fits d \<Longrightarrow> \<exists>bs. cfilter_to_payload f stop d = Inr bs"
  "fits 1 f \<Longrightarrow> hashes_typed hs \<Longrightarrow> \<exists>bs. cfheaders_to_payload f stop prev hs = Inr bs"
  "fits 1 f \<Longrightarrow> \<exists>bs. getcfcheckpt_to_payload f stop = Inr bs"
  "fits 1 f \<Longrightarrow> hashes_typed hs \<Longrightarrow> \<exists>bs. cfcheckpt_to_payload f stop hs = Inr bs"
  by (simp_all add: cf_range_to_payload_def cfilter_to_payload_def cfheaders_to_payload_def getcfcheckpt_to_payload_def
      cfcheckpt_to_payload_def joinR_total hashes_typed_def count_fits_def typed_simps del: joinR_simps)

lemmas object_payload_total = block_to_bytes_total block_txns_t.enc_total compact_block_t.enc_total txns_request_t.enc_total
  tx_t.enc_total

lemma payload_total:
  assumes "payload_typed p" shows "\<exists>bs. to_payload p = Inr bs"
  using assms
proof (cases p)
  case (Addr as)
  then show ?thesis using assms small_count_fits [of as 1000] addr_t.write_all_total [of as]
    by (auto simp: addr_to_payload_def payload_limits)
next
  case (Reject m code reason extra)
  then show ?thesis using assms text_total [of m] text_total [of reason]
    by (auto simp: reject_to_payload_def joinR_total typed_simps simp del: joinR_simps)
next
  case (Version v)
  then show ?thesis using assms text_total [of "vf_user_agent v"] version_addr_t.enc_total [of "vf_remote v"]
      version_addr_t.enc_total [of "vf_local v"]
    by (auto simp: version_to_payload_def joinR_total typed_simps simp del: joinR_simps)
next
  case (Headers hs)
  then have "list_all header_typed hs" using assms by simp
  then have "\<exists>bs. write_all write_header_entry hs = Inr bs"
    by (rule write_all_total_on [rotated]) (auto simp: write_header_entry_def header_typed_def dest!: header_to_bytes_total)
  then show ?thesis using assms Headers small_count_fits [of hs 2000] by (auto simp: headers_to_payload_def payload_limits)
next
  case (MerkleBlock h n hs flags)
  then have "\<exists>b. joinR [to_bytes_le 4 n, write_compact_size (int (length hs)), Inr (concat hs),
      write_compact_size (int (length flags)), Inr flags] = Inr b"
    using assms by (simp add: joinR_total hashes_typed_def count_fits_def typed_simps del: joinR_simps)
  then show ?thesis using assms MerkleBlock header_to_bytes_total [of h]
    by (auto simp: merkleblock_to_payload_def header_typed_def simp del: joinR_simps)
next
  case (FilterAdd element)
  then show ?thesis using assms by (simp add: filteradd_to_payload_def count_fits_def typed_simps)
next
  case (SendCmpct announce n)
  then show ?thesis using assms
    by (simp add: sendcmpct_to_payload_def joinR_total typed_simps fits_def del: joinR_simps)
qed (use assms inv_payload_total filter_payload_total object_payload_total in
    \<open>auto simp: filterload_to_payload_def locator_to_payload_def joinR_total hashes_typed_def count_fits_def typed_simps
      simp del: joinR_simps\<close>)

text \<open>
  C14: every message a node takes from a socket is well typed: each integer is in the range of its field, each hash has
  32 bytes, each address its 4 or 16, text is ASCII, lists respect the limits of their class, a transaction has no or
  one witness per input, and the indices of compact blocks ascend. So no message can be received that the node would
  fail to serialise again.
\<close>

theorem received_messages_typed:
  assumes "0 \<le> now" and "now < 2 ^ 32" and "recv_one H now magic expected_command stream = Inr (p, rest)"
  shows "payload_typed p \<and> (\<exists>bs. to_payload p = Inr bs)"
proof -
  have now: "fits 4 now" using assms(1,2) by (simp add: fits_def)
  obtain header payload where e: "from_validated_envelope H now header payload = Inr p"
    using assms(3) by (auto simp: recv_one_def split: if_split_asm)
  have "payload_typed p"
  proof (cases "map_of (REGISTRY H now) (mh_command header)")
    case None
    then show ?thesis using e by (auto simp: from_validated_envelope_def)
  next
    case (Some from_payload)
    then show ?thesis using e registry_typed [OF now map_of_SomeD [OF Some]] by (simp add: from_validated_envelope_def)
  qed
  then show ?thesis using payload_total by blast
qed

lemma received_messages_typed_witness:
  "payload_typed (FeeFilter 1000) \<and> (\<exists>bs. to_payload (FeeFilter 1000) = Inr bs)"
proof (rule received_messages_typed)
  show "recv_one pad_hashes 5 [0x0b, 0x11, 0x09, 0x07] (Some ''feefilter'')
      (projr (message_to_bytes pad_hashes [0x0b, 0x11, 0x09, 0x07] (FeeFilter 1000)) @ [7]) = Inr (FeeFilter 1000, [7])"
    by code_simp
qed simp_all

end
