(* ===== verification/Peers.thy ===== *)
theory Peers
  imports Network_Data Double_Arith "HOL-Library.AList" "HOL-Library.Char_ord" "HOL-Library.List_Lexorder"
    "HOL-Library.Product_Lexorder"
begin

text \<open>
  \<^verbatim>\<open>src/src/network/peer.py\<close>, \<^verbatim>\<open>peer_discipline.py\<close>, \<^verbatim>\<open>inventory.py\<close> and the state of \<^verbatim>\<open>keepalive.py\<close>. A dictionary
  is an association list in the order of insertion. Times are floats, kept as rationals, and a sum or difference of
  times is rounded (\<open>Double_Arith\<close>); a reading of the clock is an argument. The parser of \<^verbatim>\<open>ipaddress\<close> is the
  parameter \<open>ip_text\<close>: the canonical text of an address, or \<open>None\<close> where it raises \<^verbatim>\<open>ValueError\<close>. Locks only
  order the operations and are left out.
\<close>

type_synonym peer_key = "string \<times> int"
type_synonym ip_parser = "string \<Rightarrow> string option"

section \<open>Peers\<close>

datatype peer_state = DISCONNECTED | CONNECTING | CONNECTED | HANDSHAKING | READY | DISCONNECTING

record peer =
  pr_host :: string
  pr_port :: int
  pr_state :: peer_state
  pr_protocol_version :: "int option"
  pr_services :: "int option"
  pr_user_agent :: "string option"
  pr_nonce :: "int option"
  pr_local_nonce :: "int option"
  pr_last_block :: "int option"
  pr_last_seen :: rat
  pr_last_success :: "rat option"
  pr_last_fail :: "rat option"
  pr_fail_count :: int

definition new_peer :: "rat \<Rightarrow> string \<Rightarrow> int \<Rightarrow> peer" where
  "new_peer now host port =
     \<lparr>pr_host = host, pr_port = port, pr_state = DISCONNECTED, pr_protocol_version = None, pr_services = None,
      pr_user_agent = None, pr_nonce = None, pr_local_nonce = None, pr_last_block = None, pr_last_seen = now,
      pr_last_success = None, pr_last_fail = None, pr_fail_count = 0\<rparr>"

definition peer_key_of :: "peer \<Rightarrow> peer_key" where
  "peer_key_of p = (pr_host p, pr_port p)"

text \<open>A time that is not given is read from the clock, \<open>now\<close>.\<close>

definition given_or :: "rat \<Rightarrow> rat option \<Rightarrow> rat" where
  "given_or now t = (case t of None \<Rightarrow> now | Some x \<Rightarrow> x)"

definition note_activity :: "rat \<Rightarrow> rat option \<Rightarrow> peer \<Rightarrow> peer" where
  "note_activity now observed_at p = p\<lparr>pr_last_seen := max (pr_last_seen p) (given_or now observed_at)\<rparr>"

definition transition :: "peer_state \<Rightarrow> rat option \<Rightarrow> peer \<Rightarrow> peer" where
  "transition st observed_at p =
     (let p1 = p\<lparr>pr_state := st\<rparr> in
      case observed_at of None \<Rightarrow> p1 | Some t \<Rightarrow> note_activity t (Some t) p1)"

definition record_peer_success :: "rat \<Rightarrow> rat option \<Rightarrow> peer \<Rightarrow> peer" where
  "record_peer_success now succeeded_at p =
     (let t = given_or now succeeded_at in note_activity now (Some t) (p\<lparr>pr_last_success := Some t\<rparr>))"

definition record_peer_failure :: "rat \<Rightarrow> rat option \<Rightarrow> peer \<Rightarrow> peer" where
  "record_peer_failure now failed_at p =
     (let t = given_or now failed_at in
      transition DISCONNECTED (Some t) (p\<lparr>pr_last_fail := Some t, pr_fail_count := pr_fail_count p + 1\<rparr>))"

section \<open>Misbehaviour\<close>

definition DEFAULT_BAN_THRESHOLD :: int where "DEFAULT_BAN_THRESHOLD = 100"
definition DEFAULT_BAN_DURATION :: rat where "DEFAULT_BAN_DURATION = 24 * 60 * 60"

datatype misbehaviour = MALFORMED_MESSAGE | PROTOCOL_VIOLATION | INVALID_DATA

fun violation_label :: "misbehaviour \<Rightarrow> string" where
  "violation_label MALFORMED_MESSAGE = ''malformed-message''"
| "violation_label PROTOCOL_VIOLATION = ''protocol-violation''"
| "violation_label INVALID_DATA = ''invalid-data''"

fun violation_score :: "misbehaviour \<Rightarrow> int" where
  "violation_score MALFORMED_MESSAGE = 20"
| "violation_score PROTOCOL_VIOLATION = 20"
| "violation_score INVALID_DATA = 50"

record peer_ban =
  pb_host :: string
  pb_score :: int
  pb_reason :: string
  pb_until :: rat

record discipline =
  pd_threshold :: int
  pd_duration :: rat
  pd_scores :: "(string \<times> int) list"
  pd_bans :: "(string \<times> peer_ban) list"

definition discipline_new :: "int \<Rightarrow> rat \<Rightarrow> discipline result" where
  "discipline_new ban_threshold ban_duration =
     (if ban_threshold \<le> 0 then Inl ValueError
      else if ban_duration \<le> 0 then Inl ValueError
      else Inr \<lparr>pd_threshold = ban_threshold, pd_duration = ban_duration, pd_scores = [], pd_bans = []\<rparr>)"

definition normalize_host :: "ip_parser \<Rightarrow> string \<Rightarrow> string" where
  "normalize_host ip_text host =
     (case ip_text host of
        Some t \<Rightarrow> t
      | None \<Rightarrow> map lower_char (rev (dropWhile (\<lambda>c. c = CHR ''.'') (rev host))))"

definition expire_ban :: "rat \<Rightarrow> string \<Rightarrow> discipline \<Rightarrow> discipline" where
  "expire_ban now host d =
     (case map_of (pd_bans d) host of
        None \<Rightarrow> d
      | Some b \<Rightarrow>
          if pb_until b \<le> now
          then d\<lparr>pd_bans := AList.delete host (pd_bans d), pd_scores := AList.delete host (pd_scores d)\<rparr>
          else d)"

definition score_in :: "discipline \<Rightarrow> string \<Rightarrow> int" where
  "score_in d host = (case map_of (pd_scores d) host of None \<Rightarrow> 0 | Some n \<Rightarrow> n)"

text \<open>The clock is read for the expiry and, later, for the end of a new ban.\<close>

definition record_violation ::
  "ip_parser \<Rightarrow> rat \<Rightarrow> rat \<Rightarrow> string \<Rightarrow> misbehaviour \<Rightarrow> discipline \<Rightarrow> int \<times> discipline" where
  "record_violation ip_text now now1 host violation d =
     (let normalized = normalize_host ip_text host;
          d1 = expire_ban now normalized d;
          new_score = score_in d1 normalized + violation_score violation;
          d2 = d1\<lparr>pd_scores := AList.update normalized new_score (pd_scores d1)\<rparr>;
          d3 = (if new_score \<ge> pd_threshold d2
                then d2\<lparr>pd_bans := AList.update normalized
                  \<lparr>pb_host = normalized, pb_score = new_score, pb_reason = violation_label violation,
                   pb_until = round_double (now1 + pd_duration d2)\<rparr> (pd_bans d2)\<rparr>
                else d2)
      in (new_score, d3))"

definition host_score :: "ip_parser \<Rightarrow> rat \<Rightarrow> string \<Rightarrow> discipline \<Rightarrow> int \<times> discipline" where
  "host_score ip_text now host d =
     (let normalized = normalize_host ip_text host; d1 = expire_ban now normalized d in (score_in d1 normalized, d1))"

definition is_banned :: "ip_parser \<Rightarrow> rat \<Rightarrow> string \<Rightarrow> discipline \<Rightarrow> bool \<times> discipline" where
  "is_banned ip_text now host d =
     (let normalized = normalize_host ip_text host; d1 = expire_ban now normalized d in
      (map_of (pd_bans d1) normalized \<noteq> None, d1))"

definition get_ban :: "ip_parser \<Rightarrow> rat \<Rightarrow> string \<Rightarrow> discipline \<Rightarrow> peer_ban option \<times> discipline" where
  "get_ban ip_text now host d =
     (let normalized = normalize_host ip_text host; d1 = expire_ban now normalized d in
      (map_of (pd_bans d1) normalized, d1))"

definition active_bans :: "rat \<Rightarrow> discipline \<Rightarrow> peer_ban list \<times> discipline" where
  "active_bans now d =
     (let d1 = fold (expire_ban now) (map fst (pd_bans d)) d in
      (map (\<lambda>host. the (map_of (pd_bans d1) host)) (sort (map fst (pd_bans d1))), d1))"

section \<open>Requested inventory\<close>

type_synonym inv_key = "string \<times> bytes"

definition TX_INVENTORY_TYPES :: "int list" where "TX_INVENTORY_TYPES = [MSG_TX, MSG_WITNESS_TX]"
definition BLOCK_INVENTORY_TYPES :: "int list" where
  "BLOCK_INVENTORY_TYPES = [MSG_BLOCK, MSG_FILTERED_BLOCK, MSG_CMPCT_BLOCK, MSG_WITNESS_BLOCK, MSG_FILTERED_WITNESS_BLOCK]"

definition inventory_key :: "inv_vector \<Rightarrow> inv_key option" where
  "inventory_key v =
     (if iv_type v \<in> set TX_INVENTORY_TYPES then Some (''tx'', iv_hash v)
      else if iv_type v \<in> set BLOCK_INVENTORY_TYPES then Some (''block'', iv_hash v)
      else None)"

record inv_request =
  ir_vector :: inv_vector
  ir_peer :: peer_key
  ir_at :: rat

record inflight =
  if_timeout :: rat
  if_requests :: "(inv_key \<times> inv_request) list"

definition inflight_new :: "rat \<Rightarrow> inflight result" where
  "inflight_new timeout = (if timeout \<le> 0 then Inl ValueError else Inr \<lparr>if_timeout = timeout, if_requests = []\<rparr>)"

definition request_live :: "rat \<Rightarrow> inflight \<Rightarrow> inv_request \<Rightarrow> bool" where
  "request_live now s q \<longleftrightarrow> \<not> round_double (now - ir_at q) \<ge> if_timeout s"

definition expire_requests :: "rat \<Rightarrow> inflight \<Rightarrow> nat \<times> inflight" where
  "expire_requests now s =
     (length (filter (\<lambda>(_, q). \<not> request_live now s q) (if_requests s)),
      s\<lparr>if_requests := filter (\<lambda>(_, q). request_live now s q) (if_requests s)\<rparr>)"

definition request_count :: "rat \<Rightarrow> inflight \<Rightarrow> nat \<times> inflight" where
  "request_count now s = (let s1 = snd (expire_requests now s) in (length (if_requests s1), s1))"

definition claim :: "rat \<Rightarrow> inv_vector \<Rightarrow> peer_key \<Rightarrow> inflight \<Rightarrow> bool \<times> inflight" where
  "claim now vector pk s =
     (case inventory_key vector of
        None \<Rightarrow> (False, s)
      | Some k \<Rightarrow>
          let s1 = snd (expire_requests now s) in
          if map_of (if_requests s1) k \<noteq> None then (False, s1)
          else (True, s1\<lparr>if_requests := AList.update k \<lparr>ir_vector = vector, ir_peer = pk, ir_at = now\<rparr> (if_requests s1)\<rparr>))"

definition requested :: "rat \<Rightarrow> inv_vector \<Rightarrow> inflight \<Rightarrow> bool \<times> inflight" where
  "requested now vector s =
     (case inventory_key vector of
        None \<Rightarrow> (False, s)
      | Some k \<Rightarrow> let s1 = snd (expire_requests now s) in (map_of (if_requests s1) k \<noteq> None, s1))"

definition release_key :: "inv_key \<Rightarrow> inflight \<Rightarrow> bool \<times> inflight" where
  "release_key k s = (map_of (if_requests s) k \<noteq> None, s\<lparr>if_requests := AList.delete k (if_requests s)\<rparr>)"

definition release :: "inv_vector \<Rightarrow> inflight \<Rightarrow> bool \<times> inflight" where
  "release vector s = (case inventory_key vector of None \<Rightarrow> (False, s) | Some k \<Rightarrow> release_key k s)"

definition release_peer :: "peer_key \<Rightarrow> inflight \<Rightarrow> nat \<times> inflight" where
  "release_peer pk s =
     (length (filter (\<lambda>(_, q). ir_peer q = pk) (if_requests s)),
      s\<lparr>if_requests := filter (\<lambda>(_, q). ir_peer q \<noteq> pk) (if_requests s)\<rparr>)"

section \<open>Keepalive\<close>

text \<open>A state holds a reference to the peer object: its number, \<open>ks_peer\<close>.\<close>

record keepalive_state =
  ks_peer :: nat
  ks_next_ping_at :: rat
  ks_pending_nonce :: "int option"
  ks_ping_sent_at :: "rat option"

record keepalive =
  kp_ping_interval :: rat
  kp_pong_timeout :: rat
  kp_states :: "(peer_key \<times> keepalive_state) list"

definition DEFAULT_PING_INTERVAL :: rat where "DEFAULT_PING_INTERVAL = 120"
definition DEFAULT_PONG_TIMEOUT :: rat where "DEFAULT_PONG_TIMEOUT = 20"

definition keepalive_new :: "rat \<Rightarrow> rat \<Rightarrow> rat \<Rightarrow> keepalive result" where
  "keepalive_new ping_interval pong_timeout poll_interval =
     (if ping_interval \<le> 0 then Inl ValueError
      else if pong_timeout \<le> 0 then Inl ValueError
      else if poll_interval \<le> 0 then Inl ValueError
      else Inr \<lparr>kp_ping_interval = ping_interval, kp_pong_timeout = pong_timeout, kp_states = []\<rparr>)"

definition pending_count :: "keepalive \<Rightarrow> nat" where
  "pending_count k = length (filter (\<lambda>(_, st). ks_pending_nonce st \<noteq> None) (kp_states k))"

definition pending_nonce :: "peer_key \<Rightarrow> keepalive \<Rightarrow> int option" where
  "pending_nonce pk k = (case map_of (kp_states k) pk of None \<Rightarrow> None | Some st \<Rightarrow> ks_pending_nonce st)"

definition forget_peer :: "peer_key \<Rightarrow> keepalive \<Rightarrow> keepalive" where
  "forget_peer pk k = k\<lparr>kp_states := AList.delete pk (kp_states k)\<rparr>"

text \<open>
  The part of \<^verbatim>\<open>ping\<close> under the lock: a ping that is still pending is not repeated; otherwise \<open>nonce\<close>, drawn by
  the factory, becomes the pending one and the answer says that it is to be sent.
\<close>

definition begin_ping :: "rat \<Rightarrow> int \<Rightarrow> peer_key \<Rightarrow> nat \<Rightarrow> keepalive \<Rightarrow> (int \<times> bool) \<times> keepalive" where
  "begin_ping now nonce pk obj k =
     (let st = (case map_of (kp_states k) pk of
            None \<Rightarrow> \<lparr>ks_peer = obj, ks_next_ping_at = now, ks_pending_nonce = None, ks_ping_sent_at = None\<rparr>
          | Some st \<Rightarrow> st) in
      case ks_pending_nonce st of
        Some pending \<Rightarrow> ((pending, False), k)
      | None \<Rightarrow> ((nonce, True), k\<lparr>kp_states := AList.update pk
          (st\<lparr>ks_pending_nonce := Some nonce, ks_ping_sent_at := Some now\<rparr>) (kp_states k)\<rparr>))"

definition handle_pong :: "rat \<Rightarrow> peer_key \<Rightarrow> int \<Rightarrow> keepalive \<Rightarrow> bool \<times> keepalive" where
  "handle_pong now pk nonce k =
     (case map_of (kp_states k) pk of
        None \<Rightarrow> (False, k)
      | Some st \<Rightarrow>
          if ks_pending_nonce st \<noteq> Some nonce then (False, k)
          else (True, k\<lparr>kp_states := AList.update pk
            (st\<lparr>ks_pending_nonce := None, ks_ping_sent_at := None,
                ks_next_ping_at := round_double (now + kp_ping_interval k)\<rparr>) (kp_states k)\<rparr>))"

text \<open>
  The part of \<^verbatim>\<open>maintain\<close> under the lock: \<open>ready\<close> are the ready peers, with the numbers of their objects. The answer
  is the peers whose pong is overdue, whose states are dropped, and those a ping is due for.
\<close>

definition missed_pong :: "rat \<Rightarrow> keepalive \<Rightarrow> keepalive_state \<Rightarrow> bool" where
  "missed_pong now k st \<longleftrightarrow>
     (case (ks_pending_nonce st, ks_ping_sent_at st) of
        (Some _, Some sent) \<Rightarrow> round_double (now - sent) \<ge> kp_pong_timeout k
      | _ \<Rightarrow> False)"

definition watch_peer :: "rat \<Rightarrow> rat \<Rightarrow> peer_key \<times> nat \<Rightarrow> (peer_key \<times> keepalive_state) list \<Rightarrow> (peer_key \<times> keepalive_state) list" where
  "watch_peer now interval = (\<lambda>(pk, obj) states.
     if map_of states pk \<noteq> None then states
     else states @ [(pk, \<lparr>ks_peer = obj, ks_next_ping_at = round_double (now + interval), ks_pending_nonce = None,
       ks_ping_sent_at = None\<rparr>)])"

definition keepalive_pass ::
  "rat \<Rightarrow> (peer_key \<times> nat) list \<Rightarrow> keepalive \<Rightarrow> (peer_key \<times> nat) list \<times> (peer_key \<times> nat) list \<times> keepalive" where
  "keepalive_pass now ready k =
     (let known = filter (\<lambda>(pk, _). pk \<in> set (map fst ready)) (kp_states k);
          watched = fold (watch_peer now (kp_ping_interval k)) ready known;
          timed_out = filter (\<lambda>(_, st). missed_pong now k st) watched;
          kept = filter (\<lambda>(_, st). \<not> missed_pong now k st) watched;
          due = filter (\<lambda>(_, st). ks_pending_nonce st = None \<and> now \<ge> ks_next_ping_at st) kept in
      (map (\<lambda>(pk, st). (pk, ks_peer st)) timed_out, map (\<lambda>(pk, st). (pk, ks_peer st)) due, k\<lparr>kp_states := kept\<rparr>))"

end
