(* ===== verification/Address_Book.thy ===== *)
theory Address_Book
  imports Peers
begin

unbundle bit_operations_syntax

text \<open>
  \<^verbatim>\<open>src/src/network/peer_address_book.py\<close> and the retry times of \<^verbatim>\<open>peer_manager.py\<close>. An entry is an object; the book
  holds it under its key and nobody keeps a reference longer than a call, so an operation answers the key. The
  diagnostic text of an entry and its display are left out. \<open>ip_show\<close>, the text of an address, belongs to
  \<^verbatim>\<open>ipaddress\<close> like \<open>ip_text\<close>.
\<close>

section \<open>Entries\<close>

datatype peer_source = MANUAL | INBOUND | DNS_SEED | ADDR_SOURCE

fun source_value :: "peer_source \<Rightarrow> string" where
  "source_value MANUAL = ''manual''"
| "source_value INBOUND = ''inbound''"
| "source_value DNS_SEED = ''dns_seed''"
| "source_value ADDR_SOURCE = ''addr''"

record addr_entry =
  ae_host :: string
  ae_port :: int
  ae_sources :: "peer_source list"
  ae_services :: int
  ae_first_seen :: rat
  ae_last_seen :: rat
  ae_last_success :: "rat option"
  ae_last_failure :: "rat option"
  ae_success_count :: int
  ae_fail_count :: int
  ae_consecutive_failures :: int
  ae_protocol_version :: "int option"
  ae_user_agent :: "string option"
  ae_last_block :: "int option"

definition entry_key :: "addr_entry \<Rightarrow> peer_key" where "entry_key e = (ae_host e, ae_port e)"

record address_book =
  ab_default_port :: int
  ab_entries :: "(peer_key \<times> addr_entry) list"

definition validate_port :: "int \<Rightarrow> int result" where
  "validate_port port = (if \<not> (1 \<le> port \<and> port \<le> 65535) then Inl ValueError else Inr port)"

definition address_book_new :: "int \<Rightarrow> address_book result" where
  "address_book_new default_port =
     bindR (validate_port default_port) (\<lambda>p. Inr \<lparr>ab_default_port = p, ab_entries = []\<rparr>)"

definition parse_host :: "ip_parser \<Rightarrow> string \<Rightarrow> string result" where
  "parse_host ip_text host = (case ip_text host of None \<Rightarrow> Inl ValueError | Some t \<Rightarrow> Inr t)"

text \<open>The key under which an endpoint is known.\<close>

definition endpoint :: "ip_parser \<Rightarrow> address_book \<Rightarrow> string \<Rightarrow> int option \<Rightarrow> peer_key result" where
  "endpoint ip_text book host port =
     bindR (parse_host ip_text host) (\<lambda>h.
     bindR (validate_port (case port of None \<Rightarrow> ab_default_port book | Some p \<Rightarrow> p)) (\<lambda>p. Inr (h, p)))"

definition new_entry :: "peer_key \<Rightarrow> peer_source \<Rightarrow> int \<Rightarrow> rat \<Rightarrow> addr_entry" where
  "new_entry k source services observed_at =
     \<lparr>ae_host = fst k, ae_port = snd k, ae_sources = [source], ae_services = services, ae_first_seen = observed_at,
      ae_last_seen = observed_at, ae_last_success = None, ae_last_failure = None, ae_success_count = 0,
      ae_fail_count = 0, ae_consecutive_failures = 0, ae_protocol_version = None, ae_user_agent = None,
      ae_last_block = None\<rparr>"

definition change_entry :: "peer_key \<Rightarrow> (addr_entry \<Rightarrow> addr_entry) \<Rightarrow> address_book \<Rightarrow> address_book" where
  "change_entry k f book = book\<lparr>ab_entries := AList.map_entry k f (ab_entries book)\<rparr>"

definition book_add ::
  "ip_parser \<Rightarrow> rat \<Rightarrow> string \<Rightarrow> int option \<Rightarrow> peer_source \<Rightarrow> int \<Rightarrow> rat option \<Rightarrow> address_book
   \<Rightarrow> (peer_key \<times> address_book) result" where
  "book_add ip_text now host port source services seen_at book =
     bindR (endpoint ip_text book host port) (\<lambda>k.
       let observed_at = given_or now seen_at in
       Inr (k, case map_of (ab_entries book) k of
           None \<Rightarrow> book\<lparr>ab_entries := ab_entries book @ [(k, new_entry k source services observed_at)]\<rparr>
         | Some _ \<Rightarrow> change_entry k (\<lambda>e. e\<lparr>ae_sources := List.insert source (ae_sources e),
             ae_services := ae_services e OR services, ae_last_seen := max (ae_last_seen e) observed_at\<rparr>) book))"

text \<open>A field of the peer that is not known leaves the entry as it is.\<close>

definition known_or :: "'a option \<Rightarrow> 'a option \<Rightarrow> 'a option" where
  "known_or new old = (case new of None \<Rightarrow> old | Some _ \<Rightarrow> new)"

definition add_peer ::
  "ip_parser \<Rightarrow> rat \<Rightarrow> peer \<Rightarrow> peer_source \<Rightarrow> rat option \<Rightarrow> address_book \<Rightarrow> (peer_key \<times> address_book) result" where
  "add_peer ip_text now p source seen_at book =
     bindR (book_add ip_text now (pr_host p) (Some (pr_port p)) source (case pr_services p of None \<Rightarrow> 0 | Some n \<Rightarrow> n)
              (Some (given_or (pr_last_seen p) seen_at)) book) (\<lambda>(k, book1).
       Inr (k, change_entry k (\<lambda>e. e\<lparr>
           ae_protocol_version := known_or (pr_protocol_version p) (ae_protocol_version e),
           ae_user_agent := known_or (pr_user_agent p) (ae_user_agent e),
           ae_last_block := known_or (pr_last_block p) (ae_last_block e)\<rparr>) book1))"

text \<open>\<^verbatim>\<open>merge_net_addresses\<close>: the keys of the addresses that could be added.\<close>

fun merge_addresses ::
  "ip_parser \<Rightarrow> (ip_addr \<Rightarrow> string) \<Rightarrow> rat \<Rightarrow> net_addr list \<Rightarrow> address_book \<Rightarrow> peer_key list \<times> address_book" where
  "merge_addresses ip_text ip_show now [] book = ([], book)"
| "merge_addresses ip_text ip_show now (a # as) book =
     (case book_add ip_text now (ip_show (na_ip a)) (Some (na_port a)) ADDR_SOURCE (na_services a) (Some (of_int (na_time a))) book of
        Inl e \<Rightarrow> merge_addresses ip_text ip_show now as book
      | Inr (k, book1) \<Rightarrow>
          let (ks, book2) = merge_addresses ip_text ip_show now as book1 in (k # ks, book2))"

definition merge_net_addresses ::
  "ip_parser \<Rightarrow> (ip_addr \<Rightarrow> string) \<Rightarrow> rat \<Rightarrow> net_addr list \<Rightarrow> address_book \<Rightarrow> peer_key list \<times> address_book" where
  "merge_net_addresses ip_text ip_show now addresses book =
     (let (ks, book1) = merge_addresses ip_text ip_show now addresses book in (sort (remdups ks), book1))"

definition book_get :: "ip_parser \<Rightarrow> address_book \<Rightarrow> string \<Rightarrow> int option \<Rightarrow> addr_entry option result" where
  "book_get ip_text book host port =
     bindR (endpoint ip_text book host port) (\<lambda>k. Inr (map_of (ab_entries book) k))"

section \<open>Outcomes of connections\<close>

text \<open>The peer changes first, and stays changed when the book raises.\<close>

definition book_success ::
  "ip_parser \<Rightarrow> rat \<Rightarrow> peer_source \<Rightarrow> rat option \<Rightarrow> peer \<times> address_book \<Rightarrow> peer_key result \<times> peer \<times> address_book" where
  "book_success ip_text now source succeeded_at = (\<lambda>(p, book).
     let t = given_or now succeeded_at; p1 = record_peer_success now (Some t) p in
     case add_peer ip_text now p1 source (Some t) book of
       Inl e \<Rightarrow> (Inl e, p1, book)
     | Inr (k, book1) \<Rightarrow> (Inr k, p1, change_entry k (\<lambda>e. e\<lparr>ae_last_success := Some t,
         ae_success_count := ae_success_count e + 1, ae_consecutive_failures := 0\<rparr>) book1))"

definition book_failure ::
  "ip_parser \<Rightarrow> rat \<Rightarrow> peer_source \<Rightarrow> rat option \<Rightarrow> peer \<times> address_book \<Rightarrow> peer_key result \<times> peer \<times> address_book" where
  "book_failure ip_text now source failed_at = (\<lambda>(p, book).
     let t = given_or now failed_at; p1 = record_peer_failure now (Some t) p in
     case add_peer ip_text now p1 source (Some t) book of
       Inl e \<Rightarrow> (Inl e, p1, book)
     | Inr (k, book1) \<Rightarrow> (Inr k, p1, change_entry k (\<lambda>e. e\<lparr>ae_last_failure := Some t,
         ae_fail_count := ae_fail_count e + 1, ae_consecutive_failures := ae_consecutive_failures e + 1\<rparr>) book1))"

definition record_message ::
  "ip_parser \<Rightarrow> rat \<Rightarrow> string \<Rightarrow> int option \<Rightarrow> rat option \<Rightarrow> address_book \<Rightarrow> (peer_key \<times> address_book) result" where
  "record_message ip_text now host port observed_at book =
     (let t = given_or now observed_at in
      bindR (endpoint ip_text book host port) (\<lambda>k.
        case map_of (ab_entries book) k of
          None \<Rightarrow> book_add ip_text now (fst k) (Some (snd k)) MANUAL 0 (Some t) book
        | Some _ \<Rightarrow> Inr (k, change_entry k (\<lambda>e. e\<lparr>ae_last_seen := max (ae_last_seen e) t\<rparr>) book)))"

section \<open>Candidates\<close>

definition candidate_key :: "addr_entry \<Rightarrow> int \<times> rat \<times> rat \<times> peer_key" where
  "candidate_key e = (ae_fail_count e, - (case ae_last_success e of None \<Rightarrow> 0 | Some t \<Rightarrow> t), - ae_last_seen e, entry_key e)"

definition candidates :: "int option \<Rightarrow> peer_key list \<Rightarrow> address_book \<Rightarrow> addr_entry list result" where
  "candidates limit exclude book =
     (let ordered = sort_key candidate_key (filter (\<lambda>e. entry_key e \<notin> set exclude) (map snd (ab_entries book))) in
      case limit of
        None \<Rightarrow> Inr ordered
      | Some n \<Rightarrow> if n < 0 then Inl ValueError else Inr (take (nat n) ordered))"

section \<open>Retry times\<close>

record peer_manager =
  pm_target_outbound :: int
  pm_base_backoff :: rat
  pm_max_backoff :: rat
  pm_jitter_fraction :: rat
  pm_retry_at :: "(peer_key \<times> rat) list"

definition peer_manager_new :: "int \<Rightarrow> rat \<Rightarrow> rat \<Rightarrow> rat \<Rightarrow> rat \<Rightarrow> peer_manager result" where
  "peer_manager_new target_outbound base_backoff max_backoff jitter_fraction poll_interval =
     (if target_outbound < 0 then Inl ValueError
      else if base_backoff \<le> 0 \<or> max_backoff < base_backoff then Inl ValueError
      else if \<not> (0 \<le> jitter_fraction \<and> jitter_fraction \<le> 1) then Inl ValueError
      else if poll_interval \<le> 0 then Inl ValueError
      else Inr \<lparr>pm_target_outbound = target_outbound, pm_base_backoff = base_backoff, pm_max_backoff = max_backoff,
                pm_jitter_fraction = jitter_fraction, pm_retry_at = []\<rparr>)"

text \<open>\<open>r\<close> is the random number, from 0 up to but not including 1.\<close>

definition retry_delay :: "peer_manager \<Rightarrow> int \<Rightarrow> rat \<Rightarrow> rat" where
  "retry_delay pm failures r =
     (let exponent = min (failures - 1) 30;
          base_delay = min (pm_max_backoff pm) (round_double (pm_base_backoff pm * 2 ^ nat exponent));
          jitter_scale = round_double (1 + round_double (pm_jitter_fraction pm * round_double (2 * r - 1))) in
      min (pm_max_backoff pm) (max 0 (round_double (base_delay * jitter_scale))))"

definition schedule_retry ::
  "ip_parser \<Rightarrow> address_book \<Rightarrow> rat \<Rightarrow> peer_key \<Rightarrow> rat \<Rightarrow> peer_manager \<Rightarrow> peer_manager result" where
  "schedule_retry ip_text book r pk now pm =
     bindR (book_get ip_text book (fst pk) (Some (snd pk))) (\<lambda>e.
       let failures = max 1 (case e of None \<Rightarrow> 1 | Some x \<Rightarrow> ae_consecutive_failures x) in
       Inr (pm\<lparr>pm_retry_at := AList.update pk (round_double (now + retry_delay pm failures r)) (pm_retry_at pm)\<rparr>))"

end
