(* ===== verification/Book_Facts.thy ===== *)
theory Book_Facts
  imports Address_Book
begin

text \<open>The address book over all its runs, and the retry times.\<close>

section \<open>The book\<close>

definition entry_ok :: "ip_parser \<Rightarrow> peer_key \<Rightarrow> addr_entry \<Rightarrow> bool" where
  "entry_ok ip k e \<longleftrightarrow> entry_key e = k \<and> (\<exists>text. ip text = Some (ae_host e)) \<and> 1 \<le> ae_port e \<and> ae_port e \<le> 65535
     \<and> ae_sources e \<noteq> [] \<and> distinct (ae_sources e) \<and> ae_first_seen e \<le> ae_last_seen e
     \<and> 0 \<le> ae_success_count e \<and> 0 \<le> ae_consecutive_failures e \<and> ae_consecutive_failures e \<le> ae_fail_count e"

definition book_ok :: "ip_parser \<Rightarrow> address_book \<Rightarrow> bool" where
  "book_ok ip book \<longleftrightarrow> 1 \<le> ab_default_port book \<and> ab_default_port book \<le> 65535
     \<and> distinct (map fst (ab_entries book)) \<and> (\<forall>(k, e) \<in> set (ab_entries book). entry_ok ip k e)"

lemma in_map_entry:
  "(j, e) \<in> set (AList.map_entry k f al) \<Longrightarrow> (j, e) \<in> set al \<or> j = k \<and> (\<exists>e0. (k, e0) \<in> set al \<and> e = f e0)"
  by (induction al) (auto split: if_split_asm)

lemma map_entry_keys: "map fst (AList.map_entry k f al) = map fst al"
  by (induction al) auto

lemma change_entry_ok:
  assumes "book_ok ip book" and "\<And>e. entry_ok ip k e \<Longrightarrow> entry_ok ip k (f e)"
  shows "book_ok ip (change_entry k f book)"
proof -
  have "entry_ok ip j e" if "(j, e) \<in> set (AList.map_entry k f (ab_entries book))" for j e
    using in_map_entry [OF that] assms by (auto simp: book_ok_def)
  then show ?thesis using assms(1) by (auto simp: book_ok_def change_entry_def map_entry_keys)
qed

lemma endpoint_ok:
  assumes "endpoint ip book host port = Inr k" shows "(\<exists>text. ip text = Some (fst k)) \<and> 1 \<le> snd k \<and> snd k \<le> 65535"
  using assms by (auto simp: endpoint_def parse_host_def validate_port_def split: option.split_asm if_split_asm)

lemma book_add_ok:
  assumes "book_ok ip book" and "book_add ip now host port source services seen_at book = Inr (k, book1)"
  shows "book_ok ip book1"
proof -
  have k: "endpoint ip book host port = Inr k" using assms(2) by (auto simp: book_add_def Let_def)
  show ?thesis
  proof (cases "map_of (ab_entries book) k")
    case None
    then have "book1 = book\<lparr>ab_entries := ab_entries book @ [(k, new_entry k source services (given_or now seen_at))]\<rparr>"
      using assms(2) k by (simp add: book_add_def Let_def)
    moreover have "entry_ok ip k (new_entry k source services (given_or now seen_at))"
      using endpoint_ok [OF k] by (simp add: entry_ok_def new_entry_def entry_key_def)
    moreover have "k \<notin> fst ` set (ab_entries book)" using None by (simp add: map_of_eq_None_iff)
    ultimately show ?thesis using assms(1) by (auto simp: book_ok_def)
  next
    case (Some e)
    then have "book1 = change_entry k (\<lambda>e. e\<lparr>ae_sources := List.insert source (ae_sources e),
        ae_services := ae_services e OR services, ae_last_seen := max (ae_last_seen e) (given_or now seen_at)\<rparr>) book"
      using assms(2) k by (simp add: book_add_def Let_def)
    then show ?thesis using change_entry_ok [OF assms(1)]
      by (auto simp: entry_ok_def entry_key_def max_def List.insert_def)
  qed
qed

lemma add_peer_ok: "book_ok ip book \<Longrightarrow> add_peer ip now p source seen_at book = Inr (k, book1) \<Longrightarrow> book_ok ip book1"
  by (auto simp: add_peer_def entry_ok_def entry_key_def intro!: change_entry_ok dest: book_add_ok)

lemma merge_ok: "book_ok ip book \<Longrightarrow> book_ok ip (snd (merge_addresses ip ip_show now as book))"
  by (induction as arbitrary: book) (auto simp: Let_def case_prod_beta split: sum.split dest: book_add_ok)

lemma book_success_ok: "book_ok ip book \<Longrightarrow> book_ok ip (snd (snd (book_success ip now source t (p, book))))"
  by (auto simp: book_success_def Let_def entry_ok_def entry_key_def split: sum.split intro!: change_entry_ok dest: add_peer_ok)

lemma book_failure_ok: "book_ok ip book \<Longrightarrow> book_ok ip (snd (snd (book_failure ip now source t (p, book))))"
  by (auto simp: book_failure_def Let_def entry_ok_def entry_key_def split: sum.split intro!: change_entry_ok dest: add_peer_ok)

lemma record_message_ok: "book_ok ip book \<Longrightarrow> record_message ip now host port t book = Inr (k, book1) \<Longrightarrow> book_ok ip book1"
  by (auto simp: record_message_def Let_def entry_ok_def entry_key_def max_def split: option.split_asm
      intro!: change_entry_ok dest: book_add_ok)

section \<open>Runs\<close>

datatype book_call =
    Add rat string "int option" peer_source int "rat option" | Merge rat "net_addr list"
  | Meet rat peer peer_source "rat option" | Success rat peer_source "rat option" peer
  | Failure rat peer_source "rat option" peer | Note rat string "int option" "rat option"

fun book_step :: "ip_parser \<Rightarrow> (ip_addr \<Rightarrow> string) \<Rightarrow> book_call \<Rightarrow> address_book \<Rightarrow> address_book" where
  "book_step ip ip_show (Add now host port source services seen_at) book =
     (case book_add ip now host port source services seen_at book of Inl e \<Rightarrow> book | Inr (k, book1) \<Rightarrow> book1)"
| "book_step ip ip_show (Merge now as) book = snd (merge_net_addresses ip ip_show now as book)"
| "book_step ip ip_show (Meet now p source seen_at) book =
     (case add_peer ip now p source seen_at book of Inl e \<Rightarrow> book | Inr (k, book1) \<Rightarrow> book1)"
| "book_step ip ip_show (Success now source t p) book = snd (snd (book_success ip now source t (p, book)))"
| "book_step ip ip_show (Failure now source t p) book = snd (snd (book_failure ip now source t (p, book)))"
| "book_step ip ip_show (Note now host port t) book =
     (case record_message ip now host port t book of Inl e \<Rightarrow> book | Inr (k, book1) \<Rightarrow> book1)"

lemma book_step_ok: "book_ok ip book \<Longrightarrow> book_ok ip (book_step ip ip_show c book)"
  by (cases c) (auto simp: merge_net_addresses_def Let_def case_prod_beta merge_ok book_success_ok book_failure_ok
      split: sum.split dest: book_add_ok add_peer_ok record_message_ok)

lemma book_run_ok: "book_ok ip book \<Longrightarrow> book_ok ip (fold (book_step ip ip_show) cs book)"
  by (induction cs arbitrary: book) (simp_all add: book_step_ok)

definition candidate_order :: "addr_entry list \<Rightarrow> bool" where
  "candidate_order es \<longleftrightarrow> sorted (map candidate_key es)"

text \<open>
  C23: whatever a node does with its address book, every endpoint is there once, under the canonical text of its
  address and a valid port, was seen first before it was seen last, and never counts more failures in a row than
  failures; and the candidates for a connection are these endpoints without the excluded ones, each once, ordered by
  failures, then by the last success, then by the last sighting.
\<close>

theorem address_book_consistent:
  assumes "address_book_new default_port = Inr book" and "candidates None exclude (fold (book_step ip ip_show) calls book) = Inr es"
  shows "book_ok ip (fold (book_step ip ip_show) calls book)
    \<and> set es = {e \<in> snd ` set (ab_entries (fold (book_step ip ip_show) calls book)). entry_key e \<notin> set exclude}
    \<and> distinct (map entry_key es) \<and> candidate_order es"
proof -
  let ?b = "fold (book_step ip ip_show) calls book"
  have "book_ok ip book" using assms(1) by (auto simp: address_book_new_def validate_port_def book_ok_def split: if_split_asm)
  then have ok: "book_ok ip ?b" by (rule book_run_ok)
  have es: "es = sort_key candidate_key (filter (\<lambda>e. entry_key e \<notin> set exclude) (map snd (ab_entries ?b)))"
    using assms(2) by (simp add: candidates_def Let_def)
  have "map entry_key (map snd (ab_entries ?b)) = map fst (ab_entries ?b)" using ok by (auto simp: book_ok_def entry_ok_def)
  then have "distinct (map entry_key (map snd (ab_entries ?b)))" using ok unfolding book_ok_def by (simp only:)
  then have "distinct (map entry_key (filter (\<lambda>e. entry_key e \<notin> set exclude) (map snd (ab_entries ?b))))"
    by (rule distinct_map_filter)
  then have d: "distinct (map entry_key es)" by (simp add: es distinct_map)
  have "candidate_order es" unfolding es candidate_order_def by (rule sorted_sort_key)
  then show ?thesis using ok d by (auto simp: es)
qed

lemma address_book_consistent_witness:
  "\<exists>es. candidates None [] (fold (book_step (\<lambda>s. Some s) (\<lambda>_. ''x''))
      [Add 5 ''1.2.3.4'' None MANUAL 1 None, Note 7 ''1.2.3.4'' (Some 8333) None, Merge 8 []] \<lparr>ab_default_port = 8333, ab_entries = []\<rparr>) = Inr es
    \<and> distinct (map entry_key es) \<and> candidate_order es"
proof -
  let ?b = "fold (book_step (\<lambda>s. Some s) (\<lambda>_. ''x''))
      [Add 5 ''1.2.3.4'' None MANUAL 1 None, Note 7 ''1.2.3.4'' (Some 8333) None, Merge 8 []] \<lparr>ab_default_port = 8333, ab_entries = []\<rparr>"
  obtain es where es: "candidates None [] ?b = Inr es" by (simp add: candidates_def)
  have "address_book_new 8333 = Inr \<lparr>ab_default_port = 8333, ab_entries = []\<rparr>" by (simp add: address_book_new_def validate_port_def)
  from address_book_consistent [OF this es] es show ?thesis by blast
qed

section \<open>Retry times\<close>

lemma retry_delay_bounds:
  assumes "peer_manager_new target base maximum jitter poll = Inr pm"
  shows "0 \<le> retry_delay pm failures r \<and> retry_delay pm failures r \<le> maximum"
  using assms by (auto simp: peer_manager_new_def retry_delay_def Let_def split: if_split_asm)

end
