(* ===== verification/Node.thy ===== *)
theory Node
  imports Address_Book Messages Blockchain Mempool
begin

text \<open>
  \<^verbatim>\<open>src/src/node/node.py\<close> and \<^verbatim>\<open>src/src/network/header_sync.py\<close>: the operations that put block chain, memory pool,
  peers and messages together. A peer object is a number, its fields are in the store \<open>nd_peers\<close>, so that
  \<^verbatim>\<open>is\<close> compares numbers. A connection of \<^verbatim>\<open>transport.py\<close> is the bytes its socket still delivers; what was written
  is collected in \<open>nd_sent\<close>. The environment says which writes and dials fail, the clock, the random choices and the
  parser of addresses. The node tells the kinds of \<^verbatim>\<open>NetworkError\<close> apart by their text: \<open>PeerProtocolError\<close> is one
  whose text marks a violation of the protocol. Threads, waking them up, configuration and status are left out.
\<close>

section \<open>State\<close>

datatype sync_state = IDLE | SYNCING | COMPLETE | FAILED

record header_sync =
  sy_state :: sync_state
  sy_peer :: "peer_key option"
  sy_awaiting :: bool
  sy_batches :: int
  sy_headers :: int

record node_env =
  ne_chain :: chain_env
  ne_half_pow :: "rat \<Rightarrow> rat"
  ne_parse :: "string \<Rightarrow> ip_addr option"
  ne_show :: "ip_addr \<Rightarrow> string"
  ne_time :: rat
  ne_clock :: rat
  ne_magic :: bytes
  ne_writes :: "nat \<Rightarrow> bool"
  ne_dial :: "peer_key \<Rightarrow> bytes option"
  ne_local :: "peer_key \<Rightarrow> string \<times> int"
  ne_nonce :: "nat \<Rightarrow> int"
  ne_random :: "nat \<Rightarrow> rat"
  ne_sample :: "nat list \<Rightarrow> nat \<Rightarrow> nat list"

record node =
  nd_chain :: blockchain
  nd_pool :: mempool
  nd_book :: address_book
  nd_discipline :: discipline
  nd_peers :: "nat \<Rightarrow> peer"
  nd_next_peer :: nat
  nd_ready :: "(peer_key \<times> nat) list"
  nd_conns :: "(peer_key \<times> bytes) list"
  nd_sent :: "(peer_key \<times> payload) list"
  nd_uses :: nat
  nd_inflight :: inflight
  nd_sync :: header_sync
  nd_keepalive :: keepalive
  nd_manager :: peer_manager

definition PROTOCOL_VERSION :: int where "PROTOCOL_VERSION = 70016"
definition MIN_PROTOCOL_VERSION :: int where "MIN_PROTOCOL_VERSION = 70001"
definition USER_AGENT :: string where "USER_AGENT = ''/BitClone:0.1.0/''"
definition MAX_PRE_VERACK_MESSAGES :: nat where "MAX_PRE_VERACK_MESSAGES = 10"
definition ADDR_RELAY_PEER_COUNT :: nat where "ADDR_RELAY_PEER_COUNT = 2"

definition node_ip :: "node_env \<Rightarrow> ip_parser" where
  "node_ip E host = map_option (ne_show E) (ne_parse E host)"

definition node_hashes :: "node_env \<Rightarrow> hashes" where "node_hashes E = ce_hashes (ne_chain E)"

text \<open>The pool looks coins up in the database of the chain as it is at the call.\<close>

definition node_pool_env :: "node_env \<Rightarrow> blockchain \<Rightarrow> pool_env" where
  "node_pool_env E chain =
     \<lparr>pv_params = ce_params (ne_chain E), pv_hashes = ce_hashes (ne_chain E), pv_der = ce_der (ne_chain E),
      pv_config = ce_db (ne_chain E), pv_db = bc_db chain, pv_now = ce_now (ne_chain E), pv_half_pow = ne_half_pow E\<rparr>"

definition on_chain :: "(blockchain, 'a) action \<Rightarrow> (node, 'a) action" where
  "on_chain m = zoomS nd_chain (\<lambda>c s. s\<lparr>nd_chain := c\<rparr>) m"

definition on_pool :: "node_env \<Rightarrow> (pool_env \<Rightarrow> (mempool, 'a) action) \<Rightarrow> (node, 'a) action" where
  "on_pool E f s = zoomS nd_pool (\<lambda>p s. s\<lparr>nd_pool := p\<rparr>) (f (node_pool_env E (nd_chain s))) s"

definition on_inflight :: "(inflight \<Rightarrow> 'a \<times> inflight) \<Rightarrow> (node, 'a) action" where
  "on_inflight f s = (case f (nd_inflight s) of (x, i) \<Rightarrow> (Inr x, s\<lparr>nd_inflight := i\<rparr>))"

definition on_discipline :: "(discipline \<Rightarrow> 'a \<times> discipline) \<Rightarrow> (node, 'a) action" where
  "on_discipline f s = (case f (nd_discipline s) of (x, d) \<Rightarrow> (Inr x, s\<lparr>nd_discipline := d\<rparr>))"

definition on_book :: "(address_book \<Rightarrow> ('a \<times> address_book) result) \<Rightarrow> (node, 'a) action" where
  "on_book f s = (case f (nd_book s) of Inl e \<Rightarrow> (Inl e, s) | Inr (x, b) \<Rightarrow> (Inr x, s\<lparr>nd_book := b\<rparr>))"

definition on_peer :: "nat \<Rightarrow> (peer \<Rightarrow> peer) \<Rightarrow> (node, unit) action" where
  "on_peer obj f = modifyS (\<lambda>s. s\<lparr>nd_peers := (nd_peers s)(obj := f (nd_peers s obj))\<rparr>)"

definition key_of :: "node \<Rightarrow> nat \<Rightarrow> peer_key" where
  "key_of s obj = peer_key_of (nd_peers s obj)"

text \<open>The registry in the order of its keys.\<close>

definition ready_peers :: "node \<Rightarrow> nat list" where
  "ready_peers s = map (\<lambda>k. the (map_of (nd_ready s) k)) (sort (map fst (nd_ready s)))"

definition is_ready_peer :: "nat \<Rightarrow> node \<Rightarrow> bool" where
  "is_ready_peer obj s \<longleftrightarrow> map_of (nd_ready s) (key_of s obj) = Some obj \<and> pr_state (nd_peers s obj) = READY"

section \<open>Connections\<close>

text \<open>One use of a socket: whether it works.\<close>

definition use_socket :: "node_env \<Rightarrow> (node, bool) action" where
  "use_socket E s = (Inr (ne_writes E (nd_uses s)), s\<lparr>nd_uses := nd_uses s + 1\<rparr>)"

definition draw_nonce :: "node_env \<Rightarrow> (node, int) action" where
  "draw_nonce E s = (Inr (ne_nonce E (nd_uses s)), s\<lparr>nd_uses := nd_uses s + 1\<rparr>)"

definition require_conn :: "nat \<Rightarrow> (node, bytes) action" where
  "require_conn obj =
     bindS (readS (\<lambda>s. map_of (nd_conns s) (key_of s obj))) (\<lambda>c.
       case c of None \<Rightarrow> raiseS ConnectionError | Some stream \<Rightarrow> returnS stream)"

definition send_message :: "node_env \<Rightarrow> nat \<Rightarrow> payload \<Rightarrow> (node, unit) action" where
  "send_message E obj m =
     bindS (require_conn obj) (\<lambda>_.
     bindS (liftS (message_to_bytes (node_hashes E) (ne_magic E) m)) (\<lambda>_.
     bindS (use_socket E) (\<lambda>ok.
       if \<not> ok then raiseS ConnectionError
       else
         bindS (modifyS (\<lambda>s. s\<lparr>nd_sent := nd_sent s @ [(key_of s obj, m)]\<rparr>)) (\<lambda>_.
           on_peer obj (note_activity (ne_time E) None)))))"

text \<open>A message that fails to parse is followed by the failure of its peer, which notes the same activity.\<close>

definition receive_message :: "node_env \<Rightarrow> nat \<Rightarrow> string option \<Rightarrow> (node, payload) action" where
  "receive_message E obj expected_command =
     bindS (require_conn obj) (\<lambda>stream.
     bindS (liftS (recv_one (node_hashes E) (ce_now (ne_chain E)) (ne_magic E) expected_command stream)) (\<lambda>(m, rest).
     bindS (modifyS (\<lambda>s. s\<lparr>nd_conns := AList.update (key_of s obj) rest (nd_conns s)\<rparr>)) (\<lambda>_.
     bindS (on_peer obj (note_activity (ne_time E) None)) (\<lambda>_. returnS m))))"

definition transport_connect :: "node_env \<Rightarrow> nat \<Rightarrow> (node, unit) action" where
  "transport_connect E obj =
     bindS (readS (\<lambda>s. (key_of s obj, map_of (nd_conns s) (key_of s obj)))) (\<lambda>(k, c).
       if c \<noteq> None then returnS ()
       else
         bindS (on_peer obj (transition CONNECTING None)) (\<lambda>_.
           case ne_dial E k of
             None \<Rightarrow> bindS (on_peer obj (transition DISCONNECTED None)) (\<lambda>_. raiseS ConnectionError)
           | Some stream \<Rightarrow>
               bindS (modifyS (\<lambda>s. s\<lparr>nd_conns := nd_conns s @ [(k, stream)]\<rparr>)) (\<lambda>_.
                 on_peer obj (transition CONNECTED (Some (ne_time E))))))"

definition adopt_socket :: "node_env \<Rightarrow> nat \<Rightarrow> bytes \<Rightarrow> (node, unit) action" where
  "adopt_socket E obj stream =
     bindS (readS (\<lambda>s. (key_of s obj, map_of (nd_conns s) (key_of s obj)))) (\<lambda>(k, c).
       if c \<noteq> None then raiseS ConnectionError
       else bindS (modifyS (\<lambda>s. s\<lparr>nd_conns := nd_conns s @ [(k, stream)]\<rparr>)) (\<lambda>_.
         on_peer obj (transition CONNECTED (Some (ne_time E)))))"

definition transport_disconnect :: "nat \<Rightarrow> (node, unit) action" where
  "transport_disconnect obj =
     bindS (modifyS (\<lambda>s. s\<lparr>nd_conns := AList.delete (key_of s obj) (nd_conns s)\<rparr>)) (\<lambda>_.
       on_peer obj (transition DISCONNECTED None))"

section \<open>Header synchronisation\<close>

definition request_next :: "node_env \<Rightarrow> nat \<Rightarrow> (node, unit) action" where
  "request_next E obj =
     bindS (queryS (\<lambda>s. get_block_locator (bc_db (nd_chain s)) None)) (\<lambda>locator.
       if locator = [] then raiseS NetworkError
       else
         bindS (send_message E obj (GetHeaders PROTOCOL_VERSION locator (replicate 32 0))) (\<lambda>_.
           modifyS (\<lambda>s. s\<lparr>nd_sync := (nd_sync s)\<lparr>sy_awaiting := True\<rparr>\<rparr>)))"

definition sync_start :: "node_env \<Rightarrow> nat \<Rightarrow> (node, unit) action" where
  "sync_start E obj =
     bindS (modifyS (\<lambda>s. s\<lparr>nd_sync := (nd_sync s)\<lparr>sy_peer := Some (key_of s obj), sy_state := SYNCING, sy_batches := 0,
       sy_headers := 0\<rparr>\<rparr>)) (\<lambda>_. request_next E obj)"

definition MAX_HEADERS_BATCH :: nat where "MAX_HEADERS_BATCH = 2000"

text \<open>The headers go through the database of the chain; an exception ends the synchronisation.\<close>

definition handle_headers :: "node_env \<Rightarrow> nat \<Rightarrow> block_header list \<Rightarrow> (node, block_header list) action" where
  "handle_headers E obj headers =
     bindS (readS (\<lambda>s. (nd_sync s, key_of s obj))) (\<lambda>(sync, k).
       if sy_state sync \<noteq> SYNCING \<or> sy_peer sync \<noteq> Some k then raiseS PeerProtocolError
       else if \<not> sy_awaiting sync then raiseS PeerProtocolError
       else
         bindS (modifyS (\<lambda>s. s\<lparr>nd_sync := (nd_sync s)\<lparr>sy_awaiting := False\<rparr>\<rparr>)) (\<lambda>_.
         bindS (catchS (on_chain (on_db (add_headers (ne_chain E) headers)))
                  (\<lambda>e. bindS (modifyS (\<lambda>s. s\<lparr>nd_sync := (nd_sync s)\<lparr>sy_state := FAILED\<rparr>\<rparr>)) (\<lambda>_. raiseS e))) (\<lambda>accepted.
         bindS (modifyS (\<lambda>s. s\<lparr>nd_sync := (nd_sync s)\<lparr>sy_batches := sy_batches (nd_sync s) + 1,
                  sy_headers := sy_headers (nd_sync s) + int (length accepted)\<rparr>\<rparr>)) (\<lambda>_.
         bindS (if length headers = MAX_HEADERS_BATCH then request_next E obj
                else modifyS (\<lambda>s. s\<lparr>nd_sync := (nd_sync s)\<lparr>sy_state := COMPLETE\<rparr>\<rparr>)) (\<lambda>_. returnS accepted)))))"

definition sync_peer_disconnected :: "peer_key \<Rightarrow> header_sync \<Rightarrow> header_sync" where
  "sync_peer_disconnected k sync =
     (if sy_peer sync = Some k \<and> sy_state sync = SYNCING
      then sync\<lparr>sy_state := IDLE, sy_awaiting := False, sy_peer := None\<rparr> else sync)"

section \<open>Peers that fail\<close>

definition source_for_peer :: "node_env \<Rightarrow> address_book \<Rightarrow> string \<Rightarrow> int \<Rightarrow> peer_source result" where
  "source_for_peer E book host port =
     bindR (book_get (node_ip E) book host (Some port)) (\<lambda>address.
       case address of
         None \<Rightarrow> Inr MANUAL
       | Some e \<Rightarrow> (case ae_sources e of [] \<Rightarrow> Inr MANUAL | src # srcs \<Rightarrow> Inr (min_by source_value src srcs)))"

definition source_of :: "node_env \<Rightarrow> nat \<Rightarrow> (node, peer_source) action" where
  "source_of E obj = queryS (\<lambda>s. source_for_peer E (nd_book s) (pr_host (nd_peers s obj)) (pr_port (nd_peers s obj)))"

definition note_success :: "node_env \<Rightarrow> nat \<Rightarrow> peer_source \<Rightarrow> (node, unit) action" where
  "note_success E obj source s =
     (case book_success (node_ip E) (ne_time E) source (Some (ne_time E)) (nd_peers s obj, nd_book s) of
        (r, p, b) \<Rightarrow> (bindR r (\<lambda>_. Inr ()), s\<lparr>nd_peers := (nd_peers s)(obj := p), nd_book := b\<rparr>))"

definition note_failure :: "node_env \<Rightarrow> nat \<Rightarrow> peer_source \<Rightarrow> (node, unit) action" where
  "note_failure E obj source s =
     (case book_failure (node_ip E) (ne_time E) source (Some (ne_time E)) (nd_peers s obj, nd_book s) of
        (r, p, b) \<Rightarrow> (bindR r (\<lambda>_. Inr ()), s\<lparr>nd_peers := (nd_peers s)(obj := p), nd_book := b\<rparr>))"

text \<open>\<open>noted\<close>: whether the call has a message for the address book.\<close>

definition disconnect_peer :: "node_env \<Rightarrow> bool \<Rightarrow> nat \<Rightarrow> (node, unit) action" where
  "disconnect_peer E noted obj =
     bindS (readS (\<lambda>s. key_of s obj)) (\<lambda>k.
     bindS (modifyS (\<lambda>s. s\<lparr>nd_ready := AList.delete k (nd_ready s)\<rparr>)) (\<lambda>_.
     bindS (modifyS (\<lambda>s. s\<lparr>nd_keepalive := forget_peer k (nd_keepalive s)\<rparr>)) (\<lambda>_.
     bindS (on_inflight (release_peer k)) (\<lambda>_.
     bindS (modifyS (\<lambda>s. s\<lparr>nd_sync := sync_peer_disconnected k (nd_sync s)\<rparr>)) (\<lambda>_.
     bindS (transport_disconnect obj) (\<lambda>_.
       if noted
       then bindS (on_book (record_message (node_ip E) (ne_time E) (fst k) (Some (snd k)) None)) (\<lambda>_. returnS ())
       else returnS ()))))))"

fun classify_peer_error :: "py_error \<Rightarrow> misbehaviour option" where
  "classify_peer_error PeerProtocolError = Some PROTOCOL_VIOLATION"
| "classify_peer_error NetworkError = Some MALFORMED_MESSAGE"
| "classify_peer_error NetworkDataError = Some INVALID_DATA"
| "classify_peer_error TransactionError = Some INVALID_DATA"
| "classify_peer_error ReadError = Some MALFORMED_MESSAGE"
| "classify_peer_error ValueError = Some MALFORMED_MESSAGE"
| "classify_peer_error _ = None"

text \<open>The other ready peers of a host that is banned now are disconnected.\<close>

definition drop_if_banned :: "node_env \<Rightarrow> nat \<Rightarrow> nat \<Rightarrow> (node, unit) action" where
  "drop_if_banned E obj candidate =
     (if candidate = obj then returnS ()
      else
        bindS (readS (\<lambda>s. pr_host (nd_peers s candidate))) (\<lambda>host.
        bindS (on_discipline (is_banned (node_ip E) (ne_clock E) host)) (\<lambda>banned.
          if banned then disconnect_peer E True candidate else returnS ())))"

definition record_misbehaviour :: "node_env \<Rightarrow> nat \<Rightarrow> py_error \<Rightarrow> (node, int) action" where
  "record_misbehaviour E obj e =
     bindS (readS (\<lambda>s. pr_host (nd_peers s obj))) (\<lambda>host.
       case classify_peer_error e of
         None \<Rightarrow> on_discipline (host_score (node_ip E) (ne_clock E) host)
       | Some violation \<Rightarrow>
           bindS (on_discipline (record_violation (node_ip E) (ne_clock E) (ne_clock E) host violation)) (\<lambda>points.
           bindS (on_discipline (is_banned (node_ip E) (ne_clock E) host)) (\<lambda>banned.
           bindS (if banned then bindS (readS ready_peers) (forS (drop_if_banned E obj)) else returnS ()) (\<lambda>_.
             returnS points))))"

section \<open>Inventory\<close>

definition is_requestable :: "inv_vector \<Rightarrow> bool" where
  "is_requestable v \<longleftrightarrow> iv_type v \<in> {MSG_TX, MSG_WITNESS_TX, MSG_BLOCK, MSG_WITNESS_BLOCK}"

definition chain_block :: "node_env \<Rightarrow> bytes \<Rightarrow> node \<Rightarrow> block option result" where
  "chain_block E h s = db_get_block (ce_db (ne_chain E)) (node_hashes E) (ce_now (ne_chain E)) (bc_db (nd_chain s)) h"

definition has_inventory :: "node_env \<Rightarrow> inv_vector \<Rightarrow> node \<Rightarrow> bool result" where
  "has_inventory E v s =
     (case inventory_key v of
        None \<Rightarrow> Inr True
      | Some (kind, object_hash) \<Rightarrow>
          if kind = ''tx'' then Inr (in_pool (nd_pool s) object_hash)
          else bindR (chain_block E object_hash s) (\<lambda>b. Inr (b \<noteq> None)))"

fun claim_wanted :: "node_env \<Rightarrow> peer_key \<Rightarrow> inv_vector list \<Rightarrow> (node, inv_vector list) action" where
  "claim_wanted E k [] = returnS []"
| "claim_wanted E k (v # vs) =
     bindS (if \<not> is_requestable v then returnS True else queryS (has_inventory E v)) (\<lambda>skip.
     bindS (if skip then returnS False else on_inflight (claim (ne_clock E) v k)) (\<lambda>claimed.
     bindS (claim_wanted E k vs) (\<lambda>more_vs. returnS (if claimed then v # more_vs else more_vs))))"

definition handle_inv :: "node_env \<Rightarrow> nat \<Rightarrow> inv_vector list \<Rightarrow> (node, inv_vector list) action" where
  "handle_inv E obj items =
     bindS (readS (\<lambda>s. key_of s obj)) (\<lambda>k.
     bindS (claim_wanted E k items) (\<lambda>requested.
       if requested = [] then returnS []
       else
         bindS (catchS (send_message E obj (GetData requested))
            (\<lambda>e. bindS (forS (\<lambda>v. bindS (on_inflight (release v)) (\<lambda>_. returnS ())) requested) (\<lambda>_. raiseS e))) (\<lambda>_.
           returnS requested)))"

text \<open>The message that answers one item, if the node has the object.\<close>

definition serve_item :: "node_env \<Rightarrow> inv_vector \<Rightarrow> node \<Rightarrow> payload option result" where
  "serve_item E v s =
     (if \<not> is_requestable v then Inr None
      else
        case inventory_key v of
          None \<Rightarrow> Inr None
        | Some (kind, object_hash) \<Rightarrow>
            if kind = ''tx'' then Inr (map_option Txn (get_tx (nd_pool s) object_hash))
            else bindR (chain_block E object_hash s) (\<lambda>b. Inr (map_option BlockMessage b)))"

fun serve_items :: "node_env \<Rightarrow> nat \<Rightarrow> inv_vector list \<Rightarrow> (node, inv_vector list) action" where
  "serve_items E obj [] = returnS []"
| "serve_items E obj (v # vs) =
     bindS (queryS (serve_item E v)) (\<lambda>answer.
       case answer of
         Some m \<Rightarrow> bindS (send_message E obj m) (\<lambda>_. serve_items E obj vs)
       | None \<Rightarrow> bindS (serve_items E obj vs) (\<lambda>missing. returnS (v # missing)))"

definition handle_getdata :: "node_env \<Rightarrow> nat \<Rightarrow> inv_vector list \<Rightarrow> (node, unit) action" where
  "handle_getdata E obj items =
     bindS (serve_items E obj items) (\<lambda>missing.
       if missing = [] then returnS () else send_message E obj (NotFound missing))"

definition announce_to :: "node_env \<Rightarrow> inv_vector \<Rightarrow> nat \<Rightarrow> (node, unit) action" where
  "announce_to E v obj =
     catchS (send_message E obj (Inv [v]))
       (\<lambda>_. bindS (source_of E obj) (\<lambda>source. bindS (note_failure E obj source) (\<lambda>_. disconnect_peer E True obj)))"

definition announce_inventory :: "node_env \<Rightarrow> inv_vector \<Rightarrow> nat option \<Rightarrow> (node, unit) action" where
  "announce_inventory E v source_peer =
     bindS (readS ready_peers) (forS (\<lambda>obj.
       bindS (readS (\<lambda>s. case source_peer of None \<Rightarrow> False | Some src \<Rightarrow> key_of s obj = key_of s src)) (\<lambda>same.
         if same then returnS () else announce_to E v obj)))"

definition relay_addr :: "node_env \<Rightarrow> nat \<Rightarrow> net_addr list \<Rightarrow> (node, unit) action" where
  "relay_addr E source_peer addr_list =
     bindS (readS (\<lambda>s. filter (\<lambda>obj. key_of s obj \<noteq> key_of s source_peer \<and> pr_state (nd_peers s obj) = READY) (ready_peers s)))
       (\<lambda>found. forS (\<lambda>obj. send_message E obj (Addr addr_list))
          (ne_sample E found (min ADDR_RELAY_PEER_COUNT (length found))))"

section \<open>Transactions and blocks\<close>

definition submit_tx :: "node_env \<Rightarrow> tx \<Rightarrow> nat option \<Rightarrow> (node, bool) action" where
  "submit_tx E t source_peer =
     bindS (on_pool E (\<lambda>P. add_tx P (Decoded t) False)) (\<lambda>accepted.
       if \<not> accepted then returnS False
       else
         bindS (liftS (bindR (tx_txid (node_hashes E) t) (inv_vector_new MSG_TX))) (\<lambda>vector.
         bindS (on_inflight (release vector)) (\<lambda>_.
         bindS (announce_inventory E vector source_peer) (\<lambda>_. returnS True))))"

definition submit_block :: "node_env \<Rightarrow> block \<Rightarrow> nat option \<Rightarrow> (node, bool) action" where
  "submit_block E b source_peer =
     bindS (on_chain (add_block_to_chain (ne_chain E) b)) (\<lambda>accepted.
       if \<not> accepted then returnS False
       else
         bindS (liftS (mapR (tx_txid (node_hashes E)) (b_txs b))) (\<lambda>txids.
         bindS (on_pool E (\<lambda>P. confirm_block P txids)) (\<lambda>_.
         bindS (liftS (bindR (block_id (node_hashes E) b) (inv_vector_new MSG_BLOCK))) (\<lambda>vector.
         bindS (on_inflight (release vector)) (\<lambda>_.
         bindS (announce_inventory E vector source_peer) (\<lambda>_. returnS True))))))"

section \<open>Messages of a peer\<close>

text \<open>What the handlers answer serves callers outside the program and is dropped.\<close>

fun handle_payload :: "node_env \<Rightarrow> nat \<Rightarrow> payload \<Rightarrow> (node, unit) action" where
  "handle_payload E obj (Ping nonce) = send_message E obj (Pong nonce)"
| "handle_payload E obj (Pong nonce) =
     bindS (readS (\<lambda>s. handle_pong (ne_clock E) (key_of s obj) nonce (nd_keepalive s))) (\<lambda>(expected, k).
     bindS (modifyS (\<lambda>s. s\<lparr>nd_keepalive := k\<rparr>)) (\<lambda>_. if \<not> expected then raiseS PeerProtocolError else returnS ()))"
| "handle_payload E obj (Addr addr_list) =
     bindS (on_book (\<lambda>b. Inr (merge_net_addresses (node_ip E) (ne_show E) (ne_time E) addr_list b))) (\<lambda>_. relay_addr E obj addr_list)"
| "handle_payload E obj (Inv items) = bindS (handle_inv E obj items) (\<lambda>_. returnS ())"
| "handle_payload E obj (GetData items) = handle_getdata E obj items"
| "handle_payload E obj (NotFound items) = forS (\<lambda>v. bindS (on_inflight (release v)) (\<lambda>_. returnS ())) items"
| "handle_payload E obj (Headers headers) = bindS (handle_headers E obj headers) (\<lambda>_. returnS ())"
| "handle_payload E obj (Txn t) =
     bindS (liftS (tx_txid (node_hashes E) t)) (\<lambda>txid.
     bindS (on_inflight (release_key (''tx'', txid))) (\<lambda>_.
     bindS (submit_tx E t (Some obj)) (\<lambda>_. returnS ())))"
| "handle_payload E obj (BlockMessage b) =
     bindS (liftS (block_id (node_hashes E) b)) (\<lambda>bid.
     bindS (on_inflight (release_key (''block'', bid))) (\<lambda>_.
     bindS (submit_block E b (Some obj)) (\<lambda>_. returnS ())))"
| "handle_payload E obj _ = returnS ()"

definition handle_peer_message :: "node_env \<Rightarrow> nat \<Rightarrow> payload \<Rightarrow> (node, unit) action" where
  "handle_peer_message E obj m =
     bindS (readS (is_ready_peer obj)) (\<lambda>ok. if \<not> ok then raiseS ConnectionError else handle_payload E obj m)"

definition drop_failed_peer :: "node_env \<Rightarrow> nat \<Rightarrow> py_error \<Rightarrow> (node, 'a) action" where
  "drop_failed_peer E obj e =
     bindS (record_misbehaviour E obj e) (\<lambda>_.
     bindS (source_of E obj) (\<lambda>source.
     bindS (note_failure E obj source) (\<lambda>_.
     bindS (disconnect_peer E False obj) (\<lambda>_. raiseS e))))"

definition receive_peer_message :: "node_env \<Rightarrow> nat \<Rightarrow> (node, payload) action" where
  "receive_peer_message E obj =
     bindS (readS (is_ready_peer obj)) (\<lambda>ok.
       if \<not> ok then raiseS ConnectionError
       else
         catchS (bindS (receive_message E obj None) (\<lambda>m. bindS (handle_peer_message E obj m) (\<lambda>_. returnS m)))
           (drop_failed_peer E obj))"

definition start_header_sync :: "node_env \<Rightarrow> nat \<Rightarrow> (node, unit) action" where
  "start_header_sync E obj =
     bindS (readS (is_ready_peer obj)) (\<lambda>ok. if \<not> ok then raiseS ConnectionError else sync_start E obj)"

text \<open>The loop of \<^verbatim>\<open>sync_headers\<close> runs as long as the peer sends full batches: \<open>NoReturn\<close> when the fuel is used up.\<close>

fun sync_loop :: "nat \<Rightarrow> node_env \<Rightarrow> nat \<Rightarrow> (node, int) action" where
  "sync_loop 0 E obj = raiseS NoReturn"
| "sync_loop (Suc fuel) E obj =
     bindS (readS nd_sync) (\<lambda>sync.
       if sy_state sync \<noteq> SYNCING then returnS (sy_headers sync)
       else bindS (receive_peer_message E obj) (\<lambda>_. sync_loop fuel E obj))"

definition sync_headers :: "nat \<Rightarrow> node_env \<Rightarrow> nat \<Rightarrow> (node, int) action" where
  "sync_headers fuel E obj =
     bindS (readS (\<lambda>s. (nd_sync s, key_of s obj))) (\<lambda>(sync, k).
     bindS (if sy_state sync \<noteq> SYNCING \<or> sy_peer sync \<noteq> Some k then start_header_sync E obj else returnS ()) (\<lambda>_.
       sync_loop fuel E obj))"

section \<open>The handshake\<close>

definition new_peer_object :: "node_env \<Rightarrow> string \<Rightarrow> int \<Rightarrow> (node, nat) action" where
  "new_peer_object E host port s =
     (Inr (nd_next_peer s), s\<lparr>nd_next_peer := nd_next_peer s + 1,
        nd_peers := (nd_peers s)(nd_next_peer s := new_peer (ne_time E) host port)\<rparr>)"

definition parse_ip :: "node_env \<Rightarrow> string \<Rightarrow> ip_addr result" where
  "parse_ip E host = (case ne_parse E host of None \<Rightarrow> Inl ValueError | Some ip \<Rightarrow> Inr ip)"

definition version_message :: "node_env \<Rightarrow> peer_key \<Rightarrow> peer_key \<Rightarrow> int \<Rightarrow> int \<Rightarrow> payload result" where
  "version_message E remote local nonce h =
     bindR (parse_ip E (fst remote)) (\<lambda>remote_ip.
     bindR (parse_ip E (fst local)) (\<lambda>local_ip.
       Inr (Version \<lparr>vf_version = PROTOCOL_VERSION, vf_services = 0, vf_time = ce_now (ne_chain E),
         vf_remote = \<lparr>na_ip = remote_ip, na_port = snd remote, na_services = 0, na_time = ce_now (ne_chain E)\<rparr>,
         vf_local = \<lparr>na_ip = local_ip, na_port = snd local, na_services = 0, na_time = ce_now (ne_chain E)\<rparr>,
         vf_nonce = nonce, vf_user_agent = USER_AGENT, vf_last_block = h\<rparr>)))"

definition send_version :: "node_env \<Rightarrow> nat \<Rightarrow> (node, unit) action" where
  "send_version E obj =
     bindS (require_conn obj) (\<lambda>_.
     bindS (readS (\<lambda>s. (key_of s obj, bc_height (nd_chain s)))) (\<lambda>(k, h).
     bindS (draw_nonce E) (\<lambda>nonce.
     bindS (on_peer obj (\<lambda>p. p\<lparr>pr_local_nonce := Some nonce\<rparr>)) (\<lambda>_.
     bindS (liftS (version_message E k (ne_local E k) nonce h)) (\<lambda>m. send_message E obj m)))))"

definition apply_peer_version :: "nat \<Rightarrow> version_fields \<Rightarrow> (node, unit) action" where
  "apply_peer_version obj v =
     bindS (on_peer obj (\<lambda>p. p\<lparr>pr_protocol_version := Some (vf_version v), pr_services := Some (vf_services v),
       pr_user_agent := Some (vf_user_agent v), pr_nonce := Some (vf_nonce v), pr_last_block := Some (vf_last_block v)\<rparr>)) (\<lambda>_.
     if vf_version v < MIN_PROTOCOL_VERSION then raiseS PeerProtocolError else returnS ())"

definition receive_version :: "node_env \<Rightarrow> nat \<Rightarrow> (node, unit) action" where
  "receive_version E obj =
     bindS (receive_message E obj (Some ''version'')) (\<lambda>m.
       case m of Version v \<Rightarrow> apply_peer_version obj v | _ \<Rightarrow> raiseS NetworkError)"

text \<open>At most eleven messages are read: ten others and the acknowledgement.\<close>

fun await_verack :: "node_env \<Rightarrow> nat \<Rightarrow> nat \<Rightarrow> (node, unit) action" where
  "await_verack E obj 0 = raiseS NetworkError"
| "await_verack E obj (Suc n) =
     bindS (receive_message E obj None) (\<lambda>m.
       if m = VerAck then on_peer obj (transition READY None)
       else if m \<noteq> SendAddrV2 \<and> m \<noteq> WtxidRelay then raiseS PeerProtocolError
       else await_verack E obj n)"

definition failed_handshake :: "node_env \<Rightarrow> nat \<Rightarrow> peer_source \<Rightarrow> py_error \<Rightarrow> (node, unit) action" where
  "failed_handshake E obj source e =
     bindS (record_misbehaviour E obj e) (\<lambda>_.
     bindS (note_failure E obj source) (\<lambda>_.
     bindS (transport_disconnect obj) (\<lambda>_. raiseS e)))"

definition register_ready :: "node_env \<Rightarrow> nat \<Rightarrow> peer_source \<Rightarrow> (node, nat) action" where
  "register_ready E obj source =
     bindS (note_success E obj source) (\<lambda>_.
     bindS (modifyS (\<lambda>s. s\<lparr>nd_ready := AList.update (key_of s obj) obj (nd_ready s)\<rparr>)) (\<lambda>_. returnS obj))"

text \<open>The port is given by the caller or the one of the configuration.\<close>

definition connect_peer :: "node_env \<Rightarrow> string \<Rightarrow> int \<Rightarrow> peer_source \<Rightarrow> (node, nat) action" where
  "connect_peer E host port source =
     bindS (on_discipline (is_banned (node_ip E) (ne_clock E) host)) (\<lambda>banned.
       if banned then raiseS ConnectionError
       else
         bindS (new_peer_object E host port) (\<lambda>obj.
         bindS (readS (\<lambda>s. nd_peers s obj)) (\<lambda>p.
         bindS (on_book (add_peer (node_ip E) (ne_time E) p source None)) (\<lambda>_.
         bindS (catchS (transport_connect E obj) (\<lambda>e. bindS (note_failure E obj source) (\<lambda>_. raiseS e))) (\<lambda>_.
         bindS (on_peer obj (transition HANDSHAKING None)) (\<lambda>_.
         bindS (catchS
                  (bindS (send_version E obj) (\<lambda>_.
                   bindS (receive_version E obj) (\<lambda>_.
                   bindS (send_message E obj VerAck) (\<lambda>_.
                   bindS (await_verack E obj (MAX_PRE_VERACK_MESSAGES + 1)) (\<lambda>_.
                     send_message E obj GetAddr)))))
                  (failed_handshake E obj source)) (\<lambda>_.
           register_ready E obj source)))))))"

definition accept_peer :: "node_env \<Rightarrow> string \<Rightarrow> int \<Rightarrow> bytes \<Rightarrow> (node, nat) action" where
  "accept_peer E host port stream =
     bindS (on_discipline (is_banned (node_ip E) (ne_clock E) host)) (\<lambda>banned.
       if banned then raiseS ConnectionError
       else
         bindS (new_peer_object E host port) (\<lambda>obj.
         bindS (readS (\<lambda>s. nd_peers s obj)) (\<lambda>p.
         bindS (on_book (add_peer (node_ip E) (ne_time E) p INBOUND None)) (\<lambda>_.
         bindS (adopt_socket E obj stream) (\<lambda>_.
         bindS (on_peer obj (transition HANDSHAKING None)) (\<lambda>_.
         bindS (catchS
                  (bindS (receive_version E obj) (\<lambda>_.
                   bindS (send_version E obj) (\<lambda>_.
                   bindS (send_message E obj VerAck) (\<lambda>_.
                     await_verack E obj (MAX_PRE_VERACK_MESSAGES + 1)))))
                  (failed_handshake E obj INBOUND)) (\<lambda>_.
           register_ready E obj INBOUND)))))))"

definition stop_peers :: "node_env \<Rightarrow> (node, unit) action" where
  "stop_peers E = bindS (readS ready_peers) (forS (disconnect_peer E True))"

section \<open>Maintenance\<close>

text \<open>\<^verbatim>\<open>PeerKeepalive.ping\<close> with the node's transport.\<close>

definition ping_peer :: "node_env \<Rightarrow> nat \<Rightarrow> (node, int) action" where
  "ping_peer E obj =
     bindS (draw_nonce E) (\<lambda>fresh.
     bindS (readS (\<lambda>s. (key_of s obj, begin_ping (ne_clock E) fresh (key_of s obj) obj (nd_keepalive s)))) (\<lambda>(k, (nonce, new), ka).
     bindS (modifyS (\<lambda>s. s\<lparr>nd_keepalive := ka\<rparr>)) (\<lambda>_.
       if \<not> new then returnS nonce
       else
         bindS (catchS (send_message E obj (Ping nonce))
            (\<lambda>e. bindS (modifyS (\<lambda>s. s\<lparr>nd_keepalive := forget_peer k (nd_keepalive s)\<rparr>)) (\<lambda>_. raiseS e))) (\<lambda>_. returnS nonce))))"

definition maintain_keepalive :: "node_env \<Rightarrow> (node, unit) action" where
  "maintain_keepalive E =
     bindS (readS (\<lambda>s. keepalive_pass (ne_clock E)
         (map (\<lambda>obj. (key_of s obj, obj)) (filter (\<lambda>obj. pr_state (nd_peers s obj) = READY) (ready_peers s))) (nd_keepalive s)))
       (\<lambda>(timed_out, due, ka).
     bindS (modifyS (\<lambda>s. s\<lparr>nd_keepalive := ka\<rparr>)) (\<lambda>_.
     bindS (forS (\<lambda>(_, obj). disconnect_peer E True obj) timed_out) (\<lambda>_.
       forS (\<lambda>(_, obj). catchS (bindS (ping_peer E obj) (\<lambda>_. returnS ())) (\<lambda>_. disconnect_peer E True obj)) due)))"

text \<open>
  The loop of \<^verbatim>\<open>PeerManager.maintain\<close> over the candidates, \<open>n\<close> open slots being left. The candidates are objects
  of the book: their failures are read when their turn comes.
\<close>

definition failures_of :: "peer_key \<Rightarrow> node \<Rightarrow> int" where
  "failures_of k s = (case map_of (ab_entries (nd_book s)) k of None \<Rightarrow> 0 | Some e \<Rightarrow> ae_fail_count e)"

definition dial_failed :: "node_env \<Rightarrow> peer_key \<Rightarrow> int \<Rightarrow> (node, unit) action" where
  "dial_failed E k failures_before =
     bindS (readS (\<lambda>s. ne_random E (nd_uses s))) (\<lambda>r.
     bindS (updateS (\<lambda>s. bindR (schedule_retry (node_ip E) (nd_book s) r k (ne_clock E) (nd_manager s)) (\<lambda>pm.
        Inr (s\<lparr>nd_manager := pm, nd_uses := nd_uses s + 1\<rparr>)))) (\<lambda>_.
     bindS (readS (failures_of k)) (\<lambda>failures.
       if failures = failures_before
       then bindS (on_book (record_message (node_ip E) (ne_time E) (fst k) (Some (snd k)) None)) (\<lambda>_. returnS ())
       else returnS ())))"

fun fill_slots :: "node_env \<Rightarrow> nat \<Rightarrow> peer_key list \<Rightarrow> (node, nat list) action" where
  "fill_slots E n [] = returnS []"
| "fill_slots E 0 (k # ks) = returnS []"
| "fill_slots E (Suc n) (k # ks) =
     bindS (on_discipline (is_banned (node_ip E) (ne_clock E) (fst k))) (\<lambda>banned.
     bindS (readS (\<lambda>s. case map_of (pm_retry_at (nd_manager s)) k of None \<Rightarrow> 0 > ne_clock E | Some t \<Rightarrow> t > ne_clock E)) (\<lambda>deferred.
       if banned \<or> deferred then fill_slots E (Suc n) ks
       else
         bindS (readS (failures_of k)) (\<lambda>failures_before.
         bindS (catchS
                  (bindS (queryS (\<lambda>s. source_for_peer E (nd_book s) (fst k) (snd k))) (\<lambda>source.
                   bindS (connect_peer E (fst k) (snd k) source) (\<lambda>obj. returnS (Some obj))))
                  (\<lambda>_. bindS (dial_failed E k failures_before) (\<lambda>_. returnS None))) (\<lambda>connected.
           case connected of
             None \<Rightarrow> fill_slots E (Suc n) ks
           | Some obj \<Rightarrow>
               bindS (modifyS (\<lambda>s. s\<lparr>nd_manager := (nd_manager s)\<lparr>pm_retry_at := AList.delete k (pm_retry_at (nd_manager s))\<rparr>\<rparr>)) (\<lambda>_.
               bindS (fill_slots E n ks) (\<lambda>objs. returnS (obj # objs)))))))"

definition maintain_outbound :: "node_env \<Rightarrow> (node, nat list) action" where
  "maintain_outbound E =
     bindS (readS (\<lambda>s. filter (\<lambda>obj. pr_state (nd_peers s obj) = READY) (ready_peers s))) (\<lambda>ready.
     bindS (readS (\<lambda>s. nat (max 0 (pm_target_outbound (nd_manager s) - int (length ready))))) (\<lambda>open_slots.
       if open_slots = 0 then returnS []
       else
         bindS (queryS (\<lambda>s. candidates None (map (key_of s) ready) (nd_book s))) (\<lambda>found.
           fill_slots E open_slots (map entry_key found))))"

end
