(* ===== verification/Node_Links.thy ===== *)
theory Node_Links
  imports Node
begin

text \<open>
  How the parts of a node refer to one another: the registry of ready peers, the requests, the pings and the header
  synchronisation name peers by their keys, the registry and the pings also by their objects. \<open>linked\<close> says that nothing
  refers to a peer that is gone. An action that touches none of it is \<open>quiet\<close>.
\<close>

section \<open>The invariant\<close>

definition ready_keys :: "node \<Rightarrow> peer_key set" where "ready_keys s = fst ` set (nd_ready s)"

definition sound_key :: "ip_parser \<Rightarrow> peer_key \<Rightarrow> bool" where
  "sound_key ip k \<longleftrightarrow> ip (fst k) \<noteq> None \<and> 1 \<le> snd k \<and> snd k \<le> 65535"

text \<open>The registry: an object is registered under its own key and is ready, except perhaps those of \<open>failing\<close>.\<close>

definition registry_ok :: "ip_parser \<Rightarrow> nat set \<Rightarrow> node \<Rightarrow> bool" where
  "registry_ok ip failing s \<longleftrightarrow> distinct (map fst (nd_ready s)) \<and>
     (\<forall>(k, obj) \<in> set (nd_ready s). key_of s obj = k \<and> obj < nd_next_peer s \<and> sound_key ip k
        \<and> (obj \<in> failing \<or> pr_state (nd_peers s obj) = READY))"

definition pings_ok :: "node \<Rightarrow> bool" where
  "pings_ok s \<longleftrightarrow> distinct (map fst (kp_states (nd_keepalive s))) \<and>
     (\<forall>(k, st) \<in> set (kp_states (nd_keepalive s)). k \<in> ready_keys s \<and> key_of s (ks_peer st) = k \<and> ks_peer st < nd_next_peer s)"

definition requests_held :: "node \<Rightarrow> bool" where
  "requests_held s \<longleftrightarrow> (\<forall>(_, q) \<in> set (if_requests (nd_inflight s)). ir_peer q \<in> ready_keys s)"

definition sync_held :: "node \<Rightarrow> bool" where
  "sync_held s \<longleftrightarrow> (sy_state (nd_sync s) = SYNCING \<longrightarrow> (\<exists>k \<in> ready_keys s. sy_peer (nd_sync s) = Some k))"

definition linked_but :: "nat set \<Rightarrow> ip_parser \<Rightarrow> node \<Rightarrow> bool" where
  "linked_but failing ip s \<longleftrightarrow> registry_ok ip failing s \<and> pings_ok s \<and> requests_held s \<and> sync_held s"

definition linked :: "ip_parser \<Rightarrow> node \<Rightarrow> bool" where "linked = linked_but {}"

lemmas linked_defs = linked_but_def registry_ok_def pings_ok_def requests_held_def sync_held_def ready_keys_def

text \<open>Objects a call holds on to, with their keys: they exist and the keys are sound.\<close>

definition holding :: "ip_parser \<Rightarrow> (peer_key \<times> nat) list \<Rightarrow> node \<Rightarrow> bool" where
  "holding ip objs s \<longleftrightarrow> (\<forall>(k, obj) \<in> set objs. key_of s obj = k \<and> obj < nd_next_peer s \<and> sound_key ip k)"

lemma registered:
  assumes "linked ip s" and "map_of (nd_ready s) k = Some obj"
  shows "key_of s obj = k" and "obj < nd_next_peer s" and "sound_key ip k" and "pr_state (nd_peers s obj) = READY"
    and "k \<in> ready_keys s"
proof -
  have "(k, obj) \<in> set (nd_ready s)" and r: "registry_ok ip {} s" using assms by (auto simp: linked_def linked_but_def dest: map_of_SomeD)
  then show "key_of s obj = k" "obj < nd_next_peer s" "sound_key ip k" "pr_state (nd_peers s obj) = READY" "k \<in> ready_keys s"
    by (force simp: registry_ok_def ready_keys_def)+
qed

lemma key_registered: "k \<in> ready_keys s \<longleftrightarrow> map_of (nd_ready s) k \<noteq> None"
  by (simp add: ready_keys_def map_of_eq_None_iff)

lemma ready_peers_registered:
  assumes "linked ip s" and "obj \<in> set (ready_peers s)"
  shows "map_of (nd_ready s) (key_of s obj) = Some obj"
proof -
  obtain k where k: "k \<in> ready_keys s" "obj = the (map_of (nd_ready s) k)" using assms(2) by (auto simp: ready_peers_def ready_keys_def)
  then have "map_of (nd_ready s) k = Some obj" by (auto simp: key_registered)
  then show ?thesis using registered(1) [OF assms(1)] by metis
qed

definition with_keys :: "node \<Rightarrow> nat list \<Rightarrow> (peer_key \<times> nat) list" where
  "with_keys s objs = map (\<lambda>obj. (key_of s obj, obj)) objs"

lemma with_keys_objs [simp]: "map snd (with_keys s objs) = objs"
  by (simp add: with_keys_def comp_def)

lemma ready_peers_held: "linked ip s \<Longrightarrow> holding ip (with_keys s (ready_peers s)) s"
  using registered [OF _ ready_peers_registered] by (auto simp: holding_def with_keys_def)

lemma ready_peer_registered:
  "linked ip s \<Longrightarrow> is_ready_peer obj s \<longleftrightarrow> map_of (nd_ready s) (key_of s obj) = Some obj"
  using registered(4) [of ip s "key_of s obj" obj] by (auto simp: is_ready_peer_def)

section \<open>Quiet actions\<close>

text \<open>They leave everything that the links are made of alone, and chain and pool too.\<close>

definition quiet :: "node \<Rightarrow> node \<Rightarrow> bool" where
  "quiet s t \<longleftrightarrow> nd_ready t = nd_ready s \<and> nd_next_peer t = nd_next_peer s \<and> nd_inflight t = nd_inflight s
     \<and> nd_sync t = nd_sync s \<and> nd_keepalive t = nd_keepalive s \<and> nd_chain t = nd_chain s \<and> nd_pool t = nd_pool s
     \<and> (\<forall>obj. key_of t obj = key_of s obj \<and> pr_state (nd_peers t obj) = pr_state (nd_peers s obj))"

lemma quiet_refl: "quiet s s" by (simp add: quiet_def)

lemma quiet_linked: "quiet s t \<Longrightarrow> linked_but failing ip t = linked_but failing ip s"
  by (simp add: quiet_def linked_defs)

lemma quiet_holding: "quiet s t \<Longrightarrow> holding ip objs t = holding ip objs s"
  by (simp add: quiet_def holding_def)

text \<open>An action is quiet when it keeps what it was quiet to.\<close>

definition quietly :: "(node, 'a) action \<Rightarrow> bool" where "quietly m \<longleftrightarrow> (\<forall>s. keeps (quiet s) m)"

lemma quietlyD: "quietly m \<Longrightarrow> m s = (r, t) \<Longrightarrow> quiet s t"
  using keepsD [of "quiet s" m s r t] quiet_refl by (simp add: quietly_def)

lemma quietly_keeps: "quietly m \<Longrightarrow> (\<And>s t. quiet s t \<Longrightarrow> P s \<Longrightarrow> P t) \<Longrightarrow> keeps P m"
  unfolding keeps_def by (metis prod.collapse quietlyD)

named_theorems quiet_intros \<open>quiet actions\<close>

lemma quietly_basic [quiet_intros]:
  "quietly (returnS x)" "quietly (raiseS e)" "quietly (liftS r)" "quietly (readS g)" "quietly (queryS q)"
  by (simp_all add: quietly_def keeps_intros)

lemma quietly_bind [quiet_intros]: "quietly m \<Longrightarrow> (\<And>x. quietly (f x)) \<Longrightarrow> quietly (bindS m f)"
  by (simp add: quietly_def keeps_bind)

lemma quietly_catch [quiet_intros]: "quietly m \<Longrightarrow> (\<And>e. quietly (h e)) \<Longrightarrow> quietly (catchS m h)"
  by (simp add: quietly_def keeps_catch)

lemma quietly_for [quiet_intros]: "(\<And>x. x \<in> set xs \<Longrightarrow> quietly (f x)) \<Longrightarrow> quietly (forS f xs)"
  by (simp add: quietly_def keeps_for)

lemma quietly_cases [quiet_intros]:
  "quietly m \<Longrightarrow> quietly n \<Longrightarrow> quietly (if b then m else n)"
  "quietly m \<Longrightarrow> (\<And>y. quietly (f y)) \<Longrightarrow> quietly (case x of None \<Rightarrow> m | Some y \<Rightarrow> f y)"
  "(\<And>a b. quietly (h a b)) \<Longrightarrow> quietly (case p of (a, b) \<Rightarrow> h a b)"
  by (auto split: option.split prod.split)

lemma quietly_modify: "(\<And>s t. quiet s t \<Longrightarrow> quiet s (f t)) \<Longrightarrow> quietly (modifyS f)"
  by (simp add: quietly_def keeps_modify)

lemma quiet_fields [simp]:
  "quiet s (t\<lparr>nd_conns := x1\<rparr>) = quiet s t" "quiet s (t\<lparr>nd_sent := x2\<rparr>) = quiet s t" "quiet s (t\<lparr>nd_uses := x3\<rparr>) = quiet s t"
  "quiet s (t\<lparr>nd_book := x4\<rparr>) = quiet s t" "quiet s (t\<lparr>nd_discipline := x5\<rparr>) = quiet s t" "quiet s (t\<lparr>nd_manager := x6\<rparr>) = quiet s t"
  by (simp_all add: quiet_def key_of_def)

lemma quiet_peer:
  assumes "quiet s t" and "pr_host p = pr_host (nd_peers t obj)" and "pr_port p = pr_port (nd_peers t obj)"
    and "pr_state p = pr_state (nd_peers t obj)"
  shows "quiet s (t\<lparr>nd_peers := (nd_peers t)(obj := p)\<rparr>)"
  using assms by (auto simp: quiet_def key_of_def peer_key_of_def)

lemma quietly_peer:
  "(\<And>p. pr_host (f p) = pr_host p \<and> pr_port (f p) = pr_port p \<and> pr_state (f p) = pr_state p) \<Longrightarrow> quietly (on_peer obj f)"
  unfolding on_peer_def by (rule quietly_modify, rule quiet_peer) auto

lemma quietly_note [quiet_intros]: "quietly (on_peer obj (note_activity now t))"
  by (rule quietly_peer) (simp add: note_activity_def)

lemma quietly_discipline [quiet_intros]: "quietly (on_discipline f)"
  by (simp add: quietly_def keeps_def on_discipline_def split: prod.split)

lemma quietly_book [quiet_intros]: "quietly (on_book f)"
  by (simp add: quietly_def keeps_def on_book_def split: sum.split prod.split)

lemma quietly_draw [quiet_intros]: "quietly (use_socket E)" "quietly (draw_nonce E)"
  by (simp_all add: quietly_def keeps_def use_socket_def draw_nonce_def)

lemma quietly_require [quiet_intros]: "quietly (require_conn obj)"
  unfolding require_conn_def by (intro quiet_intros)

lemma quietly_send [quiet_intros]: "quietly (send_message E obj m)"
  unfolding send_message_def by (intro quiet_intros quietly_modify) simp

lemma quietly_receive [quiet_intros]: "quietly (receive_message E obj c)"
  unfolding receive_message_def by (intro quiet_intros quietly_modify) simp

lemma quietly_success [quiet_intros]: "quietly (note_success E obj source)"
  unfolding quietly_def keeps_def note_success_def
  by (auto simp: book_success_def record_peer_success_def note_activity_def Let_def split: sum.split prod.split intro!: quiet_peer)

lemma quietly_source [quiet_intros]: "quietly (source_of E obj)"
  unfolding source_of_def by (intro quiet_intros)

lemma quietly_serve [quiet_intros]: "quietly (serve_items E obj vs)"
  by (induction E obj vs rule: serve_items.induct) (simp_all add: quiet_intros)

lemma quietly_getdata [quiet_intros]: "quietly (handle_getdata E obj vs)"
  unfolding handle_getdata_def by (intro quiet_intros)

lemma quietly_relay [quiet_intros]: "quietly (relay_addr E obj as)"
  unfolding relay_addr_def by (intro quiet_intros)

lemma quietly_version [quiet_intros]: "quietly (send_version E obj)"
  unfolding send_version_def by (intro quiet_intros quietly_peer) simp

lemma quietly_apply [quiet_intros]: "quietly (apply_peer_version obj v)"
  unfolding apply_peer_version_def by (intro quiet_intros quietly_peer) simp

lemma quietly_receive_version [quiet_intros]: "quietly (receive_version E obj)"
  unfolding receive_version_def by (intro quiet_intros) (auto split: payload.split intro: quiet_intros)


section \<open>Dropping a peer\<close>

text \<open>The effect of \<^verbatim>\<open>disconnect_peer\<close> before the address book is told.\<close>

definition unlink :: "nat \<Rightarrow> node \<Rightarrow> node" where
  "unlink obj s =
     (let k = key_of s obj in
      s\<lparr>nd_ready := AList.delete k (nd_ready s), nd_keepalive := forget_peer k (nd_keepalive s),
        nd_inflight := snd (release_peer k (nd_inflight s)), nd_sync := sync_peer_disconnected k (nd_sync s),
        nd_conns := AList.delete k (nd_conns s),
        nd_peers := (nd_peers s)(obj := transition DISCONNECTED None (nd_peers s obj))\<rparr>)"

lemma bindS_inflight: "bindS (on_inflight f) g s = g (fst (f (nd_inflight s))) (s\<lparr>nd_inflight := snd (f (nd_inflight s))\<rparr>)"
  by (simp add: bindS_def on_inflight_def split: prod.split)

lemma disconnect_run:
  "disconnect_peer E noted obj s =
     (if noted then bindS (on_book (record_message (node_ip E) (ne_time E) (fst (key_of s obj)) (Some (snd (key_of s obj))) None)) (\<lambda>_. returnS ())
      else returnS ()) (unlink obj s)"
  by (simp add: disconnect_peer_def transport_disconnect_def on_peer_def bindS_inflight unlink_def run_simps Let_def key_of_def)

lemma unlink_keys [simp]: "key_of (unlink obj s) o' = key_of s o'" "nd_next_peer (unlink obj s) = nd_next_peer s"
  "ready_keys (unlink obj s) = ready_keys s - {key_of s obj}" "nd_chain (unlink obj s) = nd_chain s" "nd_pool (unlink obj s) = nd_pool s"
  by (auto simp: unlink_def key_of_def peer_key_of_def transition_def Let_def ready_keys_def AList.delete_eq)

lemma unlink_linked:
  assumes "linked_but failing ip s" shows "linked_but (failing - {obj}) ip (unlink obj s)"
proof -
  let ?k = "key_of s obj" and ?t = "unlink obj s"
  have "registry_ok ip (failing - {obj}) ?t" unfolding registry_ok_def
  proof (intro conjI ballI)
    show "distinct (map fst (nd_ready ?t))" using assms
      by (auto simp: linked_defs unlink_def Let_def distinct_delete)
    fix x assume "x \<in> set (nd_ready ?t)"
    moreover obtain k o' where x: "x = (k, o')" by fastforce
    ultimately have "(k, o') \<in> set (nd_ready s)" "k \<noteq> ?k" by (auto simp: unlink_def Let_def AList.delete_eq)
    note x = x this
    then have "key_of s o' = k" "o' < nd_next_peer s" "sound_key ip k" "o' \<in> failing \<or> pr_state (nd_peers s o') = READY"
      using assms by (auto simp: linked_but_def registry_ok_def)
    moreover from this(1) x(3) have "o' \<noteq> obj" by auto
    ultimately show "case x of (k, o') \<Rightarrow> key_of ?t o' = k \<and> o' < nd_next_peer ?t \<and> sound_key ip k
        \<and> (o' \<in> failing - {obj} \<or> pr_state (nd_peers ?t o') = READY)"
      by (simp add: x(1)) (simp add: unlink_def Let_def)
  qed
  moreover have "pings_ok ?t" using assms unfolding pings_ok_def unlink_keys
    by (auto simp: linked_but_def pings_ok_def unlink_def Let_def forget_peer_def AList.delete_eq intro: distinct_map_filter)
  moreover have "requests_held ?t" using assms unfolding requests_held_def unlink_keys
    by (auto simp: linked_but_def requests_held_def unlink_def Let_def release_peer_def)
  moreover have "sync_held ?t" using assms unfolding sync_held_def unlink_keys
    by (auto simp: linked_but_def sync_held_def unlink_def Let_def sync_peer_disconnected_def)
  ultimately show ?thesis by (simp add: linked_but_def)
qed

lemma unlink_holding: "holding ip objs (unlink obj s) = holding ip objs s"
  by (simp add: holding_def)

text \<open>A failure is noted whenever the key of the peer is sound: only the peer and the book change.\<close>

lemma endpoint_sound: "sound_key ip (host, port) \<longleftrightarrow> (\<exists>k. endpoint ip book host (Some port) = Inr k)"
  by (auto simp: sound_key_def endpoint_def parse_host_def validate_port_def split: option.split)

lemma add_peer_sound:
  "(\<exists>x. add_peer ip now p source t book = Inr x) \<longleftrightarrow> sound_key ip (peer_key_of p)"
  by (auto simp: add_peer_def book_add_def peer_key_of_def endpoint_sound [of _ _ _ book] Let_def result_iff split: prod.split)

lemma note_failure_run:
  assumes "sound_key ip (key_of s obj)" and "node_ip E = ip"
  obtains p b where "note_failure E obj source s = (Inr (), s\<lparr>nd_peers := (nd_peers s)(obj := p), nd_book := b\<rparr>)"
    and "peer_key_of p = key_of s obj" and "pr_state p = DISCONNECTED"
proof -
  let ?p = "record_peer_failure (ne_time E) (Some (ne_time E)) (nd_peers s obj)"
  have p: "peer_key_of ?p = key_of s obj" "pr_state ?p = DISCONNECTED"
    by (simp_all add: record_peer_failure_def transition_def note_activity_def peer_key_of_def key_of_def Let_def)
  then obtain k b where "add_peer ip (ne_time E) ?p source (Some (ne_time E)) (nd_book s) = Inr (k, b)"
    using assms(1) add_peer_sound [of ip "ne_time E" ?p source "Some (ne_time E)" "nd_book s"] by auto
  then have "\<exists>b. note_failure E obj source s = (Inr (), s\<lparr>nd_peers := (nd_peers s)(obj := ?p), nd_book := b\<rparr>)"
    using assms(2) by (auto simp: note_failure_def book_failure_def Let_def given_or_def)
  with p that show ?thesis by blast
qed

lemma source_found:
  assumes "sound_key ip (key_of s obj)" and "node_ip E = ip"
  obtains source where "source_of E obj s = (Inr source, s)"
proof -
  have "\<exists>k. endpoint ip (nd_book s) (pr_host (nd_peers s obj)) (Some (pr_port (nd_peers s obj))) = Inr k"
    using assms(1) endpoint_sound by (simp add: key_of_def peer_key_of_def)
  then have "\<exists>x. source_for_peer E (nd_book s) (pr_host (nd_peers s obj)) (pr_port (nd_peers s obj)) = Inr x"
    using assms(2) by (auto simp: source_for_peer_def book_get_def split: option.split list.split)
  then show ?thesis using that by (auto simp: source_of_def run_simps)
qed

text \<open>The peer of a failure is exempt from being ready until it is dropped.\<close>

lemma failing_linked:
  assumes "linked ip s" and "peer_key_of p = key_of s obj"
  shows "linked_but {obj} ip (s\<lparr>nd_peers := (nd_peers s)(obj := p), nd_book := b\<rparr>)"
proof -
  have "key_of (s\<lparr>nd_peers := (nd_peers s)(obj := p), nd_book := b\<rparr>) = key_of s" using assms(2) by (auto simp: key_of_def)
  then show ?thesis using assms(1) by (auto simp: linked_def linked_defs)
qed

end
