(* ===== verification/Mining.thy ===== *)
theory Mining
  imports Node Chain_Rules_Facts Height_Commitment
begin

unbundle bit_operations_syntax

text \<open>
  Building a candidate block (\<^verbatim>\<open>src/src/node/node.py\<close>) and searching its nonce (\<^verbatim>\<open>src/src/mining/miner.py\<close>). Another
  thread may set the stop event: \<open>stopped n\<close> says whether it is set before the round \<open>n\<close> of the search. The statistics
  of the miner are display.
\<close>

section \<open>The template\<close>

definition create_coinbase_script :: "int \<Rightarrow> bytes result" where
  "create_coinbase_script h =
     bindR (to_bytes_le (max 1 ((bit_length (nat \<bar>h\<bar>) + 7) div 8)) h) (\<lambda>b.
       let height_bytes = (if last b AND 0x80 \<noteq> 0 then b @ [0] else b) in
       if length height_bytes > 255 then Inl ValueError
       else Inr ([word_of_nat (length height_bytes)] @ height_bytes @ ascii_bytes ''BitClone''))"

definition payout_scriptpubkey :: bytes where "payout_scriptpubkey = [0x51]"

definition create_coinbase_tx :: "int \<Rightarrow> int \<Rightarrow> tx result" where
  "create_coinbase_tx h fees =
     bindR (create_coinbase_script h) (\<lambda>script.
       Inr \<lparr>t_inputs = [\<lparr>in_txid = replicate 32 0, in_vout = 0xffffffff, in_scriptsig = script, in_sequence = 0xffffffff\<rparr>],
            t_outputs = [\<lparr>out_amount = calc_subsidy h + fees, out_scriptpubkey = payout_scriptpubkey\<rparr>],
            t_witness = [], t_locktime = 0, t_version = 2\<rparr>)"

definition calculate_mempool_fees :: "hashes \<Rightarrow> mempool \<Rightarrow> tx list \<Rightarrow> int result" where
  "calculate_mempool_fees H m txs =
     sumR (\<lambda>t. bindR (tx_txid H t) (\<lambda>txid. if in_pool m txid then get_fee m txid else Inr 0)) txs"

definition build_block_template :: "node_env \<Rightarrow> node \<Rightarrow> block result" where
  "build_block_template E s =
     bindR (get_block_template (nd_pool s)) (\<lambda>txs.
       let h = bc_height (nd_chain s) + 1; H = node_hashes E in
       bindR (calculate_mempool_fees H (nd_pool s) txs) (\<lambda>fees.
       bindR (create_coinbase_tx h fees) (\<lambda>coinbase.
       bindR (case bc_tip (nd_chain s) of None \<Rightarrow> Inr (replicate 32 0) | Some tip \<Rightarrow> block_id H tip) (\<lambda>prev_block.
       bindR (view_bits (chain_view.truncate (nd_chain s))) (\<lambda>bits.
         block_new H (ce_now (ne_chain E)) 2 prev_block (ce_now (ne_chain E)) bits 0 (coinbase # txs))))))"

section \<open>The search\<close>

lemma header_id_nonce: "header_id H h = Inr bid \<Longrightarrow> 0 \<le> bh_nonce h \<and> bh_nonce h < 2 ^ 32"
  by (auto simp: header_id_def header_to_bytes_def to_bytes_le_def split: if_split_asm)

text \<open>A nonce of 32 bits or more raises \<^verbatim>\<open>OverflowError\<close>, so that the search ends.\<close>

function mine_loop :: "hashes \<Rightarrow> (nat \<Rightarrow> bool) \<Rightarrow> nat \<Rightarrow> int \<Rightarrow> block_header \<Rightarrow> block_header option result" where
  "mine_loop H stopped n target h =
     (if stopped n then Inr None
      else
        case header_id H h of
          Inl e \<Rightarrow> Inl e
        | Inr bid \<Rightarrow> if be_val bid < target then Inr (Some h) else mine_loop H stopped (Suc n) target (header_increment h))"
  by pat_completeness auto
termination
  by (relation "measure (\<lambda>(H, stopped, n, target, h). nat (2 ^ 32 - bh_nonce h))")
    (auto simp: header_increment_def dest: header_id_nonce)

declare mine_loop.simps [simp del]

definition start_mining :: "hashes \<Rightarrow> (nat \<Rightarrow> bool) \<Rightarrow> block \<Rightarrow> block option result" where
  "start_mining H stopped b =
     bindR (header_target (get_header b)) (\<lambda>target.
     bindR (mine_loop H stopped 0 (be_val target) (get_header b)) (\<lambda>found.
       case found of None \<Rightarrow> Inr None | Some h \<Rightarrow> Inr (Some (b\<lparr>b_nonce := bh_nonce h\<rparr>))))"

text \<open>The miner hands the block to the node; the answer of the node is dropped.\<close>

definition on_block_mined :: "node_env \<Rightarrow> block option \<Rightarrow> (node, bool) action" where
  "on_block_mined E b = (case b of None \<Rightarrow> returnS False | Some x \<Rightarrow> submit_block E x None)"

definition node_start_mining :: "node_env \<Rightarrow> (nat \<Rightarrow> bool) \<Rightarrow> (node, block option) action" where
  "node_start_mining E stopped =
     bindS (queryS (build_block_template E)) (\<lambda>template.
     bindS (liftS (start_mining (node_hashes E) stopped template)) (\<lambda>found.
     bindS (on_block_mined E found) (\<lambda>_. returnS found)))"

section \<open>What the search finds\<close>

lemma mine_loop_found:
  "mine_loop H stopped n target h = Inr (Some h') \<Longrightarrow>
     \<exists>k bid. h' = h\<lparr>bh_nonce := bh_nonce h + int k\<rparr> \<and> header_id H h' = Inr bid \<and> be_val bid < target
       \<and> (\<forall>i < k. \<exists>b. header_id H (h\<lparr>bh_nonce := bh_nonce h + int i\<rparr>) = Inr b \<and> target \<le> be_val b)"
proof (induction H stopped n target h rule: mine_loop.induct)
  case (1 H stopped n target h)
  obtain bid where run: "\<not> stopped n" "header_id H h = Inr bid" 
    using "1.prems" by (auto simp: mine_loop.simps [of H stopped n] split: if_split_asm sum.split_asm)
  show ?case
  proof (cases "be_val bid < target")
    case True
    then have "h' = h" using "1.prems" run by (simp add: mine_loop.simps [of H stopped n])
    then show ?thesis using run True by (intro exI [of _ 0]) simp
  next
    case False
    then have "mine_loop H stopped (Suc n) target (header_increment h) = Inr (Some h')"
      using "1.prems" run by (simp add: mine_loop.simps [of H stopped n])
    from "1.IH" [OF run False this] obtain k b where k: "h' = h\<lparr>bh_nonce := bh_nonce h + int (Suc k)\<rparr>"
      "header_id H h' = Inr b" "be_val b < target"
      "\<forall>i < k. \<exists>b. header_id H (h\<lparr>bh_nonce := bh_nonce h + int (Suc i)\<rparr>) = Inr b \<and> target \<le> be_val b"
      by (auto simp: header_increment_def algebra_simps)
    have "\<exists>b. header_id H (h\<lparr>bh_nonce := bh_nonce h + int i\<rparr>) = Inr b \<and> target \<le> be_val b" if "i < Suc k" for i
      using that run(2) False k(4) by (cases i) auto
    then show ?thesis using k by blast
  qed
qed

text \<open>A commitment is looked for in the outputs of the coinbase, and the coinbase of a template has none.\<close>

lemma template_block:
  assumes "build_block_template E s = Inr b"
  shows "\<exists>cb txs fees. get_block_template (nd_pool s) = Inr txs \<and> b_txs b = cb # txs
    \<and> create_coinbase_tx (bc_height (nd_chain s) + 1) fees = Inr cb \<and> find_witness_commitment cb = None
    \<and> calculate_mempool_fees (node_hashes E) (nd_pool s) txs = Inr fees"
proof -
  obtain txs fees cb prev bits where t: "get_block_template (nd_pool s) = Inr txs"
    "calculate_mempool_fees (node_hashes E) (nd_pool s) txs = Inr fees"
    "create_coinbase_tx (bc_height (nd_chain s) + 1) fees = Inr cb"
    "block_new (node_hashes E) (ce_now (ne_chain E)) 2 prev (ce_now (ne_chain E)) bits 0 (cb # txs) = Inr b"
    using assms by (auto simp: build_block_template_def Let_def)
  have "b_txs b = cb # txs" using block_new_fields [OF t(4)] by simp
  moreover have "find_witness_commitment cb = None"
    using t(3) by (auto simp: create_coinbase_tx_def find_witness_commitment_def payout_scriptpubkey_def WITNESS_COMMITMENT_SIZE_def)
  ultimately show ?thesis using t by blast
qed

lemma no_commitment_rejected:
  assumes "b_txs b = cb # txs" and "find_witness_commitment cb = None" and "\<exists>t \<in> set txs. tx_is_segwit t"
  shows "validate_block E v b \<noteq> Inr True"
proof
  assume v: "validate_block E v b = Inr True"
  have "validate_witness_commitment E b (bc_height v + 1) = Inr True" using validate_block_steps [OF v] by blast
  then show False using assms by (auto simp: validate_witness_commitment_def index_at_def list_ex_iff Let_def split: if_split_asm)
qed

end
