(* ===== verification/Node_Facts.thy ===== *)
theory Node_Facts
  imports Node_Links Mining
begin

text \<open>
  What a node keeps through any run of its operations. The interface \<open>node_parts\<close> is what the node relies on: the
  operations of chain and pool it calls keep an invariant \<open>I\<close> of theirs, and addresses are always parsed the same way.
  Inside it every operation of the node is shown to keep \<open>I\<close> and the links between its parts.
\<close>

section \<open>States of a node\<close>

definition whole :: "(blockchain \<Rightarrow> mempool \<Rightarrow> bool) \<Rightarrow> ip_parser \<Rightarrow> (peer_key \<times> nat) list \<Rightarrow> node \<Rightarrow> bool" where
  "whole I ip objs s \<longleftrightarrow> linked ip s \<and> holding ip objs s \<and> I (nd_chain s) (nd_pool s)"

text \<open>A call works for the ready peer of key \<open>k\<close>; a handshake works on an object that is not registered yet.\<close>

definition serving :: "peer_key \<Rightarrow> nat \<Rightarrow> node \<Rightarrow> bool" where
  "serving k obj s \<longleftrightarrow> key_of s obj = k \<and> k \<in> ready_keys s"

definition joining :: "peer_key \<Rightarrow> nat \<Rightarrow> node \<Rightarrow> bool" where
  "joining k obj s \<longleftrightarrow> key_of s obj = k \<and> obj < nd_next_peer s \<and> obj \<notin> snd ` set (nd_ready s)"

lemma whole_app: "whole I ip (xs @ ys) s \<longleftrightarrow> whole I ip xs s \<and> whole I ip ys s"
  by (auto simp: whole_def holding_def)

lemma whole_Cons: "whole I ip (x # ys) s \<longleftrightarrow> whole I ip [x] s \<and> whole I ip ys s"
  by (auto simp: whole_def holding_def)

lemma whole_ready: "whole I ip objs s \<Longrightarrow> whole I ip (with_keys s (ready_peers s)) s"
  using ready_peers_held by (simp add: whole_def)

lemma whole_registered:
  "whole I ip objs s \<Longrightarrow> is_ready_peer obj s \<Longrightarrow> whole I ip ((key_of s obj, obj) # objs) s \<and> serving (key_of s obj) obj s"
  using registered [of ip s "key_of s obj" obj] by (auto simp: whole_def holding_def is_ready_peer_def serving_def)

lemma quiet_states:
  assumes "quiet s t"
  shows "whole I ip objs t = whole I ip objs s" "serving k obj t = serving k obj s" "joining k obj t = joining k obj s"
  using assms quiet_linked [OF assms, of "{}" ip] quiet_holding [OF assms, of ip objs]
  by (auto simp: whole_def linked_def serving_def joining_def quiet_def ready_keys_def)

lemma quiet_keeps:
  assumes "quietly m"
  shows "keeps (whole I ip objs) m" "keeps (\<lambda>s. whole I ip objs s \<and> serving k obj s) m"
    "keeps (\<lambda>s. whole I ip objs s \<and> joining k obj s) m"
  by (rule quietly_keeps [OF assms], simp add: quiet_states)+

lemmas quiet_leaves [keeps_intros] =
  quietly_discipline [THEN quiet_keeps(1)] quietly_book [THEN quiet_keeps(1)] quietly_send [THEN quiet_keeps(1)]
  quietly_receive [THEN quiet_keeps(1)] quietly_draw [THEN quiet_keeps(1)] quietly_success [THEN quiet_keeps(1)]
  quietly_source [THEN quiet_keeps(1)] quietly_getdata [THEN quiet_keeps(1)] quietly_relay [THEN quiet_keeps(1)]
  quietly_discipline [THEN quiet_keeps(2)] quietly_send [THEN quiet_keeps(2)]
  quietly_discipline [THEN quiet_keeps(3)] quietly_book [THEN quiet_keeps(3)] quietly_send [THEN quiet_keeps(3)]
  quietly_receive [THEN quiet_keeps(3)] quietly_success [THEN quiet_keeps(3)] quietly_source [THEN quiet_keeps(3)]
  quietly_version [THEN quiet_keeps(3)] quietly_receive_version [THEN quiet_keeps(3)]

lemma bindS_assoc: "bindS (bindS m g) f = bindS m (\<lambda>x. bindS (g x) f)"
  by (rule ext) (rule bindS_bind)

text \<open>Pointwise use of \<open>keeps\<close>.\<close>

lemma keeps_at: "keeps P m \<Longrightarrow> P s \<Longrightarrow> P (snd (m s))" by (simp add: keeps_def)

lemma keeps_over_ready:
  assumes "\<And>ps. keeps (whole I ip (ps @ objs)) (m (map snd ps))"
  shows "keeps (whole I ip objs) (bindS (readS ready_peers) m)"
  unfolding keeps_def
proof (intro allI impI)
  fix s assume w: "whole I ip objs s"
  then have "whole I ip (with_keys s (ready_peers s) @ objs) s" using whole_ready by (simp add: whole_app)
  from keeps_at [OF assms this] show "whole I ip objs (snd (bindS (readS ready_peers) m s))"
    by (simp add: run_simps whole_app)
qed

section \<open>Disconnecting\<close>

lemma unlink_whole: "whole I ip objs s \<Longrightarrow> whole I ip objs (unlink obj s)"
  using unlink_linked [of "{}" ip s obj] by (simp add: whole_def unlink_holding linked_def)

lemma unlink_joining: "joining k o' s \<Longrightarrow> joining k o' (unlink obj s)"
  unfolding joining_def unlink_keys by (force simp: unlink_def Let_def AList.delete_eq)

lemma disconnect_keeps [keeps_intros]:
  "keeps (whole I ip objs) (disconnect_peer E noted obj)"
  "keeps (\<lambda>s. whole I ip objs s \<and> joining k o' s) (disconnect_peer E noted obj)"
proof -
  have q: "quietly (if noted then bindS (on_book f) (\<lambda>_. returnS ()) else returnS ())" for f :: "address_book \<Rightarrow> (peer_key \<times> address_book) result"
    by (intro quiet_intros)
  show "keeps (whole I ip objs) (disconnect_peer E noted obj)"
    unfolding keeps_def disconnect_run using keeps_at [OF quiet_keeps(1) [OF q]] unlink_whole by blast
  show "keeps (\<lambda>s. whole I ip objs s \<and> joining k o' s) (disconnect_peer E noted obj)"
    unfolding keeps_def disconnect_run using keeps_at [OF quiet_keeps(3) [OF q]] unlink_whole unlink_joining by blast
qed

lemma misbehaviour_keeps [keeps_intros]:
  "keeps (whole I ip objs) (record_misbehaviour E obj e)"
  "keeps (\<lambda>s. whole I ip objs s \<and> joining k o' s) (record_misbehaviour E obj e)"
  unfolding record_misbehaviour_def drop_if_banned_def by (intro keeps_intros)+

text \<open>A failure of a peer that a call holds on to is noted, and the peer is dropped in the same go.\<close>

lemma failing_whole:
  assumes "whole I ip objs s" and "peer_key_of p = key_of s obj"
  shows "whole I ip objs (unlink obj (s\<lparr>nd_peers := (nd_peers s)(obj := p), nd_book := b\<rparr>))"
proof -
  let ?t = "s\<lparr>nd_peers := (nd_peers s)(obj := p), nd_book := b\<rparr>"
  have "linked ip (unlink obj ?t)"
    using unlink_linked [OF failing_linked [OF _ assms(2)], of ip obj] assms(1) by (simp add: whole_def linked_def)
  moreover have "key_of ?t = key_of s" using assms(2) by (auto simp: key_of_def)
  ultimately show ?thesis using assms(1) by (simp add: whole_def holding_def)
qed

definition drop_peer :: "node_env \<Rightarrow> bool \<Rightarrow> nat \<Rightarrow> (node, unit) action" where
  "drop_peer E noted obj =
     bindS (source_of E obj) (\<lambda>source. bindS (note_failure E obj source) (\<lambda>_. disconnect_peer E noted obj))"

lemma drop_peer_run:
  assumes "sound_key ip (key_of s obj)" and "node_ip E = ip"
  obtains p b where "drop_peer E noted obj s = disconnect_peer E noted obj (s\<lparr>nd_peers := (nd_peers s)(obj := p), nd_book := b\<rparr>)"
    and "peer_key_of p = key_of s obj"
proof -
  obtain source where "source_of E obj s = (Inr source, s)" by (rule source_found [OF assms])
  moreover obtain p b where "note_failure E obj source s = (Inr (), s\<lparr>nd_peers := (nd_peers s)(obj := p), nd_book := b\<rparr>)"
    "peer_key_of p = key_of s obj" by (rule note_failure_run [OF assms])
  ultimately show ?thesis using that by (simp add: drop_peer_def bindS_def)
qed

lemma drop_peer_keeps [keeps_intros]:
  assumes "node_ip E = ip" and "obj \<in> snd ` set objs"
  shows "keeps (whole I ip objs) (drop_peer E noted obj)"
  unfolding keeps_def
proof (intro allI impI)
  fix s assume w: "whole I ip objs s"
  then have "sound_key ip (key_of s obj)" using assms(2) by (auto simp: whole_def holding_def)
  then obtain p b where d: "drop_peer E noted obj s = disconnect_peer E noted obj (s\<lparr>nd_peers := (nd_peers s)(obj := p), nd_book := b\<rparr>)"
    "peer_key_of p = key_of s obj" using drop_peer_run [OF _ assms(1)] by metis
  show "whole I ip objs (snd (drop_peer E noted obj s))" unfolding d(1) disconnect_run
    by (rule keeps_at [OF quiet_keeps(1)]) (use failing_whole [OF w d(2)] in \<open>intro quiet_intros | simp\<close>)+
qed

lemma drop_failed_keeps [keeps_intros]:
  assumes "node_ip E = ip" and "obj \<in> snd ` set objs"
  shows "keeps (whole I ip objs) (drop_failed_peer E obj e :: (node, 'a) action)"
proof -
  have "(drop_failed_peer E obj e :: (node, 'a) action) = bindS (record_misbehaviour E obj e) (\<lambda>_. bindS (drop_peer E False obj) (\<lambda>_. raiseS e))"
    by (simp add: drop_failed_peer_def drop_peer_def bindS_assoc)
  then show ?thesis by (simp only:) (intro keeps_intros assms)
qed

lemma announce_to_keeps [keeps_intros]:
  assumes "node_ip E = ip" and "obj \<in> snd ` set objs"
  shows "keeps (whole I ip objs) (announce_to E v obj)"
proof -
  have "announce_to E v obj = catchS (send_message E obj (Inv [v])) (\<lambda>_. drop_peer E True obj)"
    by (simp add: announce_to_def drop_peer_def)
  then show ?thesis by (simp only:) (intro keeps_intros assms)
qed

lemma announce_keeps [keeps_intros]:
  assumes "node_ip E = ip" shows "keeps (whole I ip objs) (announce_inventory E v src)"
  unfolding announce_inventory_def
  by (rule keeps_over_ready) (intro keeps_intros assms; auto simp: image_Un)


section \<open>Parts of the state\<close>

lemma whole_parts [simp]:
  "whole I ip objs (s\<lparr>nd_chain := c\<rparr>) \<longleftrightarrow> linked ip s \<and> holding ip objs s \<and> I c (nd_pool s)"
  "whole I ip objs (s\<lparr>nd_pool := p\<rparr>) \<longleftrightarrow> linked ip s \<and> holding ip objs s \<and> I (nd_chain s) p"
  by (simp_all add: whole_def linked_def linked_defs holding_def key_of_def)

lemma serving_parts [simp]:
  "serving k obj (s\<lparr>nd_chain := c\<rparr>) = serving k obj s" "serving k obj (s\<lparr>nd_pool := p\<rparr>) = serving k obj s"
  "serving k obj (s\<lparr>nd_inflight := i\<rparr>) = serving k obj s" "serving k obj (s\<lparr>nd_sync := y\<rparr>) = serving k obj s"
  "serving k obj (s\<lparr>nd_keepalive := a\<rparr>) = serving k obj s"
  by (simp_all add: serving_def ready_keys_def key_of_def)

text \<open>Requests only leave, or are made to the peer that is served.\<close>

lemma whole_inflight:
  "whole I ip objs s \<Longrightarrow> (\<forall>(_, q) \<in> set (if_requests i). ir_peer q \<in> ready_keys s) \<Longrightarrow> whole I ip objs (s\<lparr>nd_inflight := i\<rparr>)"
  by (simp add: whole_def linked_def linked_defs holding_def key_of_def)

lemma inflight_run: "snd (on_inflight f s) = s\<lparr>nd_inflight := snd (f (nd_inflight s))\<rparr>"
  by (simp add: on_inflight_def split: prod.split)

lemma set_update: "set (AList.update a b xs) \<subseteq> insert (a, b) (set xs)"
  by (induction xs) auto

lemma release_keeps [keeps_intros]:
  "keeps (whole I ip objs) (on_inflight (release v))" "keeps (whole I ip objs) (on_inflight (release_key key))"
  "keeps (\<lambda>s. whole I ip objs s \<and> serving k obj s) (on_inflight (release v))"
proof -
  have r: "set (if_requests (snd (release_key key i))) \<subseteq> set (if_requests i)" for key i
    by (auto simp: release_key_def AList.delete_eq)
  have v: "set (if_requests (snd (release v i))) \<subseteq> set (if_requests i)" for i
    using r by (auto simp: release_def split: option.split)
  have w: "whole I ip objs (s\<lparr>nd_inflight := i\<rparr>)" if "whole I ip objs s" "set (if_requests i) \<subseteq> set (if_requests (nd_inflight s))" for s i
    using that by (intro whole_inflight) (auto simp: whole_def linked_def linked_but_def requests_held_def)
  show "keeps (whole I ip objs) (on_inflight (release v))" "keeps (whole I ip objs) (on_inflight (release_key key))"
    "keeps (\<lambda>s. whole I ip objs s \<and> serving k obj s) (on_inflight (release v))"
    using w [OF _ r] w [OF _ v] by (simp_all add: keeps_def inflight_run)
qed

lemma claim_keeps [keeps_intros]:
  "keeps (\<lambda>s. whole I ip objs s \<and> serving k obj s) (on_inflight (claim now v k))"
proof -
  have c: "(ir_peer \<circ> snd) ` set (if_requests (snd (claim now v k i))) \<subseteq> insert k ((ir_peer \<circ> snd) ` set (if_requests i))" for i
  proof -
    let ?xs = "filter (\<lambda>(_, q). request_live now i q) (if_requests i)"
    have "(ir_peer \<circ> snd) ` set (AList.update key \<lparr>ir_vector = v, ir_peer = k, ir_at = now\<rparr> ?xs)
        \<subseteq> insert k ((ir_peer \<circ> snd) ` set (if_requests i))" for key
      using set_update [of key "\<lparr>ir_vector = v, ir_peer = k, ir_at = now\<rparr>" ?xs] by fastforce
    then show ?thesis by (auto simp: claim_def expire_requests_def Let_def split: option.split)
  qed
  show ?thesis unfolding keeps_def
  proof (intro allI impI conjI)
    fix s assume w: "whole I ip objs s \<and> serving k obj s"
    then have "\<forall>(_, q) \<in> set (if_requests (snd (claim now v k (nd_inflight s)))). ir_peer q \<in> ready_keys s"
      using c [of "nd_inflight s"] by (fastforce simp: whole_def linked_def linked_but_def requests_held_def serving_def)
    then show "whole I ip objs (snd (on_inflight (claim now v k) s))" using whole_inflight w by (simp add: inflight_run)
    show "serving k obj (snd (on_inflight (claim now v k) s))" using w by (simp add: inflight_run)
  qed
qed

lemma whole_sync:
  "whole I ip objs s \<Longrightarrow> (sy_state y = SYNCING \<Longrightarrow> \<exists>k \<in> ready_keys s. sy_peer y = Some k) \<Longrightarrow> whole I ip objs (s\<lparr>nd_sync := y\<rparr>)"
  by (simp add: whole_def linked_def linked_defs holding_def key_of_def)

lemma sync_modify_keeps [keeps_intros]:
  assumes "\<And>s. sy_state (f s) = SYNCING \<Longrightarrow> sy_state (nd_sync s) = SYNCING \<and> sy_peer (f s) = sy_peer (nd_sync s)"
  shows "keeps (whole I ip objs) (modifyS (\<lambda>s. s\<lparr>nd_sync := f s\<rparr>))"
    "keeps (\<lambda>s. whole I ip objs s \<and> serving k obj s) (modifyS (\<lambda>s. s\<lparr>nd_sync := f s\<rparr>))"
proof -
  have "whole I ip objs (s\<lparr>nd_sync := f s\<rparr>)" if "whole I ip objs s" for s
    using that assms [of s] by (intro whole_sync) (auto simp: whole_def linked_def linked_but_def sync_held_def)
  then show "keeps (whole I ip objs) (modifyS (\<lambda>s. s\<lparr>nd_sync := f s\<rparr>))"
    "keeps (\<lambda>s. whole I ip objs s \<and> serving k obj s) (modifyS (\<lambda>s. s\<lparr>nd_sync := f s\<rparr>))"
    by (auto intro: keeps_modify)
qed


text \<open>Pings are kept for ready peers: a state is replaced or added for one of them.\<close>

lemma whole_pings: "whole I ip objs s \<Longrightarrow> pings_ok (s\<lparr>nd_keepalive := a\<rparr>) \<Longrightarrow> whole I ip objs (s\<lparr>nd_keepalive := a\<rparr>)"
  by (simp add: whole_def linked_def linked_defs holding_def key_of_def)

lemma ping_set:
  assumes "pings_ok s" and "k \<in> ready_keys s" and "key_of s (ks_peer st) = k" and "ks_peer st < nd_next_peer s"
    and "kp_states a = AList.update k st (kp_states (nd_keepalive s))"
  shows "pings_ok (s\<lparr>nd_keepalive := a\<rparr>)"
proof -
  have "\<forall>x \<in> set (kp_states a). x = (k, st) \<or> x \<in> set (kp_states (nd_keepalive s))"
    using set_update [of k st] unfolding assms(5) by blast
  then show ?thesis using assms unfolding pings_ok_def
    by (force simp: ready_keys_def key_of_def distinct_update)
qed

lemma ping_forget: "pings_ok s \<Longrightarrow> pings_ok (s\<lparr>nd_keepalive := forget_peer k (nd_keepalive s)\<rparr>)"
  by (auto simp: pings_ok_def forget_peer_def AList.delete_eq key_of_def ready_keys_def intro: distinct_map_filter)

lemma pong_ok: "pings_ok s \<Longrightarrow> pings_ok (s\<lparr>nd_keepalive := snd (handle_pong now k nonce (nd_keepalive s))\<rparr>)"
proof (cases "map_of (kp_states (nd_keepalive s)) k")
  case (Some st)
  assume p: "pings_ok s"
  then have "k \<in> ready_keys s" "key_of s (ks_peer st) = k" "ks_peer st < nd_next_peer s"
    using map_of_SomeD [OF Some] by (auto simp: pings_ok_def)
  then show ?thesis
    using Some p ping_set [OF p, of k "st\<lparr>ks_pending_nonce := None, ks_ping_sent_at := None, ks_next_ping_at := _\<rparr>"]
    by (auto simp: handle_pong_def)
qed (simp add: handle_pong_def)

lemma pong_run:
  "snd (handle_payload E obj (Pong n) s) =
     s\<lparr>nd_keepalive := snd (handle_pong (ne_clock E) (key_of s obj) n (nd_keepalive s))\<rparr>"
proof (cases "handle_pong (ne_clock E) (key_of s obj) n (nd_keepalive s)")
  case (Pair r a)
  show ?thesis unfolding handle_payload.simps(2) by (subst bindS_read, simp only: Pair prod.case, subst bindS_modify) (simp add: raiseS_def returnS_def)
qed

section \<open>The interface to chain and pool\<close>

locale node_parts =
  fixes I :: "blockchain \<Rightarrow> mempool \<Rightarrow> bool" and ip :: ip_parser and good :: "node_env \<Rightarrow> bool"
  assumes good_ip: "good E \<Longrightarrow> node_ip E = ip"
    and headers_keep: "good E \<Longrightarrow> I c p \<Longrightarrow> I (snd (on_db (add_headers (ne_chain E) hs) c)) p"
    and block_keep: "good E \<Longrightarrow> I c p \<Longrightarrow> I (snd (add_block_to_chain (ne_chain E) b c)) p"
    and tx_keep: "good E \<Longrightarrow> I c p \<Longrightarrow> I c (snd (add_tx (node_pool_env E c) (Decoded t) False p))"
    and confirm_keep: "good E \<Longrightarrow> I c p \<Longrightarrow> I c (snd (confirm_block (node_pool_env E c) txids p))"
begin

abbreviation "W \<equiv> whole I ip"

lemma chain_keeps:
  assumes "\<And>c p. I c p \<Longrightarrow> I (snd (m c)) p"
  shows "keeps (W objs) (on_chain m)" "keeps (\<lambda>s. W objs s \<and> serving k obj s) (on_chain m)"
proof -
  have "snd (on_chain m s) = s\<lparr>nd_chain := snd (m (nd_chain s))\<rparr>" for s
    by (simp add: on_chain_def zoomS_def split: prod.split)
  then show "keeps (W objs) (on_chain m)" "keeps (\<lambda>s. W objs s \<and> serving k obj s) (on_chain m)"
    using assms by (auto simp: keeps_def) (auto simp: whole_def)
qed

lemma pool_keeps:
  assumes "\<And>c p. I c p \<Longrightarrow> I c (snd (f (node_pool_env E c) p))"
  shows "keeps (W objs) (on_pool E f)"
proof -
  have "snd (on_pool E f s) = s\<lparr>nd_pool := snd (f (node_pool_env E (nd_chain s)) (nd_pool s))\<rparr>" for s
    by (simp add: on_pool_def zoomS_def split: prod.split)
  then show ?thesis using assms by (auto simp: keeps_def) (auto simp: whole_def)
qed

lemma submit_tx_keeps [keeps_intros]: "good E \<Longrightarrow> keeps (W objs) (submit_tx E t src)"
  unfolding submit_tx_def by (intro keeps_intros pool_keeps tx_keep good_ip)

lemma submit_block_keeps [keeps_intros]: "good E \<Longrightarrow> keeps (W objs) (submit_block E b src)"
  unfolding submit_block_def by (intro keeps_intros chain_keeps pool_keeps block_keep confirm_keep good_ip)

section \<open>Messages of a peer\<close>

lemma request_next_keeps [keeps_intros]:
  "keeps (W objs) (request_next E obj)" "keeps (\<lambda>s. W objs s \<and> serving k obj s) (request_next E obj)"
  unfolding request_next_def by (intro keeps_intros; simp)+

lemma handle_headers_keeps [keeps_intros]: "good E \<Longrightarrow> keeps (W objs) (handle_headers E obj hs)"
  unfolding handle_headers_def by (intro keeps_intros chain_keeps headers_keep; simp)

lemma claim_wanted_keeps [keeps_intros]: "keeps (\<lambda>s. W objs s \<and> serving k obj s) (claim_wanted E k vs)"
proof (induction vs)
  case (Cons v vs)
  then show ?case unfolding claim_wanted.simps by (intro keeps_bind keeps_if claim_keeps keeps_return keeps_query)
qed (simp add: keeps_intros)

lemma handle_inv_keeps:
  assumes "W objs s" and "serving k obj s" shows "W objs (snd (handle_inv E obj vs s))"
proof -
  have "keeps (\<lambda>s. W objs s \<and> serving k obj s)
     (bindS (claim_wanted E k vs) (\<lambda>requested. if requested = [] then returnS [] else
        bindS (catchS (send_message E obj (GetData requested))
            (\<lambda>e. bindS (forS (\<lambda>v. bindS (on_inflight (release v)) (\<lambda>_. returnS ())) requested) (\<lambda>_. raiseS e))) (\<lambda>_. returnS requested)))"
    by (intro keeps_intros)
  from keeps_at [OF this, of s] show ?thesis using assms by (simp add: handle_inv_def run_simps serving_def)
qed

lemma other_payload_keeps:
  assumes "good E" and "\<nexists>items. m = Inv items" and "\<nexists>n. m = Pong n" shows "keeps (W objs) (handle_payload E obj m)"
  using assms(2,3) by (cases m; (simp; fail)?; hypsubst; simp only: handle_payload.simps; intro keeps_intros assms(1))

lemma handle_payload_keeps:
  assumes "good E" and "W objs s" and "serving k obj s" shows "W objs (snd (handle_payload E obj m s))"
proof -
  consider items where "m = Inv items" | n where "m = Pong n" | "keeps (W objs) (handle_payload E obj m)"
    using other_payload_keeps [OF assms(1)] by blast
  then show ?thesis
  proof cases
    case 1
    then show ?thesis using handle_inv_keeps [OF assms(2,3), of E items]
      by (cases "handle_inv E obj items s") (auto simp: bindS_def returnS_def split: sum.split)
  next
    case 2
    have "pings_ok s" using assms(2) by (simp add: whole_def linked_def linked_but_def)
    then show ?thesis unfolding 2 pong_run by (rule whole_pings [OF assms(2) pong_ok])
  next
    case 3
    show ?thesis by (rule keeps_at [OF 3 assms(2)])
  qed
qed

lemma handle_message_keeps [keeps_intros]: "good E \<Longrightarrow> keeps (W objs) (handle_peer_message E obj m)"
  unfolding keeps_def
proof (intro allI impI)
  fix s assume g: "good E" and w: "W objs s"
  show "W objs (snd (handle_peer_message E obj m s))"
  proof (cases "is_ready_peer obj s")
    case True
    then have "serving (key_of s obj) obj s" using whole_registered [OF w] by blast
    then show ?thesis using handle_payload_keeps [OF g w] True by (simp add: handle_peer_message_def run_simps)
  qed (use w in \<open>simp add: handle_peer_message_def run_simps\<close>)
qed

lemma receive_keeps [keeps_intros]: "good E \<Longrightarrow> keeps (W objs) (receive_peer_message E obj)"
  unfolding keeps_def
proof (intro allI impI)
  fix s assume g: "good E" and w: "W objs s"
  let ?m = "catchS (bindS (receive_message E obj None) (\<lambda>m. bindS (handle_peer_message E obj m) (\<lambda>_. returnS m))) (drop_failed_peer E obj)"
  have m: "keeps (W ((key_of s obj, obj) # objs)) ?m" by (intro keeps_intros g good_ip; simp)
  show "W objs (snd (receive_peer_message E obj s))"
  proof (cases "is_ready_peer obj s")
    case True
    then have "W ((key_of s obj, obj) # objs) (snd (?m s))" using keeps_at [OF m] whole_registered [OF w] by blast
    then show ?thesis using True whole_Cons [of I ip "(key_of s obj, obj)" objs] by (simp add: receive_peer_message_def run_simps)
  qed (use w in \<open>simp add: receive_peer_message_def run_simps\<close>)
qed

lemma start_sync_keeps [keeps_intros]: "keeps (W objs) (start_header_sync E obj)"
  unfolding keeps_def
proof (intro allI impI)
  fix s assume w: "W objs s"
  show "W objs (snd (start_header_sync E obj s))"
  proof (cases "is_ready_peer obj s")
    case True
    let ?t = "s\<lparr>nd_sync := (nd_sync s)\<lparr>sy_peer := Some (key_of s obj), sy_state := SYNCING, sy_batches := 0, sy_headers := 0\<rparr>\<rparr>"
    have "key_of s obj \<in> ready_keys s" using whole_registered [OF w True] by (simp add: serving_def)
    then have "W objs ?t" by (intro whole_sync w) auto
    from keeps_at [OF request_next_keeps(1) this] show ?thesis using True
      by (simp add: start_header_sync_def sync_start_def run_simps)
  qed (use w in \<open>simp add: start_header_sync_def run_simps\<close>)
qed

lemma sync_loop_keeps [keeps_intros]: "good E \<Longrightarrow> keeps (W objs) (sync_loop fuel E obj)"
proof (induction fuel)
  case (Suc fuel)
  show ?case unfolding sync_loop.simps by (intro keeps_intros Suc)
qed (simp add: keeps_intros)

lemma sync_headers_keeps [keeps_intros]: "good E \<Longrightarrow> keeps (W objs) (sync_headers fuel E obj)"
  unfolding sync_headers_def by (intro keeps_intros) simp_all

end

section \<open>Handshakes\<close>

text \<open>The object of a handshake may change its state, since nothing refers to it yet.\<close>

lemma joining_whole:
  assumes "whole I ip objs s" and "joining k obj s" and "peer_key_of p = k"
  shows "whole I ip objs (s\<lparr>nd_peers := (nd_peers s)(obj := p)\<rparr>) \<and> joining k obj (s\<lparr>nd_peers := (nd_peers s)(obj := p)\<rparr>)"
proof -
  let ?t = "s\<lparr>nd_peers := (nd_peers s)(obj := p)\<rparr>"
  have k: "key_of ?t = key_of s" using assms(2,3) by (auto simp: key_of_def joining_def)
  have "(k', obj) \<notin> set (nd_ready s)" for k' using assms(2) by (force simp: joining_def)
  then have "registry_ok ip {} ?t" using assms(1)
    by (auto simp: whole_def linked_def linked_but_def registry_ok_def k)
  moreover have "pings_ok ?t" "requests_held ?t" "sync_held ?t" using assms(1)
    by (simp_all add: whole_def linked_def linked_but_def pings_ok_def requests_held_def sync_held_def k ready_keys_def)
  ultimately show ?thesis using assms(1,2) by (simp add: whole_def linked_def linked_but_def holding_def joining_def k)
qed

lemma joining_peer_keeps:
  assumes "\<And>p. peer_key_of (f p) = peer_key_of p"
  shows "keeps (\<lambda>s. whole I ip objs s \<and> joining k obj s) (on_peer obj f)"
  unfolding on_peer_def
proof (rule keeps_modify)
  fix s assume "whole I ip objs s \<and> joining k obj s"
  then show "whole I ip objs (s\<lparr>nd_peers := (nd_peers s)(obj := f (nd_peers s obj))\<rparr>)
      \<and> joining k obj (s\<lparr>nd_peers := (nd_peers s)(obj := f (nd_peers s obj))\<rparr>)"
    using joining_whole [of I ip objs s k obj "f (nd_peers s obj)"] assms by (simp add: joining_def key_of_def)
qed

lemma joining_conns_keeps [keeps_intros]:
  "keeps (\<lambda>s. whole I ip objs s \<and> joining k obj s) (modifyS (\<lambda>s. s\<lparr>nd_conns := f s\<rparr>))"
  by (rule quiet_keeps, rule quietly_modify) simp

lemma joining_transition [keeps_intros]:
  "keeps (\<lambda>s. whole I ip objs s \<and> joining k obj s) (on_peer obj (transition st t))"
  by (rule joining_peer_keeps) (simp add: transition_def note_activity_def peer_key_of_def Let_def split: option.split)

lemma note_failure_joining [keeps_intros]:
  "keeps (\<lambda>s. whole I ip objs s \<and> joining k obj s) (note_failure E obj source)"
  unfolding keeps_def
proof (intro allI impI)
  fix s assume w: "whole I ip objs s \<and> joining k obj s"
  let ?p = "record_peer_failure (ne_time E) (Some (ne_time E)) (nd_peers s obj)"
  have p: "peer_key_of ?p = k" using w
    by (simp add: record_peer_failure_def transition_def note_activity_def peer_key_of_def key_of_def Let_def joining_def)
  have "\<exists>b. snd (note_failure E obj source s) = s\<lparr>nd_peers := (nd_peers s)(obj := ?p), nd_book := b\<rparr>"
  proof (cases "add_peer (node_ip E) (ne_time E) ?p source (Some (ne_time E)) (nd_book s)")
    case (Inl x)
    then show ?thesis by (intro exI [of _ "nd_book s"]) (simp add: note_failure_def book_failure_def Let_def given_or_def)
  next
    case (Inr x)
    then show ?thesis by (cases x) (auto simp: note_failure_def book_failure_def Let_def given_or_def)
  qed
  then obtain b where "snd (note_failure E obj source s) = s\<lparr>nd_peers := (nd_peers s)(obj := ?p), nd_book := b\<rparr>" by blast
  moreover have "quiet (s\<lparr>nd_peers := (nd_peers s)(obj := ?p)\<rparr>) (s\<lparr>nd_peers := (nd_peers s)(obj := ?p), nd_book := b\<rparr>)"
    by (simp add: quiet_refl)
  note q = quiet_states [OF this]
  ultimately show "whole I ip objs (snd (note_failure E obj source s)) \<and> joining k obj (snd (note_failure E obj source s))"
    using joining_whole [of I ip objs s k obj ?p] w p by (simp only: q)
qed

lemma connecting_keeps [keeps_intros]:
  "keeps (\<lambda>s. whole I ip objs s \<and> joining k obj s) (transport_connect E obj)"
  "keeps (\<lambda>s. whole I ip objs s \<and> joining k obj s) (adopt_socket E obj stream)"
  "keeps (\<lambda>s. whole I ip objs s \<and> joining k obj s) (transport_disconnect obj)"
  unfolding transport_connect_def adopt_socket_def transport_disconnect_def by (intro keeps_intros)+

lemma failed_handshake_keeps [keeps_intros]:
  "keeps (\<lambda>s. whole I ip objs s \<and> joining k obj s) (failed_handshake E obj source e)"
  unfolding failed_handshake_def by (intro keeps_intros)

lemma await_keeps [keeps_intros]: "keeps (\<lambda>s. whole I ip objs s \<and> joining k obj s) (await_verack E obj n)"
proof (induction n)
  case (Suc n)
  show ?case unfolding await_verack.simps by (intro keeps_intros Suc)
qed (simp add: keeps_intros)

lemma await_ready: "await_verack E obj n s = (Inr u, t) \<Longrightarrow> pr_state (nd_peers t obj) = READY"
  by (induction n arbitrary: s)
    (auto simp: run_simps on_peer_def transition_def Let_def bindS_Inr_iff split: if_split_asm)

lemma failed_handshake_raises: "failed_handshake E obj source e s \<noteq> (Inr u, t)"
  by (auto simp: failed_handshake_def bindS_def raiseS_def split: sum.split prod.split)

text \<open>Registering replaces whatever was registered under the key.\<close>

lemma registered_whole:
  assumes "whole I ip objs s" and "joining k obj s" and "sound_key ip k" and "pr_state (nd_peers s obj) = READY"
  shows "whole I ip objs (s\<lparr>nd_ready := AList.update k obj (nd_ready s)\<rparr>)"
proof -
  let ?t = "s\<lparr>nd_ready := AList.update k obj (nd_ready s)\<rparr>"
  have keys: "ready_keys ?t = insert k (ready_keys s)" by (simp add: ready_keys_def AList.dom_update)
  have k: "key_of ?t = key_of s" by (simp add: key_of_def fun_eq_iff)
  have "\<forall>x \<in> set (nd_ready ?t). x = (k, obj) \<or> x \<in> set (nd_ready s)" using set_update [of k obj] by auto
  then have "registry_ok ip {} ?t" using assms unfolding registry_ok_def
    by (fastforce simp: k joining_def distinct_update whole_def linked_def linked_but_def registry_ok_def)
  moreover have "pings_ok ?t" "requests_held ?t" "sync_held ?t" using assms(1) keys k
    by (fastforce simp: whole_def linked_def linked_but_def pings_ok_def requests_held_def sync_held_def)+
  ultimately show ?thesis using assms(1) by (simp add: whole_def linked_def linked_but_def holding_def k)
qed

lemma register_whole:
  assumes "whole I ip objs s" and "joining k obj s" and "sound_key ip k" and "pr_state (nd_peers s obj) = READY"
  shows "whole I ip objs (snd (register_ready E obj source s))"
proof -
  obtain r t where t: "note_success E obj source s = (r, t)" by fastforce
  have q: "quiet s t" by (rule quietlyD [OF quietly_success t])
  then have "whole I ip objs t" "joining k obj t" "pr_state (nd_peers t obj) = READY" using assms quiet_states [OF q]
    by (simp_all add: quiet_def)
  from registered_whole [OF this(1,2) assms(3) this(3)] this(1,2) show ?thesis
    by (auto simp: register_ready_def bindS_def [of "note_success E obj source"] t run_simps joining_def split: sum.split)
qed

text \<open>An action that leads from \<open>P\<close> to \<open>Q\<close>, whatever its outcome.\<close>

definition leads :: "('s \<Rightarrow> bool) \<Rightarrow> ('s \<Rightarrow> bool) \<Rightarrow> ('s, 'a) action \<Rightarrow> bool" where
  "leads P Q m \<longleftrightarrow> (\<forall>s. P s \<longrightarrow> Q (snd (m s)))"

lemma leads_bind:
  assumes "keeps P m" and "\<And>s. P s \<Longrightarrow> Q s" and "\<And>s x t. m s = (Inr x, t) \<Longrightarrow> R t" and "\<And>x. leads (\<lambda>s. P s \<and> R s) Q (f x)"
  shows "leads P Q (bindS m f)"
  unfolding leads_def
proof (intro allI impI)
  fix s assume "P s"
  obtain r t where m: "m s = (r, t)" by fastforce
  then have "P t" using keepsD [OF assms(1) \<open>P s\<close>] by blast
  then show "Q (snd (bindS m f s))" using assms(2-4) m by (cases r) (auto simp: bindS_def leads_def)
qed

lemma catch_returns: "catchS m h s = (Inr x, t) \<Longrightarrow> m s = (Inr x, t) \<or> (\<exists>e u. h e u = (Inr x, t))"
  by (auto simp: catchS_def split: prod.split_asm sum.split_asm if_split_asm)

lemma new_peer_keeps:
  assumes "\<And>obj. leads (\<lambda>s. whole I ip objs s \<and> joining (host, port) obj s) (whole I ip objs) (m obj)"
  shows "keeps (whole I ip objs) (bindS (new_peer_object E host port) m)"
  unfolding keeps_def
proof (intro allI impI)
  fix s assume w: "whole I ip objs s"
  let ?n = "nd_next_peer s" let ?t = "s\<lparr>nd_next_peer := ?n + 1, nd_peers := (nd_peers s)(?n := new_peer (ne_time E) host port)\<rparr>"
  have k: "key_of ?t o' = key_of s o'" "pr_state (nd_peers ?t o') = pr_state (nd_peers s o')" if "o' < ?n" for o'
    using that by (simp_all add: key_of_def)
  have below: "\<forall>o' \<in> snd ` set (nd_ready s). o' < ?n"
    using w by (auto simp: whole_def linked_def linked_but_def registry_ok_def)
  have "registry_ok ip {} ?t" using w k unfolding whole_def linked_def linked_but_def registry_ok_def by fastforce
  moreover have "pings_ok ?t" using w k unfolding whole_def linked_def linked_but_def pings_ok_def ready_keys_def by fastforce
  moreover have "requests_held ?t" "sync_held ?t" using w
    by (simp_all add: whole_def linked_def linked_but_def requests_held_def sync_held_def ready_keys_def)
  moreover have "holding ip objs ?t" using w k by (fastforce simp: whole_def holding_def)
  ultimately have "whole I ip objs ?t" using w by (simp add: whole_def linked_def linked_but_def)
  moreover have "?n \<notin> snd ` set (nd_ready s)" using below by blast
  then have "joining (host, port) ?n ?t" by (simp add: joining_def key_of_def peer_key_of_def new_peer_def)
  ultimately show "whole I ip objs (snd (bindS (new_peer_object E host port) m s))"
    using assms [of ?n] by (simp add: leads_def bindS_def new_peer_object_def)
qed

lemma added_peer_leads:
  assumes "node_ip E = ip" and "sound_key ip k \<Longrightarrow> leads (\<lambda>s. whole I ip objs s \<and> joining k obj s) (whole I ip objs) m"
  shows "leads (\<lambda>s. whole I ip objs s \<and> joining k obj s) (whole I ip objs)
     (bindS (readS (\<lambda>s. nd_peers s obj)) (\<lambda>p. bindS (on_book (add_peer (node_ip E) now p source None)) (\<lambda>_. m)))"
  unfolding leads_def
proof (intro allI impI)
  fix s assume w: "whole I ip objs s \<and> joining k obj s"
  let ?add = "add_peer ip now (nd_peers s obj) source None (nd_book s)"
  have k: "peer_key_of (nd_peers s obj) = k" using w by (simp add: joining_def key_of_def)
  show "whole I ip objs (snd (bindS (readS (\<lambda>s. nd_peers s obj)) (\<lambda>p. bindS (on_book (add_peer (node_ip E) now p source None)) (\<lambda>_. m)) s))"
  proof (cases ?add)
    case (Inl e)
    then show ?thesis using w assms(1) by (simp add: run_simps) (simp add: bindS_def on_book_def)
  next
    case (Inr x)
    obtain key b where x: "x = (key, b)" by fastforce
    have "sound_key ip k" using add_peer_sound [of ip now "nd_peers s obj" source None "nd_book s"] Inr k by auto
    moreover have "quiet s (s\<lparr>nd_book := b\<rparr>)" by (simp add: quiet_refl)
    ultimately have "whole I ip objs (snd (m (s\<lparr>nd_book := b\<rparr>)))" using assms(2) w quiet_states [of s "s\<lparr>nd_book := b\<rparr>"]
      by (simp only: leads_def)
    then show ?thesis using assms(1) Inr x by (simp add: run_simps) (simp add: bindS_def on_book_def)
  qed
qed

lemma register_leads:
  assumes "sound_key ip k"
  shows "leads (\<lambda>s. (whole I ip objs s \<and> joining k obj s) \<and> pr_state (nd_peers s obj) = READY) (whole I ip objs) (register_ready E obj source)"
  unfolding leads_def by (intro allI impI) (elim conjE, rule register_whole [OF _ _ assms])

context node_parts
begin

lemma leads_step:
  assumes "keeps (\<lambda>s. W objs s \<and> joining k obj s) m" and "\<And>x. leads (\<lambda>s. W objs s \<and> joining k obj s) (W objs) (f x)"
  shows "leads (\<lambda>s. W objs s \<and> joining k obj s) (W objs) (bindS m f)"
  using leads_bind [OF assms(1), of "W objs" "\<lambda>_. True" f] assms(2) by simp

lemma connect_keeps [keeps_intros]: assumes "good E" shows "keeps (W objs) (connect_peer E host port source)"
proof -
  let ?J = "\<lambda>obj s. W objs s \<and> joining (host, port) obj s"
  let ?hand = "\<lambda>obj. catchS
      (bindS (send_version E obj) (\<lambda>_. bindS (receive_version E obj) (\<lambda>_. bindS (send_message E obj VerAck) (\<lambda>_.
       bindS (await_verack E obj (MAX_PRE_VERACK_MESSAGES + 1)) (\<lambda>_. send_message E obj GetAddr))))) (failed_handshake E obj source)"
  have ready: "pr_state (nd_peers t obj) = READY" if h: "?hand obj s = (Inr x, t)" for obj s x t
  proof -
    from catch_returns [OF h] failed_handshake_raises obtain u v y where "await_verack E obj (MAX_PRE_VERACK_MESSAGES + 1) u = (Inr y, v)"
      "send_message E obj GetAddr v = (Inr x, t)" by (elim disjE) blast+
    then show ?thesis using await_ready quietlyD [OF quietly_send] by (metis quiet_def)
  qed
  have hand: "leads (?J obj) (W objs) (bindS (?hand obj) (\<lambda>_. register_ready E obj source))" if "sound_key ip (host, port)" for obj
    by (rule leads_bind [OF _ _ ready register_leads [OF that]]) (intro keeps_intros, simp)
  have "leads (?J obj) (W objs) (bindS (catchS (transport_connect E obj) (\<lambda>e. bindS (note_failure E obj source) (\<lambda>_. raiseS e))) (\<lambda>_.
      bindS (on_peer obj (transition HANDSHAKING None)) (\<lambda>_. bindS (?hand obj) (\<lambda>_. register_ready E obj source))))"
    if "sound_key ip (host, port)" for obj
    by (rule leads_step, intro keeps_intros, rule leads_step, intro keeps_intros, rule hand [OF that])
  then show ?thesis unfolding connect_peer_def
    by (intro keeps_intros new_peer_keeps added_peer_leads good_ip assms)
qed

lemma accept_keeps [keeps_intros]: assumes "good E" shows "keeps (W objs) (accept_peer E host port stream)"
proof -
  let ?J = "\<lambda>obj s. W objs s \<and> joining (host, port) obj s"
  let ?hand = "\<lambda>obj. catchS
      (bindS (receive_version E obj) (\<lambda>_. bindS (send_version E obj) (\<lambda>_. bindS (send_message E obj VerAck) (\<lambda>_.
       await_verack E obj (MAX_PRE_VERACK_MESSAGES + 1))))) (failed_handshake E obj INBOUND)"
  have ready: "pr_state (nd_peers t obj) = READY" if h: "?hand obj s = (Inr x, t)" for obj s x t
  proof -
    from catch_returns [OF h] failed_handshake_raises obtain u where "await_verack E obj (MAX_PRE_VERACK_MESSAGES + 1) u = (Inr x, t)"
      by (elim disjE) blast+
    then show ?thesis by (rule await_ready)
  qed
  have hand: "leads (?J obj) (W objs) (bindS (?hand obj) (\<lambda>_. register_ready E obj INBOUND))" if "sound_key ip (host, port)" for obj
    by (rule leads_bind [OF _ _ ready register_leads [OF that]]) (intro keeps_intros, simp)
  have "leads (?J obj) (W objs) (bindS (adopt_socket E obj stream) (\<lambda>_.
      bindS (on_peer obj (transition HANDSHAKING None)) (\<lambda>_. bindS (?hand obj) (\<lambda>_. register_ready E obj INBOUND))))"
    if "sound_key ip (host, port)" for obj
    by (rule leads_step, intro keeps_intros, rule leads_step, intro keeps_intros, rule hand [OF that])
  then show ?thesis unfolding accept_peer_def
    by (intro keeps_intros new_peer_keeps added_peer_leads good_ip assms)
qed

lemma stop_keeps [keeps_intros]: "keeps (W objs) (stop_peers E)"
  unfolding stop_peers_def by (intro keeps_intros)

end

section \<open>Maintenance\<close>

text \<open>Peers the keepalive is about to work on: their objects have the keys given, and those of \<open>ks\<close> are still registered.\<close>

definition noted_keys :: "(peer_key \<times> nat) list \<Rightarrow> peer_key set \<Rightarrow> node \<Rightarrow> bool" where
  "noted_keys xs ks s \<longleftrightarrow> (\<forall>(k, obj) \<in> set xs. key_of s obj = k \<and> obj < nd_next_peer s) \<and> ks \<subseteq> ready_keys s"

lemma quiet_noted: "quiet s t \<Longrightarrow> noted_keys xs ks t = noted_keys xs ks s"
  by (simp add: quiet_def noted_keys_def ready_keys_def)

lemma unlink_noted: "noted_keys xs ks s \<Longrightarrow> key_of s obj \<notin> ks \<Longrightarrow> noted_keys xs ks (unlink obj s)"
  by (auto simp: noted_keys_def)

lemma keepalive_noted [simp]: "noted_keys xs ks (s\<lparr>nd_keepalive := a\<rparr>) = noted_keys xs ks s"
  by (simp add: noted_keys_def ready_keys_def key_of_def)

lemma noted_sub: "noted_keys xs ks s \<Longrightarrow> set ys \<subseteq> set xs \<Longrightarrow> js \<subseteq> ks \<Longrightarrow> noted_keys ys js s"
  by (auto simp: noted_keys_def)

lemma disconnect_noted:
  assumes "whole I ip objs s \<and> noted_keys xs ks s" and "(k, obj) \<in> set xs" and "k \<notin> ks"
  shows "whole I ip objs (snd (disconnect_peer E noted obj s)) \<and> noted_keys xs ks (snd (disconnect_peer E noted obj s))"
proof -
  have q: "quietly (if noted then bindS (on_book f) (\<lambda>_. returnS ()) else returnS ())" for f :: "address_book \<Rightarrow> (peer_key \<times> address_book) result"
    by (intro quiet_intros)
  have "key_of s obj \<notin> ks" using assms by (auto simp: noted_keys_def)
  then have "whole I ip objs (unlink obj s) \<and> noted_keys xs ks (unlink obj s)" using unlink_whole unlink_noted assms(1) by blast
  then show ?thesis unfolding disconnect_run
    using keeps_at [OF quietly_keeps [OF q, of "\<lambda>s. whole I ip objs s \<and> noted_keys xs ks s"]] quiet_noted quiet_states(1) by simp
qed

text \<open>A pass over the states keeps those of ready peers and adds the missing ones.\<close>

definition states_for :: "node \<Rightarrow> (peer_key \<times> keepalive_state) list \<Rightarrow> bool" where
  "states_for s sts \<longleftrightarrow> distinct (map fst sts) \<and>
     (\<forall>(k, st) \<in> set sts. k \<in> ready_keys s \<and> key_of s (ks_peer st) = k \<and> ks_peer st < nd_next_peer s)"

lemma watch_states:
  assumes "\<forall>(k, obj) \<in> set ready. k \<in> ready_keys s \<and> key_of s obj = k \<and> obj < nd_next_peer s" and "states_for s sts"
  shows "states_for s (fold (watch_peer now interval) ready sts)"
  using assms
proof (induction ready arbitrary: sts)
  case (Cons x ready)
  obtain k obj where x: "x = (k, obj)" by fastforce
  have "states_for s (watch_peer now interval x sts)" using Cons.prems
    by (auto simp: x watch_peer_def states_for_def map_of_eq_None_iff)
  then show ?case using Cons by simp
qed simp

lemma pass_noted:
  assumes "linked ip s" and "keepalive_pass now (map (\<lambda>obj. (key_of s obj, obj)) (filter P (ready_peers s))) (nd_keepalive s) = (timed_out, due, a)"
  shows "pings_ok (s\<lparr>nd_keepalive := a\<rparr>)" and "noted_keys (timed_out @ due) (fst ` set due) s"
    and "distinct (map fst due)" and "fst ` set timed_out \<inter> fst ` set due = {}"
proof -
  let ?ready = "map (\<lambda>obj. (key_of s obj, obj)) (filter P (ready_peers s))"
  let ?known = "filter (\<lambda>(pk, _). pk \<in> set (map fst ?ready)) (kp_states (nd_keepalive s))"
  let ?w = "fold (watch_peer now (kp_ping_interval (nd_keepalive s))) ?ready ?known"
  let ?missed = "\<lambda>(pk :: peer_key, st). missed_pong now (nd_keepalive s) st"
  let ?kept = "filter (\<lambda>x. \<not> ?missed x) ?w" let ?due = "\<lambda>(pk :: peer_key, st). ks_pending_nonce st = None \<and> now \<ge> ks_next_ping_at st"
  have p: "timed_out = map (\<lambda>(pk, st). (pk, ks_peer st)) (filter ?missed ?w)" "due = map (\<lambda>(pk, st). (pk, ks_peer st)) (filter ?due ?kept)"
    "kp_states a = ?kept"
    using assms(2) by (auto simp: keepalive_pass_def Let_def case_prod_beta')
  have "states_for s ?known" using assms(1)
    by (auto simp: states_for_def linked_def linked_but_def pings_ok_def intro: distinct_map_filter)
  moreover have "\<forall>(k, obj) \<in> set ?ready. k \<in> ready_keys s \<and> key_of s obj = k \<and> obj < nd_next_peer s"
    using registered [OF assms(1) ready_peers_registered [OF assms(1)]] by auto
  ultimately have w: "states_for s ?w" by (intro watch_states)
  then have d: "distinct (map fst ?w)" and ok: "\<forall>(k, st) \<in> set ?w. k \<in> ready_keys s \<and> key_of s (ks_peer st) = k \<and> ks_peer st < nd_next_peer s"
    by (auto simp: states_for_def)
  show "pings_ok (s\<lparr>nd_keepalive := a\<rparr>)" using distinct_map_filter [OF d] ok
    by (auto simp: pings_ok_def p(3) key_of_def ready_keys_def)
  show "noted_keys (timed_out @ due) (fst ` set due) s" using ok by (fastforce simp: noted_keys_def p(1,2))
  have f: "map fst (map (\<lambda>(pk, st). (pk, ks_peer st)) xs) = map fst xs" for xs by auto
  show "distinct (map fst due)" unfolding p(2) f using distinct_map_filter [OF distinct_map_filter [OF d]] .
  have "x = y" if "x \<in> set ?w" "y \<in> set ?w" "fst x = fst y" for x y
    using d that by (auto simp: distinct_map dest: inj_onD)
  then show "fst ` set timed_out \<inter> fst ` set due = {}" unfolding p(1,2) by fastforce
qed

text \<open>While the due peers are pinged the later ones stay registered.\<close>

definition pinging :: "(blockchain \<Rightarrow> mempool \<Rightarrow> bool) \<Rightarrow> ip_parser \<Rightarrow> (peer_key \<times> nat) list \<Rightarrow> (peer_key \<times> nat) list \<Rightarrow> peer_key \<Rightarrow> nat \<Rightarrow> node \<Rightarrow> bool" where
  "pinging I ip objs xs k obj s \<longleftrightarrow> whole I ip objs s \<and> noted_keys ((k, obj) # xs) (insert k (fst ` set xs)) s"

lemma quiet_pinging: "quiet s t \<Longrightarrow> pinging I ip objs xs k obj s \<Longrightarrow> pinging I ip objs xs k obj t"
  using quiet_noted quiet_states(1) by (simp only: pinging_def)

lemma pinging_pings: "pinging I ip objs xs k obj s \<Longrightarrow> pings_ok (s\<lparr>nd_keepalive := a\<rparr>) \<Longrightarrow> pinging I ip objs xs k obj (s\<lparr>nd_keepalive := a\<rparr>)"
  using whole_pings by (simp add: pinging_def)

lemma begin_ping_ok:
  assumes "pinging I ip objs xs k obj s" and "begin_ping now fresh k obj (nd_keepalive s) = (r, a)"
  shows "pings_ok (s\<lparr>nd_keepalive := a\<rparr>)"
proof -
  have p: "pings_ok s" and k: "k \<in> ready_keys s" "key_of s obj = k" "obj < nd_next_peer s" using assms(1)
    by (auto simp: pinging_def noted_keys_def whole_def linked_def linked_but_def)
  have old: "key_of s (ks_peer st) = k" "ks_peer st < nd_next_peer s" if "map_of (kp_states (nd_keepalive s)) k = Some st" for st
    using p map_of_SomeD [OF that] by (auto simp: pings_ok_def)
  show ?thesis
  proof (cases "map_of (kp_states (nd_keepalive s)) k")
    case None
    then have "kp_states a = AList.update k \<lparr>ks_peer = obj, ks_next_ping_at = now, ks_pending_nonce = Some fresh, ks_ping_sent_at = Some now\<rparr>
        (kp_states (nd_keepalive s))" using assms(2) by (auto simp: begin_ping_def Let_def)
    from ping_set [OF p k(1) _ _ this] show ?thesis using k by simp
  next
    case (Some st)
    show ?thesis
    proof (cases "ks_pending_nonce st")
      case None
      then have "kp_states a = AList.update k (st\<lparr>ks_pending_nonce := Some fresh, ks_ping_sent_at := Some now\<rparr>) (kp_states (nd_keepalive s))"
        using assms(2) Some by (auto simp: begin_ping_def Let_def)
      from ping_set [OF p k(1) _ _ this] show ?thesis using old [OF Some] by simp
    next
      case (Some n)
      then show ?thesis using assms(2) \<open>map_of _ k = Some st\<close> p by (auto simp: begin_ping_def Let_def)
    qed
  qed
qed

lemma ping_keeps: "keeps (pinging I ip objs xs k obj) (ping_peer E obj)"
proof -
  let ?P = "pinging I ip objs xs k obj"
  have q: "keeps ?P m" if "quietly m" for m :: "(node, 'b) action" by (rule quietly_keeps [OF that quiet_pinging])
  have forget: "keeps ?P (modifyS (\<lambda>s. s\<lparr>nd_keepalive := forget_peer j (nd_keepalive s)\<rparr>))" for j
  proof (rule keeps_modify)
    fix s assume s: "?P s"
    then have "pings_ok s" by (simp add: pinging_def whole_def linked_def linked_but_def)
    then show "?P (s\<lparr>nd_keepalive := forget_peer j (nd_keepalive s)\<rparr>)" by (rule pinging_pings [OF s ping_forget])
  qed
  have sending: "keeps ?P (if \<not> new then returnS nonce
       else bindS (catchS (send_message E obj (Ping nonce))
            (\<lambda>e. bindS (modifyS (\<lambda>s. s\<lparr>nd_keepalive := forget_peer j (nd_keepalive s)\<rparr>)) (\<lambda>_. raiseS e))) (\<lambda>_. returnS nonce))"
    for new nonce j by (intro keeps_if keeps_bind keeps_catch keeps_return keeps_raise forget) (intro q quiet_intros)+
  have rest: "?P (snd (bindS (readS (\<lambda>s. (key_of s obj, begin_ping (ne_clock E) fresh (key_of s obj) obj (nd_keepalive s)))) (\<lambda>(j, (nonce, new), ka).
     bindS (modifyS (\<lambda>s. s\<lparr>nd_keepalive := ka\<rparr>)) (\<lambda>_. if \<not> new then returnS nonce
       else bindS (catchS (send_message E obj (Ping nonce))
            (\<lambda>e. bindS (modifyS (\<lambda>s. s\<lparr>nd_keepalive := forget_peer j (nd_keepalive s)\<rparr>)) (\<lambda>_. raiseS e))) (\<lambda>_. returnS nonce))) s))"
    if s: "?P s" for fresh s
  proof -
    obtain nonce new a where b: "begin_ping (ne_clock E) fresh (key_of s obj) obj (nd_keepalive s) = ((nonce, new), a)" by (metis surj_pair)
    have "key_of s obj = k" using s by (simp add: pinging_def noted_keys_def)
    then have "?P (s\<lparr>nd_keepalive := a\<rparr>)" using begin_ping_ok [OF s] b pinging_pings [OF s] by metis
    from keeps_at [OF sending this] show ?thesis by (subst bindS_read, simp only: b prod.case, subst bindS_modify)
  qed
  show ?thesis unfolding ping_peer_def
    by (rule keeps_bind [OF q [OF quietly_draw(2)]]) (use rest in \<open>simp only: keeps_def; blast\<close>)
qed

lemma ping_all:
  assumes "whole I ip objs s" and "noted_keys due (fst ` set due) s" and "distinct (map fst due)"
  shows "whole I ip objs (snd (forS (\<lambda>(_, obj). catchS (bindS (ping_peer E obj) (\<lambda>_. returnS ())) (\<lambda>_. disconnect_peer E True obj)) due s))"
  using assms
proof (induction due arbitrary: s)
  case (Cons x due)
  obtain k obj where x: "x = (k, obj)" by fastforce
  let ?m = "catchS (bindS (ping_peer E obj) (\<lambda>_. returnS ())) (\<lambda>_. disconnect_peer E True obj)"
  obtain r t where p: "bindS (ping_peer E obj) (\<lambda>_. returnS ()) s = (r, t)" by fastforce
  have "pinging I ip objs due k obj s" using Cons.prems by (simp add: pinging_def x)
  then have t: "pinging I ip objs due k obj t" using keepsD [OF keeps_bind [OF ping_keeps keeps_return] _ p] by blast
  have kept: "whole I ip objs t \<and> noted_keys due (fst ` set due) t" using t by (auto simp: pinging_def noted_keys_def)
  have "whole I ip objs t \<and> noted_keys ((k, obj) # due) (fst ` set due) t" using t by (auto simp: pinging_def noted_keys_def)
  from disconnect_noted [OF this, of k obj E True] have dropped: "whole I ip objs (snd (disconnect_peer E True obj t))
      \<and> noted_keys due (fst ` set due) (snd (disconnect_peer E True obj t))"
    using Cons.prems(3) by (auto simp: x noted_keys_def)
  obtain r1 u where m: "?m s = (r1, u)" by fastforce
  then have u: "whole I ip objs u \<and> noted_keys due (fst ` set due) u" using kept dropped p
    by (auto simp: catchS_def split: sum.split_asm if_split_asm)
  show ?case
  proof (cases r1)
    case (Inr y)
    then show ?thesis using Cons.IH [of u] u Cons.prems(3) m by (simp add: x bindS_def [of ?m])
  qed (use u m in \<open>simp add: x bindS_def [of ?m]\<close>)
qed (simp add: returnS_def)

lemma drop_all:
  assumes "whole I ip objs s \<and> noted_keys xs ks s" and "set timed_out \<subseteq> set xs" and "fst ` set timed_out \<inter> ks = {}"
    and "forS (\<lambda>(_, obj). disconnect_peer E True obj) timed_out s = (r, t)"
  shows "whole I ip objs t \<and> noted_keys xs ks t"
proof -
  have "keeps (\<lambda>s. whole I ip objs s \<and> noted_keys xs ks s) (forS (\<lambda>(_, obj). disconnect_peer E True obj) timed_out)"
    using assms(2,3) disconnect_noted by (intro keeps_for) (fastforce simp: keeps_def)
  then show ?thesis using keepsD assms(1,4) by metis
qed

context node_parts
begin

lemma maintain_keepalive_keeps [keeps_intros]: "keeps (W objs) (maintain_keepalive E)"
  unfolding keeps_def
proof (intro allI impI)
  fix s assume w: "W objs s"
  let ?ready = "map (\<lambda>obj. (key_of s obj, obj)) (filter (\<lambda>obj. pr_state (nd_peers s obj) = READY) (ready_peers s))"
  let ?ping = "forS (\<lambda>(_, obj). catchS (bindS (ping_peer E obj) (\<lambda>_. returnS ())) (\<lambda>_. disconnect_peer E True obj))"
  obtain timed_out due a where p: "keepalive_pass (ne_clock E) ?ready (nd_keepalive s) = (timed_out, due, a)"
    by (rule prod_cases3)
  have "linked ip s" using w by (simp add: whole_def)
  note n = pass_noted [OF this p]
  let ?s1 = "s\<lparr>nd_keepalive := a\<rparr>"
  have s1: "W objs ?s1 \<and> noted_keys (timed_out @ due) (fst ` set due) ?s1" using whole_pings [OF w n(1)] n(2) by simp
  obtain r t where d: "forS (\<lambda>(_, obj). disconnect_peer E True obj) timed_out ?s1 = (r, t)" by fastforce
  have t: "W objs t \<and> noted_keys (timed_out @ due) (fst ` set due) t" by (rule drop_all [OF s1 _ n(4) d]) simp
  then have "noted_keys due (fst ` set due) t" using noted_sub [of "timed_out @ due" "fst ` set due" t due] by simp
  from ping_all [OF _ this n(3), of I ip objs E] t have "W objs (snd (?ping due t))" by blast
  then have "W objs (snd (bindS (forS (\<lambda>(_, obj). disconnect_peer E True obj) timed_out) (\<lambda>_. ?ping due) ?s1))"
    using t by (cases r) (simp_all add: bindS_def d)
  then show "W objs (snd (maintain_keepalive E s))"
    unfolding maintain_keepalive_def by (subst bindS_read, simp only: p prod.case, subst bindS_modify)
qed

lemma dial_failed_keeps [keeps_intros]: "keeps (W objs) (dial_failed E k n)"
proof -
  have "quietly (dial_failed E k n)" unfolding dial_failed_def
  proof (intro quiet_intros)
    show "quietly (updateS (\<lambda>s. bindR (schedule_retry (node_ip E) (nd_book s) r k (ne_clock E) (nd_manager s)) (\<lambda>pm.
        Inr (s\<lparr>nd_manager := pm, nd_uses := nd_uses s + 1\<rparr>))))" for r
      unfolding quietly_def by (intro allI keeps_update) auto
  qed
  then show ?thesis by (rule quiet_keeps)
qed

lemma manager_keeps [keeps_intros]: "keeps (W objs) (modifyS (\<lambda>s. s\<lparr>nd_manager := f s\<rparr>))"
  by (rule quiet_keeps, rule quietly_modify) simp

lemma fill_slots_keeps [keeps_intros]: "good E \<Longrightarrow> keeps (W objs) (fill_slots E n ks)"
proof (induction E n ks rule: fill_slots.induct)
  case (3 E n k ks)
  show ?case unfolding fill_slots.simps by (intro keeps_intros "3.IH" "3.prems")
qed (simp_all add: keeps_intros)

lemma maintain_outbound_keeps [keeps_intros]: "good E \<Longrightarrow> keeps (W objs) (maintain_outbound E)"
  unfolding maintain_outbound_def by (intro keeps_intros)

lemma mining_keeps [keeps_intros]: "good E \<Longrightarrow> keeps (W objs) (node_start_mining E stopped)"
  unfolding node_start_mining_def on_block_mined_def by (intro keeps_intros)

end

end
