(* ===== verification/Peer_Facts.thy ===== *)
theory Peer_Facts
  imports Peers
begin

text \<open>
  What misbehaviour, inventory requests and keepalive promise over whole runs: a host's standing depends on its own
  violations only, an object is requested from one peer at a time.
\<close>

section \<open>Standing of a host\<close>

datatype discipline_call =
    Record rat rat string misbehaviour | Ask_Score rat string | Ask_Banned rat string | Ask_Ban rat string | Ask_Bans rat

fun discipline_step :: "ip_parser \<Rightarrow> discipline_call \<Rightarrow> discipline \<Rightarrow> discipline" where
  "discipline_step ip (Record now now1 host v) d = snd (record_violation ip now now1 host v d)"
| "discipline_step ip (Ask_Score now host) d = snd (host_score ip now host d)"
| "discipline_step ip (Ask_Banned now host) d = snd (is_banned ip now host d)"
| "discipline_step ip (Ask_Ban now host) d = snd (get_ban ip now host d)"
| "discipline_step ip (Ask_Bans now) d = snd (active_bans now d)"

text \<open>The clock does not go back.\<close>

fun clocked :: "rat \<Rightarrow> discipline_call list \<Rightarrow> rat \<Rightarrow> bool" where
  "clocked t [] now \<longleftrightarrow> t \<le> now"
| "clocked t (Record now now1 host v # cs) end \<longleftrightarrow> t \<le> now \<and> now \<le> now1 \<and> clocked now1 cs end"
| "clocked t (Ask_Score now host # cs) end \<longleftrightarrow> t \<le> now \<and> clocked now cs end"
| "clocked t (Ask_Banned now host # cs) end \<longleftrightarrow> t \<le> now \<and> clocked now cs end"
| "clocked t (Ask_Ban now host # cs) end \<longleftrightarrow> t \<le> now \<and> clocked now cs end"
| "clocked t (Ask_Bans now # cs) end \<longleftrightarrow> t \<le> now \<and> clocked now cs end"

text \<open>
  The specification: a score, and the end of the ban if there is one. A ban that has ended takes the score with it;
  a violation adds its points and, from the threshold on, starts a new ban.
\<close>

type_synonym standing = "int \<times> rat option"

definition lapse :: "rat \<Rightarrow> standing \<Rightarrow> standing" where
  "lapse now s = (case snd s of None \<Rightarrow> s | Some ending \<Rightarrow> if ending \<le> now then (0, None) else s)"

definition offence :: "int \<Rightarrow> rat \<Rightarrow> rat \<Rightarrow> rat \<Rightarrow> misbehaviour \<Rightarrow> standing \<Rightarrow> standing" where
  "offence threshold duration now now1 v s =
     (let (points, ban) = lapse now s; points1 = points + violation_score v in
      (points1, if points1 \<ge> threshold then Some (round_double (now1 + duration)) else ban))"

fun own_standing :: "ip_parser \<Rightarrow> int \<Rightarrow> rat \<Rightarrow> string \<Rightarrow> discipline_call list \<Rightarrow> standing \<Rightarrow> standing" where
  "own_standing ip threshold duration h [] s = s"
| "own_standing ip threshold duration h (Record now now1 host v # cs) s =
     own_standing ip threshold duration h cs
       (if normalize_host ip host = h then offence threshold duration now now1 v s else s)"
| "own_standing ip threshold duration h (_ # cs) s = own_standing ip threshold duration h cs s"

definition standing_in :: "discipline \<Rightarrow> string \<Rightarrow> standing" where
  "standing_in d h = (score_in d h, map_option pb_until (map_of (pd_bans d) h))"

lemma lapse_lapse: "t \<le> t' \<Longrightarrow> lapse t' (lapse t s) = lapse t' s"
  by (auto simp: lapse_def split: option.split)

lemma expire_standing: "standing_in (expire_ban now h d) h' = (if h' = h then lapse now (standing_in d h) else standing_in d h')"
  by (auto simp: standing_in_def expire_ban_def lapse_def score_in_def delete_conv' split: option.split)

lemma expire_settings [simp]:
  "pd_threshold (expire_ban now h d) = pd_threshold d" "pd_duration (expire_ban now h d) = pd_duration d"
  by (simp_all add: expire_ban_def split: option.split)

lemma expire_lapsed: "t \<le> now \<Longrightarrow> lapse now (standing_in (expire_ban t h d) h') = lapse now (standing_in d h')"
  by (simp add: expire_standing lapse_lapse)

lemma expire_all_lapsed: "t \<le> now \<Longrightarrow> lapse now (standing_in (fold (expire_ban t) hs d) h') = lapse now (standing_in d h')"
  by (induction hs arbitrary: d) (simp_all add: expire_lapsed)

lemma expire_all_settings:
  "pd_threshold (fold (expire_ban now) hs d) = pd_threshold d \<and> pd_duration (fold (expire_ban now) hs d) = pd_duration d"
  by (induction hs arbitrary: d) simp_all

lemma record_standing:
  "standing_in (snd (record_violation ip now now1 host v d)) h =
     (if h = normalize_host ip host then offence (pd_threshold d) (pd_duration d) now now1 v (standing_in d h)
      else standing_in d h)"
proof -
  let ?n = "normalize_host ip host" and ?d = "expire_ban now (normalize_host ip host) d"
  have e: "standing_in ?d ?n = lapse now (standing_in d ?n)" "h \<noteq> ?n \<Longrightarrow> standing_in ?d h = standing_in d h"
    by (simp_all add: expire_standing)
  have u: "standing_in (snd (record_violation ip now now1 host v d)) ?n =
      (score_in ?d ?n + violation_score v,
       if score_in ?d ?n + violation_score v \<ge> pd_threshold d then Some (round_double (now1 + pd_duration d))
       else snd (standing_in ?d ?n))"
    and o: "h \<noteq> ?n \<Longrightarrow> standing_in (snd (record_violation ip now now1 host v d)) h = standing_in ?d h"
    by (simp_all add: record_violation_def Let_def standing_in_def score_in_def update_conv')
  have "score_in ?d ?n = fst (lapse now (standing_in d ?n))" using e(1) by (metis fst_conv standing_in_def)
  then have off: "offence (pd_threshold d) (pd_duration d) now now1 v (standing_in d ?n) =
      (score_in ?d ?n + violation_score v,
       if score_in ?d ?n + violation_score v \<ge> pd_threshold d then Some (round_double (now1 + pd_duration d))
       else snd (standing_in ?d ?n))"
    unfolding e(1) offence_def by (simp add: Let_def case_prod_beta)
  show ?thesis
  proof (cases "h = ?n")
    case True
    then show ?thesis by (simp only: u off if_True refl)
  next
    case False
    then show ?thesis using o e(2) by simp
  qed
qed

lemma record_settings:
  "pd_threshold (snd (record_violation ip now now1 host v d)) = pd_threshold d
   \<and> pd_duration (snd (record_violation ip now now1 host v d)) = pd_duration d"
  by (simp add: record_violation_def Let_def)

lemmas query_defs = host_score_def is_banned_def get_ban_def active_bans_def Let_def

lemma offence_lapsed: "t \<le> now \<Longrightarrow> lapse t s = lapse t s' \<Longrightarrow> offence th du now now1 v s = offence th du now now1 v s'"
  using lapse_lapse [of t now s] lapse_lapse [of t now s'] by (simp add: offence_def)

lemma standing_run:
  assumes "clocked t cs now" and "lapse t (standing_in d h) = lapse t s"
  shows "lapse now (standing_in (fold (discipline_step ip) cs d) h)
    = lapse now (own_standing ip (pd_threshold d) (pd_duration d) h cs s)"
  using assms
proof (induction cs arbitrary: t d s)
  case Nil
  then show ?case by (metis clocked.simps(1) fold_simps(1) lapse_lapse own_standing.simps(1))
next
  case (Cons c cs)
  have later: "lapse u (standing_in d h) = lapse u s" if "t \<le> u" for u using Cons.prems(2) that by (metis lapse_lapse)
  have query: "lapse now (standing_in (fold (discipline_step ip) cs (expire_ban n k d)) h)
      = lapse now (own_standing ip (pd_threshold d) (pd_duration d) h cs s)" if "t \<le> n" "clocked n cs now" for n k
    using Cons.IH [OF that(2), of "expire_ban n k d" s] later [OF that(1)] by (simp add: expire_lapsed)
  show ?case
  proof (cases c)
    case (Record n n1 host v)
    let ?d = "snd (record_violation ip n n1 host v d)"
    let ?s = "if normalize_host ip host = h then offence (pd_threshold d) (pd_duration d) n n1 v s else s"
    have t: "t \<le> n" "n \<le> n1" "clocked n1 cs now" using Cons.prems(1) Record by simp_all
    have "lapse n1 (standing_in ?d h) = lapse n1 ?s"
      using offence_lapsed [OF t(1) Cons.prems(2), of "pd_threshold d" "pd_duration d" n1 v] later [of n1] t
      by (simp add: record_standing)
    from Cons.IH [OF t(3) this] show ?thesis using record_settings by (simp add: Record)
  next
    case (Ask_Bans n)
    then show ?thesis using Cons.prems Cons.IH [of n "snd (active_bans n d)" s] later [of n]
      by (simp add: query_defs expire_all_lapsed expire_all_settings)
  qed (use Cons.prems(1) query in \<open>simp_all add: query_defs\<close>)
qed

text \<open>
  C21: the standing of a host, its score and whether it is banned, depends on its own violations only: whatever is
  recorded of other hosts and however often scores and bans are asked for in between, each of which drops bans that
  have ended, the answer is the one of the violations of this host played to a plain score with a ban.
\<close>

theorem standing_is_per_host:
  assumes "discipline_new threshold duration = Inr d" and "clocked start calls now"
  shows "(fst (host_score ip now host (fold (discipline_step ip) calls d)),
          fst (is_banned ip now host (fold (discipline_step ip) calls d))) =
    (let (points, ban) = lapse now (own_standing ip threshold duration (normalize_host ip host) calls (0, None))
     in (points, ban \<noteq> None))"
proof -
  let ?d = "fold (discipline_step ip) calls d" and ?h = "normalize_host ip host"
  have d: "pd_threshold d = threshold" "pd_duration d = duration" "standing_in d ?h = (0, None)"
    using assms(1) by (auto simp: discipline_new_def standing_in_def score_in_def split: if_split_asm)
  have "lapse now (standing_in ?d ?h) = lapse now (own_standing ip threshold duration ?h calls (0, None))"
    using standing_run [OF assms(2), of d ?h "(0, None)" ip] d by simp
  moreover have "standing_in (expire_ban now ?h ?d) ?h = lapse now (standing_in ?d ?h)" by (simp add: expire_standing)
  ultimately show ?thesis by (auto simp: host_score_def is_banned_def standing_in_def Let_def split: prod.split)
qed

lemma standing_is_per_host_witness:
  "(let calls = [Record 0 0 ''a'' INVALID_DATA, Record 1 1 ''b'' MALFORMED_MESSAGE, Ask_Bans 2, Record 3 3 ''A.'' INVALID_DATA];
        d = fold (discipline_step (\<lambda>_. None)) calls \<lparr>pd_threshold = 100, pd_duration = 10, pd_scores = [], pd_bans = []\<rparr> in
    (fst (host_score (\<lambda>_. None) 4 ''a'' d), fst (is_banned (\<lambda>_. None) 4 ''a'' d))) = (100, True)"
proof -
  have r: "round_double 13 = 13" using round_double_int [of 13] by simp
  have n: "normalize_host (\<lambda>_. None) ''a'' = ''a''" "normalize_host (\<lambda>_. None) ''b'' = ''b''"
    "normalize_host (\<lambda>_. None) ''A.'' = ''a''" by code_simp+
  show ?thesis unfolding Let_def
    by (subst standing_is_per_host [where threshold = 100 and duration = 10 and start = 0])
      (simp_all add: discipline_new_def n offence_def lapse_def r)
qed

section \<open>One request at a time\<close>

datatype inflight_call =
    Claim rat inv_vector peer_key | Release inv_vector | Release_Key inv_key | Release_Peer peer_key
  | Expire rat | Ask rat inv_vector | Count rat

fun inflight_step :: "inflight_call \<Rightarrow> inflight \<Rightarrow> inflight" where
  "inflight_step (Claim now v pk) s = snd (claim now v pk s)"
| "inflight_step (Release v) s = snd (release v s)"
| "inflight_step (Release_Key k) s = snd (release_key k s)"
| "inflight_step (Release_Peer pk) s = snd (release_peer pk s)"
| "inflight_step (Expire now) s = snd (expire_requests now s)"
| "inflight_step (Ask now v) s = snd (requested now v s)"
| "inflight_step (Count now) s = snd (request_count now s)"

text \<open>Calls that do not end a request of object \<open>k\<close> made of peer \<open>pk\<close> at \<open>t\<close>: nothing releases it and no clock reads its timeout.\<close>

definition in_time :: "rat \<Rightarrow> rat \<Rightarrow> rat \<Rightarrow> bool" where
  "in_time timeout t now \<longleftrightarrow> round_double (now - t) < timeout"

fun leaves_open :: "rat \<Rightarrow> inv_key \<Rightarrow> peer_key \<Rightarrow> rat \<Rightarrow> inflight_call \<Rightarrow> bool" where
  "leaves_open timeout k pk t (Claim now v p) \<longleftrightarrow> in_time timeout t now"
| "leaves_open timeout k pk t (Release v) \<longleftrightarrow> inventory_key v \<noteq> Some k"
| "leaves_open timeout k pk t (Release_Key k') \<longleftrightarrow> k' \<noteq> k"
| "leaves_open timeout k pk t (Release_Peer p) \<longleftrightarrow> p \<noteq> pk"
| "leaves_open timeout k pk t (Expire now) \<longleftrightarrow> in_time timeout t now"
| "leaves_open timeout k pk t (Ask now v) \<longleftrightarrow> in_time timeout t now"
| "leaves_open timeout k pk t (Count now) \<longleftrightarrow> in_time timeout t now"

definition requests_ok :: "inflight \<Rightarrow> bool" where
  "requests_ok s \<longleftrightarrow> distinct (map fst (if_requests s))"

definition open_request :: "rat \<Rightarrow> inv_key \<Rightarrow> peer_key \<Rightarrow> rat \<Rightarrow> inflight \<Rightarrow> bool" where
  "open_request timeout k pk t s \<longleftrightarrow> if_timeout s = timeout \<and> requests_ok s
     \<and> (\<exists>q. map_of (if_requests s) k = Some q \<and> ir_peer q = pk \<and> ir_at q = t)"

lemma map_of_filter_kept: "map_of xs k = Some q \<Longrightarrow> P (k, q) \<Longrightarrow> distinct (map fst xs) \<Longrightarrow> map_of (filter P xs) k = Some q"
  by (simp add: map_of_eq_Some_iff distinct_map_filter)

lemma expire_open: "open_request timeout k pk t s \<Longrightarrow> in_time timeout t now \<Longrightarrow> open_request timeout k pk t (snd (expire_requests now s))"
  by (auto simp: open_request_def requests_ok_def expire_requests_def request_live_def in_time_def distinct_map_filter
      intro!: map_of_filter_kept)

lemma claim_open:
  assumes "open_request timeout k pk t s" and "in_time timeout t now"
  shows "open_request timeout k pk t (snd (claim now v p s))"
proof (cases "inventory_key v")
  case (Some j)
  note s1 = expire_open [OF assms]
  show ?thesis
  proof (cases "map_of (if_requests (snd (expire_requests now s))) j")
    case None
    then have "j \<noteq> k" using s1 by (auto simp: open_request_def)
    then show ?thesis using s1 Some None
      by (auto simp: claim_def Let_def open_request_def requests_ok_def update_conv' distinct_update)
  next
    case (Some q)
    then show ?thesis using s1 \<open>inventory_key v = Some j\<close> by (simp add: claim_def Let_def)
  qed
qed (use assms in \<open>simp add: claim_def\<close>)

lemma release_key_open: "open_request timeout k pk t s \<Longrightarrow> j \<noteq> k \<Longrightarrow> open_request timeout k pk t (snd (release_key j s))"
  by (auto simp: open_request_def requests_ok_def release_key_def delete_conv' distinct_delete)

lemma release_peer_open: "open_request timeout k pk t s \<Longrightarrow> p \<noteq> pk \<Longrightarrow> open_request timeout k pk t (snd (release_peer p s))"
  by (auto simp: open_request_def requests_ok_def release_peer_def distinct_map_filter intro!: map_of_filter_kept)

lemma step_open: "open_request timeout k pk t s \<Longrightarrow> leaves_open timeout k pk t c \<Longrightarrow> open_request timeout k pk t (inflight_step c s)"
  by (cases c) (auto simp: claim_open release_key_open release_peer_open expire_open release_def requested_def request_count_def
      Let_def split: option.split)

lemma run_open:
  "open_request timeout k pk t s \<Longrightarrow> list_all (leaves_open timeout k pk t) cs \<Longrightarrow>
     open_request timeout k pk t (fold inflight_step cs s)"
  by (induction cs arbitrary: s) (auto simp: step_open)

text \<open>
  C22: an object is asked for from one peer at a time. After a claim that was granted, every claim of the same object is
  refused, under whichever type of inventory and by whichever peer, until the object is released, the peer is
  released, or the timeout has passed; and a claim is granted again as soon as the timeout has.
\<close>

theorem one_request_at_a_time:
  assumes "requests_ok s" and "claim t v pk s = (True, s1)" and "inventory_key v = Some k" and "inventory_key v' = Some k"
    and "list_all (leaves_open (if_timeout s) k pk t) calls"
  shows "fst (claim now v' pk' (fold inflight_step calls s1)) = (\<not> in_time (if_timeout s) t now)"
proof -
  have s1: "open_request (if_timeout s) k pk t s1" using assms(1-3)
    by (auto simp: claim_def Let_def open_request_def requests_ok_def expire_requests_def distinct_map_filter distinct_update
        update_conv' split: if_split_asm)
  let ?s = "fold inflight_step calls s1"
  have open_s: "open_request (if_timeout s) k pk t ?s" by (rule run_open [OF s1 assms(5)])
  show ?thesis
  proof (cases "in_time (if_timeout s) t now")
    case True
    then show ?thesis using expire_open [OF open_s True] assms(4) by (auto simp: claim_def open_request_def Let_def)
  next
    case False
    obtain q where q: "map_of (if_requests ?s) k = Some q" "ir_at q = t" "if_timeout ?s = if_timeout s" "requests_ok ?s"
      using open_s by (auto simp: open_request_def)
    have "q' = q" if "(k, q') \<in> set (if_requests ?s)" for q'
      using q(1,4) that by (metis map_of_is_SomeI option.inject requests_ok_def)
    then have "map_of (if_requests (snd (expire_requests now ?s))) k = None"
      using False q(2,3) by (force simp: map_of_eq_None_iff expire_requests_def request_live_def in_time_def)
    then show ?thesis using assms(4) False by (simp add: claim_def Let_def)
  qed
qed

lemma one_request_at_a_time_witness:
  "fst (claim 7 \<lparr>iv_type = MSG_WITNESS_TX, iv_hash = [1]\<rparr> (''b'', 1)
     (fold inflight_step [Release_Peer (''c'', 2), Release \<lparr>iv_type = MSG_BLOCK, iv_hash = [1]\<rparr>]
       (snd (claim 0 \<lparr>iv_type = MSG_TX, iv_hash = [1]\<rparr> (''a'', 1) \<lparr>if_timeout = 60, if_requests = []\<rparr>)))) = False"
proof -
  have k: "inventory_key \<lparr>iv_type = MSG_WITNESS_TX, iv_hash = [1]\<rparr> = Some (''tx'', [1])"
    "inventory_key \<lparr>iv_type = MSG_TX, iv_hash = [1]\<rparr> = Some (''tx'', [1])"
    "inventory_key \<lparr>iv_type = MSG_BLOCK, iv_hash = [1]\<rparr> = Some (''block'', [1])" by code_simp+
  have r: "round_double 7 = 7" using round_double_int [of 7] by simp
  show ?thesis
    by (subst one_request_at_a_time [where s = "\<lparr>if_timeout = 60, if_requests = []\<rparr>" and t = 0 and k = "(''tx'', [1])" and
          v = "\<lparr>iv_type = MSG_TX, iv_hash = [1]\<rparr>" and pk = "(''a'', 1)"])
      (simp_all add: k requests_ok_def claim_def Let_def expire_requests_def in_time_def r)
qed

end
