(* ===== verification/Mining_Facts.thy ===== *)
theory Mining_Facts
  imports Mining
begin

text \<open>
  What a mined block is worth: the search stops at the first nonce whose hash is below the target when it is read from its
  first byte on, while the chain reads it from its last byte on; and a candidate that holds a SegWit transaction can
  never be connected. Such blocks are dropped by the node without a trace.
\<close>

section \<open>The coinbase\<close>

lemma script_is_script_num:
  assumes "0 < h" and "h < 2 ^ 31"
  obtains bs where "bitnum_encode h = Inr bs" and "create_coinbase_script h = Inr (word_of_nat (length bs) # bs @ ascii_bytes ''BitClone'')"
proof -
  obtain bs where bs: "bitnum_encode h = Inr bs" using bitnum_encode_Inr_iff [of h] assms by auto
  let ?n = "byte_length (nat h)"
  have n: "?n = max 1 ((bit_length (nat \<bar>h\<bar>) + 7) div 8)" using assms by (simp add: byte_length_def bit_length.simps [of "nat h"])
  have "bs = (if last (le_bytes ?n h) AND 0x80 \<noteq> 0 then le_bytes ?n h @ [0] else le_bytes ?n h)"
    using bs assms by (auto simp: bitnum_encode_def Let_def split: if_split_asm)
  moreover have "to_bytes_le ?n h = Inr (le_bytes ?n h)"
  proof -
    have "int (nat h) < int (256 ^ ?n)" using byte_length_upper [of "nat h"] by (subst of_nat_less_iff)
    then show ?thesis using assms by (simp add: to_bytes_le_def)
  qed
  moreover have "length bs \<le> 4" using bitnum_encode_decodes [OF bs] by blast
  ultimately have "create_coinbase_script h = Inr (word_of_nat (length bs) # bs @ ascii_bytes ''BitClone'')"
    unfolding create_coinbase_script_def n [symmetric] by (auto simp: Let_def)
  with bs that show ?thesis by blast
qed

text \<open>
  C29: the script of a template's coinbase commits to its height: for every height from 1 to 2^31 - 1 it is built, it has
  an admissible size, and the check of the chain reads exactly that height from it.
\<close>

theorem coinbase_commits_height:
  assumes "0 < h" and "h < 2 ^ 31"
  shows "\<exists>script. create_coinbase_script h = Inr script \<and> MIN_COINBASE_SCRIPT_SIZE \<le> length script
    \<and> length script \<le> MAX_COINBASE_SCRIPT_SIZE \<and> (\<forall>k. validate_bip34_height script k \<longleftrightarrow> k = h)"
proof -
  obtain bs where bs: "bitnum_encode h = Inr bs" "create_coinbase_script h = Inr (word_of_nat (length bs) # bs @ ascii_bytes ''BitClone'')"
    using script_is_script_num [OF assms] by blast
  note d = bitnum_encode_decodes [OF bs(1)] and m = bitnum_encode_minimal [OF bs(1)]
  have ne: "bs \<noteq> []" using minimal_positive_bounds [OF m _ assms(1)] d by blast
  have len: "unat (word_of_nat (length bs) :: byte) = length bs" using d by (simp add: unat_of_nat)
  have "validate_bip34_height (word_of_nat (length bs) # bs @ ascii_bytes ''BitClone'') k \<longleftrightarrow> k = h" for k
    using d m ne by (auto simp: validate_bip34_height_def Let_def len minimally_encoded_iff decode_script_num_value)
  then show ?thesis using d bs(2) by (auto simp: MIN_COINBASE_SCRIPT_SIZE_def MAX_COINBASE_SCRIPT_SIZE_def ascii_bytes_def)
qed

lemma coinbase_commits_height_witness:
  "\<exists>script. create_coinbase_script 500000 = Inr script \<and> MIN_COINBASE_SCRIPT_SIZE \<le> length script
    \<and> length script \<le> MAX_COINBASE_SCRIPT_SIZE \<and> (\<forall>k. validate_bip34_height script k \<longleftrightarrow> k = 500000)"
  by (rule coinbase_commits_height) simp_all

section \<open>The search\<close>

lemma start_mining_found:
  assumes "start_mining H stopped b = Inr (Some b')"
  obtains t k bid where "bits_to_target (b_bits b) = Inr t" and "b' = b\<lparr>b_nonce := b_nonce b + int k\<rparr>"
    and "block_id H b' = Inr bid" and "be_val bid < be_val t"
    and "\<forall>i < k. \<exists>x. block_id H (b\<lparr>b_nonce := b_nonce b + int i\<rparr>) = Inr x \<and> be_val t \<le> be_val x"
proof -
  have hd: "get_header (b\<lparr>b_nonce := n\<rparr>) = (get_header b)\<lparr>bh_nonce := n\<rparr>" "bh_nonce (get_header b) = b_nonce b"
    "bh_bits (get_header b) = b_bits b" for n by (simp_all add: get_header_def)
  obtain t h where t: "bits_to_target (b_bits b) = Inr t" "mine_loop H stopped 0 (be_val t) (get_header b) = Inr (Some h)"
    "b' = b\<lparr>b_nonce := bh_nonce h\<rparr>"
    using assms by (auto simp: start_mining_def header_target_def hd split: option.split_asm)
  from mine_loop_found [OF t(2)] obtain k bid where k: "h = (get_header b)\<lparr>bh_nonce := bh_nonce (get_header b) + int k\<rparr>"
    "header_id H h = Inr bid" "be_val bid < be_val t"
    "\<forall>i < k. \<exists>x. header_id H ((get_header b)\<lparr>bh_nonce := bh_nonce (get_header b) + int i\<rparr>) = Inr x \<and> be_val t \<le> be_val x"
    by blast
  have "b' = b\<lparr>b_nonce := b_nonce b + int k\<rparr>" "block_id H b' = Inr bid"
    using k(1,2) t(3) by (simp_all add: block_id_def hd)
  moreover have "\<forall>i < k. \<exists>x. block_id H (b\<lparr>b_nonce := b_nonce b + int i\<rparr>) = Inr x \<and> be_val t \<le> be_val x"
    using k(4) by (simp add: block_id_def hd)
  ultimately show ?thesis using that t(1) k(3) by blast
qed

text \<open>
  C28: mining stops at the first nonce whose hash, read from its first byte on, is below the target, and changes nothing
  else of the block; the proof of work of the chain reads the same hash from its last byte on, so whether the block it
  found counts is another question: it does exactly when that number is not above the target either.
\<close>

theorem mined_hash_read_backwards:
  assumes "start_mining H stopped b = Inr (Some b')"
  shows "\<exists>t k bid. bits_to_target (b_bits b) = Inr t \<and> b' = b\<lparr>b_nonce := b_nonce b + int k\<rparr> \<and> block_id H b' = Inr bid
    \<and> be_val bid < be_val t
    \<and> (\<forall>i < k. \<exists>x. block_id H (b\<lparr>b_nonce := b_nonce b + int i\<rparr>) = Inr x \<and> be_val t \<le> be_val x)
    \<and> validate_pow H b' = Inr (le_val bid \<le> be_val t)"
proof -
  from start_mining_found [OF assms] obtain t k bid where f: "bits_to_target (b_bits b) = Inr t"
    "b' = b\<lparr>b_nonce := b_nonce b + int k\<rparr>" "block_id H b' = Inr bid" "be_val bid < be_val t"
    "\<forall>i < k. \<exists>x. block_id H (b\<lparr>b_nonce := b_nonce b + int i\<rparr>) = Inr x \<and> be_val t \<le> be_val x" by metis
  have "b_bits b' = b_bits b" using f(2) by simp
  then have "validate_pow H b' = Inr (le_val bid \<le> be_val t)" using f(1,3) by (simp add: validate_pow_def)
  with f show ?thesis by blast
qed

text \<open>A family of digests under which the first nonce is found and does not count.\<close>

definition last_byte_hashes :: hashes where
  "last_byte_hashes = \<lparr>h_sha1 = pad_to 20, h_sha256 = (\<lambda>_. replicate 31 0 @ [0xff]), h_ripemd160 = pad_to 20\<rparr>"

lemma last_byte_target: "bits_to_target GENESIS_BLOCK_BITS = Inr t \<Longrightarrow> be_val (replicate 31 0 @ [0xff]) < be_val t \<and> \<not> le_val (replicate 31 0 @ [0xff]) \<le> be_val t"
  by (auto simp: genesis_bits_target empty_view_def be_val_def le_val_zeros le_val_zero)

lemma last_byte_id: "header_to_bytes (get_header b) = Inr x \<Longrightarrow> block_id last_byte_hashes b = Inr (replicate 31 0 @ [0xff])"
  by (simp add: block_id_def header_id_def hash256_def last_byte_hashes_def)

lemma first_header_bytes: "\<exists>x. header_to_bytes (get_header first_block) = Inr x"
  using first_block_id by (auto simp: block_id_def header_id_def)

lemma mined_hash_read_backwards_witness:
  "start_mining last_byte_hashes (\<lambda>_. False) first_block = Inr (Some first_block)
   \<and> validate_pow last_byte_hashes first_block = Inr False"
proof -
  obtain x where x: "header_to_bytes (get_header first_block) = Inr x" using first_header_bytes by blast
  note bid = last_byte_id [OF x] and t = genesis_bits_target
  have "mine_loop last_byte_hashes (\<lambda>_. False) 0 (be_val (bc_target empty_view)) (get_header first_block) = Inr (Some (get_header first_block))"
    using bid last_byte_target [OF t] by (simp add: mine_loop.simps block_id_def)
  then have m: "start_mining last_byte_hashes (\<lambda>_. False) first_block = Inr (Some first_block)"
    using t by (simp add: start_mining_def header_target_def get_header_def)
  from mined_hash_read_backwards [OF m] show ?thesis using m bid t last_byte_target [OF t] by auto
qed

section \<open>Blocks the chain refuses\<close>

lemma connect_tip_refused:
  assumes "validate_block E (chain_view.truncate s) b \<noteq> Inr True"
  shows "connect_tip_block E b s = (Inr False, s) \<or> (\<exists>e. connect_tip_block E b s = (Inl e, s))"
proof (cases "block_id (ce_hashes E) b")
  case (Inr bid)
  show ?thesis
  proof (cases "validate_block E (chain_view.truncate s) b")
    case (Inr ok)
    then show ?thesis using assms \<open>block_id (ce_hashes E) b = Inr bid\<close> by (cases ok) (simp_all add: connect_tip_block_def run_simps)
  qed (simp add: connect_tip_block_def run_simps Inr)
qed (simp add: connect_tip_block_def run_simps)

definition follows_tip :: "chain_env \<Rightarrow> blockchain \<Rightarrow> block \<Rightarrow> bool" where
  "follows_tip E s b \<longleftrightarrow> (case bc_tip s of None \<Rightarrow> True | Some tip \<Rightarrow> block_id (ce_hashes E) tip = Inr (b_prev b))"

lemma add_block_body_refused:
  assumes "validate_block E (chain_view.truncate s) b \<noteq> Inr True" and "follows_tip E s b"
  shows "add_block_body E b s = (Inr (False, False), s) \<or> (\<exists>e. add_block_body E b s = (Inl e, s))"
proof (cases "block_id (ce_hashes E) b")
  case (Inr bid)
  have next_block: "(case bc_tip s of None \<Rightarrow> Inr True | Some tip \<Rightarrow> bindR (block_id (ce_hashes E) tip) (\<lambda>h. Inr (b_prev b = h))) = Inr True"
    using assms(2) by (auto simp: follows_tip_def split: option.split)
  have "bindS (connect_tip_block E b) (\<lambda>accepted. returnS (accepted, accepted)) s = (Inr (False, False), s)
    \<or> (\<exists>e. bindS (connect_tip_block E b) (\<lambda>accepted. returnS (accepted, accepted)) s = (Inl e, s))"
    using connect_tip_refused [OF assms(1)] by (auto simp: bindS_def returnS_def)
  then show ?thesis by (simp add: add_block_body_def Let_def run_simps Inr next_block)
qed (simp add: add_block_body_def Let_def run_simps)

lemma refused_block_changes_nothing:
  assumes "validate_block E (chain_view.truncate s) b \<noteq> Inr True" and "follows_tip E s b"
  shows "\<exists>r. add_block_to_chain E b s = (r, s) \<and> r \<noteq> Inr True"
  using add_block_body_refused [OF assms] by (auto simp: add_block_to_chain_def catchS_def bindS_def returnS_def)

lemma submit_refused:
  assumes "validate_block (ne_chain E) (chain_view.truncate (nd_chain s)) b \<noteq> Inr True" and "follows_tip (ne_chain E) (nd_chain s) b"
  shows "\<exists>r. submit_block E b src s = (r, s) \<and> r \<noteq> Inr True"
proof -
  obtain r where "add_block_to_chain (ne_chain E) b (nd_chain s) = (r, nd_chain s)" "r \<noteq> Inr True"
    using refused_block_changes_nothing [OF assms] by blast
  then show ?thesis by (cases r) (auto simp: submit_block_def on_chain_def zoomS_def bindS_def returnS_def)
qed

lemma nonempty_id:
  assumes "digest_sizes H" and "block_id H b = Inr bid" shows "bid \<noteq> []"
proof -
  obtain x where "bid = h_sha256 H (h_sha256 H x)" using assms(2) by (auto simp: block_id_def header_id_def hash256_def)
  then have "length bid = 32" using assms(1) by (simp add: digest_sizes_def)
  then show ?thesis by auto
qed

lemma template_follows:
  assumes "build_block_template E s = Inr b" and "digest_sizes (node_hashes E)"
  shows "follows_tip (ne_chain E) (nd_chain s) b"
proof (cases "bc_tip (nd_chain s)")
  case (Some tip)
  obtain prev bits cb txs where t: "block_id (node_hashes E) tip = Inr prev"
    "block_new (node_hashes E) (ce_now (ne_chain E)) 2 prev (ce_now (ne_chain E)) bits 0 (cb # txs) = Inr b"
    using assms(1) Some by (auto simp: build_block_template_def Let_def)
  then have "b_prev b = prev" using nonempty_id [OF assms(2) t(1)] by (auto simp: block_new_def)
  then show ?thesis using Some t(1) by (simp add: follows_tip_def node_hashes_def)
qed (simp add: follows_tip_def)

text \<open>
  a block a node mines from its own template is thrown away by the node, with nothing changed and nothing announced,
  whenever the template holds a SegWit transaction, since the coinbase of a template carries no witness commitment, and
  whenever its hash read from the last byte on is above the target.
\<close>

theorem mined_block_discarded:
  assumes "build_block_template E s = Inr b" and "start_mining (node_hashes E) stopped b = Inr (Some b')"
    and "digest_sizes (node_hashes E)"
    and "(\<exists>t \<in> set (tl (b_txs b)). tx_is_segwit t) \<or> validate_pow (node_hashes E) b' \<noteq> Inr True"
  shows "\<exists>r. on_block_mined E (Some b') s = (r, s) \<and> r \<noteq> Inr True"
proof -
  obtain n where b': "b' = b\<lparr>b_nonce := n\<rparr>" using start_mining_found [OF assms(2)] by metis
  obtain cb txs where t: "b_txs b = cb # txs" "find_witness_commitment cb = None" using template_block [OF assms(1)] by blast
  have "follows_tip (ne_chain E) (nd_chain s) b'"
    using template_follows [OF assms(1,3)] by (auto simp: follows_tip_def b' split: option.split)
  moreover have "validate_block (ne_chain E) (chain_view.truncate (nd_chain s)) b' \<noteq> Inr True"
  proof
    assume v: "validate_block (ne_chain E) (chain_view.truncate (nd_chain s)) b' = Inr True"
    then have "validate_pow (node_hashes E) b' = Inr True" unfolding node_hashes_def by (rule validate_block_steps)
    then have "\<exists>t \<in> set txs. tx_is_segwit t" using assms(4) t(1) by auto
    then show False using no_commitment_rejected [of b' cb txs] t v by (simp add: b')
  qed
  ultimately show ?thesis using submit_refused by (simp add: on_block_mined_def)
qed

definition mining_env :: node_env where
  "mining_env = \<lparr>ne_chain = sample_env\<lparr>ce_hashes := last_byte_hashes\<rparr>, ne_half_pow = (\<lambda>_. 1), ne_parse = (\<lambda>_. None),
     ne_show = (\<lambda>_. []), ne_time = 0, ne_clock = 0, ne_magic = [], ne_writes = (\<lambda>_. True), ne_dial = (\<lambda>_. None),
     ne_local = (\<lambda>_. ([], 0)), ne_nonce = (\<lambda>_. 0), ne_random = (\<lambda>_. 0), ne_sample = (\<lambda>_ _. [])\<rparr>"

definition idle_node :: node where
  "idle_node = \<lparr>nd_chain = chain_view.extend empty_view \<lparr>bc_orphans = \<lparr>op_max_blocks = 2, op_max_bytes = 1000, op_entries = [],
       op_children = (\<lambda>_. []), op_total_bytes = 0\<rparr>\<rparr>, nd_pool = new_mempool 0,
     nd_book = \<lparr>ab_default_port = 8333, ab_entries = []\<rparr>,
     nd_discipline = \<lparr>pd_threshold = 100, pd_duration = 86400, pd_scores = [], pd_bans = []\<rparr>,
     nd_peers = (\<lambda>_. new_peer 0 [] 0), nd_next_peer = 0, nd_ready = [], nd_conns = [], nd_sent = [], nd_uses = 0,
     nd_inflight = \<lparr>if_timeout = 60, if_requests = []\<rparr>,
     nd_sync = \<lparr>sy_state = IDLE, sy_peer = None, sy_awaiting = False, sy_batches = 0, sy_headers = 0\<rparr>,
     nd_keepalive = \<lparr>kp_ping_interval = 120, kp_pong_timeout = 20, kp_states = []\<rparr>,
     nd_manager = \<lparr>pm_target_outbound = 8, pm_base_backoff = 1, pm_max_backoff = 300, pm_jitter_fraction = 1 / 5,
       pm_retry_at = []\<rparr>\<rparr>"

lemma mined_block_discarded_witness:
  "\<exists>b r. build_block_template mining_env idle_node = Inr b
     \<and> start_mining last_byte_hashes (\<lambda>_. False) b = Inr (Some b) \<and> on_block_mined mining_env (Some b) idle_node = (r, idle_node) \<and> r \<noteq> Inr True"
proof -
  let ?b = "projr (build_block_template mining_env idle_node)"
  have b: "build_block_template mining_env idle_node = Inr ?b" by code_simp
  have H: "node_hashes mining_env = last_byte_hashes" by (simp add: node_hashes_def mining_env_def)
  have bits: "b_bits ?b = GENESIS_BLOCK_BITS" by code_simp
  have "is_ok (header_to_bytes (get_header ?b))" by code_simp
  then obtain x where x: "header_to_bytes (get_header ?b) = Inr x" by (auto simp: is_ok_iff)
  note bid = last_byte_id [OF x] and t = genesis_bits_target
  have "mine_loop last_byte_hashes (\<lambda>_. False) 0 (be_val (bc_target empty_view)) (get_header ?b) = Inr (Some (get_header ?b))"
    using bid last_byte_target [OF t] by (simp add: mine_loop.simps block_id_def)
  moreover have "header_target (get_header ?b) = Inr (bc_target empty_view)" using t bits by (simp add: header_target_def get_header_def)
  ultimately have m: "start_mining last_byte_hashes (\<lambda>_. False) ?b = Inr (Some ?b)"
    by (simp add: start_mining_def) (simp add: get_header_def)
  have "validate_pow last_byte_hashes ?b = Inr False" using bid t bits last_byte_target [OF t] by (simp add: validate_pow_def)
  moreover have "digest_sizes last_byte_hashes" by (simp add: digest_sizes_def last_byte_hashes_def)
  ultimately have "\<exists>r. on_block_mined mining_env (Some ?b) idle_node = (r, idle_node) \<and> r \<noteq> Inr True"
    using mined_block_discarded [of mining_env idle_node ?b "\<lambda>_. False" ?b] b m unfolding H by simp
  with b m show ?thesis by blast
qed

end
