(* ===== verification/Node_Runs.thy ===== *)
theory Node_Runs
  imports Node_Facts Header_Facts Pool_Properties Peer_Facts Mining_Facts
begin

text \<open>
  Runs of a node. Chain and pool provide the interface \<open>node_parts\<close>, so that every run keeps the links between the parts,
  loses no indexed block and keeps the books of the pool. A peer whose message fails is gone afterwards.
\<close>

section \<open>Chain and pool keep their invariants\<close>

definition known_chain :: "bytes set \<Rightarrow> blockchain \<Rightarrow> bool" where
  "known_chain K c \<longleftrightarrow> K \<subseteq> idx_keys (bc_db c) \<and> pool_ok (bc_orphans c)"

lemma add_block_known: "keeps (known_chain K) (add_block fuel E b)"
proof (induction fuel arbitrary: b)
  case (Suc fuel)
  show ?case unfolding keeps_def
  proof (intro allI impI)
    fix s assume s: "known_chain K s"
    obtain rb s1 where body: "add_block_body E b s = (rb, s1)" by fastforce
    note spec = add_block_body_spec [OF body]
    have s1: "known_chain K s1" using s spec by (auto simp: known_chain_def)
    show "known_chain K (snd (add_block (Suc fuel) E b s))"
    proof (cases "\<exists>acc. rb = Inr (acc, True)")
      case False
      have "add_block (Suc fuel) E b s = (fst (add_block (Suc fuel) E b s), s1)"
      proof (cases rb)
        case (Inr x)
        then obtain acc where "rb = Inr (acc, False)" using False by (cases x) auto
        then show ?thesis unfolding add_block_unfold by (simp add: catchS_def bindS_def body returnS_def)
      qed (simp add: add_block_unfold catchS_def bindS_def body returnS_def)
      then show ?thesis using s1 by (metis snd_conv)
    next
      case True
      then obtain acc bid where acc: "rb = Inr (acc, True)" "block_id (ce_hashes E) b = Inr bid"
        using spec s by (auto simp: known_chain_def)
      obtain cs s2 where pop: "on_orphans (pop_children bid) s1 = (Inr cs, s2)" using on_orphans_Inr [of "pop_children bid" s1] by blast
      have s2: "known_chain K s2" using popped_children [OF _ pop, of K] s1 by (auto simp: known_chain_def trying_def)
      have all: "keeps (known_chain K) (forS (\<lambda>c. bindS (add_block fuel E c) (\<lambda>_. returnS ())) cs)"
        by (intro keeps_for keeps_bind Suc keeps_return)
      obtain rf s3 where f: "forS (\<lambda>c. bindS (add_block fuel E c) (\<lambda>_. returnS ())) cs s2 = (rf, s3)" by fastforce
      have "known_chain K s3" by (rule keepsD [OF all s2 f])
      moreover have "snd (add_block (Suc fuel) E b s) = s3" unfolding add_block_unfold
        by (cases rf) (auto simp: catchS_def bindS_def body acc run_simps children_part_def pop f)
      ultimately show ?thesis by simp
    qed
  qed
qed (simp add: keeps_intros)

lemma header_step_known: "keeps (\<lambda>db. K \<subseteq> idx_keys db) (add_header_step E h prev p)"
  unfolding add_header_step_def Let_def
proof (intro keeps_intros keeps_update)
  fix db db' bid existing
  assume "K \<subseteq> idx_keys db" and "add_block_header (ce_hashes E) h (ie_height p + 1) db = Inr db'"
  then show "K \<subseteq> idx_keys db'" using add_entry_keys [of "ce_hashes E" h _ False STATUS_HEADERS_ONLY db db']
    by (cases "header_id (ce_hashes E) h") (auto simp: add_block_header_def add_block_index_entry_def)
qed

lemma headers_known: "keeps (\<lambda>db. K \<subseteq> idx_keys db) (add_headers E hs)"
proof -
  have "keeps (\<lambda>db. K \<subseteq> idx_keys db) (add_headers_loop E prev p hs)" for prev p
  proof (induction hs arbitrary: prev p)
    case (Cons h hs)
    show ?case unfolding add_headers_loop.simps by (intro keeps_intros header_step_known Cons)
  qed (simp add: keeps_intros)
  then show ?thesis unfolding add_headers_def
    by (cases hs) (simp_all only: list.case keeps_return, intro keeps_bind keeps_read keeps_option keeps_raise)
qed


definition chain_pool_ok :: "bytes set \<Rightarrow> hashes \<Rightarrow> blockchain \<Rightarrow> mempool \<Rightarrow> bool" where
  "chain_pool_ok K H c p \<longleftrightarrow> known_chain K c \<and> bounded_inv H DEFAULT_LIMITS (pl_max_size DEFAULT_LIMITS) p"

definition env_for :: "ip_parser \<Rightarrow> hashes \<Rightarrow> node_env \<Rightarrow> bool" where
  "env_for ip H E \<longleftrightarrow> node_ip E = ip \<and> node_hashes E = H"

interpretation parts: node_parts "chain_pool_ok K H" ip "env_for ip H" for K H ip
proof
  have pos: "0 \<le> pl_max_size DEFAULT_LIMITS" by (simp add: DEFAULT_LIMITS_def)
  have H: "pv_hashes (node_pool_env E c) = H" if "env_for ip H E" for E c
    using that by (simp add: node_pool_env_def env_for_def node_hashes_def)
  show "node_ip E = ip" if "env_for ip H E" for E using that by (simp add: env_for_def)
  show "chain_pool_ok K H (snd (on_db (add_headers (ne_chain E) hs) c)) p" if "chain_pool_ok K H c p" for E c p hs
    using that keeps_at [OF headers_known, of K "bc_db c" "ne_chain E" hs]
    by (cases "add_headers (ne_chain E) hs (bc_db c)") (simp add: chain_pool_ok_def known_chain_def on_db_def zoomS_def)
  show "chain_pool_ok K H (snd (add_block_to_chain (ne_chain E) b c)) p" if "chain_pool_ok K H c p" for E c p b
    using that keeps_at [OF add_block_known, of K c _ "ne_chain E" b] by (simp only: chain_pool_ok_def add_block_to_chain_def)
  show "chain_pool_ok K H c (snd (add_tx (node_pool_env E c) (Decoded t) False p))" if "env_for ip H E" "chain_pool_ok K H c p" for E c p t
    using that(2) keeps_at [OF add_tx_keeps [OF pos, of "node_pool_env E c" "Decoded t" False], of p] by (simp add: chain_pool_ok_def H [OF that(1)])
  show "chain_pool_ok K H c (snd (confirm_block (node_pool_env E c) txids p))" if "env_for ip H E" "chain_pool_ok K H c p" for E c p txids
    using that(2) keeps_at [OF confirm_block_keeps [OF pos, of "node_pool_env E c" txids], of p] by (simp add: chain_pool_ok_def H [OF that(1)])
qed

text \<open>The links alone do not depend on chain and pool.\<close>

interpretation links: node_parts "\<lambda>_ _. True" ip "\<lambda>E. node_ip E = ip" for ip
  by unfold_locales simp_all

section \<open>Runs\<close>

datatype node_call =
    Connect string int peer_source
  | Accept string int bytes
  | Receive nat
  | Start_Sync nat
  | Sync_Headers nat nat
  | Submit_Tx tx
  | Submit_Block block
  | Keepalive_Pass
  | Outbound_Pass
  | Mine "nat \<Rightarrow> bool"
  | Disconnect nat
  | Stop

text \<open>A call may raise: the state is what it left behind.\<close>

fun node_step :: "node_env \<times> node_call \<Rightarrow> node \<Rightarrow> node" where
  "node_step (E, Connect host port source) s = snd (connect_peer E host port source s)"
| "node_step (E, Accept host port stream) s = snd (accept_peer E host port stream s)"
| "node_step (E, Receive obj) s = snd (receive_peer_message E obj s)"
| "node_step (E, Start_Sync obj) s = snd (start_header_sync E obj s)"
| "node_step (E, Sync_Headers fuel obj) s = snd (sync_headers fuel E obj s)"
| "node_step (E, Submit_Tx t) s = snd (submit_tx E t None s)"
| "node_step (E, Submit_Block b) s = snd (submit_block E b None s)"
| "node_step (E, Keepalive_Pass) s = snd (maintain_keepalive E s)"
| "node_step (E, Outbound_Pass) s = snd (maintain_outbound E s)"
| "node_step (E, Mine stopped) s = snd (node_start_mining E stopped s)"
| "node_step (E, Disconnect obj) s = snd (disconnect_peer E True obj s)"
| "node_step (E, Stop) s = snd (stop_peers E s)"

definition node_run :: "(node_env \<times> node_call) list \<Rightarrow> node \<Rightarrow> node" where
  "node_run = fold node_step"

context node_parts
begin

lemma step_keeps: "good E \<Longrightarrow> whole I ip objs s \<Longrightarrow> whole I ip objs (node_step (E, c) s)"
  by (cases c) (simp_all only: node_step.simps, (rule keeps_at, intro keeps_intros, assumption+)+)

lemma run_keeps: "\<forall>(E, c) \<in> set calls. good E \<Longrightarrow> whole I ip objs s \<Longrightarrow> whole I ip objs (node_run calls s)"
  unfolding node_run_def using step_keeps by (induction calls arbitrary: s) auto

end

text \<open>A node that is not connected.\<close>

definition unconnected :: "node \<Rightarrow> bool" where
  "unconnected s \<longleftrightarrow> nd_ready s = [] \<and> if_requests (nd_inflight s) = [] \<and> kp_states (nd_keepalive s) = [] \<and> sy_state (nd_sync s) \<noteq> SYNCING"

lemma unconnected_linked: "unconnected s \<Longrightarrow> linked ip s"
  by (simp add: unconnected_def linked_def linked_defs)

text \<open>
  C18: however a node is used, nothing in it refers to a peer that is gone. Through any run of handshakes in both
  directions, messages received, transactions and blocks submitted, mining, synchronisation, keepalive and outbound
  maintenance, disconnections and stops, whatever the network does and whatever call raises: the registry holds each
  peer once, under its own key and in the state READY, and every expected pong, every inventory request and a running
  header synchronisation belong to a registered peer.
\<close>

theorem node_stays_linked:
  assumes "unconnected s" and "\<forall>(E, c) \<in> set calls. node_ip E = ip"
  shows "linked ip (node_run calls s)"
proof -
  have "whole (\<lambda>_ _. True) ip [] s" using unconnected_linked [OF assms(1)] by (simp add: whole_def holding_def)
  from links.run_keeps [OF assms(2) this] show ?thesis by (simp add: whole_def)
qed

lemma node_stays_linked_witness:
  "linked (node_ip mining_env) (node_run [(mining_env, Connect ''1.2.3.4'' 8333 MANUAL), (mining_env, Receive 0),
     (mining_env, Submit_Block first_block), (mining_env, Keepalive_Pass), (mining_env, Stop)] idle_node)"
  by (rule node_stays_linked) (simp_all add: unconnected_def idle_node_def)

text \<open>
  C20: a node never forgets a block and keeps its memory pool in order, whatever its peers and its user send it: through
  any run every hash of the block index stays in it, the orphan blocks keep their bounds, and size, spend index and
  links of the memory pool agree with its entries, the size being within the limit.
\<close>

theorem node_keeps_chain_and_pool:
  assumes "unconnected s" and "pool_ok (bc_orphans (nd_chain s))" and "nd_pool s = new_mempool now"
    and "\<forall>(E, c) \<in> set calls. node_ip E = ip \<and> node_hashes E = H"
  shows "idx_keys (bc_db (nd_chain s)) \<subseteq> idx_keys (bc_db (nd_chain (node_run calls s)))
    \<and> pool_ok (bc_orphans (nd_chain (node_run calls s)))
    \<and> bounded_inv H DEFAULT_LIMITS (pl_max_size DEFAULT_LIMITS) (nd_pool (node_run calls s))"
proof -
  have "bounded_inv H DEFAULT_LIMITS (pl_max_size DEFAULT_LIMITS) (nd_pool s)"
    using reachable_inv [OF pool_reachable.start] assms(3) by simp
  then have "whole (chain_pool_ok (idx_keys (bc_db (nd_chain s))) H) ip [] s" using unconnected_linked [OF assms(1)] assms(2)
    by (simp add: whole_def holding_def chain_pool_ok_def known_chain_def)
  moreover have "\<forall>(E, c) \<in> set calls. env_for ip H E" using assms(4) by (auto simp: env_for_def)
  ultimately show ?thesis using parts.run_keeps [of calls ip H "idx_keys (bc_db (nd_chain s))" "[]" s]
    by (simp add: whole_def chain_pool_ok_def known_chain_def)
qed


lemma node_keeps_chain_and_pool_witness:
  "pool_ok (bc_orphans (nd_chain (node_run [(mining_env, Submit_Block first_block), (mining_env, Mine (\<lambda>n. n = 10)), (mining_env, Stop)] idle_node)))"
proof -
  have "pool_ok (bc_orphans (nd_chain idle_node))"
    by (simp add: idle_node_def chain_view.extend_def pool_ok_def Orphan_Blocks.pool_inv_def pool_bounded_def pool_linked_def entry_parent_def)
  moreover have "unconnected idle_node" "nd_pool idle_node = new_mempool 0" by (simp_all add: unconnected_def idle_node_def)
  ultimately show ?thesis using node_keeps_chain_and_pool [of idle_node 0 _ "node_ip mining_env" "node_hashes mining_env"] by simp
qed

section \<open>A peer whose message fails\<close>

text \<open>\<^verbatim>\<open>ipaddress\<close> parses the text it writes, and writes it the same way again.\<close>

definition ip_canonical :: "ip_parser \<Rightarrow> bool" where
  "ip_canonical ip \<longleftrightarrow> (\<forall>host t. ip host = Some t \<longrightarrow> ip t = Some t)"

lemma record_message_sound:
  assumes "sound_key ip k" and "ip_canonical ip"
  shows "\<exists>x. record_message ip now (fst k) (Some (snd k)) None book = Inr x"
proof -
  obtain h where h: "ip (fst k) = Some h" "1 \<le> snd k" "snd k \<le> 65535" using assms(1) by (auto simp: sound_key_def)
  then have "ip h = Some h" using assms(2) by (auto simp: ip_canonical_def)
  then show ?thesis using h by (auto simp: record_message_def endpoint_def parse_host_def validate_port_def book_add_def Let_def split: option.split)
qed

lemma disconnect_returns:
  assumes "sound_key ip (key_of s obj)" and "ip_canonical ip" and "node_ip E = ip"
  shows "\<exists>b. disconnect_peer E noted obj s = (Inr (), (unlink obj s)\<lparr>nd_book := b\<rparr>)"
proof (cases noted)
  case True
  obtain k b where "record_message ip (ne_time E) (fst (key_of s obj)) (Some (snd (key_of s obj))) None (nd_book (unlink obj s)) = Inr (k, b)"
    using record_message_sound [OF assms(1,2)] by (metis surj_pair)
  then show ?thesis using True assms(3) by (auto simp: disconnect_run bindS_def on_book_def returnS_def)
next
  case False
  then show ?thesis by (intro exI [of _ "nd_book (unlink obj s)"]) (simp add: disconnect_run returnS_def)
qed

text \<open>The bans as they stand at the clock of \<open>E\<close>; asking for them does not change them.\<close>

definition banned_at :: "node_env \<Rightarrow> node \<Rightarrow> string \<Rightarrow> bool" where
  "banned_at E s host = fst (is_banned (node_ip E) (ne_clock E) host (nd_discipline s))"

lemma is_banned_standing:
  "fst (is_banned ip now host d) \<longleftrightarrow> snd (lapse now (standing_in d (normalize_host ip host))) \<noteq> None"
proof -
  let ?h = "normalize_host ip host"
  have "fst (is_banned ip now host d) \<longleftrightarrow> snd (standing_in (expire_ban now ?h d) ?h) \<noteq> None"
    by (simp add: is_banned_def Let_def standing_in_def)
  then show ?thesis by (simp add: expire_standing)
qed

lemma asking_keeps_bans:
  "fst (is_banned ip now host' (snd (is_banned ip now host d))) = fst (is_banned ip now host' d)"
  unfolding is_banned_standing by (simp add: is_banned_def Let_def expire_lapsed)

text \<open>What asking and disconnecting leave: bans as before, and only peers that were there, the banned ones gone.\<close>

definition fewer_peers :: "node_env \<Rightarrow> node \<Rightarrow> node \<Rightarrow> bool" where
  "fewer_peers E s t \<longleftrightarrow> set (nd_ready t) \<subseteq> set (nd_ready s) \<and> banned_at E t = banned_at E s"

lemma fewer_trans: "fewer_peers E s t \<Longrightarrow> fewer_peers E t u \<Longrightarrow> fewer_peers E s u"
  by (auto simp: fewer_peers_def)

lemma drop_if_banned_spec:
  assumes "sound_key ip (key_of s cand)" and "ip_canonical ip" and "node_ip E = ip"
  shows "\<exists>t. drop_if_banned E obj cand s = (Inr (), t) \<and> fewer_peers E s t
    \<and> (cand \<noteq> obj \<and> banned_at E s (pr_host (nd_peers s cand)) \<longrightarrow> key_of s cand \<notin> ready_keys t)"
proof (cases "cand = obj")
  case False
  let ?host = "pr_host (nd_peers s cand)" let ?b = "is_banned (node_ip E) (ne_clock E) ?host (nd_discipline s)"
  let ?u = "s\<lparr>nd_discipline := snd ?b\<rparr>"
  have k: "key_of ?u cand = key_of s cand" by (simp add: key_of_def)
  have bans: "banned_at E ?u = banned_at E s" by (rule ext) (simp add: banned_at_def asking_keeps_bans)
  have run: "drop_if_banned E obj cand s = (if fst ?b then disconnect_peer E True cand else returnS ()) ?u"
    using False by (cases ?b) (simp add: drop_if_banned_def run_simps bindS_def [of "on_discipline _"] on_discipline_def)
  show ?thesis
  proof (cases "fst ?b")
    case True
    obtain b where d: "disconnect_peer E True cand ?u = (Inr (), (unlink cand ?u)\<lparr>nd_book := b\<rparr>)"
      using disconnect_returns [of ip ?u cand E True] assms k by auto
    let ?t = "(unlink cand ?u)\<lparr>nd_book := b\<rparr>"
    have "nd_discipline ?t = nd_discipline ?u" "set (nd_ready ?t) \<subseteq> set (nd_ready s)"
      by (auto simp: unlink_def Let_def AList.delete_eq)
    then have "fewer_peers E s ?t" unfolding fewer_peers_def using bans by (simp add: banned_at_def fun_eq_iff)
    moreover have "key_of s cand \<notin> ready_keys ?t" using unlink_keys(3) [of cand ?u] k by (simp add: ready_keys_def)
    ultimately show ?thesis using run d True by auto
  next
    case False
    then have "\<not> banned_at E s ?host" by (simp add: banned_at_def)
    then show ?thesis using run False bans by (auto simp: fewer_peers_def returnS_def)
  qed
qed (simp add: drop_if_banned_def returnS_def fewer_peers_def)

lemma drop_banned_spec:
  assumes "whole I ip (map (\<lambda>c. (f c, c)) cands) s" and "ip_canonical ip" and "node_ip E = ip"
  shows "\<exists>t. forS (drop_if_banned E obj) cands s = (Inr (), t) \<and> fewer_peers E s t
    \<and> (\<forall>c \<in> set cands. c \<noteq> obj \<and> banned_at E s (fst (f c)) \<longrightarrow> f c \<notin> ready_keys t)"
  using assms(1)
proof (induction cands arbitrary: s)
  case (Cons c cands)
  have k: "key_of s c = f c" "sound_key ip (f c)" using Cons.prems by (auto simp: whole_def holding_def)
  then have host: "pr_host (nd_peers s c) = fst (f c)" by (metis fst_conv key_of_def peer_key_of_def)
  obtain t where t: "drop_if_banned E obj c s = (Inr (), t)" "fewer_peers E s t"
    "c \<noteq> obj \<and> banned_at E s (fst (f c)) \<longrightarrow> f c \<notin> ready_keys t"
    using drop_if_banned_spec [of ip s c E obj] assms(2,3) k host by metis
  have kept: "keeps (whole I ip (map (\<lambda>c. (f c, c)) cands)) (drop_if_banned E obj c)" unfolding drop_if_banned_def by (intro keeps_intros)
  have "whole I ip (map (\<lambda>c. (f c, c)) cands) t"
    using keepsD [OF kept _ t(1)] Cons.prems whole_Cons [of I ip "(f c, c)" "map (\<lambda>c. (f c, c)) cands"] by auto
  from Cons.IH [OF this] obtain u where u: "forS (drop_if_banned E obj) cands t = (Inr (), u)" "fewer_peers E t u"
    "\<forall>c \<in> set cands. c \<noteq> obj \<and> banned_at E t (fst (f c)) \<longrightarrow> f c \<notin> ready_keys u" by blast
  have "ready_keys u \<subseteq> ready_keys t" using u(2) by (auto simp: fewer_peers_def ready_keys_def)
  moreover have "forS (drop_if_banned E obj) (c # cands) s = (Inr (), u)" by (simp add: bindS_def t(1) u(1))
  ultimately show ?case using t u fewer_trans [OF t(2) u(2)] by (fastforce simp: fewer_peers_def)
qed (simp add: returnS_def fewer_peers_def)


lemma registered_listed:
  assumes "linked ip s" and "(k, obj) \<in> set (nd_ready s)"
  shows "obj \<in> set (ready_peers s)" and "key_of s obj = k"
proof -
  have r: "registry_ok ip {} s" using assms(1) by (simp add: linked_def linked_but_def)
  then have "map_of (nd_ready s) k = Some obj" using assms(2) by (auto simp: registry_ok_def)
  moreover have "k \<in> set (sort (map fst (nd_ready s)))" using assms(2) by force
  ultimately show "obj \<in> set (ready_peers s)" unfolding ready_peers_def by force
  show "key_of s obj = k" using r assms(2) by (auto simp: registry_ok_def)
qed

text \<open>Whether \<open>h\<close> is banned once the violation \<open>v\<close> of \<open>host\<close> is recorded.\<close>

definition offender_banned :: "node_env \<Rightarrow> string \<Rightarrow> misbehaviour \<Rightarrow> string \<Rightarrow> discipline \<Rightarrow> bool" where
  "offender_banned E host v h d =
     fst (is_banned (node_ip E) (ne_clock E) h (snd (record_violation (node_ip E) (ne_clock E) (ne_clock E) host v d)))"

lemma misbehaviour_spec:
  assumes "whole I ip objs s" and "ip_canonical ip" and "node_ip E = ip"
  shows "\<exists>n t. record_misbehaviour E obj e s = (Inr n, t) \<and> (classify_peer_error e \<noteq> None \<and> banned_at E t (pr_host (nd_peers s obj))
    \<longrightarrow> (\<forall>(k, o') \<in> set (nd_ready t). o' \<noteq> obj \<longrightarrow> \<not> banned_at E t (fst k)))
    \<and> (\<forall>v h. classify_peer_error e = Some v \<longrightarrow> banned_at E t h = offender_banned E (pr_host (nd_peers s obj)) v h (nd_discipline s))"
proof (cases "classify_peer_error e")
  case None
  then show ?thesis by (auto simp: record_misbehaviour_def run_simps on_discipline_def split: prod.split)
next
  case (Some v)
  let ?host = "pr_host (nd_peers s obj)" let ?r = "record_violation (node_ip E) (ne_clock E) (ne_clock E) ?host v (nd_discipline s)"
  let ?b = "is_banned (node_ip E) (ne_clock E) ?host (snd ?r)" let ?s2 = "s\<lparr>nd_discipline := snd ?b\<rparr>"
  have run: "record_misbehaviour E obj e s =
      bindS (if fst ?b then bindS (readS ready_peers) (forS (drop_if_banned E obj)) else returnS ()) (\<lambda>_. returnS (fst ?r)) ?s2"
    by (cases ?r; cases ?b) (simp add: record_misbehaviour_def Some run_simps bindS_def [of "on_discipline _"] on_discipline_def)
  have "quiet s ?s2" by (simp add: quiet_refl)
  then have w: "whole I ip objs ?s2" using assms(1) quiet_states(1) by blast
  have bans: "banned_at E ?s2 h = fst (is_banned (node_ip E) (ne_clock E) h (snd ?r))" for h by (simp add: banned_at_def asking_keeps_bans)
  then have same: "\<forall>x h. classify_peer_error e = Some x \<longrightarrow> banned_at E ?s2 h = offender_banned E ?host x h (nd_discipline s)"
    by (simp add: offender_banned_def Some)
  show ?thesis
  proof (cases "fst ?b")
    case True
    have "whole I ip (map (\<lambda>c. (key_of ?s2 c, c)) (ready_peers ?s2)) ?s2" using whole_ready [OF w] by (simp add: with_keys_def)
    from drop_banned_spec [OF this assms(2,3)] obtain t where t: "forS (drop_if_banned E obj) (ready_peers ?s2) ?s2 = (Inr (), t)"
      "fewer_peers E ?s2 t" "\<forall>c \<in> set (ready_peers ?s2). c \<noteq> obj \<and> banned_at E ?s2 (fst (key_of ?s2 c)) \<longrightarrow> key_of ?s2 c \<notin> ready_keys t" by blast
    have "\<not> banned_at E t (fst k)" if "(k, o') \<in> set (nd_ready t)" "o' \<noteq> obj" for k o'
    proof -
      have "linked ip ?s2" using w by (simp add: whole_def)
      moreover have "(k, o') \<in> set (nd_ready ?s2)" using that(1) t(2) unfolding fewer_peers_def by blast
      ultimately have "o' \<in> set (ready_peers ?s2)" "key_of ?s2 o' = k" using registered_listed by metis+
      moreover have "k \<in> ready_keys t" using that(1) by (force simp: ready_keys_def)
      ultimately have "\<not> banned_at E ?s2 (fst k)" using t(3) that(2) by blast
      then show ?thesis using t(2) by (simp add: fewer_peers_def)
    qed
    moreover have "record_misbehaviour E obj e s = (Inr (fst ?r), t)"
      unfolding run using True t(1) by (simp add: run_simps) (simp add: bindS_def returnS_def)
    moreover have "banned_at E t = banned_at E ?s2" using t(2) by (simp add: fewer_peers_def)
    ultimately show ?thesis using same by auto
  next
    case False
    then have "record_misbehaviour E obj e s = (Inr (fst ?r), ?s2)" unfolding run by (simp add: run_simps)
    moreover have "\<not> banned_at E ?s2 ?host" using False bans by simp
    ultimately show ?thesis using same by auto
  qed
qed

text \<open>The whole of what happens to a peer whose message raised.\<close>

lemma drop_failed_spec:
  assumes "whole (\<lambda>_ _. True) ip [(k, obj)] s" and "ip_canonical ip" and "node_ip E = ip"
  shows "\<exists>u. drop_failed_peer E obj e s = (Inl e, unlink obj u) \<and> key_of u obj = k \<and> linked ip (unlink obj u)
    \<and> (classify_peer_error e \<noteq> None \<and> banned_at E u (fst k) \<longrightarrow> (\<forall>(k', o') \<in> set (nd_ready u). o' \<noteq> obj \<longrightarrow> \<not> banned_at E u (fst k')))
    \<and> (\<forall>v h. classify_peer_error e = Some v \<longrightarrow> banned_at E u h = offender_banned E (fst k) v h (nd_discipline s))"
proof -
  let ?T = "\<lambda>_ _. True"
  have k: "key_of s obj = k" "sound_key ip k" using assms(1) by (auto simp: whole_def holding_def)
  then have host: "pr_host (nd_peers s obj) = fst k" by (metis fst_conv key_of_def peer_key_of_def)
  from misbehaviour_spec [OF assms, of obj e] obtain n t where t: "record_misbehaviour E obj e s = (Inr n, t)"
    "classify_peer_error e \<noteq> None \<and> banned_at E t (fst k) \<longrightarrow> (\<forall>(k', o') \<in> set (nd_ready t). o' \<noteq> obj \<longrightarrow> \<not> banned_at E t (fst k'))"
    "\<forall>v h. classify_peer_error e = Some v \<longrightarrow> banned_at E t h = offender_banned E (fst k) v h (nd_discipline s)"
    unfolding host by blast
  have w: "whole ?T ip [(k, obj)] t" by (rule keepsD [OF misbehaviour_keeps(1) assms(1) t(1)])
  then have kt: "key_of t obj = k" by (simp add: whole_def holding_def)
  then obtain p b where d: "drop_peer E False obj t = disconnect_peer E False obj (t\<lparr>nd_peers := (nd_peers t)(obj := p), nd_book := b\<rparr>)"
    "peer_key_of p = k" using drop_peer_run [of ip t obj E False] k(2) assms(3) by metis
  let ?u = "t\<lparr>nd_peers := (nd_peers t)(obj := p), nd_book := b\<rparr>"
  have "drop_peer E False obj t = (Inr (), unlink obj ?u)" by (simp add: d(1) disconnect_run returnS_def)
  then have "drop_failed_peer E obj e s = (Inl e, unlink obj ?u)"
    unfolding drop_failed_peer_def drop_peer_def by (simp add: bindS_def [of "record_misbehaviour _ _ _"] t(1))
      (simp add: bindS_assoc [symmetric], simp add: bindS_def raiseS_def)
  moreover have "key_of ?u obj = k" using d(2) by (simp add: key_of_def)
  moreover have "linked ip (unlink obj ?u)" using failing_whole [OF w, of p obj b] d(2) kt by (simp add: whole_def)
  moreover have "banned_at E ?u = banned_at E t" by (simp add: banned_at_def fun_eq_iff)
  ultimately show ?thesis using t(2,3) by (intro exI [of _ ?u]) simp
qed


subsection \<open>Samples\<close>

text \<open>A node with two ready peers of one host; it synchronises headers with the first, which has sent 24 zero bytes.\<close>

definition peer_env :: node_env where
  "peer_env = mining_env\<lparr>ne_parse := (\<lambda>h. if h = ''1.2.3.4'' then Some (IPv4 [1, 2, 3, 4]) else None), ne_show := (\<lambda>_. ''1.2.3.4''),
     ne_magic := [0xf9, 0xbe, 0xb4, 0xd9]\<rparr>"

definition met_node :: node where
  "met_node = idle_node\<lparr>nd_discipline := \<lparr>pd_threshold = 20, pd_duration = 10, pd_scores = [], pd_bans = []\<rparr>,
     nd_ready := [((''1.2.3.4'', 8333), 0), ((''1.2.3.4'', 8334), 1)], nd_next_peer := 2,
     nd_peers := (\<lambda>obj. (new_peer 0 ''1.2.3.4'' (if obj = 0 then 8333 else 8334))\<lparr>pr_state := READY\<rparr>),
     nd_conns := [((''1.2.3.4'', 8333), replicate 24 0)],
     nd_sync := \<lparr>sy_state = SYNCING, sy_peer = Some (''1.2.3.4'', 8333), sy_awaiting = True, sy_batches = 0, sy_headers = 0\<rparr>\<rparr>"

lemma met_key: "key_of met_node 0 = (''1.2.3.4'', 8333)"
  by (simp add: met_node_def key_of_def peer_key_of_def new_peer_def)

lemma met_linked: "linked (node_ip peer_env) met_node"
  by (simp add: linked_def linked_defs met_node_def key_of_def peer_key_of_def new_peer_def sound_key_def peer_env_def node_ip_def idle_node_def)

lemma met_ready: "is_ready_peer 0 met_node"
  by (simp add: is_ready_peer_def met_node_def key_of_def peer_key_of_def new_peer_def)

lemma met_canonical: "ip_canonical (node_ip peer_env)"
  by (simp add: ip_canonical_def node_ip_def peer_env_def)

lemma met_receives: "receive_message peer_env 0 None met_node = (Inl NetworkError, met_node)"
proof -
  have "recv_one last_byte_hashes (ce_now (ne_chain peer_env)) [0xf9, 0xbe, 0xb4, 0xd9] None (replicate 24 0) = Inl NetworkError" by code_simp
  moreover have "node_hashes peer_env = last_byte_hashes" "ne_magic peer_env = [0xf9, 0xbe, 0xb4, 0xd9]"
    by (simp_all add: node_hashes_def peer_env_def mining_env_def)
  moreover have "map_of (nd_conns met_node) (key_of met_node 0) = Some (replicate 24 0)" by (simp only: met_key) (simp add: met_node_def)
  ultimately show ?thesis by (simp add: receive_message_def require_conn_def bindS_bind bindS_read bindS_return bindS_lift)
qed

lemma met_fails: "receive_peer_message peer_env 0 met_node = drop_failed_peer peer_env 0 NetworkError met_node"
proof -
  have "bindS (receive_message peer_env 0 None) f met_node = (Inl NetworkError, met_node)" for f :: "payload \<Rightarrow> (node, payload) action"
    by (simp add: bindS_def met_receives)
  then show ?thesis using met_ready by (simp add: receive_peer_message_def bindS_read catchS_def)
qed

lemma met_dropped:
  obtains u where "receive_peer_message peer_env 0 met_node = (Inl NetworkError, unlink 0 u)"
    and "banned_at peer_env u ''1.2.3.4''"
proof -
  have "whole (\<lambda>_ _. True) (node_ip peer_env) [((''1.2.3.4'', 8333), 0)] met_node"
    using whole_registered [of _ _ "[]", OF _ met_ready] met_linked unfolding met_key by (simp add: whole_def holding_def)
  from drop_failed_spec [OF this met_canonical refl, of NetworkError] obtain u where
    "drop_failed_peer peer_env 0 NetworkError met_node = (Inl NetworkError :: py_error + payload, unlink 0 u)"
    "banned_at peer_env u ''1.2.3.4'' = offender_banned peer_env ''1.2.3.4'' MALFORMED_MESSAGE ''1.2.3.4'' (nd_discipline met_node)"
    by auto
  moreover have "offender_banned peer_env ''1.2.3.4'' MALFORMED_MESSAGE ''1.2.3.4'' \<lparr>pd_threshold = 20, pd_duration = 10, pd_scores = [], pd_bans = []\<rparr>"
    by code_simp
  moreover have "nd_discipline met_node = \<lparr>pd_threshold = 20, pd_duration = 10, pd_scores = [], pd_bans = []\<rparr>" by (simp add: met_node_def)
  ultimately show ?thesis using that met_fails by simp
qed

subsection \<open>Its message\<close>

lemma receive_failed:
  assumes "linked ip s" and "ip_canonical ip" and "node_ip E = ip" and "is_ready_peer obj s"
    and "receive_peer_message E obj s = (Inl e, t)" and "e \<noteq> NoReturn"
  shows "\<exists>u. t = unlink obj u \<and> key_of u obj = key_of s obj \<and> linked ip t
    \<and> (classify_peer_error e \<noteq> None \<and> banned_at E u (fst (key_of s obj))
       \<longrightarrow> (\<forall>(k, o') \<in> set (nd_ready u). o' \<noteq> obj \<longrightarrow> \<not> banned_at E u (fst k)))"
proof -
  let ?T = "\<lambda>_ _. True" and ?k = "key_of s obj"
  let ?body = "bindS (receive_message E obj None) (\<lambda>m. bindS (handle_peer_message E obj m) (\<lambda>_. returnS m))"
  have w: "whole ?T ip [(?k, obj)] s" using whole_registered [of ?T ip "[]" s obj] assms(1,4) by (simp add: whole_def holding_def)
  have keeps: "keeps (whole ?T ip [(?k, obj)]) ?body" by (intro keeps_intros links.handle_message_keeps assms(3))
  obtain r s1 where b: "?body s = (r, s1)" by fastforce
  have w1: "whole ?T ip [(?k, obj)] s1" by (rule keepsD [OF keeps w b])
  have c: "receive_peer_message E obj s = catchS ?body (drop_failed_peer E obj) s"
    using assms(4) by (simp add: receive_peer_message_def run_simps)
  obtain e1 where e1: "r = Inl e1" using c assms(5) b by (cases r) (simp_all add: catchS_def)
  obtain u where u: "drop_failed_peer E obj e1 s1 = (Inl e1 :: py_error + payload, unlink obj u)" "key_of u obj = ?k" "linked ip (unlink obj u)"
    "classify_peer_error e1 \<noteq> None \<and> banned_at E u (fst ?k) \<longrightarrow> (\<forall>(k', o') \<in> set (nd_ready u). o' \<noteq> obj \<longrightarrow> \<not> banned_at E u (fst k'))"
    using drop_failed_spec [OF w1 assms(2,3), of e1] by blast
  have "e = e1" "t = unlink obj u" using c assms(5,6) b e1 u(1) by (auto simp: catchS_def split: if_split_asm)
  then show ?thesis using u by blast
qed

text \<open>
  C17: when receiving or handling a message of a ready peer raises, whatever the exception, the peer is dropped and
  nothing of it stays behind: it is not registered, its state is DISCONNECTED, its connection is closed, no pong is
  expected from it, no inventory request is assigned to it, the header synchronisation does not wait for it, and the
  rest of the node is linked as before.
\<close>

theorem failed_message_drops_peer:
  assumes "linked ip s" and "ip_canonical ip" and "node_ip E = ip" and "is_ready_peer obj s"
    and "receive_peer_message E obj s = (Inl e, t)" and "e \<noteq> NoReturn" and "k = key_of s obj"
  shows "k \<notin> ready_keys t \<and> pr_state (nd_peers t obj) = DISCONNECTED \<and> map_of (nd_conns t) k = None
    \<and> pending_nonce k (nd_keepalive t) = None \<and> (\<forall>(_, q) \<in> set (if_requests (nd_inflight t)). ir_peer q \<noteq> k)
    \<and> \<not> (sy_state (nd_sync t) = SYNCING \<and> sy_peer (nd_sync t) = Some k) \<and> linked ip t"
proof -
  obtain u where u: "t = unlink obj u" "key_of u obj = k" "linked ip t"
    using receive_failed [OF assms(1-6)] assms(7) by blast
  then show ?thesis
    by (auto simp: unlink_keys(3)) (auto simp: unlink_def Let_def delete_conv' pending_nonce_def forget_peer_def
        release_peer_def sync_peer_disconnected_def transition_def split: if_split_asm)
qed

lemma failed_message_drops_peer_witness:
  "\<exists>t. receive_peer_message peer_env 0 met_node = (Inl NetworkError, t) \<and> (''1.2.3.4'', 8333) \<in> ready_keys met_node
     \<and> (''1.2.3.4'', 8333) \<notin> ready_keys t \<and> sy_state (nd_sync met_node) = SYNCING \<and> linked (node_ip peer_env) t"
proof -
  obtain u where u: "receive_peer_message peer_env 0 met_node = (Inl NetworkError, unlink 0 u)" by (rule met_dropped)
  from failed_message_drops_peer [OF met_linked met_canonical refl met_ready u _ met_key [symmetric]] u
  show ?thesis by (auto simp: met_node_def ready_keys_def)
qed

text \<open>
  C19: a ban is effective at once: when a message of a ready peer raises one of the errors that count as misbehaviour
  and the host of the peer is banned after it, no peer of any banned host is registered any more.
\<close>

theorem ban_clears_registry:
  assumes "linked ip s" and "ip_canonical ip" and "node_ip E = ip" and "is_ready_peer obj s"
    and "receive_peer_message E obj s = (Inl e, t)" and "classify_peer_error e \<noteq> None"
    and "fst (is_banned ip (ne_clock E) (fst (key_of s obj)) (nd_discipline t))"
  shows "\<forall>(k, other) \<in> set (nd_ready t). \<not> fst (is_banned ip (ne_clock E) (fst k) (nd_discipline t))"
proof -
  have "e \<noteq> NoReturn" using assms(6) by auto
  from receive_failed [OF assms(1-5) this] obtain u where u: "t = unlink obj u" "key_of u obj = key_of s obj" "linked ip t"
    "banned_at E u (fst (key_of s obj)) \<longrightarrow> (\<forall>(k, o') \<in> set (nd_ready u). o' \<noteq> obj \<longrightarrow> \<not> banned_at E u (fst k))"
    using assms(6) by blast
  have d: "nd_discipline t = nd_discipline u" "set (nd_ready t) \<subseteq> set (nd_ready u)"
    unfolding u(1) by (auto simp: unlink_def Let_def AList.delete_eq)
  have bans: "banned_at E u h \<longleftrightarrow> fst (is_banned ip (ne_clock E) h (nd_discipline t))" for h
    by (simp add: banned_at_def d(1) assms(3))
  have "other \<noteq> obj" if "(k, other) \<in> set (nd_ready t)" for k other
  proof
    assume "other = obj"
    then have "key_of t obj = k" using registered_listed(2) [OF u(3) that] by simp
    moreover have "k \<in> ready_keys t" using that by (force simp: ready_keys_def)
    ultimately show False unfolding u(1) by simp
  qed
  then show ?thesis using u(4) d(2) bans assms(7) by blast
qed

lemma ban_clears_registry_witness:
  "\<exists>t. receive_peer_message peer_env 0 met_node = (Inl NetworkError, t) \<and> nd_ready met_node \<noteq> []
     \<and> (\<forall>(k, other) \<in> set (nd_ready t). \<not> fst (is_banned (node_ip peer_env) (ne_clock peer_env) (fst k) (nd_discipline t)))"
proof -
  obtain u where u: "receive_peer_message peer_env 0 met_node = (Inl NetworkError, unlink 0 u)" "banned_at peer_env u ''1.2.3.4''"
    by (rule met_dropped)
  have "nd_discipline (unlink 0 u) = nd_discipline u" by (simp add: unlink_def Let_def)
  then have "fst (is_banned (node_ip peer_env) (ne_clock peer_env) (fst (key_of met_node 0)) (nd_discipline (unlink 0 u)))"
    using u(2) by (simp add: banned_at_def met_key)
  from ban_clears_registry [OF met_linked met_canonical refl met_ready u(1) _ this] u(1) show ?thesis by (auto simp: met_node_def)
qed

end
