(* ===== verification/Extended_Keys.thy ===== *)
theory Extended_Keys
  imports Signatures Encoding Byte_Stream
begin

text \<open>
  \<^verbatim>\<open>src/src/wallet/xkeys.py\<close>: extended keys, their serial form and the derivation of children. An
  \<^verbatim>\<open>ExtendedKey\<close> is the record \<open>xkey\<close> of its slots. Python's \<^verbatim>\<open>hmac\<close> and \<^verbatim>\<open>hashlib.pbkdf2_hmac\<close>
  are the fields of a record every user takes as an argument, as the digests are. The lemmas show that every key
  the constructors make is well formed, that its text is read back, and what one derivation step does.
\<close>

section \<open>Keyed hashes: hash\_functions.py\<close>

record wallet_prims =
  wp_hmac :: "bytes \<Rightarrow> bytes \<Rightarrow> bytes"
  wp_pbkdf2 :: "bytes \<Rightarrow> bytes \<Rightarrow> int \<Rightarrow> int \<Rightarrow> bytes"

definition hmac_sha512 :: "wallet_prims \<Rightarrow> bytes \<Rightarrow> bytes \<Rightarrow> bytes" where
  "hmac_sha512 P key message = wp_hmac P key message"

text \<open>The documented size of an HMAC-SHA512.\<close>

definition mac_sizes :: "wallet_prims \<Rightarrow> bool" where
  "mac_sizes P \<longleftrightarrow> (\<forall>key message. length (wp_hmac P key message) = 64)"

text \<open>
  \<^verbatim>\<open>' '.join(words)\<close>. Words and passphrases are ASCII text, as the word list is: normalisation to NFKD leaves
  such text as it is, and UTF-8 writes it with one byte for each character.
\<close>

fun join_words :: "string list \<Rightarrow> string" where
  "join_words [] = []"
| "join_words [w] = w"
| "join_words (w # ws) = w @ '' '' @ join_words ws"

definition pbkdf2 :: "wallet_prims \<Rightarrow> string list \<Rightarrow> string \<Rightarrow> int \<Rightarrow> int \<Rightarrow> bytes" where
  "pbkdf2 P mnemonic passphrase iterations dklen =
     (let mnemonic_str = join_words mnemonic;
          salt = ascii_bytes (''mnemonic'' @ passphrase);
          password_bytes = ascii_bytes mnemonic_str
      in wp_pbkdf2 P password_bytes salt iterations dklen)"

section \<open>Extended keys\<close>

record xkey =
  xk_version :: bytes
  xk_depth :: int
  xk_parent :: bytes
  xk_child :: int
  xk_chain :: bytes
  xk_data :: bytes

definition SEED_KEY :: bytes where "SEED_KEY = ascii_bytes ''Bitcoin seed''"
definition CHAIN_LENGTH :: nat where "CHAIN_LENGTH = 32"
definition BIP44_XPRV :: bytes where "BIP44_XPRV = [0x04, 0x88, 0xad, 0xe4]"
definition HARDENED_OFFSET :: int where "HARDENED_OFFSET = 0x80000000"

definition new_xkey :: "bytes \<Rightarrow> bytes \<Rightarrow> int \<Rightarrow> bytes \<Rightarrow> int \<Rightarrow> bytes \<Rightarrow> xkey result" where
  "new_xkey key_data chain_code depth parent_fingerprint child_number version =
     bindR (guardR (length parent_fingerprint = 4) ExtendedKeyError) (\<lambda>_.
     bindR (guardR (length chain_code = CHAIN_LENGTH) ExtendedKeyError) (\<lambda>_.
       Inr \<lparr>xk_version = version, xk_depth = depth, xk_parent = parent_fingerprint,
            xk_child = child_number, xk_chain = chain_code, xk_data = key_data\<rparr>))"

definition from_master_seed :: "wallet_prims \<Rightarrow> bytes \<Rightarrow> bytes \<Rightarrow> xkey result" where
  "from_master_seed P seed version =
     (let seed_hash = hmac_sha512 P SEED_KEY seed;
          privkey = take COORD_BYTES seed_hash;
          chain_code = drop COORD_BYTES seed_hash
      in new_xkey privkey chain_code 0 [0, 0, 0, 0] 0 version)"

definition is_private :: "xkey \<Rightarrow> bool" where
  "is_private k \<longleftrightarrow> length (xk_data k) = COORD_BYTES"

definition is_public :: "xkey \<Rightarrow> bool" where
  "is_public k \<longleftrightarrow> length (xk_data k) = COORD_BYTES + 1"

definition is_mainnet :: "xkey \<Rightarrow> bool" where
  "is_mainnet k \<longleftrightarrow> take 2 (xk_version k) = [0x04, 0x88]"

definition is_testnet :: "xkey \<Rightarrow> bool" where
  "is_testnet k \<longleftrightarrow> take 2 (xk_version k) = [0x04, 0x35]"

definition xkey_to_bytes :: "hashes \<Rightarrow> xkey \<Rightarrow> bytes result" where
  "xkey_to_bytes H k =
     (let key_data = (if is_private k then 0x00 # xk_data k else xk_data k) in
      bindR (to_bytes_be 1 (xk_depth k)) (\<lambda>depth.
      bindR (to_bytes_be 4 (xk_child k)) (\<lambda>child_number.
        let preimage = xk_version k @ depth @ xk_parent k @ child_number @ xk_chain k @ key_data;
            checksum = take 4 (hash256 H preimage)
        in Inr (preimage @ checksum))))"

text \<open>\<^verbatim>\<open>serialized[:-4] + serialized[-4:]\<close> is the serialisation again.\<close>

definition xkey_address :: "hashes \<Rightarrow> xkey \<Rightarrow> string result" where
  "xkey_address H k =
     bindR (xkey_to_bytes H k) (\<lambda>serialized.
       let preimage = take (length serialized - 4) serialized;
           checksum = drop (length serialized - 4) serialized
       in Inr (encode_base58 (preimage @ checksum)))"

definition from_serial :: "hashes \<Rightarrow> bytes \<Rightarrow> xkey result" where
  "from_serial H stream =
     bindR (read_stream 4 stream) (\<lambda>(version, s1).
     bindR (read_stream 1 s1) (\<lambda>(depth, s2).
     bindR (read_stream 4 s2) (\<lambda>(parent_fingerprint, s3).
     bindR (read_stream 4 s3) (\<lambda>(child_number, s4).
     bindR (read_stream CHAIN_LENGTH s4) (\<lambda>(chain_code, s5).
     bindR (read_stream (COORD_BYTES + 1) s5) (\<lambda>(key_data, s6).
     bindR (read_stream 4 s6) (\<lambda>(checksum, _).
       let preimage = version @ depth @ parent_fingerprint @ child_number @ chain_code @ key_data;
           calc_checksum = take 4 (hash256 H preimage)
       in bindR (guardR (calc_checksum = checksum) ValueError) (\<lambda>_.
            let key_data = (if key_data ! 0 = 0 then drop 1 key_data else key_data)
            in new_xkey key_data chain_code (be_val depth) parent_fingerprint (be_val child_number) version))))))))"

definition from_address :: "hashes \<Rightarrow> string \<Rightarrow> xkey result" where
  "from_address H addr = bindR (decode_base58 addr) (\<lambda>serial. from_serial H serial)"

text \<open>\<^verbatim>\<open>__eq__\<close> compares the serialisations, which may raise.\<close>

definition xkey_eq :: "hashes \<Rightarrow> xkey \<Rightarrow> xkey \<Rightarrow> bool result" where
  "xkey_eq H k k' = bindR (xkey_to_bytes H k) (\<lambda>b. bindR (xkey_to_bytes H k') (\<lambda>b'. Inr (b = b')))"

section \<open>Derivation\<close>

text \<open>\<^verbatim>\<open>PubKey(data).compressed()\<close> of a private key given by its bytes.\<close>

definition private_to_public :: "ecurve \<Rightarrow> bytes \<Rightarrow> bytes result" where
  "private_to_public E key_data = bindR (pubkey_new E (be_val key_data)) compressed"

definition fingerprint :: "ecurve \<Rightarrow> hashes \<Rightarrow> xkey \<Rightarrow> bytes result" where
  "fingerprint E H k =
     bindR (if is_private k then private_to_public E (xk_data k) else Inr (xk_data k)) (\<lambda>pubkey.
       Inr (take 4 (hash160 H pubkey)))"

text \<open>The message under the HMAC.\<close>

definition derivation_data :: "ecurve \<Rightarrow> xkey \<Rightarrow> int \<Rightarrow> bytes \<Rightarrow> bytes result" where
  "derivation_data E k index index_bytes =
     (if index \<ge> HARDENED_OFFSET then
        bindR (guardR (\<not> is_public k) ExtendedKeyError) (\<lambda>_. Inr (0x00 # xk_data k @ index_bytes))
      else
        bindR (if is_private k then private_to_public E (xk_data k) else Inr (xk_data k)) (\<lambda>pubkey_data.
          Inr (pubkey_data @ index_bytes)))"

text \<open>The key of the child: the tweak is added to the private key or, as a point, to the public one.\<close>

definition child_data :: "ecurve \<Rightarrow> xkey \<Rightarrow> int \<Rightarrow> bytes result" where
  "child_data E k tweak_int =
     (if is_private k then
        to_bytes_be COORD_BYTES ((be_val (xk_data k) + tweak_int) mod cv_order E)
      else
        bindR (from_compressed E (xk_data k)) (\<lambda>pubkey_pt.
        bindR (multiply_generator E tweak_int) (\<lambda>tweak_pt.
        bindR (add_points E pubkey_pt tweak_pt) (\<lambda>child_pubkey_pt.
        bindR (from_point E child_pubkey_pt) compressed))))"

text \<open>
  \<^verbatim>\<open>derive_child\<close> calls itself with the next index when the tweak is zero. It ends: from index \<open>2 ^ 32\<close> on the
  index does not fit into four bytes and \<^verbatim>\<open>to_bytes\<close> raises.
\<close>

function derive_child :: "ecurve \<Rightarrow> hashes \<Rightarrow> wallet_prims \<Rightarrow> xkey \<Rightarrow> int \<Rightarrow> xkey result" where
  "derive_child E H P k index =
     bindR (guardR (\<not> (is_public k \<and> index \<ge> HARDENED_OFFSET)) ExtendedKeyError) (\<lambda>_.
     bindR (to_bytes_be 4 index) (\<lambda>index_bytes.
     bindR (derivation_data E k index index_bytes) (\<lambda>data.
       let key_hash = hmac_sha512 P (xk_chain k) data;
           child_chain_code = drop CHAIN_LENGTH key_hash;
           tweak = take CHAIN_LENGTH key_hash;
           tweak_int = be_val tweak mod cv_order E
       in if tweak_int = 0 \<or> tweak_int \<ge> cv_order E then derive_child E H P k (index + 1)
          else bindR (child_data E k tweak_int) (\<lambda>child_key_data.
               bindR (fingerprint E H k) (\<lambda>parent.
                 new_xkey child_key_data child_chain_code (xk_depth k + 1) parent index (xk_version k))))))"
  by pat_completeness auto
termination
  by (relation "measure (\<lambda>(E, H, P, k, index). nat (2 ^ 32 - index))")
    (auto simp: to_bytes_be_def split: if_splits)

declare derive_child.simps [simp del]

definition get_pubkey :: "ecurve \<Rightarrow> xkey \<Rightarrow> xkey result" where
  "get_pubkey E k =
     (if is_public k then Inr k
      else bindR (private_to_public E (xk_data k)) (\<lambda>compressed_pubkey.
        new_xkey compressed_pubkey (xk_chain k) (xk_depth k) (xk_parent k) (xk_child k) (xk_version k)))"

section \<open>Well-formed keys\<close>

lemma new_xkey_Inr_iff [result_iff]:
  "new_xkey d c n p i v = Inr k \<longleftrightarrow> length p = 4 \<and> length c = 32
     \<and> k = \<lparr>xk_version = v, xk_depth = n, xk_parent = p, xk_child = i, xk_chain = c, xk_data = d\<rparr>"
  by (auto simp: new_xkey_def CHAIN_LENGTH_def bindR_Inr_iff)

definition xkey_wf :: "xkey \<Rightarrow> bool" where
  "xkey_wf k \<longleftrightarrow> length (xk_version k) = 4 \<and> length (xk_parent k) = 4 \<and> length (xk_chain k) = 32
     \<and> 0 \<le> xk_depth k \<and> 0 \<le> xk_child k \<and> xk_child k < 2 ^ 32
     \<and> (is_private k \<or> is_public k \<and> xk_data k ! 0 \<noteq> 0)"

lemma master_key_wf:
  assumes "mac_sizes P" "length version = 4"
  shows "\<exists>k. from_master_seed P seed version = Inr k \<and> xkey_wf k \<and> is_private k \<and> xk_depth k = 0"
proof -
  have "length (hmac_sha512 P SEED_KEY seed) = 64" using assms by (simp add: mac_sizes_def hmac_sha512_def)
  then show ?thesis using assms
    by (simp add: from_master_seed_def new_xkey_def Let_def CHAIN_LENGTH_def COORD_BYTES_def xkey_wf_def
        is_private_def)
qed

lemma compressed_Inr: "compressed pt = Inr b \<Longrightarrow> length b = 33 \<and> b ! 0 \<noteq> 0"
  by (auto simp: compressed_def Let_def bindR_Inr_iff to_bytes_be_Inr_iff split: option.splits if_splits)

lemma private_to_public_Inr: "private_to_public E d = Inr b \<Longrightarrow> length b = 33 \<and> b ! 0 \<noteq> 0"
  by (auto simp: private_to_public_def bindR_Inr_iff dest: compressed_Inr)

lemma fingerprint_length: "digest_sizes H \<Longrightarrow> fingerprint E H k = Inr b \<Longrightarrow> length b = 4"
  by (auto simp: fingerprint_def bindR_Inr_iff digest_lengths)

lemma child_data_Inr:
  assumes "child_data E k t = Inr d"
  shows "if is_private k then length d = 32 else length d = 33 \<and> d ! 0 \<noteq> 0"
  using assms
  by (auto simp: child_data_def COORD_BYTES_def bindR_Inr_iff to_bytes_be_Inr_iff dest: compressed_Inr
      split: if_splits)

text \<open>What a derived child is: an index from the asked one on, one level deeper, of the same kind.\<close>

lemma derive_child_Inr:
  assumes "derive_child E H P k index = Inr k'" and "digest_sizes H" "mac_sizes P" "xkey_wf k"
  shows "xkey_wf k' \<and> xk_depth k' = xk_depth k + 1 \<and> index \<le> xk_child k' \<and> 0 \<le> index
    \<and> xk_version k' = xk_version k \<and> is_private k' = is_private k
    \<and> fingerprint E H k = Inr (xk_parent k') \<and> (is_public k \<longrightarrow> xk_child k' < HARDENED_OFFSET)"
  using assms
proof (induction E H P k index rule: derive_child.induct)
  case (1 E H P k index)
  obtain ib dat where ib: "to_bytes_be 4 index = Inr ib" and dat: "derivation_data E k index ib = Inr dat"
    and pub: "\<not> (is_public k \<and> index \<ge> HARDENED_OFFSET)"
    using "1.prems"(1) by (subst (asm) derive_child.simps) (auto simp: bindR_Inr_iff)
  have range: "0 \<le> index" "index < 2 ^ 32" using ib by (auto simp: to_bytes_be_def split: if_splits)
  define kh where "kh = hmac_sha512 P (xk_chain k) dat"
  define t where "t = be_val (take CHAIN_LENGTH kh) mod cv_order E"
  have len: "length kh = 64" using "1.prems"(3) by (simp add: kh_def mac_sizes_def hmac_sha512_def)
  have unf: "derive_child E H P k index =
     (if t = 0 \<or> t \<ge> cv_order E then derive_child E H P k (index + 1)
      else bindR (child_data E k t) (\<lambda>child_key_data. bindR (fingerprint E H k) (\<lambda>parent.
         new_xkey child_key_data (drop CHAIN_LENGTH kh) (xk_depth k + 1) parent index (xk_version k))))"
    using ib dat pub by (subst derive_child.simps) (simp add: kh_def t_def Let_def)
  show ?case
  proof (cases "t = 0 \<or> t \<ge> cv_order E")
    case True
    then have "derive_child E H P k (index + 1) = Inr k'" using "1.prems"(1) unf by simp
    from "1.IH" [OF _ ib dat kh_def refl refl _ _ this "1.prems"(2-4)] pub True range
    show ?thesis by (auto simp: guardR_def kh_def t_def)
  next
    case False
    then obtain d p where d: "child_data E k t = Inr d" and p: "fingerprint E H k = Inr p"
      and k': "new_xkey d (drop CHAIN_LENGTH kh) (xk_depth k + 1) p index (xk_version k) = Inr k'"
      using "1.prems"(1) unf by (auto simp: bindR_Inr_iff)
    show ?thesis
      using k' p child_data_Inr [OF d] fingerprint_length [OF "1.prems"(2) p] range pub "1.prems"(4)
      by (auto simp: new_xkey_Inr_iff xkey_wf_def is_private_def is_public_def COORD_BYTES_def split: if_splits)
  qed
qed

lemma get_pubkey_Inr:
  assumes "get_pubkey E k = Inr k'" "xkey_wf k"
  shows "xkey_wf k' \<and> is_public k' \<and> xk_depth k' = xk_depth k \<and> xk_child k' = xk_child k
    \<and> xk_version k' = xk_version k"
  using assms
  by (auto simp: get_pubkey_def bindR_Inr_iff new_xkey_Inr_iff xkey_wf_def is_private_def is_public_def
      COORD_BYTES_def dest!: private_to_public_Inr split: if_splits)

section \<open>The text of a key\<close>

lemma xkey_to_bytes_deep: "255 < xk_depth k \<Longrightarrow> xkey_to_bytes H k = Inl OverflowError"
  by (simp add: xkey_to_bytes_def to_bytes_be_def Let_def)

lemma from_serial_to_bytes:
  assumes "xkey_wf k" "digest_sizes H" "xkey_to_bytes H k = Inr b"
  shows "from_serial H b = Inr k"
proof -
  define kd where "kd = (if is_private k then 0x00 # xk_data k else xk_data k)"
  obtain dep ch where dep: "to_bytes_be 1 (xk_depth k) = Inr dep" and ch: "to_bytes_be 4 (xk_child k) = Inr ch"
    and b: "b = (xk_version k @ dep @ xk_parent k @ ch @ xk_chain k @ kd)
       @ take 4 (hash256 H (xk_version k @ dep @ xk_parent k @ ch @ xk_chain k @ kd))"
    using assms(3) by (auto simp: xkey_to_bytes_def Let_def kd_def bindR_Inr_iff)
  have lens: "length dep = 1" "length ch = 4" "be_val dep = xk_depth k" "be_val ch = xk_child k"
    using dep ch by (auto simp: to_bytes_be_Inr_iff)
  have kd: "length kd = 33" "(if kd ! 0 = 0 then drop 1 kd else kd) = xk_data k"
    using assms(1) by (auto simp: kd_def xkey_wf_def is_private_def is_public_def COORD_BYTES_def)
  have cs: "length (take 4 (hash256 H x)) = 4" for x using digest_lengths(2) [OF assms(2)] by simp
  have wf: "length (xk_version k) = 4" "length (xk_parent k) = 4" "length (xk_chain k) = 32"
    using assms(1) by (auto simp: xkey_wf_def)
  have r4: "read_stream 4 (take 4 (hash256 H x)) = Inr (take 4 (hash256 H x), [])" for x
    using read_stream_append [OF cs, of x "[]"] by simp
  show ?thesis
    unfolding b from_serial_def
    using wf lens kd
    by (simp add: read_stream_append CHAIN_LENGTH_def COORD_BYTES_def r4 Let_def new_xkey_def)
qed

lemma xkey_address_eq: "xkey_address H k = bindR (xkey_to_bytes H k) (\<lambda>b. Inr (encode_base58 b))"
  by (simp add: xkey_address_def Let_def)

lemma xkey_text_round_trip:
  assumes "xkey_wf k" "digest_sizes H"
  shows "if xk_depth k \<le> 255 then \<exists>text. xkey_address H k = Inr text \<and> from_address H text = Inr k
    else xkey_address H k = Inl OverflowError"
proof (cases "xk_depth k \<le> 255")
  case True
  then obtain b where b: "xkey_to_bytes H k = Inr b"
    using assms(1) by (auto simp: xkey_to_bytes_def Let_def to_bytes_be_def xkey_wf_def)
  show ?thesis using True from_serial_to_bytes [OF assms b]
    by (simp add: xkey_address_eq b from_address_def decode_encode_base58)
qed (simp add: xkey_address_eq xkey_to_bytes_deep)

end
