(* ===== verification/Mnemonics.thy ===== *)
theory Mnemonics
  imports Extended_Keys
begin

unbundle bit_operations_syntax

text \<open>
  \<^verbatim>\<open>src/src/wallet/mnemonic.py\<close>: mnemonic phrases. The word list is the argument \<open>wordlist\<close> (the file
  \<^verbatim>\<open>src/src/data/wordlists/english.txt\<close> has 2048 distinct words) and the bytes of \<^verbatim>\<open>os.urandom\<close> are
  the argument \<open>entropy\<close>. The lemmas show that the phrases that validate are exactly those some entropy generates.
\<close>

section \<open>The code\<close>

text \<open>Entropy length in bytes, with the entries for bits, words and bits of the checksum.\<close>

definition MNEMONIC :: "(nat \<times> nat \<times> nat \<times> nat) list" where
  "MNEMONIC = [(16, 128, 12, 4), (20, 160, 15, 5), (24, 192, 18, 6), (28, 224, 21, 7), (32, 256, 24, 8)]"

definition WORD_BITS :: nat where "WORD_BITS = 11"
definition SEED_ITERATIONS :: int where "SEED_ITERATIONS = 2048"
definition DKLEN :: int where "DKLEN = 64"

definition mnemonic_row :: "nat \<Rightarrow> (nat \<times> nat \<times> nat) result" where
  "mnemonic_row bytelen =
     (case map_of MNEMONIC bytelen of None \<Rightarrow> Inl KeyError | Some row \<Rightarrow> Inr row)"

definition get_checksum_from_entropy :: "hashes \<Rightarrow> bytes \<Rightarrow> int result" where
  "get_checksum_from_entropy H entropy =
     (let entropy_hash_int = be_val (h_sha256 H entropy) in
      bindR (mnemonic_row (length entropy)) (\<lambda>(_, _, checksum_bits).
        Inr (drop_bit (256 - checksum_bits) entropy_hash_int)))"

text \<open>The words from the last one to the first.\<close>

fun phrase_loop :: "string list \<Rightarrow> nat \<Rightarrow> int \<Rightarrow> string list \<Rightarrow> string list result" where
  "phrase_loop wordlist 0 ent_check phrase = Inr phrase"
| "phrase_loop wordlist (Suc n) ent_check phrase =
     (let word_index = ent_check AND (push_bit WORD_BITS 1 - 1) in
      bindR (py_index wordlist word_index) (\<lambda>word.
        phrase_loop wordlist n (drop_bit WORD_BITS ent_check) (word # phrase)))"

definition generate_phrase_from_entropy :: "hashes \<Rightarrow> string list \<Rightarrow> bytes \<Rightarrow> string list result" where
  "generate_phrase_from_entropy H wordlist entropy =
     (let entropy_int = be_val entropy in
      bindR (get_checksum_from_entropy H entropy) (\<lambda>checksum_int.
      bindR (mnemonic_row (length entropy)) (\<lambda>(_, word_count, checksum_bitlen).
        let ent_check = push_bit checksum_bitlen entropy_int OR checksum_int
        in phrase_loop wordlist word_count ent_check [])))"

text \<open>\<^verbatim>\<open>list.index\<close>, with its \<^verbatim>\<open>ValueError\<close> as \<open>None\<close>: the code catches it and returns false.\<close>

fun word_position :: "string list \<Rightarrow> string \<Rightarrow> nat option" where
  "word_position [] w = None"
| "word_position (v # vs) w = (if v = w then Some 0 else map_option Suc (word_position vs w))"

fun phrase_value :: "string list \<Rightarrow> string list \<Rightarrow> int \<Rightarrow> int option" where
  "phrase_value wordlist [] ent_check = Some ent_check"
| "phrase_value wordlist (word # phrase) ent_check =
     (case word_position wordlist word of None \<Rightarrow> None
      | Some word_index \<Rightarrow>
          phrase_value wordlist phrase (push_bit WORD_BITS ent_check OR int word_index))"

definition bytelen_of_words :: "nat \<Rightarrow> nat option" where
  "bytelen_of_words word_count = map_option fst (find (\<lambda>(_, _, words, _). words = word_count) MNEMONIC)"

definition validate_phrase :: "hashes \<Rightarrow> string list \<Rightarrow> string list \<Rightarrow> bool result" where
  "validate_phrase H wordlist phrase =
     (case bytelen_of_words (length phrase) of None \<Rightarrow> Inr False
      | Some entropy_bytelen \<Rightarrow>
          bindR (mnemonic_row entropy_bytelen) (\<lambda>(_, _, checksum_bitlen).
            case phrase_value wordlist phrase 0 of None \<Rightarrow> Inr False
            | Some ent_check \<Rightarrow>
                let checksum_mask = push_bit checksum_bitlen 1 - 1;
                    checksum = ent_check AND checksum_mask;
                    entropy = drop_bit checksum_bitlen ent_check
                in bindR (to_bytes_be entropy_bytelen entropy) (\<lambda>b.
                   bindR (get_checksum_from_entropy H b) (\<lambda>calc_checksum.
                     Inr (calc_checksum = checksum)))))"

text \<open>
  The constructor. A given phrase is validated, but a phrase that fails is only reported with \<^verbatim>\<open>print\<close> and
  kept; without a phrase one is generated from the \<open>entropy\<close> drawn.
\<close>

definition mnemonic_new :: "hashes \<Rightarrow> string list \<Rightarrow> string list option \<Rightarrow> nat \<Rightarrow> bytes \<Rightarrow> string list result" where
  "mnemonic_new H wordlist phrase entropy_bytelen entropy =
     bindR (guardR (entropy_bytelen \<in> fst ` set MNEMONIC) WalletError) (\<lambda>_.
       case phrase of
         Some phrase \<Rightarrow> bindR (validate_phrase H wordlist phrase) (\<lambda>_. Inr phrase)
       | None \<Rightarrow> generate_phrase_from_entropy H wordlist entropy)"

definition to_seed :: "wallet_prims \<Rightarrow> string list \<Rightarrow> string \<Rightarrow> bytes" where
  "to_seed P phrase passphrase = pbkdf2 P phrase passphrase SEED_ITERATIONS DKLEN"

section \<open>Groups of eleven bits\<close>

text \<open>The digits to base 2048, most significant first, and the value they have.\<close>

fun digits2048 :: "nat \<Rightarrow> int \<Rightarrow> nat list" where
  "digits2048 0 v = []"
| "digits2048 (Suc n) v = digits2048 n (v div 2048) @ [nat (v mod 2048)]"

definition value2048 :: "int \<Rightarrow> nat list \<Rightarrow> int" where
  "value2048 v ds = foldl (\<lambda>a d. 2048 * a + int d) v ds"

lemma value2048_simps [simp]:
  "value2048 v [] = v" "value2048 v (d # ds) = value2048 (2048 * v + int d) ds"
  "value2048 v (ds @ [d]) = 2048 * value2048 v ds + int d"
  by (simp_all add: value2048_def)

lemma digits2048_length [simp]: "length (digits2048 n v) = n"
  by (induction n arbitrary: v) auto

lemma digits2048_range: "d \<in> set (digits2048 n v) \<Longrightarrow> d < 2048"
  by (induction n arbitrary: v) (auto simp: nat_less_iff)

lemma value_digits2048: "0 \<le> v \<Longrightarrow> v < 2048 ^ n \<Longrightarrow> value2048 0 (digits2048 n v) = v"
proof (induction n arbitrary: v)
  case (Suc n)
  have "v div 2048 < 2048 ^ n" using Suc.prems by (simp add: div_less_iff_less_mult)
  moreover have "0 \<le> v div 2048" using Suc.prems by simp
  ultimately have "value2048 0 (digits2048 n (v div 2048)) = v div 2048" by (rule Suc.IH [rotated])
  then show ?case by simp
qed simp

lemma value2048_range:
  "\<forall>d \<in> set ds. d < 2048 \<Longrightarrow> 0 \<le> value2048 0 ds \<and> value2048 0 ds < 2048 ^ length ds"
proof (induction ds rule: rev_induct)
  case (snoc d ds)
  then have "0 \<le> value2048 0 ds" "value2048 0 ds < 2048 ^ length ds" "int d < 2048" by auto
  then show ?case by simp
qed simp

lemma digits_value2048: "\<forall>d \<in> set ds. d < 2048 \<Longrightarrow> digits2048 (length ds) (value2048 0 ds) = ds"
proof (induction ds rule: rev_induct)
  case (snoc d ds)
  then have "(2048 * value2048 0 ds + int d) div 2048 = value2048 0 ds" "int d mod 2048 = int d" by auto
  with snoc show ?case by simp
qed simp

lemma div_below: "0 < q \<Longrightarrow> m < n * q \<Longrightarrow> m div q < (n :: int)"
proof (rule ccontr)
  assume a: "0 < q" "m < n * q" "\<not> m div q < n"
  then have "n * q \<le> m div q * q" by (intro mult_right_mono) auto
  also have "\<dots> \<le> m" using a(1) div_mult_mod_eq [of m q] pos_mod_sign [of q m] by linarith
  finally show False using a(2) by simp
qed

lemma power_256: "(256 :: int) ^ n = 2 ^ (8 * n)" and power_2048: "(2048 :: int) ^ n = 2 ^ (11 * n)"
  by (simp_all add: power_mult)

lemma low_bits: "(v :: int) AND (push_bit n 1 - 1) = v mod 2 ^ n"
proof -
  have "push_bit n 1 - 1 = (mask n :: int)" by (simp add: push_bit_eq_mult mask_eq_exp_minus_1)
  then show ?thesis by (simp flip: take_bit_eq_mask add: take_bit_eq_mod)
qed

lemma low_bits_power: "(v :: int) AND (2 ^ n - 1) = v mod 2 ^ n"
  using low_bits [of v n] by (simp add: push_bit_eq_mult)

lemma append_bits:
  assumes "0 \<le> c" "c < 2 ^ n"
  shows "push_bit n v OR c = v * 2 ^ n + (c :: int)"
proof -
  have "take_bit n c = c" using assms by (simp add: take_bit_int_eq_self)
  then show ?thesis
    using concat_bit_eq [of n c v] by (simp add: concat_bit_def push_bit_eq_mult or.commute add.commute)
qed


section \<open>Phrases and their values\<close>

lemma word_position_Some: "word_position ws w = Some i \<Longrightarrow> i < length ws \<and> ws ! i = w"
  by (induction ws arbitrary: i) (auto split: if_splits)

lemma word_position_nth: "distinct ws \<Longrightarrow> i < length ws \<Longrightarrow> word_position ws (ws ! i) = Some i"
  by (induction ws arbitrary: i) (auto simp: nth_Cons split: nat.split)

definition good_wordlist :: "string list \<Rightarrow> bool" where
  "good_wordlist wordlist \<longleftrightarrow> length wordlist = 2048 \<and> distinct wordlist"

lemma phrase_loop_digits:
  assumes "length wordlist = 2048" "0 \<le> v"
  shows "phrase_loop wordlist n v acc = Inr (map ((!) wordlist) (digits2048 n v) @ acc)"
  using assms(2)
proof (induction n arbitrary: v acc)
  case (Suc n)
  have "v AND (push_bit WORD_BITS 1 - 1) = v mod 2048"
    using low_bits [of v WORD_BITS] by (simp add: WORD_BITS_def)
  moreover have "py_index wordlist (v mod 2048) = Inr (wordlist ! nat (v mod 2048))"
    using assms(1) by (simp add: py_index_def)
  moreover have "drop_bit WORD_BITS v = v div 2048" by (simp add: drop_bit_eq_div WORD_BITS_def)
  ultimately show ?case using Suc.IH [of "v div 2048"] Suc.prems by (simp add: Let_def)
qed simp

lemma phrase_value_digits:
  assumes "good_wordlist wordlist" "\<forall>d \<in> set ds. d < 2048" "0 \<le> v"
  shows "phrase_value wordlist (map ((!) wordlist) ds) v = Some (value2048 v ds)"
  using assms(2,3)
proof (induction ds arbitrary: v)
  case (Cons d ds)
  have "push_bit WORD_BITS v OR int d = 2048 * v + int d"
    using append_bits [of "int d" 11 v] Cons.prems by (simp add: WORD_BITS_def)
  then show ?case using Cons assms(1) word_position_nth [of wordlist d] by (simp add: good_wordlist_def)
qed simp

lemma phrase_value_SomeD:
  assumes "length wordlist = 2048" "phrase_value wordlist phrase v = Some w" "0 \<le> v"
  shows "\<exists>ds. (\<forall>d \<in> set ds. d < 2048) \<and> phrase = map ((!) wordlist) ds \<and> w = value2048 v ds"
  using assms(2,3)
proof (induction phrase arbitrary: v)
  case Nil
  then show ?case by (intro exI [of _ "[]"]) simp
next
  case (Cons word phrase)
  then obtain i where i: "word_position wordlist word = Some i"
    and rec: "phrase_value wordlist phrase (push_bit WORD_BITS v OR int i) = Some w"
    by (auto split: option.splits)
  from word_position_Some [OF i] assms(1) have lt: "i < 2048" "wordlist ! i = word" by auto
  then have e: "push_bit WORD_BITS v OR int i = 2048 * v + int i"
    using append_bits [of "int i" 11 v] by (simp add: WORD_BITS_def)
  from Cons.IH [of "2048 * v + int i"] rec Cons.prems(2) obtain ds where
    "\<forall>d \<in> set ds. d < 2048" "phrase = map ((!) wordlist) ds" "w = value2048 (2048 * v + int i) ds"
    by (auto simp: e)
  with lt show ?case by (intro exI [of _ "i # ds"]) simp
qed

section \<open>Rows of the table\<close>

definition mnemonic_sizes :: "nat \<Rightarrow> nat \<Rightarrow> nat \<Rightarrow> bool" where
  "mnemonic_sizes bytelen words cs \<longleftrightarrow> (\<exists>bits. (bytelen, bits, words, cs) \<in> set MNEMONIC)"

lemma mnemonic_sizes_iff: "mnemonic_sizes bytelen words cs \<longleftrightarrow>
    (bytelen, words, cs) \<in> {(16, 12, 4), (20, 15, 5), (24, 18, 6), (28, 21, 7), (32, 24, 8)}"
  by (auto simp: mnemonic_sizes_def MNEMONIC_def)

lemma mnemonic_rows:
  assumes "mnemonic_sizes bytelen words cs"
  shows "\<exists>bits. mnemonic_row bytelen = Inr (bits, words, cs)" "bytelen_of_words words = Some bytelen"
    "11 * words = 8 * bytelen + cs" "cs \<le> 8"
  using assms by (auto simp: mnemonic_sizes_iff mnemonic_row_def MNEMONIC_def bytelen_of_words_def)

lemma bytelen_of_words_Some: "bytelen_of_words words = Some bytelen \<Longrightarrow> \<exists>cs. mnemonic_sizes bytelen words cs"
  by (auto simp: bytelen_of_words_def MNEMONIC_def mnemonic_sizes_iff split: if_splits)

lemma allowed_lengths: "n \<in> fst ` set MNEMONIC \<longleftrightarrow> (\<exists>words cs. mnemonic_sizes n words cs)"
  by (auto simp: MNEMONIC_def mnemonic_sizes_iff)

section \<open>The phrases that validate\<close>

definition checksum_of :: "hashes \<Rightarrow> nat \<Rightarrow> bytes \<Rightarrow> int" where
  "checksum_of H cs entropy = be_val (h_sha256 H entropy) div 2 ^ (256 - cs)"

lemma entropy_checksum_range:
  assumes "digest_sizes H" "cs \<le> 8"
  shows "0 \<le> checksum_of H cs entropy" "checksum_of H cs entropy < 2 ^ cs"
proof -
  have "be_val (h_sha256 H entropy) < 256 ^ 32"
    using be_val_bound [of "h_sha256 H entropy"] digest_lengths(1) [OF assms(1)] by simp
  also have "(256 :: int) ^ 32 = 2 ^ cs * 2 ^ (256 - cs)"
    using assms(2) by (simp add: power_256 flip: power_add)
  finally show "checksum_of H cs entropy < 2 ^ cs"
    unfolding checksum_of_def by (rule div_below [rotated]) simp
qed (simp add: checksum_of_def pos_imp_zdiv_nonneg_iff)

lemma checksum_eq:
  assumes "mnemonic_sizes (length entropy) words cs"
  shows "get_checksum_from_entropy H entropy = Inr (checksum_of H cs entropy)"
  using mnemonic_rows(1) [OF assms]
  by (auto simp: get_checksum_from_entropy_def checksum_of_def drop_bit_eq_div)

lemma generate_phrase_eq:
  assumes "good_wordlist wordlist" "digest_sizes H" "mnemonic_sizes (length entropy) words cs"
  shows "generate_phrase_from_entropy H wordlist entropy =
    Inr (map ((!) wordlist) (digits2048 words (be_val entropy * 2 ^ cs + checksum_of H cs entropy)))"
proof -
  note cr = entropy_checksum_range [OF assms(2) mnemonic_rows(4) [OF assms(3)]]
  have "0 \<le> be_val entropy * 2 ^ cs + checksum_of H cs entropy" using cr by simp
  then show ?thesis
    using mnemonic_rows(1) [OF assms(3)] assms(1)
    by (auto simp: generate_phrase_from_entropy_def checksum_eq [OF assms(3)] append_bits [OF cr] Let_def
        phrase_loop_digits good_wordlist_def)
qed


lemma generated_value_range:
  assumes "digest_sizes H" "mnemonic_sizes (length entropy) words cs"
  shows "0 \<le> be_val entropy * 2 ^ cs + checksum_of H cs entropy"
    "be_val entropy * 2 ^ cs + checksum_of H cs entropy < 2048 ^ words"
proof -
  note r = mnemonic_rows(3,4) [OF assms(2)]
  note cr = entropy_checksum_range [OF assms(1) r(2), of entropy]
  have "be_val entropy + 1 \<le> 256 ^ length entropy" using be_val_bound [of entropy] by linarith
  then have "(be_val entropy + 1) * 2 ^ cs \<le> 256 ^ length entropy * 2 ^ cs" by (rule mult_right_mono) simp
  also have "(256 :: int) ^ length entropy * 2 ^ cs = 2 ^ (11 * words)"
    using r(1) by (simp add: power_256 power_add)
  also have "\<dots> = (2048 :: int) ^ words" by (simp only: power_2048)
  finally show "be_val entropy * 2 ^ cs + checksum_of H cs entropy < 2048 ^ words"
    using cr by (simp add: distrib_right)
  show "0 \<le> be_val entropy * 2 ^ cs + checksum_of H cs entropy" using cr by simp
qed

text \<open>What \<^verbatim>\<open>validate_phrase\<close> computes for a phrase that spells digits.\<close>

lemma validate_digits:
  assumes "good_wordlist wordlist" "mnemonic_sizes bytelen words cs"
    and "length ds = words" "\<forall>d \<in> set ds. d < 2048"
  shows "\<exists>entropy. length entropy = bytelen \<and> be_val entropy = value2048 0 ds div 2 ^ cs
    \<and> validate_phrase H wordlist (map ((!) wordlist) ds) =
        Inr (checksum_of H cs entropy = value2048 0 ds mod 2 ^ cs)"
proof -
  note r = mnemonic_rows [OF assms(2)]
  define v where "v = value2048 0 ds"
  have v: "0 \<le> v" "v < 2048 ^ words" using value2048_range [OF assms(4)] assms(3) by (simp_all add: v_def)
  have "(2048 :: int) ^ words = 256 ^ bytelen * 2 ^ cs"
    using r(3) by (simp only: power_256 power_2048 power_add)
  then have "v div 2 ^ cs < 256 ^ bytelen" using v(2) by (intro div_below) simp_all
  then obtain b where b: "to_bytes_be bytelen (v div 2 ^ cs) = Inr b"
    using v(1) pos_imp_zdiv_nonneg_iff [of "2 ^ cs" v] by (simp add: to_bytes_be_def)
  then have len: "length b = bytelen" "be_val b = v div 2 ^ cs" by (auto simp: to_bytes_be_Inr_iff)
  have "validate_phrase H wordlist (map ((!) wordlist) ds) = Inr (checksum_of H cs b = v mod 2 ^ cs)"
    using r(1,2) b assms(3) checksum_eq [of b words cs H] assms(2) len(1)
      phrase_value_digits [OF assms(1,4), of 0]
    by (auto simp: validate_phrase_def Let_def low_bits_power drop_bit_eq_div v_def)
  with len show ?thesis by (auto simp: v_def)
qed

lemma generated_validates:
  assumes "good_wordlist wordlist" "digest_sizes H" "mnemonic_sizes (length entropy) words cs"
    and "generate_phrase_from_entropy H wordlist entropy = Inr phrase"
  shows "validate_phrase H wordlist phrase = Inr True" "length phrase = words"
proof -
  define v where "v = be_val entropy * 2 ^ cs + checksum_of H cs entropy"
  note cr = entropy_checksum_range [OF assms(2) mnemonic_rows(4) [OF assms(3)], of entropy]
  have v: "value2048 0 (digits2048 words v) = v"
    by (rule value_digits2048) (use generated_value_range [OF assms(2,3)] in \<open>simp_all add: v_def\<close>)
  have dm: "v div 2 ^ cs = be_val entropy" "v mod 2 ^ cs = checksum_of H cs entropy"
    using cr by (simp_all add: v_def)
  have p: "phrase = map ((!) wordlist) (digits2048 words v)"
    using generate_phrase_eq [OF assms(1,2,3)] assms(4) by (simp add: v_def)
  then show "length phrase = words" by simp
  obtain e where e: "length e = length entropy" "be_val e = be_val entropy"
    "validate_phrase H wordlist phrase = Inr (checksum_of H cs e = checksum_of H cs entropy)"
    using validate_digits [OF assms(1,3), of "digits2048 words v" H] digits2048_range
    by (auto simp: p v dm)
  then have "e = entropy" by (metis to_bytes_be_Inr_iff sum.inject(2))
  with e(3) show "validate_phrase H wordlist phrase = Inr True" by simp
qed

lemma validated_generated:
  assumes "good_wordlist wordlist" "digest_sizes H" "validate_phrase H wordlist phrase = Inr True"
  shows "\<exists>entropy words cs. mnemonic_sizes (length entropy) words cs
    \<and> generate_phrase_from_entropy H wordlist entropy = Inr phrase"
proof -
  from assms(3) obtain bytelen w where bl: "bytelen_of_words (length phrase) = Some bytelen"
    and w: "phrase_value wordlist phrase 0 = Some w"
    by (auto simp: validate_phrase_def Let_def bindR_Inr_iff split: option.splits prod.splits)
  obtain cs where sz: "mnemonic_sizes bytelen (length phrase) cs" using bytelen_of_words_Some [OF bl] by blast
  obtain ds where ds: "\<forall>d \<in> set ds. d < 2048" "phrase = map ((!) wordlist) ds"
    using phrase_value_SomeD [OF _ w] assms(1) by (auto simp: good_wordlist_def)
  define v where "v = value2048 0 ds"
  obtain e where e: "length e = bytelen" "be_val e = v div 2 ^ cs" "checksum_of H cs e = v mod 2 ^ cs"
    using validate_digits [OF assms(1) sz _ ds(1), of H] assms(3) ds(2) by (auto simp: v_def)
  then have "be_val e * 2 ^ cs + checksum_of H cs e = v" by (simp only: div_mult_mod_eq)
  then have "generate_phrase_from_entropy H wordlist e = Inr phrase"
    using generate_phrase_eq [OF assms(1,2), of e "length phrase" cs] sz e(1) ds digits_value2048 [OF ds(1)]
    by (simp add: v_def)
  with sz e(1) show ?thesis by blast
qed

text \<open>
  C24: A phrase passes \<^verbatim>\<open>validate_phrase\<close> exactly when it is the phrase \<^verbatim>\<open>Mnemonic\<close> generates from some
  entropy of an allowed length, and every such entropy generates a phrase: the two routines, one taking
  groups of eleven bits from the end and the other putting indices together and cutting off the checksum,
  are inverse to each other for every list of 2048 distinct words.
\<close>

theorem valid_phrases_are_generated:
  assumes "good_wordlist wordlist" "digest_sizes H"
  shows "(validate_phrase H wordlist phrase = Inr True \<longleftrightarrow>
      (\<exists>entropy. length entropy \<in> fst ` set MNEMONIC
        \<and> generate_phrase_from_entropy H wordlist entropy = Inr phrase))
    \<and> (\<forall>entropy. length entropy \<in> fst ` set MNEMONIC \<longrightarrow>
        (\<exists>generated. generate_phrase_from_entropy H wordlist entropy = Inr generated))"
proof (intro conjI allI impI)
  show "validate_phrase H wordlist phrase = Inr True \<longleftrightarrow>
      (\<exists>entropy. length entropy \<in> fst ` set MNEMONIC
        \<and> generate_phrase_from_entropy H wordlist entropy = Inr phrase)"
    using validated_generated [OF assms] generated_validates(1) [OF assms] unfolding allowed_lengths by meson
  show "\<exists>generated. generate_phrase_from_entropy H wordlist entropy = Inr generated"
    if "length entropy \<in> fst ` set MNEMONIC" for entropy
    using that generate_phrase_eq [OF assms] unfolding allowed_lengths by meson
qed

definition pair_words :: "string list" where
  "pair_words = map (\<lambda>i. [char_of (i div 256), char_of (i mod 256)]) [0 ..< 2048 :: nat]"

lemma pair_words_good: "good_wordlist pair_words"
proof -
  have "i = j" if "i < 2048" "j < 2048"
    and c: "(char_of (i div 256) :: char) = char_of (j div 256)" "(char_of (i mod 256) :: char) = char_of (j mod 256)"
    for i j :: nat
  proof -
    have "i div 256 mod 256 = j div 256 mod 256" "i mod 256 mod 256 = j mod 256 mod 256"
      using c by (metis of_char_of)+
    with that(1,2) have "i div 256 = j div 256" "i mod 256 = j mod 256" by auto
    then show ?thesis by (metis div_mult_mod_eq)
  qed
  then show ?thesis by (auto simp: good_wordlist_def pair_words_def distinct_map intro!: inj_onI)
qed

lemma valid_phrases_are_generated_witness:
  "\<exists>phrase. generate_phrase_from_entropy pad_hashes pair_words (replicate 16 7) = Inr phrase
    \<and> validate_phrase pad_hashes pair_words phrase = Inr True"
proof -
  have "length (replicate 16 (7 :: byte)) \<in> fst ` set MNEMONIC" by (simp add: MNEMONIC_def)
  with valid_phrases_are_generated [OF pair_words_good pad_hashes_digest_sizes] show ?thesis by blast
qed

end
