(* ===== verification/Wallets.thy ===== *)
theory Wallets
  imports Mnemonics Script_Keys State_Result "HOL-Library.AList"
begin

text \<open>
  The wallet: \<^verbatim>\<open>src/src/wallet/derivation.py\<close>, \<^verbatim>\<open>src/src/wallet/address_book.py\<close>,
  \<^verbatim>\<open>src/src/wallet/wallet.py\<close> and \<^verbatim>\<open>src/src/wallet/tx_builder.py\<close>. The book is Python's dictionary: a list of
  key and entry in the order of insertion, where an update keeps its place. Texts are ASCII.
\<close>

section \<open>Python's integers and bytes as text\<close>

definition ascii_space :: "char \<Rightarrow> bool" where
  "ascii_space c \<longleftrightarrow> (of_char c :: nat) \<in> {9, 10, 11, 12, 13, 32}"

definition digit_value :: "char \<Rightarrow> nat option" where
  "digit_value c = (let n = of_char c :: nat in if 48 \<le> n \<and> n \<le> 57 then Some (n - 48) else None)"

text \<open>
  \<^verbatim>\<open>str(n)\<close> and \<^verbatim>\<open>int(text)\<close>: surrounding white space, one sign, digits, single underscores between digits.
  The interpreter's limit on the number of digits is left out.
\<close>

definition str_int :: "int \<Rightarrow> string" where
  "str_int i = (if i < 0 then CHR ''-'' # dec_str (nat (- i)) else dec_str (nat i))"

fun parse_digits :: "bool \<Rightarrow> string \<Rightarrow> int \<Rightarrow> int result" where
  "parse_digits after_digit [] acc = (if after_digit then Inr acc else Inl ValueError)"
| "parse_digits after_digit (c # cs) acc =
     (case digit_value c of
        Some d \<Rightarrow> parse_digits True cs (acc * 10 + int d)
      | None \<Rightarrow> if c = CHR ''_'' \<and> after_digit then parse_digits False cs acc else Inl ValueError)"

definition strip_text :: "string \<Rightarrow> string" where
  "strip_text s = rev (dropWhile ascii_space (rev (dropWhile ascii_space s)))"

definition py_int :: "string \<Rightarrow> int result" where
  "py_int s =
     (case strip_text s of
        [] \<Rightarrow> Inl ValueError
      | c # cs \<Rightarrow>
          if c = CHR ''-'' then bindR (parse_digits False cs 0) (\<lambda>v. Inr (- v))
          else if c = CHR ''+'' then parse_digits False cs 0
          else parse_digits False (c # cs) 0)"

text \<open>\<^verbatim>\<open>text.split(sep)\<close>.\<close>

fun split_text :: "char \<Rightarrow> string \<Rightarrow> string list" where
  "split_text sep [] = [[]]"
| "split_text sep (c # cs) =
     (if c = sep then [] # split_text sep cs
      else (c # hd (split_text sep cs)) # tl (split_text sep cs))"

text \<open>\<^verbatim>\<open>bytes.hex()\<close> and \<^verbatim>\<open>bytes.fromhex(text)\<close>, which skips white space between bytes.\<close>

definition hex_digit_value :: "char \<Rightarrow> nat option" where
  "hex_digit_value c =
     (let n = of_char c :: nat in
      if 48 \<le> n \<and> n \<le> 57 then Some (n - 48)
      else if 97 \<le> n \<and> n \<le> 102 then Some (n - 87)
      else if 65 \<le> n \<and> n \<le> 70 then Some (n - 55) else None)"

fun bytes_fromhex :: "string \<Rightarrow> bytes result" where
  "bytes_fromhex [] = Inr []"
| "bytes_fromhex [c] = (if ascii_space c then Inr [] else Inl ValueError)"
| "bytes_fromhex (c # d # cs) =
     (if ascii_space c then bytes_fromhex (d # cs)
      else case (hex_digit_value c, hex_digit_value d) of
          (Some high, Some low) \<Rightarrow>
            bindR (bytes_fromhex cs) (\<lambda>b. Inr (word_of_nat (16 * high + low) # b))
        | _ \<Rightarrow> Inl ValueError)"

section \<open>Derivation paths: derivation.py\<close>

datatype derivation_path = BIP44 | BIP49 | BIP84 | BIP86

fun purpose :: "derivation_path \<Rightarrow> int" where
  "purpose BIP44 = 44" | "purpose BIP49 = 49" | "purpose BIP84 = 84" | "purpose BIP86 = 86"

fun bip_name :: "derivation_path \<Rightarrow> string" where
  "bip_name BIP44 = ''BIP44''" | "bip_name BIP49 = ''BIP49''"
| "bip_name BIP84 = ''BIP84''" | "bip_name BIP86 = ''BIP86''"

text \<open>\<^verbatim>\<open>DerivationPath[name]\<close>.\<close>

definition bip_of_name :: "string \<Rightarrow> derivation_path result" where
  "bip_of_name s =
     (case find (\<lambda>b. bip_name b = s) [BIP44, BIP49, BIP84, BIP86] of
        None \<Rightarrow> Inl KeyError | Some b \<Rightarrow> Inr b)"

definition derivation_text :: "derivation_path \<Rightarrow> int \<Rightarrow> int \<Rightarrow> int \<Rightarrow> string" where
  "derivation_text bip account change index =
     ''m/'' @ str_int (purpose bip) @ [CHR 0x27] @ ''/0'' @ [CHR 0x27] @ ''/'' @ str_int account @ [CHR 0x27] @ ''/''
       @ str_int change @ ''/'' @ str_int index"

text \<open>The address of a public key: \<^verbatim>\<open>P2WPKH_Key\<close> takes the hash of a key, \<^verbatim>\<open>P2TR_Key\<close> an x coordinate.\<close>

definition derivation_address :: "hashes \<Rightarrow> derivation_path \<Rightarrow> bytes \<Rightarrow> string result" where
  "derivation_address H bip pubkey =
     (case bip of
        BIP44 \<Rightarrow> address H (p2pkh_key H pubkey)
      | BIP49 \<Rightarrow> bindR (p2wpkh_key pubkey) (\<lambda>inner. bindR (p2sh_from_data H (sc_bytes inner)) (address H))
      | BIP84 \<Rightarrow> bindR (p2wpkh_key pubkey) (address H)
      | BIP86 \<Rightarrow> bindR (p2tr_key H pubkey []) (address H))"

section \<open>The address book: address\_book.py\<close>

text \<open>The outpoint of an entry is bytes, or the text a restored book has in its place.\<close>

datatype outpoint_value = OutBytes bytes | OutText string

record wallet_utxo =
  wu_outpoint :: outpoint_value
  wu_amount :: int
  wu_script :: bytes
  wu_height :: "int option"
  wu_coinbase :: bool

record derived =
  da_bip :: derivation_path
  da_account :: int
  da_change :: int
  da_index :: int
  da_address :: string
  da_pubkey :: bytes
  da_used :: bool
  da_utxos :: "wallet_utxo list"

definition GAP_LIMIT :: int where "GAP_LIMIT = 20"

record wallet_book =
  wb_entries :: "(string \<times> derived) list"
  wb_gap_limit :: int

definition new_book :: "int \<Rightarrow> wallet_book" where
  "new_book gap_limit = \<lparr>wb_entries = [], wb_gap_limit = gap_limit\<rparr>"

definition derived_path :: "derived \<Rightarrow> string" where
  "derived_path d = derivation_text (da_bip d) (da_account d) (da_change d) (da_index d)"

definition derived_balance :: "derived \<Rightarrow> int" where
  "derived_balance d = sum_list (map wu_amount (da_utxos d))"

definition wbook_add :: "derived \<Rightarrow> wallet_book \<Rightarrow> wallet_book" where
  "wbook_add d b = b\<lparr>wb_entries := AList.update (da_address d) d (wb_entries b)\<rparr>"

definition wbook_contains :: "wallet_book \<Rightarrow> string \<Rightarrow> bool" where
  "wbook_contains b a \<longleftrightarrow> map_of (wb_entries b) a \<noteq> None"

definition wbook_size :: "wallet_book \<Rightarrow> int" where
  "wbook_size b = int (length (wb_entries b))"

definition wbook_remove :: "string \<Rightarrow> wallet_book \<Rightarrow> wallet_book result" where
  "wbook_remove a b =
     bindR (guardR (wbook_contains b a) KeyError) (\<lambda>_.
       Inr (b\<lparr>wb_entries := AList.delete a (wb_entries b)\<rparr>))"

definition wbook_get :: "wallet_book \<Rightarrow> string \<Rightarrow> derived result" where
  "wbook_get b a = (case map_of (wb_entries b) a of None \<Rightarrow> Inl KeyError | Some d \<Rightarrow> Inr d)"

definition change_derived :: "string \<Rightarrow> (derived \<Rightarrow> derived) \<Rightarrow> wallet_book \<Rightarrow> wallet_book" where
  "change_derived a f b = b\<lparr>wb_entries := AList.map_entry a f (wb_entries b)\<rparr>"

definition wbook_mark_used :: "string \<Rightarrow> wallet_book \<Rightarrow> wallet_book result" where
  "wbook_mark_used a b = bindR (wbook_get b a) (\<lambda>_. Inr (change_derived a (da_used_update (\<lambda>_. True)) b))"

definition wbook_update_utxos :: "string \<Rightarrow> wallet_utxo list \<Rightarrow> wallet_book \<Rightarrow> wallet_book result" where
  "wbook_update_utxos a utxos b =
     bindR (wbook_get b a) (\<lambda>_.
       Inr (change_derived a (\<lambda>d. d\<lparr>da_utxos := utxos, da_used := (if utxos \<noteq> [] then True else da_used d)\<rparr>) b))"

definition on_branch :: "derivation_path \<Rightarrow> int \<Rightarrow> int \<Rightarrow> derived \<Rightarrow> bool" where
  "on_branch bip change account d \<longleftrightarrow> da_bip d = bip \<and> da_change d = change \<and> da_account d = account"

definition wbook_get_unused :: "wallet_book \<Rightarrow> derivation_path \<Rightarrow> int \<Rightarrow> int \<Rightarrow> derived list" where
  "wbook_get_unused b bip change account =
     filter (\<lambda>d. on_branch bip change account d \<and> \<not> da_used d) (map snd (wb_entries b))"

definition wbook_all_utxos :: "wallet_book \<Rightarrow> wallet_utxo list" where
  "wbook_all_utxos b = concat (map da_utxos (map snd (wb_entries b)))"

definition wbook_signing_path :: "wallet_book \<Rightarrow> string \<Rightarrow> string result" where
  "wbook_signing_path b a = bindR (wbook_get b a) (\<lambda>d. Inr (derived_path d))"

definition wbook_next_index :: "wallet_book \<Rightarrow> derivation_path \<Rightarrow> int \<Rightarrow> int \<Rightarrow> int" where
  "wbook_next_index b bip change account =
     (let indices = map da_index (filter (on_branch bip change account) (map snd (wb_entries b)))
      in if indices \<noteq> [] then foldl max (hd indices) (tl indices) + 1 else 0)"

text \<open>\<^verbatim>\<open>sorted(..., reverse=True)\<close> keeps the order of entries with the same index.\<close>

definition wbook_gap_count :: "wallet_book \<Rightarrow> derivation_path \<Rightarrow> int \<Rightarrow> int \<Rightarrow> int" where
  "wbook_gap_count b bip change account =
     (let entries = sort_key (\<lambda>d. - da_index d) (filter (on_branch bip change account) (map snd (wb_entries b)))
      in int (length (takeWhile (\<lambda>d. \<not> da_used d) entries)))"

definition wbook_stop_scanning :: "wallet_book \<Rightarrow> derivation_path \<Rightarrow> int \<Rightarrow> int \<Rightarrow> bool" where
  "wbook_stop_scanning b bip change account \<longleftrightarrow> wbook_gap_count b bip change account \<ge> wb_gap_limit b"

definition wbook_balance :: "wallet_book \<Rightarrow> int" where
  "wbook_balance b = sum_list (map (derived_balance \<circ> snd) (wb_entries b))"

definition add_to_bip :: "(string \<times> int) list \<Rightarrow> derived \<Rightarrow> (string \<times> int) list" where
  "add_to_bip totals d =
     (let key = bip_name (da_bip d);
          old = (case map_of totals key of None \<Rightarrow> 0 | Some n \<Rightarrow> n)
      in AList.update key (old + derived_balance d) totals)"

definition wbook_balance_by_bip :: "wallet_book \<Rightarrow> (string \<times> int) list" where
  "wbook_balance_by_bip b = foldl add_to_bip [] (map snd (wb_entries b))"

section \<open>The book as a document\<close>

text \<open>
  The dictionaries \<^verbatim>\<open>to_dict\<close> makes and \<^verbatim>\<open>from_dict\<close> takes. \<^verbatim>\<open>json.dumps\<close> and \<^verbatim>\<open>json.loads\<close> keep such a
  document as it is. A document without the optional keys of an output is one with their default values.
\<close>

record utxo_dict =
  ud_outpoint :: string
  ud_amount :: int
  ud_script :: string
  ud_height :: "int option"
  ud_coinbase :: bool

record derived_dict =
  dd_bip :: string
  dd_account :: int
  dd_change :: int
  dd_index :: int
  dd_address :: string
  dd_pubkey :: string
  dd_used :: bool
  dd_utxos :: "utxo_dict list"

type_synonym wbook_document = "(string \<times> derived_dict) list"

text \<open>A text has no method \<^verbatim>\<open>hex\<close>.\<close>

definition utxo_to_dict :: "wallet_utxo \<Rightarrow> utxo_dict result" where
  "utxo_to_dict u =
     (case wu_outpoint u of
        OutText _ \<Rightarrow> Inl AttributeError
      | OutBytes out \<Rightarrow>
          Inr \<lparr>ud_outpoint = bytes_hex out, ud_amount = wu_amount u, ud_script = bytes_hex (wu_script u),
               ud_height = wu_height u, ud_coinbase = wu_coinbase u\<rparr>)"

definition derived_to_dict :: "derived \<Rightarrow> derived_dict result" where
  "derived_to_dict d =
     bindR (mapR utxo_to_dict (da_utxos d)) (\<lambda>utxos.
       Inr \<lparr>dd_bip = bip_name (da_bip d), dd_account = da_account d, dd_change = da_change d,
            dd_index = da_index d, dd_address = da_address d, dd_pubkey = bytes_hex (da_pubkey d),
            dd_used = da_used d, dd_utxos = utxos\<rparr>)"

definition utxo_from_dict :: "utxo_dict \<Rightarrow> wallet_utxo result" where
  "utxo_from_dict u =
     bindR (bytes_fromhex (ud_script u)) (\<lambda>script.
       Inr \<lparr>wu_outpoint = OutText (ud_outpoint u), wu_amount = ud_amount u, wu_script = script,
            wu_height = ud_height u, wu_coinbase = ud_coinbase u\<rparr>)"

definition derived_from_dict :: "derived_dict \<Rightarrow> derived result" where
  "derived_from_dict dd =
     bindR (mapR utxo_from_dict (dd_utxos dd)) (\<lambda>utxos.
     bindR (bip_of_name (dd_bip dd)) (\<lambda>bip.
     bindR (bytes_fromhex (dd_pubkey dd)) (\<lambda>pubkey.
       Inr \<lparr>da_bip = bip, da_account = dd_account dd, da_change = dd_change dd, da_index = dd_index dd,
            da_address = dd_address dd, da_pubkey = pubkey, da_used = dd_used dd, da_utxos = utxos\<rparr>)))"

definition wbook_to_json :: "wallet_book \<Rightarrow> wbook_document result" where
  "wbook_to_json b =
     mapR (\<lambda>(a, d). bindR (derived_to_dict d) (\<lambda>dd. Inr (a, dd))) (wb_entries b)"

definition wbook_from_json :: "wbook_document \<Rightarrow> int \<Rightarrow> wallet_book result" where
  "wbook_from_json doc gap_limit =
     foldR (\<lambda>b dd. bindR (derived_from_dict dd) (\<lambda>d. Inr (wbook_add d b))) (new_book gap_limit) (map snd doc)"

section \<open>The wallet: wallet.py and tx\_builder.py\<close>

text \<open>The slot \<^verbatim>\<open>seed\<close> is set by \<^verbatim>\<open>from_seed\<close> only; reading it without raises.\<close>

record wallet =
  wl_mnemonic :: "string list option"
  wl_seed :: "bytes option"
  wl_master :: xkey
  wl_book :: wallet_book

definition new_wallet ::
  "hashes \<Rightarrow> wallet_prims \<Rightarrow> string list \<Rightarrow> string list option \<Rightarrow> string \<Rightarrow> nat \<Rightarrow> bytes \<Rightarrow> bytes \<Rightarrow> wallet result" where
  "new_wallet H P wordlist phrase passphrase entropy_bytelen version entropy =
     bindR (mnemonic_new H wordlist phrase entropy_bytelen entropy) (\<lambda>mnemonic.
     bindR (from_master_seed P (to_seed P mnemonic passphrase) version) (\<lambda>master_key.
       Inr \<lparr>wl_mnemonic = Some mnemonic, wl_seed = None, wl_master = master_key,
            wl_book = new_book GAP_LIMIT\<rparr>))"

definition wallet_from_seed :: "wallet_prims \<Rightarrow> bytes \<Rightarrow> bytes \<Rightarrow> wallet result" where
  "wallet_from_seed P seed version =
     bindR (from_master_seed P seed version) (\<lambda>master_key.
       Inr \<lparr>wl_mnemonic = None, wl_seed = Some seed, wl_master = master_key, wl_book = new_book GAP_LIMIT\<rparr>)"

definition wallet_seed :: "wallet \<Rightarrow> bytes result" where
  "wallet_seed w = (case wl_seed w of None \<Rightarrow> Inl AttributeError | Some seed \<Rightarrow> Inr seed)"

definition ends_hardened :: "string \<Rightarrow> bool" where
  "ends_hardened part \<longleftrightarrow> last part = CHR 0x27 \<or> last part = CHR ''h''"

text \<open>One level of a path; an empty part is skipped.\<close>

definition derive_part :: "ecurve \<Rightarrow> hashes \<Rightarrow> wallet_prims \<Rightarrow> xkey \<Rightarrow> string \<Rightarrow> xkey result" where
  "derive_part E H P key part =
     (if part = [] then Inr key
      else bindR (if ends_hardened part
                  then bindR (py_int (butlast part)) (\<lambda>i. Inr (i + HARDENED_OFFSET))
                  else py_int part)
             (\<lambda>index. derive_child E H P key index))"

definition derive_path :: "ecurve \<Rightarrow> hashes \<Rightarrow> wallet_prims \<Rightarrow> xkey \<Rightarrow> string \<Rightarrow> xkey result" where
  "derive_path E H P master_key path =
     bindR (guardR (path \<noteq> [] \<and> hd path = CHR ''m'') ValueError) (\<lambda>_.
       foldR (derive_part E H P) master_key (tl (split_text (CHR ''/'') path)))"

definition derive_address ::
  "ecurve \<Rightarrow> hashes \<Rightarrow> wallet_prims \<Rightarrow> derivation_path \<Rightarrow> int \<Rightarrow> int \<Rightarrow> int \<Rightarrow> (wallet, derived) action" where
  "derive_address E H P bip account change index =
     bindS (queryS (\<lambda>w. derive_path E H P (wl_master w) (derivation_text bip account change index))) (\<lambda>key.
     bindS (liftS (get_pubkey E key)) (\<lambda>public_key.
     let pubkey = xk_data public_key in
     bindS (liftS (derivation_address H bip pubkey)) (\<lambda>addr.
     let d = \<lparr>da_bip = bip, da_account = account, da_change = change, da_index = index, da_address = addr,
              da_pubkey = pubkey, da_used = False, da_utxos = []\<rparr> in
     bindS (modifyS (\<lambda>w. w\<lparr>wl_book := wbook_add d (wl_book w)\<rparr>)) (\<lambda>_. returnS d))))"

definition get_master_pubkey :: "ecurve \<Rightarrow> wallet \<Rightarrow> xkey result" where
  "get_master_pubkey E w = get_pubkey E (wl_master w)"

text \<open>The builder collects; coin selection, change and signing are not written yet.\<close>

record tx_builder =
  tb_inputs :: "wallet_utxo list"
  tb_outputs :: "(string \<times> int) list"
  tb_fee_rate :: int
  tb_change_address :: "string option"

definition new_builder :: tx_builder where
  "new_builder = \<lparr>tb_inputs = [], tb_outputs = [], tb_fee_rate = 1, tb_change_address = None\<rparr>"

definition builder_add_input :: "wallet_utxo \<Rightarrow> tx_builder \<Rightarrow> tx_builder" where
  "builder_add_input u t = t\<lparr>tb_inputs := tb_inputs t @ [u]\<rparr>"

definition builder_add_output :: "string \<Rightarrow> int \<Rightarrow> tx_builder \<Rightarrow> tx_builder" where
  "builder_add_output a amount t = t\<lparr>tb_outputs := tb_outputs t @ [(a, amount)]\<rparr>"

definition builder_set_fee_rate :: "int \<Rightarrow> tx_builder \<Rightarrow> tx_builder" where
  "builder_set_fee_rate fee_rate t = t\<lparr>tb_fee_rate := max 1 fee_rate\<rparr>"

end
