(* ===== verification/Tiny_Curve.thy ===== *)
theory Tiny_Curve
  imports Signatures
begin

text \<open>A curve over a field of five elements whose generator has order eight, for closed evaluations of keys and
  signatures.\<close>

definition tiny_curve :: ecurve where
  "tiny_curve = \<lparr>cv_a = 4, cv_b = 1, cv_p = 5, cv_order = 8, cv_generator = Some (0, 1)\<rparr>"

lemma tiny_table: "precompute_generator_multiples tiny_curve = [(1, Some (0, 1)), (2, Some (4, 1)), (4, Some (3, 0))]"
  by (simp add: precompute_generator_multiples_def numeral_eq_Suc tiny_curve_def double_point_def mod_inverse_def
      egcd_loop.simps)


lemma tiny_multiples:
  assumes "v \<in> {1 .. 7}"
  shows "\<exists>x y. multiply_generator tiny_curve v = Inr (Some (x, y)) \<and> 0 \<le> x \<and> x < 5"
proof -
  have "v \<in> {1, 2, 3, 4, 5, 6, 7}" using assms by auto
  then show ?thesis
    by (elim insertE; simp add: multiply_generator_def scalar_mult_generator_def tiny_table)
      (simp_all add: tiny_curve_def add_points_def mod_inverse_def egcd_loop.simps double_point_def)
qed

end
