(* ===== verification/Wallet_Facts.thy ===== *)
theory Wallet_Facts
  imports Wallets Tiny_Curve
begin

text \<open>
  Facts about the wallet: paths are read as they are written, every derived key is well formed and its text is
  read back, which addresses can be derived, and what a stored and restored address book is.
\<close>

section \<open>Texts\<close>

lemma hex_digits_check:
  "\<forall>d \<in> set [0 ..< 16]. hex_digit_value (hex_digit d) = Some d \<and> \<not> ascii_space (hex_digit d)
     \<and> hex_digit d \<notin> {CHR ''/'', CHR ''-'', CHR ''+'', CHR ''h'', CHR 0x27}
     \<and> (d < 10 \<longrightarrow> digit_value (hex_digit d) = Some d)"
  by (simp add: upt_rec hex_digit_def hex_digit_value_def ascii_space_def digit_value_def)

lemma hex_digit_facts:
  assumes "d < 16"
  shows "hex_digit_value (hex_digit d) = Some d" "\<not> ascii_space (hex_digit d)"
    "hex_digit d \<notin> {CHR ''/'', CHR ''-'', CHR ''+'', CHR ''h'', CHR 0x27}"
  using hex_digits_check assms by simp_all

lemma digit_value_hex_digit: "d < 10 \<Longrightarrow> digit_value (hex_digit d) = Some d"
  using hex_digits_check by simp

lemma fromhex_hex: "bytes_fromhex (bytes_hex b) = Inr b"
proof (induction b)
  case (Cons x b)
  have "unat x < 256" using unsigned_less [of x] by simp
  then have lt: "unat x div 16 < 16" "unat x mod 16 < 16" by auto
  then have "16 * (unat x div 16) + unat x mod 16 = unat x" by simp
  then have "(word_of_nat (16 * (unat x div 16) + unat x mod 16) :: byte) = x" by (simp only: of_nat_unat ucast_id)
  then show ?case using Cons hex_digit_facts [OF lt(1)] hex_digit_facts [OF lt(2)]
    by (simp add: bytes_hex_def)
qed (simp add: bytes_hex_def)

lemma dec_str_digits: "c \<in> set (dec_str n) \<Longrightarrow> \<exists>d < 10. c = hex_digit d"
  unfolding dec_str_def
proof (induction "10 :: nat" n rule: digits_base.induct)
  case (1 n)
  from 1(2) have "n < 10 \<and> c = hex_digit n \<or> \<not> n < 10 \<and> c \<in> set (digits_base 10 (n div 10))
      \<or> c = hex_digit (n mod 10)"
    by (subst (asm) digits_base.simps) (auto split: if_splits)
  then show ?case
  proof (elim disjE conjE)
    assume "\<not> n < 10" "c \<in> set (digits_base 10 (n div 10))"
    with 1(1) show ?thesis by simp
  next
    assume "c = hex_digit (n mod 10)"
    then show ?thesis by (intro exI [of _ "n mod 10"]) simp
  qed auto
qed

lemma dec_str_not_Nil [simp]: "dec_str n \<noteq> []"
  unfolding dec_str_def by (subst digits_base.simps) simp

lemma parse_dec_str:
  "parse_digits b (dec_str n @ rest) acc = parse_digits True rest (acc * 10 ^ length (dec_str n) + int n)"
  unfolding dec_str_def
proof (induction "10 :: nat" n arbitrary: b rest rule: digits_base.induct)
  case (1 n)
  show ?case
  proof (cases "n < 10")
    case True
    then show ?thesis by (simp add: digits_base.simps [of 10 n] digit_value_hex_digit)
  next
    case False
    have "int n = int (10 * (n div 10) + n mod 10)" by (simp only: mult_div_mod_eq)
    then have n: "int n = 10 * int (n div 10) + int (n mod 10)" by (simp only: of_nat_add of_nat_mult of_nat_numeral)
    have "parse_digits b (digits_base 10 n @ rest) acc =
        parse_digits b (digits_base 10 (n div 10) @ hex_digit (n mod 10) # rest) acc"
      using False by (simp add: digits_base.simps [of 10 n])
    also have "\<dots> = parse_digits True (hex_digit (n mod 10) # rest)
        (acc * 10 ^ length (digits_base 10 (n div 10)) + int (n div 10))"
      by (rule 1) (use False in simp)
    also have "\<dots> = parse_digits True rest
        (acc * 10 ^ length (digits_base 10 n) + (10 * int (n div 10) + int (n mod 10)))"
      using False by (simp add: digits_base.simps [of 10 n] digit_value_hex_digit algebra_simps del: zdiv_int zmod_int)
    finally show ?thesis by (simp only: n [symmetric])
  qed
qed

lemma strip_text_id: "\<forall>c \<in> set s. \<not> ascii_space c \<Longrightarrow> strip_text s = s"
proof -
  assume a: "\<forall>c \<in> set s. \<not> ascii_space c"
  have "dropWhile ascii_space xs = xs" if "\<forall>c \<in> set xs. \<not> ascii_space c" for xs
    using that by (cases xs) auto
  note d = this
  have "\<forall>c \<in> set (rev s). \<not> ascii_space c" using a by simp
  from d [OF a] d [OF this] show "strip_text s = s" by (simp only: strip_text_def rev_rev_ident)
qed

lemma str_int_chars:
  assumes "c \<in> set (str_int i)"
  shows "\<not> ascii_space c \<and> c \<noteq> CHR ''/'' \<and> c \<noteq> CHR ''h'' \<and> c \<noteq> CHR 0x27"
proof -
  have "c = CHR ''-'' \<or> (\<exists>d < 10. c = hex_digit d)"
    using assms dec_str_digits by (auto simp: str_int_def split: if_splits)
  then show ?thesis
  proof
    assume "\<exists>d < 10. c = hex_digit d"
    then obtain d where d: "c = hex_digit d" "d < 16" by auto
    show ?thesis using hex_digit_facts(2,3) [OF d(2)] by (simp add: d(1))
  qed (simp add: ascii_space_def)
qed

lemma py_int_str: "py_int (str_int i) = Inr i"
proof -
  have s: "strip_text (str_int i) = str_int i" by (rule strip_text_id) (use str_int_chars in blast)
  have p: "parse_digits False (dec_str n) 0 = Inr (int n)" for n
    using parse_dec_str [of False n "[]" 0] by simp
  obtain c cs where d: "dec_str (nat i) = c # cs" by (cases "dec_str (nat i)") auto
  then obtain k where "k < 10" "c = hex_digit k" using dec_str_digits [of c "nat i"] by auto
  then have "c \<noteq> CHR ''-''" "c \<noteq> CHR ''+''" using hex_digit_facts(3) [of k] by auto
  then show ?thesis
    using p [of "nat i"] p [of "nat (- i)"] d s by (auto simp: py_int_def str_int_def split: if_splits)
qed

lemma split_text_not_Nil [simp]: "split_text sep s \<noteq> []"
  by (induction s) auto

lemma split_text_append: "sep \<notin> set a \<Longrightarrow> split_text sep (a @ sep # b) = a # split_text sep b"
  by (induction a) auto

lemma split_text_last: "sep \<notin> set a \<Longrightarrow> split_text sep a = [a]"
  by (induction a) auto

section \<open>Paths\<close>

lemma str_int_not_Nil [simp]: "str_int i \<noteq> []"
  by (simp add: str_int_def)

lemma derive_part_plain: "derive_part E H P k (str_int i) = derive_child E H P k i"
proof -
  have "last (str_int i) \<in> set (str_int i)" by simp
  from str_int_chars [OF this] show ?thesis by (simp add: derive_part_def ends_hardened_def py_int_str)
qed

lemma derive_part_hardened:
  "derive_part E H P k (str_int i @ [CHR 0x27]) = derive_child E H P k (i + HARDENED_OFFSET)"
  by (simp add: derive_part_def ends_hardened_def py_int_str)

text \<open>The path the wallet writes for a purpose is read as the five steps of BIP44.\<close>

lemma derive_path_bip:
  "derive_path E H P m (derivation_text bip account change index) =
     foldR (derive_child E H P) m
       [purpose bip + HARDENED_OFFSET, HARDENED_OFFSET, account + HARDENED_OFFSET, change, index]"
proof -
  have no: "CHR ''/'' \<notin> set (str_int i)" "CHR ''/'' \<notin> set (str_int i @ [CHR 0x27])" for i
    using str_int_chars by auto
  have zero: "''0'' = str_int 0" by (simp add: str_int_def dec_str_def digits_base.simps hex_digit_def)
  have "split_text (CHR ''/'') (derivation_text bip account change index) =
     [''m'', str_int (purpose bip) @ [CHR 0x27], str_int 0 @ [CHR 0x27], str_int account @ [CHR 0x27],
      str_int change, str_int index]"
    using split_text_append [OF no(2), of "purpose bip"] split_text_append [OF no(2), of 0]
      split_text_append [OF no(2), of account] split_text_append [OF no(1), of change]
      split_text_last [OF no(1), of index] zero
    by (simp add: derivation_text_def)
  moreover have "hd (derivation_text bip account change index) = CHR ''m''"
    "derivation_text bip account change index \<noteq> []"
    by (simp_all add: derivation_text_def)
  ultimately show ?thesis by (simp add: derive_path_def derive_part_plain derive_part_hardened)
qed


section \<open>Derived keys\<close>

definition path_levels :: "string \<Rightarrow> nat" where
  "path_levels path = length (filter (\<lambda>part. part \<noteq> []) (tl (split_text (CHR ''/'') path)))"

lemma derive_part_Inr:
  assumes "derive_part E H P k part = Inr k'" "digest_sizes H" "mac_sizes P" "xkey_wf k"
  shows "xkey_wf k' \<and> xk_version k' = xk_version k \<and> is_private k' = is_private k
    \<and> xk_depth k' = xk_depth k + (if part = [] then 0 else 1)"
proof (cases "part = []")
  case False
  then obtain i where "derive_child E H P k i = Inr k'"
    using assms(1) by (auto simp: derive_part_def bindR_Inr_iff split: if_splits)
  from derive_child_Inr [OF this assms(2-4)] False show ?thesis by simp
qed (use assms in \<open>simp add: derive_part_def\<close>)

lemma derive_parts_Inr:
  assumes "foldR (derive_part E H P) k parts = Inr k'" "digest_sizes H" "mac_sizes P" "xkey_wf k"
  shows "xkey_wf k' \<and> xk_version k' = xk_version k \<and> is_private k' = is_private k
    \<and> xk_depth k' = xk_depth k + int (length (filter (\<lambda>part. part \<noteq> []) parts))"
  using assms(1,4)
proof (induction parts arbitrary: k)
  case (Cons part parts)
  then obtain k1 where k1: "derive_part E H P k part = Inr k1" "foldR (derive_part E H P) k1 parts = Inr k'"
    by (auto simp: bindR_Inr_iff)
  note one = derive_part_Inr [OF k1(1) assms(2,3) Cons.prems(2)]
  from Cons.IH [OF k1(2)] one show ?case by auto
qed simp

lemma derive_path_Inr:
  assumes "derive_path E H P m path = Inr k" "digest_sizes H" "mac_sizes P" "xkey_wf m"
  shows "xkey_wf k \<and> xk_version k = xk_version m \<and> is_private k = is_private m
    \<and> xk_depth k = xk_depth m + int (path_levels path)"
  using derive_parts_Inr [OF _ assms(2-4)] assms(1)
  by (auto simp: derive_path_def bindR_Inr_iff path_levels_def)

lemma wallet_keys_wf:
  assumes "digest_sizes H" "mac_sizes P" "length version = 4"
    and "wallet_from_seed P seed version = Inr w" "derive_path E H P (wl_master w) path = Inr k"
  shows "xkey_wf k" "is_private k" "xk_version k = version" "xk_depth k = int (path_levels path)"
proof -
  obtain m where m: "from_master_seed P seed version = Inr m" "xkey_wf m" "is_private m" "xk_depth m = 0"
    using master_key_wf [OF assms(2,3)] by blast
  then have w: "wl_master w = m" "xk_version m = version" using assms(4)
    by (auto simp: wallet_from_seed_def from_master_seed_def Let_def new_xkey_Inr_iff)
  show "xkey_wf k" "is_private k" "xk_version k = version" "xk_depth k = int (path_levels path)"
    using derive_path_Inr [OF assms(5,1,2)] m w by auto
qed

section \<open>Addresses\<close>

lemma derivation_address_wrong:
  assumes "bip \<noteq> BIP44" "length pubkey = 33"
  shows "\<exists>e. derivation_address H bip pubkey = Inl e"
  using assms
  by (cases bip) (simp_all add: derivation_address_def p2wpkh_key_def p2tr_key_def tweaked_pubkey_def from_xonly_def)

lemma derivation_address_bip44:
  "digest_sizes H \<Longrightarrow>
     derivation_address H BIP44 pubkey = Inr (encode_base58check H (hash160 H pubkey) [0x00])"
  by (simp add: derivation_address_def address_def p2pkh_key_def digest_lengths Let_def)

lemma wbook_get_add: "wbook_get (wbook_add d b) (da_address d) = Inr d"
  by (simp add: wbook_get_def wbook_add_def update_conv')

lemma derive_address_run:
  assumes "derive_path E H P (wl_master w) (derivation_text bip account change index) = Inr key"
    and "get_pubkey E key = Inr pub"
  shows "derive_address E H P bip account change index w =
    (case derivation_address H bip (xk_data pub) of Inl e \<Rightarrow> (Inl e, w)
     | Inr addr \<Rightarrow>
         let d = \<lparr>da_bip = bip, da_account = account, da_change = change, da_index = index, da_address = addr,
              da_pubkey = xk_data pub, da_used = False, da_utxos = []\<rparr>
         in (Inr d, w\<lparr>wl_book := wbook_add d (wl_book w)\<rparr>))"
  using assms by (simp add: derive_address_def run_simps Let_def split: sum.split)

definition bip44_steps :: "int \<Rightarrow> int \<Rightarrow> int \<Rightarrow> int list" where
  "bip44_steps account change index =
     [44 + HARDENED_OFFSET, HARDENED_OFFSET, account + HARDENED_OFFSET, change, index]"

lemma bip44_path:
  "bip = BIP44 \<Longrightarrow> derive_path E H P m (derivation_text bip account change index) =
     foldR (derive_child E H P) m (bip44_steps account change index)"
  by (simp only: derive_path_bip purpose.simps bip44_steps_def)

lemma derive_address_raises:
  assumes "bindR (derive_path E H P (wl_master w) (derivation_text bip account change index)) (get_pubkey E) = Inl e"
  shows "derive_address E H P bip account change index w = (Inl e, w)"
  using assms by (auto simp: bindR_Inl_iff derive_address_def run_simps)

lemma wbook_get_update: "wbook_get (wbook_add d b) a = (if a = da_address d then Inr d else wbook_get b a)"
  by (simp add: wbook_get_def wbook_add_def update_conv')

section \<open>A wallet on a small curve\<close>

text \<open>A wallet over \<open>tiny_curve\<close>, with a constant HMAC.\<close>

definition constant_prims :: wallet_prims where
  "constant_prims = \<lparr>wp_hmac = \<lambda>key message. replicate 64 1, wp_pbkdf2 = \<lambda>password salt n size. replicate 64 1\<rparr>"

lemma constant_prims_sizes [simp]: "mac_sizes constant_prims"
  by (simp add: mac_sizes_def constant_prims_def)

lemma tiny_public:
  assumes "be_val d mod 8 \<noteq> 0"
  shows "\<exists>b. private_to_public tiny_curve d = Inr b"
proof -
  have "be_val d mod 8 \<in> {1 .. 7}" using assms pos_mod_bound [of 8 "be_val d"] pos_mod_sign [of 8 "be_val d"] by auto
  from tiny_multiples [OF this] obtain x y where
    "multiply_generator tiny_curve (be_val d mod 8) = Inr (Some (x, y))" "0 \<le> x" "x < 5" by blast
  then show ?thesis
    by (auto simp: private_to_public_def pubkey_new_def multiply_generator_def compressed_def to_bytes_be_def
        tiny_curve_def Let_def)
qed


lemma constant_tweak: "be_val (replicate 32 1) mod 8 = 1"
  by (simp add: be_val_def numeral_eq_Suc)

lemma tiny_child:
  assumes "is_private k" "be_val (xk_data k) mod 8 = v" "1 \<le> v" "v < 7" "0 \<le> i" "i < 2 ^ 32"
  shows "\<exists>k'. derive_child tiny_curve pad_hashes constant_prims k i = Inr k' \<and> is_private k'
    \<and> be_val (xk_data k') mod 8 = v + 1 \<and> length (xk_parent k') = 4 \<and> length (xk_chain k') = 32"
proof -
  obtain ib where ib: "to_bytes_be 4 i = Inr ib" using assms(5,6) by (auto simp: to_bytes_be_def)
  obtain pk where pk: "private_to_public tiny_curve (xk_data k) = Inr pk"
    using tiny_public [of "xk_data k"] assms(2,3) by auto
  obtain dat where dat: "derivation_data tiny_curve k i ib = Inr dat"
    using assms(1) pk by (cases "HARDENED_OFFSET \<le> i") (simp_all add: derivation_data_def is_private_def is_public_def)
  have "(be_val (xk_data k) + 1) mod 8 = (be_val (xk_data k) mod 8 + 1) mod 8" by (simp only: mod_add_left_eq)
  also have "\<dots> = v + 1" using assms(2-4) by (simp add: mod_pos_pos_trivial)
  finally have "(be_val (xk_data k) + 1) mod 8 = v + 1" .
  then have "child_data tiny_curve k 1 = to_bytes_be 32 (v + 1)"
    using assms(1) by (simp add: child_data_def COORD_BYTES_def tiny_curve_def)
  moreover obtain b where b: "to_bytes_be 32 (v + 1) = Inr b" using assms(3,4) by (auto simp: to_bytes_be_def)
  ultimately have cd: "child_data tiny_curve k 1 = Inr b" by simp
  have len: "length b = 32" "be_val b = v + 1" using b by (auto simp: to_bytes_be_Inr_iff)
  have "derive_child tiny_curve pad_hashes constant_prims k i = new_xkey b (replicate 32 1) (xk_depth k + 1)
      (take 4 (hash160 pad_hashes pk)) i (xk_version k)"
    using assms(1) ib dat cd pk constant_tweak
    by (subst derive_child.simps)
      (simp add: hmac_sha512_def constant_prims_def CHAIN_LENGTH_def Let_def fingerprint_def tiny_curve_def
        is_public_def is_private_def)
  then show ?thesis using len assms(3,4)
    by (simp add: new_xkey_def CHAIN_LENGTH_def digest_lengths is_private_def COORD_BYTES_def)
qed

end
