(* ===== verification/Wallet_Book.thy ===== *)
theory Wallet_Book
  imports Wallet_Facts
begin

text \<open>
  The address book over any sequence of its operations: what it keeps, what a fresh index is, what its balance is,
  and what storing and restoring it does. Closed instances of the properties of the wallet stand at the end.
\<close>

section \<open>Operations in sequence\<close>

datatype wbook_call =
    Add_Derived derived | Remove_Address string | Mark_Used string | Update_Utxos string "wallet_utxo list"

fun wbook_call_result :: "wbook_call \<Rightarrow> wallet_book \<Rightarrow> wallet_book result" where
  "wbook_call_result (Add_Derived d) b = Inr (wbook_add d b)"
| "wbook_call_result (Remove_Address a) b = wbook_remove a b"
| "wbook_call_result (Mark_Used a) b = wbook_mark_used a b"
| "wbook_call_result (Update_Utxos a utxos) b = wbook_update_utxos a utxos b"

text \<open>A call that raises leaves the book as it is.\<close>

definition wbook_step :: "wallet_book \<Rightarrow> wbook_call \<Rightarrow> wallet_book" where
  "wbook_step b c = (case wbook_call_result c b of Inl _ \<Rightarrow> b | Inr b' \<Rightarrow> b')"

definition wbook_run :: "wbook_call list \<Rightarrow> wallet_book \<Rightarrow> wallet_book" where
  "wbook_run calls b = foldl wbook_step b calls"

definition raw_utxo :: "wallet_utxo \<Rightarrow> bool" where
  "raw_utxo u \<longleftrightarrow> (case wu_outpoint u of OutBytes _ \<Rightarrow> True | OutText _ \<Rightarrow> False)"

fun raw_call :: "wbook_call \<Rightarrow> bool" where
  "raw_call (Add_Derived d) \<longleftrightarrow> list_all raw_utxo (da_utxos d)"
| "raw_call (Update_Utxos a utxos) \<longleftrightarrow> list_all raw_utxo utxos"
| "raw_call _ \<longleftrightarrow> True"

text \<open>Each address once, under its own key, with outpoints that are bytes.\<close>

definition wentry_ok :: "string \<times> derived \<Rightarrow> bool" where
  "wentry_ok e \<longleftrightarrow> da_address (snd e) = fst e \<and> list_all raw_utxo (da_utxos (snd e))"

definition wbook_ok :: "wallet_book \<Rightarrow> bool" where
  "wbook_ok b \<longleftrightarrow> distinct (map fst (wb_entries b)) \<and> (\<forall>e \<in> set (wb_entries b). wentry_ok e)"

lemma set_update_subset: "set (AList.update k v al) \<subseteq> insert (k, v) (set al)"
  by (induction al) auto

lemma set_delete_subset: "set (AList.delete k al) \<subseteq> set al"
  by (auto simp: AList.delete_eq)

lemma set_map_entry:
  "x \<in> set (AList.map_entry k f al) \<Longrightarrow> x \<in> set al \<or> (\<exists>v. (k, v) \<in> set al \<and> x = (k, f v))"
  by (induction al) (auto split: if_splits)

lemma keys_map_entry: "map fst (AList.map_entry k f al) = map fst al"
  by (induction al) auto

lemma keys_update: "distinct (map fst al) \<Longrightarrow> distinct (map fst (AList.update k v al))"
  by (rule distinct_update)

lemma change_derived_ok:
  assumes "wbook_ok b" "\<And>d. wentry_ok (a, d) \<Longrightarrow> wentry_ok (a, f d)"
  shows "wbook_ok (change_derived a f b)"
  unfolding wbook_ok_def
proof (intro conjI ballI)
  show "distinct (map fst (wb_entries (change_derived a f b)))"
    using assms(1) by (simp add: wbook_ok_def change_derived_def keys_map_entry)
next
  fix e assume "e \<in> set (wb_entries (change_derived a f b))"
  then have "e \<in> set (wb_entries b) \<or> (\<exists>v. (a, v) \<in> set (wb_entries b) \<and> e = (a, f v))"
    by (simp add: change_derived_def set_map_entry)
  then show "wentry_ok e" using assms by (auto simp: wbook_ok_def)
qed

lemma wbook_add_ok: "wbook_ok b \<Longrightarrow> list_all raw_utxo (da_utxos d) \<Longrightarrow> wbook_ok (wbook_add d b)"
  using set_update_subset [of "da_address d" d "wb_entries b"]
  by (auto simp: wbook_ok_def wbook_add_def keys_update wentry_ok_def)

lemma wbook_remove_ok: "wbook_ok b \<Longrightarrow> wbook_remove a b = Inr b' \<Longrightarrow> wbook_ok b'"
  using set_delete_subset [of a "wb_entries b"]
  by (auto simp: wbook_ok_def wbook_remove_def distinct_delete bindR_Inr_iff)

lemma wbook_step_ok:
  assumes "wbook_ok b" "raw_call c"
  shows "wbook_ok (wbook_step b c)"
proof (cases c)
  case (Add_Derived d)
  then show ?thesis using assms by (simp add: wbook_step_def wbook_add_ok)
next
  case (Remove_Address a)
  then show ?thesis using assms(1) wbook_remove_ok [OF assms(1), of a]
    by (simp add: wbook_step_def split: sum.split)
next
  case (Mark_Used a)
  then show ?thesis using assms
    by (auto simp: wbook_step_def wbook_mark_used_def wbook_get_def intro!: change_derived_ok simp: wentry_ok_def split: option.split)
next
  case (Update_Utxos a utxos)
  then show ?thesis using assms
    by (auto simp: wbook_step_def wbook_update_utxos_def wbook_get_def intro!: change_derived_ok simp: wentry_ok_def split: option.split)
qed

lemma wbook_run_ok: "list_all raw_call calls \<Longrightarrow> wbook_ok b \<Longrightarrow> wbook_ok (wbook_run calls b)"
  unfolding wbook_run_def by (induction calls arbitrary: b) (auto intro: wbook_step_ok)

lemma new_book_ok [simp]: "wbook_ok (new_book g)"
  by (simp add: wbook_ok_def new_book_def)

lemma wbook_step_gap [simp]: "wb_gap_limit (wbook_step b c) = wb_gap_limit b"
  by (cases c) (auto simp: wbook_step_def wbook_add_def wbook_remove_def wbook_mark_used_def wbook_update_utxos_def
      change_derived_def bindR_def guardR_def split: sum.splits)

lemma wbook_run_gap: "wb_gap_limit (wbook_run calls b) = wb_gap_limit b"
  unfolding wbook_run_def by (induction calls arbitrary: b) auto

section \<open>Fresh indices and balances\<close>

lemma foldl_max_ge: "(x :: int) \<le> foldl max a xs \<longleftrightarrow> x \<le> a \<or> (\<exists>y \<in> set xs. x \<le> y)"
  by (induction xs arbitrary: a) auto

text \<open>The next index of a branch is above every index the book has there.\<close>

lemma next_index_fresh:
  assumes "(a, d) \<in> set (wb_entries b)" "on_branch bip change account d"
  shows "da_index d < wbook_next_index b bip change account"
proof -
  define xs where "xs = map da_index (filter (on_branch bip change account) (map snd (wb_entries b)))"
  have "d \<in> set (map snd (wb_entries b))" using assms(1) by force
  then have "da_index d \<in> set xs" using assms(2) by (simp add: xs_def)
  then have "xs \<noteq> [] \<and> da_index d \<le> foldl max (hd xs) (tl xs)"
    by (cases xs) (auto simp: foldl_max_ge)
  then show ?thesis by (simp add: wbook_next_index_def xs_def [symmetric])
qed

lemma balance_all_utxos: "wbook_balance b = sum_list (map wu_amount (wbook_all_utxos b))"
proof -
  have "sum_list (map (derived_balance \<circ> snd) es) = sum_list (map wu_amount (concat (map da_utxos (map snd es))))"
    for es :: "(string \<times> derived) list"
    by (induction es) (simp_all add: derived_balance_def)
  then show ?thesis by (simp add: wbook_balance_def wbook_all_utxos_def)
qed

section \<open>Storing and restoring\<close>

definition restored_utxo :: "wallet_utxo \<Rightarrow> wallet_utxo" where
  "restored_utxo u = (case wu_outpoint u of OutBytes out \<Rightarrow> u\<lparr>wu_outpoint := OutText (bytes_hex out)\<rparr> | _ \<Rightarrow> u)"

definition restored_derived :: "derived \<Rightarrow> derived" where
  "restored_derived d = d\<lparr>da_utxos := map restored_utxo (da_utxos d)\<rparr>"

lemma bip_of_name_name: "bip_of_name (bip_name bip) = Inr bip"
  by (cases bip) (simp_all add: bip_of_name_def)

lemma wallet_utxo_round_trip:
  assumes "raw_utxo u"
  shows "\<exists>ud. utxo_to_dict u = Inr ud \<and> utxo_from_dict ud = Inr (restored_utxo u)"
  using assms by (cases u)
    (auto simp: raw_utxo_def utxo_to_dict_def utxo_from_dict_def fromhex_hex restored_utxo_def split: outpoint_value.splits)

lemma utxos_round_trip:
  assumes "list_all raw_utxo us"
  shows "\<exists>uds. mapR utxo_to_dict us = Inr uds \<and> mapR utxo_from_dict uds = Inr (map restored_utxo us)"
  using assms
proof (induction us)
  case (Cons u us)
  then obtain ud uds where "utxo_to_dict u = Inr ud" "utxo_from_dict ud = Inr (restored_utxo u)"
    "mapR utxo_to_dict us = Inr uds" "mapR utxo_from_dict uds = Inr (map restored_utxo us)"
    using wallet_utxo_round_trip [of u] by auto
  then show ?case by (intro exI [of _ "ud # uds"]) simp
qed simp

lemma derived_round_trip:
  assumes "list_all raw_utxo (da_utxos d)"
  shows "\<exists>dd. derived_to_dict d = Inr dd \<and> derived_from_dict dd = Inr (restored_derived d)"
proof -
  obtain uds where "mapR utxo_to_dict (da_utxos d) = Inr uds"
    "mapR utxo_from_dict uds = Inr (map restored_utxo (da_utxos d))"
    using utxos_round_trip [OF assms] by blast
  then show ?thesis
    by (cases d) (simp add: derived_to_dict_def derived_from_dict_def bip_of_name_name fromhex_hex restored_derived_def)
qed

lemma update_fresh: "k \<notin> fst ` set al \<Longrightarrow> AList.update k v al = al @ [(k, v)]"
  by (induction al) auto

abbreviation read_entry :: "wallet_book \<Rightarrow> derived_dict \<Rightarrow> wallet_book result" where
  "read_entry \<equiv> \<lambda>b dd. bindR (derived_from_dict dd) (\<lambda>d. Inr (wbook_add d b))"

abbreviation write_entry :: "string \<times> derived \<Rightarrow> (string \<times> derived_dict) result" where
  "write_entry \<equiv> \<lambda>(a, d). bindR (derived_to_dict d) (\<lambda>dd. Inr (a, dd))"

lemma entries_round_trip:
  assumes "distinct (map fst es)" "\<forall>e \<in> set es. wentry_ok e"
    and "fst ` set es \<inter> fst ` set (wb_entries b) = {}"
  shows "\<exists>doc. mapR write_entry es = Inr doc \<and> foldR read_entry b (map snd doc) =
    Inr (b\<lparr>wb_entries := wb_entries b @ map (\<lambda>(a, d). (a, restored_derived d)) es\<rparr>)"
  using assms
proof (induction es arbitrary: b)
  case (Cons e es)
  obtain a d where e: "e = (a, d)" by (cases e)
  then have a: "da_address d = a" "list_all raw_utxo (da_utxos d)" using Cons.prems(2) by (auto simp: wentry_ok_def)
  obtain dd where dd: "derived_to_dict d = Inr dd" "derived_from_dict dd = Inr (restored_derived d)"
    using derived_round_trip [OF a(2)] by blast
  define b1 where "b1 = wbook_add (restored_derived d) b"
  have "a \<notin> fst ` set (wb_entries b)" using Cons.prems(3) by (auto simp: e)
  then have b1: "b1 = b\<lparr>wb_entries := wb_entries b @ [(a, restored_derived d)]\<rparr>"
    using a(1) by (simp add: b1_def wbook_add_def restored_derived_def update_fresh)
  have "fst ` set es \<inter> fst ` set (wb_entries b1) = {}" using Cons.prems(1,3) by (auto simp: b1 e)
  with Cons.IH [of b1] Cons.prems(1,2) obtain doc where
    "mapR write_entry es = Inr doc" "foldR read_entry b1 (map snd doc) =
      Inr (b1\<lparr>wb_entries := wb_entries b1 @ map (\<lambda>(a, d). (a, restored_derived d)) es\<rparr>)"
    by (auto simp: e)
  with dd show ?case by (intro exI [of _ "(a, dd) # doc"]) (simp add: e b1_def [symmetric], simp add: b1)
qed simp

lemma restored_to_dict:
  assumes "list_all raw_utxo (da_utxos d)"
  shows "derived_to_dict (restored_derived d) =
    (if da_utxos d = [] then derived_to_dict d else Inl AttributeError)"
proof (cases "da_utxos d")
  case (Cons u us)
  then show ?thesis using assms
    by (auto simp: derived_to_dict_def restored_derived_def restored_utxo_def raw_utxo_def utxo_to_dict_def
        split: outpoint_value.splits)
qed (cases d, simp add: restored_derived_def)

lemma restored_entries_to_dict:
  assumes "\<forall>e \<in> set es. wentry_ok e"
  shows "mapR write_entry (map (\<lambda>(a, d). (a, restored_derived d)) es) =
    (if concat (map da_utxos (map snd es)) = [] then mapR write_entry es else Inl AttributeError)"
  using assms
proof (induction es)
  case (Cons e es)
  obtain a d where e: "e = (a, d)" by (cases e)
  then have raw: "list_all raw_utxo (da_utxos d)" using Cons.prems by (auto simp: wentry_ok_def)
  obtain dd where "derived_to_dict d = Inr dd" using derived_round_trip [OF raw] by blast
  then show ?case using Cons restored_to_dict [OF raw] by (auto simp: e)
qed simp

lemma restored_balance: "derived_balance (restored_derived d) = derived_balance d"
  by (simp add: derived_balance_def restored_derived_def comp_def restored_utxo_def)
    (rule arg_cong [where f = sum_list], simp split: outpoint_value.split)


lemma restored_book:
  assumes "wbook_ok b"
  shows "\<exists>doc. wbook_to_json b = Inr doc \<and> wbook_from_json doc (wb_gap_limit b) =
    Inr (b\<lparr>wb_entries := map (\<lambda>(a, d). (a, restored_derived d)) (wb_entries b)\<rparr>)"
proof -
  obtain doc where "mapR write_entry (wb_entries b) = Inr doc"
    "foldR read_entry (new_book (wb_gap_limit b)) (map snd doc) = Inr ((new_book (wb_gap_limit b))
      \<lparr>wb_entries := wb_entries (new_book (wb_gap_limit b)) @ map (\<lambda>(a, d). (a, restored_derived d)) (wb_entries b)\<rparr>)"
    using entries_round_trip [of "wb_entries b" "new_book (wb_gap_limit b)"] assms
    by (auto simp: wbook_ok_def new_book_def)
  then show ?thesis by (cases b) (simp add: wbook_to_json_def wbook_from_json_def new_book_def)
qed

text \<open>
  C27: Whatever is added to, marked in, updated in and removed from an address book, it can be stored and restored,
  and the restored book has the same addresses, in the same order, and the same balance. But the outpoints come back
  as text: as soon as one address has an unspent output the restored book cannot be stored again, \<^verbatim>\<open>to_dict\<close>
  raises \<^verbatim>\<open>AttributeError\<close>; without unspent outputs the restored book is the book.
\<close>

theorem restored_book_cannot_be_saved:
  assumes "list_all raw_call calls"
  shows "\<exists>doc restored. wbook_to_json (wbook_run calls (new_book g)) = Inr doc
    \<and> wbook_from_json doc g = Inr restored
    \<and> map fst (wb_entries restored) = map fst (wb_entries (wbook_run calls (new_book g)))
    \<and> wbook_balance restored = wbook_balance (wbook_run calls (new_book g))
    \<and> (if wbook_all_utxos (wbook_run calls (new_book g)) = [] then restored = wbook_run calls (new_book g)
       else wbook_to_json restored = Inl AttributeError)"
proof -
  define b where "b = wbook_run calls (new_book g)"
  define r where "r = b\<lparr>wb_entries := map (\<lambda>(a, d). (a, restored_derived d)) (wb_entries b)\<rparr>"
  have ok: "wbook_ok b" using wbook_run_ok [OF assms new_book_ok] by (simp add: b_def)
  have g: "wb_gap_limit b = g" by (simp add: b_def wbook_run_gap) (simp add: new_book_def)
  obtain doc where doc: "wbook_to_json b = Inr doc" "wbook_from_json doc g = Inr r"
    using restored_book [OF ok] g by (auto simp: r_def)
  have "map fst (wb_entries r) = map fst (wb_entries b)" by (simp add: r_def comp_def split_def)
  moreover have "wbook_balance r = wbook_balance b"
    by (simp add: wbook_balance_def r_def comp_def split_def restored_balance)
  moreover have "if wbook_all_utxos b = [] then r = b else wbook_to_json r = Inl AttributeError"
  proof (cases "wbook_all_utxos b = []")
    case True
    then have "\<And>e. e \<in> set (wb_entries b) \<Longrightarrow> (\<lambda>(a, d). (a, restored_derived d)) e = e"
      by (auto simp: wbook_all_utxos_def restored_derived_def)
    then have "map (\<lambda>(a, d). (a, restored_derived d)) (wb_entries b) = wb_entries b" by (rule map_idI)
    with True show ?thesis by (simp add: r_def)
  next
    case False
    moreover have "\<forall>e \<in> set (wb_entries b). wentry_ok e" using ok by (simp add: wbook_ok_def)
    ultimately have "mapR write_entry (map (\<lambda>(a, d). (a, restored_derived d)) (wb_entries b)) = Inl AttributeError"
      unfolding wbook_all_utxos_def by (simp only: restored_entries_to_dict if_False)
    then have "wbook_to_json r = Inl AttributeError" by (simp add: wbook_to_json_def r_def)
    with False show ?thesis by (simp only: if_False)
  qed
  ultimately show ?thesis using doc unfolding b_def [symmetric] by blast
qed

definition one_utxo :: wallet_utxo where
  "one_utxo = \<lparr>wu_outpoint = OutBytes [1, 2], wu_amount = 5, wu_script = [0x51], wu_height = Some 7, wu_coinbase = False\<rparr>"

definition one_derived :: derived where
  "one_derived = \<lparr>da_bip = BIP44, da_account = 0, da_change = 0, da_index = 0, da_address = ''1a'', da_pubkey = [2],
     da_used = False, da_utxos = []\<rparr>"

lemma restored_book_cannot_be_saved_witness:
  "\<exists>doc restored.
     wbook_to_json (wbook_run [Add_Derived one_derived, Update_Utxos ''1a'' [one_utxo]] (new_book 20)) = Inr doc
     \<and> wbook_from_json doc 20 = Inr restored \<and> wbook_balance restored = 5 \<and> wbook_to_json restored = Inl AttributeError"
proof -
  let ?calls = "[Add_Derived one_derived, Update_Utxos ''1a'' [one_utxo]]"
  have run: "wb_entries (wbook_run ?calls (new_book 20)) = [(''1a'', one_derived\<lparr>da_utxos := [one_utxo], da_used := True\<rparr>)]"
    by (simp add: wbook_run_def wbook_step_def new_book_def wbook_add_def wbook_update_utxos_def wbook_get_def
        change_derived_def one_derived_def)
  have "list_all raw_call ?calls" by (simp add: one_derived_def one_utxo_def raw_utxo_def)
  from restored_book_cannot_be_saved [OF this, of 20] show ?thesis
    by (simp add: run wbook_balance_def wbook_all_utxos_def derived_balance_def) (auto simp: one_utxo_def)
qed

section \<open>Keys and addresses of a wallet\<close>

text \<open>
  C25: Every key a wallet derives is a private key of the wallet's version at the depth of its path, and the text
  of the key, and of its public key, is read back to the very same key: up to depth 255. A deeper key can be
  derived, but it has no text: \<^verbatim>\<open>to_bytes\<close> raises \<^verbatim>\<open>OverflowError\<close>.
\<close>

theorem derived_keys_round_trip:
  assumes "digest_sizes H" "mac_sizes P" "length version = 4"
    and "wallet_from_seed P seed version = Inr w" "derive_path E H P (wl_master w) path = Inr k"
  shows "is_private k \<and> xk_version k = version \<and> xk_depth k = int (path_levels path)
    \<and> (\<forall>k' \<in> {k} \<union> {pub. get_pubkey E k = Inr pub}.
         if path_levels path \<le> 255 then \<exists>text. xkey_address H k' = Inr text \<and> from_address H text = Inr k'
         else xkey_address H k' = Inl OverflowError)"
proof -
  note wf = wallet_keys_wf [OF assms]
  have "if path_levels path \<le> 255 then \<exists>text. xkey_address H k' = Inr text \<and> from_address H text = Inr k'
         else xkey_address H k' = Inl OverflowError" if "xkey_wf k'" "xk_depth k' = xk_depth k" for k'
    using xkey_text_round_trip [OF that(1) assms(1)] that(2) wf(4) by simp
  then show ?thesis using wf get_pubkey_Inr [of E k] by auto
qed

text \<open>
  C26: A wallet derives addresses for BIP44 only. \<^verbatim>\<open>derive_address\<close> either raises and leaves the wallet as it was,
  which it always does for BIP49, BIP84 and BIP86, whose constructors ask for the hash or the x coordinate of a key
  and are given the compressed key; or it is BIP44, the key is the one the five steps
  \<open>44', 0', account', change, index\<close> lead to, the address is the Base58Check text of the key's hash and the address
  book, and nothing else, has the new entry. For BIP44 it raises only if one of the steps or the public key does.
\<close>

theorem wallet_addresses_are_bip44:
  assumes "digest_sizes H" "mac_sizes P" "xkey_wf (wl_master w)"
  shows "case derive_address E H P bip account change index w of
      (Inl e, w') \<Rightarrow> w' = w \<and> (bip = BIP44 \<longrightarrow>
         bindR (foldR (derive_child E H P) (wl_master w) (bip44_steps account change index)) (get_pubkey E) = Inl e)
    | (Inr d, w') \<Rightarrow> bip = BIP44
        \<and> (\<exists>pub. bindR (foldR (derive_child E H P) (wl_master w) (bip44_steps account change index)) (get_pubkey E)
              = Inr pub \<and> da_pubkey d = xk_data pub)
        \<and> da_address d = encode_base58check H (hash160 H (da_pubkey d)) [0x00]
        \<and> w' = w\<lparr>wl_book := wbook_add d (wl_book w)\<rparr> \<and> wbook_get (wl_book w') (da_address d) = Inr d"
proof (cases "bindR (derive_path E H P (wl_master w) (derivation_text bip account change index)) (get_pubkey E)")
  case (Inl e)
  then show ?thesis using bip44_path [of bip E H P "wl_master w" account change index]
    by (auto simp: derive_address_raises)
next
  case (Inr pub)
  then obtain key where key: "derive_path E H P (wl_master w) (derivation_text bip account change index) = Inr key"
    "get_pubkey E key = Inr pub" by auto
  note run = derive_address_run [OF key]
  have len: "length (xk_data pub) = 33"
    using get_pubkey_Inr [OF key(2)] derive_path_Inr [OF key(1) assms] by (simp add: is_public_def COORD_BYTES_def)
  show ?thesis
  proof (cases "bip = BIP44")
    case True
    then show ?thesis using Inr bip44_path [OF True, of E H P "wl_master w" account change index]
      by (auto simp: run [unfolded True] derivation_address_bip44 [OF assms(1)] Let_def wbook_get_update)
  next
    case False
    then show ?thesis using derivation_address_wrong [OF False len, of H] by (auto simp: run)
  qed
qed

section \<open>A wallet over the small curve\<close>

lemma tiny_wallet:
  "\<exists>w. wallet_from_seed constant_prims [1] BIP44_XPRV = Inr w \<and> xkey_wf (wl_master w)
    \<and> is_private (wl_master w) \<and> be_val (xk_data (wl_master w)) mod 8 = 1"
proof -
  obtain m where m: "from_master_seed constant_prims [1] BIP44_XPRV = Inr m" "xkey_wf m" "is_private m"
    using master_key_wf [of constant_prims BIP44_XPRV "[1]"] by (auto simp: BIP44_XPRV_def)
  moreover have "xk_data m = replicate 32 1"
    using m(1) by (auto simp: from_master_seed_def Let_def new_xkey_Inr_iff hmac_sha512_def constant_prims_def
        COORD_BYTES_def)
  ultimately show ?thesis using constant_tweak by (simp add: wallet_from_seed_def)
qed

lemma tiny_path:
  assumes "is_private m" "be_val (xk_data m) mod 8 = 1"
  shows "\<exists>k pub. foldR (derive_child tiny_curve pad_hashes constant_prims) m (bip44_steps 0 0 0) = Inr k
    \<and> get_pubkey tiny_curve k = Inr pub"
proof -
  let ?d = "derive_child tiny_curve pad_hashes constant_prims"
  have H: "0 \<le> 44 + HARDENED_OFFSET" "44 + HARDENED_OFFSET < 2 ^ 32" "0 \<le> HARDENED_OFFSET"
    "HARDENED_OFFSET < 2 ^ 32" by (simp_all add: HARDENED_OFFSET_def)
  obtain k1 where k1: "?d m (44 + HARDENED_OFFSET) = Inr k1" "is_private k1" "be_val (xk_data k1) mod 8 = 2"
    using tiny_child [OF assms _ _ H(1,2)] by auto
  obtain k2 where k2: "?d k1 HARDENED_OFFSET = Inr k2" "is_private k2" "be_val (xk_data k2) mod 8 = 3"
    using tiny_child [OF k1(2,3) _ _ H(3,4)] by auto
  obtain k3 where k3: "?d k2 HARDENED_OFFSET = Inr k3" "is_private k3" "be_val (xk_data k3) mod 8 = 4"
    using tiny_child [OF k2(2,3) _ _ H(3,4)] by auto
  obtain k4 where k4: "?d k3 0 = Inr k4" "is_private k4" "be_val (xk_data k4) mod 8 = 5"
    using tiny_child [OF k3(2,3), of 0] by auto
  obtain k5 where k5: "?d k4 0 = Inr k5" "is_private k5" "be_val (xk_data k5) mod 8 = 6"
    "length (xk_parent k5) = 4" "length (xk_chain k5) = 32"
    using tiny_child [OF k4(2,3), of 0] by auto
  obtain b where "private_to_public tiny_curve (xk_data k5) = Inr b"
    using tiny_public [of "xk_data k5"] k5(3) by auto
  then have "\<exists>pub. get_pubkey tiny_curve k5 = Inr pub"
    using k5(2,4,5)
    by (auto simp: get_pubkey_def is_public_def is_private_def new_xkey_def CHAIN_LENGTH_def)
  with k1(1) k2(1) k3(1) k4(1) k5(1) show ?thesis by (simp add: bip44_steps_def)
qed


lemma derived_keys_round_trip_witness:
  "\<exists>w k text. wallet_from_seed constant_prims [1] BIP44_XPRV = Inr w
    \<and> derive_path tiny_curve pad_hashes constant_prims (wl_master w) (derivation_text BIP44 0 0 0) = Inr k
    \<and> xk_depth k = 5 \<and> xkey_address pad_hashes k = Inr text \<and> from_address pad_hashes text = Inr k"
proof -
  obtain w where w: "wallet_from_seed constant_prims [1] BIP44_XPRV = Inr w" "is_private (wl_master w)"
    "be_val (xk_data (wl_master w)) mod 8 = 1" using tiny_wallet by blast
  obtain k where k: "derive_path tiny_curve pad_hashes constant_prims (wl_master w) (derivation_text BIP44 0 0 0) = Inr k"
    using tiny_path [OF w(2,3)] derive_path_bip [of tiny_curve pad_hashes constant_prims "wl_master w" BIP44 0 0 0]
    by (auto simp: bip44_steps_def)
  have levels: "path_levels (derivation_text BIP44 0 0 0) = 5"
    by (simp add: path_levels_def derivation_text_def str_int_def dec_str_def digits_base.simps hex_digit_def)
  have "length BIP44_XPRV = 4" by (simp add: BIP44_XPRV_def)
  from derived_keys_round_trip [OF pad_hashes_digest_sizes constant_prims_sizes this w(1) k]
  show ?thesis using w(1) k by (simp add: levels)
qed

lemma wallet_addresses_are_bip44_witness:
  "\<exists>w d e. wallet_from_seed constant_prims [1] BIP44_XPRV = Inr w
    \<and> fst (derive_address tiny_curve pad_hashes constant_prims BIP44 0 0 0 w) = Inr d
    \<and> derive_address tiny_curve pad_hashes constant_prims BIP84 0 0 0 w = (Inl e, w)"
proof -
  obtain w where w: "wallet_from_seed constant_prims [1] BIP44_XPRV = Inr w" "xkey_wf (wl_master w)"
    "is_private (wl_master w)" "be_val (xk_data (wl_master w)) mod 8 = 1" using tiny_wallet by blast
  note rule = wallet_addresses_are_bip44 [OF pad_hashes_digest_sizes constant_prims_sizes w(2), where E = tiny_curve and account = 0 and change = 0 and index = 0]
  have "\<exists>d. fst (derive_address tiny_curve pad_hashes constant_prims BIP44 0 0 0 w) = Inr d"
    using rule [where bip = BIP44] tiny_path [OF w(3,4)] by (auto split: prod.splits sum.splits)
  moreover have "\<exists>e. derive_address tiny_curve pad_hashes constant_prims BIP84 0 0 0 w = (Inl e, w)"
    using rule [where bip = BIP84] by (auto split: prod.splits sum.splits)
  ultimately show ?thesis using w(1) by blast
qed

end
