(* ===== verification/Spec2Isabelle.thy ===== *)
theory Spec2Isabelle
  imports Script_Runs Sig_Hash_Facts Script_Key_Facts Opcode_Facts Parser_Facts Transaction_Facts Chain_Params
    Header_Facts Pool_Properties Message_Types Book_Facts Node_Runs Wallet_Book
begin

text \<open>
  \<^bold>\<open>A verification library for bitclone, a Bitcoin node in Python.\<close>

  The program is \<^verbatim>\<open>src/src\<close>. Bytes arrive from peers, files or the wallet; codecs turn them into
  transactions and blocks; the script engine decides whether an input may spend its output; transaction and
  block validation use it; the block chain keeps the index of headers, the set of unspent outputs and the
  undo data; the memory pool holds transactions that wait for a block.

  \<^bold>\<open>Conventions.\<close> \<open>Prelude\<close>: \<open>bytes\<close> are lists of 8-bit words; Python's integers are \<open>int\<close>;
  a call that may raise is a \<open>result\<close>, with \<open>Inl\<close> the exception class (messages are dropped) and
  \<open>Inr\<close> the value; a byte stream is the list of bytes still to be read. The digests of
  \<^verbatim>\<open>hashlib\<close> are the fields of a record \<open>hashes\<close> and the strict DER reader of a third-party package is
  an argument \<open>der_decoder\<close>, so every theorem holds for all of them. Loops are structural recursions or have
  termination proofs; where the program could run for ever the model takes fuel and answers
  \<open>NoReturn\<close> when it runs out. Log messages, traces and dictionaries for display are left out, except
  where building a message can raise.

  \<^bold>\<open>Theories and the code they model.\<close>

  \<^item> \<open>Byte_Stream\<close>: \<^verbatim>\<open>core/byte_stream.py\<close>, stream reads and compact sizes.
  \<^item> \<open>Chain_Params\<close>: \<^verbatim>\<open>core/chainparams.py\<close>, flags and the parameters of the four networks.
  \<^item> \<open>Bit_Num\<close>, \<open>Bit_Stack\<close>: \<^verbatim>\<open>script/stack.py\<close>, script numbers and the stack.
  \<^item> \<open>Opcodes\<close>, \<open>Opcode_Facts\<close>: \<^verbatim>\<open>script/opcodes/*.py\<close> and \<^verbatim>\<open>script/opcode_map.py\<close>: every opcode
    function and what it does to the stacks.
  \<^item> \<open>Script_Parser\<close>, \<open>Parser_Facts\<close>: \<^verbatim>\<open>script/parser.py\<close>, \<^verbatim>\<open>script/stack_ops.py\<close> and the instruction
    reader and conditional block splitter of \<^verbatim>\<open>script/script_engine.py\<close>: both readers agree, pushes round trip.
  \<^item> \<open>Script_Context\<close>: \<^verbatim>\<open>script/context.py\<close>, the two kinds of execution context.
  \<^item> \<open>Sig_Hash\<close>, \<open>Sig_Hash_Facts\<close>: \<^verbatim>\<open>script/sig_ops.py\<close>, signature hashes, lax DER, verification.
  \<^item> \<open>Script_Engine\<close>, \<open>Script_Engine_Facts\<close>, \<open>Script_Runs\<close>: \<^verbatim>\<open>script/script_engine.py\<close>. The state of
    \<^verbatim>\<open>ScriptEngine\<close> is the record \<open>engine\<close>; the loop ends because every round reads at least one
    byte and a conditional block is shorter than the script that holds it. The lemmas
    keep the stack bounds through every handler and compute whole runs.
  \<^item> \<open>Script_Keys\<close>, \<open>Script_Key_Facts\<close>: \<^verbatim>\<open>script/scriptpubkeys.py\<close>, \<^verbatim>\<open>script/scriptsigs.py\<close>,
    \<^verbatim>\<open>script/standard_templates.py\<close>, \<^verbatim>\<open>script/spend_classification.py\<close>: patterns and classifiers.
  \<^item> \<open>Transactions\<close>, \<open>Transaction_Facts\<close>: \<^verbatim>\<open>tx/tx.py\<close>, codecs, identifiers, weight, loaded transactions.
  \<^item> \<open>Tx_Validation\<close>: \<^verbatim>\<open>tx/validation.py\<close>, the checks shared by blocks and memory pool.
  \<^item> \<open>Merkle_Trees\<close>, \<open>Target_Bits\<close>, \<open>Blocks\<close>: \<^verbatim>\<open>data/merkle_trees.py\<close>, \<^verbatim>\<open>data/target_bits.py\<close>,
    \<^verbatim>\<open>block/block.py\<close>.
  \<^item> \<open>Modular\<close>, \<open>Elliptic_Curve\<close>, \<open>Signatures\<close>: \<^verbatim>\<open>cryptography/ecc*.py\<close>, \<^verbatim>\<open>ecdsa.py\<close>,
    \<^verbatim>\<open>schnorr.py\<close>, \<^verbatim>\<open>data/ecc_keys.py\<close>: curve arithmetic, keys and signatures.
  \<^item> \<open>Taproot\<close>: \<^verbatim>\<open>data/taproot.py\<close>. \<open>Hash_Functions\<close>: \<^verbatim>\<open>cryptography/hash_functions.py\<close>.
    \<open>Encoding\<close>, \<open>Bech32\<close>: \<^verbatim>\<open>data/encoding.py\<close>, \<^verbatim>\<open>cryptography/bech32.py\<close>.
  \<^item> \<open>State_Result\<close>: actions, methods that change an object and may raise; \<open>keeps\<close> says what they preserve.
  \<^item> \<open>Block_Store\<close>: \<^verbatim>\<open>database/block_files.py\<close> and \<^verbatim>\<open>database/block_store.py\<close>, the directory of block files as a
    list of numbered files; the locale \<open>body_store\<close> is what the database asks of a store.
  \<^item> \<open>Chain_DB\<close>, \<open>Chain_DB_Facts\<close>: \<^verbatim>\<open>database/database.py\<close>. The tables of \<^verbatim>\<open>BitCloneDatabase\<close> are the fields of the
    record \<open>chain_db\<close>; primary keys are enforced by the operations that insert. The walk over the index has the
    number of rows as fuel: a longer walk has met an entry twice and would never end.
  \<^item> \<open>Orphan_Blocks\<close>: \<^verbatim>\<open>blockchain/orphan_pool.py\<close>, blocks that wait for a parent.
  \<^item> \<open>Chain_Rules\<close>, \<open>Chain_Rules_Facts\<close>, \<open>Height_Commitment\<close>: the checks of \<^verbatim>\<open>blockchain/blockchain.py\<close>, which read
    the cached tip and the database, \<open>chain_view\<close>: subsidy, difficulty, signature operations, coinbase, commitment.
  \<^item> \<open>Blockchain\<close>: the operations of \<^verbatim>\<open>blockchain/blockchain.py\<close> that change the chain, as actions on the record
    \<open>blockchain\<close>. \<open>add_block\<close> calls itself for the orphans a block releases; each leaves the pool first, so one
    more than the size of the pool is fuel enough.

  \<^item> \<open>Ledger\<close>: the abstract ledger, which reads unspent outputs directly off the inputs and outputs of the blocks, and the
    refinement: connecting, disconnecting and reorganising keep the table of outputs equal to it, with the undo data that
    takes each block back.
  \<^item> \<open>Chain_Facts\<close>, \<open>Header_Facts\<close>: adding a block ends when the bodies of the calls it leads to end (\<open>tried\<close>; the walks through
    the index do when parents are lower); a failed reorganisation changes nothing but the marks on the branch of the
    candidate that was rejected; stored headers link, with heights that count up.
  \<^item> \<open>Double_Arith\<close>: the floats of the fee rates, as rationals rounded to 53 bits, half to even.
  \<^item> \<open>Tx_Orphans\<close>: \<^verbatim>\<open>mempool/orphan_pool.py\<close> and \<^verbatim>\<open>mempool/policy.py\<close>. \<open>Mempool\<close>: \<^verbatim>\<open>mempool/mempool.py\<close>, the record
    \<open>mempool\<close>; every loop over the entries has their number as fuel and removes or selects one in each round.
    \<open>Mempool_Facts\<close>, \<open>Pool_Properties\<close>: the books of the pool over all its runs, admission, templates.

  \<^item> \<open>Network_Data\<close>: \<^verbatim>\<open>network/datatypes\<close> and \<^verbatim>\<open>data/ip_utils.py\<close>, what messages carry. \<open>Messages\<close>: \<^verbatim>\<open>network/messages\<close>,
    the header, one constructor per message class, the registry, and \<open>recv_one\<close> of \<^verbatim>\<open>network/transport.py\<close>.
    \<open>Message_Facts\<close>: what is written is read back, what is taken was framed. \<open>Message_Types\<close>: what is parsed is well
    typed, and writing a well-typed value never raises, an interface (\<open>typed_codec\<close>) with an interpretation per structure.

  \<^item> \<open>Peers\<close>, \<open>Peer_Facts\<close>: \<^verbatim>\<open>network/peer.py\<close>, \<^verbatim>\<open>peer_discipline.py\<close>, \<^verbatim>\<open>inventory.py\<close> and the state of
    \<^verbatim>\<open>keepalive.py\<close>: a host's standing is that of its own violations, an object is asked for from one peer at a time.
    \<open>Address_Book\<close>, \<open>Book_Facts\<close>: \<^verbatim>\<open>network/peer_address_book.py\<close> and the retry times of \<^verbatim>\<open>peer_manager.py\<close>.
  \<^item> \<open>Node\<close>: \<^verbatim>\<open>node/node.py\<close>, \<^verbatim>\<open>network/header_sync.py\<close>, the connections of \<^verbatim>\<open>network/transport.py\<close> and the maintenance
    of \<^verbatim>\<open>keepalive.py\<close> and \<^verbatim>\<open>peer_manager.py\<close>, as actions on the record \<open>node\<close>: the chain, the pool and the peers together.
    What the network does is in the environment \<open>node_env\<close>. The loop of \<^verbatim>\<open>sync_headers\<close> takes fuel, since a peer may send
    full batches for ever.
  \<^item> \<open>Mining\<close>, \<open>Mining_Facts\<close>: the block template of the node and \<^verbatim>\<open>mining/miner.py\<close>; the search ends because a nonce has
    32 bits.
  \<^item> \<open>Node_Links\<close>, \<open>Node_Facts\<close>, \<open>Node_Runs\<close>: what a node keeps through every run of its operations, on the interface
    \<open>node_parts\<close> that says what it asks of chain and pool; what happens to a peer whose message raises.

  \<^item> \<open>Extended_Keys\<close>: \<^verbatim>\<open>wallet/xkeys.py\<close>; the derivation of a child tries the next index when the tweak is zero and
    ends because an index has 32 bits. \<open>Mnemonics\<close>: \<^verbatim>\<open>wallet/mnemonic.py\<close>, the valid phrases are the generated ones.
    HMAC and PBKDF2 of the standard library are the fields of the record \<open>wallet_prims\<close>.
  \<^item> \<open>Wallets\<close>: \<^verbatim>\<open>wallet/wallet.py\<close>, \<^verbatim>\<open>wallet/derivation.py\<close>, \<^verbatim>\<open>wallet/address_book.py\<close>, \<^verbatim>\<open>wallet/tx_builder.py\<close>.
    \<open>Wallet_Facts\<close>, \<open>Wallet_Book\<close>: paths are read as they are written, keys are read back from their text, which
    addresses can be derived, what storing and restoring the address book does.
  \<^item> \<open>Tiny_Curve\<close>: a small curve on which closed instances are computed.

  \<^bold>\<open>Interfaces.\<close> The locales \<open>codec\<close> and \<open>fixed_codec\<close> of \<open>Prelude\<close> state what a serialiser and its
  parser promise each other; every format read from a stream is an interpretation, and counted lists, prefix
  freedom and injectivity come from the locale.
  The locale \<open>body_store\<close> is interpreted on the archival and on the pruned store, \<open>node_parts\<close> on block chain and
  memory pool.

  \<^bold>\<open>Not modelled.\<close> Sockets and threads (\<^verbatim>\<open>network/listener.py\<close> and the worker loops), name resolution
  (\<^verbatim>\<open>dns_seeds.py\<close>), the HTTP interface (\<^verbatim>\<open>api/\<close>), the command line, configuration files, the JSON-RPC client, traces,
  inspection and other display: they are input and output around the operations above, as is the file of the
  wallet's address book. \<^verbatim>\<open>script/tx_engine.py\<close>: it imports a class \<^verbatim>\<open>SignatureEngine\<close> that \<^verbatim>\<open>script/sig_ops.py\<close> does
  not define, so it cannot be loaded. The parser of textual addresses (\<^verbatim>\<open>ipaddress\<close>) is a parameter.
\<close>

end
